(* ===== verification/Prelude.thy ===== *)
theory Prelude
  imports Main "HOL-Library.Char_ord" "HOL-Library.List_Lexorder" "HOL-Library.Sublist"
    "HOL-Library.Multiset"
begin

text \<open>
  Shared material of the development.

  Go values are represented as follows. A Go \<^verbatim>\<open>string\<close> is a sequence of bytes, here
  \<^typ>\<open>string\<close>; a Go \<^verbatim>\<open>map\<close> is a partial function \<open>'k \<rightharpoonup> 'v\<close> (or an association list where
  the code ranges over it); \<^verbatim>\<open>time.Time\<close> and \<^verbatim>\<open>time.Duration\<close> are \<^typ>\<open>int\<close> (nanoseconds),
  and every operation that reads the clock takes the current time as an argument \<open>now\<close>;
  a function that returns a value and an error returns a sum, \<open>Inl\<close> for the error.
  Every operation that the code runs under a mutex is one state transformer.
\<close>

named_theorems inv_rules \<open>preservation of the component invariants by the operations\<close>
named_theorems model_defs \<open>definitions unfolded in the proofs of functional behaviour\<close>

type_synonym ('e, 'a) result = "'e + 'a"

abbreviation err :: "'e \<Rightarrow> ('e, 'a) result" where
  "err \<equiv> Inl"

abbreviation ok :: "'a \<Rightarrow> ('e, 'a) result" where
  "ok \<equiv> Inr"

section \<open>The Go string functions the program uses\<close>

text \<open>
  \<^verbatim>\<open>strings.ToLower\<close>, \<^verbatim>\<open>strings.HasPrefix\<close>, \<^verbatim>\<open>strings.HasSuffix\<close>, \<^verbatim>\<open>strings.Split\<close> with a
  one-byte separator, \<^verbatim>\<open>strings.Join\<close> and \<^verbatim>\<open>strings.TrimSpace\<close>. Lower-casing and trimming
  are modelled on ASCII bytes (host names and port lists are ASCII); other bytes are
  left as they are.
\<close>

definition lower_char :: "char \<Rightarrow> char" where
  "lower_char c = (let n = (of_char c :: nat) in if 65 \<le> n \<and> n \<le> 90 then char_of (n + 32) else c)"

definition to_lower :: "string \<Rightarrow> string" where
  "to_lower s = map lower_char s"

definition has_prefix :: "string \<Rightarrow> string \<Rightarrow> bool" where
  "has_prefix s p \<longleftrightarrow> take (length p) s = p"

definition has_suffix :: "string \<Rightarrow> string \<Rightarrow> bool" where
  "has_suffix s p \<longleftrightarrow> length p \<le> length s \<and> drop (length s - length p) s = p"

fun split_on :: "char \<Rightarrow> string \<Rightarrow> string list" where
  "split_on c [] = [[]]"
| "split_on c (x # xs) =
     (if x = c then [] # split_on c xs
      else (case split_on c xs of [] \<Rightarrow> [[x]] | y # ys \<Rightarrow> (x # y) # ys))"

fun join_with :: "string \<Rightarrow> string list \<Rightarrow> string" where
  "join_with sep [] = []"
| "join_with sep [x] = x"
| "join_with sep (x # y # ys) = x @ sep @ join_with sep (y # ys)"

definition is_space :: "char \<Rightarrow> bool" where
  "is_space c \<longleftrightarrow> (let n = (of_char c :: nat) in n = 32 \<or> (9 \<le> n \<and> n \<le> 13))"

definition trim_space :: "string \<Rightarrow> string" where
  "trim_space s = rev (dropWhile is_space (rev (dropWhile is_space s)))"

lemma lower_char_idem [simp]: "lower_char (lower_char c) = lower_char c"
  by (simp add: lower_char_def Let_def)

lemma to_lower_idem [simp]: "to_lower (to_lower s) = to_lower s"
  by (simp add: to_lower_def)

lemma has_prefix_iff: "has_prefix s p \<longleftrightarrow> prefix p s"
  by (auto simp: has_prefix_def prefix_def) (metis append_take_drop_id)

lemma has_suffix_iff: "has_suffix s p \<longleftrightarrow> suffix p s"
  by (auto simp: has_suffix_def suffix_def) (metis append_take_drop_id)

lemma has_prefix_Nil [simp]: "has_prefix s []"
  by (simp add: has_prefix_def)

lemma has_prefix_refl [simp]: "has_prefix s s"
  by (simp add: has_prefix_def)

lemma split_on_not_Nil [simp]: "split_on c s \<noteq> []"
  by (induction s) (auto split: list.splits)

lemma join_split_on [simp]: "join_with [c] (split_on c s) = s"
proof (induction s)
  case (Cons x xs)
  then show ?case
    by (cases "split_on c xs"; cases "tl (split_on c xs)") (auto split: list.splits)
qed simp

lemma split_on_no_sep: "c \<notin> set s \<Longrightarrow> split_on c s = [s]"
  by (induction s) auto

lemma split_on_append_sep:
  "c \<notin> set s \<Longrightarrow> split_on c (s @ c # t) = s # split_on c t"
  by (induction s) auto

section \<open>Finite maps and association lists\<close>

lemma map_upd_None_self [simp]: "m k = None \<Longrightarrow> m(k := None) = m"
  by (rule ext) simp

lemma ran_upd_None_subset: "ran (m(k := None)) \<subseteq> ran m"
  by (auto simp: ran_def)

text \<open>A Go map that the code measures or ranges over is an association list; writing an entry
  replaces it in place, \<^verbatim>\<open>delete\<close> removes the key.\<close>

fun map_put :: "'k \<Rightarrow> 'v \<Rightarrow> ('k \<times> 'v) list \<Rightarrow> ('k \<times> 'v) list" where
  "map_put k v [] = [(k, v)]"
| "map_put k v ((k', v') # m) = (if k' = k then (k, v) # m else (k', v') # map_put k v m)"

definition map_delete :: "'k \<Rightarrow> ('k \<times> 'v) list \<Rightarrow> ('k \<times> 'v) list" where
  "map_delete k m = filter (\<lambda>kv. fst kv \<noteq> k) m"

lemma map_of_map_put [simp]: "map_of (map_put k v m) = (map_of m)(k \<mapsto> v)"
  by (induction m) auto

lemma set_map_put: "set (map_put k v m) \<subseteq> insert (k, v) (set m)"
  by (induction m) (auto split: if_splits)

lemma map_put_new: "k \<notin> fst ` set m \<Longrightarrow> map_put k v m = m @ [(k, v)]"
  by (induction m) auto

lemma keys_map_put: "fst ` set (map_put k v m) = insert k (fst ` set m)"
  using dom_map_of_conv_image_fst [of "map_put k v m"] dom_map_of_conv_image_fst [of m] by simp

lemma distinct_map_put: "distinct (map fst m) \<Longrightarrow> distinct (map fst (map_put k v m))"
  by (induction m) (auto simp: keys_map_put)

lemma map_of_map_delete: "map_of (map_delete k m) = (map_of m)(k := None)"
  by (induction m) (auto simp: map_delete_def fun_eq_iff)

lemma distinct_map_delete: "distinct (map fst m) \<Longrightarrow> distinct (map fst (map_delete k m))"
  by (simp add: map_delete_def distinct_map_filter)

lemma map_delete_absent: "map_of m k = None \<Longrightarrow> map_delete k m = m"
  by (auto simp: map_delete_def filter_id_conv map_of_eq_None_iff)

lemma map_of_filter_distinct: "distinct (map fst ps) \<Longrightarrow> map_of (filter P ps) n = (case map_of ps n of Some v \<Rightarrow> if P (n, v) then Some v else None | None \<Rightarrow> None)"
  by (induction ps) (auto split: option.splits if_splits simp: map_of_eq_None_iff rev_image_eqI dest: map_of_SomeD)

lemma ran_upd_None_unique:
  assumes "m k = Some v" and "\<And>k'. m k' = Some v \<Longrightarrow> k' = k"
  shows "ran (m(k := None)) = ran m - {v}"
proof (intro set_eqI iffI)
  fix w
  assume "w \<in> ran (m(k := None))"
  then obtain k' where k': "k' \<noteq> k" "m k' = Some w" by (auto simp: ran_def split: if_splits)
  with assms(2) [of k'] have "w \<noteq> v" by blast
  with k' show "w \<in> ran m - {v}" by (simp add: ranI)
next
  fix w
  assume "w \<in> ran m - {v}"
  then obtain k' where k': "m k' = Some w" "w \<noteq> v" by (auto simp: ran_def)
  with assms(1) have "k' \<noteq> k" by auto
  with k' show "w \<in> ran (m(k := None))" by (auto simp: ran_def)
qed

section \<open>Sorting in descending order\<close>

text \<open>
  \<^verbatim>\<open>slices.SortFunc\<close> with a comparison that inverts the order of a key. The result of any
  sorting function is determined when the keys are distinct (\<open>sort_desc_unique\<close>), so the
  choice of the algorithm does not matter.
\<close>

fun insert_desc :: "('a \<Rightarrow> 'b::linorder) \<Rightarrow> 'a \<Rightarrow> 'a list \<Rightarrow> 'a list" where
  "insert_desc key x [] = [x]"
| "insert_desc key x (y # ys) = (if key y < key x then x # y # ys else y # insert_desc key x ys)"

definition sort_desc :: "('a \<Rightarrow> 'b::linorder) \<Rightarrow> 'a list \<Rightarrow> 'a list" where
  "sort_desc key xs = foldr (insert_desc key) xs []"

lemma sort_desc_simps [simp]:
  "sort_desc key [] = []" "sort_desc key (x # xs) = insert_desc key x (sort_desc key xs)"
  by (simp_all add: sort_desc_def)

lemma mset_insert_desc [simp]: "mset (insert_desc key x xs) = add_mset x (mset xs)"
  by (induction xs) auto

lemma mset_sort_desc [simp]: "mset (sort_desc key xs) = mset xs"
  by (induction xs) auto

lemma set_sort_desc [simp]: "set (sort_desc key xs) = set xs"
  using mset_sort_desc by (metis set_mset_mset)

lemma set_insert_desc [simp]: "set (insert_desc key x xs) = insert x (set xs)"
  by (induction xs) auto

lemma sorted_insert_desc:
  "sorted_wrt (\<lambda>a b. key b \<le> key a) xs \<Longrightarrow> sorted_wrt (\<lambda>a b. key b \<le> key a) (insert_desc key x xs)"
  by (induction xs) auto

lemma sorted_sort_desc: "sorted_wrt (\<lambda>a b. key b \<le> key a) (sort_desc key xs)"
  by (induction xs) (auto intro: sorted_insert_desc)

lemma sort_desc_unique:
  assumes "mset ys = mset xs" and "sorted_wrt (\<lambda>a b. key b \<le> key a) ys" and "inj_on key (set xs)"
  shows "ys = sort_desc key xs"
proof -
  have s: "sorted (map key (rev zs))" if "sorted_wrt (\<lambda>a b. key b \<le> key a) zs" for zs
    using that by (simp add: sorted_wrt_map sorted_wrt_rev)
  have ms: "mset (rev ys) = mset (rev (sort_desc key xs))" using assms(1) by simp
  have inj: "inj_on key (set (rev ys))" using assms(1,3) by (metis set_mset_mset mset_rev)
  have "map key (rev ys) = map key (rev (sort_desc key xs))"
    using s [OF assms(2)] s [OF sorted_sort_desc]
    by (metis ms mset_map properties_for_sort)
  then have "rev ys = rev (sort_desc key xs)"
    using inj ms by (metis map_inj_on mset_eq_setD Un_absorb)
  then show ?thesis by simp
qed

lemma distinct_map_sort_desc: "distinct (map key (sort_desc key xs)) \<longleftrightarrow> distinct (map key xs)"
  by (metis mset_map mset_sort_desc mset_eq_imp_distinct_iff)

lemma find_Some_iff_in:
  "List.find P xs = Some x \<Longrightarrow> x \<in> set xs \<and> P x"
  by (induction xs) (auto split: if_splits)

lemma find_None_all: "List.find P xs = None \<longleftrightarrow> (\<forall>x \<in> set xs. \<not> P x)"
  by (induction xs) auto

lemma prefix_lex_le: "prefix p q \<Longrightarrow> p \<le> (q :: string)"
proof (induction p arbitrary: q)
  case (Cons x p)
  then show ?case by (cases q) auto
qed simp

text \<open>Among the prefixes of one string the lexicographically greater is the longer one.\<close>

lemma prefixes_of_same_lex_length:
  assumes "prefix p (s :: string)" and "prefix q s" and "q \<le> p"
  shows "length q \<le> length p"
proof -
  from assms(1,2) consider "prefix p q" | "prefix q p"
    using prefix_same_cases by blast
  then show ?thesis
  proof cases
    case 1
    then have "p \<le> q" by (rule prefix_lex_le)
    with assms(3) show ?thesis by simp
  qed (rule prefix_length_le)
qed

end
