(* ===== verification/Ports.thy ===== *)
theory Ports
  imports Prelude
begin

text \<open>
  The port manager of frps, \<^verbatim>\<open>server/ports/ports.go\<close>.

  A \<open>PortCtx\<close> is reached from two maps, \<open>usedPorts\<close> and \<open>reservedPorts\<close>, and \<open>Release\<close>
  writes through the pointer of the first so that the cleaner sees it through the
  second. The contexts therefore live in an explicit store \<open>ctxs\<close>, and the maps hold
  references into it. The iteration order of Go's \<open>range\<close> over \<open>freePorts\<close> is the
  argument \<open>order\<close>; the operating system's answers to \<open>net.Listen\<close> are the record
  \<open>net\<close>.
\<close>

section \<open>Data\<close>

definition MinPort :: int where
  "MinPort = 1"

definition MaxPort :: int where
  "MaxPort = 65535"

definition MaxPortReservedDuration :: int where
  "MaxPortReservedDuration = 24 * 60 * 60 * 1000000000"

datatype port_error =
  ErrPortAlreadyUsed | ErrPortNotAllowed | ErrPortUnAvailable | ErrNoAvailablePort

record PortsRange =
  pr_Start :: int
  pr_End :: int
  pr_Single :: int

record PortCtx =
  pc_ProxyName :: string
  pc_Port :: int
  pc_Closed :: bool
  pc_UpdateTime :: int

text \<open>What the network answers for an address and a port: whether the UDP address
  resolves, whether \<open>net.ListenUDP\<close> succeeds, whether \<open>net.Listen\<close> succeeds.\<close>

record net_env =
  resolves_udp :: "string \<Rightarrow> int \<Rightarrow> bool"
  listens_udp :: "string \<Rightarrow> int \<Rightarrow> bool"
  listens :: "string \<Rightarrow> string \<Rightarrow> int \<Rightarrow> bool"

record port_manager =
  reservedPorts :: "string \<rightharpoonup> nat"
  usedPorts :: "int \<rightharpoonup> nat"
  freePorts :: "int set"
  ctxs :: "nat \<Rightarrow> PortCtx"
  nextCtx :: nat
  bindAddr :: string
  netType :: string

section \<open>Operations\<close>

fun add_ranges :: "PortsRange list \<Rightarrow> int set \<Rightarrow> int set" where
  "add_ranges [] free = free"
| "add_ranges (pair # ps) free =
     (if pr_Single pair > 0 then add_ranges ps (insert (pr_Single pair) free)
      else add_ranges ps (free \<union> {pr_Start pair..pr_End pair}))"

definition zero_ctx :: PortCtx where
  "zero_ctx = \<lparr>pc_ProxyName = [], pc_Port = 0, pc_Closed = False, pc_UpdateTime = 0\<rparr>"

definition NewPortManager :: "string \<Rightarrow> string \<Rightarrow> PortsRange list \<Rightarrow> port_manager" where
  "NewPortManager nt addr allowPorts =
     \<lparr>reservedPorts = Map.empty, usedPorts = Map.empty,
      freePorts = (if length allowPorts > 0 then add_ranges allowPorts {} else {MinPort..MaxPort}),
      ctxs = (\<lambda>_. zero_ctx), nextCtx = 0, bindAddr = addr, netType = nt\<rparr>"

definition isPortAvailable :: "net_env \<Rightarrow> port_manager \<Rightarrow> int \<Rightarrow> bool" where
  "isPortAvailable net pm port =
     (if netType pm = ''udp''
      then resolves_udp net (bindAddr pm) port \<and> listens_udp net (bindAddr pm) port
      else listens net (netType pm) (bindAddr pm) port)"

text \<open>The four statements every successful branch of \<open>Acquire\<close> runs: the new context goes
  into both maps, the port leaves the free set (and the deferred function sets the
  context's \<open>Port\<close>).\<close>

definition grant :: "int \<Rightarrow> string \<Rightarrow> int \<Rightarrow> port_manager \<Rightarrow> port_manager" where
  "grant now name realPort pm =
     pm\<lparr>usedPorts := (usedPorts pm)(realPort \<mapsto> nextCtx pm),
        reservedPorts := (reservedPorts pm)(name \<mapsto> nextCtx pm),
        freePorts := freePorts pm - {realPort},
        ctxs := (ctxs pm)(nextCtx pm := \<lparr>pc_ProxyName = name, pc_Port = realPort,
                                         pc_Closed = False, pc_UpdateTime = now\<rparr>),
        nextCtx := Suc (nextCtx pm)\<rparr>"

definition maxTryTimes :: nat where
  "maxTryTimes = 5"

text \<open>The loop over the free ports: at most \<open>maxTryTimes\<close> candidates are probed.\<close>

fun try_random :: "(int \<Rightarrow> bool) \<Rightarrow> nat \<Rightarrow> int list \<Rightarrow> int option" where
  "try_random avail cnt [] = None"
| "try_random avail cnt (k # ks) =
     (if Suc cnt > maxTryTimes then None
      else if avail k then Some k else try_random avail (Suc cnt) ks)"

definition acquire_random ::
  "net_env \<Rightarrow> int list \<Rightarrow> int \<Rightarrow> string \<Rightarrow> port_manager \<Rightarrow> (port_error, int) result \<times> port_manager" where
  "acquire_random net order now name pm =
     (case try_random (isPortAvailable net pm) 0 order of
        None \<Rightarrow> (err ErrNoAvailablePort, pm)
      | Some k \<Rightarrow> (if k = 0 then err ErrNoAvailablePort else ok k, grant now name k pm))"

definition acquire_specified ::
  "net_env \<Rightarrow> int \<Rightarrow> string \<Rightarrow> int \<Rightarrow> port_manager \<Rightarrow> (port_error, int) result \<times> port_manager" where
  "acquire_specified net now name port pm =
     (if port \<in> freePorts pm then
        if isPortAvailable net pm port then (ok port, grant now name port pm)
        else (err ErrPortUnAvailable, pm)
      else if usedPorts pm port \<noteq> None then (err ErrPortAlreadyUsed, pm)
      else (err ErrPortNotAllowed, pm))"

definition Acquire ::
  "net_env \<Rightarrow> int list \<Rightarrow> int \<Rightarrow> string \<Rightarrow> int \<Rightarrow> port_manager \<Rightarrow> (port_error, int) result \<times> port_manager" where
  "Acquire net order now name port pm =
     (if port = 0 then
        (case reservedPorts pm name of
           Some r \<Rightarrow>
             (let p = pc_Port (ctxs pm r) in
              if isPortAvailable net pm p then (ok p, grant now name p pm)
              else acquire_random net order now name pm)
         | None \<Rightarrow> acquire_random net order now name pm)
      else acquire_specified net now name port pm)"

definition Release :: "int \<Rightarrow> int \<Rightarrow> port_manager \<Rightarrow> port_manager" where
  "Release now port pm =
     (case usedPorts pm port of
        None \<Rightarrow> pm
      | Some r \<Rightarrow>
          pm\<lparr>freePorts := insert port (freePorts pm),
             usedPorts := (usedPorts pm)(port := None),
             ctxs := (ctxs pm)(r := (ctxs pm r)\<lparr>pc_Closed := True, pc_UpdateTime := now\<rparr>)\<rparr>)"

text \<open>One round of the cleaning goroutine.\<close>

definition cleanReservedPorts :: "int \<Rightarrow> port_manager \<Rightarrow> port_manager" where
  "cleanReservedPorts now pm =
     pm\<lparr>reservedPorts := (\<lambda>name.
          case reservedPorts pm name of
            None \<Rightarrow> None
          | Some r \<Rightarrow>
              (if pc_Closed (ctxs pm r) \<and> now - pc_UpdateTime (ctxs pm r) > MaxPortReservedDuration
               then None else Some r))\<rparr>"

section \<open>Sequences of operations\<close>

text \<open>A history of the manager: each element is one call (or one cleaning round) with the
  environment it saw.\<close>

datatype port_op =
    OpAcquire net_env "int list" int string int
  | OpRelease int int
  | OpClean int

fun port_step :: "port_op \<Rightarrow> port_manager \<Rightarrow> port_manager" where
  "port_step (OpAcquire net order now name port) pm = snd (Acquire net order now name port pm)"
| "port_step (OpRelease now port) pm = Release now port pm"
| "port_step (OpClean now) pm = cleanReservedPorts now pm"

fun port_run :: "port_op list \<Rightarrow> port_manager \<Rightarrow> port_manager" where
  "port_run [] pm = pm"
| "port_run (x # xs) pm = port_run xs (port_step x pm)"

text \<open>Go ranges over the keys of \<open>freePorts\<close>: every key it yields is in the map.\<close>

fun op_ok :: "port_op \<Rightarrow> port_manager \<Rightarrow> bool" where
  "op_ok (OpAcquire net order now name port) pm \<longleftrightarrow> set order \<subseteq> freePorts pm"
| "op_ok _ pm \<longleftrightarrow> True"

fun ops_ok :: "port_op list \<Rightarrow> port_manager \<Rightarrow> bool" where
  "ops_ok [] pm \<longleftrightarrow> True"
| "ops_ok (x # xs) pm \<longleftrightarrow> op_ok x pm \<and> ops_ok xs (port_step x pm)"

section \<open>Invariant\<close>

definition allowed :: "port_manager \<Rightarrow> int set" where
  "allowed pm = freePorts pm \<union> dom (usedPorts pm)"

definition pm_inv :: "port_manager \<Rightarrow> bool" where
  "pm_inv pm \<longleftrightarrow>
     freePorts pm \<inter> dom (usedPorts pm) = {}
   \<and> (\<forall>p r. usedPorts pm p = Some r \<longrightarrow>
        r < nextCtx pm \<and> pc_Port (ctxs pm r) = p \<and> \<not> pc_Closed (ctxs pm r))
   \<and> (\<forall>n r. reservedPorts pm n = Some r \<longrightarrow>
        r < nextCtx pm \<and> pc_ProxyName (ctxs pm r) = n \<and> pc_Port (ctxs pm r) \<in> allowed pm)"

lemma pm_invD:
  assumes "pm_inv pm"
  shows "freePorts pm \<inter> dom (usedPorts pm) = {}"
    and "usedPorts pm p = Some r \<Longrightarrow> r < nextCtx pm \<and> pc_Port (ctxs pm r) = p \<and> \<not> pc_Closed (ctxs pm r)"
    and "reservedPorts pm n = Some r \<Longrightarrow>
           r < nextCtx pm \<and> pc_ProxyName (ctxs pm r) = n \<and> pc_Port (ctxs pm r) \<in> allowed pm"
  using assms by (auto simp: pm_inv_def)

lemma free_used_disjoint: "pm_inv pm \<Longrightarrow> p \<in> freePorts pm \<Longrightarrow> usedPorts pm p = None"
  by (auto dest: pm_invD(1))

lemma NewPortManager_inv [inv_rules]: "pm_inv (NewPortManager nt addr ps)"
  by (simp add: pm_inv_def NewPortManager_def)

lemma add_ranges_eq:
  "add_ranges ps free = free \<union>
     {p. \<exists>r \<in> set ps. if pr_Single r > 0 then p = pr_Single r else pr_Start r \<le> p \<and> p \<le> pr_End r}"
  by (induction ps free rule: add_ranges.induct) auto

lemma allowed_grant: "p \<in> allowed pm \<Longrightarrow> allowed (grant now name p pm) = allowed pm"
  by (auto simp: allowed_def grant_def)

lemma grant_inv:
  assumes inv: "pm_inv pm" and p: "p \<in> allowed pm"
  shows "pm_inv (grant now name p pm)"
proof -
  have a: "allowed (grant now name p pm) = allowed pm"
    by (rule allowed_grant [OF p])
  have "freePorts (grant now name p pm) \<inter> dom (usedPorts (grant now name p pm)) = {}"
    using pm_invD(1) [OF inv] by (auto simp: grant_def)
  moreover have "usedPorts (grant now name p pm) q = Some r \<Longrightarrow>
      r < nextCtx (grant now name p pm) \<and> pc_Port (ctxs (grant now name p pm) r) = q
      \<and> \<not> pc_Closed (ctxs (grant now name p pm) r)" for q r
    using pm_invD(2) [OF inv, of q r] by (auto simp: grant_def split: if_splits)
  moreover have "reservedPorts (grant now name p pm) n = Some r \<Longrightarrow>
      r < nextCtx (grant now name p pm) \<and> pc_ProxyName (ctxs (grant now name p pm) r) = n
      \<and> pc_Port (ctxs (grant now name p pm) r) \<in> allowed pm" for n r
    using pm_invD(3) [OF inv, of n r] p by (auto simp: grant_def split: if_splits)
  ultimately show ?thesis
    by (simp add: pm_inv_def a)
qed

lemma try_random_Some: "try_random avail c ks = Some k \<Longrightarrow> k \<in> set ks \<and> avail k"
  by (induction avail c ks rule: try_random.induct) (auto split: if_splits)

text \<open>Every change \<open>Acquire\<close> makes is one \<open>grant\<close> of an allowed, available port.\<close>

lemma Acquire_cases:
  assumes "pm_inv pm" and "set order \<subseteq> freePorts pm"
    and "Acquire net order now name port pm = (res, pm')"
  obtains (refused) e where "res = err e" and "pm' = pm"
  | (granted) p where "res = ok p \<or> p = 0 \<and> res = err ErrNoAvailablePort"
      and "pm' = grant now name p pm" and "p \<in> allowed pm" and "isPortAvailable net pm p"
      and "port \<noteq> 0 \<Longrightarrow> p = port \<and> res = ok p"
      and "p \<in> freePorts pm \<or> port = 0 \<and> (\<exists>r. reservedPorts pm name = Some r \<and> p = pc_Port (ctxs pm r))"
proof -
  have rnd: thesis if "acquire_random net order now name pm = (res, pm')" and "port = 0"
  proof (cases "try_random (isPortAvailable net pm) 0 order")
    case None
    with that show thesis by (auto simp: acquire_random_def intro: refused)
  next
    case (Some k)
    with assms(2) have "k \<in> freePorts pm" "isPortAvailable net pm k"
      by (auto dest: try_random_Some)
    with Some that show thesis
      by (intro granted [of k]) (auto simp: acquire_random_def allowed_def split: if_splits)
  qed
  have spc: thesis if "acquire_specified net now name port pm = (res, pm')" and "port \<noteq> 0"
    using that
    by (auto simp: acquire_specified_def allowed_def split: if_splits intro: refused granted)
  show thesis
  proof (cases "port = 0 \<and> (\<exists>r. reservedPorts pm name = Some r
                          \<and> isPortAvailable net pm (pc_Port (ctxs pm r)))")
    case True
    then obtain r where r: "reservedPorts pm name = Some r"
      "isPortAvailable net pm (pc_Port (ctxs pm r))" "port = 0" by blast
    from pm_invD(3) [OF assms(1) r(1)] have "pc_Port (ctxs pm r) \<in> allowed pm" by simp
    with r assms(3) show thesis
      by (auto simp: Acquire_def Let_def intro: granted)
  next
    case False
    with assms(3) rnd spc show thesis
      by (auto simp: Acquire_def Let_def split: if_splits option.splits)
  qed
qed

lemma Acquire_inv [inv_rules]:
  assumes "pm_inv pm" and "set order \<subseteq> freePorts pm"
  shows "pm_inv (snd (Acquire net order now name port pm))"
    and "allowed (snd (Acquire net order now name port pm)) = allowed pm"
proof -
  obtain res pm' where A: "Acquire net order now name port pm = (res, pm')" by fastforce
  have "pm_inv pm' \<and> allowed pm' = allowed pm"
    using assms A
    by (cases rule: Acquire_cases) (auto simp: grant_inv allowed_grant assms(1))
  with A show "pm_inv (snd (Acquire net order now name port pm))"
    and "allowed (snd (Acquire net order now name port pm)) = allowed pm" by auto
qed

lemma allowed_Release: "allowed (Release now port pm) = allowed pm"
  by (auto simp: allowed_def Release_def split: option.splits if_splits)

lemma Release_inv [inv_rules]:
  assumes inv: "pm_inv pm"
  shows "pm_inv (Release now port pm)"
proof (cases "usedPorts pm port")
  case None
  then show ?thesis using inv by (simp add: Release_def)
next
  case (Some r)
  have same: "usedPorts pm q = Some r \<Longrightarrow> q = port" for q
    using pm_invD(2) [OF inv] Some by metis
  have al: "allowed (Release now port pm) = allowed pm"
    by (rule allowed_Release)
  have "freePorts (Release now port pm) \<inter> dom (usedPorts (Release now port pm)) = {}"
    using pm_invD(1) [OF inv] Some by (auto simp: Release_def)
  moreover have "r' < nextCtx pm \<and> pc_Port (ctxs (Release now port pm) r') = q
      \<and> \<not> pc_Closed (ctxs (Release now port pm) r')"
    if "usedPorts (Release now port pm) q = Some r'" for q r'
  proof -
    from that Some have "usedPorts pm q = Some r'" and "q \<noteq> port"
      by (auto simp: Release_def split: if_splits)
    moreover from this have "r' \<noteq> r" using same by blast
    ultimately show ?thesis using pm_invD(2) [OF inv] Some by (simp add: Release_def)
  qed
  moreover have "reservedPorts (Release now port pm) n = Some r' \<Longrightarrow>
      r' < nextCtx pm \<and> pc_ProxyName (ctxs (Release now port pm) r') = n
      \<and> pc_Port (ctxs (Release now port pm) r') \<in> allowed pm" for n r'
    using pm_invD(3) [OF inv, of n r'] Some by (auto simp: Release_def)
  moreover have "nextCtx (Release now port pm) = nextCtx pm"
    by (simp add: Release_def split: option.split)
  ultimately show ?thesis
    by (simp add: pm_inv_def al)
qed

lemma clean_inv [inv_rules]: "pm_inv pm \<Longrightarrow> pm_inv (cleanReservedPorts now pm)"
  by (auto simp: pm_inv_def cleanReservedPorts_def allowed_def split: option.splits if_splits)

lemma allowed_clean: "allowed (cleanReservedPorts now pm) = allowed pm"
  by (simp add: allowed_def cleanReservedPorts_def)

lemma port_step_inv:
  "pm_inv pm \<Longrightarrow> op_ok x pm \<Longrightarrow> pm_inv (port_step x pm) \<and> allowed (port_step x pm) = allowed pm"
  by (cases x) (auto simp: Acquire_inv Release_inv clean_inv allowed_Release allowed_clean)

lemma port_run_inv:
  "pm_inv pm \<Longrightarrow> ops_ok xs pm \<Longrightarrow> pm_inv (port_run xs pm) \<and> allowed (port_run xs pm) = allowed pm"
  by (induction xs arbitrary: pm) (auto dest: port_step_inv)

section \<open>Reservations\<close>

text \<open>The port the manager has reserved for a proxy name, read through the store.\<close>

definition reserved_port :: "port_manager \<Rightarrow> string \<Rightarrow> int option" where
  "reserved_port pm n = map_option (\<lambda>r. pc_Port (ctxs pm r)) (reservedPorts pm n)"

text \<open>\<open>n\<close> holds a reservation of port \<open>p\<close> last touched at time \<open>t\<close> or later.\<close>

definition holds_reservation :: "port_manager \<Rightarrow> string \<Rightarrow> int \<Rightarrow> int \<Rightarrow> bool" where
  "holds_reservation pm n p t \<longleftrightarrow>
     (\<exists>r. reservedPorts pm n = Some r \<and> pc_Port (ctxs pm r) = p \<and> t \<le> pc_UpdateTime (ctxs pm r))"

text \<open>Operations that leave the reservation of \<open>n\<close> alone: no call of \<open>Acquire\<close> for \<open>n\<close>,
  releases not before \<open>t\<close>, cleaning rounds at most 24 hours after \<open>t\<close>.\<close>

fun keeps_reservation :: "string \<Rightarrow> int \<Rightarrow> port_op \<Rightarrow> bool" where
  "keeps_reservation n t (OpAcquire net order now name port) \<longleftrightarrow> name \<noteq> n"
| "keeps_reservation n t (OpRelease now port) \<longleftrightarrow> t \<le> now"
| "keeps_reservation n t (OpClean now) \<longleftrightarrow> now \<le> t + MaxPortReservedDuration"

lemma holds_reservation_grant:
  "pm_inv pm \<Longrightarrow> name \<noteq> n \<Longrightarrow> holds_reservation pm n p t \<Longrightarrow> holds_reservation (grant now name q pm) n p t"
  by (auto simp: holds_reservation_def grant_def dest: pm_invD(3))

lemma holds_reservation_step:
  assumes "pm_inv pm" and "op_ok x pm" and "keeps_reservation n t x" and "holds_reservation pm n p t"
  shows "holds_reservation (port_step x pm) n p t"
proof (cases x)
  case (OpAcquire net order now name port)
  obtain res pm' where A: "Acquire net order now name port pm = (res, pm')" by fastforce
  from OpAcquire assms(2) have "set order \<subseteq> freePorts pm" by simp
  from assms(1) this A show ?thesis
    by (cases rule: Acquire_cases)
       (use OpAcquire A assms in \<open>auto intro: holds_reservation_grant\<close>)
next
  case (OpRelease now port)
  with assms(3,4) show ?thesis
    by (auto simp: holds_reservation_def Release_def split: option.split)
next
  case (OpClean now)
  with assms(3,4) show ?thesis
    by (auto simp: holds_reservation_def cleanReservedPorts_def)
qed

lemma holds_reservation_run:
  assumes "pm_inv pm" and "ops_ok xs pm" and "list_all (keeps_reservation n t) xs"
    and "holds_reservation pm n p t"
  shows "holds_reservation (port_run xs pm) n p t"
  using assms
proof (induction xs arbitrary: pm)
  case (Cons x xs)
  then show ?case
    by (auto dest: port_step_inv intro!: Cons.IH holds_reservation_step)
qed simp

lemma Acquire_reserved:
  assumes "holds_reservation pm n p t" and "isPortAvailable net pm p"
  shows "Acquire net order now n 0 pm = (ok p, grant now n p pm)"
  using assms by (auto simp: holds_reservation_def Acquire_def Let_def)

lemma grant_reserves: "holds_reservation (grant now n p pm) n p now"
  by (simp add: holds_reservation_def grant_def)

lemma isPortAvailable_cong:
  "netType pm' = netType pm \<Longrightarrow> bindAddr pm' = bindAddr pm \<Longrightarrow>
   isPortAvailable net pm' p = isPortAvailable net pm p"
  by (simp add: isPortAvailable_def)

section \<open>The interface the other components rely on\<close>

text \<open>
  A pool of ports as its clients (the TCP and UDP proxies and the TCP groups) see it:
  a successful acquisition adds the granted port to the ports in use, a failing one
  takes none away, and a release removes exactly the released port.
\<close>

locale port_pool =
  fixes pool_inv :: "'s \<Rightarrow> bool"
    and in_use :: "'s \<Rightarrow> int set"
    and acq_ok :: "'a \<Rightarrow> 's \<Rightarrow> bool"
    and acq :: "'a \<Rightarrow> 's \<Rightarrow> (port_error, int) result \<times> 's"
    and rel :: "int \<Rightarrow> int \<Rightarrow> 's \<Rightarrow> 's"
  assumes acq_inv: "pool_inv s \<Longrightarrow> acq_ok a s \<Longrightarrow> pool_inv (snd (acq a s))"
    and rel_inv: "pool_inv s \<Longrightarrow> pool_inv (rel now p s)"
    and acq_granted: "pool_inv s \<Longrightarrow> acq_ok a s \<Longrightarrow> acq a s = (ok p, s') \<Longrightarrow> in_use s' = insert p (in_use s)"
    and acq_refused: "pool_inv s \<Longrightarrow> acq_ok a s \<Longrightarrow> acq a s = (err e, s') \<Longrightarrow> in_use s \<subseteq> in_use s'"
    and rel_frees: "pool_inv s \<Longrightarrow> in_use (rel now p s) = in_use s - {p}"
begin

text \<open>A client that holds a set of ports keeps holding it whatever is acquired, and loses
  only what is released.\<close>

lemma acq_keeps_held:
  assumes "pool_inv s" "acq_ok a s" "held \<subseteq> in_use s"
  shows "held \<subseteq> in_use (snd (acq a s))"
proof -
  obtain res s' where A: "acq a s = (res, s')" by fastforce
  with assms acq_granted [of s a _ s'] acq_refused [of s a _ s'] show ?thesis
    by (cases res) auto
qed

lemma rel_keeps_held:
  "pool_inv s \<Longrightarrow> held \<subseteq> in_use s \<Longrightarrow> p \<notin> held \<Longrightarrow> held \<subseteq> in_use (rel now p s)"
  by (auto simp: rel_frees)

lemma acq_rel:
  "pool_inv s \<Longrightarrow> acq_ok a s \<Longrightarrow> acq a s = (ok p, s') \<Longrightarrow> in_use (rel now p s') = in_use s - {p}"
  using rel_frees [of s' now p] acq_inv [of s a] acq_granted [of s a p s'] by auto

end

type_synonym acquire_args = "net_env \<times> int list \<times> int \<times> string \<times> int"

fun acquire_with :: "acquire_args \<Rightarrow> port_manager \<Rightarrow> (port_error, int) result \<times> port_manager" where
  "acquire_with (net, order, now, name, port) pm = Acquire net order now name port pm"

fun acquire_args_ok :: "acquire_args \<Rightarrow> port_manager \<Rightarrow> bool" where
  "acquire_args_ok (net, order, now, name, port) pm \<longleftrightarrow> set order \<subseteq> freePorts pm"

abbreviation ports_in_use :: "port_manager \<Rightarrow> int set" where
  "ports_in_use pm \<equiv> dom (usedPorts pm)"

lemma dom_used_grant: "ports_in_use (grant now name p pm) = insert p (ports_in_use pm)"
  by (auto simp: grant_def)

interpretation pm: port_pool pm_inv ports_in_use acquire_args_ok acquire_with Release
proof unfold_locales
  fix s a and p :: int and s' e
  assume inv: "pm_inv s" and okA: "acquire_args_ok a s"
  obtain net order now name port where a: "a = (net, order, now, name, port)"
    by (metis prod.exhaust)
  from okA a have ord: "set order \<subseteq> freePorts s" by simp
  { assume "acquire_with a s = (ok p, s')"
    then have A: "Acquire net order now name port s = (ok p, s')" by (simp add: a)
    from inv ord A show "ports_in_use s' = insert p (ports_in_use s)"
      by (cases rule: Acquire_cases) (auto simp: dom_used_grant) }
  { assume "acquire_with a s = (err e, s')"
    then have A: "Acquire net order now name port s = (err e, s')" by (simp add: a)
    from inv ord A show "ports_in_use s \<subseteq> ports_in_use s'"
      by (cases rule: Acquire_cases) (auto simp: dom_used_grant) }
  show "pm_inv (snd (acquire_with a s))"
    using inv ord by (simp add: a Acquire_inv)
next
  fix s now p assume "pm_inv s"
  then show "pm_inv (Release now p s)" by (rule Release_inv)
  show "ports_in_use (Release now p s) = ports_in_use s - {p}"
    by (auto simp: Release_def split: option.splits if_splits)
qed

section \<open>Properties\<close>

text \<open>A network on which every address resolves and every port can be bound, and one on
  which the ports of a given set are taken; used to instantiate the properties.\<close>

definition net_without :: "int set \<Rightarrow> net_env" where
  "net_without taken = \<lparr>resolves_udp = (\<lambda>_ _. True), listens_udp = (\<lambda>_ p. p \<notin> taken),
                        listens = (\<lambda>_ _ p. p \<notin> taken)\<rparr>"

definition two_ports :: port_manager where
  "two_ports = NewPortManager ''tcp'' ''0.0.0.0'' [\<lparr>pr_Start = 6000, pr_End = 6001, pr_Single = 0\<rparr>]"

lemmas port_eval = two_ports_def net_without_def NewPortManager_def Acquire_def acquire_specified_def
  acquire_random_def isPortAvailable_def grant_def Release_def cleanReservedPorts_def maxTryTimes_def

text \<open>C23. Port accounting. Whatever sequence of acquisitions, releases and cleaning rounds
  the manager has seen since it was created, every port it was configured with is either
  free or in use and never both, and no other port is in either set.\<close>

theorem port_accounting:
  assumes "ops_ok xs (NewPortManager nt addr ps)"
  shows "freePorts (port_run xs (NewPortManager nt addr ps)) \<inter>
           dom (usedPorts (port_run xs (NewPortManager nt addr ps))) = {}
       \<and> freePorts (port_run xs (NewPortManager nt addr ps)) \<union>
           dom (usedPorts (port_run xs (NewPortManager nt addr ps)))
         = freePorts (NewPortManager nt addr ps)"
  using port_run_inv [OF NewPortManager_inv assms]
  by (auto simp: pm_inv_def allowed_def NewPortManager_def)

theorem port_accounting_witness:
  "freePorts (port_run [OpAcquire (net_without {}) [] 0 ''a'' 6000] two_ports) \<union>
     dom (usedPorts (port_run [OpAcquire (net_without {}) [] 0 ''a'' 6000] two_ports))
   = freePorts two_ports"
  using port_accounting [of "[OpAcquire (net_without {}) [] 0 ''a'' 6000]" "''tcp''" "''0.0.0.0''"
      "[\<lparr>pr_Start = 6000, pr_End = 6001, pr_Single = 0\<rparr>]"]
  by (simp add: two_ports_def)

text \<open>Exclusive grant. As long as the operating system refuses to bind a port that a proxy
  is using, a port granted by \<open>Acquire\<close> was used by nobody before, is recorded under the
  requesting proxy afterwards, is the requested one if one was requested, and no other
  port's owner changes.\<close>

theorem Acquire_exclusive:
  assumes "pm_inv pm" and "set order \<subseteq> freePorts pm"
    and os: "\<forall>q. usedPorts pm q \<noteq> None \<longrightarrow> \<not> isPortAvailable net pm q"
    and "Acquire net order now name port pm = (ok p, pm')"
  shows "usedPorts pm p = None \<and> p \<in> freePorts pm \<and> p \<notin> freePorts pm'
       \<and> map_option (\<lambda>r. pc_ProxyName (ctxs pm' r)) (usedPorts pm' p) = Some name
       \<and> (port \<noteq> 0 \<longrightarrow> p = port)
       \<and> (\<forall>q. q \<noteq> p \<longrightarrow> usedPorts pm' q = usedPorts pm q)"
  using assms(1,2,4)
proof (cases rule: Acquire_cases)
  case (granted q)
  then have "q = p" by auto
  moreover have "usedPorts pm q = None" using granted(4) os by blast
  ultimately show ?thesis using granted
    by (auto simp: grant_def allowed_def)
qed simp

theorem Acquire_exclusive_witness:
  "\<exists>pm'. Acquire (net_without {}) [6001, 6000] 5 ''a'' 0 two_ports = (ok 6001, pm')
       \<and> usedPorts two_ports 6001 = None
       \<and> map_option (\<lambda>r. pc_ProxyName (ctxs pm' r)) (usedPorts pm' 6001) = Some ''a''"
proof -
  have A: "Acquire (net_without {}) [6001, 6000] 5 ''a'' 0 two_ports = (ok 6001, grant 5 ''a'' 6001 two_ports)"
    by (simp add: port_eval)
  have inv: "pm_inv two_ports" by (simp add: two_ports_def NewPortManager_inv)
  have ord: "set [6001, 6000] \<subseteq> freePorts two_ports" by (simp add: port_eval)
  have os: "\<forall>q. usedPorts two_ports q \<noteq> None \<longrightarrow> \<not> isPortAvailable (net_without {}) two_ports q"
    by (simp add: port_eval)
  from Acquire_exclusive [OF inv ord os A] A show ?thesis by blast
qed

text \<open>Without that help from the operating system the exclusive grant fails: the branch
  for reserved ports does not consult \<open>usedPorts\<close>. A proxy whose old port was handed to
  another proxy that has not bound it yet is granted the same port a second time.\<close>

theorem Acquire_reserved_not_exclusive:
  "\<exists>pm1 pm2 pm3 pm4.
      Acquire (net_without {}) [] 0 ''a'' 6000 two_ports = (ok 6000, pm1)
    \<and> Release 1 6000 pm1 = pm2
    \<and> Acquire (net_without {}) [] 2 ''b'' 6000 pm2 = (ok 6000, pm3)
    \<and> Acquire (net_without {}) [] 3 ''a'' 0 pm3 = (ok 6000, pm4)"
  by (simp add: port_eval)

text \<open>A proxy gets its old port back. If \<open>Acquire\<close> granted \<open>p\<close> to \<open>name\<close> at time \<open>t\<close>, then
  after any sequence of operations in which \<open>name\<close> does not acquire again and every
  cleaning round comes at most 24 hours after \<open>t\<close>, asking for any port (0) yields \<open>p\<close>
  again provided \<open>p\<close> can be bound.\<close>

theorem Acquire_sticky:
  assumes "pm_inv pm" and "set order \<subseteq> freePorts pm"
    and A: "Acquire net order t name port pm = (ok p, pm1)"
    and "ops_ok xs pm1" and "list_all (keeps_reservation name t) xs"
    and "isPortAvailable net' (port_run xs pm1) p"
  shows "fst (Acquire net' order' now name 0 (port_run xs pm1)) = ok p"
proof -
  have "holds_reservation pm1 name p t"
    using assms(1,2) A by (cases rule: Acquire_cases) (auto simp: grant_reserves)
  moreover have "pm_inv pm1" using Acquire_inv(1) [OF assms(1,2), of net t name port] A by simp
  ultimately have "holds_reservation (port_run xs pm1) name p t"
    using assms(4,5) by (intro holds_reservation_run)
  then show ?thesis using Acquire_reserved assms(6) by simp
qed

theorem Acquire_sticky_witness:
  "fst (Acquire (net_without {}) [6001, 6000] 9 ''a'' 0
     (port_run [OpRelease 3 6000, OpClean 4] (grant 0 ''a'' 6000 two_ports))) = ok 6000"
proof -
  have A: "Acquire (net_without {}) [6000, 6001] 0 ''a'' 0 two_ports = (ok 6000, grant 0 ''a'' 6000 two_ports)"
    by (simp add: port_eval)
  have inv: "pm_inv two_ports" by (simp add: two_ports_def NewPortManager_inv)
  show ?thesis
    by (rule Acquire_sticky [OF inv _ A])
       (simp_all add: port_eval MaxPortReservedDuration_def)
qed

text \<open>The random search probes exactly the first five ports of the iteration: it finds
  the first of them that can be bound, and gives up otherwise, even if other free ports
  could be bound.\<close>

theorem try_random_eq_find: "try_random avail 0 order = List.find avail (take 5 order)"
proof -
  have "try_random avail c ks = List.find avail (take (5 - c) ks)" if "c \<le> 5" for c ks
    using that
  proof (induction ks arbitrary: c)
    case (Cons k ks)
    show ?case
    proof (cases "c = 5")
      case False
      with Cons.prems have "5 - c = Suc (5 - Suc c)" by simp
      with Cons.IH [of "Suc c"] Cons.prems False show ?thesis
        by (simp add: maxTryTimes_def)
    qed (simp add: maxTryTimes_def)
  qed simp
  from this [of 0] show ?thesis by simp
qed

end
