(* ===== verification/Go_Strconv.thy ===== *)
theory Go_Strconv
  imports Prelude
begin

text \<open>
  The parts of Go's \<^verbatim>\<open>strconv\<close> the program uses: \<^verbatim>\<open>Itoa\<close>/\<^verbatim>\<open>FormatInt\<close> and \<^verbatim>\<open>Atoi\<close>/\<^verbatim>\<open>ParseInt\<close>
  in base 10 (an optional sign, at least one digit, a range error outside 64 bits), and the
  fact that they are inverse to each other.
\<close>

definition is_digit :: "char \<Rightarrow> bool" where
  "is_digit c \<longleftrightarrow> 48 \<le> (of_char c :: nat) \<and> (of_char c :: nat) \<le> 57"

definition digit_val :: "char \<Rightarrow> int" where
  "digit_val c = int (of_char c) - 48"

definition digit_char :: "nat \<Rightarrow> char" where
  "digit_char d = char_of (d + 48)"

fun nat_string :: "nat \<Rightarrow> string" where
  "nat_string n = (if n < 10 then [digit_char n] else nat_string (n div 10) @ [digit_char (n mod 10)])"

declare nat_string.simps [simp del]

definition itoa :: "int \<Rightarrow> string" where
  "itoa i = (if i < 0 then CHR ''-'' # nat_string (nat (- i)) else nat_string (nat i))"

definition digits_val :: "string \<Rightarrow> int" where
  "digits_val s = foldl (\<lambda>a c. a * 10 + digit_val c) 0 s"

definition int64_ok :: "int \<Rightarrow> bool" where
  "int64_ok i \<longleftrightarrow> - (2 ^ 63) \<le> i \<and> i < 2 ^ 63"

text \<open>Arithmetic on Go's 64-bit \<^verbatim>\<open>int\<close> wraps around.\<close>

definition wrap64 :: "int \<Rightarrow> int" where
  "wrap64 i = (i + 2 ^ 63) mod 2 ^ 64 - 2 ^ 63"

lemma wrap64_id [simp]: "int64_ok i \<Longrightarrow> wrap64 i = i"
  by (simp add: wrap64_def int64_ok_def)

lemma int64_ok_small: "\<bar>i\<bar> \<le> 2 ^ 62 \<Longrightarrow> int64_ok i"
  by (simp add: int64_ok_def abs_le_iff)

definition atoi :: "string \<Rightarrow> int option" where
  "atoi s =
     (let (neg, ds) = (case s of
            [] \<Rightarrow> (False, [])
          | c # cs \<Rightarrow> (if c = CHR ''-'' then (True, cs) else if c = CHR ''+'' then (False, cs) else (False, s)))
      in if ds = [] \<or> \<not> list_all is_digit ds then None
         else let v = (if neg then - digits_val ds else digits_val ds)
              in if int64_ok v then Some v else None)"

lemma of_char_digit_char: "d < 10 \<Longrightarrow> (of_char (digit_char d) :: nat) = d + 48"
  by (simp add: digit_char_def of_char_of)

lemma digit_char_ok: "d < 10 \<Longrightarrow> is_digit (digit_char d) \<and> digit_val (digit_char d) = int d"
  by (simp add: is_digit_def digit_val_def of_char_digit_char)

lemma nat_string_digits: "list_all is_digit (nat_string n) \<and> nat_string n \<noteq> []"
proof (induction n rule: nat_string.induct)
  case (1 n)
  then show ?case
    by (cases "n < 10") (simp_all add: nat_string.simps [of n] digit_char_ok)
qed

lemma digits_val_snoc: "digits_val (s @ [c]) = digits_val s * 10 + digit_val c"
  by (simp add: digits_val_def)

lemma digits_val_nat_string: "digits_val (nat_string n) = int n"
proof (induction n rule: nat_string.induct)
  case (1 n)
  show ?case
  proof (cases "n < 10")
    case True
    then show ?thesis by (simp add: nat_string.simps [of n] digits_val_def digit_char_ok)
  next
    case False
    then have "digits_val (nat_string n) = int (n div 10) * 10 + int (n mod 10)"
      using 1 by (simp add: nat_string.simps [of n] digits_val_snoc digit_char_ok)
    then show ?thesis by presburger
  qed
qed

lemma is_digit_not_sign: "is_digit c \<Longrightarrow> c \<noteq> CHR ''-'' \<and> c \<noteq> CHR ''+'' \<and> c \<noteq> CHR '','' \<and> \<not> is_space c"
  by (auto simp: is_digit_def is_space_def Let_def)

lemma nat_string_hd: "\<exists>c cs. nat_string n = c # cs \<and> is_digit c"
  using nat_string_digits [of n] by (cases "nat_string n") auto

lemma atoi_itoa: "int64_ok i \<Longrightarrow> atoi (itoa i) = Some i"
proof -
  assume ok: "int64_ok i"
  have neg: "atoi (CHR ''-'' # nat_string n) = (if int64_ok (- int n) then Some (- int n) else None)" for n
    using nat_string_digits [of n] by (simp add: atoi_def digits_val_nat_string)
  have pos: "atoi (nat_string n) = (if int64_ok (int n) then Some (int n) else None)" for n
  proof -
    obtain c cs where c: "nat_string n = c # cs" "is_digit c" using nat_string_hd by blast
    with is_digit_not_sign have "c \<noteq> CHR ''-''" "c \<noteq> CHR ''+''" by blast+
    with c nat_string_digits [of n] digits_val_nat_string [of n] show ?thesis by (simp add: atoi_def)
  qed
  show ?thesis using ok by (simp add: itoa_def neg pos)
qed

lemma atoi_no_digit: "\<not> list_all is_digit s \<Longrightarrow> s \<noteq> [] \<Longrightarrow> hd s \<noteq> CHR ''-'' \<Longrightarrow> hd s \<noteq> CHR ''+'' \<Longrightarrow> atoi s = None"
  by (cases s) (auto simp: atoi_def)

lemma itoa_chars: "c \<in> set (itoa i) \<Longrightarrow> is_digit c \<or> c = CHR ''-''"
  using nat_string_digits by (auto simp: itoa_def list_all_iff split: if_splits)

lemma itoa_nonneg_chars: "0 \<le> i \<Longrightarrow> c \<in> set (itoa i) \<Longrightarrow> is_digit c"
  using nat_string_digits by (auto simp: itoa_def list_all_iff)

lemma itoa_not_Nil [simp]: "itoa i \<noteq> []"
  using nat_string_digits by (simp add: itoa_def)

end
