(* ===== verification/Port_Ranges.thy ===== *)
theory Port_Ranges
  imports Ports Go_Strconv
begin

text \<open>
  Lists of port ranges as text: \<^verbatim>\<open>PortsRangeSlice\<close> of \<^verbatim>\<open>pkg/config/types/types.go\<close>, \<^verbatim>\<open>ParseRangeNumbers\<close> of
  \<^verbatim>\<open>pkg/util/util/util.go\<close> and the number ranges of configuration templates, \<^verbatim>\<open>pkg/config/template.go\<close>. The loop of
  \<open>ParseRangeNumbers\<close> counts in 64 bits and may not end; then its value is \<open>None\<close>.
\<close>

section \<open>Printing and parsing\<close>

definition range_String :: "PortsRange \<Rightarrow> string" where
  "range_String v = (if pr_Single v > 0 then itoa (pr_Single v) else itoa (pr_Start v) @ ''-'' @ itoa (pr_End v))"

definition prs_String :: "PortsRange list \<Rightarrow> string" where
  "prs_String p = (if p = [] then [] else join_with '','' (map range_String p))"

datatype range_error = NotANumber | BadRange

datatype range_item = One int | Span int int

text \<open>One item between commas: a number or two numbers with a hyphen between them.\<close>

definition parse_item :: "string \<Rightarrow> (range_error, range_item) result" where
  "parse_item s =
     (case split_on (CHR ''-'') s of
        [a] \<Rightarrow> (case atoi (trim_space a) of None \<Rightarrow> err NotANumber | Some n \<Rightarrow> ok (One n))
      | [a, b] \<Rightarrow>
          (case atoi (trim_space a) of
             None \<Rightarrow> err NotANumber
           | Some lo \<Rightarrow>
               (case atoi (trim_space b) of
                  None \<Rightarrow> err NotANumber
                | Some hi \<Rightarrow> if hi < lo then err BadRange else ok (Span lo hi)))
      | _ \<Rightarrow> err BadRange)"

fun parse_ranges :: "string list \<Rightarrow> PortsRange list \<Rightarrow> (range_error, PortsRange list) result" where
  "parse_ranges [] out = ok out"
| "parse_ranges (s # ss) out =
     (case parse_item s of
        Inl e \<Rightarrow> err e
      | Inr (One n) \<Rightarrow> parse_ranges ss (out @ [\<lparr>pr_Start = 0, pr_End = 0, pr_Single = n\<rparr>])
      | Inr (Span lo hi) \<Rightarrow> parse_ranges ss (out @ [\<lparr>pr_Start = lo, pr_End = hi, pr_Single = 0\<rparr>]))"

definition NewPortsRangeSliceFromString :: "string \<Rightarrow> (range_error, PortsRange list) result" where
  "NewPortsRangeSliceFromString str = parse_ranges (split_on (CHR '','') (trim_space str)) []"

partial_function (option) range_loop :: "int \<Rightarrow> int \<Rightarrow> int list \<Rightarrow> int list option" where
  "range_loop i maxValue numbers =
     (if i \<le> maxValue then range_loop (wrap64 (i + 1)) maxValue (numbers @ [i]) else Some numbers)"

fun range_numbers :: "string list \<Rightarrow> int list \<Rightarrow> (range_error, int list) result option" where
  "range_numbers [] numbers = Some (ok numbers)"
| "range_numbers (s # ss) numbers =
     (case parse_item s of
        Inl e \<Rightarrow> Some (err e)
      | Inr (One n) \<Rightarrow> range_numbers ss (numbers @ [n])
      | Inr (Span lo hi) \<Rightarrow> (case range_loop lo hi numbers of None \<Rightarrow> None | Some numbers' \<Rightarrow> range_numbers ss numbers'))"

definition ParseRangeNumbers :: "string \<Rightarrow> (range_error, int list) result option" where
  "ParseRangeNumbers rangeStr = range_numbers (split_on (CHR '','') (trim_space rangeStr)) []"

datatype pair_error = PairRange range_error | NotInPairs

definition parseNumberRangePair :: "string \<Rightarrow> string \<Rightarrow> (pair_error, (int \<times> int) list) result option" where
  "parseNumberRangePair firstRangeStr secondRangeStr =
     (case ParseRangeNumbers firstRangeStr of
        None \<Rightarrow> None
      | Some (Inl e) \<Rightarrow> Some (err (PairRange e))
      | Some (Inr firsts) \<Rightarrow>
          (case ParseRangeNumbers secondRangeStr of
             None \<Rightarrow> None
           | Some (Inl e) \<Rightarrow> Some (err (PairRange e))
           | Some (Inr seconds) \<Rightarrow> if length firsts \<noteq> length seconds then Some (err NotInPairs) else Some (ok (zip firsts seconds))))"

section \<open>The loop\<close>

lemma range_loop_counts:
  assumes "hi < 2 ^ 63 - 1" and "- (2 ^ 63) \<le> lo"
  shows "range_loop lo hi numbers = Some (numbers @ [lo..hi])"
  using assms(2)
proof (induction "nat (hi + 1 - lo)" arbitrary: lo numbers)
  case 0
  then have "hi < lo" by simp
  then show ?case by (subst range_loop.simps) simp
next
  case (Suc n)
  then have le: "lo \<le> hi" by simp
  then have "int64_ok (lo + 1)" using Suc.prems assms(1) by (simp add: int64_ok_def)
  then have "range_loop lo hi numbers = range_loop (lo + 1) hi (numbers @ [lo])" using le by (subst range_loop.simps) simp
  also have "\<dots> = Some (numbers @ [lo] @ [lo + 1..hi])" using Suc(1) [of "lo + 1" "numbers @ [lo]"] Suc(2) Suc.prems by simp
  also have "[lo] @ [lo + 1..hi] = [lo..hi]" using le by (simp add: upto_rec1)
  finally show ?case .
qed

text \<open>Counting up to the greatest number never ends.\<close>

lemma range_loop_endless:
  assumes "range_loop lo hi numbers = Some r"
  shows "int64_ok lo \<longrightarrow> hi = 2 ^ 63 - 1 \<longrightarrow> False"
proof (rule range_loop.raw_induct [OF _ assms, where P = "\<lambda>lo hi numbers r. int64_ok lo \<longrightarrow> hi = 2 ^ 63 - 1 \<longrightarrow> False"], intro impI)
  fix f lo hi numbers r
  assume IH: "\<And>lo hi numbers r. f lo hi numbers = Some r \<Longrightarrow> int64_ok lo \<longrightarrow> hi = 2 ^ 63 - 1 \<longrightarrow> False"
    and run: "(if lo \<le> hi then f (wrap64 (lo + 1)) hi (numbers @ [lo]) else Some numbers) = Some r"
    and lo: "int64_ok lo" and hi: "hi = 2 ^ 63 - 1"
  have "f (wrap64 (lo + 1)) hi (numbers @ [lo]) = Some r" using run lo hi by (simp add: int64_ok_def)
  moreover have "int64_ok (wrap64 (lo + 1))" by (simp add: int64_ok_def wrap64_def)
  ultimately show False using IH hi by blast
qed

lemma atoi_int64: "atoi s = Some n \<Longrightarrow> int64_ok n"
  by (auto simp: atoi_def Let_def split: list.splits prod.splits if_splits)

lemma parse_item_Span: "parse_item s = ok (Span lo hi) \<Longrightarrow> int64_ok lo \<and> int64_ok hi \<and> lo \<le> hi"
  by (auto simp: parse_item_def split: list.splits option.splits if_splits dest: atoi_int64)

lemma range_loop_returns_iff:
  assumes "parse_item s = ok (Span lo hi)"
  shows "range_loop lo hi numbers = (if hi = 2 ^ 63 - 1 then None else Some (numbers @ [lo..hi]))"
proof -
  have b: "int64_ok lo" "int64_ok hi" using parse_item_Span [OF assms] by blast+
  show ?thesis
  proof (cases "hi = 2 ^ 63 - 1")
    case True
    then show ?thesis using range_loop_endless [of lo hi numbers] b by (cases "range_loop lo hi numbers") auto
  next
    case False
    then show ?thesis using range_loop_counts [of hi lo numbers] b by (simp add: int64_ok_def)
  qed
qed

section \<open>Round trip\<close>

lemma split_on_join:
  "strs \<noteq> [] \<Longrightarrow> (\<forall>s \<in> set strs. c \<notin> set s) \<Longrightarrow> split_on c (join_with [c] strs) = strs"
proof (induction "[c]" strs rule: join_with.induct)
  case (3 x y ys)
  then show ?case by (simp add: split_on_append_sep)
qed (simp_all add: split_on_no_sep)

lemma trim_space_id: "\<forall>c \<in> set s. \<not> is_space c \<Longrightarrow> trim_space s = s"
  by (simp add: trim_space_def dropWhile_eq_self_iff list_all_iff) (metis dropWhile_eq_self_iff hd_in_set rev_rev_ident set_rev)

definition range_ok :: "PortsRange \<Rightarrow> bool" where
  "range_ok r \<longleftrightarrow> (if pr_Single r > 0 then pr_Start r = 0 \<and> pr_End r = 0 \<and> pr_Single r < 2 ^ 63
     else pr_Single r = 0 \<and> 0 \<le> pr_Start r \<and> pr_Start r \<le> pr_End r \<and> pr_End r < 2 ^ 63 - 1)"

lemma itoa_plain:
  assumes "0 \<le> i"
  shows "CHR ''-'' \<notin> set (itoa i)" "CHR '','' \<notin> set (itoa i)" "trim_space (itoa i) = itoa i"
  using itoa_nonneg_chars [OF assms] is_digit_not_sign by (blast intro: trim_space_id)+

lemma range_String_plain:
  assumes "range_ok r"
  shows "CHR '','' \<notin> set (range_String r) \<and> (\<forall>c \<in> set (range_String r). \<not> is_space c)"
proof -
  have "\<not> is_space c \<and> c \<noteq> CHR '',''" if "c \<in> set (itoa i)" for c i
    using itoa_chars [OF that] is_digit_not_sign [of c] by (auto simp: is_space_def)
  then show ?thesis by (auto simp: range_String_def is_space_def)
qed

definition item_of :: "PortsRange \<Rightarrow> range_item" where
  "item_of r = (if pr_Single r > 0 then One (pr_Single r) else Span (pr_Start r) (pr_End r))"

lemma parse_item_String: "range_ok r \<Longrightarrow> parse_item (range_String r) = ok (item_of r)"
  by (auto simp: range_ok_def range_String_def item_of_def parse_item_def split_on_no_sep itoa_plain split_on_append_sep atoi_itoa int64_ok_def
    split: if_splits)

definition range_list :: "PortsRange \<Rightarrow> int list" where
  "range_list r = (if pr_Single r > 0 then [pr_Single r] else [pr_Start r..pr_End r])"

lemma parse_ranges_String: "\<forall>r \<in> set p. range_ok r \<Longrightarrow> parse_ranges (map range_String p) out = ok (out @ p)"
proof (induction p arbitrary: out)
  case (Cons r p)
  then have r: "range_ok r" and IH: "parse_ranges (map range_String p) out' = ok (out' @ p)" for out' by simp_all
  obtain a b c where abc: "r = \<lparr>pr_Start = a, pr_End = b, pr_Single = c\<rparr>" by (cases r)
  show ?case
  proof (cases "c > 0")
    case True
    then have "a = 0" "b = 0" using r abc by (simp_all add: range_ok_def)
    then show ?thesis using True parse_item_String [OF r] IH abc by (simp add: item_of_def)
  next
    case False
    then have "c = 0" using r abc by (simp add: range_ok_def)
    then show ?thesis using parse_item_String [OF r] IH abc by (simp add: item_of_def)
  qed
qed simp

lemma range_numbers_String: "\<forall>r \<in> set p. range_ok r \<Longrightarrow> range_numbers (map range_String p) out = Some (ok (out @ concat (map range_list p)))"
proof (induction p arbitrary: out)
  case (Cons r p)
  then have r: "range_ok r" and IH: "range_numbers (map range_String p) out' = Some (ok (out' @ concat (map range_list p)))" for out' by simp_all
  show ?case
  proof (cases "pr_Single r > 0")
    case True
    then show ?thesis using parse_item_String [OF r] IH by (simp add: item_of_def range_list_def [of r])
  next
    case False
    then have "range_loop (pr_Start r) (pr_End r) out = Some (out @ [pr_Start r..pr_End r])"
      using r by (intro range_loop_counts) (simp_all add: range_ok_def)
    then show ?thesis using False parse_item_String [OF r] IH by (simp add: item_of_def range_list_def [of r])
  qed
qed simp

lemma ranges_text:
  assumes "p \<noteq> []" and "\<forall>r \<in> set p. range_ok r"
  shows "split_on (CHR '','') (trim_space (prs_String p)) = map range_String p"
proof -
  have "\<forall>c \<in> set (join_with '','' ss). \<not> is_space c" if "\<forall>s \<in> set ss. \<forall>c \<in> set s. \<not> is_space c" for ss
    using that by (induction "'',''" ss rule: join_with.induct) (auto simp: is_space_def)
  moreover have "\<forall>s \<in> set (map range_String p). \<forall>c \<in> set s. \<not> is_space c" using assms(2) range_String_plain by auto
  ultimately have "\<forall>c \<in> set (join_with '','' (map range_String p)). \<not> is_space c" by blast
  then have "trim_space (prs_String p) = prs_String p" using assms(1) by (intro trim_space_id) (simp add: prs_String_def)
  then show ?thesis using assms range_String_plain by (simp add: prs_String_def split_on_join)
qed

text \<open>The text of a list of port ranges. A non-empty list of proper ranges is parsed back as it was printed;
  the other parser lists from the same text exactly the ports that a port manager with these ranges
  has to offer. The text of the empty list is not accepted.\<close>

theorem ports_text_roundtrip:
  assumes "p \<noteq> []" and "\<forall>r \<in> set p. range_ok r"
  shows "NewPortsRangeSliceFromString (prs_String p) = ok p
    \<and> (\<exists>ns. ParseRangeNumbers (prs_String p) = Some (ok ns) \<and> set ns = add_ranges p {})
    \<and> NewPortsRangeSliceFromString (prs_String []) = err NotANumber"
proof -
  have "add_ranges q free = free \<union> set (concat (map range_list q))" for q free
    by (induction q free rule: add_ranges.induct) (auto simp: range_list_def)
  moreover have "NewPortsRangeSliceFromString [] = err NotANumber"
    by (simp add: NewPortsRangeSliceFromString_def trim_space_def parse_item_def atoi_def)
  ultimately show ?thesis using ranges_text [OF assms] parse_ranges_String [OF assms(2)] range_numbers_String [OF assms(2)]
    by (simp add: NewPortsRangeSliceFromString_def ParseRangeNumbers_def) (simp add: prs_String_def)
qed

theorem ports_text_roundtrip_witness:
  "NewPortsRangeSliceFromString (prs_String [\<lparr>pr_Start = 6000, pr_End = 6010, pr_Single = 0\<rparr>, \<lparr>pr_Start = 0, pr_End = 0, pr_Single = 80\<rparr>])
   = ok [\<lparr>pr_Start = 6000, pr_End = 6010, pr_Single = 0\<rparr>, \<lparr>pr_Start = 0, pr_End = 0, pr_Single = 80\<rparr>]"
  using ports_text_roundtrip [of "[\<lparr>pr_Start = 6000, pr_End = 6010, pr_Single = 0\<rparr>, \<lparr>pr_Start = 0, pr_End = 0, pr_Single = 80\<rparr>]"]
  by (simp add: range_ok_def)

text \<open>\<open>ParseRangeNumbers\<close> returns, whatever the text is, unless one of its ranges ends with the greatest
  64-bit number; a range that does makes it count for ever.\<close>

theorem ParseRangeNumbers_returns:
  "(\<exists>r. ParseRangeNumbers s = Some r) \<or> (\<exists>item lo. item \<in> set (split_on (CHR '','') (trim_space s)) \<and> parse_item item = ok (Span lo (2 ^ 63 - 1)))"
proof -
  have "(\<exists>r. range_numbers ss out = Some r) \<or> (\<exists>item lo. item \<in> set ss \<and> parse_item item = ok (Span lo (2 ^ 63 - 1)))" for ss out
  proof (induction ss arbitrary: out)
    case (Cons s ss)
    show ?case
    proof (cases "parse_item s")
      case (Inr x)
      show ?thesis
      proof (cases x)
        case (One n)
        then show ?thesis using Inr Cons.IH [of "out @ [n]"] by auto
      next
        case (Span lo hi)
        then have l: "range_loop lo hi out = (if hi = 2 ^ 63 - 1 then None else Some (out @ [lo..hi]))" using range_loop_returns_iff Inr by blast
        show ?thesis
        proof (cases "hi = 2 ^ 63 - 1")
          case True
          then show ?thesis using Inr Span by auto
        next
          case False
          then show ?thesis using Inr Span l Cons.IH [of "out @ [lo..hi]"] by auto
        qed
      qed
    qed simp
  qed simp
  then show ?thesis by (simp add: ParseRangeNumbers_def)
qed

theorem ParseRangeNumbers_endless: "ParseRangeNumbers ''1-9223372036854775807'' = None"
proof -
  have "split_on (CHR '','') (trim_space ''1-9223372036854775807'') = [''1-9223372036854775807'']" by (simp add: trim_space_def is_space_def)
  moreover have p: "parse_item ''1-9223372036854775807'' = ok (Span 1 (2 ^ 63 - 1))" by code_simp
  ultimately show ?thesis using range_loop_returns_iff [OF p, of "[]"] by (simp add: ParseRangeNumbers_def del: power_numeral)
qed

end
