(* ===== verification/Client_Registry.thy ===== *)
theory Client_Registry
  imports Prelude
begin

text \<open>
  The registry of connected clients, \<^verbatim>\<open>server/registry/registry.go\<close>: metadata of every frpc
  instance under the key \<open>{user}.{clientID}\<close> and an index from run ids to keys. The zero
  \<^verbatim>\<open>time.Time\<close> is \<open>0\<close>.
\<close>

section \<open>Data and operations\<close>

record ClientInfo =
  ci_Key :: string
  ci_User :: string
  ci_RawClientID :: string
  ci_RunID :: string
  ci_Hostname :: string
  ci_IP :: string
  ci_Version :: string
  ci_FirstConnectedAt :: int
  ci_LastConnectedAt :: int
  ci_DisconnectedAt :: int
  ci_Online :: bool

record ClientRegistry =
  clients :: "string \<rightharpoonup> ClientInfo"
  runIndex :: "string \<rightharpoonup> string"

definition NewClientRegistry :: ClientRegistry where
  "NewClientRegistry = \<lparr>clients = Map.empty, runIndex = Map.empty\<rparr>"

definition composeClientKey :: "string \<Rightarrow> string \<Rightarrow> string" where
  "composeClientKey user cid = (if user = [] then cid else if cid = [] then user else user @ ''.'' @ cid)"

definition empty_info :: "string \<Rightarrow> string \<Rightarrow> int \<Rightarrow> ClientInfo" where
  "empty_info key user now =
     \<lparr>ci_Key = key, ci_User = user, ci_RawClientID = [], ci_RunID = [], ci_Hostname = [], ci_IP = [],
      ci_Version = [], ci_FirstConnectedAt = now, ci_LastConnectedAt = 0, ci_DisconnectedAt = 0,
      ci_Online = False\<rparr>"

definition fill_info ::
  "string \<Rightarrow> string \<Rightarrow> string \<Rightarrow> string \<Rightarrow> string \<Rightarrow> int \<Rightarrow> ClientInfo \<Rightarrow> ClientInfo" where
  "fill_info rawClientID runID hostname version remoteAddr now info =
     info\<lparr>ci_RawClientID := rawClientID, ci_RunID := runID, ci_Hostname := hostname,
          ci_IP := remoteAddr, ci_Version := version,
          ci_FirstConnectedAt := (if ci_FirstConnectedAt info = 0 then now else ci_FirstConnectedAt info),
          ci_LastConnectedAt := now, ci_DisconnectedAt := 0, ci_Online := True\<rparr>"

definition Register ::
  "string \<Rightarrow> string \<Rightarrow> string \<Rightarrow> string \<Rightarrow> string \<Rightarrow> string \<Rightarrow> int \<Rightarrow> ClientRegistry
     \<Rightarrow> (string \<times> bool) \<times> ClientRegistry" where
  "Register user rawClientID runID hostname version remoteAddr now cr =
     (if runID = [] then (([], False), cr)
      else
        let effectiveID = (if rawClientID = [] then runID else rawClientID);
            key = composeClientKey user effectiveID;
            enforceUnique = (rawClientID \<noteq> [])
        in (case clients cr key of
              None \<Rightarrow>
                ((key, False),
                 cr\<lparr>clients := (clients cr)(key \<mapsto>
                        fill_info rawClientID runID hostname version remoteAddr now (empty_info key user now)),
                    runIndex := (runIndex cr)(runID \<mapsto> key)\<rparr>)
            | Some info \<Rightarrow>
                (if enforceUnique \<and> ci_Online info \<and> ci_RunID info \<noteq> [] \<and> ci_RunID info \<noteq> runID
                 then ((key, True), cr)
                 else
                   ((key, False),
                    cr\<lparr>clients := (clients cr)(key \<mapsto>
                           fill_info rawClientID runID hostname version remoteAddr now info),
                       runIndex := (if ci_RunID info \<noteq> [] then (runIndex cr)(ci_RunID info := None)
                                    else runIndex cr)(runID \<mapsto> key)\<rparr>))))"

definition MarkOfflineByRunID :: "string \<Rightarrow> int \<Rightarrow> ClientRegistry \<Rightarrow> ClientRegistry" where
  "MarkOfflineByRunID runID now cr =
     (case runIndex cr runID of
        None \<Rightarrow> cr
      | Some key \<Rightarrow>
          cr\<lparr>clients :=
               (case clients cr key of
                  Some info \<Rightarrow>
                    (if ci_RunID info = runID then
                       if ci_RawClientID info = [] then (clients cr)(key := None)
                       else (clients cr)(key \<mapsto> info\<lparr>ci_RunID := [], ci_Online := False,
                                                     ci_DisconnectedAt := now\<rparr>)
                     else clients cr)
                | None \<Rightarrow> clients cr),
             runIndex := (runIndex cr)(runID := None)\<rparr>)"

definition GetByKey :: "string \<Rightarrow> ClientRegistry \<Rightarrow> ClientInfo option" where
  "GetByKey key cr = clients cr key"

definition ClientID :: "ClientInfo \<Rightarrow> string" where
  "ClientID info = (if ci_RawClientID info \<noteq> [] then ci_RawClientID info else ci_RunID info)"

section \<open>Invariant\<close>

text \<open>What always holds: entries carry their own key, a client is online exactly while it has a
  run id, and the index only points to entries with that run id.\<close>

definition reg_inv :: "ClientRegistry \<Rightarrow> bool" where
  "reg_inv cr \<longleftrightarrow>
     (\<forall>k info. clients cr k = Some info \<longrightarrow> ci_Key info = k \<and> (ci_Online info \<longleftrightarrow> ci_RunID info \<noteq> []))
   \<and> (\<forall>r k. runIndex cr r = Some k \<longrightarrow> r \<noteq> [] \<and> (\<exists>info. clients cr k = Some info \<and> ci_RunID info = r))"

text \<open>The index is complete when it also finds every online client.\<close>

definition index_complete :: "ClientRegistry \<Rightarrow> bool" where
  "index_complete cr \<longleftrightarrow>
     (\<forall>k info. clients cr k = Some info \<longrightarrow> ci_Online info \<longrightarrow> runIndex cr (ci_RunID info) = Some k)"

lemma reg_invD:
  assumes "reg_inv cr"
  shows "clients cr k = Some info \<Longrightarrow> ci_Key info = k"
    and "clients cr k = Some info \<Longrightarrow> ci_Online info \<longleftrightarrow> ci_RunID info \<noteq> []"
    and "runIndex cr r = Some k \<Longrightarrow> r \<noteq> [] \<and> (\<exists>info. clients cr k = Some info \<and> ci_RunID info = r)"
  using assms by (auto simp: reg_inv_def)

text \<open>A successful registration, seen through its two effects.\<close>

lemma Register_cases:
  assumes "Register user raw runID host ver ip now cr = ((key, conflict), cr')"
  obtains (no_run) "runID = []" "key = []" "\<not> conflict" "cr' = cr"
  | (conflict) info where "runID \<noteq> []" "conflict" "cr' = cr" "raw \<noteq> []" "clients cr key = Some info"
      "ci_Online info" "ci_RunID info \<noteq> runID"
  | (stored) info where "runID \<noteq> []" "\<not> conflict"
      "key = composeClientKey user (if raw = [] then runID else raw)"
      "info = (case clients cr key of None \<Rightarrow> empty_info key user now | Some i \<Rightarrow> i)"
      "clients cr' = (clients cr)(key \<mapsto> fill_info raw runID host ver ip now info)"
      "runIndex cr' = (if ci_RunID info \<noteq> [] then (runIndex cr)(ci_RunID info := None)
                       else runIndex cr)(runID \<mapsto> key)"
proof (cases "runID = []")
  case True
  with assms show thesis by (intro no_run) (auto simp: Register_def)
next
  case False
  define k where "k = composeClientKey user (if raw = [] then runID else raw)"
  show thesis
  proof (cases "clients cr k")
    case None
    with assms False show thesis
      by (intro stored [of "empty_info key user now"])
         (auto simp: Register_def Let_def k_def empty_info_def)
  next
    case (Some i)
    with assms False show thesis
      by (auto simp: Register_def Let_def k_def split: if_splits intro: stored [of i] conflict [of i])
  qed
qed

lemma empty_info_simps [simp]: "ci_RunID (empty_info k u n) = []" "ci_Key (empty_info k u n) = k"
  by (simp_all add: empty_info_def)

lemma fill_info_simps [simp]:
  "ci_RunID (fill_info raw run h v ip now i) = run"
  "ci_Key (fill_info raw run h v ip now i) = ci_Key i"
  "ci_Online (fill_info raw run h v ip now i)"
  "ci_RawClientID (fill_info raw run h v ip now i) = raw"
  by (simp_all add: fill_info_def)

lemma Register_inv [inv_rules]:
  assumes inv: "reg_inv cr"
  shows "reg_inv (snd (Register user raw runID host ver ip now cr))"
proof -
  obtain key c cr' where R: "Register user raw runID host ver ip now cr = ((key, c), cr')"
    by (metis prod.exhaust)
  from R show ?thesis
  proof (cases rule: Register_cases)
    case (stored info)
    have key: "ci_Key info = key"
      using stored(4) reg_invD(1) [OF inv] by (auto split: option.splits)
    have old: "r = ci_RunID info" if "runIndex cr r = Some key" for r
      using reg_invD(3) [OF inv that] stored(4) by auto
    have keep: "ci_Key i = k \<and> (ci_Online i \<longleftrightarrow> ci_RunID i \<noteq> [])" if "clients cr' k = Some i" for k i
    proof (cases "k = key")
      case True
      with that stored(5) have "i = fill_info raw runID host ver ip now info" by simp
      with True key stored(1) show ?thesis by simp
    next
      case False
      with that stored(5) reg_invD(1,2) [OF inv, of k i] show ?thesis by simp
    qed
    have idx: "r \<noteq> [] \<and> (\<exists>i. clients cr' k = Some i \<and> ci_RunID i = r)"
      if "runIndex cr' r = Some k" for r k
    proof (cases "r = runID")
      case True
      with that stored show ?thesis by auto
    next
      case False
      with that stored(6) have r: "runIndex cr r = Some k" "r \<noteq> ci_RunID info \<or> ci_RunID info = []"
        by (auto split: if_splits)
      have ne: "r \<noteq> []" using reg_invD(3) [OF inv r(1)] by simp
      have "k \<noteq> key"
      proof
        assume "k = key"
        with r(1) have "r = ci_RunID info" using old by simp
        with r(2) ne show False by simp
      qed
      with reg_invD(3) [OF inv r(1)] stored(5) show ?thesis by simp
    qed
    from keep idx R show ?thesis by (simp add: reg_inv_def)
  qed (use R inv in simp_all)
qed

lemma MarkOffline_inv [inv_rules]:
  assumes inv: "reg_inv cr"
  shows "reg_inv (MarkOfflineByRunID runID now cr)"
proof (cases "runIndex cr runID")
  case None
  with inv show ?thesis by (simp add: MarkOfflineByRunID_def)
next
  case (Some key)
  then obtain info where info: "clients cr key = Some info" "ci_RunID info = runID" "runID \<noteq> []"
    using reg_invD(3) [OF inv] by blast
  have only: "runIndex cr r = Some key \<Longrightarrow> r = runID" for r
    using reg_invD(3) [OF inv, of r key] info by auto
  let ?cr = "MarkOfflineByRunID runID now cr"
  have other: "clients ?cr k = clients cr k" if "k \<noteq> key" for k
    using Some info that by (simp add: MarkOfflineByRunID_def)
  have keep: "ci_Key i = k \<and> (ci_Online i \<longleftrightarrow> ci_RunID i \<noteq> [])" if "clients ?cr k = Some i" for k i
  proof (cases "k = key")
    case True
    with that Some info reg_invD(1) [OF inv info(1)] show ?thesis
      by (auto simp: MarkOfflineByRunID_def split: if_splits)
  next
    case False
    with that reg_invD(1,2) [OF inv, of k i] show ?thesis by (simp add: other)
  qed
  have idx: "r \<noteq> [] \<and> (\<exists>i. clients ?cr k = Some i \<and> ci_RunID i = r)" if "runIndex ?cr r = Some k" for r k
  proof -
    from that Some have r: "runIndex cr r = Some k" "r \<noteq> runID"
      by (auto simp: MarkOfflineByRunID_def split: if_splits)
    then have "k \<noteq> key" using only by blast
    with reg_invD(3) [OF inv r(1)] show ?thesis by (simp add: other)
  qed
  from keep idx show ?thesis by (simp add: reg_inv_def)
qed

text \<open>The index stays complete as long as a run id is not registered again under a second
  key.\<close>

lemma Register_index_complete:
  assumes inv: "reg_inv cr" and c: "index_complete cr"
    and fresh: "runIndex cr runID = None
                \<or> runIndex cr runID = Some (composeClientKey user (if raw = [] then runID else raw))"
  shows "index_complete (snd (Register user raw runID host ver ip now cr))"
proof -
  obtain key cf cr' where R: "Register user raw runID host ver ip now cr = ((key, cf), cr')"
    by (metis prod.exhaust)
  from R show ?thesis
  proof (cases rule: Register_cases)
    case (stored info)
    have "runIndex cr' (ci_RunID i) = Some k" if i: "clients cr' k = Some i" "ci_Online i" for k i
    proof (cases "k = key")
      case True
      with i stored show ?thesis by auto
    next
      case False
      with i stored(5) have old: "clients cr k = Some i" by simp
      with c i have idx: "runIndex cr (ci_RunID i) = Some k" by (auto simp: index_complete_def)
      with fresh False stored(3) have "ci_RunID i \<noteq> runID" by auto
      moreover have "ci_RunID info \<noteq> [] \<Longrightarrow> ci_RunID i \<noteq> ci_RunID info"
        using c idx False stored(4) reg_invD(2) [OF inv]
        by (auto simp: index_complete_def split: option.splits)
      ultimately show ?thesis using idx stored(6) by auto
    qed
    with R show ?thesis by (simp add: index_complete_def)
  qed (use R c in simp_all)
qed

lemma MarkOffline_index_complete:
  assumes inv: "reg_inv cr" and c: "index_complete cr"
  shows "index_complete (MarkOfflineByRunID runID now cr)"
proof (cases "runIndex cr runID")
  case (Some key)
  then obtain info where info: "clients cr key = Some info" "ci_RunID info = runID" "runID \<noteq> []"
    using reg_invD(3) [OF inv] by blast
  with Some c show ?thesis
    by (fastforce simp: index_complete_def MarkOfflineByRunID_def split: if_splits)
qed (use c in \<open>simp add: MarkOfflineByRunID_def\<close>)

section \<open>Histories\<close>

datatype reg_op =
    OpRegister string string string string string string int
  | OpOffline string int

fun reg_step :: "reg_op \<Rightarrow> ClientRegistry \<Rightarrow> ClientRegistry" where
  "reg_step (OpRegister user raw runID host ver ip now) cr = snd (Register user raw runID host ver ip now cr)"
| "reg_step (OpOffline runID now) cr = MarkOfflineByRunID runID now cr"

fun reg_run :: "reg_op list \<Rightarrow> ClientRegistry \<Rightarrow> ClientRegistry" where
  "reg_run [] cr = cr"
| "reg_run (x # xs) cr = reg_run xs (reg_step x cr)"

text \<open>A run id that is still indexed is only registered again under the same key.\<close>

fun run_unique :: "reg_op \<Rightarrow> ClientRegistry \<Rightarrow> bool" where
  "run_unique (OpRegister user raw runID host ver ip now) cr \<longleftrightarrow>
     runIndex cr runID = None \<or> runIndex cr runID = Some (composeClientKey user (if raw = [] then runID else raw))"
| "run_unique (OpOffline runID now) cr \<longleftrightarrow> True"

fun runs_unique :: "reg_op list \<Rightarrow> ClientRegistry \<Rightarrow> bool" where
  "runs_unique [] cr \<longleftrightarrow> True"
| "runs_unique (x # xs) cr \<longleftrightarrow> run_unique x cr \<and> runs_unique xs (reg_step x cr)"

lemma NewClientRegistry_inv [inv_rules]: "reg_inv NewClientRegistry" "index_complete NewClientRegistry"
  by (simp_all add: reg_inv_def index_complete_def NewClientRegistry_def)

lemma reg_step_inv: "reg_inv cr \<Longrightarrow> reg_inv (reg_step x cr)"
  by (cases x) (simp_all add: inv_rules)

lemma reg_run_inv: "reg_inv cr \<Longrightarrow> reg_inv (reg_run xs cr)"
  by (induction xs arbitrary: cr) (simp_all add: reg_step_inv)

lemma reg_run_complete:
  "reg_inv cr \<Longrightarrow> index_complete cr \<Longrightarrow> runs_unique xs cr \<Longrightarrow> index_complete (reg_run xs cr)"
proof (induction xs arbitrary: cr)
  case (Cons x xs)
  then have "index_complete (reg_step x cr)"
    by (cases x) (auto intro: Register_index_complete MarkOffline_index_complete)
  with Cons show ?case by (simp add: reg_step_inv)
qed simp

lemma MarkOffline_unindexed: "runIndex (MarkOfflineByRunID r now cr) r = None"
  by (simp add: MarkOfflineByRunID_def split: option.split)

section \<open>Properties\<close>

text \<open>A disconnect is always noticed. In every history in which a run id is not registered
  under two keys, once the control of run \<open>r\<close> has gone no client is recorded as online with
  run id \<open>r\<close>.\<close>

theorem offline_complete:
  assumes "runs_unique xs NewClientRegistry"
    and "clients (MarkOfflineByRunID r now (reg_run xs NewClientRegistry)) k = Some info"
    and "ci_Online info"
  shows "ci_RunID info \<noteq> r"
proof -
  let ?cr = "reg_run xs NewClientRegistry"
  have "reg_inv ?cr" and "index_complete ?cr"
    using assms(1) by (auto intro: reg_run_inv reg_run_complete NewClientRegistry_inv)
  then have "index_complete (MarkOfflineByRunID r now ?cr)"
    by (rule MarkOffline_index_complete)
  with assms(2,3) show ?thesis
    using MarkOffline_unindexed [of r now ?cr] by (auto simp: index_complete_def)
qed

lemmas reg_eval = Register_def MarkOfflineByRunID_def composeClientKey_def fill_info_def empty_info_def
  NewClientRegistry_def Let_def

theorem offline_complete_witness:
  "\<exists>info. clients (MarkOfflineByRunID ''r1'' 9
       (reg_run [OpRegister ''u'' ''c'' ''r1'' [] [] [] 5, OpRegister ''u'' ''d'' ''r2'' [] [] [] 6] NewClientRegistry))
       ''u.d'' = Some info \<and> ci_Online info \<and> ci_RunID info \<noteq> ''r1''"
proof -
  let ?xs = "[OpRegister ''u'' ''c'' ''r1'' [] [] [] 5, OpRegister ''u'' ''d'' ''r2'' [] [] [] 6]"
  have u: "runs_unique ?xs NewClientRegistry" by (simp add: reg_eval)
  have "\<exists>info. clients (MarkOfflineByRunID ''r1'' 9 (reg_run ?xs NewClientRegistry)) ''u.d'' = Some info
          \<and> ci_Online info"
    by (simp add: reg_eval)
  with offline_complete [OF u, of "''r1''" 9 "''u.d''"] show ?thesis by blast
qed

text \<open>Two sessions never share an explicit client id. On a registry reached by the code,
  \<open>Register\<close> reports a conflict exactly when the request carries a client id whose record
  is online under a different run id, and then changes nothing.\<close>

theorem Register_conflict_iff:
  assumes "reg_inv cr"
  shows "snd (fst (Register user raw runID host ver ip now cr)) =
           (runID \<noteq> [] \<and> raw \<noteq> [] \<and>
            (case clients cr (composeClientKey user raw) of
               Some info \<Rightarrow> ci_Online info \<and> ci_RunID info \<noteq> runID | None \<Rightarrow> False))
       \<and> (snd (fst (Register user raw runID host ver ip now cr))
            \<longrightarrow> snd (Register user raw runID host ver ip now cr) = cr)"
  using reg_invD(2) [OF assms]
  by (auto simp: Register_def Let_def split: option.split)

theorem Register_conflict_iff_witness:
  "snd (fst (Register ''u'' ''c'' ''r2'' [] [] [] 6
     (reg_run [OpRegister ''u'' ''c'' ''r1'' [] [] [] 5] NewClientRegistry)))"
proof -
  have "reg_inv (reg_run [OpRegister ''u'' ''c'' ''r1'' [] [] [] 5] NewClientRegistry)"
    by (intro reg_run_inv NewClientRegistry_inv)
  from Register_conflict_iff [OF this, of "''u''" "''c''" "''r2''" "[]" "[]" "[]" 6]
  show ?thesis by (simp add: reg_eval)
qed

text \<open>The condition of C6 is needed: a client that logs in again with the same run id but
  another client id leaves its first record online for ever, since the index only knows
  the second key; the first client id is then refused to every other run.\<close>

theorem stale_online_record:
  "\<exists>cr. cr = reg_run [OpRegister ''u'' ''c1'' ''r'' [] [] [] 1, OpRegister ''u'' ''c2'' ''r'' [] [] [] 2,
                     OpOffline ''r'' 3] NewClientRegistry
      \<and> (\<exists>info. GetByKey ''u.c1'' cr = Some info \<and> ci_Online info)
      \<and> runIndex cr = Map.empty
      \<and> snd (fst (Register ''u'' ''c1'' ''r9'' [] [] [] 9 cr))"
  by (simp add: reg_eval GetByKey_def)

text \<open>Registry keys of different users collide: the key of client \<open>b.c\<close> of user \<open>a\<close> is the
  key of client \<open>c\<close> of user \<open>a.b\<close>, so the second of them to log in is refused although no
  client of its own user is online.\<close>

theorem registry_key_collision:
  "composeClientKey ''a'' ''b.c'' = composeClientKey ''a.b'' ''c''
 \<and> snd (fst (Register ''a.b'' ''c'' ''r2'' [] [] [] 2
        (reg_run [OpRegister ''a'' ''b.c'' ''r1'' [] [] [] 1] NewClientRegistry)))"
  by (simp add: reg_eval)

end
