(* ===== verification/Vhost_Router.thy ===== *)
theory Vhost_Router
  imports Prelude
begin

text \<open>
  The route table of the virtual hosts, \<^verbatim>\<open>pkg/util/vhost/router.go\<close>: routes are indexed by
  lower-cased domain and by HTTP user, and the routes of one index entry are kept sorted
  by descending location. The payload is a type parameter (\<^verbatim>\<open>any\<close> in the source).

  The table is shown to implement a finite map from (domain, location, user) to payloads,
  and \<open>Get\<close> to be longest-prefix matching in that map.
\<close>

section \<open>Data and operations\<close>

datatype router_error = ErrRouterConfigConflict

record 'p Router =
  r_domain :: string
  r_location :: string
  r_httpUser :: string
  r_payload :: 'p

type_synonym 'p Routers = "string \<rightharpoonup> (string \<rightharpoonup> 'p Router list)"

definition NewRouters :: "'p Routers" where
  "NewRouters = Map.empty"

definition exist :: "'p Routers \<Rightarrow> string \<Rightarrow> string \<Rightarrow> string \<Rightarrow> 'p Router option" where
  "exist r host path httpUser =
     (case r host of
        None \<Rightarrow> None
      | Some routersByHTTPUser \<Rightarrow>
          (case routersByHTTPUser httpUser of
             None \<Rightarrow> None
           | Some routers \<Rightarrow> List.find (\<lambda>route. path = r_location route) routers))"

definition Add ::
  "string \<Rightarrow> string \<Rightarrow> string \<Rightarrow> 'p \<Rightarrow> 'p Routers \<Rightarrow> (router_error, unit) result \<times> 'p Routers" where
  "Add domain0 location httpUser payload r =
     (let domain = to_lower domain0 in
      if exist r domain location httpUser \<noteq> None then (err ErrRouterConfigConflict, r)
      else
        let routersByHTTPUser = (case r domain of None \<Rightarrow> Map.empty | Some m \<Rightarrow> m);
            vrs = (case routersByHTTPUser httpUser of None \<Rightarrow> [] | Some vs \<Rightarrow> vs);
            vr = \<lparr>r_domain = domain, r_location = location, r_httpUser = httpUser, r_payload = payload\<rparr>;
            vrs' = sort_desc r_location (vrs @ [vr])
        in (ok (), r(domain \<mapsto> routersByHTTPUser(httpUser \<mapsto> vrs'))))"

definition Del :: "string \<Rightarrow> string \<Rightarrow> string \<Rightarrow> 'p Routers \<Rightarrow> 'p Routers" where
  "Del domain0 location httpUser r =
     (let domain = to_lower domain0 in
      case r domain of
        None \<Rightarrow> r
      | Some routersByHTTPUser \<Rightarrow>
          (case routersByHTTPUser httpUser of
             None \<Rightarrow> r
           | Some vrs \<Rightarrow>
               r(domain \<mapsto> routersByHTTPUser(httpUser \<mapsto> filter (\<lambda>vr. r_location vr \<noteq> location) vrs))))"

definition Get :: "'p Routers \<Rightarrow> string \<Rightarrow> string \<Rightarrow> string \<Rightarrow> 'p Router option" where
  "Get r host0 path httpUser =
     (let host = to_lower host0 in
      case r host of
        None \<Rightarrow> None
      | Some routersByHTTPUser \<Rightarrow>
          (case routersByHTTPUser httpUser of
             None \<Rightarrow> None
           | Some vrs \<Rightarrow> List.find (\<lambda>vr. has_prefix path (r_location vr)) vrs))"

section \<open>Invariant\<close>

text \<open>The routes of one index entry, the empty list when there is none.\<close>

definition bucket :: "'p Routers \<Rightarrow> string \<Rightarrow> string \<Rightarrow> 'p Router list" where
  "bucket r d u = (case r d of None \<Rightarrow> [] | Some m \<Rightarrow> (case m u of None \<Rightarrow> [] | Some vs \<Rightarrow> vs))"

definition bucket_ok :: "string \<Rightarrow> string \<Rightarrow> 'p Router list \<Rightarrow> bool" where
  "bucket_ok d u vs \<longleftrightarrow>
     sorted_wrt (\<lambda>a b. r_location b < r_location a) vs
   \<and> (\<forall>v \<in> set vs. r_domain v = d \<and> r_httpUser v = u)"

definition routers_inv :: "'p Routers \<Rightarrow> bool" where
  "routers_inv r \<longleftrightarrow>
     (\<forall>d u. bucket_ok d u (bucket r d u)) \<and> (\<forall>d \<in> dom r. to_lower d = d)"

lemma routers_invD: "routers_inv r \<Longrightarrow> bucket_ok d u (bucket r d u)"
  by (simp add: routers_inv_def)

lemma exist_bucket: "exist r d l u = List.find (\<lambda>v. l = r_location v) (bucket r d u)"
  by (simp add: exist_def bucket_def split: option.splits)

lemma Get_bucket: "Get r h path u = List.find (\<lambda>v. has_prefix path (r_location v)) (bucket r (to_lower h) u)"
  by (simp add: Get_def bucket_def Let_def split: option.splits)

lemma bucket_New [simp]: "bucket NewRouters d u = []"
  by (simp add: bucket_def NewRouters_def)

lemma Add_conflict_iff:
  "fst (Add d l u p r) = err ErrRouterConfigConflict \<longleftrightarrow> exist r (to_lower d) l u \<noteq> None"
  by (simp add: Add_def Let_def)

lemma Add_conflict: "exist r (to_lower d) l u \<noteq> None \<Longrightarrow> Add d l u p r = (err ErrRouterConfigConflict, r)"
  by (simp add: Add_def Let_def)

definition added_route :: "string \<Rightarrow> string \<Rightarrow> string \<Rightarrow> 'p \<Rightarrow> 'p Router" where
  "added_route d l u p = \<lparr>r_domain = to_lower d, r_location = l, r_httpUser = u, r_payload = p\<rparr>"

lemma Add_fresh:
  assumes "exist r (to_lower d) l u = None"
  shows "fst (Add d l u p r) = ok ()"
    and "dom (snd (Add d l u p r)) = insert (to_lower d) (dom r)"
    and "bucket (snd (Add d l u p r)) d' u' =
           (if d' = to_lower d \<and> u' = u
            then sort_desc r_location (bucket r (to_lower d) u @ [added_route d l u p])
            else bucket r d' u')"
  using assms by (auto simp: Add_def Let_def bucket_def added_route_def split: option.splits)

lemma bucket_Del:
  "bucket (Del d l u r) d' u' =
     (if d' = to_lower d \<and> u' = u then filter (\<lambda>v. r_location v \<noteq> l) (bucket r d' u') else bucket r d' u')"
  by (auto simp: Del_def Let_def bucket_def split: option.splits)

lemma dom_Del: "dom (Del d l u r) = dom r"
  by (auto simp: Del_def Let_def split: option.splits)

lemma bucket_ok_distinct: "bucket_ok d u vs \<Longrightarrow> distinct (map r_location vs)"
proof -
  have "sorted_wrt (\<lambda>a b. r_location b < r_location a) vs \<Longrightarrow> distinct (map r_location vs)"
    by (induction vs) auto
  then show "bucket_ok d u vs \<Longrightarrow> ?thesis" by (simp add: bucket_ok_def)
qed

lemma sorted_desc_strict:
  assumes "sorted_wrt (\<lambda>a b. key b \<le> key a) xs" and "distinct (map key xs)"
  shows "sorted_wrt (\<lambda>a b. key b < (key a :: 'k::linorder)) xs"
  using assms by (induction xs) (force simp: order.strict_iff_order image_iff)+

lemma bucket_ok_insert:
  assumes "bucket_ok (to_lower d) u vs" and "List.find (\<lambda>v. l = r_location v) vs = None"
  shows "bucket_ok (to_lower d) u (sort_desc r_location (vs @ [added_route d l u p]))"
proof -
  have "distinct (map r_location (vs @ [added_route d l u p]))"
    using assms bucket_ok_distinct by (fastforce simp: find_None_all added_route_def)
  then have "sorted_wrt (\<lambda>a b. r_location b < r_location a)
               (sort_desc r_location (vs @ [added_route d l u p]))"
    by (intro sorted_desc_strict sorted_sort_desc) (simp add: distinct_map_sort_desc del: map_append)
  then show ?thesis
    using assms(1) by (auto simp: bucket_ok_def added_route_def)
qed

lemma NewRouters_inv [inv_rules]: "routers_inv NewRouters"
  by (simp add: routers_inv_def bucket_ok_def) (simp add: NewRouters_def)

lemma Add_inv [inv_rules]:
  assumes inv: "routers_inv r"
  shows "routers_inv (snd (Add d l u p r))"
proof (cases "exist r (to_lower d) l u")
  case None
  have "bucket_ok d' u' (bucket (snd (Add d l u p r)) d' u')" for d' u'
    using routers_invD [OF inv] None
    by (simp add: Add_fresh(3) [OF None] bucket_ok_insert exist_bucket)
  with inv show ?thesis by (auto simp: routers_inv_def Add_fresh(2) [OF None])
qed (simp add: Add_conflict inv)

lemma Del_inv [inv_rules]: "routers_inv r \<Longrightarrow> routers_inv (Del d l u r)"
  by (auto simp: routers_inv_def bucket_Del dom_Del bucket_ok_def sorted_wrt_filter)

section \<open>The abstract table\<close>

text \<open>The table as a finite map, and the reference specification of a lookup in it: try the
  prefixes of the path from the longest to the shortest.\<close>

type_synonym 'p route_map = "string \<times> string \<times> string \<rightharpoonup> 'p"

definition routes :: "'p Routers \<Rightarrow> 'p route_map" where
  "routes r = (\<lambda>(d, l, u). map_option r_payload (exist r d l u))"

definition longest_match :: "'p route_map \<Rightarrow> string \<Rightarrow> string \<Rightarrow> string \<Rightarrow> 'p option" where
  "longest_match m host path user =
     (case List.find (\<lambda>l. m (host, l, user) \<noteq> None) (rev (prefixes path)) of
        None \<Rightarrow> None | Some l \<Rightarrow> m (host, l, user))"

lemma find_location:
  assumes "bucket_ok d u vs" and "v \<in> set vs"
  shows "List.find (\<lambda>w. r_location v = r_location w) vs = Some v"
proof -
  have "distinct (map r_location vs) \<Longrightarrow> v \<in> set vs \<Longrightarrow> ?thesis"
    by (induction vs) (auto simp: rev_image_eqI)
  then show ?thesis using assms bucket_ok_distinct by blast
qed

lemma routes_bucket:
  "routers_inv r \<Longrightarrow> routes r (d, l, u) = Some p \<longleftrightarrow>
     (\<exists>v \<in> set (bucket r d u). r_location v = l \<and> r_payload v = p)"
  by (auto simp: routes_def exist_bucket dest!: find_Some_iff_in)
     (metis find_location routers_invD)

lemma routes_New: "routes NewRouters = Map.empty"
  by (auto simp: routes_def exist_bucket)

lemma routes_Add_fresh:
  assumes inv: "routers_inv r" and "routes r (to_lower d, l, u) = None"
  shows "fst (Add d l u p r) = ok ()"
    and "routes (snd (Add d l u p r)) = (routes r)((to_lower d, l, u) \<mapsto> p)"
proof -
  from assms(2) have None: "exist r (to_lower d) l u = None" by (simp add: routes_def)
  then show "fst (Add d l u p r) = ok ()" by (rule Add_fresh)
  let ?r' = "snd (Add d l u p r)"
  have inv': "routers_inv ?r'" by (rule Add_inv [OF inv])
  have no: "\<forall>v \<in> set (bucket r (to_lower d) u). r_location v \<noteq> l"
    using None by (auto simp: exist_bucket find_None_all)
  have "routes ?r' (d', l', u') = ((routes r)((to_lower d, l, u) \<mapsto> p)) (d', l', u')" for d' l' u'
  proof -
    have "routes ?r' (d', l', u') = Some q \<longleftrightarrow>
            ((routes r)((to_lower d, l, u) \<mapsto> p)) (d', l', u') = Some q" for q
      using no by (auto simp: routes_bucket [OF inv'] routes_bucket [OF inv] Add_fresh(3) [OF None]
          added_route_def)
    then show ?thesis by (metis option.exhaust)
  qed
  then show "routes ?r' = (routes r)((to_lower d, l, u) \<mapsto> p)" by auto
qed

lemma routes_Add_taken:
  "routes r (to_lower d, l, u) \<noteq> None \<Longrightarrow> Add d l u p r = (err ErrRouterConfigConflict, r)"
  by (simp add: routes_def Add_conflict)

lemma routes_Del:
  assumes inv: "routers_inv r"
  shows "routes (Del d l u r) = (routes r)((to_lower d, l, u) := None)"
proof
  fix k :: "string \<times> string \<times> string"
  obtain d' l' u' where k: "k = (d', l', u')" by (cases k)
  have inv': "routers_inv (Del d l u r)" by (rule Del_inv [OF inv])
  have "routes (Del d l u r) (d', l', u') = Some q \<longleftrightarrow>
          ((routes r)((to_lower d, l, u) := None)) (d', l', u') = Some q" for q
    by (auto simp: routes_bucket [OF inv'] routes_bucket [OF inv] bucket_Del)
  then show "routes (Del d l u r) k = ((routes r)((to_lower d, l, u) := None)) k"
    unfolding k by (metis option.exhaust)
qed

section \<open>Longest-prefix matching\<close>

lemma rev_prefixes_find_longest:
  "List.find P (rev (prefixes s)) = Some l \<longleftrightarrow>
     prefix l s \<and> P l \<and> (\<forall>l'. prefix l' s \<and> P l' \<longrightarrow> length l' \<le> length l)"
proof (induction s arbitrary: l rule: rev_induct)
  case Nil
  then show ?case by auto
next
  case (snoc x s)
  show ?case
  proof (cases "P (s @ [x])")
    case True
    then show ?thesis
      by (auto simp: prefix_length_le dest: prefix_length_le)
         (metis append_eq_conv_conj length_append_singleton not_less_eq_eq prefix_length_le prefix_order.dual_order.refl prefix_snoc)
  next
    case False
    then show ?thesis using snoc.IH by auto
  qed
qed

lemma find_rev_prefixes_None:
  "List.find P (rev (prefixes s)) = None \<longleftrightarrow> (\<forall>l. prefix l s \<longrightarrow> \<not> P l)"
  by (auto simp: find_None_all)

lemma find_sorted_greatest:
  assumes "sorted_wrt (\<lambda>a b. key b < (key a :: 'k::linorder)) vs" and "List.find P vs = Some v"
    and "w \<in> set vs" and "P w"
  shows "key w \<le> key v"
  using assms by (induction vs) (auto split: if_splits)

lemma Get_longest_match:
  assumes inv: "routers_inv r"
  shows "map_option r_payload (Get r host path user) = longest_match (routes r) (to_lower host) path user"
proof (cases "Get r host path user")
  case None
  then have "\<forall>l. prefix l path \<longrightarrow> routes r (to_lower host, l, user) = None"
    by (metis (mono_tags, lifting) Get_bucket find_None_all has_prefix_iff inv option.exhaust routes_bucket)
  then have "List.find (\<lambda>l. routes r (to_lower host, l, user) \<noteq> None) (rev (prefixes path)) = None"
    by (simp add: find_rev_prefixes_None)
  with None show ?thesis by (simp add: longest_match_def)
next
  case (Some v)
  let ?b = "bucket r (to_lower host) user"
  have ok: "bucket_ok (to_lower host) user ?b" by (rule routers_invD [OF inv])
  from Some have f: "List.find (\<lambda>v. has_prefix path (r_location v)) ?b = Some v" by (simp add: Get_bucket)
  then have v: "v \<in> set ?b" "prefix (r_location v) path" by (auto dest: find_Some_iff_in simp: has_prefix_iff)
  then have rv: "routes r (to_lower host, r_location v, user) = Some (r_payload v)"
    by (auto simp: routes_bucket [OF inv])
  have "length l \<le> length (r_location v)"
    if "prefix l path" and "routes r (to_lower host, l, user) \<noteq> None" for l
  proof -
    from that(2) obtain w where w: "w \<in> set ?b" "r_location w = l"
      using routes_bucket [OF inv] by blast
    with that(1) f ok have "l \<le> r_location v"
      by (auto simp: bucket_ok_def has_prefix_iff intro: find_sorted_greatest)
    with v(2) that(1) show ?thesis by (rule prefixes_of_same_lex_length)
  qed
  with v rv have "List.find (\<lambda>l. routes r (to_lower host, l, user) \<noteq> None) (rev (prefixes path))
                  = Some (r_location v)"
    by (simp add: rev_prefixes_find_longest)
  with Some rv show ?thesis by (simp add: longest_match_def)
qed
lemma longest_match_Some_iff:
  "longest_match m h path u = Some p \<longleftrightarrow>
     (\<exists>l. prefix l path \<and> m (h, l, u) = Some p
        \<and> (\<forall>l'. prefix l' path \<and> m (h, l', u) \<noteq> None \<longrightarrow> length l' \<le> length l))"
proof -
  have "(case List.find (\<lambda>l. m (h, l, u) \<noteq> None) (rev (prefixes path)) of
           None \<Rightarrow> None | Some l \<Rightarrow> m (h, l, u)) = Some p
        \<longleftrightarrow> (\<exists>l. List.find (\<lambda>l. m (h, l, u) \<noteq> None) (rev (prefixes path)) = Some l \<and> m (h, l, u) = Some p)"
    by (auto split: option.splits)
  then show ?thesis
    unfolding longest_match_def rev_prefixes_find_longest by auto
qed

section \<open>The interface of the route table\<close>

text \<open>What the multiplexers and the reverse proxy rely on: the four operations act on the
  abstract map, and a lookup is a longest match.\<close>

locale route_table =
  fixes rt_inv :: "'s \<Rightarrow> bool"
    and rt_abs :: "'s \<Rightarrow> 'p route_map"
    and rt_add :: "string \<Rightarrow> string \<Rightarrow> string \<Rightarrow> 'p \<Rightarrow> 's \<Rightarrow> (router_error, unit) result \<times> 's"
    and rt_del :: "string \<Rightarrow> string \<Rightarrow> string \<Rightarrow> 's \<Rightarrow> 's"
    and rt_get :: "'s \<Rightarrow> string \<Rightarrow> string \<Rightarrow> string \<Rightarrow> 'p option"
  assumes add_inv: "rt_inv s \<Longrightarrow> rt_inv (snd (rt_add d l u p s))"
    and del_inv: "rt_inv s \<Longrightarrow> rt_inv (rt_del d l u s)"
    and add_new: "rt_inv s \<Longrightarrow> rt_abs s (to_lower d, l, u) = None \<Longrightarrow>
        fst (rt_add d l u p s) = ok () \<and> rt_abs (snd (rt_add d l u p s)) = (rt_abs s)((to_lower d, l, u) \<mapsto> p)"
    and add_taken: "rt_abs s (to_lower d, l, u) \<noteq> None \<Longrightarrow> rt_add d l u p s = (err ErrRouterConfigConflict, s)"
    and del_abs: "rt_inv s \<Longrightarrow> rt_abs (rt_del d l u s) = (rt_abs s)((to_lower d, l, u) := None)"
    and get_abs: "rt_inv s \<Longrightarrow> rt_get s h path u = longest_match (rt_abs s) (to_lower h) path u"
begin

text \<open>A registered route serves its own location, and is the only thing its removal takes away.\<close>

lemma add_ok_iff: "rt_inv s \<Longrightarrow> fst (rt_add d l u p s) = ok () \<longleftrightarrow> rt_abs s (to_lower d, l, u) = None"
  using add_new add_taken by fastforce

lemma get_added:
  assumes "rt_inv s" and "fst (rt_add d l u p s) = ok ()"
  shows "rt_get (snd (rt_add d l u p s)) d l u = Some p"
proof -
  have "rt_abs (snd (rt_add d l u p s)) (to_lower d, l, u) = Some p"
    using assms add_new add_ok_iff by simp
  then have "longest_match (rt_abs (snd (rt_add d l u p s))) (to_lower d) l u = Some p"
    unfolding longest_match_Some_iff by (blast intro: prefix_length_le)
  then show ?thesis
    using get_abs [OF add_inv [OF assms(1)]] by simp
qed

lemma del_added:
  "rt_inv s \<Longrightarrow> fst (rt_add d l u p s) = ok () \<Longrightarrow> rt_abs (rt_del d l u (snd (rt_add d l u p s))) = rt_abs s"
  using add_ok_iff add_new add_inv del_abs by simp

lemma get_frame:
  "rt_inv s \<Longrightarrow> rt_inv s' \<Longrightarrow> (\<And>l. rt_abs s' (to_lower h, l, u) = rt_abs s (to_lower h, l, u)) \<Longrightarrow>
   rt_get s' h path u = rt_get s h path u"
  by (simp add: get_abs longest_match_def split: option.split)

lemma add_other_host:
  "rt_inv s \<Longrightarrow> to_lower h \<noteq> to_lower d \<or> u' \<noteq> u \<Longrightarrow>
   rt_get (snd (rt_add d l u p s)) h path u' = rt_get s h path u'"
  using add_new [of s d l u p] add_taken [of s d l u p]
  by (intro get_frame add_inv) (cases "rt_abs s (to_lower d, l, u)"; auto)+

end

definition get_payload :: "'p Routers \<Rightarrow> string \<Rightarrow> string \<Rightarrow> string \<Rightarrow> 'p option" where
  "get_payload r h path u = map_option r_payload (Get r h path u)"

interpretation vr: route_table routers_inv routes Add Del get_payload
  by unfold_locales
     (simp_all add: Add_inv Del_inv routes_Add_fresh routes_Add_taken routes_Del Get_longest_match
        get_payload_def)

section \<open>Histories and properties\<close>

datatype 'p route_op = OpAdd string string string 'p | OpDel string string string

fun route_step :: "'p route_op \<Rightarrow> 'p Routers \<Rightarrow> 'p Routers" where
  "route_step (OpAdd d l u p) r = snd (Add d l u p r)"
| "route_step (OpDel d l u) r = Del d l u r"

fun spec_step :: "'p route_op \<Rightarrow> 'p route_map \<Rightarrow> 'p route_map" where
  "spec_step (OpAdd d l u p) m =
     (if m (to_lower d, l, u) = None then m((to_lower d, l, u) \<mapsto> p) else m)"
| "spec_step (OpDel d l u) m = m((to_lower d, l, u) := None)"

definition route_run :: "'p route_op list \<Rightarrow> 'p Routers" where
  "route_run xs = fold route_step xs NewRouters"

definition spec_run :: "'p route_op list \<Rightarrow> 'p route_map" where
  "spec_run xs = fold spec_step xs Map.empty"

lemma route_step_refines:
  "routers_inv r \<Longrightarrow> routers_inv (route_step x r) \<and> routes (route_step x r) = spec_step x (routes r)"
  by (cases x) (auto simp: Add_inv Del_inv routes_Del routes_Add_fresh routes_Add_taken)

lemma route_run_refines: "routers_inv (route_run xs) \<and> routes (route_run xs) = spec_run xs"
proof -
  have "routers_inv r \<Longrightarrow> routers_inv (fold route_step xs r) \<and> routes (fold route_step xs r) = fold spec_step xs (routes r)" for r
    by (induction xs arbitrary: r) (simp_all add: route_step_refines)
  from this [OF NewRouters_inv] show ?thesis by (simp add: route_run_def spec_run_def routes_New)
qed

text \<open>C29. The route table implements longest-prefix matching. After any history of additions
  and deletions, a lookup returns exactly what trying the prefixes of the path from the
  longest to the shortest in the abstract map (domain, location, user) would return, the
  host being compared in lower case.\<close>

theorem Get_refines_longest_match:
  "map_option r_payload (Get (route_run xs) host path user)
   = longest_match (spec_run xs) (to_lower host) path user"
  using Get_longest_match route_run_refines by metis

text \<open>Adding a route fails exactly when the same domain (in any case), location and user
  are registered; a failing addition changes nothing; a succeeding one serves its own
  location at once, leaves every other host and user alone, and is undone by the deletion.\<close>

theorem Add_Del_contract:
  assumes inv: "routers_inv r"
  shows "(fst (Add d l u p r) = ok () \<longleftrightarrow> routes r (to_lower d, l, u) = None)
       \<and> (fst (Add d l u p r) \<noteq> ok () \<longrightarrow> Add d l u p r = (err ErrRouterConfigConflict, r))
       \<and> (fst (Add d l u p r) = ok () \<longrightarrow>
            map_option r_payload (Get (snd (Add d l u p r)) d l u) = Some p
          \<and> routes (Del d l u (snd (Add d l u p r))) = routes r)
       \<and> (\<forall>h path u'. to_lower h \<noteq> to_lower d \<or> u' \<noteq> u \<longrightarrow>
            map_option r_payload (Get (snd (Add d l u p r)) h path u')
            = map_option r_payload (Get r h path u'))"
proof (intro conjI impI allI)
  show "fst (Add d l u p r) = ok () \<longleftrightarrow> routes r (to_lower d, l, u) = None"
    by (rule vr.add_ok_iff [OF inv])
  then show "Add d l u p r = (err ErrRouterConfigConflict, r)" if "fst (Add d l u p r) \<noteq> ok ()"
    using that by (intro vr.add_taken) simp
  show "map_option r_payload (Get (snd (Add d l u p r)) d l u) = Some p"
    and "routes (Del d l u (snd (Add d l u p r))) = routes r" if "fst (Add d l u p r) = ok ()"
    using vr.get_added [OF inv that] vr.del_added [OF inv that] by (simp_all add: get_payload_def)
  show "map_option r_payload (Get (snd (Add d l u p r)) h path u') = map_option r_payload (Get r h path u')"
    if "to_lower h \<noteq> to_lower d \<or> u' \<noteq> u" for h path u'
    using vr.add_other_host [OF inv that] by (simp add: get_payload_def)
qed

definition one_route :: "nat Routers" where
  "one_route = snd (Add ''ex.com'' ''/'' [] 1 NewRouters)"

theorem Add_Del_contract_witness:
  "fst (Add ''Ex.com'' ''/a'' [] 2 one_route) = ok ()
   \<and> map_option r_payload (Get (snd (Add ''Ex.com'' ''/a'' [] 2 one_route)) ''Ex.com'' ''/a'' []) = Some 2"
proof -
  have inv: "routers_inv one_route"
    unfolding one_route_def by (intro Add_inv NewRouters_inv)
  have free: "routes one_route (to_lower ''Ex.com'', ''/a'', []) = None"
    unfolding routes_def prod.case by code_simp
  show ?thesis
    using Add_Del_contract [OF inv, of "''Ex.com''" "''/a''" "[]" 2] free by argo
qed

end
