(* ===== verification/Http_Util.thy ===== *)
theory Http_Util
  imports Prelude
begin

text \<open>
  \<^verbatim>\<open>pkg/util/http/http.go\<close>: canonical host names and HTTP basic authentication, with the
  parts of Go's standard library it calls: \<^verbatim>\<open>net.SplitHostPort\<close>, \<^verbatim>\<open>strings.TrimSuffix\<close>,
  \<^verbatim>\<open>strings.Cut\<close> and \<^verbatim>\<open>base64.StdEncoding\<close> (which skips CR and LF, insists on padding and
  does not insist on zero trailing bits).
\<close>

section \<open>Standard library\<close>

definition trim_suffix :: "string \<Rightarrow> string \<Rightarrow> string" where
  "trim_suffix s suf = (if has_suffix s suf then take (length s - length suf) s else s)"

text \<open>\<open>strings.Cut\<close> at a one-byte separator.\<close>

fun cut :: "char \<Rightarrow> string \<Rightarrow> (string \<times> string) option" where
  "cut c [] = None"
| "cut c (x # xs) = (if x = c then Some ([], xs)
     else (case cut c xs of None \<Rightarrow> None | Some (a, b) \<Rightarrow> Some (x # a, b)))"

text \<open>The last occurrence of a byte: what is before and after it.\<close>

definition cut_last :: "char \<Rightarrow> string \<Rightarrow> (string \<times> string) option" where
  "cut_last c s = (case cut c (rev s) of None \<Rightarrow> None | Some (b, a) \<Rightarrow> Some (rev a, rev b))"

text \<open>\<open>net.SplitHostPort\<close>; the error carries no information the program uses.\<close>

definition SplitHostPort :: "string \<Rightarrow> (string \<times> string) option" where
  "SplitHostPort hp =
     (case cut_last CHR '':'' hp of
        None \<Rightarrow> None
      | Some (before, port) \<Rightarrow>
          (if hd hp = CHR ''['' then
             (case cut CHR '']'' (tl hp) of
                None \<Rightarrow> None
              | Some (host, after) \<Rightarrow>
                  (if after = CHR '':'' # port \<and> CHR ''['' \<notin> set host \<union> set port \<and> CHR '']'' \<notin> set port
                   then Some (host, port) else None))
           else if CHR '':'' \<in> set before \<or> CHR ''['' \<in> set hp \<or> CHR '']'' \<in> set hp then None
           else Some (before, port)))"

lemma cut_no_sep: "c \<notin> set s \<Longrightarrow> cut c s = None"
  by (induction s) auto

lemma cut_append_sep: "c \<notin> set s \<Longrightarrow> cut c (s @ c # t) = Some (s, t)"
  by (induction s) auto

lemma cut_last_append_sep: "c \<notin> set t \<Longrightarrow> cut_last c (s @ c # t) = Some (s, t)"
  by (simp add: cut_last_def cut_append_sep)

section \<open>Canonical host names\<close>

definition hasPort :: "string \<Rightarrow> bool" where
  "hasPort host =
     (let colons = length (filter (\<lambda>c. c = CHR '':'') host) in
      if colons = 0 then False
      else if colons = 1 then True
      else hd host = CHR ''['' \<and> sublist '']:'' host)"

definition CanonicalHost :: "string \<Rightarrow> string option" where
  "CanonicalHost host0 =
     (let host = to_lower host0 in
      if hasPort host then
        (case SplitHostPort host of
           None \<Rightarrow> None
         | Some (h, _) \<Rightarrow> Some (trim_suffix h ''.''))
      else Some (trim_suffix host ''.''))"

lemma lower_char_special [simp]:
  "lower_char c = CHR '':'' \<longleftrightarrow> c = CHR '':''" "lower_char c = CHR ''['' \<longleftrightarrow> c = CHR ''[''"
  "lower_char c = CHR '']'' \<longleftrightarrow> c = CHR '']''" "lower_char c = CHR ''.'' \<longleftrightarrow> c = CHR ''.''"
proof -
  have *: "of_char (lower_char c) = (if 65 \<le> (of_char c :: nat) \<and> (of_char c :: nat) \<le> 90 then of_char c + 32 else (of_char c :: nat))"
    by (auto simp: lower_char_def Let_def)
  have **: "lower_char c = d \<longleftrightarrow> of_char (lower_char c) = (of_char d :: nat)" for d by simp
  have ***: "c = d \<longleftrightarrow> of_char c = (of_char d :: nat)" for d by simp
  show "lower_char c = CHR '':'' \<longleftrightarrow> c = CHR '':''" "lower_char c = CHR ''['' \<longleftrightarrow> c = CHR ''[''"
    "lower_char c = CHR '']'' \<longleftrightarrow> c = CHR '']''" "lower_char c = CHR ''.'' \<longleftrightarrow> c = CHR ''.''"
    unfolding ** *** * by auto
qed

lemma set_to_lower_special [simp]:
  "CHR '':'' \<in> set (to_lower s) \<longleftrightarrow> CHR '':'' \<in> set s"
  "CHR ''['' \<in> set (to_lower s) \<longleftrightarrow> CHR ''['' \<in> set s"
  "CHR '']'' \<in> set (to_lower s) \<longleftrightarrow> CHR '']'' \<in> set s"
proof -
  have "d \<in> set (to_lower s) \<longleftrightarrow> d \<in> set s" if "\<And>c. lower_char c = d \<longleftrightarrow> c = d" for d
    using that by (simp add: to_lower_def image_iff) (metis that)
  then show "CHR '':'' \<in> set (to_lower s) \<longleftrightarrow> CHR '':'' \<in> set s"
    "CHR ''['' \<in> set (to_lower s) \<longleftrightarrow> CHR ''['' \<in> set s"
    "CHR '']'' \<in> set (to_lower s) \<longleftrightarrow> CHR '']'' \<in> set s"
    by simp_all
qed

lemma to_lower_append [simp]: "to_lower (s @ t) = to_lower s @ to_lower t"
  by (simp add: to_lower_def)

lemma to_lower_Nil: "to_lower [] = []"
  by (simp add: to_lower_def)

lemma to_lower_Cons: "to_lower (c # t) = lower_char c # to_lower t"
  by (simp add: to_lower_def)

lemma colon_count_0: "CHR '':'' \<notin> set s \<Longrightarrow> filter (\<lambda>c. c = CHR '':'') s = []"
  by (auto simp: filter_empty_conv)

definition plain :: "string \<Rightarrow> bool" where
  "plain s \<longleftrightarrow> CHR '':'' \<notin> set s \<and> CHR ''['' \<notin> set s \<and> CHR '']'' \<notin> set s"

lemma SplitHostPort_plain:
  assumes "plain h" "plain p"
  shows "SplitHostPort (h @ CHR '':'' # p) = Some (h, p)"
proof -
  have "cut_last CHR '':'' (h @ CHR '':'' # p) = Some (h, p)"
    using assms by (simp add: plain_def cut_last_append_sep)
  then show ?thesis
    using assms by (cases h) (auto simp: SplitHostPort_def plain_def)
qed

text \<open>A host name with a port, without one, and a bracketed IPv6 address.\<close>

lemma CanonicalHost_port:
  assumes "plain h" "plain p"
  shows "CanonicalHost (h @ CHR '':'' # p) = Some (trim_suffix (to_lower h) ''.'')"
proof -
  have lc: "lower_char CHR '':'' = CHR '':''" by simp
  have "plain (to_lower h)" "plain (to_lower p)" using assms by (simp_all add: plain_def)
  moreover from this have "hasPort (to_lower h @ CHR '':'' # to_lower p)"
    by (simp add: hasPort_def plain_def colon_count_0)
  ultimately show ?thesis
    by (simp add: CanonicalHost_def to_lower_Cons lc SplitHostPort_plain)
qed

lemma CanonicalHost_plain:
  "plain h \<Longrightarrow> CanonicalHost h = Some (trim_suffix (to_lower h) ''.'')"
  by (simp add: CanonicalHost_def hasPort_def plain_def colon_count_0)

section \<open>Base64\<close>

definition base64_alphabet :: string where
  "base64_alphabet = ''ABCDEFGHIJKLMNOPQRSTUVWXYZabcdefghijklmnopqrstuvwxyz0123456789+/''"

definition b64_char :: "nat \<Rightarrow> char" where
  "b64_char i = base64_alphabet ! i"

fun index_of :: "char \<Rightarrow> string \<Rightarrow> nat option" where
  "index_of c [] = None"
| "index_of c (x # xs) = (if x = c then Some 0 else map_option Suc (index_of c xs))"

definition b64_val :: "char \<Rightarrow> nat option" where
  "b64_val c = index_of c base64_alphabet"

abbreviation byte :: "char \<Rightarrow> nat" where
  "byte c \<equiv> of_char c"

fun b64_encode :: "string \<Rightarrow> string" where
  "b64_encode [] = []"
| "b64_encode [a] =
     (let x = byte a * 65536 in [b64_char (x div 262144), b64_char (x div 4096 mod 64), CHR ''='', CHR ''=''])"
| "b64_encode [a, b] =
     (let x = byte a * 65536 + byte b * 256
      in [b64_char (x div 262144), b64_char (x div 4096 mod 64), b64_char (x div 64 mod 64), CHR ''=''])"
| "b64_encode (a # b # c # rest) =
     (let x = byte a * 65536 + byte b * 256 + byte c
      in [b64_char (x div 262144), b64_char (x div 4096 mod 64), b64_char (x div 64 mod 64), b64_char (x mod 64)]
         @ b64_encode rest)"

fun b64_quads :: "string \<Rightarrow> string option" where
  "b64_quads [] = Some []"
| "b64_quads (a # b # c # d # rest) =
     (case (b64_val a, b64_val b) of
        (Some i, Some j) \<Rightarrow>
          (if c = CHR ''='' then
             (if d = CHR ''='' \<and> rest = [] then Some [char_of ((i * 64 + j) div 16)] else None)
           else (case b64_val c of
              None \<Rightarrow> None
            | Some k \<Rightarrow>
                (if d = CHR ''='' then
                   (if rest = [] then
                      Some [char_of ((i * 4096 + j * 64 + k) div 1024), char_of ((i * 4096 + j * 64 + k) div 4 mod 256)]
                    else None)
                 else (case b64_val d of
                    None \<Rightarrow> None
                  | Some l \<Rightarrow>
                      (let x = i * 262144 + j * 4096 + k * 64 + l
                       in map_option (\<lambda>t. char_of (x div 65536) # char_of (x div 256 mod 256) # char_of (x mod 256) # t)
                            (b64_quads rest))))))
      | _ \<Rightarrow> None)"
| "b64_quads _ = None"

definition b64_decode :: "string \<Rightarrow> string option" where
  "b64_decode s = b64_quads (filter (\<lambda>c. c \<noteq> CHR 0x0A \<and> c \<noteq> CHR 0x0D) s)"

lemma index_of_nth: "distinct xs \<Longrightarrow> i < length xs \<Longrightarrow> index_of (xs ! i) xs = Some i"
proof (induction xs arbitrary: i)
  case (Cons x xs)
  then show ?case by (cases i) (auto simp: nth_mem)
qed simp

lemma base64_alphabet_ok:
  "distinct base64_alphabet" "length base64_alphabet = 64"
  "CHR ''='' \<notin> set base64_alphabet" "CHR 0x0A \<notin> set base64_alphabet" "CHR 0x0D \<notin> set base64_alphabet"
  by (simp_all add: base64_alphabet_def)

lemma b64_val_char: "i < 64 \<Longrightarrow> b64_val (b64_char i) = Some i"
  by (simp add: b64_val_def b64_char_def index_of_nth base64_alphabet_ok)

lemma b64_char_clean: "i < 64 \<Longrightarrow> b64_char i \<noteq> CHR ''='' \<and> b64_char i \<noteq> CHR 0x0A \<and> b64_char i \<noteq> CHR 0x0D"
  unfolding b64_char_def using base64_alphabet_ok nth_mem [of i base64_alphabet] by metis

lemma byte_less: "byte c < 256"
  using of_char_mod_256 [of c] by (metis mod_less_divisor zero_less_numeral of_char_of)

lemma sextets:
  fixes x :: nat
  assumes "x < 16777216"
  shows "x div 262144 < 64" and "x div 4096 mod 64 < 64" and "x div 64 mod 64 < 64" and "x mod 64 < 64"
    and "x div 262144 * 262144 + x div 4096 mod 64 * 4096 + x div 64 mod 64 * 64 + x mod 64 = x"
proof -
  have d: "x div 4096 = x div 64 div 64" "x div 262144 = x div 64 div 64 div 64"
    by (simp_all add: div_mult2_eq [symmetric])
  have "x = x div 64 * 64 + x mod 64" "x div 64 = x div 64 div 64 * 64 + x div 64 mod 64"
    "x div 64 div 64 = x div 64 div 64 div 64 * 64 + x div 64 div 64 mod 64" by simp_all
  then show "x div 262144 * 262144 + x div 4096 mod 64 * 4096 + x div 64 mod 64 * 64 + x mod 64 = x"
    unfolding d by linarith
qed (use assms in \<open>simp_all add: less_mult_imp_div_less\<close>)

lemma three_bytes:
  fixes a b c :: nat
  assumes "a < 256" "b < 256" "c < 256"
  shows "(a * 65536 + b * 256 + c) div 65536 = a" "(a * 65536 + b * 256 + c) div 256 mod 256 = b"
    "(a * 65536 + b * 256 + c) mod 256 = c" "a * 65536 + b * 256 + c < 16777216"
proof -
  have x: "a * 65536 + b * 256 + c = c + (b + a * 256) * 256" by simp
  have d: "(a * 65536 + b * 256 + c) div 256 = b + a * 256"
    unfolding x using assms(3) by simp
  show "(a * 65536 + b * 256 + c) mod 256 = c" unfolding x mod_mult_self1 using assms(3) by simp
  show "(a * 65536 + b * 256 + c) div 256 mod 256 = b" unfolding d using assms(2) by simp
qed (use assms in simp_all)

lemma six_bits:
  fixes i j k l :: nat
  assumes "x = i * 262144 + j * 4096 + k * 64 + l" "l < 64" "k < 64"
  shows "x div 4096 = i * 64 + j" "x div 64 = i * 4096 + j * 64 + k"
  using assms by simp_all

lemma b64_quads_encode: "b64_quads (b64_encode s) = Some s"
proof (induction s rule: b64_encode.induct)
  case (2 a)
  define x where "x = byte a * 65536"
  have x: "x < 16777216" using byte_less [of a] by (simp add: x_def)
  have "x div 262144 * 64 + x div 4096 mod 64 = x div 4096"
    by (rule six_bits(1) [OF sextets(5) [OF x, symmetric] sextets(4) [OF x] sextets(3) [OF x], symmetric])
  moreover have "x div 4096 div 16 = byte a" by (simp add: x_def)
  ultimately show ?case using sextets(1,2) [OF x]
    unfolding b64_encode.simps Let_def x_def [symmetric] by (simp add: b64_val_char)
next
  case (3 a b)
  define x where "x = byte a * 65536 + byte b * 256"
  have x: "x < 16777216" using three_bytes(4) [OF byte_less byte_less, of 0 a b] by (simp add: x_def)
  have "x div 262144 * 4096 + x div 4096 mod 64 * 64 + x div 64 mod 64 = x div 64"
    by (rule six_bits(2) [OF sextets(5) [OF x, symmetric] sextets(4) [OF x] sextets(3) [OF x], symmetric])
  moreover have "x div 64 div 1024 = byte a" "x div 64 div 4 mod 256 = byte b"
    using three_bytes(1,2) [OF byte_less byte_less, of 0 a b]
    by (simp_all add: x_def div_mult2_eq [symmetric])
  ultimately show ?case using sextets(1-3) [OF x]
    unfolding b64_encode.simps Let_def x_def [symmetric] by (simp add: b64_val_char b64_char_clean)
next
  case (4 a b c rest)
  define x where "x = byte a * 65536 + byte b * 256 + byte c"
  note tb = three_bytes [OF byte_less byte_less byte_less, of a b c, folded x_def]
  have "x div 262144 * 262144 + x div 4096 mod 64 * 4096 + x div 64 mod 64 * 64 + x mod 64 = x"
    by (rule sextets(5) [OF tb(4)])
  moreover have "char_of (x div 65536) = a" "char_of (x div 256) = b" "char_of x = c"
    using arg_cong [OF tb(1), of char_of] arg_cong [OF tb(2), of char_of] arg_cong [OF tb(3), of char_of]
    by (simp_all only: char_of_mod_256 char_of_char)
  ultimately show ?case using sextets(1-4) [OF tb(4)] 4
    unfolding b64_encode.simps Let_def x_def [symmetric] by (simp add: b64_val_char b64_char_clean Let_def)
qed simp

lemma sextet_chars_clean:
  assumes "x < 16777216"
    and "c \<in> {b64_char (x div 262144), b64_char (x div 4096 mod 64), b64_char (x div 64 mod 64), b64_char (x mod 64), CHR ''=''}"
  shows "c \<noteq> CHR 0x0A \<and> c \<noteq> CHR 0x0D"
  using assms(2) sextets(1-4) [OF assms(1)] b64_char_clean by auto

lemma b64_encode_clean: "c \<in> set (b64_encode s) \<Longrightarrow> c \<noteq> CHR 0x0A \<and> c \<noteq> CHR 0x0D"
proof (induction s rule: b64_encode.induct)
  case (2 a)
  have "byte a * 65536 < 16777216" using byte_less [of a] by simp
  from sextet_chars_clean [OF this] 2 show ?case
    unfolding b64_encode.simps Let_def list.set by blast
next
  case (3 a b)
  have "byte a * 65536 + byte b * 256 < 16777216"
    using three_bytes(4) [OF byte_less byte_less, of 0 a b] by simp
  from sextet_chars_clean [OF this] 3 show ?case
    unfolding b64_encode.simps Let_def list.set by blast
next
  case (4 a b c' rest)
  from sextet_chars_clean [OF three_bytes(4) [OF byte_less byte_less byte_less, of a b c']] 4
  show ?case unfolding b64_encode.simps Let_def set_append list.set by blast
qed simp

lemma b64_round_trip: "b64_decode (b64_encode s) = Some s"
proof -
  have "filter (\<lambda>c. c \<noteq> CHR 0x0A \<and> c \<noteq> CHR 0x0D) (b64_encode s) = b64_encode s"
    using b64_encode_clean by (simp add: filter_id_conv)
  then show ?thesis by (simp add: b64_decode_def b64_quads_encode)
qed

section \<open>Basic authentication\<close>

definition ParseBasicAuth :: "string \<Rightarrow> (string \<times> string) option" where
  "ParseBasicAuth auth =
     (let pre = ''Basic '' in
      if length auth < length pre \<or> to_lower (take (length pre) auth) \<noteq> to_lower pre then None
      else case b64_decode (drop (length pre) auth) of
             None \<Rightarrow> None
           | Some cs \<Rightarrow> cut CHR '':'' cs)"

definition BasicAuth :: "string \<Rightarrow> string \<Rightarrow> string" where
  "BasicAuth username passwd = ''Basic '' @ b64_encode (username @ '':'' @ passwd)"

lemma BasicAuth_parses:
  "CHR '':'' \<notin> set u \<Longrightarrow> BasicAuth u p \<noteq> [] \<and> ParseBasicAuth (BasicAuth u p) = Some (u, p)"
  by (simp add: ParseBasicAuth_def BasicAuth_def b64_round_trip cut_append_sep)

section \<open>Properties\<close>

text \<open>Basic authentication round trip: the header built from a user name without a colon
  and any password is parsed back to exactly that name and password, including the
  base64 coding of arbitrary bytes.\<close>

theorem ParseBasicAuth_BasicAuth:
  assumes "CHR '':'' \<notin> set username"
  shows "ParseBasicAuth (BasicAuth username passwd) = Some (username, passwd)"
  using BasicAuth_parses [OF assms] by blast

theorem ParseBasicAuth_BasicAuth_witness:
  "ParseBasicAuth (BasicAuth ''admin'' ''a:b'') = Some (''admin'', ''a:b'')"
  by (rule ParseBasicAuth_BasicAuth) simp

text \<open>The canonical host name drops the port and one trailing dot and is in lower case:
  a host and the same host with any port are canonically equal, so routing does not
  depend on the port a request names.\<close>

theorem CanonicalHost_ignores_port:
  assumes "plain h" and "plain p"
  shows "CanonicalHost (h @ '':'' @ p) = CanonicalHost h
       \<and> CanonicalHost (h @ ''.:'' @ p) = Some (to_lower h)
       \<and> CanonicalHost (h @ ''.'') = Some (to_lower h)"
proof -
  have "plain (h @ ''.'')" using assms by (simp add: plain_def)
  from CanonicalHost_port [OF this assms(2)] CanonicalHost_plain [OF this]
    CanonicalHost_port [OF assms] CanonicalHost_plain [OF assms(1)] show ?thesis
    by (simp add: to_lower_Cons trim_suffix_def has_suffix_def lower_char_def to_lower_Nil)
qed

theorem CanonicalHost_ignores_port_witness:
  "CanonicalHost (''Ex.com'' @ '':'' @ ''8080'') = CanonicalHost ''Ex.com''"
  using CanonicalHost_ignores_port [of "''Ex.com''" "''8080''"] by (simp add: plain_def)

end
