(* ===== verification/Vhost_Mux.thy ===== *)
theory Vhost_Mux
  imports Vhost_Router Http_Util
begin

text \<open>
  Routing of virtual hosts: the multiplexer for HTTPS and HTTP CONNECT
  (\<^verbatim>\<open>pkg/util/vhost/vhost.go\<close>, \<^verbatim>\<open>pkg/util/tcpmux/httpconnect.go\<close>) and the HTTP reverse proxy
  (\<^verbatim>\<open>pkg/util/vhost/http.go\<close>). Both look a request up by exact host, then by wildcard
  domains, then by the catch-all domain, each time first for the request's user and then
  for any user.

  Connections are opaque values; the network calls a handler makes are its environment,
  a record of their answers, and what it does is an outcome value.
\<close>

section \<open>Looking a route up\<close>

definition findRouter :: "'p Routers \<Rightarrow> string \<Rightarrow> string \<Rightarrow> string \<Rightarrow> 'p Router option" where
  "findRouter r inDomain inLocation inRouteByHTTPUser =
     (case Get r inDomain inLocation inRouteByHTTPUser of
        Some vr \<Rightarrow> Some vr
      | None \<Rightarrow>
          (case Get r inDomain inLocation [] of
             Some vr \<Rightarrow> Some vr
           | None \<Rightarrow> None))"

text \<open>The loop over wildcard domains: as long as three labels are left, the first is replaced
  by a star.\<close>

fun wildcard_loop :: "(string \<Rightarrow> 'r option) \<Rightarrow> string list \<Rightarrow> 'r option" where
  "wildcard_loop look [] = None"
| "wildcard_loop look (d # ds) =
     (if length (d # ds) \<ge> 3 then
        (case look (join_with ''.'' (''*'' # ds)) of
           Some vr \<Rightarrow> Some vr
         | None \<Rightarrow> wildcard_loop look ds)
      else None)"

definition getVhost :: "'p Routers \<Rightarrow> string \<Rightarrow> string \<Rightarrow> string \<Rightarrow> 'p Router option" where
  "getVhost r domain location routeByHTTPUser =
     (case findRouter r domain location routeByHTTPUser of
        Some vr \<Rightarrow> Some vr
      | None \<Rightarrow>
          (case wildcard_loop (\<lambda>d. findRouter r d location routeByHTTPUser) (split_on CHR ''.'' domain) of
             Some vr \<Rightarrow> Some vr
           | None \<Rightarrow>
               (case findRouter r ''*'' location routeByHTTPUser of
                  Some vr \<Rightarrow> Some vr
                | None \<Rightarrow> None)))"

text \<open>The multiplexer has its own copy of the search, which returns the listener stored as the
  payload.\<close>

definition find_listener :: "'l Routers \<Rightarrow> string \<Rightarrow> string \<Rightarrow> string \<Rightarrow> 'l option" where
  "find_listener r inName inPath inHTTPUser =
     (case Get r inName inPath inHTTPUser of
        Some vr \<Rightarrow> Some (r_payload vr)
      | None \<Rightarrow>
          (case Get r inName inPath [] of
             Some vr \<Rightarrow> Some (r_payload vr)
           | None \<Rightarrow> None))"

definition getListener :: "'l Routers \<Rightarrow> string \<Rightarrow> string \<Rightarrow> string \<Rightarrow> 'l option" where
  "getListener r name path httpUser =
     (case find_listener r name path httpUser of
        Some l \<Rightarrow> Some l
      | None \<Rightarrow>
          (case wildcard_loop (\<lambda>n. find_listener r n path httpUser) (split_on CHR ''.'' name) of
             Some l \<Rightarrow> Some l
           | None \<Rightarrow>
               (case find_listener r ''*'' path httpUser of
                  Some l \<Rightarrow> Some l
                | None \<Rightarrow> None)))"

section \<open>The multiplexer\<close>

record RouteConfig =
  rc_Domain :: string
  rc_Location :: string
  rc_RewriteHost :: string
  rc_Username :: string
  rc_Password :: string
  rc_Headers :: "(string \<times> string) list"
  rc_ResponseHeaders :: "(string \<times> string) list"
  rc_RouteByHTTPUser :: string

record Listener =
  l_name :: string
  l_location :: string
  l_routeByHTTPUser :: string
  l_rewriteHost :: string
  l_username :: string
  l_password :: string
  l_id :: nat

text \<open>The state of a multiplexer: its routes, and for each listener (a pointer in the source,
  here its \<open>l_id\<close>) whether its accept channel was closed.\<close>

record Muxer =
  registryRouter :: "Listener Routers"
  closed_listeners :: "nat set"
  next_listener :: nat

definition NewMuxer :: Muxer where
  "NewMuxer = \<lparr>registryRouter = NewRouters, closed_listeners = {}, next_listener = 0\<rparr>"

definition Listen :: "RouteConfig \<Rightarrow> Muxer \<Rightarrow> (router_error, Listener) result \<times> Muxer" where
  "Listen cfg v =
     (let l = \<lparr>l_name = rc_Domain cfg, l_location = rc_Location cfg,
               l_routeByHTTPUser = rc_RouteByHTTPUser cfg, l_rewriteHost = rc_RewriteHost cfg,
               l_username = rc_Username cfg, l_password = rc_Password cfg, l_id = next_listener v\<rparr>;
          v1 = v\<lparr>next_listener := Suc (next_listener v)\<rparr>
      in case Add (rc_Domain cfg) (rc_Location cfg) (rc_RouteByHTTPUser cfg) l (registryRouter v) of
           (Inl e, r) \<Rightarrow> (err e, v1\<lparr>registryRouter := r\<rparr>)
         | (Inr _, r) \<Rightarrow> (ok l, v1\<lparr>registryRouter := r\<rparr>))"

text \<open>\<open>Listener.Close\<close>: closing the channel a second time panics.\<close>

definition listener_Close :: "Listener \<Rightarrow> Muxer \<Rightarrow> Muxer option" where
  "listener_Close l v =
     (let v1 = v\<lparr>registryRouter := Del (l_name l) (l_location l) (l_routeByHTTPUser l) (registryRouter v)\<rparr>
      in if l_id l \<in> closed_listeners v then None
         else Some (v1\<lparr>closed_listeners := insert (l_id l) (closed_listeners v)\<rparr>))"

type_synonym req_info = "string \<rightharpoonup> string"

text \<open>Reading a missing key of a Go map yields the zero value.\<close>

definition lookup_str :: "req_info \<Rightarrow> string \<Rightarrow> string" where
  "lookup_str m k = (case m k of None \<Rightarrow> [] | Some v \<Rightarrow> v)"

text \<open>The hooks of a multiplexer and the answers of the connection's deadline calls.\<close>

record 'c mux_env =
  me_set_deadline :: bool
  me_clear_deadline :: bool
  me_vhostFunc :: "'c \<Rightarrow> ('c \<times> req_info) option"
  me_checkAuth :: "('c \<Rightarrow> string \<Rightarrow> string \<Rightarrow> req_info \<Rightarrow> bool) option"
  me_successHook :: "('c \<Rightarrow> req_info \<Rightarrow> bool) option"

datatype 'c mux_outcome =
    ConnClosed
  | FailHook 'c
  | Delivered Listener 'c
  | ListenerGone Listener

text \<open>The route is looked up in the state \<open>v\<close>; the connection is sent to the listener's channel
  later, in the state \<open>v'\<close>, when the listener may have been closed.\<close>

definition handle :: "'c mux_env \<Rightarrow> 'c \<Rightarrow> Muxer \<Rightarrow> Muxer \<Rightarrow> 'c mux_outcome" where
  "handle env c v v' =
     (if \<not> me_set_deadline env then ConnClosed
      else case me_vhostFunc env c of
        None \<Rightarrow> ConnClosed
      | Some (sConn, reqInfoMap) \<Rightarrow>
          (let name = to_lower (lookup_str reqInfoMap ''Host'');
               path = to_lower (lookup_str reqInfoMap ''Path'');
               httpUser = lookup_str reqInfoMap ''HTTPUser''
           in case getListener (registryRouter v) name path httpUser of
                None \<Rightarrow> FailHook sConn
              | Some l \<Rightarrow>
                  (if (case me_successHook env of None \<Rightarrow> False | Some h \<Rightarrow> \<not> h c reqInfoMap) then ConnClosed
                   else if (case me_checkAuth env of
                              None \<Rightarrow> False
                            | Some chk \<Rightarrow> l_username l \<noteq> [] \<and> \<not> chk c (l_username l) (l_password l) reqInfoMap)
                   then ConnClosed
                   else if \<not> me_clear_deadline env then ConnClosed
                   else if l_id l \<in> closed_listeners v' then ListenerGone l
                   else Delivered l sConn)))"

section \<open>The HTTP CONNECT multiplexer\<close>

text \<open>A request as \<^verbatim>\<open>http.ReadRequest\<close> delivers it: method, host, the header fields by canonical
  name, and the host and path of the request URL.\<close>

record http_request =
  hr_Method :: string
  hr_Host :: string
  hr_URLHost :: string
  hr_URLPath :: string
  hr_RemoteAddr :: string
  hr_Header :: "string \<rightharpoonup> string"

definition header_get :: "http_request \<Rightarrow> string \<Rightarrow> string" where
  "header_get req k = lookup_str (hr_Header req) k"

text \<open>\<open>host, _ = CanonicalHost(...)\<close>: on an error the host is the empty string.\<close>

definition canonical :: "string \<Rightarrow> string" where
  "canonical h = (case CanonicalHost h of None \<Rightarrow> [] | Some c \<Rightarrow> c)"

definition readHTTPConnectRequest :: "http_request option \<Rightarrow> (string \<times> string \<times> string) option" where
  "readHTTPConnectRequest read =
     (case read of
        None \<Rightarrow> None
      | Some req \<Rightarrow>
          (if hr_Method req \<noteq> ''CONNECT'' then None
           else
             (let host = canonical (hr_Host req);
                  proxyAuth = header_get req ''Proxy-Authorization''
              in if proxyAuth \<noteq> [] then
                   (case ParseBasicAuth proxyAuth of
                      None \<Rightarrow> Some (host, [], [])
                    | Some (u, p) \<Rightarrow> Some (host, u, p))
                 else Some (host, [], []))))"

definition getHostFromHTTPConnect ::
  "bool \<Rightarrow> 'c \<Rightarrow> 'c \<Rightarrow> http_request option \<Rightarrow> ('c \<times> req_info) option" where
  "getHostFromHTTPConnect passthrough c sc read =
     (case readHTTPConnectRequest read of
        None \<Rightarrow> None
      | Some (host, httpUser, httpPwd) \<Rightarrow>
          Some (if passthrough then sc else c,
                [''Host'' \<mapsto> host, ''Scheme'' \<mapsto> ''tcp'', ''HTTPUser'' \<mapsto> httpUser, ''HTTPPwd'' \<mapsto> httpPwd]))"

definition connect_auth :: "string \<Rightarrow> string \<Rightarrow> req_info \<Rightarrow> bool" where
  "connect_auth username password reqInfo \<longleftrightarrow>
     username = lookup_str reqInfo ''HTTPUser'' \<and> password = lookup_str reqInfo ''HTTPPwd''"

section \<open>The HTTP reverse proxy\<close>

definition rp_Register :: "RouteConfig \<Rightarrow> RouteConfig Routers \<Rightarrow> (router_error, unit) result \<times> RouteConfig Routers" where
  "rp_Register routeCfg r = Add (rc_Domain routeCfg) (rc_Location routeCfg) (rc_RouteByHTTPUser routeCfg) routeCfg r"

definition rp_UnRegister :: "RouteConfig \<Rightarrow> RouteConfig Routers \<Rightarrow> RouteConfig Routers" where
  "rp_UnRegister routeCfg r = Del (rc_Domain routeCfg) (rc_Location routeCfg) (rc_RouteByHTTPUser routeCfg) r"

definition GetRouteConfig :: "RouteConfig Routers \<Rightarrow> string \<Rightarrow> string \<Rightarrow> string \<Rightarrow> RouteConfig option" where
  "GetRouteConfig r domain location routeByHTTPUser =
     (case getVhost r domain location routeByHTTPUser of
        Some vr \<Rightarrow> Some (r_payload vr)
      | None \<Rightarrow> None)"

text \<open>\<^verbatim>\<open>(*http.Request).BasicAuth\<close>: parse the Authorization header if it is there.\<close>

definition req_BasicAuth :: "http_request \<Rightarrow> (string \<times> string) option" where
  "req_BasicAuth req =
     (let auth = header_get req ''Authorization'' in
      if auth = [] then None else ParseBasicAuth auth)"

definition user_of :: "(string \<times> string) option \<Rightarrow> string" where
  "user_of a = (case a of None \<Rightarrow> [] | Some (u, _) \<Rightarrow> u)"

definition checkRouteAuthByRequest :: "http_request \<Rightarrow> RouteConfig option \<Rightarrow> bool" where
  "checkRouteAuthByRequest req rc0 =
     (case rc0 of
        None \<Rightarrow> True
      | Some rc \<Rightarrow>
          (if rc_Username rc = [] \<and> rc_Password rc = [] then True
           else if hr_URLHost req \<noteq> [] then
             (let proxyAuth = header_get req ''Proxy-Authorization'' in
              if proxyAuth = [] then False
              else ParseBasicAuth proxyAuth = Some (rc_Username rc, rc_Password rc))
           else req_BasicAuth req = Some (rc_Username rc, rc_Password rc)))"

definition getRequestRouteUser :: "http_request \<Rightarrow> string" where
  "getRequestRouteUser req =
     (if hr_URLHost req \<noteq> [] then
        (let proxyAuth = header_get req ''Proxy-Authorization'' in
         if proxyAuth = [] then user_of (req_BasicAuth req)
         else user_of (ParseBasicAuth proxyAuth))
      else user_of (req_BasicAuth req))"

definition injectRequestInfoToCtx :: "RouteConfig Routers \<Rightarrow> http_request \<Rightarrow> RouteConfig option" where
  "injectRequestInfoToCtx r req =
     GetRouteConfig r (canonical (hr_Host req)) (hr_URLPath req) (getRequestRouteUser req)"

text \<open>What \<open>ServeHTTP\<close> decides: refuse with 407 or 401, tunnel a CONNECT, or proxy the request;
  the route is the one stored in the request's context.\<close>

datatype http_outcome =
    ProxyAuthRequired
  | Unauthorized
  | Tunnel "RouteConfig option"
  | ReverseProxy "RouteConfig option"

definition ServeHTTP :: "RouteConfig Routers \<Rightarrow> http_request \<Rightarrow> http_outcome" where
  "ServeHTTP r req =
     (let rc = injectRequestInfoToCtx r req in
      if \<not> checkRouteAuthByRequest req rc then
        (if hr_URLHost req \<noteq> [] then ProxyAuthRequired else Unauthorized)
      else if hr_Method req = ''CONNECT'' then Tunnel rc
      else ReverseProxy rc)"

section \<open>The order of the search\<close>

text \<open>The domains tried for a host, in order.\<close>

fun wildcard_names :: "string list \<Rightarrow> string list" where
  "wildcard_names [] = []"
| "wildcard_names (d # ds) =
     (if length ds \<ge> 2 then join_with ''.'' (''*'' # ds) # wildcard_names ds else [])"

definition candidates :: "string \<Rightarrow> string list" where
  "candidates host = host # wildcard_names (split_on CHR ''.'' host) @ [''*'']"

text \<open>The first result of a sequence of attempts.\<close>

fun first_some :: "'a option list \<Rightarrow> 'a option" where
  "first_some [] = None"
| "first_some (x # xs) = (case x of None \<Rightarrow> first_some xs | Some y \<Rightarrow> Some y)"

lemma first_some_append: "first_some (xs @ ys) = (case first_some xs of None \<Rightarrow> first_some ys | Some y \<Rightarrow> Some y)"
  by (induction xs) (auto split: option.splits)

lemma first_some_concat: "first_some (concat xss) = first_some (map first_some xss)"
  by (induction xss) (auto simp: first_some_append split: option.splits)

lemma map_option_first_some: "map_option f (first_some xs) = first_some (map (map_option f) xs)"
  by (induction xs) (auto split: option.splits)

lemma first_some_in: "first_some xs = Some y \<Longrightarrow> Some y \<in> set xs"
  by (induction xs) (auto split: option.splits)

lemma wildcard_loop_first:
  "wildcard_loop look ds = first_some (map look (wildcard_names ds))"
  by (induction ds) (auto split: option.splits)

lemma findRouter_first: "findRouter r d l u = first_some [Get r d l u, Get r d l []]"
  by (simp add: findRouter_def split: option.splits)

lemma getVhost_first: "getVhost r host l u = first_some (map (\<lambda>d. findRouter r d l u) (candidates host))"
  by (simp add: getVhost_def wildcard_loop_first candidates_def first_some_append split: option.splits)

lemma find_listener_eq: "find_listener r d l u = map_option r_payload (findRouter r d l u)"
  by (simp add: find_listener_def findRouter_def split: option.splits)

lemma getListener_first: "getListener r host l u = first_some (map (\<lambda>d. find_listener r d l u) (candidates host))"
  by (simp add: getListener_def wildcard_loop_first candidates_def first_some_append split: option.splits)

definition lookup_order :: "'p route_map \<Rightarrow> string \<Rightarrow> string \<Rightarrow> string \<Rightarrow> 'p option" where
  "lookup_order m host path user =
     first_some (concat (map (\<lambda>d. [longest_match m (to_lower d) path user, longest_match m (to_lower d) path []])
       (candidates host)))"

lemma getVhost_lookup_order:
  assumes "routers_inv r"
  shows "map_option r_payload (getVhost r host path user) = lookup_order (routes r) host path user"
proof -
  have "map_option r_payload (findRouter r d path user)
        = first_some [longest_match (routes r) (to_lower d) path user, longest_match (routes r) (to_lower d) path []]" for d
    unfolding findRouter_first map_option_first_some by (simp only: list.map Get_longest_match [OF assms])
  then show ?thesis
    by (simp only: getVhost_first lookup_order_def map_option_first_some first_some_concat map_map comp_def)
qed

lemma getListener_getVhost: "getListener r host path user = map_option r_payload (getVhost r host path user)"
  by (simp only: getListener_first getVhost_first map_option_first_some map_map comp_def find_listener_eq)

lemma wildcard_names_iff:
  "n \<in> set (wildcard_names ds) \<longleftrightarrow>
     (\<exists>ds'. strict_suffix ds' ds \<and> length ds' \<ge> 2 \<and> n = join_with ''.'' (''*'' # ds'))"
proof (induction ds)
  case (Cons d ds)
  have "strict_suffix ds' (d # ds) \<longleftrightarrow> ds' = ds \<or> strict_suffix ds' ds" for ds'
    by (auto simp: strict_suffix_def suffix_Cons dest: suffix_length_le)
  moreover have "strict_suffix ds' ds \<Longrightarrow> length ds' \<le> length ds" for ds'
    by (simp add: strict_suffix_def suffix_length_le)
  ultimately show ?case using Cons.IH by force
qed simp

lemma lookup_order_Some:
  assumes "lookup_order m host path user = Some p"
  obtains d l u where "d \<in> set (candidates host)" and "prefix l path" and "u = user \<or> u = []"
    and "m (to_lower d, l, u) = Some p"
proof -
  from first_some_in [OF assms [unfolded lookup_order_def]] obtain d u where
    "d \<in> set (candidates host)" "u = user \<or> u = []" "longest_match m (to_lower d) path u = Some p"
    by (fastforce dest: sym)
  then show thesis unfolding longest_match_Some_iff using that by blast
qed

section \<open>Listeners over time\<close>

datatype mux_op = MListen RouteConfig | MClose Listener

fun mux_step :: "mux_op \<Rightarrow> Muxer \<Rightarrow> Muxer" where
  "mux_step (MListen cfg) v = snd (Listen cfg v)"
| "mux_step (MClose l) v = (case listener_Close l v of None \<Rightarrow> v | Some v' \<Rightarrow> v')"

text \<open>The callers close a listener they got from \<open>Listen\<close>, and close it once: its route is in
  the table.\<close>

fun mux_op_ok :: "mux_op \<Rightarrow> Muxer \<Rightarrow> bool" where
  "mux_op_ok (MListen cfg) v \<longleftrightarrow> True"
| "mux_op_ok (MClose l) v \<longleftrightarrow>
     routes (registryRouter v) (to_lower (l_name l), l_location l, l_routeByHTTPUser l) = Some l"

fun mux_ops_ok :: "mux_op list \<Rightarrow> Muxer \<Rightarrow> bool" where
  "mux_ops_ok [] v \<longleftrightarrow> True"
| "mux_ops_ok (x # xs) v \<longleftrightarrow> mux_op_ok x v \<and> mux_ops_ok xs (mux_step x v)"

definition listener_key :: "Listener \<Rightarrow> string \<times> string \<times> string" where
  "listener_key l = (to_lower (l_name l), l_location l, l_routeByHTTPUser l)"

definition mux_inv :: "Muxer \<Rightarrow> bool" where
  "mux_inv v \<longleftrightarrow> routers_inv (registryRouter v)
   \<and> (\<forall>k l. routes (registryRouter v) k = Some l \<longrightarrow>
        k = listener_key l \<and> l_id l \<notin> closed_listeners v \<and> l_id l < next_listener v)
   \<and> (\<forall>i \<in> closed_listeners v. i < next_listener v)
   \<and> inj_on l_id (ran (routes (registryRouter v)))"

lemma mux_invD:
  assumes "mux_inv v"
  shows "routers_inv (registryRouter v)"
    and "routes (registryRouter v) k = Some l \<Longrightarrow> k = listener_key l \<and> l_id l \<notin> closed_listeners v \<and> l_id l < next_listener v"
    and "i \<in> closed_listeners v \<Longrightarrow> i < next_listener v"
    and "inj_on l_id (ran (routes (registryRouter v)))"
  using assms unfolding mux_inv_def by blast+

lemma NewMuxer_inv [inv_rules]: "mux_inv NewMuxer"
  by (simp add: mux_inv_def NewMuxer_def NewRouters_inv routes_New)

definition new_listener :: "RouteConfig \<Rightarrow> Muxer \<Rightarrow> Listener" where
  "new_listener cfg v = \<lparr>l_name = rc_Domain cfg, l_location = rc_Location cfg,
     l_routeByHTTPUser = rc_RouteByHTTPUser cfg, l_rewriteHost = rc_RewriteHost cfg,
     l_username = rc_Username cfg, l_password = rc_Password cfg, l_id = next_listener v\<rparr>"

lemma Listen_cases:
  assumes "mux_inv v" and k: "k = (to_lower (rc_Domain cfg), rc_Location cfg, rc_RouteByHTTPUser cfg)"
  shows "routes (registryRouter v) k \<noteq> None \<Longrightarrow>
           Listen cfg v = (err ErrRouterConfigConflict, v\<lparr>next_listener := Suc (next_listener v)\<rparr>)"
    and "routes (registryRouter v) k = None \<Longrightarrow> fst (Listen cfg v) = ok (new_listener cfg v)
           \<and> routes (registryRouter (snd (Listen cfg v))) = (routes (registryRouter v))(k \<mapsto> new_listener cfg v)
           \<and> routers_inv (registryRouter (snd (Listen cfg v)))
           \<and> closed_listeners (snd (Listen cfg v)) = closed_listeners v
           \<and> next_listener (snd (Listen cfg v)) = Suc (next_listener v)"
proof -
  note inv = mux_invD(1) [OF assms(1)]
  let ?A = "Add (rc_Domain cfg) (rc_Location cfg) (rc_RouteByHTTPUser cfg) (new_listener cfg v) (registryRouter v)"
  have L: "Listen cfg v = (case ?A of (Inl e, r) \<Rightarrow> (err e, v\<lparr>next_listener := Suc (next_listener v), registryRouter := r\<rparr>)
     | (Inr _, r) \<Rightarrow> (ok (new_listener cfg v), v\<lparr>next_listener := Suc (next_listener v), registryRouter := r\<rparr>))"
    by (simp add: Listen_def new_listener_def Let_def split: prod.split sum.split)
  show "Listen cfg v = (err ErrRouterConfigConflict, v\<lparr>next_listener := Suc (next_listener v)\<rparr>)"
    if "routes (registryRouter v) k \<noteq> None"
    using that unfolding L k by (simp add: vr.add_taken)
  assume "routes (registryRouter v) k = None"
  then have new: "fst ?A = ok ()" "routes (snd ?A) = (routes (registryRouter v))(k \<mapsto> new_listener cfg v)"
    using vr.add_new [OF inv] k by auto
  then obtain r' where A: "?A = (ok (), r')" by (metis prod.collapse)
  have "routers_inv (snd ?A)" by (rule vr.add_inv [OF inv])
  with A new(2) show "fst (Listen cfg v) = ok (new_listener cfg v)
           \<and> routes (registryRouter (snd (Listen cfg v))) = (routes (registryRouter v))(k \<mapsto> new_listener cfg v)
           \<and> routers_inv (registryRouter (snd (Listen cfg v)))
           \<and> closed_listeners (snd (Listen cfg v)) = closed_listeners v
           \<and> next_listener (snd (Listen cfg v)) = Suc (next_listener v)"
    unfolding L A by simp
qed

lemma Listen_inv [inv_rules]:
  assumes inv: "mux_inv v"
  shows "mux_inv (snd (Listen cfg v))"
proof (cases "routes (registryRouter v) (to_lower (rc_Domain cfg), rc_Location cfg, rc_RouteByHTTPUser cfg)")
  case None
  note L = Listen_cases(2) [OF inv refl None]
  let ?k = "(to_lower (rc_Domain cfg), rc_Location cfg, rc_RouteByHTTPUser cfg)"
  let ?v' = "snd (Listen cfg v)"
  have key: "?k = listener_key (new_listener cfg v)"
    by (simp add: listener_key_def new_listener_def)
  have id: "l_id (new_listener cfg v) = next_listener v"
    by (simp add: new_listener_def)
  have fresh: "next_listener v \<notin> closed_listeners v" using mux_invD(3) [OF inv] by blast
  have ran': "l \<in> ran (routes (registryRouter v)) \<Longrightarrow> l_id l < next_listener v" for l
    using mux_invD(2) [OF inv] by (auto simp: ran_def)
  have "k = listener_key l \<and> l_id l \<notin> closed_listeners ?v' \<and> l_id l < next_listener ?v'"
    if "routes (registryRouter ?v') k = Some l" for k l
  proof (cases "k = ?k")
    case True
    with that L have "l = new_listener cfg v" by simp
    with True key id fresh L show ?thesis by simp
  next
    case False
    with that L have "routes (registryRouter v) k = Some l" by simp
    from mux_invD(2) [OF inv this] L show ?thesis by simp
  qed
  moreover have "inj_on l_id (ran (routes (registryRouter ?v')))"
  proof -
    have "ran (routes (registryRouter ?v')) = insert (new_listener cfg v) (ran (routes (registryRouter v)))"
      using L None by simp
    with mux_invD(4) [OF inv] ran' id show ?thesis
      by (auto simp: inj_on_insert) (metis less_irrefl)
  qed
  moreover have "\<forall>i \<in> closed_listeners ?v'. i < next_listener ?v'"
    using L mux_invD(3) [OF inv] by fastforce
  moreover have "routers_inv (registryRouter ?v')" using L by blast
  ultimately show ?thesis unfolding mux_inv_def by blast
next
  case (Some l)
  then have "Listen cfg v = (err ErrRouterConfigConflict, v\<lparr>next_listener := Suc (next_listener v)\<rparr>)"
    by (intro Listen_cases(1) [OF inv refl]) simp
  with inv show ?thesis unfolding mux_inv_def by (simp add: less_Suc_eq)
qed

lemma Close_inv [inv_rules]:
  assumes inv: "mux_inv v" and ok: "routes (registryRouter v) (listener_key l) = Some l"
  shows "\<exists>v'. listener_Close l v = Some v' \<and> mux_inv v'
           \<and> routes (registryRouter v') = (routes (registryRouter v))(listener_key l := None)"
proof -
  from mux_invD(2) [OF inv ok] have l: "l_id l \<notin> closed_listeners v" "l_id l < next_listener v" by auto
  let ?r = "Del (l_name l) (l_location l) (l_routeByHTTPUser l) (registryRouter v)"
  have r: "routes ?r = (routes (registryRouter v))(listener_key l := None)"
    using vr.del_abs [OF mux_invD(1) [OF inv]] by (simp add: listener_key_def)
  have ri: "routers_inv ?r" by (rule Del_inv [OF mux_invD(1) [OF inv]])
  have other: "l_id l' \<noteq> l_id l" if "routes ?r k = Some l'" for k l'
  proof
    assume eq: "l_id l' = l_id l"
    from that r have k: "k \<noteq> listener_key l" "routes (registryRouter v) k = Some l'"
      by (auto split: if_splits)
    with ok eq have "l' = l" using inj_onD [OF mux_invD(4) [OF inv] eq] by (blast intro: ranI)
    with k mux_invD(2) [OF inv k(2)] show False by simp
  qed
  let ?v' = "v\<lparr>registryRouter := ?r, closed_listeners := insert (l_id l) (closed_listeners v)\<rparr>"
  have "k = listener_key l' \<and> l_id l' \<notin> closed_listeners ?v' \<and> l_id l' < next_listener ?v'"
    if "routes (registryRouter ?v') k = Some l'" for k l'
  proof -
    from that r have "routes (registryRouter v) k = Some l'" by (auto split: if_splits)
    from mux_invD(2) [OF inv this] other [of k l'] that show ?thesis by simp
  qed
  moreover have "inj_on l_id (ran (routes (registryRouter ?v')))"
    using inj_on_subset [OF mux_invD(4) [OF inv] ran_upd_None_subset] by (simp add: r)
  moreover have "\<forall>i \<in> closed_listeners ?v'. i < next_listener ?v'"
    using l mux_invD(3) [OF inv] by auto
  ultimately have "mux_inv ?v'" using ri unfolding mux_inv_def by simp
  with l r show ?thesis by (simp add: listener_Close_def)
qed

lemma mux_step_inv:
  assumes inv: "mux_inv v" and okx: "mux_op_ok x v"
  shows "mux_inv (mux_step x v)"
proof (cases x)
  case (MListen cfg)
  then show ?thesis using Listen_inv [OF inv] by simp
next
  case (MClose l)
  with okx have "routes (registryRouter v) (listener_key l) = Some l" by (simp add: listener_key_def)
  from Close_inv [OF inv this] MClose show ?thesis by auto
qed

definition mux_run :: "mux_op list \<Rightarrow> Muxer" where
  "mux_run xs = fold mux_step xs NewMuxer"

lemma mux_run_inv: "mux_ops_ok xs NewMuxer \<Longrightarrow> mux_inv (mux_run xs)"
proof -
  have "mux_inv v \<Longrightarrow> mux_ops_ok xs v \<Longrightarrow> mux_inv (fold mux_step xs v)" for v
    by (induction xs arbitrary: v) (auto simp: mux_step_inv)
  then show "mux_ops_ok xs NewMuxer \<Longrightarrow> ?thesis" by (simp add: mux_run_def NewMuxer_inv)
qed

section \<open>Properties\<close>

text \<open>The order of virtual host routing. After any history of registrations, both the
  reverse proxy and the multiplexer pick the first match of the sequence: for the host
  itself, then for each wildcard domain with at least two labels behind the star from
  the most to the least specific, then for the catch-all domain; for each of them first
  the request's user, then the routes for any user; each time the longest location that is
  a prefix of the path.\<close>

theorem vhost_lookup_order:
  "map_option r_payload (getVhost (route_run xs) host path user) = lookup_order (spec_run xs) host path user
   \<and> getListener (route_run xs) host path user = lookup_order (spec_run xs) host path user
   \<and> (\<exists>ws. candidates host = host # ws @ [''*'']
        \<and> set ws = {join_with ''.'' (''*'' # ds) | ds. strict_suffix ds (split_on CHR ''.'' host) \<and> length ds \<ge> 2})"
proof -
  have "map_option r_payload (getVhost (route_run xs) host path user) = lookup_order (spec_run xs) host path user"
    using getVhost_lookup_order route_run_refines by metis
  moreover have "set (wildcard_names (split_on CHR ''.'' host)) =
      {join_with ''.'' (''*'' # ds) | ds. strict_suffix ds (split_on CHR ''.'' host) \<and> length ds \<ge> 2}"
    by (auto simp: wildcard_names_iff)
  ultimately show ?thesis
    unfolding getListener_getVhost candidates_def by auto
qed

text \<open>A wildcard over a top-level domain is not tried for a host below it: with a route
  for \<open>*.com\<close> alone, \<open>test.example.com\<close> is not found, although the comment in
  \<open>getVhost\<close> lists \<open>*.com\<close> among the domains that are tried.\<close>

theorem wildcard_tld_not_tried:
  "candidates ''test.example.com'' = [''test.example.com'', ''*.example.com'', ''*'']
   \<and> getVhost (route_run [OpAdd ''*.com'' ''/'' [] p]) ''test.example.com'' ''/'' [] = None"
proof -
  have c: "candidates ''test.example.com'' = [''test.example.com'', ''*.example.com'', ''*'']"
    by code_simp
  have "map_option r_payload (getVhost (route_run [OpAdd ''*.com'' ''/'' [] p]) ''test.example.com'' ''/'' [])
        = lookup_order (spec_run [OpAdd ''*.com'' ''/'' [] p]) ''test.example.com'' ''/'' []"
    using getVhost_lookup_order route_run_refines by metis
  also have "\<dots> = None"
    by (simp add: lookup_order_def c spec_run_def longest_match_def to_lower_def lower_char_def)
  finally show ?thesis using c by simp
qed

text \<open>The multiplexer never misroutes. After any history in which listeners are opened
  and closed, the listener chosen for a request is open, was registered for a domain that
  is the host or one of its wildcards (compared in lower case), for a prefix of the path,
  and for the request's user or for any user.\<close>

theorem getListener_sound:
  assumes "mux_ops_ok xs NewMuxer"
    and "getListener (registryRouter (mux_run xs)) host path user = Some l"
  shows "l_id l \<notin> closed_listeners (mux_run xs)
       \<and> to_lower (l_name l) \<in> to_lower ` set (candidates host)
       \<and> prefix (l_location l) path \<and> l_routeByHTTPUser l \<in> {user, []}"
proof -
  note inv = mux_run_inv [OF assms(1)]
  have "lookup_order (routes (registryRouter (mux_run xs))) host path user = Some l"
    using assms(2) getVhost_lookup_order [OF mux_invD(1) [OF inv]] by (simp add: getListener_getVhost)
  then obtain d loc u where d: "d \<in> set (candidates host)" "prefix loc path" "u = user \<or> u = []"
    "routes (registryRouter (mux_run xs)) (to_lower d, loc, u) = Some l"
    by (rule lookup_order_Some)
  from mux_invD(2) [OF inv d(4)] have "to_lower d = to_lower (l_name l)" "loc = l_location l"
    "u = l_routeByHTTPUser l" "l_id l \<notin> closed_listeners (mux_run xs)" by (auto simp: listener_key_def)
  with d(1-3) show ?thesis by (metis imageI insert_iff)
qed

definition demo_cfg :: "string \<Rightarrow> RouteConfig" where
  "demo_cfg d = \<lparr>rc_Domain = d, rc_Location = [], rc_RewriteHost = [], rc_Username = [], rc_Password = [],
     rc_Headers = [], rc_ResponseHeaders = [], rc_RouteByHTTPUser = []\<rparr>"

theorem getListener_sound_witness:
  "\<exists>l. getListener (registryRouter (mux_run [MListen (demo_cfg ''*.Ex.com'')])) ''a.ex.com'' [] ''bob'' = Some l
     \<and> l_id l \<notin> closed_listeners (mux_run [MListen (demo_cfg ''*.Ex.com'')])"
proof -
  have g: "getListener (registryRouter (mux_run [MListen (demo_cfg ''*.Ex.com'')])) ''a.ex.com'' [] ''bob''
        = Some (new_listener (demo_cfg ''*.Ex.com'') NewMuxer)"
    by code_simp
  from getListener_sound [OF _ g] g show ?thesis by simp
qed

text \<open>A protected HTTP route is served only with its credentials. If \<open>ServeHTTP\<close> lets a
  request through to a route that has a user name or a password, the request carried
  exactly these credentials, in Proxy-Authorization if it is a proxy request and in
  Authorization otherwise; otherwise it is answered with 407 or 401. A request whose
  header was built from the right credentials is never refused.\<close>

theorem ServeHTTP_auth:
  assumes rc: "injectRequestInfoToCtx r req = Some rc"
    and prot: "rc_Username rc \<noteq> [] \<or> rc_Password rc \<noteq> []"
  defines "h \<equiv> header_get req (if hr_URLHost req \<noteq> [] then ''Proxy-Authorization'' else ''Authorization'')"
  shows "(ServeHTTP r req \<in> {Tunnel (Some rc), ReverseProxy (Some rc)} \<longleftrightarrow>
            h \<noteq> [] \<and> ParseBasicAuth h = Some (rc_Username rc, rc_Password rc))
       \<and> (ServeHTTP r req \<notin> {Tunnel (Some rc), ReverseProxy (Some rc)} \<longrightarrow>
            ServeHTTP r req = (if hr_URLHost req \<noteq> [] then ProxyAuthRequired else Unauthorized))
       \<and> (CHR '':'' \<notin> set (rc_Username rc) \<and> h = BasicAuth (rc_Username rc) (rc_Password rc) \<longrightarrow>
            ServeHTTP r req \<in> {Tunnel (Some rc), ReverseProxy (Some rc)})"
proof -
  have chk: "checkRouteAuthByRequest req (Some rc) \<longleftrightarrow>
      h \<noteq> [] \<and> ParseBasicAuth h = Some (rc_Username rc, rc_Password rc)"
    using prot by (auto simp: checkRouteAuthByRequest_def h_def Let_def req_BasicAuth_def)
  show ?thesis
    using chk BasicAuth_parses by (auto simp: ServeHTTP_def rc Let_def)
qed

definition demo_auth_cfg :: RouteConfig where
  "demo_auth_cfg = (demo_cfg ''ex.com'')\<lparr>rc_Location := ''/'', rc_Username := ''u'', rc_Password := ''p''\<rparr>"

definition demo_req :: "string \<Rightarrow> http_request" where
  "demo_req auth = \<lparr>hr_Method = ''GET'', hr_Host = ''Ex.com:80'', hr_URLHost = [], hr_URLPath = ''/x'',
     hr_RemoteAddr = [], hr_Header = [''Authorization'' \<mapsto> auth]\<rparr>"

theorem ServeHTTP_auth_witness:
  "ServeHTTP (snd (rp_Register demo_auth_cfg NewRouters)) (demo_req (BasicAuth ''u'' ''p'')) \<in>
     {Tunnel (Some demo_auth_cfg), ReverseProxy (Some demo_auth_cfg)}"
proof -
  have i: "injectRequestInfoToCtx (snd (rp_Register demo_auth_cfg NewRouters)) (demo_req (BasicAuth ''u'' ''p''))
        = Some demo_auth_cfg"
  proof -
    have "getRequestRouteUser (demo_req (BasicAuth ''u'' ''p'')) = ''u''"
      using BasicAuth_parses [of "''u''" "''p''"]
      by (simp add: getRequestRouteUser_def demo_req_def req_BasicAuth_def header_get_def lookup_str_def user_of_def)
    moreover have "canonical ''Ex.com:80'' = ''ex.com''" by code_simp
    moreover have "GetRouteConfig (snd (rp_Register demo_auth_cfg NewRouters)) ''ex.com'' ''/x'' ''u'' = Some demo_auth_cfg"
      by code_simp
    ultimately show ?thesis by (simp add: injectRequestInfoToCtx_def demo_req_def)
  qed
  have p: "rc_Username demo_auth_cfg \<noteq> [] \<or> rc_Password demo_auth_cfg \<noteq> []"
    by (simp add: demo_auth_cfg_def)
  have h: "header_get (demo_req (BasicAuth ''u'' ''p''))
      (if hr_URLHost (demo_req (BasicAuth ''u'' ''p'')) \<noteq> [] then ''Proxy-Authorization'' else ''Authorization'')
      = BasicAuth (rc_Username demo_auth_cfg) (rc_Password demo_auth_cfg)"
    by (simp add: demo_auth_cfg_def demo_req_def header_get_def lookup_str_def)
  have u: "CHR '':'' \<notin> set (rc_Username demo_auth_cfg)" by (simp add: demo_auth_cfg_def)
  show ?thesis
    using ServeHTTP_auth [OF i p] h u by argo
qed

text \<open>The multiplexer authenticates by user name alone: on a CONNECT multiplexer a listener
  with a user name gets a connection only if user and password match, but a listener with a
  password and no user name gets every connection, although the comment in \<open>handle\<close> says
  access is verified if user name and password are set.\<close>

theorem handle_auth:
  assumes "me_checkAuth env = Some (\<lambda>_. connect_auth)"
    and "me_vhostFunc env c = Some (sConn, info)"
    and found: "getListener (registryRouter v) (to_lower (lookup_str info ''Host''))
                  (to_lower (lookup_str info ''Path'')) (lookup_str info ''HTTPUser'') = Some l"
    and "me_successHook env = None" and "me_set_deadline env" and "me_clear_deadline env"
    and "l_id l \<notin> closed_listeners v'"
  shows "handle env c v v' =
     (if l_username l = [] \<or> l_username l = lookup_str info ''HTTPUser''
            \<and> l_password l = lookup_str info ''HTTPPwd''
      then Delivered l sConn else ConnClosed)"
  using assms by (simp add: handle_def Let_def connect_auth_def)

definition demo_env :: "nat mux_env" where
  "demo_env = \<lparr>me_set_deadline = True, me_clear_deadline = True,
     me_vhostFunc = (\<lambda>c. Some (c, [''Host'' \<mapsto> ''ex.com''])),
     me_checkAuth = Some (\<lambda>_. connect_auth), me_successHook = None\<rparr>"

definition demo_mux :: Muxer where
  "demo_mux = mux_run [MListen ((demo_cfg ''ex.com'')\<lparr>rc_Password := ''secret''\<rparr>)]"

theorem handle_auth_witness:
  "\<exists>l. l_password l = ''secret'' \<and> handle demo_env 7 demo_mux demo_mux = Delivered l 7"
proof -
  define l where "l = new_listener ((demo_cfg ''ex.com'')\<lparr>rc_Password := ''secret''\<rparr>) NewMuxer"
  have f: "getListener (registryRouter demo_mux) (to_lower (lookup_str [''Host'' \<mapsto> ''ex.com''] ''Host''))
      (to_lower (lookup_str [''Host'' \<mapsto> ''ex.com''] ''Path''))
      (lookup_str [''Host'' \<mapsto> ''ex.com''] ''HTTPUser'') = Some l"
    unfolding l_def by code_simp
  have o: "l_id l \<notin> closed_listeners demo_mux"
    unfolding l_def by code_simp
  have "l_username l = []" and p: "l_password l = ''secret''"
    by (simp_all add: l_def new_listener_def demo_cfg_def)
  then have "handle demo_env 7 demo_mux demo_mux = Delivered l 7"
    using handle_auth [of demo_env 7 7 "[''Host'' \<mapsto> ''ex.com'']" demo_mux l demo_mux] f o
    by (simp add: demo_env_def)
  with p show ?thesis by blast
qed

end
