(* ===== verification/Group_Base.thy ===== *)
theory Group_Base
  imports Ports Vhost_Mux
begin

text \<open>
  Load balancing groups, the shared part: \<^verbatim>\<open>server/group/registry.go\<close> (named groups),
  \<^verbatim>\<open>base.go\<close> and \<^verbatim>\<open>listener.go\<close> (a group of virtual listeners in front of one real listener).

  A group is a pointer in the source and two groups are compared by address: here a group is
  a number into the store of its controller. A virtual listener is the pair of its group and
  a number of its own; \<open>sync.Once\<close> is the set of closed listeners. The controller's shared
  state (\<open>gc_shared\<close>) is the port manager or the multiplexer the group opens its real listener
  on.

  Between \<open>getOrCreate\<close> and the group's own \<open>Listen\<close> other goroutines may run: every
  operation below is one critical section, and \<open>ctl_loop\<close> takes what happens in between as an
  argument.
\<close>

datatype group_error =
    ErrGroupAuthFailed | ErrGroupParamsInvalid | ErrListenerClosed | ErrGroupDifferentPort
  | ErrProxyRepeated | errGroupStale
  | PortErr port_error | RouteErr router_error | NetListenErr | UnknownMultiplexer

section \<open>Named groups\<close>

record ('g, 's) group_ctl =
  gc_groups :: "string \<rightharpoonup> nat"
  gc_store :: "nat \<Rightarrow> 'g"
  gc_next :: nat
  gc_nextLn :: nat
  gc_closed :: "nat set"
  gc_shared :: 's

definition newGroupRegistry :: "'g \<Rightarrow> 's \<Rightarrow> ('g, 's) group_ctl" where
  "newGroupRegistry zero shared =
     \<lparr>gc_groups = Map.empty, gc_store = (\<lambda>_. zero), gc_next = 0, gc_nextLn = 0, gc_closed = {}, gc_shared = shared\<rparr>"

definition getOrCreate :: "string \<Rightarrow> 'g \<Rightarrow> ('g, 's) group_ctl \<Rightarrow> nat \<times> ('g, 's) group_ctl" where
  "getOrCreate key new r =
     (case gc_groups r key of
        Some g \<Rightarrow> (g, r)
      | None \<Rightarrow>
          (let g = gc_next r in
           (g, r\<lparr>gc_groups := (gc_groups r)(key \<mapsto> g), gc_store := (gc_store r)(g := new), gc_next := Suc g\<rparr>)))"

definition group_get :: "string \<Rightarrow> ('g, 's) group_ctl \<Rightarrow> nat option" where
  "group_get key r = gc_groups r key"

definition isCurrent :: "string \<Rightarrow> (nat \<Rightarrow> bool) \<Rightarrow> ('g, 's) group_ctl \<Rightarrow> bool" where
  "isCurrent key matchFn r = (case gc_groups r key of None \<Rightarrow> False | Some g \<Rightarrow> matchFn g)"

definition removeIf :: "string \<Rightarrow> (nat \<Rightarrow> bool) \<Rightarrow> ('g, 's) group_ctl \<Rightarrow> ('g, 's) group_ctl" where
  "removeIf key f r =
     (case gc_groups r key of
        None \<Rightarrow> r
      | Some g \<Rightarrow> (if f g then r\<lparr>gc_groups := (gc_groups r)(key := None)\<rparr> else r))"

section \<open>Listener-based groups\<close>

text \<open>\<open>baseGroup\<close> with the fields of the concrete group that embeds it (\<open>bg_params\<close>); the real
  listener is the value \<open>bg_realLn\<close>.\<close>

record ('p, 'r) baseGroup =
  bg_group :: string
  bg_groupKey :: string
  bg_lns :: "nat list"
  bg_realLn :: "'r option"
  bg_params :: 'p

type_synonym ('p, 'r, 's) base_ctl = "(('p, 'r) baseGroup, 's) group_ctl"

definition initBase :: "string \<Rightarrow> string \<Rightarrow> 'r \<Rightarrow> ('p, 'r) baseGroup \<Rightarrow> ('p, 'r) baseGroup" where
  "initBase g k realLn bg = bg\<lparr>bg_group := g, bg_groupKey := k, bg_realLn := Some realLn\<rparr>"

record vlistener =
  vl_group :: nat
  vl_id :: nat

definition newListener :: "nat \<Rightarrow> ('p, 'r, 's) base_ctl \<Rightarrow> vlistener \<times> ('p, 'r, 's) base_ctl" where
  "newListener gid s =
     (let ln = gc_nextLn s; bg = gc_store s gid in
      (\<lparr>vl_group = gid, vl_id = ln\<rparr>,
       s\<lparr>gc_store := (gc_store s)(gid := bg\<lparr>bg_lns := bg_lns bg @ [ln]\<rparr>), gc_nextLn := Suc ln\<rparr>))"

text \<open>\<open>closeListener\<close>: with the last listener the real one is closed and the group's clean-up
  function runs. \<open>closeReal\<close> is the effect of both on the shared state.\<close>

definition closeListener ::
  "('r \<Rightarrow> 's \<Rightarrow> 's) \<Rightarrow> vlistener \<Rightarrow> ('p, 'r, 's) base_ctl \<Rightarrow> ('p, 'r, 's) base_ctl" where
  "closeListener closeReal ln s =
     (let gid = vl_group ln; bg = gc_store s gid; bg1 = bg\<lparr>bg_lns := remove1 (vl_id ln) (bg_lns bg)\<rparr>;
          s1 = s\<lparr>gc_store := (gc_store s)(gid := bg1)\<rparr>
      in if bg_lns bg1 = [] then
           removeIf (bg_group bg) (\<lambda>cur. cur = gid)
             (s1\<lparr>gc_shared := (case bg_realLn bg of None \<Rightarrow> gc_shared s | Some r \<Rightarrow> closeReal r (gc_shared s))\<rparr>)
         else s1)"

definition vlistener_Close ::
  "('r \<Rightarrow> 's \<Rightarrow> 's) \<Rightarrow> vlistener \<Rightarrow> ('p, 'r, 's) base_ctl \<Rightarrow> ('p, 'r, 's) base_ctl" where
  "vlistener_Close closeReal ln s =
     (if vl_id ln \<in> gc_closed s then s
      else closeListener closeReal ln (s\<lparr>gc_closed := insert (vl_id ln) (gc_closed s)\<rparr>))"

text \<open>The common shape of the three \<open>Listen\<close> methods: the first listener opens the real one
  with \<open>openReal\<close> (which also yields the parameters to remember), a later one must agree with
  them.\<close>

definition base_Listen ::
  "('s \<Rightarrow> (group_error, 'r \<times> 'p) result \<times> 's) \<Rightarrow> (('p, 'r) baseGroup \<Rightarrow> group_error option)
   \<Rightarrow> nat \<Rightarrow> string \<Rightarrow> string \<Rightarrow> ('p, 'r, 's) base_ctl
   \<Rightarrow> (group_error, vlistener) result \<times> ('p, 'r, 's) base_ctl" where
  "base_Listen openReal check gid g k s =
     (if \<not> isCurrent g (\<lambda>cur. cur = gid) s then (err errGroupStale, s)
      else if bg_lns (gc_store s gid) = [] then
        (case openReal (gc_shared s) of
           (Inl e, sh) \<Rightarrow> (err e, s\<lparr>gc_shared := sh\<rparr>)
         | (Inr (r, p), sh) \<Rightarrow>
             (let bg = initBase g k r ((gc_store s gid)\<lparr>bg_params := p\<rparr>);
                  (ln, s') = newListener gid (s\<lparr>gc_shared := sh, gc_store := (gc_store s)(gid := bg)\<rparr>)
              in (ok ln, s')))
      else (case check (gc_store s gid) of
          Some e \<Rightarrow> (err e, s)
        | None \<Rightarrow> (let (ln, s') = newListener gid s in (ok ln, s'))))"

section \<open>The controller's loop\<close>

text \<open>\<open>Listen\<close> of a controller: find or create the group, let others run, call the group's own
  \<open>Listen\<close>, start over if the group has gone stale meanwhile. The list gives what the others
  do in each round; running out of it is \<open>None\<close>.\<close>

fun ctl_loop ::
  "string \<Rightarrow> 'g \<Rightarrow> (nat \<Rightarrow> ('g, 's) group_ctl \<Rightarrow> (group_error, 'l) result \<times> ('g, 's) group_ctl)
   \<Rightarrow> (('g, 's) group_ctl \<Rightarrow> ('g, 's) group_ctl) list
   \<Rightarrow> ('g, 's) group_ctl \<Rightarrow> ((group_error, 'l) result \<times> ('g, 's) group_ctl) option" where
  "ctl_loop key new listen [] s = None"
| "ctl_loop key new listen (others # rest) s =
     (let (gid, s1) = getOrCreate key new s;
          (res, s2) = listen gid (others s1)
      in if res = err errGroupStale then ctl_loop key new listen rest s2 else Some (res, s2))"

lemma getOrCreate_current: "isCurrent key (\<lambda>cur. cur = fst (getOrCreate key new s)) (snd (getOrCreate key new s))"
  by (simp add: getOrCreate_def isCurrent_def Let_def split: option.split)

text \<open>A round fails only if the others removed or replaced the group: the loop returns in the
  first round in which they leave its entry alone.\<close>

lemma ctl_loop_returns:
  assumes listen: "\<And>gid t. isCurrent key (\<lambda>cur. cur = gid) t \<Longrightarrow> fst (listen gid t) \<noteq> err errGroupStale"
    and "others \<in> set rest"
    and keep: "\<And>t. gc_groups (others t) key = gc_groups t key"
  shows "\<exists>y. ctl_loop key new listen rest s = Some y \<and> fst y \<noteq> err errGroupStale"
  using assms(2)
proof (induction rest arbitrary: s)
  case (Cons o' rest)
  obtain gid s1 where g: "getOrCreate key new s = (gid, s1)" by fastforce
  obtain res s2 where l: "listen gid (o' s1) = (res, s2)" by fastforce
  show ?case
  proof (cases "res = err errGroupStale")
    case True
    have "o' \<noteq> others"
    proof
      assume "o' = others"
      moreover have "isCurrent key (\<lambda>cur. cur = gid) s1" using getOrCreate_current [of key new s] g by simp
      ultimately have "isCurrent key (\<lambda>cur. cur = gid) (o' s1)" using keep by (simp add: isCurrent_def)
      from listen [OF this] l True show False by simp
    qed
    with Cons True g l show ?thesis by simp
  qed (simp add: g l)
qed simp

section \<open>Resources that are held exclusively\<close>

text \<open>
  What a listener-based group relies on: opening yields a resource that was not held and
  holds it, closing a held resource gives back exactly it, a failed opening takes nothing
  away.
\<close>

locale exclusive_pool =
  fixes ep_inv :: "'s \<Rightarrow> bool"
    and ep_held :: "'s \<Rightarrow> 'r set"
    and ep_open :: "'a \<Rightarrow> 's \<Rightarrow> (group_error, 'r \<times> 'p) result \<times> 's"
    and ep_ok :: "'a \<Rightarrow> 's \<Rightarrow> bool"
    and ep_close :: "int \<Rightarrow> 'r \<Rightarrow> 's \<Rightarrow> 's"
  assumes open_inv: "ep_inv s \<Longrightarrow> ep_ok a s \<Longrightarrow> ep_inv (snd (ep_open a s))"
    and open_new: "ep_inv s \<Longrightarrow> ep_ok a s \<Longrightarrow> ep_open a s = (ok (r, p), s') \<Longrightarrow>
        r \<notin> ep_held s \<and> ep_held s' = insert r (ep_held s)"
    and open_fail: "ep_inv s \<Longrightarrow> ep_ok a s \<Longrightarrow> ep_open a s = (err e, s') \<Longrightarrow> ep_held s \<subseteq> ep_held s'"
    and open_not_stale: "fst (ep_open a s) \<noteq> err errGroupStale"
    and close_inv: "ep_inv s \<Longrightarrow> r \<in> ep_held s \<Longrightarrow> ep_inv (ep_close now r s)"
    and close_held: "ep_inv s \<Longrightarrow> r \<in> ep_held s \<Longrightarrow> ep_held (ep_close now r s) = ep_held s - {r}"

text \<open>The invariant of a controller: a registered group carries its name; a group with
  listeners is registered and holds its real listener; no two groups hold the same one;
  listeners are numbered, open and in one group only.\<close>

definition group_inv :: "('s \<Rightarrow> bool) \<Rightarrow> ('s \<Rightarrow> 'r set) \<Rightarrow> ('p, 'r, 's) base_ctl \<Rightarrow> bool" where
  "group_inv I held s \<longleftrightarrow>
     I (gc_shared s)
   \<and> (\<forall>k g. gc_groups s k = Some g \<longrightarrow> g < gc_next s)
   \<and> (\<forall>g. bg_lns (gc_store s g) \<noteq> [] \<longrightarrow>
        gc_groups s (bg_group (gc_store s g)) = Some g
      \<and> (\<exists>r. bg_realLn (gc_store s g) = Some r \<and> r \<in> held (gc_shared s)))
   \<and> (\<forall>g g' r. bg_lns (gc_store s g) \<noteq> [] \<and> bg_lns (gc_store s g') \<noteq> []
        \<and> bg_realLn (gc_store s g) = Some r \<and> bg_realLn (gc_store s g') = Some r \<longrightarrow> g = g')
   \<and> (\<forall>g. distinct (bg_lns (gc_store s g)) \<and> (\<forall>l \<in> set (bg_lns (gc_store s g)). l < gc_nextLn s \<and> l \<notin> gc_closed s))
   \<and> (\<forall>g g' l. l \<in> set (bg_lns (gc_store s g)) \<and> l \<in> set (bg_lns (gc_store s g')) \<longrightarrow> g = g')
   \<and> (\<forall>l \<in> gc_closed s. l < gc_nextLn s)"

lemma group_invD:
  assumes "group_inv I held s"
  shows "I (gc_shared s)"
    and "gc_groups s k = Some g \<Longrightarrow> g < gc_next s"
    and "bg_lns (gc_store s g) \<noteq> [] \<Longrightarrow> gc_groups s (bg_group (gc_store s g)) = Some g"
    and "bg_lns (gc_store s g) \<noteq> [] \<Longrightarrow> \<exists>r. bg_realLn (gc_store s g) = Some r \<and> r \<in> held (gc_shared s)"
    and "bg_lns (gc_store s g) \<noteq> [] \<Longrightarrow> bg_lns (gc_store s g') \<noteq> [] \<Longrightarrow>
         bg_realLn (gc_store s g) = Some r \<Longrightarrow> bg_realLn (gc_store s g') = Some r \<Longrightarrow> g = g'"
    and "distinct (bg_lns (gc_store s g))"
    and "l \<in> set (bg_lns (gc_store s g)) \<Longrightarrow> l < gc_nextLn s \<and> l \<notin> gc_closed s"
    and "l \<in> set (bg_lns (gc_store s g)) \<Longrightarrow> l \<in> set (bg_lns (gc_store s g')) \<Longrightarrow> g = g'"
    and "l \<in> gc_closed s \<Longrightarrow> l < gc_nextLn s"
  using assms unfolding group_inv_def by blast+

lemma group_invI:
  assumes "I (gc_shared s)"
    and "\<And>k g. gc_groups s k = Some g \<Longrightarrow> g < gc_next s"
    and "\<And>g. bg_lns (gc_store s g) \<noteq> [] \<Longrightarrow> gc_groups s (bg_group (gc_store s g)) = Some g
           \<and> (\<exists>r. bg_realLn (gc_store s g) = Some r \<and> r \<in> held (gc_shared s))"
    and "\<And>g g' r. bg_lns (gc_store s g) \<noteq> [] \<Longrightarrow> bg_lns (gc_store s g') \<noteq> [] \<Longrightarrow>
           bg_realLn (gc_store s g) = Some r \<Longrightarrow> bg_realLn (gc_store s g') = Some r \<Longrightarrow> g = g'"
    and "\<And>g. distinct (bg_lns (gc_store s g))"
    and "\<And>g l. l \<in> set (bg_lns (gc_store s g)) \<Longrightarrow> l < gc_nextLn s \<and> l \<notin> gc_closed s"
    and "\<And>g g' l. l \<in> set (bg_lns (gc_store s g)) \<Longrightarrow> l \<in> set (bg_lns (gc_store s g')) \<Longrightarrow> g = g'"
    and "\<And>l. l \<in> gc_closed s \<Longrightarrow> l < gc_nextLn s"
  shows "group_inv I held s"
  unfolding group_inv_def using assms by (intro conjI allI impI ballI) blast+

lemma getOrCreate_cases:
  obtains (old) g where "gc_groups s key = Some g" and "getOrCreate key new s = (g, s)"
  | (fresh) "gc_groups s key = None"
      and "getOrCreate key new s = (gc_next s, s\<lparr>gc_groups := (gc_groups s)(key \<mapsto> gc_next s),
             gc_store := (gc_store s)(gc_next s := new), gc_next := Suc (gc_next s)\<rparr>)"
  by (cases "gc_groups s key") (simp_all add: getOrCreate_def Let_def)

lemma getOrCreate_group_inv [inv_rules]:
  assumes inv: "group_inv I held s" and "bg_lns new = []"
  shows "group_inv I held (snd (getOrCreate key new s))"
proof (cases rule: getOrCreate_cases [of s key new])
  case old
  then show ?thesis using inv by simp
next
  case fresh
  note D = group_invD [OF inv]
  let ?n = "gc_next s"
  have n: "bg_lns (gc_store s g) \<noteq> [] \<Longrightarrow> g \<noteq> ?n \<and> bg_group (gc_store s g) \<noteq> key" for g
    using D(2) [of "bg_group (gc_store s g)" g] D(3) [of g] fresh(1) by auto
  show ?thesis unfolding fresh(2) snd_conv
  proof (rule group_invI)
    fix g g' r l
    let ?s = "s\<lparr>gc_groups := (gc_groups s)(key \<mapsto> ?n), gc_store := (gc_store s)(?n := new), gc_next := Suc ?n\<rparr>"
    show "I (gc_shared ?s)" using D(1) by simp
    show "\<And>k. gc_groups ?s k = Some g \<Longrightarrow> g < gc_next ?s"
      using D(2) by (auto simp: less_Suc_eq split: if_splits)
    show "bg_lns (gc_store ?s g) \<noteq> [] \<Longrightarrow> gc_groups ?s (bg_group (gc_store ?s g)) = Some g
        \<and> (\<exists>r. bg_realLn (gc_store ?s g) = Some r \<and> r \<in> held (gc_shared ?s))"
      using D(3,4) [of g] n [of g] assms(2) by (cases "g = ?n") auto
    show "bg_lns (gc_store ?s g) \<noteq> [] \<Longrightarrow> bg_lns (gc_store ?s g') \<noteq> [] \<Longrightarrow>
        bg_realLn (gc_store ?s g) = Some r \<Longrightarrow> bg_realLn (gc_store ?s g') = Some r \<Longrightarrow> g = g'"
      using D(5) [of g g' r] assms(2) by (cases "g = ?n"; cases "g' = ?n") auto
    show "distinct (bg_lns (gc_store ?s g))"
      using D(6) [of g] assms(2) by simp
    show "l \<in> set (bg_lns (gc_store ?s g)) \<Longrightarrow> l < gc_nextLn ?s \<and> l \<notin> gc_closed ?s"
      using D(7) [of l g] assms(2) by (cases "g = ?n") auto
    show "l \<in> set (bg_lns (gc_store ?s g)) \<Longrightarrow> l \<in> set (bg_lns (gc_store ?s g')) \<Longrightarrow> g = g'"
      using D(8) [of l g g'] assms(2) by (cases "g = ?n"; cases "g' = ?n") auto
    show "l \<in> gc_closed ?s \<Longrightarrow> l < gc_nextLn ?s"
      using D(9) [of l] by simp
  qed
qed

lemma isCurrent_iff: "isCurrent g (\<lambda>cur. cur = gid) s \<longleftrightarrow> gc_groups s g = Some gid"
  by (auto simp: isCurrent_def split: option.split)

text \<open>Adding a listener to a group that holds its real listener keeps the invariant.\<close>

lemma add_listener_inv:
  assumes inv: "group_inv I held s" and I: "I sh"
    and cur: "gc_groups s (bg_group bg) = Some gid" and real: "bg_realLn bg = Some r" "r \<in> held sh"
    and lns: "bg_lns bg = bg_lns (gc_store s gid) @ [gc_nextLn s]"
    and others: "\<And>g r'. g \<noteq> gid \<Longrightarrow> bg_lns (gc_store s g) \<noteq> [] \<Longrightarrow> bg_realLn (gc_store s g) = Some r' \<Longrightarrow>
          r' \<noteq> r \<and> r' \<in> held sh"
  shows "group_inv I held (s\<lparr>gc_shared := sh, gc_store := (gc_store s)(gid := bg), gc_nextLn := Suc (gc_nextLn s)\<rparr>)"
proof (rule group_invI)
  note D = group_invD [OF inv]
  let ?s = "s\<lparr>gc_shared := sh, gc_store := (gc_store s)(gid := bg), gc_nextLn := Suc (gc_nextLn s)\<rparr>"
  fix g g' r' l
  show "I (gc_shared ?s)" using I by simp
  show "\<And>k. gc_groups ?s k = Some g \<Longrightarrow> g < gc_next ?s" using D(2) by simp
  show "bg_lns (gc_store ?s g) \<noteq> [] \<Longrightarrow> gc_groups ?s (bg_group (gc_store ?s g)) = Some g
        \<and> (\<exists>r. bg_realLn (gc_store ?s g) = Some r \<and> r \<in> held (gc_shared ?s))"
    using D(3,4) [of g] cur real others [of g] by (cases "g = gid") auto
  show "bg_lns (gc_store ?s g) \<noteq> [] \<Longrightarrow> bg_lns (gc_store ?s g') \<noteq> [] \<Longrightarrow>
        bg_realLn (gc_store ?s g) = Some r' \<Longrightarrow> bg_realLn (gc_store ?s g') = Some r' \<Longrightarrow> g = g'"
    using D(5) [of g g' r'] real(1) others [of g r'] others [of g' r'] by (cases "g = gid"; cases "g' = gid") auto
  show "distinct (bg_lns (gc_store ?s g))"
    using D(6) [of g] D(7) [of "gc_nextLn s" gid] lns by (cases "g = gid") auto
  show "l \<in> set (bg_lns (gc_store ?s g)) \<Longrightarrow> l < gc_nextLn ?s \<and> l \<notin> gc_closed ?s"
    using D(7) [of l g] lns D(9) [of "gc_nextLn s"] by (cases "g = gid") auto
  show "l \<in> set (bg_lns (gc_store ?s g)) \<Longrightarrow> l \<in> set (bg_lns (gc_store ?s g')) \<Longrightarrow> g = g'"
    using D(8) [of l g g'] D(7) [of l g] D(7) [of l g'] lns by (cases "g = gid"; cases "g' = gid") auto
  show "l \<in> gc_closed ?s \<Longrightarrow> l < gc_nextLn ?s"
    using D(9) [of l] by simp
qed

context exclusive_pool
begin

abbreviation ginv :: "('p, 'r, 's) base_ctl \<Rightarrow> bool" where
  "ginv \<equiv> group_inv ep_inv ep_held"

lemma shared_change_inv:
  assumes inv: "ginv s" and "ep_inv sh" and "ep_held (gc_shared s) \<subseteq> ep_held sh"
  shows "ginv (s\<lparr>gc_shared := sh\<rparr>)"
proof (rule group_invI)
  note D = group_invD [OF inv]
  fix g g' r l
  show "bg_lns (gc_store (s\<lparr>gc_shared := sh\<rparr>) g) \<noteq> [] \<Longrightarrow>
      gc_groups (s\<lparr>gc_shared := sh\<rparr>) (bg_group (gc_store (s\<lparr>gc_shared := sh\<rparr>) g)) = Some g \<and>
      (\<exists>r. bg_realLn (gc_store (s\<lparr>gc_shared := sh\<rparr>) g) = Some r \<and> r \<in> ep_held (gc_shared (s\<lparr>gc_shared := sh\<rparr>)))"
    using D(3,4) [of g] assms(3) by auto
qed (use assms(2) group_invD [OF inv] in auto)

lemma base_Listen_inv:
  assumes inv: "ginv s" and okA: "ep_ok a (gc_shared s)"
    and check: "\<And>bg. check bg = None \<Longrightarrow> bg_group bg = g"
  shows "ginv (snd (base_Listen (ep_open a) check gid g k s))"
proof (cases "gc_groups s g = Some gid")
  case False
  then show ?thesis using inv by (simp add: base_Listen_def isCurrent_iff)
next
  case cur: True
  note D = group_invD [OF inv]
  show ?thesis
  proof (cases "bg_lns (gc_store s gid) = []")
    case empty: True
    obtain res sh where A: "ep_open a (gc_shared s) = (res, sh)" by fastforce
    have shI: "ep_inv sh" using open_inv [OF D(1) okA] A by simp
    show ?thesis
    proof (cases res)
      case (Inl e)
      with open_fail [OF D(1) okA] A have "ep_held (gc_shared s) \<subseteq> ep_held sh" by blast
      with shared_change_inv [OF inv shI] Inl A cur empty show ?thesis
        by (simp add: base_Listen_def isCurrent_iff)
    next
      case (Inr rp)
      obtain r p where rp: "rp = (r, p)" by (cases rp)
      with open_new [OF D(1) okA] A Inr have new: "r \<notin> ep_held (gc_shared s)" "ep_held sh = insert r (ep_held (gc_shared s))"
        by blast+
      define bg where "bg = (initBase g k r ((gc_store s gid)\<lparr>bg_params := p\<rparr>))\<lparr>bg_lns := [gc_nextLn s]\<rparr>"
      have "snd (base_Listen (ep_open a) check gid g k s)
            = s\<lparr>gc_shared := sh, gc_store := (gc_store s)(gid := bg), gc_nextLn := Suc (gc_nextLn s)\<rparr>"
        using cur empty A Inr rp
        by (simp add: base_Listen_def isCurrent_iff newListener_def initBase_def bg_def Let_def)
      moreover have "ginv (s\<lparr>gc_shared := sh, gc_store := (gc_store s)(gid := bg), gc_nextLn := Suc (gc_nextLn s)\<rparr>)"
        using inv shI
      proof (rule add_listener_inv)
        show "r' \<noteq> r \<and> r' \<in> ep_held sh"
          if "bg_lns (gc_store s g') \<noteq> []" "bg_realLn (gc_store s g') = Some r'" for g' r'
          using D(4) [of g'] that new by auto
      qed (use cur empty new in \<open>auto simp: bg_def initBase_def\<close>)
      ultimately show ?thesis by simp
    qed
  next
    case more: False
    show ?thesis
    proof (cases "check (gc_store s gid)")
      case (Some e)
      then show ?thesis using inv cur more by (simp add: base_Listen_def isCurrent_iff)
    next
      case None
      define bg where "bg = (gc_store s gid)\<lparr>bg_lns := bg_lns (gc_store s gid) @ [gc_nextLn s]\<rparr>"
      have "snd (base_Listen (ep_open a) check gid g k s)
            = s\<lparr>gc_shared := gc_shared s, gc_store := (gc_store s)(gid := bg), gc_nextLn := Suc (gc_nextLn s)\<rparr>"
        using cur more None
        by (simp add: base_Listen_def isCurrent_iff newListener_def bg_def Let_def)
      moreover obtain r where r: "bg_realLn (gc_store s gid) = Some r" "r \<in> ep_held (gc_shared s)"
        using D(4) [OF more] by blast
      have "ginv (s\<lparr>gc_shared := gc_shared s, gc_store := (gc_store s)(gid := bg), gc_nextLn := Suc (gc_nextLn s)\<rparr>)"
        using inv D(1)
      proof (rule add_listener_inv)
        show "r' \<noteq> r \<and> r' \<in> ep_held (gc_shared s)"
          if "g' \<noteq> gid" "bg_lns (gc_store s g') \<noteq> []" "bg_realLn (gc_store s g') = Some r'" for g' r'
          using D(4) [OF that(2)] D(5) [OF that(2) more] that r by auto
      qed (use cur r check [OF None] in \<open>auto simp: bg_def\<close>)
      ultimately show ?thesis by simp
    qed
  qed
qed

lemma base_Listen_not_stale:
  assumes "isCurrent g (\<lambda>cur. cur = gid) s" and "\<And>bg. check bg \<noteq> Some errGroupStale"
  shows "fst (base_Listen (ep_open a) check gid g k s) \<noteq> err errGroupStale"
proof -
  have "fst (ep_open a (gc_shared s)) \<noteq> err errGroupStale" by (rule open_not_stale)
  then show ?thesis using assms
    by (cases "ep_open a (gc_shared s)"; cases "fst (ep_open a (gc_shared s))")
       (auto simp: base_Listen_def newListener_def Let_def split: option.split)
qed

text \<open>Closing one of several listeners leaves the others and the real listener alone; closing
  the last one gives the real listener back and removes the group.\<close>

lemma close_not_last:
  fixes now :: int
  assumes inv: "ginv s" and l: "l \<in> set (bg_lns (gc_store s gid))" and more: "bg_lns (gc_store s gid) \<noteq> [l]"
  defines "s' \<equiv> vlistener_Close (ep_close now) \<lparr>vl_group = gid, vl_id = l\<rparr> s"
  shows "ginv s'" and "gc_shared s' = gc_shared s" and "gc_groups s' = gc_groups s"
    and "bg_lns (gc_store s' gid) = remove1 l (bg_lns (gc_store s gid))"
proof -
  note D = group_invD [OF inv]
  have r: "remove1 l (bg_lns (gc_store s gid)) \<noteq> []"
    using l more by (cases "bg_lns (gc_store s gid)" rule: list.exhaust; cases "tl (bg_lns (gc_store s gid))")
      (auto split: if_splits)
  have s': "s' = s\<lparr>gc_closed := insert l (gc_closed s),
      gc_store := (gc_store s)(gid := (gc_store s gid)\<lparr>bg_lns := remove1 l (bg_lns (gc_store s gid))\<rparr>)\<rparr>"
    using D(7) [OF l] r by (simp add: s'_def vlistener_Close_def closeListener_def Let_def)
  then show "gc_shared s' = gc_shared s" "gc_groups s' = gc_groups s"
    "bg_lns (gc_store s' gid) = remove1 l (bg_lns (gc_store s gid))" by simp_all
  have sub: "l' \<in> set (bg_lns (gc_store s' g)) \<Longrightarrow> l' \<in> set (bg_lns (gc_store s g)) \<and> l' \<noteq> l" for l' g
    using D(6) [of gid] D(8) [of l gid g] l by (cases "g = gid") (auto simp: s')
  have ne: "bg_lns (gc_store s' g) \<noteq> [] \<Longrightarrow> bg_lns (gc_store s g) \<noteq> []" for g
    using l by (cases "g = gid") (auto simp: s')
  have same: "bg_group (gc_store s' g) = bg_group (gc_store s g)"
    "bg_realLn (gc_store s' g) = bg_realLn (gc_store s g)" for g
    by (simp_all add: s')
  show "ginv s'"
  proof (rule group_invI)
    fix g g' r l'
    show "ep_inv (gc_shared s')" using D(1) by (simp add: s')
    show "\<And>k. gc_groups s' k = Some g \<Longrightarrow> g < gc_next s'" using D(2) by (simp add: s')
    show "bg_lns (gc_store s' g) \<noteq> [] \<Longrightarrow> gc_groups s' (bg_group (gc_store s' g)) = Some g
        \<and> (\<exists>r. bg_realLn (gc_store s' g) = Some r \<and> r \<in> ep_held (gc_shared s'))"
      using D(3,4) [OF ne] by (simp add: same) (simp add: s')
    show "bg_lns (gc_store s' g) \<noteq> [] \<Longrightarrow> bg_lns (gc_store s' g') \<noteq> [] \<Longrightarrow>
        bg_realLn (gc_store s' g) = Some r \<Longrightarrow> bg_realLn (gc_store s' g') = Some r \<Longrightarrow> g = g'"
      using D(5) [OF ne ne] by (simp add: same)
    show "distinct (bg_lns (gc_store s' g))" using D(6) [of g] D(6) [of gid] by (simp add: s' distinct_remove1)
    show "l' \<in> set (bg_lns (gc_store s' g)) \<Longrightarrow> l' < gc_nextLn s' \<and> l' \<notin> gc_closed s'"
      using D(7) [of l' g] sub [of l' g] by (simp add: s')
    show "l' \<in> set (bg_lns (gc_store s' g)) \<Longrightarrow> l' \<in> set (bg_lns (gc_store s' g')) \<Longrightarrow> g = g'"
      using D(8) [of l' g g'] sub by blast
    show "l' \<in> gc_closed s' \<Longrightarrow> l' < gc_nextLn s'"
      using D(9) D(7) [OF l] by (auto simp: s')
  qed
qed

lemma close_last:
  fixes now :: int
  assumes inv: "ginv s" and last: "bg_lns (gc_store s gid) = [l]"
  defines "s' \<equiv> vlistener_Close (ep_close now) \<lparr>vl_group = gid, vl_id = l\<rparr> s"
  shows "ginv s'" and "gc_groups s' = (gc_groups s)(bg_group (gc_store s gid) := None)"
    and "\<exists>r. bg_realLn (gc_store s gid) = Some r \<and> gc_shared s' = ep_close now r (gc_shared s)
           \<and> ep_held (gc_shared s') = ep_held (gc_shared s) - {r}"
    and "bg_lns (gc_store s' gid) = []"
proof -
  note D = group_invD [OF inv]
  have ln: "l \<in> set (bg_lns (gc_store s gid))" and lne: "bg_lns (gc_store s gid) \<noteq> []" using last by simp_all
  obtain r where r: "bg_realLn (gc_store s gid) = Some r" "r \<in> ep_held (gc_shared s)" using D(4) [OF lne] by blast
  have s': "s' = s\<lparr>gc_closed := insert l (gc_closed s),
      gc_store := (gc_store s)(gid := (gc_store s gid)\<lparr>bg_lns := []\<rparr>),
      gc_shared := ep_close now r (gc_shared s),
      gc_groups := (gc_groups s)(bg_group (gc_store s gid) := None)\<rparr>"
    using D(7) [OF ln] D(3) [OF lne] last r
    by (simp add: s'_def vlistener_Close_def closeListener_def Let_def removeIf_def)
  have held: "ep_held (gc_shared s') = ep_held (gc_shared s) - {r}"
    using close_held [OF D(1) r(2)] by (simp add: s')
  show "gc_groups s' = (gc_groups s)(bg_group (gc_store s gid) := None)" "bg_lns (gc_store s' gid) = []"
    by (simp_all add: s')
  show "\<exists>r. bg_realLn (gc_store s gid) = Some r \<and> gc_shared s' = ep_close now r (gc_shared s)
           \<and> ep_held (gc_shared s') = ep_held (gc_shared s) - {r}"
    using r held by (simp add: s')
  have ne: "bg_lns (gc_store s' g) \<noteq> [] \<Longrightarrow> g \<noteq> gid \<and> bg_lns (gc_store s g) \<noteq> [] \<and> gc_store s' g = gc_store s g" for g
    by (cases "g = gid") (auto simp: s')
  have mem: "l' \<in> set (bg_lns (gc_store s' g)) \<Longrightarrow> l' \<in> set (bg_lns (gc_store s g)) \<and> l' \<noteq> l" for l' g
    using D(8) [OF ln, of g] ne [of g] by fastforce
  show "ginv s'"
  proof (rule group_invI)
    fix g g' r' l'
    show "ep_inv (gc_shared s')" using close_inv [OF D(1) r(2)] by (simp add: s')
    show "\<And>k. gc_groups s' k = Some g \<Longrightarrow> g < gc_next s'" using D(2) by (auto simp: s' split: if_splits)
    show "bg_lns (gc_store s' g) \<noteq> [] \<Longrightarrow> gc_groups s' (bg_group (gc_store s' g)) = Some g
        \<and> (\<exists>r. bg_realLn (gc_store s' g) = Some r \<and> r \<in> ep_held (gc_shared s'))"
    proof -
      assume "bg_lns (gc_store s' g) \<noteq> []"
      then have g: "g \<noteq> gid" "bg_lns (gc_store s g) \<noteq> []" "gc_store s' g = gc_store s g" using ne [of g] by auto
      obtain q where q: "bg_realLn (gc_store s g) = Some q" "q \<in> ep_held (gc_shared s)" using D(4) [OF g(2)] by blast
      have "q \<noteq> r" using D(5) [OF g(2) lne, of r] q(1) r(1) g(1) by blast
      moreover have "bg_group (gc_store s g) \<noteq> bg_group (gc_store s gid)"
        using D(3) [OF g(2)] D(3) [OF lne] g(1) by auto
      moreover have "gc_groups s' = (gc_groups s)(bg_group (gc_store s gid) := None)" by (simp add: s')
      ultimately show ?thesis using D(3) [OF g(2)] q held g(3) by simp
    qed
    show "bg_lns (gc_store s' g) \<noteq> [] \<Longrightarrow> bg_lns (gc_store s' g') \<noteq> [] \<Longrightarrow>
        bg_realLn (gc_store s' g) = Some r' \<Longrightarrow> bg_realLn (gc_store s' g') = Some r' \<Longrightarrow> g = g'"
      using D(5) [of g g' r'] ne [of g] ne [of g'] by simp
    show "distinct (bg_lns (gc_store s' g))" using D(6) [of g] by (simp add: s')
    show "l' \<in> set (bg_lns (gc_store s' g)) \<Longrightarrow> l' < gc_nextLn s' \<and> l' \<notin> gc_closed s'"
      using D(7) [of l' g] mem [of l' g] by (simp add: s')
    show "l' \<in> set (bg_lns (gc_store s' g)) \<Longrightarrow> l' \<in> set (bg_lns (gc_store s' g')) \<Longrightarrow> g = g'"
      using D(8) [of l' g g'] mem by blast
    show "l' \<in> gc_closed s' \<Longrightarrow> l' < gc_nextLn s'"
      using D(9) D(7) [OF ln] by (auto simp: s')
  qed
qed

lemma vlistener_Close_inv:
  assumes "ginv s" and "l \<in> gc_closed s \<or> l \<in> set (bg_lns (gc_store s gid))"
  shows "ginv (vlistener_Close (ep_close now) \<lparr>vl_group = gid, vl_id = l\<rparr> s)"
proof (cases "l \<in> gc_closed s")
  case True
  then show ?thesis using assms(1) by (simp add: vlistener_Close_def)
next
  case False
  with assms show ?thesis
    using close_not_last(1) close_last(1) by (cases "bg_lns (gc_store s gid) = [l]") blast+
qed

end

end
