(* ===== verification/Listener_Groups.thy ===== *)
theory Listener_Groups
  imports Group_Base
begin

text \<open>
  The three listener-based groups: \<^verbatim>\<open>server/group/tcp.go\<close> over the port manager,
  \<^verbatim>\<open>server/group/tcpmux.go\<close> and \<^verbatim>\<open>server/group/https.go\<close> over a multiplexer. Each \<open>Listen\<close> is
  written as in the source and shown to be an instance of \<open>base_Listen\<close>; the port manager and
  the multiplexer are interpreted as exclusive pools, which gives the invariants of the
  groups.
\<close>

section \<open>TCP groups\<close>

record tcp_params =
  tg_addr :: string
  tg_port :: int
  tg_realPort :: int

type_synonym tcp_ctl = "(tcp_params, int, port_manager) base_ctl"

text \<open>What one call sees of its environment: the ports that can be bound, the iteration order
  over the free ports, the time, and whether \<open>net.Listen\<close> succeeds on the acquired port.\<close>

record tcp_env =
  te_net :: net_env
  te_order :: "int list"
  te_now :: int
  te_listen :: bool

definition NewTCPGroup :: "(tcp_params, int) baseGroup" where
  "NewTCPGroup = \<lparr>bg_group = [], bg_groupKey = [], bg_lns = [], bg_realLn = None,
     bg_params = \<lparr>tg_addr = [], tg_port = 0, tg_realPort = 0\<rparr>\<rparr>"

definition NewTCPGroupCtl :: "port_manager \<Rightarrow> tcp_ctl" where
  "NewTCPGroupCtl pm = newGroupRegistry NewTCPGroup pm"

definition TCPGroup_Listen ::
  "tcp_env \<Rightarrow> string \<Rightarrow> string \<Rightarrow> string \<Rightarrow> string \<Rightarrow> int \<Rightarrow> nat \<Rightarrow> tcp_ctl
   \<Rightarrow> (group_error, vlistener \<times> int) result \<times> tcp_ctl" where
  "TCPGroup_Listen env proxyName grp groupKey addr port gid s =
     (if \<not> isCurrent grp (\<lambda>cur. cur = gid) s then (err errGroupStale, s)
      else
        let tg = gc_store s gid in
        if bg_lns tg = [] then
          (case Acquire (te_net env) (te_order env) (te_now env) proxyName port (gc_shared s) of
             (Inl e, pm) \<Rightarrow> (err (PortErr e), s\<lparr>gc_shared := pm\<rparr>)
           | (Inr realPort, pm) \<Rightarrow>
               if \<not> te_listen env
               then (err NetListenErr, s\<lparr>gc_shared := Release (te_now env) realPort pm\<rparr>)
               else
                 let tg1 = tg\<lparr>bg_params := \<lparr>tg_addr = addr, tg_port = port, tg_realPort = realPort\<rparr>\<rparr>;
                     tg2 = initBase grp groupKey realPort tg1;
                     (ln, s') = newListener gid (s\<lparr>gc_shared := pm, gc_store := (gc_store s)(gid := tg2)\<rparr>)
                 in (ok (ln, realPort), s'))
        else if bg_group tg \<noteq> grp \<or> tg_addr (bg_params tg) \<noteq> addr then (err ErrGroupParamsInvalid, s)
        else if tg_port (bg_params tg) \<noteq> port then (err ErrGroupDifferentPort, s)
        else if bg_groupKey tg \<noteq> groupKey then (err ErrGroupAuthFailed, s)
        else let (ln, s') = newListener gid s in (ok (ln, tg_realPort (bg_params tg)), s'))"

definition TCPGroupCtl_Listen ::
  "(tcp_ctl \<Rightarrow> tcp_ctl) list \<Rightarrow> tcp_env \<Rightarrow> string \<Rightarrow> string \<Rightarrow> string \<Rightarrow> string \<Rightarrow> int \<Rightarrow> tcp_ctl
   \<Rightarrow> ((group_error, vlistener \<times> int) result \<times> tcp_ctl) option" where
  "TCPGroupCtl_Listen others env proxyName grp groupKey addr port s =
     ctl_loop grp NewTCPGroup (TCPGroup_Listen env proxyName grp groupKey addr port) others s"

definition TCPGroup_Close :: "int \<Rightarrow> vlistener \<Rightarrow> tcp_ctl \<Rightarrow> tcp_ctl" where
  "TCPGroup_Close now ln s = vlistener_Close (Release now) ln s"

text \<open>The real listener of a TCP group as an exclusive resource: its port.\<close>

type_synonym tcp_open_args = "tcp_env \<times> string \<times> string \<times> int"

fun tcp_open :: "tcp_open_args \<Rightarrow> port_manager \<Rightarrow> (group_error, int \<times> tcp_params) result \<times> port_manager" where
  "tcp_open (env, proxyName, addr, port) pm =
     (case Acquire (te_net env) (te_order env) (te_now env) proxyName port pm of
        (Inl e, pm') \<Rightarrow> (err (PortErr e), pm')
      | (Inr realPort, pm') \<Rightarrow>
          if \<not> te_listen env then (err NetListenErr, Release (te_now env) realPort pm')
          else (ok (realPort, \<lparr>tg_addr = addr, tg_port = port, tg_realPort = realPort\<rparr>), pm'))"

fun tcp_check :: "string \<Rightarrow> string \<Rightarrow> string \<Rightarrow> int \<Rightarrow> (tcp_params, int) baseGroup \<Rightarrow> group_error option" where
  "tcp_check g k addr port tg =
     (if bg_group tg \<noteq> g \<or> tg_addr (bg_params tg) \<noteq> addr then Some ErrGroupParamsInvalid
      else if tg_port (bg_params tg) \<noteq> port then Some ErrGroupDifferentPort
      else if bg_groupKey tg \<noteq> k then Some ErrGroupAuthFailed
      else None)"

text \<open>The operating system binds no port twice, and Go's iteration yields free ports.\<close>

definition os_ok :: "tcp_env \<Rightarrow> port_manager \<Rightarrow> bool" where
  "os_ok env pm \<longleftrightarrow> set (te_order env) \<subseteq> freePorts pm
   \<and> (\<forall>q \<in> dom (usedPorts pm). \<not> isPortAvailable (te_net env) pm q)"

fun tcp_open_ok :: "tcp_open_args \<Rightarrow> port_manager \<Rightarrow> bool" where
  "tcp_open_ok (env, proxyName, addr, port) pm \<longleftrightarrow> os_ok env pm"

lemma Acquire_fresh:
  assumes "pm_inv pm" and "os_ok env pm"
    and "Acquire (te_net env) (te_order env) now name port pm = (ok p, pm')"
  shows "p \<notin> ports_in_use pm" and "ports_in_use pm' = insert p (ports_in_use pm)" and "pm_inv pm'"
proof -
  have ord: "set (te_order env) \<subseteq> freePorts pm" using assms(2) by (simp add: os_ok_def)
  from assms(1) ord assms(3) show "p \<notin> ports_in_use pm"
  proof (cases rule: Acquire_cases)
    case (granted q)
    then have "q = p" by auto
    with granted(4) assms(2) show ?thesis by (auto simp: os_ok_def)
  qed simp
  show "ports_in_use pm' = insert p (ports_in_use pm)"
    using pm.acq_granted [OF assms(1), of "(te_net env, te_order env, now, name, port)"] ord assms(3) by simp
  show "pm_inv pm'" using Acquire_inv(1) [OF assms(1) ord, of "te_net env" now name port] assms(3) by simp
qed

interpretation tcp: exclusive_pool pm_inv ports_in_use tcp_open tcp_open_ok Release
proof unfold_locales
  fix s and a :: tcp_open_args and r p s' e
  assume inv: "pm_inv s" and okA: "tcp_open_ok a s"
  obtain env name addr port where a: "a = (env, name, addr, port)" by (metis prod.exhaust)
  obtain res pm' where A: "Acquire (te_net env) (te_order env) (te_now env) name port s = (res, pm')" by fastforce
  from okA a have os: "os_ok env s" by simp
  then have ord: "set (te_order env) \<subseteq> freePorts s" by (simp add: os_ok_def)
  have i': "pm_inv pm'"
    using Acquire_inv(1) [OF inv ord, of "te_net env" "te_now env" name port] A by simp
  then show "pm_inv (snd (tcp_open a s))"
    using a A by (auto simp: Release_inv split: sum.split)
  show "r \<notin> ports_in_use s \<and> ports_in_use s' = insert r (ports_in_use s)"
    if "tcp_open a s = (ok (r, p), s')"
    using that a A Acquire_fresh [OF inv os] by (auto split: sum.splits if_splits)
  show "ports_in_use s \<subseteq> ports_in_use s'" if "tcp_open a s = (err e, s')"
  proof (cases res)
    case (Inl e')
    with that a A have "s' = pm'" by auto
    with pm.acq_refused [OF inv, of "(te_net env, te_order env, te_now env, name, port)" e' pm'] A ord Inl
    show ?thesis by simp
  next
    case (Inr q)
    with that a A have s': "s' = Release (te_now env) q pm'" by (auto split: if_splits)
    from Inr A Acquire_fresh [OF inv os] have "q \<notin> ports_in_use s" "ports_in_use pm' = insert q (ports_in_use s)" by auto
    then show ?thesis using pm.rel_frees [OF i'] s' by auto
  qed
next
  show "fst (tcp_open a s) \<noteq> err errGroupStale" for a s
    by (cases a) (auto split: prod.split sum.split)
next
  show "pm_inv (Release now r s)" "ports_in_use (Release now r s) = ports_in_use s - {r}"
    if "pm_inv s" "r \<in> ports_in_use s" for s r now
    using that pm.rel_inv pm.rel_frees by auto
qed

lemma TCPGroup_Listen_base:
  "TCPGroup_Listen env name g k addr port gid s =
     (let (res, s') = base_Listen (tcp_open (env, name, addr, port)) (tcp_check g k addr port) gid g k s
      in (map_sum id (\<lambda>ln. (ln, tg_realPort (bg_params (gc_store s' gid)))) res, s'))"
  by (auto simp: TCPGroup_Listen_def base_Listen_def Let_def initBase_def newListener_def
      split: prod.splits sum.splits if_splits)

lemma tcp_check_facts:
  "tcp_check g k addr port bg = None \<Longrightarrow> bg_group bg = g" "tcp_check g k addr port bg \<noteq> Some errGroupStale"
  by (auto split: if_splits)

text \<open>Histories of a TCP group controller: every critical section is one step, so that the
  lookups and the \<open>Listen\<close> calls of different proxies interleave freely.\<close>

datatype tcp_op =
    TCreate string
  | TListen tcp_env string string string string int nat
  | TClose int vlistener

fun tcp_step :: "tcp_op \<Rightarrow> tcp_ctl \<Rightarrow> tcp_ctl" where
  "tcp_step (TCreate g) s = snd (getOrCreate g NewTCPGroup s)"
| "tcp_step (TListen env name g k addr port gid) s = snd (TCPGroup_Listen env name g k addr port gid s)"
| "tcp_step (TClose now ln) s = TCPGroup_Close now ln s"

fun tcp_op_ok :: "tcp_op \<Rightarrow> tcp_ctl \<Rightarrow> bool" where
  "tcp_op_ok (TCreate g) s \<longleftrightarrow> True"
| "tcp_op_ok (TListen env name g k addr port gid) s \<longleftrightarrow> os_ok env (gc_shared s)"
| "tcp_op_ok (TClose now ln) s \<longleftrightarrow>
     vl_id ln \<in> gc_closed s \<or> vl_id ln \<in> set (bg_lns (gc_store s (vl_group ln)))"

fun tcp_ops_ok :: "tcp_op list \<Rightarrow> tcp_ctl \<Rightarrow> bool" where
  "tcp_ops_ok [] s \<longleftrightarrow> True"
| "tcp_ops_ok (x # xs) s \<longleftrightarrow> tcp_op_ok x s \<and> tcp_ops_ok xs (tcp_step x s)"

abbreviation tcp_inv :: "tcp_ctl \<Rightarrow> bool" where
  "tcp_inv \<equiv> group_inv pm_inv ports_in_use"

lemma NewTCPGroupCtl_inv: "pm_inv pm \<Longrightarrow> tcp_inv (NewTCPGroupCtl pm)"
  by (simp add: group_inv_def NewTCPGroupCtl_def newGroupRegistry_def NewTCPGroup_def)

lemma TCPGroup_Listen_inv:
  assumes "tcp_inv s" and "os_ok env (gc_shared s)"
  shows "tcp_inv (snd (TCPGroup_Listen env name g k addr port gid s))"
proof -
  have "tcp_inv (snd (base_Listen (tcp_open (env, name, addr, port)) (tcp_check g k addr port) gid g k s))"
    using assms by (intro tcp.base_Listen_inv) (auto split: if_splits)
  then show ?thesis by (simp add: TCPGroup_Listen_base Let_def case_prod_beta)
qed

lemma tcp_step_inv:
  assumes "tcp_inv s" and "tcp_op_ok x s"
  shows "tcp_inv (tcp_step x s)"
proof (cases x)
  case (TCreate g)
  then show ?thesis using getOrCreate_group_inv [OF assms(1), of NewTCPGroup g] by (simp add: NewTCPGroup_def)
next
  case (TListen env name g k addr port gid)
  with assms show ?thesis by (simp add: TCPGroup_Listen_inv)
next
  case (TClose now ln)
  with assms(2) tcp.vlistener_Close_inv [OF assms(1), of "vl_id ln" "vl_group ln" now] show ?thesis
    by (cases ln) (simp add: TCPGroup_Close_def)
qed

lemma tcp_run_inv: "tcp_inv s \<Longrightarrow> tcp_ops_ok xs s \<Longrightarrow> tcp_inv (fold tcp_step xs s)"
  by (induction xs arbitrary: s) (auto simp: tcp_step_inv)

section \<open>Groups on a multiplexer\<close>

record tcpmux_params =
  tmg_domain :: string
  tmg_routeByHTTPUser :: string
  tmg_username :: string
  tmg_password :: string

type_synonym tcpmux_ctl = "(tcpmux_params, Listener, Muxer) base_ctl"

definition NewTCPMuxGroup :: "(tcpmux_params, Listener) baseGroup" where
  "NewTCPMuxGroup = \<lparr>bg_group = [], bg_groupKey = [], bg_lns = [], bg_realLn = None,
     bg_params = \<lparr>tmg_domain = [], tmg_routeByHTTPUser = [], tmg_username = [], tmg_password = []\<rparr>\<rparr>"

definition NewTCPMuxGroupCtl :: "Muxer \<Rightarrow> tcpmux_ctl" where
  "NewTCPMuxGroupCtl v = newGroupRegistry NewTCPMuxGroup v"

definition HTTPConnectListen ::
  "string \<Rightarrow> string \<Rightarrow> RouteConfig \<Rightarrow> nat \<Rightarrow> tcpmux_ctl \<Rightarrow> (group_error, vlistener) result \<times> tcpmux_ctl" where
  "HTTPConnectListen grp groupKey routeConfig gid s =
     (if \<not> isCurrent grp (\<lambda>cur. cur = gid) s then (err errGroupStale, s)
      else
        let tmg = gc_store s gid in
        if bg_lns tmg = [] then
          (case Listen routeConfig (gc_shared s) of
             (Inl e, v) \<Rightarrow> (err (RouteErr e), s\<lparr>gc_shared := v\<rparr>)
           | (Inr tcpMuxLn, v) \<Rightarrow>
               let tmg1 = tmg\<lparr>bg_params := \<lparr>tmg_domain = rc_Domain routeConfig,
                            tmg_routeByHTTPUser = rc_RouteByHTTPUser routeConfig,
                            tmg_username = rc_Username routeConfig, tmg_password = rc_Password routeConfig\<rparr>\<rparr>;
                   tmg2 = initBase grp groupKey tcpMuxLn tmg1;
                   (ln, s') = newListener gid (s\<lparr>gc_shared := v, gc_store := (gc_store s)(gid := tmg2)\<rparr>)
               in (ok ln, s'))
        else if bg_group tmg \<noteq> grp \<or> tmg_domain (bg_params tmg) \<noteq> rc_Domain routeConfig
               \<or> tmg_routeByHTTPUser (bg_params tmg) \<noteq> rc_RouteByHTTPUser routeConfig
               \<or> tmg_username (bg_params tmg) \<noteq> rc_Username routeConfig
               \<or> tmg_password (bg_params tmg) \<noteq> rc_Password routeConfig
        then (err ErrGroupParamsInvalid, s)
        else if bg_groupKey tmg \<noteq> groupKey then (err ErrGroupAuthFailed, s)
        else let (ln, s') = newListener gid s in (ok ln, s'))"

text \<open>An unknown multiplexer fails after the group has been created.\<close>

definition TCPMuxGroupCtl_Listen ::
  "(tcpmux_ctl \<Rightarrow> tcpmux_ctl) list \<Rightarrow> string \<Rightarrow> string \<Rightarrow> string \<Rightarrow> RouteConfig \<Rightarrow> tcpmux_ctl
   \<Rightarrow> ((group_error, vlistener) result \<times> tcpmux_ctl) option" where
  "TCPMuxGroupCtl_Listen others multiplexer grp groupKey routeConfig s =
     ctl_loop grp NewTCPMuxGroup
       (\<lambda>gid t. if multiplexer = ''httpconnect'' then HTTPConnectListen grp groupKey routeConfig gid t
                else (err UnknownMultiplexer, t))
       others s"

text \<open>HTTPS groups remember the domain alone.\<close>

type_synonym https_ctl = "(string, Listener, Muxer) base_ctl"

definition NewHTTPSGroup :: "(string, Listener) baseGroup" where
  "NewHTTPSGroup = \<lparr>bg_group = [], bg_groupKey = [], bg_lns = [], bg_realLn = None, bg_params = []\<rparr>"

definition NewHTTPSGroupController :: "Muxer \<Rightarrow> https_ctl" where
  "NewHTTPSGroupController v = newGroupRegistry NewHTTPSGroup v"

definition HTTPSGroup_Listen ::
  "string \<Rightarrow> string \<Rightarrow> RouteConfig \<Rightarrow> nat \<Rightarrow> https_ctl \<Rightarrow> (group_error, vlistener) result \<times> https_ctl" where
  "HTTPSGroup_Listen grp groupKey routeConfig gid s =
     (if \<not> isCurrent grp (\<lambda>cur. cur = gid) s then (err errGroupStale, s)
      else
        let g = gc_store s gid in
        if bg_lns g = [] then
          (case Listen routeConfig (gc_shared s) of
             (Inl e, v) \<Rightarrow> (err (RouteErr e), s\<lparr>gc_shared := v\<rparr>)
           | (Inr httpsLn, v) \<Rightarrow>
               let g1 = g\<lparr>bg_params := rc_Domain routeConfig\<rparr>;
                   g2 = initBase grp groupKey httpsLn g1;
                   (ln, s') = newListener gid (s\<lparr>gc_shared := v, gc_store := (gc_store s)(gid := g2)\<rparr>)
               in (ok ln, s'))
        else if bg_group g \<noteq> grp \<or> bg_params g \<noteq> rc_Domain routeConfig then (err ErrGroupParamsInvalid, s)
        else if bg_groupKey g \<noteq> groupKey then (err ErrGroupAuthFailed, s)
        else let (ln, s') = newListener gid s in (ok ln, s'))"

definition HTTPSGroupController_Listen ::
  "(https_ctl \<Rightarrow> https_ctl) list \<Rightarrow> string \<Rightarrow> string \<Rightarrow> RouteConfig \<Rightarrow> https_ctl
   \<Rightarrow> ((group_error, vlistener) result \<times> https_ctl) option" where
  "HTTPSGroupController_Listen others grp groupKey routeConfig s =
     ctl_loop grp NewHTTPSGroup (HTTPSGroup_Listen grp groupKey routeConfig) others s"

text \<open>Closing the real listener of such a group closes the listener of the multiplexer.\<close>

definition mux_close :: "int \<Rightarrow> Listener \<Rightarrow> Muxer \<Rightarrow> Muxer" where
  "mux_close now l v = (case listener_Close l v of None \<Rightarrow> v | Some v' \<Rightarrow> v')"

definition MuxGroup_Close :: "int \<Rightarrow> vlistener \<Rightarrow> ('p, Listener, Muxer) base_ctl \<Rightarrow> ('p, Listener, Muxer) base_ctl" where
  "MuxGroup_Close now ln s = vlistener_Close (mux_close now) ln s"

text \<open>The listeners of a multiplexer as exclusive resources, with the parameters a group
  remembers computed from the route by \<open>params\<close>.\<close>

definition mux_held :: "Muxer \<Rightarrow> Listener set" where
  "mux_held v = ran (routes (registryRouter v))"

fun mux_open :: "(RouteConfig \<Rightarrow> 'p) \<times> RouteConfig \<Rightarrow> Muxer \<Rightarrow> (group_error, Listener \<times> 'p) result \<times> Muxer" where
  "mux_open (params, cfg) v =
     (case Listen cfg v of
        (Inl e, v') \<Rightarrow> (err (RouteErr e), v')
      | (Inr l, v') \<Rightarrow> (ok (l, params cfg), v'))"

lemma Listen_held:
  assumes inv: "mux_inv v" and L: "Listen cfg v = (ok l, v')"
  shows "l \<notin> mux_held v" and "mux_held v' = insert l (mux_held v)"
proof -
  let ?k = "(to_lower (rc_Domain cfg), rc_Location cfg, rc_RouteByHTTPUser cfg)"
  have free: "routes (registryRouter v) ?k = None"
    using Listen_cases(1) [OF inv refl, of cfg] L by fastforce
  from Listen_cases(2) [OF inv refl free] L
  have l: "l = new_listener cfg v" and r: "routes (registryRouter v') = (routes (registryRouter v))(?k \<mapsto> l)" by auto
  have "l_id l = next_listener v" by (simp add: l new_listener_def)
  then show "l \<notin> mux_held v" using mux_invD(2) [OF inv] by (fastforce simp: mux_held_def ran_def)
  show "mux_held v' = insert l (mux_held v)" unfolding mux_held_def r using free by simp
qed

lemma mux_close_held:
  assumes inv: "mux_inv v" and "l \<in> mux_held v"
  shows "mux_inv (mux_close now l v)" and "mux_held (mux_close now l v) = mux_held v - {l}"
proof -
  from assms(2) obtain k where k: "routes (registryRouter v) k = Some l" by (auto simp: mux_held_def ran_def)
  with mux_invD(2) [OF inv k] have key: "routes (registryRouter v) (listener_key l) = Some l" by simp
  from Close_inv [OF inv key] obtain v' where v': "listener_Close l v = Some v'" "mux_inv v'"
    "routes (registryRouter v') = (routes (registryRouter v))(listener_key l := None)" by blast
  then show "mux_inv (mux_close now l v)" by (simp add: mux_close_def)
  have "ran ((routes (registryRouter v))(listener_key l := None)) = ran (routes (registryRouter v)) - {l}"
    using key mux_invD(2) [OF inv] by (intro ran_upd_None_unique) blast+
  with v' show "mux_held (mux_close now l v) = mux_held v - {l}" by (simp add: mux_close_def mux_held_def)
qed

interpretation mux: exclusive_pool mux_inv mux_held mux_open "\<lambda>_ _. True" mux_close
proof unfold_locales
  fix s and a :: "(RouteConfig \<Rightarrow> 'p) \<times> RouteConfig" and r p s' e
  assume inv: "mux_inv s"
  obtain params cfg where a: "a = (params, cfg)" by (cases a)
  show "mux_inv (snd (mux_open a s))"
    using Listen_inv [OF inv, of cfg] by (auto simp: a split: prod.split sum.split)
  show "r \<notin> mux_held s \<and> mux_held s' = insert r (mux_held s)" if "mux_open a s = (ok (r, p), s')"
    using that Listen_held [OF inv, of cfg] by (auto simp: a split: prod.splits sum.splits)
  show "mux_held s \<subseteq> mux_held s'" if failed: "mux_open a s = (err e, s')"
  proof -
    obtain e' where L: "Listen cfg s = (err e', s')" using failed by (auto simp: a split: prod.splits sum.splits)
    have "routes (registryRouter s) (to_lower (rc_Domain cfg), rc_Location cfg, rc_RouteByHTTPUser cfg) \<noteq> None"
      using Listen_cases(2) [OF inv refl, of cfg] L by fastforce
    with Listen_cases(1) [OF inv refl, of cfg] L show ?thesis by (auto simp: mux_held_def)
  qed
next
  show "fst (mux_open a s) \<noteq> err errGroupStale" for a :: "(RouteConfig \<Rightarrow> 'p) \<times> RouteConfig" and s
    by (cases a) (auto split: prod.split sum.split)
qed (simp_all add: mux_close_held)

definition tcpmux_params_of :: "RouteConfig \<Rightarrow> tcpmux_params" where
  "tcpmux_params_of cfg = \<lparr>tmg_domain = rc_Domain cfg, tmg_routeByHTTPUser = rc_RouteByHTTPUser cfg,
     tmg_username = rc_Username cfg, tmg_password = rc_Password cfg\<rparr>"

definition mux_check :: "(RouteConfig \<Rightarrow> 'p) \<Rightarrow> string \<Rightarrow> string \<Rightarrow> RouteConfig \<Rightarrow> ('p, Listener) baseGroup \<Rightarrow> group_error option" where
  "mux_check params g k cfg bg =
     (if bg_group bg \<noteq> g \<or> bg_params bg \<noteq> params cfg then Some ErrGroupParamsInvalid
      else if bg_groupKey bg \<noteq> k then Some ErrGroupAuthFailed else None)"

lemma mux_check_facts:
  "mux_check params g k cfg bg = None \<Longrightarrow> bg_group bg = g" "mux_check params g k cfg bg \<noteq> Some errGroupStale"
  by (auto simp: mux_check_def split: if_splits)

lemma HTTPConnectListen_base:
  "HTTPConnectListen g k cfg gid s =
     base_Listen (mux_open (tcpmux_params_of, cfg)) (mux_check tcpmux_params_of g k cfg) gid g k s"
proof -
  have "(tmg_domain p \<noteq> rc_Domain cfg \<or> tmg_routeByHTTPUser p \<noteq> rc_RouteByHTTPUser cfg
         \<or> tmg_username p \<noteq> rc_Username cfg \<or> tmg_password p \<noteq> rc_Password cfg) \<longleftrightarrow> p \<noteq> tcpmux_params_of cfg" for p
    by (cases p) (auto simp: tcpmux_params_of_def)
  then show ?thesis
    by (simp add: HTTPConnectListen_def base_Listen_def mux_check_def tcpmux_params_of_def [symmetric] Let_def
        split: prod.splits sum.splits)
qed

lemma HTTPSGroup_Listen_base:
  "HTTPSGroup_Listen g k cfg gid s = base_Listen (mux_open (rc_Domain, cfg)) (mux_check rc_Domain g k cfg) gid g k s"
  by (simp add: HTTPSGroup_Listen_def base_Listen_def mux_check_def Let_def split: prod.splits sum.splits)

section \<open>Properties\<close>

text \<open>A controller with one group of one listener, used to instantiate the properties.\<close>

definition demo_tcp_env :: tcp_env where
  "demo_tcp_env = \<lparr>te_net = net_without {}, te_order = [], te_now = 0, te_listen = True\<rparr>"

definition demo_tcp_ops :: "tcp_op list" where
  "demo_tcp_ops = [TCreate ''g'', TListen demo_tcp_env ''a'' ''g'' ''k'' ''0.0.0.0'' 6000 0]"

definition demo_tcp_group :: tcp_ctl where
  "demo_tcp_group = fold tcp_step demo_tcp_ops (NewTCPGroupCtl two_ports)"

lemmas tcp_group_eval = demo_tcp_ops_def demo_tcp_env_def getOrCreate_def NewTCPGroupCtl_def newGroupRegistry_def
  TCPGroup_Listen_def isCurrent_def initBase_def newListener_def NewTCPGroup_def Let_def

lemma demo_tcp_ops_ok: "tcp_ops_ok demo_tcp_ops (NewTCPGroupCtl two_ports)"
  by (simp add: os_ok_def tcp_group_eval port_eval)

lemma demo_tcp_group_ok:
  "tcp_inv demo_tcp_group" "gc_next demo_tcp_group = 1"
  "bg_lns (gc_store demo_tcp_group 0) = [0]" "bg_group (gc_store demo_tcp_group 0) = ''g''"
proof -
  show "tcp_inv demo_tcp_group"
    unfolding demo_tcp_group_def using demo_tcp_ops_ok
    by (intro tcp_run_inv NewTCPGroupCtl_inv) (simp_all add: two_ports_def NewPortManager_inv)
qed (simp_all add: demo_tcp_group_def tcp_group_eval port_eval)

text \<open>TCP groups and their ports. Whatever the proxies do concurrently (looking groups up,
  listening on possibly stale groups, closing listeners), a group that has listeners is
  the one registered under its name, its port is in use at the port manager, and two
  different groups never share a port.\<close>

theorem tcp_groups_hold_ports:
  fixes nt ba :: string and ps :: "PortsRange list"
  defines "s0 \<equiv> NewTCPGroupCtl (NewPortManager nt ba ps)"
  assumes ok: "tcp_ops_ok xs s0"
  defines "s \<equiv> fold tcp_step xs s0"
  shows "(\<forall>g. bg_lns (gc_store s g) \<noteq> [] \<longrightarrow>
            gc_groups s (bg_group (gc_store s g)) = Some g
          \<and> (\<exists>p. bg_realLn (gc_store s g) = Some p \<and> p \<in> dom (usedPorts (gc_shared s))))
       \<and> (\<forall>g g'. bg_lns (gc_store s g) \<noteq> [] \<and> bg_lns (gc_store s g') \<noteq> [] \<and> g \<noteq> g' \<longrightarrow>
            bg_realLn (gc_store s g) \<noteq> bg_realLn (gc_store s g'))"
proof -
  have inv: "tcp_inv s"
    unfolding s_def s0_def using ok by (intro tcp_run_inv NewTCPGroupCtl_inv NewPortManager_inv) (simp add: s0_def)
  note D = group_invD [OF inv]
  have "bg_realLn (gc_store s g) \<noteq> bg_realLn (gc_store s g')"
    if "bg_lns (gc_store s g) \<noteq> []" "bg_lns (gc_store s g') \<noteq> []" "g \<noteq> g'" for g g'
    using D(4) [OF that(1)] D(5) [OF that(1,2)] that(3) by metis
  with D(3,4) show ?thesis by blast
qed

theorem tcp_groups_hold_ports_witness:
  "gc_groups demo_tcp_group ''g'' = Some 0
   \<and> (\<exists>p. bg_realLn (gc_store demo_tcp_group 0) = Some p \<and> p \<in> dom (usedPorts (gc_shared demo_tcp_group)))"
proof -
  have "bg_lns (gc_store demo_tcp_group 0) \<noteq> []" using demo_tcp_group_ok(3) by simp
  with tcp_groups_hold_ports [OF demo_tcp_ops_ok [unfolded two_ports_def]] show ?thesis
    unfolding demo_tcp_group_def [symmetric, unfolded two_ports_def] using demo_tcp_group_ok(4) by metis
qed

text \<open>Closing the listeners of a TCP group. Closing one of several leaves the registry and
  the port manager untouched; closing the last one removes the group from the registry and
  gives exactly its port back; closing a listener twice does nothing.\<close>

theorem tcp_group_close:
  fixes now :: int
  assumes inv: "tcp_inv s" and l: "l \<in> set (bg_lns (gc_store s gid))"
  defines "s' \<equiv> TCPGroup_Close now \<lparr>vl_group = gid, vl_id = l\<rparr> s"
  shows "(bg_lns (gc_store s gid) \<noteq> [l] \<longrightarrow> gc_shared s' = gc_shared s \<and> gc_groups s' = gc_groups s
            \<and> bg_lns (gc_store s' gid) = remove1 l (bg_lns (gc_store s gid)))
       \<and> (bg_lns (gc_store s gid) = [l] \<longrightarrow>
            gc_groups s' = (gc_groups s)(bg_group (gc_store s gid) := None)
          \<and> (\<exists>p. bg_realLn (gc_store s gid) = Some p
               \<and> dom (usedPorts (gc_shared s')) = dom (usedPorts (gc_shared s)) - {p}))
       \<and> TCPGroup_Close now \<lparr>vl_group = gid, vl_id = l\<rparr> s' = s'
       \<and> tcp_inv s'"
proof -
  have cl: "l \<in> gc_closed s'"
    using group_invD(7) [OF inv l]
    by (simp add: s'_def TCPGroup_Close_def vlistener_Close_def closeListener_def removeIf_def Let_def split: option.split)
  then have twice: "TCPGroup_Close now \<lparr>vl_group = gid, vl_id = l\<rparr> s' = s'"
    by (simp add: TCPGroup_Close_def vlistener_Close_def)
  show ?thesis
  proof (cases "bg_lns (gc_store s gid) = [l]")
    case True
    from tcp.close_last [OF inv this, of now] twice True show ?thesis
      unfolding s'_def TCPGroup_Close_def by blast
  next
    case False
    from tcp.close_not_last [OF inv l this, of now] twice False show ?thesis
      unfolding s'_def TCPGroup_Close_def by blast
  qed
qed

theorem tcp_group_close_witness:
  "gc_groups (TCPGroup_Close 5 \<lparr>vl_group = 0, vl_id = 0\<rparr> demo_tcp_group)
     = (gc_groups demo_tcp_group)(bg_group (gc_store demo_tcp_group 0) := None)"
  using tcp_group_close [OF demo_tcp_group_ok(1), where gid = 0 and l = 0 and now = 5] demo_tcp_group_ok(3) by simp

text \<open>The key of a TCP group. While a group has listeners, no step of any proxy changes its
  key, address, port or real port, and a listener joins it only with the same key, address
  and port.\<close>

theorem tcp_group_key:
  fixes x :: tcp_op
  assumes "bg_lns (gc_store s gid) \<noteq> []" and "gid < gc_next s"
    and "\<forall>k g. gc_groups s k = Some g \<longrightarrow> g < gc_next s"
  defines "tg \<equiv> gc_store s gid" and "tg' \<equiv> gc_store (tcp_step x s) gid"
  shows "bg_groupKey tg' = bg_groupKey tg \<and> bg_params tg' = bg_params tg \<and> bg_realLn tg' = bg_realLn tg
       \<and> (\<forall>env name g k addr port. x = TListen env name g k addr port gid
             \<and> bg_lns tg' \<noteq> bg_lns tg \<longrightarrow>
            k = bg_groupKey tg \<and> addr = tg_addr (bg_params tg) \<and> port = tg_port (bg_params tg))"
proof (cases x)
  case (TCreate g)
  then show ?thesis using assms(2)
    by (auto simp: tg_def tg'_def getOrCreate_def Let_def split: option.split)
next
  case (TListen env name g k addr port gid')
  show ?thesis
  proof (cases "gid' = gid")
    case True
    with TListen assms(1) show ?thesis
      by (auto simp: tg_def tg'_def TCPGroup_Listen_base base_Listen_def newListener_def Let_def
          split: prod.splits option.splits if_splits)
  next
    case False
    have "gc_store (snd (base_Listen opn chk gid' g k s)) gid = gc_store s gid" for opn chk
      using False by (auto simp: base_Listen_def newListener_def Let_def split: prod.splits sum.splits option.splits)
    with TListen False show ?thesis
      by (simp add: tg_def tg'_def TCPGroup_Listen_base Let_def case_prod_beta)
  qed
next
  case (TClose now ln)
  then show ?thesis
    by (auto simp: tg_def tg'_def TCPGroup_Close_def vlistener_Close_def closeListener_def removeIf_def Let_def
        split: option.split)
qed

theorem tcp_group_key_witness:
  "bg_groupKey (gc_store (tcp_step (TListen demo_tcp_env ''b'' ''g'' ''wrong'' ''0.0.0.0'' 6000 0) demo_tcp_group) 0)
   = bg_groupKey (gc_store demo_tcp_group 0)"
proof -
  note inv = demo_tcp_group_ok(1)
  have ne: "bg_lns (gc_store demo_tcp_group 0) \<noteq> []" using demo_tcp_group_ok(3) by simp
  have "0 < gc_next demo_tcp_group" using demo_tcp_group_ok(2) by simp
  from tcp_group_key [OF ne this, where x = "TListen demo_tcp_env ''b'' ''g'' ''wrong'' ''0.0.0.0'' 6000 0"]
    group_invD(2) [OF inv] show ?thesis by blast
qed

text \<open>The \<open>Listen\<close> of the TCP group controller returns. However the other proxies interfere
  between the lookup of the group and its \<open>Listen\<close>, the retry loop ends in the first round in
  which they do not touch the group's registry entry, and it never returns the internal
  error for a stale group.\<close>

theorem TCPGroupCtl_Listen_returns:
  assumes "quiet \<in> set others" and "\<And>t. gc_groups (quiet t) grp = gc_groups t grp"
  shows "\<exists>res s'. TCPGroupCtl_Listen others env name grp k addr port s = Some (res, s')
           \<and> res \<noteq> err errGroupStale"
proof -
  have "fst (TCPGroup_Listen env name grp k addr port gid t) \<noteq> err errGroupStale"
    if "isCurrent grp (\<lambda>cur. cur = gid) t" for gid t
  proof -
    have "fst (base_Listen (tcp_open (env, name, addr, port)) (tcp_check grp k addr port) gid grp k t) \<noteq> err errGroupStale"
      using that tcp_check_facts(2) by (rule tcp.base_Listen_not_stale)
    then show ?thesis
      by (auto simp: TCPGroup_Listen_base Let_def case_prod_beta map_sum_def split: sum.splits)
  qed
  from ctl_loop_returns [OF this assms] show ?thesis
    unfolding TCPGroupCtl_Listen_def by force
qed

theorem TCPGroupCtl_Listen_returns_witness:
  "\<exists>res s'. TCPGroupCtl_Listen [TCPGroup_Close 1 \<lparr>vl_group = 0, vl_id = 0\<rparr>, id] demo_tcp_env ''b'' ''g'' ''k'' ''0.0.0.0'' 6000 demo_tcp_group
     = Some (res, s') \<and> res \<noteq> err errGroupStale"
  by (rule TCPGroupCtl_Listen_returns [of id]) simp_all

text \<open>HTTPS and TCP multiplexer groups. Listening on such a group and closing its listeners
  keep the invariant that a group with listeners is registered under its name and that its
  real listener is an open listener that the multiplexer routes to; two groups never share
  one.\<close>

theorem mux_groups_hold_routes:
  fixes s :: tcpmux_ctl and t :: https_ctl
  assumes s: "group_inv mux_inv mux_held s" and t: "group_inv mux_inv mux_held t"
  shows "group_inv mux_inv mux_held (snd (HTTPConnectListen g k cfg gid s))
       \<and> group_inv mux_inv mux_held (snd (HTTPSGroup_Listen g k cfg gid t))
       \<and> (l \<in> set (bg_lns (gc_store s gid)) \<longrightarrow>
            group_inv mux_inv mux_held (MuxGroup_Close now \<lparr>vl_group = gid, vl_id = l\<rparr> s))
       \<and> (l \<in> set (bg_lns (gc_store t gid)) \<longrightarrow>
            group_inv mux_inv mux_held (MuxGroup_Close now \<lparr>vl_group = gid, vl_id = l\<rparr> t))
       \<and> (bg_lns (gc_store t gid) \<noteq> [] \<longrightarrow>
            (\<exists>r. bg_realLn (gc_store t gid) = Some r \<and> l_id r \<notin> closed_listeners (gc_shared t)
               \<and> routes (registryRouter (gc_shared t)) (listener_key r) = Some r))"
proof (intro conjI impI)
  show "group_inv mux_inv mux_held (snd (HTTPConnectListen g k cfg gid s))"
    unfolding HTTPConnectListen_base by (rule mux.base_Listen_inv [OF s]) (simp_all add: mux_check_facts)
  show "group_inv mux_inv mux_held (snd (HTTPSGroup_Listen g k cfg gid t))"
    unfolding HTTPSGroup_Listen_base by (rule mux.base_Listen_inv [OF t]) (simp_all add: mux_check_facts)
  show "group_inv mux_inv mux_held (MuxGroup_Close now \<lparr>vl_group = gid, vl_id = l\<rparr> s)"
    if "l \<in> set (bg_lns (gc_store s gid))"
    unfolding MuxGroup_Close_def using that by (intro mux.vlistener_Close_inv [OF s]) simp
  show "group_inv mux_inv mux_held (MuxGroup_Close now \<lparr>vl_group = gid, vl_id = l\<rparr> t)"
    if "l \<in> set (bg_lns (gc_store t gid))"
    unfolding MuxGroup_Close_def using that by (intro mux.vlistener_Close_inv [OF t]) simp
  assume "bg_lns (gc_store t gid) \<noteq> []"
  from group_invD(4) [OF t this] obtain r q where r: "bg_realLn (gc_store t gid) = Some r"
    "routes (registryRouter (gc_shared t)) q = Some r" by (auto simp: mux_held_def ran_def)
  with mux_invD(2) [OF group_invD(1) [OF t] r(2)]
  show "\<exists>r. bg_realLn (gc_store t gid) = Some r \<and> l_id r \<notin> closed_listeners (gc_shared t)
          \<and> routes (registryRouter (gc_shared t)) (listener_key r) = Some r" by auto
qed

theorem mux_groups_hold_routes_witness:
  "group_inv mux_inv mux_held (snd (HTTPSGroup_Listen ''g'' ''k'' (demo_cfg ''ex.com'') 0
     (snd (getOrCreate ''g'' NewHTTPSGroup (NewHTTPSGroupController NewMuxer)))))"
proof -
  have t0: "group_inv mux_inv mux_held (NewHTTPSGroupController NewMuxer)"
    by (simp add: group_inv_def NewHTTPSGroupController_def newGroupRegistry_def NewHTTPSGroup_def NewMuxer_inv)
  have s0: "group_inv mux_inv mux_held (NewTCPMuxGroupCtl NewMuxer)"
    by (simp add: group_inv_def NewTCPMuxGroupCtl_def newGroupRegistry_def NewTCPMuxGroup_def NewMuxer_inv)
  have t: "group_inv mux_inv mux_held (snd (getOrCreate ''g'' NewHTTPSGroup (NewHTTPSGroupController NewMuxer)))"
    by (rule getOrCreate_group_inv [OF t0]) (simp add: NewHTTPSGroup_def)
  from mux_groups_hold_routes [OF s0 t] show ?thesis by blast
qed

end
