(* ===== verification/Http_Group.thy ===== *)
theory Http_Group
  imports Group_Base "HOL-Library.Word"
begin

text \<open>
  HTTP groups, \<^verbatim>\<open>server/group/http.go\<close>: the members of a group share one route, and requests
  are spread over them by a 64-bit counter. Connection functions are opaque values of type
  \<open>'f\<close>; the route's payload says whether it belongs to a group (the closures of the source are
  bound to the group, here its number) or to a single proxy.
\<close>

section \<open>Data and operations\<close>

datatype 'f http_route = GroupRoute nat RouteConfig | PlainRoute RouteConfig 'f

record 'f HTTPGroup =
  hg_group :: string
  hg_groupKey :: string
  hg_domain :: string
  hg_location :: string
  hg_routeByHTTPUser :: string
  hg_createFuncs :: "(string \<times> 'f) list"
  hg_pxyNames :: "string list"
  hg_index :: "64 word"

type_synonym 'f http_ctl = "('f HTTPGroup, 'f http_route Routers) group_ctl"

definition NewHTTPGroup :: "'f HTTPGroup" where
  "NewHTTPGroup = \<lparr>hg_group = [], hg_groupKey = [], hg_domain = [], hg_location = [], hg_routeByHTTPUser = [],
     hg_createFuncs = [], hg_pxyNames = [], hg_index = 0\<rparr>"

definition NewHTTPGroupController :: "'f http_route Routers \<Rightarrow> 'f http_ctl" where
  "NewHTTPGroupController r = newGroupRegistry NewHTTPGroup r"

text \<open>The second half of \<open>Register\<close>, after the group's parameters are settled.\<close>

definition add_member :: "string \<Rightarrow> 'f \<Rightarrow> nat \<Rightarrow> 'f http_ctl \<Rightarrow> (group_error, unit) result \<times> 'f http_ctl" where
  "add_member proxyName createConnFn gid s =
     (let g = gc_store s gid in
      if map_of (hg_createFuncs g) proxyName \<noteq> None then (err ErrProxyRepeated, s)
      else (ok (), s\<lparr>gc_store := (gc_store s)(gid :=
              g\<lparr>hg_createFuncs := (proxyName, createConnFn) # hg_createFuncs g,
                hg_pxyNames := hg_pxyNames g @ [proxyName]\<rparr>)\<rparr>))"

definition HTTPGroup_Register ::
  "string \<Rightarrow> string \<Rightarrow> string \<Rightarrow> RouteConfig \<Rightarrow> 'f \<Rightarrow> nat \<Rightarrow> 'f http_ctl
   \<Rightarrow> (group_error, unit) result \<times> 'f http_ctl" where
  "HTTPGroup_Register proxyName grp groupKey routeConfig createConnFn gid s =
     (if \<not> isCurrent grp (\<lambda>cur. cur = gid) s then (err errGroupStale, s)
      else
        let g = gc_store s gid in
        if hg_createFuncs g = [] then
          (case Add (rc_Domain routeConfig) (rc_Location routeConfig) (rc_RouteByHTTPUser routeConfig)
                  (GroupRoute gid routeConfig) (gc_shared s) of
             (Inl e, r) \<Rightarrow> (err (RouteErr e), s\<lparr>gc_shared := r\<rparr>)
           | (Inr _, r) \<Rightarrow>
               add_member proxyName createConnFn gid
                 (s\<lparr>gc_shared := r,
                    gc_store := (gc_store s)(gid :=
                      g\<lparr>hg_group := grp, hg_groupKey := groupKey, hg_domain := rc_Domain routeConfig,
                        hg_location := rc_Location routeConfig,
                        hg_routeByHTTPUser := rc_RouteByHTTPUser routeConfig\<rparr>)\<rparr>))
        else if hg_group g \<noteq> grp \<or> hg_domain g \<noteq> rc_Domain routeConfig
              \<or> hg_location g \<noteq> rc_Location routeConfig \<or> hg_routeByHTTPUser g \<noteq> rc_RouteByHTTPUser routeConfig
        then (err ErrGroupParamsInvalid, s)
        else if hg_groupKey g \<noteq> groupKey then (err ErrGroupAuthFailed, s)
        else add_member proxyName createConnFn gid s)"

definition HTTPGroupController_Register ::
  "('f http_ctl \<Rightarrow> 'f http_ctl) list \<Rightarrow> string \<Rightarrow> string \<Rightarrow> string \<Rightarrow> RouteConfig \<Rightarrow> 'f \<Rightarrow> 'f http_ctl
   \<Rightarrow> ((group_error, unit) result \<times> 'f http_ctl) option" where
  "HTTPGroupController_Register others proxyName grp groupKey routeConfig createConnFn s =
     ctl_loop grp NewHTTPGroup (HTTPGroup_Register proxyName grp groupKey routeConfig createConnFn) others s"

definition HTTPGroup_UnRegister :: "string \<Rightarrow> nat \<Rightarrow> 'f http_ctl \<Rightarrow> 'f http_ctl" where
  "HTTPGroup_UnRegister proxyName gid s =
     (let g = gc_store s gid;
          g1 = g\<lparr>hg_createFuncs := map_delete proxyName (hg_createFuncs g),
                 hg_pxyNames := remove1 proxyName (hg_pxyNames g)\<rparr>;
          s1 = s\<lparr>gc_store := (gc_store s)(gid := g1)\<rparr>
      in if hg_createFuncs g1 = [] then
           removeIf (hg_group g1) (\<lambda>cur. cur = gid)
             (s1\<lparr>gc_shared := Del (hg_domain g1) (hg_location g1) (hg_routeByHTTPUser g1) (gc_shared s1)\<rparr>)
         else s1)"

definition HTTPGroupController_UnRegister :: "string \<Rightarrow> string \<Rightarrow> 'f http_ctl \<Rightarrow> 'f http_ctl" where
  "HTTPGroupController_UnRegister proxyName grp s =
     (case group_get grp s of None \<Rightarrow> s | Some gid \<Rightarrow> HTTPGroup_UnRegister proxyName gid s)"

text \<open>The member at a position of the round robin.\<close>

definition pick :: "64 word \<Rightarrow> string list \<Rightarrow> string" where
  "pick newIndex names = names ! unat (newIndex mod word_of_nat (length names))"

definition createConn :: "'f HTTPGroup \<Rightarrow> 'f option \<times> 'f HTTPGroup" where
  "createConn g =
     (let newIndex = hg_index g + 1 in
      (if hg_pxyNames g \<noteq> [] then map_of (hg_createFuncs g) (pick newIndex (hg_pxyNames g)) else None,
       g\<lparr>hg_index := newIndex\<rparr>))"

definition chooseEndpoint :: "'f HTTPGroup \<Rightarrow> string option \<times> 'f HTTPGroup" where
  "chooseEndpoint g =
     (let newIndex = hg_index g + 1;
          name = (if hg_pxyNames g \<noteq> [] then pick newIndex (hg_pxyNames g) else [])
      in (if name = [] then None else Some name, g\<lparr>hg_index := newIndex\<rparr>))"

definition createConnByEndpoint :: "string \<Rightarrow> 'f HTTPGroup \<Rightarrow> 'f option" where
  "createConnByEndpoint endpoint g = map_of (hg_createFuncs g) endpoint"

section \<open>Invariant\<close>

definition members_ok :: "'f HTTPGroup \<Rightarrow> bool" where
  "members_ok g \<longleftrightarrow> distinct (hg_pxyNames g) \<and> set (hg_pxyNames g) = dom (map_of (hg_createFuncs g))"

definition route_key :: "'f HTTPGroup \<Rightarrow> string \<times> string \<times> string" where
  "route_key g = (to_lower (hg_domain g), hg_location g, hg_routeByHTTPUser g)"

definition http_inv :: "'f http_ctl \<Rightarrow> bool" where
  "http_inv s \<longleftrightarrow>
     routers_inv (gc_shared s)
   \<and> (\<forall>k g. gc_groups s k = Some g \<longrightarrow> g < gc_next s)
   \<and> (\<forall>g. members_ok (gc_store s g))
   \<and> (\<forall>g. hg_pxyNames (gc_store s g) \<noteq> [] \<longrightarrow>
        gc_groups s (hg_group (gc_store s g)) = Some g
      \<and> (\<exists>cfg. routes (gc_shared s) (route_key (gc_store s g)) = Some (GroupRoute g cfg)))
   \<and> (\<forall>k g cfg. routes (gc_shared s) k = Some (GroupRoute g cfg) \<longrightarrow>
        hg_pxyNames (gc_store s g) \<noteq> [] \<and> k = route_key (gc_store s g))"

lemma http_invD:
  assumes "http_inv s"
  shows "routers_inv (gc_shared s)" and "gc_groups s k = Some g \<Longrightarrow> g < gc_next s"
    and "members_ok (gc_store s g)"
    and "hg_pxyNames (gc_store s g) \<noteq> [] \<Longrightarrow> gc_groups s (hg_group (gc_store s g)) = Some g"
    and "hg_pxyNames (gc_store s g) \<noteq> [] \<Longrightarrow> \<exists>cfg. routes (gc_shared s) (route_key (gc_store s g)) = Some (GroupRoute g cfg)"
    and "routes (gc_shared s) key = Some (GroupRoute g cfg) \<Longrightarrow>
      hg_pxyNames (gc_store s g) \<noteq> [] \<and> key = route_key (gc_store s g)"
  using assms unfolding http_inv_def by blast+

lemma http_invI:
  assumes "routers_inv (gc_shared s)" and "\<And>k g. gc_groups s k = Some g \<Longrightarrow> g < gc_next s"
    and "\<And>g. members_ok (gc_store s g)"
    and "\<And>g. hg_pxyNames (gc_store s g) \<noteq> [] \<Longrightarrow> gc_groups s (hg_group (gc_store s g)) = Some g"
    and "\<And>g. hg_pxyNames (gc_store s g) \<noteq> [] \<Longrightarrow> \<exists>cfg. routes (gc_shared s) (route_key (gc_store s g)) = Some (GroupRoute g cfg)"
    and "\<And>key g cfg. routes (gc_shared s) key = Some (GroupRoute g cfg) \<Longrightarrow>
      hg_pxyNames (gc_store s g) \<noteq> [] \<and> key = route_key (gc_store s g)"
  shows "http_inv s"
  unfolding http_inv_def using assms by blast

lemma members_empty_iff: "members_ok g \<Longrightarrow> hg_createFuncs g = [] \<longleftrightarrow> hg_pxyNames g = []"
  by (metis dom_map_of_conv_image_fst empty_is_image members_ok_def set_empty)

lemma members_ok_add:
  "members_ok g \<Longrightarrow> map_of (hg_createFuncs g) n = None \<Longrightarrow>
   members_ok (g\<lparr>hg_createFuncs := (n, f) # hg_createFuncs g, hg_pxyNames := hg_pxyNames g @ [n]\<rparr>)"
  by (auto simp: members_ok_def)

lemma members_ok_remove:
  "members_ok g \<Longrightarrow> members_ok (g\<lparr>hg_createFuncs := map_delete n (hg_createFuncs g), hg_pxyNames := remove1 n (hg_pxyNames g)\<rparr>)"
  by (simp add: members_ok_def map_of_map_delete distinct_remove1)

lemma add_member_fst: "fst (add_member n f gid s) \<noteq> err errGroupStale"
  by (simp add: add_member_def Let_def)

lemma Register_not_stale:
  "isCurrent grp (\<lambda>cur. cur = gid) s \<Longrightarrow> fst (HTTPGroup_Register n grp k cfg f gid s) \<noteq> err errGroupStale"
  by (auto simp: HTTPGroup_Register_def Let_def add_member_fst split: prod.split sum.split)

lemma getOrCreate_http_inv [inv_rules]:
  assumes inv: "http_inv s"
  shows "http_inv (snd (getOrCreate grp NewHTTPGroup s))"
proof (cases rule: getOrCreate_cases [of s grp NewHTTPGroup])
  case fresh
  note D = http_invD [OF inv]
  let ?n = "gc_next s"
  have empty: "hg_pxyNames (gc_store s ?n) = []" using D(2,4) by blast
  have store: "hg_pxyNames (((gc_store s)(?n := NewHTTPGroup)) g) \<noteq> [] \<longleftrightarrow> hg_pxyNames (gc_store s g) \<noteq> []" for g
    using empty by (simp add: NewHTTPGroup_def)
  have ne: "hg_pxyNames (gc_store s g) \<noteq> [] \<Longrightarrow> g \<noteq> ?n" for g using empty by blast
  show ?thesis unfolding fresh(2) snd_conv
  proof (rule http_invI, goal_cases)
    case (2 k g)
    then show ?case using D(2) [of k g] by (auto simp: less_Suc_eq split: if_splits)
  next
    case (3 g)
    then show ?case using D(3) [of g] by (simp add: members_ok_def NewHTTPGroup_def)
  next
    case (4 g)
    then have "hg_pxyNames (gc_store s g) \<noteq> []" using store by simp
    with D(4) ne fresh(1) show ?case by fastforce
  next
    case (5 g)
    then have "hg_pxyNames (gc_store s g) \<noteq> []" using store by simp
    with D(5) ne show ?case by simp
  next
    case (6 key g cfg)
    then show ?case using D(6) [of key g cfg] store ne by simp
  qed (use D(1) in simp)
qed (simp add: inv)

text \<open>A member joins a group that has members.\<close>

lemma add_member_inv:
  assumes inv: "http_inv s" and ne: "hg_pxyNames (gc_store s gid) \<noteq> []"
  shows "http_inv (snd (add_member n f gid s))"
proof (cases "map_of (hg_createFuncs (gc_store s gid)) n")
  case None
  note D = http_invD [OF inv]
  define g1 where "g1 = (gc_store s gid)\<lparr>hg_createFuncs := (n, f) # hg_createFuncs (gc_store s gid),
             hg_pxyNames := hg_pxyNames (gc_store s gid) @ [n]\<rparr>"
  have ok1: "members_ok g1" unfolding g1_def by (rule members_ok_add [OF D(3) None])
  have s': "snd (add_member n f gid s) = s\<lparr>gc_store := (gc_store s)(gid := g1)\<rparr>"
    using None by (simp add: add_member_def Let_def g1_def)
  have key: "route_key g1 = route_key (gc_store s gid)" "hg_group g1 = hg_group (gc_store s gid)" "hg_pxyNames g1 \<noteq> []"
    by (simp_all add: g1_def route_key_def)
  show ?thesis unfolding s'
  proof (rule http_invI, goal_cases)
    case (3 g)
    then show ?case using D(3) [of g] ok1 by simp
  next
    case (4 g)
    then show ?case using D(4) [of g] D(4) [OF ne] key by (cases "g = gid") simp_all
  next
    case (5 g)
    then show ?case using D(5) [of g] D(5) [OF ne] key by (cases "g = gid") simp_all
  next
    case (6 k g cfg)
    then show ?case using D(6) [of k g cfg] key by (cases "g = gid") simp_all
  qed (use D(1,2) in auto)
qed (simp add: add_member_def inv)

lemma first_member_inv:
  assumes inv: "http_inv s" and cur: "gc_groups s grp = Some gid" and empty: "hg_pxyNames (gc_store s gid) = []"
    and free: "routes (gc_shared s) (to_lower (rc_Domain cfg), rc_Location cfg, rc_RouteByHTTPUser cfg) = None"
    and g: "hg_group g = grp" "route_key g = (to_lower (rc_Domain cfg), rc_Location cfg, rc_RouteByHTTPUser cfg)"
      "members_ok g" "hg_pxyNames g \<noteq> []"
    and r: "routers_inv r" "routes r = (routes (gc_shared s))(route_key g \<mapsto> GroupRoute gid cfg)"
  shows "http_inv (s\<lparr>gc_shared := r, gc_store := (gc_store s)(gid := g)\<rparr>)"
proof (rule http_invI, goal_cases)
  note D = http_invD [OF inv]
  {
    case (2 k g)
    then show ?case using D(2) by simp
  next
    case (3 g')
    then show ?case using D(3) [of g'] g by simp
  next
    case (4 g')
    then show ?case using D(4) [of g'] g cur by (cases "g' = gid") auto
  next
    case (5 g')
    then show ?case using D(5) [of g'] g r free by (cases "g' = gid") auto
  next
    case (6 k g' cfg')
    then show ?case using D(6) [of k g' cfg'] g r(2) empty
      by (cases "k = route_key g"; cases "g' = gid") (auto split: if_splits)
  }
qed (use r in simp)

lemma HTTPGroup_Register_inv [inv_rules]:
  assumes inv: "http_inv s"
  shows "http_inv (snd (HTTPGroup_Register n grp k cfg f gid s))"
proof (cases "gc_groups s grp = Some gid")
  case cur: True
  note D = http_invD [OF inv]
  let ?key = "(to_lower (rc_Domain cfg), rc_Location cfg, rc_RouteByHTTPUser cfg)"
  show ?thesis
  proof (cases "hg_createFuncs (gc_store s gid) = []")
    case empty: True
    then have en: "hg_pxyNames (gc_store s gid) = []" using members_empty_iff D(3) by blast
    show ?thesis
    proof (cases "routes (gc_shared s) ?key")
      case None
      define g where "g = (gc_store s gid)\<lparr>hg_group := grp, hg_groupKey := k, hg_domain := rc_Domain cfg,
        hg_location := rc_Location cfg, hg_routeByHTTPUser := rc_RouteByHTTPUser cfg,
        hg_createFuncs := [(n, f)], hg_pxyNames := [n]\<rparr>"
      define r where "r = snd (Add (rc_Domain cfg) (rc_Location cfg) (rc_RouteByHTTPUser cfg) (GroupRoute gid cfg) (gc_shared s))"
      have A: "Add (rc_Domain cfg) (rc_Location cfg) (rc_RouteByHTTPUser cfg) (GroupRoute gid cfg) (gc_shared s) = (ok (), r)"
        using vr.add_new [OF D(1) None] by (simp add: r_def prod_eq_iff)
      have "snd (HTTPGroup_Register n grp k cfg f gid s) = s\<lparr>gc_shared := r, gc_store := (gc_store s)(gid := g)\<rparr>"
        using cur empty en A by (simp add: HTTPGroup_Register_def isCurrent_iff add_member_def g_def Let_def)
      moreover have "http_inv (s\<lparr>gc_shared := r, gc_store := (gc_store s)(gid := g)\<rparr>)"
        using inv cur en None
      proof (rule first_member_inv)
        show "routers_inv r" by (simp add: r_def Add_inv D(1))
        show "routes r = (routes (gc_shared s))(route_key g \<mapsto> GroupRoute gid cfg)"
          using vr.add_new [OF D(1) None] by (simp add: r_def g_def route_key_def)
      qed (simp_all add: g_def route_key_def members_ok_def)
      ultimately show ?thesis by simp
    next
      case (Some q)
      then have "Add (rc_Domain cfg) (rc_Location cfg) (rc_RouteByHTTPUser cfg) (GroupRoute gid cfg) (gc_shared s)
          = (err ErrRouterConfigConflict, gc_shared s)" by (intro vr.add_taken) simp
      with cur empty inv show ?thesis by (simp add: HTTPGroup_Register_def isCurrent_iff)
    qed
  next
    case False
    then have "hg_pxyNames (gc_store s gid) \<noteq> []" using members_empty_iff D(3) by blast
    with False cur inv add_member_inv [OF inv this] show ?thesis
      by (simp add: HTTPGroup_Register_def isCurrent_iff Let_def)
  qed
qed (simp add: HTTPGroup_Register_def isCurrent_iff inv)

lemma UnRegister_inv [inv_rules]:
  assumes inv: "http_inv s" and mem: "n \<in> set (hg_pxyNames (gc_store s gid))"
  shows "http_inv (HTTPGroup_UnRegister n gid s)"
proof -
  note D = http_invD [OF inv]
  define g1 where "g1 = (gc_store s gid)\<lparr>hg_createFuncs := map_delete n (hg_createFuncs (gc_store s gid)),
                 hg_pxyNames := remove1 n (hg_pxyNames (gc_store s gid))\<rparr>"
  have ok1: "members_ok g1" unfolding g1_def by (rule members_ok_remove [OF D(3)])
  have key: "route_key g1 = route_key (gc_store s gid)" "hg_group g1 = hg_group (gc_store s gid)"
    by (simp_all add: g1_def route_key_def)
  have ne: "hg_pxyNames (gc_store s gid) \<noteq> []" using mem by auto
  obtain cfg0 where own: "routes (gc_shared s) (route_key (gc_store s gid)) = Some (GroupRoute gid cfg0)" using D(5) [OF ne] by blast
  note st = group_ctl.simps fun_upd_apply
  show ?thesis
  proof (cases "hg_pxyNames g1 = []")
    case False
    then have s': "HTTPGroup_UnRegister n gid s = s\<lparr>gc_store := (gc_store s)(gid := g1)\<rparr>"
      using members_empty_iff [OF ok1] by (simp add: HTTPGroup_UnRegister_def Let_def g1_def)
    show ?thesis unfolding s'
    proof (rule http_invI, goal_cases)
      case (3 g)
      then show ?case using D(3) [of g] ok1 by simp
    next
      case (4 g)
      then show ?case using D(4) [of g] D(4) [OF ne] key by (cases "g = gid") (simp_all add: st)
    next
      case (5 g)
      then show ?case using D(5) [of g] D(5) [OF ne] key by (cases "g = gid") (simp_all add: st)
    next
      case (6 k g cfg)
      then show ?case using D(6) [of k g cfg] False key by (cases "g = gid") (simp_all add: st)
    qed (use D(1,2) in auto)
  next
    case True
    let ?r = "Del (hg_domain (gc_store s gid)) (hg_location (gc_store s gid)) (hg_routeByHTTPUser (gc_store s gid)) (gc_shared s)"
    have r: "routes ?r = (routes (gc_shared s))(route_key (gc_store s gid) := None)"
      using vr.del_abs [OF D(1)] by (simp add: route_key_def)
    have s': "HTTPGroup_UnRegister n gid s = s\<lparr>gc_store := (gc_store s)(gid := g1), gc_shared := ?r,
        gc_groups := (gc_groups s)(hg_group (gc_store s gid) := None)\<rparr>"
      using members_empty_iff [OF ok1] True D(4) [OF ne]
      by (simp add: HTTPGroup_UnRegister_def Let_def g1_def removeIf_def)
    have other: "hg_group (gc_store s g) \<noteq> hg_group (gc_store s gid)" "route_key (gc_store s g) \<noteq> route_key (gc_store s gid)"
      if "hg_pxyNames (gc_store s g) \<noteq> []" "g \<noteq> gid" for g
    proof -
      show "hg_group (gc_store s g) \<noteq> hg_group (gc_store s gid)" using D(4) [OF that(1)] D(4) [OF ne] that(2) by auto
      show "route_key (gc_store s g) \<noteq> route_key (gc_store s gid)" using D(5) [OF that(1)] own that(2) by auto
    qed
    show ?thesis unfolding s'
    proof (rule http_invI, goal_cases)
      case 1
      then show ?case using Del_inv [OF D(1)] by simp
    next
      case (2 k g)
      then show ?case using D(2) [of k g] by (simp split: if_splits)
    next
      case (3 g)
      then show ?case using D(3) [of g] ok1 by simp
    next
      case (4 g)
      then have "g \<noteq> gid" "hg_pxyNames (gc_store s g) \<noteq> []" using True by (simp_all add: st split: if_splits)
      with D(4) [of g] other show ?case by (simp add: st)
    next
      case (5 g)
      then have "g \<noteq> gid" "hg_pxyNames (gc_store s g) \<noteq> []" using True by (simp_all add: st split: if_splits)
      with D(5) [of g] other r show ?case by (simp add: st)
    next
      case (6 k g cfg)
      then have k: "k \<noteq> route_key (gc_store s gid)" "routes (gc_shared s) k = Some (GroupRoute g cfg)"
        by (simp_all add: r split: if_splits)
      with D(6) [OF k(2)] have "g \<noteq> gid" by blast
      with D(6) [OF k(2)] show ?case by (simp add: st)
    qed
  qed
qed

section \<open>Round robin\<close>

lemma pick_nth:
  assumes "names \<noteq> []" and "length names < 2 ^ 64"
  shows "pick i names = names ! (unat i mod length names)"
  using assms by (simp add: pick_def unat_mod_distrib unat_of_nat take_bit_nat_eq_self)

lemma pick_in: "names \<noteq> [] \<Longrightarrow> length names < 2 ^ 64 \<Longrightarrow> pick i names \<in> set names"
  by (simp add: pick_nth)

fun choose_n :: "nat \<Rightarrow> 'f HTTPGroup \<Rightarrow> string option list" where
  "choose_n 0 g = []"
| "choose_n (Suc n) g = (let (r, g') = chooseEndpoint g in r # choose_n n g')"

lemma unat_Suc: "unat (w :: 64 word) + 1 < 2 ^ 64 \<Longrightarrow> unat (w + 1) = Suc (unat w)"
  by (simp add: unat_word_ariths)

lemma choose_n_nth:
  assumes "hg_pxyNames g \<noteq> []" and "[] \<notin> set (hg_pxyNames g)" and "length (hg_pxyNames g) < 2 ^ 64"
    and "unat (hg_index g) + n < 2 ^ 64"
  shows "choose_n n g = map (\<lambda>i. Some (hg_pxyNames g ! ((Suc (unat (hg_index g)) + i) mod length (hg_pxyNames g)))) [0..<n]"
  using assms
proof (induction n arbitrary: g)
  case (Suc n)
  let ?names = "hg_pxyNames g" and ?i = "unat (hg_index g)"
  have i: "unat (hg_index g + 1) = Suc ?i" by (rule unat_Suc) (use Suc.prems(4) in simp)
  have "pick (hg_index g + 1) ?names \<noteq> []" using pick_in Suc.prems by metis
  then have c: "chooseEndpoint g = (Some (?names ! (Suc ?i mod length ?names)), g\<lparr>hg_index := hg_index g + 1\<rparr>)"
    using Suc.prems by (simp add: chooseEndpoint_def Let_def pick_nth i)
  have "choose_n n (g\<lparr>hg_index := hg_index g + 1\<rparr>) = map (\<lambda>j. Some (?names ! ((Suc (Suc ?i) + j) mod length ?names))) [0..<n]"
    using Suc.IH [of "g\<lparr>hg_index := hg_index g + 1\<rparr>"] Suc.prems i by simp
  also have "\<dots> = map (\<lambda>j. Some (?names ! ((Suc ?i + j) mod length ?names))) [1..<Suc n]"
    by (rule nth_equalityI) (simp_all del: upt_Suc)
  finally show ?case
    unfolding choose_n.simps c by (simp add: upt_conv_Cons del: upt_Suc)
qed simp

section \<open>Histories and properties\<close>

datatype 'f http_op =
    HCreate string
  | HRegister string string string RouteConfig 'f nat
  | HUnRegister string string

fun http_step :: "'f http_op \<Rightarrow> 'f http_ctl \<Rightarrow> 'f http_ctl" where
  "http_step (HCreate grp) s = snd (getOrCreate grp NewHTTPGroup s)"
| "http_step (HRegister n grp k cfg f gid) s = snd (HTTPGroup_Register n grp k cfg f gid s)"
| "http_step (HUnRegister n grp) s = HTTPGroupController_UnRegister n grp s"

text \<open>A proxy unregisters from a group only after it registered there.\<close>

fun http_op_ok :: "'f http_op \<Rightarrow> 'f http_ctl \<Rightarrow> bool" where
  "http_op_ok (HUnRegister n grp) s \<longleftrightarrow>
     (case gc_groups s grp of None \<Rightarrow> True | Some gid \<Rightarrow> n \<in> set (hg_pxyNames (gc_store s gid)))"
| "http_op_ok _ s \<longleftrightarrow> True"

fun http_ops_ok :: "'f http_op list \<Rightarrow> 'f http_ctl \<Rightarrow> bool" where
  "http_ops_ok [] s \<longleftrightarrow> True"
| "http_ops_ok (x # xs) s \<longleftrightarrow> http_op_ok x s \<and> http_ops_ok xs (http_step x s)"

lemma http_step_inv: "http_inv s \<Longrightarrow> http_op_ok x s \<Longrightarrow> http_inv (http_step x s)"
  by (cases x) (auto simp: HTTPGroupController_UnRegister_def group_get_def getOrCreate_http_inv HTTPGroup_Register_inv
      UnRegister_inv split: option.split)

lemma http_run_inv: "http_inv s \<Longrightarrow> http_ops_ok xs s \<Longrightarrow> http_inv (fold http_step xs s)"
  by (induction xs arbitrary: s) (auto simp: http_step_inv)

lemma NewHTTPGroupController_inv:
  "routers_inv r \<Longrightarrow> (\<And>k g cfg. routes r k \<noteq> Some (GroupRoute g cfg)) \<Longrightarrow> http_inv (NewHTTPGroupController r)"
  by (rule http_invI)
     (simp_all add: NewHTTPGroupController_def newGroupRegistry_def NewHTTPGroup_def members_ok_def)

text \<open>A request routed to an HTTP group finds a member. After any interleaving of group
  lookups, registrations (also on stale groups) and deregistrations, every route that leads
  to a group leads to one with members, registered under its name with exactly this route,
  and \<open>createConn\<close> yields the connection function of one of its members.\<close>

theorem http_group_serves:
  fixes r0 :: "'f http_route Routers"
  assumes r0: "routers_inv r0" "\<forall>k g cfg. routes r0 k \<noteq> Some (GroupRoute g cfg)"
    and ok: "http_ops_ok xs (NewHTTPGroupController r0)"
  defines "s \<equiv> fold http_step xs (NewHTTPGroupController r0)"
  assumes rt: "routes (gc_shared s) k = Some (GroupRoute gid cfg)"
    and len: "length (hg_pxyNames (gc_store s gid)) < 2 ^ 64"
  shows "gc_groups s (hg_group (gc_store s gid)) = Some gid \<and> k = route_key (gc_store s gid)
       \<and> (\<exists>n f. n \<in> set (hg_pxyNames (gc_store s gid)) \<and> fst (createConn (gc_store s gid)) = Some f
              \<and> createConnByEndpoint n (gc_store s gid) = Some f)"
proof -
  have inv: "http_inv s"
    unfolding s_def using r0 ok by (intro http_run_inv NewHTTPGroupController_inv) blast+
  note D = http_invD [OF inv]
  let ?g = "gc_store s gid"
  from D(6) [OF rt] have ne: "hg_pxyNames ?g \<noteq> []" and k: "k = route_key ?g" by auto
  let ?n = "pick (hg_index ?g + 1) (hg_pxyNames ?g)"
  have n: "?n \<in> set (hg_pxyNames ?g)" by (rule pick_in [OF ne len])
  then obtain f where "map_of (hg_createFuncs ?g) ?n = Some f"
    using D(3) [of gid] by (auto simp: members_ok_def)
  with n ne k D(4) [OF ne] show ?thesis
    by (auto simp: createConn_def createConnByEndpoint_def Let_def)
qed

definition demo_http_ops :: "nat http_op list" where
  "demo_http_ops = [HCreate ''g'', HRegister ''a'' ''g'' ''k'' (demo_cfg ''ex.com'') 7 0,
     HRegister ''b'' ''g'' ''k'' (demo_cfg ''ex.com'') 8 0]"

theorem http_group_serves_witness:
  "gc_groups (fold http_step demo_http_ops (NewHTTPGroupController NewRouters)) ''g'' = Some 0"
proof -
  let ?s = "fold http_step demo_http_ops (NewHTTPGroupController NewRouters)"
  have r0: "routers_inv (NewRouters :: nat http_route Routers)"
    "\<forall>k g cfg. routes (NewRouters :: nat http_route Routers) k \<noteq> Some (GroupRoute g cfg)"
    by (simp_all add: NewRouters_inv routes_New)
  have ok: "http_ops_ok demo_http_ops (NewHTTPGroupController NewRouters)"
    by (simp add: demo_http_ops_def)
  have g: "hg_group (gc_store ?s 0) = ''g''" "hg_pxyNames (gc_store ?s 0) = [''a'', ''b'']"
    by code_simp+
  have rt: "routes (gc_shared ?s) (''ex.com'', [], []) = Some (GroupRoute 0 (demo_cfg ''ex.com''))"
    unfolding routes_def prod.case by code_simp
  from http_group_serves [OF r0 ok rt] show ?thesis by (simp add: g)
qed

text \<open>Round robin. With \<open>n\<close> members and no overflow of the 64-bit counter in between, \<open>n\<close>
  consecutive choices of an endpoint return the list of members rotated by the counter's
  value: every member is chosen exactly once, in order.\<close>

theorem chooseEndpoint_round_robin:
  assumes "hg_pxyNames g \<noteq> []" and "[] \<notin> set (hg_pxyNames g)"
    and "unat (hg_index g) + length (hg_pxyNames g) < 2 ^ 64"
  shows "choose_n (length (hg_pxyNames g)) g = map Some (rotate (Suc (unat (hg_index g))) (hg_pxyNames g))
       \<and> mset (choose_n (length (hg_pxyNames g)) g) = mset (map Some (hg_pxyNames g))"
proof -
  have "choose_n (length (hg_pxyNames g)) g = map Some (rotate (Suc (unat (hg_index g))) (hg_pxyNames g))"
    using choose_n_nth [OF assms(1,2) _ assms(3)] assms(3)
    by (intro nth_equalityI) (simp_all add: nth_rotate del: rotate_Suc)
  moreover have "mset (rotate m (hg_pxyNames g)) = mset (hg_pxyNames g)" for m
    by (metis append_take_drop_id mset_append rotate_drop_take union_commute)
  ultimately show ?thesis by (simp del: rotate_Suc)
qed

definition demo_http_group :: "nat HTTPGroup" where
  "demo_http_group = NewHTTPGroup\<lparr>hg_pxyNames := [''a'', ''b'', ''c''], hg_index := 4\<rparr>"

theorem chooseEndpoint_round_robin_witness:
  "choose_n 3 demo_http_group = map Some (rotate 5 [''a'', ''b'', ''c''])"
proof -
  have n: "hg_pxyNames demo_http_group = [''a'', ''b'', ''c'']" "length [''a'', ''b'', ''c''] = 3"
    and u: "unat (hg_index demo_http_group) = 4" "Suc 4 = 5"
    by (simp_all add: demo_http_group_def)
  show ?thesis
    using chooseEndpoint_round_robin [of demo_http_group, unfolded n u] by simp
qed

end
