(* ===== verification/Nathole_Analysis.thy ===== *)
theory Nathole_Analysis
  imports Http_Util Go_Strconv
begin

text \<open>
  NAT classification and the choice of hole punching behaviours:
  \<^verbatim>\<open>pkg/nathole/classify.go\<close> and \<^verbatim>\<open>pkg/nathole/analysis.go\<close>, with \<open>parseIPs\<close> of
  \<^verbatim>\<open>pkg/nathole/nathole.go\<close> and \<open>getRangePorts\<close> of \<^verbatim>\<open>pkg/nathole/controller.go\<close>.
\<close>

section \<open>Classification\<close>

datatype nat_type = EasyNAT | HardNAT

datatype nat_behavior = BehaviorNoChange | BehaviorIPChanged | BehaviorPortChanged | BehaviorBothChanged

record NatFeature =
  nf_NatType :: nat_type
  nf_Behavior :: nat_behavior
  nf_PortsDifference :: int
  nf_RegularPortsChange :: bool
  nf_PublicNetwork :: bool

datatype classify_error = NotEnoughAddresses | BadAddress | BadPort

text \<open>The variables of the loop over the addresses.\<close>

record classify_state =
  cs_baseIP :: string
  cs_basePort :: string
  cs_portMax :: int
  cs_portMin :: int
  cs_ipChanged :: bool
  cs_portChanged :: bool
  cs_public :: bool

definition classify_step :: "string list \<Rightarrow> string \<Rightarrow> string \<Rightarrow> int \<Rightarrow> classify_state \<Rightarrow> classify_state" where
  "classify_step localIPs ip port portNum s0 =
     (let s = s0\<lparr>cs_public := cs_public s0 \<or> ip \<in> set localIPs\<rparr> in
      if cs_baseIP s = [] then
        s\<lparr>cs_baseIP := ip, cs_basePort := port, cs_portMax := portNum, cs_portMin := portNum\<rparr>
      else
        s\<lparr>cs_portMax := max (cs_portMax s) portNum, cs_portMin := min (cs_portMin s) portNum,
          cs_ipChanged := (cs_ipChanged s \<or> cs_baseIP s \<noteq> ip),
          cs_portChanged := (cs_portChanged s \<or> cs_basePort s \<noteq> port)\<rparr>)"

fun classify_loop :: "string list \<Rightarrow> string list \<Rightarrow> classify_state \<Rightarrow> (classify_error, classify_state) result" where
  "classify_loop localIPs [] s = ok s"
| "classify_loop localIPs (addr # addrs) s =
     (case SplitHostPort addr of
        None \<Rightarrow> err BadAddress
      | Some (ip, port) \<Rightarrow>
          (case atoi port of
             None \<Rightarrow> err BadPort
           | Some portNum \<Rightarrow> classify_loop localIPs addrs (classify_step localIPs ip port portNum s)))"

definition classify_init :: classify_state where
  "classify_init = \<lparr>cs_baseIP = [], cs_basePort = [], cs_portMax = 0, cs_portMin = 0,
     cs_ipChanged = False, cs_portChanged = False, cs_public = False\<rparr>"

definition classify_result :: "classify_state \<Rightarrow> NatFeature" where
  "classify_result s =
     (let (nt, bh) = (if cs_ipChanged s \<and> cs_portChanged s then (HardNAT, BehaviorBothChanged)
                      else if cs_ipChanged s then (HardNAT, BehaviorIPChanged)
                      else if cs_portChanged s then (HardNAT, BehaviorPortChanged)
                      else (EasyNAT, BehaviorNoChange));
          diff = (if bh = BehaviorPortChanged then wrap64 (cs_portMax s - cs_portMin s) else 0)
      in \<lparr>nf_NatType = nt, nf_Behavior = bh, nf_PortsDifference = diff,
          nf_RegularPortsChange = (bh = BehaviorPortChanged \<and> diff \<le> 5 \<and> diff \<ge> 1),
          nf_PublicNetwork = cs_public s\<rparr>)"

definition ClassifyNATFeature :: "string list \<Rightarrow> string list \<Rightarrow> (classify_error, NatFeature) result" where
  "ClassifyNATFeature addresses localIPs =
     (if length addresses \<le> 1 then err NotEnoughAddresses
      else case classify_loop localIPs addresses classify_init of
             Inl e \<Rightarrow> err e
           | Inr s \<Rightarrow> ok (classify_result s))"

fun ClassifyFeatureCount :: "NatFeature list \<Rightarrow> nat \<times> nat \<times> nat" where
  "ClassifyFeatureCount [] = (0, 0, 0)"
| "ClassifyFeatureCount (f # fs) =
     (let (easy, hard, regular) = ClassifyFeatureCount fs in
      if nf_NatType f = EasyNAT then (Suc easy, hard, regular)
      else (easy, Suc hard, if nf_RegularPortsChange f then Suc regular else regular))"

fun parseIPs :: "string list \<Rightarrow> string list" where
  "parseIPs [] = []"
| "parseIPs (addr # addrs) =
     (case SplitHostPort addr of
        Some (ip, _) \<Rightarrow> ip # parseIPs addrs
      | None \<Rightarrow> parseIPs addrs)"

section \<open>The behaviour tables\<close>

datatype role = NoRole | DetectRoleSender | DetectRoleReceiver

record RecommandBehavior =
  rb_Role :: role
  rb_TTL :: int
  rb_SendDelayMs :: int
  rb_PortsRangeNumber :: int
  rb_PortsRandomNumber :: int
  rb_ListenRandomPorts :: int

definition zero_behavior :: RecommandBehavior where
  "zero_behavior = \<lparr>rb_Role = NoRole, rb_TTL = 0, rb_SendDelayMs = 0, rb_PortsRangeNumber = 0,
     rb_PortsRandomNumber = 0, rb_ListenRandomPorts = 0\<rparr>"

definition sender :: RecommandBehavior where
  "sender = zero_behavior\<lparr>rb_Role := DetectRoleSender\<rparr>"

definition receiver :: RecommandBehavior where
  "receiver = zero_behavior\<lparr>rb_Role := DetectRoleReceiver\<rparr>"

type_synonym behavior_pair = "RecommandBehavior \<times> RecommandBehavior"

definition mode0Behaviors :: "behavior_pair list" where
  "mode0Behaviors =
    [(sender, receiver\<lparr>rb_TTL := 7\<rparr>),
     (receiver\<lparr>rb_TTL := 7\<rparr>, sender),
     (sender, receiver\<lparr>rb_TTL := 4\<rparr>),
     (receiver\<lparr>rb_TTL := 4\<rparr>, sender),
     (sender, receiver),
     (receiver, sender),
     (sender\<lparr>rb_SendDelayMs := 5000\<rparr>, receiver),
     (sender\<lparr>rb_SendDelayMs := 10000\<rparr>, receiver),
     (receiver, sender\<lparr>rb_SendDelayMs := 5000\<rparr>),
     (receiver, sender\<lparr>rb_SendDelayMs := 10000\<rparr>)]"

definition mode1Behaviors :: "behavior_pair list" where
  "mode1Behaviors =
    [(sender, receiver\<lparr>rb_TTL := 7, rb_PortsRangeNumber := 10\<rparr>),
     (sender\<lparr>rb_SendDelayMs := 2000\<rparr>, receiver\<lparr>rb_TTL := 7, rb_PortsRangeNumber := 10\<rparr>),
     (sender, receiver\<lparr>rb_TTL := 4, rb_PortsRangeNumber := 10\<rparr>),
     (sender\<lparr>rb_SendDelayMs := 2000\<rparr>, receiver\<lparr>rb_TTL := 4, rb_PortsRangeNumber := 10\<rparr>),
     (sender, receiver\<lparr>rb_PortsRangeNumber := 10\<rparr>),
     (sender\<lparr>rb_SendDelayMs := 2000\<rparr>, receiver\<lparr>rb_PortsRangeNumber := 10\<rparr>)]"

definition mode2Behaviors :: "behavior_pair list" where
  "mode2Behaviors =
    [(sender\<lparr>rb_PortsRandomNumber := 1000, rb_SendDelayMs := 3000\<rparr>, receiver\<lparr>rb_ListenRandomPorts := 256, rb_TTL := 7\<rparr>),
     (sender\<lparr>rb_PortsRandomNumber := 1000, rb_SendDelayMs := 3000\<rparr>, receiver\<lparr>rb_ListenRandomPorts := 256, rb_TTL := 4\<rparr>),
     (sender\<lparr>rb_PortsRandomNumber := 1000, rb_SendDelayMs := 3000\<rparr>, receiver\<lparr>rb_ListenRandomPorts := 256\<rparr>)]"

definition mode3Behaviors :: "behavior_pair list" where
  "mode3Behaviors =
    [(sender\<lparr>rb_PortsRangeNumber := 10\<rparr>, receiver\<lparr>rb_TTL := 7, rb_PortsRangeNumber := 10\<rparr>),
     (sender\<lparr>rb_PortsRangeNumber := 10\<rparr>, receiver\<lparr>rb_TTL := 4, rb_PortsRangeNumber := 10\<rparr>),
     (sender\<lparr>rb_PortsRangeNumber := 10\<rparr>, receiver\<lparr>rb_PortsRangeNumber := 10\<rparr>),
     (receiver\<lparr>rb_TTL := 7, rb_PortsRangeNumber := 10\<rparr>, sender\<lparr>rb_PortsRangeNumber := 10\<rparr>),
     (receiver\<lparr>rb_TTL := 4, rb_PortsRangeNumber := 10\<rparr>, sender\<lparr>rb_PortsRangeNumber := 10\<rparr>),
     (receiver\<lparr>rb_PortsRangeNumber := 10\<rparr>, sender\<lparr>rb_PortsRangeNumber := 10\<rparr>)]"

definition mode4Behaviors :: "behavior_pair list" where
  "mode4Behaviors =
    [(sender\<lparr>rb_PortsRandomNumber := 1000, rb_SendDelayMs := 3000\<rparr>,
      receiver\<lparr>rb_ListenRandomPorts := 256, rb_TTL := 7, rb_PortsRangeNumber := 2\<rparr>),
     (sender\<lparr>rb_PortsRandomNumber := 1000, rb_SendDelayMs := 3000\<rparr>,
      receiver\<lparr>rb_ListenRandomPorts := 256, rb_TTL := 4, rb_PortsRangeNumber := 2\<rparr>),
     (sender\<lparr>rb_PortsRandomNumber := 1000, rb_SendDelayMs := 3000\<rparr>,
      receiver\<lparr>rb_ListenRandomPorts := 256, rb_PortsRangeNumber := 2\<rparr>)]"

definition getBehaviorByMode :: "nat \<Rightarrow> behavior_pair list" where
  "getBehaviorByMode mode =
     (if mode = 0 then mode0Behaviors
      else if mode = 1 then mode1Behaviors
      else if mode = 2 then mode2Behaviors
      else if mode = 3 then mode3Behaviors
      else if mode = 4 then mode4Behaviors
      else mode0Behaviors)"

definition getBehaviorByModeAndIndex :: "nat \<Rightarrow> nat \<Rightarrow> behavior_pair" where
  "getBehaviorByModeAndIndex mode index =
     (let behaviors = getBehaviorByMode mode in
      if index \<ge> length behaviors then (zero_behavior, zero_behavior)
      else (fst (behaviors ! index), snd (behaviors ! index)))"

record BehaviorScore =
  bs_Mode :: nat
  bs_Index :: nat
  bs_Score :: int

definition getBehaviorScoresByMode2 :: "nat \<Rightarrow> int \<Rightarrow> int \<Rightarrow> BehaviorScore list" where
  "getBehaviorScoresByMode2 mode senderScore receiverScore =
     (let behaviors = getBehaviorByMode mode in
      map (\<lambda>i. \<lparr>bs_Mode = mode, bs_Index = i,
                bs_Score = (if rb_Role (fst (behaviors ! i)) = DetectRoleSender then senderScore else receiverScore)\<rparr>)
        [0..<length behaviors])"

definition getBehaviorScoresByMode :: "nat \<Rightarrow> int \<Rightarrow> BehaviorScore list" where
  "getBehaviorScoresByMode mode defaultScore = getBehaviorScoresByMode2 mode defaultScore defaultScore"

section \<open>Records and recommendations\<close>

record MakeHoleRecords =
  mhr_scores :: "BehaviorScore list"
  mhr_LastUpdateTime :: int

definition mode0_scores :: "NatFeature \<Rightarrow> NatFeature \<Rightarrow> BehaviorScore list" where
  "mode0_scores c v =
     (if nf_PublicNetwork c then getBehaviorScoresByMode2 0 0 1
      else if nf_PublicNetwork v then getBehaviorScoresByMode2 0 1 0
      else getBehaviorScoresByMode 0 0)"

definition NewMakeHoleRecords :: "int \<Rightarrow> NatFeature \<Rightarrow> NatFeature \<Rightarrow> MakeHoleRecords" where
  "NewMakeHoleRecords now c v =
     (let (easyCount, hardCount, portsChangedRegularCount) = ClassifyFeatureCount [c, v];
          scores =
            (if easyCount = 2 then mode0_scores c v
             else if hardCount = 1 \<and> portsChangedRegularCount = 1 then
               getBehaviorScoresByMode 1 0 @ getBehaviorScoresByMode 2 0 @ mode0_scores c v
             else if hardCount = 1 \<and> portsChangedRegularCount = 0 then
               getBehaviorScoresByMode 2 0 @ getBehaviorScoresByMode 1 0 @ mode0_scores c v
             else if hardCount = 2 \<and> portsChangedRegularCount = 2 then
               getBehaviorScoresByMode 3 0 @ getBehaviorScoresByMode 4 0
             else if hardCount = 2 \<and> portsChangedRegularCount = 1 then getBehaviorScoresByMode 4 0
             else getBehaviorScoresByMode 0 1 @ getBehaviorScoresByMode 1 1 @ getBehaviorScoresByMode 3 1)
      in \<lparr>mhr_scores = scores, mhr_LastUpdateTime = now\<rparr>)"

fun report_scores :: "nat \<Rightarrow> nat \<Rightarrow> BehaviorScore list \<Rightarrow> BehaviorScore list" where
  "report_scores mode index [] = []"
| "report_scores mode index (score # ss) =
     (if bs_Mode score \<noteq> mode \<or> bs_Index score \<noteq> index then score # report_scores mode index ss
      else score\<lparr>bs_Score := min (bs_Score score + 2) 10\<rparr> # ss)"

definition mhr_ReportSuccess :: "int \<Rightarrow> nat \<Rightarrow> nat \<Rightarrow> MakeHoleRecords \<Rightarrow> MakeHoleRecords" where
  "mhr_ReportSuccess now mode index mhr =
     mhr\<lparr>mhr_LastUpdateTime := now, mhr_scores := report_scores mode index (mhr_scores mhr)\<rparr>"

text \<open>The position of the first greatest score (\<^verbatim>\<open>slices.MaxFunc\<close>).\<close>

fun max_index :: "BehaviorScore list \<Rightarrow> nat" where
  "max_index [] = 0"
| "max_index [x] = 0"
| "max_index (x # y # ys) =
     (let i = max_index (y # ys) in if bs_Score x < bs_Score ((y # ys) ! i) then Suc i else 0)"

definition Recommand :: "int \<Rightarrow> MakeHoleRecords \<Rightarrow> (nat \<times> nat) \<times> MakeHoleRecords" where
  "Recommand now mhr =
     (if mhr_scores mhr = [] then ((0, 0), mhr)
      else
        let i = max_index (mhr_scores mhr); maxScore = mhr_scores mhr ! i in
        ((bs_Mode maxScore, bs_Index maxScore),
         mhr\<lparr>mhr_scores := (mhr_scores mhr)[i := maxScore\<lparr>bs_Score := bs_Score maxScore - 1\<rparr>],
             mhr_LastUpdateTime := now\<rparr>))"

record Analyzer =
  an_records :: "(string \<times> MakeHoleRecords) list"
  an_dataReserveDuration :: int

definition NewAnalyzer :: "int \<Rightarrow> Analyzer" where
  "NewAnalyzer d = \<lparr>an_records = [], an_dataReserveDuration = d\<rparr>"

definition GetRecommandBehaviors ::
  "int \<Rightarrow> string \<Rightarrow> NatFeature \<Rightarrow> NatFeature \<Rightarrow> Analyzer
   \<Rightarrow> (nat \<times> nat \<times> RecommandBehavior \<times> RecommandBehavior) \<times> Analyzer" where
  "GetRecommandBehaviors now key c v a =
     (let records = (case map_of (an_records a) key of None \<Rightarrow> NewMakeHoleRecords now c v | Some r \<Rightarrow> r);
          ((mode, index), records') = Recommand now records;
          (cB, vB) = getBehaviorByModeAndIndex mode index;
          (cB', vB') =
            (if mode = 1 then (if nf_NatType c = EasyNAT then (vB, cB) else (cB, vB))
             else if mode = 2 then (if nf_NatType c = HardNAT then (vB, cB) else (cB, vB))
             else if mode = 4 then (if \<not> nf_RegularPortsChange c then (vB, cB) else (cB, vB))
             else (cB, vB))
      in ((mode, index, cB', vB'), a\<lparr>an_records := map_put key records' (an_records a)\<rparr>))"

definition an_ReportSuccess :: "int \<Rightarrow> string \<Rightarrow> nat \<Rightarrow> nat \<Rightarrow> Analyzer \<Rightarrow> Analyzer" where
  "an_ReportSuccess now key mode index a =
     (case map_of (an_records a) key of
        None \<Rightarrow> a
      | Some r \<Rightarrow> a\<lparr>an_records := map_put key (mhr_ReportSuccess now mode index r) (an_records a)\<rparr>)"

definition Clean :: "int \<Rightarrow> Analyzer \<Rightarrow> (nat \<times> nat) \<times> Analyzer" where
  "Clean now a =
     (let total = length (an_records a);
          kept = filter (\<lambda>kv. \<not> now - mhr_LastUpdateTime (snd kv) > an_dataReserveDuration a) (an_records a)
      in ((total - length kept, total), a\<lparr>an_records := kept\<rparr>))"

section \<open>Candidate ports\<close>

definition getRangePorts :: "string list \<Rightarrow> int \<Rightarrow> int \<Rightarrow> (int \<times> int) list" where
  "getRangePorts addrs difference maxNumber =
     (if maxNumber \<le> 0 then []
      else if addrs = [] then []
      else case SplitHostPort (last addrs) of
             None \<Rightarrow> []
           | Some (_, portStr) \<Rightarrow>
               (case atoi portStr of
                  None \<Rightarrow> []
                | Some port \<Rightarrow>
                    [(max (max (wrap64 (wrap64 (port - difference) - 5)) (wrap64 (port - maxNumber))) 1,
                      min (min (wrap64 (wrap64 (port + difference) + 5)) (wrap64 (port + maxNumber))) 65535)]))"

section \<open>Lemmas on the classification\<close>

text \<open>What the loop reads from an address: the IP, the port and the port's number.\<close>

definition parse_addr :: "string \<Rightarrow> (string \<times> string \<times> int) option" where
  "parse_addr addr =
     (case SplitHostPort addr of
        None \<Rightarrow> None
      | Some (ip, port) \<Rightarrow> map_option (\<lambda>n. (ip, port, n)) (atoi port))"

definition step_of :: "string list \<Rightarrow> string \<times> string \<times> int \<Rightarrow> classify_state \<Rightarrow> classify_state" where
  "step_of localIPs t = classify_step localIPs (fst t) (fst (snd t)) (snd (snd t))"

lemma classify_loop_fold:
  "map parse_addr addrs = map Some ts \<Longrightarrow> classify_loop localIPs addrs s = ok (fold (step_of localIPs) ts s)"
proof (induction addrs arbitrary: ts s)
  case (Cons a addrs)
  then obtain t ts' where ts: "ts = t # ts'" "parse_addr a = Some t" "map parse_addr addrs = map Some ts'"
    by (cases ts) auto
  with Cons.IH [OF ts(3)] show ?case
    by (auto simp: parse_addr_def step_of_def split: option.splits)
qed simp

lemma Max_insert_max: "finite S \<Longrightarrow> Max (insert (max a b) S) = Max (insert a (insert (b :: int) S))"
  by (cases "S = {}") (simp_all add: max.assoc)

lemma Min_insert_min: "finite S \<Longrightarrow> Min (insert (min a b) S) = Min (insert a (insert (b :: int) S))"
  by (cases "S = {}") (simp_all add: min.assoc)

lemma fold_step_of:
  assumes "cs_baseIP s \<noteq> []" and "cs_portMin s \<le> cs_portMax s"
  shows "cs_baseIP (fold (step_of L) ts s) = cs_baseIP s
       \<and> cs_basePort (fold (step_of L) ts s) = cs_basePort s
       \<and> (cs_ipChanged (fold (step_of L) ts s) \<longleftrightarrow> cs_ipChanged s \<or> (\<exists>t \<in> set ts. fst t \<noteq> cs_baseIP s))
       \<and> (cs_portChanged (fold (step_of L) ts s) \<longleftrightarrow> cs_portChanged s \<or> (\<exists>t \<in> set ts. fst (snd t) \<noteq> cs_basePort s))
       \<and> (cs_public (fold (step_of L) ts s) \<longleftrightarrow> cs_public s \<or> (\<exists>t \<in> set ts. fst t \<in> set L))
       \<and> cs_portMax (fold (step_of L) ts s) = Max (insert (cs_portMax s) ((snd \<circ> snd) ` set ts))
       \<and> cs_portMin (fold (step_of L) ts s) = Min (insert (cs_portMin s) ((snd \<circ> snd) ` set ts))"
  using assms
proof (induction ts arbitrary: s)
  case (Cons t ts)
  let ?s = "step_of L t s"
  have s: "cs_baseIP ?s = cs_baseIP s" "cs_basePort ?s = cs_basePort s"
    "cs_ipChanged ?s = (cs_ipChanged s \<or> fst t \<noteq> cs_baseIP s)"
    "cs_portChanged ?s = (cs_portChanged s \<or> fst (snd t) \<noteq> cs_basePort s)"
    "cs_public ?s = (cs_public s \<or> fst t \<in> set L)"
    "cs_portMax ?s = max (cs_portMax s) (snd (snd t))" "cs_portMin ?s = min (cs_portMin s) (snd (snd t))"
    using Cons.prems(1) by (auto simp: step_of_def classify_step_def Let_def)
  have "cs_baseIP ?s \<noteq> []" "cs_portMin ?s \<le> cs_portMax ?s" using s Cons.prems by auto
  from Cons.IH [OF this] show ?case
    unfolding fold.simps comp_apply s by (simp add: Max_insert_max Min_insert_min)
qed simp

lemma Classify_spec:
  assumes "map parse_addr addrs = map Some (t # ts)" and "fst t \<noteq> []"
  shows "\<exists>s. classify_loop L addrs classify_init = ok s
       \<and> (cs_ipChanged s \<longleftrightarrow> (\<exists>u \<in> set ts. fst u \<noteq> fst t))
       \<and> (cs_portChanged s \<longleftrightarrow> (\<exists>u \<in> set ts. fst (snd u) \<noteq> fst (snd t)))
       \<and> (cs_public s \<longleftrightarrow> (\<exists>u \<in> set (t # ts). fst u \<in> set L))
       \<and> cs_portMax s = Max ((snd \<circ> snd) ` set (t # ts)) \<and> cs_portMin s = Min ((snd \<circ> snd) ` set (t # ts))"
proof -
  let ?s1 = "step_of L t classify_init"
  have s1: "cs_baseIP ?s1 = fst t" "cs_basePort ?s1 = fst (snd t)" "\<not> cs_ipChanged ?s1" "\<not> cs_portChanged ?s1"
    "cs_public ?s1 \<longleftrightarrow> fst t \<in> set L" "cs_portMax ?s1 = snd (snd t)" "cs_portMin ?s1 = snd (snd t)"
    by (simp_all add: step_of_def classify_step_def classify_init_def Let_def)
  have "classify_loop L addrs classify_init = ok (fold (step_of L) ts ?s1)"
    using classify_loop_fold [OF assms(1)] by simp
  moreover note fold_step_of [of ?s1 L ts, unfolded s1]
  ultimately show ?thesis using assms(2) s1 by simp
qed

section \<open>Lemmas on the recommendations\<close>

lemma max_index_max:
  "xs \<noteq> [] \<Longrightarrow> max_index xs < length xs \<and> (\<forall>i < length xs. bs_Score (xs ! i) \<le> bs_Score (xs ! max_index xs))"
proof (induction xs rule: max_index.induct)
  case (3 x y ys)
  then have IH: "max_index (y # ys) < length (y # ys)"
    "\<And>i. i < length (y # ys) \<Longrightarrow> bs_Score ((y # ys) ! i) \<le> bs_Score ((y # ys) ! max_index (y # ys))" by auto
  have "bs_Score ((x # y # ys) ! i) \<le> max (bs_Score x) (bs_Score ((y # ys) ! max_index (y # ys)))"
    if "i < length (x # y # ys)" for i
    using that IH(2) by (cases i) (auto simp: le_max_iff_disj)
  with IH(1) show ?case by (auto simp: Let_def max_def)
qed auto

text \<open>A record is well formed if it is not empty and names existing behaviours.\<close>

definition score_ok :: "BehaviorScore \<Rightarrow> bool" where
  "score_ok s \<longleftrightarrow> bs_Mode s \<le> 4 \<and> bs_Index s < length (getBehaviorByMode (bs_Mode s))"

definition mhr_ok :: "MakeHoleRecords \<Rightarrow> bool" where
  "mhr_ok r \<longleftrightarrow> mhr_scores r \<noteq> [] \<and> list_all score_ok (mhr_scores r)"

lemma scores_by_mode_ok: "m \<le> 4 \<Longrightarrow> list_all score_ok (getBehaviorScoresByMode2 m a b)"
  by (simp add: list_all_iff getBehaviorScoresByMode2_def score_ok_def Let_def)

lemma scores_by_mode_ne: "getBehaviorScoresByMode2 m a b \<noteq> []"
  by (simp add: getBehaviorScoresByMode2_def getBehaviorByMode_def mode0Behaviors_def mode1Behaviors_def
      mode2Behaviors_def mode3Behaviors_def mode4Behaviors_def Let_def)

lemma NewMakeHoleRecords_ok [inv_rules]: "mhr_ok (NewMakeHoleRecords now c v)"
  by (simp add: NewMakeHoleRecords_def mode0_scores_def mhr_ok_def getBehaviorScoresByMode_def scores_by_mode_ok
      scores_by_mode_ne Let_def split: prod.split)

lemma Recommand_ok [inv_rules]:
  assumes "mhr_ok r"
  shows "mhr_ok (snd (Recommand now r))"
    and "\<exists>s \<in> set (mhr_scores r). fst (Recommand now r) = (bs_Mode s, bs_Index s)"
proof -
  have ne: "mhr_scores r \<noteq> []" and all: "\<forall>s \<in> set (mhr_scores r). score_ok s" using assms by (auto simp: mhr_ok_def list_all_iff)
  let ?i = "max_index (mhr_scores r)"
  have i: "?i < length (mhr_scores r)" using max_index_max [OF ne] by simp
  have "score_ok ((mhr_scores r ! ?i)\<lparr>bs_Score := k\<rparr>)" for k using all i by (simp add: score_ok_def)
  with all have "\<forall>s \<in> set ((mhr_scores r)[?i := (mhr_scores r ! ?i)\<lparr>bs_Score := k\<rparr>]). score_ok s" for k
    using set_update_subset_insert by fastforce
  with ne show "mhr_ok (snd (Recommand now r))"
    by (simp add: Recommand_def Let_def mhr_ok_def list_all_iff)
  show "\<exists>s \<in> set (mhr_scores r). fst (Recommand now r) = (bs_Mode s, bs_Index s)"
    using i ne by (auto simp: Recommand_def Let_def intro!: bexI [of _ "mhr_scores r ! ?i"])
qed

lemma report_scores_ok: "list_all score_ok ss \<Longrightarrow> list_all score_ok (report_scores m i ss)"
  by (induction ss) (auto simp: score_ok_def)

lemma report_scores_length: "length (report_scores m i ss) = length ss"
  by (induction ss) auto

lemma mhr_ReportSuccess_ok [inv_rules]: "mhr_ok r \<Longrightarrow> mhr_ok (mhr_ReportSuccess now m i r)"
  using report_scores_length [of m i "mhr_scores r"]
  by (auto simp: mhr_ok_def mhr_ReportSuccess_def report_scores_ok)

definition analyzer_ok :: "Analyzer \<Rightarrow> bool" where
  "analyzer_ok a \<longleftrightarrow> (\<forall>kv \<in> set (an_records a). mhr_ok (snd kv))"

text \<open>Every pair of a table has one sender and one receiver; in the tables for modes 1, 2 and 4
  the first of the pair is the sender.\<close>

definition complementary :: "RecommandBehavior \<Rightarrow> RecommandBehavior \<Rightarrow> bool" where
  "complementary x y \<longleftrightarrow> rb_Role x = DetectRoleSender \<and> rb_Role y = DetectRoleReceiver
                       \<or> rb_Role x = DetectRoleReceiver \<and> rb_Role y = DetectRoleSender"

lemmas mode_tables = mode0Behaviors_def mode1Behaviors_def mode2Behaviors_def mode3Behaviors_def
  mode4Behaviors_def sender_def receiver_def

lemma tables_complementary: "p \<in> set (getBehaviorByMode m) \<Longrightarrow> complementary (fst p) (snd p)"
  by (auto simp: getBehaviorByMode_def mode_tables complementary_def split: if_splits)

lemma tables_sender_first:
  "p \<in> set (getBehaviorByMode m) \<Longrightarrow> m \<in> {1, 2, 4} \<Longrightarrow> rb_Role (fst p) = DetectRoleSender \<and> rb_Role (snd p) = DetectRoleReceiver"
  by (auto simp: getBehaviorByMode_def mode_tables split: if_splits)

lemma tables_delays:
  "p \<in> set (getBehaviorByMode m) \<Longrightarrow> 0 \<le> rb_SendDelayMs (fst p) \<and> 0 \<le> rb_SendDelayMs (snd p)"
  by (auto simp: getBehaviorByMode_def mode_tables zero_behavior_def split: if_splits)

lemma score_ok_in_table:
  "score_ok s \<Longrightarrow> getBehaviorByModeAndIndex (bs_Mode s) (bs_Index s) \<in> set (getBehaviorByMode (bs_Mode s))"
  by (auto simp: score_ok_def getBehaviorByModeAndIndex_def Let_def)

lemma GetRecommandBehaviors_ok [inv_rules]:
  assumes "analyzer_ok a" and "GetRecommandBehaviors now key c v a = ((mode, index, cB, vB), a')"
  shows "analyzer_ok a'"
    and "\<exists>p \<in> set (getBehaviorByMode mode). (cB, vB) =
          (if mode = 1 \<and> nf_NatType c = EasyNAT \<or> mode = 2 \<and> nf_NatType c = HardNAT
              \<or> mode = 4 \<and> \<not> nf_RegularPortsChange c then (snd p, fst p) else (fst p, snd p))"
    and "mode \<le> 4"
proof -
  define r where "r = (case map_of (an_records a) key of None \<Rightarrow> NewMakeHoleRecords now c v | Some r \<Rightarrow> r)"
  have r: "mhr_ok r"
    using assms(1) by (auto simp: r_def analyzer_ok_def NewMakeHoleRecords_ok dest!: map_of_SomeD split: option.split)
  obtain m i r' where R: "Recommand now r = ((m, i), r')" by (metis prod.exhaust)
  obtain s where s: "s \<in> set (mhr_scores r)" "m = bs_Mode s" "i = bs_Index s"
    using Recommand_ok(2) [OF r, of now] R by auto
  then have sok: "score_ok s" using r by (auto simp: mhr_ok_def list_all_iff)
  let ?p = "getBehaviorByModeAndIndex m i"
  have eq: "mode = m" "index = i" "a' = a\<lparr>an_records := map_put key r' (an_records a)\<rparr>"
    "(cB, vB) = (if m = 1 \<and> nf_NatType c = EasyNAT \<or> m = 2 \<and> nf_NatType c = HardNAT
              \<or> m = 4 \<and> \<not> nf_RegularPortsChange c then (snd ?p, fst ?p) else (fst ?p, snd ?p))"
    using assms(2) R unfolding GetRecommandBehaviors_def r_def [symmetric]
    by (auto simp: Let_def split: prod.splits if_splits)
  show "mode \<le> 4" using sok s eq by (simp add: score_ok_def)
  show "\<exists>p \<in> set (getBehaviorByMode mode). (cB, vB) =
          (if mode = 1 \<and> nf_NatType c = EasyNAT \<or> mode = 2 \<and> nf_NatType c = HardNAT
              \<or> mode = 4 \<and> \<not> nf_RegularPortsChange c then (snd p, fst p) else (fst p, snd p))"
    using score_ok_in_table [OF sok] s eq by (intro bexI [of _ ?p]) simp_all
  have "mhr_ok r'" using Recommand_ok(1) [OF r, of now] R by simp
  with assms(1) show "analyzer_ok a'"
    unfolding analyzer_ok_def eq(3) using set_map_put [of key r' "an_records a"] by auto
qed

section \<open>No behaviour starves\<close>

text \<open>The positions chosen by \<open>n\<close> consecutive recommendations, and what has to happen before
  position \<open>j\<close> is chosen: every other position is brought below it.\<close>

fun chosen :: "nat \<Rightarrow> int \<Rightarrow> MakeHoleRecords \<Rightarrow> nat list" where
  "chosen 0 now r = []"
| "chosen (Suc n) now r = max_index (mhr_scores r) # chosen n now (snd (Recommand now r))"

definition backlog :: "nat \<Rightarrow> BehaviorScore list \<Rightarrow> nat" where
  "backlog j xs = (\<Sum>i<length xs. if i = j then 0 else nat (bs_Score (xs ! i) - bs_Score (xs ! j) + 1))"

lemma backlog_step:
  assumes "xs \<noteq> []" and "j < length xs" and "max_index xs \<noteq> j"
  defines "i \<equiv> max_index xs"
  shows "backlog j xs = Suc (backlog j (xs[i := (xs ! i)\<lparr>bs_Score := bs_Score (xs ! i) - 1\<rparr>]))"
proof -
  let ?ys = "xs[i := (xs ! i)\<lparr>bs_Score := bs_Score (xs ! i) - 1\<rparr>]"
  let ?f = "\<lambda>zs k. if k = j then 0 else nat (bs_Score (zs ! k) - bs_Score (zs ! j) + 1)"
  have i: "i < length xs" "bs_Score (xs ! j) \<le> bs_Score (xs ! i)" "i \<noteq> j"
    using max_index_max [OF assms(1)] assms(2,3) by (auto simp: i_def)
  have "?f ?ys k = ?f xs k" if "k \<noteq> i" for k using that i by simp
  moreover have "?f xs i = Suc (?f ?ys i)" using i by simp
  ultimately have "sum (?f xs) {..<length xs} = Suc (sum (?f ?ys) {..<length xs})"
    using i(1) by (simp add: sum.remove [of "{..<length xs}" i])
  then show ?thesis by (simp add: backlog_def)
qed

lemma chosen_within_backlog:
  assumes "j < length (mhr_scores r)" and "backlog j (mhr_scores r) < n"
  shows "j \<in> set (chosen n now r)"
  using assms
proof (induction n arbitrary: r)
  case (Suc n)
  let ?xs = "mhr_scores r" and ?i = "max_index (mhr_scores r)"
  have ne: "?xs \<noteq> []" using Suc.prems(1) by auto
  show ?case
  proof (cases "?i = j")
    case False
    let ?ys = "?xs[?i := (?xs ! ?i)\<lparr>bs_Score := bs_Score (?xs ! ?i) - 1\<rparr>]"
    have "mhr_scores (snd (Recommand now r)) = ?ys" using ne by (simp add: Recommand_def Let_def)
    moreover have "backlog j ?xs = Suc (backlog j ?ys)" by (rule backlog_step [OF ne Suc.prems(1) False])
    ultimately show ?thesis using Suc.IH [of "snd (Recommand now r)"] Suc.prems by simp
  qed simp
qed simp

lemma backlog_bound:
  assumes "j < length xs" and "\<forall>x \<in> set xs. lo \<le> bs_Score x \<and> bs_Score x \<le> hi"
  shows "backlog j xs \<le> length xs * nat (hi - lo + 1)"
proof -
  have "nat (bs_Score (xs ! i) - bs_Score (xs ! j) + 1) \<le> nat (hi - lo + 1)" if "i < length xs" for i
  proof -
    have "bs_Score (xs ! i) \<le> hi" "lo \<le> bs_Score (xs ! j)" using assms that by simp_all
    then show ?thesis by (intro nat_mono) linarith
  qed
  then have "backlog j xs \<le> (\<Sum>i<length xs. nat (hi - lo + 1))"
    unfolding backlog_def by (intro sum_mono) simp
  then show ?thesis by simp
qed

lemma scores_by_mode_range:
  "x \<in> set (getBehaviorScoresByMode2 m a b) \<Longrightarrow> bs_Score x = a \<or> bs_Score x = b"
  by (auto simp: getBehaviorScoresByMode2_def Let_def)

lemma NewMakeHoleRecords_range:
  "x \<in> set (mhr_scores (NewMakeHoleRecords now c v)) \<Longrightarrow> 0 \<le> bs_Score x \<and> bs_Score x \<le> 1"
  by (auto simp: NewMakeHoleRecords_def mode0_scores_def getBehaviorScoresByMode_def Let_def
      dest!: scores_by_mode_range split: prod.splits if_splits)

section \<open>Properties\<close>

text \<open>NAT classification. For a list of at least two addresses that parse and whose first IP
  is not empty, the classification succeeds and says: easy exactly if all mapped addresses are
  the same; otherwise which of IP and port changed; the port difference is the spread of the
  ports if only the port changed, and is regular exactly if it is between 1 and 5; public
  exactly if one of the mapped IPs is a local one.\<close>

theorem ClassifyNATFeature_correct:
  assumes "map parse_addr addrs = map Some (t # ts)" and "ts \<noteq> []" and "fst t \<noteq> []"
    and ports: "\<forall>u \<in> set (t # ts). 0 \<le> snd (snd u) \<and> snd (snd u) \<le> 65535"
  defines "ipc \<equiv> \<exists>u \<in> set ts. fst u \<noteq> fst t" and "pc \<equiv> \<exists>u \<in> set ts. fst (snd u) \<noteq> fst (snd t)"
    and "spread \<equiv> Max ((snd \<circ> snd) ` set (t # ts)) - Min ((snd \<circ> snd) ` set (t # ts))"
  shows "\<exists>f. ClassifyNATFeature addrs localIPs = ok f
       \<and> (nf_NatType f = EasyNAT \<longleftrightarrow> \<not> ipc \<and> \<not> pc)
       \<and> nf_Behavior f = (if ipc then (if pc then BehaviorBothChanged else BehaviorIPChanged)
                          else if pc then BehaviorPortChanged else BehaviorNoChange)
       \<and> nf_PortsDifference f = (if \<not> ipc \<and> pc then spread else 0)
       \<and> (nf_RegularPortsChange f \<longleftrightarrow> \<not> ipc \<and> pc \<and> 1 \<le> spread \<and> spread \<le> 5)
       \<and> (nf_PublicNetwork f \<longleftrightarrow> (\<exists>u \<in> set (t # ts). fst u \<in> set localIPs))"
proof -
  obtain s where s: "classify_loop localIPs addrs classify_init = ok s"
    "cs_ipChanged s \<longleftrightarrow> ipc" "cs_portChanged s \<longleftrightarrow> pc"
    "cs_public s \<longleftrightarrow> (\<exists>u \<in> set (t # ts). fst u \<in> set localIPs)"
    "cs_portMax s = Max ((snd \<circ> snd) ` set (t # ts))" "cs_portMin s = Min ((snd \<circ> snd) ` set (t # ts))"
    using Classify_spec [OF assms(1,3)] unfolding ipc_def pc_def by blast
  have "0 \<le> Min ((snd \<circ> snd) ` set (t # ts))" "Max ((snd \<circ> snd) ` set (t # ts)) \<le> 65535"
    using ports by auto
  moreover have "Min ((snd \<circ> snd) ` set (t # ts)) \<le> Max ((snd \<circ> snd) ` set (t # ts))" by (rule order_trans [OF Min_le Max_ge, of _ "snd (snd t)"]) auto
  ultimately have "\<bar>spread\<bar> \<le> 65535" unfolding spread_def by linarith
  then have w: "wrap64 spread = spread" by (intro wrap64_id int64_ok_small) simp
  have len: "\<not> length addrs \<le> 1" using arg_cong [OF assms(1), of length] assms(2) by (cases ts) auto
  have "ClassifyNATFeature addrs localIPs = ok (classify_result s)"
    using s(1) len by (simp add: ClassifyNATFeature_def)
  then show ?thesis
    using s(2-4) w unfolding classify_result_def s(5,6) spread_def [symmetric]
    by (cases ipc; cases pc) (auto simp: Let_def)
qed

theorem ClassifyNATFeature_correct_witness:
  "\<exists>f. ClassifyNATFeature [''1.2.3.4:1000'', ''1.2.3.4:1003''] [''10.0.0.1''] = ok f
     \<and> nf_Behavior f = BehaviorPortChanged \<and> nf_PortsDifference f = 3 \<and> nf_RegularPortsChange f"
proof -
  have p: "map parse_addr [''1.2.3.4:1000'', ''1.2.3.4:1003''] =
      map Some [(''1.2.3.4'', ''1000'', 1000), (''1.2.3.4'', ''1003'', 1003)]" by code_simp
  show ?thesis
    using ClassifyNATFeature_correct [OF p, of "[''10.0.0.1'']"] by (simp add: ex_simps) blast
qed

text \<open>Recommended roles. Whatever the history of the analyzer, the two behaviours it
  recommends are one sender and one receiver; in mode 1 a hard NAT facing an easy one is the
  sender, in mode 2 it is the receiver, and in mode 4 the side with regular port changes
  facing one without is the sender. The analyzer's records stay well formed.\<close>

theorem recommended_roles:
  assumes "analyzer_ok a" and R: "GetRecommandBehaviors now key c v a = ((mode, index, cB, vB), a')"
  shows "complementary cB vB \<and> analyzer_ok a'
       \<and> (mode = 1 \<and> nf_NatType c \<noteq> nf_NatType v \<longrightarrow>
            (rb_Role cB = DetectRoleSender \<longleftrightarrow> nf_NatType c = HardNAT)
          \<and> (rb_Role vB = DetectRoleSender \<longleftrightarrow> nf_NatType v = HardNAT))
       \<and> (mode = 2 \<and> nf_NatType c \<noteq> nf_NatType v \<longrightarrow>
            (rb_Role cB = DetectRoleReceiver \<longleftrightarrow> nf_NatType c = HardNAT)
          \<and> (rb_Role vB = DetectRoleReceiver \<longleftrightarrow> nf_NatType v = HardNAT))
       \<and> (mode = 4 \<and> nf_RegularPortsChange c \<noteq> nf_RegularPortsChange v \<longrightarrow>
            (rb_Role cB = DetectRoleSender \<longleftrightarrow> nf_RegularPortsChange c)
          \<and> (rb_Role vB = DetectRoleSender \<longleftrightarrow> nf_RegularPortsChange v))"
proof -
  obtain p where p: "p \<in> set (getBehaviorByMode mode)" "(cB, vB) =
          (if mode = 1 \<and> nf_NatType c = EasyNAT \<or> mode = 2 \<and> nf_NatType c = HardNAT
              \<or> mode = 4 \<and> \<not> nf_RegularPortsChange c then (snd p, fst p) else (fst p, snd p))"
    using GetRecommandBehaviors_ok(2) [OF assms] by blast
  have sf: "mode \<in> {1, 2, 4} \<Longrightarrow> rb_Role (fst p) = DetectRoleSender \<and> rb_Role (snd p) = DetectRoleReceiver"
    by (rule tables_sender_first [OF p(1)])
  have nt: "x \<noteq> y \<Longrightarrow> (y = HardNAT) = (x = EasyNAT)" for x y by (cases x; cases y) auto
  have comp: "complementary cB vB"
    using tables_complementary [OF p(1)] p(2) by (auto simp: complementary_def split: if_splits)
  consider "mode \<notin> {1, 2, 4}" | "mode = 1" | "mode = 2" | "mode = 4" by blast
  then show ?thesis
  proof cases
    case 1
    then show ?thesis using comp GetRecommandBehaviors_ok(1) [OF assms] by simp
  qed (use comp GetRecommandBehaviors_ok(1) [OF assms] sf p(2) nt [of "nf_NatType c" "nf_NatType v"] in
      \<open>cases "nf_NatType c"; cases "nf_NatType v"; auto split: if_splits\<close>)+
qed

definition demo_feature :: "nat_type \<Rightarrow> bool \<Rightarrow> bool \<Rightarrow> NatFeature" where
  "demo_feature nt reg pub = \<lparr>nf_NatType = nt, nf_Behavior = (if nt = EasyNAT then BehaviorNoChange else BehaviorPortChanged),
     nf_PortsDifference = 0, nf_RegularPortsChange = reg, nf_PublicNetwork = pub\<rparr>"

theorem recommended_roles_witness:
  "\<exists>cB vB a'. GetRecommandBehaviors 0 ''k'' (demo_feature EasyNAT False False) (demo_feature HardNAT True False) (NewAnalyzer 1)
      = ((1, 0, cB, vB), a') \<and> rb_Role vB = DetectRoleSender \<and> rb_Role cB = DetectRoleReceiver"
proof -
  obtain m i cB vB a' where R: "GetRecommandBehaviors 0 ''k'' (demo_feature EasyNAT False False) (demo_feature HardNAT True False) (NewAnalyzer 1)
      = ((m, i, cB, vB), a')" by (metis prod.exhaust)
  have "(case fst (GetRecommandBehaviors 0 ''k'' (demo_feature EasyNAT False False) (demo_feature HardNAT True False) (NewAnalyzer 1)) of
       (m, i, _) \<Rightarrow> (m, i)) = (1, 0)" by code_simp
  with R have mi: "m = 1" "i = 0" by auto
  have "analyzer_ok (NewAnalyzer 1)" by (simp add: analyzer_ok_def NewAnalyzer_def)
  from recommended_roles [OF this R] R mi show ?thesis
    by (auto simp: demo_feature_def complementary_def)
qed

text \<open>No behaviour starves. Starting from a fresh record with \<open>n\<close> behaviours, every one of
  them has been recommended after \<open>2 * n + 1\<close> attempts (unless successes are reported); in
  general position \<open>j\<close> is reached after as many attempts as it takes to bring every other
  score below its own.\<close>

theorem Recommand_fair:
  shows "(j < length (mhr_scores (NewMakeHoleRecords t0 c v)) \<longrightarrow>
            j \<in> set (chosen (2 * length (mhr_scores (NewMakeHoleRecords t0 c v)) + 1) now (NewMakeHoleRecords t0 c v)))
       \<and> (j < length (mhr_scores r) \<longrightarrow> j \<in> set (chosen (backlog j (mhr_scores r) + 1) now r))"
proof (intro conjI impI)
  let ?r = "NewMakeHoleRecords t0 c v"
  assume j: "j < length (mhr_scores ?r)"
  have "backlog j (mhr_scores ?r) \<le> length (mhr_scores ?r) * nat (1 - 0 + 1)"
    using NewMakeHoleRecords_range by (intro backlog_bound [OF j]) blast
  then show "j \<in> set (chosen (2 * length (mhr_scores ?r) + 1) now ?r)"
    by (intro chosen_within_backlog [OF j]) simp
qed (simp add: chosen_within_backlog del: chosen.simps)

theorem Recommand_fair_witness:
  "2 \<in> set (chosen 7 0 (NewMakeHoleRecords 0 (demo_feature HardNAT True False) (demo_feature HardNAT False False)))"
proof -
  let ?r = "NewMakeHoleRecords 0 (demo_feature HardNAT True False) (demo_feature HardNAT False False)"
  have l: "length (mhr_scores ?r) = 3" by code_simp
  from Recommand_fair [of 2 0 "demo_feature HardNAT True False" "demo_feature HardNAT False False" 0] l
  show ?thesis by simp
qed

text \<open>Candidate ports. For a mapped port between 1 and 65535 the range of candidate ports
  is never empty, contains the port, stays within the valid ports, and spans at most
  \<open>maxNumber\<close> ports to each side.\<close>

theorem getRangePorts_bounds:
  assumes "addrs \<noteq> []" and "SplitHostPort (last addrs) = Some (h, ps)" and "atoi ps = Some port"
    and "1 \<le> port" "port \<le> 65535" and "0 \<le> d" "d \<le> 65535" and "0 < m" "m \<le> 65535"
  shows "\<exists>from to. getRangePorts addrs d m = [(from, to)] \<and> 1 \<le> from \<and> from \<le> port \<and> port \<le> to \<and> to \<le> 65535
       \<and> port - from \<le> m \<and> to - port \<le> m"
proof -
  have w: "\<bar>x\<bar> \<le> 200000 \<Longrightarrow> wrap64 x = x" for x
    by (intro wrap64_id int64_ok_small) simp
  have "wrap64 (port - d) = port - d" "wrap64 (port - d - 5) = port - d - 5" "wrap64 (port - m) = port - m"
    "wrap64 (port + d) = port + d" "wrap64 (port + d + 5) = port + d + 5" "wrap64 (port + m) = port + m"
    using assms by (auto intro!: w)
  then have "getRangePorts addrs d m = [(max (max (port - d - 5) (port - m)) 1, min (min (port + d + 5) (port + m)) 65535)]"
    using assms by (simp add: getRangePorts_def)
  moreover have "port - max (max (port - d - 5) (port - m)) 1 \<le> m" "min (min (port + d + 5) (port + m)) 65535 - port \<le> m"
    by linarith+
  ultimately show ?thesis using assms by auto
qed

theorem getRangePorts_bounds_witness:
  "\<exists>from to. getRangePorts [''1.2.3.4:3''] 2 10 = [(from, to)] \<and> 1 \<le> from \<and> to \<le> 65535"
proof -
  have "SplitHostPort (last [''1.2.3.4:3'']) = Some (''1.2.3.4'', ''3'')" "atoi ''3'' = Some 3" by code_simp+
  from getRangePorts_bounds [OF _ this, of 2 10] show ?thesis by auto
qed

text \<open>A client in the public network is not always the receiver, although the comment on the
  table for mode 0 says so: when both sides have an easy NAT and the client is public, the
  five behaviours in which it receives are recommended first, and then one in which it
  sends.\<close>

theorem public_network_becomes_sender:
  "map (\<lambda>i. rb_Role (fst (mode0Behaviors ! i)))
     (chosen 6 now (NewMakeHoleRecords t0 (demo_feature EasyNAT False True) (demo_feature EasyNAT False False)))
   = [DetectRoleReceiver, DetectRoleReceiver, DetectRoleReceiver, DetectRoleReceiver, DetectRoleReceiver, DetectRoleSender]"
proof -
  have e: "mhr_scores (NewMakeHoleRecords t0 (demo_feature EasyNAT False True) (demo_feature EasyNAT False False))
         = mhr_scores (NewMakeHoleRecords 0 (demo_feature EasyNAT False True) (demo_feature EasyNAT False False))"
    by (simp add: NewMakeHoleRecords_def Let_def split: prod.split)
  have same: "mhr_scores r = mhr_scores r' \<Longrightarrow> chosen n now r = chosen n 0 r'" for n r r'
  proof (induction n arbitrary: r r')
    case (Suc n)
    have "mhr_scores (snd (Recommand now r)) = mhr_scores (snd (Recommand 0 r'))"
      using Suc.prems by (simp add: Recommand_def Let_def)
    from Suc.IH [OF this] Suc.prems show ?case by simp
  qed simp
  from same [OF e, of 6] have "chosen 6 now (NewMakeHoleRecords t0 (demo_feature EasyNAT False True) (demo_feature EasyNAT False False))
    = chosen 6 0 (NewMakeHoleRecords 0 (demo_feature EasyNAT False True) (demo_feature EasyNAT False False))" .
  moreover have "map (\<lambda>i. rb_Role (fst (mode0Behaviors ! i)))
     (chosen 6 0 (NewMakeHoleRecords 0 (demo_feature EasyNAT False True) (demo_feature EasyNAT False False)))
   = [DetectRoleReceiver, DetectRoleReceiver, DetectRoleReceiver, DetectRoleReceiver, DetectRoleReceiver, DetectRoleSender]"
    by code_simp
  ultimately show ?thesis by simp
qed

end
