(* ===== verification/Auth_Token.thy ===== *)
theory Auth_Token
  imports Go_Strconv
begin

text \<open>
  Token authentication, \<^verbatim>\<open>pkg/auth/token.go\<close> with \<open>GetAuthKey\<close> of \<^verbatim>\<open>pkg/util/util/util.go\<close> and the
  verifier that always passes of \<^verbatim>\<open>pkg/auth/pass.go\<close>. The hash (MD5 in hexadecimal) is the parameter
  \<open>md5hex\<close>; the clock is the argument \<open>now\<close>.
\<close>

definition GetAuthKey :: "(string \<Rightarrow> string) \<Rightarrow> string \<Rightarrow> int \<Rightarrow> string" where
  "GetAuthKey md5hex token timestamp = md5hex (token @ itoa timestamp)"

datatype AuthScope = AuthScopeHeartBeats | AuthScopeNewWorkConns

record TokenAuth =
  ta_additionalAuthScopes :: "AuthScope list"
  ta_token :: string

text \<open>The fields of the three messages that authentication reads and writes.\<close>

record signed =
  sg_Timestamp :: int
  sg_PrivilegeKey :: string

definition NewTokenAuth :: "AuthScope list \<Rightarrow> string \<Rightarrow> TokenAuth" where
  "NewTokenAuth scopes token = \<lparr>ta_additionalAuthScopes = scopes, ta_token = token\<rparr>"

definition SetLogin :: "(string \<Rightarrow> string) \<Rightarrow> TokenAuth \<Rightarrow> signed \<Rightarrow> signed" where
  "SetLogin md5hex auth m = m\<lparr>sg_PrivilegeKey := GetAuthKey md5hex (ta_token auth) (sg_Timestamp m)\<rparr>"

definition SetPing :: "(string \<Rightarrow> string) \<Rightarrow> int \<Rightarrow> TokenAuth \<Rightarrow> signed \<Rightarrow> signed" where
  "SetPing md5hex now auth m =
     (if AuthScopeHeartBeats \<notin> set (ta_additionalAuthScopes auth) then m
      else m\<lparr>sg_Timestamp := now, sg_PrivilegeKey := GetAuthKey md5hex (ta_token auth) now\<rparr>)"

definition SetNewWorkConn :: "(string \<Rightarrow> string) \<Rightarrow> int \<Rightarrow> TokenAuth \<Rightarrow> signed \<Rightarrow> signed" where
  "SetNewWorkConn md5hex now auth m =
     (if AuthScopeNewWorkConns \<notin> set (ta_additionalAuthScopes auth) then m
      else m\<lparr>sg_Timestamp := now, sg_PrivilegeKey := GetAuthKey md5hex (ta_token auth) now\<rparr>)"

datatype auth_error = LoginTokenMismatch | PingTokenMismatch | WorkConnTokenMismatch

definition VerifyLogin :: "(string \<Rightarrow> string) \<Rightarrow> TokenAuth \<Rightarrow> signed \<Rightarrow> (auth_error, unit) result" where
  "VerifyLogin md5hex auth m =
     (if GetAuthKey md5hex (ta_token auth) (sg_Timestamp m) \<noteq> sg_PrivilegeKey m then err LoginTokenMismatch
      else ok ())"

definition VerifyPing :: "(string \<Rightarrow> string) \<Rightarrow> TokenAuth \<Rightarrow> signed \<Rightarrow> (auth_error, unit) result" where
  "VerifyPing md5hex auth m =
     (if AuthScopeHeartBeats \<notin> set (ta_additionalAuthScopes auth) then ok ()
      else if GetAuthKey md5hex (ta_token auth) (sg_Timestamp m) \<noteq> sg_PrivilegeKey m then err PingTokenMismatch
      else ok ())"

definition VerifyNewWorkConn :: "(string \<Rightarrow> string) \<Rightarrow> TokenAuth \<Rightarrow> signed \<Rightarrow> (auth_error, unit) result" where
  "VerifyNewWorkConn md5hex auth m =
     (if AuthScopeNewWorkConns \<notin> set (ta_additionalAuthScopes auth) then ok ()
      else if GetAuthKey md5hex (ta_token auth) (sg_Timestamp m) \<noteq> sg_PrivilegeKey m then err WorkConnTokenMismatch
      else ok ())"

text \<open>The interface \<open>Verifier\<close> of \<^verbatim>\<open>pkg/auth/auth.go\<close> as a value; OIDC verification is third-party
  code and would be another value of this type.\<close>

record Verifier =
  vf_Login :: "signed \<Rightarrow> (auth_error, unit) result"
  vf_Ping :: "signed \<Rightarrow> (auth_error, unit) result"
  vf_NewWorkConn :: "signed \<Rightarrow> (auth_error, unit) result"

definition AlwaysPassVerifier :: Verifier where
  "AlwaysPassVerifier = \<lparr>vf_Login = (\<lambda>_. ok ()), vf_Ping = (\<lambda>_. ok ()), vf_NewWorkConn = (\<lambda>_. ok ())\<rparr>"

definition token_verifier :: "(string \<Rightarrow> string) \<Rightarrow> TokenAuth \<Rightarrow> Verifier" where
  "token_verifier md5hex auth = \<lparr>vf_Login = VerifyLogin md5hex auth, vf_Ping = VerifyPing md5hex auth,
     vf_NewWorkConn = VerifyNewWorkConn md5hex auth\<rparr>"

section \<open>Properties\<close>

text \<open>Token authentication. With a hash without collisions, a server accepts a login, or a
  heartbeat or work connection in a scope that is authenticated on both sides, prepared by a
  client exactly if both have the same token. A scope the server does not authenticate
  accepts every message.\<close>

theorem token_auth_iff:
  assumes "inj md5hex"
  shows "(VerifyLogin md5hex (NewTokenAuth ss t2) (SetLogin md5hex (NewTokenAuth cs t1) m) = ok () \<longleftrightarrow> t1 = t2)
       \<and> (AuthScopeHeartBeats \<in> set ss \<inter> set cs \<longrightarrow>
            (VerifyPing md5hex (NewTokenAuth ss t2) (SetPing md5hex now (NewTokenAuth cs t1) m) = ok () \<longleftrightarrow> t1 = t2))
       \<and> (AuthScopeNewWorkConns \<in> set ss \<inter> set cs \<longrightarrow>
            (VerifyNewWorkConn md5hex (NewTokenAuth ss t2) (SetNewWorkConn md5hex now (NewTokenAuth cs t1) m) = ok ()
             \<longleftrightarrow> t1 = t2))
       \<and> (AuthScopeHeartBeats \<notin> set ss \<longrightarrow> VerifyPing md5hex (NewTokenAuth ss t2) m' = ok ())
       \<and> (AuthScopeNewWorkConns \<notin> set ss \<longrightarrow> VerifyNewWorkConn md5hex (NewTokenAuth ss t2) m' = ok ())"
proof -
  have "GetAuthKey md5hex a ts = GetAuthKey md5hex b ts \<longleftrightarrow> a = b" for a b ts
    using injD [OF assms, of "a @ itoa ts" "b @ itoa ts"] by (auto simp: GetAuthKey_def)
  then show ?thesis
    by (auto simp: VerifyLogin_def VerifyPing_def VerifyNewWorkConn_def SetLogin_def SetPing_def
        SetNewWorkConn_def NewTokenAuth_def)
qed

theorem token_auth_iff_witness:
  "VerifyLogin id (NewTokenAuth [] ''secret'') (SetLogin id (NewTokenAuth [] ''secret'') \<lparr>sg_Timestamp = 5, sg_PrivilegeKey = []\<rparr>) = ok ()
   \<and> VerifyLogin id (NewTokenAuth [] ''secret'') (SetLogin id (NewTokenAuth [] ''other'') \<lparr>sg_Timestamp = 5, sg_PrivilegeKey = []\<rparr>) \<noteq> ok ()"
  using token_auth_iff [of id "[]" "''secret''" "[]" "''secret''" "\<lparr>sg_Timestamp = 5, sg_PrivilegeKey = []\<rparr>"]
    token_auth_iff [of id "[]" "''secret''" "[]" "''other''" "\<lparr>sg_Timestamp = 5, sg_PrivilegeKey = []\<rparr>"]
  by simp

text \<open>The token and the timestamp are hashed without a separator, so a key does not
  determine its token: whatever the hash, a key made with the token \<open>secret1\<close> at time 5 is
  accepted for the token \<open>secret\<close> at time 15.\<close>

theorem auth_key_ambiguous:
  "VerifyLogin md5hex (NewTokenAuth [] ''secret'')
     \<lparr>sg_Timestamp = 15, sg_PrivilegeKey = GetAuthKey md5hex ''secret1'' 5\<rparr> = ok ()"
proof -
  have "itoa 15 = ''15''" "itoa 5 = ''5''" by code_simp+
  then show ?thesis by (simp add: VerifyLogin_def NewTokenAuth_def GetAuthKey_def)
qed

end
