(* ===== verification/Name_Table.thy ===== *)
theory Name_Table
  imports Prelude
begin

text \<open>
  The contract that several managers of frps give for the names of proxies: a name is taken by
  at most one owner, taking a taken name fails and changes nothing, and giving a name up frees
  exactly this name. The locale is interpreted for the listeners of the visitor manager, the
  clients of the NAT hole controller and the proxies of the proxy manager.
\<close>

locale name_table =
  fixes nt_lookup :: "'s \<Rightarrow> string \<Rightarrow> 'v option"
    and nt_add :: "string \<Rightarrow> 'v \<Rightarrow> 's \<Rightarrow> ('e, 'r) result \<times> 's"
    and nt_del :: "string \<Rightarrow> 's \<Rightarrow> 's"
  assumes add_taken: "nt_lookup s n \<noteq> None \<Longrightarrow> (\<exists>e. fst (nt_add n v s) = err e) \<and> snd (nt_add n v s) = s"
    and add_free: "nt_lookup s n = None \<Longrightarrow> (\<exists>r. fst (nt_add n v s) = ok r)
          \<and> nt_lookup (snd (nt_add n v s)) = (nt_lookup s)(n \<mapsto> v)"
    and del_lookup: "nt_lookup (nt_del n s) = (nt_lookup s)(n := None)"
begin

lemma add_ok_iff: "(\<exists>r. fst (nt_add n v s) = ok r) \<longleftrightarrow> nt_lookup s n = None"
  using add_taken [of s n v] add_free [of s n v] by (cases "nt_lookup s n") auto

text \<open>Over any history of additions and deletions, an owner keeps its name until the name is
  deleted.\<close>

fun nt_step :: "(string \<times> 'v option) \<Rightarrow> 's \<Rightarrow> 's" where
  "nt_step (n, Some v) s = snd (nt_add n v s)"
| "nt_step (n, None) s = nt_del n s"

lemma lookup_step:
  "nt_lookup s n = Some v \<Longrightarrow> x \<noteq> (n, None) \<Longrightarrow> nt_lookup (nt_step x s) n = Some v"
proof (cases x)
  case (Pair m w)
  assume s: "nt_lookup s n = Some v" and x: "x \<noteq> (n, None)"
  show ?thesis
  proof (cases w)
    case None
    then show ?thesis using s x Pair by (simp add: del_lookup)
  next
    case (Some u)
    then show ?thesis using s Pair add_taken [of s m u] add_free [of s m u]
      by (cases "nt_lookup s m") auto
  qed
qed

lemma owner_keeps_name:
  "nt_lookup s n = Some v \<Longrightarrow> (n, None) \<notin> set xs \<Longrightarrow> nt_lookup (fold nt_step xs s) n = Some v"
proof (induction xs arbitrary: s)
  case (Cons x xs)
  then have "x \<noteq> (n, None)" by auto
  with Cons.prems(1) have "nt_lookup (nt_step x s) n = Some v" by (rule lookup_step)
  with Cons show ?case by simp
qed simp

lemma second_owner_refused:
  assumes "nt_lookup s n = None" and "(n, None) \<notin> set xs"
  shows "\<not> (\<exists>r. fst (nt_add n w (fold nt_step xs (snd (nt_add n v s)))) = ok r)"
proof -
  have "nt_lookup (snd (nt_add n v s)) n = Some v" using add_free [OF assms(1)] by simp
  then have "nt_lookup (fold nt_step xs (snd (nt_add n v s))) n = Some v" using assms(2) by (rule owner_keeps_name)
  then show ?thesis by (simp add: add_ok_iff)
qed

end

end
