(* ===== verification/Nathole_Controller.thy ===== *)
theory Nathole_Controller
  imports Nathole_Analysis Auth_Token Name_Table
begin

text \<open>
  The NAT hole controller of frps, \<^verbatim>\<open>pkg/nathole/controller.go\<close>. MD5 followed by
  hexadecimal coding is the parameter \<open>md5hex\<close>.

  \<open>HandleVisitor\<close> blocks while it waits for the client: it is split at that point into
  \<open>HandleVisitor\<close> (up to the wait), \<open>visitor_analyse\<close> (after the client's message arrived) and
  \<open>visitor_done\<close> (the deferred removal of the session). The step relation interleaves these
  with the other handlers.
\<close>

section \<open>Messages and state\<close>

record NatHoleVisitor =
  nv_TransactionID :: string
  nv_ProxyName :: string
  nv_PreCheck :: bool
  nv_Protocol :: string
  nv_SignKey :: string
  nv_Timestamp :: int
  nv_MappedAddrs :: "string list"
  nv_AssistedAddrs :: "string list"

record NatHoleClient =
  nc_TransactionID :: string
  nc_ProxyName :: string
  nc_Sid :: string
  nc_MappedAddrs :: "string list"
  nc_AssistedAddrs :: "string list"

record NatHoleDetectBehavior =
  db_Role :: role
  db_Mode :: nat
  db_TTL :: int
  db_SendDelayMs :: int
  db_ReadTimeoutMs :: int
  db_CandidatePorts :: "(int \<times> int) list"
  db_SendRandomPorts :: int
  db_ListenRandomPorts :: int

record NatHoleResp =
  nr_TransactionID :: string
  nr_Sid :: string
  nr_Protocol :: string
  nr_CandidateAddrs :: "string list"
  nr_AssistedAddrs :: "string list"
  nr_DetectBehavior :: NatHoleDetectBehavior
  nr_Error :: string

record NatHoleReport =
  nrep_Sid :: string
  nrep_Success :: bool

record ClientCfg =
  cc_name :: string
  cc_sk :: string
  cc_allowUsers :: "string list"

record Session =
  ss_sid :: string
  ss_analysisKey :: string
  ss_recommandMode :: nat
  ss_recommandIndex :: nat
  ss_visitorMsg :: NatHoleVisitor
  ss_clientMsg :: "NatHoleClient option"
  ss_notified :: bool

record Controller =
  clientCfgs :: "string \<rightharpoonup> ClientCfg"
  sessions :: "string \<rightharpoonup> Session"
  analyzer :: Analyzer

definition NewController :: "int \<Rightarrow> Controller" where
  "NewController d = \<lparr>clientCfgs = Map.empty, sessions = Map.empty, analyzer = NewAnalyzer d\<rparr>"

section \<open>Operations\<close>

datatype nathole_error = ProxyRepeated string

definition ListenClient ::
  "string \<Rightarrow> string \<Rightarrow> string list \<Rightarrow> Controller \<Rightarrow> (nathole_error, unit) result \<times> Controller" where
  "ListenClient name sk allowUsers c =
     (let cfg = \<lparr>cc_name = name, cc_sk = sk, cc_allowUsers = allowUsers\<rparr> in
      if clientCfgs c name \<noteq> None then (err (ProxyRepeated name), c)
      else (ok (), c\<lparr>clientCfgs := (clientCfgs c)(name \<mapsto> cfg)\<rparr>))"

definition CloseClient :: "string \<Rightarrow> Controller \<Rightarrow> Controller" where
  "CloseClient name c = c\<lparr>clientCfgs := (clientCfgs c)(name := None)\<rparr>"

definition zero_detect :: NatHoleDetectBehavior where
  "zero_detect = \<lparr>db_Role = NoRole, db_Mode = 0, db_TTL = 0, db_SendDelayMs = 0, db_ReadTimeoutMs = 0,
     db_CandidatePorts = [], db_SendRandomPorts = 0, db_ListenRandomPorts = 0\<rparr>"

definition GenNatHoleResponse :: "string \<Rightarrow> Session option \<Rightarrow> string \<Rightarrow> NatHoleResp" where
  "GenNatHoleResponse transactionID session errInfo =
     \<lparr>nr_TransactionID = transactionID, nr_Sid = (case session of None \<Rightarrow> [] | Some s \<Rightarrow> ss_sid s),
      nr_Protocol = [], nr_CandidateAddrs = [], nr_AssistedAddrs = [], nr_DetectBehavior = zero_detect,
      nr_Error = errInfo\<rparr>"

text \<open>What \<open>HandleVisitor\<close> has done when it answers or starts to wait.\<close>

datatype visitor_outcome = Reply NatHoleResp | Waiting string

definition HandleVisitor ::
  "(string \<Rightarrow> string) \<Rightarrow> NatHoleVisitor \<Rightarrow> string \<Rightarrow> string \<Rightarrow> Controller \<Rightarrow> visitor_outcome \<times> Controller" where
  "HandleVisitor md5hex m visitorUser sid c =
     (if nv_PreCheck m then
        (case clientCfgs c (nv_ProxyName m) of
           None \<Rightarrow> (Reply (GenNatHoleResponse (nv_TransactionID m) None
                     (''xtcp server for ['' @ nv_ProxyName m @ ''] doesn't exist'')), c)
         | Some cfg \<Rightarrow>
             (if visitorUser \<notin> set (cc_allowUsers cfg) \<and> ''*'' \<notin> set (cc_allowUsers cfg)
              then (Reply (GenNatHoleResponse (nv_TransactionID m) None
                     (''xtcp visitor user ['' @ visitorUser @ ''] not allowed for ['' @ nv_ProxyName m @ '']'')), c)
              else (Reply (GenNatHoleResponse (nv_TransactionID m) None []), c)))
      else
        (let session = \<lparr>ss_sid = sid, ss_analysisKey = [], ss_recommandMode = 0, ss_recommandIndex = 0,
                        ss_visitorMsg = m, ss_clientMsg = None, ss_notified = False\<rparr>
         in case clientCfgs c (nv_ProxyName m) of
              None \<Rightarrow> (Reply (GenNatHoleResponse (nv_TransactionID m) None
                        (''xtcp server for ['' @ nv_ProxyName m @ ''] doesn't exist'')), c)
            | Some cfg \<Rightarrow>
                (if nv_SignKey m \<noteq> GetAuthKey md5hex (cc_sk cfg) (nv_Timestamp m)
                 then (Reply (GenNatHoleResponse (nv_TransactionID m) None
                        (''xtcp connection of ['' @ nv_ProxyName m @ ''] auth failed'')), c)
                 else (Waiting sid, c\<lparr>sessions := (sessions c)(sid \<mapsto> session)\<rparr>))))"

definition HandleClient :: "NatHoleClient \<Rightarrow> Controller \<Rightarrow> Controller" where
  "HandleClient m c =
     (case sessions c (nc_Sid m) of
        None \<Rightarrow> c
      | Some session \<Rightarrow>
          c\<lparr>sessions := (sessions c)(nc_Sid m \<mapsto> session\<lparr>ss_clientMsg := Some m, ss_notified := True\<rparr>)\<rparr>)"

definition HandleReport :: "int \<Rightarrow> NatHoleReport \<Rightarrow> Controller \<Rightarrow> Controller" where
  "HandleReport now m c =
     (case sessions c (nrep_Sid m) of
        None \<Rightarrow> c
      | Some session \<Rightarrow>
          (if nrep_Success m
           then c\<lparr>analyzer := an_ReportSuccess now (ss_analysisKey session) (ss_recommandMode session)
                     (ss_recommandIndex session) (analyzer c)\<rparr>
           else c))"

definition nat_type_string :: "nat_type \<Rightarrow> string" where
  "nat_type_string t = (case t of EasyNAT \<Rightarrow> ''EasyNAT'' | HardNAT \<Rightarrow> ''HardNAT'')"

definition behavior_string :: "nat_behavior \<Rightarrow> string" where
  "behavior_string b = (case b of
       BehaviorNoChange \<Rightarrow> ''BehaviorNoChange'' | BehaviorIPChanged \<Rightarrow> ''BehaviorIPChanged''
     | BehaviorPortChanged \<Rightarrow> ''BehaviorPortChanged'' | BehaviorBothChanged \<Rightarrow> ''BehaviorBothChanged'')"

definition bool_string :: "bool \<Rightarrow> string" where
  "bool_string b = (if b then ''true'' else ''false'')"

definition feature_key :: "string list \<Rightarrow> NatFeature \<Rightarrow> string" where
  "feature_key addrs f =
     (case remdups_adj (parseIPs addrs) of [] \<Rightarrow> [] | ip # _ \<Rightarrow> ip)
     @ nat_type_string (nf_NatType f) @ behavior_string (nf_Behavior f) @ bool_string (nf_RegularPortsChange f)"

definition genAnalysisKey :: "(string \<Rightarrow> string) \<Rightarrow> NatHoleVisitor \<Rightarrow> NatFeature \<Rightarrow> NatHoleClient \<Rightarrow> NatFeature \<Rightarrow> string" where
  "genAnalysisKey md5hex vm vf cm cf =
     md5hex (feature_key (nv_MappedAddrs vm) vf @ feature_key (nc_MappedAddrs cm) cf)"

datatype analysis_error = ClientClassify classify_error | VisitorClassify classify_error

definition detect_behavior :: "nat \<Rightarrow> RecommandBehavior \<Rightarrow> int \<Rightarrow> (int \<times> int) list \<Rightarrow> NatHoleDetectBehavior" where
  "detect_behavior mode b timeoutMs ports =
     \<lparr>db_Role = rb_Role b, db_Mode = mode, db_TTL = rb_TTL b, db_SendDelayMs = rb_SendDelayMs b,
      db_ReadTimeoutMs = timeoutMs - rb_SendDelayMs b, db_CandidatePorts = ports,
      db_SendRandomPorts = rb_PortsRandomNumber b, db_ListenRandomPorts = rb_ListenRandomPorts b\<rparr>"

text \<open>\<open>analysis\<close> of a session whose client message is there: the two responses (visitor's, client's),
  the session with key, mode and index, and the analyzer.\<close>

definition analysis ::
  "(string \<Rightarrow> string) \<Rightarrow> int \<Rightarrow> Session \<Rightarrow> NatHoleClient \<Rightarrow> Analyzer
   \<Rightarrow> (analysis_error, NatHoleResp \<times> NatHoleResp \<times> Session) result \<times> Analyzer" where
  "analysis md5hex now session cm a =
     (let vm = ss_visitorMsg session in
      case ClassifyNATFeature (nc_MappedAddrs cm) (parseIPs (nc_AssistedAddrs cm)) of
        Inl e \<Rightarrow> (err (ClientClassify e), a)
      | Inr cf \<Rightarrow>
          (case ClassifyNATFeature (nv_MappedAddrs vm) (parseIPs (nv_AssistedAddrs vm)) of
             Inl e \<Rightarrow> (err (VisitorClassify e), a)
           | Inr vf \<Rightarrow>
               (let key = genAnalysisKey md5hex vm vf cm cf;
                    ((mode, index, cB, vB), a') = GetRecommandBehaviors now key cf vf a;
                    timeout0 = max (rb_SendDelayMs cB) (rb_SendDelayMs vB) + 5000;
                    timeoutMs = (if rb_ListenRandomPorts cB > 0 \<or> rb_ListenRandomPorts vB > 0
                                 then timeout0 + 30000 else timeout0);
                    vResp = \<lparr>nr_TransactionID = nv_TransactionID vm, nr_Sid = ss_sid session, nr_Protocol = nv_Protocol vm,
                             nr_CandidateAddrs = remdups_adj (nc_MappedAddrs cm),
                             nr_AssistedAddrs = remdups_adj (nc_AssistedAddrs cm),
                             nr_DetectBehavior = detect_behavior mode vB timeoutMs
                               (getRangePorts (nc_MappedAddrs cm) (nf_PortsDifference cf) (rb_PortsRangeNumber vB)),
                             nr_Error = []\<rparr>;
                    cResp = \<lparr>nr_TransactionID = nc_TransactionID cm, nr_Sid = ss_sid session, nr_Protocol = nv_Protocol vm,
                             nr_CandidateAddrs = remdups_adj (nv_MappedAddrs vm),
                             nr_AssistedAddrs = remdups_adj (nv_AssistedAddrs vm),
                             nr_DetectBehavior = detect_behavior mode cB timeoutMs
                               (getRangePorts (nv_MappedAddrs vm) (nf_PortsDifference vf) (rb_PortsRangeNumber cB)),
                             nr_Error = []\<rparr>
                in (ok (vResp, cResp, session\<lparr>ss_analysisKey := key, ss_recommandMode := mode, ss_recommandIndex := index\<rparr>), a'))))"

text \<open>The error text of a failed analysis; the detail that follows the colon in the source (the
  library's message) is left out.\<close>

definition classify_error_string :: "analysis_error \<Rightarrow> string" where
  "classify_error_string e = (case e of
       ClientClassify _ \<Rightarrow> ''classify client nat feature error'' | VisitorClassify _ \<Rightarrow> ''classify visitor nat feature error'')"

text \<open>The second part of \<open>HandleVisitor\<close>, once the session has been notified: the responses that
  are sent.\<close>

definition visitor_analyse ::
  "(string \<Rightarrow> string) \<Rightarrow> int \<Rightarrow> string \<Rightarrow> Controller \<Rightarrow> (NatHoleResp \<times> NatHoleResp) option \<times> Controller" where
  "visitor_analyse md5hex now sid c =
     (case sessions c sid of
        None \<Rightarrow> (None, c)
      | Some session \<Rightarrow>
          (case ss_clientMsg session of
             None \<Rightarrow> (None, c)
           | Some cm \<Rightarrow>
               (case analysis md5hex now session cm (analyzer c) of
                  (Inl e, a) \<Rightarrow>
                    (Some (GenNatHoleResponse (nv_TransactionID (ss_visitorMsg session)) None (classify_error_string e),
                           GenNatHoleResponse (nc_TransactionID cm) None (classify_error_string e)),
                     c\<lparr>analyzer := a\<rparr>)
                | (Inr (vResp, cResp, session'), a) \<Rightarrow>
                    (Some (vResp, cResp), c\<lparr>analyzer := a, sessions := (sessions c)(sid \<mapsto> session')\<rparr>))))"

definition visitor_done :: "string \<Rightarrow> Controller \<Rightarrow> Controller" where
  "visitor_done sid c = c\<lparr>sessions := (sessions c)(sid := None)\<rparr>"

text \<open>The clients of the controller are a table of names; what is stored under a name is its secret
  key and its allowed users.\<close>

definition client_entry :: "Controller \<Rightarrow> string \<Rightarrow> (string \<times> string list) option" where
  "client_entry c n = map_option (\<lambda>cfg. (cc_sk cfg, cc_allowUsers cfg)) (clientCfgs c n)"

interpretation clients: name_table client_entry "\<lambda>n v. ListenClient n (fst v) (snd v)" CloseClient
  by unfold_locales
     (auto simp: client_entry_def ListenClient_def CloseClient_def Let_def fun_eq_iff)

section \<open>Reachable states\<close>

text \<open>The steps of the controller. \<open>S\<close> is the set of pairs of a proxy name and a secret key that
  are ever registered; session ids are fresh (they carry 16 random hexadecimal digits).\<close>

inductive nh_step :: "(string \<Rightarrow> string) \<Rightarrow> (string \<times> string) set \<Rightarrow> Controller \<Rightarrow> Controller \<Rightarrow> bool"
  for md5hex S where
  listen: "(name, sk) \<in> S \<Longrightarrow> nh_step md5hex S c (snd (ListenClient name sk users c))"
| close: "nh_step md5hex S c (CloseClient name c)"
| visitor: "sessions c sid = None \<Longrightarrow> nh_step md5hex S c (snd (HandleVisitor md5hex m user sid c))"
| client: "nh_step md5hex S c (HandleClient m c)"
| analyse: "nh_step md5hex S c (snd (visitor_analyse md5hex now sid c))"
| finished: "nh_step md5hex S c (visitor_done sid c)"
| report: "nh_step md5hex S c (HandleReport now rep c)"
| clean: "nh_step md5hex S c (c\<lparr>analyzer := snd (Clean now (analyzer c))\<rparr>)"

inductive nh_reachable :: "(string \<Rightarrow> string) \<Rightarrow> (string \<times> string) set \<Rightarrow> int \<Rightarrow> Controller \<Rightarrow> bool"
  for md5hex S d where
  init: "nh_reachable md5hex S d (NewController d)"
| step: "nh_reachable md5hex S d c \<Longrightarrow> nh_step md5hex S c c' \<Longrightarrow> nh_reachable md5hex S d c'"

inductive_cases nh_step_cases: "nh_step md5hex S c c'"

text \<open>The invariant: registered clients have a secret of \<open>S\<close>; every session carries its own id
  and a visitor message signed with a secret of \<open>S\<close> for the proxy it asks for; a notified
  session has the client's message, addressed to it; the analyzer is well formed.\<close>

definition session_ok :: "(string \<Rightarrow> string) \<Rightarrow> (string \<times> string) set \<Rightarrow> string \<Rightarrow> Session \<Rightarrow> bool" where
  "session_ok md5hex S sid s \<longleftrightarrow>
     ss_sid s = sid
   \<and> (\<exists>sk. (nv_ProxyName (ss_visitorMsg s), sk) \<in> S
         \<and> nv_SignKey (ss_visitorMsg s) = GetAuthKey md5hex sk (nv_Timestamp (ss_visitorMsg s)))
   \<and> \<not> nv_PreCheck (ss_visitorMsg s)
   \<and> (ss_notified s \<longrightarrow> (\<exists>cm. ss_clientMsg s = Some cm \<and> nc_Sid cm = sid))"

definition nh_inv :: "(string \<Rightarrow> string) \<Rightarrow> (string \<times> string) set \<Rightarrow> Controller \<Rightarrow> bool" where
  "nh_inv md5hex S c \<longleftrightarrow>
     (\<forall>n cfg. clientCfgs c n = Some cfg \<longrightarrow> cc_name cfg = n \<and> (n, cc_sk cfg) \<in> S)
   \<and> (\<forall>sid s. sessions c sid = Some s \<longrightarrow> session_ok md5hex S sid s)
   \<and> analyzer_ok (analyzer c)"

lemma nh_invI:
  assumes "\<And>n cfg. clientCfgs c n = Some cfg \<Longrightarrow> cc_name cfg = n \<and> (n, cc_sk cfg) \<in> S"
    and "\<And>sid s. sessions c sid = Some s \<Longrightarrow> session_ok md5hex S sid s"
    and "analyzer_ok (analyzer c)"
  shows "nh_inv md5hex S c"
  using assms by (simp add: nh_inv_def)

lemma nh_invD:
  assumes "nh_inv md5hex S c"
  shows "clientCfgs c n = Some cfg \<Longrightarrow> cc_name cfg = n \<and> (n, cc_sk cfg) \<in> S"
    and "sessions c sid = Some s \<Longrightarrow> session_ok md5hex S sid s"
    and "analyzer_ok (analyzer c)"
  using assms by (auto simp: nh_inv_def)

lemma an_ReportSuccess_ok [inv_rules]: "analyzer_ok a \<Longrightarrow> analyzer_ok (an_ReportSuccess now key m i a)"
proof (cases "map_of (an_records a) key")
  case (Some r)
  assume ok: "analyzer_ok a"
  with Some have "mhr_ok r" by (auto simp: analyzer_ok_def dest!: map_of_SomeD)
  with ok Some show ?thesis
    using set_map_put [of key "mhr_ReportSuccess now m i r" "an_records a"]
    by (auto simp: an_ReportSuccess_def analyzer_ok_def mhr_ReportSuccess_ok)
qed (simp add: an_ReportSuccess_def)

lemma Clean_ok [inv_rules]: "analyzer_ok a \<Longrightarrow> analyzer_ok (snd (Clean now a))"
  by (simp add: Clean_def analyzer_ok_def Let_def)

lemma analysis_ok:
  assumes "analyzer_ok a"
  shows "analyzer_ok (snd (analysis md5hex now s cm a))"
    and "fst (analysis md5hex now s cm a) = ok (v, cr, s') \<Longrightarrow>
         ss_sid s' = ss_sid s \<and> ss_visitorMsg s' = ss_visitorMsg s \<and> ss_clientMsg s' = ss_clientMsg s
         \<and> ss_notified s' = ss_notified s"
proof -
  have R: "analyzer_ok a'" if "GetRecommandBehaviors now key cf vf a = (x, a')" for key cf vf x a'
    using GetRecommandBehaviors_ok(1) [OF assms] that by (metis prod.exhaust)
  show "analyzer_ok (snd (analysis md5hex now s cm a))"
    using assms R by (auto simp: analysis_def Let_def split: sum.split prod.split)
  show "fst (analysis md5hex now s cm a) = ok (v, cr, s') \<Longrightarrow>
         ss_sid s' = ss_sid s \<and> ss_visitorMsg s' = ss_visitorMsg s \<and> ss_clientMsg s' = ss_clientMsg s
         \<and> ss_notified s' = ss_notified s"
    by (auto simp: analysis_def Let_def split: sum.splits prod.splits)
qed

lemma HandleVisitor_inv:
  assumes inv: "nh_inv md5hex S c"
  shows "nh_inv md5hex S (snd (HandleVisitor md5hex m user sid c))"
proof (cases "\<exists>cfg. \<not> nv_PreCheck m \<and> clientCfgs c (nv_ProxyName m) = Some cfg
                \<and> nv_SignKey m = GetAuthKey md5hex (cc_sk cfg) (nv_Timestamp m)")
  case True
  then obtain cfg where cfg: "\<not> nv_PreCheck m" "clientCfgs c (nv_ProxyName m) = Some cfg"
    "nv_SignKey m = GetAuthKey md5hex (cc_sk cfg) (nv_Timestamp m)" by blast
  define s where "s = \<lparr>ss_sid = sid, ss_analysisKey = [], ss_recommandMode = 0, ss_recommandIndex = 0,
                        ss_visitorMsg = m, ss_clientMsg = None, ss_notified = False\<rparr>"
  have c': "snd (HandleVisitor md5hex m user sid c) = c\<lparr>sessions := (sessions c)(sid \<mapsto> s)\<rparr>"
    using cfg by (simp add: HandleVisitor_def s_def Let_def)
  have "session_ok md5hex S sid s"
    using nh_invD(1) [OF inv cfg(2)] cfg by (auto simp: session_ok_def s_def)
  then show ?thesis unfolding c' using nh_invD [OF inv] by (intro nh_invI) (auto split: if_splits)
next
  case False
  then have "snd (HandleVisitor md5hex m user sid c) = c"
    by (auto simp: HandleVisitor_def Let_def split: option.split)
  then show ?thesis using inv by simp
qed

lemma HandleClient_inv:
  assumes inv: "nh_inv md5hex S c"
  shows "nh_inv md5hex S (HandleClient m c)"
proof (cases "sessions c (nc_Sid m)")
  case (Some s)
  then have "session_ok md5hex S (nc_Sid m) (s\<lparr>ss_clientMsg := Some m, ss_notified := True\<rparr>)"
    using nh_invD(2) [OF inv Some] by (simp add: session_ok_def)
  then show ?thesis
    using Some nh_invD [OF inv] by (intro nh_invI) (auto simp: HandleClient_def split: if_splits)
qed (simp add: HandleClient_def inv)

lemma visitor_analyse_inv:
  assumes inv: "nh_inv md5hex S c"
  shows "nh_inv md5hex S (snd (visitor_analyse md5hex now sid c))"
proof (cases "\<exists>s cm. sessions c sid = Some s \<and> ss_clientMsg s = Some cm")
  case True
  then obtain s cm where s: "sessions c sid = Some s" "ss_clientMsg s = Some cm" by blast
  obtain res a where A: "analysis md5hex now s cm (analyzer c) = (res, a)" by fastforce
  have a: "analyzer_ok a" using analysis_ok(1) [OF nh_invD(3) [OF inv], of md5hex now s cm] A by simp
  show ?thesis
  proof (cases res)
    case (Inl e)
    then show ?thesis using s A a nh_invD [OF inv] by (intro nh_invI) (auto simp: visitor_analyse_def)
  next
    case (Inr x)
    obtain v cr s' where x: "x = (v, cr, s')" by (cases x)
    have "session_ok md5hex S sid s'"
      using analysis_ok(2) [OF nh_invD(3) [OF inv], of md5hex now s cm v cr s'] A Inr x nh_invD(2) [OF inv s(1)]
      by (simp add: session_ok_def)
    then show ?thesis
      using s A a Inr x nh_invD [OF inv] by (intro nh_invI) (auto simp: visitor_analyse_def split: if_splits)
  qed
next
  case False
  then have "snd (visitor_analyse md5hex now sid c) = c"
    by (auto simp: visitor_analyse_def split: option.split)
  then show ?thesis using inv by simp
qed

lemma nh_step_inv: "nh_step md5hex S c c' \<Longrightarrow> nh_inv md5hex S c \<Longrightarrow> nh_inv md5hex S c'"
proof (induction rule: nh_step.induct)
  case (listen name sk c users)
  then show ?case
    by (intro nh_invI) (auto simp: ListenClient_def Let_def dest: nh_invD split: if_splits)
next
  case (close c name)
  then show ?case by (intro nh_invI) (auto simp: CloseClient_def dest: nh_invD split: if_splits)
next
  case (finished c sid)
  then show ?case by (intro nh_invI) (auto simp: visitor_done_def dest: nh_invD split: if_splits)
next
  case (report c now rep)
  then show ?case
    by (intro nh_invI) (auto simp: HandleReport_def an_ReportSuccess_ok dest: nh_invD split: option.splits if_splits)
next
  case (clean c now)
  then show ?case by (intro nh_invI) (auto simp: Clean_ok dest: nh_invD)
qed (simp_all add: HandleVisitor_inv HandleClient_inv visitor_analyse_inv)

lemma nh_reachable_inv: "nh_reachable md5hex S d c \<Longrightarrow> nh_inv md5hex S c"
proof (induction rule: nh_reachable.induct)
  case init
  then show ?case by (simp add: nh_inv_def NewController_def analyzer_ok_def NewAnalyzer_def)
qed (rule nh_step_inv)

section \<open>Properties\<close>

text \<open>C34. Hole punching sessions are authenticated. In every reachable state of the controller,
  whatever the interleaving of visitors, clients, reports, timeouts and deregistrations, a
  session carries its own id and a visitor message whose signature is the hash of the
  message's timestamp with a secret key that was registered for the proxy it names; once
  notified it holds a client message addressed to this session.\<close>

theorem session_authentic:
  assumes "nh_reachable md5hex S d c" and "sessions c sid = Some s"
  shows "ss_sid s = sid
       \<and> (\<exists>sk. (nv_ProxyName (ss_visitorMsg s), sk) \<in> S
            \<and> nv_SignKey (ss_visitorMsg s) = GetAuthKey md5hex sk (nv_Timestamp (ss_visitorMsg s)))
       \<and> (ss_notified s \<longrightarrow> (\<exists>cm. ss_clientMsg s = Some cm \<and> nc_Sid cm = sid))"
  using nh_invD(2) [OF nh_reachable_inv [OF assms(1)] assms(2)] by (auto simp: session_ok_def)

definition demo_visitor :: NatHoleVisitor where
  "demo_visitor = \<lparr>nv_TransactionID = ''t'', nv_ProxyName = ''p'', nv_PreCheck = False, nv_Protocol = ''quic'',
     nv_SignKey = ''sk7'', nv_Timestamp = 7, nv_MappedAddrs = [''1.2.3.4:1'', ''1.2.3.4:1''], nv_AssistedAddrs = []\<rparr>"

definition demo_controller :: Controller where
  "demo_controller = snd (ListenClient ''p'' ''sk'' [''alice''] (NewController 1))"

theorem session_authentic_witness:
  "\<exists>s. sessions (snd (HandleVisitor id demo_visitor ''mallory'' ''s1'' demo_controller)) ''s1'' = Some s
     \<and> (\<exists>sk. (''p'', sk) \<in> {(''p'', ''sk'')} \<and> nv_SignKey (ss_visitorMsg s) = GetAuthKey id sk 7)"
proof -
  have r: "nh_reachable id {(''p'', ''sk'')} 1 (snd (HandleVisitor id demo_visitor ''mallory'' ''s1'' demo_controller))"
  proof (rule nh_reachable.step [of _ _ _ demo_controller])
    have "nh_step id {(''p'', ''sk'')} (NewController 1) demo_controller"
      unfolding demo_controller_def by (rule nh_step.listen) simp
    then show "nh_reachable id {(''p'', ''sk'')} 1 demo_controller"
      by (rule nh_reachable.step [OF nh_reachable.init])
    show "nh_step id {(''p'', ''sk'')} demo_controller (snd (HandleVisitor id demo_visitor ''mallory'' ''s1'' demo_controller))"
      by (rule nh_step.visitor) (simp add: demo_controller_def NewController_def ListenClient_def)
  qed
  have sess: "map_option ss_visitorMsg (sessions (snd (HandleVisitor id demo_visitor ''mallory'' ''s1'' demo_controller)) ''s1'')
     = Some demo_visitor" by code_simp
  then obtain s where s: "sessions (snd (HandleVisitor id demo_visitor ''mallory'' ''s1'' demo_controller)) ''s1'' = Some s"
    "ss_visitorMsg s = demo_visitor" by auto
  from session_authentic [OF r s(1)] s show ?thesis by (auto simp: demo_visitor_def)
qed

text \<open>The two answers of an analysis agree. Visitor and client get the same session id, the
  same mode and complementary roles; each gets the other's mapped and assisted addresses;
  both wait at least five seconds and their delays and timeouts add up to the same time.\<close>

theorem analysis_agrees:
  assumes a: "analyzer_ok a" and A: "analysis md5hex now s cm a = (ok (vr, cr, s'), a')"
  defines "vb \<equiv> nr_DetectBehavior vr" and "cb \<equiv> nr_DetectBehavior cr"
  shows "nr_Sid vr = ss_sid s \<and> nr_Sid cr = ss_sid s \<and> db_Mode vb = db_Mode cb
       \<and> (db_Role vb = DetectRoleSender \<and> db_Role cb = DetectRoleReceiver
          \<or> db_Role vb = DetectRoleReceiver \<and> db_Role cb = DetectRoleSender)
       \<and> set (nr_CandidateAddrs vr) = set (nc_MappedAddrs cm)
       \<and> set (nr_CandidateAddrs cr) = set (nv_MappedAddrs (ss_visitorMsg s))
       \<and> 5000 \<le> db_ReadTimeoutMs vb \<and> 5000 \<le> db_ReadTimeoutMs cb
       \<and> db_ReadTimeoutMs vb + db_SendDelayMs vb = db_ReadTimeoutMs cb + db_SendDelayMs cb"
proof -
  from A obtain cf vf key mode index cB vB a1 where
    R: "GetRecommandBehaviors now key cf vf a = ((mode, index, cB, vB), a1)"
    and v: "nr_Sid vr = ss_sid s" "nr_CandidateAddrs vr = remdups_adj (nc_MappedAddrs cm)"
      "vb = detect_behavior mode vB
         (if rb_ListenRandomPorts cB > 0 \<or> rb_ListenRandomPorts vB > 0
          then max (rb_SendDelayMs cB) (rb_SendDelayMs vB) + 5000 + 30000
          else max (rb_SendDelayMs cB) (rb_SendDelayMs vB) + 5000)
         (getRangePorts (nc_MappedAddrs cm) (nf_PortsDifference cf) (rb_PortsRangeNumber vB))"
    and c: "nr_Sid cr = ss_sid s" "nr_CandidateAddrs cr = remdups_adj (nv_MappedAddrs (ss_visitorMsg s))"
      "cb = detect_behavior mode cB
         (if rb_ListenRandomPorts cB > 0 \<or> rb_ListenRandomPorts vB > 0
          then max (rb_SendDelayMs cB) (rb_SendDelayMs vB) + 5000 + 30000
          else max (rb_SendDelayMs cB) (rb_SendDelayMs vB) + 5000)
         (getRangePorts (nv_MappedAddrs (ss_visitorMsg s)) (nf_PortsDifference vf) (rb_PortsRangeNumber cB))"
    unfolding vb_def cb_def analysis_def
    by (auto simp: Let_def split: sum.splits prod.splits)
  obtain p where p: "p \<in> set (getBehaviorByMode mode)" "(cB, vB) = (fst p, snd p) \<or> (cB, vB) = (snd p, fst p)"
    using GetRecommandBehaviors_ok(2) [OF a R] by (auto split: if_splits)
  have "complementary vB cB" using tables_complementary [OF p(1)] p(2) by (auto simp: complementary_def)
  then show ?thesis using v c
    by (auto simp: detect_behavior_def complementary_def)
qed

definition demo_client_msg :: NatHoleClient where
  "demo_client_msg = \<lparr>nc_TransactionID = ''u'', nc_ProxyName = ''p'', nc_Sid = ''s1'',
     nc_MappedAddrs = [''5.6.7.8:9'', ''5.6.7.8:9''], nc_AssistedAddrs = []\<rparr>"

definition demo_session :: Session where
  "demo_session = \<lparr>ss_sid = ''s1'', ss_analysisKey = [], ss_recommandMode = 0, ss_recommandIndex = 0,
     ss_visitorMsg = demo_visitor, ss_clientMsg = Some demo_client_msg, ss_notified = True\<rparr>"

theorem analysis_agrees_witness:
  "\<exists>vr cr s' a'. analysis id 0 demo_session demo_client_msg (NewAnalyzer 1) = (ok (vr, cr, s'), a')
     \<and> nr_Sid vr = ''s1'' \<and> nr_Sid cr = ''s1''
     \<and> set (nr_CandidateAddrs vr) = {''5.6.7.8:9''}"
proof -
  have "isl (fst (analysis id 0 demo_session demo_client_msg (NewAnalyzer 1))) = False" by code_simp
  then obtain vr cr s' a' where A: "analysis id 0 demo_session demo_client_msg (NewAnalyzer 1) = (ok (vr, cr, s'), a')"
    by (metis isl_def prod.exhaust sum.exhaust fst_conv)
  have "analyzer_ok (NewAnalyzer 1)" by (simp add: analyzer_ok_def NewAnalyzer_def)
  from analysis_agrees [OF this A] A show ?thesis
    by (simp add: demo_session_def demo_client_msg_def)
qed

text \<open>The list of allowed users is only consulted by the pre-check. For every controller, a
  visitor that skips the pre-check and signs with the right key opens a session, whatever
  its user; the pre-check alone refuses a user that is not listed.\<close>

theorem allowUsers_only_prechecked:
  assumes cfg: "clientCfgs c (nv_ProxyName m) = Some cfg"
    and sign: "nv_SignKey m = GetAuthKey md5hex (cc_sk cfg) (nv_Timestamp m)"
    and user: "user \<notin> set (cc_allowUsers cfg)" "''*'' \<notin> set (cc_allowUsers cfg)"
  shows "(\<not> nv_PreCheck m \<longrightarrow> fst (HandleVisitor md5hex m user sid c) = Waiting sid
            \<and> sessions (snd (HandleVisitor md5hex m user sid c)) sid \<noteq> None)
       \<and> (nv_PreCheck m \<longrightarrow> (\<exists>r. fst (HandleVisitor md5hex m user sid c) = Reply r \<and> nr_Error r \<noteq> []))"
  using assms by (simp add: HandleVisitor_def GenNatHoleResponse_def Let_def)

theorem allowUsers_only_prechecked_witness:
  "fst (HandleVisitor id demo_visitor ''mallory'' ''s1'' demo_controller) = Waiting ''s1''"
proof -
  have "clientCfgs demo_controller (nv_ProxyName demo_visitor) =
      Some \<lparr>cc_name = ''p'', cc_sk = ''sk'', cc_allowUsers = [''alice'']\<rparr>" by code_simp
  moreover have "nv_SignKey demo_visitor = GetAuthKey id ''sk'' (nv_Timestamp demo_visitor)" by code_simp
  moreover have "\<not> nv_PreCheck demo_visitor" by (simp add: demo_visitor_def)
  ultimately show ?thesis
    using allowUsers_only_prechecked [of demo_controller demo_visitor _ id "''mallory''" "''s1''"] by simp
qed

end
