(* ===== verification/Visitor_Manager.thy ===== *)
theory Visitor_Manager
  imports Auth_Token Name_Table
begin

text \<open>
  The visitor manager of frps, \<^verbatim>\<open>server/visitor/visitor.go\<close>, with the in-process listener it hands
  connections to, \<^verbatim>\<open>pkg/util/net/listener.go\<close>. A listener is a pointer in the source, here a
  number into a store; its channel is a bounded queue of connections of type \<open>'c\<close>. Encryption is
  third-party code: whether it can be set up is the argument \<open>enc_ok\<close>.
\<close>

section \<open>The in-process listener\<close>

record 'c InternalListener =
  il_acceptCh :: "'c list"
  il_closed :: bool

definition acceptCap :: nat where
  "acceptCap = 128"

definition NewInternalListener :: "'c InternalListener" where
  "NewInternalListener = \<lparr>il_acceptCh = [], il_closed = False\<rparr>"

datatype put_result = Queued | Discarded | PutError

text \<open>\<open>PutConn\<close>: sending on a closed channel panics, which becomes an error; a full channel
  discards the connection without an error.\<close>

definition PutConn :: "'c \<Rightarrow> 'c InternalListener \<Rightarrow> put_result \<times> 'c InternalListener" where
  "PutConn conn l =
     (if il_closed l then (PutError, l)
      else if length (il_acceptCh l) < acceptCap then (Queued, l\<lparr>il_acceptCh := il_acceptCh l @ [conn]\<rparr>)
      else (Discarded, l))"

definition il_Close :: "'c InternalListener \<Rightarrow> 'c InternalListener" where
  "il_Close l = (if \<not> il_closed l then l\<lparr>il_closed := True\<rparr> else l)"

text \<open>\<open>Accept\<close> takes the oldest connection, also from a closed channel; \<open>None\<close> when it would block.\<close>

definition il_Accept :: "'c InternalListener \<Rightarrow> ((string, 'c) result \<times> 'c InternalListener) option" where
  "il_Accept l =
     (case il_acceptCh l of
        c # cs \<Rightarrow> Some (ok c, l\<lparr>il_acceptCh := cs\<rparr>)
      | [] \<Rightarrow> (if il_closed l then Some (err ''listener closed'', l) else None))"

section \<open>The manager\<close>

record listenerBundle =
  lb_l :: nat
  lb_sk :: string
  lb_allowUsers :: "string list"

record 'c visitor_manager =
  vm_listeners :: "string \<rightharpoonup> listenerBundle"
  vm_store :: "nat \<Rightarrow> 'c InternalListener"
  vm_next :: nat

definition NewVisitorManager :: "'c visitor_manager" where
  "NewVisitorManager = \<lparr>vm_listeners = Map.empty, vm_store = (\<lambda>_. NewInternalListener), vm_next = 0\<rparr>"

datatype visitor_error =
    ListenerRepeated | VisitorAuthFailed | VisitorUserNotAllowed | EncryptionFailed | ListenerIsClosed | NoSuchListener

definition vm_Listen ::
  "string \<Rightarrow> string \<Rightarrow> string list \<Rightarrow> 'c visitor_manager \<Rightarrow> (visitor_error, nat) result \<times> 'c visitor_manager" where
  "vm_Listen name sk allowUsers vm =
     (if vm_listeners vm name \<noteq> None then (err ListenerRepeated, vm)
      else
        let l = vm_next vm in
        (ok l, vm\<lparr>vm_store := (vm_store vm)(l := NewInternalListener), vm_next := Suc l,
                 vm_listeners := (vm_listeners vm)(name \<mapsto> \<lparr>lb_l = l, lb_sk = sk, lb_allowUsers = allowUsers\<rparr>)\<rparr>))"

definition NewConn ::
  "(string \<Rightarrow> string) \<Rightarrow> bool \<Rightarrow> string \<Rightarrow> 'c \<Rightarrow> int \<Rightarrow> string \<Rightarrow> bool \<Rightarrow> string \<Rightarrow> 'c visitor_manager
   \<Rightarrow> (visitor_error, unit) result \<times> 'c visitor_manager" where
  "NewConn md5hex enc_ok name conn timestamp signKey useEncryption visitorUser vm =
     (case vm_listeners vm name of
        Some l \<Rightarrow>
          (if GetAuthKey md5hex (lb_sk l) timestamp \<noteq> signKey then (err VisitorAuthFailed, vm)
           else if visitorUser \<notin> set (lb_allowUsers l) \<and> ''*'' \<notin> set (lb_allowUsers l)
           then (err VisitorUserNotAllowed, vm)
           else if useEncryption \<and> \<not> enc_ok then (err EncryptionFailed, vm)
           else (case PutConn conn (vm_store vm (lb_l l)) of
                   (PutError, il) \<Rightarrow> (err ListenerIsClosed, vm)
                 | (_, il) \<Rightarrow> (ok (), vm\<lparr>vm_store := (vm_store vm)(lb_l l := il)\<rparr>)))
      | None \<Rightarrow> (err NoSuchListener, vm))"

definition CloseListener :: "string \<Rightarrow> 'c visitor_manager \<Rightarrow> 'c visitor_manager" where
  "CloseListener name vm = vm\<lparr>vm_listeners := (vm_listeners vm)(name := None)\<rparr>"

definition listener_entry :: "'c visitor_manager \<Rightarrow> string \<Rightarrow> (string \<times> string list) option" where
  "listener_entry vm n = map_option (\<lambda>b. (lb_sk b, lb_allowUsers b)) (vm_listeners vm n)"

interpretation visitors: name_table listener_entry "\<lambda>n v. vm_Listen n (fst v) (snd v)" CloseListener
  by unfold_locales (auto simp: listener_entry_def vm_Listen_def CloseListener_def Let_def fun_eq_iff)

text \<open>The queue of a listener is bounded, and what is put in is taken out in the same order.\<close>

lemma PutConn_bounded:
  "length (il_acceptCh l) \<le> acceptCap \<Longrightarrow> length (il_acceptCh (snd (PutConn c l))) \<le> acceptCap"
  by (simp add: PutConn_def)

fun put_all :: "'c list \<Rightarrow> 'c InternalListener \<Rightarrow> 'c InternalListener" where
  "put_all [] l = l"
| "put_all (c # cs) l = put_all cs (snd (PutConn c l))"

lemma put_all_queue:
  "\<not> il_closed l \<Longrightarrow> length (il_acceptCh l) + length cs \<le> acceptCap \<Longrightarrow>
   put_all cs l = l\<lparr>il_acceptCh := il_acceptCh l @ cs\<rparr>"
  by (induction cs arbitrary: l) (simp_all add: PutConn_def)

section \<open>Properties\<close>

text \<open>Visitors reach a secret proxy only with its key and as an allowed user. A visitor's
  connection is accepted by the manager exactly if the proxy has a listener that is open,
  the signature is the hash of the timestamp with the proxy's secret key, the user is listed
  (or everybody is), and encryption can be set up if asked for; a refused visitor changes
  nothing; an accepted one changes no other listener.\<close>

theorem NewConn_ok_iff:
  "(fst (NewConn md5hex enc_ok name conn ts sign useEnc user vm) = ok () \<longleftrightarrow>
      (\<exists>l. vm_listeners vm name = Some l \<and> sign = GetAuthKey md5hex (lb_sk l) ts
         \<and> (user \<in> set (lb_allowUsers l) \<or> ''*'' \<in> set (lb_allowUsers l))
         \<and> (useEnc \<longrightarrow> enc_ok) \<and> \<not> il_closed (vm_store vm (lb_l l))))
   \<and> (fst (NewConn md5hex enc_ok name conn ts sign useEnc user vm) \<noteq> ok () \<longrightarrow>
        snd (NewConn md5hex enc_ok name conn ts sign useEnc user vm) = vm)
   \<and> (\<forall>i. (\<forall>l. vm_listeners vm name = Some l \<longrightarrow> i \<noteq> lb_l l) \<longrightarrow>
        vm_store (snd (NewConn md5hex enc_ok name conn ts sign useEnc user vm)) i = vm_store vm i)"
  by (auto simp: NewConn_def PutConn_def split: option.splits prod.splits put_result.splits if_splits)

theorem NewConn_ok_iff_witness:
  "fst (NewConn id True ''p'' (1 :: nat) 7 ''sk7'' True ''alice'' (snd (vm_Listen ''p'' ''sk'' [''alice''] NewVisitorManager))) = ok ()"
proof -
  let ?vm = "snd (vm_Listen ''p'' ''sk'' [''alice''] (NewVisitorManager :: nat visitor_manager))"
  have "vm_listeners ?vm ''p'' = Some \<lparr>lb_l = 0, lb_sk = ''sk'', lb_allowUsers = [''alice'']\<rparr>" by code_simp
  moreover have "''sk7'' = GetAuthKey id ''sk'' 7" by code_simp
  moreover have "\<not> il_closed (vm_store ?vm 0)" by code_simp
  ultimately show ?thesis
    using NewConn_ok_iff [of id True "''p''" 1 7 "''sk7''" True "''alice''" ?vm] by simp
qed

text \<open>A full listener loses a visitor silently: when 128 connections are waiting, one more is
  discarded, and the manager still reports success (the visitor is told that its connection
  was accepted).\<close>

theorem NewConn_discards_silently:
  assumes "vm_listeners vm name = Some l" and "\<not> il_closed (vm_store vm (lb_l l))"
    and "length (il_acceptCh (vm_store vm (lb_l l))) = 128"
    and "sign = GetAuthKey md5hex (lb_sk l) ts" and "user \<in> set (lb_allowUsers l)"
  shows "NewConn md5hex enc_ok name conn ts sign False user vm = (ok (), vm)"
  using assms by (simp add: NewConn_def PutConn_def acceptCap_def)

theorem NewConn_discards_silently_witness:
  "\<exists>vm :: nat visitor_manager. NewConn id True ''p'' 999 7 ''sk7'' False ''alice'' vm = (ok (), vm)
     \<and> 999 \<notin> set (il_acceptCh (vm_store vm 0))"
proof -
  define vm :: "nat visitor_manager" where
    "vm = (snd (vm_Listen ''p'' ''sk'' [''alice''] NewVisitorManager))
            \<lparr>vm_store := (\<lambda>_. put_all (replicate 128 0) NewInternalListener)\<rparr>"
  have q: "il_acceptCh (vm_store vm 0) = replicate 128 0" "\<not> il_closed (vm_store vm 0)"
    by (simp_all add: vm_def put_all_queue NewInternalListener_def acceptCap_def)
  have l: "vm_listeners vm ''p'' = Some \<lparr>lb_l = 0, lb_sk = ''sk'', lb_allowUsers = [''alice'']\<rparr>"
    by (simp add: vm_def vm_Listen_def NewVisitorManager_def Let_def)
  have s: "''sk7'' = GetAuthKey id ''sk'' 7" by code_simp
  have "NewConn id True ''p'' 999 7 ''sk7'' False ''alice'' vm = (ok (), vm)"
    by (rule NewConn_discards_silently [OF l]) (use q s in simp_all)
  with q show ?thesis by auto
qed

end
