(* ===== verification/Server_Proxy.thy ===== *)
theory Server_Proxy
  imports Listener_Groups Name_Table
begin

text \<open>
  Proxies on the server: the proxy manager of \<^verbatim>\<open>server/proxy/proxy.go\<close>, TCP proxies
  (\<^verbatim>\<open>server/proxy/tcp.go\<close>) and UDP proxies (\<^verbatim>\<open>server/proxy/udp.go\<close>). Running a proxy acquires its
  ports, closing it gives them back; the forwarding of traffic is not modelled.
\<close>

section \<open>The proxy manager\<close>

datatype pxy_manager_error = ProxyNameInUse string

definition pxys_Add :: "string \<Rightarrow> 'p \<Rightarrow> (string \<rightharpoonup> 'p) \<Rightarrow> (pxy_manager_error, unit) result \<times> (string \<rightharpoonup> 'p)" where
  "pxys_Add name pxy pxys =
     (if pxys name \<noteq> None then (err (ProxyNameInUse name), pxys) else (ok (), pxys(name \<mapsto> pxy)))"

definition pxys_Exist :: "string \<Rightarrow> (string \<rightharpoonup> 'p) \<Rightarrow> bool" where
  "pxys_Exist name pxys \<longleftrightarrow> pxys name \<noteq> None"

definition pxys_Del :: "string \<Rightarrow> (string \<rightharpoonup> 'p) \<Rightarrow> (string \<rightharpoonup> 'p)" where
  "pxys_Del name pxys = pxys(name := None)"

definition pxys_GetByName :: "string \<Rightarrow> (string \<rightharpoonup> 'p) \<Rightarrow> 'p option" where
  "pxys_GetByName name pxys = pxys name"

interpretation pxys: name_table "\<lambda>t n. pxys_GetByName n t" pxys_Add pxys_Del
  by unfold_locales (auto simp: pxys_GetByName_def pxys_Add_def pxys_Del_def)

section \<open>TCP proxies\<close>

text \<open>The resources of TCP proxies are the TCP group controller, whose shared state is the TCP
  port manager.\<close>

record TCPProxy =
  tp_name :: string
  tp_RemotePort :: int
  tp_Group :: string
  tp_GroupKey :: string
  tp_realBindPort :: int
  tp_listener :: "vlistener option"

definition NewTCPProxy :: "string \<Rightarrow> int \<Rightarrow> string \<Rightarrow> string \<Rightarrow> TCPProxy" where
  "NewTCPProxy name port g k = \<lparr>tp_name = name, tp_RemotePort = port, tp_Group = g, tp_GroupKey = k,
     tp_realBindPort = 0, tp_listener = None\<rparr>"

definition tcp_usedPortsNum :: int where
  "tcp_usedPortsNum = 1"

text \<open>\<open>Run\<close>; \<open>addr\<close> is the configured bind address, \<open>others\<close> what other goroutines do in the retry
  loop of a group's \<open>Listen\<close>. On success the proxy's remote port is the one it got.\<close>

definition TCPProxy_Run ::
  "(tcp_ctl \<Rightarrow> tcp_ctl) list \<Rightarrow> tcp_env \<Rightarrow> string \<Rightarrow> TCPProxy \<Rightarrow> tcp_ctl
   \<Rightarrow> ((group_error, TCPProxy) result \<times> tcp_ctl) option" where
  "TCPProxy_Run others env addr pxy rc =
     (if tp_Group pxy \<noteq> [] then
        (case TCPGroupCtl_Listen others env (tp_name pxy) (tp_Group pxy) (tp_GroupKey pxy) addr (tp_RemotePort pxy) rc of
           None \<Rightarrow> None
         | Some (Inl e, rc') \<Rightarrow> Some (err e, rc')
         | Some (Inr (l, realBindPort), rc') \<Rightarrow>
             Some (ok (pxy\<lparr>tp_realBindPort := realBindPort, tp_listener := Some l, tp_RemotePort := realBindPort\<rparr>), rc'))
      else
        (case Acquire (te_net env) (te_order env) (te_now env) (tp_name pxy) (tp_RemotePort pxy) (gc_shared rc) of
           (Inl e, pm) \<Rightarrow> Some (err (PortErr e), rc\<lparr>gc_shared := pm\<rparr>)
         | (Inr p, pm) \<Rightarrow>
             (if te_listen env
              then Some (ok (pxy\<lparr>tp_realBindPort := p, tp_RemotePort := p\<rparr>), rc\<lparr>gc_shared := pm\<rparr>)
              else Some (err NetListenErr, rc\<lparr>gc_shared := Release (te_now env) p pm\<rparr>))))"

definition TCPProxy_Close :: "int \<Rightarrow> TCPProxy \<Rightarrow> tcp_ctl \<Rightarrow> tcp_ctl" where
  "TCPProxy_Close now pxy rc =
     (let rc1 = (case tp_listener pxy of None \<Rightarrow> rc | Some l \<Rightarrow> TCPGroup_Close now l rc) in
      if tp_Group pxy = [] then rc1\<lparr>gc_shared := Release now (tp_realBindPort pxy) (gc_shared rc1)\<rparr> else rc1)"

section \<open>UDP proxies\<close>

record UDPProxy =
  up_name :: string
  up_RemotePort :: int
  up_realBindPort :: int
  up_isClosed :: bool

record udp_env =
  ue_net :: net_env
  ue_order :: "int list"
  ue_now :: int
  ue_resolve :: bool
  ue_listen :: bool

definition udp_usedPortsNum :: int where
  "udp_usedPortsNum = 1"

definition NewUDPProxy :: "string \<Rightarrow> int \<Rightarrow> UDPProxy" where
  "NewUDPProxy name port = \<lparr>up_name = name, up_RemotePort = port, up_realBindPort = 0, up_isClosed = False\<rparr>"

datatype udp_error = AcquireErr port_error | ResolveErr | ListenUDPErr

definition UDPProxy_Run :: "udp_env \<Rightarrow> UDPProxy \<Rightarrow> port_manager \<Rightarrow> (udp_error, UDPProxy) result \<times> port_manager" where
  "UDPProxy_Run env pxy pm =
     (case Acquire (ue_net env) (ue_order env) (ue_now env) (up_name pxy) (up_RemotePort pxy) pm of
        (Inl e, pm') \<Rightarrow> (err (AcquireErr e), pm')
      | (Inr p, pm') \<Rightarrow>
          (if \<not> ue_resolve env then (err ResolveErr, Release (ue_now env) p pm')
           else if \<not> ue_listen env then (err ListenUDPErr, Release (ue_now env) p pm')
           else (ok (pxy\<lparr>up_realBindPort := p, up_RemotePort := p\<rparr>), pm')))"

text \<open>\<open>Close\<close> runs twice for every proxy: once by the control, and once by the goroutine that
  forwards packets, when its socket is closed.\<close>

definition UDPProxy_Close :: "int \<Rightarrow> UDPProxy \<Rightarrow> port_manager \<Rightarrow> UDPProxy \<times> port_manager" where
  "UDPProxy_Close now pxy pm =
     (let pxy' = (if \<not> up_isClosed pxy then pxy\<lparr>up_isClosed := True\<rparr> else pxy)
      in (pxy', Release now (up_realBindPort pxy) pm))"

section \<open>Properties\<close>

text \<open>With port 0 outside the configured ports a failing acquisition takes no port.\<close>

lemma Acquire_err_ports:
  assumes "pm_inv pm" and "set order \<subseteq> freePorts pm" and "0 \<notin> allowed pm"
    and "Acquire net order now name port pm = (err e, pm')"
  shows "pm' = pm"
  using assms(1,2,4)
proof (cases rule: Acquire_cases)
  case (granted p)
  then show ?thesis using assms(3) by auto
qed simp

text \<open>Without a group, a TCP or UDP proxy that fails to run leaves the ports in use as they were,
  whether the acquisition or the binding failed; a proxy that runs has exactly its own port
  added, which it reports as its remote port, and closing it restores the ports in use.\<close>

lemma acquire_release:
  assumes inv: "pm_inv pm" and os: "os_ok env pm"
    and A: "Acquire (te_net env) (te_order env) now name port pm = (ok p, pm')"
  shows "p \<notin> ports_in_use pm" "ports_in_use pm' = insert p (ports_in_use pm)" "pm_inv pm'"
    "pm_inv (Release n p pm')" "ports_in_use (Release n p pm') = ports_in_use pm" "port \<noteq> 0 \<longrightarrow> p = port"
proof -
  note F = Acquire_fresh [OF inv os A]
  from F show "p \<notin> ports_in_use pm" "ports_in_use pm' = insert p (ports_in_use pm)" "pm_inv pm'" .
  show "pm_inv (Release n p pm')" by (rule pm.rel_inv [OF F(3)])
  show "ports_in_use (Release n p pm') = ports_in_use pm" using pm.rel_frees [OF F(3)] F(1,2) by auto
  have ord: "set (te_order env) \<subseteq> freePorts pm" using os by (simp add: os_ok_def)
  show "port \<noteq> 0 \<longrightarrow> p = port" using inv ord A by (cases rule: Acquire_cases) auto
qed

lemma tcp_run_close:
  assumes inv: "pm_inv (gc_shared rc)" and os: "os_ok env (gc_shared rc)" and zero: "0 \<notin> allowed (gc_shared rc)"
    and nogroup: "tp_Group pxy = []" and nol: "tp_listener pxy = None"
  shows "\<exists>res rc'. TCPProxy_Run others env addr pxy rc = Some (res, rc') \<and> pm_inv (gc_shared rc')
       \<and> (case res of
            Inl e \<Rightarrow> ports_in_use (gc_shared rc') = ports_in_use (gc_shared rc)
          | Inr pxy' \<Rightarrow> tp_RemotePort pxy' = tp_realBindPort pxy'
              \<and> tp_realBindPort pxy' \<notin> ports_in_use (gc_shared rc)
              \<and> (tp_RemotePort pxy \<noteq> 0 \<longrightarrow> tp_realBindPort pxy' = tp_RemotePort pxy)
              \<and> ports_in_use (gc_shared rc') = insert (tp_realBindPort pxy') (ports_in_use (gc_shared rc))
              \<and> pm_inv (gc_shared (TCPProxy_Close now pxy' rc'))
              \<and> ports_in_use (gc_shared (TCPProxy_Close now pxy' rc')) = ports_in_use (gc_shared rc))"
proof -
  let ?pm = "gc_shared rc"
  have ord: "set (te_order env) \<subseteq> freePorts ?pm" using os by (simp add: os_ok_def)
  obtain r pm' where A: "Acquire (te_net env) (te_order env) (te_now env) (tp_name pxy) (tp_RemotePort pxy) ?pm = (r, pm')"
    by fastforce
  show ?thesis
  proof (cases r)
    case (Inl e)
    with A have "pm' = ?pm" using Acquire_err_ports [OF inv ord zero] by blast
    with Inl A nogroup inv show ?thesis by (simp add: TCPProxy_Run_def)
  next
    case (Inr p)
    note F = acquire_release [OF inv os A [unfolded Inr]]
    show ?thesis using A Inr nogroup nol F
      by (cases "te_listen env") (auto simp: TCPProxy_Run_def TCPProxy_Close_def)
  qed
qed

definition udp_os :: "udp_env \<Rightarrow> tcp_env" where
  "udp_os env = \<lparr>te_net = ue_net env, te_order = ue_order env, te_now = ue_now env, te_listen = ue_listen env\<rparr>"

lemma udp_run_close:
  assumes inv: "pm_inv pm" and os: "os_ok (udp_os env) pm" and zero: "0 \<notin> allowed pm"
  shows "\<exists>res pm'. UDPProxy_Run env pxy pm = (res, pm') \<and> pm_inv pm'
       \<and> (case res of
            Inl e \<Rightarrow> ports_in_use pm' = ports_in_use pm
          | Inr pxy' \<Rightarrow> up_realBindPort pxy' \<notin> ports_in_use pm
              \<and> ports_in_use pm' = insert (up_realBindPort pxy') (ports_in_use pm)
              \<and> pm_inv (snd (UDPProxy_Close now pxy' pm'))
              \<and> ports_in_use (snd (UDPProxy_Close now pxy' pm')) = ports_in_use pm)"
proof -
  have ord: "set (ue_order env) \<subseteq> freePorts pm" using os by (simp add: os_ok_def udp_os_def)
  obtain r pm' where A: "Acquire (ue_net env) (ue_order env) (ue_now env) (up_name pxy) (up_RemotePort pxy) pm = (r, pm')"
    by fastforce
  show ?thesis
  proof (cases r)
    case (Inl e)
    with A have "pm' = pm" using Acquire_err_ports [OF inv ord zero] by blast
    with Inl A inv show ?thesis by (simp add: UDPProxy_Run_def)
  next
    case (Inr p)
    have "Acquire (te_net (udp_os env)) (te_order (udp_os env)) (ue_now env) (up_name pxy) (up_RemotePort pxy) pm = (ok p, pm')"
      using A Inr by (simp add: udp_os_def)
    note F = acquire_release [OF inv os this]
    show ?thesis using A Inr F
      by (cases "ue_resolve env"; cases "ue_listen env") (auto simp: UDPProxy_Run_def UDPProxy_Close_def Let_def)
  qed
qed

definition demo_udp_env :: udp_env where
  "demo_udp_env = \<lparr>ue_net = net_without {}, ue_order = [], ue_now = 0, ue_resolve = True, ue_listen = True\<rparr>"

text \<open>A closed UDP proxy can take the port of another one away. Proxy \<open>a\<close> runs on port 6000 and
  is closed, proxy \<open>b\<close> acquires the port, and then the second \<open>Close\<close> of \<open>a\<close> (by its forwarding
  goroutine) releases it: the manager considers the port free while \<open>b\<close> runs on it.\<close>

theorem UDPProxy_double_release:
  "\<exists>a pm1 a' pm2 b pm3 a'' pm4.
      UDPProxy_Run demo_udp_env (NewUDPProxy ''a'' 6000) two_ports = (ok a, pm1)
    \<and> UDPProxy_Close 1 a pm1 = (a', pm2)
    \<and> UDPProxy_Run demo_udp_env (NewUDPProxy ''b'' 6000) pm2 = (ok b, pm3)
    \<and> UDPProxy_Close 2 a' pm3 = (a'', pm4)
    \<and> up_realBindPort b = 6000 \<and> \<not> up_isClosed b
    \<and> usedPorts pm4 6000 = None \<and> 6000 \<in> freePorts pm4"
  by (simp add: UDPProxy_Run_def UDPProxy_Close_def NewUDPProxy_def demo_udp_env_def port_eval Let_def)

end
