(* ===== verification/Proxy_Config.thy ===== *)
theory Proxy_Config
  imports Go_Strconv
begin

text \<open>
  Proxy configurations: \<^verbatim>\<open>pkg/config/v1/proxy.go\<close> and \<^verbatim>\<open>proxy_plugin.go\<close> (the eight kinds of proxies,
  their message form and their defaults), \<^verbatim>\<open>pkg/config/v1/validation/proxy.go\<close> and \<^verbatim>\<open>plugin.go\<close> (what
  the client and the server accept), \<^verbatim>\<open>pkg/config/load.go\<close> (\<open>NewProxyConfigurerFromMsg\<close>) and the bandwidth
  quantities of \<^verbatim>\<open>pkg/config/types/types.go\<close>.

  A struct that embeds \<^verbatim>\<open>ProxyBaseConfig\<close> extends its record, so that the methods of the base apply
  to every kind. A \<^verbatim>\<open>map[string]string\<close> is an association list. Two functions are arguments:
  \<open>scale\<close>, the number of bytes that 64-bit floating point makes of a decimal and a unit, and
  \<open>qualified\<close>, the complaints of the Kubernetes library about an annotation key.
\<close>

type_synonym string_map = "(string \<times> string) list"

definition EmptyOr :: "string \<Rightarrow> string \<Rightarrow> string" where
  "EmptyOr v fallback = (if v = [] then fallback else v)"

section \<open>Bandwidth quantities\<close>

record BandwidthQuantity =
  bq_s :: string
  bq_i :: int

definition bq_zero :: BandwidthQuantity where
  "bq_zero = \<lparr>bq_s = [], bq_i = 0\<rparr>"

definition MB :: int where
  "MB = 1024 * 1024"

definition KB :: int where
  "KB = 1024"

definition cut_suffix :: "string \<Rightarrow> string \<Rightarrow> string option" where
  "cut_suffix s p = (if has_suffix s p then Some (take (length s - length p) s) else None)"

datatype bandwidth_error = UnitNotSupport | FloatSyntax

definition UnmarshalString ::
  "(string \<Rightarrow> int \<Rightarrow> int option) \<Rightarrow> string \<Rightarrow> BandwidthQuantity \<Rightarrow> bandwidth_error option \<times> BandwidthQuantity" where
  "UnmarshalString scale s0 q =
     (let s = trim_space s0;
          finish = (\<lambda>r. case r of None \<Rightarrow> (Some FloatSyntax, q) | Some i \<Rightarrow> (None, q\<lparr>bq_s := s, bq_i := i\<rparr>))
      in if s = [] then (None, q)
         else case cut_suffix s ''MB'' of
                Some fstr \<Rightarrow> finish (scale fstr MB)
              | None \<Rightarrow>
                  (case cut_suffix s ''KB'' of
                     Some fstr \<Rightarrow> finish (scale fstr KB)
                   | None \<Rightarrow> (Some UnitNotSupport, q)))"

definition NewBandwidthQuantity ::
  "(string \<Rightarrow> int \<Rightarrow> int option) \<Rightarrow> string \<Rightarrow> BandwidthQuantity \<times> bandwidth_error option" where
  "NewBandwidthQuantity scale s = (case UnmarshalString scale s bq_zero of (e, q) \<Rightarrow> (q, e))"

definition bq_String :: "BandwidthQuantity \<Rightarrow> string" where
  "bq_String q = bq_s q"

definition bq_Bytes :: "BandwidthQuantity \<Rightarrow> int" where
  "bq_Bytes q = bq_i q"

lemma trim_space_idem [simp]: "trim_space (trim_space s) = trim_space s"
proof -
  let ?a = "dropWhile is_space s"
  let ?b = "dropWhile is_space (rev ?a)"
  have "dropWhile is_space (rev ?b) = rev ?b"
  proof (cases "rev ?b")
    case (Cons x xs)
    obtain ys where ys: "rev ?a = ys @ ?b" using dropWhile_eq_drop append_take_drop_id by metis
    then have "?a = rev ?b @ rev ys" by (metis rev_append rev_rev_ident)
    with Cons have "?a \<noteq> [] \<and> hd ?a = x" by simp
    then have "\<not> is_space x" using hd_dropWhile by blast
    with Cons show ?thesis by simp
  next
    case Nil
    show ?thesis unfolding Nil by simp
  qed
  then show ?thesis by (simp add: trim_space_def)
qed

text \<open>A quantity that was parsed parses back from its own text.\<close>

lemma NewBandwidthQuantity_String:
  "NewBandwidthQuantity scale (bq_String (fst (NewBandwidthQuantity scale s))) = (fst (NewBandwidthQuantity scale s), None)"
  by (auto simp: NewBandwidthQuantity_def UnmarshalString_def bq_String_def Let_def bq_zero_def
      trim_space_def [of "[]"] split: option.split prod.split if_split)

section \<open>Configurations\<close>

record ProxyTransport =
  pt_UseEncryption :: bool
  pt_UseCompression :: bool
  pt_BandwidthLimit :: BandwidthQuantity
  pt_BandwidthLimitMode :: string
  pt_ProxyProtocolVersion :: string

record LoadBalancerConfig =
  lb_Group :: string
  lb_GroupKey :: string

record HealthCheckConfig =
  hc_Type :: string
  hc_TimeoutSeconds :: int
  hc_MaxFailed :: int
  hc_IntervalSeconds :: int
  hc_Path :: string
  hc_HTTPHeaders :: string_map

record DomainConfig =
  dc_CustomDomains :: "string list"
  dc_SubDomain :: string

text \<open>The options of the client plugins that the validation reads; \<open>EnableHTTP2\<close> is a pointer.\<close>

datatype ClientPluginOptions =
    HTTP2HTTPSPluginOptions (po_LocalAddr: string)
  | HTTPProxyPluginOptions (po_HTTPUser: string) (po_HTTPPassword: string)
  | HTTPS2HTTPPluginOptions (po_LocalAddr: string) (po_EnableHTTP2: "bool option")
  | HTTPS2HTTPSPluginOptions (po_LocalAddr: string) (po_EnableHTTP2: "bool option")
  | HTTP2HTTPPluginOptions (po_LocalAddr: string)
  | Socks5PluginOptions (po_Username: string) (po_Password: string)
  | StaticFilePluginOptions (po_LocalPath: string)
  | UnixDomainSocketPluginOptions (po_UnixPath: string)
  | TLS2RawPluginOptions (po_LocalAddr: string)
  | VirtualNetPluginOptions

record ProxyBaseConfig =
  pb_Name :: string
  pb_Type :: string
  pb_Enabled :: "bool option"
  pb_Annotations :: string_map
  pb_Transport :: ProxyTransport
  pb_Metadatas :: string_map
  pb_LoadBalancer :: LoadBalancerConfig
  pb_HealthCheck :: HealthCheckConfig
  pb_LocalIP :: string
  pb_LocalPort :: int
  pb_PluginType :: string
  pb_Plugin :: "ClientPluginOptions option"

record TCPProxyConfig = ProxyBaseConfig +
  tc_RemotePort :: int

record UDPProxyConfig = ProxyBaseConfig +
  uc_RemotePort :: int

record HTTPProxyConfig = ProxyBaseConfig +
  ht_Domains :: DomainConfig
  ht_Locations :: "string list"
  ht_HTTPUser :: string
  ht_HTTPPassword :: string
  ht_HostHeaderRewrite :: string
  ht_RequestHeaders :: string_map
  ht_ResponseHeaders :: string_map
  ht_RouteByHTTPUser :: string

record HTTPSProxyConfig = ProxyBaseConfig +
  hs_Domains :: DomainConfig

record TCPMuxProxyConfig = ProxyBaseConfig +
  tm_Domains :: DomainConfig
  tm_HTTPUser :: string
  tm_HTTPPassword :: string
  tm_RouteByHTTPUser :: string
  tm_Multiplexer :: string

record STCPProxyConfig = ProxyBaseConfig +
  sc_Secretkey :: string
  sc_AllowUsers :: "string list"

record XTCPProxyConfig = ProxyBaseConfig +
  xc_Secretkey :: string
  xc_AllowUsers :: "string list"
  xc_DisableAssistedAddrs :: "bool option"

record SUDPProxyConfig = ProxyBaseConfig +
  su_Secretkey :: string
  su_AllowUsers :: "string list"

datatype ProxyConfigurer =
    TCPConf TCPProxyConfig
  | UDPConf UDPProxyConfig
  | HTTPConf HTTPProxyConfig
  | HTTPSConf HTTPSProxyConfig
  | TCPMuxConf TCPMuxProxyConfig
  | STCPConf STCPProxyConfig
  | XTCPConf XTCPProxyConfig
  | SUDPConf SUDPProxyConfig

definition GetBaseConfig :: "ProxyConfigurer \<Rightarrow> ProxyBaseConfig" where
  "GetBaseConfig c = (case c of
       TCPConf v \<Rightarrow> ProxyBaseConfig.truncate v | UDPConf v \<Rightarrow> ProxyBaseConfig.truncate v
     | HTTPConf v \<Rightarrow> ProxyBaseConfig.truncate v | HTTPSConf v \<Rightarrow> ProxyBaseConfig.truncate v
     | TCPMuxConf v \<Rightarrow> ProxyBaseConfig.truncate v | STCPConf v \<Rightarrow> ProxyBaseConfig.truncate v
     | XTCPConf v \<Rightarrow> ProxyBaseConfig.truncate v | SUDPConf v \<Rightarrow> ProxyBaseConfig.truncate v)"

abbreviation pc_name :: "ProxyConfigurer \<Rightarrow> string" where
  "pc_name c \<equiv> pb_Name (GetBaseConfig c)"

definition zero_base :: ProxyBaseConfig where
  "zero_base = \<lparr>pb_Name = [], pb_Type = [], pb_Enabled = None, pb_Annotations = [],
     pb_Transport = \<lparr>pt_UseEncryption = False, pt_UseCompression = False, pt_BandwidthLimit = bq_zero,
       pt_BandwidthLimitMode = [], pt_ProxyProtocolVersion = []\<rparr>,
     pb_Metadatas = [], pb_LoadBalancer = \<lparr>lb_Group = [], lb_GroupKey = []\<rparr>,
     pb_HealthCheck = \<lparr>hc_Type = [], hc_TimeoutSeconds = 0, hc_MaxFailed = 0, hc_IntervalSeconds = 0, hc_Path = [],
       hc_HTTPHeaders = []\<rparr>,
     pb_LocalIP = [], pb_LocalPort = 0, pb_PluginType = [], pb_Plugin = None\<rparr>"

definition zero_domains :: DomainConfig where
  "zero_domains = \<lparr>dc_CustomDomains = [], dc_SubDomain = []\<rparr>"

text \<open>\<open>NewProxyConfigurerByType\<close>: the zero configuration of a kind, with its type set.\<close>

definition NewProxyConfigurerByType :: "string \<Rightarrow> ProxyConfigurer option" where
  "NewProxyConfigurerByType proxyType =
     (let b = zero_base\<lparr>pb_Type := proxyType\<rparr> in
      if proxyType = ''tcp'' then Some (TCPConf (ProxyBaseConfig.extend b (TCPProxyConfig.fields 0)))
      else if proxyType = ''udp'' then Some (UDPConf (ProxyBaseConfig.extend b (UDPProxyConfig.fields 0)))
      else if proxyType = ''http'' then
        Some (HTTPConf (ProxyBaseConfig.extend b (HTTPProxyConfig.fields zero_domains [] [] [] [] [] [] [])))
      else if proxyType = ''https'' then Some (HTTPSConf (ProxyBaseConfig.extend b (HTTPSProxyConfig.fields zero_domains)))
      else if proxyType = ''tcpmux'' then
        Some (TCPMuxConf (ProxyBaseConfig.extend b (TCPMuxProxyConfig.fields zero_domains [] [] [] [])))
      else if proxyType = ''stcp'' then Some (STCPConf (ProxyBaseConfig.extend b (STCPProxyConfig.fields [] [])))
      else if proxyType = ''xtcp'' then Some (XTCPConf (ProxyBaseConfig.extend b (XTCPProxyConfig.fields [] [] None)))
      else if proxyType = ''sudp'' then Some (SUDPConf (ProxyBaseConfig.extend b (SUDPProxyConfig.fields [] [])))
      else None)"

section \<open>The message form\<close>

record NewProxy =
  np_ProxyName :: string
  np_ProxyType :: string
  np_UseEncryption :: bool
  np_UseCompression :: bool
  np_BandwidthLimit :: string
  np_BandwidthLimitMode :: string
  np_Group :: string
  np_GroupKey :: string
  np_Metas :: string_map
  np_Annotations :: string_map
  np_RemotePort :: int
  np_CustomDomains :: "string list"
  np_SubDomain :: string
  np_Locations :: "string list"
  np_HTTPUser :: string
  np_HTTPPwd :: string
  np_HostHeaderRewrite :: string
  np_Headers :: string_map
  np_ResponseHeaders :: string_map
  np_RouteByHTTPUser :: string
  np_Sk :: string
  np_AllowUsers :: "string list"
  np_Multiplexer :: string

definition zero_msg :: NewProxy where
  "zero_msg = \<lparr>np_ProxyName = [], np_ProxyType = [], np_UseEncryption = False, np_UseCompression = False,
     np_BandwidthLimit = [], np_BandwidthLimitMode = [], np_Group = [], np_GroupKey = [], np_Metas = [],
     np_Annotations = [], np_RemotePort = 0, np_CustomDomains = [], np_SubDomain = [], np_Locations = [],
     np_HTTPUser = [], np_HTTPPwd = [], np_HostHeaderRewrite = [], np_Headers = [], np_ResponseHeaders = [],
     np_RouteByHTTPUser = [], np_Sk = [], np_AllowUsers = [], np_Multiplexer = []\<rparr>"

definition base_MarshalToMsg :: "'a ProxyBaseConfig_scheme \<Rightarrow> NewProxy \<Rightarrow> NewProxy" where
  "base_MarshalToMsg c m =
     (let m1 = m\<lparr>np_ProxyName := pb_Name c, np_ProxyType := pb_Type c,
            np_UseEncryption := pt_UseEncryption (pb_Transport c),
            np_UseCompression := pt_UseCompression (pb_Transport c),
            np_BandwidthLimit := bq_String (pt_BandwidthLimit (pb_Transport c))\<rparr>;
          m2 = (if pt_BandwidthLimitMode (pb_Transport c) \<noteq> ''client''
                then m1\<lparr>np_BandwidthLimitMode := pt_BandwidthLimitMode (pb_Transport c)\<rparr> else m1)
      in m2\<lparr>np_Group := lb_Group (pb_LoadBalancer c), np_GroupKey := lb_GroupKey (pb_LoadBalancer c),
            np_Metas := pb_Metadatas c, np_Annotations := pb_Annotations c\<rparr>)"

definition base_UnmarshalFromMsg ::
  "(string \<Rightarrow> int \<Rightarrow> int option) \<Rightarrow> NewProxy \<Rightarrow> 'a ProxyBaseConfig_scheme \<Rightarrow> 'a ProxyBaseConfig_scheme" where
  "base_UnmarshalFromMsg scale m c =
     (let t = pb_Transport c;
          t1 = t\<lparr>pt_UseEncryption := np_UseEncryption m, pt_UseCompression := np_UseCompression m\<rparr>;
          t2 = (if np_BandwidthLimit m \<noteq> []
                then t1\<lparr>pt_BandwidthLimit := fst (NewBandwidthQuantity scale (np_BandwidthLimit m))\<rparr> else t1);
          t3 = (if np_BandwidthLimitMode m \<noteq> []
                then t2\<lparr>pt_BandwidthLimitMode := np_BandwidthLimitMode m\<rparr> else t2)
      in c\<lparr>pb_Name := np_ProxyName m, pb_Type := np_ProxyType m, pb_Transport := t3,
           pb_LoadBalancer := (pb_LoadBalancer c)\<lparr>lb_Group := np_Group m, lb_GroupKey := np_GroupKey m\<rparr>,
           pb_Metadatas := np_Metas m, pb_Annotations := np_Annotations m\<rparr>)"

definition tcp_MarshalToMsg :: "TCPProxyConfig \<Rightarrow> NewProxy \<Rightarrow> NewProxy" where
  "tcp_MarshalToMsg c m = (base_MarshalToMsg c m)\<lparr>np_RemotePort := tc_RemotePort c\<rparr>"

definition tcp_UnmarshalFromMsg :: "(string \<Rightarrow> int \<Rightarrow> int option) \<Rightarrow> NewProxy \<Rightarrow> TCPProxyConfig \<Rightarrow> TCPProxyConfig" where
  "tcp_UnmarshalFromMsg scale m c = (base_UnmarshalFromMsg scale m c)\<lparr>tc_RemotePort := np_RemotePort m\<rparr>"

definition udp_MarshalToMsg :: "UDPProxyConfig \<Rightarrow> NewProxy \<Rightarrow> NewProxy" where
  "udp_MarshalToMsg c m = (base_MarshalToMsg c m)\<lparr>np_RemotePort := uc_RemotePort c\<rparr>"

definition udp_UnmarshalFromMsg :: "(string \<Rightarrow> int \<Rightarrow> int option) \<Rightarrow> NewProxy \<Rightarrow> UDPProxyConfig \<Rightarrow> UDPProxyConfig" where
  "udp_UnmarshalFromMsg scale m c = (base_UnmarshalFromMsg scale m c)\<lparr>uc_RemotePort := np_RemotePort m\<rparr>"

definition http_MarshalToMsg :: "HTTPProxyConfig \<Rightarrow> NewProxy \<Rightarrow> NewProxy" where
  "http_MarshalToMsg c m = (base_MarshalToMsg c m)\<lparr>
     np_CustomDomains := dc_CustomDomains (ht_Domains c), np_SubDomain := dc_SubDomain (ht_Domains c),
     np_Locations := ht_Locations c, np_HostHeaderRewrite := ht_HostHeaderRewrite c,
     np_HTTPUser := ht_HTTPUser c, np_HTTPPwd := ht_HTTPPassword c,
     np_Headers := ht_RequestHeaders c, np_ResponseHeaders := ht_ResponseHeaders c,
     np_RouteByHTTPUser := ht_RouteByHTTPUser c\<rparr>"

definition http_UnmarshalFromMsg :: "(string \<Rightarrow> int \<Rightarrow> int option) \<Rightarrow> NewProxy \<Rightarrow> HTTPProxyConfig \<Rightarrow> HTTPProxyConfig" where
  "http_UnmarshalFromMsg scale m c = (base_UnmarshalFromMsg scale m c)\<lparr>
     ht_Domains := \<lparr>dc_CustomDomains = np_CustomDomains m, dc_SubDomain = np_SubDomain m\<rparr>,
     ht_Locations := np_Locations m, ht_HostHeaderRewrite := np_HostHeaderRewrite m,
     ht_HTTPUser := np_HTTPUser m, ht_HTTPPassword := np_HTTPPwd m,
     ht_RequestHeaders := np_Headers m, ht_ResponseHeaders := np_ResponseHeaders m,
     ht_RouteByHTTPUser := np_RouteByHTTPUser m\<rparr>"

definition https_MarshalToMsg :: "HTTPSProxyConfig \<Rightarrow> NewProxy \<Rightarrow> NewProxy" where
  "https_MarshalToMsg c m = (base_MarshalToMsg c m)\<lparr>
     np_CustomDomains := dc_CustomDomains (hs_Domains c), np_SubDomain := dc_SubDomain (hs_Domains c)\<rparr>"

definition https_UnmarshalFromMsg :: "(string \<Rightarrow> int \<Rightarrow> int option) \<Rightarrow> NewProxy \<Rightarrow> HTTPSProxyConfig \<Rightarrow> HTTPSProxyConfig" where
  "https_UnmarshalFromMsg scale m c = (base_UnmarshalFromMsg scale m c)\<lparr>
     hs_Domains := \<lparr>dc_CustomDomains = np_CustomDomains m, dc_SubDomain = np_SubDomain m\<rparr>\<rparr>"

definition tcpmux_MarshalToMsg :: "TCPMuxProxyConfig \<Rightarrow> NewProxy \<Rightarrow> NewProxy" where
  "tcpmux_MarshalToMsg c m = (base_MarshalToMsg c m)\<lparr>
     np_CustomDomains := dc_CustomDomains (tm_Domains c), np_SubDomain := dc_SubDomain (tm_Domains c),
     np_Multiplexer := tm_Multiplexer c, np_HTTPUser := tm_HTTPUser c, np_HTTPPwd := tm_HTTPPassword c,
     np_RouteByHTTPUser := tm_RouteByHTTPUser c\<rparr>"

definition tcpmux_UnmarshalFromMsg :: "(string \<Rightarrow> int \<Rightarrow> int option) \<Rightarrow> NewProxy \<Rightarrow> TCPMuxProxyConfig \<Rightarrow> TCPMuxProxyConfig" where
  "tcpmux_UnmarshalFromMsg scale m c = (base_UnmarshalFromMsg scale m c)\<lparr>
     tm_Domains := \<lparr>dc_CustomDomains = np_CustomDomains m, dc_SubDomain = np_SubDomain m\<rparr>,
     tm_Multiplexer := np_Multiplexer m, tm_HTTPUser := np_HTTPUser m, tm_HTTPPassword := np_HTTPPwd m,
     tm_RouteByHTTPUser := np_RouteByHTTPUser m\<rparr>"

definition stcp_MarshalToMsg :: "STCPProxyConfig \<Rightarrow> NewProxy \<Rightarrow> NewProxy" where
  "stcp_MarshalToMsg c m = (base_MarshalToMsg c m)\<lparr>np_Sk := sc_Secretkey c, np_AllowUsers := sc_AllowUsers c\<rparr>"

definition stcp_UnmarshalFromMsg :: "(string \<Rightarrow> int \<Rightarrow> int option) \<Rightarrow> NewProxy \<Rightarrow> STCPProxyConfig \<Rightarrow> STCPProxyConfig" where
  "stcp_UnmarshalFromMsg scale m c =
     (base_UnmarshalFromMsg scale m c)\<lparr>sc_Secretkey := np_Sk m, sc_AllowUsers := np_AllowUsers m\<rparr>"

definition xtcp_MarshalToMsg :: "XTCPProxyConfig \<Rightarrow> NewProxy \<Rightarrow> NewProxy" where
  "xtcp_MarshalToMsg c m = (base_MarshalToMsg c m)\<lparr>np_Sk := xc_Secretkey c, np_AllowUsers := xc_AllowUsers c\<rparr>"

definition xtcp_UnmarshalFromMsg :: "(string \<Rightarrow> int \<Rightarrow> int option) \<Rightarrow> NewProxy \<Rightarrow> XTCPProxyConfig \<Rightarrow> XTCPProxyConfig" where
  "xtcp_UnmarshalFromMsg scale m c =
     (base_UnmarshalFromMsg scale m c)\<lparr>xc_Secretkey := np_Sk m, xc_AllowUsers := np_AllowUsers m\<rparr>"

definition sudp_MarshalToMsg :: "SUDPProxyConfig \<Rightarrow> NewProxy \<Rightarrow> NewProxy" where
  "sudp_MarshalToMsg c m = (base_MarshalToMsg c m)\<lparr>np_Sk := su_Secretkey c, np_AllowUsers := su_AllowUsers c\<rparr>"

definition sudp_UnmarshalFromMsg :: "(string \<Rightarrow> int \<Rightarrow> int option) \<Rightarrow> NewProxy \<Rightarrow> SUDPProxyConfig \<Rightarrow> SUDPProxyConfig" where
  "sudp_UnmarshalFromMsg scale m c =
     (base_UnmarshalFromMsg scale m c)\<lparr>su_Secretkey := np_Sk m, su_AllowUsers := np_AllowUsers m\<rparr>"

text \<open>The methods of the interface, by kind.\<close>

fun MarshalToMsg :: "ProxyConfigurer \<Rightarrow> NewProxy \<Rightarrow> NewProxy" where
  "MarshalToMsg (TCPConf c) m = tcp_MarshalToMsg c m"
| "MarshalToMsg (UDPConf c) m = udp_MarshalToMsg c m"
| "MarshalToMsg (HTTPConf c) m = http_MarshalToMsg c m"
| "MarshalToMsg (HTTPSConf c) m = https_MarshalToMsg c m"
| "MarshalToMsg (TCPMuxConf c) m = tcpmux_MarshalToMsg c m"
| "MarshalToMsg (STCPConf c) m = stcp_MarshalToMsg c m"
| "MarshalToMsg (XTCPConf c) m = xtcp_MarshalToMsg c m"
| "MarshalToMsg (SUDPConf c) m = sudp_MarshalToMsg c m"

fun UnmarshalFromMsg :: "(string \<Rightarrow> int \<Rightarrow> int option) \<Rightarrow> NewProxy \<Rightarrow> ProxyConfigurer \<Rightarrow> ProxyConfigurer" where
  "UnmarshalFromMsg scale m (TCPConf c) = TCPConf (tcp_UnmarshalFromMsg scale m c)"
| "UnmarshalFromMsg scale m (UDPConf c) = UDPConf (udp_UnmarshalFromMsg scale m c)"
| "UnmarshalFromMsg scale m (HTTPConf c) = HTTPConf (http_UnmarshalFromMsg scale m c)"
| "UnmarshalFromMsg scale m (HTTPSConf c) = HTTPSConf (https_UnmarshalFromMsg scale m c)"
| "UnmarshalFromMsg scale m (TCPMuxConf c) = TCPMuxConf (tcpmux_UnmarshalFromMsg scale m c)"
| "UnmarshalFromMsg scale m (STCPConf c) = STCPConf (stcp_UnmarshalFromMsg scale m c)"
| "UnmarshalFromMsg scale m (XTCPConf c) = XTCPConf (xtcp_UnmarshalFromMsg scale m c)"
| "UnmarshalFromMsg scale m (SUDPConf c) = SUDPConf (sudp_UnmarshalFromMsg scale m c)"

text \<open>Defaults.\<close>

fun plugin_Complete :: "ClientPluginOptions \<Rightarrow> ClientPluginOptions" where
  "plugin_Complete (HTTPS2HTTPPluginOptions a h) =
     HTTPS2HTTPPluginOptions a (case h of None \<Rightarrow> Some True | Some b \<Rightarrow> Some b)"
| "plugin_Complete (HTTPS2HTTPSPluginOptions a h) =
     HTTPS2HTTPSPluginOptions a (case h of None \<Rightarrow> Some True | Some b \<Rightarrow> Some b)"
| "plugin_Complete p = p"

definition base_Complete :: "'a ProxyBaseConfig_scheme \<Rightarrow> 'a ProxyBaseConfig_scheme" where
  "base_Complete c =
     c\<lparr>pb_LocalIP := EmptyOr (pb_LocalIP c) ''127.0.0.1'',
       pb_Transport := (pb_Transport c)\<lparr>pt_BandwidthLimitMode := EmptyOr (pt_BandwidthLimitMode (pb_Transport c)) ''client''\<rparr>,
       pb_Plugin := map_option plugin_Complete (pb_Plugin c)\<rparr>"

fun Complete :: "ProxyConfigurer \<Rightarrow> ProxyConfigurer" where
  "Complete (TCPConf c) = TCPConf (base_Complete c)"
| "Complete (UDPConf c) = UDPConf (base_Complete c)"
| "Complete (HTTPConf c) = HTTPConf (base_Complete c)"
| "Complete (HTTPSConf c) = HTTPSConf (base_Complete c)"
| "Complete (TCPMuxConf c) = TCPMuxConf (base_Complete c)"
| "Complete (STCPConf c) = STCPConf (base_Complete c)"
| "Complete (XTCPConf c) = XTCPConf (base_Complete c)"
| "Complete (SUDPConf c) = SUDPConf (base_Complete c)"

section \<open>Validation\<close>

datatype config_error =
    NameEmpty
  | AnnotationKey string string
  | AnnotationsTooLarge int
  | ProxyProtocolVersion string
  | BandwidthLimitMode
  | PortRange string int
  | PluginError string config_error
  | LocalAddrRequired | LocalPathRequired | UnixPathRequired
  | HealthCheckType string
  | HealthCheckPathEmpty
  | NoDomains
  | CustomDomainInSubDomainHost string string
  | SubDomainDisabled
  | SubDomainCharacters
  | MultiplexerUnsupported string
  | TCPMuxDisabled | VhostHTTPDisabled | VhostHTTPSDisabled
  | UnknownProxyType string
  | JoinedErrors "config_error list"

text \<open>The part of the server configuration that proxies and controls read.\<close>

record ServerConfig =
  sv_ProxyBindAddr :: string
  sv_SubDomainHost :: string
  sv_VhostHTTPPort :: int
  sv_VhostHTTPSPort :: int
  sv_TCPMuxHTTPConnectPort :: int
  sv_MaxPortsPerClient :: int
  sv_MaxPoolCount :: int
  sv_HeartbeatTimeout :: int
  sv_DetailedErrorsToClient :: bool

definition TotalAnnotationSizeLimitB :: int where
  "TotalAnnotationSizeLimitB = 256 * 1024"

definition ValidateAnnotationsSize :: "string_map \<Rightarrow> config_error option" where
  "ValidateAnnotationsSize annotations =
     (let totalSize = sum_list (map (\<lambda>(k, v). int (length k) + int (length v)) annotations) in
      if totalSize > TotalAnnotationSizeLimitB then Some (AnnotationsTooLarge totalSize) else None)"

definition ValidateAnnotations :: "(string \<Rightarrow> string list) \<Rightarrow> string_map \<Rightarrow> config_error option" where
  "ValidateAnnotations qualified annotations =
     (if annotations = [] then None
      else
        let keyErrs = concat (map (\<lambda>(k, v). map (AnnotationKey k) (qualified (to_lower k))) annotations);
            errs = keyErrs @ (case ValidateAnnotationsSize annotations of None \<Rightarrow> [] | Some e \<Rightarrow> [e])
        in if errs = [] then None else Some (JoinedErrors errs))"

definition ValidatePort :: "int \<Rightarrow> string \<Rightarrow> config_error option" where
  "ValidatePort port fieldPath = (if 0 \<le> port \<and> port \<le> 65535 then None else Some (PortRange fieldPath port))"

fun ValidateClientPluginOptions :: "ClientPluginOptions \<Rightarrow> config_error option" where
  "ValidateClientPluginOptions (HTTP2HTTPSPluginOptions a) = (if a = [] then Some LocalAddrRequired else None)"
| "ValidateClientPluginOptions (HTTPS2HTTPPluginOptions a h) = (if a = [] then Some LocalAddrRequired else None)"
| "ValidateClientPluginOptions (HTTPS2HTTPSPluginOptions a h) = (if a = [] then Some LocalAddrRequired else None)"
| "ValidateClientPluginOptions (StaticFilePluginOptions p) = (if p = [] then Some LocalPathRequired else None)"
| "ValidateClientPluginOptions (UnixDomainSocketPluginOptions p) = (if p = [] then Some UnixPathRequired else None)"
| "ValidateClientPluginOptions (TLS2RawPluginOptions a) = (if a = [] then Some LocalAddrRequired else None)"
| "ValidateClientPluginOptions _ = None"

text \<open>The first error of a sequence of checks.\<close>

fun first_error :: "config_error option list \<Rightarrow> config_error option" where
  "first_error [] = None"
| "first_error (None # es) = first_error es"
| "first_error (Some e # es) = Some e"

definition validateProxyBaseConfigForClient :: "(string \<Rightarrow> string list) \<Rightarrow> 'a ProxyBaseConfig_scheme \<Rightarrow> config_error option" where
  "validateProxyBaseConfigForClient qualified c = first_error
     [if pb_Name c = [] then Some NameEmpty else None,
      ValidateAnnotations qualified (pb_Annotations c),
      if pt_ProxyProtocolVersion (pb_Transport c) \<notin> set [[], ''v1'', ''v2'']
        then Some (ProxyProtocolVersion (pt_ProxyProtocolVersion (pb_Transport c))) else None,
      if pt_BandwidthLimitMode (pb_Transport c) \<notin> set [''client'', ''server''] then Some BandwidthLimitMode else None,
      if pb_PluginType c = [] then ValidatePort (pb_LocalPort c) ''localPort'' else None,
      if hc_Type (pb_HealthCheck c) \<notin> set [[], ''tcp'', ''http'']
        then Some (HealthCheckType (hc_Type (pb_HealthCheck c))) else None,
      if hc_Type (pb_HealthCheck c) \<noteq> [] \<and> hc_Type (pb_HealthCheck c) = ''http'' \<and> hc_Path (pb_HealthCheck c) = []
        then Some HealthCheckPathEmpty else None,
      if pb_PluginType c \<noteq> []
        then (case pb_Plugin c of
                None \<Rightarrow> None
              | Some p \<Rightarrow> map_option (PluginError (pb_PluginType c)) (ValidateClientPluginOptions p))
        else None]"

definition validateProxyBaseConfigForServer :: "(string \<Rightarrow> string list) \<Rightarrow> 'a ProxyBaseConfig_scheme \<Rightarrow> config_error option" where
  "validateProxyBaseConfigForServer qualified c = ValidateAnnotations qualified (pb_Annotations c)"

definition validateDomainConfigForClient :: "DomainConfig \<Rightarrow> config_error option" where
  "validateDomainConfigForClient c = (if dc_SubDomain c = [] \<and> dc_CustomDomains c = [] then Some NoDomains else None)"

fun check_custom_domains :: "string \<Rightarrow> string list \<Rightarrow> config_error option" where
  "check_custom_domains host [] = None"
| "check_custom_domains host (domain # ds) =
     (if host \<noteq> [] \<and> length (split_on CHR ''.'' host) < length (split_on CHR ''.'' domain)
         \<and> has_suffix domain (''.'' @ host)
      then Some (CustomDomainInSubDomainHost domain host)
      else check_custom_domains host ds)"

definition validateDomainConfigForServer :: "DomainConfig \<Rightarrow> ServerConfig \<Rightarrow> config_error option" where
  "validateDomainConfigForServer c s =
     (case check_custom_domains (sv_SubDomainHost s) (dc_CustomDomains c) of
        Some e \<Rightarrow> Some e
      | None \<Rightarrow>
          (if dc_SubDomain c \<noteq> [] then
             (if sv_SubDomainHost s = [] then Some SubDomainDisabled
              else if CHR ''.'' \<in> set (dc_SubDomain c) \<or> CHR ''*'' \<in> set (dc_SubDomain c)
              then Some SubDomainCharacters
              else None)
           else None))"

definition validateTCPMuxProxyConfigForClient :: "TCPMuxProxyConfig \<Rightarrow> config_error option" where
  "validateTCPMuxProxyConfigForClient c =
     (case validateDomainConfigForClient (tm_Domains c) of
        Some e \<Rightarrow> Some e
      | None \<Rightarrow> (if tm_Multiplexer c \<notin> set [''httpconnect''] then Some (MultiplexerUnsupported (tm_Multiplexer c)) else None))"

definition ValidateProxyConfigurerForClient :: "(string \<Rightarrow> string list) \<Rightarrow> ProxyConfigurer \<Rightarrow> config_error option" where
  "ValidateProxyConfigurerForClient qualified c =
     (case validateProxyBaseConfigForClient qualified (GetBaseConfig c) of
        Some e \<Rightarrow> Some e
      | None \<Rightarrow>
          (case c of
             TCPMuxConf v \<Rightarrow> validateTCPMuxProxyConfigForClient v
           | HTTPConf v \<Rightarrow> validateDomainConfigForClient (ht_Domains v)
           | HTTPSConf v \<Rightarrow> validateDomainConfigForClient (hs_Domains v)
           | _ \<Rightarrow> None))"

definition validateTCPMuxProxyConfigForServer :: "TCPMuxProxyConfig \<Rightarrow> ServerConfig \<Rightarrow> config_error option" where
  "validateTCPMuxProxyConfigForServer c s =
     (if tm_Multiplexer c = ''httpconnect'' \<and> sv_TCPMuxHTTPConnectPort s = 0 then Some TCPMuxDisabled
      else validateDomainConfigForServer (tm_Domains c) s)"

definition validateHTTPProxyConfigForServer :: "HTTPProxyConfig \<Rightarrow> ServerConfig \<Rightarrow> config_error option" where
  "validateHTTPProxyConfigForServer c s =
     (if sv_VhostHTTPPort s = 0 then Some VhostHTTPDisabled else validateDomainConfigForServer (ht_Domains c) s)"

definition validateHTTPSProxyConfigForServer :: "HTTPSProxyConfig \<Rightarrow> ServerConfig \<Rightarrow> config_error option" where
  "validateHTTPSProxyConfigForServer c s =
     (if sv_VhostHTTPSPort s = 0 then Some VhostHTTPSDisabled else validateDomainConfigForServer (hs_Domains c) s)"

definition ValidateProxyConfigurerForServer ::
  "(string \<Rightarrow> string list) \<Rightarrow> ProxyConfigurer \<Rightarrow> ServerConfig \<Rightarrow> config_error option" where
  "ValidateProxyConfigurerForServer qualified c s =
     (case validateProxyBaseConfigForServer qualified (GetBaseConfig c) of
        Some e \<Rightarrow> Some e
      | None \<Rightarrow>
          (case c of
             TCPMuxConf v \<Rightarrow> validateTCPMuxProxyConfigForServer v s
           | HTTPConf v \<Rightarrow> validateHTTPProxyConfigForServer v s
           | HTTPSConf v \<Rightarrow> validateHTTPSProxyConfigForServer v s
           | _ \<Rightarrow> None))"

definition NewProxyConfigurerFromMsg ::
  "(string \<Rightarrow> int \<Rightarrow> int option) \<Rightarrow> (string \<Rightarrow> string list) \<Rightarrow> NewProxy \<Rightarrow> ServerConfig \<Rightarrow> (config_error, ProxyConfigurer) result" where
  "NewProxyConfigurerFromMsg scale qualified m0 serverCfg =
     (let m = m0\<lparr>np_ProxyType := EmptyOr (np_ProxyType m0) ''tcp''\<rparr> in
      case NewProxyConfigurerByType (np_ProxyType m) of
        None \<Rightarrow> err (UnknownProxyType (np_ProxyType m))
      | Some configurer \<Rightarrow>
          (let configurer' = Complete (UnmarshalFromMsg scale m configurer) in
           case ValidateProxyConfigurerForServer qualified configurer' serverCfg of
             Some e \<Rightarrow> err e
           | None \<Rightarrow> ok configurer'))"

section \<open>What the server sees of a configuration\<close>

definition conf_type :: "ProxyConfigurer \<Rightarrow> string" where
  "conf_type c = (case c of TCPConf _ \<Rightarrow> ''tcp'' | UDPConf _ \<Rightarrow> ''udp'' | HTTPConf _ \<Rightarrow> ''http'' | HTTPSConf _ \<Rightarrow> ''https''
     | TCPMuxConf _ \<Rightarrow> ''tcpmux'' | STCPConf _ \<Rightarrow> ''stcp'' | XTCPConf _ \<Rightarrow> ''xtcp'' | SUDPConf _ \<Rightarrow> ''sudp'')"

text \<open>The fields that stay with the client have their defaults on the server.\<close>

definition base_view :: "'a ProxyBaseConfig_scheme \<Rightarrow> 'a ProxyBaseConfig_scheme" where
  "base_view c = c\<lparr>pb_Enabled := None, pb_HealthCheck := pb_HealthCheck zero_base, pb_LocalIP := ''127.0.0.1'', pb_LocalPort := 0,
     pb_PluginType := [], pb_Plugin := None, pb_Transport := (pb_Transport c)\<lparr>pt_ProxyProtocolVersion := []\<rparr>\<rparr>"

fun server_view :: "ProxyConfigurer \<Rightarrow> ProxyConfigurer" where
  "server_view (TCPConf c) = TCPConf (base_view c)"
| "server_view (UDPConf c) = UDPConf (base_view c)"
| "server_view (HTTPConf c) = HTTPConf (base_view c)"
| "server_view (HTTPSConf c) = HTTPSConf (base_view c)"
| "server_view (TCPMuxConf c) = TCPMuxConf (base_view c)"
| "server_view (STCPConf c) = STCPConf (base_view c)"
| "server_view (XTCPConf c) = XTCPConf ((base_view c)\<lparr>xc_DisableAssistedAddrs := None\<rparr>)"
| "server_view (SUDPConf c) = SUDPConf (base_view c)"

lemma bandwidth_text_empty:
  "fst (NewBandwidthQuantity scale s) = bq_zero \<or> bq_s (fst (NewBandwidthQuantity scale s)) \<noteq> []"
  by (auto simp: NewBandwidthQuantity_def UnmarshalString_def Let_def split: option.split prod.split)

lemma parsed_bandwidth:
  assumes "q = fst (NewBandwidthQuantity scale s)"
  shows "(if bq_s q \<noteq> [] then fst (NewBandwidthQuantity scale (bq_s q)) else bq_zero) = q"
  using bandwidth_text_empty [of scale s] NewBandwidthQuantity_String [of scale s] assms
  by (auto simp: bq_String_def)

lemmas marshal_defs = tcp_MarshalToMsg_def udp_MarshalToMsg_def http_MarshalToMsg_def https_MarshalToMsg_def
  tcpmux_MarshalToMsg_def stcp_MarshalToMsg_def xtcp_MarshalToMsg_def sudp_MarshalToMsg_def
  tcp_UnmarshalFromMsg_def udp_UnmarshalFromMsg_def http_UnmarshalFromMsg_def https_UnmarshalFromMsg_def
  tcpmux_UnmarshalFromMsg_def stcp_UnmarshalFromMsg_def xtcp_UnmarshalFromMsg_def sudp_UnmarshalFromMsg_def

text \<open>The base fields survive the message, whatever the kind adds to it.\<close>

definition carries_base :: "'a ProxyBaseConfig_scheme \<Rightarrow> NewProxy \<Rightarrow> bool" where
  "carries_base c m \<longleftrightarrow>
     np_ProxyName m = pb_Name c \<and> np_ProxyType m = pb_Type c
   \<and> np_UseEncryption m = pt_UseEncryption (pb_Transport c) \<and> np_UseCompression m = pt_UseCompression (pb_Transport c)
   \<and> np_BandwidthLimit m = bq_s (pt_BandwidthLimit (pb_Transport c))
   \<and> np_BandwidthLimitMode m = (if pt_BandwidthLimitMode (pb_Transport c) = ''client'' then [] else pt_BandwidthLimitMode (pb_Transport c))
   \<and> np_Group m = lb_Group (pb_LoadBalancer c) \<and> np_GroupKey m = lb_GroupKey (pb_LoadBalancer c)
   \<and> np_Metas m = pb_Metadatas c \<and> np_Annotations m = pb_Annotations c"

lemma base_roundtrip:
  fixes c :: "'a ProxyBaseConfig_scheme" and x :: 'b
  assumes m: "carries_base c m" and mode: "pt_BandwidthLimitMode (pb_Transport c) \<noteq> []"
    and bw: "pt_BandwidthLimit (pb_Transport c) = fst (NewBandwidthQuantity scale s)"
  shows "base_Complete (base_UnmarshalFromMsg scale m (ProxyBaseConfig.extend (zero_base\<lparr>pb_Type := t\<rparr>) x))
       = ProxyBaseConfig.extend (ProxyBaseConfig.truncate (base_view c)) x"
proof -
  obtain tr where tr: "pb_Transport c = tr" by simp
  obtain lb where lb: "pb_LoadBalancer c = lb" by simp
  have q: "(if bq_s (pt_BandwidthLimit tr) \<noteq> [] then fst (NewBandwidthQuantity scale (bq_s (pt_BandwidthLimit tr))) else bq_zero)
      = pt_BandwidthLimit tr"
    using parsed_bandwidth [OF bw] unfolding tr .
  show ?thesis
    using m mode q unfolding carries_base_def tr lb
    by (cases tr; cases lb)
       (auto simp: base_Complete_def base_UnmarshalFromMsg_def zero_base_def base_view_def EmptyOr_def tr lb Let_def
         ProxyBaseConfig.defs split: if_splits)
qed

lemma carries_base_marshal:
  "carries_base c (base_MarshalToMsg c zero_msg)"
  by (simp add: carries_base_def base_MarshalToMsg_def zero_msg_def bq_String_def Let_def)

definition conf_ok :: "(string \<Rightarrow> int \<Rightarrow> int option) \<Rightarrow> ProxyConfigurer \<Rightarrow> bool" where
  "conf_ok scale c \<longleftrightarrow> pb_Type (GetBaseConfig c) = conf_type c
     \<and> pt_BandwidthLimit (pb_Transport (GetBaseConfig c)) \<in> range (\<lambda>s. fst (NewBandwidthQuantity scale s))"

lemma Complete_facts [simp]:
  "conf_type (Complete c) = conf_type c"
  "pb_Type (GetBaseConfig (Complete c)) = pb_Type (GetBaseConfig c)"
  "pt_BandwidthLimit (pb_Transport (GetBaseConfig (Complete c))) = pt_BandwidthLimit (pb_Transport (GetBaseConfig c))"
  "pt_BandwidthLimitMode (pb_Transport (GetBaseConfig (Complete c))) \<noteq> []"
  by (cases c; simp add: conf_type_def GetBaseConfig_def base_Complete_def EmptyOr_def ProxyBaseConfig.defs)+

text \<open>Completing keeps the name and the switch of a proxy, and is done once.\<close>

lemma Complete_name [simp]:
  "pc_name (Complete c) = pc_name c" "pb_Enabled (GetBaseConfig (Complete c)) = pb_Enabled (GetBaseConfig c)"
  by (cases c; simp add: GetBaseConfig_def base_Complete_def ProxyBaseConfig.defs)+

lemma plugin_Complete_idem [simp]: "plugin_Complete (plugin_Complete p) = plugin_Complete p"
  by (cases p) (auto split: option.split)

lemma base_Complete_idem: "base_Complete (base_Complete c) = base_Complete c"
  by (simp add: base_Complete_def EmptyOr_def option.map_comp comp_def)

lemma Complete_idem: "Complete (Complete c) = Complete c"
  by (cases c) (simp_all add: base_Complete_idem)

lemma MarshalToMsg_carries: "carries_base (GetBaseConfig c) (MarshalToMsg c zero_msg)"
  by (cases c)
     (simp_all add: GetBaseConfig_def marshal_defs carries_base_def base_MarshalToMsg_def zero_msg_def bq_String_def
       Let_def ProxyBaseConfig.defs)

lemma base_Complete_updates:
  "base_Complete (tcp_UnmarshalFromMsg scale m c1) = (base_Complete (base_UnmarshalFromMsg scale m c1))\<lparr>tc_RemotePort := np_RemotePort m\<rparr>"
  "base_Complete (udp_UnmarshalFromMsg scale m c2) = (base_Complete (base_UnmarshalFromMsg scale m c2))\<lparr>uc_RemotePort := np_RemotePort m\<rparr>"
  "base_Complete (http_UnmarshalFromMsg scale m c3) = (base_Complete (base_UnmarshalFromMsg scale m c3))\<lparr>
     ht_Domains := \<lparr>dc_CustomDomains = np_CustomDomains m, dc_SubDomain = np_SubDomain m\<rparr>,
     ht_Locations := np_Locations m, ht_HostHeaderRewrite := np_HostHeaderRewrite m,
     ht_HTTPUser := np_HTTPUser m, ht_HTTPPassword := np_HTTPPwd m,
     ht_RequestHeaders := np_Headers m, ht_ResponseHeaders := np_ResponseHeaders m, ht_RouteByHTTPUser := np_RouteByHTTPUser m\<rparr>"
  "base_Complete (https_UnmarshalFromMsg scale m c4) = (base_Complete (base_UnmarshalFromMsg scale m c4))\<lparr>
     hs_Domains := \<lparr>dc_CustomDomains = np_CustomDomains m, dc_SubDomain = np_SubDomain m\<rparr>\<rparr>"
  "base_Complete (tcpmux_UnmarshalFromMsg scale m c5) = (base_Complete (base_UnmarshalFromMsg scale m c5))\<lparr>
     tm_Domains := \<lparr>dc_CustomDomains = np_CustomDomains m, dc_SubDomain = np_SubDomain m\<rparr>,
     tm_Multiplexer := np_Multiplexer m, tm_HTTPUser := np_HTTPUser m, tm_HTTPPassword := np_HTTPPwd m,
     tm_RouteByHTTPUser := np_RouteByHTTPUser m\<rparr>"
  "base_Complete (stcp_UnmarshalFromMsg scale m c6) = (base_Complete (base_UnmarshalFromMsg scale m c6))\<lparr>
     sc_Secretkey := np_Sk m, sc_AllowUsers := np_AllowUsers m\<rparr>"
  "base_Complete (xtcp_UnmarshalFromMsg scale m c7) = (base_Complete (base_UnmarshalFromMsg scale m c7))\<lparr>
     xc_Secretkey := np_Sk m, xc_AllowUsers := np_AllowUsers m\<rparr>"
  "base_Complete (sudp_UnmarshalFromMsg scale m c8) = (base_Complete (base_UnmarshalFromMsg scale m c8))\<lparr>
     su_Secretkey := np_Sk m, su_AllowUsers := np_AllowUsers m\<rparr>"
  by (simp_all add: base_Complete_def marshal_defs)

text \<open>Unmarshalling and completing what was marshalled gives the server's view.\<close>

lemma unmarshal_marshal:
  assumes t: "pb_Type (GetBaseConfig c) = conf_type c" and mode: "pt_BandwidthLimitMode (pb_Transport (GetBaseConfig c)) \<noteq> []"
    and bw: "pt_BandwidthLimit (pb_Transport (GetBaseConfig c)) = fst (NewBandwidthQuantity scale s)"
  shows "\<exists>z. NewProxyConfigurerByType (np_ProxyType (MarshalToMsg c zero_msg)) = Some z
       \<and> Complete (UnmarshalFromMsg scale (MarshalToMsg c zero_msg) z) = server_view c"
proof -
  define m where "m = MarshalToMsg c zero_msg"
  note rt = base_roundtrip [OF MarshalToMsg_carries mode bw, folded m_def]
  have ty: "np_ProxyType m = conf_type c"
    using MarshalToMsg_carries [of c] t by (simp add: carries_base_def m_def)
  note run = conf_type_def NewProxyConfigurerByType_def base_Complete_updates rt
  note fin = m_def marshal_defs GetBaseConfig_def base_view_def ProxyBaseConfig.defs
  have "\<exists>z. NewProxyConfigurerByType (conf_type c) = Some z \<and> Complete (UnmarshalFromMsg scale m z) = server_view c"
  proof (cases c)
    case (TCPConf v)
    show ?thesis by (simp add: TCPConf run) (cases v; simp add: TCPConf fin TCPProxyConfig.defs)
  next
    case (UDPConf v)
    show ?thesis by (simp add: UDPConf run) (cases v; simp add: UDPConf fin UDPProxyConfig.defs)
  next
    case (HTTPConf v)
    show ?thesis by (simp add: HTTPConf run) (cases v; simp add: HTTPConf fin HTTPProxyConfig.defs)
  next
    case (HTTPSConf v)
    show ?thesis by (simp add: HTTPSConf run) (cases v; simp add: HTTPSConf fin HTTPSProxyConfig.defs)
  next
    case (TCPMuxConf v)
    show ?thesis by (simp add: TCPMuxConf run) (cases v; simp add: TCPMuxConf fin TCPMuxProxyConfig.defs)
  next
    case (STCPConf v)
    show ?thesis by (simp add: STCPConf run) (cases v; simp add: STCPConf fin STCPProxyConfig.defs)
  next
    case (XTCPConf v)
    show ?thesis by (simp add: XTCPConf run) (cases v; simp add: XTCPConf fin XTCPProxyConfig.defs)
  next
    case (SUDPConf v)
    show ?thesis by (simp add: SUDPConf run) (cases v; simp add: SUDPConf fin SUDPProxyConfig.defs)
  qed
  then show ?thesis by (simp add: m_def [symmetric] ty)
qed

section \<open>Properties\<close>

text \<open>C31. What the client configures is what the server gets. A configuration that the client completed and
  marshalled into a message is unmarshalled, completed and validated by the server as the same
  configuration, except for the fields that are the client's own (health check, backend, plugin, proxy
  protocol, \<open>enabled\<close>), which have their defaults. This covers the bandwidth limit, which travels as
  text, and the bandwidth mode, which is left out of the message when it is \<open>client\<close>. The type must be
  the one of the kind and the limit must have been parsed from some text.\<close>

theorem config_roundtrip:
  assumes "conf_ok scale c0"
  shows "NewProxyConfigurerFromMsg scale qualified (MarshalToMsg (Complete c0) zero_msg) s =
     (case ValidateProxyConfigurerForServer qualified (server_view (Complete c0)) s of
        Some e \<Rightarrow> err e
      | None \<Rightarrow> ok (server_view (Complete c0)))"
proof -
  let ?c = "Complete c0" and ?m = "MarshalToMsg (Complete c0) zero_msg"
  obtain q where q: "pt_BandwidthLimit (pb_Transport (GetBaseConfig ?c)) = fst (NewBandwidthQuantity scale q)"
    using assms by (auto simp: conf_ok_def)
  have t: "pb_Type (GetBaseConfig ?c) = conf_type ?c" using assms by (simp add: conf_ok_def)
  obtain z where z: "NewProxyConfigurerByType (np_ProxyType ?m) = Some z"
      "Complete (UnmarshalFromMsg scale ?m z) = server_view ?c"
    using unmarshal_marshal [OF t _ q] by auto
  have "np_ProxyType ?m \<noteq> []" using z(1) by (auto simp: NewProxyConfigurerByType_def)
  then have m: "?m\<lparr>np_ProxyType := EmptyOr (np_ProxyType ?m) ''tcp''\<rparr> = ?m" by (simp add: EmptyOr_def)
  show ?thesis unfolding NewProxyConfigurerFromMsg_def Let_def m z(1) by (simp add: z(2) split: option.split)
qed

definition demo_server_cfg :: ServerConfig where
  "demo_server_cfg = \<lparr>sv_ProxyBindAddr = ''0.0.0.0'', sv_SubDomainHost = ''example.com'', sv_VhostHTTPPort = 80,
     sv_VhostHTTPSPort = 443, sv_TCPMuxHTTPConnectPort = 0, sv_MaxPortsPerClient = 2, sv_MaxPoolCount = 5,
     sv_HeartbeatTimeout = 90, sv_DetailedErrorsToClient = True\<rparr>"

definition demo_http_conf :: "string \<Rightarrow> string list \<Rightarrow> string \<Rightarrow> ProxyConfigurer" where
  "demo_http_conf name custom sub = HTTPConf (ProxyBaseConfig.extend (zero_base\<lparr>pb_Name := name, pb_Type := ''http''\<rparr>)
     (HTTPProxyConfig.fields \<lparr>dc_CustomDomains = custom, dc_SubDomain = sub\<rparr> [] [] [] [] [] [] []))"

lemma demo_http_conf_ok: "conf_ok scale (demo_http_conf name custom sub)"
proof -
  have "bq_zero = fst (NewBandwidthQuantity scale [])"
    by (simp add: NewBandwidthQuantity_def UnmarshalString_def trim_space_def)
  then show ?thesis
    by (simp add: conf_ok_def demo_http_conf_def GetBaseConfig_def conf_type_def zero_base_def ProxyBaseConfig.defs
        HTTPProxyConfig.defs)
qed

theorem config_roundtrip_witness:
  "NewProxyConfigurerFromMsg (\<lambda>_ _. None) (\<lambda>_. []) (MarshalToMsg (Complete (demo_http_conf ''web'' [] ''www'')) zero_msg) demo_server_cfg
   = ok (server_view (Complete (demo_http_conf ''web'' [] ''www'')))"
  unfolding config_roundtrip [OF demo_http_conf_ok]
  by (simp add: demo_http_conf_def ValidateProxyConfigurerForServer_def validateProxyBaseConfigForServer_def
      ValidateAnnotations_def GetBaseConfig_def base_Complete_def base_view_def zero_base_def ProxyBaseConfig.defs
      HTTPProxyConfig.defs validateHTTPProxyConfigForServer_def validateDomainConfigForServer_def demo_server_cfg_def)

definition conf_domains :: "ProxyConfigurer \<Rightarrow> DomainConfig option" where
  "conf_domains c = (case c of HTTPConf v \<Rightarrow> Some (ht_Domains v) | HTTPSConf v \<Rightarrow> Some (hs_Domains v)
     | TCPMuxConf v \<Rightarrow> Some (tm_Domains v) | _ \<Rightarrow> None)"

lemma split_on_append: "split_on c (s @ c # t) = split_on c s @ split_on c t"
proof (induction s)
  case (Cons x s)
  then show ?case by (cases "split_on c s") auto
qed simp

lemma check_custom_domains_None:
  "check_custom_domains host ds = None \<Longrightarrow> d \<in> set ds \<Longrightarrow> host \<noteq> [] \<Longrightarrow> d \<noteq> sub @ ''.'' @ host"
proof (induction ds)
  case (Cons e ds)
  have "length (split_on CHR ''.'' host) < length (split_on CHR ''.'' (sub @ ''.'' @ host))"
    using split_on_append [of "CHR ''.''" sub host] by simp
  moreover have "has_suffix (sub @ ''.'' @ host) (''.'' @ host)" unfolding has_suffix_iff suffix_def by blast
  ultimately have "check_custom_domains host (e # ds) \<noteq> None" if "e = sub @ ''.'' @ host" unfolding that using Cons.prems(3) by simp
  with Cons show ?case by (auto split: if_splits)
qed simp

lemma validated_domains:
  assumes "NewProxyConfigurerFromMsg scale qualified m s = ok c" and "conf_domains c = Some dc"
  shows "validateDomainConfigForServer dc s = None"
  using assms
  by (auto simp: NewProxyConfigurerFromMsg_def Let_def ValidateProxyConfigurerForServer_def conf_domains_def
      validateTCPMuxProxyConfigForServer_def validateHTTPProxyConfigForServer_def validateHTTPSProxyConfigForServer_def
      split: option.splits ProxyConfigurer.splits if_splits)

text \<open>Domains under the server's sub-domain host. When the server accepts a proxy, none of its custom
  domains is, as written, a name below the sub-domain host; and its own sub-domain is a single label, only
  accepted if the host is configured. So a domain that one proxy gets through its sub-domain is never the
  custom domain of another, character by character.\<close>

theorem subdomain_protected:
  assumes "NewProxyConfigurerFromMsg scale qualified m s = ok c" and "conf_domains c = Some dc"
  shows "(sv_SubDomainHost s \<noteq> [] \<longrightarrow> (\<forall>d \<in> set (dc_CustomDomains dc). \<forall>sub. d \<noteq> sub @ ''.'' @ sv_SubDomainHost s))
       \<and> (dc_SubDomain dc \<noteq> [] \<longrightarrow> sv_SubDomainHost s \<noteq> [] \<and> split_on CHR ''.'' (dc_SubDomain dc) = [dc_SubDomain dc])"
proof -
  have v: "validateDomainConfigForServer dc s = None" by (rule validated_domains [OF assms])
  have c: "check_custom_domains (sv_SubDomainHost s) (dc_CustomDomains dc) = None"
    using v by (auto simp: validateDomainConfigForServer_def split: option.splits)
  have "sv_SubDomainHost s \<noteq> [] \<and> CHR ''.'' \<notin> set (dc_SubDomain dc)" if "dc_SubDomain dc \<noteq> []"
    using v that by (auto simp: validateDomainConfigForServer_def c split: if_splits)
  then show ?thesis using check_custom_domains_None [OF c] split_on_no_sep by blast
qed

theorem subdomain_protected_witness:
  "\<forall>sub. ''other.org'' \<noteq> sub @ ''.'' @ ''example.com''"
proof -
  let ?c = "demo_http_conf ''web'' [''other.org''] []"
  have "NewProxyConfigurerFromMsg (\<lambda>_ _. None) (\<lambda>_. []) (MarshalToMsg (Complete ?c) zero_msg) demo_server_cfg
      = ok (server_view (Complete ?c))"
    by code_simp
  moreover have "conf_domains (server_view (Complete ?c)) = Some \<lparr>dc_CustomDomains = [''other.org''], dc_SubDomain = []\<rparr>"
    by code_simp
  ultimately show ?thesis using subdomain_protected by (fastforce simp: demo_server_cfg_def)
qed

end
