(* ===== verification/Server_Proxies.thy ===== *)
theory Server_Proxies
  imports Server_Proxy Http_Group Visitor_Manager Nathole_Controller Proxy_Config
begin

text \<open>
  The other kinds of proxies on the server (\<^verbatim>\<open>server/proxy/http.go\<close>, \<^verbatim>\<open>https.go\<close>, \<^verbatim>\<open>tcpmux.go\<close>, \<^verbatim>\<open>stcp.go\<close>,
  \<^verbatim>\<open>sudp.go\<close>, \<^verbatim>\<open>xtcp.go\<close>), the factory and the shared base of \<^verbatim>\<open>proxy.go\<close>, and the resource controller
  (\<^verbatim>\<open>server/controller/resource.go\<close>) they take their resources from. \<open>Run\<close> and \<open>Close\<close> are state
  transformers on the resources; accepting and copying connections is not modelled. A connection
  function of a route is bound to its proxy, here the proxy's name.
\<close>

section \<open>Domains and addresses\<close>

definition JoinHostPort :: "string \<Rightarrow> string \<Rightarrow> string" where
  "JoinHostPort host port =
     (if CHR '':'' \<in> set host then ''['' @ host @ '']:'' @ port else host @ '':'' @ port)"

definition CanonicalAddr :: "string \<Rightarrow> int \<Rightarrow> string" where
  "CanonicalAddr host port = (if port = 80 \<or> port = 443 then host else JoinHostPort host (itoa port))"

definition buildDomains :: "ServerConfig \<Rightarrow> string list \<Rightarrow> string \<Rightarrow> string list" where
  "buildDomains s customDomains subDomain =
     filter (\<lambda>d. d \<noteq> []) customDomains
     @ (if subDomain \<noteq> [] then [subDomain @ ''.'' @ sv_SubDomainHost s] else [])"

section \<open>HTTP proxies\<close>

text \<open>The resources are the HTTP group controller, whose shared state is the router that the reverse
  proxy uses as well. A close function remembers the route it undoes.\<close>

datatype close_func = CloseGroup RouteConfig | CloseRoute RouteConfig

record HTTPProxy =
  hp_name :: string
  hp_cfg :: HTTPProxyConfig
  hp_closeFuncs :: "close_func list"

definition NewHTTPProxy :: "HTTPProxyConfig \<Rightarrow> HTTPProxy" where
  "NewHTTPProxy cfg = \<lparr>hp_name = pb_Name cfg, hp_cfg = cfg, hp_closeFuncs = []\<rparr>"

definition http_routeConfig :: "HTTPProxyConfig \<Rightarrow> RouteConfig" where
  "http_routeConfig cfg = \<lparr>rc_Domain = [], rc_Location = [], rc_RewriteHost = ht_HostHeaderRewrite cfg,
     rc_Username = ht_HTTPUser cfg, rc_Password = ht_HTTPPassword cfg, rc_Headers = ht_RequestHeaders cfg,
     rc_ResponseHeaders = ht_ResponseHeaders cfg, rc_RouteByHTTPUser = ht_RouteByHTTPUser cfg\<rparr>"

definition http_locations :: "HTTPProxyConfig \<Rightarrow> string list" where
  "http_locations cfg = (if ht_Locations cfg = [] then [[]] else ht_Locations cfg)"

text \<open>The two nested loops of \<open>Run\<close>, over the pairs of a domain and a location in their order.
  \<open>others n\<close> is what other goroutines do in the retry loop of the \<open>n\<close>-th group registration.\<close>

fun http_register_all ::
  "(nat \<Rightarrow> (string http_ctl \<Rightarrow> string http_ctl) list) \<Rightarrow> (string \<times> string) list \<Rightarrow> HTTPProxy \<Rightarrow> string http_ctl
   \<Rightarrow> (group_error option \<times> HTTPProxy \<times> string http_ctl) option" where
  "http_register_all others [] pxy s = Some (None, pxy, s)"
| "http_register_all others ((domain, location) # rest) pxy s =
     (let cfg = hp_cfg pxy;
          routeConfig = (http_routeConfig cfg)\<lparr>rc_Domain := domain, rc_Location := location\<rparr>;
          Group = lb_Group (pb_LoadBalancer cfg)
      in if Group \<noteq> [] then
           (case HTTPGroupController_Register (others (length (hp_closeFuncs pxy))) (hp_name pxy) Group
                   (lb_GroupKey (pb_LoadBalancer cfg)) routeConfig (hp_name pxy) s of
              None \<Rightarrow> None
            | Some (Inl e, s') \<Rightarrow> Some (Some e, pxy, s')
            | Some (Inr _, s') \<Rightarrow>
                http_register_all others rest (pxy\<lparr>hp_closeFuncs := hp_closeFuncs pxy @ [CloseGroup routeConfig]\<rparr>) s')
         else
           (case Add domain location (rc_RouteByHTTPUser routeConfig) (PlainRoute routeConfig (hp_name pxy)) (gc_shared s) of
              (Inl e, r) \<Rightarrow> Some (Some (RouteErr e), pxy, s\<lparr>gc_shared := r\<rparr>)
            | (Inr _, r) \<Rightarrow>
                http_register_all others rest (pxy\<lparr>hp_closeFuncs := hp_closeFuncs pxy @ [CloseRoute routeConfig]\<rparr>)
                  (s\<lparr>gc_shared := r\<rparr>)))"

fun http_close :: "HTTPProxy \<Rightarrow> close_func \<Rightarrow> string http_ctl \<Rightarrow> string http_ctl" where
  "http_close pxy (CloseGroup cfg) s =
     HTTPGroupController_UnRegister (hp_name pxy) (lb_Group (pb_LoadBalancer (hp_cfg pxy))) s"
| "http_close pxy (CloseRoute cfg) s =
     s\<lparr>gc_shared := Del (rc_Domain cfg) (rc_Location cfg) (rc_RouteByHTTPUser cfg) (gc_shared s)\<rparr>"

definition HTTPProxy_Close :: "HTTPProxy \<Rightarrow> string http_ctl \<Rightarrow> string http_ctl" where
  "HTTPProxy_Close pxy s = fold (http_close pxy) (hp_closeFuncs pxy) s"

definition http_targets :: "ServerConfig \<Rightarrow> HTTPProxyConfig \<Rightarrow> (string \<times> string) list" where
  "http_targets sv cfg = concat (map (\<lambda>d. map (\<lambda>l. (d, l)) (http_locations cfg))
     (buildDomains sv (dc_CustomDomains (ht_Domains cfg)) (dc_SubDomain (ht_Domains cfg))))"

definition HTTPProxy_Run ::
  "ServerConfig \<Rightarrow> (nat \<Rightarrow> (string http_ctl \<Rightarrow> string http_ctl) list) \<Rightarrow> HTTPProxy \<Rightarrow> string http_ctl
   \<Rightarrow> ((group_error, string \<times> HTTPProxy) result \<times> string http_ctl) option" where
  "HTTPProxy_Run sv others pxy s =
     (let targets = http_targets sv (hp_cfg pxy) in
      case http_register_all others targets pxy s of
        None \<Rightarrow> None
      | Some (Some e, pxy', s') \<Rightarrow> Some (err e, HTTPProxy_Close pxy' s')
      | Some (None, pxy', s') \<Rightarrow>
          Some (ok (join_with '','' (map (\<lambda>(d, l). CanonicalAddr d (sv_VhostHTTPPort sv)) targets), pxy'), s'))"

section \<open>HTTPS and TCPMux proxies\<close>

text \<open>Their listeners are listeners of the multiplexer or members of a group.\<close>

datatype mux_listener = DirectLn Listener | GroupLn vlistener

record HTTPSProxy =
  hsp_name :: string
  hsp_cfg :: HTTPSProxyConfig
  hsp_listeners :: "mux_listener list"

definition NewHTTPSProxy :: "HTTPSProxyConfig \<Rightarrow> HTTPSProxy" where
  "NewHTTPSProxy cfg = \<lparr>hsp_name = pb_Name cfg, hsp_cfg = cfg, hsp_listeners = []\<rparr>"

definition zero_route :: RouteConfig where
  "zero_route = \<lparr>rc_Domain = [], rc_Location = [], rc_RewriteHost = [], rc_Username = [], rc_Password = [],
     rc_Headers = [], rc_ResponseHeaders = [], rc_RouteByHTTPUser = []\<rparr>"

definition direct_listen ::
  "RouteConfig \<Rightarrow> ('p, Listener, Muxer) base_ctl \<Rightarrow> (group_error, mux_listener) result \<times> ('p, Listener, Muxer) base_ctl" where
  "direct_listen routeConfig s =
     (case Listen routeConfig (gc_shared s) of
        (Inl e, v) \<Rightarrow> (err (RouteErr e), s\<lparr>gc_shared := v\<rparr>)
      | (Inr l, v) \<Rightarrow> (ok (DirectLn l), s\<lparr>gc_shared := v\<rparr>))"

definition listenForDomain ::
  "(https_ctl \<Rightarrow> https_ctl) list \<Rightarrow> HTTPSProxy \<Rightarrow> RouteConfig \<Rightarrow> string \<Rightarrow> https_ctl
   \<Rightarrow> ((group_error, mux_listener) result \<times> https_ctl) option" where
  "listenForDomain others pxy routeConfig domain s =
     (let tmpRouteConfig = routeConfig\<lparr>rc_Domain := domain\<rparr>;
          lb = pb_LoadBalancer (hsp_cfg pxy)
      in if lb_Group lb \<noteq> [] then
           (case HTTPSGroupController_Listen others (lb_Group lb) (lb_GroupKey lb) tmpRouteConfig s of
              None \<Rightarrow> None
            | Some (Inl e, s') \<Rightarrow> Some (err e, s')
            | Some (Inr l, s') \<Rightarrow> Some (ok (GroupLn l), s'))
         else Some (direct_listen tmpRouteConfig s))"

text \<open>\<open>BaseProxy.Close\<close> closes the listeners; closing a listener of the multiplexer twice panics
  (\<open>None\<close>).\<close>

fun close_listeners :: "int \<Rightarrow> mux_listener list \<Rightarrow> ('p, Listener, Muxer) base_ctl \<Rightarrow> ('p, Listener, Muxer) base_ctl option" where
  "close_listeners now [] s = Some s"
| "close_listeners now (DirectLn l # ls) s =
     (case listener_Close l (gc_shared s) of
        None \<Rightarrow> None
      | Some v \<Rightarrow> close_listeners now ls (s\<lparr>gc_shared := v\<rparr>))"
| "close_listeners now (GroupLn l # ls) s = close_listeners now ls (MuxGroup_Close now l s)"

text \<open>The loop over the domains, with the listening function of the kind of proxy.\<close>

fun listen_all ::
  "(nat \<Rightarrow> string \<Rightarrow> 's \<Rightarrow> ((group_error, mux_listener) result \<times> 's) option) \<Rightarrow> string list \<Rightarrow> mux_listener list \<Rightarrow> 's
   \<Rightarrow> (group_error option \<times> mux_listener list \<times> 's) option" where
  "listen_all listen [] ls s = Some (None, ls, s)"
| "listen_all listen (domain # domains) ls s =
     (case listen (length ls) domain s of
        None \<Rightarrow> None
      | Some (Inl e, s') \<Rightarrow> Some (Some e, ls, s')
      | Some (Inr l, s') \<Rightarrow> listen_all listen domains (ls @ [l]) s')"

definition HTTPSProxy_Close :: "int \<Rightarrow> HTTPSProxy \<Rightarrow> https_ctl \<Rightarrow> https_ctl option" where
  "HTTPSProxy_Close now pxy s = close_listeners now (hsp_listeners pxy) s"

definition HTTPSProxy_Run ::
  "ServerConfig \<Rightarrow> int \<Rightarrow> (nat \<Rightarrow> (https_ctl \<Rightarrow> https_ctl) list) \<Rightarrow> HTTPSProxy \<Rightarrow> https_ctl
   \<Rightarrow> ((group_error, string \<times> HTTPSProxy) result \<times> https_ctl) option" where
  "HTTPSProxy_Run sv now others pxy s =
     (let dc = hs_Domains (hsp_cfg pxy);
          domains = buildDomains sv (dc_CustomDomains dc) (dc_SubDomain dc)
      in case listen_all (\<lambda>n. listenForDomain (others n) pxy zero_route) domains (hsp_listeners pxy) s of
           None \<Rightarrow> None
         | Some (Some e, ls, s') \<Rightarrow>
             (case HTTPSProxy_Close now (pxy\<lparr>hsp_listeners := ls\<rparr>) s' of
                None \<Rightarrow> None
              | Some s'' \<Rightarrow> Some (err e, s''))
         | Some (None, ls, s') \<Rightarrow>
             Some (ok (join_with '','' (map (\<lambda>d. CanonicalAddr d (sv_VhostHTTPSPort sv)) domains), pxy\<lparr>hsp_listeners := ls\<rparr>), s'))"

record TCPMuxProxy =
  tmp_name :: string
  tmp_cfg :: TCPMuxProxyConfig
  tmp_listeners :: "mux_listener list"

definition NewTCPMuxProxy :: "TCPMuxProxyConfig \<Rightarrow> TCPMuxProxy" where
  "NewTCPMuxProxy cfg = \<lparr>tmp_name = pb_Name cfg, tmp_cfg = cfg, tmp_listeners = []\<rparr>"

definition httpConnectListen ::
  "(tcpmux_ctl \<Rightarrow> tcpmux_ctl) list \<Rightarrow> TCPMuxProxy \<Rightarrow> string \<Rightarrow> tcpmux_ctl \<Rightarrow> ((group_error, mux_listener) result \<times> tcpmux_ctl) option" where
  "httpConnectListen others pxy domain s =
     (let cfg = tmp_cfg pxy;
          routeConfig = zero_route\<lparr>rc_Domain := domain, rc_RouteByHTTPUser := tm_RouteByHTTPUser cfg,
             rc_Username := tm_HTTPUser cfg, rc_Password := tm_HTTPPassword cfg\<rparr>;
          lb = pb_LoadBalancer cfg
      in if lb_Group lb \<noteq> [] then
           (case TCPMuxGroupCtl_Listen others (tm_Multiplexer cfg) (lb_Group lb) (lb_GroupKey lb) routeConfig s of
              None \<Rightarrow> None
            | Some (Inl e, s') \<Rightarrow> Some (err e, s')
            | Some (Inr l, s') \<Rightarrow> Some (ok (GroupLn l), s'))
         else Some (direct_listen routeConfig s))"

definition TCPMuxProxy_Close :: "int \<Rightarrow> TCPMuxProxy \<Rightarrow> tcpmux_ctl \<Rightarrow> tcpmux_ctl option" where
  "TCPMuxProxy_Close now pxy s = close_listeners now (tmp_listeners pxy) s"

text \<open>\<open>Run\<close> with \<open>httpConnectRun\<close> in line; an unknown multiplexer opens nothing.\<close>

definition TCPMuxProxy_Run ::
  "ServerConfig \<Rightarrow> int \<Rightarrow> (nat \<Rightarrow> (tcpmux_ctl \<Rightarrow> tcpmux_ctl) list) \<Rightarrow> TCPMuxProxy \<Rightarrow> tcpmux_ctl
   \<Rightarrow> ((group_error, string \<times> TCPMuxProxy) result \<times> tcpmux_ctl) option" where
  "TCPMuxProxy_Run sv now others pxy s =
     (let dc = tm_Domains (tmp_cfg pxy);
          domains = buildDomains sv (dc_CustomDomains dc) (dc_SubDomain dc);
          run = (if tm_Multiplexer (tmp_cfg pxy) = ''httpconnect''
                 then listen_all (\<lambda>n. httpConnectListen (others n) pxy) domains (tmp_listeners pxy) s
                 else Some (Some UnknownMultiplexer, tmp_listeners pxy, s))
      in case run of
           None \<Rightarrow> None
         | Some (Some e, ls, s') \<Rightarrow>
             (case TCPMuxProxy_Close now (pxy\<lparr>tmp_listeners := ls\<rparr>) s' of
                None \<Rightarrow> None
              | Some s'' \<Rightarrow> Some (err e, s''))
         | Some (None, ls, s') \<Rightarrow>
             Some (ok (join_with '','' (map (\<lambda>d. CanonicalAddr d (sv_TCPMuxHTTPConnectPort sv)) domains), pxy\<lparr>tmp_listeners := ls\<rparr>), s'))"

section \<open>Proxies for visitors\<close>

text \<open>STCP and SUDP proxies listen at the visitor manager, XTCP proxies at the NAT hole controller. An
  empty list of users means the proxy's own user.\<close>

record VisitorProxy =
  vp_name :: string
  vp_Secretkey :: string
  vp_AllowUsers :: "string list"
  vp_user :: string
  vp_listeners :: "nat list"

definition NewSTCPProxy :: "string \<Rightarrow> STCPProxyConfig \<Rightarrow> VisitorProxy" where
  "NewSTCPProxy user cfg = \<lparr>vp_name = pb_Name cfg, vp_Secretkey = sc_Secretkey cfg, vp_AllowUsers = sc_AllowUsers cfg,
     vp_user = user, vp_listeners = []\<rparr>"

definition NewSUDPProxy :: "string \<Rightarrow> SUDPProxyConfig \<Rightarrow> VisitorProxy" where
  "NewSUDPProxy user cfg = \<lparr>vp_name = pb_Name cfg, vp_Secretkey = su_Secretkey cfg, vp_AllowUsers = su_AllowUsers cfg,
     vp_user = user, vp_listeners = []\<rparr>"

definition startVisitorListener ::
  "VisitorProxy \<Rightarrow> 'c visitor_manager \<Rightarrow> (visitor_error, VisitorProxy) result \<times> 'c visitor_manager" where
  "startVisitorListener pxy vm =
     (let allowUsers = (if vp_AllowUsers pxy = [] then [vp_user pxy] else vp_AllowUsers pxy) in
      case vm_Listen (vp_name pxy) (vp_Secretkey pxy) allowUsers vm of
        (Inl e, vm') \<Rightarrow> (err e, vm')
      | (Inr l, vm') \<Rightarrow> (ok (pxy\<lparr>vp_listeners := vp_listeners pxy @ [l]\<rparr>), vm'))"

definition VisitorProxy_Close :: "VisitorProxy \<Rightarrow> 'c visitor_manager \<Rightarrow> 'c visitor_manager" where
  "VisitorProxy_Close pxy vm =
     CloseListener (vp_name pxy)
       (fold (\<lambda>l vm. vm\<lparr>vm_store := (vm_store vm)(l := il_Close (vm_store vm l))\<rparr>) (vp_listeners pxy) vm)"

record XTCPProxy =
  xp_name :: string
  xp_Secretkey :: string
  xp_AllowUsers :: "string list"
  xp_user :: string
  xp_closed :: bool

definition NewXTCPProxy :: "string \<Rightarrow> XTCPProxyConfig \<Rightarrow> XTCPProxy" where
  "NewXTCPProxy user cfg = \<lparr>xp_name = pb_Name cfg, xp_Secretkey = xc_Secretkey cfg, xp_AllowUsers = xc_AllowUsers cfg,
     xp_user = user, xp_closed = False\<rparr>"

definition XTCPProxy_Run :: "XTCPProxy \<Rightarrow> Controller \<Rightarrow> (nathole_error, XTCPProxy) result \<times> Controller" where
  "XTCPProxy_Run pxy c =
     (let allowUsers = (if xp_AllowUsers pxy = [] then [xp_user pxy] else xp_AllowUsers pxy) in
      case ListenClient (xp_name pxy) (xp_Secretkey pxy) allowUsers c of
        (Inl e, c') \<Rightarrow> (err e, c')
      | (Inr _, c') \<Rightarrow> (ok pxy, c'))"

definition XTCPProxy_Close :: "XTCPProxy \<Rightarrow> Controller \<Rightarrow> XTCPProxy \<times> Controller" where
  "XTCPProxy_Close pxy c =
     (if xp_closed pxy then (pxy, c) else (pxy\<lparr>xp_closed := True\<rparr>, CloseClient (xp_name pxy) c))"

section \<open>All kinds together\<close>

record 'c ResourceController =
  rc_tcp :: tcp_ctl
  rc_udp :: port_manager
  rc_http :: "string http_ctl"
  rc_https :: https_ctl
  rc_tcpmux :: tcpmux_ctl
  rc_visitors :: "'c visitor_manager"
  rc_nathole :: Controller

datatype Proxy =
    TCPPxy TCPProxy
  | UDPPxy UDPProxy
  | HTTPPxy HTTPProxy
  | HTTPSPxy HTTPSProxy
  | TCPMuxPxy TCPMuxProxy
  | STCPPxy VisitorProxy
  | SUDPPxy VisitorProxy
  | XTCPPxy XTCPProxy

datatype proxy_error = GroupErr group_error | UDPErr udp_error | VisitorErr visitor_error | NatHoleErr nathole_error

fun GetName :: "Proxy \<Rightarrow> string" where
  "GetName (TCPPxy p) = tp_name p"
| "GetName (UDPPxy p) = up_name p"
| "GetName (HTTPPxy p) = hp_name p"
| "GetName (HTTPSPxy p) = hsp_name p"
| "GetName (TCPMuxPxy p) = tmp_name p"
| "GetName (STCPPxy p) = vp_name p"
| "GetName (SUDPPxy p) = vp_name p"
| "GetName (XTCPPxy p) = xp_name p"

text \<open>Only TCP and UDP proxies count as using a port.\<close>

fun GetUsedPortsNum :: "Proxy \<Rightarrow> int" where
  "GetUsedPortsNum (TCPPxy p) = tcp_usedPortsNum"
| "GetUsedPortsNum (UDPPxy p) = udp_usedPortsNum"
| "GetUsedPortsNum _ = 0"

text \<open>The factory of \<open>NewProxy\<close>, and the limiter it sets up: bytes per second, if the server limits.\<close>

fun newProxy :: "string \<Rightarrow> ProxyConfigurer \<Rightarrow> Proxy" where
  "newProxy user (TCPConf c) = TCPPxy (NewTCPProxy (pb_Name c) (tc_RemotePort c) (lb_Group (pb_LoadBalancer c)) (lb_GroupKey (pb_LoadBalancer c)))"
| "newProxy user (UDPConf c) = UDPPxy (NewUDPProxy (pb_Name c) (uc_RemotePort c))"
| "newProxy user (HTTPConf c) = HTTPPxy (NewHTTPProxy c)"
| "newProxy user (HTTPSConf c) = HTTPSPxy (NewHTTPSProxy c)"
| "newProxy user (TCPMuxConf c) = TCPMuxPxy (NewTCPMuxProxy c)"
| "newProxy user (STCPConf c) = STCPPxy (NewSTCPProxy user c)"
| "newProxy user (SUDPConf c) = SUDPPxy (NewSUDPProxy user c)"
| "newProxy user (XTCPConf c) = XTCPPxy (NewXTCPProxy user c)"

definition proxy_limiter :: "ProxyConfigurer \<Rightarrow> int option" where
  "proxy_limiter configurer =
     (let t = pb_Transport (GetBaseConfig configurer); limitBytes = bq_Bytes (pt_BandwidthLimit t) in
      if limitBytes > 0 \<and> pt_BandwidthLimitMode t = ''server'' then Some limitBytes else None)"

text \<open>What a run takes from outside: the answers of the operating system and what other goroutines
  do in the retry loops of the groups.\<close>

record run_env =
  re_tcp :: tcp_env
  re_udp :: udp_env
  re_now :: int
  re_tcpOthers :: "(tcp_ctl \<Rightarrow> tcp_ctl) list"
  re_httpOthers :: "nat \<Rightarrow> (string http_ctl \<Rightarrow> string http_ctl) list"
  re_httpsOthers :: "nat \<Rightarrow> (https_ctl \<Rightarrow> https_ctl) list"
  re_tcpmuxOthers :: "nat \<Rightarrow> (tcpmux_ctl \<Rightarrow> tcpmux_ctl) list"

definition port_addr :: "int \<Rightarrow> string" where
  "port_addr p = CHR '':'' # itoa p"

fun pxy_Run ::
  "ServerConfig \<Rightarrow> run_env \<Rightarrow> Proxy \<Rightarrow> 'c ResourceController
   \<Rightarrow> ((proxy_error, string \<times> Proxy) result \<times> 'c ResourceController) option" where
  "pxy_Run sv env (TCPPxy p) rc =
     (case TCPProxy_Run (re_tcpOthers env) (re_tcp env) (sv_ProxyBindAddr sv) p (rc_tcp rc) of
        None \<Rightarrow> None
      | Some (Inl e, t) \<Rightarrow> Some (err (GroupErr e), rc\<lparr>rc_tcp := t\<rparr>)
      | Some (Inr p', t) \<Rightarrow> Some (ok (port_addr (tp_realBindPort p'), TCPPxy p'), rc\<lparr>rc_tcp := t\<rparr>))"
| "pxy_Run sv env (UDPPxy p) rc =
     (case UDPProxy_Run (re_udp env) p (rc_udp rc) of
        (Inl e, u) \<Rightarrow> Some (err (UDPErr e), rc\<lparr>rc_udp := u\<rparr>)
      | (Inr p', u) \<Rightarrow> Some (ok (port_addr (up_realBindPort p'), UDPPxy p'), rc\<lparr>rc_udp := u\<rparr>))"
| "pxy_Run sv env (HTTPPxy p) rc =
     (case HTTPProxy_Run sv (re_httpOthers env) p (rc_http rc) of
        None \<Rightarrow> None
      | Some (Inl e, h) \<Rightarrow> Some (err (GroupErr e), rc\<lparr>rc_http := h\<rparr>)
      | Some (Inr (a, p'), h) \<Rightarrow> Some (ok (a, HTTPPxy p'), rc\<lparr>rc_http := h\<rparr>))"
| "pxy_Run sv env (HTTPSPxy p) rc =
     (case HTTPSProxy_Run sv (re_now env) (re_httpsOthers env) p (rc_https rc) of
        None \<Rightarrow> None
      | Some (Inl e, h) \<Rightarrow> Some (err (GroupErr e), rc\<lparr>rc_https := h\<rparr>)
      | Some (Inr (a, p'), h) \<Rightarrow> Some (ok (a, HTTPSPxy p'), rc\<lparr>rc_https := h\<rparr>))"
| "pxy_Run sv env (TCPMuxPxy p) rc =
     (case TCPMuxProxy_Run sv (re_now env) (re_tcpmuxOthers env) p (rc_tcpmux rc) of
        None \<Rightarrow> None
      | Some (Inl e, h) \<Rightarrow> Some (err (GroupErr e), rc\<lparr>rc_tcpmux := h\<rparr>)
      | Some (Inr (a, p'), h) \<Rightarrow> Some (ok (a, TCPMuxPxy p'), rc\<lparr>rc_tcpmux := h\<rparr>))"
| "pxy_Run sv env (STCPPxy p) rc =
     (case startVisitorListener p (rc_visitors rc) of
        (Inl e, vm) \<Rightarrow> Some (err (VisitorErr e), rc\<lparr>rc_visitors := vm\<rparr>)
      | (Inr p', vm) \<Rightarrow> Some (ok ([], STCPPxy p'), rc\<lparr>rc_visitors := vm\<rparr>))"
| "pxy_Run sv env (SUDPPxy p) rc =
     (case startVisitorListener p (rc_visitors rc) of
        (Inl e, vm) \<Rightarrow> Some (err (VisitorErr e), rc\<lparr>rc_visitors := vm\<rparr>)
      | (Inr p', vm) \<Rightarrow> Some (ok ([], SUDPPxy p'), rc\<lparr>rc_visitors := vm\<rparr>))"
| "pxy_Run sv env (XTCPPxy p) rc =
     (case XTCPProxy_Run p (rc_nathole rc) of
        (Inl e, c) \<Rightarrow> Some (err (NatHoleErr e), rc\<lparr>rc_nathole := c\<rparr>)
      | (Inr p', c) \<Rightarrow> Some (ok ([], XTCPPxy p'), rc\<lparr>rc_nathole := c\<rparr>))"

text \<open>\<open>Close\<close>; \<open>None\<close> is the panic of closing a multiplexer's listener twice.\<close>

fun pxy_Close :: "int \<Rightarrow> Proxy \<Rightarrow> 'c ResourceController \<Rightarrow> 'c ResourceController option" where
  "pxy_Close now (TCPPxy p) rc = Some (rc\<lparr>rc_tcp := TCPProxy_Close now p (rc_tcp rc)\<rparr>)"
| "pxy_Close now (UDPPxy p) rc = Some (rc\<lparr>rc_udp := snd (UDPProxy_Close now p (rc_udp rc))\<rparr>)"
| "pxy_Close now (HTTPPxy p) rc = Some (rc\<lparr>rc_http := HTTPProxy_Close p (rc_http rc)\<rparr>)"
| "pxy_Close now (HTTPSPxy p) rc =
     map_option (\<lambda>h. rc\<lparr>rc_https := h\<rparr>) (HTTPSProxy_Close now p (rc_https rc))"
| "pxy_Close now (TCPMuxPxy p) rc =
     map_option (\<lambda>h. rc\<lparr>rc_tcpmux := h\<rparr>) (TCPMuxProxy_Close now p (rc_tcpmux rc))"
| "pxy_Close now (STCPPxy p) rc = Some (rc\<lparr>rc_visitors := VisitorProxy_Close p (rc_visitors rc)\<rparr>)"
| "pxy_Close now (SUDPPxy p) rc = Some (rc\<lparr>rc_visitors := VisitorProxy_Close p (rc_visitors rc)\<rparr>)"
| "pxy_Close now (XTCPPxy p) rc = Some (rc\<lparr>rc_nathole := snd (XTCPProxy_Close p (rc_nathole rc))\<rparr>)"

section \<open>Running and closing leaves the resources as they were\<close>

subsection \<open>Routes\<close>

definition cfg_key :: "RouteConfig \<Rightarrow> string \<times> string \<times> string" where
  "cfg_key cfg = (to_lower (rc_Domain cfg), rc_Location cfg, rc_RouteByHTTPUser cfg)"

definition target_key :: "HTTPProxyConfig \<Rightarrow> string \<times> string \<Rightarrow> string \<times> string \<times> string" where
  "target_key cfg t = (to_lower (fst t), snd t, ht_RouteByHTTPUser cfg)"

lemma map_extend_step:
  fixes R0 R1 R' :: "'k \<rightharpoonup> 'v"
  assumes "R1 = R0(k0 \<mapsto> v)" and "R0 k0 = None" and "\<forall>k \<in> K. R1 k = None \<and> R' k \<noteq> None" and "\<forall>k. k \<notin> K \<longrightarrow> R' k = R1 k"
  shows "\<forall>k \<in> insert k0 K. R0 k = None \<and> R' k \<noteq> None" and "\<forall>k. k \<notin> insert k0 K \<longrightarrow> R' k = R0 k"
proof -
  have "k0 \<notin> K" using assms(1,3) by auto
  then have "R' k0 = Some v" using assms(1,4) by simp
  moreover have "R0 k = None" if "k \<in> K" for k using assms(1-3) that by (cases "k = k0") auto
  ultimately show "\<forall>k \<in> insert k0 K. R0 k = None \<and> R' k \<noteq> None" using assms(2,3) by simp
  show "\<forall>k. k \<notin> insert k0 K \<longrightarrow> R' k = R0 k" using assms(1,4) by simp
qed

lemma all_fresh_step:
  fixes R0 R1 :: "'k \<rightharpoonup> 'v"
  assumes "R1 = R0(f t \<mapsto> v)" and "R0 (f t) = None"
  shows "distinct (map f ts) \<and> (\<forall>t \<in> set ts. R1 (f t) = None) \<longleftrightarrow>
         distinct (map f (t # ts)) \<and> (\<forall>t \<in> set (t # ts). R0 (f t) = None)"
  using assms by (auto split: if_splits) (metis image_eqI)

lemma map_restore:
  fixes R0 R' :: "'k \<rightharpoonup> 'v"
  assumes "\<forall>k \<in> K. R0 k = None \<and> R' k \<noteq> None" and "\<forall>k. k \<notin> K \<longrightarrow> R' k = R0 k"
  shows "(\<lambda>k. if k \<in> K then None else R' k) = R0" and "dom R' = dom R0 \<union> K"
proof -
  show "(\<lambda>k. if k \<in> K then None else R' k) = R0" using assms by (intro ext) simp
  show "dom R' = dom R0 \<union> K" using assms by (intro set_eqI) (metis UnCI UnE domIff)
qed

lemma fold_http_close:
  assumes "routers_inv (gc_shared s)"
  shows "routers_inv (gc_shared (fold (http_close p) (map CloseRoute cfgs) s))
       \<and> routes (gc_shared (fold (http_close p) (map CloseRoute cfgs) s))
         = (\<lambda>k. if k \<in> cfg_key ` set cfgs then None else routes (gc_shared s) k)"
  using assms
proof (induction cfgs arbitrary: s)
  case (Cons c cfgs)
  define s1 where "s1 = http_close p (CloseRoute c) s"
  have i: "routers_inv (gc_shared s1)" using Cons.prems by (simp add: s1_def Del_inv)
  have r: "routes (gc_shared s1) = (routes (gc_shared s))(cfg_key c := None)"
    using routes_Del [OF Cons.prems] by (simp add: s1_def cfg_key_def)
  have "fold (http_close p) (map CloseRoute (c # cfgs)) s = fold (http_close p) (map CloseRoute cfgs) s1"
    by (simp add: s1_def)
  moreover have "(\<lambda>k. if k \<in> cfg_key ` set cfgs then None else ((routes (gc_shared s))(cfg_key c := None)) k)
      = (\<lambda>k. if k \<in> cfg_key ` set (c # cfgs) then None else routes (gc_shared s) k)"
    by (rule ext) simp
  ultimately show ?case using Cons.IH [OF i] unfolding r by argo
qed simp

lemma http_register_plain:
  assumes "routers_inv (gc_shared s)" and "lb_Group (pb_LoadBalancer (hp_cfg pxy)) = []"
  shows "\<exists>e cfgs s'. http_register_all others ts pxy s
           = Some (e, pxy\<lparr>hp_closeFuncs := hp_closeFuncs pxy @ map CloseRoute cfgs\<rparr>, s')
       \<and> routers_inv (gc_shared s')
       \<and> (\<forall>k \<in> cfg_key ` set cfgs. routes (gc_shared s) k = None \<and> routes (gc_shared s') k \<noteq> None)
       \<and> (\<forall>k. k \<notin> cfg_key ` set cfgs \<longrightarrow> routes (gc_shared s') k = routes (gc_shared s) k)
       \<and> (e = None \<longrightarrow> cfg_key ` set cfgs = target_key (hp_cfg pxy) ` set ts)
       \<and> (e = None \<longleftrightarrow> distinct (map (target_key (hp_cfg pxy)) ts)
            \<and> (\<forall>t \<in> set ts. routes (gc_shared s) (target_key (hp_cfg pxy) t) = None))"
  using assms
proof (induction ts arbitrary: pxy s)
  case Nil
  then show ?case by (intro exI [of _ None] exI [of _ "[]"] exI [of _ s]) simp
next
  case (Cons t ts)
  obtain d l where t: "t = (d, l)" by (cases t)
  define cfg where "cfg = (http_routeConfig (hp_cfg pxy))\<lparr>rc_Domain := d, rc_Location := l\<rparr>"
  have key: "cfg_key cfg = target_key (hp_cfg pxy) t"
    by (simp add: cfg_key_def target_key_def cfg_def t http_routeConfig_def)
  have user: "rc_RouteByHTTPUser cfg = ht_RouteByHTTPUser (hp_cfg pxy)" by (simp add: cfg_def http_routeConfig_def)
  let ?A = "Add d l (rc_RouteByHTTPUser cfg) (PlainRoute cfg (hp_name pxy)) (gc_shared s)"
  have k: "target_key (hp_cfg pxy) t = (to_lower d, l, rc_RouteByHTTPUser cfg)" by (simp add: target_key_def t user)
  show ?case
  proof (cases "routes (gc_shared s) (target_key (hp_cfg pxy) t)")
    case (Some q)
    then have "?A = (err ErrRouterConfigConflict, gc_shared s)" unfolding k by (intro routes_Add_taken) simp
    then have "http_register_all others (t # ts) pxy s = Some (Some (RouteErr ErrRouterConfigConflict), pxy, s)"
      using Cons.prems(2) by (simp add: t cfg_def [symmetric] Let_def)
    with Some Cons.prems(1) show ?thesis
      by (intro exI [of _ "Some (RouteErr ErrRouterConfigConflict)"] exI [of _ "[]"] exI [of _ s]) simp
  next
    case None
    note new = routes_Add_fresh [OF Cons.prems(1) None [unfolded k], of "PlainRoute cfg (hp_name pxy)"]
    obtain r where A: "?A = (ok (), r)" using new(1) by (metis prod.collapse)
    have r: "routes r = (routes (gc_shared s))(cfg_key cfg \<mapsto> PlainRoute cfg (hp_name pxy))" "routers_inv r"
      using new(2) A Add_inv [OF Cons.prems(1), of d l "rc_RouteByHTTPUser cfg" "PlainRoute cfg (hp_name pxy)"]
      by (simp_all add: key k)
    let ?pxy = "pxy\<lparr>hp_closeFuncs := hp_closeFuncs pxy @ [CloseRoute cfg]\<rparr>" and ?s = "s\<lparr>gc_shared := r\<rparr>"
    have step: "http_register_all others (t # ts) pxy s = http_register_all others ts ?pxy ?s"
      using Cons.prems(2) A by (simp add: t cfg_def [symmetric] Let_def)
    have "routers_inv (gc_shared ?s)" "lb_Group (pb_LoadBalancer (hp_cfg ?pxy)) = []" using r(2) Cons.prems(2) by simp_all
    from Cons.IH [OF this] obtain e cfgs s' where
      R: "http_register_all others ts ?pxy ?s = Some (e, pxy\<lparr>hp_closeFuncs := hp_closeFuncs pxy @ map CloseRoute (cfg # cfgs)\<rparr>, s')"
      and inv': "routers_inv (gc_shared s')"
      and fresh: "\<forall>k \<in> cfg_key ` set cfgs. routes r k = None \<and> routes (gc_shared s') k \<noteq> None"
      and frame: "\<forall>k. k \<notin> cfg_key ` set cfgs \<longrightarrow> routes (gc_shared s') k = routes r k"
      and all: "e = None \<longrightarrow> cfg_key ` set cfgs = target_key (hp_cfg pxy) ` set ts"
      and iff: "e = None \<longleftrightarrow> distinct (map (target_key (hp_cfg pxy)) ts) \<and> (\<forall>t \<in> set ts. routes r (target_key (hp_cfg pxy) t) = None)"
      by auto
    note ext = map_extend_step [OF r(1) _ fresh frame]
    have 1: "\<forall>k \<in> cfg_key ` set (cfg # cfgs). routes (gc_shared s) k = None \<and> routes (gc_shared s') k \<noteq> None"
      and 2: "\<forall>k. k \<notin> cfg_key ` set (cfg # cfgs) \<longrightarrow> routes (gc_shared s') k = routes (gc_shared s) k"
      using ext None key by simp_all
    have 3: "e = None \<longrightarrow> cfg_key ` set (cfg # cfgs) = target_key (hp_cfg pxy) ` set (t # ts)" using all key by simp
    have 4: "e = None \<longleftrightarrow> distinct (map (target_key (hp_cfg pxy)) (t # ts))
        \<and> (\<forall>t \<in> set (t # ts). routes (gc_shared s) (target_key (hp_cfg pxy) t) = None)"
      unfolding iff by (rule all_fresh_step [where f = "target_key (hp_cfg pxy)" and t = t, OF r(1) [unfolded key] None])
    show ?thesis unfolding step R
      by (intro exI [of _ e] exI [of _ "cfg # cfgs"] exI [of _ s'] conjI refl inv' 1 2 3 4)
  qed
qed

text \<open>An HTTP proxy outside a group registers all its routes or none.\<close>

lemma http_run_close:
  assumes inv: "routers_inv (gc_shared s)" and nogroup: "lb_Group (pb_LoadBalancer (hp_cfg pxy)) = []"
    and new: "hp_closeFuncs pxy = []"
  shows "\<exists>res s'. HTTPProxy_Run sv others pxy s = Some (res, s') \<and> routers_inv (gc_shared s')
       \<and> (case res of
            Inl e \<Rightarrow> routes (gc_shared s') = routes (gc_shared s)
          | Inr (addr, pxy') \<Rightarrow>
              dom (routes (gc_shared s')) = dom (routes (gc_shared s)) \<union> target_key (hp_cfg pxy) ` set (http_targets sv (hp_cfg pxy))
            \<and> routers_inv (gc_shared (HTTPProxy_Close pxy' s'))
            \<and> routes (gc_shared (HTTPProxy_Close pxy' s')) = routes (gc_shared s))"
proof -
  obtain e cfgs s' where
    R: "http_register_all others (http_targets sv (hp_cfg pxy)) pxy s
        = Some (e, pxy\<lparr>hp_closeFuncs := map CloseRoute cfgs\<rparr>, s')"
    and inv': "routers_inv (gc_shared s')"
    and keys: "\<forall>k \<in> cfg_key ` set cfgs. routes (gc_shared s) k = None \<and> routes (gc_shared s') k \<noteq> None"
    and frame: "\<forall>k. k \<notin> cfg_key ` set cfgs \<longrightarrow> routes (gc_shared s') k = routes (gc_shared s) k"
    and all: "e = None \<longrightarrow> cfg_key ` set cfgs = target_key (hp_cfg pxy) ` set (http_targets sv (hp_cfg pxy))"
    using http_register_plain [OF inv nogroup, of others "http_targets sv (hp_cfg pxy)"] new by auto
  let ?p = "pxy\<lparr>hp_closeFuncs := map CloseRoute cfgs\<rparr>"
  note res = map_restore [OF keys frame]
  have C: "routers_inv (gc_shared (HTTPProxy_Close ?p s'))" "routes (gc_shared (HTTPProxy_Close ?p s')) = routes (gc_shared s)"
    using fold_http_close [OF inv', of ?p cfgs] unfolding HTTPProxy_Close_def res(1) by simp_all
  show ?thesis using R inv' C res(2) all by (cases e) (simp_all add: HTTPProxy_Run_def Let_def)
qed

subsection \<open>Listeners of a multiplexer\<close>

lemma listen_all_direct:
  fixes s :: "('p, Listener, Muxer) base_ctl" and cfg :: "string \<Rightarrow> RouteConfig"
  defines "listen \<equiv> \<lambda>(n :: nat) d (t :: ('p, Listener, Muxer) base_ctl). Some (direct_listen (cfg d) t)"
  assumes "mux_inv (gc_shared s)"
  shows "\<exists>e ls' s'. listen_all listen ds ls s = Some (e, ls @ map DirectLn ls', s')
       \<and> mux_inv (gc_shared s') \<and> distinct ls' \<and> set ls' \<inter> mux_held (gc_shared s) = {}
       \<and> mux_held (gc_shared s') = mux_held (gc_shared s) \<union> set ls'"
  using assms(2)
proof (induction ds arbitrary: ls s)
  case Nil
  then show ?case by (intro exI [of _ None] exI [of _ "[]"] exI [of _ s]) simp
next
  case (Cons d ds)
  obtain res v where L: "Listen (cfg d) (gc_shared s) = (res, v)" by fastforce
  have inv: "mux_inv v" using Listen_inv [OF Cons.prems, of "cfg d"] L by simp
  have direct: "listen n d s = Some (case res of Inl e \<Rightarrow> (err (RouteErr e), s\<lparr>gc_shared := v\<rparr>)
      | Inr l \<Rightarrow> (ok (DirectLn l), s\<lparr>gc_shared := v\<rparr>))" for n
    by (simp add: listen_def direct_listen_def L split: sum.split)
  show ?case
  proof (cases res)
    case (Inl x)
    then have "routes (registryRouter (gc_shared s)) (to_lower (rc_Domain (cfg d)), rc_Location (cfg d), rc_RouteByHTTPUser (cfg d)) \<noteq> None"
      using Listen_cases(2) [OF Cons.prems refl, of "cfg d"] L by fastforce
    then have "mux_held v = mux_held (gc_shared s)"
      using Listen_cases(1) [OF Cons.prems refl, of "cfg d"] L by (auto simp: mux_held_def)
    with Inl L inv show ?thesis
      by (intro exI [of _ "Some (RouteErr x)"] exI [of _ "[]"] exI [of _ "s\<lparr>gc_shared := v\<rparr>"])
         (simp add: direct)
  next
    case (Inr l)
    note new = Listen_held [OF Cons.prems, of "cfg d" l v]
    from Cons.IH [of "s\<lparr>gc_shared := v\<rparr>" "ls @ [DirectLn l]"] inv obtain e ls' s' where
      R: "listen_all listen ds (ls @ [DirectLn l]) (s\<lparr>gc_shared := v\<rparr>) = Some (e, ls @ map DirectLn (l # ls'), s')"
      and F: "mux_inv (gc_shared s')" "distinct ls'" "set ls' \<inter> mux_held v = {}" "mux_held (gc_shared s') = mux_held v \<union> set ls'"
      by auto
    have "distinct (l # ls')" "set (l # ls') \<inter> mux_held (gc_shared s) = {}"
      "mux_held (gc_shared s') = mux_held (gc_shared s) \<union> set (l # ls')"
      using F new L Inr by auto
    with R F(1) Inr L show ?thesis
      by (intro exI [of _ e] exI [of _ "l # ls'"] exI [of _ s']) (simp add: direct)
  qed
qed

lemma close_listeners_direct:
  assumes "mux_inv (gc_shared s)" and "distinct ls" and "set ls \<subseteq> mux_held (gc_shared s)"
  shows "\<exists>s'. close_listeners now (map DirectLn ls) s = Some s' \<and> mux_inv (gc_shared s')
       \<and> mux_held (gc_shared s') = mux_held (gc_shared s) - set ls"
  using assms
proof (induction ls arbitrary: s)
  case (Cons l ls)
  from Cons.prems(3) obtain k where k: "routes (registryRouter (gc_shared s)) k = Some l" by (auto simp: mux_held_def ran_def)
  with mux_invD(2) [OF Cons.prems(1) k] obtain v where v: "listener_Close l (gc_shared s) = Some v"
    using Close_inv [OF Cons.prems(1), of l] by auto
  have "v = mux_close now l (gc_shared s)" using v by (simp add: mux_close_def)
  then have F: "mux_inv v" "mux_held v = mux_held (gc_shared s) - {l}"
    using mux_close_held [OF Cons.prems(1), of l now] Cons.prems(3) by simp_all
  then have "set ls \<subseteq> mux_held (gc_shared (s\<lparr>gc_shared := v\<rparr>))" "mux_inv (gc_shared (s\<lparr>gc_shared := v\<rparr>))"
    using Cons.prems by auto
  from Cons.IH [OF this(2) _ this(1)] Cons.prems(2) v F(2) show ?case by auto
qed simp

text \<open>The common end of the HTTPS and TCPMux runs: after the loop, an error closes what was opened.\<close>

lemma listen_all_close:
  assumes inv: "mux_inv (gc_shared s)"
  shows "\<exists>e ls s'. listen_all (\<lambda>n d t. Some (direct_listen (cfg d) t)) ds [] s = Some (e, ls, s') \<and> mux_inv (gc_shared s')
       \<and> (\<forall>now. \<exists>s''. close_listeners now ls s' = Some s'' \<and> mux_inv (gc_shared s'') \<and> mux_held (gc_shared s'') = mux_held (gc_shared s))"
proof -
  obtain e ls' s' where R: "listen_all (\<lambda>n d t. Some (direct_listen (cfg d) t)) ds [] s = Some (e, map DirectLn ls', s')" and F: "mux_inv (gc_shared s')" "distinct ls'"
      "set ls' \<inter> mux_held (gc_shared s) = {}" "mux_held (gc_shared s') = mux_held (gc_shared s) \<union> set ls'"
    using listen_all_direct [OF inv, of cfg ds "[]"] by auto
  have "set ls' \<subseteq> mux_held (gc_shared s')" "mux_held (gc_shared s') - set ls' = mux_held (gc_shared s)" using F(3,4) by auto
  with close_listeners_direct [OF F(1,2)] R F(1) show ?thesis by auto
qed

lemma https_run_close:
  assumes inv: "mux_inv (gc_shared s)" and nogroup: "lb_Group (pb_LoadBalancer (hsp_cfg pxy)) = []" and new: "hsp_listeners pxy = []"
  shows "\<exists>res s'. HTTPSProxy_Run sv now others pxy s = Some (res, s') \<and> mux_inv (gc_shared s')
       \<and> (case res of
            Inl e \<Rightarrow> mux_held (gc_shared s') = mux_held (gc_shared s)
          | Inr (addr, pxy') \<Rightarrow> \<exists>s''. HTTPSProxy_Close now' pxy' s' = Some s'' \<and> mux_inv (gc_shared s'')
              \<and> mux_held (gc_shared s'') = mux_held (gc_shared s))"
proof -
  let ?listen = "\<lambda>n. listenForDomain (others n) pxy zero_route"
  let ?ds = "buildDomains sv (dc_CustomDomains (hs_Domains (hsp_cfg pxy))) (dc_SubDomain (hs_Domains (hsp_cfg pxy)))"
  let ?cfg = "\<lambda>d. zero_route\<lparr>rc_Domain := d\<rparr>"
  have L: "?listen = (\<lambda>n d t. Some (direct_listen (?cfg d) t))"
    using nogroup by (intro ext) (simp add: listenForDomain_def Let_def)
  obtain e ls s' where R: "listen_all ?listen ?ds [] s = Some (e, ls, s')" "mux_inv (gc_shared s')"
    and C: "\<forall>now. \<exists>s''. close_listeners now ls s' = Some s'' \<and> mux_inv (gc_shared s'') \<and> mux_held (gc_shared s'') = mux_held (gc_shared s)"
    using listen_all_close [OF inv, of ?cfg ?ds] unfolding L by (elim exE conjE)
  show ?thesis using R C [rule_format, of now] C [rule_format, of now']
    by (cases e) (auto simp: HTTPSProxy_Run_def HTTPSProxy_Close_def Let_def new)
qed

lemma tcpmux_run_close:
  assumes inv: "mux_inv (gc_shared s)" and nogroup: "lb_Group (pb_LoadBalancer (tmp_cfg pxy)) = []" and new: "tmp_listeners pxy = []"
  shows "\<exists>res s'. TCPMuxProxy_Run sv now others pxy s = Some (res, s') \<and> mux_inv (gc_shared s')
       \<and> (case res of
            Inl e \<Rightarrow> mux_held (gc_shared s') = mux_held (gc_shared s)
          | Inr (addr, pxy') \<Rightarrow> \<exists>s''. TCPMuxProxy_Close now' pxy' s' = Some s'' \<and> mux_inv (gc_shared s'')
              \<and> mux_held (gc_shared s'') = mux_held (gc_shared s))"
proof -
  let ?cfg = "\<lambda>d. zero_route\<lparr>rc_Domain := d, rc_RouteByHTTPUser := tm_RouteByHTTPUser (tmp_cfg pxy),
             rc_Username := tm_HTTPUser (tmp_cfg pxy), rc_Password := tm_HTTPPassword (tmp_cfg pxy)\<rparr>"
  let ?ds = "buildDomains sv (dc_CustomDomains (tm_Domains (tmp_cfg pxy))) (dc_SubDomain (tm_Domains (tmp_cfg pxy)))"
  let ?listen = "\<lambda>n. httpConnectListen (others n) pxy"
  have L: "?listen = (\<lambda>n d t. Some (direct_listen (?cfg d) t))"
    using nogroup by (intro ext) (simp add: httpConnectListen_def Let_def)
  obtain e ls s' where R: "listen_all ?listen ?ds [] s = Some (e, ls, s')" "mux_inv (gc_shared s')"
    and C: "\<forall>now. \<exists>s''. close_listeners now ls s' = Some s'' \<and> mux_inv (gc_shared s'') \<and> mux_held (gc_shared s'') = mux_held (gc_shared s)"
    using listen_all_close [OF inv, of ?cfg ?ds] unfolding L by (elim exE conjE)
  show ?thesis
  proof (cases "tm_Multiplexer (tmp_cfg pxy) = ''httpconnect''")
    case True
    then show ?thesis using R C [rule_format, of now] C [rule_format, of now']
      by (cases e) (auto simp: TCPMuxProxy_Run_def TCPMuxProxy_Close_def Let_def new)
  next
    case False
    then show ?thesis using inv by (simp add: TCPMuxProxy_Run_def TCPMuxProxy_Close_def Let_def new)
  qed
qed

subsection \<open>All kinds\<close>

definition in_use where
  "in_use (rc :: 'c ResourceController) =
     (ports_in_use (gc_shared (rc_tcp rc)), ports_in_use (rc_udp rc), routes (gc_shared (rc_http rc)),
      mux_held (gc_shared (rc_https rc)), mux_held (gc_shared (rc_tcpmux rc)),
      listener_entry (rc_visitors rc), client_entry (rc_nathole rc))"

definition rc_ok :: "'c ResourceController \<Rightarrow> bool" where
  "rc_ok rc \<longleftrightarrow> pm_inv (gc_shared (rc_tcp rc)) \<and> pm_inv (rc_udp rc) \<and> routers_inv (gc_shared (rc_http rc))
     \<and> mux_inv (gc_shared (rc_https rc)) \<and> mux_inv (gc_shared (rc_tcpmux rc))"

text \<open>The operating system answers truthfully, and port 0 is not among the configured ports.\<close>

definition run_ok :: "run_env \<Rightarrow> 'c ResourceController \<Rightarrow> bool" where
  "run_ok env rc \<longleftrightarrow> os_ok (re_tcp env) (gc_shared (rc_tcp rc)) \<and> os_ok (udp_os (re_udp env)) (rc_udp rc)
     \<and> 0 \<notin> allowed (gc_shared (rc_tcp rc)) \<and> 0 \<notin> allowed (rc_udp rc)"

definition no_group :: "ProxyConfigurer \<Rightarrow> bool" where
  "no_group c \<longleftrightarrow> lb_Group (pb_LoadBalancer (GetBaseConfig c)) = []"

lemma fold_il_Close_listeners:
  "vm_listeners (fold (\<lambda>l vm. vm\<lparr>vm_store := (vm_store vm)(l := il_Close (vm_store vm l))\<rparr>) ls vm) = vm_listeners vm"
  by (induction ls arbitrary: vm) simp_all

lemma visitor_run_close:
  "\<exists>res vm'. startVisitorListener pxy vm = (res, vm')
     \<and> (case res of
          Inl e \<Rightarrow> listener_entry vm' = listener_entry vm
        | Inr pxy' \<Rightarrow> vp_name pxy' = vp_name pxy \<and> listener_entry (VisitorProxy_Close pxy' vm') = listener_entry vm)"
  by (auto simp: startVisitorListener_def vm_Listen_def VisitorProxy_Close_def CloseListener_def listener_entry_def
      fold_il_Close_listeners Let_def fun_eq_iff)

lemma xtcp_run_close:
  "xp_closed pxy = False \<Longrightarrow> \<exists>res c'. XTCPProxy_Run pxy c = (res, c')
     \<and> (case res of
          Inl e \<Rightarrow> client_entry c' = client_entry c
        | Inr pxy' \<Rightarrow> pxy' = pxy \<and> client_entry (snd (XTCPProxy_Close pxy' c')) = client_entry c)"
  by (auto simp: XTCPProxy_Run_def ListenClient_def XTCPProxy_Close_def CloseClient_def client_entry_def Let_def fun_eq_iff)

lemma run_names:
  "TCPProxy_Run others te addr tp t = Some (ok tp', t') \<Longrightarrow> tp_name tp' = tp_name tp"
  "UDPProxy_Run ue up u = (ok up', u') \<Longrightarrow> up_name up' = up_name up"
  "HTTPProxy_Run sv oh hp h = Some (ok (a, hp'), h') \<Longrightarrow> hp_name hp' = hp_name hp"
  "HTTPSProxy_Run sv now os hsp hs = Some (ok (a, hsp'), hs') \<Longrightarrow> hsp_name hsp' = hsp_name hsp"
  "TCPMuxProxy_Run sv now om tmp tm = Some (ok (a, tmp'), tm') \<Longrightarrow> tmp_name tmp' = tmp_name tmp"
proof -
  have reg: "http_register_all oh ts hp h = Some (e, hp', h') \<Longrightarrow> hp_name hp' = hp_name hp" for ts e hp hp' h h'
  proof (induction ts arbitrary: hp h)
    case (Cons t ts)
    obtain d l where "t = (d, l)" by (cases t)
    with Cons.prems show ?case
      by (auto simp: Let_def dest: Cons.IH split: if_splits option.splits prod.splits sum.splits)
  qed simp
  show "HTTPProxy_Run sv oh hp h = Some (ok (a, hp'), h') \<Longrightarrow> hp_name hp' = hp_name hp"
    by (auto simp: HTTPProxy_Run_def Let_def dest: reg split: option.splits)
qed (auto simp: TCPProxy_Run_def UDPProxy_Run_def HTTPSProxy_Run_def TCPMuxProxy_Run_def Let_def
     split: if_splits option.splits prod.splits sum.splits)

lemma pxy_run_close:
  assumes rc: "rc_ok rc" and env: "run_ok env rc" and ng: "no_group c"
  shows "\<exists>res rc'. pxy_Run sv env (newProxy user c) rc = Some (res, rc') \<and> rc_ok rc'
       \<and> (case res of
            Inl e \<Rightarrow> in_use rc' = in_use rc
          | Inr (addr, p) \<Rightarrow> GetName p = pb_Name (GetBaseConfig c)
              \<and> GetUsedPortsNum p = GetUsedPortsNum (newProxy user c)
              \<and> (\<exists>rc''. pxy_Close now p rc' = Some rc'' \<and> rc_ok rc'' \<and> in_use rc'' = in_use rc))"
proof (cases c)
  case (TCPConf v)
  let ?p = "NewTCPProxy (pb_Name v) (tc_RemotePort v) (lb_Group (pb_LoadBalancer v)) (lb_GroupKey (pb_LoadBalancer v))"
  have P: "tp_Group ?p = []" "tp_listener ?p = None" "tp_name ?p = pb_Name v"
    using ng by (simp_all add: NewTCPProxy_def no_group_def TCPConf GetBaseConfig_def ProxyBaseConfig.defs)
  obtain res t where R: "TCPProxy_Run (re_tcpOthers env) (re_tcp env) (sv_ProxyBindAddr sv) ?p (rc_tcp rc) = Some (res, t)"
      "pm_inv (gc_shared t)"
    and Q: "case res of Inl e \<Rightarrow> ports_in_use (gc_shared t) = ports_in_use (gc_shared (rc_tcp rc))
          | Inr p' \<Rightarrow> pm_inv (gc_shared (TCPProxy_Close now p' t))
              \<and> ports_in_use (gc_shared (TCPProxy_Close now p' t)) = ports_in_use (gc_shared (rc_tcp rc))"
    using tcp_run_close [of "rc_tcp rc" "re_tcp env" ?p "re_tcpOthers env" "sv_ProxyBindAddr sv" now] rc env P
    by (fastforce simp: rc_ok_def run_ok_def split: sum.splits)
  show ?thesis using R Q rc P run_names(1) [of "re_tcpOthers env" "re_tcp env" "sv_ProxyBindAddr sv" ?p "rc_tcp rc"]
    by (auto simp: TCPConf rc_ok_def in_use_def GetBaseConfig_def ProxyBaseConfig.defs split: sum.splits)
next
  case (UDPConf v)
  let ?p = "NewUDPProxy (pb_Name v) (uc_RemotePort v)"
  obtain res u where R: "UDPProxy_Run (re_udp env) ?p (rc_udp rc) = (res, u)" "pm_inv u"
    and Q: "case res of Inl e \<Rightarrow> ports_in_use u = ports_in_use (rc_udp rc)
          | Inr p' \<Rightarrow> pm_inv (snd (UDPProxy_Close now p' u)) \<and> ports_in_use (snd (UDPProxy_Close now p' u)) = ports_in_use (rc_udp rc)"
    using udp_run_close [of "rc_udp rc" "re_udp env" ?p now] rc env
    by (fastforce simp: rc_ok_def run_ok_def split: sum.splits)
  show ?thesis using R Q rc run_names(2) [of "re_udp env" ?p "rc_udp rc"]
    by (auto simp: UDPConf rc_ok_def in_use_def GetBaseConfig_def ProxyBaseConfig.defs NewUDPProxy_def split: sum.splits)
next
  case (HTTPConf v)
  have P: "lb_Group (pb_LoadBalancer (hp_cfg (NewHTTPProxy v))) = []" "hp_closeFuncs (NewHTTPProxy v) = []"
    using ng by (simp_all add: NewHTTPProxy_def no_group_def HTTPConf GetBaseConfig_def ProxyBaseConfig.defs)
  have i: "routers_inv (gc_shared (rc_http rc))" using rc by (simp add: rc_ok_def)
  obtain res h where R: "HTTPProxy_Run sv (re_httpOthers env) (NewHTTPProxy v) (rc_http rc) = Some (res, h)" "routers_inv (gc_shared h)"
    and Q0: "case res of Inl e \<Rightarrow> routes (gc_shared h) = routes (gc_shared (rc_http rc))
          | Inr (a, p') \<Rightarrow> dom (routes (gc_shared h)) = dom (routes (gc_shared (rc_http rc)))
                \<union> target_key (hp_cfg (NewHTTPProxy v)) ` set (http_targets sv (hp_cfg (NewHTTPProxy v)))
              \<and> routers_inv (gc_shared (HTTPProxy_Close p' h))
              \<and> routes (gc_shared (HTTPProxy_Close p' h)) = routes (gc_shared (rc_http rc))"
    using http_run_close [OF i P, of sv "re_httpOthers env"] by (elim exE conjE)
  from Q0 have Q: "case res of Inl e \<Rightarrow> routes (gc_shared h) = routes (gc_shared (rc_http rc))
          | Inr (a, p') \<Rightarrow> routers_inv (gc_shared (HTTPProxy_Close p' h))
              \<and> routes (gc_shared (HTTPProxy_Close p' h)) = routes (gc_shared (rc_http rc))"
    by (cases res) auto
  show ?thesis using R Q rc run_names(3) [of sv "re_httpOthers env" "NewHTTPProxy v" "rc_http rc"]
    by (cases res) (auto simp: HTTPConf rc_ok_def in_use_def GetBaseConfig_def ProxyBaseConfig.defs NewHTTPProxy_def)
next
  case (HTTPSConf v)
  have P: "lb_Group (pb_LoadBalancer (hsp_cfg (NewHTTPSProxy v))) = []" "hsp_listeners (NewHTTPSProxy v) = []"
    using ng by (simp_all add: NewHTTPSProxy_def no_group_def HTTPSConf GetBaseConfig_def ProxyBaseConfig.defs)
  have i: "mux_inv (gc_shared (rc_https rc))" using rc by (simp add: rc_ok_def)
  obtain res h where R: "HTTPSProxy_Run sv (re_now env) (re_httpsOthers env) (NewHTTPSProxy v) (rc_https rc) = Some (res, h)"
      "mux_inv (gc_shared h)"
    and Q: "case res of Inl e \<Rightarrow> mux_held (gc_shared h) = mux_held (gc_shared (rc_https rc))
          | Inr (a, p') \<Rightarrow> \<exists>h'. HTTPSProxy_Close now p' h = Some h' \<and> mux_inv (gc_shared h')
              \<and> mux_held (gc_shared h') = mux_held (gc_shared (rc_https rc))"
    using https_run_close [OF i P, of sv "re_now env" "re_httpsOthers env" now] by (elim exE conjE)
  show ?thesis using R Q rc run_names(4) [of sv "re_now env" "re_httpsOthers env" "NewHTTPSProxy v" "rc_https rc"]
    by (cases res) (auto simp: HTTPSConf rc_ok_def in_use_def GetBaseConfig_def ProxyBaseConfig.defs NewHTTPSProxy_def)
next
  case (TCPMuxConf v)
  have P: "lb_Group (pb_LoadBalancer (tmp_cfg (NewTCPMuxProxy v))) = []" "tmp_listeners (NewTCPMuxProxy v) = []"
    using ng by (simp_all add: NewTCPMuxProxy_def no_group_def TCPMuxConf GetBaseConfig_def ProxyBaseConfig.defs)
  have i: "mux_inv (gc_shared (rc_tcpmux rc))" using rc by (simp add: rc_ok_def)
  obtain res h where R: "TCPMuxProxy_Run sv (re_now env) (re_tcpmuxOthers env) (NewTCPMuxProxy v) (rc_tcpmux rc) = Some (res, h)"
      "mux_inv (gc_shared h)"
    and Q: "case res of Inl e \<Rightarrow> mux_held (gc_shared h) = mux_held (gc_shared (rc_tcpmux rc))
          | Inr (a, p') \<Rightarrow> \<exists>h'. TCPMuxProxy_Close now p' h = Some h' \<and> mux_inv (gc_shared h')
              \<and> mux_held (gc_shared h') = mux_held (gc_shared (rc_tcpmux rc))"
    using tcpmux_run_close [OF i P, of sv "re_now env" "re_tcpmuxOthers env" now] by (elim exE conjE)
  show ?thesis using R Q rc run_names(5) [of sv "re_now env" "re_tcpmuxOthers env" "NewTCPMuxProxy v" "rc_tcpmux rc"]
    by (cases res) (auto simp: TCPMuxConf rc_ok_def in_use_def GetBaseConfig_def ProxyBaseConfig.defs NewTCPMuxProxy_def)
next
  case (STCPConf v)
  obtain res vm where R: "startVisitorListener (NewSTCPProxy user v) (rc_visitors rc) = (res, vm)"
    and Q: "case res of Inl e \<Rightarrow> listener_entry vm = listener_entry (rc_visitors rc)
        | Inr p' \<Rightarrow> vp_name p' = vp_name (NewSTCPProxy user v) \<and> listener_entry (VisitorProxy_Close p' vm) = listener_entry (rc_visitors rc)"
    using visitor_run_close [of "NewSTCPProxy user v" "rc_visitors rc"] by (elim exE conjE)
  show ?thesis using R Q rc
    by (cases res) (auto simp: STCPConf rc_ok_def in_use_def GetBaseConfig_def ProxyBaseConfig.defs NewSTCPProxy_def)
next
  case (SUDPConf v)
  obtain res vm where R: "startVisitorListener (NewSUDPProxy user v) (rc_visitors rc) = (res, vm)"
    and Q: "case res of Inl e \<Rightarrow> listener_entry vm = listener_entry (rc_visitors rc)
        | Inr p' \<Rightarrow> vp_name p' = vp_name (NewSUDPProxy user v) \<and> listener_entry (VisitorProxy_Close p' vm) = listener_entry (rc_visitors rc)"
    using visitor_run_close [of "NewSUDPProxy user v" "rc_visitors rc"] by (elim exE conjE)
  show ?thesis using R Q rc
    by (cases res) (auto simp: SUDPConf rc_ok_def in_use_def GetBaseConfig_def ProxyBaseConfig.defs NewSUDPProxy_def)
next
  case (XTCPConf v)
  obtain res c' where R: "XTCPProxy_Run (NewXTCPProxy user v) (rc_nathole rc) = (res, c')"
    and Q: "case res of Inl e \<Rightarrow> client_entry c' = client_entry (rc_nathole rc)
        | Inr p' \<Rightarrow> p' = NewXTCPProxy user v \<and> client_entry (snd (XTCPProxy_Close p' c')) = client_entry (rc_nathole rc)"
    using xtcp_run_close [of "NewXTCPProxy user v" "rc_nathole rc"] by (auto simp: NewXTCPProxy_def)
  show ?thesis using R Q rc
    by (cases res) (auto simp: XTCPConf rc_ok_def in_use_def GetBaseConfig_def ProxyBaseConfig.defs NewXTCPProxy_def)
qed

section \<open>A custom domain can capture a sub-domain\<close>

definition demo_accepted :: "string \<Rightarrow> string list \<Rightarrow> string \<Rightarrow> (config_error, ProxyConfigurer) result" where
  "demo_accepted name custom sub =
     NewProxyConfigurerFromMsg (\<lambda>_ _. None) (\<lambda>_. []) (MarshalToMsg (Complete (demo_http_conf name custom sub)) zero_msg) demo_server_cfg"

definition demo_http_run :: "ProxyConfigurer \<Rightarrow> string http_ctl \<Rightarrow> ((group_error, string \<times> HTTPProxy) result \<times> string http_ctl) option" where
  "demo_http_run c s = (case c of HTTPConf v \<Rightarrow> HTTPProxy_Run demo_server_cfg (\<lambda>_. []) (NewHTTPProxy v) s | _ \<Rightarrow> None)"

definition demo_first :: "string http_ctl" where
  "demo_first = (case demo_accepted ''a'' [''www.Example.com''] [] of Inl e \<Rightarrow> NewHTTPGroupController NewRouters
     | Inr c \<Rightarrow> (case demo_http_run c (NewHTTPGroupController NewRouters) of None \<Rightarrow> NewHTTPGroupController NewRouters | Some (r, s) \<Rightarrow> s))"

text \<open>The server compares custom domains with its sub-domain host as they are written, while the
  router ignores case. With the sub-domain host \<open>example.com\<close> a proxy with the custom domain
  \<open>www.Example.com\<close> is accepted and runs, requests for \<open>www.example.com\<close> are routed to it, and
  the proxy that rightly asks for the sub-domain \<open>www\<close> is accepted but cannot run.\<close>

theorem subdomain_case_bypass:
  "(\<exists>c. demo_accepted ''a'' [''www.Example.com''] [] = ok c)
   \<and> map_option r_payload (getVhost (gc_shared demo_first) ''www.example.com'' ''/'' [])
     = Some (PlainRoute (zero_route\<lparr>rc_Domain := ''www.Example.com''\<rparr>) ''a'')
   \<and> (\<exists>c. demo_accepted ''b'' [] ''www'' = ok c
        \<and> map_option fst (demo_http_run c demo_first) = Some (err (RouteErr ErrRouterConfigConflict)))"
proof (intro conjI)
  show "\<exists>c. demo_accepted ''a'' [''www.Example.com''] [] = ok c"
    by (rule exI [of _ "server_view (Complete (demo_http_conf ''a'' [''www.Example.com''] []))"]) code_simp
  show "map_option r_payload (getVhost (gc_shared demo_first) ''www.example.com'' ''/'' [])
      = Some (PlainRoute (zero_route\<lparr>rc_Domain := ''www.Example.com''\<rparr>) ''a'')" by code_simp
  have "demo_accepted ''b'' [] ''www'' = ok (server_view (Complete (demo_http_conf ''b'' [] ''www'')))" by code_simp
  moreover have "map_option fst (demo_http_run (server_view (Complete (demo_http_conf ''b'' [] ''www''))) demo_first)
      = Some (err (RouteErr ErrRouterConfigConflict))" by code_simp
  ultimately show "\<exists>c. demo_accepted ''b'' [] ''www'' = ok c
        \<and> map_option fst (demo_http_run c demo_first) = Some (err (RouteErr ErrRouterConfigConflict))" by blast
qed

end
