(* ===== verification/Server_Plugin.thy ===== *)
theory Server_Plugin
  imports Proxy_Config Auth_Token
begin

text \<open>
  Messages of the control connection (\<^verbatim>\<open>pkg/msg/msg.go\<close>) and the plugin manager of the server
  (\<^verbatim>\<open>pkg/plugin/server/manager.go\<close>, \<^verbatim>\<open>types.go\<close>). A plugin is an HTTP service outside the program: it is a
  value with one answer function per operation, where \<open>None\<close> is a failed request.
\<close>

section \<open>Messages\<close>

record Login = signed +
  lg_Version :: string
  lg_Hostname :: string
  lg_Os :: string
  lg_Arch :: string
  lg_User :: string
  lg_RunID :: string
  lg_ClientID :: string
  lg_Metas :: string_map
  lg_AlwaysAuthPass :: bool
  lg_PoolCount :: int

record NewWorkConn = signed +
  nw_RunID :: string

record NewVisitorConn =
  nvc_RunID :: string
  nvc_ProxyName :: string
  nvc_SignKey :: string
  nvc_Timestamp :: int
  nvc_UseEncryption :: bool
  nvc_UseCompression :: bool

section \<open>Contents and plugins\<close>

record UserInfo =
  ui_User :: string
  ui_Metas :: string_map
  ui_RunID :: string

record LoginContent =
  lc_Login :: Login
  lc_ClientAddress :: string

record NewProxyContent =
  npc_User :: UserInfo
  npc_NewProxy :: NewProxy

record CloseProxyContent =
  cpc_User :: UserInfo
  cpc_ProxyName :: string

record PingContent =
  pgc_User :: UserInfo
  pgc_Ping :: signed

record NewWorkConnContent =
  nwc_User :: UserInfo
  nwc_NewWorkConn :: NewWorkConn

record NewUserConnContent =
  nuc_User :: UserInfo
  nuc_ProxyName :: string
  nuc_ProxyType :: string
  nuc_RemoteAddr :: string

record Response =
  rs_Reject :: bool
  rs_RejectReason :: string
  rs_Unchange :: bool

datatype plugin_op = OpLogin | OpNewProxy | OpCloseProxy | OpPing | OpNewWorkConn | OpNewUserConn

record Plugin =
  pl_Name :: string
  pl_IsSupport :: "plugin_op \<Rightarrow> bool"
  pl_Login :: "LoginContent \<Rightarrow> (Response \<times> LoginContent) option"
  pl_NewProxy :: "NewProxyContent \<Rightarrow> (Response \<times> NewProxyContent) option"
  pl_CloseProxy :: "CloseProxyContent \<Rightarrow> bool"
  pl_Ping :: "PingContent \<Rightarrow> (Response \<times> PingContent) option"
  pl_NewWorkConn :: "NewWorkConnContent \<Rightarrow> (Response \<times> NewWorkConnContent) option"
  pl_NewUserConn :: "NewUserConnContent \<Rightarrow> (Response \<times> NewUserConnContent) option"

record PluginManager =
  loginPlugins :: "Plugin list"
  newProxyPlugins :: "Plugin list"
  closeProxyPlugins :: "Plugin list"
  pingPlugins :: "Plugin list"
  newWorkConnPlugins :: "Plugin list"
  newUserConnPlugins :: "Plugin list"

definition NewPluginManager :: PluginManager where
  "NewPluginManager = \<lparr>loginPlugins = [], newProxyPlugins = [], closeProxyPlugins = [], pingPlugins = [],
     newWorkConnPlugins = [], newUserConnPlugins = []\<rparr>"

definition plugin_Register :: "Plugin \<Rightarrow> PluginManager \<Rightarrow> PluginManager" where
  "plugin_Register p m =
     (let m = (if pl_IsSupport p OpLogin then m\<lparr>loginPlugins := loginPlugins m @ [p]\<rparr> else m);
          m = (if pl_IsSupport p OpNewProxy then m\<lparr>newProxyPlugins := newProxyPlugins m @ [p]\<rparr> else m);
          m = (if pl_IsSupport p OpCloseProxy then m\<lparr>closeProxyPlugins := closeProxyPlugins m @ [p]\<rparr> else m);
          m = (if pl_IsSupport p OpPing then m\<lparr>pingPlugins := pingPlugins m @ [p]\<rparr> else m);
          m = (if pl_IsSupport p OpNewWorkConn then m\<lparr>newWorkConnPlugins := newWorkConnPlugins m @ [p]\<rparr> else m)
      in if pl_IsSupport p OpNewUserConn then m\<lparr>newUserConnPlugins := newUserConnPlugins m @ [p]\<rparr> else m)"

section \<open>Asking the plugins\<close>

datatype plugin_error = PluginSendError | PluginRejected string

text \<open>The loop that five of the six operations share, each with its own content: a plugin sees the
  content as the previous ones left it, and the first failure or rejection ends the loop.\<close>

fun ask_plugins :: "('p \<Rightarrow> 'c \<Rightarrow> (Response \<times> 'c) option) \<Rightarrow> 'p list \<Rightarrow> 'c \<Rightarrow> (plugin_error, 'c) result" where
  "ask_plugins handle [] content = ok content"
| "ask_plugins handle (p # ps) content =
     (case handle p content of
        None \<Rightarrow> err PluginSendError
      | Some (res, retContent) \<Rightarrow>
          (if rs_Reject res then err (PluginRejected (rs_RejectReason res))
           else ask_plugins handle ps (if \<not> rs_Unchange res then retContent else content)))"

definition pm_Login :: "PluginManager \<Rightarrow> LoginContent \<Rightarrow> (plugin_error, LoginContent) result" where
  "pm_Login m content = (if loginPlugins m = [] then ok content else ask_plugins pl_Login (loginPlugins m) content)"

definition pm_NewProxy :: "PluginManager \<Rightarrow> NewProxyContent \<Rightarrow> (plugin_error, NewProxyContent) result" where
  "pm_NewProxy m content = (if newProxyPlugins m = [] then ok content else ask_plugins pl_NewProxy (newProxyPlugins m) content)"

definition pm_Ping :: "PluginManager \<Rightarrow> PingContent \<Rightarrow> (plugin_error, PingContent) result" where
  "pm_Ping m content = (if pingPlugins m = [] then ok content else ask_plugins pl_Ping (pingPlugins m) content)"

definition pm_NewWorkConn :: "PluginManager \<Rightarrow> NewWorkConnContent \<Rightarrow> (plugin_error, NewWorkConnContent) result" where
  "pm_NewWorkConn m content =
     (if newWorkConnPlugins m = [] then ok content else ask_plugins pl_NewWorkConn (newWorkConnPlugins m) content)"

definition pm_NewUserConn :: "PluginManager \<Rightarrow> NewUserConnContent \<Rightarrow> (plugin_error, NewUserConnContent) result" where
  "pm_NewUserConn m content =
     (if newUserConnPlugins m = [] then ok content else ask_plugins pl_NewUserConn (newUserConnPlugins m) content)"

text \<open>\<open>CloseProxy\<close> tells every plugin; the names of those that could not be reached make up the error.\<close>

definition pm_CloseProxy :: "PluginManager \<Rightarrow> CloseProxyContent \<Rightarrow> (string list, unit) result" where
  "pm_CloseProxy m content =
     (let errs = map pl_Name (filter (\<lambda>p. \<not> pl_CloseProxy p content) (closeProxyPlugins m)) in
      if errs \<noteq> [] then err errs else ok ())"

section \<open>Properties\<close>

text \<open>What the chain of plugins amounts to: the content after each plugin, as long as all of them
  let it pass.\<close>

definition passes :: "('p \<Rightarrow> 'c \<Rightarrow> (Response \<times> 'c) option) \<Rightarrow> 'p \<Rightarrow> 'c \<Rightarrow> 'c option" where
  "passes handle p c = (case handle p c of
       Some (res, c') \<Rightarrow> (if rs_Reject res then None else Some (if rs_Unchange res then c else c')) | None \<Rightarrow> None)"

fun thread :: "('p \<Rightarrow> 'c \<Rightarrow> 'c option) \<Rightarrow> 'p list \<Rightarrow> 'c \<Rightarrow> 'c option" where
  "thread f [] c = Some c"
| "thread f (p # ps) c = (case f p c of None \<Rightarrow> None | Some c' \<Rightarrow> thread f ps c')"

lemma thread_append: "thread f (ps @ qs) c = (case thread f ps c of None \<Rightarrow> None | Some c' \<Rightarrow> thread f qs c')"
  by (induction ps arbitrary: c) (auto split: option.split)

lemma ask_plugins_thread: "ask_plugins h ps c = ok c' \<longleftrightarrow> thread (passes h) ps c = Some c'"
  by (induction ps arbitrary: c) (auto simp: passes_def split: option.splits prod.splits)

lemma ask_plugins_append:
  "ask_plugins h (ps @ qs) c = (case ask_plugins h ps c of Inl e \<Rightarrow> Inl e | Inr c' \<Rightarrow> ask_plugins h qs c')"
  by (induction ps arbitrary: c) (auto split: option.splits prod.splits)

lemma thread_all_pass:
  "thread f ps c = Some c' \<Longrightarrow> p \<in> set ps \<Longrightarrow> \<exists>d d'. f p d = Some d'"
  by (induction ps arbitrary: c) (auto split: option.splits)

lemma plugin_Register_login:
  "loginPlugins (plugin_Register p m) = loginPlugins m @ (if pl_IsSupport p OpLogin then [p] else [])"
  by (simp add: plugin_Register_def Let_def)

text \<open>The plugins decide in their order of registration. With the plugins \<open>ps\<close> registered one after
  the other in a new manager, a login passes with the content \<open>c'\<close> exactly if threading it
  through the plugins that support logins, in this order, yields \<open>c'\<close>; in particular every one
  of them was asked and none rejected.\<close>

theorem login_plugins_in_order:
  "pm_Login (fold plugin_Register ps NewPluginManager) c = ok c' \<longleftrightarrow>
     thread (passes pl_Login) (filter (\<lambda>p. pl_IsSupport p OpLogin) ps) c = Some c'"
proof -
  have "loginPlugins (fold plugin_Register ps m) = loginPlugins m @ filter (\<lambda>p. pl_IsSupport p OpLogin) ps" for m
    by (induction ps arbitrary: m) (simp_all add: plugin_Register_login)
  then have "loginPlugins (fold plugin_Register ps NewPluginManager) = filter (\<lambda>p. pl_IsSupport p OpLogin) ps"
    by (simp add: NewPluginManager_def)
  then show ?thesis by (simp add: pm_Login_def ask_plugins_thread)
qed

end
