(* ===== verification/Server_Control.thy ===== *)
theory Server_Control
  imports Server_Proxies Server_Plugin Client_Registry
begin

text \<open>
  A control on the server, \<^verbatim>\<open>server/control.go\<close>: the session of one logged-in client, with its pool
  of work connections, its proxies and its heartbeat. Messages of one control are handled one
  after the other; between the two critical sections of a registration (the proxy is run, then
  it is added to the proxy manager) other controls may act.

  The channel of work connections is a bounded queue with a flag for \<^verbatim>\<open>close\<close>; closing the
  network connection and the channel \<^verbatim>\<open>doneCh\<close> are flags. What is sent to the client is returned as a
  list.
\<close>

section \<open>State\<close>

record 'c Control =
  ctl_runID :: string
  ctl_login :: Login
  ctl_verifier :: Verifier
  ctl_workConnCh :: "'c list"
  ctl_workConnCap :: nat
  ctl_chanClosed :: bool
  ctl_proxies :: "(string \<times> Proxy) list"
  ctl_poolCount :: int
  ctl_portsUsedNum :: int
  ctl_lastPing :: int
  ctl_connClosed :: bool
  ctl_done :: bool

text \<open>What the controls share.\<close>

record 'c server_state =
  ss_rc :: "'c ResourceController"
  ss_pxys :: "string \<rightharpoonup> Proxy"
  ss_registry :: ClientRegistry

datatype ctl_msg =
    LoginResp string string
  | ReqWorkConn
  | NewProxyResp string string string
  | Pong string
  | StartWorkConn string

datatype control_error =
    ConfErr config_error
  | ExceedMaxPorts
  | ProxyExists string
  | RunErr proxy_error
  | AddErr pxy_manager_error
  | PluginErr plugin_error
  | AuthErr auth_error
  | ErrCtlClosed | CtlAlreadyClosed | WorkConnTimeout | WorkConnPoolFull
  | CryptoErr

section \<open>Creating and starting\<close>

text \<open>\<open>make(chan net.Conn, n)\<close> panics for a negative \<open>n\<close>: the result is \<open>None\<close>.\<close>

definition NewControl ::
  "ServerConfig \<Rightarrow> bool \<Rightarrow> bool \<Rightarrow> int \<Rightarrow> Verifier \<Rightarrow> Login \<Rightarrow> (control_error, 'c Control) result option" where
  "NewControl sv connEncrypted crypto_ok now verifier loginMsg =
     (let poolCount = min (lg_PoolCount loginMsg) (sv_MaxPoolCount sv) in
      if poolCount + 10 < 0 then None
      else
        let ctl = \<lparr>ctl_runID = lg_RunID loginMsg, ctl_login = loginMsg, ctl_verifier = verifier, ctl_workConnCh = [],
                   ctl_workConnCap = nat (poolCount + 10), ctl_chanClosed = False, ctl_proxies = [],
                   ctl_poolCount = poolCount, ctl_portsUsedNum = 0, ctl_lastPing = now, ctl_connClosed = False, ctl_done = False\<rparr>
        in if connEncrypted \<and> \<not> crypto_ok then Some (err CryptoErr) else Some (ok ctl))"

definition Start :: "string \<Rightarrow> 'c Control \<Rightarrow> ctl_msg list" where
  "Start version ctl = LoginResp version (ctl_runID ctl) # replicate (nat (ctl_poolCount ctl)) ReqWorkConn"

definition control_Close :: "'c Control \<Rightarrow> 'c Control" where
  "control_Close ctl = ctl\<lparr>ctl_connClosed := True\<rparr>"

definition Replaced :: "'c Control \<Rightarrow> 'c Control" where
  "Replaced ctl = ctl\<lparr>ctl_runID := [], ctl_connClosed := True\<rparr>"

section \<open>Work connections\<close>

text \<open>Sending on a closed channel panics; the function recovers and returns its zero value, no
  error.\<close>

definition RegisterWorkConn :: "'c \<Rightarrow> 'c Control \<Rightarrow> control_error option \<times> 'c Control" where
  "RegisterWorkConn conn ctl =
     (if ctl_chanClosed ctl then (None, ctl)
      else if length (ctl_workConnCh ctl) < ctl_workConnCap ctl
      then (None, ctl\<lparr>ctl_workConnCh := ctl_workConnCh ctl @ [conn]\<rparr>)
      else (Some WorkConnPoolFull, ctl))"

text \<open>Receiving from the channel: \<open>None\<close> while it is empty and open, \<open>Some None\<close> when it is closed
  and drained.\<close>

definition receive :: "'c Control \<Rightarrow> ('c option \<times> 'c Control) option" where
  "receive ctl =
     (case ctl_workConnCh ctl of
        c # cs \<Rightarrow> Some (Some c, ctl\<lparr>ctl_workConnCh := cs\<rparr>)
      | [] \<Rightarrow> (if ctl_chanClosed ctl then Some (None, ctl) else None))"

text \<open>\<open>GetWorkConn\<close>. If nothing is in the pool a connection is requested and the goroutine waits;
  \<open>wake\<close> is the control when the channel becomes ready, or \<open>None\<close> if the timeout comes first.\<close>

definition GetWorkConn ::
  "bool \<Rightarrow> 'c Control option \<Rightarrow> 'c Control \<Rightarrow> (control_error, 'c) result \<times> 'c Control \<times> ctl_msg list" where
  "GetWorkConn send_ok wake ctl =
     (case receive ctl of
        Some (Some c, ctl') \<Rightarrow> (ok c, ctl', [ReqWorkConn])
      | Some (None, ctl') \<Rightarrow> (err ErrCtlClosed, ctl', [])
      | None \<Rightarrow>
          (if \<not> send_ok then (err CtlAlreadyClosed, ctl, [])
           else case wake of
                  None \<Rightarrow> (err WorkConnTimeout, ctl, [ReqWorkConn])
                | Some ctl1 \<Rightarrow>
                    (case receive ctl1 of
                       Some (Some c, ctl') \<Rightarrow> (ok c, ctl', [ReqWorkConn, ReqWorkConn])
                     | Some (None, ctl') \<Rightarrow> (err ErrCtlClosed, ctl', [ReqWorkConn])
                     | None \<Rightarrow> (err WorkConnTimeout, ctl1, [ReqWorkConn]))))"

section \<open>Heartbeat\<close>

text \<open>One round of the heartbeat worker; times are in nanoseconds.\<close>

definition heartbeat :: "ServerConfig \<Rightarrow> int \<Rightarrow> 'c Control \<Rightarrow> 'c Control" where
  "heartbeat sv now ctl =
     (if sv_HeartbeatTimeout sv \<le> 0 then ctl
      else if now - ctl_lastPing ctl > sv_HeartbeatTimeout sv * 10 ^ 9 then ctl\<lparr>ctl_connClosed := True\<rparr>
      else ctl)"

definition loginUserInfo :: "'c Control \<Rightarrow> UserInfo" where
  "loginUserInfo ctl = \<lparr>ui_User = lg_User (ctl_login ctl), ui_Metas = lg_Metas (ctl_login ctl), ui_RunID = lg_RunID (ctl_login ctl)\<rparr>"

text \<open>\<open>GenerateResponseErrorString\<close>; the text of an error is a function of the error.\<close>

definition GenerateResponseErrorString :: "string \<Rightarrow> string \<Rightarrow> bool \<Rightarrow> string" where
  "GenerateResponseErrorString summary detail detailed = (if detailed then detail else summary)"

definition handlePing ::
  "PluginManager \<Rightarrow> (control_error \<Rightarrow> string) \<Rightarrow> ServerConfig \<Rightarrow> int \<Rightarrow> signed \<Rightarrow> 'c Control \<Rightarrow> 'c Control \<times> ctl_msg list" where
  "handlePing pm show_err sv now inMsg ctl =
     (let content = \<lparr>pgc_User = loginUserInfo ctl, pgc_Ping = inMsg\<rparr>;
          checked = (case pm_Ping pm content of
                       Inl e \<Rightarrow> err (PluginErr e)
                     | Inr retContent \<Rightarrow>
                         (case vf_Ping (ctl_verifier ctl) (pgc_Ping retContent) of
                            Inl e \<Rightarrow> err (AuthErr e)
                          | Inr _ \<Rightarrow> ok ()))
      in case checked of
           Inl e \<Rightarrow> (ctl, [Pong (GenerateResponseErrorString ''invalid ping'' (show_err e) (sv_DetailedErrorsToClient sv))])
         | Inr _ \<Rightarrow> (ctl\<lparr>ctl_lastPing := now\<rparr>, [Pong []]))"

section \<open>Proxies\<close>

text \<open>The first part of \<open>RegisterProxy\<close>: check and reserve the client's ports, check the name, run the
  proxy. \<open>None\<close> is a panic or a retry loop that does not end.\<close>

definition give_back :: "ServerConfig \<Rightarrow> int \<Rightarrow> 'c Control \<Rightarrow> 'c Control" where
  "give_back sv n ctl = (if sv_MaxPortsPerClient sv > 0 then ctl\<lparr>ctl_portsUsedNum := ctl_portsUsedNum ctl - n\<rparr> else ctl)"

definition register_begin ::
  "(string \<Rightarrow> int \<Rightarrow> int option) \<Rightarrow> (string \<Rightarrow> string list) \<Rightarrow> ServerConfig \<Rightarrow> run_env \<Rightarrow> NewProxy \<Rightarrow> 'c Control \<Rightarrow> 'c server_state
   \<Rightarrow> ((control_error, string \<times> Proxy) result \<times> 'c Control \<times> 'c server_state) option" where
  "register_begin scale qualified sv env pxyMsg ctl st =
     (case NewProxyConfigurerFromMsg scale qualified pxyMsg sv of
        Inl e \<Rightarrow> Some (err (ConfErr e), ctl, st)
      | Inr pxyConf \<Rightarrow>
          (let pxy = newProxy (lg_User (ctl_login ctl)) pxyConf; n = GetUsedPortsNum pxy in
           if sv_MaxPortsPerClient sv > 0 \<and> ctl_portsUsedNum ctl + n > sv_MaxPortsPerClient sv
           then Some (err ExceedMaxPorts, ctl, st)
           else
             let ctl1 = (if sv_MaxPortsPerClient sv > 0 then ctl\<lparr>ctl_portsUsedNum := ctl_portsUsedNum ctl + n\<rparr> else ctl) in
             if pxys_Exist (np_ProxyName pxyMsg) (ss_pxys st)
             then Some (err (ProxyExists (np_ProxyName pxyMsg)), give_back sv n ctl1, st)
             else (case pxy_Run sv env pxy (ss_rc st) of
                     None \<Rightarrow> None
                   | Some (Inl e, rc') \<Rightarrow> Some (err (RunErr e), give_back sv n ctl1, st\<lparr>ss_rc := rc'\<rparr>)
                   | Some (Inr (addr, pxy'), rc') \<Rightarrow> Some (ok (addr, pxy'), ctl1, st\<lparr>ss_rc := rc'\<rparr>))))"

text \<open>The second part: add the proxy to the proxy manager, undoing everything if the name was taken
  in the meantime, and to the control.\<close>

definition register_commit ::
  "ServerConfig \<Rightarrow> int \<Rightarrow> string \<Rightarrow> Proxy \<Rightarrow> 'c Control \<Rightarrow> 'c server_state
   \<Rightarrow> ((control_error, unit) result \<times> 'c Control \<times> 'c server_state) option" where
  "register_commit sv now name pxy ctl st =
     (case pxys_Add name pxy (ss_pxys st) of
        (Inl e, _) \<Rightarrow>
          (case pxy_Close now pxy (ss_rc st) of
             None \<Rightarrow> None
           | Some rc' \<Rightarrow> Some (err (AddErr e), give_back sv (GetUsedPortsNum pxy) ctl, st\<lparr>ss_rc := rc'\<rparr>))
      | (Inr _, pxys) \<Rightarrow>
          Some (ok (), ctl\<lparr>ctl_proxies := map_put (GetName pxy) pxy (ctl_proxies ctl)\<rparr>, st\<lparr>ss_pxys := pxys\<rparr>))"

definition RegisterProxy ::
  "(string \<Rightarrow> int \<Rightarrow> int option) \<Rightarrow> (string \<Rightarrow> string list) \<Rightarrow> ServerConfig \<Rightarrow> run_env \<Rightarrow> ('c server_state \<Rightarrow> 'c server_state)
   \<Rightarrow> NewProxy \<Rightarrow> 'c Control \<Rightarrow> 'c server_state \<Rightarrow> ((control_error, string) result \<times> 'c Control \<times> 'c server_state) option" where
  "RegisterProxy scale qualified sv env others pxyMsg ctl st =
     (case register_begin scale qualified sv env pxyMsg ctl st of
        None \<Rightarrow> None
      | Some (Inl e, ctl1, st1) \<Rightarrow> Some (err e, ctl1, st1)
      | Some (Inr (remoteAddr, pxy), ctl1, st1) \<Rightarrow>
          (case register_commit sv (re_now env) (np_ProxyName pxyMsg) pxy ctl1 (others st1) of
             None \<Rightarrow> None
           | Some (Inl e, ctl2, st2) \<Rightarrow> Some (err e, ctl2, st2)
           | Some (Inr _, ctl2, st2) \<Rightarrow> Some (ok remoteAddr, ctl2, st2)))"

text \<open>\<open>closeProxy\<close>: the plugins are told asynchronously, the metrics count it. In the code the proxy manager and the control have a mutex each; here the two
  deletions of \<open>CloseProxy\<close> are one step, and so are the two insertions of \<open>register_commit\<close>.\<close>

definition closeProxy :: "int \<Rightarrow> Proxy \<Rightarrow> 'c server_state \<Rightarrow> 'c server_state option" where
  "closeProxy now pxy st =
     (case pxy_Close now pxy (ss_rc st) of
        None \<Rightarrow> None
      | Some rc' \<Rightarrow> Some (st\<lparr>ss_rc := rc', ss_pxys := pxys_Del (GetName pxy) (ss_pxys st)\<rparr>))"

definition CloseProxy :: "ServerConfig \<Rightarrow> int \<Rightarrow> string \<Rightarrow> 'c Control \<Rightarrow> 'c server_state \<Rightarrow> ('c Control \<times> 'c server_state) option" where
  "CloseProxy sv now name ctl st =
     (case map_of (ctl_proxies ctl) name of
        None \<Rightarrow> Some (ctl, st)
      | Some pxy \<Rightarrow>
          (let ctl1 = (give_back sv (GetUsedPortsNum pxy) ctl)\<lparr>ctl_proxies := map_delete name (ctl_proxies ctl)\<rparr> in
           case closeProxy now pxy st of
             None \<Rightarrow> None
           | Some st' \<Rightarrow> Some (ctl1, st')))"

definition handleNewProxy ::
  "PluginManager \<Rightarrow> (control_error \<Rightarrow> string) \<Rightarrow> (string \<Rightarrow> int \<Rightarrow> int option) \<Rightarrow> (string \<Rightarrow> string list) \<Rightarrow> ServerConfig \<Rightarrow> run_env
   \<Rightarrow> ('c server_state \<Rightarrow> 'c server_state) \<Rightarrow> NewProxy \<Rightarrow> 'c Control \<Rightarrow> 'c server_state \<Rightarrow> ('c Control \<times> 'c server_state \<times> ctl_msg list) option" where
  "handleNewProxy pm show_err scale qualified sv env others inMsg ctl st =
     (let content = \<lparr>npc_User = loginUserInfo ctl, npc_NewProxy = inMsg\<rparr>;
          answer = (\<lambda>name e. NewProxyResp name [] (GenerateResponseErrorString (''new proxy ['' @ name @ ''] error'')
                       (show_err e) (sv_DetailedErrorsToClient sv)))
      in case pm_NewProxy pm content of
           Inl e \<Rightarrow> Some (ctl, st, [answer (np_ProxyName inMsg) (PluginErr e)])
         | Inr retContent \<Rightarrow>
             (let m = npc_NewProxy retContent in
              case RegisterProxy scale qualified sv env others m ctl st of
                None \<Rightarrow> None
              | Some (Inl e, ctl', st') \<Rightarrow> Some (ctl', st', [answer (np_ProxyName m) e])
              | Some (Inr remoteAddr, ctl', st') \<Rightarrow> Some (ctl', st', [NewProxyResp (np_ProxyName m) remoteAddr []])))"

section \<open>The end of a control\<close>

text \<open>What \<open>worker\<close> does when the connection is gone: under the lock it closes the channel, the queued
  work connections and takes the proxies (\<open>worker_begin\<close>); then it closes the proxies one by one; then it
  marks the run offline and closes \<open>doneCh\<close> (\<open>worker_finish\<close>). The result of \<open>worker_end\<close> is the list of closed
  work connections with the final state.\<close>

fun close_proxies :: "int \<Rightarrow> (string \<times> Proxy) list \<Rightarrow> 'c server_state \<Rightarrow> 'c server_state option" where
  "close_proxies now [] st = Some st"
| "close_proxies now ((name, pxy) # ps) st =
     (case closeProxy now pxy st of None \<Rightarrow> None | Some st' \<Rightarrow> close_proxies now ps st')"

definition worker_begin :: "'c Control \<Rightarrow> 'c list \<times> (string \<times> Proxy) list \<times> 'c Control" where
  "worker_begin ctl =
     (ctl_workConnCh ctl, ctl_proxies ctl, ctl\<lparr>ctl_connClosed := True, ctl_chanClosed := True, ctl_workConnCh := [], ctl_proxies := []\<rparr>)"

definition worker_finish :: "int \<Rightarrow> 'c Control \<Rightarrow> 'c server_state \<Rightarrow> 'c Control \<times> 'c server_state" where
  "worker_finish now ctl st =
     (ctl\<lparr>ctl_done := True\<rparr>, st\<lparr>ss_registry := MarkOfflineByRunID (ctl_runID ctl) now (ss_registry st)\<rparr>)"

definition worker_end :: "int \<Rightarrow> 'c Control \<Rightarrow> 'c server_state \<Rightarrow> ('c list \<times> 'c Control \<times> 'c server_state) option" where
  "worker_end now ctl st =
     (let (conns, proxies, ctl1) = worker_begin ctl in
      case close_proxies now proxies st of
        None \<Rightarrow> None
      | Some st1 \<Rightarrow> Some (conns, worker_finish now ctl1 st1))"

section \<open>Every accepted work connection is delivered once, in order\<close>

text \<open>What can happen to the pool of an open control, with the connections accepted and the
  connections handed out so far. A call of \<open>GetWorkConn\<close> that found the pool empty at \<open>ctl0\<close> may
  return much later.\<close>

inductive wc_run :: "'c Control \<Rightarrow> 'c list \<Rightarrow> 'c list \<Rightarrow> 'c Control \<Rightarrow> bool" for init :: "'c Control" where
  start: "wc_run init [] [] init"
| accepted: "wc_run init acc del ctl \<Longrightarrow> RegisterWorkConn conn ctl = (None, ctl') \<Longrightarrow> wc_run init (acc @ [conn]) del ctl'"
| refused: "wc_run init acc del ctl \<Longrightarrow> RegisterWorkConn conn ctl = (Some e, ctl') \<Longrightarrow> wc_run init acc del ctl'"
| pooled: "wc_run init acc del ctl \<Longrightarrow> GetWorkConn send_ok None ctl = (ok conn, ctl', out) \<Longrightarrow> wc_run init acc (del @ [conn]) ctl'"
| waited: "wc_run init acc del ctl \<Longrightarrow> receive ctl0 = None \<Longrightarrow> GetWorkConn send_ok (Some ctl) ctl0 = (ok conn, ctl', out)
    \<Longrightarrow> wc_run init acc (del @ [conn]) ctl'"
| failed: "wc_run init acc del ctl \<Longrightarrow> GetWorkConn send_ok None ctl = (err e, ctl', out) \<Longrightarrow> wc_run init acc del ctl'"

lemma receive_some:
  "receive ctl = Some (Some c, ctl') \<Longrightarrow> \<exists>cs. ctl_workConnCh ctl = c # cs \<and> ctl' = ctl\<lparr>ctl_workConnCh := cs\<rparr>"
  by (auto simp: receive_def split: list.splits if_splits)

lemma GetWorkConn_pooled:
  "GetWorkConn send_ok None ctl = (ok conn, ctl', out) \<Longrightarrow> receive ctl = Some (Some conn, ctl')"
  by (auto simp: GetWorkConn_def split: option.splits prod.splits if_splits)

lemma GetWorkConn_waited:
  "receive ctl0 = None \<Longrightarrow> GetWorkConn send_ok (Some ctl) ctl0 = (ok conn, ctl', out) \<Longrightarrow> receive ctl = Some (Some conn, ctl')"
  by (auto simp: GetWorkConn_def split: option.splits prod.splits if_splits)

lemma GetWorkConn_failed:
  "GetWorkConn send_ok None ctl = (err e, ctl', out) \<Longrightarrow> ctl' = ctl"
  by (auto simp: GetWorkConn_def receive_def split: option.splits prod.splits if_splits list.splits)

text \<open>C11. In every run of a new control the accepted connections are those handed out followed by those
  in the pool, so each is handed out at most once and in the order of arrival; the pool never
  exceeds the capacity of the channel, and a connection is refused exactly if the pool is
  full.\<close>

theorem work_conns_fifo:
  assumes "wc_run init acc del ctl" and "ctl_workConnCh init = []" and "\<not> ctl_chanClosed init"
  shows "acc = del @ ctl_workConnCh ctl \<and> length (ctl_workConnCh ctl) \<le> ctl_workConnCap init
    \<and> (fst (RegisterWorkConn conn ctl) = Some WorkConnPoolFull \<longleftrightarrow> length (ctl_workConnCh ctl) = ctl_workConnCap init)"
proof -
  have "acc = del @ ctl_workConnCh ctl \<and> length (ctl_workConnCh ctl) \<le> ctl_workConnCap init
      \<and> ctl_workConnCap ctl = ctl_workConnCap init \<and> \<not> ctl_chanClosed ctl"
    using assms(1)
  proof (induction rule: wc_run.induct)
    case (pooled acc del ctl send_ok conn ctl' out)
    from pooled.IH receive_some [OF GetWorkConn_pooled [OF pooled.hyps(2)]] show ?case by auto
  next
    case (waited acc del ctl ctl0 send_ok conn ctl' out)
    from waited.IH receive_some [OF GetWorkConn_waited [OF waited.hyps(2,3)]] show ?case by auto
  qed (use assms in \<open>auto simp: RegisterWorkConn_def dest: GetWorkConn_failed split: if_splits\<close>)
  then show ?thesis by (auto simp: RegisterWorkConn_def)
qed

text \<open>A connection that arrives after the worker closed the channel is neither queued nor refused:
  the send panics, the panic is recovered and \<open>RegisterWorkConn\<close> returns no error, so its caller does
  not close the connection.\<close>

theorem work_conn_leak: "RegisterWorkConn conn (snd (snd (worker_begin ctl))) = (None, snd (snd (worker_begin ctl)))"
  by (simp add: RegisterWorkConn_def worker_begin_def)

text \<open>A login with a pool count below \<open>-10\<close> makes \<open>NewControl\<close> panic.\<close>

theorem NewControl_panics_iff:
  "NewControl sv connEncrypted crypto_ok now verifier loginMsg = None \<longleftrightarrow> min (lg_PoolCount loginMsg) (sv_MaxPoolCount sv) < -10"
  by (simp add: NewControl_def Let_def)

section \<open>Names\<close>

lemma configured_name:
  assumes "NewProxyConfigurerFromMsg scale qualified m sv = ok c"
  shows "pb_Name (GetBaseConfig c) = np_ProxyName m" and "lb_Group (pb_LoadBalancer (GetBaseConfig c)) = np_Group m"
proof -
  define m' where "m' = m\<lparr>np_ProxyType := EmptyOr (np_ProxyType m) ''tcp''\<rparr>"
  obtain z where c: "c = Complete (UnmarshalFromMsg scale m' z)"
    using assms by (auto simp: NewProxyConfigurerFromMsg_def Let_def m'_def split: option.splits)
  have "pb_Name (GetBaseConfig c) = np_ProxyName m' \<and> lb_Group (pb_LoadBalancer (GetBaseConfig c)) = np_Group m'"
    unfolding c by (cases z) (simp_all add: GetBaseConfig_def base_Complete_def marshal_defs base_UnmarshalFromMsg_def Let_def
        ProxyBaseConfig.defs)
  then show "pb_Name (GetBaseConfig c) = np_ProxyName m" "lb_Group (pb_LoadBalancer (GetBaseConfig c)) = np_Group m"
    by (simp_all add: m'_def)
qed

lemma GetName_newProxy: "GetName (newProxy user c) = pb_Name (GetBaseConfig c)"
  by (cases c) (simp_all add: GetBaseConfig_def ProxyBaseConfig.defs NewTCPProxy_def NewUDPProxy_def NewHTTPProxy_def
      NewHTTPSProxy_def NewTCPMuxProxy_def NewSTCPProxy_def NewSUDPProxy_def NewXTCPProxy_def)

lemma pxy_Run_name:
  assumes "pxy_Run sv env p rc = Some (ok (a, p'), rc')"
  shows "GetName p' = GetName p" and "GetUsedPortsNum p' = GetUsedPortsNum p"
  using assms
  by (cases p; auto simp: startVisitorListener_def XTCPProxy_Run_def Let_def dest: run_names
      split: option.splits prod.splits sum.splits)+

text \<open>What the first part of a registration does, by its outcome.\<close>

lemma register_begin_ok:
  assumes "register_begin scale qualified sv env m ctl st = Some (ok (a, p), ctl', st')"
  shows "GetName p = np_ProxyName m" "ss_pxys st' = ss_pxys st" "ss_registry st' = ss_registry st" "ss_pxys st (np_ProxyName m) = None"
    "ctl' = (if sv_MaxPortsPerClient sv > 0 then ctl\<lparr>ctl_portsUsedNum := ctl_portsUsedNum ctl + GetUsedPortsNum p\<rparr> else ctl)"
    "sv_MaxPortsPerClient sv > 0 \<Longrightarrow> ctl_portsUsedNum ctl' \<le> sv_MaxPortsPerClient sv"
proof -
  obtain c where c: "NewProxyConfigurerFromMsg scale qualified m sv = ok c"
    using assms by (auto simp: register_begin_def split: sum.splits)
  obtain rc' where R: "pxy_Run sv env (newProxy (lg_User (ctl_login ctl)) c) (ss_rc st) = Some (ok (a, p), rc')" "st' = st\<lparr>ss_rc := rc'\<rparr>"
    using assms c by (auto simp: register_begin_def Let_def split: if_splits option.splits sum.splits prod.splits)
  note N = pxy_Run_name [OF R(1)]
  show "GetName p = np_ProxyName m" using N(1) configured_name(1) [OF c] by (simp add: GetName_newProxy)
  show "ss_pxys st' = ss_pxys st" "ss_registry st' = ss_registry st" by (simp_all add: R(2))
  show "ss_pxys st (np_ProxyName m) = None"
    using assms c R(1) by (auto simp: register_begin_def Let_def pxys_Exist_def split: if_splits)
  show "ctl' = (if sv_MaxPortsPerClient sv > 0 then ctl\<lparr>ctl_portsUsedNum := ctl_portsUsedNum ctl + GetUsedPortsNum p\<rparr> else ctl)"
    using assms c R(1) N(2) by (auto simp: register_begin_def Let_def split: if_splits)
  show "ctl_portsUsedNum ctl' \<le> sv_MaxPortsPerClient sv" if "sv_MaxPortsPerClient sv > 0"
    using assms c R(1) that by (auto simp: register_begin_def Let_def split: if_splits)
qed

lemma give_back_added:
  "give_back sv n (if sv_MaxPortsPerClient sv > 0 then ctl\<lparr>ctl_portsUsedNum := ctl_portsUsedNum ctl + n\<rparr> else ctl) = ctl"
  by (simp add: give_back_def)

lemma register_begin_err:
  assumes "register_begin scale qualified sv env m ctl st = Some (err e, ctl', st')"
  shows "ctl' = ctl" "ss_pxys st' = ss_pxys st" "ss_registry st' = ss_registry st"
  using assms
  by (auto simp: register_begin_def Let_def give_back_def split: sum.splits if_splits option.splits prod.splits)

section \<open>A registration is all or nothing\<close>

lemma register_begin_resources:
  assumes rc: "rc_ok (ss_rc st)" and env: "run_ok env (ss_rc st)" and ng: "np_Group m = []"
  shows "\<exists>res ctl' st'. register_begin scale qualified sv env m ctl st = Some (res, ctl', st')
       \<and> (case res of
            Inl e \<Rightarrow> in_use (ss_rc st') = in_use (ss_rc st)
          | Inr (a, p) \<Rightarrow> \<exists>rc''. pxy_Close now p (ss_rc st') = Some rc'' \<and> in_use rc'' = in_use (ss_rc st))"
proof (cases "NewProxyConfigurerFromMsg scale qualified m sv")
  case (Inl e)
  then show ?thesis by (simp add: register_begin_def)
next
  case (Inr c)
  have "no_group c" using configured_name(2) [OF Inr] ng by (simp add: no_group_def)
  from pxy_run_close [OF rc env this, of sv "lg_User (ctl_login ctl)" now] obtain res rc' where
    R: "pxy_Run sv env (newProxy (lg_User (ctl_login ctl)) c) (ss_rc st) = Some (res, rc')"
    and Q: "case res of
            Inl e \<Rightarrow> in_use rc' = in_use (ss_rc st)
          | Inr (addr, p) \<Rightarrow> GetName p = pb_Name (GetBaseConfig c)
              \<and> GetUsedPortsNum p = GetUsedPortsNum (newProxy (lg_User (ctl_login ctl)) c)
              \<and> (\<exists>rc''. pxy_Close now p rc' = Some rc'' \<and> rc_ok rc'' \<and> in_use rc'' = in_use (ss_rc st))"
    by blast
  show ?thesis using Inr R Q
    by (cases res) (auto simp: register_begin_def Let_def)
qed

lemma map_put_delete: "map_of ps n = None \<Longrightarrow> map_delete n (map_put n p ps) = ps"
  using map_put_new [of n ps p] by (simp add: map_of_eq_None_iff map_delete_absent) (auto simp: map_delete_def filter_id_conv)

text \<open>C2. Registering a proxy that is not in a group, with no other control in between. If it fails, for
  whatever reason (configuration, port limit, taken name, no free port, a conflicting route, a
  listener that cannot be opened), then the control, the table of proxies and everything the
  resource controller has in use (ports, routes, listeners, visitor and client names) are as
  before. If it succeeds, closing the proxy brings them back to what they were.\<close>

theorem RegisterProxy_all_or_nothing:
  assumes rc: "rc_ok (ss_rc st)" and env: "run_ok env (ss_rc st)" and ng: "np_Group m = []"
    and own: "fst ` set (ctl_proxies ctl) \<subseteq> dom (ss_pxys st)"
  shows "\<exists>res ctl' st'. RegisterProxy scale qualified sv env id m ctl st = Some (res, ctl', st')
       \<and> (case res of
            Inl e \<Rightarrow> ctl' = ctl \<and> ss_pxys st' = ss_pxys st \<and> ss_registry st' = ss_registry st \<and> in_use (ss_rc st') = in_use (ss_rc st)
          | Inr addr \<Rightarrow> \<exists>st''. CloseProxy sv now (np_ProxyName m) ctl' st' = Some (ctl, st'')
              \<and> ss_pxys st'' = ss_pxys st \<and> ss_registry st'' = ss_registry st \<and> in_use (ss_rc st'') = in_use (ss_rc st))"
proof -
  let ?n = "np_ProxyName m"
  obtain res ctl1 st1 where B: "register_begin scale qualified sv env m ctl st = Some (res, ctl1, st1)"
    and Q: "case res of Inl e \<Rightarrow> in_use (ss_rc st1) = in_use (ss_rc st)
          | Inr (a, p) \<Rightarrow> \<exists>rc''. pxy_Close now p (ss_rc st1) = Some rc'' \<and> in_use rc'' = in_use (ss_rc st)"
    using register_begin_resources [OF rc env ng] by blast
  show ?thesis
  proof (cases res)
    case (Inl e)
    note E = register_begin_err [OF B [unfolded Inl]]
    show ?thesis using B Q E Inl by (simp add: RegisterProxy_def)
  next
    case (Inr ap)
    obtain a p where ap: "ap = (a, p)" by fastforce
    note K = register_begin_ok [OF B [unfolded Inr ap]]
    obtain rc'' where C: "pxy_Close now p (ss_rc st1) = Some rc''" "in_use rc'' = in_use (ss_rc st)" using Q Inr ap by auto
    have fresh: "map_of (ctl_proxies ctl) ?n = None" using own K(4) by (force simp: map_of_eq_None_iff)
    let ?ctl2 = "ctl1\<lparr>ctl_proxies := map_put ?n p (ctl_proxies ctl1)\<rparr>" and ?st2 = "st1\<lparr>ss_pxys := (ss_pxys st)(?n \<mapsto> p)\<rparr>"
    have R: "RegisterProxy scale qualified sv env id m ctl st = Some (ok a, ?ctl2, ?st2)"
      using B Inr ap K(1,2,4) by (simp add: RegisterProxy_def register_commit_def pxys_Add_def)
    have c1: "ctl_proxies ctl1 = ctl_proxies ctl" using K(5) by simp
    have c2: "(give_back sv (GetUsedPortsNum p) ?ctl2)\<lparr>ctl_proxies := map_delete ?n (ctl_proxies ?ctl2)\<rparr> = ctl"
      using K(5) by (simp add: give_back_def map_put_delete [OF fresh])
    have "CloseProxy sv now ?n ?ctl2 ?st2 = Some (ctl, ?st2\<lparr>ss_rc := rc'', ss_pxys := (ss_pxys st)(?n := None)\<rparr>)"
      using C(1) K(1) c2 by (simp add: CloseProxy_def closeProxy_def pxys_Del_def Let_def)
    moreover have "(ss_pxys st)(?n := None) = ss_pxys st" using K(4) by simp
    ultimately show ?thesis using R C(2) K(3) by simp
  qed
qed

definition demo_rc :: "nat ResourceController" where
  "demo_rc = \<lparr>rc_tcp = NewTCPGroupCtl two_ports, rc_udp = two_ports, rc_http = NewHTTPGroupController NewRouters,
     rc_https = NewHTTPSGroupController NewMuxer, rc_tcpmux = NewTCPMuxGroupCtl NewMuxer,
     rc_visitors = NewVisitorManager, rc_nathole = NewController 0\<rparr>"

definition demo_st :: "nat server_state" where
  "demo_st = \<lparr>ss_rc = demo_rc, ss_pxys = Map.empty, ss_registry = NewClientRegistry\<rparr>"

definition demo_run_env :: run_env where
  "demo_run_env = \<lparr>re_tcp = demo_tcp_env, re_udp = demo_udp_env, re_now = 0, re_tcpOthers = [], re_httpOthers = (\<lambda>_. []),
     re_httpsOthers = (\<lambda>_. []), re_tcpmuxOthers = (\<lambda>_. [])\<rparr>"

definition demo_login :: Login where
  "demo_login = \<lparr>sg_Timestamp = 0, sg_PrivilegeKey = [], lg_Version = [], lg_Hostname = [], lg_Os = [], lg_Arch = [],
     lg_User = ''u'', lg_RunID = ''r1'', lg_ClientID = [], lg_Metas = [], lg_AlwaysAuthPass = False, lg_PoolCount = 1\<rparr>"

definition demo_ctl :: "nat Control" where
  "demo_ctl = \<lparr>ctl_runID = ''r1'', ctl_login = demo_login, ctl_verifier = AlwaysPassVerifier, ctl_workConnCh = [], ctl_workConnCap = 11,
     ctl_chanClosed = False, ctl_proxies = [], ctl_poolCount = 1, ctl_portsUsedNum = 0, ctl_lastPing = 0, ctl_connClosed = False,
     ctl_done = False\<rparr>"

definition demo_msg :: "string \<Rightarrow> string \<Rightarrow> int \<Rightarrow> NewProxy" where
  "demo_msg type name port = zero_msg\<lparr>np_ProxyName := name, np_ProxyType := type, np_RemotePort := port\<rparr>"

lemma demo_rc_ok: "rc_ok (ss_rc demo_st)" "run_ok demo_run_env (ss_rc demo_st)"
proof -
  have inv: "pm_inv two_ports" by (simp add: two_ports_def NewPortManager_inv)
  have z: "0 \<notin> allowed two_ports" by (simp add: allowed_def port_eval)
  have o1: "os_ok demo_tcp_env two_ports" by (simp add: os_ok_def demo_tcp_env_def port_eval)
  have o2: "os_ok (udp_os demo_udp_env) two_ports" by (simp add: os_ok_def udp_os_def demo_udp_env_def port_eval)
  note sh = demo_st_def demo_rc_def NewTCPGroupCtl_def newGroupRegistry_def NewHTTPGroupController_def
    NewHTTPSGroupController_def NewTCPMuxGroupCtl_def
  show "rc_ok (ss_rc demo_st)" using inv by (simp add: rc_ok_def sh NewRouters_inv NewMuxer_inv)
  show "run_ok demo_run_env (ss_rc demo_st)" using z o1 o2 by (simp add: run_ok_def sh demo_run_env_def)
qed

lemma demo_begin:
  "\<exists>p ctl' st'. register_begin (\<lambda>_ _. None) (\<lambda>_. []) demo_server_cfg demo_run_env (demo_msg ''tcp'' ''web'' 6001) demo_ctl demo_st
     = Some (ok ('':6001'', p), ctl', st')"
proof -
  have c: "NewProxyConfigurerFromMsg (\<lambda>_ _. None) (\<lambda>_. []) (demo_msg ''tcp'' ''web'' 6001) demo_server_cfg
      = ok (TCPConf (ProxyBaseConfig.extend (base_view (zero_base\<lparr>pb_Name := ''web'', pb_Type := ''tcp'',
           pb_Transport := (pb_Transport zero_base)\<lparr>pt_BandwidthLimitMode := ''client''\<rparr>\<rparr>)) (TCPProxyConfig.fields 6001)))"
    by code_simp
  have m: "np_ProxyName (demo_msg ''tcp'' ''web'' 6001) = ''web''" by (simp add: demo_msg_def zero_msg_def)
  have d: "digit_char 6 = CHR ''6''" "digit_char 0 = CHR ''0''" "digit_char (Suc 0) = CHR ''1''" by code_simp+
  have a: "port_addr 6001 = '':6001''" by (simp add: port_addr_def itoa_def nat_string.simps d)
  show ?thesis unfolding register_begin_def c m
    by (simp add: demo_server_cfg_def demo_ctl_def demo_login_def demo_st_def demo_rc_def demo_run_env_def demo_tcp_env_def
        pxys_Exist_def tcp_usedPortsNum_def NewTCPProxy_def TCPProxy_Run_def
        NewTCPGroupCtl_def newGroupRegistry_def base_view_def zero_base_def ProxyBaseConfig.defs TCPProxyConfig.defs
        a port_eval Let_def)
qed

theorem RegisterProxy_all_or_nothing_witness:
  "\<exists>ctl' st' st''. RegisterProxy (\<lambda>_ _. None) (\<lambda>_. []) demo_server_cfg demo_run_env id (demo_msg ''tcp'' ''web'' 6001) demo_ctl demo_st
       = Some (ok '':6001'', ctl', st')
     \<and> CloseProxy demo_server_cfg 9 ''web'' ctl' st' = Some (demo_ctl, st'') \<and> in_use (ss_rc st'') = in_use demo_rc"
proof -
  let ?m = "demo_msg ''tcp'' ''web'' 6001"
  have m: "np_Group ?m = []" "np_ProxyName ?m = ''web''" by (simp_all add: demo_msg_def zero_msg_def)
  have own: "fst ` set (ctl_proxies demo_ctl) \<subseteq> dom (ss_pxys demo_st)" by (simp add: demo_ctl_def)
  obtain p ctl1 st1 where b: "register_begin (\<lambda>_ _. None) (\<lambda>_. []) demo_server_cfg demo_run_env ?m demo_ctl demo_st
      = Some (ok ('':6001'', p), ctl1, st1)"
    using demo_begin by blast
  have "ss_pxys st1 = Map.empty" using register_begin_ok(2) [OF b] by (simp add: demo_st_def)
  then obtain ctl' st' where R: "RegisterProxy (\<lambda>_ _. None) (\<lambda>_. []) demo_server_cfg demo_run_env id ?m demo_ctl demo_st = Some (ok '':6001'', ctl', st')"
    using b by (simp add: RegisterProxy_def register_commit_def pxys_Add_def)
  from RegisterProxy_all_or_nothing [OF demo_rc_ok m(1) own, of "\<lambda>_ _. None" "\<lambda>_. []" demo_server_cfg 9] R show ?thesis
    by (auto simp: m(2) demo_st_def)
qed

theorem work_conns_fifo_witness:
  "let ctl = snd (RegisterWorkConn 8 (snd (RegisterWorkConn (7::nat) demo_ctl)))
   in [7, 8] = [7] @ ctl_workConnCh (fst (snd (GetWorkConn True None ctl)))"
proof -
  define c1 where "c1 = snd (RegisterWorkConn (7::nat) demo_ctl)"
  define c2 where "c2 = snd (RegisterWorkConn 8 c1)"
  have r1: "RegisterWorkConn 7 demo_ctl = (None, c1)" by (simp add: c1_def RegisterWorkConn_def demo_ctl_def)
  have r2: "RegisterWorkConn 8 c1 = (None, c2)" by (simp add: c1_def c2_def RegisterWorkConn_def demo_ctl_def)
  have g: "GetWorkConn True None c2 = (ok 7, fst (snd (GetWorkConn True None c2)), [ReqWorkConn])"
    by (simp add: c1_def c2_def RegisterWorkConn_def demo_ctl_def GetWorkConn_def receive_def)
  have "wc_run demo_ctl ([] @ [7]) [] c1" by (rule wc_run.accepted [OF wc_run.start r1])
  then have "wc_run demo_ctl (([] @ [7]) @ [8]) [] c2" using r2 by (rule wc_run.accepted)
  then have w: "wc_run demo_ctl (([] @ [7]) @ [8]) ([] @ [7]) (fst (snd (GetWorkConn True None c2)))" using g by (rule wc_run.pooled)
  from work_conns_fifo [OF w] show ?thesis by (simp add: demo_ctl_def c1_def c2_def Let_def)
qed

end
