(* ===== verification/Server_Sessions.thy ===== *)
theory Server_Sessions
  imports Server_Control
begin

text \<open>
  All controls of frps at work on the shared proxy manager and the shared resources
  (\<^verbatim>\<open>server/control.go\<close>). The steps are the critical sections of the handlers: between the first
  and the second part of a registration, and between the closing of two proxies of a control
  that ends, the other controls may do anything. The theorems are about every interleaving:
  who owns a proxy name, what one control can do to another, and the quota of ports of a
  client.
\<close>

section \<open>The system\<close>

text \<open>\<open>srv_pending\<close> is a proxy that runs but is not yet added, \<open>srv_ending\<close> the proxies that the worker of a
  control took over and has not closed yet.\<close>

record 'c srv =
  srv_ctls :: "nat \<Rightarrow> 'c Control"
  srv_pending :: "nat \<Rightarrow> (string \<times> Proxy) option"
  srv_ending :: "nat \<Rightarrow> (string \<times> Proxy) list option"
  srv_st :: "'c server_state"

definition idle :: "'c srv \<Rightarrow> nat \<Rightarrow> bool" where
  "idle s c \<longleftrightarrow> srv_pending s c = None \<and> srv_ending s c = None \<and> \<not> ctl_done (srv_ctls s c)"

text \<open>What happens to a control besides its proxies.\<close>

inductive ctl_op :: "'c Control \<Rightarrow> 'c Control \<Rightarrow> bool" where
  work_conn: "RegisterWorkConn conn ctl = (r, ctl') \<Longrightarrow> ctl_op ctl ctl'"
| get_conn: "receive ctl = Some (r, ctl') \<Longrightarrow> ctl_op ctl ctl'"
| ping: "handlePing pm show_err sv now m ctl = (ctl', out) \<Longrightarrow> ctl_op ctl ctl'"
| beat: "ctl_op ctl (heartbeat sv now ctl)"
| replaced: "ctl_op ctl (Replaced ctl)"
| closed: "ctl_op ctl (control_Close ctl)"

inductive srv_step ::
  "(string \<Rightarrow> int \<Rightarrow> int option) \<Rightarrow> (string \<Rightarrow> string list) \<Rightarrow> ServerConfig \<Rightarrow> nat \<Rightarrow> 'c srv \<Rightarrow> 'c srv \<Rightarrow> bool"
  for scale :: "string \<Rightarrow> int \<Rightarrow> int option" and quals :: "string \<Rightarrow> string list" and sv :: ServerConfig where
  own_op: "ctl_op (srv_ctls s c) ctl' \<Longrightarrow> srv_step scale quals sv c s (s\<lparr>srv_ctls := (srv_ctls s)(c := ctl')\<rparr>)"
| begin_ok: "idle s c \<Longrightarrow> register_begin scale quals sv env m (srv_ctls s c) (srv_st s) = Some (ok (a, p), ctl', st')
    \<Longrightarrow> srv_step scale quals sv c s
          (s\<lparr>srv_ctls := (srv_ctls s)(c := ctl'), srv_pending := (srv_pending s)(c \<mapsto> (np_ProxyName m, p)), srv_st := st'\<rparr>)"
| begin_err: "idle s c \<Longrightarrow> register_begin scale quals sv env m (srv_ctls s c) (srv_st s) = Some (err e, ctl', st')
    \<Longrightarrow> srv_step scale quals sv c s (s\<lparr>srv_ctls := (srv_ctls s)(c := ctl'), srv_st := st'\<rparr>)"
| commit: "srv_pending s c = Some (n, p) \<Longrightarrow> register_commit sv now n p (srv_ctls s c) (srv_st s) = Some (res, ctl', st')
    \<Longrightarrow> srv_step scale quals sv c s
          (s\<lparr>srv_ctls := (srv_ctls s)(c := ctl'), srv_pending := (srv_pending s)(c := None), srv_st := st'\<rparr>)"
| close: "idle s c \<Longrightarrow> CloseProxy sv now n (srv_ctls s c) (srv_st s) = Some (ctl', st')
    \<Longrightarrow> srv_step scale quals sv c s (s\<lparr>srv_ctls := (srv_ctls s)(c := ctl'), srv_st := st'\<rparr>)"
| end_begin: "idle s c \<Longrightarrow> worker_begin (srv_ctls s c) = (conns, ps, ctl')
    \<Longrightarrow> srv_step scale quals sv c s (s\<lparr>srv_ctls := (srv_ctls s)(c := ctl'), srv_ending := (srv_ending s)(c \<mapsto> ps)\<rparr>)"
| end_proxy: "srv_ending s c = Some ((n, p) # ps) \<Longrightarrow> closeProxy now p (srv_st s) = Some st'
    \<Longrightarrow> srv_step scale quals sv c s (s\<lparr>srv_ending := (srv_ending s)(c \<mapsto> ps), srv_st := st'\<rparr>)"
| end_finish: "srv_ending s c = Some [] \<Longrightarrow> worker_finish now (srv_ctls s c) (srv_st s) = (ctl', st')
    \<Longrightarrow> srv_step scale quals sv c s
          (s\<lparr>srv_ctls := (srv_ctls s)(c := ctl'), srv_ending := (srv_ending s)(c := None), srv_st := st'\<rparr>)"

text \<open>At the start no control has proxies.\<close>

definition srv_start :: "'c srv \<Rightarrow> bool" where
  "srv_start s \<longleftrightarrow> (\<forall>c. ctl_proxies (srv_ctls s c) = [] \<and> ctl_portsUsedNum (srv_ctls s c) = 0 \<and> \<not> ctl_done (srv_ctls s c)
     \<and> srv_pending s c = None \<and> srv_ending s c = None) \<and> ss_pxys (srv_st s) = Map.empty"

inductive srv_reach ::
  "(string \<Rightarrow> int \<Rightarrow> int option) \<Rightarrow> (string \<Rightarrow> string list) \<Rightarrow> ServerConfig \<Rightarrow> 'c srv \<Rightarrow> bool"
  for scale :: "string \<Rightarrow> int \<Rightarrow> int option" and quals :: "string \<Rightarrow> string list" and sv :: ServerConfig where
  start: "srv_start s \<Longrightarrow> srv_reach scale quals sv s"
| step: "srv_reach scale quals sv s \<Longrightarrow> srv_step scale quals sv c s s' \<Longrightarrow> srv_reach scale quals sv s'"

section \<open>Tables and owners\<close>

text \<open>A table and the parts of it that owners hold.\<close>

definition owns :: "('n \<rightharpoonup> 'p) \<Rightarrow> (nat \<Rightarrow> ('n \<times> 'p) list) \<Rightarrow> bool" where
  "owns T H \<longleftrightarrow> (\<forall>c. distinct (map fst (H c))) \<and> (\<forall>c n p. (n, p) \<in> set (H c) \<longrightarrow> T n = Some p)
     \<and> (\<forall>n p. T n = Some p \<longrightarrow> (\<exists>c. (n, p) \<in> set (H c)))
     \<and> (\<forall>c c' n p p'. (n, p) \<in> set (H c) \<longrightarrow> (n, p') \<in> set (H c') \<longrightarrow> c = c')"

lemma ownsD:
  assumes "owns T H"
  shows "distinct (map fst (H c))" "(n, p) \<in> set (H c) \<Longrightarrow> T n = Some p" "T n = Some p \<Longrightarrow> \<exists>c. (n, p) \<in> set (H c)"
    "(n, p) \<in> set (H c) \<Longrightarrow> (n, p') \<in> set (H c') \<Longrightarrow> c = c'"
  using assms unfolding owns_def by (blast+)

lemma owns_add:
  assumes own: "owns T H" and free: "T n = None"
  shows "owns (T(n \<mapsto> p)) (H(c := H c @ [(n, p)]))"
proof -
  have no: "(n, q) \<notin> set (H d)" for d q using ownsD(2) [OF own, of n q d] free by auto
  then have fresh: "n \<notin> fst ` set (H c)" by auto
  have mem: "(k, q) \<in> set ((H(c := H c @ [(n, p)])) d) \<longleftrightarrow> (k, q) \<in> set (H d) \<or> d = c \<and> (k, q) = (n, p)" for k q d
    by (cases "d = c") auto
  show ?thesis unfolding owns_def mem
  proof (intro conjI allI impI)
    fix d show "distinct (map fst ((H(c := H c @ [(n, p)])) d))"
      using ownsD(1) [OF own, of d] fresh by (cases "d = c") auto
  next
    fix d k q assume "(k, q) \<in> set (H d) \<or> d = c \<and> (k, q) = (n, p)"
    then show "(T(n \<mapsto> p)) k = Some q" using no [of q d] ownsD(2) [OF own, of k q d] by auto
  next
    fix k q assume "(T(n \<mapsto> p)) k = Some q"
    then show "\<exists>d. (k, q) \<in> set (H d) \<or> d = c \<and> (k, q) = (n, p)"
      using ownsD(3) [OF own, of k q] by (cases "k = n") auto
  next
    fix d d' k q q'
    assume "(k, q) \<in> set (H d) \<or> d = c \<and> (k, q) = (n, p)" "(k, q') \<in> set (H d') \<or> d' = c \<and> (k, q') = (n, p)"
    then show "d = d'" using no ownsD(4) [OF own, of k q d q' d'] by auto
  qed
qed

lemma owns_del:
  assumes own: "owns T H" and n: "(n, p) \<in> set (H c)"
  shows "owns (T(n := None)) (H(c := map_delete n (H c)))"
proof -
  have no: "(n, q) \<notin> set (H d)" if "d \<noteq> c" for d q using ownsD(4) [OF own n, of q d] that by auto
  have mem: "(k, q) \<in> set ((H(c := map_delete n (H c))) d) \<longleftrightarrow> (k, q) \<in> set (H d) \<and> k \<noteq> n" for k q d
    using no [of d q] by (cases "d = c") (auto simp: map_delete_def)
  show ?thesis unfolding owns_def mem
  proof (intro conjI allI impI)
    fix d show "distinct (map fst ((H(c := map_delete n (H c))) d))"
      using ownsD(1) [OF own, of d] by (cases "d = c") (simp_all add: distinct_map_delete)
  next
    fix d k q assume "(k, q) \<in> set (H d) \<and> k \<noteq> n"
    then show "(T(n := None)) k = Some q" using ownsD(2) [OF own, of k q d] by auto
  next
    fix k q assume "(T(n := None)) k = Some q"
    then show "\<exists>d. (k, q) \<in> set (H d) \<and> k \<noteq> n"
      using ownsD(3) [OF own, of k q] by (cases "k = n") auto
  next
    fix d d' k q q'
    assume "(k, q) \<in> set (H d) \<and> k \<noteq> n" "(k, q') \<in> set (H d') \<and> k \<noteq> n"
    then show "d = d'" using ownsD(4) [OF own, of k q d q' d'] by auto
  qed
qed

lemma map_delete_hd: "distinct (map fst ((n, p) # ps)) \<Longrightarrow> map_delete n ((n, p) # ps) = ps"
  by (auto simp: map_delete_def filter_id_conv)

section \<open>The invariant\<close>

definition holds :: "'c srv \<Rightarrow> nat \<Rightarrow> (string \<times> Proxy) list" where
  "holds s c = ctl_proxies (srv_ctls s c) @ (case srv_ending s c of None \<Rightarrow> [] | Some ps \<Rightarrow> ps)"

definition ports_used :: "(string \<times> Proxy) list \<Rightarrow> int" where
  "ports_used ps = sum_list (map (\<lambda>(n, p). GetUsedPortsNum p) ps)"

lemma ports_used_simps [simp]:
  "ports_used [] = 0" "ports_used (ps @ qs) = ports_used ps + ports_used qs"
  "ports_used ((n, p) # ps) = GetUsedPortsNum p + ports_used ps"
  by (simp_all add: ports_used_def)

lemma ports_used_delete:
  assumes "distinct (map fst ps)" and "map_of ps n = Some p"
  shows "ports_used (map_delete n ps) = ports_used ps - GetUsedPortsNum p"
  using assms
proof (induction ps)
  case (Cons x ps)
  obtain k q where x: "x = (k, q)" by fastforce
  show ?case
  proof (cases "k = n")
    case True
    then show ?thesis using Cons.prems map_delete_hd [of n q ps] by (simp add: x)
  next
    case False
    then show ?thesis using Cons by (simp add: x map_delete_def)
  qed
qed simp

definition ctl_quota :: "ServerConfig \<Rightarrow> 'c srv \<Rightarrow> nat \<Rightarrow> bool" where
  "ctl_quota sv s c \<longleftrightarrow> ctl_portsUsedNum (srv_ctls s c) = ports_used (ctl_proxies (srv_ctls s c))
         + (case srv_pending s c of None \<Rightarrow> 0 | Some (n, p) \<Rightarrow> GetUsedPortsNum p)
     \<and> ctl_portsUsedNum (srv_ctls s c) \<le> sv_MaxPortsPerClient sv"

definition ctl_wf :: "ServerConfig \<Rightarrow> 'c srv \<Rightarrow> nat \<Rightarrow> bool" where
  "ctl_wf sv s c \<longleftrightarrow> (\<forall>(n, p) \<in> set (holds s c). GetName p = n)
     \<and> (\<forall>n p. srv_pending s c = Some (n, p) \<longrightarrow> GetName p = n \<and> srv_ending s c = None \<and> \<not> ctl_done (srv_ctls s c))
     \<and> (srv_ending s c \<noteq> None \<longrightarrow> ctl_proxies (srv_ctls s c) = [] \<and> \<not> ctl_done (srv_ctls s c))
     \<and> (ctl_done (srv_ctls s c) \<longrightarrow> holds s c = [])
     \<and> (sv_MaxPortsPerClient sv > 0 \<and> srv_ending s c = None \<and> \<not> ctl_done (srv_ctls s c) \<longrightarrow> ctl_quota sv s c)"

definition srv_inv :: "ServerConfig \<Rightarrow> 'c srv \<Rightarrow> bool" where
  "srv_inv sv s \<longleftrightarrow> owns (ss_pxys (srv_st s)) (holds s) \<and> (\<forall>c. ctl_wf sv s c)"

text \<open>The well-formedness of a control depends only on its own part of the system.\<close>

lemma ctl_wf_other:
  "srv_ctls s' c = srv_ctls s c \<Longrightarrow> srv_pending s' c = srv_pending s c \<Longrightarrow> srv_ending s' c = srv_ending s c
   \<Longrightarrow> ctl_wf sv s' c = ctl_wf sv s c"
  by (simp add: ctl_wf_def ctl_quota_def holds_def)

lemma srv_inv_local:
  assumes "srv_inv sv s" and "ctl_wf sv s' c" and "owns (ss_pxys (srv_st s')) ((holds s)(c := holds s' c))"
    and "\<And>d. d \<noteq> c \<Longrightarrow> srv_ctls s' d = srv_ctls s d \<and> srv_pending s' d = srv_pending s d \<and> srv_ending s' d = srv_ending s d"
  shows "srv_inv sv s'"
proof -
  have "holds s' = (holds s)(c := holds s' c)" using assms(4) by (simp add: fun_eq_iff holds_def)
  then have "owns (ss_pxys (srv_st s')) (holds s')" using assms(3) by simp
  moreover have "ctl_wf sv s' d" for d
    using assms ctl_wf_other [of s' d s] by (cases "d = c") (auto simp: srv_inv_def)
  ultimately show ?thesis by (simp add: srv_inv_def)
qed

lemma srv_inv_same:
  assumes "srv_inv sv s" and "ctl_wf sv s' c" and "ss_pxys (srv_st s') = ss_pxys (srv_st s)" and "holds s' c = holds s c"
    and "\<And>d. d \<noteq> c \<Longrightarrow> srv_ctls s' d = srv_ctls s d \<and> srv_pending s' d = srv_pending s d \<and> srv_ending s' d = srv_ending s d"
  shows "srv_inv sv s'"
  using assms(1,2) _ assms(5) by (rule srv_inv_local) (use assms in \<open>simp_all add: srv_inv_def\<close>)

lemma ctl_op_frame:
  assumes "ctl_op ctl ctl'"
  shows "ctl_proxies ctl' = ctl_proxies ctl \<and> ctl_portsUsedNum ctl' = ctl_portsUsedNum ctl \<and> ctl_done ctl' = ctl_done ctl"
  using assms
  by cases (auto simp: RegisterWorkConn_def receive_def handlePing_def heartbeat_def Replaced_def control_Close_def Let_def
      split: if_splits list.splits sum.splits)

lemma srv_start_inv: "srv_start s \<Longrightarrow> srv_inv sv s"
  by (auto simp: srv_start_def srv_inv_def owns_def holds_def ctl_wf_def ctl_quota_def)

section \<open>Every step keeps the invariant\<close>

lemma register_commit_cases:
  assumes "register_commit sv now n p ctl st = Some (res, ctl', st')"
  shows "(ss_pxys st n \<noteq> None \<and> ctl' = give_back sv (GetUsedPortsNum p) ctl \<and> ss_pxys st' = ss_pxys st)
       \<or> (ss_pxys st n = None \<and> ctl' = ctl\<lparr>ctl_proxies := map_put (GetName p) p (ctl_proxies ctl)\<rparr> \<and> ss_pxys st' = (ss_pxys st)(n \<mapsto> p))"
  using assms by (auto simp: register_commit_def pxys_Add_def split: if_splits option.splits)

lemma closeProxy_pxys: "closeProxy now p st = Some st' \<Longrightarrow> ss_pxys st' = (ss_pxys st)(GetName p := None)"
  by (auto simp: closeProxy_def pxys_Del_def split: option.splits)

lemma CloseProxy_cases:
  assumes "CloseProxy sv now n ctl st = Some (ctl', st')"
  shows "(map_of (ctl_proxies ctl) n = None \<and> ctl' = ctl \<and> st' = st)
       \<or> (\<exists>p. map_of (ctl_proxies ctl) n = Some p \<and> ss_pxys st' = (ss_pxys st)(GetName p := None)
            \<and> ctl' = (give_back sv (GetUsedPortsNum p) ctl)\<lparr>ctl_proxies := map_delete n (ctl_proxies ctl)\<rparr>)"
  using assms by (auto simp: CloseProxy_def Let_def dest: closeProxy_pxys split: option.splits)

lemma idle_holds: "idle s c \<Longrightarrow> holds s c = ctl_proxies (srv_ctls s c)"
  by (simp add: idle_def holds_def)

lemma holds_wf: "srv_inv sv s \<Longrightarrow> ctl_wf sv s c"
  by (simp add: srv_inv_def)

lemma holds_name: "ctl_wf sv s c \<Longrightarrow> (n, p) \<in> set (holds s c) \<Longrightarrow> GetName p = n"
  by (auto simp: ctl_wf_def)

lemma commit_inv:
  assumes inv: "srv_inv sv s" and pend: "srv_pending s c = Some (n, p)"
    and com: "register_commit sv now n p (srv_ctls s c) (srv_st s) = Some (res, ctl', st')"
  shows "srv_inv sv (s\<lparr>srv_ctls := (srv_ctls s)(c := ctl'), srv_pending := (srv_pending s)(c := None), srv_st := st'\<rparr>)"
    (is "srv_inv sv ?s'")
proof -
  let ?ctl = "srv_ctls s c"
  have P: "GetName p = n" "srv_ending s c = None" "\<not> ctl_done ?ctl"
    using holds_wf [OF inv, of c] pend by (auto simp: ctl_wf_def)
  have h: "holds s c = ctl_proxies ?ctl" by (simp add: holds_def P(2))
  have Q: "sv_MaxPortsPerClient sv > 0 \<Longrightarrow> ctl_quota sv s c" and nm: "\<forall>(n, p) \<in> set (holds s c). GetName p = n"
    using holds_wf [OF inv, of c] P by (auto simp: ctl_wf_def)
  from register_commit_cases [OF com] show ?thesis
  proof (elim disjE conjE)
    assume a: "ctl' = give_back sv (GetUsedPortsNum p) ?ctl" "ss_pxys st' = ss_pxys (srv_st s)"
    have "0 \<le> GetUsedPortsNum p" by (cases p) (simp_all add: tcp_usedPortsNum_def udp_usedPortsNum_def)
    then have "ctl_wf sv ?s' c" using Q nm P pend a
      by (auto simp: ctl_wf_def ctl_quota_def holds_def give_back_def)
    then show ?thesis by (rule srv_inv_same [OF inv]) (use a in \<open>simp_all add: holds_def give_back_def\<close>)
  next
    assume a: "ss_pxys (srv_st s) n = None" "ctl' = ?ctl\<lparr>ctl_proxies := map_put (GetName p) p (ctl_proxies ?ctl)\<rparr>"
      "ss_pxys st' = (ss_pxys (srv_st s))(n \<mapsto> p)"
    have own: "owns (ss_pxys (srv_st s)) (holds s)" using inv by (simp add: srv_inv_def)
    have "n \<notin> fst ` set (ctl_proxies ?ctl)" using ownsD(2) [OF own, of n _ c] a(1) by (auto simp: h)
    then have put: "map_put n p (ctl_proxies ?ctl) = ctl_proxies ?ctl @ [(n, p)]" by (rule map_put_new)
    have h': "holds ?s' c = holds s c @ [(n, p)]" using put P by (simp add: a(2) holds_def)
    have "ctl_wf sv ?s' c" using Q nm P pend a(2) put h'
      by (auto simp: ctl_wf_def ctl_quota_def)
    then show ?thesis
      by (rule srv_inv_local [OF inv]) (use a(3) owns_add [OF own a(1), of p c] h' in \<open>simp_all\<close>)
  qed
qed

lemma close_inv:
  assumes inv: "srv_inv sv s" and idle: "idle s c"
    and cl: "CloseProxy sv now n (srv_ctls s c) (srv_st s) = Some (ctl', st')"
  shows "srv_inv sv (s\<lparr>srv_ctls := (srv_ctls s)(c := ctl'), srv_st := st'\<rparr>)" (is "srv_inv sv ?s'")
proof -
  let ?ctl = "srv_ctls s c"
  note h = idle_holds [OF idle]
  have own: "owns (ss_pxys (srv_st s)) (holds s)" using inv by (simp add: srv_inv_def)
  have W: "ctl_wf sv s c" by (rule holds_wf [OF inv])
  from CloseProxy_cases [OF cl] show ?thesis
  proof (elim disjE conjE exE)
    assume "ctl' = ?ctl" "st' = srv_st s"
    then show ?thesis using inv by (simp add: fun_upd_idem)
  next
    fix p assume a: "map_of (ctl_proxies ?ctl) n = Some p" "ss_pxys st' = (ss_pxys (srv_st s))(GetName p := None)"
      "ctl' = (give_back sv (GetUsedPortsNum p) ?ctl)\<lparr>ctl_proxies := map_delete n (ctl_proxies ?ctl)\<rparr>"
    have np: "(n, p) \<in> set (holds s c)" using a(1) by (simp add: h map_of_SomeD)
    have nm: "GetName p = n" using W np by (rule holds_name)
    have h': "holds ?s' c = map_delete n (holds s c)" using idle by (simp add: a(3) holds_def idle_def)
    have u: "ports_used (map_delete n (ctl_proxies ?ctl)) = ports_used (ctl_proxies ?ctl) - GetUsedPortsNum p"
      using ports_used_delete [OF _ a(1)] ownsD(1) [OF own, of c] by (simp add: h)
    have pos: "0 \<le> GetUsedPortsNum p" by (cases p) (simp_all add: tcp_usedPortsNum_def udp_usedPortsNum_def)
    have "ctl_wf sv ?s' c" using W idle u pos unfolding ctl_wf_def h'
      by (auto simp: a(3) ctl_quota_def idle_def give_back_def h map_delete_def)
    then show ?thesis
      by (rule srv_inv_local [OF inv]) (use a(2) owns_del [OF own np] h' nm in \<open>simp_all\<close>)
  qed
qed

lemma begin_inv:
  assumes inv: "srv_inv sv s" and idle: "idle s c"
    and beg: "register_begin scale quals sv env m (srv_ctls s c) (srv_st s) = Some (ok (a, p), ctl', st')"
  shows "srv_inv sv (s\<lparr>srv_ctls := (srv_ctls s)(c := ctl'), srv_pending := (srv_pending s)(c \<mapsto> (np_ProxyName m, p)), srv_st := st'\<rparr>)"
    (is "srv_inv sv ?s'")
proof -
  note K = register_begin_ok [OF beg]
  have W: "ctl_wf sv s c" by (rule holds_wf [OF inv])
  have h': "holds ?s' c = holds s c" by (simp add: holds_def K(5))
  have "ctl_wf sv ?s' c" using W idle K(1,5,6) unfolding ctl_wf_def h'
    by (auto simp: ctl_quota_def idle_def)
  then show ?thesis by (rule srv_inv_same [OF inv]) (use K(2) h' in simp_all)
qed

lemma ending_inv:
  assumes inv: "srv_inv sv s" and e: "srv_ending s c = Some ((n, p) # ps)" and cl: "closeProxy now p (srv_st s) = Some st'"
  shows "srv_inv sv (s\<lparr>srv_ending := (srv_ending s)(c \<mapsto> ps), srv_st := st'\<rparr>)" (is "srv_inv sv ?s'")
proof -
  have own: "owns (ss_pxys (srv_st s)) (holds s)" using inv by (simp add: srv_inv_def)
  have W: "ctl_wf sv s c" by (rule holds_wf [OF inv])
  have h: "holds s c = (n, p) # ps" using W e by (auto simp: holds_def ctl_wf_def)
  have h': "holds ?s' c = ps" using W e by (auto simp: holds_def ctl_wf_def)
  have nm: "GetName p = n" using holds_name [OF W, of n p] h by simp
  have d: "map_delete n (holds s c) = ps" using ownsD(1) [OF own, of c] map_delete_hd [of n p ps] by (simp add: h)
  have "ctl_wf sv ?s' c" using W e h' unfolding ctl_wf_def h by auto
  then show ?thesis
    by (rule srv_inv_local [OF inv]) (use owns_del [OF own, of n p c] closeProxy_pxys [OF cl] nm d h h' in \<open>simp_all\<close>)
qed

lemma srv_step_inv: "srv_step scale quals sv c s s' \<Longrightarrow> srv_inv sv s \<Longrightarrow> srv_inv sv s'"
proof (induction rule: srv_step.induct)
  case (own_op s c ctl')
  note F = ctl_op_frame [OF own_op(1)] and W = holds_wf [OF own_op(2), of c]
  let ?s' = "s\<lparr>srv_ctls := (srv_ctls s)(c := ctl')\<rparr>"
  have h: "holds ?s' c = holds s c" using F by (simp add: holds_def)
  have "ctl_wf sv ?s' c" using W F unfolding ctl_wf_def h by (auto simp: ctl_quota_def)
  then show ?case by (rule srv_inv_same [OF own_op(2)]) (use h in simp_all)
next
  case (begin_ok s c env m a p ctl' st')
  from begin_inv [OF begin_ok(3,1,2)] show ?case .
next
  case (begin_err s c env m e ctl' st')
  note E = register_begin_err [OF begin_err(2)] and W = holds_wf [OF begin_err(3), of c]
  have "ctl_wf sv (s\<lparr>srv_ctls := (srv_ctls s)(c := ctl'), srv_st := st'\<rparr>) c"
    using W by (subst ctl_wf_other [where s = s]) (simp_all add: E(1))
  then show ?case by (rule srv_inv_same [OF begin_err(3)]) (use E in \<open>simp_all add: holds_def\<close>)
next
  case (commit s c n p now res ctl' st')
  from commit_inv [OF commit(3,1,2)] show ?case .
next
  case (close s c now n ctl' st')
  from close_inv [OF close(3,1,2)] show ?case .
next
  case (end_begin s c conns ps ctl')
  note W = holds_wf [OF end_begin(3), of c]
  let ?s' = "s\<lparr>srv_ctls := (srv_ctls s)(c := ctl'), srv_ending := (srv_ending s)(c \<mapsto> ps)\<rparr>"
  have h: "holds ?s' c = holds s c" using end_begin(1,2) by (auto simp: worker_begin_def holds_def idle_def)
  have "ctl_wf sv ?s' c" using W end_begin(1,2) unfolding ctl_wf_def h by (auto simp: worker_begin_def idle_def)
  then show ?case by (rule srv_inv_same [OF end_begin(3)]) (use h in simp_all)
next
  case (end_proxy s c n p ps now st')
  from ending_inv [OF end_proxy(3,1,2)] show ?case .
next
  case (end_finish s c now ctl' st')
  note W = holds_wf [OF end_finish(3), of c]
  let ?s' = "s\<lparr>srv_ctls := (srv_ctls s)(c := ctl'), srv_ending := (srv_ending s)(c := None), srv_st := st'\<rparr>"
  have h: "holds ?s' c = holds s c" "holds s c = []" using W end_finish(1,2) by (auto simp: worker_finish_def holds_def ctl_wf_def)
  have "ctl_wf sv ?s' c" using W end_finish(1,2) unfolding ctl_wf_def h by (auto simp: worker_finish_def)
  then show ?case by (rule srv_inv_same [OF end_finish(3)]) (use h end_finish(2) in \<open>auto simp: worker_finish_def\<close>)
qed

lemma srv_reach_inv: "srv_reach scale quals sv s \<Longrightarrow> srv_inv sv s"
  by (induction rule: srv_reach.induct) (auto intro: srv_start_inv srv_step_inv)

section \<open>Ownership, isolation and quota\<close>

text \<open>C1. In every reachable state the proxy manager has a proxy under a name exactly if exactly one control
  holds it, as one of its proxies or as one that it is closing; the proxy has the name it is
  registered under, no control holds a name twice, and a control that ended holds nothing.\<close>

theorem proxy_ownership:
  assumes "srv_reach scale quals sv s"
  shows "(ss_pxys (srv_st s) n = Some p \<longleftrightarrow> (\<exists>!c. (n, p) \<in> set (holds s c)))
    \<and> (ss_pxys (srv_st s) n = Some p \<longrightarrow> GetName p = n)
    \<and> distinct (map fst (holds s c)) \<and> (ctl_done (srv_ctls s c) \<longrightarrow> holds s c = [])"
proof -
  have inv: "srv_inv sv s" using assms by (rule srv_reach_inv)
  then have own: "owns (ss_pxys (srv_st s)) (holds s)" by (simp add: srv_inv_def)
  have iff: "ss_pxys (srv_st s) n = Some p \<longleftrightarrow> (\<exists>!c. (n, p) \<in> set (holds s c))"
    using ownsD(2-4) [OF own] by blast
  moreover have "GetName p = n" if "ss_pxys (srv_st s) n = Some p"
    using ownsD(3) [OF own that] holds_name [OF holds_wf [OF inv]] by blast
  moreover have "ctl_done (srv_ctls s c) \<longrightarrow> holds s c = []" using holds_wf [OF inv, of c] by (simp add: ctl_wf_def)
  ultimately show ?thesis using ownsD(1) [OF own, of c] by blast
qed

lemma srv_step_other:
  assumes "srv_step scale quals sv c s s'" and "d \<noteq> c"
  shows "holds s' d = holds s d"
  using assms by cases (simp_all add: holds_def)

text \<open>C6. Nothing that one control does takes a proxy from another control: whatever step control \<open>c\<close>
  makes, also closing a proxy under the name of another control's proxy, ending, or failing to register such
  a name, the other control holds what it held and the proxy manager still has it.\<close>

theorem controls_isolated:
  assumes reach: "srv_reach scale quals sv s" and step: "srv_step scale quals sv c s s'" and "d \<noteq> c"
    and held: "(n, p) \<in> set (holds s d)"
  shows "holds s' d = holds s d \<and> ss_pxys (srv_st s') n = Some p"
proof -
  have "srv_inv sv s'" using reach step by (blast intro: srv_reach_inv srv_reach.step)
  then have own: "owns (ss_pxys (srv_st s')) (holds s')" by (simp add: srv_inv_def)
  have h: "holds s' d = holds s d" using step \<open>d \<noteq> c\<close> by (rule srv_step_other)
  then show ?thesis using ownsD(2) [OF own, of n p d] held by simp
qed

text \<open>C7. With a limit of ports per client, a control that is not ending counts exactly the ports of its
  proxies and of the registration under way, and never more than the limit.\<close>

theorem ports_quota:
  assumes reach: "srv_reach scale quals sv s" and limit: "sv_MaxPortsPerClient sv > 0"
    and live: "srv_ending s c = None" "\<not> ctl_done (srv_ctls s c)"
  shows "ctl_portsUsedNum (srv_ctls s c) = ports_used (ctl_proxies (srv_ctls s c))
         + (case srv_pending s c of None \<Rightarrow> 0 | Some (n, p) \<Rightarrow> GetUsedPortsNum p)
     \<and> ctl_portsUsedNum (srv_ctls s c) \<le> sv_MaxPortsPerClient sv"
  using holds_wf [OF srv_reach_inv [OF reach], of c] limit live by (simp add: ctl_wf_def ctl_quota_def)

section \<open>A reachable state with a proxy\<close>

definition demo_srv :: "nat srv" where
  "demo_srv = \<lparr>srv_ctls = (\<lambda>_. demo_ctl), srv_pending = (\<lambda>_. None), srv_ending = (\<lambda>_. None), srv_st = demo_st\<rparr>"

text \<open>Control 0 registers the proxy \<open>web\<close> while control 1 does nothing.\<close>

lemma demo_reach:
  "\<exists>s p. srv_reach (\<lambda>_ _. None) (\<lambda>_. []) demo_server_cfg s \<and> ss_pxys (srv_st s) ''web'' = Some p
     \<and> (''web'', p) \<in> set (holds s 0) \<and> srv_ctls s 1 = demo_ctl \<and> idle s 0 \<and> idle s 1"
proof -
  let ?m = "demo_msg ''tcp'' ''web'' 6001" and ?r = "srv_reach (\<lambda>_ _. None) (\<lambda>_. []) demo_server_cfg"
  obtain p ctl1 st1 where b: "register_begin (\<lambda>_ _. None) (\<lambda>_. []) demo_server_cfg demo_run_env ?m (srv_ctls demo_srv 0) (srv_st demo_srv)
      = Some (ok ('':6001'', p), ctl1, st1)"
    using demo_begin by (auto simp: demo_srv_def)
  note K = register_begin_ok [OF b]
  have m: "np_ProxyName ?m = ''web''" by (simp add: demo_msg_def zero_msg_def)
  have "srv_start demo_srv" by (simp add: srv_start_def demo_srv_def demo_ctl_def demo_st_def)
  then have r0: "?r demo_srv" by (rule srv_reach.start)
  have i0: "idle demo_srv 0" by (simp add: idle_def demo_srv_def demo_ctl_def)
  let ?s1 = "demo_srv\<lparr>srv_ctls := (srv_ctls demo_srv)(0 := ctl1), srv_pending := (srv_pending demo_srv)(0 \<mapsto> (np_ProxyName ?m, p)), srv_st := st1\<rparr>"
  have r1: "?r ?s1" using r0 srv_step.begin_ok [OF i0 b] by (rule srv_reach.step)
  have e: "ss_pxys st1 = Map.empty" using K(2) by (simp add: demo_srv_def demo_st_def)
  let ?ctl2 = "ctl1\<lparr>ctl_proxies := map_put (GetName p) p (ctl_proxies ctl1)\<rparr>"
  have c: "register_commit demo_server_cfg 0 ''web'' p (srv_ctls ?s1 0) (srv_st ?s1)
      = Some (ok (), ?ctl2, st1\<lparr>ss_pxys := [''web'' \<mapsto> p]\<rparr>)"
    by (simp add: register_commit_def pxys_Add_def e)
  have pe: "srv_pending ?s1 0 = Some (''web'', p)" by (simp add: m)
  let ?s2 = "?s1\<lparr>srv_ctls := (srv_ctls ?s1)(0 := ?ctl2), srv_pending := (srv_pending ?s1)(0 := None), srv_st := st1\<lparr>ss_pxys := [''web'' \<mapsto> p]\<rparr>\<rparr>"
  have r2: "?r ?s2" using r1 srv_step.commit [OF pe c] by (rule srv_reach.step)
  have p1: "ctl_proxies ctl1 = []" "\<not> ctl_done ctl1" using K(5) by (simp_all add: demo_srv_def demo_ctl_def)
  have "(''web'', p) \<in> set (holds ?s2 0)" using K(1) m p1 by (simp add: holds_def)
  moreover have "idle ?s2 0" "idle ?s2 1" using p1 by (simp_all add: idle_def demo_srv_def demo_ctl_def)
  ultimately show ?thesis using r2 by (intro exI [of _ ?s2] exI [of _ p]) (simp add: demo_srv_def)
qed

theorem proxy_ownership_witness:
  "\<exists>s p. srv_reach (\<lambda>_ _. None) (\<lambda>_. []) demo_server_cfg (s :: nat srv) \<and> ss_pxys (srv_st s) ''web'' = Some p
     \<and> (\<exists>!c. (''web'', p) \<in> set (holds s c)) \<and> GetName p = ''web''"
proof -
  obtain s :: "nat srv" and p where s: "srv_reach (\<lambda>_ _. None) (\<lambda>_. []) demo_server_cfg s" "ss_pxys (srv_st s) ''web'' = Some p"
    using demo_reach by blast
  with proxy_ownership [OF s(1), of "''web''" p] show ?thesis by blast
qed

theorem controls_isolated_witness:
  "\<exists>s s' p. srv_step (\<lambda>_ _. None) (\<lambda>_. []) demo_server_cfg 1 (s :: nat srv) s' \<and> (''web'', p) \<in> set (holds s 0)
     \<and> holds s' 0 = holds s 0 \<and> ss_pxys (srv_st s') ''web'' = Some p"
proof -
  obtain s :: "nat srv" and p where s: "srv_reach (\<lambda>_ _. None) (\<lambda>_. []) demo_server_cfg s" "(''web'', p) \<in> set (holds s 0)"
      "srv_ctls s 1 = demo_ctl" "idle s 1"
    using demo_reach by blast
  have "CloseProxy demo_server_cfg 5 ''web'' (srv_ctls s 1) (srv_st s) = Some (demo_ctl, srv_st s)"
    unfolding s(3) by (simp add: CloseProxy_def demo_ctl_def)
  from srv_step.close [OF s(4) this] have st: "srv_step (\<lambda>_ _. None) (\<lambda>_. []) demo_server_cfg 1 s
      (s\<lparr>srv_ctls := (srv_ctls s)(1 := demo_ctl), srv_st := srv_st s\<rparr>)" .
  from controls_isolated [OF s(1) st _ s(2)] st s(2) show ?thesis by (metis zero_neq_one)
qed

theorem ports_quota_witness:
  "\<exists>s. srv_reach (\<lambda>_ _. None) (\<lambda>_. []) demo_server_cfg (s :: nat srv) \<and> ctl_proxies (srv_ctls s 0) \<noteq> []
     \<and> ctl_portsUsedNum (srv_ctls s 0) = ports_used (ctl_proxies (srv_ctls s 0)) \<and> ctl_portsUsedNum (srv_ctls s 0) \<le> 2"
proof -
  obtain s :: "nat srv" and p where s: "srv_reach (\<lambda>_ _. None) (\<lambda>_. []) demo_server_cfg s" "(''web'', p) \<in> set (holds s 0)" "idle s 0"
    using demo_reach by blast
  have "sv_MaxPortsPerClient demo_server_cfg = 2" by (simp add: demo_server_cfg_def)
  with ports_quota [OF s(1), of 0] s(2,3) idle_holds [OF s(3)] show ?thesis by (intro exI [of _ s]) (auto simp: s(1) idle_def)
qed

end
