(* ===== verification/Session_Protocol.thy ===== *)
theory Session_Protocol
  imports Prelude
begin

text \<open>
  The protocol by which a new session of a run takes over from the old one, on its own: a table
  from run ids to the latest session, a phase per session, and a flag that a session is done.
  It is the specification that \<open>RegisterControl\<close> of \<^verbatim>\<open>server/service.go\<close> refines (theory
  \<open>Server_Service\<close>). Sessions are numbered in the order of their logins.
\<close>

datatype phase = Awaits nat | Ready | Running | Reaped | Rejected

record session_table =
  se_latest :: "string \<rightharpoonup> nat"
  se_run :: "nat \<Rightarrow> string"
  se_phase :: "nat \<Rightarrow> phase"
  se_done :: "nat \<Rightarrow> bool"
  se_next :: nat

definition over :: "session_table \<Rightarrow> nat \<Rightarrow> bool" where
  "over s i \<longleftrightarrow> se_phase s i = Rejected \<or> se_done s i"

definition forget :: "nat \<Rightarrow> session_table \<Rightarrow> string \<rightharpoonup> nat" where
  "forget i s = (if se_latest s (se_run s i) = Some i then (se_latest s)(se_run s i := None) else se_latest s)"

inductive se_step :: "session_table \<Rightarrow> session_table \<Rightarrow> bool" where
  login: "se_step s (s\<lparr>se_latest := (se_latest s)(r \<mapsto> se_next s), se_run := (se_run s)(se_next s := r),
      se_phase := (se_phase s)(se_next s := (case se_latest s r of None \<Rightarrow> Ready | Some j \<Rightarrow> Awaits j)), se_next := Suc (se_next s)\<rparr>)"
| wake: "i < se_next s \<Longrightarrow> se_phase s i = Awaits j \<Longrightarrow> se_done s j \<Longrightarrow> se_step s (s\<lparr>se_phase := (se_phase s)(i := Ready)\<rparr>)"
| run: "i < se_next s \<Longrightarrow> se_phase s i = Ready \<Longrightarrow> se_step s (s\<lparr>se_phase := (se_phase s)(i := Running)\<rparr>)"
| reject: "i < se_next s \<Longrightarrow> se_phase s i = Ready
    \<Longrightarrow> se_step s (s\<lparr>se_latest := forget i s, se_phase := (se_phase s)(i := Rejected)\<rparr>)"
| exit: "i < se_next s \<Longrightarrow> se_phase s i = Running \<Longrightarrow> se_step s (s\<lparr>se_done := (se_done s)(i := True)\<rparr>)"
| reap: "i < se_next s \<Longrightarrow> se_phase s i = Running \<Longrightarrow> se_done s i
    \<Longrightarrow> se_step s (s\<lparr>se_latest := forget i s, se_phase := (se_phase s)(i := Reaped)\<rparr>)"

section \<open>The invariant\<close>

definition predecessor :: "session_table \<Rightarrow> nat \<Rightarrow> nat \<Rightarrow> bool" where
  "predecessor s j i \<longleftrightarrow> j < i \<and> se_run s j = se_run s i \<and> (\<forall>k. j < k \<longrightarrow> k < i \<longrightarrow> se_run s k \<noteq> se_run s i)"

definition alone :: "session_table \<Rightarrow> nat \<Rightarrow> bool" where
  "alone s i \<longleftrightarrow> (\<forall>j<i. se_run s j = se_run s i \<longrightarrow> over s j)"

definition latest_ok :: "session_table \<Rightarrow> string \<Rightarrow> bool" where
  "latest_ok s r = (case se_latest s r of
     Some i \<Rightarrow> i < se_next s \<and> se_run s i = r \<and> (\<forall>j<se_next s. se_run s j = r \<longrightarrow> j \<le> i)
   | None \<Rightarrow> (\<forall>j<se_next s. se_run s j = r \<longrightarrow> over s j))"

definition sess_ok :: "session_table \<Rightarrow> nat \<Rightarrow> bool" where
  "sess_ok s i \<longleftrightarrow> (case se_phase s i of Awaits j \<Rightarrow> predecessor s j i | _ \<Rightarrow> alone s i)
     \<and> (se_done s i \<longrightarrow> se_phase s i = Running \<or> se_phase s i = Reaped)"

definition se_inv :: "session_table \<Rightarrow> bool" where
  "se_inv s \<longleftrightarrow> (\<forall>r. latest_ok s r) \<and> (\<forall>i<se_next s. sess_ok s i) \<and> (\<forall>i\<ge>se_next s. \<not> se_done s i)"

lemma over_mono:
  assumes "\<And>j. over s j \<Longrightarrow> over s' j" and "se_run s' = se_run s" and "alone s i"
  shows "alone s' i"
  using assms by (auto simp: alone_def)

lemma alone_after_predecessor:
  assumes "predecessor s j i" and "alone s j" and "over s j"
  shows "alone s i"
  using assms unfolding alone_def predecessor_def by (metis nat_neq_iff)

text \<open>Phase changes that only make more sessions be over keep the facts about the other sessions.\<close>

lemma sess_ok_frame:
  assumes "sess_ok s i" and "se_run s' = se_run s" and "se_phase s' i = se_phase s i" and "se_done s' i = se_done s i"
    and "\<And>j. over s j \<Longrightarrow> over s' j"
  shows "sess_ok s' i"
  using assms by (auto simp: sess_ok_def predecessor_def alone_def split: phase.splits)

lemma latest_ok_frame:
  assumes "latest_ok s r" and "se_run s' = se_run s" and "se_latest s' r = se_latest s r" and "se_next s' = se_next s"
    and "\<And>j. over s j \<Longrightarrow> over s' j"
  shows "latest_ok s' r"
  using assms by (auto simp: latest_ok_def split: option.splits)

lemma se_inv_local:
  assumes "se_inv s" and "i < se_next s" and "se_run s' = se_run s" and "se_next s' = se_next s" and "sess_ok s' i"
    and "\<And>j. j \<noteq> i \<Longrightarrow> se_phase s' j = se_phase s j \<and> se_done s' j = se_done s j"
    and "\<And>j. over s j \<Longrightarrow> over s' j" and "\<And>r. latest_ok s' r"
  shows "se_inv s'"
proof -
  have "sess_ok s' j" if "j < se_next s" for j
    using assms sess_ok_frame [of s j s'] that by (cases "j = i") (auto simp: se_inv_def)
  then show ?thesis using assms by (auto simp: se_inv_def)
qed

lemma latest_ok_forget:
  assumes "latest_ok s r" and "alone s i" and "i < se_next s" and "over s' i"
    and "se_run s' = se_run s" and "se_latest s' = forget i s" and "se_next s' = se_next s" and "\<And>j. over s j \<Longrightarrow> over s' j"
  shows "latest_ok s' r"
proof (cases "se_latest s r = Some i")
  case True
  then have "se_run s i = r" "\<forall>j<se_next s. se_run s j = r \<longrightarrow> j \<le> i" using assms(1) by (auto simp: latest_ok_def)
  then have "\<forall>j<se_next s. se_run s j = r \<longrightarrow> over s' j"
    using assms by (auto simp: alone_def nat_less_le)
  then show ?thesis using assms True \<open>se_run s i = r\<close> by (simp add: latest_ok_def forget_def)
next
  case False
  then have "se_latest s' r = se_latest s r" using assms by (auto simp: forget_def)
  then show ?thesis using assms by (blast intro: latest_ok_frame)
qed

lemma login_inv:
  assumes inv: "se_inv s"
  shows "se_inv (s\<lparr>se_latest := (se_latest s)(r \<mapsto> se_next s), se_run := (se_run s)(se_next s := r),
      se_phase := (se_phase s)(se_next s := (case se_latest s r of None \<Rightarrow> Ready | Some j \<Rightarrow> Awaits j)), se_next := Suc (se_next s)\<rparr>)"
    (is "se_inv ?s'")
proof -
  let ?n = "se_next s"
  have nd: "\<not> se_done s i" if "?n \<le> i" for i using inv that by (simp add: se_inv_def)
  have ov: "over ?s' j = over s j" if "j < ?n" for j using that by (simp add: over_def)
  have L: "latest_ok s q" for q using inv by (simp add: se_inv_def)
  have "latest_ok ?s' q" for q
  proof (cases "q = r")
    case True
    then show ?thesis by (simp add: latest_ok_def)
  next
    case False
    then show ?thesis using L [of q] ov by (auto simp: latest_ok_def less_Suc_eq split: option.splits)
  qed
  moreover have "sess_ok ?s' i" if "i < Suc ?n" for i
  proof (cases "i = ?n")
    case True
    show ?thesis
    proof (cases "se_latest s r")
      case None
      then show ?thesis using L [of r] True nd [of ?n] ov by (auto simp: sess_ok_def latest_ok_def alone_def)
    next
      case (Some j)
      then show ?thesis using L [of r] True nd [of ?n]
        by (auto simp: sess_ok_def latest_ok_def predecessor_def)
    qed
  next
    case False
    then have i: "i < ?n" using that by simp
    then have "sess_ok s i" using inv by (simp add: se_inv_def)
    then show ?thesis using i ov by (auto simp: sess_ok_def predecessor_def alone_def split: phase.splits)
  qed
  ultimately show ?thesis using nd by (auto simp: se_inv_def)
qed

lemma se_step_inv: "se_step s s' \<Longrightarrow> se_inv s \<Longrightarrow> se_inv s'"
proof (induction rule: se_step.induct)
  case (login s r)
  then show ?case by (rule login_inv)
next
  case (wake i s j)
  have pre: "predecessor s j i" using wake by (auto simp: se_inv_def sess_ok_def)
  then have "j < se_next s" using wake(1) by (simp add: predecessor_def)
  then have "sess_ok s j" "over s j" using wake by (auto simp: se_inv_def over_def)
  then have "alone s j" using wake(3) by (auto simp: sess_ok_def)
  with pre have al: "alone s i" using \<open>over s j\<close> by (rule alone_after_predecessor)
  have nd: "\<not> se_done s i" using wake by (auto simp: se_inv_def sess_ok_def)
  let ?s' = "s\<lparr>se_phase := (se_phase s)(i := Ready)\<rparr>"
  have ov: "over ?s' k" if "over s k" for k using that wake(2) by (auto simp: over_def)
  have "sess_ok ?s' i" using nd over_mono [OF ov _ al] by (simp add: sess_ok_def)
  moreover have "latest_ok ?s' r" for r using wake(4) latest_ok_frame [of s r ?s'] ov by (simp add: se_inv_def)
  ultimately show ?case by (intro se_inv_local [OF wake(4,1)]) (auto simp: ov)
next
  case (run i s)
  have al: "alone s i" and nd: "\<not> se_done s i" using run by (auto simp: se_inv_def sess_ok_def)
  let ?s' = "s\<lparr>se_phase := (se_phase s)(i := Running)\<rparr>"
  have ov: "over ?s' k" if "over s k" for k using that run(2) by (auto simp: over_def)
  have "sess_ok ?s' i" using nd over_mono [OF ov _ al] by (simp add: sess_ok_def)
  moreover have "latest_ok ?s' r" for r using run(3) latest_ok_frame [of s r ?s'] ov by (simp add: se_inv_def)
  ultimately show ?case by (intro se_inv_local [OF run(3,1)]) (auto simp: ov)
next
  case (reject i s)
  have al: "alone s i" and nd: "\<not> se_done s i" using reject by (auto simp: se_inv_def sess_ok_def)
  let ?s' = "s\<lparr>se_latest := forget i s, se_phase := (se_phase s)(i := Rejected)\<rparr>"
  have ov: "over ?s' k" if "over s k" for k using that reject(2) by (auto simp: over_def)
  have "sess_ok ?s' i" using nd over_mono [OF ov _ al] by (simp add: sess_ok_def)
  moreover have "latest_ok ?s' r" for r
  proof -
    have L: "latest_ok s r" using reject(3) by (simp add: se_inv_def)
    show ?thesis by (rule latest_ok_forget [OF L al reject(1)]) (use ov in \<open>simp_all add: over_def\<close>)
  qed
  ultimately show ?case by (intro se_inv_local [OF reject(3,1)]) (auto simp: ov)
next
  case (exit i s)
  have al: "alone s i" using exit by (auto simp: se_inv_def sess_ok_def)
  let ?s' = "s\<lparr>se_done := (se_done s)(i := True)\<rparr>"
  have ov: "over ?s' k" if "over s k" for k using that by (auto simp: over_def)
  have "sess_ok ?s' i" using exit(2) over_mono [OF ov _ al] by (simp add: sess_ok_def)
  moreover have "latest_ok ?s' r" for r using exit(3) latest_ok_frame [of s r ?s'] ov by (simp add: se_inv_def)
  ultimately show ?case by (intro se_inv_local [OF exit(3,1)]) (auto simp: ov)
next
  case (reap i s)
  have al: "alone s i" using reap by (auto simp: se_inv_def sess_ok_def)
  let ?s' = "s\<lparr>se_latest := forget i s, se_phase := (se_phase s)(i := Reaped)\<rparr>"
  have ov: "over ?s' k" if "over s k" for k using that reap(3) by (auto simp: over_def)
  have "sess_ok ?s' i" using over_mono [OF ov _ al] by (simp add: sess_ok_def)
  moreover have "latest_ok ?s' r" for r
  proof -
    have L: "latest_ok s r" using reap(4) by (simp add: se_inv_def)
    show ?thesis by (rule latest_ok_forget [OF L al reap(1)]) (use ov reap(3) in \<open>simp_all add: over_def\<close>)
  qed
  ultimately show ?case by (intro se_inv_local [OF reap(4,1)]) (auto simp: ov)
qed

lemma se_inv_alone:
  assumes "se_inv s" and "i < se_next s" and "\<And>j. se_phase s i \<noteq> Awaits j" and "j < i" and "se_run s j = se_run s i"
  shows "over s j"
proof -
  have "sess_ok s i" using assms(1,2) by (simp add: se_inv_def)
  then have "alone s i" using assms(3) by (auto simp: sess_ok_def split: phase.splits)
  then show ?thesis using assms(4,5) by (simp add: alone_def)
qed

end
