(* ===== verification/Server_Service.thy ===== *)
theory Server_Service
  imports Server_Sessions Session_Protocol
begin

text \<open>
  The service of frps, \<^verbatim>\<open>server/service.go\<close>, and the control manager of \<^verbatim>\<open>server/control.go\<close>: the first
  message of a connection, logins with the takeover of a run by a new control, work connections
  and visitor connections. \<open>RegisterControl\<close> waits for the replaced control between two atomic
  parts; the phases of theory \<open>Session_Protocol\<close> say where each control is. Listeners, TLS and stream
  multiplexing are not modelled; a step of the service starts with the message read.
\<close>

section \<open>The control manager\<close>

text \<open>Controls are compared by identity: the table has their numbers.\<close>

definition cm_Add :: "string \<Rightarrow> nat \<Rightarrow> (nat \<Rightarrow> 'c Control) \<Rightarrow> (string \<rightharpoonup> nat)
   \<Rightarrow> nat option \<times> (nat \<Rightarrow> 'c Control) \<times> (string \<rightharpoonup> nat)" where
  "cm_Add runID i ctls m =
     (m runID, (case m runID of None \<Rightarrow> ctls | Some j \<Rightarrow> ctls(j := Replaced (ctls j))), m(runID \<mapsto> i))"

definition cm_Del :: "string \<Rightarrow> nat \<Rightarrow> (string \<rightharpoonup> nat) \<Rightarrow> (string \<rightharpoonup> nat)" where
  "cm_Del runID i m = (if m runID = Some i then m(runID := None) else m)"

definition cm_GetByID :: "string \<Rightarrow> (string \<rightharpoonup> nat) \<Rightarrow> nat option" where
  "cm_GetByID runID m = m runID"

definition cm_Close :: "(nat \<Rightarrow> 'c Control) \<Rightarrow> (string \<rightharpoonup> nat) \<Rightarrow> (nat \<Rightarrow> 'c Control) \<times> (string \<rightharpoonup> nat)" where
  "cm_Close ctls m = ((\<lambda>i. if i \<in> ran m then control_Close (ctls i) else ctls i), Map.empty)"

section \<open>State\<close>

record 'c service =
  svc_srv :: "'c srv"
  svc_byRun :: "string \<rightharpoonup> nat"
  svc_phase :: "nat \<Rightarrow> phase"
  svc_next :: nat

abbreviation svc_ctl :: "'c service \<Rightarrow> nat \<Rightarrow> 'c Control" where
  "svc_ctl s i \<equiv> srv_ctls (svc_srv s) i"

text \<open>What the service is built with: configuration, verifier, plugins, the texts of errors.\<close>

record svc_env =
  sx_cfg :: ServerConfig
  sx_verifier :: Verifier
  sx_plugins :: PluginManager
  sx_show :: "control_error \<Rightarrow> string"
  sx_version :: string

datatype service_error =
    RandIDFailed
  | SvcAuth auth_error
  | SvcPlugin plugin_error
  | NewControlFailed
  | ClientIDConflict string string
  | NoControlForRun string
  | InvalidNewWorkConn string
  | SvcControl control_error
  | SvcVisitor visitor_error

section \<open>Logins\<close>

text \<open>\<open>RegisterControl\<close> up to the creation of the control. \<open>None\<close> is the panic of \<open>NewControl\<close>.\<close>

definition RegisterControl_new ::
  "svc_env \<Rightarrow> string option \<Rightarrow> bool \<Rightarrow> int \<Rightarrow> bool \<Rightarrow> Login \<Rightarrow> (service_error, 'c Control) result option" where
  "RegisterControl_new env randID crypto_ok now internal loginMsg =
     (case (if lg_RunID loginMsg = [] then randID else Some (lg_RunID loginMsg)) of
        None \<Rightarrow> Some (err RandIDFailed)
      | Some runID \<Rightarrow>
          (let m = loginMsg\<lparr>lg_RunID := runID\<rparr>;
               authVerifier = (if internal \<and> lg_AlwaysAuthPass m then AlwaysPassVerifier else sx_verifier env)
           in case vf_Login authVerifier (signed.truncate m) of
                Inl e \<Rightarrow> Some (err (SvcAuth e))
              | Inr _ \<Rightarrow>
                  (case NewControl (sx_cfg env) (\<not> internal) crypto_ok now authVerifier m of
                     None \<Rightarrow> None
                   | Some (Inl _) \<Rightarrow> Some (err NewControlFailed)
                   | Some (Inr ctl) \<Rightarrow> Some (ok ctl))))"

text \<open>Adding the control; if it replaces another one, it has to wait for that one.\<close>

definition RegisterControl_add :: "'c Control \<Rightarrow> 'c service \<Rightarrow> 'c service" where
  "RegisterControl_add ctl s =
     (let i = svc_next s;
          (oldCtl, ctls, m) = cm_Add (lg_RunID (ctl_login ctl)) i ((srv_ctls (svc_srv s))(i := ctl)) (svc_byRun s)
      in s\<lparr>svc_srv := (svc_srv s)\<lparr>srv_ctls := ctls\<rparr>, svc_byRun := m,
           svc_phase := (svc_phase s)(i := (case oldCtl of None \<Rightarrow> Ready | Some j \<Rightarrow> Awaits j)), svc_next := Suc i\<rparr>)"

text \<open>The rest of \<open>RegisterControl\<close>, once the replaced control is done: entering the client in the registry,
  and starting the control or refusing it.\<close>

definition RegisterControl_finish ::
  "svc_env \<Rightarrow> string \<Rightarrow> int \<Rightarrow> nat \<Rightarrow> 'c service \<Rightarrow> (service_error, ctl_msg list) result \<times> 'c service" where
  "RegisterControl_finish env remoteAddr now i s =
     (let ctl = svc_ctl s i; m = ctl_login ctl; st = srv_st (svc_srv s);
          ((_, conflict), reg) = Register (lg_User m) (lg_ClientID m) (lg_RunID m) (lg_Hostname m) (lg_Version m) remoteAddr now (ss_registry st);
          srv' = (svc_srv s)\<lparr>srv_st := st\<lparr>ss_registry := reg\<rparr>\<rparr>
      in if conflict
         then (err (ClientIDConflict (lg_ClientID m) (lg_User m)),
               s\<lparr>svc_srv := srv'\<lparr>srv_ctls := (srv_ctls srv')(i := control_Close ctl)\<rparr>,
                 svc_byRun := cm_Del (lg_RunID m) i (svc_byRun s), svc_phase := (svc_phase s)(i := Rejected)\<rparr>)
         else (ok (Start (sx_version env) ctl), s\<lparr>svc_srv := srv', svc_phase := (svc_phase s)(i := Running)\<rparr>))"

text \<open>The goroutine that waits for a started control.\<close>

definition reap_control :: "nat \<Rightarrow> 'c service \<Rightarrow> 'c service" where
  "reap_control i s = s\<lparr>svc_byRun := cm_Del (lg_RunID (ctl_login (svc_ctl s i))) i (svc_byRun s), svc_phase := (svc_phase s)(i := Reaped)\<rparr>"

section \<open>Work connections and visitor connections\<close>

definition set_ctl :: "nat \<Rightarrow> 'c Control \<Rightarrow> 'c service \<Rightarrow> 'c service" where
  "set_ctl i ctl s = s\<lparr>svc_srv := (svc_srv s)\<lparr>srv_ctls := (srv_ctls (svc_srv s))(i := ctl)\<rparr>\<rparr>"

definition svc_RegisterWorkConn ::
  "svc_env \<Rightarrow> 'c \<Rightarrow> NewWorkConn \<Rightarrow> 'c service \<Rightarrow> (service_error, unit) result \<times> ctl_msg list \<times> 'c service" where
  "svc_RegisterWorkConn env workConn newMsg s =
     (case cm_GetByID (nw_RunID newMsg) (svc_byRun s) of
        None \<Rightarrow> (err (NoControlForRun (nw_RunID newMsg)), [], s)
      | Some i \<Rightarrow>
          (let ctl = svc_ctl s i;
               content = \<lparr>nwc_User = loginUserInfo ctl, nwc_NewWorkConn = newMsg\<rparr>;
               refuse = (\<lambda>m e. (err (InvalidNewWorkConn (nw_RunID m)),
                 [StartWorkConn (GenerateResponseErrorString ''invalid NewWorkConn'' (sx_show env e) (sv_DetailedErrorsToClient (sx_cfg env)))], s))
           in case pm_NewWorkConn (sx_plugins env) content of
                Inl e \<Rightarrow> refuse newMsg (PluginErr e)
              | Inr retContent \<Rightarrow>
                  (let m = nwc_NewWorkConn retContent in
                   case vf_NewWorkConn (ctl_verifier ctl) (signed.truncate m) of
                     Inl e \<Rightarrow> refuse m (AuthErr e)
                   | Inr _ \<Rightarrow>
                       (case RegisterWorkConn workConn ctl of
                          (None, ctl') \<Rightarrow> (ok (), [], set_ctl i ctl' s)
                        | (Some e, ctl') \<Rightarrow> (err (SvcControl e), [], set_ctl i ctl' s)))))"

definition svc_RegisterVisitorConn ::
  "(string \<Rightarrow> string) \<Rightarrow> bool \<Rightarrow> 'c \<Rightarrow> NewVisitorConn \<Rightarrow> 'c service \<Rightarrow> (service_error, unit) result \<times> 'c service" where
  "svc_RegisterVisitorConn md5hex enc_ok visitorConn newMsg s =
     (let new_conn = (\<lambda>visitorUser.
            let st = srv_st (svc_srv s);
                (res, vm) = NewConn md5hex enc_ok (nvc_ProxyName newMsg) visitorConn (nvc_Timestamp newMsg) (nvc_SignKey newMsg)
                              (nvc_UseEncryption newMsg) visitorUser (rc_visitors (ss_rc st));
                s' = s\<lparr>svc_srv := (svc_srv s)\<lparr>srv_st := st\<lparr>ss_rc := (ss_rc st)\<lparr>rc_visitors := vm\<rparr>\<rparr>\<rparr>\<rparr>
            in (case res of Inl e \<Rightarrow> (err (SvcVisitor e), s') | Inr _ \<Rightarrow> (ok (), s')))
      in if nvc_RunID newMsg \<noteq> []
         then (case cm_GetByID (nvc_RunID newMsg) (svc_byRun s) of
                 None \<Rightarrow> (err (NoControlForRun (nvc_RunID newMsg)), s)
               | Some i \<Rightarrow> new_conn (lg_User (ctl_login (svc_ctl s i))))
         else new_conn [])"

section \<open>The first message of a connection\<close>

datatype first_msg =
    ReadFailed
  | FirstLogin Login
  | FirstWorkConn NewWorkConn
  | FirstVisitorConn NewVisitorConn
  | OtherMsg

text \<open>The connection with what is only known outside: its address, randomness, time, whether
  encryption could be set up.\<close>

record 'c conn_info =
  cn_conn :: 'c
  cn_addr :: string
  cn_internal :: bool
  cn_randID :: "string option"
  cn_crypto_ok :: bool
  cn_now :: int

datatype reply =
    CtlReply ctl_msg
  | LoginRefused service_error
  | VisitorResp string "service_error option"

text \<open>The result: whether the connection is closed, what is sent, the service. A login that passes ends here
  in phase \<open>Awaits\<close> or \<open>Ready\<close>.\<close>

definition handleConnection ::
  "svc_env \<Rightarrow> (string \<Rightarrow> string) \<Rightarrow> bool \<Rightarrow> 'c conn_info \<Rightarrow> first_msg \<Rightarrow> 'c service \<Rightarrow> (bool \<times> reply list \<times> 'c service) option" where
  "handleConnection env md5hex enc_ok cn rawMsg s =
     (case rawMsg of
        ReadFailed \<Rightarrow> Some (True, [], s)
      | OtherMsg \<Rightarrow> Some (True, [], s)
      | FirstLogin m \<Rightarrow>
          (case pm_Login (sx_plugins env) \<lparr>lc_Login = m, lc_ClientAddress = cn_addr cn\<rparr> of
             Inl e \<Rightarrow> Some (True, [LoginRefused (SvcPlugin e)], s)
           | Inr retContent \<Rightarrow>
               (case RegisterControl_new env (cn_randID cn) (cn_crypto_ok cn) (cn_now cn) (cn_internal cn) (lc_Login retContent) of
                  None \<Rightarrow> None
                | Some (Inl e) \<Rightarrow> Some (True, [LoginRefused e], s)
                | Some (Inr ctl) \<Rightarrow> Some (False, [], RegisterControl_add ctl s)))
      | FirstWorkConn m \<Rightarrow>
          (case svc_RegisterWorkConn env (cn_conn cn) m s of
             (Inl _, out, s') \<Rightarrow> Some (True, map CtlReply out, s')
           | (Inr _, out, s') \<Rightarrow> Some (False, map CtlReply out, s'))
      | FirstVisitorConn m \<Rightarrow>
          (case svc_RegisterVisitorConn md5hex enc_ok (cn_conn cn) m s of
             (Inl e, s') \<Rightarrow> Some (True, [VisitorResp (nvc_ProxyName m) (Some e)], s')
           | (Inr _, s') \<Rightarrow> Some (False, [VisitorResp (nvc_ProxyName m) None], s')))"

section \<open>The service at work\<close>

inductive svc_step ::
  "svc_env \<Rightarrow> (string \<Rightarrow> string) \<Rightarrow> (string \<Rightarrow> int \<Rightarrow> int option) \<Rightarrow> (string \<Rightarrow> string list) \<Rightarrow> 'c service \<Rightarrow> 'c service \<Rightarrow> bool"
  for env :: svc_env and md5hex :: "string \<Rightarrow> string" and scale :: "string \<Rightarrow> int \<Rightarrow> int option" and quals :: "string \<Rightarrow> string list" where
  connection: "handleConnection env md5hex enc_ok cn m s = Some (closed, out, s') \<Longrightarrow> svc_step env md5hex scale quals s s'"
| old_done: "i < svc_next s \<Longrightarrow> svc_phase s i = Awaits j \<Longrightarrow> ctl_done (svc_ctl s j)
    \<Longrightarrow> svc_step env md5hex scale quals s (s\<lparr>svc_phase := (svc_phase s)(i := Ready)\<rparr>)"
| finish: "i < svc_next s \<Longrightarrow> svc_phase s i = Ready \<Longrightarrow> RegisterControl_finish env remoteAddr now i s = (res, s')
    \<Longrightarrow> svc_step env md5hex scale quals s s'"
| work: "i < svc_next s \<Longrightarrow> svc_phase s i = Running \<Longrightarrow> srv_step scale quals (sx_cfg env) i (svc_srv s) srv'
    \<Longrightarrow> svc_step env md5hex scale quals s (s\<lparr>svc_srv := srv'\<rparr>)"
| reap: "i < svc_next s \<Longrightarrow> svc_phase s i = Running \<Longrightarrow> ctl_done (svc_ctl s i) \<Longrightarrow> svc_step env md5hex scale quals s (reap_control i s)"

definition svc_start :: "'c service \<Rightarrow> bool" where
  "svc_start s \<longleftrightarrow> srv_start (svc_srv s) \<and> svc_byRun s = Map.empty \<and> svc_next s = 0"

inductive svc_reach ::
  "svc_env \<Rightarrow> (string \<Rightarrow> string) \<Rightarrow> (string \<Rightarrow> int \<Rightarrow> int option) \<Rightarrow> (string \<Rightarrow> string list) \<Rightarrow> 'c service \<Rightarrow> bool"
  for env :: svc_env and md5hex :: "string \<Rightarrow> string" and scale :: "string \<Rightarrow> int \<Rightarrow> int option" and quals :: "string \<Rightarrow> string list" where
  start: "svc_start s \<Longrightarrow> svc_reach env md5hex scale quals s"
| step: "svc_reach env md5hex scale quals s \<Longrightarrow> svc_step env md5hex scale quals s s' \<Longrightarrow> svc_reach env md5hex scale quals s'"

section \<open>What the steps change\<close>

definition sess :: "'c service \<Rightarrow> session_table" where
  "sess s = \<lparr>se_latest = svc_byRun s, se_run = (\<lambda>i. lg_RunID (ctl_login (svc_ctl s i))), se_phase = svc_phase s,
     se_done = (\<lambda>i. ctl_done (svc_ctl s i)), se_next = svc_next s\<rparr>"

definition new_ctl :: "'c Control \<Rightarrow> bool" where
  "new_ctl ctl \<longleftrightarrow> ctl_proxies ctl = [] \<and> ctl_portsUsedNum ctl = 0 \<and> \<not> ctl_done ctl"

lemma RegisterControl_new_ok: "RegisterControl_new env r crypto_ok now internal m = Some (ok ctl) \<Longrightarrow> new_ctl ctl"
  by (auto simp: RegisterControl_new_def NewControl_def Let_def new_ctl_def split: option.splits sum.splits if_splits)

lemma ctl_op_login: "ctl_op ctl ctl' \<Longrightarrow> ctl_login ctl' = ctl_login ctl"
  by (erule ctl_op.cases) (auto simp: RegisterWorkConn_def receive_def handlePing_def heartbeat_def Replaced_def
      control_Close_def Let_def split: if_splits list.splits sum.splits)

lemma RegisterWorkConn_op: "RegisterWorkConn conn ctl = (r, ctl') \<Longrightarrow> ctl_op ctl ctl'"
  by (rule ctl_op.work_conn)

lemma svc_RegisterWorkConn_cases:
  "svc_RegisterWorkConn env conn m s = (res, out, s') \<Longrightarrow> s' = s \<or> (\<exists>i ctl'. ctl_op (svc_ctl s i) ctl' \<and> s' = set_ctl i ctl' s)"
  by (auto simp: svc_RegisterWorkConn_def Let_def dest: RegisterWorkConn_op split: option.splits sum.splits prod.splits)

definition set_rc :: "'c ResourceController \<Rightarrow> 'c service \<Rightarrow> 'c service" where
  "set_rc rc s = s\<lparr>svc_srv := (svc_srv s)\<lparr>srv_st := (srv_st (svc_srv s))\<lparr>ss_rc := rc\<rparr>\<rparr>\<rparr>"

lemma svc_RegisterVisitorConn_cases:
  "svc_RegisterVisitorConn md5hex enc_ok conn m s = (res, s') \<Longrightarrow> s' = s \<or> (\<exists>rc. s' = set_rc rc s)"
  by (auto simp: svc_RegisterVisitorConn_def Let_def set_rc_def split: option.splits sum.splits prod.splits if_splits)

lemma handleConnection_cases:
  assumes "handleConnection env md5hex enc_ok cn m s = Some (closed, out, s')"
  shows "s' = s \<or> (\<exists>ctl. new_ctl ctl \<and> s' = RegisterControl_add ctl s)
     \<or> (\<exists>i ctl'. ctl_op (svc_ctl s i) ctl' \<and> s' = set_ctl i ctl' s) \<or> (\<exists>rc. s' = set_rc rc s)"
  using assms unfolding handleConnection_def
  by (auto dest: RegisterControl_new_ok svc_RegisterWorkConn_cases svc_RegisterVisitorConn_cases
      split: first_msg.splits sum.splits option.splits prod.splits)

lemma give_back_frame: "ctl_login (give_back sv n ctl) = ctl_login ctl" "ctl_done (give_back sv n ctl) = ctl_done ctl"
  by (simp_all add: give_back_def)

lemma register_commit_frame:
  "register_commit sv now n p ctl st = Some (res, ctl', st') \<Longrightarrow> ctl_login ctl' = ctl_login ctl \<and> ctl_done ctl' = ctl_done ctl"
  by (auto simp: register_commit_def give_back_frame split: sum.splits option.splits prod.splits)

lemma CloseProxy_frame:
  "CloseProxy sv now n ctl st = Some (ctl', st') \<Longrightarrow> ctl_login ctl' = ctl_login ctl \<and> ctl_done ctl' = ctl_done ctl"
  by (auto simp: CloseProxy_def give_back_frame Let_def split: option.splits)

lemma register_begin_frame:
  assumes "register_begin scale quals sv env m ctl st = Some (res, ctl', st')"
  shows "ctl_login ctl' = ctl_login ctl \<and> ctl_done ctl' = ctl_done ctl"
proof (cases res)
  case (Inl e)
  then show ?thesis using register_begin_err(1) [of scale quals sv env m ctl st e ctl' st'] assms by simp
next
  case (Inr ap)
  obtain a p where "ap = (a, p)" by fastforce
  then show ?thesis using register_begin_ok(5) [of scale quals sv env m ctl st a p ctl' st'] assms Inr by simp
qed

lemma srv_step_frame:
  assumes "srv_step scale quals sv c s s'"
  shows "ctl_login (srv_ctls s' d) = ctl_login (srv_ctls s d)"
    and "d \<noteq> c \<Longrightarrow> srv_ctls s' d = srv_ctls s d \<and> srv_pending s' d = srv_pending s d \<and> srv_ending s' d = srv_ending s d"
    and "ctl_done (srv_ctls s d) \<Longrightarrow> ctl_done (srv_ctls s' d)"
  using assms
  by (cases; cases "d = c"; auto dest: ctl_op_login ctl_op_frame register_begin_frame register_commit_frame CloseProxy_frame
      simp: worker_begin_def worker_finish_def)+

section \<open>The service refines the session protocol\<close>

text \<open>A control that was not started holds nothing.\<close>

definition unstarted :: "'c service \<Rightarrow> nat \<Rightarrow> bool" where
  "unstarted s i \<longleftrightarrow> svc_next s \<le> i \<or> (svc_phase s i \<noteq> Running \<and> svc_phase s i \<noteq> Reaped)"

definition svc_inv :: "svc_env \<Rightarrow> 'c service \<Rightarrow> bool" where
  "svc_inv env s \<longleftrightarrow> se_inv (sess s) \<and> srv_inv (sx_cfg env) (svc_srv s)
     \<and> (\<forall>i. unstarted s i \<longrightarrow> ctl_proxies (svc_ctl s i) = [] \<and> srv_pending (svc_srv s) i = None \<and> srv_ending (svc_srv s) i = None)"

lemma srv_inv_st:
  "ss_pxys st' = ss_pxys (srv_st s) \<Longrightarrow> srv_inv sv (s\<lparr>srv_st := st'\<rparr>) = srv_inv sv s"
proof -
  assume *: "ss_pxys st' = ss_pxys (srv_st s)"
  have "holds (s\<lparr>srv_st := st'\<rparr>) = holds s" by (simp add: fun_eq_iff holds_def)
  then show ?thesis using * by (simp add: srv_inv_def ctl_wf_def ctl_quota_def)
qed

lemma srv_inv_op:
  assumes "srv_inv sv s" and "ctl_op (srv_ctls s i) ctl'"
  shows "srv_inv sv (s\<lparr>srv_ctls := (srv_ctls s)(i := ctl')\<rparr>)"
  by (rule srv_step_inv [OF srv_step.own_op [OF assms(2)] assms(1)])

lemma srv_inv_new:
  assumes inv: "srv_inv sv s" and ctl: "new_ctl ctl"
    and f: "ctl_proxies (srv_ctls s i) = []" "srv_pending s i = None" "srv_ending s i = None"
  shows "srv_inv sv (s\<lparr>srv_ctls := (srv_ctls s)(i := ctl)\<rparr>)"
  by (rule srv_inv_same [OF inv, where c = i]) (use ctl f in \<open>simp_all add: ctl_wf_def ctl_quota_def holds_def new_ctl_def\<close>)

lemma sess_set_ctl:
  assumes "ctl_op (svc_ctl s i) ctl'"
  shows "sess (set_ctl i ctl' s) = sess s"
  using ctl_op_login [OF assms] ctl_op_frame [OF assms] by (simp add: sess_def set_ctl_def fun_eq_iff)

lemma svc_inv_set_ctl:
  assumes "svc_inv env s" and op: "ctl_op (svc_ctl s i) ctl'"
  shows "svc_inv env (set_ctl i ctl' s)"
proof -
  have "srv_inv (sx_cfg env) (svc_srv (set_ctl i ctl' s))"
    using srv_inv_op [OF _ op] assms(1) by (simp add: svc_inv_def set_ctl_def)
  then show ?thesis using assms(1) sess_set_ctl [OF op] ctl_op_frame [OF op]
    by (simp add: svc_inv_def) (simp add: set_ctl_def unstarted_def)
qed

lemma svc_inv_set_rc: "svc_inv env (set_rc rc s) = svc_inv env s" "sess (set_rc rc s) = sess s"
  by (simp_all add: svc_inv_def sess_def set_rc_def srv_inv_st unstarted_def)

lemma sess_add:
  assumes "svc_inv env s" and "new_ctl ctl"
  shows "se_step (sess s) (sess (RegisterControl_add ctl s))"
proof -
  let ?r = "lg_RunID (ctl_login ctl)" and ?n = "svc_next s"
  have nd: "\<not> ctl_done (svc_ctl s ?n)" using assms(1) by (simp add: svc_inv_def se_inv_def sess_def)
  have old: "j \<noteq> ?n" if "svc_byRun s ?r = Some j" for j
    using assms(1) that by (auto simp: svc_inv_def se_inv_def latest_ok_def sess_def split: option.splits)
  have "sess (RegisterControl_add ctl s) = (sess s)\<lparr>se_latest := (se_latest (sess s))(?r \<mapsto> se_next (sess s)),
      se_run := (se_run (sess s))(se_next (sess s) := ?r),
      se_phase := (se_phase (sess s))(se_next (sess s) := (case se_latest (sess s) ?r of None \<Rightarrow> Ready | Some j \<Rightarrow> Awaits j)),
      se_next := Suc (se_next (sess s))\<rparr>"
    using nd old assms(2)
    by (auto simp: sess_def RegisterControl_add_def cm_Add_def Let_def Replaced_def fun_eq_iff new_ctl_def split: option.splits)
  then show ?thesis by (simp only: se_step.login)
qed

lemma svc_inv_add:
  assumes inv: "svc_inv env s" and ctl: "new_ctl ctl"
  shows "svc_inv env (RegisterControl_add ctl s)"
proof -
  let ?r = "lg_RunID (ctl_login ctl)" and ?n = "svc_next s"
  have un: "ctl_proxies (svc_ctl s ?n) = []" "srv_pending (svc_srv s) ?n = None" "srv_ending (svc_srv s) ?n = None"
    using inv by (simp_all add: svc_inv_def unstarted_def)
  have s1: "srv_inv (sx_cfg env) ((svc_srv s)\<lparr>srv_ctls := (srv_ctls (svc_srv s))(?n := ctl)\<rparr>)" (is "srv_inv _ ?s1")
    using inv by (intro srv_inv_new [OF _ ctl un]) (simp add: svc_inv_def)
  have "srv_inv (sx_cfg env) (svc_srv (RegisterControl_add ctl s))"
  proof (cases "svc_byRun s ?r")
    case None
    then show ?thesis using s1 by (simp add: RegisterControl_add_def cm_Add_def Let_def)
  next
    case (Some j)
    then show ?thesis using srv_inv_op [OF s1 ctl_op.replaced, of j]
      by (simp add: RegisterControl_add_def cm_Add_def Let_def)
  qed
  moreover have "se_inv (sess (RegisterControl_add ctl s))"
    using se_step_inv [OF sess_add [OF inv ctl]] inv by (simp add: svc_inv_def)
  moreover have "ctl_proxies (svc_ctl (RegisterControl_add ctl s) i) = [] \<and> srv_pending (svc_srv (RegisterControl_add ctl s)) i = None
      \<and> srv_ending (svc_srv (RegisterControl_add ctl s)) i = None" if "unstarted (RegisterControl_add ctl s) i" for i
  proof (cases "i = ?n")
    case True
    then show ?thesis using ctl un
      by (auto simp: RegisterControl_add_def cm_Add_def Let_def new_ctl_def Replaced_def split: option.splits)
  next
    case False
    then have "unstarted s i" using that
      by (auto simp: unstarted_def RegisterControl_add_def cm_Add_def Let_def)
    then show ?thesis using inv False
      by (auto simp: svc_inv_def RegisterControl_add_def cm_Add_def Let_def Replaced_def split: option.splits)
  qed
  ultimately show ?thesis by (simp add: svc_inv_def)
qed

lemma finish_cases:
  assumes "RegisterControl_finish env remoteAddr now i s = (res, s')"
  obtains (conflict) reg where "s' = s\<lparr>svc_srv := (svc_srv s)\<lparr>srv_st := (srv_st (svc_srv s))\<lparr>ss_registry := reg\<rparr>,
        srv_ctls := (srv_ctls (svc_srv s))(i := control_Close (svc_ctl s i))\<rparr>,
      svc_byRun := cm_Del (lg_RunID (ctl_login (svc_ctl s i))) i (svc_byRun s), svc_phase := (svc_phase s)(i := Rejected)\<rparr>"
  | (started) reg where "s' = s\<lparr>svc_srv := (svc_srv s)\<lparr>srv_st := (srv_st (svc_srv s))\<lparr>ss_registry := reg\<rparr>\<rparr>,
      svc_phase := (svc_phase s)(i := Running)\<rparr>"
  using assms by (auto simp: RegisterControl_finish_def Let_def split: prod.splits if_splits)

lemma forget_cm_Del: "forget i (sess s) = cm_Del (lg_RunID (ctl_login (svc_ctl s i))) i (svc_byRun s)"
  by (simp add: forget_def sess_def cm_Del_def)

lemma svc_inv_finish:
  assumes inv: "svc_inv env s" and i: "i < svc_next s" "svc_phase s i = Ready"
    and fin: "RegisterControl_finish env' remoteAddr now i s = (res, s')"
  shows "svc_inv env s' \<and> se_step (sess s) (sess s')"
  using fin
proof (cases rule: finish_cases)
  case (conflict reg)
  have "sess s' = (sess s)\<lparr>se_latest := forget i (sess s), se_phase := (se_phase (sess s))(i := Rejected)\<rparr>"
    unfolding forget_cm_Del by (simp add: conflict sess_def control_Close_def fun_eq_iff)
  then have st: "se_step (sess s) (sess s')" using se_step.reject [of i "sess s"] i by (simp add: sess_def)
  have "srv_inv (sx_cfg env) (svc_srv s')"
    using srv_inv_op [OF _ ctl_op.closed, of "sx_cfg env" "(svc_srv s)\<lparr>srv_st := (srv_st (svc_srv s))\<lparr>ss_registry := reg\<rparr>\<rparr>" i] inv
    by (simp add: conflict svc_inv_def srv_inv_st)
  then show ?thesis using se_step_inv [OF st] st inv i
    by (auto simp: svc_inv_def unstarted_def conflict control_Close_def)
next
  case (started reg)
  have "sess s' = (sess s)\<lparr>se_phase := (se_phase (sess s))(i := Running)\<rparr>" by (simp add: started sess_def)
  then have st: "se_step (sess s) (sess s')" using se_step.run [of i "sess s"] i by (simp add: sess_def)
  have "srv_inv (sx_cfg env) (svc_srv s')" using inv by (simp add: started svc_inv_def srv_inv_st)
  then show ?thesis using se_step_inv [OF st] st inv i
    by (auto simp: svc_inv_def unstarted_def started split: if_splits)
qed

lemma svc_inv_work:
  assumes inv: "svc_inv env s" and i: "i < svc_next s" "svc_phase s i = Running"
    and w: "srv_step scale quals (sx_cfg env) i (svc_srv s) srv'"
  shows "svc_inv env (s\<lparr>svc_srv := srv'\<rparr>) \<and> (sess (s\<lparr>svc_srv := srv'\<rparr>) = sess s \<or> se_step (sess s) (sess (s\<lparr>svc_srv := srv'\<rparr>)))"
proof -
  note F = srv_step_frame [OF w]
  let ?s' = "s\<lparr>svc_srv := srv'\<rparr>"
  have sim: "sess ?s' = sess s \<or> se_step (sess s) (sess ?s')"
  proof (cases "ctl_done (srv_ctls srv' i) = ctl_done (svc_ctl s i)")
    case True
    have "ctl_done (srv_ctls srv' d) = ctl_done (svc_ctl s d)" for d using True F(2) [of d] by (cases "d = i") auto
    then show ?thesis by (simp add: sess_def F(1))
  next
    case False
    then have d: "ctl_done (srv_ctls srv' i)" using F(3) [of i] by blast
    have "(\<lambda>d. ctl_done (srv_ctls srv' d)) = (\<lambda>d. ctl_done (svc_ctl s d))(i := True)"
    proof
      fix e show "ctl_done (srv_ctls srv' e) = ((\<lambda>d. ctl_done (svc_ctl s d))(i := True)) e"
        using d F(2) [of e] by (cases "e = i") simp_all
    qed
    then have "sess ?s' = (sess s)\<lparr>se_done := (se_done (sess s))(i := True)\<rparr>" by (simp add: sess_def F(1))
    then show ?thesis using se_step.exit [of i "sess s"] i by (simp add: sess_def)
  qed
  have "se_inv (sess ?s')" using sim se_step_inv inv by (auto simp: svc_inv_def)
  moreover have "srv_inv (sx_cfg env) srv'" using srv_step_inv [OF w] inv by (simp add: svc_inv_def)
  moreover have "ctl_proxies (srv_ctls srv' d) = [] \<and> srv_pending srv' d = None \<and> srv_ending srv' d = None" if "unstarted s d" for d
  proof -
    have "d \<noteq> i" using that i by (auto simp: unstarted_def)
    then show ?thesis using F(2) [of d] inv that by (simp add: svc_inv_def)
  qed
  ultimately show ?thesis using sim by (simp add: svc_inv_def unstarted_def)
qed

lemma svc_step_sim: "svc_step env md5hex scale quals s s' \<Longrightarrow> svc_inv env s \<Longrightarrow> svc_inv env s' \<and> (sess s' = sess s \<or> se_step (sess s) (sess s'))"
proof (induction rule: svc_step.induct)
  case (connection enc_ok cn m s closed out s')
  from handleConnection_cases [OF connection(1)] show ?case
    using connection(2) svc_inv_add sess_add svc_inv_set_ctl sess_set_ctl svc_inv_set_rc by metis
next
  case (old_done i s j)
  let ?s' = "s\<lparr>svc_phase := (svc_phase s)(i := Ready)\<rparr>"
  have "sess ?s' = (sess s)\<lparr>se_phase := (se_phase (sess s))(i := Ready)\<rparr>" by (simp add: sess_def)
  then have st: "se_step (sess s) (sess ?s')" using se_step.wake [of i "sess s" j] old_done by (simp add: sess_def)
  then show ?case using se_step_inv [OF st] old_done by (auto simp: svc_inv_def unstarted_def)
next
  case (finish i s remoteAddr now res s')
  then show ?case using svc_inv_finish by blast
next
  case (work i s srv')
  from svc_inv_work [OF work(4,1,2,3)] show ?case .
next
  case (reap i s)
  have "sess (reap_control i s) = (sess s)\<lparr>se_latest := forget i (sess s), se_phase := (se_phase (sess s))(i := Reaped)\<rparr>"
    unfolding forget_cm_Del by (simp add: reap_control_def sess_def)
  then have st: "se_step (sess s) (sess (reap_control i s))" using se_step.reap [of i "sess s"] reap by (simp add: sess_def)
  then show ?case using se_step_inv [OF st] reap by (auto simp: svc_inv_def unstarted_def reap_control_def)
qed

lemma svc_start_inv: "svc_start s \<Longrightarrow> svc_inv env s"
  using srv_start_inv [of "svc_srv s" "sx_cfg env"]
  by (auto simp: svc_start_def svc_inv_def se_inv_def latest_ok_def sess_def srv_start_def)

lemma svc_reach_inv: "svc_reach env md5hex scale quals s \<Longrightarrow> svc_inv env s"
  by (induction rule: svc_reach.induct) (auto intro: svc_start_inv dest: svc_step_sim)

section \<open>One control per run\<close>

text \<open>C8. The login handling refines the session protocol: from a reachable state, every step of the service
  (any first message of a connection, the end of a wait, the end of a login, anything a control
  does, the clean-up) leaves the sessions as they are or is a step of the protocol.\<close>

theorem service_refines_sessions:
  assumes "svc_reach env md5hex scale quals s" and "svc_step env md5hex scale quals s s'"
  shows "sess s' = sess s \<or> se_step (sess s) (sess s')"
  using svc_step_sim [OF assms(2) svc_reach_inv [OF assms(1)]] by blast

text \<open>C4. When a control is started or about to be, every earlier control with the same run id has ended or was
  refused: it holds no proxy and no registration of it is under way. In particular two controls
  of one run never run at the same time, however their logins, registrations and ends
  interleave.\<close>

theorem one_control_per_run:
  assumes reach: "svc_reach env md5hex scale quals s"
    and i: "i < svc_next s" "\<And>k. svc_phase s i \<noteq> Awaits k"
    and j: "j < i" "lg_RunID (ctl_login (svc_ctl s j)) = lg_RunID (ctl_login (svc_ctl s i))"
  shows "holds (svc_srv s) j = [] \<and> srv_pending (svc_srv s) j = None \<and> (svc_phase s j = Running \<longrightarrow> ctl_done (svc_ctl s j))"
proof -
  have inv: "svc_inv env s" using reach by (rule svc_reach_inv)
  have o: "over (sess s) j" by (rule se_inv_alone [of "sess s" i j]) (use inv i j in \<open>simp_all add: svc_inv_def sess_def\<close>)
  show ?thesis
  proof (cases "svc_phase s j = Rejected")
    case True
    then show ?thesis using inv by (simp add: svc_inv_def unstarted_def holds_def)
  next
    case False
    then have "ctl_done (svc_ctl s j)" using o by (simp add: over_def sess_def)
    moreover have "ctl_wf (sx_cfg env) (svc_srv s) j" using inv by (simp add: svc_inv_def srv_inv_def)
    ultimately show ?thesis by (cases "srv_pending (svc_srv s) j") (auto simp: ctl_wf_def)
  qed
qed

section \<open>Only authenticated clients\<close>

text \<open>C9. With token authentication, a login over the network either is refused, with one answer, the
  connection closed and the service unchanged, or adds one control; then the login plugins passed
  it and the login they returned carries the key of the server's token and its timestamp.\<close>

theorem login_authenticated:
  assumes tok: "sx_verifier env = token_verifier md5hex (NewTokenAuth scopes token)" and ext: "\<not> cn_internal cn"
    and h: "handleConnection env md5 enc_ok cn (FirstLogin m) s = Some (closed, out, s')"
  shows "(closed \<and> s' = s \<and> (\<exists>e. out = [LoginRefused e]))
    \<or> (\<not> closed \<and> out = [] \<and> svc_next s' = Suc (svc_next s)
       \<and> (\<exists>ret. pm_Login (sx_plugins env) \<lparr>lc_Login = m, lc_ClientAddress = cn_addr cn\<rparr> = ok ret
            \<and> sg_PrivilegeKey (lc_Login ret) = GetAuthKey md5hex token (sg_Timestamp (lc_Login ret))))"
proof -
  have ver: "sg_PrivilegeKey l = GetAuthKey md5hex token (sg_Timestamp l)"
    if "RegisterControl_new env r crypto_ok now False l = Some (ok ctl)" for r crypto_ok now l and ctl :: "'a Control"
    using that by (auto simp: RegisterControl_new_def tok token_verifier_def VerifyLogin_def NewTokenAuth_def Let_def
        signed.defs split: option.splits sum.splits if_splits)
  show ?thesis using h ext
    by (auto simp: handleConnection_def RegisterControl_add_def cm_Add_def Let_def dest: ver split: sum.splits option.splits)
qed

text \<open>C10. A work connection that is accepted was accepted by the plugins and by the verifier of the latest control of its run id. It is put at the end of the pool of that control, which has room for it, and
  nothing else changes; but if the worker of that control has closed the pool already, the connection goes nowhere and nothing changes at all. A connection that is not accepted changes nothing; the control itself only
  refuses it if its pool is open and full.\<close>

theorem work_conn_routed:
  assumes "svc_RegisterWorkConn env conn m s = (res, out, s')"
  shows "case res of
      Inl e \<Rightarrow> s' = s \<and> (e = SvcControl WorkConnPoolFull \<longrightarrow>
        (\<exists>i. svc_byRun s (nw_RunID m) = Some i \<and> \<not> ctl_chanClosed (svc_ctl s i) \<and> length (ctl_workConnCh (svc_ctl s i)) \<ge> ctl_workConnCap (svc_ctl s i)))
    | Inr _ \<Rightarrow> \<exists>i ret. svc_byRun s (nw_RunID m) = Some i
        \<and> pm_NewWorkConn (sx_plugins env) \<lparr>nwc_User = loginUserInfo (svc_ctl s i), nwc_NewWorkConn = m\<rparr> = ok ret
        \<and> vf_NewWorkConn (ctl_verifier (svc_ctl s i)) (signed.truncate (nwc_NewWorkConn ret)) = ok ()
        \<and> (if ctl_chanClosed (svc_ctl s i) then s' = s
           else length (ctl_workConnCh (svc_ctl s i)) < ctl_workConnCap (svc_ctl s i)
             \<and> s' = set_ctl i ((svc_ctl s i)\<lparr>ctl_workConnCh := ctl_workConnCh (svc_ctl s i) @ [conn]\<rparr>) s)"
proof -
  have same: "set_ctl i (svc_ctl s i) s = s" for i by (simp add: set_ctl_def)
  show ?thesis using assms
    by (auto simp: svc_RegisterWorkConn_def cm_GetByID_def Let_def RegisterWorkConn_def same
        split: option.splits sum.splits prod.splits if_splits)
qed

section \<open>A refused control\<close>

text \<open>A control that is refused because of its client id never closes its channel \<open>doneCh\<close>. A later
  control of the same run that was added meanwhile waits for it, and waits for ever, whatever the
  service does; so do all further logins with this run id.\<close>

lemma se_step_blocked:
  assumes "se_step s s'" and "i < se_next s" and "se_phase s i = Awaits j" and "se_phase s j = Rejected" and "j < i" and "\<not> se_done s j"
  shows "se_phase s' i = Awaits j \<and> se_phase s' j = Rejected"
  using assms by cases auto

theorem refused_blocks_forever:
  assumes reach: "svc_reach env md5hex scale quals s" and i: "i < svc_next s" "svc_phase s i = Awaits j" "svc_phase s j = Rejected"
    and step: "svc_step env md5hex scale quals s s'"
  shows "svc_phase s' i = Awaits j \<and> svc_phase s' j = Rejected"
proof -
  have inv: "se_inv (sess s)" using svc_reach_inv [OF reach] by (simp add: svc_inv_def)
  have "predecessor (sess s) j i" using inv i by (auto simp: se_inv_def sess_ok_def sess_def)
  then have j: "j < i" by (simp add: predecessor_def)
  then have "sess_ok (sess s) j" using inv i by (simp add: se_inv_def sess_def)
  then have nd: "\<not> se_done (sess s) j" using i by (auto simp: sess_ok_def sess_def)
  from svc_step_sim [OF step svc_reach_inv [OF reach]]
  have "sess s' = sess s \<or> se_step (sess s) (sess s')" by blast
  moreover have "se_phase (sess s) i = Awaits j" "se_phase (sess s) j = Rejected" "i < se_next (sess s)" using i by (simp_all add: sess_def)
  ultimately have "se_phase (sess s') i = Awaits j \<and> se_phase (sess s') j = Rejected"
    using se_step_blocked [of "sess s" "sess s'" i j] j nd by metis
  then show ?thesis by (simp add: sess_def)
qed

section \<open>Concrete runs\<close>

definition demo_env :: svc_env where
  "demo_env = \<lparr>sx_cfg = demo_server_cfg, sx_verifier = AlwaysPassVerifier, sx_plugins = NewPluginManager, sx_show = (\<lambda>_. []), sx_version = ''0.65''\<rparr>"

definition demo_svc :: "nat service" where
  "demo_svc = \<lparr>svc_srv = demo_srv, svc_byRun = Map.empty, svc_phase = (\<lambda>_. Ready), svc_next = 0\<rparr>"

definition demo_conn :: "nat conn_info" where
  "demo_conn = \<lparr>cn_conn = 1, cn_addr = ''10.0.0.1'', cn_internal = False, cn_randID = None, cn_crypto_ok = True, cn_now = 0\<rparr>"

definition client :: "string \<Rightarrow> string \<Rightarrow> nat Control" where
  "client run cid = demo_ctl\<lparr>ctl_runID := run, ctl_login := demo_login\<lparr>lg_RunID := run, lg_ClientID := cid\<rparr>\<rparr>"

abbreviation demo_reached :: "nat service \<Rightarrow> bool" where
  "demo_reached \<equiv> svc_reach demo_env id (\<lambda>_ _. None) (\<lambda>_. [])"

lemma demo_handle:
  assumes "run \<noteq> []"
  shows "handleConnection demo_env id True demo_conn (FirstLogin (demo_login\<lparr>lg_RunID := run, lg_ClientID := cid\<rparr>)) s
      = Some (False, [], RegisterControl_add (client run cid) s)"
  using assms
  by (simp add: handleConnection_def pm_Login_def demo_env_def NewPluginManager_def RegisterControl_new_def demo_conn_def
      AlwaysPassVerifier_def NewControl_def demo_login_def demo_server_cfg_def client_def demo_ctl_def Let_def)

lemma demo_logged_in:
  assumes "demo_reached s" and "run \<noteq> []"
  shows "demo_reached (RegisterControl_add (client run cid) s)"
  using svc_reach.step [OF assms(1) svc_step.connection [OF demo_handle [OF assms(2)]]] .

lemma demo_svc_reached: "demo_reached demo_svc"
  by (rule svc_reach.start) (simp add: svc_start_def demo_svc_def srv_start_def demo_srv_def demo_ctl_def demo_st_def)

lemma demo_finish:
  assumes "demo_reached s" and "i < svc_next s" and "svc_phase s i = Ready"
  shows "demo_reached (snd (RegisterControl_finish demo_env ''10.0.0.1'' 7 i s))"
  using svc_reach.step [OF assms(1) svc_step.finish [OF assms(2,3), of demo_env "''10.0.0.1''" 7]] by (metis prod.collapse)

lemmas service_eval = RegisterControl_add_def RegisterControl_finish_def cm_Add_def cm_Del_def Let_def client_def demo_svc_def
  demo_srv_def demo_ctl_def demo_login_def demo_st_def Register_def NewClientRegistry_def composeClientKey_def
  fill_info_def empty_info_def Replaced_def control_Close_def

text \<open>Three logins: a client with the id \<open>k\<close>; another run with the same id; a second login of that
  other run before the first one is refused.\<close>

lemma refused_reachable: "\<exists>s. demo_reached s \<and> svc_next s = 3 \<and> svc_phase s 2 = Awaits 1 \<and> svc_phase s 1 = Rejected"
proof -
  let ?s1 = "RegisterControl_add (client ''a'' ''k'') demo_svc"
  have r1: "demo_reached ?s1" by (rule demo_logged_in [OF demo_svc_reached]) simp
  let ?s2 = "snd (RegisterControl_finish demo_env ''10.0.0.1'' 7 0 ?s1)"
  have r2: "demo_reached ?s2" by (rule demo_finish [OF r1]) (simp_all add: service_eval)
  let ?s3 = "RegisterControl_add (client ''b'' ''k'') ?s2"
  have r3: "demo_reached ?s3" by (rule demo_logged_in [OF r2]) simp
  let ?s4 = "RegisterControl_add (client ''b'' ''k'') ?s3"
  have r4: "demo_reached ?s4" by (rule demo_logged_in [OF r3]) simp
  let ?s5 = "snd (RegisterControl_finish demo_env ''10.0.0.1'' 7 1 ?s4)"
  have r5: "demo_reached ?s5" by (rule demo_finish [OF r4]) (simp_all add: service_eval)
  show ?thesis by (intro exI [of _ ?s5] conjI r5) (simp_all add: service_eval)
qed

text \<open>A run that is taken over: the first control is started, replaced and ends, then the second one
  may start.\<close>

lemma takeover_reachable:
  "\<exists>s. demo_reached s \<and> svc_next s = 2 \<and> svc_phase s 1 = Ready \<and> svc_phase s 0 = Running
     \<and> lg_RunID (ctl_login (svc_ctl s 0)) = lg_RunID (ctl_login (svc_ctl s 1))"
proof -
  let ?s1 = "RegisterControl_add (client ''a'' ''k'') demo_svc"
  have r1: "demo_reached ?s1" by (rule demo_logged_in [OF demo_svc_reached]) simp
  let ?s2 = "snd (RegisterControl_finish demo_env ''10.0.0.1'' 7 0 ?s1)"
  have r2: "demo_reached ?s2" by (rule demo_finish [OF r1]) (simp_all add: service_eval)
  define s3 where "s3 = RegisterControl_add (client ''a'' ''k'') ?s2"
  have r3: "demo_reached s3" unfolding s3_def by (rule demo_logged_in [OF r2]) simp
  have p3: "svc_next s3 = 2" "svc_phase s3 0 = Running" "svc_phase s3 1 = Awaits 0" "idle (svc_srv s3) 0"
    "lg_RunID (ctl_login (svc_ctl s3 0)) = ''a''" "lg_RunID (ctl_login (svc_ctl s3 1)) = ''a''" "ctl_proxies (svc_ctl s3 0) = []"
    by (simp_all add: s3_def service_eval idle_def)
  obtain conns ctl where w: "worker_begin (svc_ctl s3 0) = (conns, [], ctl)" "ctl_login ctl = ctl_login (svc_ctl s3 0)"
    by (simp add: worker_begin_def p3(7))
  define v4 where "v4 = (svc_srv s3)\<lparr>srv_ctls := (srv_ctls (svc_srv s3))(0 := ctl), srv_ending := (srv_ending (svc_srv s3))(0 \<mapsto> [])\<rparr>"
  have "srv_step (\<lambda>_ _. None) (\<lambda>_. []) (sx_cfg demo_env) 0 (svc_srv s3) v4"
    unfolding v4_def by (rule srv_step.end_begin [OF p3(4) w(1)])
  then have r4: "demo_reached (s3\<lparr>svc_srv := v4\<rparr>)" using r3 p3 by (intro svc_reach.step [OF r3] svc_step.work [of 0]) auto
  let ?c5 = "fst (worker_finish 8 (srv_ctls v4 0) (srv_st v4))" and ?st5 = "snd (worker_finish 8 (srv_ctls v4 0) (srv_st v4))"
  define v5 where "v5 = v4\<lparr>srv_ctls := (srv_ctls v4)(0 := ?c5), srv_ending := (srv_ending v4)(0 := None), srv_st := ?st5\<rparr>"
  have "srv_step (\<lambda>_ _. None) (\<lambda>_. []) (sx_cfg demo_env) 0 v4 v5"
    unfolding v5_def by (rule srv_step.end_finish [where now = 8]) (simp_all add: v4_def)
  then have "demo_reached ((s3\<lparr>svc_srv := v4\<rparr>)\<lparr>svc_srv := v5\<rparr>)"
    using p3 by (intro svc_reach.step [OF r4] svc_step.work [of 0]) auto
  then have r5: "demo_reached (s3\<lparr>svc_srv := v5\<rparr>)" by simp
  let ?s6 = "(s3\<lparr>svc_srv := v5\<rparr>)\<lparr>svc_phase := (svc_phase (s3\<lparr>svc_srv := v5\<rparr>))(1 := Ready)\<rparr>"
  have d: "ctl_done (srv_ctls v5 0)" by (simp add: v5_def worker_finish_def)
  have "demo_reached ?s6"
    by (rule svc_reach.step [OF r5], rule svc_step.old_done [of 1 _ 0]) (use p3 d in simp_all)
  moreover have "ctl_login (srv_ctls v5 0) = ctl_login (svc_ctl s3 0)" "srv_ctls v5 1 = svc_ctl s3 1"
    by (simp_all add: v5_def v4_def worker_finish_def w(2))
  ultimately show ?thesis using p3 by (intro exI [of _ ?s6]) simp
qed

theorem service_refines_sessions_witness:
  "sess (RegisterControl_add (client ''a'' ''k'') demo_svc) = sess demo_svc
     \<or> se_step (sess demo_svc) (sess (RegisterControl_add (client ''a'' ''k'') demo_svc))"
proof -
  have "handleConnection demo_env id True demo_conn (FirstLogin (demo_login\<lparr>lg_RunID := ''a'', lg_ClientID := ''k''\<rparr>)) demo_svc
      = Some (False, [], RegisterControl_add (client ''a'' ''k'') demo_svc)"
    by (rule demo_handle) simp
  from service_refines_sessions [OF demo_svc_reached svc_step.connection [OF this]] show ?thesis .
qed

theorem one_control_per_run_witness:
  "\<exists>s. demo_reached s \<and> svc_phase s 1 = Ready \<and> svc_phase s 0 = Running
     \<and> lg_RunID (ctl_login (svc_ctl s 0)) = lg_RunID (ctl_login (svc_ctl s 1)) \<and> holds (svc_srv s) 0 = [] \<and> ctl_done (svc_ctl s 0)"
proof -
  obtain s where s: "demo_reached s" "svc_next s = 2" "svc_phase s 1 = Ready" "svc_phase s 0 = Running"
      "lg_RunID (ctl_login (svc_ctl s 0)) = lg_RunID (ctl_login (svc_ctl s 1))"
    using takeover_reachable by blast
  from one_control_per_run [OF s(1), of 1 0] s show ?thesis by (intro exI [of _ s]) auto
qed

definition demo_token_env :: svc_env where
  "demo_token_env = demo_env\<lparr>sx_verifier := token_verifier (\<lambda>x. x) (NewTokenAuth [] ''secret'')\<rparr>"

theorem login_authenticated_witness:
  "\<exists>s'. handleConnection demo_token_env id True demo_conn (FirstLogin (demo_login\<lparr>sg_PrivilegeKey := ''secret0''\<rparr>)) demo_svc = Some (False, [], s')
     \<and> svc_next s' = 1"
proof -
  have k: "GetAuthKey (\<lambda>x. x) ''secret'' 0 = ''secret0''" by code_simp
  have "\<exists>s'. handleConnection demo_token_env id True demo_conn (FirstLogin (demo_login\<lparr>sg_PrivilegeKey := ''secret0''\<rparr>)) demo_svc = Some (False, [], s')"
    by (simp add: handleConnection_def pm_Login_def demo_token_env_def demo_env_def NewPluginManager_def RegisterControl_new_def
        demo_conn_def token_verifier_def VerifyLogin_def NewTokenAuth_def k NewControl_def demo_login_def demo_server_cfg_def
        signed.defs Let_def)
  then obtain s' where h: "handleConnection demo_token_env id True demo_conn (FirstLogin (demo_login\<lparr>sg_PrivilegeKey := ''secret0''\<rparr>)) demo_svc
      = Some (False, [], s')" ..
  have t: "sx_verifier demo_token_env = token_verifier (\<lambda>x. x) (NewTokenAuth [] ''secret'')" and e: "\<not> cn_internal demo_conn"
    by (simp_all add: demo_token_env_def demo_conn_def)
  from login_authenticated [OF t e h] h show ?thesis by (simp add: demo_svc_def)
qed

theorem work_conn_routed_witness:
  "\<exists>s'. svc_RegisterWorkConn demo_env 5 \<lparr>sg_Timestamp = 0, sg_PrivilegeKey = [], nw_RunID = ''a''\<rparr> (RegisterControl_add (client ''a'' ''k'') demo_svc)
       = (ok (), [], s') \<and> ctl_workConnCh (svc_ctl s' 0) = [5]"
proof -
  let ?s = "RegisterControl_add (client ''a'' ''k'') demo_svc" and ?m = "\<lparr>sg_Timestamp = 0, sg_PrivilegeKey = [], nw_RunID = ''a''\<rparr>"
  have c: "svc_ctl ?s 0 = client ''a'' ''k''" "svc_byRun ?s ''a'' = Some 0"
    by (simp_all add: RegisterControl_add_def cm_Add_def Let_def demo_svc_def client_def demo_login_def)
  have v: "vf_NewWorkConn (ctl_verifier (client ''a'' ''k'')) x = ok ()" for x by (simp add: client_def demo_ctl_def AlwaysPassVerifier_def)
  have p: "\<not> ctl_chanClosed (client ''a'' ''k'')" "ctl_workConnCh (client ''a'' ''k'') = []" by (simp_all add: client_def demo_ctl_def)
  obtain ctl' where r: "RegisterWorkConn 5 (client ''a'' ''k'') = (None, ctl')"
    by (simp add: RegisterWorkConn_def client_def demo_ctl_def)
  have "\<exists>s'. svc_RegisterWorkConn demo_env 5 ?m ?s = (ok (), [], s')"
    by (simp add: svc_RegisterWorkConn_def cm_GetByID_def c demo_env_def pm_NewWorkConn_def NewPluginManager_def Let_def v r)
  then obtain s' where h: "svc_RegisterWorkConn demo_env 5 ?m ?s = (ok (), [], s')" ..
  from work_conn_routed [OF h] c p have "ctl_workConnCh (svc_ctl s' 0) = [5]" by (auto simp: set_ctl_def)
  then show ?thesis using h by blast
qed

end
