(* ===== verification/Date_Counter.thy ===== *)
theory Date_Counter
  imports Prelude "HOL-Library.Word"
begin

text \<open>
  The counters of \<^verbatim>\<open>pkg/util/metric\<close>: a counter, and a counter per day that keeps the last days.
  Counters are machine integers. The current time is an argument; \<open>midnight\<close> gives the start of the
  local day of a time (\<open>time.Date\<close> with the hours cleared), in nanoseconds.
\<close>

section \<open>Counter\<close>

type_synonym Counter = "32 word"

definition NewCounter :: Counter where "NewCounter = 0"

definition ctr_Inc :: "32 word \<Rightarrow> Counter \<Rightarrow> Counter" where "ctr_Inc n c = c + n"

definition ctr_Dec :: "32 word \<Rightarrow> Counter \<Rightarrow> Counter" where "ctr_Dec n c = c - n"

section \<open>Date counter\<close>

record DateCounter =
  sdc_reserveDays :: nat
  sdc_counts :: "64 word list"
  sdc_lastUpdateDate :: int

definition day_ns :: int where "day_ns = 24 * 3600 * 10 ^ 9"

definition NewDateCounter :: "(int \<Rightarrow> int) \<Rightarrow> int \<Rightarrow> int \<Rightarrow> DateCounter" where
  "NewDateCounter midnight now reserveDays =
     (let n = nat (if reserveDays \<le> 0 then 1 else reserveDays)
      in \<lparr>sdc_reserveDays = n, sdc_counts = replicate n 0, sdc_lastUpdateDate = midnight now\<rparr>)"

definition rotate_days :: "(int \<Rightarrow> int) \<Rightarrow> int \<Rightarrow> DateCounter \<Rightarrow> DateCounter" where
  "rotate_days midnight now c =
     (let day = midnight now;
          days = (day - sdc_lastUpdateDate c) div day_ns;
          n = sdc_reserveDays c;
          counts = (if days \<le> 0 then sdc_counts c
                    else if days \<ge> int n then replicate n 0
                    else map (\<lambda>i. if i < nat days then 0 else sdc_counts c ! (i - nat days)) [0..<n])
      in c\<lparr>sdc_counts := counts, sdc_lastUpdateDate := day\<rparr>)"

definition TodayCount :: "(int \<Rightarrow> int) \<Rightarrow> int \<Rightarrow> DateCounter \<Rightarrow> 64 word \<times> DateCounter" where
  "TodayCount midnight now c = (let c' = rotate_days midnight now c in (hd (sdc_counts c'), c'))"

definition GetLastDaysCount :: "(int \<Rightarrow> int) \<Rightarrow> int \<Rightarrow> nat \<Rightarrow> DateCounter \<Rightarrow> 64 word list \<times> DateCounter" where
  "GetLastDaysCount midnight now lastdays c =
     (let k = (if lastdays > sdc_reserveDays c then sdc_reserveDays c else lastdays);
          c' = rotate_days midnight now c
      in (take k (sdc_counts c'), c'))"

definition dc_Inc :: "(int \<Rightarrow> int) \<Rightarrow> int \<Rightarrow> 64 word \<Rightarrow> DateCounter \<Rightarrow> DateCounter" where
  "dc_Inc midnight now amount c = (let c' = rotate_days midnight now c in c'\<lparr>sdc_counts := (sdc_counts c')[0 := sdc_counts c' ! 0 + amount]\<rparr>)"

definition dc_Dec :: "(int \<Rightarrow> int) \<Rightarrow> int \<Rightarrow> 64 word \<Rightarrow> DateCounter \<Rightarrow> DateCounter" where
  "dc_Dec midnight now amount c = (let c' = rotate_days midnight now c in c'\<lparr>sdc_counts := (sdc_counts c')[0 := sdc_counts c' ! 0 - amount]\<rparr>)"

definition dc_Snapshot :: "(int \<Rightarrow> int) \<Rightarrow> int \<Rightarrow> DateCounter \<Rightarrow> DateCounter" where
  "dc_Snapshot midnight now c = (NewDateCounter midnight now (int (sdc_reserveDays c)))\<lparr>sdc_counts := sdc_counts c\<rparr>"

definition dc_Clear :: "DateCounter \<Rightarrow> DateCounter" where
  "dc_Clear c = c\<lparr>sdc_counts := replicate (sdc_reserveDays c) 0\<rparr>"

section \<open>What it counts\<close>

text \<open>Days of 24 hours: the start of the day of a time is a multiple of a day after some
  offset.\<close>

definition plain_days :: "(int \<Rightarrow> int) \<Rightarrow> bool" where
  "plain_days midnight \<longleftrightarrow> (\<forall>t. midnight t \<le> t \<and> t < midnight t + day_ns) \<and> (\<forall>t u. (midnight t - midnight u) mod day_ns = 0)"

text \<open>The specification: the amounts that fell on a day.\<close>

definition on_day :: "(int \<Rightarrow> int) \<Rightarrow> int \<Rightarrow> (int \<times> 64 word) list \<Rightarrow> 64 word" where
  "on_day midnight day xs = sum_list (map snd (filter (\<lambda>(t, a). midnight t = day) xs))"

definition dc_ok :: "(int \<Rightarrow> int) \<Rightarrow> (int \<times> 64 word) list \<Rightarrow> DateCounter \<Rightarrow> bool" where
  "dc_ok midnight xs c \<longleftrightarrow> sdc_reserveDays c > 0 \<and> length (sdc_counts c) = sdc_reserveDays c
     \<and> (\<forall>i < sdc_reserveDays c. sdc_counts c ! i = on_day midnight (sdc_lastUpdateDate c - int i * day_ns) xs)
     \<and> (\<forall>(t, a) \<in> set xs. midnight t \<le> sdc_lastUpdateDate c)"

lemma day_ns_pos: "day_ns > 0"
  by (simp add: day_ns_def)

lemma on_day_none: "(\<And>t a. (t, a) \<in> set xs \<Longrightarrow> midnight t \<noteq> day) \<Longrightarrow> on_day midnight day xs = 0"
  by (induction xs) (auto simp: on_day_def)

lemma midnight_mono:
  assumes "plain_days midnight" and "t \<le> u"
  shows "midnight t \<le> midnight u"
proof (rule ccontr)
  assume "\<not> midnight t \<le> midnight u"
  then have lt: "midnight u < midnight t" by simp
  obtain k where k: "midnight t - midnight u = day_ns * k"
    using assms(1) by (metis mod_0_imp_dvd dvdE plain_days_def)
  have "k \<ge> 1" using k lt day_ns_pos by (smt (verit) mult_nonneg_nonpos)
  then have "midnight t - midnight u \<ge> day_ns" using k day_ns_pos by (smt (verit) mult_le_cancel_left1)
  then show False using assms by (smt (verit) plain_days_def)
qed

lemma rotate_ok:
  assumes pd: "plain_days midnight" and ok: "dc_ok midnight xs c" and later: "sdc_lastUpdateDate c \<le> midnight now"
    and last: "\<exists>t0. sdc_lastUpdateDate c = midnight t0"
  shows "dc_ok midnight xs (rotate_days midnight now c) \<and> sdc_lastUpdateDate (rotate_days midnight now c) = midnight now
     \<and> sdc_reserveDays (rotate_days midnight now c) = sdc_reserveDays c"
proof -
  let ?n = "sdc_reserveDays c" and ?last = "sdc_lastUpdateDate c"
  define days where "days = (midnight now - ?last) div day_ns"
  have eq: "midnight now = ?last + days * day_ns"
    using pd last by (auto simp: days_def plain_days_def) (metis add.commute diff_add_cancel mult.commute mod_0_imp_dvd dvd_mult_div_cancel)
  have d0: "days \<ge> 0" using later day_ns_pos by (simp add: days_def pos_imp_zdiv_nonneg_iff)
  have N: "?n > 0" "length (sdc_counts c) = ?n" and C: "\<And>i. i < ?n \<Longrightarrow> sdc_counts c ! i = on_day midnight (?last - int i * day_ns) xs"
    and T: "\<And>t a. (t, a) \<in> set xs \<Longrightarrow> midnight t \<le> ?last"
    using ok by (auto simp: dc_ok_def)
  have future: "on_day midnight (midnight now - int i * day_ns) xs = 0" if "int i < days" for i
  proof (rule on_day_none)
    fix t a assume "(t, a) \<in> set xs"
    then have "midnight t \<le> ?last" by (rule T)
    moreover have "(days - int i) * day_ns > 0" using that day_ns_pos by simp
    ultimately show "midnight t \<noteq> midnight now - int i * day_ns" using eq by (simp add: algebra_simps)
  qed
  have shift: "midnight now - int i * day_ns = ?last - int (i - nat days) * day_ns" if "\<not> int i < days" for i
    using that d0 eq by (simp add: of_nat_diff nat_le_iff algebra_simps)
  define counts where "counts = sdc_counts (rotate_days midnight now c)"
  have "length counts = ?n" using N by (simp add: counts_def rotate_days_def Let_def)
  moreover have "counts ! i = on_day midnight (midnight now - int i * day_ns) xs" if i: "i < ?n" for i
  proof (cases "days = 0")
    case True
    then show ?thesis using C [OF i] eq i by (simp add: counts_def rotate_days_def Let_def days_def [symmetric])
  next
    case False
    then have pos: "days > 0" using d0 by simp
    show ?thesis
    proof (cases "int i < days")
      case True
      then have "counts ! i = 0" using i pos
        by (auto simp: counts_def rotate_days_def Let_def days_def [symmetric] zless_nat_conj nat_less_iff)
      then show ?thesis using future [OF True] by simp
    next
      case False
      then have "counts ! i = sdc_counts c ! (i - nat days)" using i pos
        by (auto simp: counts_def rotate_days_def Let_def days_def [symmetric] nat_less_iff)
      then show ?thesis using C [of "i - nat days"] i shift [OF False] by simp
    qed
  qed
  moreover have "midnight t \<le> midnight now" if "(t, a) \<in> set xs" for t a using T [OF that] later by simp
  ultimately show ?thesis using N(1)
    by (auto simp: dc_ok_def counts_def [symmetric]) (auto simp: rotate_days_def Let_def)
qed

lemma on_day_snoc: "on_day midnight day (xs @ [(t, a)]) = on_day midnight day xs + (if midnight t = day then a else 0)"
  by (simp add: on_day_def)

lemma dc_Inc_ok:
  assumes pd: "plain_days midnight" and ok: "dc_ok midnight xs c" and later: "sdc_lastUpdateDate c \<le> midnight t"
    and last: "\<exists>t0. sdc_lastUpdateDate c = midnight t0"
  shows "dc_ok midnight (xs @ [(t, a)]) (dc_Inc midnight t a c) \<and> sdc_lastUpdateDate (dc_Inc midnight t a c) = midnight t
     \<and> sdc_reserveDays (dc_Inc midnight t a c) = sdc_reserveDays c"
proof -
  let ?c = "rotate_days midnight t c"
  have R: "dc_ok midnight xs ?c" "sdc_lastUpdateDate ?c = midnight t" "sdc_reserveDays ?c = sdc_reserveDays c"
    using rotate_ok [OF pd ok later last] by blast+
  have old: "midnight t = midnight t - int i * day_ns \<longleftrightarrow> i = 0" for i using day_ns_pos by simp
  have "sdc_counts (dc_Inc midnight t a c) ! i = on_day midnight (midnight t - int i * day_ns) (xs @ [(t, a)])"
    if "i < sdc_reserveDays c" for i
    using R that old [of i] by (cases "i = 0") (auto simp: dc_Inc_def dc_ok_def Let_def on_day_snoc)
  then show ?thesis using R by (auto simp: dc_ok_def dc_Inc_def Let_def)
qed

fun inc_all :: "(int \<Rightarrow> int) \<Rightarrow> (int \<times> 64 word) list \<Rightarrow> DateCounter \<Rightarrow> DateCounter" where
  "inc_all midnight [] c = c"
| "inc_all midnight ((t, a) # xs) c = inc_all midnight xs (dc_Inc midnight t a c)"

lemma inc_all_ok:
  assumes "plain_days midnight" and "dc_ok midnight ys c" and "sdc_lastUpdateDate c = midnight t0" and "sorted (t0 # map fst xs)"
  shows "dc_ok midnight (ys @ xs) (inc_all midnight xs c) \<and> sdc_reserveDays (inc_all midnight xs c) = sdc_reserveDays c
     \<and> sdc_lastUpdateDate (inc_all midnight xs c) = midnight (last (t0 # map fst xs))"
  using assms(2-4)
proof (induction xs arbitrary: ys c t0)
  case (Cons x xs)
  obtain t a where x: "x = (t, a)" by fastforce
  have "sdc_lastUpdateDate c \<le> midnight t" using Cons.prems assms(1) midnight_mono [of midnight t0 t] by (simp add: x)
  then have I: "dc_ok midnight (ys @ [(t, a)]) (dc_Inc midnight t a c)" "sdc_lastUpdateDate (dc_Inc midnight t a c) = midnight t"
      "sdc_reserveDays (dc_Inc midnight t a c) = sdc_reserveDays c"
    using dc_Inc_ok [OF assms(1) Cons.prems(1)] Cons.prems(2) by blast+
  from Cons.IH [OF I(1,2)] Cons.prems(3) I(3) show ?case by (simp add: x)
qed simp

text \<open>A date counter counts per day. For increments in the order of time, with days of 24 hours, the
  counts of the last days are the sums of the amounts that fell on today, yesterday and so on,
  for as many days as are asked for and kept.\<close>

theorem date_counter_correct:
  assumes pd: "plain_days midnight" and time: "sorted (t0 # map fst xs @ [now])"
  shows "fst (GetLastDaysCount midnight now k (inc_all midnight xs (NewDateCounter midnight t0 r)))
     = map (\<lambda>i. on_day midnight (midnight now - int i * day_ns) xs) [0..<min k (nat (max 1 r))]"
proof -
  let ?new = "NewDateCounter midnight t0 r" and ?c = "inc_all midnight xs (NewDateCounter midnight t0 r)"
  have n: "sdc_reserveDays ?new = nat (max 1 r)" "sdc_lastUpdateDate ?new = midnight t0" by (simp_all add: NewDateCounter_def Let_def max_def)
  have "dc_ok midnight [] ?new" by (auto simp: dc_ok_def NewDateCounter_def Let_def on_day_def)
  moreover have s: "sorted (t0 # map fst xs)" using time by (simp add: sorted_append)
  ultimately have I: "dc_ok midnight xs ?c" "sdc_reserveDays ?c = nat (max 1 r)" "sdc_lastUpdateDate ?c = midnight (last (t0 # map fst xs))"
    using inc_all_ok [OF pd _ n(2), of "[]" xs] n(1) by simp_all
  have "last (t0 # map fst xs) \<le> now" using time last_in_set [of "t0 # map fst xs"] by (auto simp: sorted_append)
  then have R: "dc_ok midnight xs (rotate_days midnight now ?c)" "sdc_lastUpdateDate (rotate_days midnight now ?c) = midnight now"
      "sdc_reserveDays (rotate_days midnight now ?c) = nat (max 1 r)"
    using rotate_ok [OF pd I(1), of now] I midnight_mono [OF pd] by auto
  have "fst (GetLastDaysCount midnight now k ?c) = take (min k (nat (max 1 r))) (sdc_counts (rotate_days midnight now ?c))"
    using I(2) by (simp add: GetLastDaysCount_def Let_def min_def)
  also have "\<dots> = map (\<lambda>i. on_day midnight (midnight now - int i * day_ns) xs) [0..<min k (nat (max 1 r))]"
    using R unfolding dc_ok_def by (intro nth_equalityI) auto
  finally show ?thesis .
qed

definition utc :: "int \<Rightarrow> int" where
  "utc t = t div day_ns * day_ns"

lemma plain_days_utc: "plain_days utc"
proof -
  have "t div day_ns * day_ns \<le> t \<and> t < t div day_ns * day_ns + day_ns" for t
    using day_ns_pos pos_mod_sign [of day_ns t] pos_mod_bound [of day_ns t] div_mult_mod_eq [of t day_ns] by linarith
  moreover have "(t div day_ns * day_ns - u div day_ns * day_ns) mod day_ns = 0" for t u
    by (simp add: left_diff_distrib [symmetric])
  ultimately show ?thesis by (simp add: plain_days_def utc_def)
qed

theorem date_counter_correct_witness:
  "fst (GetLastDaysCount utc (day_ns + 9) 2 (inc_all utc [(5, 3), (day_ns + 7, 4)] (NewDateCounter utc 0 7))) = [4, 3]"
proof -
  have "on_day utc (utc (day_ns + 9)) [(5, 3), (day_ns + 7, 4)] = 4" "on_day utc (utc (day_ns + 9) - day_ns) [(5, 3), (day_ns + 7, 4)] = 3"
    by (simp_all add: on_day_def utc_def day_ns_def)
  then show ?thesis
    using date_counter_correct [OF plain_days_utc, of 0 "[(5, 3), (day_ns + 7, 4)]" "day_ns + 9" 2 7]
    by (simp add: day_ns_def numeral_2_eq_2)
qed

text \<open>A day of 23 hours, when clocks go forward, is not seen as a new day: a counter that counted 5
  before midnight still shows 5 after it.\<close>

theorem short_day_merged:
  "fst (TodayCount (\<lambda>t. if t < 23 * 3600 * 10 ^ 9 then 0 else 23 * 3600 * 10 ^ 9) (24 * 3600 * 10 ^ 9)
     (dc_Inc (\<lambda>t. if t < 23 * 3600 * 10 ^ 9 then 0 else 23 * 3600 * 10 ^ 9) 1 5 (NewDateCounter (\<lambda>t. if t < 23 * 3600 * 10 ^ 9 then 0 else 23 * 3600 * 10 ^ 9) 0 7))) = 5"
  by (simp add: TodayCount_def dc_Inc_def NewDateCounter_def rotate_days_def day_ns_def Let_def eval_nat_numeral)

end
