(* ===== verification/Server_Metrics.thy ===== *)
theory Server_Metrics
  imports Date_Counter
begin

text \<open>
  The statistics of frps in memory, \<^verbatim>\<open>pkg/metrics/mem/server.go\<close>. The current time and the start of days
  are arguments, the layout of times in the answers is a parameter. A time that was never set is
  \<open>None\<close>.
\<close>

section \<open>State\<close>

definition ReserveDays :: int where "ReserveDays = 7"

record ProxyStatistics =
  ps_Name :: string
  ps_ProxyType :: string
  ps_User :: string
  ps_ClientID :: string
  ps_TrafficIn :: DateCounter
  ps_TrafficOut :: DateCounter
  ps_CurConns :: Counter
  ps_LastStartTime :: "int option"
  ps_LastCloseTime :: "int option"

record ServerStatistics =
  sm_TotalTrafficIn :: DateCounter
  sm_TotalTrafficOut :: DateCounter
  sm_CurConns :: Counter
  sm_ClientCounts :: Counter
  sm_ProxyTypeCounts :: "(string \<times> Counter) list"
  sm_ProxyStatistics :: "(string \<times> ProxyStatistics) list"

definition newServerMetrics :: "(int \<Rightarrow> int) \<Rightarrow> int \<Rightarrow> ServerStatistics" where
  "newServerMetrics midnight now =
     \<lparr>sm_TotalTrafficIn = NewDateCounter midnight now ReserveDays, sm_TotalTrafficOut = NewDateCounter midnight now ReserveDays,
      sm_CurConns = NewCounter, sm_ClientCounts = NewCounter, sm_ProxyTypeCounts = [], sm_ProxyStatistics = []\<rparr>"

section \<open>Events\<close>

definition useless :: "int \<Rightarrow> int \<Rightarrow> ProxyStatistics \<Rightarrow> bool" where
  "useless now offline d =
     (case ps_LastCloseTime d of
        None \<Rightarrow> False
      | Some close \<Rightarrow> (case ps_LastStartTime d of None \<Rightarrow> True | Some start \<Rightarrow> start < close) \<and> now - close > offline)"

definition clearUselessInfo :: "int \<Rightarrow> int \<Rightarrow> ServerStatistics \<Rightarrow> (nat \<times> nat) \<times> ServerStatistics" where
  "clearUselessInfo now offline m =
     (let kept = filter (\<lambda>(n, d). \<not> useless now offline d) (sm_ProxyStatistics m);
          total = length (sm_ProxyStatistics m)
      in ((total - length kept, total), m\<lparr>sm_ProxyStatistics := kept\<rparr>))"

definition ClearOfflineProxies :: "int \<Rightarrow> ServerStatistics \<Rightarrow> (nat \<times> nat) \<times> ServerStatistics" where
  "ClearOfflineProxies now m = clearUselessInfo now 0 m"

definition sm_NewClient :: "ServerStatistics \<Rightarrow> ServerStatistics" where
  "sm_NewClient m = m\<lparr>sm_ClientCounts := ctr_Inc 1 (sm_ClientCounts m)\<rparr>"

definition sm_CloseClient :: "ServerStatistics \<Rightarrow> ServerStatistics" where
  "sm_CloseClient m = m\<lparr>sm_ClientCounts := ctr_Dec 1 (sm_ClientCounts m)\<rparr>"

definition sm_NewProxy :: "(int \<Rightarrow> int) \<Rightarrow> int \<Rightarrow> string \<Rightarrow> string \<Rightarrow> string \<Rightarrow> string \<Rightarrow> ServerStatistics \<Rightarrow> ServerStatistics" where
  "sm_NewProxy midnight now name proxyType user clientID m =
     (let counter = (case map_of (sm_ProxyTypeCounts m) proxyType of None \<Rightarrow> NewCounter | Some c \<Rightarrow> c);
          fresh = \<lparr>ps_Name = name, ps_ProxyType = proxyType, ps_User = [], ps_ClientID = [],
                   ps_TrafficIn = NewDateCounter midnight now ReserveDays, ps_TrafficOut = NewDateCounter midnight now ReserveDays,
                   ps_CurConns = NewCounter, ps_LastStartTime = None, ps_LastCloseTime = None\<rparr>;
          stats = (case map_of (sm_ProxyStatistics m) name of
                     None \<Rightarrow> fresh
                   | Some d \<Rightarrow> if ps_ProxyType d \<noteq> proxyType then fresh else d)
      in m\<lparr>sm_ProxyTypeCounts := map_put proxyType (ctr_Inc 1 counter) (sm_ProxyTypeCounts m),
           sm_ProxyStatistics := map_put name (stats\<lparr>ps_User := user, ps_ClientID := clientID, ps_LastStartTime := Some now\<rparr>) (sm_ProxyStatistics m)\<rparr>)"

text \<open>Changing the statistics of a proxy, if there are any.\<close>

definition on_stats :: "string \<Rightarrow> (ProxyStatistics \<Rightarrow> ProxyStatistics) \<Rightarrow> ServerStatistics \<Rightarrow> ServerStatistics" where
  "on_stats name f m =
     (case map_of (sm_ProxyStatistics m) name of
        None \<Rightarrow> m
      | Some d \<Rightarrow> m\<lparr>sm_ProxyStatistics := map_put name (f d) (sm_ProxyStatistics m)\<rparr>)"

definition sm_CloseProxy :: "int \<Rightarrow> string \<Rightarrow> string \<Rightarrow> ServerStatistics \<Rightarrow> ServerStatistics" where
  "sm_CloseProxy now name proxyType m =
     (let m = (case map_of (sm_ProxyTypeCounts m) proxyType of
                 None \<Rightarrow> m
               | Some c \<Rightarrow> m\<lparr>sm_ProxyTypeCounts := map_put proxyType (ctr_Dec 1 c) (sm_ProxyTypeCounts m)\<rparr>)
      in on_stats name (\<lambda>d. d\<lparr>ps_LastCloseTime := Some now\<rparr>) m)"

definition sm_OpenConnection :: "string \<Rightarrow> ServerStatistics \<Rightarrow> ServerStatistics" where
  "sm_OpenConnection name m = on_stats name (\<lambda>d. d\<lparr>ps_CurConns := ctr_Inc 1 (ps_CurConns d)\<rparr>) (m\<lparr>sm_CurConns := ctr_Inc 1 (sm_CurConns m)\<rparr>)"

definition sm_CloseConnection :: "string \<Rightarrow> ServerStatistics \<Rightarrow> ServerStatistics" where
  "sm_CloseConnection name m = on_stats name (\<lambda>d. d\<lparr>ps_CurConns := ctr_Dec 1 (ps_CurConns d)\<rparr>) (m\<lparr>sm_CurConns := ctr_Dec 1 (sm_CurConns m)\<rparr>)"

definition sm_AddTrafficIn :: "(int \<Rightarrow> int) \<Rightarrow> int \<Rightarrow> string \<Rightarrow> 64 word \<Rightarrow> ServerStatistics \<Rightarrow> ServerStatistics" where
  "sm_AddTrafficIn midnight now name n m =
     on_stats name (\<lambda>d. d\<lparr>ps_TrafficIn := dc_Inc midnight now n (ps_TrafficIn d)\<rparr>)
       (m\<lparr>sm_TotalTrafficIn := dc_Inc midnight now n (sm_TotalTrafficIn m)\<rparr>)"

definition sm_AddTrafficOut :: "(int \<Rightarrow> int) \<Rightarrow> int \<Rightarrow> string \<Rightarrow> 64 word \<Rightarrow> ServerStatistics \<Rightarrow> ServerStatistics" where
  "sm_AddTrafficOut midnight now name n m =
     on_stats name (\<lambda>d. d\<lparr>ps_TrafficOut := dc_Inc midnight now n (ps_TrafficOut d)\<rparr>)
       (m\<lparr>sm_TotalTrafficOut := dc_Inc midnight now n (sm_TotalTrafficOut m)\<rparr>)"

section \<open>Queries\<close>

record ServerStats =
  st_TotalTrafficIn :: "64 word"
  st_TotalTrafficOut :: "64 word"
  st_CurConns :: int
  st_ClientCounts :: int
  st_ProxyTypeCounts :: "(string \<times> int) list"

definition GetServer :: "(int \<Rightarrow> int) \<Rightarrow> int \<Rightarrow> ServerStatistics \<Rightarrow> ServerStats \<times> ServerStatistics" where
  "GetServer midnight now m =
     (let (i, ci) = TodayCount midnight now (sm_TotalTrafficIn m); (out, co) = TodayCount midnight now (sm_TotalTrafficOut m)
      in (\<lparr>st_TotalTrafficIn = i, st_TotalTrafficOut = out, st_CurConns = sint (sm_CurConns m), st_ClientCounts = sint (sm_ClientCounts m),
           st_ProxyTypeCounts = map (\<lambda>(k, v). (k, sint v)) (sm_ProxyTypeCounts m)\<rparr>,
          m\<lparr>sm_TotalTrafficIn := ci, sm_TotalTrafficOut := co\<rparr>))"

record ProxyStats =
  px_Name :: string
  px_Type :: string
  px_User :: string
  px_ClientID :: string
  px_TodayTrafficIn :: "64 word"
  px_TodayTrafficOut :: "64 word"
  px_LastStartTime :: string
  px_LastCloseTime :: string
  px_CurConns :: int

definition toProxyStats :: "(int \<Rightarrow> string) \<Rightarrow> (int \<Rightarrow> int) \<Rightarrow> int \<Rightarrow> string \<Rightarrow> ProxyStatistics \<Rightarrow> ProxyStats" where
  "toProxyStats layout midnight now name d =
     \<lparr>px_Name = name, px_Type = ps_ProxyType d, px_User = ps_User d, px_ClientID = ps_ClientID d,
      px_TodayTrafficIn = fst (TodayCount midnight now (ps_TrafficIn d)), px_TodayTrafficOut = fst (TodayCount midnight now (ps_TrafficOut d)),
      px_LastStartTime = (case ps_LastStartTime d of None \<Rightarrow> [] | Some t \<Rightarrow> layout t),
      px_LastCloseTime = (case ps_LastCloseTime d of None \<Rightarrow> [] | Some t \<Rightarrow> layout t), px_CurConns = sint (ps_CurConns d)\<rparr>"

definition GetProxiesByType :: "(int \<Rightarrow> string) \<Rightarrow> (int \<Rightarrow> int) \<Rightarrow> int \<Rightarrow> string \<Rightarrow> ServerStatistics \<Rightarrow> ProxyStats list" where
  "GetProxiesByType layout midnight now proxyType m =
     map (\<lambda>(n, d). toProxyStats layout midnight now n d) (filter (\<lambda>(n, d). ps_ProxyType d = proxyType) (sm_ProxyStatistics m))"

definition GetProxyByName :: "(int \<Rightarrow> string) \<Rightarrow> (int \<Rightarrow> int) \<Rightarrow> int \<Rightarrow> string \<Rightarrow> ServerStatistics \<Rightarrow> ProxyStats option" where
  "GetProxyByName layout midnight now name m = map_option (toProxyStats layout midnight now name) (map_of (sm_ProxyStatistics m) name)"

definition GetProxiesByTypeAndName ::
  "(int \<Rightarrow> string) \<Rightarrow> (int \<Rightarrow> int) \<Rightarrow> int \<Rightarrow> string \<Rightarrow> string \<Rightarrow> ServerStatistics \<Rightarrow> ProxyStats option" where
  "GetProxiesByTypeAndName layout midnight now proxyType name m =
     (case map_of (sm_ProxyStatistics m) name of
        Some d \<Rightarrow> (if ps_ProxyType d = proxyType then Some (toProxyStats layout midnight now name d) else None)
      | None \<Rightarrow> None)"

definition GetProxyTraffic :: "(int \<Rightarrow> int) \<Rightarrow> int \<Rightarrow> string \<Rightarrow> ServerStatistics \<Rightarrow> (64 word list \<times> 64 word list) option" where
  "GetProxyTraffic midnight now name m =
     map_option (\<lambda>d. (fst (GetLastDaysCount midnight now 7 (ps_TrafficIn d)), fst (GetLastDaysCount midnight now 7 (ps_TrafficOut d))))
       (map_of (sm_ProxyStatistics m) name)"

section \<open>What the numbers mean\<close>

datatype metric_event =
    EvNewClient | EvCloseClient
  | EvNewProxy string string string string | EvCloseProxy string string
  | EvOpenConn string | EvCloseConn string
  | EvTrafficIn string "64 word" | EvTrafficOut string "64 word"
  | EvClear int

fun metric_step :: "(int \<Rightarrow> int) \<Rightarrow> int \<times> metric_event \<Rightarrow> ServerStatistics \<Rightarrow> ServerStatistics" where
  "metric_step midnight (now, EvNewClient) m = sm_NewClient m"
| "metric_step midnight (now, EvCloseClient) m = sm_CloseClient m"
| "metric_step midnight (now, EvNewProxy name type user cid) m = sm_NewProxy midnight now name type user cid m"
| "metric_step midnight (now, EvCloseProxy name type) m = sm_CloseProxy now name type m"
| "metric_step midnight (now, EvOpenConn name) m = sm_OpenConnection name m"
| "metric_step midnight (now, EvCloseConn name) m = sm_CloseConnection name m"
| "metric_step midnight (now, EvTrafficIn name n) m = sm_AddTrafficIn midnight now name n m"
| "metric_step midnight (now, EvTrafficOut name n) m = sm_AddTrafficOut midnight now name n m"
| "metric_step midnight (now, EvClear offline) m = snd (clearUselessInfo now offline m)"

definition occurs :: "(metric_event \<Rightarrow> bool) \<Rightarrow> (int \<times> metric_event) list \<Rightarrow> 32 word" where
  "occurs P xs = of_nat (length (filter (P \<circ> snd) xs))"

fun opens :: "string \<Rightarrow> metric_event \<Rightarrow> bool" where
  "opens t (EvNewProxy n type u c) \<longleftrightarrow> type = t"
| "opens t _ \<longleftrightarrow> False"

fun closes :: "string \<Rightarrow> metric_event \<Rightarrow> bool" where
  "closes t (EvCloseProxy n type) \<longleftrightarrow> type = t"
| "closes t _ \<longleftrightarrow> False"

fun opens_conn :: "metric_event \<Rightarrow> bool" where
  "opens_conn (EvOpenConn n) \<longleftrightarrow> True"
| "opens_conn _ \<longleftrightarrow> False"

fun closes_conn :: "metric_event \<Rightarrow> bool" where
  "closes_conn (EvCloseConn n) \<longleftrightarrow> True"
| "closes_conn _ \<longleftrightarrow> False"

definition type_count :: "string \<Rightarrow> ServerStatistics \<Rightarrow> 32 word" where
  "type_count t m = (case map_of (sm_ProxyTypeCounts m) t of None \<Rightarrow> 0 | Some c \<Rightarrow> c)"

text \<open>A proxy is closed only after one of its type was opened.\<close>

fun closes_after_opens :: "string \<Rightarrow> bool \<Rightarrow> (int \<times> metric_event) list \<Rightarrow> bool" where
  "closes_after_opens t seen [] \<longleftrightarrow> True"
| "closes_after_opens t seen ((now, e) # xs) \<longleftrightarrow> (closes t e \<longrightarrow> seen) \<and> closes_after_opens t (seen \<or> opens t e) xs"

lemma on_stats_frame [simp]:
  "sm_ClientCounts (on_stats n f m) = sm_ClientCounts m" "sm_CurConns (on_stats n f m) = sm_CurConns m"
  "sm_ProxyTypeCounts (on_stats n f m) = sm_ProxyTypeCounts m"
  by (simp_all add: on_stats_def split: option.split)

lemmas metric_defs = sm_NewClient_def sm_CloseClient_def sm_NewProxy_def sm_CloseProxy_def sm_OpenConnection_def sm_CloseConnection_def
  sm_AddTrafficIn_def sm_AddTrafficOut_def clearUselessInfo_def ctr_Inc_def ctr_Dec_def NewCounter_def Let_def

lemma metric_step_clients:
  "sm_ClientCounts (metric_step midnight x m) = sm_ClientCounts m + occurs ((=) EvNewClient) [x] - occurs ((=) EvCloseClient) [x]"
  by (cases "(midnight, x, m)" rule: metric_step.cases) (simp_all add: metric_defs occurs_def split: option.split)

lemma metric_step_conns:
  "sm_CurConns (metric_step midnight x m) = sm_CurConns m + occurs opens_conn [x] - occurs closes_conn [x]"
  by (cases "(midnight, x, m)" rule: metric_step.cases) (simp_all add: metric_defs occurs_def split: option.split)

lemma metric_step_types:
  assumes "closes t (snd x) \<Longrightarrow> map_of (sm_ProxyTypeCounts m) t \<noteq> None"
  shows "type_count t (metric_step midnight x m) = type_count t m + occurs (opens t) [x] - occurs (closes t) [x]"
    and "map_of (sm_ProxyTypeCounts (metric_step midnight x m)) t \<noteq> None \<longleftrightarrow> map_of (sm_ProxyTypeCounts m) t \<noteq> None \<or> opens t (snd x)"
  using assms
  by (cases "(midnight, x, m)" rule: metric_step.cases; auto simp: metric_defs occurs_def type_count_def split: option.splits)+

lemma occurs_Cons: "occurs P (x # xs) = occurs P [x] + occurs P xs"
  by (simp add: occurs_def)

lemma metric_run_clients:
  "sm_ClientCounts (fold (metric_step midnight) xs m) = sm_ClientCounts m + occurs ((=) EvNewClient) xs - occurs ((=) EvCloseClient) xs"
proof (induction xs arbitrary: m)
  case (Cons x xs)
  show ?case unfolding occurs_Cons [of _ x xs] by (simp add: Cons metric_step_clients)
qed (simp add: occurs_def)

lemma metric_run_conns:
  "sm_CurConns (fold (metric_step midnight) xs m) = sm_CurConns m + occurs opens_conn xs - occurs closes_conn xs"
proof (induction xs arbitrary: m)
  case (Cons x xs)
  show ?case unfolding occurs_Cons [of _ x xs] by (simp add: Cons metric_step_conns)
qed (simp add: occurs_def)

lemma metric_run_types:
  "closes_after_opens t (map_of (sm_ProxyTypeCounts m) t \<noteq> None) xs \<Longrightarrow>
   type_count t (fold (metric_step midnight) xs m) = type_count t m + occurs (opens t) xs - occurs (closes t) xs"
proof (induction xs arbitrary: m)
  case (Cons x xs)
  obtain now e where x: "x = (now, e)" by fastforce
  have "closes t (snd x) \<Longrightarrow> map_of (sm_ProxyTypeCounts m) t \<noteq> None" using Cons.prems by (auto simp: x)
  note S = metric_step_types [of t x m midnight, OF this]
  have "closes_after_opens t (map_of (sm_ProxyTypeCounts (metric_step midnight x m)) t \<noteq> None) xs"
    using Cons.prems S(2) by (simp only: x closes_after_opens.simps snd_conv)
  from Cons.IH [OF this] show ?case unfolding occurs_Cons [of _ x xs]
    by (simp add: S(1))
qed (simp add: occurs_def)

text \<open>The counters of the server. After any history, the numbers of clients, of open connections and of
  proxies of a type are the numbers of openings minus the numbers of closings, as 32-bit
  numbers, whatever traffic and clean-up happened; for the types, as long as a proxy of a type
  is closed only after one was opened.\<close>

theorem metrics_counts:
  fixes midnight :: "int \<Rightarrow> int" and t0 :: int
  assumes "closes_after_opens t False xs"
  defines "m \<equiv> fold (metric_step midnight) xs (newServerMetrics midnight t0)"
  shows "sm_ClientCounts m = occurs ((=) EvNewClient) xs - occurs ((=) EvCloseClient) xs
    \<and> sm_CurConns m = occurs opens_conn xs - occurs closes_conn xs
    \<and> type_count t m = occurs (opens t) xs - occurs (closes t) xs"
proof -
  have z: "sm_ClientCounts (newServerMetrics midnight t0) = 0" "sm_CurConns (newServerMetrics midnight t0) = 0"
    "type_count t (newServerMetrics midnight t0) = 0" "map_of (sm_ProxyTypeCounts (newServerMetrics midnight t0)) t = None"
    by (simp_all add: newServerMetrics_def NewCounter_def type_count_def)
  have c: "closes_after_opens t (map_of (sm_ProxyTypeCounts (newServerMetrics midnight t0)) t \<noteq> None) xs"
    using assms(1) by (simp add: z(4))
  show ?thesis unfolding m_def
    by (simp add: metric_run_clients metric_run_conns metric_run_types [OF c] z(1-3))
qed

theorem metrics_counts_witness:
  "type_count ''tcp'' (fold (metric_step (\<lambda>t. 0)) [(1, EvNewProxy ''a'' ''tcp'' [] []), (2, EvNewProxy ''b'' ''tcp'' [] []), (3, EvCloseProxy ''a'' ''tcp'')]
     (newServerMetrics (\<lambda>t. 0) 0)) = 1"
  using metrics_counts [of "''tcp''" "[(1, EvNewProxy ''a'' ''tcp'' [] []), (2, EvNewProxy ''b'' ''tcp'' [] []), (3, EvCloseProxy ''a'' ''tcp'')]" "\<lambda>t. 0" 0]
  by (simp add: occurs_def)

end
