(* ===== verification/Visitor_Config.thy ===== *)
theory Visitor_Config
  imports Proxy_Config
begin

text \<open>
  Configuration of visitors: \<^verbatim>\<open>pkg/config/v1/visitor.go\<close> and its validation,
  \<^verbatim>\<open>pkg/config/v1/validation/visitor.go\<close>. The only visitor plugin has a destination address as its
  option.
\<close>

record VisitorTransport =
  vt_UseEncryption :: bool
  vt_UseCompression :: bool

record VisitorBaseConfig =
  vb_Name :: string
  vb_Type :: string
  vb_Enabled :: "bool option"
  vb_Transport :: VisitorTransport
  vb_SecretKey :: string
  vb_ServerUser :: string
  vb_ServerName :: string
  vb_BindAddr :: string
  vb_BindPort :: int
  vb_PluginType :: string
  vb_PluginDestinationIP :: "string option"

record XTCPVisitorConfig = VisitorBaseConfig +
  xv_Protocol :: string
  xv_KeepTunnelOpen :: bool
  xv_MaxRetriesAnHour :: int
  xv_MinRetryInterval :: int
  xv_FallbackTo :: string
  xv_FallbackTimeoutMs :: int
  xv_DisableAssistedAddrs :: "bool option"

datatype VisitorConfigurer =
    STCPVisitorConf VisitorBaseConfig
  | SUDPVisitorConf VisitorBaseConfig
  | XTCPVisitorConf XTCPVisitorConfig

fun vc_GetBaseConfig :: "VisitorConfigurer \<Rightarrow> VisitorBaseConfig" where
  "vc_GetBaseConfig (STCPVisitorConf c) = c"
| "vc_GetBaseConfig (SUDPVisitorConf c) = c"
| "vc_GetBaseConfig (XTCPVisitorConf c) = VisitorBaseConfig.truncate c"

abbreviation vc_name :: "VisitorConfigurer \<Rightarrow> string" where
  "vc_name c \<equiv> vb_Name (vc_GetBaseConfig c)"

definition zero_visitor :: VisitorBaseConfig where
  "zero_visitor = \<lparr>vb_Name = [], vb_Type = [], vb_Enabled = None, vb_Transport = \<lparr>vt_UseEncryption = False, vt_UseCompression = False\<rparr>,
     vb_SecretKey = [], vb_ServerUser = [], vb_ServerName = [], vb_BindAddr = [], vb_BindPort = 0, vb_PluginType = [],
     vb_PluginDestinationIP = None\<rparr>"

definition NewVisitorConfigurerByType :: "string \<Rightarrow> VisitorConfigurer option" where
  "NewVisitorConfigurerByType t =
     (let b = zero_visitor\<lparr>vb_Type := t\<rparr> in
      if t = ''stcp'' then Some (STCPVisitorConf b)
      else if t = ''xtcp'' then Some (XTCPVisitorConf (VisitorBaseConfig.extend b (XTCPVisitorConfig.fields [] False 0 0 [] 0 None)))
      else if t = ''sudp'' then Some (SUDPVisitorConf b)
      else None)"

definition vb_Complete :: "'a VisitorBaseConfig_scheme \<Rightarrow> 'a VisitorBaseConfig_scheme" where
  "vb_Complete c = (if vb_BindAddr c = [] then c\<lparr>vb_BindAddr := ''127.0.0.1''\<rparr> else c)"

definition EmptyOr_int :: "int \<Rightarrow> int \<Rightarrow> int" where
  "EmptyOr_int v fallback = (if v = 0 then fallback else v)"

fun vc_Complete :: "VisitorConfigurer \<Rightarrow> VisitorConfigurer" where
  "vc_Complete (STCPVisitorConf c) = STCPVisitorConf (vb_Complete c)"
| "vc_Complete (SUDPVisitorConf c) = SUDPVisitorConf (vb_Complete c)"
| "vc_Complete (XTCPVisitorConf c) =
     (let c = vb_Complete c in
      XTCPVisitorConf (c\<lparr>xv_Protocol := EmptyOr (xv_Protocol c) ''quic'', xv_MaxRetriesAnHour := EmptyOr_int (xv_MaxRetriesAnHour c) 8,
        xv_MinRetryInterval := EmptyOr_int (xv_MinRetryInterval c) 90, xv_FallbackTimeoutMs := EmptyOr_int (xv_FallbackTimeoutMs c) 1000\<rparr>))"

datatype visitor_config_error = VisitorNameRequired | ServerNameRequired | BindPortRequired | VisitorProtocolUnsupported

definition validateVisitorBaseConfig :: "VisitorBaseConfig \<Rightarrow> visitor_config_error option" where
  "validateVisitorBaseConfig c =
     (if vb_Name c = [] then Some VisitorNameRequired
      else if vb_ServerName c = [] then Some ServerNameRequired
      else if vb_BindPort c = 0 then Some BindPortRequired
      else None)"

definition validateXTCPVisitorConfig :: "XTCPVisitorConfig \<Rightarrow> visitor_config_error option" where
  "validateXTCPVisitorConfig c = (if xv_Protocol c \<in> {''kcp'', ''quic''} then None else Some VisitorProtocolUnsupported)"

definition ValidateVisitorConfigurer :: "VisitorConfigurer \<Rightarrow> visitor_config_error option" where
  "ValidateVisitorConfigurer c =
     (case validateVisitorBaseConfig (vc_GetBaseConfig c) of
        Some e \<Rightarrow> Some e
      | None \<Rightarrow> (case c of XTCPVisitorConf v \<Rightarrow> validateXTCPVisitorConfig v | _ \<Rightarrow> None))"

text \<open>Completing keeps names and is done once; a visitor that only lacks what has a default is
  valid once completed.\<close>

lemma vc_Complete_name [simp]: "vc_name (vc_Complete c) = vc_name c"
  by (cases c) (simp_all add: vb_Complete_def Let_def VisitorBaseConfig.defs)

lemma vc_Complete_idem: "vc_Complete (vc_Complete c) = vc_Complete c"
  by (cases c) (simp_all add: vb_Complete_def EmptyOr_def EmptyOr_int_def Let_def)

end
