(* ===== verification/Backoff.thy ===== *)
theory Backoff
  imports Visitor_Config
begin

text \<open>
  Waiting between attempts: \<^verbatim>\<open>pkg/util/wait/backoff.go\<close>, used by the client for logins, reconnections and
  heartbeats. Durations are nanoseconds. Multiplication by the floating point \<^verbatim>\<open>Factor\<close>
  and the random \<^verbatim>\<open>Jitter\<close> are functions on durations: the factor one of the options, the jitters of a call in its
  environment.
\<close>

record FastBackoffOptions =
  fo_Duration :: int
  fo_Factor :: "(int \<Rightarrow> int) option"
  fo_Jitter :: bool
  fo_MaxDuration :: int
  fo_InitDurationIfFail :: int
  fo_FastRetryCount :: int
  fo_FastRetryDelay :: int
  fo_FastRetryWindow :: int

record backoff_env =
  be_now :: int
  be_jitter :: "int \<Rightarrow> int"
  be_fastJitter :: "int \<Rightarrow> int"

text \<open>The times are \<open>None\<close> while they are zero.\<close>

record fastBackoffImpl =
  fb_lastCalledTime :: "int option"
  fb_consecutiveErrCount :: int
  fb_fastRetryCutoffTime :: "int option"
  fb_countsInFastRetryWindow :: int

definition NewFastBackoffManager :: fastBackoffImpl where
  "NewFastBackoffManager =
     \<lparr>fb_lastCalledTime = None, fb_consecutiveErrCount = 0, fb_fastRetryCutoffTime = None, fb_countsInFastRetryWindow = 1\<rparr>"

definition second :: int where "second = 10 ^ 9"

definition slow_delay :: "FastBackoffOptions \<Rightarrow> backoff_env \<Rightarrow> int \<Rightarrow> int \<Rightarrow> int" where
  "slow_delay opt env errCount previousDuration =
     (let duration = (if errCount = 1 then EmptyOr_int (fo_InitDurationIfFail opt) previousDuration else previousDuration);
          duration = EmptyOr_int duration second;
          duration = (case fo_Factor opt of None \<Rightarrow> duration | Some scale \<Rightarrow> scale duration);
          duration = (if fo_Jitter opt then be_jitter env duration else duration)
      in if fo_MaxDuration opt > 0 \<and> duration > fo_MaxDuration opt then fo_MaxDuration opt else duration)"

definition fb_Backoff :: "FastBackoffOptions \<Rightarrow> backoff_env \<Rightarrow> int \<Rightarrow> bool \<Rightarrow> fastBackoffImpl \<Rightarrow> int \<times> fastBackoffImpl" where
  "fb_Backoff opt env previousDuration previousConditionError f =
     (if fb_lastCalledTime f = None then (fo_Duration opt, f\<lparr>fb_lastCalledTime := Some (be_now env)\<rparr>)
      else
        let f = f\<lparr>fb_lastCalledTime := Some (be_now env),
                  fb_consecutiveErrCount := (if previousConditionError then fb_consecutiveErrCount f + 1 else 0)\<rparr>
        in if fo_FastRetryCount opt > 0 \<and> previousConditionError
           then
             let f = f\<lparr>fb_countsInFastRetryWindow := fb_countsInFastRetryWindow f + 1\<rparr>
             in if fb_countsInFastRetryWindow f \<le> fo_FastRetryCount opt
                then (be_fastJitter env (fo_FastRetryDelay opt), f)
                else
                  let f = (if (case fb_fastRetryCutoffTime f of None \<Rightarrow> True | Some cutoff \<Rightarrow> be_now env > cutoff)
                           then f\<lparr>fb_fastRetryCutoffTime := Some (be_now env + fo_FastRetryWindow opt), fb_countsInFastRetryWindow := 0\<rparr> else f)
                  in (slow_delay opt env (fb_consecutiveErrCount f) previousDuration, f)
           else if previousConditionError then (slow_delay opt env (fb_consecutiveErrCount f) previousDuration, f)
           else (fo_Duration opt, f))"

text \<open>\<open>BackoffUntil\<close>, as the list of the delays between the calls of the function. A call is given by the
  environment, whether it is done and whether it returns an error; the list of calls ends when the loop
  is stopped.\<close>

fun backoff_loop :: "FastBackoffOptions \<Rightarrow> bool \<Rightarrow> (backoff_env \<times> bool \<times> bool) list \<Rightarrow> int \<Rightarrow> bool \<Rightarrow> fastBackoffImpl \<Rightarrow> int list" where
  "backoff_loop opt sliding [] delay previousError f = []"
| "backoff_loop opt sliding ((env, finished, failed) # calls) delay previousError f =
     (let (delay, f) = (if sliding then (delay, f) else fb_Backoff opt env delay previousError f) in
      if finished then []
      else
        let (delay, f) = (if sliding then fb_Backoff opt env delay failed f else (delay, f))
        in delay # backoff_loop opt sliding calls delay failed f)"

definition BackoffUntil :: "FastBackoffOptions \<Rightarrow> bool \<Rightarrow> backoff_env \<Rightarrow> (backoff_env \<times> bool \<times> bool) list \<Rightarrow> int list" where
  "BackoffUntil opt sliding env calls = backoff_loop opt sliding calls 0 False (snd (fb_Backoff opt env 0 False NewFastBackoffManager))"

section \<open>Bounds\<close>

lemma slow_delay_bound: "fo_MaxDuration opt > 0 \<Longrightarrow> slow_delay opt env n d \<le> fo_MaxDuration opt"
  by (simp add: slow_delay_def Let_def)

lemma fb_Backoff_bound:
  assumes "fo_MaxDuration opt > 0" and "fb_Backoff opt env d e f = (d', f')"
  shows "d' \<le> max (fo_MaxDuration opt) (fo_Duration opt)
    \<or> (fo_FastRetryCount opt > 0 \<and> d' = be_fastJitter env (fo_FastRetryDelay opt))"
  using assms slow_delay_bound [OF assms(1)] by (auto simp: fb_Backoff_def Let_def le_max_iff_disj split: if_splits option.splits)

text \<open>No wait is longer than the configured maximum and the regular interval, apart from the fast retries,
  which wait for their own delay.\<close>

theorem backoff_bounded:
  assumes "fo_MaxDuration opt > 0" and "d \<in> set (BackoffUntil opt sliding env0 calls)"
  shows "d \<le> max (fo_MaxDuration opt) (fo_Duration opt)
    \<or> (\<exists>env finished failed. (env, finished, failed) \<in> set calls \<and> fo_FastRetryCount opt > 0 \<and> d = be_fastJitter env (fo_FastRetryDelay opt))"
proof -
  have "d \<in> set (backoff_loop opt sliding calls delay e f) \<Longrightarrow> d \<le> max (fo_MaxDuration opt) (fo_Duration opt)
    \<or> (\<exists>env finished failed. (env, finished, failed) \<in> set calls \<and> fo_FastRetryCount opt > 0 \<and> d = be_fastJitter env (fo_FastRetryDelay opt))" for delay e f
  proof (induction calls arbitrary: delay e f)
    case (Cons c calls)
    obtain env finished failed where c: "c = (env, finished, failed)" by (cases c)
    let ?e = "if sliding then failed else e"
    obtain d1 f1 where b: "fb_Backoff opt env delay ?e f = (d1, f1)" by fastforce
    then have "d = d1 \<or> d \<in> set (backoff_loop opt sliding calls d1 failed f1)" using Cons.prems c by (auto split: if_splits)
    then show ?case
    proof
      assume "d = d1"
      then show ?thesis using fb_Backoff_bound [OF assms(1) b] c by auto
    next
      assume "d \<in> set (backoff_loop opt sliding calls d1 failed f1)"
      from Cons.IH [OF this] show ?thesis by auto
    qed
  qed simp
  then show ?thesis using assms(2) by (simp add: BackoffUntil_def)
qed

section \<open>Growth\<close>

lemma slow_delay_grows:
  assumes "fo_Factor opt = Some scale" and "\<And>x. 0 < x \<Longrightarrow> scale x \<ge> 2 * x" and "\<And>x. 0 < x \<Longrightarrow> be_jitter env x \<ge> x"
    and "fo_MaxDuration opt > 0" and "n = 1 \<Longrightarrow> fo_InitDurationIfFail opt = 0 \<or> d = 0"
    and "fo_InitDurationIfFail opt \<ge> 0" and "d \<ge> 0"
  defines "base \<equiv> (if d = 0 then (if n = 1 then EmptyOr_int (fo_InitDurationIfFail opt) second else second) else d)"
  shows "slow_delay opt env n d \<ge> min (fo_MaxDuration opt) (2 * base) \<and> 0 < base"
proof -
  have b: "EmptyOr_int (if n = 1 then EmptyOr_int (fo_InitDurationIfFail opt) d else d) second = base"
    using assms(5) by (auto simp: base_def EmptyOr_int_def)
  have pos: "0 < base" using assms(6,7) by (auto simp: base_def EmptyOr_int_def second_def)
  have "scale base \<ge> 2 * base" using assms(2) [OF pos] .
  moreover have "be_jitter env (scale base) \<ge> scale base" using assms(3) [of "scale base"] calculation pos by simp
  ultimately show ?thesis using pos b assms(1) by (auto simp: slow_delay_def Let_def min_le_iff_disj)
qed

text \<open>A client that cannot log in is throttled: while all attempts fail, without fast retries and with a
  factor of at least two, the wait after attempt number \<open>k\<close> is at least \<open>2 ^ (k + 1)\<close> seconds or the maximum.\<close>

theorem backoff_grows:
  assumes opt: "fo_Factor opt = Some scale" "fo_MaxDuration opt > 0" "fo_InitDurationIfFail opt = 0" "fo_FastRetryCount opt = 0"
    and scale: "\<forall>x > 0. scale x \<ge> 2 * x"
    and calls: "\<forall>(env, finished, failed) \<in> set calls. \<not> finished \<and> failed \<and> (\<forall>x > 0. be_jitter env x \<ge> x)"
    and k: "k < length calls"
  shows "BackoffUntil opt True env0 calls ! k \<ge> min (fo_MaxDuration opt) (2 ^ (k + 1) * second)"
proof -
  have "backoff_loop opt True calls delay e f ! k \<ge> min (fo_MaxDuration opt) (2 ^ (k + 1) * (if delay = 0 then second else delay))"
    if "fb_lastCalledTime f \<noteq> None" "delay \<ge> 0" "k < length calls"
      "\<forall>(env, finished, failed) \<in> set calls. \<not> finished \<and> failed \<and> (\<forall>x > 0. be_jitter env x \<ge> x)" for k delay e f calls
    using that
  proof (induction calls arbitrary: k delay e f)
    case (Cons c calls)
    obtain env where c: "c = (env, False, True)" and j: "\<forall>x > 0. be_jitter env x \<ge> x" using Cons.prems(4) by (cases c) auto
    define f1 where "f1 = f\<lparr>fb_lastCalledTime := Some (be_now env), fb_consecutiveErrCount := fb_consecutiveErrCount f + 1\<rparr>"
    define d1 where "d1 = slow_delay opt env (fb_consecutiveErrCount f1) delay"
    let ?b = "if delay = 0 then second else delay"
    have "EmptyOr_int 0 second = second" by (simp add: EmptyOr_int_def)
    then have g: "d1 \<ge> min (fo_MaxDuration opt) (2 * ?b)" "0 < ?b"
      using slow_delay_grows [OF opt(1) _ _ opt(2), of env "fb_consecutiveErrCount f1" delay] scale j Cons.prems(2) opt(3)
      by (auto simp: d1_def split: if_splits)
    then have d1: "0 < d1" using opt(2) by linarith
    have step: "backoff_loop opt True (c # calls) delay e f = d1 # backoff_loop opt True calls d1 True f1"
      using Cons.prems(1) opt(4) by (auto simp: c fb_Backoff_def Let_def f1_def d1_def)
    show ?case
    proof (cases k)
      case 0
      then show ?thesis using step g(1) by simp
    next
      case (Suc k')
      have "backoff_loop opt True calls d1 True f1 ! k' \<ge> min (fo_MaxDuration opt) (2 ^ (k' + 1) * d1)"
        using Cons.IH [of f1 d1 k' True] Cons.prems(3,4) d1 Suc by (auto simp: f1_def)
      moreover have "min (fo_MaxDuration opt) (2 ^ (k' + 1) * d1) \<ge> min (fo_MaxDuration opt) (2 ^ (k' + 1) * (2 * ?b))"
      proof -
        have "d1 \<ge> fo_MaxDuration opt \<or> d1 \<ge> 2 * ?b" using g(1) by linarith
        moreover have "2 ^ (k' + 1) * d1 \<ge> 1 * d1" using d1 by (intro mult_right_mono one_le_power) simp_all
        moreover have "2 ^ (k' + 1) * d1 \<ge> 2 ^ (k' + 1) * (2 * ?b)" if "d1 \<ge> 2 * ?b" using that by simp
        ultimately show ?thesis by linarith
      qed
      ultimately show ?thesis using step Suc by (simp add: mult.assoc)
    qed
  qed simp
  from this [of "snd (fb_Backoff opt env0 0 False NewFastBackoffManager)" 0 k calls False] show ?thesis
    using k calls by (simp add: BackoffUntil_def fb_Backoff_def NewFastBackoffManager_def)
qed

definition demo_backoff :: FastBackoffOptions where
  "demo_backoff = \<lparr>fo_Duration = second, fo_Factor = Some (\<lambda>d. 2 * d), fo_Jitter = True, fo_MaxDuration = 10 * second, fo_InitDurationIfFail = 0,
     fo_FastRetryCount = 0, fo_FastRetryDelay = 0, fo_FastRetryWindow = 0\<rparr>"

definition still_env :: "int \<Rightarrow> backoff_env" where
  "still_env now = \<lparr>be_now = now, be_jitter = id, be_fastJitter = id\<rparr>"

theorem backoff_bounded_witness: "hd (BackoffUntil demo_backoff True (still_env 0) [(still_env 1, False, True)]) \<le> 10 * second"
proof -
  have "BackoffUntil demo_backoff True (still_env 0) [(still_env 1, False, True)] \<noteq> []"
    by (simp add: BackoffUntil_def case_prod_beta)
  then have "hd (BackoffUntil demo_backoff True (still_env 0) [(still_env 1, False, True)]) \<in> set (BackoffUntil demo_backoff True (still_env 0) [(still_env 1, False, True)])"
    by (rule hd_in_set)
  from backoff_bounded [OF _ this] show ?thesis by (simp add: demo_backoff_def second_def)
qed

theorem backoff_grows_witness: "BackoffUntil demo_backoff True (still_env 0) (replicate 4 (still_env 1, False, True)) ! 2 \<ge> 8 * second"
  using backoff_grows [of demo_backoff "\<lambda>d. 2 * d" "replicate 4 (still_env 1, False, True)" 2 "still_env 0"]
  by (simp add: demo_backoff_def still_env_def second_def)

section \<open>Fast retries\<close>

definition is_fast :: "FastBackoffOptions \<Rightarrow> bool \<Rightarrow> fastBackoffImpl \<Rightarrow> bool" where
  "is_fast opt failed f \<longleftrightarrow> fb_lastCalledTime f \<noteq> None \<and> fo_FastRetryCount opt > 0 \<and> failed \<and> fb_countsInFastRetryWindow f + 1 \<le> fo_FastRetryCount opt"

text \<open>The number of fast retries in the sliding loop.\<close>

fun fast_retries :: "FastBackoffOptions \<Rightarrow> (backoff_env \<times> bool) list \<Rightarrow> int \<Rightarrow> fastBackoffImpl \<Rightarrow> int" where
  "fast_retries opt [] delay f = 0"
| "fast_retries opt ((env, failed) # calls) delay f =
     (let (delay', f') = fb_Backoff opt env delay failed f
      in (if is_fast opt failed f then 1 else 0) + fast_retries opt calls delay' f')"

definition fast_budget :: "FastBackoffOptions \<Rightarrow> fastBackoffImpl \<Rightarrow> int" where
  "fast_budget opt f = max 0 (fo_FastRetryCount opt - fb_countsInFastRetryWindow f)
     + (if fb_fastRetryCutoffTime f = None then fo_FastRetryCount opt else 0)"

lemma fb_Backoff_budget:
  assumes "fo_FastRetryCount opt > 0" and "start \<le> be_now env" and "be_now env \<le> start + fo_FastRetryWindow opt"
    and "\<forall>cutoff. fb_fastRetryCutoffTime f = Some cutoff \<longrightarrow> start + fo_FastRetryWindow opt \<le> cutoff"
    and "fb_Backoff opt env d failed f = (d', f')"
  shows "(if is_fast opt failed f then 1 else 0) + fast_budget opt f' \<le> fast_budget opt f"
    and "\<forall>cutoff. fb_fastRetryCutoffTime f' = Some cutoff \<longrightarrow> start + fo_FastRetryWindow opt \<le> cutoff"
  using assms by (auto simp: fb_Backoff_def is_fast_def fast_budget_def Let_def max_def split: if_splits option.splits)

text \<open>Fast retries are limited: within one window from the start of the loop there are at most twice the
  configured number, less one. Three fast retries in the options give five in the first minute.\<close>

theorem fast_retries_limited:
  assumes n: "fo_FastRetryCount opt > 0" and calls: "\<forall>(env, failed) \<in> set calls. start \<le> be_now env \<and> be_now env \<le> start + fo_FastRetryWindow opt"
  shows "fast_retries opt calls 0 (snd (fb_Backoff opt env0 0 False NewFastBackoffManager)) \<le> 2 * fo_FastRetryCount opt - 1"
proof -
  have "fast_retries opt calls d f \<le> fast_budget opt f"
    if "\<forall>cutoff. fb_fastRetryCutoffTime f = Some cutoff \<longrightarrow> start + fo_FastRetryWindow opt \<le> cutoff" for d f
    using that calls
  proof (induction calls arbitrary: d f)
    case Nil
    then show ?case using n by (simp add: fast_budget_def)
  next
    case (Cons c calls)
    obtain env failed where c: "c = (env, failed)" by (cases c)
    obtain d' f' where b: "fb_Backoff opt env d failed f = (d', f')" by fastforce
    have w: "start \<le> be_now env" "be_now env \<le> start + fo_FastRetryWindow opt" using Cons.prems(2) c by auto
    note r = fb_Backoff_budget [OF n w Cons.prems(1) b]
    have "fast_retries opt calls d' f' \<le> fast_budget opt f'" using Cons.IH [OF r(2)] Cons.prems(2) by simp
    then show ?case using r(1) b c by simp
  qed
  from this [of "snd (fb_Backoff opt env0 0 False NewFastBackoffManager)" 0] n show ?thesis
    by (simp add: fb_Backoff_def NewFastBackoffManager_def fast_budget_def)
qed

definition reconnect_backoff :: FastBackoffOptions where
  "reconnect_backoff = \<lparr>fo_Duration = second, fo_Factor = Some (\<lambda>d. 2 * d), fo_Jitter = True, fo_MaxDuration = 20 * second, fo_InitDurationIfFail = 0,
     fo_FastRetryCount = 3, fo_FastRetryDelay = 200 * 10 ^ 6, fo_FastRetryWindow = 60 * second\<rparr>"

theorem fast_retries_limited_witness:
  "fast_retries reconnect_backoff (replicate 9 (still_env second, True)) 0 (snd (fb_Backoff reconnect_backoff (still_env 0) 0 False NewFastBackoffManager)) \<le> 5"
  using fast_retries_limited [of reconnect_backoff "replicate 9 (still_env second, True)" 0 "still_env 0"]
  by (simp add: reconnect_backoff_def still_env_def second_def)

theorem five_fast_retries:
  "fast_retries reconnect_backoff (replicate 9 (still_env second, True)) 0 (snd (fb_Backoff reconnect_backoff (still_env 0) 0 False NewFastBackoffManager)) = 5"
  by (simp add: numeral_eq_Suc reconnect_backoff_def still_env_def second_def NewFastBackoffManager_def fb_Backoff_def is_fast_def Let_def slow_delay_def EmptyOr_int_def)

end
