(* ===== verification/Client_Proxy.thy ===== *)
theory Client_Proxy
  imports Server_Proxies
begin

text \<open>
  Proxies on the client: the health monitor (\<^verbatim>\<open>client/health/health.go\<close>) and the wrapper that asks the
  server for a proxy, retries, and withdraws it (\<^verbatim>\<open>client/proxy/proxy_wrapper.go\<close>), with the names on the
  wire (\<^verbatim>\<open>pkg/naming\<close>). What a wrapper sends is returned as a list. Connecting to the local service,
  HTTP requests and running the local end of a proxy are parameters. Times are in
  nanoseconds.
\<close>

section \<open>Names on the wire\<close>

definition AddUserPrefix :: "string \<Rightarrow> string \<Rightarrow> string" where
  "AddUserPrefix user name = (if user = [] then name else user @ ''.'' @ name)"

definition StripUserPrefix :: "string \<Rightarrow> string \<Rightarrow> string" where
  "StripUserPrefix user name =
     (if user = [] then name
      else if has_prefix name (user @ ''.'') then drop (length (user @ ''.'')) name
      else name)"

definition BuildTargetServerProxyName :: "string \<Rightarrow> string \<Rightarrow> string \<Rightarrow> string" where
  "BuildTargetServerProxyName localUser serverUser serverName =
     (if serverUser \<noteq> [] then AddUserPrefix serverUser serverName else AddUserPrefix localUser serverName)"

lemma Strip_AddUserPrefix [simp]: "StripUserPrefix user (AddUserPrefix user name) = name"
  by (simp add: StripUserPrefix_def AddUserPrefix_def has_prefix_iff)

lemma AddUserPrefix_inj: "AddUserPrefix user a = AddUserPrefix user b \<longleftrightarrow> a = b"
  by (simp add: AddUserPrefix_def)

section \<open>Health monitor\<close>

record Monitor =
  mo_checkType :: string
  mo_interval :: int
  mo_timeout :: int
  mo_maxFailedTimes :: int
  mo_addr :: string
  mo_url :: string
  mo_failedTimes :: "64 word"
  mo_statusOK :: bool
  mo_cancelled :: bool

definition NewMonitor :: "HealthCheckConfig \<Rightarrow> string \<Rightarrow> Monitor" where
  "NewMonitor cfg addr =
     (let interval = (if hc_IntervalSeconds cfg \<le> 0 then 10 else hc_IntervalSeconds cfg);
          timeout = (if hc_TimeoutSeconds cfg \<le> 0 then 3 else hc_TimeoutSeconds cfg);
          maxFailed = (if hc_MaxFailed cfg \<le> 0 then 1 else hc_MaxFailed cfg);
          url = (if hc_Type cfg = ''http'' \<and> hc_Path cfg \<noteq> []
                 then (let s = ''http://'' @ addr in (if \<not> has_prefix (hc_Path cfg) ''/'' then s @ ''/'' else s)) @ hc_Path cfg
                 else [])
      in \<lparr>mo_checkType = hc_Type cfg, mo_interval = interval * 10 ^ 9, mo_timeout = timeout * 10 ^ 9, mo_maxFailedTimes = maxFailed,
          mo_addr = addr, mo_url = url, mo_failedTimes = 0, mo_statusOK = False, mo_cancelled = False\<rparr>)"

definition mo_Stop :: "Monitor \<Rightarrow> Monitor" where
  "mo_Stop m = m\<lparr>mo_cancelled := True\<rparr>"

text \<open>What the network answers: whether a TCP connection to an address succeeds, the status code of
  a request.\<close>

record probe_env =
  pe_dial :: "string \<Rightarrow> bool"
  pe_get :: "string \<Rightarrow> int option"

definition doTCPCheck :: "probe_env \<Rightarrow> Monitor \<Rightarrow> bool" where
  "doTCPCheck env m = (if mo_addr m = [] then True else pe_dial env (mo_addr m))"

definition doHTTPCheck :: "probe_env \<Rightarrow> Monitor \<Rightarrow> bool" where
  "doHTTPCheck env m = (case pe_get env (mo_url m) of None \<Rightarrow> False | Some code \<Rightarrow> code div 100 = 2)"

definition doCheck :: "probe_env \<Rightarrow> Monitor \<Rightarrow> bool" where
  "doCheck env m =
     (if mo_checkType m = ''tcp'' then doTCPCheck env m
      else if mo_checkType m = ''http'' then doHTTPCheck env m
      else False)"

datatype health_callback = StatusNormal | StatusFailed

text \<open>One round of the monitor; the callbacks are always set.\<close>

definition monitor_round :: "probe_env \<Rightarrow> Monitor \<Rightarrow> health_callback option \<times> Monitor" where
  "monitor_round env m =
     (let good = doCheck env m in
      if mo_cancelled m then (None, m)
      else if good
      then (if \<not> mo_statusOK m then (Some StatusNormal, m\<lparr>mo_statusOK := True\<rparr>) else (None, m))
      else
        let m1 = m\<lparr>mo_failedTimes := mo_failedTimes m + 1\<rparr> in
        if mo_statusOK m1 \<and> sint (mo_failedTimes m1) \<ge> mo_maxFailedTimes m1
        then (Some StatusFailed, m1\<lparr>mo_statusOK := False\<rparr>)
        else (None, m1))"

section \<open>Wrapper\<close>

datatype proxy_phase = PhaseNew | PhaseWaitStart | PhaseStartErr | PhaseRunning | PhaseCheckFailed | PhaseClosed

definition waitResponseTimeout :: int where "waitResponseTimeout = 20 * 10 ^ 9"

definition startErrTimeout :: int where "startErrTimeout = 30 * 10 ^ 9"

record Wrapper =
  pw_Name :: string
  pw_Type :: string
  pw_Phase :: proxy_phase
  pw_Err :: string
  pw_Cfg :: ProxyConfigurer
  pw_RemoteAddr :: string
  pw_monitor :: "Monitor option"
  pw_health :: nat
  pw_lastSendStartMsg :: int
  pw_lastStartErr :: int
  pw_stopped :: bool
  pw_wireName :: string

datatype client_msg = SendNewProxy NewProxy | SendCloseProxy string

definition NewWrapper :: "string \<Rightarrow> ProxyConfigurer \<Rightarrow> Wrapper" where
  "NewWrapper user cfg =
     (let b = GetBaseConfig cfg;
          checked = hc_Type (pb_HealthCheck b) \<noteq> [] \<and> pb_LocalPort b > 0
      in \<lparr>pw_Name = pb_Name b, pw_Type = pb_Type b, pw_Phase = PhaseNew, pw_Err = [], pw_Cfg = cfg, pw_RemoteAddr = [],
          pw_monitor = (if checked then Some (NewMonitor (pb_HealthCheck b) (JoinHostPort (pb_LocalIP b) (itoa (pb_LocalPort b)))) else None),
          pw_health = (if checked then 1 else 0), pw_lastSendStartMsg = 0, pw_lastStartErr = 0, pw_stopped = False,
          pw_wireName = AddUserPrefix user (pb_Name b)\<rparr>)"

definition pw_close :: "Wrapper \<Rightarrow> client_msg list" where
  "pw_close pw = [SendCloseProxy (pw_wireName pw)]"

datatype start_error = NotWaitStart | ServerRefused string | RunFailed string

text \<open>\<open>runErr\<close> is the error of \<open>Run\<close> of the local end, if any.\<close>

definition SetRunningStatus ::
  "int \<Rightarrow> string option \<Rightarrow> string \<Rightarrow> string \<Rightarrow> Wrapper \<Rightarrow> start_error option \<times> Wrapper \<times> client_msg list" where
  "SetRunningStatus now runErr remoteAddr respErr pw =
     (if pw_Phase pw \<noteq> PhaseWaitStart then (Some NotWaitStart, pw, [])
      else
        let pw = pw\<lparr>pw_RemoteAddr := remoteAddr\<rparr> in
        if respErr \<noteq> []
        then (Some (ServerRefused respErr), pw\<lparr>pw_Phase := PhaseStartErr, pw_Err := respErr, pw_lastStartErr := now\<rparr>, [])
        else
          case runErr of
            Some e \<Rightarrow> (Some (RunFailed e), pw\<lparr>pw_Phase := PhaseStartErr, pw_Err := e, pw_lastStartErr := now\<rparr>, pw_close pw)
          | None \<Rightarrow> (None, pw\<lparr>pw_Phase := PhaseRunning, pw_Err := []\<rparr>, []))"

definition pw_Stop :: "Wrapper \<Rightarrow> Wrapper \<times> client_msg list" where
  "pw_Stop pw = (pw\<lparr>pw_stopped := True, pw_monitor := map_option mo_Stop (pw_monitor pw), pw_Phase := PhaseClosed\<rparr>, pw_close pw)"

definition start_due :: "int \<Rightarrow> Wrapper \<Rightarrow> bool" where
  "start_due now pw \<longleftrightarrow> pw_Phase pw = PhaseNew \<or> pw_Phase pw = PhaseCheckFailed
     \<or> (pw_Phase pw = PhaseWaitStart \<and> now > pw_lastSendStartMsg pw + waitResponseTimeout)
     \<or> (pw_Phase pw = PhaseStartErr \<and> now > pw_lastStartErr pw + startErrTimeout)"

text \<open>One round of \<open>checkWorker\<close>.\<close>

definition check_round :: "int \<Rightarrow> Wrapper \<Rightarrow> Wrapper \<times> client_msg list" where
  "check_round now pw =
     (if pw_health pw = 0
      then (if start_due now pw
            then (pw\<lparr>pw_Phase := PhaseWaitStart, pw_lastSendStartMsg := now\<rparr>,
                  [SendNewProxy ((MarshalToMsg (pw_Cfg pw) zero_msg)\<lparr>np_ProxyName := pw_wireName pw\<rparr>)])
            else (pw, []))
      else (if pw_Phase pw = PhaseRunning \<or> pw_Phase pw = PhaseWaitStart
            then (pw\<lparr>pw_Phase := PhaseCheckFailed\<rparr>, pw_close pw)
            else (pw, [])))"

definition statusNormalCallback :: "Wrapper \<Rightarrow> Wrapper" where
  "statusNormalCallback pw = pw\<lparr>pw_health := 0\<rparr>"

definition statusFailedCallback :: "Wrapper \<Rightarrow> Wrapper" where
  "statusFailedCallback pw = pw\<lparr>pw_health := 1\<rparr>"

text \<open>A round of the monitor of a wrapper.\<close>

definition probe :: "probe_env \<Rightarrow> Wrapper \<Rightarrow> Wrapper" where
  "probe env pw =
     (case pw_monitor pw of
        None \<Rightarrow> pw
      | Some m \<Rightarrow>
          (case monitor_round env m of
             (None, m') \<Rightarrow> pw\<lparr>pw_monitor := Some m'\<rparr>
           | (Some StatusNormal, m') \<Rightarrow> statusNormalCallback (pw\<lparr>pw_monitor := Some m'\<rparr>)
           | (Some StatusFailed, m') \<Rightarrow> statusFailedCallback (pw\<lparr>pw_monitor := Some m'\<rparr>)))"

text \<open>Whether a work connection is handed to the local end; otherwise it is closed.\<close>

definition InWorkConn :: "Wrapper \<Rightarrow> bool" where
  "InWorkConn pw \<longleftrightarrow> pw_Phase pw = PhaseRunning"

section \<open>The life of a wrapper\<close>

text \<open>A wrapper with what it has sent. The rounds of the worker, the answers of the server, the
  rounds of the monitor and the (only) stop come in any order.\<close>

inductive pw_run :: "string \<Rightarrow> ProxyConfigurer \<Rightarrow> Wrapper \<Rightarrow> client_msg list \<Rightarrow> bool" for user :: string and cfg :: ProxyConfigurer where
  new: "pw_run user cfg (NewWrapper user cfg) []"
| check: "pw_run user cfg pw sent \<Longrightarrow> check_round now pw = (pw', out) \<Longrightarrow> pw_run user cfg pw' (sent @ out)"
| answer: "pw_run user cfg pw sent \<Longrightarrow> SetRunningStatus now runErr remoteAddr respErr pw = (e, pw', out) \<Longrightarrow> pw_run user cfg pw' (sent @ out)"
| health: "pw_run user cfg pw sent \<Longrightarrow> pw_run user cfg (probe env pw) sent"
| stop: "pw_run user cfg pw sent \<Longrightarrow> \<not> pw_stopped pw \<Longrightarrow> pw_Stop pw = (pw', out) \<Longrightarrow> pw_run user cfg pw' (sent @ out)"

definition start_msg :: "string \<Rightarrow> ProxyConfigurer \<Rightarrow> client_msg" where
  "start_msg user cfg = SendNewProxy ((MarshalToMsg cfg zero_msg)\<lparr>np_ProxyName := AddUserPrefix user (pb_Name (GetBaseConfig cfg))\<rparr>)"

definition close_msg :: "string \<Rightarrow> ProxyConfigurer \<Rightarrow> client_msg" where
  "close_msg user cfg = SendCloseProxy (AddUserPrefix user (pb_Name (GetBaseConfig cfg)))"

fun phase_sent :: "string \<Rightarrow> ProxyConfigurer \<Rightarrow> proxy_phase \<Rightarrow> client_msg list \<Rightarrow> bool" where
  "phase_sent user cfg PhaseNew sent \<longleftrightarrow> sent = []"
| "phase_sent user cfg PhaseWaitStart sent \<longleftrightarrow> sent \<noteq> [] \<and> last sent = start_msg user cfg"
| "phase_sent user cfg PhaseRunning sent \<longleftrightarrow> sent \<noteq> [] \<and> last sent = start_msg user cfg"
| "phase_sent user cfg PhaseStartErr sent \<longleftrightarrow> sent \<noteq> []"
| "phase_sent user cfg PhaseCheckFailed sent \<longleftrightarrow> sent \<noteq> [] \<and> last sent = close_msg user cfg"
| "phase_sent user cfg PhaseClosed sent \<longleftrightarrow> sent \<noteq> [] \<and> last sent = close_msg user cfg"

definition pw_wf :: "string \<Rightarrow> ProxyConfigurer \<Rightarrow> Wrapper \<Rightarrow> bool" where
  "pw_wf user cfg pw \<longleftrightarrow> pw_Cfg pw = cfg \<and> pw_wireName pw = AddUserPrefix user (pb_Name (GetBaseConfig cfg))
     \<and> (pw_stopped pw \<longleftrightarrow> pw_Phase pw = PhaseClosed)
     \<and> pw_health pw = (case pw_monitor pw of None \<Rightarrow> 0 | Some m \<Rightarrow> if mo_statusOK m then 0 else 1)"

lemma check_round_wf: "pw_wf user cfg pw \<Longrightarrow> check_round now pw = (pw', out) \<Longrightarrow> pw_wf user cfg pw'"
  by (auto simp: pw_wf_def check_round_def start_due_def split: if_splits)

lemma SetRunningStatus_wf: "pw_wf user cfg pw \<Longrightarrow> SetRunningStatus now r a e pw = (x, pw', out) \<Longrightarrow> pw_wf user cfg pw'"
  by (auto simp: pw_wf_def SetRunningStatus_def Let_def split: if_splits option.splits)

lemma probe_wf: "pw_wf user cfg pw \<Longrightarrow> pw_wf user cfg (probe env pw) \<and> pw_Phase (probe env pw) = pw_Phase pw"
  by (auto simp: pw_wf_def probe_def monitor_round_def statusNormalCallback_def statusFailedCallback_def Let_def
      split: option.splits if_splits)

lemma pw_run_wf: "pw_run user cfg pw sent \<Longrightarrow> pw_wf user cfg pw \<and> phase_sent user cfg (pw_Phase pw) sent"
proof (induction rule: pw_run.induct)
  case new
  then show ?case by (simp add: pw_wf_def NewWrapper_def NewMonitor_def Let_def)
next
  case (check pw sent now pw' out)
  then have "phase_sent user cfg (pw_Phase pw') (sent @ out)"
    by (auto simp: check_round_def pw_wf_def start_msg_def close_msg_def pw_close_def split: if_splits)
  then show ?case using check check_round_wf by blast
next
  case (answer pw sent now runErr remoteAddr respErr e pw' out)
  then have "phase_sent user cfg (pw_Phase pw') (sent @ out)"
    by (auto simp: SetRunningStatus_def pw_wf_def pw_close_def Let_def split: if_splits option.splits)
  then show ?case using answer SetRunningStatus_wf by blast
next
  case (health pw sent env)
  then show ?case using probe_wf [of user cfg pw env] by simp
next
  case (stop pw sent pw' out)
  then show ?case by (auto simp: pw_Stop_def pw_wf_def pw_close_def close_msg_def mo_Stop_def split: option.splits)
qed

lemma pw_run_set: "pw_run user cfg pw sent \<Longrightarrow> set sent \<subseteq> {start_msg user cfg, close_msg user cfg}"
proof (induction rule: pw_run.induct)
  case (check pw sent now pw' out)
  then show ?case using pw_run_wf [OF check(1)]
    by (auto simp: check_round_def pw_wf_def start_msg_def close_msg_def pw_close_def split: if_splits)
next
  case (answer pw sent now runErr remoteAddr respErr e pw' out)
  then show ?case using pw_run_wf [OF answer(1)]
    by (auto simp: SetRunningStatus_def pw_wf_def close_msg_def pw_close_def Let_def split: if_splits option.splits)
next
  case (stop pw sent pw' out)
  then show ?case using pw_run_wf [OF stop(1)] by (auto simp: pw_Stop_def pw_wf_def close_msg_def pw_close_def)
qed auto

text \<open>What a wrapper tells the server. Whatever the order of its checks, of the answers, of health checks
  and of its stop: it only sends the request for its proxy, with the configuration and the user's
  prefix, and its withdrawal; while it waits or runs, the request is the last thing it sent, and
  when its health check failed or it is stopped, the withdrawal is. A stopped wrapper sends
  nothing any more and ignores answers, and a proxy with a failing health check is not
  requested.\<close>

theorem wrapper_messages:
  assumes run: "pw_run user cfg pw sent"
  shows "set sent \<subseteq> {start_msg user cfg, close_msg user cfg}
    \<and> (pw_Phase pw = PhaseWaitStart \<or> pw_Phase pw = PhaseRunning \<longrightarrow> sent \<noteq> [] \<and> last sent = start_msg user cfg)
    \<and> (pw_Phase pw = PhaseCheckFailed \<or> pw_Phase pw = PhaseClosed \<longrightarrow> sent \<noteq> [] \<and> last sent = close_msg user cfg)
    \<and> (pw_stopped pw \<longrightarrow> pw_Phase pw = PhaseClosed \<and> check_round now pw = (pw, []) \<and> SetRunningStatus now r a e pw = (Some NotWaitStart, pw, []))
    \<and> (\<forall>m. pw_monitor pw = Some m \<and> \<not> mo_statusOK m \<longrightarrow> start_msg user cfg \<notin> set (snd (check_round now pw)))"
proof -
  have W: "pw_wf user cfg pw" and P: "phase_sent user cfg (pw_Phase pw) sent" using pw_run_wf [OF run] by auto
  have h: "pw_health pw \<noteq> 0" if "pw_monitor pw = Some m" "\<not> mo_statusOK m" for m using W that by (simp add: pw_wf_def)
  have "start_msg user cfg \<notin> set (snd (check_round now pw))" if "pw_health pw \<noteq> 0"
    using that by (simp add: check_round_def pw_close_def start_msg_def)
  moreover have "check_round now pw = (pw, [])" if "pw_Phase pw = PhaseClosed"
    using that by (simp add: check_round_def start_due_def)
  moreover have "SetRunningStatus now r a e pw = (Some NotWaitStart, pw, [])" if "pw_Phase pw = PhaseClosed"
    using that by (simp add: SetRunningStatus_def)
  ultimately show ?thesis using W P h pw_run_set [OF run] by (auto simp: pw_wf_def)
qed

text \<open>A wrapper does not give up. If it is not running, not stopped and its service is healthy, a check
  more than 20 seconds after the last request and more than 30 seconds after the last error
  sends the request again.\<close>

theorem wrapper_retries:
  assumes run: "pw_run user cfg pw sent" and live: "\<not> pw_stopped pw" "pw_Phase pw \<noteq> PhaseRunning"
    and healthy: "case pw_monitor pw of None \<Rightarrow> True | Some m \<Rightarrow> mo_statusOK m"
    and late: "now > pw_lastSendStartMsg pw + 20 * 10 ^ 9" "now > pw_lastStartErr pw + 30 * 10 ^ 9"
  shows "snd (check_round now pw) = [start_msg user cfg] \<and> pw_Phase (fst (check_round now pw)) = PhaseWaitStart"
proof -
  have W: "pw_wf user cfg pw" using pw_run_wf [OF run] by simp
  have "pw_health pw = 0" using W healthy by (auto simp: pw_wf_def split: option.splits)
  moreover have "pw_Phase pw \<noteq> PhaseClosed" using W live by (simp add: pw_wf_def)
  ultimately have "start_due now pw" using live late
    by (cases "pw_Phase pw") (simp_all add: start_due_def waitResponseTimeout_def startErrTimeout_def)
  then show ?thesis using W \<open>pw_health pw = 0\<close> by (simp add: check_round_def start_msg_def pw_wf_def)
qed

definition demo_tcp_conf :: "string \<Rightarrow> int \<Rightarrow> ProxyConfigurer" where
  "demo_tcp_conf name port = TCPConf (ProxyBaseConfig.extend (zero_base\<lparr>pb_Name := name, pb_Type := ''tcp''\<rparr>) (TCPProxyConfig.fields port))"

lemma demo_tcp_conf_base: "pb_Name (GetBaseConfig (demo_tcp_conf name port)) = name" "hc_Type (pb_HealthCheck (GetBaseConfig (demo_tcp_conf name port))) = []"
  by (simp_all add: demo_tcp_conf_def GetBaseConfig_def ProxyBaseConfig.defs TCPProxyConfig.defs zero_base_def)

theorem wrapper_messages_witness:
  "\<exists>pw. pw_run ''u'' (demo_tcp_conf ''web'' 6001) pw [start_msg ''u'' (demo_tcp_conf ''web'' 6001), close_msg ''u'' (demo_tcp_conf ''web'' 6001)]
     \<and> pw_Phase pw = PhaseClosed \<and> check_round 9 pw = (pw, [])"
proof -
  let ?c = "demo_tcp_conf ''web'' 6001" and ?w = "NewWrapper ''u'' (demo_tcp_conf ''web'' 6001)"
  obtain pw1 where c: "check_round 1 ?w = (pw1, [start_msg ''u'' ?c])" "pw_wireName pw1 = pw_wireName ?w" "\<not> pw_stopped pw1"
    by (auto simp: demo_tcp_conf_base check_round_def start_due_def start_msg_def NewWrapper_def Let_def split: if_splits)
  have w: "pw_wireName ?w = AddUserPrefix ''u'' (pb_Name (GetBaseConfig ?c))" by (simp add: NewWrapper_def Let_def)
  obtain pw2 where s: "pw_Stop pw1 = (pw2, [close_msg ''u'' ?c])" "pw_stopped pw2"
    using c w by (simp add: pw_Stop_def pw_close_def close_msg_def)
  have "pw_run ''u'' ?c pw2 (([] @ [start_msg ''u'' ?c]) @ [close_msg ''u'' ?c])"
    by (rule pw_run.stop [OF pw_run.check [OF pw_run.new c(1)] c(3) s(1)])
  then have r: "pw_run ''u'' ?c pw2 [start_msg ''u'' ?c, close_msg ''u'' ?c]" by simp
  from wrapper_messages [OF r, of 9] r s(2) show ?thesis by blast
qed

theorem wrapper_retries_witness:
  "snd (check_round (31 * 10 ^ 9) (NewWrapper ''u'' (demo_tcp_conf ''web'' 6001))) = [start_msg ''u'' (demo_tcp_conf ''web'' 6001)]"
  using wrapper_retries [OF pw_run.new, of "''u''" "demo_tcp_conf ''web'' 6001" "31 * 10 ^ 9"]
  by (simp add: NewWrapper_def Let_def demo_tcp_conf_base)

text \<open>The monitor counts all failures since it was created, not the failures in a row: with 3 allowed
  failures, a service that never fails twice in a row is reported as failed.\<close>

fun monitor_rounds :: "bool list \<Rightarrow> Monitor \<Rightarrow> health_callback list \<times> Monitor" where
  "monitor_rounds [] m = ([], m)"
| "monitor_rounds (b # bs) m =
     (let (cb, m1) = monitor_round \<lparr>pe_dial = (\<lambda>_. b), pe_get = (\<lambda>_. None)\<rparr> m; (cbs, m2) = monitor_rounds bs m1
      in ((case cb of None \<Rightarrow> [] | Some c \<Rightarrow> [c]) @ cbs, m2))"

theorem failures_not_in_a_row:
  "fst (monitor_rounds [True, False, True, False, True, False, True, False]
     (NewMonitor \<lparr>hc_Type = ''tcp'', hc_TimeoutSeconds = 3, hc_MaxFailed = 3, hc_IntervalSeconds = 10, hc_Path = [], hc_HTTPHeaders = []\<rparr> ''10.0.0.2:80''))
   = [StatusNormal, StatusFailed, StatusNormal, StatusFailed]"
  by (simp add: NewMonitor_def monitor_round_def doCheck_def doTCPCheck_def Let_def)

end
