(* ===== verification/Reconcile.thy ===== *)
theory Reconcile
  imports Prelude
begin

text \<open>
  The contract of the managers of the client that are given a new configuration while they run: the
  manager of proxies and the manager of visitors. After an update exactly the given
  configurations are in place, and what was in place with the same configuration is left
  alone.
\<close>

definition by_name :: "('c \<Rightarrow> 'n) \<Rightarrow> 'c list \<Rightarrow> 'n \<Rightarrow> 'c option" where
  "by_name cname cs n = map_of (map (\<lambda>c. (cname c, c)) cs) n"

lemma by_name_Some: "by_name cname cs n = Some c \<Longrightarrow> c \<in> set cs \<and> cname c = n"
  by (auto simp: by_name_def dest: map_of_SomeD)

lemma by_name_in: "distinct (map cname cs) \<Longrightarrow> c \<in> set cs \<Longrightarrow> by_name cname cs (cname c) = Some c"
  by (simp add: by_name_def map_of_eq_Some_iff comp_def)

lemma by_name_None: "by_name cname cs n = None \<longleftrightarrow> n \<notin> cname ` set cs"
  by (force simp: by_name_def map_of_eq_None_iff)

text \<open>For distinct names the last configuration of a name is the first one.\<close>

lemma by_name_rev: "distinct (map cname cs) \<Longrightarrow> by_name cname (rev cs) = by_name cname cs"
proof
  fix n
  assume d: "distinct (map cname cs)"
  show "by_name cname (rev cs) n = by_name cname cs n"
  proof (cases "by_name cname cs n")
    case None
    then have "by_name cname (rev cs) n = None" by (simp add: by_name_None)
    then show ?thesis using None by simp
  next
    case (Some c)
    then have "c \<in> set (rev cs)" "cname c = n" using by_name_Some [OF Some] by simp_all
    moreover have "distinct (map cname (rev cs))" using d by (simp add: rev_map [symmetric])
    ultimately show ?thesis using by_name_in [of cname "rev cs" c] Some by simp
  qed
qed

locale reconcile =
  fixes entry :: "'s \<Rightarrow> 'n \<Rightarrow> 'e option" and cfg_of :: "'e \<Rightarrow> 'c" and cfg_name :: "'c \<Rightarrow> 'n"
    and update :: "'c list \<Rightarrow> 's \<Rightarrow> 's" and wf :: "'s \<Rightarrow> bool"
  assumes update_wf: "wf s \<Longrightarrow> distinct (map cfg_name cs) \<Longrightarrow> wf (update cs s)"
    and update_cfg: "wf s \<Longrightarrow> distinct (map cfg_name cs) \<Longrightarrow> map_option cfg_of (entry (update cs s) n) = by_name cfg_name cs n"
    and update_keeps: "wf s \<Longrightarrow> distinct (map cfg_name cs) \<Longrightarrow> entry s n = Some e \<Longrightarrow> by_name cfg_name cs n = Some (cfg_of e)
       \<Longrightarrow> entry (update cs s) n = Some e"
begin

text \<open>Applying the same configuration again changes nothing.\<close>

lemma update_twice:
  assumes "wf s" and "distinct (map cfg_name cs)"
  shows "entry (update cs (update cs s)) = entry (update cs s)"
proof
  fix n
  note w = update_wf [OF assms]
  show "entry (update cs (update cs s)) n = entry (update cs s) n"
  proof (cases "entry (update cs s) n")
    case None
    then have "by_name cfg_name cs n = None" using update_cfg [OF assms, of n] by simp
    then show ?thesis using update_cfg [OF w assms(2), of n] None by simp
  next
    case (Some e)
    then have "by_name cfg_name cs n = Some (cfg_of e)" using update_cfg [OF assms, of n] by simp
    then show ?thesis using update_keeps [OF w assms(2) Some] Some by simp
  qed
qed

text \<open>Only the last of several configurations counts, and what every one of them contained was never
  touched.\<close>

lemma updates_cfg:
  assumes "wf s" and "\<forall>cs \<in> set css. distinct (map cfg_name cs)" and "css \<noteq> []"
  shows "wf (fold update css s) \<and> map_option cfg_of (entry (fold update css s) n) = by_name cfg_name (last css) n"
  using assms
proof (induction css arbitrary: s)
  case (Cons cs css)
  then show ?case using update_wf update_cfg by (cases css) auto
qed simp

lemma updates_keep:
  assumes "wf s" and "\<forall>cs \<in> set css. distinct (map cfg_name cs) \<and> by_name cfg_name cs n = Some (cfg_of e)" and "entry s n = Some e"
  shows "entry (fold update css s) n = Some e"
  using assms
proof (induction css arbitrary: s)
  case (Cons cs css)
  then show ?case using update_wf update_keeps by simp
qed simp

end

end
