(* ===== verification/Client_Managers.thy ===== *)
theory Client_Managers
  imports Client_Proxy Visitor_Config Reconcile
begin

text \<open>
  The managers of the client: \<^verbatim>\<open>client/proxy/proxy_manager.go\<close> and \<^verbatim>\<open>client/visitor/visitor_manager.go\<close>.
  Messages to the server are collected in the order in which they are handed to the message
  transporter. Whether a visitor can be created and run is a parameter; a visitor is an opaque value.
\<close>

section \<open>Proxies\<close>

record proxy_table =
  cpm_proxies :: "(string \<times> Wrapper) list"
  cpm_user :: string
  cpm_sent :: "client_msg list"

definition NewProxyTable :: "string \<Rightarrow> proxy_table" where
  "NewProxyTable user = \<lparr>cpm_proxies = [], cpm_user = user, cpm_sent = []\<rparr>"

definition StartProxy ::
  "int \<Rightarrow> string option \<Rightarrow> string \<Rightarrow> string \<Rightarrow> string \<Rightarrow> proxy_table \<Rightarrow> (string, unit) result \<times> proxy_table" where
  "StartProxy now runErr name remoteAddr respErr pm =
     (case map_of (cpm_proxies pm) name of
        None \<Rightarrow> (err (''proxy ['' @ name @ ''] not found''), pm)
      | Some pw \<Rightarrow>
          (let (e, pw', out) = SetRunningStatus now runErr remoteAddr respErr pw;
               pm' = pm\<lparr>cpm_proxies := map_put name pw' (cpm_proxies pm), cpm_sent := cpm_sent pm @ out\<rparr>
           in (case e of
                 None \<Rightarrow> (ok (), pm')
               | Some NotWaitStart \<Rightarrow> (err ''status not wait start, ignore start message'', pm')
               | Some (ServerRefused m) \<Rightarrow> (err m, pm')
               | Some (RunFailed m) \<Rightarrow> (err m, pm'))))"

fun stop_all :: "(string \<times> Wrapper) list \<Rightarrow> client_msg list" where
  "stop_all [] = []"
| "stop_all ((n, pw) # ps) = snd (pw_Stop pw) @ stop_all ps"

definition cpm_Close :: "proxy_table \<Rightarrow> proxy_table" where
  "cpm_Close pm = pm\<lparr>cpm_proxies := [], cpm_sent := cpm_sent pm @ stop_all (cpm_proxies pm)\<rparr>"

text \<open>\<open>True\<close> if a work connection is handed to the proxy, \<open>False\<close> if it is closed.\<close>

definition HandleWorkConn :: "string \<Rightarrow> proxy_table \<Rightarrow> bool" where
  "HandleWorkConn name pm = (case map_of (cpm_proxies pm) name of None \<Rightarrow> False | Some pw \<Rightarrow> InWorkConn pw)"

text \<open>The first loop of \<open>UpdateAll\<close>: what is not configured any more, or differently, is stopped.\<close>

definition changed :: "(string \<Rightarrow> ProxyConfigurer option) \<Rightarrow> string \<times> Wrapper \<Rightarrow> bool" where
  "changed cfgs = (\<lambda>(name, pw). cfgs name \<noteq> Some (pw_Cfg pw))"

fun add_proxies :: "string \<Rightarrow> ProxyConfigurer list \<Rightarrow> (string \<times> Wrapper) list \<Rightarrow> (string \<times> Wrapper) list" where
  "add_proxies user [] ps = ps"
| "add_proxies user (cfg # cfgs) ps =
     add_proxies user cfgs (case map_of ps (pc_name cfg) of None \<Rightarrow> map_put (pc_name cfg) (NewWrapper user cfg) ps | Some _ \<Rightarrow> ps)"

text \<open>\<open>lo.KeyBy\<close> keeps the last configuration of a name.\<close>

definition cpm_UpdateAll :: "ProxyConfigurer list \<Rightarrow> proxy_table \<Rightarrow> proxy_table" where
  "cpm_UpdateAll proxyCfgs pm =
     (let proxyCfgsMap = by_name pc_name (rev proxyCfgs);
          stopped = filter (changed proxyCfgsMap) (cpm_proxies pm);
          kept = filter (\<lambda>p. \<not> changed proxyCfgsMap p) (cpm_proxies pm)
      in pm\<lparr>cpm_proxies := add_proxies (cpm_user pm) proxyCfgs kept, cpm_sent := cpm_sent pm @ stop_all stopped\<rparr>)"

definition GetProxyStatus :: "string \<Rightarrow> proxy_table \<Rightarrow> (proxy_phase \<times> string) option" where
  "GetProxyStatus name pm = map_option (\<lambda>pw. (pw_Phase pw, pw_Err pw)) (map_of (cpm_proxies pm) name)"

section \<open>Visitors\<close>

record 'v visitor_table =
  cvm_cfgs :: "(string \<times> VisitorConfigurer) list"
  cvm_visitors :: "(string \<times> 'v) list"
  cvm_closed :: "'v list"
  cvm_stopped :: bool

definition NewVisitorTable :: "'v visitor_table" where
  "NewVisitorTable = \<lparr>cvm_cfgs = [], cvm_visitors = [], cvm_closed = [], cvm_stopped = False\<rparr>"

text \<open>\<open>run cfg\<close> is the visitor if it can be created and run.\<close>

definition startVisitor :: "(VisitorConfigurer \<Rightarrow> 'v option) \<Rightarrow> VisitorConfigurer \<Rightarrow> 'v visitor_table \<Rightarrow> 'v visitor_table" where
  "startVisitor run cfg vm =
     (case run cfg of None \<Rightarrow> vm | Some v \<Rightarrow> vm\<lparr>cvm_visitors := map_put (vc_name cfg) v (cvm_visitors vm)\<rparr>)"

fun start_missing :: "(VisitorConfigurer \<Rightarrow> 'v option) \<Rightarrow> (string \<times> VisitorConfigurer) list \<Rightarrow> 'v visitor_table \<Rightarrow> 'v visitor_table" where
  "start_missing run [] vm = vm"
| "start_missing run ((n, cfg) # cfgs) vm =
     start_missing run cfgs (case map_of (cvm_visitors vm) (vc_name cfg) of None \<Rightarrow> startVisitor run cfg vm | Some _ \<Rightarrow> vm)"

text \<open>A tick of \<open>keepVisitorsRunning\<close>.\<close>

definition keep_running :: "(VisitorConfigurer \<Rightarrow> 'v option) \<Rightarrow> 'v visitor_table \<Rightarrow> 'v visitor_table" where
  "keep_running run vm = (if cvm_stopped vm then vm else start_missing run (cvm_cfgs vm) vm)"

definition cvm_Close :: "'v visitor_table \<Rightarrow> 'v visitor_table" where
  "cvm_Close vm = vm\<lparr>cvm_closed := cvm_closed vm @ map snd (cvm_visitors vm), cvm_stopped := True\<rparr>"

definition remove_visitor :: "string \<Rightarrow> 'v visitor_table \<Rightarrow> 'v visitor_table" where
  "remove_visitor name vm =
     vm\<lparr>cvm_cfgs := map_delete name (cvm_cfgs vm),
        cvm_closed := (case map_of (cvm_visitors vm) name of None \<Rightarrow> cvm_closed vm | Some v \<Rightarrow> cvm_closed vm @ [v]),
        cvm_visitors := map_delete name (cvm_visitors vm)\<rparr>"

fun add_visitors :: "(VisitorConfigurer \<Rightarrow> 'v option) \<Rightarrow> VisitorConfigurer list \<Rightarrow> 'v visitor_table \<Rightarrow> 'v visitor_table" where
  "add_visitors run [] vm = vm"
| "add_visitors run (cfg # cfgs) vm =
     add_visitors run cfgs (case map_of (cvm_cfgs vm) (vc_name cfg) of
       None \<Rightarrow> startVisitor run cfg (vm\<lparr>cvm_cfgs := map_put (vc_name cfg) cfg (cvm_cfgs vm)\<rparr>) | Some _ \<Rightarrow> vm)"

definition cvm_UpdateAll :: "(VisitorConfigurer \<Rightarrow> 'v option) \<Rightarrow> VisitorConfigurer list \<Rightarrow> 'v visitor_table \<Rightarrow> 'v visitor_table" where
  "cvm_UpdateAll run cfgs vm =
     (let cfgsMap = by_name vc_name (rev cfgs);
          delNames = map fst (filter (\<lambda>(name, oldCfg). cfgsMap name \<noteq> Some oldCfg) (cvm_cfgs vm))
      in add_visitors run cfgs (fold remove_visitor delNames vm))"

definition TransferConn :: "string \<Rightarrow> 'v visitor_table \<Rightarrow> (string, 'v) result" where
  "TransferConn name vm = (case map_of (cvm_visitors vm) name of None \<Rightarrow> err (''visitor ['' @ name @ ''] not found'') | Some v \<Rightarrow> ok v)"

definition GetVisitorCfg :: "string \<Rightarrow> 'v visitor_table \<Rightarrow> VisitorConfigurer option" where
  "GetVisitorCfg name vm = map_of (cvm_cfgs vm) name"

section \<open>Updating the proxies\<close>

definition cpm_wf :: "proxy_table \<Rightarrow> bool" where
  "cpm_wf pm \<longleftrightarrow> distinct (map fst (cpm_proxies pm)) \<and> (\<forall>(n, pw) \<in> set (cpm_proxies pm). pc_name (pw_Cfg pw) = n)"

lemma NewWrapper_cfg [simp]: "pw_Cfg (NewWrapper user cfg) = cfg"
  by (simp add: NewWrapper_def Let_def)

lemma add_proxies_lookup:
  "distinct (map pc_name cfgs) \<Longrightarrow> map_of (add_proxies user cfgs ps) n =
     (case map_of ps n of Some pw \<Rightarrow> Some pw | None \<Rightarrow> map_option (NewWrapper user) (by_name pc_name cfgs n))"
proof (induction cfgs arbitrary: ps)
  case Nil
  then show ?case by (simp add: by_name_def split: option.split)
next
  case (Cons cfg cfgs)
  then have d: "distinct (map pc_name cfgs)" "pc_name cfg \<notin> pc_name ` set cfgs" by simp_all
  then have no: "by_name pc_name cfgs (pc_name cfg) = None" by (simp add: by_name_None)
  show ?case using Cons.IH [OF d(1)] no by (auto simp: by_name_def split: option.splits)
qed

lemma add_proxies_wf:
  "distinct (map fst ps) \<Longrightarrow> \<forall>(n, pw) \<in> set ps. pc_name (pw_Cfg pw) = n \<Longrightarrow>
   distinct (map fst (add_proxies user cfgs ps)) \<and> (\<forall>(n, pw) \<in> set (add_proxies user cfgs ps). pc_name (pw_Cfg pw) = n)"
proof (induction cfgs arbitrary: ps)
  case (Cons cfg cfgs)
  show ?case
  proof (cases "map_of ps (pc_name cfg)")
    case None
    have "\<forall>(n, pw) \<in> set (map_put (pc_name cfg) (NewWrapper user cfg) ps). pc_name (pw_Cfg pw) = n"
      using set_map_put [of "pc_name cfg" "NewWrapper user cfg" ps] Cons.prems(2) by auto
    then show ?thesis using Cons.IH [of "map_put (pc_name cfg) (NewWrapper user cfg) ps"] Cons.prems None by (simp add: distinct_map_put)
  next
    case (Some pw)
    then show ?thesis using Cons by simp
  qed
qed simp

lemma cpm_UpdateAll_lookup:
  assumes wf: "cpm_wf pm" and d: "distinct (map pc_name cfgs)"
  shows "map_of (cpm_proxies (cpm_UpdateAll cfgs pm)) n =
     (case by_name pc_name cfgs n of
        None \<Rightarrow> None
      | Some c \<Rightarrow> Some (case map_of (cpm_proxies pm) n of
                         Some pw \<Rightarrow> if pw_Cfg pw = c then pw else NewWrapper (cpm_user pm) c
                       | None \<Rightarrow> NewWrapper (cpm_user pm) c))"
proof -
  let ?P = "\<lambda>p. \<not> changed (by_name pc_name cfgs) p"
  have f: "map_of (filter ?P (cpm_proxies pm)) n = (case map_of (cpm_proxies pm) n of Some v \<Rightarrow> if ?P (n, v) then Some v else None | None \<Rightarrow> None)"
    using wf by (intro map_of_filter_distinct) (simp add: cpm_wf_def)
  show ?thesis
    by (simp add: cpm_UpdateAll_def Let_def by_name_rev [OF d] add_proxies_lookup [OF d] f) (auto simp: changed_def split: option.split)
qed

interpretation proxy_update: reconcile "\<lambda>pm n. map_of (cpm_proxies pm) n" pw_Cfg pc_name cpm_UpdateAll cpm_wf
proof
  fix pm :: proxy_table and cs :: "ProxyConfigurer list"
  assume "cpm_wf pm" and "distinct (map pc_name cs)"
  then show "cpm_wf (cpm_UpdateAll cs pm)"
    by (auto simp: cpm_wf_def cpm_UpdateAll_def Let_def distinct_map_filter intro!: add_proxies_wf)
next
  fix pm :: proxy_table and cs :: "ProxyConfigurer list" and n
  assume "cpm_wf pm" and "distinct (map pc_name cs)"
  then show "map_option pw_Cfg (map_of (cpm_proxies (cpm_UpdateAll cs pm)) n) = by_name pc_name cs n"
    by (auto simp: cpm_UpdateAll_lookup split: option.split)
next
  fix pm :: proxy_table and cs :: "ProxyConfigurer list" and n e
  assume "cpm_wf pm" and "distinct (map pc_name cs)" and "map_of (cpm_proxies pm) n = Some e" and "by_name pc_name cs n = Some (pw_Cfg e)"
  then show "map_of (cpm_proxies (cpm_UpdateAll cs pm)) n = Some e" by (simp add: cpm_UpdateAll_lookup)
qed

lemma stop_all_map: "stop_all ps = map (\<lambda>(n, pw). SendCloseProxy (pw_wireName pw)) ps"
  by (induction ps) (auto simp: pw_Stop_def pw_close_def)

lemma changed_iff:
  assumes "distinct (map pc_name cfgs)" and "pc_name (pw_Cfg pw) = n"
  shows "changed (by_name pc_name cfgs) (n, pw) \<longleftrightarrow> pw_Cfg pw \<notin> set cfgs"
  using by_name_in [OF assms(1), of "pw_Cfg pw"] by_name_Some [of pc_name cfgs n "pw_Cfg pw"] assms(2) by (auto simp: changed_def)

text \<open>C21. Reloading the proxies of a client. With distinct names, after an update the client has exactly the
  configured proxies; those configured as before are the very same, in whatever phase they were,
  and the server hears nothing about them; exactly the others are withdrawn; applying the same
  configuration again changes nothing.\<close>

theorem proxies_reconciled:
  assumes wf: "cpm_wf pm" and d: "distinct (map pc_name cfgs)"
  shows "map_option pw_Cfg (map_of (cpm_proxies (cpm_UpdateAll cfgs pm)) n) = by_name pc_name cfgs n
    \<and> (map_of (cpm_proxies pm) n = Some pw \<and> pw_Cfg pw \<in> set cfgs \<longrightarrow> map_of (cpm_proxies (cpm_UpdateAll cfgs pm)) n = Some pw)
    \<and> cpm_sent (cpm_UpdateAll cfgs pm)
        = cpm_sent pm @ map (\<lambda>(n, pw). SendCloseProxy (pw_wireName pw)) (filter (\<lambda>(n, pw). pw_Cfg pw \<notin> set cfgs) (cpm_proxies pm))
    \<and> map_of (cpm_proxies (cpm_UpdateAll cfgs (cpm_UpdateAll cfgs pm))) n = map_of (cpm_proxies (cpm_UpdateAll cfgs pm)) n"
proof (intro conjI impI)
  show "map_option pw_Cfg (map_of (cpm_proxies (cpm_UpdateAll cfgs pm)) n) = by_name pc_name cfgs n"
    by (rule proxy_update.update_cfg [OF wf d])
  show "map_of (cpm_proxies (cpm_UpdateAll cfgs (cpm_UpdateAll cfgs pm))) n = map_of (cpm_proxies (cpm_UpdateAll cfgs pm)) n"
    using proxy_update.update_twice [OF wf d] by (rule fun_cong)
  have nm: "pc_name (pw_Cfg w) = k" if "(k, w) \<in> set (cpm_proxies pm)" for k w using wf that by (auto simp: cpm_wf_def)
  show "map_of (cpm_proxies (cpm_UpdateAll cfgs pm)) n = Some pw"
    if e: "map_of (cpm_proxies pm) n = Some pw \<and> pw_Cfg pw \<in> set cfgs"
  proof -
    have "pc_name (pw_Cfg pw) = n" using e nm by (blast dest: map_of_SomeD)
    then show ?thesis using proxy_update.update_keeps [OF wf d, of n pw] by_name_in [OF d, of "pw_Cfg pw"] e by simp
  qed
  have "filter (changed (by_name pc_name cfgs)) (cpm_proxies pm) = filter (\<lambda>(n, pw). pw_Cfg pw \<notin> set cfgs) (cpm_proxies pm)"
    using nm by (intro filter_cong) (auto simp: changed_iff [OF d])
  then show "cpm_sent (cpm_UpdateAll cfgs pm)
        = cpm_sent pm @ map (\<lambda>(n, pw). SendCloseProxy (pw_wireName pw)) (filter (\<lambda>(n, pw). pw_Cfg pw \<notin> set cfgs) (cpm_proxies pm))"
    by (simp add: cpm_UpdateAll_def Let_def by_name_rev [OF d] stop_all_map)
qed

theorem proxies_reconciled_witness:
  "map_option pw_Cfg (map_of (cpm_proxies (cpm_UpdateAll [demo_tcp_conf ''a'' 7000] (cpm_UpdateAll [demo_tcp_conf ''a'' 6000] (NewProxyTable ''u'')))) ''a'')
   = Some (demo_tcp_conf ''a'' 7000)"
proof -
  have "cpm_wf (NewProxyTable ''u'')" by (simp add: cpm_wf_def NewProxyTable_def)
  then have "cpm_wf (cpm_UpdateAll [demo_tcp_conf ''a'' 6000] (NewProxyTable ''u''))" by (rule proxy_update.update_wf) simp
  from proxies_reconciled [OF this, of "[demo_tcp_conf ''a'' 7000]" "''a''"] show ?thesis
    by (simp add: by_name_def demo_tcp_conf_base)
qed

section \<open>Updating the visitors\<close>

definition cvm_wf :: "'v visitor_table \<Rightarrow> bool" where
  "cvm_wf vm \<longleftrightarrow> distinct (map fst (cvm_cfgs vm)) \<and> (\<forall>(n, c) \<in> set (cvm_cfgs vm). vc_name c = n)
     \<and> (\<forall>n. map_of (cvm_cfgs vm) n = None \<longrightarrow> map_of (cvm_visitors vm) n = None)"

definition visitor_entry :: "'v visitor_table \<Rightarrow> string \<Rightarrow> (VisitorConfigurer \<times> 'v option) option" where
  "visitor_entry vm n = map_option (\<lambda>c. (c, map_of (cvm_visitors vm) n)) (map_of (cvm_cfgs vm) n)"

lemma fold_remove_lookup:
  "map_of (cvm_cfgs (fold remove_visitor ns vm)) n = (if n \<in> set ns then None else map_of (cvm_cfgs vm) n)
   \<and> map_of (cvm_visitors (fold remove_visitor ns vm)) n = (if n \<in> set ns then None else map_of (cvm_visitors vm) n)"
  by (induction ns arbitrary: vm) (auto simp: remove_visitor_def map_of_map_delete)

lemma remove_visitor_wf: "cvm_wf vm \<Longrightarrow> cvm_wf (remove_visitor n vm)"
  by (auto simp: cvm_wf_def remove_visitor_def map_of_map_delete distinct_map_delete) (auto simp: map_delete_def)

lemma fold_remove_wf: "cvm_wf vm \<Longrightarrow> cvm_wf (fold remove_visitor ns vm)"
  by (induction ns arbitrary: vm) (simp_all add: remove_visitor_wf)

lemma add_visitor_wf:
  assumes "cvm_wf vm" and "map_of (cvm_cfgs vm) (vc_name cfg) = None"
  shows "cvm_wf (startVisitor run cfg (vm\<lparr>cvm_cfgs := map_put (vc_name cfg) cfg (cvm_cfgs vm)\<rparr>))"
  using assms set_map_put [of "vc_name cfg" cfg "cvm_cfgs vm"]
  by (auto simp: cvm_wf_def startVisitor_def distinct_map_put split: option.splits if_splits)

lemma add_visitors_lookup:
  "cvm_wf vm \<Longrightarrow> distinct (map vc_name cfgs) \<Longrightarrow>
   cvm_wf (add_visitors run cfgs vm) \<and> visitor_entry (add_visitors run cfgs vm) n =
     (case visitor_entry vm n of Some e \<Rightarrow> Some e | None \<Rightarrow> map_option (\<lambda>c. (c, run c)) (by_name vc_name cfgs n))"
proof (induction cfgs arbitrary: vm)
  case Nil
  then show ?case by (simp add: by_name_def split: option.split)
next
  case (Cons cfg cfgs)
  then have d: "distinct (map vc_name cfgs)" and no: "by_name vc_name cfgs (vc_name cfg) = None" by (simp_all add: by_name_None)
  have b: "by_name vc_name (cfg # cfgs) n = (if n = vc_name cfg then Some cfg else by_name vc_name cfgs n)" by (simp add: by_name_def)
  show ?case
  proof (cases "map_of (cvm_cfgs vm) (vc_name cfg)")
    case (Some c)
    then have "visitor_entry vm (vc_name cfg) \<noteq> None" by (simp add: visitor_entry_def)
    then show ?thesis using Cons.IH [OF Cons.prems(1) d] Some b by (auto split: option.splits)
  next
    case None
    let ?vm = "startVisitor run cfg (vm\<lparr>cvm_cfgs := map_put (vc_name cfg) cfg (cvm_cfgs vm)\<rparr>)"
    have w: "cvm_wf ?vm" by (rule add_visitor_wf [OF Cons.prems(1) None])
    have v: "map_of (cvm_visitors vm) (vc_name cfg) = None" using Cons.prems(1) None by (simp add: cvm_wf_def)
    have e: "visitor_entry ?vm n = (if n = vc_name cfg then Some (cfg, run cfg) else visitor_entry vm n)"
      using v by (auto simp: visitor_entry_def startVisitor_def split: option.split)
    have "visitor_entry vm (vc_name cfg) = None" using None by (simp add: visitor_entry_def)
    then show ?thesis using Cons.IH [OF w d] None e b no by (auto split: option.splits)
  qed
qed

lemma cvm_UpdateAll_lookup:
  assumes wf: "cvm_wf vm" and d: "distinct (map vc_name cfgs)"
  shows "cvm_wf (cvm_UpdateAll run cfgs vm) \<and> visitor_entry (cvm_UpdateAll run cfgs vm) n =
     (case by_name vc_name cfgs n of
        None \<Rightarrow> None
      | Some c \<Rightarrow> Some (case visitor_entry vm n of
                         Some e \<Rightarrow> if fst e = c then e else (c, run c)
                       | None \<Rightarrow> (c, run c)))"
proof -
  define dels where "dels = map fst (filter (\<lambda>(name, oldCfg). by_name vc_name cfgs name \<noteq> Some oldCfg) (cvm_cfgs vm))"
  let ?vm = "fold remove_visitor dels vm"
  have u: "cvm_UpdateAll run cfgs vm = add_visitors run cfgs ?vm" by (simp add: cvm_UpdateAll_def Let_def by_name_rev [OF d] dels_def)
  have "distinct (map fst (cvm_cfgs vm))" using wf by (simp add: cvm_wf_def)
  then have mem: "n \<in> set dels \<longleftrightarrow> (\<exists>c. map_of (cvm_cfgs vm) n = Some c \<and> by_name vc_name cfgs n \<noteq> Some c)"
    by (force simp: dels_def image_iff)
  have r: "visitor_entry ?vm n = (if n \<in> set dels then None else visitor_entry vm n)"
    using fold_remove_lookup [of dels vm n] by (simp add: visitor_entry_def)
  have a: "cvm_wf (add_visitors run cfgs ?vm)" "visitor_entry (add_visitors run cfgs ?vm) n =
     (case visitor_entry ?vm n of Some e \<Rightarrow> Some e | None \<Rightarrow> map_option (\<lambda>c. (c, run c)) (by_name vc_name cfgs n))"
    using add_visitors_lookup [OF fold_remove_wf [OF wf] d] by blast+
  show ?thesis unfolding u using a(1) a(2) [unfolded r mem]
    by (auto simp: visitor_entry_def split: option.splits if_splits)
qed

interpretation visitor_update: reconcile visitor_entry fst vc_name "cvm_UpdateAll run" cvm_wf
proof
  fix vm :: "'a visitor_table" and cs :: "VisitorConfigurer list"
  assume "cvm_wf vm" and "distinct (map vc_name cs)"
  then show "cvm_wf (cvm_UpdateAll run cs vm)" by (simp add: cvm_UpdateAll_lookup)
next
  fix vm :: "'a visitor_table" and cs :: "VisitorConfigurer list" and n
  assume "cvm_wf vm" and "distinct (map vc_name cs)"
  then show "map_option fst (visitor_entry (cvm_UpdateAll run cs vm) n) = by_name vc_name cs n"
    by (auto simp: cvm_UpdateAll_lookup split: option.split)
next
  fix vm :: "'a visitor_table" and cs :: "VisitorConfigurer list" and n e
  assume "cvm_wf vm" and "distinct (map vc_name cs)" and "visitor_entry vm n = Some e" and "by_name vc_name cs n = Some (fst e)"
  then show "visitor_entry (cvm_UpdateAll run cs vm) n = Some e" by (simp add: cvm_UpdateAll_lookup)
qed

lemma start_missing_frame:
  "cvm_cfgs (start_missing run cs vm) = cvm_cfgs vm
   \<and> (map_of (cvm_visitors vm) n = Some v \<longrightarrow> map_of (cvm_visitors (start_missing run cs vm)) n = Some v)"
  by (induction run cs vm rule: start_missing.induct) (auto simp: startVisitor_def split: option.splits if_splits)

lemma start_missing_runs:
  "(n, c) \<in> set cs \<Longrightarrow> run c \<noteq> None \<Longrightarrow> map_of (cvm_visitors (start_missing run cs vm)) (vc_name c) \<noteq> None"
proof (induction run cs vm rule: start_missing.induct)
  case (2 run k cfg cfgs vm)
  show ?case
  proof (cases "(n, c) = (k, cfg)")
    case True
    let ?vm = "case map_of (cvm_visitors vm) (vc_name cfg) of None \<Rightarrow> startVisitor run cfg vm | Some _ \<Rightarrow> vm"
    obtain v where "map_of (cvm_visitors ?vm) (vc_name cfg) = Some v"
      using 2(3) True by (cases "map_of (cvm_visitors vm) (vc_name cfg)") (auto simp: startVisitor_def)
    then show ?thesis using start_missing_frame [of run cfgs ?vm "vc_name cfg" v] True by simp
  next
    case False
    then show ?thesis using 2 by auto
  qed
qed simp

text \<open>Reloading the visitors of a client. With distinct names, after an update the client has exactly the
  configured visitors; one configured as before stays as it is, running or not; a new or changed
  one runs if it can be started. One that could not be started is retried: as soon as all can be
  started, the next tick has all of them running and disturbs none.\<close>

theorem visitors_reconciled:
  assumes wf: "cvm_wf vm" and d: "distinct (map vc_name cfgs)"
  shows "visitor_entry (cvm_UpdateAll run cfgs vm) n =
      (case by_name vc_name cfgs n of
         None \<Rightarrow> None
       | Some c \<Rightarrow> Some (case visitor_entry vm n of
                          Some e \<Rightarrow> if fst e = c then e else (c, run c)
                        | None \<Rightarrow> (c, run c)))
    \<and> (\<not> cvm_stopped (cvm_UpdateAll run cfgs vm) \<and> (\<forall>c. run' c \<noteq> None) \<longrightarrow>
        (\<forall>c \<in> set cfgs. map_of (cvm_visitors (keep_running run' (cvm_UpdateAll run cfgs vm))) (vc_name c) \<noteq> None)
        \<and> (\<forall>n v. map_of (cvm_visitors (cvm_UpdateAll run cfgs vm)) n = Some v
              \<longrightarrow> map_of (cvm_visitors (keep_running run' (cvm_UpdateAll run cfgs vm))) n = Some v))"
proof -
  let ?vm = "cvm_UpdateAll run cfgs vm"
  have "map_of (cvm_visitors (start_missing run' (cvm_cfgs ?vm) ?vm)) (vc_name c) \<noteq> None" if "c \<in> set cfgs" "\<forall>c. run' c \<noteq> None" for c
  proof -
    have "map_option fst (visitor_entry ?vm (vc_name c)) = Some c"
      using visitor_update.update_cfg [OF wf d, of run "vc_name c"] by_name_in [OF d that(1)] by simp
    then have "map_of (cvm_cfgs ?vm) (vc_name c) = Some c" by (auto simp: visitor_entry_def)
    then show ?thesis using start_missing_runs [of "vc_name c" c "cvm_cfgs ?vm" run' ?vm] that(2) by (blast dest: map_of_SomeD)
  qed
  then show ?thesis using cvm_UpdateAll_lookup [OF wf d] start_missing_frame [of run' "cvm_cfgs ?vm" ?vm]
    by (auto simp: keep_running_def)
qed

theorem visitors_reconciled_witness:
  "map_of (cvm_visitors (keep_running (\<lambda>c. Some 1) (cvm_UpdateAll (\<lambda>c. None) [STCPVisitorConf (zero_visitor\<lparr>vb_Name := ''v''\<rparr>)] (NewVisitorTable :: nat visitor_table)))) ''v'' \<noteq> None"
proof -
  let ?c = "STCPVisitorConf (zero_visitor\<lparr>vb_Name := ''v''\<rparr>)" and ?vm = "NewVisitorTable :: nat visitor_table"
  have w: "cvm_wf ?vm" by (simp add: cvm_wf_def NewVisitorTable_def)
  have s: "\<not> cvm_stopped (cvm_UpdateAll (\<lambda>c. None) [?c] ?vm)" by (simp add: cvm_UpdateAll_def NewVisitorTable_def startVisitor_def Let_def)
  from visitors_reconciled [OF w, of "[?c]" "\<lambda>c. None" "''v''" "\<lambda>c. Some 1"] s show ?thesis by (simp add: zero_visitor_def)
qed

end
