(* ===== verification/Config_Source.thy ===== *)
theory Config_Source
  imports Client_Proxy Visitor_Config Reconcile
begin

text \<open>
  The configuration sources of the client: \<^verbatim>\<open>pkg/config/source\<close> (\<^verbatim>\<open>base_source.go\<close>,
  \<^verbatim>\<open>config_source.go\<close>, \<^verbatim>\<open>store.go\<close>, \<^verbatim>\<open>clone.go\<close>, \<^verbatim>\<open>aggregator.go\<close>). A source has a table of proxies and a
  table of visitors. The store keeps its tables in a file, which it replaces by way of a temporary
  file. What the operating system answers is an argument of the operations, and so is
  the JSON codec; a configuration that may be \<^verbatim>\<open>nil\<close> is an \<open>option\<close>.
\<close>

section \<open>Tables of configurations\<close>

record baseSource =
  bs_proxies :: "(string \<times> ProxyConfigurer) list"
  bs_visitors :: "(string \<times> VisitorConfigurer) list"

definition newBaseSource :: baseSource where
  "newBaseSource = \<lparr>bs_proxies = [], bs_visitors = []\<rparr>"

abbreviation pc_enabled :: "ProxyConfigurer \<Rightarrow> bool" where
  "pc_enabled c \<equiv> pb_Enabled (GetBaseConfig c) \<noteq> Some False"

abbreviation vc_enabled :: "VisitorConfigurer \<Rightarrow> bool" where
  "vc_enabled c \<equiv> vb_Enabled (vc_GetBaseConfig c) \<noteq> Some False"

text \<open>The copies that \<open>cloneConfigurers\<close> makes are the same values, and no entry of a table is \<^verbatim>\<open>nil\<close>,
  so that loading a source does not fail.\<close>

definition bs_Load :: "baseSource \<Rightarrow> ProxyConfigurer list \<times> VisitorConfigurer list" where
  "bs_Load s = (filter pc_enabled (map snd (bs_proxies s)), filter vc_enabled (map snd (bs_visitors s)))"

datatype entry_error = NilEntry | EmptyName | AlreadyExists | NotFound

fun collect :: "('c \<Rightarrow> string) \<Rightarrow> 'c option list \<Rightarrow> (string \<times> 'c) list \<Rightarrow> (entry_error, (string \<times> 'c) list) result" where
  "collect cname [] m = ok m"
| "collect cname (None # cs) m = err NilEntry"
| "collect cname (Some c # cs) m = (if cname c = [] then err EmptyName else collect cname cs (map_put (cname c) c m))"

definition ReplaceAll ::
  "ProxyConfigurer option list \<Rightarrow> VisitorConfigurer option list \<Rightarrow> baseSource \<Rightarrow> (entry_error, unit) result \<times> baseSource" where
  "ReplaceAll proxies visitors s =
     (case collect pc_name proxies [] of
        Inl e \<Rightarrow> (err e, s)
      | Inr nextProxies \<Rightarrow>
          (case collect vc_name visitors [] of
             Inl e \<Rightarrow> (err e, s)
           | Inr nextVisitors \<Rightarrow> (ok (), s\<lparr>bs_proxies := nextProxies, bs_visitors := nextVisitors\<rparr>)))"

section \<open>The store\<close>

text \<open>The codec: \<^verbatim>\<open>jsonx.MarshalIndent\<close> of the lists of a store, \<^verbatim>\<open>jsonx.Unmarshal\<close> of a file into the raw
  entries, and the decoding of one entry. \<open>'b\<close> is the type of bytes, \<open>'r\<close> that of raw entries.\<close>

record ('b, 'r) codec =
  cd_marshal :: "ProxyConfigurer list \<Rightarrow> VisitorConfigurer list \<Rightarrow> 'b list option"
  cd_unmarshal :: "'b list \<Rightarrow> ('r list \<times> 'r list) option"
  cd_proxy :: "'r \<Rightarrow> ProxyConfigurer option"
  cd_visitor :: "'r \<Rightarrow> VisitorConfigurer option"

text \<open>The files of the store: the file at its path and the temporary file.\<close>

record 'b disk =
  dk_file :: "'b list option"
  dk_tmp :: "'b list option"

text \<open>What the system calls of one save answer; \<open>se_write\<close> is the number of bytes written before an
  error.\<close>

record save_env =
  se_mkdir :: bool
  se_open :: bool
  se_write :: "nat option"
  se_sync :: bool
  se_close :: bool
  se_rename :: bool
  se_remove :: bool

datatype save_error = MarshalFailed | MkdirFailed | CreateFailed | WriteFailed | SyncFailed | CloseFailed | RenameFailed

datatype store_error = BadEntry entry_error | PersistFailed save_error

datatype load_error = PathRequired | ParseFailed | DecodeProxyFailed nat | DecodeVisitorFailed nat | LoadEmptyName

fun load_entries ::
  "('r \<Rightarrow> 'c option) \<Rightarrow> (nat \<Rightarrow> load_error) \<Rightarrow> ('c \<Rightarrow> string) \<Rightarrow> nat \<Rightarrow> 'r list \<Rightarrow> (string \<times> 'c) list
   \<Rightarrow> (load_error, (string \<times> 'c) list) result" where
  "load_entries dec failed cname i [] m = ok m"
| "load_entries dec failed cname i (r # rs) m =
     (case dec r of
        None \<Rightarrow> err (failed i)
      | Some c \<Rightarrow> if cname c = [] then err LoadEmptyName else load_entries dec failed cname (Suc i) rs (map_put (cname c) c m))"

definition loadFromFile :: "('b, 'r) codec \<Rightarrow> 'b list \<Rightarrow> (load_error, baseSource) result" where
  "loadFromFile cd data =
     (case cd_unmarshal cd data of
        None \<Rightarrow> err ParseFailed
      | Some (rps, rvs) \<Rightarrow>
          (case load_entries (cd_proxy cd) DecodeProxyFailed pc_name 0 rps [] of
             Inl e \<Rightarrow> err e
           | Inr ps \<Rightarrow>
               (case load_entries (cd_visitor cd) DecodeVisitorFailed vc_name 0 rvs [] of
                  Inl e \<Rightarrow> err e
                | Inr vs \<Rightarrow> ok \<lparr>bs_proxies = ps, bs_visitors = vs\<rparr>)))"

definition NewStoreSource :: "('b, 'r) codec \<Rightarrow> string \<Rightarrow> 'b disk \<Rightarrow> (load_error, baseSource) result" where
  "NewStoreSource cd path dk =
     (if path = [] then err PathRequired
      else (case dk_file dk of None \<Rightarrow> ok newBaseSource | Some data \<Rightarrow> loadFromFile cd data))"

text \<open>A save returns the error, if any, and the states of the files after each of its system calls;
  the last of them is the state it leaves behind. Failing to remove the temporary file is
  ignored by the code.\<close>

definition saveToFileUnlocked ::
  "('b, 'r) codec \<Rightarrow> save_env \<Rightarrow> baseSource \<Rightarrow> 'b disk \<Rightarrow> save_error option \<times> 'b disk list" where
  "saveToFileUnlocked cd se s dk =
     (case cd_marshal cd (map snd (bs_proxies s)) (map snd (bs_visitors s)) of
        None \<Rightarrow> (Some MarshalFailed, [dk])
      | Some data \<Rightarrow>
          (let give_up = (\<lambda>d. if se_remove se then d\<lparr>dk_tmp := None\<rparr> else d);
               opened = dk\<lparr>dk_tmp := Some []\<rparr>;
               written = dk\<lparr>dk_tmp := Some data\<rparr>
           in if \<not> se_mkdir se then (Some MkdirFailed, [dk])
              else if \<not> se_open se then (Some CreateFailed, [dk])
              else (case se_write se of
                      Some k \<Rightarrow> (let d = dk\<lparr>dk_tmp := Some (take k data)\<rparr> in (Some WriteFailed, [opened, d, give_up d]))
                    | None \<Rightarrow>
                        if \<not> se_sync se then (Some SyncFailed, [opened, written, give_up written])
                        else if \<not> se_close se then (Some CloseFailed, [opened, written, give_up written])
                        else if \<not> se_rename se then (Some RenameFailed, [opened, written, give_up written])
                        else (None, [opened, written, \<lparr>dk_file = Some data, dk_tmp = None\<rparr>]))))"

text \<open>A change \<open>s'\<close> of the tables is saved; if that fails, the change is taken back (\<open>undone\<close>).\<close>

definition persist ::
  "('b, 'r) codec \<Rightarrow> save_env \<Rightarrow> baseSource \<Rightarrow> baseSource \<Rightarrow> 'b disk \<Rightarrow> store_error option \<times> baseSource \<times> 'b disk list" where
  "persist cd se s' undone dk =
     (case saveToFileUnlocked cd se s' dk of
        (None, ds) \<Rightarrow> (None, s', ds)
      | (Some e, ds) \<Rightarrow> (Some (PersistFailed e), undone, ds))"

abbreviation refuse :: "entry_error \<Rightarrow> baseSource \<Rightarrow> 'b disk \<Rightarrow> store_error option \<times> baseSource \<times> 'b disk list" where
  "refuse e s dk \<equiv> (Some (BadEntry e), s, [dk])"

definition AddProxy ::
  "('b, 'r) codec \<Rightarrow> save_env \<Rightarrow> ProxyConfigurer option \<Rightarrow> baseSource \<Rightarrow> 'b disk \<Rightarrow> store_error option \<times> baseSource \<times> 'b disk list" where
  "AddProxy cd se p s dk =
     (case p of
        None \<Rightarrow> refuse NilEntry s dk
      | Some proxy \<Rightarrow>
          (let name = pc_name proxy in
           if name = [] then refuse EmptyName s dk
           else (case map_of (bs_proxies s) name of
                   Some _ \<Rightarrow> refuse AlreadyExists s dk
                 | None \<Rightarrow>
                     (let s' = s\<lparr>bs_proxies := map_put name proxy (bs_proxies s)\<rparr>
                      in persist cd se s' (s'\<lparr>bs_proxies := map_delete name (bs_proxies s')\<rparr>) dk))))"

definition UpdateProxy ::
  "('b, 'r) codec \<Rightarrow> save_env \<Rightarrow> ProxyConfigurer option \<Rightarrow> baseSource \<Rightarrow> 'b disk \<Rightarrow> store_error option \<times> baseSource \<times> 'b disk list" where
  "UpdateProxy cd se p s dk =
     (case p of
        None \<Rightarrow> refuse NilEntry s dk
      | Some proxy \<Rightarrow>
          (let name = pc_name proxy in
           if name = [] then refuse EmptyName s dk
           else (case map_of (bs_proxies s) name of
                   None \<Rightarrow> refuse NotFound s dk
                 | Some oldProxy \<Rightarrow>
                     (let s' = s\<lparr>bs_proxies := map_put name proxy (bs_proxies s)\<rparr>
                      in persist cd se s' (s'\<lparr>bs_proxies := map_put name oldProxy (bs_proxies s')\<rparr>) dk))))"

definition RemoveProxy ::
  "('b, 'r) codec \<Rightarrow> save_env \<Rightarrow> string \<Rightarrow> baseSource \<Rightarrow> 'b disk \<Rightarrow> store_error option \<times> baseSource \<times> 'b disk list" where
  "RemoveProxy cd se name s dk =
     (if name = [] then refuse EmptyName s dk
      else (case map_of (bs_proxies s) name of
              None \<Rightarrow> refuse NotFound s dk
            | Some oldProxy \<Rightarrow>
                (let s' = s\<lparr>bs_proxies := map_delete name (bs_proxies s)\<rparr>
                 in persist cd se s' (s'\<lparr>bs_proxies := map_put name oldProxy (bs_proxies s')\<rparr>) dk)))"

definition GetProxy :: "string \<Rightarrow> baseSource \<Rightarrow> ProxyConfigurer option" where
  "GetProxy name s = map_of (bs_proxies s) name"

definition AddVisitor ::
  "('b, 'r) codec \<Rightarrow> save_env \<Rightarrow> VisitorConfigurer option \<Rightarrow> baseSource \<Rightarrow> 'b disk \<Rightarrow> store_error option \<times> baseSource \<times> 'b disk list" where
  "AddVisitor cd se v s dk =
     (case v of
        None \<Rightarrow> refuse NilEntry s dk
      | Some visitor \<Rightarrow>
          (let name = vc_name visitor in
           if name = [] then refuse EmptyName s dk
           else (case map_of (bs_visitors s) name of
                   Some _ \<Rightarrow> refuse AlreadyExists s dk
                 | None \<Rightarrow>
                     (let s' = s\<lparr>bs_visitors := map_put name visitor (bs_visitors s)\<rparr>
                      in persist cd se s' (s'\<lparr>bs_visitors := map_delete name (bs_visitors s')\<rparr>) dk))))"

definition UpdateVisitor ::
  "('b, 'r) codec \<Rightarrow> save_env \<Rightarrow> VisitorConfigurer option \<Rightarrow> baseSource \<Rightarrow> 'b disk \<Rightarrow> store_error option \<times> baseSource \<times> 'b disk list" where
  "UpdateVisitor cd se v s dk =
     (case v of
        None \<Rightarrow> refuse NilEntry s dk
      | Some visitor \<Rightarrow>
          (let name = vc_name visitor in
           if name = [] then refuse EmptyName s dk
           else (case map_of (bs_visitors s) name of
                   None \<Rightarrow> refuse NotFound s dk
                 | Some oldVisitor \<Rightarrow>
                     (let s' = s\<lparr>bs_visitors := map_put name visitor (bs_visitors s)\<rparr>
                      in persist cd se s' (s'\<lparr>bs_visitors := map_put name oldVisitor (bs_visitors s')\<rparr>) dk))))"

definition RemoveVisitor ::
  "('b, 'r) codec \<Rightarrow> save_env \<Rightarrow> string \<Rightarrow> baseSource \<Rightarrow> 'b disk \<Rightarrow> store_error option \<times> baseSource \<times> 'b disk list" where
  "RemoveVisitor cd se name s dk =
     (if name = [] then refuse EmptyName s dk
      else (case map_of (bs_visitors s) name of
              None \<Rightarrow> refuse NotFound s dk
            | Some oldVisitor \<Rightarrow>
                (let s' = s\<lparr>bs_visitors := map_delete name (bs_visitors s)\<rparr>
                 in persist cd se s' (s'\<lparr>bs_visitors := map_put name oldVisitor (bs_visitors s')\<rparr>) dk)))"

definition GetVisitor :: "string \<Rightarrow> baseSource \<Rightarrow> VisitorConfigurer option" where
  "GetVisitor name s = map_of (bs_visitors s) name"

definition GetAllProxies :: "baseSource \<Rightarrow> ProxyConfigurer list" where
  "GetAllProxies s = map snd (bs_proxies s)"

definition GetAllVisitors :: "baseSource \<Rightarrow> VisitorConfigurer list" where
  "GetAllVisitors s = map snd (bs_visitors s)"

section \<open>The aggregator\<close>

record Aggregator =
  ag_configSource :: baseSource
  ag_storeSource :: "baseSource option"

definition NewAggregator :: "baseSource option \<Rightarrow> Aggregator" where
  "NewAggregator configSource =
     \<lparr>ag_configSource = (case configSource of None \<Rightarrow> newBaseSource | Some s \<Rightarrow> s), ag_storeSource = None\<rparr>"

definition SetStoreSource :: "baseSource option \<Rightarrow> Aggregator \<Rightarrow> Aggregator" where
  "SetStoreSource storeSource a = a\<lparr>ag_storeSource := storeSource\<rparr>"

definition getSourcesLocked :: "Aggregator \<Rightarrow> baseSource list" where
  "getSourcesLocked a = ag_configSource a # (case ag_storeSource a of None \<Rightarrow> [] | Some s \<Rightarrow> [s])"

definition mapsToSortedSlices ::
  "(string \<times> ProxyConfigurer) list \<Rightarrow> (string \<times> VisitorConfigurer) list \<Rightarrow> ProxyConfigurer list \<times> VisitorConfigurer list" where
  "mapsToSortedSlices proxyMap visitorMap = (sort_key pc_name (map snd proxyMap), sort_key vc_name (map snd visitorMap))"

definition merge_entries :: "('c \<Rightarrow> string) \<Rightarrow> 'c list \<Rightarrow> (string \<times> 'c) list \<Rightarrow> (string \<times> 'c) list" where
  "merge_entries cname cs m = fold (\<lambda>c. map_put (cname c) c) cs m"

definition ag_Load :: "Aggregator \<Rightarrow> ProxyConfigurer list \<times> VisitorConfigurer list" where
  "ag_Load a =
     (let entries = map bs_Load (getSourcesLocked a) in
      mapsToSortedSlices (fold (\<lambda>(ps, vs). merge_entries pc_name ps) entries [])
        (fold (\<lambda>(ps, vs). merge_entries vc_name vs) entries []))"

section \<open>Well-formed tables\<close>

definition table_wf :: "('c \<Rightarrow> string) \<Rightarrow> (string \<times> 'c) list \<Rightarrow> bool" where
  "table_wf cname m \<longleftrightarrow> distinct (map fst m) \<and> (\<forall>(n, c) \<in> set m. cname c = n \<and> n \<noteq> [])"

definition bs_wf :: "baseSource \<Rightarrow> bool" where
  "bs_wf s \<longleftrightarrow> table_wf pc_name (bs_proxies s) \<and> table_wf vc_name (bs_visitors s)"

lemma table_wf_Nil [simp]: "table_wf cname []"
  by (simp add: table_wf_def)

lemma table_wf_put: "table_wf cname m \<Longrightarrow> cname c \<noteq> [] \<Longrightarrow> table_wf cname (map_put (cname c) c m)"
  using set_map_put [of "cname c" c m] by (auto simp: table_wf_def distinct_map_put)

lemma table_wf_delete: "table_wf cname m \<Longrightarrow> table_wf cname (map_delete n m)"
  by (auto simp: table_wf_def distinct_map_delete) (auto simp: map_delete_def)

lemma table_wf_name: "table_wf cname m \<Longrightarrow> map_of m n = Some c \<Longrightarrow> cname c = n \<and> n \<noteq> []"
  by (auto simp: table_wf_def dest: map_of_SomeD)

lemma table_wf_by_name: "table_wf cname m \<Longrightarrow> by_name cname (map snd m) = map_of m"
proof (induction m)
  case (Cons a m)
  then show ?case by (cases a) (auto simp: by_name_def fun_eq_iff table_wf_def)
qed (simp add: by_name_def fun_eq_iff)

lemma table_wf_names: "table_wf cname m \<Longrightarrow> map cname (map snd m) = map fst m"
  by (induction m) (auto simp: table_wf_def)

lemma table_wf_distinct: "table_wf cname m \<Longrightarrow> distinct (map cname (map snd m))"
  by (simp only: table_wf_names) (simp add: table_wf_def)

lemma collect_wf: "collect cname cs m = ok m' \<Longrightarrow> table_wf cname m \<Longrightarrow> table_wf cname m'"
  by (induction cname cs m rule: collect.induct) (auto split: if_splits intro: table_wf_put)

lemma collect_lookup:
  "collect cname (map Some cs) m = ok m' \<Longrightarrow> map_of m' n = (case by_name cname (rev cs) n of Some c \<Rightarrow> Some c | None \<Rightarrow> map_of m n)"
  by (induction cs arbitrary: m) (auto simp: by_name_def map_add_def split: if_splits option.splits)

lemma collect_ok: "(\<forall>c \<in> set cs. cname c \<noteq> []) \<Longrightarrow> \<exists>m'. collect cname (map Some cs) m = ok m'"
  by (induction cs arbitrary: m) auto

lemma load_entries_wf: "load_entries dec failed cname i rs m = ok m' \<Longrightarrow> table_wf cname m \<Longrightarrow> table_wf cname m'"
  by (induction dec failed cname i rs m rule: load_entries.induct) (auto split: if_splits option.splits intro: table_wf_put)

lemma ReplaceAll_wf: "ReplaceAll ps vs s = (r, s') \<Longrightarrow> bs_wf s \<Longrightarrow> bs_wf s'"
  by (auto simp: ReplaceAll_def bs_wf_def split: sum.splits dest: collect_wf)

lemma loadFromFile_wf:
  assumes "loadFromFile cd data = ok s"
  shows "bs_wf s"
proof -
  obtain rps rvs ps vs where u: "load_entries (cd_proxy cd) DecodeProxyFailed pc_name 0 rps [] = ok ps"
      "load_entries (cd_visitor cd) DecodeVisitorFailed vc_name 0 rvs [] = ok vs" "s = \<lparr>bs_proxies = ps, bs_visitors = vs\<rparr>"
    using assms by (auto simp: loadFromFile_def split: option.splits sum.splits)
  then show ?thesis using load_entries_wf [OF u(1) table_wf_Nil] load_entries_wf [OF u(2) table_wf_Nil] by (simp add: bs_wf_def)
qed

lemma NewStoreSource_wf: "NewStoreSource cd path dk = ok s \<Longrightarrow> bs_wf s"
  by (auto simp: NewStoreSource_def newBaseSource_def bs_wf_def split: if_splits option.splits dest: loadFromFile_wf)

section \<open>What the aggregator returns\<close>

lemma merge_entries_lookup:
  "map_of (merge_entries cname cs m) n = (case by_name cname (rev cs) n of Some c \<Rightarrow> Some c | None \<Rightarrow> map_of m n)"
  by (induction cs arbitrary: m) (auto simp: merge_entries_def by_name_def map_add_def split: option.splits)

lemma merge_entries_wf: "table_wf cname m \<Longrightarrow> (\<forall>c \<in> set cs. cname c \<noteq> []) \<Longrightarrow> table_wf cname (merge_entries cname cs m)"
  by (induction cs arbitrary: m) (simp_all add: merge_entries_def table_wf_put)

lemma filtered_lookup:
  assumes "table_wf cname m"
  shows "by_name cname (rev (filter P (map snd m))) n = (case map_of m n of Some c \<Rightarrow> if P c then Some c else None | None \<Rightarrow> None)"
proof -
  have f: "table_wf cname (filter (P \<circ> snd) m)" using assms by (auto simp: table_wf_def distinct_map_filter)
  have d: "distinct (map cname (filter P (map snd m)))"
    using table_wf_distinct [OF f] by (simp add: filter_map)
  have "by_name cname (rev (filter P (map snd m))) n = map_of (filter (P \<circ> snd) m) n"
    using by_name_rev [OF d] table_wf_by_name [OF f] by (simp add: filter_map)
  then show ?thesis using assms map_of_filter_distinct [of m "P \<circ> snd" n] by (auto simp: table_wf_def split: option.splits)
qed

lemma sorted_by_name:
  assumes "table_wf cname m"
  shows "by_name cname (sort_key cname (map snd m)) = map_of m" and "distinct (map cname (sort_key cname (map snd m)))"
proof -
  show d: "distinct (map cname (sort_key cname (map snd m)))" using table_wf_distinct [OF assms] by (metis mset_map mset_sort mset_eq_imp_distinct_iff)
  show "by_name cname (sort_key cname (map snd m)) = map_of m"
  proof
    fix n
    show "by_name cname (sort_key cname (map snd m)) n = map_of m n"
    proof (cases "map_of m n")
      case None
      then have "n \<notin> cname ` set (map snd m)" using table_wf_names [OF assms] by (metis map_of_eq_None_iff set_map)
      then show ?thesis using None by (simp add: by_name_None)
    next
      case (Some c)
      then have "c \<in> set (sort_key cname (map snd m))" "cname c = n"
        using table_wf_name [OF assms Some] by (force dest: map_of_SomeD)+
      then show ?thesis using by_name_in [OF d, of c] Some by simp
    qed
  qed
qed


definition override :: "('c \<Rightarrow> bool) \<Rightarrow> ('n \<Rightarrow> 'c option) \<Rightarrow> ('n \<Rightarrow> 'c option) \<Rightarrow> 'n \<Rightarrow> 'c option" where
  "override enabled low high n =
     (case high n of
        Some c \<Rightarrow> if enabled c then Some c else (case low n of Some c' \<Rightarrow> if enabled c' then Some c' else None | None \<Rightarrow> None)
      | None \<Rightarrow> (case low n of Some c' \<Rightarrow> if enabled c' then Some c' else None | None \<Rightarrow> None))"

definition store_tables :: "Aggregator \<Rightarrow> baseSource" where
  "store_tables a = (case ag_storeSource a of None \<Rightarrow> newBaseSource | Some s \<Rightarrow> s)"

definition ag_wf :: "Aggregator \<Rightarrow> bool" where
  "ag_wf a \<longleftrightarrow> bs_wf (ag_configSource a) \<and> bs_wf (store_tables a)"

lemma merged_lookup:
  fixes P :: "'c \<Rightarrow> bool"
  assumes "table_wf cname low" and "table_wf cname high"
  defines "m \<equiv> merge_entries cname (filter P (map snd high)) (merge_entries cname (filter P (map snd low)) [])"
  shows "map_of m = override P (map_of low) (map_of high)" and "table_wf cname m"
proof -
  show "map_of m = override P (map_of low) (map_of high)"
    by (rule ext) (simp add: m_def merge_entries_lookup filtered_lookup assms(1,2) override_def split: option.split)
  have n: "\<forall>c \<in> set (filter P (map snd t)). cname c \<noteq> []" if "table_wf cname t" for t using that by (auto simp: table_wf_def)
  show "table_wf cname m" unfolding m_def by (intro merge_entries_wf table_wf_Nil n assms(1,2))
qed

lemma ag_Load_merged:
  "ag_Load a =
     (sort_key pc_name (map snd (merge_entries pc_name (filter pc_enabled (map snd (bs_proxies (store_tables a))))
        (merge_entries pc_name (filter pc_enabled (map snd (bs_proxies (ag_configSource a)))) []))),
      sort_key vc_name (map snd (merge_entries vc_name (filter vc_enabled (map snd (bs_visitors (store_tables a))))
        (merge_entries vc_name (filter vc_enabled (map snd (bs_visitors (ag_configSource a)))) []))))"
  by (cases "ag_storeSource a")
    (simp_all add: ag_Load_def getSourcesLocked_def bs_Load_def mapsToSortedSlices_def store_tables_def newBaseSource_def merge_entries_def)

lemma ag_Load_lookup:
  assumes "ag_wf a"
  shows "by_name pc_name (fst (ag_Load a)) = override pc_enabled (map_of (bs_proxies (ag_configSource a))) (map_of (bs_proxies (store_tables a)))"
    and "by_name vc_name (snd (ag_Load a)) = override vc_enabled (map_of (bs_visitors (ag_configSource a))) (map_of (bs_visitors (store_tables a)))"
    and "distinct (map pc_name (fst (ag_Load a)))" and "distinct (map vc_name (snd (ag_Load a)))"
    and "sorted (map pc_name (fst (ag_Load a)))" and "sorted (map vc_name (snd (ag_Load a)))"
  using assms by (simp_all add: ag_Load_merged ag_wf_def bs_wf_def merged_lookup sorted_by_name)

lemma by_name_ran: "distinct (map cname xs) \<Longrightarrow> ran (by_name cname xs) = set xs"
  using by_name_in [of cname xs] by (auto simp: ran_def dest: by_name_Some)

text \<open>A list sorted by distinct names is determined by what is under each name.\<close>

lemma sorted_by_name_unique:
  assumes "distinct (map cname xs)" "distinct (map cname ys)" "sorted (map cname xs)" "sorted (map cname ys)"
    and "by_name cname xs = by_name cname ys"
  shows "xs = (ys :: 'c list)"
proof -
  have "set xs = set ys" using by_name_ran [OF assms(1)] by_name_ran [OF assms(2)] assms(5) by simp
  then have "map cname xs = map cname ys" using assms(1-4) by (intro sorted_distinct_set_unique) simp_all
  moreover have "inj_on cname (set xs \<union> set ys)" using \<open>set xs = set ys\<close> assms(1) by (simp add: distinct_map)
  ultimately show ?thesis by (rule map_inj_on)
qed

text \<open>The configuration a client runs with. Under each name the aggregator returns the enabled entry of the
  store or else the enabled entry of the configuration file: a disabled entry of the store hides
  nothing. The result is sorted by name without repetitions, and does not depend on the order in
  which the tables are traversed.\<close>

theorem aggregator_overrides:
  assumes "ag_wf a"
  shows "by_name pc_name (fst (ag_Load a)) = override pc_enabled (map_of (bs_proxies (ag_configSource a))) (map_of (bs_proxies (store_tables a)))
    \<and> by_name vc_name (snd (ag_Load a)) = override vc_enabled (map_of (bs_visitors (ag_configSource a))) (map_of (bs_visitors (store_tables a)))
    \<and> sorted_wrt (<) (map pc_name (fst (ag_Load a))) \<and> sorted_wrt (<) (map vc_name (snd (ag_Load a)))
    \<and> (\<forall>b. ag_wf b \<and> map_of (bs_proxies (ag_configSource b)) = map_of (bs_proxies (ag_configSource a))
         \<and> map_of (bs_visitors (ag_configSource b)) = map_of (bs_visitors (ag_configSource a))
         \<and> map_of (bs_proxies (store_tables b)) = map_of (bs_proxies (store_tables a))
         \<and> map_of (bs_visitors (store_tables b)) = map_of (bs_visitors (store_tables a)) \<longrightarrow> ag_Load b = ag_Load a)"
proof (intro conjI allI impI)
  note l = ag_Load_lookup [OF assms]
  show "by_name pc_name (fst (ag_Load a)) = override pc_enabled (map_of (bs_proxies (ag_configSource a))) (map_of (bs_proxies (store_tables a)))" by (rule l(1))
  show "by_name vc_name (snd (ag_Load a)) = override vc_enabled (map_of (bs_visitors (ag_configSource a))) (map_of (bs_visitors (store_tables a)))" by (rule l(2))
  show "sorted_wrt (<) (map pc_name (fst (ag_Load a)))" "sorted_wrt (<) (map vc_name (snd (ag_Load a)))"
    using l(3-6) by (simp_all add: strict_sorted_iff)
  fix b
  assume b: "ag_wf b \<and> map_of (bs_proxies (ag_configSource b)) = map_of (bs_proxies (ag_configSource a))
         \<and> map_of (bs_visitors (ag_configSource b)) = map_of (bs_visitors (ag_configSource a))
         \<and> map_of (bs_proxies (store_tables b)) = map_of (bs_proxies (store_tables a))
         \<and> map_of (bs_visitors (store_tables b)) = map_of (bs_visitors (store_tables a))"
  then have "ag_wf b" by blast
  note k = ag_Load_lookup [OF this]
  have "fst (ag_Load b) = fst (ag_Load a)" using b l(1) k(1) by (intro sorted_by_name_unique [OF k(3) l(3) k(5) l(5)]) simp
  moreover have "snd (ag_Load b) = snd (ag_Load a)" using b l(2) k(2) by (intro sorted_by_name_unique [OF k(4) l(4) k(6) l(6)]) simp
  ultimately show "ag_Load b = ag_Load a" by (rule prod_eqI)
qed

theorem aggregator_overrides_witness:
  "by_name pc_name (fst (ag_Load (SetStoreSource (Some \<lparr>bs_proxies = [(''a'', demo_tcp_conf ''a'' 7000)], bs_visitors = []\<rparr>)
      (NewAggregator (Some \<lparr>bs_proxies = [(''b'', demo_tcp_conf ''b'' 6001), (''a'', demo_tcp_conf ''a'' 6000)], bs_visitors = []\<rparr>))))) ''a''
   = Some (demo_tcp_conf ''a'' 7000)"
proof -
  let ?a = "SetStoreSource (Some \<lparr>bs_proxies = [(''a'', demo_tcp_conf ''a'' 7000)], bs_visitors = []\<rparr>)
      (NewAggregator (Some \<lparr>bs_proxies = [(''b'', demo_tcp_conf ''b'' 6001), (''a'', demo_tcp_conf ''a'' 6000)], bs_visitors = []\<rparr>))"
  have w: "ag_wf ?a" by (simp add: ag_wf_def store_tables_def SetStoreSource_def NewAggregator_def bs_wf_def table_wf_def demo_tcp_conf_base)
  have e: "pb_Enabled (GetBaseConfig (demo_tcp_conf n p)) = None" for n p
    by (simp add: demo_tcp_conf_def GetBaseConfig_def zero_base_def ProxyBaseConfig.defs)
  from aggregator_overrides [OF w] show ?thesis
    by (simp add: store_tables_def SetStoreSource_def NewAggregator_def override_def e)
qed

section \<open>The store as a table\<close>

datatype store_op =
    AddP "ProxyConfigurer option" | UpdP "ProxyConfigurer option" | RemP string
  | AddV "VisitorConfigurer option" | UpdV "VisitorConfigurer option" | RemV string

fun store_exec :: "('b, 'r) codec \<Rightarrow> save_env \<Rightarrow> store_op \<Rightarrow> baseSource \<Rightarrow> 'b disk \<Rightarrow> store_error option \<times> baseSource \<times> 'b disk list" where
  "store_exec cd se (AddP p) = AddProxy cd se p"
| "store_exec cd se (UpdP p) = UpdateProxy cd se p"
| "store_exec cd se (RemP n) = RemoveProxy cd se n"
| "store_exec cd se (AddV v) = AddVisitor cd se v"
| "store_exec cd se (UpdV v) = UpdateVisitor cd se v"
| "store_exec cd se (RemV n) = RemoveVisitor cd se n"

text \<open>What the operations mean on a map from names to configurations.\<close>

definition spec_put :: "bool \<Rightarrow> ('c \<Rightarrow> string) \<Rightarrow> 'c option \<Rightarrow> (string \<Rightarrow> 'c option) \<Rightarrow> (entry_error, string \<Rightarrow> 'c option) result" where
  "spec_put new cname c m =
     (case c of
        None \<Rightarrow> err NilEntry
      | Some c \<Rightarrow> if cname c = [] then err EmptyName
                  else if new \<and> m (cname c) \<noteq> None then err AlreadyExists
                  else if \<not> new \<and> m (cname c) = None then err NotFound
                  else ok (m(cname c \<mapsto> c)))"

definition spec_rem :: "string \<Rightarrow> (string \<Rightarrow> 'c option) \<Rightarrow> (entry_error, string \<Rightarrow> 'c option) result" where
  "spec_rem n m = (if n = [] then err EmptyName else if m n = None then err NotFound else ok (m(n := None)))"

type_synonym tables = "(string \<Rightarrow> ProxyConfigurer option) \<times> (string \<Rightarrow> VisitorConfigurer option)"

fun spec_op :: "store_op \<Rightarrow> tables \<Rightarrow> (entry_error, tables) result" where
  "spec_op (AddP p) (mp, mv) = map_sum id (\<lambda>m. (m, mv)) (spec_put True pc_name p mp)"
| "spec_op (UpdP p) (mp, mv) = map_sum id (\<lambda>m. (m, mv)) (spec_put False pc_name p mp)"
| "spec_op (RemP n) (mp, mv) = map_sum id (\<lambda>m. (m, mv)) (spec_rem n mp)"
| "spec_op (AddV v) (mp, mv) = map_sum id (\<lambda>m. (mp, m)) (spec_put True vc_name v mv)"
| "spec_op (UpdV v) (mp, mv) = map_sum id (\<lambda>m. (mp, m)) (spec_put False vc_name v mv)"
| "spec_op (RemV n) (mp, mv) = map_sum id (\<lambda>m. (mp, m)) (spec_rem n mv)"

definition bs_abs :: "baseSource \<Rightarrow> tables" where
  "bs_abs s = (map_of (bs_proxies s), map_of (bs_visitors s))"

lemmas store_defs = AddProxy_def UpdateProxy_def RemoveProxy_def AddVisitor_def UpdateVisitor_def RemoveVisitor_def

lemma store_exec_refused: "spec_op op (bs_abs s) = err x \<Longrightarrow> store_exec cd se op s dk = refuse x s dk"
  by (cases op) (auto simp: bs_abs_def store_defs spec_put_def spec_rem_def Let_def split: option.splits if_splits)

lemma table_wf_take_back:
  assumes "table_wf cname m" and "map_of m n = Some c" and "table_wf cname m'"
  shows "table_wf cname (map_put n c m')"
  using table_wf_put [OF assms(3), of c] table_wf_name [OF assms(1,2)] by simp

text \<open>An operation that is not refused is one save of a table \<open>s'\<close> as specified, with a way back.\<close>

lemma store_exec_saved:
  assumes wf: "bs_wf s" and t: "spec_op op (bs_abs s) = ok t"
  shows "\<exists>s' undone. store_exec cd se op s dk = persist cd se s' undone dk \<and> bs_abs s' = t \<and> bs_abs undone = bs_abs s \<and> bs_wf s' \<and> bs_wf undone"
proof -
  have w: "table_wf pc_name (bs_proxies s)" "table_wf vc_name (bs_visitors s)" using wf by (simp_all add: bs_wf_def)
  note b = table_wf_take_back [OF w(1)] table_wf_take_back [OF w(2)]
  note r = bs_abs_def bs_wf_def store_defs spec_put_def spec_rem_def Let_def w table_wf_put [of pc_name] table_wf_put [of vc_name] table_wf_delete map_of_map_delete
  show ?thesis
  proof (cases op)
    case (AddP p)
    then show ?thesis using t by (auto simp: r split: option.splits if_splits intro!: exI)
  next
    case (UpdP p)
    then show ?thesis using t by (auto simp: r b split: option.splits if_splits intro!: exI)
  next
    case (RemP n)
    then show ?thesis using t by (auto simp: r b split: option.splits if_splits intro!: exI)
  next
    case (AddV v)
    then show ?thesis using t by (auto simp: r split: option.splits if_splits intro!: exI)
  next
    case (UpdV v)
    then show ?thesis using t by (auto simp: r b split: option.splits if_splits intro!: exI)
  next
    case (RemV n)
    then show ?thesis using t by (auto simp: r b split: option.splits if_splits intro!: exI)
  qed
qed

section \<open>The store on disk\<close>

text \<open>The contract of the codec, the JSON package with the decoding of \<^verbatim>\<open>pkg/config/v1/decode.go\<close>: what was marshalled is decoded as it was.\<close>

definition codec_ok :: "('b, 'r) codec \<Rightarrow> bool" where
  "codec_ok cd \<longleftrightarrow> (\<forall>ps vs data. cd_marshal cd ps vs = Some data \<longrightarrow>
     (\<exists>rps rvs. cd_unmarshal cd data = Some (rps, rvs) \<and> map (cd_proxy cd) rps = map Some ps \<and> map (cd_visitor cd) rvs = map Some vs))"

text \<open>What a save leaves in the file at each point in time.\<close>

lemma save_states:
  assumes "saveToFileUnlocked cd se s dk = (e, ds)"
  defines "old \<equiv> (\<lambda>d. dk_file d = dk_file dk)"
    and "new \<equiv> (\<lambda>d. \<exists>data. cd_marshal cd (map snd (bs_proxies s)) (map snd (bs_visitors s)) = Some data \<and> dk_file d = Some data)"
  shows "ds \<noteq> [] \<and> (\<forall>d \<in> set ds. old d \<or> (e = None \<and> new d)) \<and> (if e = None then new (last ds) else \<forall>d \<in> set ds. old d)"
  using assms by (auto simp: saveToFileUnlocked_def Let_def split: option.splits if_splits)

lemma load_entries_saved:
  "map dec rs = map Some (map snd t) \<Longrightarrow> table_wf cname (m @ t) \<Longrightarrow> load_entries dec failed cname i rs m = ok (m @ t)"
proof (induction t arbitrary: rs m i)
  case (Cons a t)
  obtain n c where a: "a = (n, c)" by (cases a)
  obtain r rs' where rs: "rs = r # rs'" "dec r = Some c" "map dec rs' = map Some (map snd t)" using Cons.prems(1) a by (cases rs) auto
  have c: "cname c = n" "n \<noteq> []" "n \<notin> fst ` set m" using Cons.prems(2) a by (auto simp: table_wf_def)
  then have "map_put (cname c) c m = m @ [a]" using map_put_new [of n m c] a by simp
  then show ?case using Cons.IH [OF rs(3), of "m @ [a]" "Suc i"] Cons.prems(2) rs c by simp
qed simp

lemma NewStoreSource_saved:
  assumes "codec_ok cd" and "bs_wf s" and "cd_marshal cd (map snd (bs_proxies s)) (map snd (bs_visitors s)) = Some data"
    and "dk_file d = Some data" and "path \<noteq> []"
  shows "NewStoreSource cd path d = ok s"
proof -
  obtain rps rvs where r: "cd_unmarshal cd data = Some (rps, rvs)" "map (cd_proxy cd) rps = map Some (map snd (bs_proxies s))"
      "map (cd_visitor cd) rvs = map Some (map snd (bs_visitors s))"
    using assms(1,3) unfolding codec_ok_def by blast
  have "load_entries (cd_proxy cd) DecodeProxyFailed pc_name 0 rps [] = ok (bs_proxies s)"
    "load_entries (cd_visitor cd) DecodeVisitorFailed vc_name 0 rvs [] = ok (bs_visitors s)"
    using load_entries_saved [OF r(2), of pc_name "[]"] load_entries_saved [OF r(3), of vc_name "[]"] assms(2) by (simp_all add: bs_wf_def)
  then show ?thesis using r(1) assms(4,5) by (simp add: NewStoreSource_def loadFromFile_def)
qed

text \<open>The tables in memory are those that a restart would load.\<close>

definition in_sync :: "('b, 'r) codec \<Rightarrow> string \<Rightarrow> baseSource \<Rightarrow> 'b disk \<Rightarrow> bool" where
  "in_sync cd path s dk \<longleftrightarrow> (\<exists>t. NewStoreSource cd path dk = ok t \<and> bs_abs t = bs_abs s)"

lemma store_exec_sync:
  assumes cd: "codec_ok cd" and wf: "bs_wf s" and sync: "in_sync cd path s dk" and ex: "store_exec cd se op s dk = (e, s', ds)"
  shows "bs_wf s' \<and> in_sync cd path s' (last ds) \<and> (\<forall>d \<in> set ds. in_sync cd path s d \<or> in_sync cd path s' d) \<and> (e \<noteq> None \<longrightarrow> bs_abs s' = bs_abs s)"
proof (cases "spec_op op (bs_abs s)")
  case (Inl x)
  then show ?thesis using store_exec_refused [OF Inl, of cd se dk] ex wf sync by auto
next
  case (Inr t)
  obtain s1 undone where x: "store_exec cd se op s dk = persist cd se s1 undone dk" "bs_abs undone = bs_abs s" "bs_wf s1" "bs_wf undone"
    using store_exec_saved [OF wf Inr] by blast
  obtain f fs where f: "saveToFileUnlocked cd se s1 dk = (f, fs)" by fastforce
  have p: "path \<noteq> []" using sync by (auto simp: in_sync_def NewStoreSource_def)
  have old: "in_sync cd path s d" if "dk_file d = dk_file dk" for d using sync that by (auto simp: in_sync_def NewStoreSource_def split: if_splits)
  note st = save_states [OF f]
  show ?thesis
  proof (cases f)
    case None
    have new: "in_sync cd path s1 d" if "\<exists>data. cd_marshal cd (map snd (bs_proxies s1)) (map snd (bs_visitors s1)) = Some data \<and> dk_file d = Some data" for d
      using that NewStoreSource_saved [OF cd x(3) _ _ p] by (auto simp: in_sync_def)
    have "s' = s1" "ds = fs" "e = None" using ex x(1) f None by (simp_all add: persist_def)
    then show ?thesis using st None x(3) old new by auto
  next
    case (Some y)
    then have "s' = undone" "ds = fs" using ex x(1) f by (simp_all add: persist_def)
    then show ?thesis using st Some x old by (auto simp: in_sync_def)
  qed
qed

fun store_runs :: "('b, 'r) codec \<Rightarrow> (save_env \<times> store_op) list \<Rightarrow> baseSource \<Rightarrow> 'b disk \<Rightarrow> baseSource \<times> 'b disk" where
  "store_runs cd [] s dk = (s, dk)"
| "store_runs cd ((se, op) # ops) s dk = (case store_exec cd se op s dk of (e, s', ds) \<Rightarrow> store_runs cd ops s' (last ds))"

lemma store_runs_sync:
  "codec_ok cd \<Longrightarrow> bs_wf s \<Longrightarrow> in_sync cd path s dk \<Longrightarrow> store_runs cd ops s dk = (s', dk') \<Longrightarrow> bs_wf s' \<and> in_sync cd path s' dk'"
proof (induction cd ops s dk rule: store_runs.induct)
  case (2 cd se op ops s dk)
  obtain e s1 ds where x: "store_exec cd se op s dk = (e, s1, ds)" by (cases "store_exec cd se op s dk") auto
  then show ?case using 2(1) [OF x [symmetric] refl] store_exec_sync [OF 2(2,3,4) x] 2(2,5) by simp
qed simp

lemma store_exec_spec:
  assumes "bs_wf s" and "store_exec cd se op s dk = (e, s', ds)"
  shows "e = None \<Longrightarrow> spec_op op (bs_abs s) = ok (bs_abs s')" and "bs_wf s'" and "e \<noteq> None \<Longrightarrow> bs_abs s' = bs_abs s"
    and "spec_op op (bs_abs s) = err x \<Longrightarrow> e = Some (BadEntry x) \<and> s' = s \<and> ds = [dk]"
    and "spec_op op (bs_abs s) = ok t \<Longrightarrow> e \<noteq> None \<Longrightarrow> \<exists>x. e = Some (PersistFailed x)"
proof -
  have "(e = None \<longrightarrow> spec_op op (bs_abs s) = ok (bs_abs s')) \<and> bs_wf s' \<and> (e \<noteq> None \<longrightarrow> bs_abs s' = bs_abs s)
    \<and> (spec_op op (bs_abs s) = err x \<longrightarrow> e = Some (BadEntry x) \<and> s' = s \<and> ds = [dk])
    \<and> (spec_op op (bs_abs s) = ok t \<longrightarrow> e \<noteq> None \<longrightarrow> (\<exists>x. e = Some (PersistFailed x)))"
  proof (cases "spec_op op (bs_abs s)")
    case (Inl y)
    then show ?thesis using store_exec_refused [OF Inl, of cd se dk] assms by auto
  next
    case (Inr y)
    then obtain s1 undone where u: "store_exec cd se op s dk = persist cd se s1 undone dk" "bs_abs s1 = y" "bs_abs undone = bs_abs s" "bs_wf s1" "bs_wf undone"
      using store_exec_saved [OF assms(1)] by blast
    then show ?thesis using Inr assms(2) by (cases "saveToFileUnlocked cd se s1 dk") (auto simp: persist_def split: option.splits)
  qed
  then show "e = None \<Longrightarrow> spec_op op (bs_abs s) = ok (bs_abs s')" "bs_wf s'" "e \<noteq> None \<Longrightarrow> bs_abs s' = bs_abs s"
    "spec_op op (bs_abs s) = err x \<Longrightarrow> e = Some (BadEntry x) \<and> s' = s \<and> ds = [dk]"
    "spec_op op (bs_abs s) = ok t \<Longrightarrow> e \<noteq> None \<Longrightarrow> \<exists>x. e = Some (PersistFailed x)" by blast+
qed

lemma store_exec_table: "bs_wf s \<Longrightarrow> store_exec cd se op s dk = (e, s', ds) \<Longrightarrow> bs_wf s' \<and> (e \<noteq> None \<longrightarrow> bs_abs s' = bs_abs s)"
  using store_exec_spec(2,3) by blast

text \<open>C18. The store refines a table. An operation is refused for the reasons of the table, and then nothing is
  written; otherwise either it has succeeded and the store is the specified one, or it could not be
  saved and the store is as before.\<close>

theorem store_refines_table:
  assumes "bs_wf s" and "store_exec cd se op s dk = (e, s', ds)"
  shows "case spec_op op (bs_abs s) of
      Inl x \<Rightarrow> e = Some (BadEntry x) \<and> s' = s \<and> ds = [dk]
    | Inr t \<Rightarrow> bs_wf s' \<and> (if e = None then bs_abs s' = t else (\<exists>x. e = Some (PersistFailed x)) \<and> bs_abs s' = bs_abs s)"
  using store_exec_spec [OF assms] by (auto split: sum.split)

text \<open>C17. The store survives crashes. After any sequence of operations, whichever of them failed, a restart loads
  the tables that are in memory; a crash at any point within a further operation leaves a
  file from which a restart loads the tables before or after it, never a damaged file; and an operation
  that reports an error has changed nothing.\<close>

theorem store_durable:
  assumes "codec_ok cd" and "NewStoreSource cd path dk0 = ok s0" and "store_runs cd ops s0 dk0 = (s, dk)"
    and "store_exec cd se op s dk = (e, s', ds)"
  shows "(\<exists>t. NewStoreSource cd path dk = ok t \<and> bs_abs t = bs_abs s)
    \<and> (\<forall>d \<in> set ds. \<exists>t. NewStoreSource cd path d = ok t \<and> (bs_abs t = bs_abs s \<or> bs_abs t = bs_abs s'))
    \<and> (\<exists>t. NewStoreSource cd path (last ds) = ok t \<and> bs_abs t = bs_abs s')
    \<and> (e \<noteq> None \<longrightarrow> bs_abs s' = bs_abs s)"
proof -
  have "bs_wf s0" "in_sync cd path s0 dk0" using assms(2) NewStoreSource_wf by (auto simp: in_sync_def)
  then have r: "bs_wf s" "in_sync cd path s dk" using store_runs_sync [OF assms(1) _ _ assms(3)] by blast+
  have x: "in_sync cd path s' (last ds)" "\<forall>d \<in> set ds. in_sync cd path s d \<or> in_sync cd path s' d" "e \<noteq> None \<longrightarrow> bs_abs s' = bs_abs s"
    using store_exec_sync [OF assms(1) r assms(4)] by blast+
  have "\<exists>t. NewStoreSource cd path d = ok t \<and> (bs_abs t = bs_abs s \<or> bs_abs t = bs_abs s')" if "d \<in> set ds" for d
    using x(2) that unfolding in_sync_def by blast
  then show ?thesis using r(2) x(1,3) unfolding in_sync_def by blast
qed

text \<open>A codec that keeps the lists as they are, in a single unit.\<close>

definition demo_codec :: "(ProxyConfigurer list \<times> VisitorConfigurer list, ProxyConfigurer + VisitorConfigurer) codec" where
  "demo_codec = \<lparr>cd_marshal = (\<lambda>ps vs. Some [(ps, vs)]),
     cd_unmarshal = (\<lambda>data. case data of [(ps, vs)] \<Rightarrow> Some (map Inl ps, map Inr vs) | _ \<Rightarrow> None),
     cd_proxy = (\<lambda>r. case r of Inl p \<Rightarrow> Some p | Inr _ \<Rightarrow> None), cd_visitor = (\<lambda>r. case r of Inl _ \<Rightarrow> None | Inr v \<Rightarrow> Some v)\<rparr>"

definition good_save :: save_env where
  "good_save = \<lparr>se_mkdir = True, se_open = True, se_write = None, se_sync = True, se_close = True, se_rename = True, se_remove = True\<rparr>"

lemma demo_codec_ok: "codec_ok demo_codec"
  by (simp add: codec_ok_def demo_codec_def comp_def)

lemma demo_store_add:
  "AddProxy demo_codec good_save (Some (demo_tcp_conf ''a'' 6000)) newBaseSource \<lparr>dk_file = None, dk_tmp = None\<rparr>
   = (None, \<lparr>bs_proxies = [(''a'', demo_tcp_conf ''a'' 6000)], bs_visitors = []\<rparr>,
      [\<lparr>dk_file = None, dk_tmp = Some []\<rparr>, \<lparr>dk_file = None, dk_tmp = Some [([demo_tcp_conf ''a'' 6000], [])]\<rparr>,
       \<lparr>dk_file = Some [([demo_tcp_conf ''a'' 6000], [])], dk_tmp = None\<rparr>])"
  by (simp add: AddProxy_def newBaseSource_def demo_tcp_conf_base persist_def saveToFileUnlocked_def demo_codec_def good_save_def Let_def)

theorem store_refines_table_witness:
  "\<exists>s ds. store_exec demo_codec good_save (AddP (Some (demo_tcp_conf ''a'' 6000))) newBaseSource \<lparr>dk_file = None, dk_tmp = None\<rparr> = (None, s, ds)
     \<and> bs_abs s = ([''a'' \<mapsto> demo_tcp_conf ''a'' 6000], Map.empty)"
proof -
  have w: "bs_wf newBaseSource" by (simp add: bs_wf_def newBaseSource_def)
  have x: "store_exec demo_codec good_save (AddP (Some (demo_tcp_conf ''a'' 6000))) newBaseSource \<lparr>dk_file = None, dk_tmp = None\<rparr>
    = (None, \<lparr>bs_proxies = [(''a'', demo_tcp_conf ''a'' 6000)], bs_visitors = []\<rparr>,
      [\<lparr>dk_file = None, dk_tmp = Some []\<rparr>, \<lparr>dk_file = None, dk_tmp = Some [([demo_tcp_conf ''a'' 6000], [])]\<rparr>,
       \<lparr>dk_file = Some [([demo_tcp_conf ''a'' 6000], [])], dk_tmp = None\<rparr>])"
    by (simp add: demo_store_add)
  from store_refines_table [OF w x] have "bs_abs \<lparr>bs_proxies = [(''a'', demo_tcp_conf ''a'' 6000)], bs_visitors = []\<rparr> = ([''a'' \<mapsto> demo_tcp_conf ''a'' 6000], Map.empty)"
    by (simp add: bs_abs_def newBaseSource_def spec_put_def demo_tcp_conf_base)
  then show ?thesis using x by blast
qed

theorem store_durable_witness:
  "(\<exists>t. NewStoreSource demo_codec ''p'' \<lparr>dk_file = None, dk_tmp = Some []\<rparr> = ok t
       \<and> (bs_abs t = bs_abs newBaseSource \<or> bs_abs t = bs_abs \<lparr>bs_proxies = [(''a'', demo_tcp_conf ''a'' 6000)], bs_visitors = []\<rparr>))
   \<and> (\<exists>t. NewStoreSource demo_codec ''p'' \<lparr>dk_file = Some [([demo_tcp_conf ''a'' 6000], [])], dk_tmp = None\<rparr> = ok t
       \<and> bs_abs t = bs_abs \<lparr>bs_proxies = [(''a'', demo_tcp_conf ''a'' 6000)], bs_visitors = []\<rparr>)"
proof -
  have "NewStoreSource demo_codec ''p'' \<lparr>dk_file = None, dk_tmp = None\<rparr> = ok newBaseSource" by (simp add: NewStoreSource_def)
  from store_durable [OF demo_codec_ok this, of "[]" newBaseSource "\<lparr>dk_file = None, dk_tmp = None\<rparr>" good_save "AddP (Some (demo_tcp_conf ''a'' 6000))"]
  show ?thesis by (simp add: demo_store_add)
qed

end
