(* ===== verification/Client_Service.thy ===== *)
theory Client_Service
  imports Client_Managers Config_Source Server_Plugin
begin

text \<open>
  The service of the client: \<^verbatim>\<open>client/service.go\<close>, \<^verbatim>\<open>client/control.go\<close>, \<^verbatim>\<open>client/config_manager.go\<close> and the
  selection of configurations of \<^verbatim>\<open>pkg/config/load.go\<close>. The configuration file and the store reach the
  running control through \<open>reloadConfigFromSourcesLocked\<close>; a login creates a new control with the
  configuration it has read before. The sources belong to the aggregator, which the
  service drops together with its other references to them when it stops.
\<close>

section \<open>Selecting and completing configurations\<close>

text \<open>Of the common configuration the selection reads the list \<^verbatim>\<open>Start\<close>; \<open>None\<close> is a \<^verbatim>\<open>nil\<close> configuration.\<close>

type_synonym common_start = "string list option"

definition is_started :: "common_start \<Rightarrow> string \<Rightarrow> bool" where
  "is_started common name \<longleftrightarrow> (case common of None \<Rightarrow> True | Some start \<Rightarrow> start = [] \<or> name \<in> set start)"

definition FilterClientConfigurers ::
  "common_start \<Rightarrow> ProxyConfigurer list \<Rightarrow> VisitorConfigurer list \<Rightarrow> ProxyConfigurer list \<times> VisitorConfigurer list" where
  "FilterClientConfigurers common proxies visitors =
     (filter pc_enabled (filter (\<lambda>c. is_started common (pc_name c)) proxies),
      filter vc_enabled (filter (\<lambda>c. is_started common (vc_name c)) visitors))"

definition CompleteProxyConfigurers :: "ProxyConfigurer list \<Rightarrow> ProxyConfigurer list" where
  "CompleteProxyConfigurers proxies = map Complete proxies"

definition CompleteVisitorConfigurers :: "VisitorConfigurer list \<Rightarrow> VisitorConfigurer list" where
  "CompleteVisitorConfigurers visitors = map vc_Complete visitors"

section \<open>The control\<close>

record 'v client_control =
  cc_runID :: string
  cc_pm :: proxy_table
  cc_vm :: "'v visitor_table"
  cc_done :: bool

definition cc_NewControl :: "string \<Rightarrow> string \<Rightarrow> 'v client_control" where
  "cc_NewControl user runID = \<lparr>cc_runID = runID, cc_pm = NewProxyTable user, cc_vm = NewVisitorTable, cc_done = False\<rparr>"

definition cc_Run ::
  "(VisitorConfigurer \<Rightarrow> 'v option) \<Rightarrow> ProxyConfigurer list \<Rightarrow> VisitorConfigurer list \<Rightarrow> 'v client_control \<Rightarrow> 'v client_control" where
  "cc_Run run proxyCfgs visitorCfgs ctl =
     ctl\<lparr>cc_pm := cpm_UpdateAll proxyCfgs (cc_pm ctl), cc_vm := cvm_UpdateAll run visitorCfgs (cc_vm ctl)\<rparr>"

definition cc_UpdateAllConfigurer ::
  "(VisitorConfigurer \<Rightarrow> 'v option) \<Rightarrow> ProxyConfigurer list \<Rightarrow> VisitorConfigurer list \<Rightarrow> 'v client_control \<Rightarrow> 'v client_control" where
  "cc_UpdateAllConfigurer run proxyCfgs visitorCfgs ctl =
     ctl\<lparr>cc_vm := cvm_UpdateAll run visitorCfgs (cc_vm ctl), cc_pm := cpm_UpdateAll proxyCfgs (cc_pm ctl)\<rparr>"

definition handleNewProxyResp :: "int \<Rightarrow> string option \<Rightarrow> string \<Rightarrow> string \<Rightarrow> string \<Rightarrow> 'v client_control \<Rightarrow> 'v client_control" where
  "handleNewProxyResp now runErr proxyName remoteAddr respErr ctl =
     ctl\<lparr>cc_pm := snd (StartProxy now runErr (StripUserPrefix (cpm_user (cc_pm ctl)) proxyName) remoteAddr respErr (cc_pm ctl))\<rparr>"

text \<open>The work connection asked for by the server: the message it is opened with, and what happens to it
  once the server names the proxy. \<open>None\<close> is a connection that is closed.\<close>

definition handleReqWorkConn :: "(string \<Rightarrow> string) \<Rightarrow> int \<Rightarrow> TokenAuth \<Rightarrow> 'v client_control \<Rightarrow> NewWorkConn" where
  "handleReqWorkConn md5hex now auth ctl =
     signed.extend (SetNewWorkConn md5hex now auth \<lparr>sg_Timestamp = 0, sg_PrivilegeKey = []\<rparr>) (NewWorkConn.fields (cc_runID ctl))"

definition handleStartWorkConn :: "string \<Rightarrow> string \<Rightarrow> 'v client_control \<Rightarrow> string option" where
  "handleStartWorkConn proxyName respErr ctl =
     (let name = StripUserPrefix (cpm_user (cc_pm ctl)) proxyName in
      if respErr \<noteq> [] then None else if HandleWorkConn name (cc_pm ctl) then Some name else None)"

text \<open>\<open>GracefulClose\<close>, and what the worker does when the connection has ended.\<close>

definition cc_GracefulClose :: "'v client_control \<Rightarrow> 'v client_control" where
  "cc_GracefulClose ctl = ctl\<lparr>cc_pm := cpm_Close (cc_pm ctl), cc_vm := cvm_Close (cc_vm ctl), cc_done := True\<rparr>"

section \<open>The service\<close>

record ('b, 'v) client_service =
  cs_user :: string
  cs_runID :: string
  cs_configFilePath :: string
  cs_aggregator :: "Aggregator option"
  cs_disk :: "'b disk"
  cs_reloadCommon :: common_start
  cs_proxyCfgs :: "ProxyConfigurer list"
  cs_visitorCfgs :: "VisitorConfigurer list"
  cs_ctl :: "'v client_control option"
  cs_login :: "(ProxyConfigurer list \<times> VisitorConfigurer list) option"
  cs_closed :: "'v client_control list"

definition cs_NewService ::
  "string \<Rightarrow> string \<Rightarrow> common_start \<Rightarrow> Aggregator \<Rightarrow> 'b disk \<Rightarrow> ('b, 'v) client_service" where
  "cs_NewService user configFilePath common aggregator dk =
     (let (proxyCfgs, visitorCfgs) = ag_Load aggregator;
          (proxyCfgs, visitorCfgs) = FilterClientConfigurers common proxyCfgs visitorCfgs
      in \<lparr>cs_user = user, cs_runID = [], cs_configFilePath = configFilePath, cs_aggregator = Some aggregator, cs_disk = dk,
          cs_reloadCommon = common, cs_proxyCfgs = CompleteProxyConfigurers proxyCfgs,
          cs_visitorCfgs = CompleteVisitorConfigurers visitorCfgs, cs_ctl = None, cs_login = None, cs_closed = []\<rparr>)"

text \<open>The message of a login; the run identifier is the one the server has given before.\<close>

definition login_msg ::
  "(string \<Rightarrow> string) \<Rightarrow> int \<Rightarrow> TokenAuth \<Rightarrow> string \<Rightarrow> string \<Rightarrow> string \<Rightarrow> string \<Rightarrow> string \<Rightarrow> string_map \<Rightarrow> bool \<Rightarrow> int
   \<Rightarrow> ('b, 'v) client_service \<Rightarrow> Login" where
  "login_msg md5hex now auth version hostname os arch clientID metas alwaysAuthPass poolCount s =
     signed.extend (SetLogin md5hex auth \<lparr>sg_Timestamp = now, sg_PrivilegeKey = []\<rparr>)
       (Login.fields version hostname os arch (cs_user s) (cs_runID s) clientID metas alwaysAuthPass poolCount)"

text \<open>\<open>loopLoginUntilSuccess\<close>, one attempt: a login that the server accepted reads the configuration; only
  later is the new control started with it and installed in place of the old one, which is closed.\<close>

definition close_ctl :: "('b, 'v) client_service \<Rightarrow> ('b, 'v) client_service" where
  "close_ctl s = (case cs_ctl s of None \<Rightarrow> s | Some ctl \<Rightarrow> s\<lparr>cs_ctl := None, cs_closed := cs_closed s @ [cc_GracefulClose ctl]\<rparr>)"

definition login_accepted :: "string \<Rightarrow> ('b, 'v) client_service \<Rightarrow> ('b, 'v) client_service" where
  "login_accepted runID s = s\<lparr>cs_runID := runID, cs_login := Some (cs_proxyCfgs s, cs_visitorCfgs s)\<rparr>"

definition login_finish :: "(VisitorConfigurer \<Rightarrow> 'v option) \<Rightarrow> ('b, 'v) client_service \<Rightarrow> ('b, 'v) client_service" where
  "login_finish run s =
     (case cs_login s of
        None \<Rightarrow> s
      | Some (proxyCfgs, visitorCfgs) \<Rightarrow>
          (close_ctl s)\<lparr>cs_ctl := Some (cc_Run run proxyCfgs visitorCfgs (cc_NewControl (cs_user s) (cs_runID s))), cs_login := None\<rparr>)"

definition UpdateAllConfigurer ::
  "(VisitorConfigurer \<Rightarrow> 'v option) \<Rightarrow> ProxyConfigurer list \<Rightarrow> VisitorConfigurer list \<Rightarrow> ('b, 'v) client_service \<Rightarrow> ('b, 'v) client_service" where
  "UpdateAllConfigurer run proxyCfgs visitorCfgs s =
     s\<lparr>cs_proxyCfgs := proxyCfgs, cs_visitorCfgs := visitorCfgs,
       cs_ctl := map_option (cc_UpdateAllConfigurer run proxyCfgs visitorCfgs) (cs_ctl s)\<rparr>"

datatype reload_error = AggregatorMissing | ConfigSourceMissing | ReplaceFailed entry_error

definition reloadConfigFromSourcesLocked ::
  "(VisitorConfigurer \<Rightarrow> 'v option) \<Rightarrow> ('b, 'v) client_service \<Rightarrow> (reload_error, unit) result \<times> ('b, 'v) client_service" where
  "reloadConfigFromSourcesLocked run s =
     (case cs_aggregator s of
        None \<Rightarrow> (err AggregatorMissing, s)
      | Some aggregator \<Rightarrow>
          (let (proxies, visitors) = ag_Load aggregator;
               (proxies, visitors) = FilterClientConfigurers (cs_reloadCommon s) proxies visitors
           in (ok (), UpdateAllConfigurer run (CompleteProxyConfigurers proxies) (CompleteVisitorConfigurers visitors) s)))"

definition UpdateConfigSource ::
  "(VisitorConfigurer \<Rightarrow> 'v option) \<Rightarrow> common_start \<Rightarrow> ProxyConfigurer option list \<Rightarrow> VisitorConfigurer option list
   \<Rightarrow> ('b, 'v) client_service \<Rightarrow> (reload_error, unit) result \<times> ('b, 'v) client_service" where
  "UpdateConfigSource run common proxyCfgs visitorCfgs s =
     (case cs_aggregator s of
        None \<Rightarrow> (err ConfigSourceMissing, s)
      | Some a \<Rightarrow>
          (case ReplaceAll proxyCfgs visitorCfgs (ag_configSource a) of
             (Inl e, _) \<Rightarrow> (err (ReplaceFailed e), s)
           | (Inr _, cfgSource) \<Rightarrow>
               reloadConfigFromSourcesLocked run (s\<lparr>cs_aggregator := Some (a\<lparr>ag_configSource := cfgSource\<rparr>), cs_reloadCommon := common\<rparr>)))"

definition cs_stop :: "('b, 'v) client_service \<Rightarrow> ('b, 'v) client_service" where
  "cs_stop s = (close_ctl s)\<lparr>cs_aggregator := None\<rparr>"

definition getProxyStatus :: "string \<Rightarrow> ('b, 'v) client_service \<Rightarrow> Wrapper option" where
  "getProxyStatus name s = (case cs_ctl s of None \<Rightarrow> None | Some ctl \<Rightarrow> map_of (cpm_proxies (cc_pm ctl)) name)"

definition getVisitorCfg :: "string \<Rightarrow> ('b, 'v) client_service \<Rightarrow> VisitorConfigurer option" where
  "getVisitorCfg name s = (case cs_ctl s of None \<Rightarrow> None | Some ctl \<Rightarrow> GetVisitorCfg name (cc_vm ctl))"

section \<open>The configuration manager\<close>

datatype manager_error = InvalidArgument | MgrNotFound | Conflict | StoreDisabled | ApplyConfig | StoreFailed store_error

fun mutation_error :: "store_op \<Rightarrow> store_error \<Rightarrow> manager_error" where
  "mutation_error (AddP p) (BadEntry AlreadyExists) = Conflict"
| "mutation_error (AddV v) (BadEntry AlreadyExists) = Conflict"
| "mutation_error (UpdP p) (BadEntry NotFound) = MgrNotFound"
| "mutation_error (RemP n) (BadEntry NotFound) = MgrNotFound"
| "mutation_error (UpdV v) (BadEntry NotFound) = MgrNotFound"
| "mutation_error (RemV n) (BadEntry NotFound) = MgrNotFound"
| "mutation_error op e = StoreFailed e"

definition cs_store :: "('b, 'v) client_service \<Rightarrow> baseSource option" where
  "cs_store s = (case cs_aggregator s of None \<Rightarrow> None | Some a \<Rightarrow> ag_storeSource a)"

definition withStoreMutationAndReload ::
  "(VisitorConfigurer \<Rightarrow> 'v option) \<Rightarrow> ('b, 'r) codec \<Rightarrow> save_env \<Rightarrow> store_op
   \<Rightarrow> ('b, 'v) client_service \<Rightarrow> (manager_error, unit) result \<times> ('b, 'v) client_service" where
  "withStoreMutationAndReload run cd se op s =
     (case (cs_aggregator s, cs_store s) of
        (Some a, Some storeSource) \<Rightarrow>
          (case store_exec cd se op storeSource (cs_disk s) of
             (e, storeSource', ds) \<Rightarrow>
               (let s' = s\<lparr>cs_aggregator := Some (a\<lparr>ag_storeSource := Some storeSource'\<rparr>), cs_disk := last ds\<rparr> in
                (case e of
                   Some x \<Rightarrow> (err (mutation_error op x), s')
                 | None \<Rightarrow> (case reloadConfigFromSourcesLocked run s' of
                              (Inl _, s'') \<Rightarrow> (err ApplyConfig, s'')
                            | (Inr _, s'') \<Rightarrow> (ok (), s'')))))
      | _ \<Rightarrow> (err StoreDisabled, s))"

definition withStoreProxyMutationAndReload ::
  "(VisitorConfigurer \<Rightarrow> 'v option) \<Rightarrow> ('b, 'r) codec \<Rightarrow> save_env \<Rightarrow> string \<Rightarrow> store_op
   \<Rightarrow> ('b, 'v) client_service \<Rightarrow> (manager_error, ProxyConfigurer) result \<times> ('b, 'v) client_service" where
  "withStoreProxyMutationAndReload run cd se name op s =
     (case withStoreMutationAndReload run cd se op s of
        (Inl e, s') \<Rightarrow> (err e, s')
      | (Inr _, s') \<Rightarrow> (case Option.bind (cs_store s') (GetProxy name) of None \<Rightarrow> (err ApplyConfig, s') | Some persisted \<Rightarrow> (ok persisted, s')))"

definition withStoreVisitorMutationAndReload ::
  "(VisitorConfigurer \<Rightarrow> 'v option) \<Rightarrow> ('b, 'r) codec \<Rightarrow> save_env \<Rightarrow> string \<Rightarrow> store_op
   \<Rightarrow> ('b, 'v) client_service \<Rightarrow> (manager_error, VisitorConfigurer) result \<times> ('b, 'v) client_service" where
  "withStoreVisitorMutationAndReload run cd se name op s =
     (case withStoreMutationAndReload run cd se op s of
        (Inl e, s') \<Rightarrow> (err e, s')
      | (Inr _, s') \<Rightarrow> (case Option.bind (cs_store s') (GetVisitor name) of None \<Rightarrow> (err ApplyConfig, s') | Some persisted \<Rightarrow> (ok persisted, s')))"

text \<open>Whether a configuration is invalid; a copy of it is completed for the check.\<close>

definition validateStoreProxyConfigurer :: "(string \<Rightarrow> string list) \<Rightarrow> ProxyConfigurer option \<Rightarrow> bool" where
  "validateStoreProxyConfigurer quals cfg \<longleftrightarrow> (case cfg of None \<Rightarrow> False | Some c \<Rightarrow> ValidateProxyConfigurerForClient quals (Complete c) = None)"

definition validateStoreVisitorConfigurer :: "VisitorConfigurer option \<Rightarrow> bool" where
  "validateStoreVisitorConfigurer cfg \<longleftrightarrow> (case cfg of None \<Rightarrow> False | Some c \<Rightarrow> ValidateVisitorConfigurer (vc_Complete c) = None)"

definition CreateStoreProxy ::
  "(VisitorConfigurer \<Rightarrow> 'v option) \<Rightarrow> (string \<Rightarrow> string list) \<Rightarrow> ('b, 'r) codec \<Rightarrow> save_env \<Rightarrow> ProxyConfigurer option
   \<Rightarrow> ('b, 'v) client_service \<Rightarrow> (manager_error, ProxyConfigurer) result \<times> ('b, 'v) client_service" where
  "CreateStoreProxy run quals cd se cfg s =
     (if \<not> validateStoreProxyConfigurer quals cfg then (err InvalidArgument, s)
      else withStoreProxyMutationAndReload run cd se (pc_name (the cfg)) (AddP cfg) s)"

definition UpdateStoreProxy ::
  "(VisitorConfigurer \<Rightarrow> 'v option) \<Rightarrow> (string \<Rightarrow> string list) \<Rightarrow> ('b, 'r) codec \<Rightarrow> save_env \<Rightarrow> string \<Rightarrow> ProxyConfigurer option
   \<Rightarrow> ('b, 'v) client_service \<Rightarrow> (manager_error, ProxyConfigurer) result \<times> ('b, 'v) client_service" where
  "UpdateStoreProxy run quals cd se name cfg s =
     (if name = [] \<or> cfg = None \<or> pc_name (the cfg) \<noteq> name \<or> \<not> validateStoreProxyConfigurer quals cfg then (err InvalidArgument, s)
      else withStoreProxyMutationAndReload run cd se name (UpdP cfg) s)"

definition DeleteStoreProxy ::
  "(VisitorConfigurer \<Rightarrow> 'v option) \<Rightarrow> ('b, 'r) codec \<Rightarrow> save_env \<Rightarrow> string
   \<Rightarrow> ('b, 'v) client_service \<Rightarrow> (manager_error, unit) result \<times> ('b, 'v) client_service" where
  "DeleteStoreProxy run cd se name s =
     (if name = [] then (err InvalidArgument, s) else withStoreMutationAndReload run cd se (RemP name) s)"

definition CreateStoreVisitor ::
  "(VisitorConfigurer \<Rightarrow> 'v option) \<Rightarrow> ('b, 'r) codec \<Rightarrow> save_env \<Rightarrow> VisitorConfigurer option
   \<Rightarrow> ('b, 'v) client_service \<Rightarrow> (manager_error, VisitorConfigurer) result \<times> ('b, 'v) client_service" where
  "CreateStoreVisitor run cd se cfg s =
     (if \<not> validateStoreVisitorConfigurer cfg then (err InvalidArgument, s)
      else withStoreVisitorMutationAndReload run cd se (vc_name (the cfg)) (AddV cfg) s)"

definition UpdateStoreVisitor ::
  "(VisitorConfigurer \<Rightarrow> 'v option) \<Rightarrow> ('b, 'r) codec \<Rightarrow> save_env \<Rightarrow> string \<Rightarrow> VisitorConfigurer option
   \<Rightarrow> ('b, 'v) client_service \<Rightarrow> (manager_error, VisitorConfigurer) result \<times> ('b, 'v) client_service" where
  "UpdateStoreVisitor run cd se name cfg s =
     (if name = [] \<or> cfg = None \<or> vc_name (the cfg) \<noteq> name \<or> \<not> validateStoreVisitorConfigurer cfg then (err InvalidArgument, s)
      else withStoreVisitorMutationAndReload run cd se name (UpdV cfg) s)"

definition DeleteStoreVisitor ::
  "(VisitorConfigurer \<Rightarrow> 'v option) \<Rightarrow> ('b, 'r) codec \<Rightarrow> save_env \<Rightarrow> string
   \<Rightarrow> ('b, 'v) client_service \<Rightarrow> (manager_error, unit) result \<times> ('b, 'v) client_service" where
  "DeleteStoreVisitor run cd se name s =
     (if name = [] then (err InvalidArgument, s) else withStoreMutationAndReload run cd se (RemV name) s)"

text \<open>\<open>ReloadFromFile\<close>. The loader of the file returns the common configuration, of which the validation is a
  parameter, and the configurations. Those that are selected are completed in place for the
  validation, so that the source receives them completed.\<close>

definition ReloadFromFile ::
  "(VisitorConfigurer \<Rightarrow> 'v option) \<Rightarrow> (string \<Rightarrow> string list) \<Rightarrow> (string list \<times> bool \<times> ProxyConfigurer list \<times> VisitorConfigurer list) option
   \<Rightarrow> ('b, 'v) client_service \<Rightarrow> (manager_error, unit) result \<times> ('b, 'v) client_service" where
  "ReloadFromFile run quals loaded s =
     (if cs_configFilePath s = [] then (err InvalidArgument, s)
      else (case loaded of
              None \<Rightarrow> (err InvalidArgument, s)
            | Some (start, common_valid, proxies, visitors) \<Rightarrow>
                (let sel_p = (\<lambda>c. is_started (Some start) (pc_name c) \<and> pc_enabled c);
                     sel_v = (\<lambda>c. is_started (Some start) (vc_name c) \<and> vc_enabled c);
                     proxies' = map (\<lambda>c. if sel_p c then Complete c else c) proxies;
                     visitors' = map (\<lambda>c. if sel_v c then vc_Complete c else c) visitors
                 in if \<not> common_valid \<or> (\<exists>c \<in> set (filter sel_p proxies). ValidateProxyConfigurerForClient quals (Complete c) \<noteq> None)
                       \<or> (\<exists>c \<in> set (filter sel_v visitors). ValidateVisitorConfigurer (vc_Complete c) \<noteq> None)
                    then (err InvalidArgument, s)
                    else (case UpdateConfigSource run (Some start) (map Some proxies') (map Some visitors') s of
                            (Inl _, s') \<Rightarrow> (err ApplyConfig, s')
                          | (Inr _, s') \<Rightarrow> (ok (), s')))))"

definition GetProxyConfig :: "string \<Rightarrow> ('b, 'v) client_service \<Rightarrow> ProxyConfigurer option" where
  "GetProxyConfig name s =
     (case getProxyStatus name s of Some pw \<Rightarrow> Some (pw_Cfg pw) | None \<Rightarrow> Option.bind (cs_store s) (GetProxy name))"

definition GetVisitorConfig :: "string \<Rightarrow> ('b, 'v) client_service \<Rightarrow> VisitorConfigurer option" where
  "GetVisitorConfig name s =
     (case getVisitorCfg name s of Some c \<Rightarrow> Some c | None \<Rightarrow> Option.bind (cs_store s) (GetVisitor name))"

definition IsStoreProxyEnabled :: "string \<Rightarrow> ('b, 'v) client_service \<Rightarrow> bool" where
  "IsStoreProxyEnabled name s \<longleftrightarrow> name \<noteq> [] \<and> (case Option.bind (cs_store s) (GetProxy name) of None \<Rightarrow> False | Some c \<Rightarrow> pc_enabled c)"

section \<open>Runs of the service\<close>

text \<open>What happens to a service: logins in their two halves, the end of a control, answers of the server, the
  rounds of proxies and visitors, and the calls of the administration interface.\<close>

datatype service_event =
    EvLoginAccepted string | EvLoginFinish | EvControlFailed | EvControlDone
  | EvNewProxyResp int "string option" string string string | EvRound int string | EvTick
  | EvReload "(string list \<times> bool \<times> ProxyConfigurer list \<times> VisitorConfigurer list) option"
  | EvCreateProxy save_env "ProxyConfigurer option" | EvUpdateProxy save_env string "ProxyConfigurer option" | EvDeleteProxy save_env string
  | EvCreateVisitor save_env "VisitorConfigurer option" | EvUpdateVisitor save_env string "VisitorConfigurer option" | EvDeleteVisitor save_env string
  | EvStop

definition cpm_round :: "int \<Rightarrow> string \<Rightarrow> proxy_table \<Rightarrow> proxy_table" where
  "cpm_round now name pm =
     (case map_of (cpm_proxies pm) name of
        None \<Rightarrow> pm
      | Some pw \<Rightarrow> (case check_round now pw of (pw', out) \<Rightarrow>
          pm\<lparr>cpm_proxies := map_put name pw' (cpm_proxies pm), cpm_sent := cpm_sent pm @ out\<rparr>))"

definition on_ctl :: "('v client_control \<Rightarrow> 'v client_control) \<Rightarrow> ('b, 'v) client_service \<Rightarrow> ('b, 'v) client_service" where
  "on_ctl f s = s\<lparr>cs_ctl := map_option f (cs_ctl s)\<rparr>"

fun cs_exec ::
  "(VisitorConfigurer \<Rightarrow> 'v option) \<Rightarrow> (string \<Rightarrow> string list) \<Rightarrow> ('b, 'r) codec \<Rightarrow> service_event \<Rightarrow> ('b, 'v) client_service \<Rightarrow> ('b, 'v) client_service" where
  "cs_exec run quals cd (EvLoginAccepted runID) s = login_accepted runID s"
| "cs_exec run quals cd EvLoginFinish s = login_finish run s"
| "cs_exec run quals cd EvControlFailed s = s\<lparr>cs_login := None\<rparr>"
| "cs_exec run quals cd EvControlDone s = on_ctl cc_GracefulClose s"
| "cs_exec run quals cd (EvNewProxyResp now runErr name addr e) s = on_ctl (handleNewProxyResp now runErr name addr e) s"
| "cs_exec run quals cd (EvRound now name) s = on_ctl (\<lambda>ctl. ctl\<lparr>cc_pm := cpm_round now name (cc_pm ctl)\<rparr>) s"
| "cs_exec run quals cd EvTick s = on_ctl (\<lambda>ctl. ctl\<lparr>cc_vm := keep_running run (cc_vm ctl)\<rparr>) s"
| "cs_exec run quals cd (EvReload loaded) s = snd (ReloadFromFile run quals loaded s)"
| "cs_exec run quals cd (EvCreateProxy se cfg) s = snd (CreateStoreProxy run quals cd se cfg s)"
| "cs_exec run quals cd (EvUpdateProxy se name cfg) s = snd (UpdateStoreProxy run quals cd se name cfg s)"
| "cs_exec run quals cd (EvDeleteProxy se name) s = snd (DeleteStoreProxy run cd se name s)"
| "cs_exec run quals cd (EvCreateVisitor se cfg) s = snd (CreateStoreVisitor run cd se cfg s)"
| "cs_exec run quals cd (EvUpdateVisitor se name cfg) s = snd (UpdateStoreVisitor run cd se name cfg s)"
| "cs_exec run quals cd (EvDeleteVisitor se name) s = snd (DeleteStoreVisitor run cd se name s)"
| "cs_exec run quals cd EvStop s = cs_stop s"

fun is_api :: "service_event \<Rightarrow> bool" where
  "is_api (EvReload l) = True"
| "is_api (EvCreateProxy se c) = True" | "is_api (EvUpdateProxy se n c) = True" | "is_api (EvDeleteProxy se n) = True"
| "is_api (EvCreateVisitor se c) = True" | "is_api (EvUpdateVisitor se n c) = True" | "is_api (EvDeleteVisitor se n) = True"
| "is_api e = False"

text \<open>The runs in which no call of the administration interface falls between the two halves of a login.\<close>

inductive cs_reach ::
  "(VisitorConfigurer \<Rightarrow> 'v option) \<Rightarrow> (string \<Rightarrow> string list) \<Rightarrow> ('b, 'r) codec \<Rightarrow> ('b, 'v) client_service \<Rightarrow> bool"
  for run quals cd where
  start: "ag_wf a \<Longrightarrow> cs_reach run quals cd (cs_NewService user path common a dk)"
| step: "cs_reach run quals cd s \<Longrightarrow> (is_api ev \<longrightarrow> cs_login s = None) \<Longrightarrow> cs_reach run quals cd (cs_exec run quals cd ev s)"

section \<open>The effective configuration\<close>

text \<open>The configuration that the sources and the selection prescribe under each name.\<close>

definition effective :: "('c \<Rightarrow> bool) \<Rightarrow> ('c \<Rightarrow> 'c) \<Rightarrow> common_start \<Rightarrow> (string \<Rightarrow> 'c option) \<Rightarrow> (string \<Rightarrow> 'c option) \<Rightarrow> string \<Rightarrow> 'c option" where
  "effective enabled complete common file store n =
     (case override enabled file store n of None \<Rightarrow> None | Some c \<Rightarrow> if is_started common n then Some (complete c) else None)"

definition effective_proxy :: "common_start \<Rightarrow> Aggregator \<Rightarrow> string \<Rightarrow> ProxyConfigurer option" where
  "effective_proxy common a = effective pc_enabled Complete common (map_of (bs_proxies (ag_configSource a))) (map_of (bs_proxies (store_tables a)))"

definition effective_visitor :: "common_start \<Rightarrow> Aggregator \<Rightarrow> string \<Rightarrow> VisitorConfigurer option" where
  "effective_visitor common a = effective vc_enabled vc_Complete common (map_of (bs_visitors (ag_configSource a))) (map_of (bs_visitors (store_tables a)))"

lemma by_name_map_filter:
  assumes "distinct (map cname cs)" and "\<And>c. cname (f c) = cname c"
  shows "by_name cname (map f (filter P cs)) n = (case by_name cname cs n of None \<Rightarrow> None | Some c \<Rightarrow> if P c then Some (f c) else None)"
    and "distinct (map cname (map f (filter P cs)))"
  using assms(1)
proof (induction cs)
  case (Cons c cs)
  {
    case 1
    have b: "by_name cname (x # xs) k = (if k = cname x then Some x else by_name cname xs k)" for x xs k by (simp add: by_name_def)
    from 1 have "by_name cname cs (cname c) = None" by (simp add: by_name_None)
    then show ?case using 1 Cons.IH(1) by (auto simp: b assms(2) split: option.splits)
  next
    case 2
    then show ?case using Cons.IH(2) by (auto simp: assms(2))
  }
qed (simp_all add: by_name_def)

lemma override_enabled: "override enabled low high n = Some c \<Longrightarrow> enabled c"
  by (auto simp: override_def split: option.splits if_splits)

text \<open>What a reload hands to the control.\<close>

lemma selected_effective:
  assumes a: "ag_wf a" and sel: "FilterClientConfigurers common (fst (ag_Load a)) (snd (ag_Load a)) = (ps, vs)"
  shows "by_name pc_name (CompleteProxyConfigurers ps) = effective_proxy common a" "distinct (map pc_name (CompleteProxyConfigurers ps))"
    and "by_name vc_name (CompleteVisitorConfigurers vs) = effective_visitor common a" "distinct (map vc_name (CompleteVisitorConfigurers vs))"
proof -
  note l = ag_Load_lookup [OF a]
  let ?P = "\<lambda>c. is_started common (pc_name c) \<and> pc_enabled c" and ?V = "\<lambda>c. is_started common (vc_name c) \<and> vc_enabled c"
  have ps: "CompleteProxyConfigurers ps = map Complete (filter ?P (fst (ag_Load a)))"
    and vs: "CompleteVisitorConfigurers vs = map vc_Complete (filter ?V (snd (ag_Load a)))"
    using sel by (auto simp: FilterClientConfigurers_def CompleteProxyConfigurers_def CompleteVisitorConfigurers_def filter_filter conj_commute)
  show "distinct (map pc_name (CompleteProxyConfigurers ps))" unfolding ps by (rule by_name_map_filter(2) [OF l(3)]) simp
  show "distinct (map vc_name (CompleteVisitorConfigurers vs))" unfolding vs by (rule by_name_map_filter(2) [OF l(4)]) simp
  show "by_name pc_name (CompleteProxyConfigurers ps) = effective_proxy common a"
  proof
    fix n
    show "by_name pc_name (CompleteProxyConfigurers ps) n = effective_proxy common a n"
      unfolding ps by_name_map_filter(1) [OF l(3) Complete_name(1)] effective_proxy_def effective_def l(1) [symmetric]
      using by_name_Some [of pc_name "fst (ag_Load a)" n] override_enabled [of pc_enabled _ _ n] l(1) by (auto split: option.split)
  qed
  show "by_name vc_name (CompleteVisitorConfigurers vs) = effective_visitor common a"
  proof
    fix n
    show "by_name vc_name (CompleteVisitorConfigurers vs) n = effective_visitor common a n"
      unfolding vs by_name_map_filter(1) [OF l(4) vc_Complete_name] effective_visitor_def effective_def l(2) [symmetric]
      using by_name_Some [of vc_name "snd (ag_Load a)" n] override_enabled [of vc_enabled _ _ n] l(2) by (auto split: option.split)
  qed
qed

section \<open>The invariant\<close>

definition runs_config :: "ProxyConfigurer list \<Rightarrow> VisitorConfigurer list \<Rightarrow> 'v client_control \<Rightarrow> bool" where
  "runs_config ps vs ctl \<longleftrightarrow> cpm_wf (cc_pm ctl) \<and> cvm_wf (cc_vm ctl)
     \<and> (\<forall>n. map_option pw_Cfg (map_of (cpm_proxies (cc_pm ctl)) n) = by_name pc_name ps n)
     \<and> (\<forall>n. map_option fst (visitor_entry (cc_vm ctl) n) = by_name vc_name vs n)"

definition cs_inv :: "('b, 'v) client_service \<Rightarrow> bool" where
  "cs_inv s \<longleftrightarrow> distinct (map pc_name (cs_proxyCfgs s)) \<and> distinct (map vc_name (cs_visitorCfgs s))
     \<and> (\<forall>a. cs_aggregator s = Some a \<longrightarrow> ag_wf a \<and> by_name pc_name (cs_proxyCfgs s) = effective_proxy (cs_reloadCommon s) a
          \<and> by_name vc_name (cs_visitorCfgs s) = effective_visitor (cs_reloadCommon s) a)
     \<and> (\<forall>l. cs_login s = Some l \<longrightarrow> l = (cs_proxyCfgs s, cs_visitorCfgs s))
     \<and> (\<forall>ctl. cs_ctl s = Some ctl \<and> \<not> cc_done ctl \<longrightarrow> runs_config (cs_proxyCfgs s) (cs_visitorCfgs s) ctl)"

lemmas update_rules = proxy_update.update_wf proxy_update.update_cfg visitor_update.update_wf visitor_update.update_cfg

lemma runs_config_Run:
  "distinct (map pc_name ps) \<Longrightarrow> distinct (map vc_name vs) \<Longrightarrow> runs_config ps vs (cc_Run run ps vs (cc_NewControl user runID))"
  by (simp add: runs_config_def cc_Run_def cc_NewControl_def update_rules cpm_wf_def [of "NewProxyTable user"] cvm_wf_def [of NewVisitorTable])
    (simp add: NewProxyTable_def NewVisitorTable_def update_rules cpm_wf_def [of "\<lparr>cpm_proxies = [], cpm_user = user, cpm_sent = []\<rparr>"]
      cvm_wf_def [of "\<lparr>cvm_cfgs = [], cvm_visitors = [], cvm_closed = [], cvm_stopped = False\<rparr>"])

lemma runs_config_Update:
  "distinct (map pc_name ps) \<Longrightarrow> distinct (map vc_name vs) \<Longrightarrow> runs_config ps0 vs0 ctl \<Longrightarrow> runs_config ps vs (cc_UpdateAllConfigurer run ps vs ctl)"
  by (simp add: runs_config_def cc_UpdateAllConfigurer_def update_rules)

text \<open>An entry of the table of proxies may change, but not its configuration.\<close>

lemma cpm_put_same:
  assumes "cpm_wf pm" and "map_of (cpm_proxies pm) n = Some pw" and "pw_Cfg pw' = pw_Cfg pw"
  shows "cpm_wf (pm\<lparr>cpm_proxies := map_put n pw' (cpm_proxies pm), cpm_sent := out\<rparr>)"
    and "map_option pw_Cfg (map_of (map_put n pw' (cpm_proxies pm)) k) = map_option pw_Cfg (map_of (cpm_proxies pm) k)"
proof -
  have "pc_name (pw_Cfg pw) = n" using assms(1,2) by (auto simp: cpm_wf_def dest: map_of_SomeD)
  then show "cpm_wf (pm\<lparr>cpm_proxies := map_put n pw' (cpm_proxies pm), cpm_sent := out\<rparr>)"
    using assms set_map_put [of n pw' "cpm_proxies pm"] by (auto simp: cpm_wf_def distinct_map_put)
  show "map_option pw_Cfg (map_of (map_put n pw' (cpm_proxies pm)) k) = map_option pw_Cfg (map_of (cpm_proxies pm) k)"
    using assms(2,3) by simp
qed

lemma StartProxy_cfg:
  assumes "cpm_wf pm"
  shows "cpm_wf (snd (StartProxy now r n addr e pm))"
    and "map_option pw_Cfg (map_of (cpm_proxies (snd (StartProxy now r n addr e pm))) k) = map_option pw_Cfg (map_of (cpm_proxies pm) k)"
proof -
  have c: "pw_Cfg (fst (snd (SetRunningStatus now r addr e pw))) = pw_Cfg pw" for pw
    by (simp add: SetRunningStatus_def Let_def split: option.split)
  have u: "snd (StartProxy now r n addr e pm) = (case map_of (cpm_proxies pm) n of None \<Rightarrow> pm
      | Some pw \<Rightarrow> pm\<lparr>cpm_proxies := map_put n (fst (snd (SetRunningStatus now r addr e pw))) (cpm_proxies pm),
                      cpm_sent := cpm_sent pm @ snd (snd (SetRunningStatus now r addr e pw))\<rparr>)"
    by (auto simp: StartProxy_def Let_def case_prod_beta split: option.split start_error.split)
  show "cpm_wf (snd (StartProxy now r n addr e pm))"
    unfolding u using assms cpm_put_same(1) [OF assms _ c] by (auto split: option.split)
  show "map_option pw_Cfg (map_of (cpm_proxies (snd (StartProxy now r n addr e pm))) k) = map_option pw_Cfg (map_of (cpm_proxies pm) k)"
    unfolding u using cpm_put_same(2) [OF assms _ c] by (auto split: option.split)
qed

lemma cpm_round_cfg:
  assumes "cpm_wf pm"
  shows "cpm_wf (cpm_round now n pm)"
    and "map_option pw_Cfg (map_of (cpm_proxies (cpm_round now n pm)) k) = map_option pw_Cfg (map_of (cpm_proxies pm) k)"
proof -
  have c: "pw_Cfg (fst (check_round now pw)) = pw_Cfg pw" for pw by (simp add: check_round_def)
  have u: "cpm_round now n pm = (case map_of (cpm_proxies pm) n of None \<Rightarrow> pm
      | Some pw \<Rightarrow> pm\<lparr>cpm_proxies := map_put n (fst (check_round now pw)) (cpm_proxies pm), cpm_sent := cpm_sent pm @ snd (check_round now pw)\<rparr>)"
    by (auto simp: cpm_round_def case_prod_beta split: option.split)
  show "cpm_wf (cpm_round now n pm)" unfolding u using assms cpm_put_same(1) [OF assms _ c] by (auto split: option.split)
  show "map_option pw_Cfg (map_of (cpm_proxies (cpm_round now n pm)) k) = map_option pw_Cfg (map_of (cpm_proxies pm) k)"
    unfolding u using cpm_put_same(2) [OF assms _ c] by (auto split: option.split)
qed

lemma start_missing_wf:
  assumes "cvm_wf vm" and "\<forall>(n, c) \<in> set cs. map_of (cvm_cfgs vm) (vc_name c) \<noteq> None"
  shows "cvm_wf (start_missing run cs vm)"
  using assms
proof (induction run cs vm rule: start_missing.induct)
  case (2 run n cfg cfgs vm)
  let ?vm = "case map_of (cvm_visitors vm) (vc_name cfg) of None \<Rightarrow> startVisitor run cfg vm | Some _ \<Rightarrow> vm"
  have "cvm_cfgs ?vm = cvm_cfgs vm" by (auto simp: startVisitor_def split: option.split)
  moreover have "cvm_wf ?vm" using 2(2,3) by (auto simp: cvm_wf_def startVisitor_def split: option.split)
  ultimately show ?case using 2(1,3) by simp
qed simp

lemma keep_running_cfg:
  assumes "cvm_wf vm"
  shows "cvm_wf (keep_running run vm) \<and> map_option fst (visitor_entry (keep_running run vm) k) = map_option fst (visitor_entry vm k)"
proof -
  have "\<forall>(n, c) \<in> set (cvm_cfgs vm). map_of (cvm_cfgs vm) (vc_name c) \<noteq> None"
    using assms by (force simp: cvm_wf_def map_of_eq_None_iff)
  from start_missing_wf [OF assms this] show ?thesis
    using assms start_missing_frame [of run "cvm_cfgs vm" vm] by (auto simp: keep_running_def visitor_entry_def option.map_comp comp_def)
qed

lemma on_ctl_inv:
  assumes "cs_inv s" and "\<And>ctl. \<not> cc_done (f ctl) \<Longrightarrow> \<not> cc_done ctl"
    and "\<And>ctl. \<not> cc_done (f ctl) \<Longrightarrow> runs_config (cs_proxyCfgs s) (cs_visitorCfgs s) ctl \<Longrightarrow> runs_config (cs_proxyCfgs s) (cs_visitorCfgs s) (f ctl)"
  shows "cs_inv (on_ctl f s)"
  using assms by (auto simp: cs_inv_def on_ctl_def)

text \<open>A reload establishes the invariant, whatever the control has been running.\<close>

lemma reload_inv:
  assumes a: "cs_aggregator s = Some a" "ag_wf a" and l: "cs_login s = None"
    and c: "\<And>ctl. cs_ctl s = Some ctl \<Longrightarrow> \<not> cc_done ctl \<Longrightarrow> \<exists>ps vs. runs_config ps vs ctl"
  shows "\<exists>s'. reloadConfigFromSourcesLocked run s = (ok (), s') \<and> cs_inv s' \<and> cs_aggregator s' = Some a \<and> cs_reloadCommon s' = cs_reloadCommon s"
proof -
  obtain ps vs where sel: "FilterClientConfigurers (cs_reloadCommon s) (fst (ag_Load a)) (snd (ag_Load a)) = (ps, vs)" by fastforce
  let ?s = "UpdateAllConfigurer run (CompleteProxyConfigurers ps) (CompleteVisitorConfigurers vs) s"
  note e = selected_effective [OF a(2) sel]
  have "reloadConfigFromSourcesLocked run s = (ok (), ?s)"
    using a(1) sel by (simp add: reloadConfigFromSourcesLocked_def Let_def case_prod_beta)
  moreover have "runs_config (CompleteProxyConfigurers ps) (CompleteVisitorConfigurers vs) (cc_UpdateAllConfigurer run (CompleteProxyConfigurers ps) (CompleteVisitorConfigurers vs) ctl)"
    if ctl: "cs_ctl s = Some ctl" "\<not> cc_done ctl" for ctl
  proof -
    obtain ps0 vs0 where "runs_config ps0 vs0 ctl" using c [OF ctl] by blast
    then show ?thesis by (rule runs_config_Update [OF e(2,4)])
  qed
  then have "cs_inv ?s" using a l e by (auto simp: cs_inv_def UpdateAllConfigurer_def cc_UpdateAllConfigurer_def)
  ultimately show ?thesis using a(1) by (simp add: UpdateAllConfigurer_def)
qed

lemma cs_inv_running: "cs_inv s \<Longrightarrow> cs_ctl s = Some ctl \<Longrightarrow> \<not> cc_done ctl \<Longrightarrow> \<exists>ps vs. runs_config ps vs ctl"
  unfolding cs_inv_def by blast

lemma UpdateConfigSource_inv:
  assumes inv: "cs_inv s" and l: "cs_login s = None"
  shows "cs_inv (snd (UpdateConfigSource run common ps vs s))"
proof (cases "cs_aggregator s")
  case (Some a)
  then have a: "ag_wf a" using inv by (simp add: cs_inv_def)
  obtain r b where r: "ReplaceAll ps vs (ag_configSource a) = (r, b)" by fastforce
  show ?thesis
  proof (cases r)
    case (Inr u)
    let ?a = "a\<lparr>ag_configSource := b\<rparr>" and ?s = "s\<lparr>cs_aggregator := Some (a\<lparr>ag_configSource := b\<rparr>), cs_reloadCommon := common\<rparr>"
    have "ag_wf ?a" using a ReplaceAll_wf [OF r] by (simp add: ag_wf_def store_tables_def)
    then have "\<exists>s'. reloadConfigFromSourcesLocked run ?s = (ok (), s') \<and> cs_inv s' \<and> cs_aggregator s' = Some ?a \<and> cs_reloadCommon s' = cs_reloadCommon ?s"
      using l cs_inv_running [OF inv] by (intro reload_inv) simp_all
    then show ?thesis using Some r Inr by (auto simp: UpdateConfigSource_def)
  qed (use inv Some r in \<open>simp add: UpdateConfigSource_def\<close>)
qed (use inv in \<open>simp add: UpdateConfigSource_def\<close>)

text \<open>A change of the store that fails leaves the effective configuration as it is.\<close>

lemma effective_store_same:
  assumes "bs_abs t = bs_abs b" and "ag_storeSource a = Some b"
  shows "effective_proxy common (a\<lparr>ag_storeSource := Some t\<rparr>) = effective_proxy common a"
    and "effective_visitor common (a\<lparr>ag_storeSource := Some t\<rparr>) = effective_visitor common a"
  using assms by (simp_all add: effective_proxy_def effective_visitor_def store_tables_def bs_abs_def)

lemma store_mutation_inv:
  assumes inv: "cs_inv s" and l: "cs_login s = None"
  shows "cs_inv (snd (withStoreMutationAndReload run cd se op s))"
proof (cases "cs_store s")
  case (Some b)
  then obtain a where a: "cs_aggregator s = Some a" "ag_storeSource a = Some b" by (auto simp: cs_store_def split: option.splits)
  have w: "ag_wf a" "bs_wf b" using inv a by (auto simp: cs_inv_def ag_wf_def store_tables_def)
  obtain e b' ds where x: "store_exec cd se op b (cs_disk s) = (e, b', ds)" by (cases "store_exec cd se op b (cs_disk s)") auto
  have t: "bs_wf b' \<and> (e \<noteq> None \<longrightarrow> bs_abs b' = bs_abs b)" using store_exec_table [OF w(2) x] .
  let ?a = "a\<lparr>ag_storeSource := Some b'\<rparr>"
  let ?s = "s\<lparr>cs_aggregator := Some ?a, cs_disk := last ds\<rparr>"
  have wa: "ag_wf ?a" using w(1) t by (simp add: ag_wf_def store_tables_def)
  show ?thesis
  proof (cases e)
    case None
    have "\<exists>s'. reloadConfigFromSourcesLocked run ?s = (ok (), s') \<and> cs_inv s' \<and> cs_aggregator s' = Some ?a \<and> cs_reloadCommon s' = cs_reloadCommon ?s"
      using l wa cs_inv_running [OF inv] by (intro reload_inv) simp_all
    then show ?thesis using a Some x None by (auto simp: withStoreMutationAndReload_def Let_def)
  next
    case (Some f)
    then have "cs_inv ?s" using inv wa effective_store_same [of b' b a] t a by (simp add: cs_inv_def)
    then show ?thesis using a \<open>cs_store s = Some b\<close> x Some by (simp add: withStoreMutationAndReload_def Let_def)
  qed
qed (use inv in \<open>auto simp: withStoreMutationAndReload_def split: option.split\<close>)

lemma proxy_mutation_state: "snd (withStoreProxyMutationAndReload run cd se name op s) = snd (withStoreMutationAndReload run cd se op s)"
  by (auto simp: withStoreProxyMutationAndReload_def split: prod.split sum.split option.split)

lemma visitor_mutation_state: "snd (withStoreVisitorMutationAndReload run cd se name op s) = snd (withStoreMutationAndReload run cd se op s)"
  by (auto simp: withStoreVisitorMutationAndReload_def split: prod.split sum.split option.split)

lemmas api_defs = CreateStoreProxy_def UpdateStoreProxy_def DeleteStoreProxy_def
  CreateStoreVisitor_def UpdateStoreVisitor_def DeleteStoreVisitor_def

lemma snd_case_result [simp]:
  "snd (case u of (Inl e, t) \<Rightarrow> (f e, t) | (Inr x, t) \<Rightarrow> (g x, t)) = snd u"
  by (cases u) (auto split: sum.split)

lemma ReloadFromFile_inv:
  assumes "cs_inv s" and "cs_login s = None"
  shows "cs_inv (snd (ReloadFromFile run quals loaded s))"
proof (cases loaded)
  case (Some l)
  obtain start cv ps vs where "l = (start, cv, ps, vs)" by (cases l) auto
  then show ?thesis using Some assms by (simp add: ReloadFromFile_def Let_def UpdateConfigSource_inv del: bex_simps ball_simps)
qed (use assms in \<open>simp add: ReloadFromFile_def\<close>)

lemma api_inv:
  assumes inv: "cs_inv s" and l: "cs_login s = None" and api: "is_api ev"
  shows "cs_inv (cs_exec run quals cd ev s)"
  using api inv
  by (cases ev) (simp_all add: api_defs proxy_mutation_state visitor_mutation_state store_mutation_inv [OF inv l] ReloadFromFile_inv [OF inv l])

lemma login_finish_inv: "cs_inv s \<Longrightarrow> cs_inv (login_finish run s)"
  by (auto simp: cs_inv_def login_finish_def close_ctl_def runs_config_Run split: option.split)

lemma cs_exec_inv:
  assumes inv: "cs_inv s" and q: "is_api ev \<longrightarrow> cs_login s = None"
  shows "cs_inv (cs_exec run quals cd ev s)"
proof (cases ev)
  case (EvNewProxyResp now r n addr e)
  then show ?thesis using inv
    by (auto intro!: on_ctl_inv simp: handleNewProxyResp_def runs_config_def StartProxy_cfg)
next
  case (EvRound now n)
  then show ?thesis using inv by (auto intro!: on_ctl_inv simp: runs_config_def cpm_round_cfg)
next
  case EvTick
  then show ?thesis using inv by (auto intro!: on_ctl_inv simp: runs_config_def keep_running_cfg)
next
  case EvLoginFinish
  then show ?thesis using inv by (simp add: login_finish_inv)
qed (use inv q api_inv [OF inv, of ev run quals cd] in
  \<open>auto simp: cs_inv_def login_accepted_def on_ctl_def cc_GracefulClose_def cs_stop_def close_ctl_def split: option.splits\<close>)

lemma cs_reach_inv: "cs_reach run quals cd s \<Longrightarrow> cs_inv s"
proof (induction rule: cs_reach.induct)
  case (start a user path common dk)
  obtain ps vs where sel: "FilterClientConfigurers common (fst (ag_Load a)) (snd (ag_Load a)) = (ps, vs)" by fastforce
  then show ?case using selected_effective [OF start sel] start by (simp add: cs_inv_def cs_NewService_def Let_def case_prod_beta)
qed (rule cs_exec_inv)

text \<open>C14. A client runs its effective configuration. In every run of the service in which no call of the
  administration interface falls between the two halves of a login, a control that is connected runs
  under each name exactly what the sources prescribe: the enabled entry of the store or else that of the
  file, if it is selected, with its defaults filled in.\<close>

theorem running_config_effective:
  assumes "cs_reach run quals cd s" and "cs_aggregator s = Some a" and "cs_ctl s = Some ctl" and "\<not> cc_done ctl"
  shows "map_option pw_Cfg (map_of (cpm_proxies (cc_pm ctl)) n) = effective_proxy (cs_reloadCommon s) a n
    \<and> map_option fst (visitor_entry (cc_vm ctl) n) = effective_visitor (cs_reloadCommon s) a n"
  using cs_reach_inv [OF assms(1)] assms(2-4) by (simp add: cs_inv_def runs_config_def)

definition demo_source :: Aggregator where
  "demo_source = SetStoreSource (Some newBaseSource) (NewAggregator (Some \<lparr>bs_proxies = [(''a'', demo_tcp_conf ''a'' 6000)], bs_visitors = []\<rparr>))"

definition demo_service :: "(ProxyConfigurer list \<times> VisitorConfigurer list, unit) client_service" where
  "demo_service = cs_NewService ''u'' ''f'' None demo_source \<lparr>dk_file = None, dk_tmp = None\<rparr>"

lemma demo_source_wf: "ag_wf demo_source"
  by (simp add: demo_source_def ag_wf_def store_tables_def SetStoreSource_def NewAggregator_def newBaseSource_def bs_wf_def table_wf_def demo_tcp_conf_base)

lemma demo_enabled: "pb_Enabled (GetBaseConfig (demo_tcp_conf n p)) = None"
  by (simp add: demo_tcp_conf_def GetBaseConfig_def zero_base_def ProxyBaseConfig.defs)

lemma demo_service_fields:
  "cs_login demo_service = None" "cs_ctl demo_service = None" "cs_aggregator demo_service = Some demo_source" "cs_reloadCommon demo_service = None"
  "cs_user demo_service = ''u''" "cs_disk demo_service = \<lparr>dk_file = None, dk_tmp = None\<rparr>"
  "cs_proxyCfgs demo_service = [Complete (demo_tcp_conf ''a'' 6000)]" "cs_visitorCfgs demo_service = []"
  by (simp_all add: demo_service_def cs_NewService_def demo_source_def SetStoreSource_def NewAggregator_def ag_Load_def getSourcesLocked_def bs_Load_def
    newBaseSource_def mapsToSortedSlices_def merge_entries_def FilterClientConfigurers_def is_started_def CompleteProxyConfigurers_def CompleteVisitorConfigurers_def
    demo_enabled demo_tcp_conf_base Let_def)

theorem running_config_effective_witness:
  "map_option pw_Cfg (getProxyStatus ''a'' (login_finish (\<lambda>c. None) (login_accepted ''r'' demo_service))) = Some (Complete (demo_tcp_conf ''a'' 6000))"
proof -
  let ?run = "\<lambda>c. None" and ?s = "login_finish (\<lambda>c. None) (login_accepted ''r'' demo_service)"
  have "cs_reach ?run (\<lambda>s. []) demo_codec demo_service" unfolding demo_service_def by (rule cs_reach.start [OF demo_source_wf])
  from cs_reach.step [OF cs_reach.step [OF this, of "EvLoginAccepted ''r''"], of EvLoginFinish] have r: "cs_reach ?run (\<lambda>s. []) demo_codec ?s" by simp
  have a: "cs_aggregator ?s = Some demo_source" "cs_reloadCommon ?s = None"
    by (simp_all add: login_finish_def login_accepted_def close_ctl_def demo_service_fields)
  obtain ctl where c: "cs_ctl ?s = Some ctl" "\<not> cc_done ctl"
    by (simp add: login_finish_def login_accepted_def close_ctl_def demo_service_fields cc_Run_def cc_NewControl_def)
  from running_config_effective [OF r a(1) c, of "''a''"] show ?thesis
    by (simp add: getProxyStatus_def c a(2) effective_proxy_def effective_def demo_source_def SetStoreSource_def NewAggregator_def store_tables_def
      newBaseSource_def override_def is_started_def demo_enabled)
qed

section \<open>Changes of the store\<close>

lemma mutation_cases:
  assumes "withStoreMutationAndReload run cd se op s = (r, s')" and "cs_inv s" and "cs_login s = None"
  shows "case r of
      Inr _ \<Rightarrow> (\<exists>a b b'. cs_aggregator s = Some a \<and> ag_storeSource a = Some b \<and> spec_op op (bs_abs b) = ok (bs_abs b')
          \<and> cs_aggregator s' = Some (a\<lparr>ag_storeSource := Some b'\<rparr>) \<and> cs_reloadCommon s' = cs_reloadCommon s)
    | Inl e \<Rightarrow> cs_ctl s' = cs_ctl s \<and> cs_proxyCfgs s' = cs_proxyCfgs s \<and> cs_visitorCfgs s' = cs_visitorCfgs s
          \<and> map_option bs_abs (cs_store s') = map_option bs_abs (cs_store s)"
proof (cases "cs_store s")
  case None
  then show ?thesis using assms(1) by (auto simp: withStoreMutationAndReload_def split: option.splits)
next
  case (Some b)
  then obtain a where a: "cs_aggregator s = Some a" "ag_storeSource a = Some b" by (auto simp: cs_store_def split: option.splits)
  have w: "ag_wf a" "bs_wf b" using assms(2) a by (auto simp: cs_inv_def ag_wf_def store_tables_def)
  obtain e b' ds where x: "store_exec cd se op b (cs_disk s) = (e, b', ds)" by (cases "store_exec cd se op b (cs_disk s)") auto
  note t = store_exec_spec [OF w(2) x]
  let ?a = "a\<lparr>ag_storeSource := Some b'\<rparr>"
  let ?s = "s\<lparr>cs_aggregator := Some ?a, cs_disk := last ds\<rparr>"
  have wa: "ag_wf ?a" using w(1) store_exec_table [OF w(2) x] by (simp add: ag_wf_def store_tables_def)
  show ?thesis
  proof (cases e)
    case None
    have "\<exists>s'. reloadConfigFromSourcesLocked run ?s = (ok (), s') \<and> cs_inv s' \<and> cs_aggregator s' = Some ?a \<and> cs_reloadCommon s' = cs_reloadCommon ?s"
      using assms(3) wa cs_inv_running [OF assms(2)] by (intro reload_inv) simp_all
    then show ?thesis using a Some x None assms(1) t by (auto simp: withStoreMutationAndReload_def Let_def intro!: exI [of _ b'])
  next
    case (Some f)
    then show ?thesis using a \<open>cs_store s = Some b\<close> x assms(1) store_exec_table [OF w(2) x]
      by (auto simp: withStoreMutationAndReload_def Let_def cs_store_def)
  qed
qed

text \<open>Creating a proxy in the store. If it succeeds, the stored proxy is returned, it was new, and, if it is
  enabled and selected, a connected client runs it with its defaults filled in; if it
  fails, for whatever reason, the store and what runs are as before.\<close>

theorem store_create_applied:
  assumes reach: "cs_reach run quals cd s" and l: "cs_login s = None" and c: "CreateStoreProxy run quals cd se (Some cfg) s = (r, s')"
  shows "case r of
      Inr p \<Rightarrow> p = cfg \<and> Option.bind (cs_store s) (GetProxy (pc_name cfg)) = None \<and> Option.bind (cs_store s') (GetProxy (pc_name cfg)) = Some cfg
        \<and> (\<forall>ctl. pc_enabled cfg \<and> is_started (cs_reloadCommon s) (pc_name cfg) \<and> cs_ctl s' = Some ctl \<and> \<not> cc_done ctl
             \<longrightarrow> map_option pw_Cfg (map_of (cpm_proxies (cc_pm ctl)) (pc_name cfg)) = Some (Complete cfg))
    | Inl e \<Rightarrow> cs_ctl s' = cs_ctl s \<and> map_option bs_abs (cs_store s') = map_option bs_abs (cs_store s)"
proof (cases "validateStoreProxyConfigurer quals (Some cfg)")
  case False
  then show ?thesis using c by (auto simp: CreateStoreProxy_def)
next
  case True
  obtain m s1 where m: "withStoreMutationAndReload run cd se (AddP (Some cfg)) s = (m, s1)" by fastforce
  note mc = mutation_cases [OF m cs_reach_inv [OF reach] l]
  have s1: "s1 = s'" using c True m proxy_mutation_state [of run cd se "pc_name cfg" "AddP (Some cfg)" s] by (simp add: CreateStoreProxy_def)
  have inv': "cs_inv s'" using store_mutation_inv [OF cs_reach_inv [OF reach] l, of run cd se "AddP (Some cfg)"] m s1 by simp
  show ?thesis
  proof (cases m)
    case (Inl e)
    then show ?thesis using c True m mc s1 by (auto simp: CreateStoreProxy_def withStoreProxyMutationAndReload_def)
  next
    case (Inr u)
    then obtain a b b' where a: "cs_aggregator s = Some a" "ag_storeSource a = Some b" "spec_op (AddP (Some cfg)) (bs_abs b) = ok (bs_abs b')"
        "cs_aggregator s' = Some (a\<lparr>ag_storeSource := Some b'\<rparr>)" "cs_reloadCommon s' = cs_reloadCommon s"
      using mc s1 by auto
    have "map_of (bs_proxies b) (pc_name cfg) = None \<and> map_of (bs_proxies b') = (map_of (bs_proxies b))(pc_name cfg \<mapsto> cfg)"
      using a(3) by (auto simp: bs_abs_def spec_put_def split: if_splits)
    then have new: "map_of (bs_proxies b) (pc_name cfg) = None" "map_of (bs_proxies b') (pc_name cfg) = Some cfg" by simp_all
    then have st: "Option.bind (cs_store s) (GetProxy (pc_name cfg)) = None" "Option.bind (cs_store s') (GetProxy (pc_name cfg)) = Some cfg"
      using a(1,2,4) by (simp_all add: cs_store_def GetProxy_def)
    have "r = ok cfg" using c True m s1 Inr st(2) by (simp add: CreateStoreProxy_def withStoreProxyMutationAndReload_def)
    moreover have "map_option pw_Cfg (map_of (cpm_proxies (cc_pm ctl)) (pc_name cfg)) = Some (Complete cfg)"
      if "pc_enabled cfg" "is_started (cs_reloadCommon s) (pc_name cfg)" "cs_ctl s' = Some ctl" "\<not> cc_done ctl" for ctl
      using inv' a(4,5) that new(2) by (simp add: cs_inv_def runs_config_def effective_proxy_def effective_def override_def store_tables_def)
    ultimately show ?thesis using st by auto
  qed
qed

theorem store_create_applied_witness:
  "Option.bind (cs_store (snd (CreateStoreProxy (\<lambda>c. None) (\<lambda>s. []) demo_codec good_save (Some (demo_tcp_conf ''b'' 6001)) demo_service))) (GetProxy ''b'')
   = Some (demo_tcp_conf ''b'' 6001)"
proof -
  let ?c = "demo_tcp_conf ''b'' 6001"
  obtain r s' where c: "CreateStoreProxy (\<lambda>c. None) (\<lambda>s. []) demo_codec good_save (Some ?c) demo_service = (r, s')" by fastforce
  have v: "validateStoreProxyConfigurer (\<lambda>s. []) (Some ?c)"
    by (simp add: validateStoreProxyConfigurer_def ValidateProxyConfigurerForClient_def validateProxyBaseConfigForClient_def demo_tcp_conf_def
      GetBaseConfig_def base_Complete_def zero_base_def ProxyBaseConfig.defs ValidateAnnotations_def ValidateAnnotationsSize_def TotalAnnotationSizeLimitB_def ValidatePort_def EmptyOr_def)
  have "\<exists>p. r = ok p"
    using c v by (auto simp: CreateStoreProxy_def withStoreProxyMutationAndReload_def withStoreMutationAndReload_def cs_store_def demo_service_fields demo_source_def
      SetStoreSource_def NewAggregator_def AddProxy_def newBaseSource_def demo_tcp_conf_base persist_def saveToFileUnlocked_def demo_codec_def good_save_def
      reloadConfigFromSourcesLocked_def UpdateAllConfigurer_def GetProxy_def Let_def case_prod_beta)
  moreover have "cs_reach (\<lambda>c. None) (\<lambda>s. []) demo_codec demo_service" unfolding demo_service_def by (rule cs_reach.start [OF demo_source_wf])
  ultimately show ?thesis using store_create_applied [OF _ demo_service_fields(1) c] c by (auto simp: demo_tcp_conf_base)
qed

text \<open>A reload that comes between the two halves of a login is lost: it succeeds, the service keeps the new
  configuration, but the control that the login installs runs the old one.\<close>

theorem reload_lost_in_login:
  "\<exists>s. UpdateConfigSource (\<lambda>c. None) None [Some (demo_tcp_conf ''a'' 7000)] [] (login_accepted ''r'' demo_service) = (ok (), s)
     \<and> cs_proxyCfgs s = [Complete (demo_tcp_conf ''a'' 7000)]
     \<and> map_option pw_Cfg (getProxyStatus ''a'' (login_finish (\<lambda>c. None) s)) = Some (Complete (demo_tcp_conf ''a'' 6000))"
  by (simp add: UpdateConfigSource_def login_accepted_def demo_service_fields ReplaceAll_def demo_tcp_conf_base reloadConfigFromSourcesLocked_def
    demo_source_def SetStoreSource_def NewAggregator_def ag_Load_def getSourcesLocked_def bs_Load_def newBaseSource_def mapsToSortedSlices_def
    merge_entries_def FilterClientConfigurers_def is_started_def CompleteProxyConfigurers_def CompleteVisitorConfigurers_def demo_enabled
    UpdateAllConfigurer_def login_finish_def close_ctl_def cc_Run_def cc_NewControl_def getProxyStatus_def cpm_UpdateAll_def NewProxyTable_def by_name_def Let_def)

end
