(* ===== verification/End_To_End.thy ===== *)
theory End_To_End
  imports Client_Managers Server_Control
begin

text \<open>
  Client and server together: the messages that the wrappers of a client send are handled by its
  control on the server one after the other, in the order in which they were sent (one
  connection).
\<close>

fun msg_name :: "client_msg \<Rightarrow> string" where
  "msg_name (SendNewProxy m) = np_ProxyName m"
| "msg_name (SendCloseProxy n) = n"

text \<open>The server has no plugin for new proxies here; each message comes with what the server's operating
  system answers while it is handled.\<close>

fun serve ::
  "(control_error \<Rightarrow> string) \<Rightarrow> (string \<Rightarrow> int \<Rightarrow> int option) \<Rightarrow> (string \<Rightarrow> string list) \<Rightarrow> ServerConfig
   \<Rightarrow> (client_msg \<times> run_env) list \<Rightarrow> 'c Control \<Rightarrow> 'c server_state \<Rightarrow> ('c Control \<times> 'c server_state) option" where
  "serve show_err scale quals sv [] ctl st = Some (ctl, st)"
| "serve show_err scale quals sv ((SendNewProxy m, env) # ms) ctl st =
     (case handleNewProxy NewPluginManager show_err scale quals sv env id m ctl st of
        None \<Rightarrow> None
      | Some (ctl', st', out) \<Rightarrow> serve show_err scale quals sv ms ctl' st')"
| "serve show_err scale quals sv ((SendCloseProxy n, env) # ms) ctl st =
     (case CloseProxy sv (re_now env) n ctl st of
        None \<Rightarrow> None
      | Some (ctl', st') \<Rightarrow> serve show_err scale quals sv ms ctl' st')"

lemma serve_append:
  "serve show_err scale quals sv (ms @ ns) ctl st =
     (case serve show_err scale quals sv ms ctl st of None \<Rightarrow> None | Some (ctl', st') \<Rightarrow> serve show_err scale quals sv ns ctl' st')"
  by (induction show_err scale quals sv ms ctl st rule: serve.induct) (auto split: option.split)

lemma RegisterProxy_other:
  assumes R: "RegisterProxy scale quals sv env others m ctl st = Some (res, ctl', st')" and n: "n \<noteq> np_ProxyName m"
  shows "map_of (ctl_proxies ctl') n = map_of (ctl_proxies ctl) n"
proof -
  obtain r ctl1 st1 where b: "register_begin scale quals sv env m ctl st = Some (r, ctl1, st1)"
    using R by (auto simp: RegisterProxy_def split: option.splits)
  show ?thesis
  proof (cases r)
    case (Inl e)
    then show ?thesis using R b register_begin_err(1) [of scale quals sv env m ctl st e ctl1 st1] by (simp add: RegisterProxy_def)
  next
    case (Inr ap)
    obtain a p where ap: "ap = (a, p)" by fastforce
    note K = register_begin_ok [OF b [unfolded Inr ap]]
    have "map_of (ctl_proxies ctl1) n = map_of (ctl_proxies ctl) n" using K(5) by simp
    moreover have "map_of (ctl_proxies ctl') n = map_of (ctl_proxies ctl1) n"
      using R b Inr ap n K(1)
      by (auto simp: RegisterProxy_def register_commit_def give_back_def split: option.splits sum.splits prod.splits if_splits)
    ultimately show ?thesis by simp
  qed
qed

lemma handleNewProxy_other:
  assumes "handleNewProxy NewPluginManager show_err scale quals sv env others m ctl st = Some (ctl', st', out)" and "n \<noteq> np_ProxyName m"
  shows "map_of (ctl_proxies ctl') n = map_of (ctl_proxies ctl) n"
  using assms RegisterProxy_other [of scale quals sv env others m ctl st _ ctl' st' n]
  by (auto simp: handleNewProxy_def pm_NewProxy_def NewPluginManager_def Let_def split: option.splits sum.splits)

lemma CloseProxy_lookup:
  assumes "CloseProxy sv now k ctl st = Some (ctl', st')"
  shows "map_of (ctl_proxies ctl') n = (if n = k then None else map_of (ctl_proxies ctl) n)"
  using assms by (auto simp: CloseProxy_def give_back_def map_of_map_delete Let_def split: option.splits)

lemma serve_other:
  "serve show_err scale quals sv ms ctl st = Some (ctl', st') \<Longrightarrow> n \<notin> msg_name ` fst ` set ms
   \<Longrightarrow> map_of (ctl_proxies ctl') n = map_of (ctl_proxies ctl) n"
proof (induction show_err scale quals sv ms ctl st rule: serve.induct)
  case (2 show_err scale quals sv m env ms ctl st)
  obtain c s out where h: "handleNewProxy NewPluginManager show_err scale quals sv env id m ctl st = Some (c, s, out)"
    using 2(2) by (auto split: option.splits)
  have "n \<noteq> np_ProxyName m" "n \<notin> msg_name ` fst ` set ms" using 2(3) by auto
  then show ?case using 2(1) [OF h] 2(2) h handleNewProxy_other [OF h] by simp
next
  case (3 show_err scale quals sv k env ms ctl st)
  obtain c s where h: "CloseProxy sv (re_now env) k ctl st = Some (c, s)" using 3(2) by (auto split: option.splits)
  have "n \<noteq> k" "n \<notin> msg_name ` fst ` set ms" using 3(3) by auto
  then show ?case using 3(1) [OF h] 3(2) h CloseProxy_lookup [OF h, of n] by simp
qed simp

lemma serve_last_close:
  assumes S: "serve show_err scale quals sv ms ctl st = Some (ctl', st')"
    and f: "filter (\<lambda>x. msg_name x = n) (map fst ms) \<noteq> []" and l: "last (filter (\<lambda>x. msg_name x = n) (map fst ms)) = SendCloseProxy n"
  shows "map_of (ctl_proxies ctl') n = None"
proof -
  from f have ex: "\<exists>x \<in> set ms. msg_name (fst x) = n" by (auto simp: filter_empty_conv)
  obtain as x bs where ms: "ms = as @ x # bs" "msg_name (fst x) = n" "\<forall>y \<in> set bs. msg_name (fst y) \<noteq> n"
    using split_list_last_prop [OF ex] by blast
  have "filter (\<lambda>x. msg_name x = n) (map fst bs) = []" using ms(3) by (auto simp: filter_empty_conv)
  then have "fst x = SendCloseProxy n" using l ms(1,2) by simp
  then obtain env where x: "x = (SendCloseProxy n, env)" by (cases x) simp
  obtain c1 s1 where a: "serve show_err scale quals sv as ctl st = Some (c1, s1)"
    using S ms(1) by (auto simp: serve_append split: option.splits)
  obtain c2 s2 where c: "CloseProxy sv (re_now env) n c1 s1 = Some (c2, s2)" and b: "serve show_err scale quals sv bs c2 s2 = Some (ctl', st')"
    using S ms(1) a x by (auto simp: serve_append split: option.splits)
  have "map_of (ctl_proxies ctl') n = map_of (ctl_proxies c2) n" by (rule serve_other [OF b]) (use ms(3) in auto)
  then show ?thesis using CloseProxy_lookup [OF c, of n] by simp
qed

text \<open>C3. A proxy that the client stopped is gone from the server. Whatever the life of its wrapper was (rejected
  and retried requests, health checks, an answer that came late), and whatever the other wrappers
  of the client sent in between: once the server has handled what the client sent, its control
  does not have the proxy. The same holds while the wrapper waits for its service to become healthy
  again.\<close>

theorem stopped_proxy_gone:
  assumes run: "pw_run user cfg pw sent" and stop: "pw_Phase pw = PhaseClosed \<or> pw_Phase pw = PhaseCheckFailed"
    and sent: "filter (\<lambda>x. msg_name x = pw_wireName pw) (map fst ms) = sent"
    and S: "serve show_err scale quals sv ms ctl st = Some (ctl', st')"
  shows "map_of (ctl_proxies ctl') (pw_wireName pw) = None"
proof -
  have W: "pw_wf user cfg pw" and P: "phase_sent user cfg (pw_Phase pw) sent" using pw_run_wf [OF run] by auto
  then have "sent \<noteq> []" "last sent = SendCloseProxy (pw_wireName pw)" using stop by (auto simp: pw_wf_def close_msg_def)
  then show ?thesis using serve_last_close [OF S, of "pw_wireName pw"] sent by simp
qed

text \<open>A wrapper that asks for port 6001 and is stopped, against a server that has the port.\<close>

theorem stopped_proxy_gone_witness:
  "\<exists>ctl' st'. serve (\<lambda>_. []) (\<lambda>_ _. None) (\<lambda>_. []) demo_server_cfg
       [(start_msg [] (demo_tcp_conf ''web'' 6001), demo_run_env), (close_msg [] (demo_tcp_conf ''web'' 6001), demo_run_env)] demo_ctl demo_st = Some (ctl', st')
     \<and> map_of (ctl_proxies ctl') ''web'' = None"
proof -
  let ?c = "demo_tcp_conf ''web'' 6001" and ?m = "demo_msg ''tcp'' ''web'' 6001"
  have sm: "start_msg [] ?c = SendNewProxy ?m" by code_simp
  have cm: "close_msg [] ?c = SendCloseProxy ''web''" by (simp add: close_msg_def AddUserPrefix_def demo_tcp_conf_base)
  have g: "np_Group ?m = []" "np_ProxyName ?m = ''web''" by (simp_all add: demo_msg_def zero_msg_def)
  obtain p ctl1 st1 where b: "register_begin (\<lambda>_ _. None) (\<lambda>_. []) demo_server_cfg demo_run_env ?m demo_ctl demo_st = Some (ok ('':6001'', p), ctl1, st1)"
    using demo_begin by blast
  note K = register_begin_ok [OF b]
  obtain rc where rc: "pxy_Close (re_now demo_run_env) p (ss_rc st1) = Some rc"
    using register_begin_resources [OF demo_rc_ok g(1), of "\<lambda>_ _. None" "\<lambda>_. []" demo_server_cfg demo_ctl "re_now demo_run_env"] b by auto
  let ?ctl2 = "ctl1\<lparr>ctl_proxies := map_put ''web'' p (ctl_proxies ctl1)\<rparr>" and ?st2 = "st1\<lparr>ss_pxys := [''web'' \<mapsto> p]\<rparr>"
  have e: "ss_pxys st1 = Map.empty" using K(2) by (simp add: demo_st_def)
  have h: "handleNewProxy NewPluginManager (\<lambda>_. []) (\<lambda>_ _. None) (\<lambda>_. []) demo_server_cfg demo_run_env id ?m demo_ctl demo_st
      = Some (?ctl2, ?st2, [NewProxyResp ''web'' '':6001'' []])"
    using b K(1) e g(2) by (simp add: handleNewProxy_def pm_NewProxy_def NewPluginManager_def RegisterProxy_def register_commit_def pxys_Add_def Let_def)
  have "\<exists>ctl' st'. CloseProxy demo_server_cfg (re_now demo_run_env) ''web'' ?ctl2 ?st2 = Some (ctl', st')"
    using rc by (simp add: CloseProxy_def closeProxy_def Let_def)
  then obtain ctl' st' where c: "CloseProxy demo_server_cfg (re_now demo_run_env) ''web'' ?ctl2 ?st2 = Some (ctl', st')" by blast
  let ?ms = "[(start_msg [] ?c, demo_run_env), (close_msg [] ?c, demo_run_env)]"
  have S: "serve (\<lambda>_. []) (\<lambda>_ _. None) (\<lambda>_. []) demo_server_cfg ?ms demo_ctl demo_st = Some (ctl', st')"
    unfolding sm cm using h c by simp
  obtain pw1 where w1: "check_round 1 (NewWrapper [] ?c) = (pw1, [start_msg [] ?c])" "pw_wireName pw1 = ''web''" "\<not> pw_stopped pw1"
    by (auto simp: demo_tcp_conf_base check_round_def start_due_def start_msg_def NewWrapper_def Let_def AddUserPrefix_def split: if_splits)
  obtain pw2 where w2: "pw_Stop pw1 = (pw2, [close_msg [] ?c])" "pw_wireName pw2 = ''web''" "pw_Phase pw2 = PhaseClosed"
    using w1(2) cm by (simp add: pw_Stop_def pw_close_def)
  have r: "pw_run [] ?c pw2 (([] @ [start_msg [] ?c]) @ [close_msg [] ?c])"
    by (rule pw_run.stop [OF pw_run.check [OF pw_run.new w1(1)] w1(3) w2(1)])
  have "filter (\<lambda>x. msg_name x = pw_wireName pw2) (map fst ?ms) = ([] @ [start_msg [] ?c]) @ [close_msg [] ?c]"
    using g(2) by (simp add: sm cm w2(2))
  from stopped_proxy_gone [OF r disjI1 [OF w2(3)] this S] S w2(2) show ?thesis by auto
qed

end
