(* ===== verification/User_Conn.thy ===== *)
theory User_Conn
  imports Server_Control Server_Metrics
begin

text \<open>
  The way of a user's connection on the server: \<^verbatim>\<open>server/proxy/proxy.go\<close>. A proxy accepts it, asks the plugins,
  takes a work connection of its control and tells the client on it which proxy it is for. A work connection on which
  that fails is closed and the next one is tried, as often as the pool is large and once more.
\<close>

section \<open>Work connections from the pool\<close>

text \<open>What happens in one attempt: whether a request can be sent, the control when a waiting goroutine is woken,
  and whether the message can be written to the work connection.\<close>

record 'c attempt =
  at_send :: bool
  at_wake :: "'c Control option"
  at_write :: bool

datatype pool_error = GetErr control_error | WriteErr

text \<open>The message on the work connection; an address is a host and a port, or missing.\<close>

record start_work_conn =
  sw_ProxyName :: string
  sw_SrcAddr :: string
  sw_SrcPort :: int
  sw_DstAddr :: string
  sw_DstPort :: int
  sw_Error :: string

definition start_work_conn_msg :: "string \<Rightarrow> (string \<times> int) option \<Rightarrow> (string \<times> int) option \<Rightarrow> start_work_conn" where
  "start_work_conn_msg name src dst =
     \<lparr>sw_ProxyName = name,
      sw_SrcAddr = (case src of None \<Rightarrow> [] | Some (h, p) \<Rightarrow> h), sw_SrcPort = (case src of None \<Rightarrow> 0 | Some (h, p) \<Rightarrow> p),
      sw_DstAddr = (case dst of None \<Rightarrow> [] | Some (h, p) \<Rightarrow> h), sw_DstPort = (case dst of None \<Rightarrow> 0 | Some (h, p) \<Rightarrow> p), sw_Error = []\<rparr>"

text \<open>The loop with \<open>n\<close> rounds left, \<open>failed\<close> if the last round has failed to write. The result is the work connection,
  which is \<^verbatim>\<open>nil\<close> without an error if there was no round at all, the control, what was sent on the control connection
  and the work connections that were closed.\<close>

fun pool_loop ::
  "(nat \<Rightarrow> 'c attempt) \<Rightarrow> nat \<Rightarrow> nat \<Rightarrow> bool \<Rightarrow> 'c Control \<Rightarrow> (pool_error, 'c option) result \<times> 'c Control \<times> ctl_msg list \<times> 'c list" where
  "pool_loop att i 0 failed ctl = (if failed then err WriteErr else ok None, ctl, [], [])"
| "pool_loop att i (Suc n) failed ctl =
     (case GetWorkConn (at_send (att i)) (at_wake (att i)) ctl of
        (Inl e, ctl', out) \<Rightarrow> (err (GetErr e), ctl', out, [])
      | (Inr c, ctl', out) \<Rightarrow>
          (if at_write (att i) then (ok (Some c), ctl', out, [])
           else (case pool_loop att (Suc i) n True ctl' of (r, ctl'', out', closed) \<Rightarrow> (r, ctl'', out @ out', c # closed))))"

definition GetWorkConnFromPool ::
  "(nat \<Rightarrow> 'c attempt) \<Rightarrow> 'c Control \<Rightarrow> (pool_error, 'c option) result \<times> 'c Control \<times> ctl_msg list \<times> 'c list" where
  "GetWorkConnFromPool att ctl = pool_loop att 0 (nat (ctl_poolCount ctl + 1)) False ctl"

section \<open>A user's connection\<close>

text \<open>\<open>Panics\<close> is the call of a method of a \<^verbatim>\<open>nil\<close> connection, which ends the process.\<close>

datatype 'c user_outcome = UserRejected plugin_error | NoWorkConn pool_error | Panics | EncryptFailed 'c | Joined 'c

definition handleUserTCPConnection ::
  "PluginManager \<Rightarrow> string \<Rightarrow> (nat \<Rightarrow> 'c attempt) \<Rightarrow> bool \<Rightarrow> Proxy \<Rightarrow> ProxyBaseConfig \<Rightarrow> 'c Control
   \<Rightarrow> 'c user_outcome \<times> 'c Control \<times> ctl_msg list \<times> 'c list" where
  "handleUserTCPConnection pm remoteAddr att encrypt_ok pxy cfg ctl =
     (let content = \<lparr>nuc_User = loginUserInfo ctl, nuc_ProxyName = GetName pxy, nuc_ProxyType = pb_Type cfg, nuc_RemoteAddr = remoteAddr\<rparr> in
      case pm_NewUserConn pm content of
        Inl e \<Rightarrow> (UserRejected e, ctl, [], [])
      | Inr _ \<Rightarrow>
          (case GetWorkConnFromPool att ctl of
             (Inl e, ctl', out, closed) \<Rightarrow> (NoWorkConn e, ctl', out, closed)
           | (Inr None, ctl', out, closed) \<Rightarrow> (Panics, ctl', out, closed)
           | (Inr (Some c), ctl', out, closed) \<Rightarrow>
               (if pt_UseEncryption (pb_Transport cfg) \<and> \<not> encrypt_ok then (EncryptFailed c, ctl', out, closed @ [c])
                else (Joined c, ctl', out, closed))))"

text \<open>What is counted for a joined connection, once it is over.\<close>

definition count_join :: "(int \<Rightarrow> int) \<Rightarrow> int \<Rightarrow> string \<Rightarrow> 64 word \<Rightarrow> 64 word \<Rightarrow> ServerStatistics \<Rightarrow> ServerStatistics" where
  "count_join day now name inCount outCount m =
     sm_AddTrafficOut day now name outCount (sm_AddTrafficIn day now name inCount (sm_CloseConnection name (sm_OpenConnection name m)))"

section \<open>Accepting connections\<close>

datatype 'u accept_result = Accepted 'u | TemporaryError | ListenerClosed

datatype 'u accept_action = Handle 'u | Sleep int

definition next_delay :: "int \<Rightarrow> int" where
  "next_delay tempDelay =
     (let d = (if tempDelay = 0 then 5 * 10 ^ 6 else tempDelay * 2); maxTime = 10 ^ 9 in if d > maxTime then maxTime else d)"

text \<open>The loop of \<open>startCommonTCPListenersHandler\<close> for the results of one listener.\<close>

fun accept_loop :: "int \<Rightarrow> 'u accept_result list \<Rightarrow> 'u accept_action list" where
  "accept_loop tempDelay [] = []"
| "accept_loop tempDelay (Accepted u # rs) = Handle u # accept_loop tempDelay rs"
| "accept_loop tempDelay (TemporaryError # rs) = Sleep (next_delay tempDelay) # accept_loop (next_delay tempDelay) rs"
| "accept_loop tempDelay (ListenerClosed # rs) = []"

section \<open>Properties\<close>

lemma GetWorkConn_pool: "ctl_workConnCh ctl = c # cs \<Longrightarrow> GetWorkConn s w ctl = (ok c, ctl\<lparr>ctl_workConnCh := cs\<rparr>, [ReqWorkConn])"
  by (simp add: GetWorkConn_def receive_def)

lemma pool_loop_skips:
  assumes "k < n" and "k < length (ctl_workConnCh ctl)" and "\<forall>j < k. \<not> at_write (att (i + j))" and "at_write (att (i + k))"
  shows "pool_loop att i n failed ctl =
    (ok (Some (ctl_workConnCh ctl ! k)), ctl\<lparr>ctl_workConnCh := drop (Suc k) (ctl_workConnCh ctl)\<rparr>, replicate (Suc k) ReqWorkConn, take k (ctl_workConnCh ctl))"
  using assms
proof (induction k arbitrary: i n failed ctl)
  case 0
  then obtain m c cs where "n = Suc m" "ctl_workConnCh ctl = c # cs" by (cases n; cases "ctl_workConnCh ctl") auto
  then show ?case using 0(4) by (simp add: GetWorkConn_pool)
next
  case (Suc k)
  then obtain m c cs where n: "n = Suc m" and ch: "ctl_workConnCh ctl = c # cs" by (cases n; cases "ctl_workConnCh ctl") auto
  let ?ctl = "ctl\<lparr>ctl_workConnCh := cs\<rparr>"
  have w: "\<not> at_write (att i)" using Suc(4) by (metis add_0_right zero_less_Suc)
  have "\<forall>j < k. \<not> at_write (att (Suc i + j))" using Suc(4) by (metis Suc_less_eq add_Suc_right add_Suc)
  then have "pool_loop att (Suc i) m True ?ctl =
      (ok (Some (cs ! k)), ?ctl\<lparr>ctl_workConnCh := drop (Suc k) cs\<rparr>, replicate (Suc k) ReqWorkConn, take k cs)"
    using Suc.IH [of m ?ctl "Suc i" True] Suc(2,3,5) n ch by simp
  then show ?case using n ch w by (simp add: GetWorkConn_pool)
qed

lemma pool_loop_all_dead:
  assumes "n \<le> length (ctl_workConnCh ctl)" and "\<forall>j < n. \<not> at_write (att (i + j))" and "0 < n \<or> failed"
  shows "pool_loop att i n failed ctl = (err WriteErr, ctl\<lparr>ctl_workConnCh := drop n (ctl_workConnCh ctl)\<rparr>, replicate n ReqWorkConn, take n (ctl_workConnCh ctl))"
  using assms
proof (induction n arbitrary: i failed ctl)
  case (Suc n)
  then obtain c cs where ch: "ctl_workConnCh ctl = c # cs" by (cases "ctl_workConnCh ctl") auto
  have w: "\<not> at_write (att i)" using Suc.prems(2) by (metis add_0_right zero_less_Suc)
  have "\<forall>j < n. \<not> at_write (att (Suc i + j))" using Suc.prems(2) by (metis Suc_less_eq add_Suc_right add_Suc)
  then show ?case using Suc.IH [of "ctl\<lparr>ctl_workConnCh := cs\<rparr>" "Suc i" True] Suc.prems(1) ch w by (simp add: GetWorkConn_pool)
qed simp

lemma pool_loop_bound: "pool_loop att i n failed ctl = (r, ctl', out, closed) \<Longrightarrow> length closed \<le> n \<and> (r = ok None \<longrightarrow> n = 0 \<and> \<not> failed)"
  by (induction att i n failed ctl arbitrary: r ctl' out closed rule: pool_loop.induct) (auto split: prod.splits sum.splits if_splits)


definition demo_attempt :: "nat \<Rightarrow> nat attempt" where
  "demo_attempt i = \<lparr>at_send = True, at_wake = None, at_write = (i = 1)\<rparr>"


text \<open>A client that logs in with a pool count from \<open>-10\<close> to \<open>-1\<close> gets a control; the first user of any of its proxies ends the
  server.\<close>

theorem negative_pool_panics:
  assumes "-10 \<le> lg_PoolCount m" and "lg_PoolCount m < 0" and "0 \<le> sv_MaxPoolCount sv"
  shows "\<exists>ctl. NewControl sv False True now verifier m = Some (ok ctl)
    \<and> fst (handleUserTCPConnection NewPluginManager addr att encrypt_ok pxy cfg ctl) = Panics"
  using assms by (simp add: NewControl_def Let_def handleUserTCPConnection_def pm_NewUserConn_def NewPluginManager_def GetWorkConnFromPool_def min_def)

text \<open>Accepting: until the listener is closed, all connections are handled in order, and no sleep is longer than a
  second.\<close>

fun handled :: "'u accept_action list \<Rightarrow> 'u list" where
  "handled [] = []"
| "handled (Handle u # as) = u # handled as"
| "handled (Sleep d # as) = handled as"

fun accepted :: "'u accept_result list \<Rightarrow> 'u list" where
  "accepted [] = []"
| "accepted (Accepted u # rs) = u # accepted rs"
| "accepted (TemporaryError # rs) = accepted rs"
| "accepted (ListenerClosed # rs) = []"

lemma next_delay_max: "next_delay d \<le> 10 ^ 9"
  by (simp add: next_delay_def Let_def)

theorem accept_loop_serves:
  "handled (accept_loop 0 rs) = accepted rs \<and> {d. Sleep d \<in> set (accept_loop 0 rs)} \<subseteq> {5 * 10 ^ 6..10 ^ 9}"
proof -
  have h: "handled (accept_loop d rs) = accepted rs" for d by (induction d rs rule: accept_loop.induct) auto
  have "d = 0 \<or> 5 * 10 ^ 6 \<le> d \<Longrightarrow> {x. Sleep x \<in> set (accept_loop d rs)} \<subseteq> {5 * 10 ^ 6..10 ^ 9}" for d
  proof (induction d rs rule: accept_loop.induct)
    case (3 d rs)
    then have "5 * 10 ^ 6 \<le> next_delay d" by (auto simp: next_delay_def Let_def)
    then show ?case using 3 next_delay_max [of d] by auto
  qed auto
  then show ?thesis using h by blast
qed

end
