(* ===== verification/Feature_Gate.thy ===== *)
theory Feature_Gate
  imports Prelude
begin

text \<open>
  Feature gates and unsafe features: \<^verbatim>\<open>pkg/policy/featuregate/feature_gate.go\<close> and
  \<^verbatim>\<open>pkg/policy/security/unsafe.go\<close>. A map that the code ranges over is an association list in the
  order of the iteration, which Go leaves open; the theorems hold for every order.
\<close>

section \<open>Gates\<close>

record FeatureSpec =
  fs_Default :: bool
  fs_LockToDefault :: bool
  fs_Stage :: string

record featureGate =
  fg_known :: "(string \<times> FeatureSpec) list"
  fg_enabled :: "(string \<times> bool) list"
  fg_closed :: bool

datatype gate_error = Unrecognized string | Locked string bool bool | GateClosed | DifferentSpec string FeatureSpec

definition VirtualNet :: string where
  "VirtualNet = ''VirtualNet''"

definition defaultFeatures :: "(string \<times> FeatureSpec) list" where
  "defaultFeatures = [(VirtualNet, \<lparr>fs_Default = False, fs_LockToDefault = False, fs_Stage = ''ALPHA''\<rparr>)]"

definition NewFeatureGate :: featureGate where
  "NewFeatureGate = \<lparr>fg_known = defaultFeatures, fg_enabled = [], fg_closed = False\<rparr>"

fun apply_settings ::
  "(string \<times> FeatureSpec) list \<Rightarrow> (string \<times> bool) list \<Rightarrow> (string \<times> bool) list \<Rightarrow> (gate_error, (string \<times> bool) list) result" where
  "apply_settings known [] enabled = ok enabled"
| "apply_settings known ((k, v) # m) enabled =
     (case map_of known k of
        None \<Rightarrow> err (Unrecognized k)
      | Some spec \<Rightarrow>
          if fs_LockToDefault spec \<and> fs_Default spec \<noteq> v then err (Locked k v (fs_Default spec))
          else apply_settings known m (map_put k v enabled))"

definition SetFromMap :: "(string \<times> bool) list \<Rightarrow> featureGate \<Rightarrow> (gate_error, unit) result \<times> featureGate" where
  "SetFromMap m f =
     (case apply_settings (fg_known f) m (fg_enabled f) of
        Inl e \<Rightarrow> (err e, f)
      | Inr enabled \<Rightarrow> (ok (), f\<lparr>fg_enabled := enabled\<rparr>))"

fun add_features ::
  "(string \<times> FeatureSpec) list \<Rightarrow> (string \<times> FeatureSpec) list \<Rightarrow> (gate_error, (string \<times> FeatureSpec) list) result" where
  "add_features [] known = ok known"
| "add_features ((name, spec) # features) known =
     (case map_of known name of
        Some existingSpec \<Rightarrow>
          if existingSpec = spec then add_features features known else err (DifferentSpec name existingSpec)
      | None \<Rightarrow> add_features features (map_put name spec known))"

definition fg_Add :: "(string \<times> FeatureSpec) list \<Rightarrow> featureGate \<Rightarrow> (gate_error, unit) result \<times> featureGate" where
  "fg_Add features f =
     (if fg_closed f then (err GateClosed, f)
      else (case add_features features (fg_known f) of
              Inl e \<Rightarrow> (err e, f)
            | Inr known \<Rightarrow> (ok (), f\<lparr>fg_known := known\<rparr>)))"

definition fg_Enabled :: "string \<Rightarrow> featureGate \<Rightarrow> bool" where
  "fg_Enabled key f =
     (case map_of (fg_enabled f) key of
        Some v \<Rightarrow> v
      | None \<Rightarrow> (case map_of (fg_known f) key of Some spec \<Rightarrow> fs_Default spec | None \<Rightarrow> False))"

definition format_bool :: "bool \<Rightarrow> string" where
  "format_bool b = (if b then ''true'' else ''false'')"

definition fg_String :: "featureGate \<Rightarrow> string" where
  "fg_String f = join_with '','' (sort (map (\<lambda>(k, v). k @ ''='' @ format_bool v) (fg_enabled f)))"

definition KnownFeatures :: "featureGate \<Rightarrow> string list" where
  "KnownFeatures f =
     sort (map (\<lambda>(k, v). k @ ''=true|false ('' @ fs_Stage v @ '' - default='' @ format_bool (fs_Default v) @ '')'')
       (filter (\<lambda>(k, v). fs_Stage v \<noteq> []) (fg_known f)))"

section \<open>Unsafe features\<close>

definition TokenSourceExec :: string where
  "TokenSourceExec = ''TokenSourceExec''"

definition NewUnsafeFeatures :: "string list \<Rightarrow> (string \<times> bool) list option" where
  "NewUnsafeFeatures allowed = Some (fold (\<lambda>f. map_put f True) allowed [])"

definition IsEnabled :: "string \<Rightarrow> (string \<times> bool) list option \<Rightarrow> bool" where
  "IsEnabled feature u = (case u of None \<Rightarrow> False | Some features \<Rightarrow> map_of features feature = Some True)"

lemma IsEnabled_New: "IsEnabled feature (NewUnsafeFeatures allowed) \<longleftrightarrow> feature \<in> set allowed"
proof -
  have "map_of (fold (\<lambda>f. map_put f True) allowed m) feature = (if feature \<in> set allowed then Some True else map_of m feature)" for m
    by (induction allowed arbitrary: m) auto
  then show ?thesis by (simp add: IsEnabled_def NewUnsafeFeatures_def)
qed

section \<open>What a gate guarantees\<close>

text \<open>A setting is acceptable if its feature is known and not locked to another value.\<close>

definition acceptable :: "featureGate \<Rightarrow> string \<times> bool \<Rightarrow> bool" where
  "acceptable f kv \<longleftrightarrow> (\<exists>spec. map_of (fg_known f) (fst kv) = Some spec \<and> (fs_LockToDefault spec \<longrightarrow> fs_Default spec = snd kv))"

lemma apply_settings_ok:
  "(\<exists>enabled'. apply_settings (fg_known f) m enabled = ok enabled') \<longleftrightarrow> (\<forall>kv \<in> set m. acceptable f kv)"
proof (induction m arbitrary: enabled)
  case (Cons kv m)
  obtain k v where kv: "kv = (k, v)" by (cases kv)
  show ?case
  proof (cases "map_of (fg_known f) k")
    case (Some spec)
    then show ?thesis using Cons [of "map_put k v enabled"] kv by (cases "fs_LockToDefault spec"; cases "fs_Default spec = v") (auto simp: acceptable_def)
  qed (simp add: acceptable_def kv)
qed simp

lemma apply_settings_lookup:
  "apply_settings known m enabled = ok enabled' \<Longrightarrow> map_of enabled' = map_of enabled ++ map_of (rev m)"
proof (induction known m enabled rule: apply_settings.induct)
  case (2 known k v m enabled)
  then show ?case by (auto simp: fun_eq_iff map_add_def split: option.splits if_splits)
qed simp

lemma apply_settings_distinct:
  "apply_settings known m enabled = ok enabled' \<Longrightarrow> distinct (map fst enabled) \<Longrightarrow> distinct (map fst enabled')"
  by (induction known m enabled rule: apply_settings.induct) (auto simp: distinct_map_put split: option.splits if_splits)

lemma add_features_lookup:
  "add_features features known = ok known' \<Longrightarrow> map_of known k = Some spec \<Longrightarrow> map_of known' k = Some spec"
proof (induction features known rule: add_features.induct)
  case (2 name sp features known)
  then show ?case by (cases "map_of known name"; cases "k = name") (auto split: if_splits)
qed simp

text \<open>Settings are applied all or not at all. If the keys of a map are distinct, whether it is accepted and
  what the gate says afterwards do not depend on the order in which the map is
  iterated.\<close>

theorem SetFromMap_atomic:
  assumes "distinct (map fst m)" and "SetFromMap m f = (r, f')"
  shows "if \<forall>kv \<in> set m. acceptable f kv
         then r = ok () \<and> (\<forall>k. fg_Enabled k f' = (case map_of m k of Some v \<Rightarrow> v | None \<Rightarrow> fg_Enabled k f))
         else (\<exists>e. r = err e) \<and> f' = f"
proof (cases "apply_settings (fg_known f) m (fg_enabled f)")
  case (Inl e)
  then show ?thesis using assms(2) apply_settings_ok [of f m "fg_enabled f"] by (auto simp: SetFromMap_def)
next
  case (Inr enabled)
  have "map_of (rev m) = map_of m" using assms(1) map_of_inject_set [of "rev m" m] by (simp add: rev_map [symmetric])
  then have "map_of enabled = map_of (fg_enabled f) ++ map_of m" using apply_settings_lookup [OF Inr] by simp
  then show ?thesis using assms(2) Inr apply_settings_ok [of f m "fg_enabled f"]
    by (auto simp: SetFromMap_def fg_Enabled_def map_add_def split: option.splits)
qed

text \<open>The gates that can be built from the default ones.\<close>

inductive fg_reach :: "featureGate \<Rightarrow> bool" where
  new: "fg_reach NewFeatureGate"
| set: "fg_reach f \<Longrightarrow> fg_reach (snd (SetFromMap m f))"
| add: "fg_reach f \<Longrightarrow> fg_reach (snd (fg_Add features f))"

definition fg_inv :: "featureGate \<Rightarrow> bool" where
  "fg_inv f \<longleftrightarrow> distinct (map fst (fg_enabled f)) \<and> (\<forall>k v. map_of (fg_enabled f) k = Some v \<longrightarrow> acceptable f (k, v))"

lemma fg_inv_set: "fg_inv f \<Longrightarrow> fg_inv (snd (SetFromMap m f))"
proof (cases "apply_settings (fg_known f) m (fg_enabled f)")
  case (Inr enabled)
  assume I: "fg_inv f"
  have ok: "\<forall>kv \<in> set m. acceptable f kv" using apply_settings_ok Inr by blast
  have "acceptable f (k, v)" if "map_of enabled k = Some v" for k v
  proof (cases "map_of (rev m) k")
    case None
    then show ?thesis using that I apply_settings_lookup [OF Inr] by (auto simp: fg_inv_def map_add_def)
  next
    case (Some w)
    then have "(k, w) \<in> set m" by (auto dest: map_of_SomeD)
    then show ?thesis using that Some ok apply_settings_lookup [OF Inr] by (auto simp: map_add_def)
  qed
  then show ?thesis using I Inr apply_settings_distinct [OF Inr] by (simp add: SetFromMap_def fg_inv_def acceptable_def)
qed (simp add: SetFromMap_def)

lemma fg_inv_add: "fg_inv f \<Longrightarrow> fg_inv (snd (fg_Add features f))"
  using add_features_lookup by (fastforce simp: fg_Add_def fg_inv_def acceptable_def split: sum.splits)

lemma fg_reach_inv: "fg_reach f \<Longrightarrow> fg_inv f"
  by (induction rule: fg_reach.induct) (simp_all add: fg_inv_set fg_inv_add, simp add: fg_inv_def NewFeatureGate_def)

text \<open>Whatever is set or added, only known features are ever enabled, and a locked feature keeps its
  default.\<close>

theorem locked_keeps_default:
  assumes "fg_reach f"
  shows "(fg_Enabled k f \<longrightarrow> map_of (fg_known f) k \<noteq> None)
    \<and> (\<forall>spec. map_of (fg_known f) k = Some spec \<and> fs_LockToDefault spec \<longrightarrow> fg_Enabled k f = fs_Default spec)"
proof (cases "map_of (fg_enabled f) k")
  case (Some v)
  then have "acceptable f (k, v)" using fg_reach_inv [OF assms] by (simp only: fg_inv_def)
  then show ?thesis using Some by (auto simp: fg_Enabled_def acceptable_def)
qed (auto simp: fg_Enabled_def split: option.splits)

end
