(* ===== verification/Common_Config.thy ===== *)
theory Common_Config
  imports Feature_Gate Visitor_Config Auth_Token Ports
begin

text \<open>
  The common configuration of client and server: \<^verbatim>\<open>pkg/config/v1/common.go\<close>, \<^verbatim>\<open>client.go\<close>, \<^verbatim>\<open>server.go\<close> and
  \<^verbatim>\<open>value_source.go\<close>, its validation in \<^verbatim>\<open>pkg/config/v1/validation\<close> (\<^verbatim>\<open>client.go\<close>, \<^verbatim>\<open>server.go\<close>, \<^verbatim>\<open>common.go\<close>, \<^verbatim>\<open>oidc.go\<close>,
  \<^verbatim>\<open>validation.go\<close>, \<^verbatim>\<open>validator.go\<close>), and the construction of the authentication from it in
  \<^verbatim>\<open>pkg/auth/auth.go\<close>. A pointer is an \<open>option\<close>. A joined error is the list of its parts, so that the empty
  list is \<^verbatim>\<open>nil\<close>. Parameters are the environment, the parser of URLs, the file system, and the outputs of
  commands.
\<close>

definition EmptyOr_ptr :: "'a option \<Rightarrow> 'a option \<Rightarrow> 'a option" where
  "EmptyOr_ptr v fallback = (case v of None \<Rightarrow> fallback | Some x \<Rightarrow> Some x)"

text \<open>\<^verbatim>\<open>lo.FromPtr\<close> of a pointer to a truth value.\<close>

definition FromPtr :: "bool option \<Rightarrow> bool" where
  "FromPtr p = (p = Some True)"

section \<open>Value sources\<close>

record ExecSource =
  ex_Command :: string
  ex_Args :: "string list"
  ex_Env :: "(string \<times> string) list"

record ValueSource =
  vs_Type :: string
  vs_File :: "string option"
  vs_Exec :: "ExecSource option"

datatype source_error =
    FileRequired | ExecRequired | UnsupportedSource string | FilePathEmpty | CommandEmpty | EnvNameEmpty | EnvNameEquals
  | ReadFileFailed string | CommandFailed string

definition FileSource_Validate :: "string \<Rightarrow> source_error option" where
  "FileSource_Validate path = (if path = [] then Some FilePathEmpty else None)"

fun check_env :: "(string \<times> string) list \<Rightarrow> source_error option" where
  "check_env [] = None"
| "check_env ((name, v) # env) =
     (if name = [] then Some EnvNameEmpty else if CHR ''='' \<in> set name then Some EnvNameEquals else check_env env)"

definition ExecSource_Validate :: "ExecSource \<Rightarrow> source_error option" where
  "ExecSource_Validate e = (if ex_Command e = [] then Some CommandEmpty else check_env (ex_Env e))"

definition vs_Validate :: "ValueSource \<Rightarrow> source_error option" where
  "vs_Validate v =
     (if vs_Type v = ''file'' then (case vs_File v of None \<Rightarrow> Some FileRequired | Some f \<Rightarrow> FileSource_Validate f)
      else if vs_Type v = ''exec'' then (case vs_Exec v of None \<Rightarrow> Some ExecRequired | Some e \<Rightarrow> ExecSource_Validate e)
      else Some (UnsupportedSource (vs_Type v)))"

text \<open>The outside world of a value source: the contents of files, the environment, and the output of a command
  that runs with the given environment, \<open>None\<close> for the one it inherits.\<close>

record source_env =
  so_ReadFile :: "string \<Rightarrow> string option"
  so_Environ :: "string list"
  so_Output :: "string \<Rightarrow> string list \<Rightarrow> string list option \<Rightarrow> string option"

definition FileSource_Resolve :: "source_env \<Rightarrow> string \<Rightarrow> (source_error, string) result" where
  "FileSource_Resolve w path =
     (case FileSource_Validate path of
        Some e \<Rightarrow> err e
      | None \<Rightarrow> (case so_ReadFile w path of None \<Rightarrow> err (ReadFileFailed path) | Some content \<Rightarrow> ok (trim_space content)))"

definition ExecSource_Resolve :: "source_env \<Rightarrow> ExecSource \<Rightarrow> (source_error, string) result" where
  "ExecSource_Resolve w e =
     (case ExecSource_Validate e of
        Some x \<Rightarrow> err x
      | None \<Rightarrow>
          (let env = (if ex_Env e \<noteq> [] then Some (so_Environ w @ map (\<lambda>(n, v). n @ ''='' @ v) (ex_Env e)) else None) in
           (case so_Output w (ex_Command e) (ex_Args e) env of
              None \<Rightarrow> err (CommandFailed (ex_Command e))
            | Some content \<Rightarrow> ok (trim_space content))))"

definition vs_Resolve :: "source_env \<Rightarrow> ValueSource \<Rightarrow> (source_error, string) result" where
  "vs_Resolve w v =
     (case vs_Validate v of
        Some e \<Rightarrow> err e
      | None \<Rightarrow>
          (if vs_Type v = ''file'' then FileSource_Resolve w (the (vs_File v))
           else if vs_Type v = ''exec'' then ExecSource_Resolve w (the (vs_Exec v))
           else err (UnsupportedSource (vs_Type v))))"

section \<open>Parts of both configurations\<close>

record QUICOptions =
  qu_KeepalivePeriod :: int
  qu_MaxIdleTimeout :: int
  qu_MaxIncomingStreams :: int

definition QUIC_Complete :: "QUICOptions \<Rightarrow> QUICOptions" where
  "QUIC_Complete c = c\<lparr>qu_KeepalivePeriod := EmptyOr_int (qu_KeepalivePeriod c) 10,
     qu_MaxIdleTimeout := EmptyOr_int (qu_MaxIdleTimeout c) 30,
     qu_MaxIncomingStreams := EmptyOr_int (qu_MaxIncomingStreams c) 100000\<rparr>"

record TLSConfig =
  tl_CertFile :: string
  tl_KeyFile :: string
  tl_TrustedCaFile :: string
  tl_ServerName :: string

record WebServerConfig =
  ws_Addr :: string
  ws_Port :: int
  ws_User :: string
  ws_Password :: string
  ws_AssetsDir :: string
  ws_PprofEnable :: bool
  ws_TLS :: "TLSConfig option"

definition WebServer_Complete :: "WebServerConfig \<Rightarrow> WebServerConfig" where
  "WebServer_Complete c = c\<lparr>ws_Addr := EmptyOr (ws_Addr c) ''127.0.0.1''\<rparr>"

record LogConfig =
  lo_To :: string
  lo_Level :: string
  lo_MaxDays :: int
  lo_DisablePrintColor :: bool

definition Log_Complete :: "LogConfig \<Rightarrow> LogConfig" where
  "Log_Complete c = c\<lparr>lo_To := EmptyOr (lo_To c) ''console'', lo_Level := EmptyOr (lo_Level c) ''info'',
     lo_MaxDays := EmptyOr_int (lo_MaxDays c) 3\<rparr>"

record HTTPPluginOptions =
  hp_Name :: string
  hp_Addr :: string
  hp_Path :: string
  hp_Ops :: "string list"
  hp_TLSVerify :: bool

section \<open>The client\<close>

record AuthOIDCClientConfig =
  oi_ClientID :: string
  oi_ClientSecret :: string
  oi_Audience :: string
  oi_Scope :: string
  oi_TokenEndpointURL :: string
  oi_AdditionalEndpointParams :: string_map
  oi_TrustedCaFile :: string
  oi_InsecureSkipVerify :: bool
  oi_ProxyURL :: string
  oi_TokenSource :: "ValueSource option"

record AuthClientConfig =
  ac_Method :: string
  ac_AdditionalScopes :: "string list"
  ac_Token :: string
  ac_TokenSource :: "ValueSource option"
  ac_OIDC :: AuthOIDCClientConfig

definition AuthClient_Complete :: "AuthClientConfig \<Rightarrow> AuthClientConfig" where
  "AuthClient_Complete c = c\<lparr>ac_Method := EmptyOr (ac_Method c) ''token''\<rparr>"

record TLSClientConfig = TLSConfig +
  tc_Enable :: "bool option"
  tc_DisableCustomTLSFirstByte :: "bool option"

definition TLSClient_Complete :: "TLSClientConfig \<Rightarrow> TLSClientConfig" where
  "TLSClient_Complete c = c\<lparr>tc_Enable := EmptyOr_ptr (tc_Enable c) (Some True),
     tc_DisableCustomTLSFirstByte := EmptyOr_ptr (tc_DisableCustomTLSFirstByte c) (Some True)\<rparr>"

record ClientTransportConfig =
  ct_Protocol :: string
  ct_DialServerTimeout :: int
  ct_DialServerKeepAlive :: int
  ct_ConnectServerLocalIP :: string
  ct_ProxyURL :: string
  ct_PoolCount :: int
  ct_TCPMux :: "bool option"
  ct_TCPMuxKeepaliveInterval :: int
  ct_QUIC :: QUICOptions
  ct_HeartbeatInterval :: int
  ct_HeartbeatTimeout :: int
  ct_TLS :: TLSClientConfig

text \<open>\<open>http_proxy\<close> is the value of that environment variable.\<close>

definition ClientTransport_Complete :: "string \<Rightarrow> ClientTransportConfig \<Rightarrow> ClientTransportConfig" where
  "ClientTransport_Complete http_proxy c =
     (let c = c\<lparr>ct_Protocol := EmptyOr (ct_Protocol c) ''tcp'',
                ct_DialServerTimeout := EmptyOr_int (ct_DialServerTimeout c) 10,
                ct_DialServerKeepAlive := EmptyOr_int (ct_DialServerKeepAlive c) 7200,
                ct_ProxyURL := EmptyOr (ct_ProxyURL c) http_proxy,
                ct_PoolCount := EmptyOr_int (ct_PoolCount c) 1,
                ct_TCPMux := EmptyOr_ptr (ct_TCPMux c) (Some True),
                ct_TCPMuxKeepaliveInterval := EmptyOr_int (ct_TCPMuxKeepaliveInterval c) 30\<rparr>;
          c = (if FromPtr (ct_TCPMux c)
               then c\<lparr>ct_HeartbeatInterval := EmptyOr_int (ct_HeartbeatInterval c) (-1),
                      ct_HeartbeatTimeout := EmptyOr_int (ct_HeartbeatTimeout c) (-1)\<rparr>
               else c\<lparr>ct_HeartbeatInterval := EmptyOr_int (ct_HeartbeatInterval c) 30,
                      ct_HeartbeatTimeout := EmptyOr_int (ct_HeartbeatTimeout c) 90\<rparr>)
      in c\<lparr>ct_QUIC := QUIC_Complete (ct_QUIC c), ct_TLS := TLSClient_Complete (ct_TLS c)\<rparr>)"

record ClientCommonConfig =
  cl_Auth :: AuthClientConfig
  cl_User :: string
  cl_ClientID :: string
  cl_ServerAddr :: string
  cl_ServerPort :: int
  cl_NatHoleSTUNServer :: string
  cl_DNSServer :: string
  cl_LoginFailExit :: "bool option"
  cl_Start :: "string list"
  cl_Log :: LogConfig
  cl_WebServer :: WebServerConfig
  cl_Transport :: ClientTransportConfig
  cl_VirtualNetAddress :: string
  cl_FeatureGates :: "(string \<times> bool) list"
  cl_UDPPacketSize :: int
  cl_Metadatas :: string_map
  cl_IncludeConfigFiles :: "string list"
  cl_StorePath :: string

definition ClientCommon_Complete :: "string \<Rightarrow> ClientCommonConfig \<Rightarrow> ClientCommonConfig" where
  "ClientCommon_Complete http_proxy c =
     c\<lparr>cl_ServerAddr := EmptyOr (cl_ServerAddr c) ''0.0.0.0'',
       cl_ServerPort := EmptyOr_int (cl_ServerPort c) 7000,
       cl_LoginFailExit := EmptyOr_ptr (cl_LoginFailExit c) (Some True),
       cl_NatHoleSTUNServer := EmptyOr (cl_NatHoleSTUNServer c) ''stun.easyvoip.com:3478'',
       cl_Auth := AuthClient_Complete (cl_Auth c),
       cl_Log := Log_Complete (cl_Log c),
       cl_Transport := ClientTransport_Complete http_proxy (cl_Transport c),
       cl_WebServer := WebServer_Complete (cl_WebServer c),
       cl_UDPPacketSize := EmptyOr_int (cl_UDPPacketSize c) 1500\<rparr>"

definition StoreConfig_IsEnabled :: "ClientCommonConfig \<Rightarrow> bool" where
  "StoreConfig_IsEnabled c \<longleftrightarrow> cl_StorePath c \<noteq> []"

section \<open>The server\<close>

record AuthOIDCServerConfig =
  os_Issuer :: string
  os_Audience :: string
  os_SkipExpiryCheck :: bool
  os_SkipIssuerCheck :: bool

record AuthServerConfig =
  as_Method :: string
  as_AdditionalScopes :: "string list"
  as_Token :: string
  as_TokenSource :: "ValueSource option"
  as_OIDC :: AuthOIDCServerConfig

definition AuthServer_Complete :: "AuthServerConfig \<Rightarrow> AuthServerConfig" where
  "AuthServer_Complete c = c\<lparr>as_Method := EmptyOr (as_Method c) ''token''\<rparr>"

record TLSServerConfig = TLSConfig +
  ts_Force :: bool

record ServerTransportConfig =
  st_TCPMux :: "bool option"
  st_TCPMuxKeepaliveInterval :: int
  st_TCPKeepAlive :: int
  st_MaxPoolCount :: int
  st_HeartbeatTimeout :: int
  st_QUIC :: QUICOptions
  st_TLS :: TLSServerConfig

definition ServerTransport_Complete :: "ServerTransportConfig \<Rightarrow> ServerTransportConfig" where
  "ServerTransport_Complete c =
     (let c = c\<lparr>st_TCPMux := EmptyOr_ptr (st_TCPMux c) (Some True),
                st_TCPMuxKeepaliveInterval := EmptyOr_int (st_TCPMuxKeepaliveInterval c) 30,
                st_TCPKeepAlive := EmptyOr_int (st_TCPKeepAlive c) 7200,
                st_MaxPoolCount := EmptyOr_int (st_MaxPoolCount c) 5\<rparr>;
          c = c\<lparr>st_HeartbeatTimeout := EmptyOr_int (st_HeartbeatTimeout c) (if FromPtr (st_TCPMux c) then -1 else 90)\<rparr>;
          c = c\<lparr>st_QUIC := QUIC_Complete (st_QUIC c)\<rparr>
      in if tl_TrustedCaFile (st_TLS c) \<noteq> [] then c\<lparr>st_TLS := (st_TLS c)\<lparr>ts_Force := True\<rparr>\<rparr> else c)"

record SSHTunnelGateway =
  sh_BindPort :: int
  sh_PrivateKeyFile :: string
  sh_AutoGenPrivateKeyPath :: string
  sh_AuthorizedKeysFile :: string

definition SSHTunnelGateway_Complete :: "SSHTunnelGateway \<Rightarrow> SSHTunnelGateway" where
  "SSHTunnelGateway_Complete c = c\<lparr>sh_AutoGenPrivateKeyPath := EmptyOr (sh_AutoGenPrivateKeyPath c) ''./.autogen_ssh_key''\<rparr>"

record ServerFullConfig =
  sf_Auth :: AuthServerConfig
  sf_BindAddr :: string
  sf_BindPort :: int
  sf_KCPBindPort :: int
  sf_QUICBindPort :: int
  sf_ProxyBindAddr :: string
  sf_VhostHTTPPort :: int
  sf_VhostHTTPTimeout :: int
  sf_VhostHTTPSPort :: int
  sf_TCPMuxHTTPConnectPort :: int
  sf_TCPMuxPassthrough :: bool
  sf_SubDomainHost :: string
  sf_Custom404Page :: string
  sf_SSHTunnelGateway :: SSHTunnelGateway
  sf_WebServer :: WebServerConfig
  sf_EnablePrometheus :: bool
  sf_Log :: LogConfig
  sf_Transport :: ServerTransportConfig
  sf_DetailedErrorsToClient :: "bool option"
  sf_MaxPortsPerClient :: int
  sf_UserConnTimeout :: int
  sf_UDPPacketSize :: int
  sf_NatHoleAnalysisDataReserveHours :: int
  sf_AllowPorts :: "PortsRange list"
  sf_HTTPPlugins :: "HTTPPluginOptions list"

definition Server_Complete :: "ServerFullConfig \<Rightarrow> ServerFullConfig" where
  "Server_Complete c =
     (let c = c\<lparr>sf_Auth := AuthServer_Complete (sf_Auth c), sf_Log := Log_Complete (sf_Log c),
                sf_Transport := ServerTransport_Complete (sf_Transport c), sf_WebServer := WebServer_Complete (sf_WebServer c),
                sf_SSHTunnelGateway := SSHTunnelGateway_Complete (sf_SSHTunnelGateway c),
                sf_BindAddr := EmptyOr (sf_BindAddr c) ''0.0.0.0'', sf_BindPort := EmptyOr_int (sf_BindPort c) 7000\<rparr>;
          c = (if sf_ProxyBindAddr c = [] then c\<lparr>sf_ProxyBindAddr := sf_BindAddr c\<rparr> else c);
          c = (if ws_Port (sf_WebServer c) > 0
               then c\<lparr>sf_WebServer := (sf_WebServer c)\<lparr>ws_Addr := EmptyOr (ws_Addr (sf_WebServer c)) ''0.0.0.0''\<rparr>\<rparr> else c)
      in c\<lparr>sf_VhostHTTPTimeout := EmptyOr_int (sf_VhostHTTPTimeout c) 60,
           sf_DetailedErrorsToClient := EmptyOr_ptr (sf_DetailedErrorsToClient c) (Some True),
           sf_UserConnTimeout := EmptyOr_int (sf_UserConnTimeout c) 10,
           sf_UDPPacketSize := EmptyOr_int (sf_UDPPacketSize c) 1500,
           sf_NatHoleAnalysisDataReserveHours := EmptyOr_int (sf_NatHoleAnalysisDataReserveHours c) (7 * 24)\<rparr>)"

text \<open>The part of the configuration that the other theories read.\<close>

definition server_part :: "ServerFullConfig \<Rightarrow> ServerConfig" where
  "server_part c =
     \<lparr>sv_ProxyBindAddr = sf_ProxyBindAddr c, sv_SubDomainHost = sf_SubDomainHost c, sv_VhostHTTPPort = sf_VhostHTTPPort c,
      sv_VhostHTTPSPort = sf_VhostHTTPSPort c, sv_TCPMuxHTTPConnectPort = sf_TCPMuxHTTPConnectPort c,
      sv_MaxPortsPerClient = sf_MaxPortsPerClient c, sv_MaxPoolCount = st_MaxPoolCount (sf_Transport c),
      sv_HeartbeatTimeout = st_HeartbeatTimeout (sf_Transport c),
      sv_DetailedErrorsToClient = FromPtr (sf_DetailedErrorsToClient c)\<rparr>"

section \<open>Validation\<close>

datatype common_error =
    VirtualNetDisabled | InvalidAuthMethod | InvalidScopes | TokenAndSource | UnsafeDisabled string | BadTokenSource source_error
  | OIDCSourceExclusive | BadOIDCTokenSource source_error | BadCredentials "credentials_error list"
  | HeartbeatTimeoutTooShort | TLSFileIgnored string | InvalidProtocol | IncludeDir string | IncludeMissing string
  | InvalidLogLevel | WebCertFile | WebKeyFile | BadPort config_error | InvalidPluginOps
and credentials_error = ClientIDRequired | EndpointRequired | EndpointNotAbsolute | EndpointScheme | ScopeParam | AudienceTwice

text \<open>\<^verbatim>\<open>errors.Join\<close> drops the errors that are \<^verbatim>\<open>nil\<close>.\<close>

definition AppendError :: "'e list \<Rightarrow> 'e list \<Rightarrow> 'e list" where
  "AppendError errs e = errs @ e"

definition err_if :: "bool \<Rightarrow> 'e \<Rightarrow> 'e list" where
  "err_if b e = (if b then [e] else [])"

definition SupportedTransportProtocols :: "string list" where
  "SupportedTransportProtocols = [''tcp'', ''kcp'', ''quic'', ''websocket'', ''wss'']"

definition SupportedAuthMethods :: "string list" where
  "SupportedAuthMethods = [''token'', ''oidc'']"

definition SupportedAuthAdditionalScopes :: "string list" where
  "SupportedAuthAdditionalScopes = [''HeartBeats'', ''NewWorkConns'']"

definition SupportedLogLevels :: "string list" where
  "SupportedLogLevels = [''trace'', ''debug'', ''info'', ''warn'', ''error'']"

definition SupportedHTTPPluginOps :: "string list" where
  "SupportedHTTPPluginOps = [''Login'', ''NewProxy'', ''CloseProxy'', ''Ping'', ''NewWorkConn'', ''NewUserConn'']"

definition validateWebServerConfig :: "WebServerConfig \<Rightarrow> common_error option" where
  "validateWebServerConfig c =
     (let port = map_option BadPort (ValidatePort (ws_Port c) ''webServer.port'') in
      case ws_TLS c of
        None \<Rightarrow> port
      | Some tls \<Rightarrow> if tl_CertFile tls = [] then Some WebCertFile else if tl_KeyFile tls = [] then Some WebKeyFile else port)"

definition validateLogConfig :: "LogConfig \<Rightarrow> common_error option" where
  "validateLogConfig c = (if lo_Level c \<notin> set SupportedLogLevels then Some InvalidLogLevel else None)"

abbreviation errs_of :: "'e option \<Rightarrow> 'e list" where
  "errs_of e \<equiv> (case e of None \<Rightarrow> [] | Some x \<Rightarrow> [x])"

text \<open>The context of a validator: the unsafe features that are allowed, the feature gates, the
  file system (\<open>False\<close> if the directory of a path does not exist, \<open>None\<close> if it has no absolute path) and the parser of URLs (scheme
  and host).\<close>

record validator_env =
  ve_unsafeFeatures :: "(string \<times> bool) list option"
  ve_gates :: featureGate
  ve_dirExists :: "string \<Rightarrow> bool option"
  ve_parseURL :: "string \<Rightarrow> (string \<times> string) option"

definition ValidateUnsafeFeature :: "validator_env \<Rightarrow> string \<Rightarrow> common_error option" where
  "ValidateUnsafeFeature v feature = (if \<not> IsEnabled feature (ve_unsafeFeatures v) then Some (UnsafeDisabled feature) else None)"

definition validateFeatureGates :: "validator_env \<Rightarrow> ClientCommonConfig \<Rightarrow> common_error list" where
  "validateFeatureGates v c = err_if (cl_VirtualNetAddress c \<noteq> [] \<and> \<not> fg_Enabled VirtualNet (ve_gates v)) VirtualNetDisabled"

definition validate_source :: "validator_env \<Rightarrow> (source_error \<Rightarrow> common_error) \<Rightarrow> ValueSource \<Rightarrow> common_error list" where
  "validate_source v bad s =
     (if vs_Type s = ''exec'' then errs_of (ValidateUnsafeFeature v TokenSourceExec) else []) @ errs_of (map_option bad (vs_Validate s))"

definition validateOIDCConfig :: "validator_env \<Rightarrow> AuthOIDCClientConfig \<Rightarrow> common_error list" where
  "validateOIDCConfig v c =
     (case oi_TokenSource c of
        None \<Rightarrow> []
      | Some s \<Rightarrow>
          err_if (oi_ClientID c \<noteq> [] \<or> oi_ClientSecret c \<noteq> [] \<or> oi_Audience c \<noteq> [] \<or> oi_Scope c \<noteq> [] \<or> oi_TokenEndpointURL c \<noteq> []
              \<or> oi_AdditionalEndpointParams c \<noteq> [] \<or> oi_TrustedCaFile c \<noteq> [] \<or> oi_InsecureSkipVerify c \<or> oi_ProxyURL c \<noteq> [])
            OIDCSourceExclusive
          @ validate_source v BadOIDCTokenSource s)"

text \<open>An absolute URL has a scheme.\<close>

definition ValidateOIDCClientCredentialsConfig :: "validator_env \<Rightarrow> AuthOIDCClientConfig \<Rightarrow> credentials_error list" where
  "ValidateOIDCClientCredentialsConfig v c =
     err_if (oi_ClientID c = []) ClientIDRequired
     @ (if oi_TokenEndpointURL c = [] then [EndpointRequired]
        else (case ve_parseURL v (oi_TokenEndpointURL c) of
                None \<Rightarrow> [EndpointNotAbsolute]
              | Some (scheme, host) \<Rightarrow>
                  if scheme = [] \<or> host = [] then [EndpointNotAbsolute]
                  else err_if (scheme \<noteq> ''http'' \<and> scheme \<noteq> ''https'') EndpointScheme))
     @ err_if (map_of (oi_AdditionalEndpointParams c) ''scope'' \<noteq> None) ScopeParam
     @ err_if (oi_Audience c \<noteq> [] \<and> map_of (oi_AdditionalEndpointParams c) ''audience'' \<noteq> None) AudienceTwice"

definition validateAuthConfig :: "validator_env \<Rightarrow> AuthClientConfig \<Rightarrow> common_error list" where
  "validateAuthConfig v c =
     err_if (ac_Method c \<notin> set SupportedAuthMethods) InvalidAuthMethod
     @ err_if (\<not> set (ac_AdditionalScopes c) \<subseteq> set SupportedAuthAdditionalScopes) InvalidScopes
     @ err_if (ac_Token c \<noteq> [] \<and> ac_TokenSource c \<noteq> None) TokenAndSource
     @ (case ac_TokenSource c of None \<Rightarrow> [] | Some s \<Rightarrow> validate_source v BadTokenSource s)
     @ validateOIDCConfig v (ac_OIDC c)
     @ (if ac_Method c = ''oidc'' \<and> oi_TokenSource (ac_OIDC c) = None
        then (let es = ValidateOIDCClientCredentialsConfig v (ac_OIDC c) in err_if (es \<noteq> []) (BadCredentials es))
        else [])"

definition validateTransportConfig :: "ClientTransportConfig \<Rightarrow> common_error list \<times> common_error list" where
  "validateTransportConfig c =
     (if FromPtr (tc_Enable (ct_TLS c)) then []
      else err_if (tl_CertFile (ct_TLS c) \<noteq> []) (TLSFileIgnored ''transport.tls.certFile'')
         @ err_if (tl_KeyFile (ct_TLS c) \<noteq> []) (TLSFileIgnored ''transport.tls.keyFile'')
         @ err_if (tl_TrustedCaFile (ct_TLS c) \<noteq> []) (TLSFileIgnored ''transport.tls.trustedCaFile''),
      err_if (ct_HeartbeatTimeout c > 0 \<and> ct_HeartbeatInterval c > 0 \<and> ct_HeartbeatTimeout c < ct_HeartbeatInterval c) HeartbeatTimeoutTooShort
      @ err_if (ct_Protocol c \<notin> set SupportedTransportProtocols) InvalidProtocol)"

fun validateIncludeFiles :: "validator_env \<Rightarrow> string list \<Rightarrow> common_error list" where
  "validateIncludeFiles v [] = []"
| "validateIncludeFiles v (f # fs) =
     (case ve_dirExists v f of None \<Rightarrow> [IncludeDir f] | Some found \<Rightarrow> err_if (\<not> found) (IncludeMissing f)) @ validateIncludeFiles v fs"

text \<open>The results are the warnings and the errors.\<close>

definition ValidateClientCommonConfig :: "validator_env \<Rightarrow> ClientCommonConfig \<Rightarrow> common_error list \<times> common_error list" where
  "ValidateClientCommonConfig v c =
     fold (\<lambda>(w, e) (warnings, errs). (AppendError warnings w, AppendError errs e))
       [([], validateFeatureGates v c), ([], validateAuthConfig v (cl_Auth c)), ([], errs_of (validateLogConfig (cl_Log c))),
        ([], errs_of (validateWebServerConfig (cl_WebServer c))), validateTransportConfig (cl_Transport c),
        ([], validateIncludeFiles v (cl_IncludeConfigFiles c))] ([], [])"

definition check_port :: "int \<Rightarrow> string \<Rightarrow> common_error list" where
  "check_port port name = errs_of (map_option BadPort (ValidatePort port name))"

definition ValidateServerConfig :: "validator_env \<Rightarrow> ServerFullConfig \<Rightarrow> common_error list" where
  "ValidateServerConfig v c =
     err_if (as_Method (sf_Auth c) \<notin> set SupportedAuthMethods) InvalidAuthMethod
     @ err_if (\<not> set (as_AdditionalScopes (sf_Auth c)) \<subseteq> set SupportedAuthAdditionalScopes) InvalidScopes
     @ err_if (as_Token (sf_Auth c) \<noteq> [] \<and> as_TokenSource (sf_Auth c) \<noteq> None) TokenAndSource
     @ (case as_TokenSource (sf_Auth c) of None \<Rightarrow> [] | Some s \<Rightarrow> validate_source v BadTokenSource s)
     @ errs_of (validateLogConfig (sf_Log c))
     @ errs_of (validateWebServerConfig (sf_WebServer c))
     @ check_port (sf_BindPort c) ''bindPort''
     @ check_port (sf_KCPBindPort c) ''kcpBindPort''
     @ check_port (sf_QUICBindPort c) ''quicBindPort''
     @ check_port (sf_VhostHTTPPort c) ''vhostHTTPPort''
     @ check_port (sf_VhostHTTPSPort c) ''vhostHTTPSPort''
     @ check_port (sf_TCPMuxHTTPConnectPort c) ''tcpMuxHTTPConnectPort''
     @ concat (map (\<lambda>p. err_if (\<not> set (hp_Ops p) \<subseteq> set SupportedHTTPPluginOps) InvalidPluginOps) (sf_HTTPPlugins c))"

datatype all_error = CommonErrs "common_error list" | ProxyErr string config_error | VisitorErr string visitor_config_error

fun first_bad :: "('c \<Rightarrow> 'e option) \<Rightarrow> 'c list \<Rightarrow> ('c \<times> 'e) option" where
  "first_bad validate [] = None"
| "first_bad validate (c # cs) = (case validate c of Some e \<Rightarrow> Some (c, e) | None \<Rightarrow> first_bad validate cs)"

definition ValidateAllClientConfig ::
  "validator_env \<Rightarrow> (string \<Rightarrow> string list) \<Rightarrow> ClientCommonConfig option \<Rightarrow> ProxyConfigurer list \<Rightarrow> VisitorConfigurer list
   \<Rightarrow> common_error list \<times> all_error option" where
  "ValidateAllClientConfig v quals c proxyCfgs visitorCfgs =
     (let (warnings, errs) = (case c of None \<Rightarrow> ([], []) | Some c \<Rightarrow> ValidateClientCommonConfig v c) in
      if errs \<noteq> [] then (warnings, Some (CommonErrs errs))
      else (case first_bad (ValidateProxyConfigurerForClient quals) proxyCfgs of
              Some (p, e) \<Rightarrow> (warnings, Some (ProxyErr (pb_Name (GetBaseConfig p)) e))
            | None \<Rightarrow>
                (case first_bad ValidateVisitorConfigurer visitorCfgs of
                   Some (x, e) \<Rightarrow> (warnings, Some (VisitorErr (vc_name x) e))
                 | None \<Rightarrow> (warnings, None))))"

section \<open>Authentication\<close>

text \<open>An unknown scope authenticates nothing.\<close>

definition scopes_of :: "string list \<Rightarrow> AuthScope list" where
  "scopes_of ss = List.map_filter (\<lambda>s. if s = ''HeartBeats'' then Some AuthScopeHeartBeats
     else if s = ''NewWorkConns'' then Some AuthScopeNewWorkConns else None) ss"

datatype build_error = AuthConfigNil | ResolveFailed source_error | UnsupportedMethod string | OIDCFailed

text \<open>A setter is the token setter or one of OIDC, which is a parameter.\<close>

datatype 'o setter = TokenSetter TokenAuth | OIDCSetter 'o

definition NewAuthSetter :: "(AuthClientConfig \<Rightarrow> 'o option) \<Rightarrow> AuthClientConfig \<Rightarrow> (build_error, 'o setter) result" where
  "NewAuthSetter oidc cfg =
     (if ac_Method cfg = ''token'' then ok (TokenSetter (NewTokenAuth (scopes_of (ac_AdditionalScopes cfg)) (ac_Token cfg)))
      else if ac_Method cfg = ''oidc'' then (case oidc cfg of None \<Rightarrow> err OIDCFailed | Some s \<Rightarrow> ok (OIDCSetter s))
      else err (UnsupportedMethod (ac_Method cfg)))"

text \<open>The result has the setter and the key that encrypts connections.\<close>

definition BuildClientAuth ::
  "source_env \<Rightarrow> (AuthClientConfig \<Rightarrow> 'o option) \<Rightarrow> AuthClientConfig option \<Rightarrow> (build_error, 'o setter \<times> string) result" where
  "BuildClientAuth w oidc c =
     (case c of
        None \<Rightarrow> err AuthConfigNil
      | Some cfg \<Rightarrow>
          (let token = (case ac_TokenSource cfg of
                          Some s \<Rightarrow> if ac_Method cfg = ''token'' then vs_Resolve w s else ok (ac_Token cfg)
                        | None \<Rightarrow> ok (ac_Token cfg))
           in case token of
                Inl e \<Rightarrow> err (ResolveFailed e)
              | Inr t \<Rightarrow> (case NewAuthSetter oidc (cfg\<lparr>ac_Token := t\<rparr>) of Inl e \<Rightarrow> err e | Inr s \<Rightarrow> ok (s, t))))"

text \<open>For an unknown method there is no verifier, \<open>None\<close>. The verifier for OIDC is an argument that always answers.\<close>

definition NewAuthVerifier :: "(string \<Rightarrow> string) \<Rightarrow> (AuthServerConfig \<Rightarrow> Verifier) \<Rightarrow> AuthServerConfig \<Rightarrow> Verifier option" where
  "NewAuthVerifier md5hex oidc cfg =
     (if as_Method cfg = ''token'' then Some (token_verifier md5hex (NewTokenAuth (scopes_of (as_AdditionalScopes cfg)) (as_Token cfg)))
      else if as_Method cfg = ''oidc'' then Some (oidc cfg) else None)"

definition BuildServerAuth ::
  "(string \<Rightarrow> string) \<Rightarrow> source_env \<Rightarrow> (AuthServerConfig \<Rightarrow> Verifier) \<Rightarrow> AuthServerConfig option
   \<Rightarrow> (build_error, Verifier option \<times> string) result" where
  "BuildServerAuth md5hex w oidc c =
     (case c of
        None \<Rightarrow> err AuthConfigNil
      | Some cfg \<Rightarrow>
          (let token = (case as_TokenSource cfg of
                          Some s \<Rightarrow> if as_Method cfg = ''token'' then vs_Resolve w s else ok (as_Token cfg)
                        | None \<Rightarrow> ok (as_Token cfg))
           in case token of
                Inl e \<Rightarrow> err (ResolveFailed e)
              | Inr t \<Rightarrow> ok (NewAuthVerifier md5hex oidc (cfg\<lparr>as_Token := t\<rparr>), t)))"

section \<open>Completing\<close>

lemmas empty_defs = EmptyOr_def EmptyOr_int_def EmptyOr_ptr_def

lemmas complete_defs = QUIC_Complete_def WebServer_Complete_def Log_Complete_def AuthClient_Complete_def TLSClient_Complete_def
  ClientTransport_Complete_def ClientCommon_Complete_def AuthServer_Complete_def ServerTransport_Complete_def SSHTunnelGateway_Complete_def
  Server_Complete_def

lemma empty_simps [simp]:
  "EmptyOr v d = [] \<longleftrightarrow> v = [] \<and> d = []" "EmptyOr_int i k = 0 \<longleftrightarrow> i = 0 \<and> k = 0" "EmptyOr_ptr p q = None \<longleftrightarrow> p = None \<and> q = None"
  "EmptyOr (EmptyOr v d) d' = (if v = [] \<and> d = [] then d' else EmptyOr v d)"
  "EmptyOr_int (EmptyOr_int i k) k' = (if i = 0 \<and> k = 0 then k' else EmptyOr_int i k)"
  "EmptyOr_ptr (EmptyOr_ptr p q) q' = (if p = None \<and> q = None then q' else EmptyOr_ptr p q)"
  by (auto simp: empty_defs split: option.splits)

lemma part_Complete_idem [simp]:
  "QUIC_Complete (QUIC_Complete q) = QUIC_Complete q" "WebServer_Complete (WebServer_Complete w) = WebServer_Complete w"
  "Log_Complete (Log_Complete l) = Log_Complete l" "AuthClient_Complete (AuthClient_Complete a) = AuthClient_Complete a"
  "TLSClient_Complete (TLSClient_Complete t) = TLSClient_Complete t" "AuthServer_Complete (AuthServer_Complete b) = AuthServer_Complete b"
  "SSHTunnelGateway_Complete (SSHTunnelGateway_Complete g) = SSHTunnelGateway_Complete g"
  by (simp_all add: QUIC_Complete_def WebServer_Complete_def Log_Complete_def AuthClient_Complete_def TLSClient_Complete_def
      AuthServer_Complete_def SSHTunnelGateway_Complete_def)

text \<open>The two transports, field by field.\<close>

lemma FromPtr_Complete: "FromPtr (EmptyOr_ptr p (Some True)) \<longleftrightarrow> p \<noteq> Some False"
  by (cases p) (auto simp: FromPtr_def EmptyOr_ptr_def)

lemma ClientTransport_Complete_flat:
  "ClientTransport_Complete p c =
     c\<lparr>ct_Protocol := EmptyOr (ct_Protocol c) ''tcp'', ct_DialServerTimeout := EmptyOr_int (ct_DialServerTimeout c) 10,
       ct_DialServerKeepAlive := EmptyOr_int (ct_DialServerKeepAlive c) 7200, ct_ProxyURL := EmptyOr (ct_ProxyURL c) p,
       ct_PoolCount := EmptyOr_int (ct_PoolCount c) 1, ct_TCPMux := EmptyOr_ptr (ct_TCPMux c) (Some True),
       ct_TCPMuxKeepaliveInterval := EmptyOr_int (ct_TCPMuxKeepaliveInterval c) 30, ct_QUIC := QUIC_Complete (ct_QUIC c),
       ct_HeartbeatInterval := EmptyOr_int (ct_HeartbeatInterval c) (if ct_TCPMux c \<noteq> Some False then -1 else 30),
       ct_HeartbeatTimeout := EmptyOr_int (ct_HeartbeatTimeout c) (if ct_TCPMux c \<noteq> Some False then -1 else 90),
       ct_TLS := TLSClient_Complete (ct_TLS c)\<rparr>"
  by (cases "ct_TCPMux c = Some False") (simp_all add: ClientTransport_Complete_def Let_def FromPtr_Complete)

lemma ClientTransport_Complete_idem [simp]:
  "ClientTransport_Complete p (ClientTransport_Complete p c) = ClientTransport_Complete p c"
proof -
  have mux: "EmptyOr_ptr q (Some True) = Some False \<longleftrightarrow> q = Some False" for q by (cases q) (auto simp: EmptyOr_ptr_def)
  show ?thesis
    by (rule ClientTransportConfig.equality) (simp_all add: ClientTransport_Complete_flat mux EmptyOr_def [of "[]"])
qed

lemma ServerTransport_Complete_flat:
  "ServerTransport_Complete c =
     c\<lparr>st_TCPMux := EmptyOr_ptr (st_TCPMux c) (Some True), st_TCPMuxKeepaliveInterval := EmptyOr_int (st_TCPMuxKeepaliveInterval c) 30,
       st_TCPKeepAlive := EmptyOr_int (st_TCPKeepAlive c) 7200, st_MaxPoolCount := EmptyOr_int (st_MaxPoolCount c) 5,
       st_HeartbeatTimeout := EmptyOr_int (st_HeartbeatTimeout c) (if st_TCPMux c \<noteq> Some False then -1 else 90),
       st_QUIC := QUIC_Complete (st_QUIC c),
       st_TLS := (if tl_TrustedCaFile (st_TLS c) \<noteq> [] then (st_TLS c)\<lparr>ts_Force := True\<rparr> else st_TLS c)\<rparr>"
  by (cases "tl_TrustedCaFile (st_TLS c) = []") (simp_all add: ServerTransport_Complete_def Let_def FromPtr_Complete)

lemma ServerTransport_Complete_idem [simp]: "ServerTransport_Complete (ServerTransport_Complete c) = ServerTransport_Complete c"
proof -
  have mux: "EmptyOr_ptr q (Some True) = Some False \<longleftrightarrow> q = Some False" for q by (cases q) (auto simp: EmptyOr_ptr_def)
  show ?thesis
    by (rule ServerTransportConfig.equality) (simp_all add: ServerTransport_Complete_flat mux)
qed

lemma ClientCommon_Complete_idem: "ClientCommon_Complete p (ClientCommon_Complete p c) = ClientCommon_Complete p c"
  by (simp add: ClientCommon_Complete_def)

text \<open>The web server of a server listens on the local address by default, whatever its port: the
  default of \<open>Server_Complete\<close> for a port that is set comes too late.\<close>

lemma Server_Complete_flat:
  "Server_Complete c =
     c\<lparr>sf_Auth := AuthServer_Complete (sf_Auth c), sf_BindAddr := EmptyOr (sf_BindAddr c) ''0.0.0.0'', sf_BindPort := EmptyOr_int (sf_BindPort c) 7000,
       sf_ProxyBindAddr := EmptyOr (sf_ProxyBindAddr c) (EmptyOr (sf_BindAddr c) ''0.0.0.0''),
       sf_VhostHTTPTimeout := EmptyOr_int (sf_VhostHTTPTimeout c) 60,
       sf_SSHTunnelGateway := SSHTunnelGateway_Complete (sf_SSHTunnelGateway c), sf_WebServer := WebServer_Complete (sf_WebServer c),
       sf_Log := Log_Complete (sf_Log c), sf_Transport := ServerTransport_Complete (sf_Transport c),
       sf_DetailedErrorsToClient := EmptyOr_ptr (sf_DetailedErrorsToClient c) (Some True),
       sf_UserConnTimeout := EmptyOr_int (sf_UserConnTimeout c) 10, sf_UDPPacketSize := EmptyOr_int (sf_UDPPacketSize c) 1500,
       sf_NatHoleAnalysisDataReserveHours := EmptyOr_int (sf_NatHoleAnalysisDataReserveHours c) (7 * 24)\<rparr>"
proof -
  have web: "(WebServer_Complete w)\<lparr>ws_Addr := EmptyOr (ws_Addr (WebServer_Complete w)) a\<rparr> = WebServer_Complete w" for w a
    by (simp add: WebServer_Complete_def)
  show ?thesis
    by (cases "sf_ProxyBindAddr c = []"; cases "0 < ws_Port (WebServer_Complete (sf_WebServer c))")
      (simp_all add: Server_Complete_def Let_def web EmptyOr_def [of "[]"] EmptyOr_def [of "sf_ProxyBindAddr c"])
qed

lemma Server_Complete_web: "sf_WebServer (Server_Complete c) = WebServer_Complete (sf_WebServer c)"
  by (simp add: Server_Complete_flat)

lemma Server_Complete_idem: "Server_Complete (Server_Complete c) = Server_Complete c"
  by (rule ServerFullConfig.equality) (simp_all add: Server_Complete_flat)

section \<open>What validation accepts\<close>

lemma err_if_Nil [simp]: "err_if b e = [] \<longleftrightarrow> \<not> b"
  by (simp add: err_if_def)

lemma errs_of_Nil [simp]: "errs_of e = [] \<longleftrightarrow> e = None"
  by (cases e) simp_all

lemma ValidateClientCommonConfig_errs:
  "snd (ValidateClientCommonConfig v c) = validateFeatureGates v c @ validateAuthConfig v (cl_Auth c) @ errs_of (validateLogConfig (cl_Log c))
     @ errs_of (validateWebServerConfig (cl_WebServer c)) @ snd (validateTransportConfig (cl_Transport c))
     @ validateIncludeFiles v (cl_IncludeConfigFiles c)"
  by (simp add: ValidateClientCommonConfig_def AppendError_def case_prod_beta)

definition source_ok :: "validator_env \<Rightarrow> ValueSource option \<Rightarrow> bool" where
  "source_ok v s \<longleftrightarrow> (case s of None \<Rightarrow> True | Some x \<Rightarrow> vs_Validate x = None
     \<and> (vs_Type x = ''exec'' \<longrightarrow> IsEnabled TokenSourceExec (ve_unsafeFeatures v)))"

definition web_ok :: "WebServerConfig \<Rightarrow> bool" where
  "web_ok c \<longleftrightarrow> 0 \<le> ws_Port c \<and> ws_Port c \<le> 65535 \<and> (case ws_TLS c of None \<Rightarrow> True | Some t \<Rightarrow> tl_CertFile t \<noteq> [] \<and> tl_KeyFile t \<noteq> [])"

definition oidc_ok :: "validator_env \<Rightarrow> bool \<Rightarrow> AuthOIDCClientConfig \<Rightarrow> bool" where
  "oidc_ok v in_use c \<longleftrightarrow>
     (case oi_TokenSource c of
        Some s \<Rightarrow> source_ok v (Some s) \<and> (\<exists>skip. c = \<lparr>oi_ClientID = [], oi_ClientSecret = [], oi_Audience = [], oi_Scope = [], oi_TokenEndpointURL = [],
          oi_AdditionalEndpointParams = [], oi_TrustedCaFile = [], oi_InsecureSkipVerify = skip, oi_ProxyURL = [], oi_TokenSource = Some s\<rparr> \<and> \<not> skip)
      | None \<Rightarrow> in_use \<longrightarrow> ValidateOIDCClientCredentialsConfig v c = [])"

lemma validate_source_Nil [simp]: "validate_source v bad s = [] \<longleftrightarrow> source_ok v (Some s)"
  by (cases "vs_Validate s") (auto simp: validate_source_def source_ok_def ValidateUnsafeFeature_def split: if_splits)

lemma validateWebServerConfig_None [simp]: "validateWebServerConfig c = None \<longleftrightarrow> web_ok c"
  by (auto simp: validateWebServerConfig_def web_ok_def ValidatePort_def Let_def split: option.splits)

lemma validateOIDCConfig_Nil:
  "validateOIDCConfig v c = [] \<and> (in_use \<and> oi_TokenSource c = None \<longrightarrow> ValidateOIDCClientCredentialsConfig v c = []) \<longleftrightarrow> oidc_ok v in_use c"
  by (cases c) (auto simp: validateOIDCConfig_def oidc_ok_def split: option.splits)

lemma validateIncludeFiles_Nil: "validateIncludeFiles v fs = [] \<longleftrightarrow> list_all (\<lambda>f. ve_dirExists v f = Some True) fs"
  by (induction fs) (auto split: option.splits)

lemma check_port_Nil [simp]: "check_port p n = [] \<longleftrightarrow> 0 \<le> p \<and> p \<le> 65535"
  by (simp add: check_port_def ValidatePort_def)

lemma validateAuthConfig_Nil:
  "validateAuthConfig v c = [] \<longleftrightarrow> ac_Method c \<in> set SupportedAuthMethods \<and> set (ac_AdditionalScopes c) \<subseteq> set SupportedAuthAdditionalScopes
     \<and> (ac_Token c = [] \<or> ac_TokenSource c = None) \<and> source_ok v (ac_TokenSource c) \<and> oidc_ok v (ac_Method c = ''oidc'') (ac_OIDC c)"
proof -
  have "(case ac_TokenSource c of None \<Rightarrow> [] | Some s \<Rightarrow> validate_source v BadTokenSource s) = [] \<longleftrightarrow> source_ok v (ac_TokenSource c)"
    by (cases "ac_TokenSource c") (simp_all add: source_ok_def [of v None])
  then show ?thesis using validateOIDCConfig_Nil [of v "ac_OIDC c" "ac_Method c = ''oidc''"] by (auto simp: validateAuthConfig_def Let_def)
qed

text \<open>C20. A client's common configuration as written is accepted, once completed, exactly if what it sets is
  supported, its token sources can be used, its files are there, and its heartbeats are not to time out before they are due,
  where an interval or timeout that is not set counts as 30 and 90 seconds if multiplexing is off and is no
  matter otherwise.\<close>

theorem client_config_accepted:
  "snd (ValidateClientCommonConfig v (ClientCommon_Complete http_proxy c)) = [] \<longleftrightarrow>
     (cl_VirtualNetAddress c = [] \<or> fg_Enabled VirtualNet (ve_gates v))
   \<and> ac_Method (cl_Auth c) \<in> {[], ''token'', ''oidc''}
   \<and> set (ac_AdditionalScopes (cl_Auth c)) \<subseteq> {''HeartBeats'', ''NewWorkConns''}
   \<and> (ac_Token (cl_Auth c) = [] \<or> ac_TokenSource (cl_Auth c) = None) \<and> source_ok v (ac_TokenSource (cl_Auth c))
   \<and> oidc_ok v (ac_Method (cl_Auth c) = ''oidc'') (ac_OIDC (cl_Auth c))
   \<and> lo_Level (cl_Log c) \<in> insert [] (set SupportedLogLevels)
   \<and> web_ok (cl_WebServer c)
   \<and> ct_Protocol (cl_Transport c) \<in> insert [] (set SupportedTransportProtocols)
   \<and> (let i = ct_HeartbeatInterval (cl_Transport c); t = ct_HeartbeatTimeout (cl_Transport c)
      in if ct_TCPMux (cl_Transport c) = Some False then \<not> (0 < EmptyOr_int t 90 \<and> EmptyOr_int t 90 < EmptyOr_int i 30) else \<not> (0 < t \<and> t < i))
   \<and> list_all (\<lambda>f. ve_dirExists v f = Some True) (cl_IncludeConfigFiles c)"
proof -
  let ?c = "ClientCommon_Complete http_proxy c"
  have sel: "cl_VirtualNetAddress ?c = cl_VirtualNetAddress c" "cl_Auth ?c = AuthClient_Complete (cl_Auth c)" "cl_Log ?c = Log_Complete (cl_Log c)"
    "cl_WebServer ?c = WebServer_Complete (cl_WebServer c)" "cl_Transport ?c = ClientTransport_Complete http_proxy (cl_Transport c)"
    "cl_IncludeConfigFiles ?c = cl_IncludeConfigFiles c"
    by (simp_all add: ClientCommon_Complete_def)
  have auth: "validateAuthConfig v (AuthClient_Complete (cl_Auth c)) = [] \<longleftrightarrow> ac_Method (cl_Auth c) \<in> {[], ''token'', ''oidc''}
      \<and> set (ac_AdditionalScopes (cl_Auth c)) \<subseteq> {''HeartBeats'', ''NewWorkConns''}
      \<and> (ac_Token (cl_Auth c) = [] \<or> ac_TokenSource (cl_Auth c) = None) \<and> source_ok v (ac_TokenSource (cl_Auth c))
      \<and> oidc_ok v (ac_Method (cl_Auth c) = ''oidc'') (ac_OIDC (cl_Auth c))"
    by (simp add: validateAuthConfig_Nil AuthClient_Complete_def EmptyOr_def SupportedAuthMethods_def SupportedAuthAdditionalScopes_def)
  have log: "validateLogConfig (Log_Complete (cl_Log c)) = None \<longleftrightarrow> lo_Level (cl_Log c) \<in> insert [] (set SupportedLogLevels)"
    by (simp add: validateLogConfig_def Log_Complete_def EmptyOr_def SupportedLogLevels_def)
  have web: "web_ok (WebServer_Complete w) = web_ok w" for w by (simp add: web_ok_def WebServer_Complete_def)
  have proto: "EmptyOr p ''tcp'' \<in> set SupportedTransportProtocols \<longleftrightarrow> p \<in> insert [] (set SupportedTransportProtocols)" for p
    by (simp add: EmptyOr_def SupportedTransportProtocols_def)
  have beat: "0 < EmptyOr_int t (-1) \<and> 0 < EmptyOr_int i (-1) \<and> EmptyOr_int t (-1) < EmptyOr_int i (-1) \<longleftrightarrow> 0 < t \<and> t < i" for t i
    by (auto simp: EmptyOr_int_def)
  have trans: "snd (validateTransportConfig (ClientTransport_Complete http_proxy (cl_Transport c))) = [] \<longleftrightarrow>
      ct_Protocol (cl_Transport c) \<in> insert [] (set SupportedTransportProtocols)
      \<and> (let i = ct_HeartbeatInterval (cl_Transport c); t = ct_HeartbeatTimeout (cl_Transport c)
         in if ct_TCPMux (cl_Transport c) = Some False then \<not> (0 < EmptyOr_int t 90 \<and> EmptyOr_int t 90 < EmptyOr_int i 30) else \<not> (0 < t \<and> t < i))"
    unfolding validateTransportConfig_def ClientTransport_Complete_flat Let_def using proto [of "ct_Protocol (cl_Transport c)"] beat
    by (cases "ct_TCPMux (cl_Transport c) = Some False") auto
  show ?thesis
    unfolding ValidateClientCommonConfig_errs sel
    using auth log web [of "cl_WebServer c"] trans validateIncludeFiles_Nil [of v "cl_IncludeConfigFiles c"]
    by (auto simp: validateFeatureGates_def sel)
qed

lemma ValidateServerConfig_Nil:
  "ValidateServerConfig v c = [] \<longleftrightarrow> as_Method (sf_Auth c) \<in> set SupportedAuthMethods
     \<and> set (as_AdditionalScopes (sf_Auth c)) \<subseteq> set SupportedAuthAdditionalScopes
     \<and> (as_Token (sf_Auth c) = [] \<or> as_TokenSource (sf_Auth c) = None) \<and> source_ok v (as_TokenSource (sf_Auth c))
     \<and> lo_Level (sf_Log c) \<in> set SupportedLogLevels \<and> web_ok (sf_WebServer c)
     \<and> {sf_BindPort c, sf_KCPBindPort c, sf_QUICBindPort c, sf_VhostHTTPPort c, sf_VhostHTTPSPort c, sf_TCPMuxHTTPConnectPort c} \<subseteq> {0..65535}
     \<and> list_all (\<lambda>p. set (hp_Ops p) \<subseteq> set SupportedHTTPPluginOps) (sf_HTTPPlugins c)"
proof -
  have "(case as_TokenSource (sf_Auth c) of None \<Rightarrow> [] | Some s \<Rightarrow> validate_source v BadTokenSource s) = [] \<longleftrightarrow> source_ok v (as_TokenSource (sf_Auth c))"
    by (cases "as_TokenSource (sf_Auth c)") (simp_all add: source_ok_def [of v None])
  then show ?thesis
    by (simp add: ValidateServerConfig_def validateLogConfig_def concat_eq_Nil_conv list_all_iff conj_ac cong: conj_cong)
qed

section \<open>What authentication is built from a valid configuration\<close>

lemma vs_Resolve_err:
  assumes "vs_Validate s = None" and "vs_Resolve w s = err e"
  shows "e \<in> range ReadFileFailed \<union> range CommandFailed"
  using assms by (auto simp: vs_Resolve_def vs_Validate_def FileSource_Resolve_def ExecSource_Resolve_def Let_def split: if_splits option.splits)

text \<open>C19. Building the authentication from a completed and validated configuration fails only for what lies outside the
  program: a file that cannot be read, a command that fails, or the OIDC package. In particular the server always has a
  verifier to call.\<close>

theorem validated_auth_defined:
  assumes s: "ValidateServerConfig v (Server_Complete sc) = []" and c: "snd (ValidateClientCommonConfig v (ClientCommon_Complete p cc)) = []"
  defines "outside \<equiv> ResolveFailed ` (range ReadFileFailed \<union> range CommandFailed)"
  shows "(case BuildServerAuth md5hex w oidc (Some (sf_Auth (Server_Complete sc))) of Inl e \<Rightarrow> e \<in> outside | Inr (verifier, key) \<Rightarrow> verifier \<noteq> None)
    \<and> (case BuildClientAuth w setter (Some (cl_Auth (ClientCommon_Complete p cc))) of Inl e \<Rightarrow> e \<in> insert OIDCFailed outside | Inr _ \<Rightarrow> True)"
proof
  let ?a = "sf_Auth (Server_Complete sc)" and ?b = "cl_Auth (ClientCommon_Complete p cc)"
  have sa: "as_Method ?a = ''token'' \<or> as_Method ?a = ''oidc''" "source_ok v (as_TokenSource ?a)"
    using s unfolding ValidateServerConfig_Nil by (auto simp: SupportedAuthMethods_def)
  have ca: "ac_Method ?b = ''token'' \<or> ac_Method ?b = ''oidc''" "source_ok v (ac_TokenSource ?b)"
    using c unfolding ValidateClientCommonConfig_errs by (auto simp: validateAuthConfig_Nil SupportedAuthMethods_def)
  have out: "ResolveFailed e \<in> outside" if "source_ok v (Some x)" "vs_Resolve w x = err e" for x e
    using that vs_Resolve_err [of x w e] by (simp add: outside_def source_ok_def)
  show "case BuildServerAuth md5hex w oidc (Some ?a) of Inl e \<Rightarrow> e \<in> outside | Inr (verifier, key) \<Rightarrow> verifier \<noteq> None"
    using sa out by (auto simp: BuildServerAuth_def NewAuthVerifier_def Let_def split: option.splits sum.splits if_splits)
  show "case BuildClientAuth w setter (Some ?b) of Inl e \<Rightarrow> e \<in> insert OIDCFailed outside | Inr _ \<Rightarrow> True"
    using ca out by (auto simp: BuildClientAuth_def NewAuthSetter_def Let_def split: option.splits sum.splits if_splits)
qed

text \<open>With token authentication on both sides and a hash without collisions, the server accepts the logins of a client exactly
  if both encrypt their connections with the same key, wherever the tokens come from.\<close>

theorem auth_key_agree:
  assumes "inj md5hex"
    and "BuildClientAuth w setter (Some ac) = ok (TokenSetter auth, ckey)"
    and "BuildServerAuth md5hex w' oidc (Some as) = ok (Some verifier, skey)" and "as_Method as = ''token''"
  shows "vf_Login verifier (SetLogin md5hex auth m) = ok () \<longleftrightarrow> ckey = skey"
proof -
  have "ac_Method ac = ''token''" "auth = NewTokenAuth (scopes_of (ac_AdditionalScopes ac)) ckey"
    using assms(2) by (auto simp: BuildClientAuth_def NewAuthSetter_def Let_def split: option.splits sum.splits if_splits)
  moreover have "verifier = token_verifier md5hex (NewTokenAuth (scopes_of (as_AdditionalScopes as)) skey)"
    using assms(3,4) by (auto simp: BuildServerAuth_def NewAuthVerifier_def Let_def split: option.splits sum.splits if_splits)
  ultimately show ?thesis using assms(1)
    by (auto simp: token_verifier_def NewTokenAuth_def VerifyLogin_def SetLogin_def GetAuthKey_def inj_eq)
qed

section \<open>The configurations that set nothing\<close>

definition zero_oidc :: AuthOIDCClientConfig where
  "zero_oidc = \<lparr>oi_ClientID = [], oi_ClientSecret = [], oi_Audience = [], oi_Scope = [], oi_TokenEndpointURL = [],
     oi_AdditionalEndpointParams = [], oi_TrustedCaFile = [], oi_InsecureSkipVerify = False, oi_ProxyURL = [], oi_TokenSource = None\<rparr>"

definition zero_auth :: AuthClientConfig where
  "zero_auth = \<lparr>ac_Method = [], ac_AdditionalScopes = [], ac_Token = [], ac_TokenSource = None, ac_OIDC = zero_oidc\<rparr>"

definition zero_transport :: ClientTransportConfig where
  "zero_transport = \<lparr>ct_Protocol = [], ct_DialServerTimeout = 0, ct_DialServerKeepAlive = 0, ct_ConnectServerLocalIP = [], ct_ProxyURL = [],
     ct_PoolCount = 0, ct_TCPMux = None, ct_TCPMuxKeepaliveInterval = 0, ct_QUIC = QUICOptions.make 0 0 0, ct_HeartbeatInterval = 0,
     ct_HeartbeatTimeout = 0, ct_TLS = TLSClientConfig.make [] [] [] [] None None\<rparr>"

definition zero_web :: WebServerConfig where
  "zero_web = \<lparr>ws_Addr = [], ws_Port = 0, ws_User = [], ws_Password = [], ws_AssetsDir = [], ws_PprofEnable = False, ws_TLS = None\<rparr>"

definition zero_log :: LogConfig where
  "zero_log = \<lparr>lo_To = [], lo_Level = [], lo_MaxDays = 0, lo_DisablePrintColor = False\<rparr>"

definition zero_client :: ClientCommonConfig where
  "zero_client = \<lparr>cl_Auth = zero_auth, cl_User = [], cl_ClientID = [], cl_ServerAddr = [], cl_ServerPort = 0, cl_NatHoleSTUNServer = [],
     cl_DNSServer = [], cl_LoginFailExit = None, cl_Start = [], cl_Log = zero_log, cl_WebServer = zero_web, cl_Transport = zero_transport,
     cl_VirtualNetAddress = [], cl_FeatureGates = [], cl_UDPPacketSize = 0, cl_Metadatas = [], cl_IncludeConfigFiles = [], cl_StorePath = []\<rparr>"

definition zero_server_auth :: AuthServerConfig where
  "zero_server_auth = \<lparr>as_Method = [], as_AdditionalScopes = [], as_Token = [], as_TokenSource = None,
     as_OIDC = AuthOIDCServerConfig.make [] [] False False\<rparr>"

definition zero_server :: ServerFullConfig where
  "zero_server = \<lparr>sf_Auth = zero_server_auth, sf_BindAddr = [], sf_BindPort = 0, sf_KCPBindPort = 0, sf_QUICBindPort = 0, sf_ProxyBindAddr = [],
     sf_VhostHTTPPort = 0, sf_VhostHTTPTimeout = 0, sf_VhostHTTPSPort = 0, sf_TCPMuxHTTPConnectPort = 0, sf_TCPMuxPassthrough = False,
     sf_SubDomainHost = [], sf_Custom404Page = [], sf_SSHTunnelGateway = SSHTunnelGateway.make 0 [] [] [], sf_WebServer = zero_web,
     sf_EnablePrometheus = False, sf_Log = zero_log,
     sf_Transport = ServerTransportConfig.make None 0 0 0 0 (QUICOptions.make 0 0 0) (TLSServerConfig.make [] [] [] [] False),
     sf_DetailedErrorsToClient = None, sf_MaxPortsPerClient = 0, sf_UserConnTimeout = 0, sf_UDPPacketSize = 0,
     sf_NatHoleAnalysisDataReserveHours = 0, sf_AllowPorts = [], sf_HTTPPlugins = []\<rparr>"

definition demo_validator :: validator_env where
  "demo_validator = \<lparr>ve_unsafeFeatures = NewUnsafeFeatures [], ve_gates = NewFeatureGate, ve_dirExists = (\<lambda>_. None), ve_parseURL = (\<lambda>_. None)\<rparr>"

definition demo_files :: source_env where
  "demo_files = \<lparr>so_ReadFile = (\<lambda>p. if p = ''token.txt'' then Some '' secret '' else None), so_Environ = [], so_Output = (\<lambda>_ _ _. None)\<rparr>"

lemma zero_client_sets:
  "cl_VirtualNetAddress zero_client = []" "cl_Auth zero_client = zero_auth" "cl_Log zero_client = zero_log" "cl_WebServer zero_client = zero_web"
  "cl_IncludeConfigFiles zero_client = []" "cl_Transport zero_client = zero_transport" "cl_StorePath zero_client = []" "cl_Start zero_client = []"
  "ac_Method zero_auth = []" "ac_AdditionalScopes zero_auth = []" "ac_Token zero_auth = []" "ac_TokenSource zero_auth = None" "ac_OIDC zero_auth = zero_oidc"
  "lo_Level zero_log = []" "web_ok zero_web" "oidc_ok v False zero_oidc" "ct_Protocol zero_transport = []" "ct_HeartbeatInterval zero_transport = 0"
  "ct_HeartbeatTimeout zero_transport = 0" "ct_TCPMux zero_transport = None" "ct_PoolCount zero_transport = 0"
  by (simp_all add: zero_client_def zero_auth_def zero_log_def zero_web_def web_ok_def zero_oidc_def oidc_ok_def zero_transport_def)

lemma client_config_accepted_rule:
  assumes "cl_VirtualNetAddress c = []" "cl_Auth c = zero_auth" "cl_Log c = zero_log" "cl_WebServer c = zero_web" "cl_IncludeConfigFiles c = []"
    and "ct_Protocol (cl_Transport c) = []" "ct_HeartbeatInterval (cl_Transport c) = 0" "ct_HeartbeatTimeout (cl_Transport c) = 0"
  shows "snd (ValidateClientCommonConfig v (ClientCommon_Complete p c)) = []"
  unfolding ValidateClientCommonConfig_errs
  by (simp add: assms ClientCommon_Complete_def validateFeatureGates_def validateAuthConfig_Nil AuthClient_Complete_def zero_client_sets source_ok_def
      EmptyOr_def SupportedAuthMethods_def validateLogConfig_def Log_Complete_def SupportedLogLevels_def validateTransportConfig_def
      ClientTransport_Complete_flat EmptyOr_int_def SupportedTransportProtocols_def WebServer_Complete_def)
    (simp add: web_ok_def zero_web_def)

lemma zero_server_accepted: "ValidateServerConfig v (Server_Complete zero_server) = []"
  unfolding ValidateServerConfig_Nil Server_Complete_flat
  by (simp add: zero_server_def zero_server_auth_def AuthServer_Complete_def SupportedAuthMethods_def EmptyOr_def EmptyOr_int_def source_ok_def
      Log_Complete_def zero_log_def SupportedLogLevels_def WebServer_Complete_def)
    (simp add: web_ok_def zero_web_def)

theorem validated_auth_defined_witness:
  "(case BuildServerAuth id demo_files (\<lambda>_. AlwaysPassVerifier) (Some (sf_Auth (Server_Complete zero_server))) of Inl e \<Rightarrow> False | Inr (verifier, key) \<Rightarrow> verifier \<noteq> None)"
proof -
  have c: "snd (ValidateClientCommonConfig demo_validator (ClientCommon_Complete [] zero_client)) = []"
    by (rule client_config_accepted_rule) (simp_all add: zero_client_sets)
  have n: "as_TokenSource (sf_Auth (Server_Complete zero_server)) = None"
    by (simp add: Server_Complete_flat zero_server_def zero_server_auth_def AuthServer_Complete_def)
  from validated_auth_defined [OF zero_server_accepted c, of id demo_files "\<lambda>_. AlwaysPassVerifier" "\<lambda>_. None :: unit option", THEN conjunct1] n
  show ?thesis by (simp add: BuildServerAuth_def)
qed

theorem auth_key_agree_witness:
  "\<exists>auth verifier. BuildClientAuth demo_files (\<lambda>_. None :: unit option) (Some (zero_auth\<lparr>ac_Method := ''token'',
      ac_TokenSource := Some \<lparr>vs_Type = ''file'', vs_File = Some ''token.txt'', vs_Exec = None\<rparr>\<rparr>)) = ok (TokenSetter auth, ''secret'')
    \<and> BuildServerAuth id demo_files (\<lambda>_. AlwaysPassVerifier) (Some (zero_server_auth\<lparr>as_Method := ''token'', as_Token := ''secret''\<rparr>)) = ok (Some verifier, ''secret'')
    \<and> vf_Login verifier (SetLogin id auth \<lparr>sg_Timestamp = 5, sg_PrivilegeKey = []\<rparr>) = ok ()"
proof -
  let ?ac = "zero_auth\<lparr>ac_Method := ''token'', ac_TokenSource := Some \<lparr>vs_Type = ''file'', vs_File = Some ''token.txt'', vs_Exec = None\<rparr>\<rparr>"
  let ?as = "zero_server_auth\<lparr>as_Method := ''token'', as_Token := ''secret''\<rparr>"
  have t: "trim_space '' secret '' = ''secret''" by code_simp
  have c: "BuildClientAuth demo_files (\<lambda>_. None :: unit option) (Some ?ac) = ok (TokenSetter (NewTokenAuth (scopes_of []) ''secret''), ''secret'')"
    by (simp add: BuildClientAuth_def NewAuthSetter_def zero_auth_def vs_Resolve_def vs_Validate_def FileSource_Validate_def FileSource_Resolve_def
        demo_files_def t)
  have s: "BuildServerAuth id demo_files (\<lambda>_. AlwaysPassVerifier) (Some ?as) = ok (Some (token_verifier id (NewTokenAuth (scopes_of []) ''secret'')), ''secret'')"
    by (simp add: BuildServerAuth_def NewAuthVerifier_def zero_server_auth_def)
  have i: "inj (id :: string \<Rightarrow> string)" and m: "as_Method ?as = ''token''" by simp_all
  from auth_key_agree [OF i c s m, of "\<lparr>sg_Timestamp = 5, sg_PrivilegeKey = []\<rparr>"] c s show ?thesis by blast
qed

end
