(* ===== verification/Client_Start.thy ===== *)
theory Client_Start
  imports Client_Service Common_Config
begin

text \<open>
  Loading the configuration of a client and starting it: \<open>LoadClientConfigResult\<close> and \<open>LoadAdditionalClientConfigs\<close> of
  \<^verbatim>\<open>pkg/config/load.go\<close>, \<open>runClient\<close> of \<^verbatim>\<open>cmd/frpc/sub/root.go\<close> and the failures of \<open>NewService\<close> in \<^verbatim>\<open>client/service.go\<close>. Decoding of
  one file (TOML, YAML, JSON, or the legacy format) and the file system are arguments. The
  second half shows which configurations a started client can come to run.
\<close>

section \<open>Paths\<close>

text \<open>\<^verbatim>\<open>filepath.Clean\<close>, \<^verbatim>\<open>Dir\<close>, \<^verbatim>\<open>Join\<close> and \<^verbatim>\<open>IsAbs\<close> on Unix.\<close>

fun clean_parts :: "bool \<Rightarrow> string list \<Rightarrow> string list \<Rightarrow> string list" where
  "clean_parts rooted [] acc = rev acc"
| "clean_parts rooted (p # ps) acc =
     (if p = [] \<or> p = ''.'' then clean_parts rooted ps acc
      else if p = ''..'' then
        (if acc \<noteq> [] \<and> hd acc \<noteq> ''..'' then clean_parts rooted ps (tl acc)
         else if rooted then clean_parts rooted ps acc
         else clean_parts rooted ps (p # acc))
      else clean_parts rooted ps (p # acc))"

definition IsAbs :: "string \<Rightarrow> bool" where
  "IsAbs p \<longleftrightarrow> has_prefix p ''/''"

definition path_Clean :: "string \<Rightarrow> string" where
  "path_Clean p =
     (let parts = clean_parts (IsAbs p) (split_on CHR ''/'' p) [];
          s = (if IsAbs p then ''/'' else []) @ join_with ''/'' parts
      in if s = [] then ''.'' else s)"

definition Dir :: "string \<Rightarrow> string" where
  "Dir p = path_Clean (rev (dropWhile (\<lambda>c. c \<noteq> CHR ''/'') (rev p)))"

definition Join :: "string \<Rightarrow> string \<Rightarrow> string" where
  "Join a b = (if a \<noteq> [] then path_Clean (a @ ''/'' @ b) else if b \<noteq> [] then path_Clean b else [])"

lemma path_Clean_not_empty [simp]: "path_Clean p \<noteq> []"
  by (simp add: path_Clean_def Let_def)

section \<open>Loading\<close>

type_synonym loaded_config = "ClientCommonConfig \<times> ProxyConfigurer list \<times> VisitorConfigurer list"

record load_env =
  le_isLegacy :: "string \<Rightarrow> bool"
  le_legacy :: "string \<Rightarrow> loaded_config option"
  le_decode :: "string \<Rightarrow> loaded_config option"
  le_absDir :: "string \<Rightarrow> string option"
  le_notExist :: "string \<Rightarrow> bool"
  le_readDir :: "string \<Rightarrow> (string \<times> bool) list option"
  le_match :: "string \<Rightarrow> string \<Rightarrow> bool"
  le_http_proxy :: string

datatype load_config_error = LegacyFailed | DecodeFailed string | DirFailed string

definition Base :: "string \<Rightarrow> string" where
  "Base p =
     (if p = [] then ''.''
      else let q = rev (dropWhile (\<lambda>c. c = CHR ''/'') (rev p)) in if q = [] then ''/'' else last (split_on CHR ''/'' q))"

fun load_matching ::
  "load_env \<Rightarrow> string \<Rightarrow> string \<Rightarrow> (string \<times> bool) list \<Rightarrow> (load_config_error, ProxyConfigurer list \<times> VisitorConfigurer list) result" where
  "load_matching env absDir path [] = ok ([], [])"
| "load_matching env absDir path ((name, isDir) # files) =
     (let absFile = Join absDir name in
      if isDir \<or> \<not> le_match env (Join absDir (Base path)) absFile then load_matching env absDir path files
      else (case le_decode env absFile of
              None \<Rightarrow> err (DecodeFailed absFile)
            | Some (_, ps, vs) \<Rightarrow> map_sum id (\<lambda>(ps', vs'). (ps @ ps', vs @ vs')) (load_matching env absDir path files)))"

fun LoadAdditionalClientConfigs ::
  "load_env \<Rightarrow> string list \<Rightarrow> (load_config_error, ProxyConfigurer list \<times> VisitorConfigurer list) result" where
  "LoadAdditionalClientConfigs env [] = ok ([], [])"
| "LoadAdditionalClientConfigs env (path # paths) =
     (case le_absDir env path of
        None \<Rightarrow> err (DirFailed path)
      | Some absDir \<Rightarrow>
          if le_notExist env absDir then err (DirFailed path)
          else (case le_readDir env absDir of
                  None \<Rightarrow> err (DirFailed path)
                | Some files \<Rightarrow>
                    (case load_matching env absDir path files of
                       Inl e \<Rightarrow> err e
                     | Inr (ps, vs) \<Rightarrow> map_sum id (\<lambda>(ps', vs'). (ps @ ps', vs @ vs')) (LoadAdditionalClientConfigs env paths))))"

definition LoadClientConfigResult :: "load_env \<Rightarrow> string \<Rightarrow> (load_config_error, loaded_config) result" where
  "LoadClientConfigResult env path =
     (let legacy = le_isLegacy env path;
          first = (if legacy then (case le_legacy env path of None \<Rightarrow> err LegacyFailed | Some r \<Rightarrow> ok r)
                   else (case le_decode env path of None \<Rightarrow> err (DecodeFailed path) | Some r \<Rightarrow> ok r))
      in case first of
           Inl e \<Rightarrow> err e
         | Inr (common, ps, vs) \<Rightarrow>
             (case (if cl_IncludeConfigFiles common \<noteq> [] \<and> \<not> legacy then LoadAdditionalClientConfigs env (cl_IncludeConfigFiles common) else ok ([], [])) of
                Inl e \<Rightarrow> err e
              | Inr (eps, evs) \<Rightarrow> ok (ClientCommon_Complete (le_http_proxy env) common, ps @ eps, vs @ evs)))"

section \<open>Starting\<close>

datatype start_failure =
    LoadConfigFailed load_config_error | GateFailed gate_error | SourceFailed entry_error | StoreSourceFailed load_error
  | ConfigInvalid all_error | AuthFailed build_error | WebServerFailed

text \<open>What a start depends on: the codec of the store and the files at a path, the validator, authentication, and
  whether the web server can listen.\<close>

record ('b, 'r, 'o) start_env =
  ne_codec :: "('b, 'r) codec"
  ne_disk :: "string \<Rightarrow> 'b disk"
  ne_validator :: validator_env
  ne_quals :: "string \<Rightarrow> string list"
  ne_source :: source_env
  ne_oidc :: "AuthClientConfig \<Rightarrow> 'o option"
  ne_listen :: bool

definition store_path :: "string \<Rightarrow> string \<Rightarrow> string" where
  "store_path cfgFilePath path = (if path \<noteq> [] \<and> cfgFilePath \<noteq> [] \<and> \<not> IsAbs path then Join (Dir cfgFilePath) path else path)"

definition start_service ::
  "('b, 'r, 'o) start_env \<Rightarrow> string \<Rightarrow> string \<Rightarrow> ClientCommonConfig \<Rightarrow> Aggregator \<Rightarrow> 'b disk
   \<Rightarrow> (start_failure, 'o setter \<times> ('b, 'v) client_service) result" where
  "start_service env http_proxy cfgFile common0 aggregator dk =
     (let common = ClientCommon_Complete http_proxy common0 in
      case BuildClientAuth (ne_source env) (ne_oidc env) (Some (cl_Auth common)) of
        Inl e \<Rightarrow> err (AuthFailed e)
      | Inr (setter, key) \<Rightarrow>
          if ws_Port (cl_WebServer common) > 0 \<and> \<not> ne_listen env then err WebServerFailed
          else ok (setter, cs_NewService (cl_User common) cfgFile (Some (cl_Start common)) aggregator dk))"

definition start_with ::
  "('b, 'r, 'o) start_env \<Rightarrow> string \<Rightarrow> string \<Rightarrow> ClientCommonConfig \<Rightarrow> Aggregator \<Rightarrow> 'b disk
   \<Rightarrow> (start_failure, 'o setter \<times> ('b, 'v) client_service) result" where
  "start_with env http_proxy cfgFilePath common aggregator dk =
     (let (proxyCfgs, visitorCfgs) = ag_Load aggregator;
          (proxyCfgs, visitorCfgs) = FilterClientConfigurers (Some (cl_Start common)) proxyCfgs visitorCfgs
      in case ValidateAllClientConfig (ne_validator env) (ne_quals env) (Some common)
                (CompleteProxyConfigurers proxyCfgs) (CompleteVisitorConfigurers visitorCfgs) of
           (warnings, Some e) \<Rightarrow> err (ConfigInvalid e)
         | (warnings, None) \<Rightarrow> start_service env http_proxy cfgFilePath common aggregator dk)"

definition runClientWithAggregator ::
  "('b, 'r, 'o) start_env \<Rightarrow> string \<Rightarrow> string \<Rightarrow> loaded_config \<Rightarrow> (start_failure, 'o setter \<times> ('b, 'v) client_service) result" where
  "runClientWithAggregator env http_proxy cfgFilePath result =
     (case result of (common, proxies, visitors) \<Rightarrow>
        (case ReplaceAll (map Some proxies) (map Some visitors) newBaseSource of
           (Inl e, _) \<Rightarrow> err (SourceFailed e)
         | (Inr _, configSource) \<Rightarrow>
             (let path = store_path cfgFilePath (cl_StorePath common) in
              if StoreConfig_IsEnabled common then
                (case NewStoreSource (ne_codec env) path (ne_disk env path) of
                   Inl e \<Rightarrow> err (StoreSourceFailed e)
                 | Inr s \<Rightarrow> start_with env http_proxy cfgFilePath common (SetStoreSource (Some s) (NewAggregator (Some configSource))) (ne_disk env path))
              else start_with env http_proxy cfgFilePath common (NewAggregator (Some configSource)) (ne_disk env path))))"

definition set_gates :: "(string \<times> bool) list \<Rightarrow> featureGate \<Rightarrow> (gate_error, unit) result \<times> featureGate" where
  "set_gates m gates = (if m \<noteq> [] then SetFromMap m gates else (ok (), gates))"

text \<open>The gates are those of the process; the validator reads them after the settings of the configuration.\<close>

definition runClient ::
  "load_env \<Rightarrow> ('b, 'r, 'o) start_env \<Rightarrow> string \<Rightarrow> (start_failure, 'o setter \<times> ('b, 'v) client_service) result" where
  "runClient ld env cfgFilePath =
     (case LoadClientConfigResult ld cfgFilePath of
        Inl e \<Rightarrow> err (LoadConfigFailed e)
      | Inr (common, proxies, visitors) \<Rightarrow>
          (case set_gates (cl_FeatureGates common) (ve_gates (ne_validator env)) of
             (Inl e, _) \<Rightarrow> err (GateFailed e)
           | (Inr _, gates) \<Rightarrow>
               runClientWithAggregator (env\<lparr>ne_validator := (ne_validator env)\<lparr>ve_gates := gates\<rparr>\<rparr>) (le_http_proxy ld) cfgFilePath
                 (common, proxies, visitors)))"

text \<open>What \<open>ReloadFromFile\<close> gets from the loader and from the validation of the common configuration.\<close>

definition reload_input ::
  "load_env \<Rightarrow> validator_env \<Rightarrow> string \<Rightarrow> (string list \<times> bool \<times> ProxyConfigurer list \<times> VisitorConfigurer list) option" where
  "reload_input ld v path =
     (case LoadClientConfigResult ld path of
        Inl _ \<Rightarrow> None
      | Inr (common, ps, vs) \<Rightarrow> Some (cl_Start common, snd (ValidateClientCommonConfig v common) = [], ps, vs))"

section \<open>Valid configurations\<close>

abbreviation valid_proxy :: "(string \<Rightarrow> string list) \<Rightarrow> ProxyConfigurer \<Rightarrow> bool" where
  "valid_proxy quals c \<equiv> ValidateProxyConfigurerForClient quals (Complete c) = None"

abbreviation valid_visitor :: "VisitorConfigurer \<Rightarrow> bool" where
  "valid_visitor c \<equiv> ValidateVisitorConfigurer (vc_Complete c) = None"

lemma first_bad_None: "first_bad validate cs = None \<longleftrightarrow> (\<forall>c \<in> set cs. validate c = None)"
  by (induction cs) (auto split: option.splits)

lemma ValidateAllClientConfig_None:
  "snd (ValidateAllClientConfig v quals (Some c) ps vs) = None \<longleftrightarrow>
     snd (ValidateClientCommonConfig v c) = [] \<and> (\<forall>p \<in> set ps. ValidateProxyConfigurerForClient quals p = None)
     \<and> (\<forall>x \<in> set vs. ValidateVisitorConfigurer x = None)"
  using first_bad_None [of "ValidateProxyConfigurerForClient quals" ps] first_bad_None [of ValidateVisitorConfigurer vs]
  by (auto simp: ValidateAllClientConfig_def Let_def case_prod_beta split: option.split)

lemma store_path_not_empty: "path \<noteq> [] \<Longrightarrow> store_path file path \<noteq> []"
  by (simp add: store_path_def Join_def)

text \<open>A start that succeeds, in its parts.\<close>

lemma start_with_ok:
  assumes "start_with env hp file common a dk = ok (setter, s)"
  shows "s = cs_NewService (cl_User common) file (Some (cl_Start common)) a dk
    \<and> snd (ValidateClientCommonConfig (ne_validator env) common) = []
    \<and> (\<forall>c \<in> set (cs_proxyCfgs s). ValidateProxyConfigurerForClient (ne_quals env) c = None)
    \<and> (\<forall>c \<in> set (cs_visitorCfgs s). ValidateVisitorConfigurer c = None)"
proof -
  obtain pl vl where sel: "FilterClientConfigurers (Some (cl_Start common)) (fst (ag_Load a)) (snd (ag_Load a)) = (pl, vl)" by fastforce
  obtain w e where val: "ValidateAllClientConfig (ne_validator env) (ne_quals env) (Some common) (CompleteProxyConfigurers pl) (CompleteVisitorConfigurers vl) = (w, e)"
    by fastforce
  have e: "e = None" and s: "start_service env hp file common a dk = ok (setter, s)"
    using assms sel val by (auto simp: start_with_def case_prod_beta split: option.splits)
  have k: "cl_User (ClientCommon_Complete hp common) = cl_User common" "cl_Start (ClientCommon_Complete hp common) = cl_Start common"
    by (simp_all add: ClientCommon_Complete_def)
  have s': "s = cs_NewService (cl_User common) file (Some (cl_Start common)) a dk"
    using s by (auto simp: start_service_def Let_def k split: sum.splits if_splits)
  then have "cs_proxyCfgs s = CompleteProxyConfigurers pl" "cs_visitorCfgs s = CompleteVisitorConfigurers vl"
    using sel by (simp_all add: cs_NewService_def Let_def case_prod_beta)
  then show ?thesis using s' val e ValidateAllClientConfig_None [of "ne_validator env" "ne_quals env" common "CompleteProxyConfigurers pl" "CompleteVisitorConfigurers vl"]
    by simp
qed

lemma runClientWithAggregator_ok:
  assumes "runClientWithAggregator env hp file (common, ps, vs) = ok (setter, s)"
  shows "\<exists>a. ag_wf a \<and> start_with env hp file common a (ne_disk env (store_path file (cl_StorePath common))) = ok (setter, s)"
proof -
  let ?path = "store_path file (cl_StorePath common)"
  obtain b where b: "ReplaceAll (map Some ps) (map Some vs) newBaseSource = (ok (), b)"
    using assms by (auto simp: runClientWithAggregator_def split: prod.splits sum.splits)
  have w: "bs_wf b" using ReplaceAll_wf [OF b] by (simp add: newBaseSource_def bs_wf_def)
  note wf = ag_wf_def store_tables_def SetStoreSource_def NewAggregator_def newBaseSource_def bs_wf_def
  show ?thesis
  proof (cases "StoreConfig_IsEnabled common")
    case True
    then obtain x where x: "NewStoreSource (ne_codec env) ?path (ne_disk env ?path) = ok x"
      using assms b by (auto simp: runClientWithAggregator_def Let_def split: sum.splits)
    have "ag_wf (SetStoreSource (Some x) (NewAggregator (Some b)))" using w NewStoreSource_wf [OF x] by (simp add: wf)
    then show ?thesis using assms b x True by (intro exI) (simp add: runClientWithAggregator_def Let_def)
  next
    case False
    have "ag_wf (NewAggregator (Some b))" using w by (simp add: wf)
    then show ?thesis using assms b False by (intro exI) (simp add: runClientWithAggregator_def Let_def)
  qed
qed

lemma runClient_ok:
  assumes "runClient ld env file = ok (setter, s)"
  shows "\<exists>common ps vs gates a. LoadClientConfigResult ld file = ok (common, ps, vs)
    \<and> set_gates (cl_FeatureGates common) (ve_gates (ne_validator env)) = (ok (), gates) \<and> ag_wf a
    \<and> start_with (env\<lparr>ne_validator := (ne_validator env)\<lparr>ve_gates := gates\<rparr>\<rparr>) (le_http_proxy ld) file common a
        (ne_disk env (store_path file (cl_StorePath common))) = ok (setter, s)"
proof -
  obtain common ps vs where l: "LoadClientConfigResult ld file = ok (common, ps, vs)"
    using assms by (auto simp: runClient_def split: sum.splits)
  obtain x gates where g: "set_gates (cl_FeatureGates common) (ve_gates (ne_validator env)) = (x, gates)" by fastforce
  then have "x = ok ()" using assms l by (cases x) (simp_all add: runClient_def)
  then have "runClientWithAggregator (env\<lparr>ne_validator := (ne_validator env)\<lparr>ve_gates := gates\<rparr>\<rparr>) (le_http_proxy ld) file (common, ps, vs) = ok (setter, s)"
    using assms l g by (simp add: runClient_def)
  from runClientWithAggregator_ok [OF this] l g \<open>x = ok ()\<close> show ?thesis by auto
qed

text \<open>A client that starts has validated all it starts with: its common configuration under the feature gates that it
  sets, and every proxy and visitor that it selects from the file and the store.\<close>

theorem started_client_valid:
  assumes "runClient ld env file = ok (setter, s)"
  shows "\<exists>common ps vs gates a. LoadClientConfigResult ld file = ok (common, ps, vs)
    \<and> set_gates (cl_FeatureGates common) (ve_gates (ne_validator env)) = (ok (), gates) \<and> ag_wf a
    \<and> s = cs_NewService (cl_User common) file (Some (cl_Start common)) a (ne_disk env (store_path file (cl_StorePath common)))
    \<and> snd (ValidateClientCommonConfig ((ne_validator env)\<lparr>ve_gates := gates\<rparr>) common) = []
    \<and> list_all (\<lambda>c. ValidateProxyConfigurerForClient (ne_quals env) c = None) (cs_proxyCfgs s)
    \<and> list_all (\<lambda>c. ValidateVisitorConfigurer c = None) (cs_visitorCfgs s)"
proof -
  obtain common ps vs gates a where r: "LoadClientConfigResult ld file = ok (common, ps, vs)"
      "set_gates (cl_FeatureGates common) (ve_gates (ne_validator env)) = (ok (), gates)" "ag_wf a"
      "start_with (env\<lparr>ne_validator := (ne_validator env)\<lparr>ve_gates := gates\<rparr>\<rparr>) (le_http_proxy ld) file common a
        (ne_disk env (store_path file (cl_StorePath common))) = ok (setter, s)"
    using runClient_ok [OF assms] by blast
  from start_with_ok [OF r(4)] r(1-3) show ?thesis
    by (intro exI [of _ common] exI [of _ ps] exI [of _ vs] exI [of _ gates] exI [of _ a]) (simp add: list_all_iff)
qed

section \<open>What a client can come to run\<close>

definition sources_valid :: "(string \<Rightarrow> string list) \<Rightarrow> common_start \<Rightarrow> Aggregator \<Rightarrow> bool" where
  "sources_valid quals common a \<longleftrightarrow>
     (\<forall>n c. map_of (bs_proxies (store_tables a)) n = Some c \<longrightarrow> valid_proxy quals c)
   \<and> (\<forall>n c. map_of (bs_visitors (store_tables a)) n = Some c \<longrightarrow> valid_visitor c)
   \<and> (\<forall>n c. map_of (bs_proxies (ag_configSource a)) n = Some c \<and> pc_enabled c \<and> is_started common n \<longrightarrow> valid_proxy quals c)
   \<and> (\<forall>n c. map_of (bs_visitors (ag_configSource a)) n = Some c \<and> vc_enabled c \<and> is_started common n \<longrightarrow> valid_visitor c)"

definition service_valid :: "(string \<Rightarrow> string list) \<Rightarrow> ('b, 'v) client_service \<Rightarrow> bool" where
  "service_valid quals s \<longleftrightarrow> (\<forall>a. cs_aggregator s = Some a \<longrightarrow> sources_valid quals (cs_reloadCommon s) a)"

text \<open>The runs of a service from a state, with the calls of the administration interface outside of logins.\<close>

inductive cs_runs ::
  "(VisitorConfigurer \<Rightarrow> 'v option) \<Rightarrow> (string \<Rightarrow> string list) \<Rightarrow> ('b, 'r) codec \<Rightarrow> ('b, 'v) client_service \<Rightarrow> ('b, 'v) client_service \<Rightarrow> bool"
  for run quals cd s0 where
  none: "cs_runs run quals cd s0 s0"
| step: "cs_runs run quals cd s0 s \<Longrightarrow> (is_api ev \<longrightarrow> cs_login s = None) \<Longrightarrow> cs_runs run quals cd s0 (cs_exec run quals cd ev s)"

lemma cs_runs_reach: "cs_runs run quals cd s0 s \<Longrightarrow> cs_reach run quals cd s0 \<Longrightarrow> cs_reach run quals cd s"
  by (induction rule: cs_runs.induct) (auto intro: cs_reach.step)

lemma effective_valid:
  assumes "sources_valid quals common a"
  shows "effective_proxy common a n = Some c \<Longrightarrow> ValidateProxyConfigurerForClient quals c = None"
    and "effective_visitor common a n = Some x \<Longrightarrow> ValidateVisitorConfigurer x = None"
  using assms
  by (auto simp: sources_valid_def effective_proxy_def effective_visitor_def effective_def override_def split: option.splits if_splits)

lemma reload_frame:
  "cs_aggregator (snd (reloadConfigFromSourcesLocked run s)) = cs_aggregator s"
  "cs_reloadCommon (snd (reloadConfigFromSourcesLocked run s)) = cs_reloadCommon s"
  by (auto simp: reloadConfigFromSourcesLocked_def UpdateAllConfigurer_def Let_def case_prod_beta split: option.split)

definition op_valid :: "(string \<Rightarrow> string list) \<Rightarrow> store_op \<Rightarrow> bool" where
  "op_valid quals op \<longleftrightarrow>
     (case op of
        AddP (Some c) \<Rightarrow> valid_proxy quals c | UpdP (Some c) \<Rightarrow> valid_proxy quals c
      | AddV (Some c) \<Rightarrow> valid_visitor c | UpdV (Some c) \<Rightarrow> valid_visitor c | _ \<Rightarrow> True)"

lemma spec_op_valid:
  assumes "spec_op op (mp, mv) = ok (mp', mv')" and "op_valid quals op"
    and "\<And>n c. mp n = Some c \<Longrightarrow> valid_proxy quals c" and "\<And>n c. mv n = Some c \<Longrightarrow> valid_visitor c"
  shows "(\<forall>n c. mp' n = Some c \<longrightarrow> valid_proxy quals c) \<and> (\<forall>n c. mv' n = Some c \<longrightarrow> valid_visitor c)"
  using assms(1,2) by (cases op) (auto simp: op_valid_def spec_put_def spec_rem_def assms(3,4) split: option.splits if_splits)

lemma store_mutation_valid:
  assumes inv: "cs_inv s" and v: "service_valid quals s" and op: "op_valid quals op"
  shows "service_valid quals (snd (withStoreMutationAndReload run cd se op s))"
proof (cases "cs_store s")
  case (Some b)
  then obtain a where a: "cs_aggregator s = Some a" "ag_storeSource a = Some b" by (auto simp: cs_store_def split: option.splits)
  have w: "bs_wf b" using inv a by (auto simp: cs_inv_def ag_wf_def store_tables_def)
  obtain e b' ds where x: "store_exec cd se op b (cs_disk s) = (e, b', ds)" by (cases "store_exec cd se op b (cs_disk s)") auto
  let ?a = "a\<lparr>ag_storeSource := Some b'\<rparr>"
  let ?s = "s\<lparr>cs_aggregator := Some ?a, cs_disk := last ds\<rparr>"
  have va: "sources_valid quals (cs_reloadCommon s) a" using v a by (simp add: service_valid_def)
  have "(\<forall>n c. map_of (bs_proxies b') n = Some c \<longrightarrow> valid_proxy quals c) \<and> (\<forall>n c. map_of (bs_visitors b') n = Some c \<longrightarrow> valid_visitor c)"
  proof (cases e)
    case None
    have t: "spec_op op (map_of (bs_proxies b), map_of (bs_visitors b)) = ok (map_of (bs_proxies b'), map_of (bs_visitors b'))"
      using store_exec_spec(1) [OF w x None] by (simp add: bs_abs_def)
    from va a(2) have "valid_proxy quals c" if "map_of (bs_proxies b) n = Some c" for n c
      using that unfolding sources_valid_def store_tables_def by simp
    moreover from va a(2) have "valid_visitor c" if "map_of (bs_visitors b) n = Some c" for n c
      using that unfolding sources_valid_def store_tables_def by simp
    ultimately show ?thesis by (rule spec_op_valid [OF t op])
  next
    case (Some f)
    then have "bs_abs b' = bs_abs b" using store_exec_spec(3) [OF w x] by simp
    then show ?thesis using va a(2) unfolding sources_valid_def store_tables_def bs_abs_def by simp
  qed
  then have "service_valid quals ?s" using va unfolding service_valid_def sources_valid_def store_tables_def by simp blast
  moreover have "snd (withStoreMutationAndReload run cd se op s) = (if e = None then snd (reloadConfigFromSourcesLocked run ?s) else ?s)"
    using a Some x by (cases e; cases "reloadConfigFromSourcesLocked run ?s"; cases "fst (reloadConfigFromSourcesLocked run ?s)")
      (simp_all add: withStoreMutationAndReload_def Let_def)
  ultimately show ?thesis using reload_frame [of run ?s] by (simp add: service_valid_def)
qed (use v in \<open>auto simp: withStoreMutationAndReload_def split: option.split\<close>)

lemma collect_mem:
  "collect cname cs m = ok m' \<Longrightarrow> map_of m' n = Some c \<Longrightarrow> map_of m n = Some c \<or> (Some c \<in> set cs \<and> n = cname c)"
  by (induction cname cs m rule: collect.induct) (auto split: if_splits)

text \<open>A reload validates what it selects from the file, and puts it into the source completed.\<close>

lemma ReloadFromFile_valid:
  assumes v: "service_valid quals s"
  shows "service_valid quals (snd (ReloadFromFile run quals loaded s))"
proof (cases "snd (ReloadFromFile run quals loaded s) = s")
  case False
  then obtain start cv ps vs where l: "loaded = Some (start, cv, ps, vs)"
    by (cases loaded) (auto simp: ReloadFromFile_def split: if_splits)
  let ?P = "\<lambda>c. is_started (Some start) (pc_name c) \<and> pc_enabled c" and ?V = "\<lambda>c. is_started (Some start) (vc_name c) \<and> vc_enabled c"
  let ?ps = "map (\<lambda>c. if ?P c then Complete c else c) ps" and ?vs = "map (\<lambda>c. if ?V c then vc_Complete c else c) vs"
  have ok: "\<forall>c \<in> set ps. ?P c \<longrightarrow> valid_proxy quals c" "\<forall>c \<in> set vs. ?V c \<longrightarrow> valid_visitor c"
    and s': "snd (ReloadFromFile run quals loaded s) = snd (UpdateConfigSource run (Some start) (map Some ?ps) (map Some ?vs) s)"
    using False l by (auto simp: ReloadFromFile_def Let_def split: if_splits)
  have en: "vb_Enabled (vc_GetBaseConfig (vc_Complete c)) = vb_Enabled (vc_GetBaseConfig c)" for c
    by (cases c) (simp_all add: vb_Complete_def Let_def VisitorBaseConfig.defs)
  show ?thesis
  proof (cases "cs_aggregator s")
    case (Some a)
    obtain r b where r: "ReplaceAll (map Some ?ps) (map Some ?vs) (ag_configSource a) = (r, b)" by fastforce
    show ?thesis
    proof (cases r)
      case (Inr u)
      let ?s = "s\<lparr>cs_aggregator := Some (a\<lparr>ag_configSource := b\<rparr>), cs_reloadCommon := Some start\<rparr>"
      have t: "collect pc_name (map Some ?ps) [] = ok (bs_proxies b)" "collect vc_name (map Some ?vs) [] = ok (bs_visitors b)"
        using r Inr by (auto simp: ReplaceAll_def split: sum.splits)
      have "valid_proxy quals c" if "map_of (bs_proxies b) n = Some c" "pc_enabled c" "is_started (Some start) n" for n c
        using collect_mem [OF t(1) that(1)] that(2,3) ok(1) by (auto simp: Complete_idem split: if_splits)
      moreover have "valid_visitor c" if "map_of (bs_visitors b) n = Some c" "vc_enabled c" "is_started (Some start) n" for n c
        using collect_mem [OF t(2) that(1)] that(2,3) ok(2) by (auto simp: vc_Complete_idem en split: if_splits)
      ultimately have "service_valid quals ?s" using v Some unfolding service_valid_def sources_valid_def store_tables_def by simp blast
      then show ?thesis using s' Some r Inr reload_frame [of run ?s] by (simp add: UpdateConfigSource_def service_valid_def)
    qed (use v s' Some r in \<open>simp add: UpdateConfigSource_def\<close>)
  qed (use v s' in \<open>simp add: UpdateConfigSource_def\<close>)
qed (use v in simp)

lemma cs_exec_valid:
  assumes "cs_inv s" and v: "service_valid quals s"
  shows "service_valid quals (cs_exec run quals cd ev s)"
proof -
  note m = store_mutation_valid [OF assms]
  note d = api_defs proxy_mutation_state visitor_mutation_state validateStoreProxyConfigurer_def validateStoreVisitorConfigurer_def
  have frame: "service_valid quals (on_ctl f s)" "service_valid quals (login_accepted r s)" "service_valid quals (login_finish run s)"
    "service_valid quals (cs_stop s)" "service_valid quals (s\<lparr>cs_login := None\<rparr>)" for f r
    using v by (auto simp: service_valid_def on_ctl_def login_accepted_def login_finish_def close_ctl_def cs_stop_def split: option.split)
  show ?thesis
  proof (cases ev)
    case (EvReload l)
    then show ?thesis using ReloadFromFile_valid [OF v] by simp
  qed (use v frame in \<open>auto simp: d op_valid_def intro!: m split: option.splits\<close>)
qed

lemma cs_runs_valid:
  "cs_runs run quals cd s0 s \<Longrightarrow> cs_reach run quals cd s0 \<Longrightarrow> service_valid quals s0 \<Longrightarrow> service_valid quals s"
proof (induction rule: cs_runs.induct)
  case (step s ev)
  then show ?case using cs_exec_valid [OF cs_reach_inv [OF cs_runs_reach [OF step.hyps(1)]]] by blast
qed

text \<open>C15. If the sources of a client that has started are valid, what is overridden included, then whatever is
  reloaded or changed in the store afterwards, it only ever runs valid proxies and visitors.\<close>

theorem configs_in_use_valid:
  assumes start: "runClient ld env file = ok (setter, s0)" and v: "service_valid (ne_quals env) s0"
    and run: "cs_runs run (ne_quals env) cd s0 s" and s: "cs_aggregator s = Some a" "cs_ctl s = Some ctl" "\<not> cc_done ctl"
  shows "(map_of (cpm_proxies (cc_pm ctl)) n = Some pw \<longrightarrow> ValidateProxyConfigurerForClient (ne_quals env) (pw_Cfg pw) = None)
    \<and> (visitor_entry (cc_vm ctl) n = Some e \<longrightarrow> ValidateVisitorConfigurer (fst e) = None)"
proof -
  obtain user common a0 dk where s0: "s0 = cs_NewService user file common a0 dk" "ag_wf a0"
    using runClient_ok [OF start] start_with_ok by blast
  have r0: "cs_reach run (ne_quals env) cd s0" unfolding s0(1) by (rule cs_reach.start [OF s0(2)])
  have "cs_reach run (ne_quals env) cd s" by (rule cs_runs_reach [OF run r0])
  then have "cs_inv s" by (rule cs_reach_inv)
  then have "runs_config (cs_proxyCfgs s) (cs_visitorCfgs s) ctl" "by_name pc_name (cs_proxyCfgs s) = effective_proxy (cs_reloadCommon s) a"
    "by_name vc_name (cs_visitorCfgs s) = effective_visitor (cs_reloadCommon s) a" using s by (simp_all add: cs_inv_def)
  then have e: "map_option pw_Cfg (map_of (cpm_proxies (cc_pm ctl)) n) = effective_proxy (cs_reloadCommon s) a n"
    "map_option fst (visitor_entry (cc_vm ctl) n) = effective_visitor (cs_reloadCommon s) a n" by (simp_all add: runs_config_def)
  have "sources_valid (ne_quals env) (cs_reloadCommon s) a"
    using cs_runs_valid [OF run r0 v] s(1) by (simp add: service_valid_def)
  note k = effective_valid [OF this]
  show ?thesis
  proof (intro conjI impI)
    assume "map_of (cpm_proxies (cc_pm ctl)) n = Some pw"
    with e(1) have "effective_proxy (cs_reloadCommon s) a n = Some (pw_Cfg pw)" by simp
    then show "ValidateProxyConfigurerForClient (ne_quals env) (pw_Cfg pw) = None" by (rule k(1))
  next
    assume "visitor_entry (cc_vm ctl) n = Some e"
    with e(2) have "effective_visitor (cs_reloadCommon s) a n = Some (fst e)" by simp
    then show "ValidateVisitorConfigurer (fst e) = None" by (rule k(2))
  qed
qed

section \<open>A configuration that escapes validation\<close>

definition local_conf :: "string \<Rightarrow> int \<Rightarrow> ProxyConfigurer" where
  "local_conf name port = TCPConf (ProxyBaseConfig.extend (zero_base\<lparr>pb_Name := name, pb_Type := ''tcp'', pb_LocalPort := port\<rparr>) (TCPProxyConfig.fields 0))"

lemma local_conf_base: "pc_name (local_conf n p) = n" "pb_Enabled (GetBaseConfig (local_conf n p)) = None"
  by (simp_all add: local_conf_def GetBaseConfig_def ProxyBaseConfig.defs TCPProxyConfig.defs zero_base_def)

lemma local_conf_valid: "valid_proxy (\<lambda>_. []) (local_conf n p) \<longleftrightarrow> n \<noteq> [] \<and> 0 \<le> p \<and> p \<le> 65535"
  by (simp add: ValidateProxyConfigurerForClient_def validateProxyBaseConfigForClient_def local_conf_def
      GetBaseConfig_def base_Complete_def zero_base_def ProxyBaseConfig.defs TCPProxyConfig.defs ValidateAnnotations_def ValidateAnnotationsSize_def
      TotalAnnotationSizeLimitB_def ValidatePort_def EmptyOr_def)

text \<open>A file with the given proxies, and a store with others.\<close>

definition demo_load :: "ProxyConfigurer list \<Rightarrow> load_env" where
  "demo_load ps = \<lparr>le_isLegacy = (\<lambda>_. False), le_legacy = (\<lambda>_. None), le_decode = (\<lambda>_. Some (zero_client\<lparr>cl_StorePath := ''store.json''\<rparr>, ps, [])),
     le_absDir = (\<lambda>_. None), le_notExist = (\<lambda>_. True), le_readDir = (\<lambda>_. None), le_match = (\<lambda>_ _. False), le_http_proxy = []\<rparr>"

definition demo_start ::
  "ProxyConfigurer list \<Rightarrow> (ProxyConfigurer list \<times> VisitorConfigurer list, ProxyConfigurer + VisitorConfigurer, unit) start_env" where
  "demo_start ps = \<lparr>ne_codec = demo_codec, ne_disk = (\<lambda>_. \<lparr>dk_file = Some [(ps, [])], dk_tmp = None\<rparr>), ne_validator = demo_validator, ne_quals = (\<lambda>_. []),
     ne_source = demo_files, ne_oidc = (\<lambda>_. None), ne_listen = True\<rparr>"

definition demo_agg :: "int \<Rightarrow> int \<Rightarrow> Aggregator" where
  "demo_agg p q = \<lparr>ag_configSource = \<lparr>bs_proxies = [(''a'', local_conf ''a'' p)], bs_visitors = []\<rparr>,
     ag_storeSource = Some \<lparr>bs_proxies = [(''a'', local_conf ''a'' q)], bs_visitors = []\<rparr>\<rparr>"

lemma demo_agg_load: "ag_Load (demo_agg p q) = ([local_conf ''a'' q], [])"
  by (simp add: demo_agg_def ag_Load_def getSourcesLocked_def bs_Load_def mapsToSortedSlices_def merge_entries_def local_conf_base)

lemma demo_started:
  assumes "0 \<le> q" "q \<le> 65535"
  shows "\<exists>setter. runClient (demo_load [local_conf ''a'' p]) (demo_start [local_conf ''a'' q]) ''frpc.toml''
    = ok (setter, cs_NewService [] ''frpc.toml'' (Some []) (demo_agg p q) \<lparr>dk_file = Some [([local_conf ''a'' q], [])], dk_tmp = None\<rparr>)"
proof -
  let ?c0 = "zero_client\<lparr>cl_StorePath := ''store.json''\<rparr>"
  let ?c = "ClientCommon_Complete [] ?c0" and ?env = "demo_start [local_conf ''a'' q]"
  have l: "LoadClientConfigResult (demo_load [local_conf ''a'' p]) ''frpc.toml'' = ok (?c, [local_conf ''a'' p], [])"
    by (simp add: LoadClientConfigResult_def demo_load_def zero_client_sets)
  have f: "cl_FeatureGates ?c = []" "cl_StorePath ?c = ''store.json''" "cl_Start ?c = []" "cl_User ?c = []" "cl_WebServer ?c = WebServer_Complete zero_web"
    "cl_Auth ?c = AuthClient_Complete zero_auth"
    by (simp_all add: ClientCommon_Complete_def zero_client_def)
  have r: "ReplaceAll (map Some [local_conf ''a'' p]) (map Some []) newBaseSource = (ok (), \<lparr>bs_proxies = [(''a'', local_conf ''a'' p)], bs_visitors = []\<rparr>)"
    by (simp add: ReplaceAll_def newBaseSource_def local_conf_base)
  let ?path = "store_path ''frpc.toml'' ''store.json''"
  have n: "NewStoreSource demo_codec ?path \<lparr>dk_file = Some [([local_conf ''a'' q], [])], dk_tmp = None\<rparr> = ok \<lparr>bs_proxies = [(''a'', local_conf ''a'' q)], bs_visitors = []\<rparr>"
    using store_path_not_empty [of "''store.json''" "''frpc.toml''"] by (simp add: NewStoreSource_def loadFromFile_def demo_codec_def local_conf_base)
  have val: "snd (ValidateClientCommonConfig v ?c) = []" for v
    by (rule client_config_accepted_rule) (simp_all add: zero_client_sets zero_client_def zero_transport_def)
  have "valid_proxy (\<lambda>_. []) (local_conf ''a'' q)" using assms by (simp add: local_conf_valid)
  then have all: "snd (ValidateAllClientConfig v (\<lambda>_. []) (Some ?c) [Complete (local_conf ''a'' q)] []) = None" for v
    using ValidateAllClientConfig_None val by simp
  have sv: "\<exists>setter. start_service ?env [] ''frpc.toml'' ?c (demo_agg p q) dk = ok (setter, cs_NewService [] ''frpc.toml'' (Some []) (demo_agg p q) dk)" for dk
    by (simp add: start_service_def ClientCommon_Complete_idem f BuildClientAuth_def NewAuthSetter_def AuthClient_Complete_def zero_auth_def EmptyOr_def
        demo_start_def WebServer_Complete_def zero_web_def)
  have "\<exists>setter. start_with ?env [] ''frpc.toml'' ?c (demo_agg p q) dk = ok (setter, cs_NewService [] ''frpc.toml'' (Some []) (demo_agg p q) dk)" for dk
    using all [of demo_validator] sv [of dk]
    by (cases "ValidateAllClientConfig demo_validator (\<lambda>_. []) (Some ?c) [Complete (local_conf ''a'' q)] []")
      (simp add: start_with_def demo_agg_load f FilterClientConfigurers_def is_started_def local_conf_base CompleteProxyConfigurers_def
        CompleteVisitorConfigurers_def demo_start_def)
  then show ?thesis using l r n
    by (simp add: runClient_def set_gates_def f runClientWithAggregator_def StoreConfig_IsEnabled_def demo_load_def demo_agg_def
        demo_start_def SetStoreSource_def NewAggregator_def Let_def)
qed

lemma demo_agg_wf: "ag_wf (demo_agg p q)"
  by (simp add: demo_agg_def ag_wf_def store_tables_def bs_wf_def table_wf_def local_conf_base)

theorem started_client_valid_witness:
  "\<exists>setter s. runClient (demo_load [local_conf ''a'' 80]) (demo_start [local_conf ''a'' 81]) ''frpc.toml'' = ok (setter, s :: (_, unit) client_service)
     \<and> list_all (\<lambda>c. ValidateProxyConfigurerForClient (\<lambda>_. []) c = None) (cs_proxyCfgs s)"
proof -
  obtain setter where r: "runClient (demo_load [local_conf ''a'' 80]) (demo_start [local_conf ''a'' 81]) ''frpc.toml''
      = ok (setter, cs_NewService [] ''frpc.toml'' (Some []) (demo_agg 80 81) \<lparr>dk_file = Some [([local_conf ''a'' 81], [])], dk_tmp = None\<rparr> :: (_, unit) client_service)"
    using demo_started [of 81 80] by auto
  have q: "ne_quals (demo_start [local_conf ''a'' 81]) = (\<lambda>_. [])" by (simp add: demo_start_def)
  from started_client_valid [OF r] r show ?thesis unfolding q by blast
qed

text \<open>The state of a client that has logged in.\<close>

definition demo_running :: "int \<Rightarrow> int \<Rightarrow> (ProxyConfigurer list \<times> VisitorConfigurer list, unit) client_service" where
  "demo_running p q = login_finish (\<lambda>c. None) (login_accepted ''r''
     (cs_NewService [] ''frpc.toml'' (Some []) (demo_agg p q) \<lparr>dk_file = Some [([local_conf ''a'' q], [])], dk_tmp = None\<rparr>))"

lemma demo_running_ctl:
  "cs_aggregator (demo_running p q) = Some (demo_agg p q)"
  "\<exists>ctl. cs_ctl (demo_running p q) = Some ctl \<and> \<not> cc_done ctl \<and> map_option pw_Cfg (map_of (cpm_proxies (cc_pm ctl)) ''a'') = Some (Complete (local_conf ''a'' q))"
proof -
  let ?s0 = "cs_NewService [] ''frpc.toml'' (Some []) (demo_agg p q) \<lparr>dk_file = Some [([local_conf ''a'' q], [])], dk_tmp = None\<rparr> :: (_, unit) client_service"
  have "cs_reach (\<lambda>c. None) (\<lambda>s. []) demo_codec ?s0" by (rule cs_reach.start [OF demo_agg_wf])
  from cs_reach.step [OF cs_reach.step [OF this, of "EvLoginAccepted ''r''"], of EvLoginFinish]
  have r: "cs_reach (\<lambda>c. None) (\<lambda>s. []) demo_codec (demo_running p q)" by (simp add: demo_running_def)
  show a: "cs_aggregator (demo_running p q) = Some (demo_agg p q)"
    by (simp add: demo_running_def login_finish_def login_accepted_def close_ctl_def cs_NewService_def Let_def case_prod_beta)
  have c: "\<exists>ctl. cs_ctl (demo_running p q) = Some ctl \<and> \<not> cc_done ctl" "cs_reloadCommon (demo_running p q) = Some []"
    by (simp_all add: demo_running_def login_finish_def login_accepted_def close_ctl_def cs_NewService_def Let_def case_prod_beta cc_Run_def cc_NewControl_def)
  then obtain ctl where ctl: "cs_ctl (demo_running p q) = Some ctl" "\<not> cc_done ctl" by blast
  have "effective_proxy (Some []) (demo_agg p q) ''a'' = Some (Complete (local_conf ''a'' q))"
    by (simp add: effective_proxy_def effective_def override_def demo_agg_def store_tables_def is_started_def local_conf_base)
  moreover have "runs_config (cs_proxyCfgs (demo_running p q)) (cs_visitorCfgs (demo_running p q)) ctl"
    "by_name pc_name (cs_proxyCfgs (demo_running p q)) = effective_proxy (Some []) (demo_agg p q)"
    using cs_reach_inv [OF r] ctl a c(2) by (simp_all add: cs_inv_def)
  ultimately have "map_option pw_Cfg (map_of (cpm_proxies (cc_pm ctl)) ''a'') = Some (Complete (local_conf ''a'' q))" by (simp only: runs_config_def)
  then show "\<exists>ctl. cs_ctl (demo_running p q) = Some ctl \<and> \<not> cc_done ctl \<and> map_option pw_Cfg (map_of (cpm_proxies (cc_pm ctl)) ''a'') = Some (Complete (local_conf ''a'' q))"
    using ctl by blast
qed

theorem configs_in_use_valid_witness:
  "\<exists>ctl pw. cs_ctl (demo_running 80 81) = Some ctl \<and> map_of (cpm_proxies (cc_pm ctl)) ''a'' = Some pw \<and> ValidateProxyConfigurerForClient (\<lambda>_. []) (pw_Cfg pw) = None"
proof -
  let ?s0 = "cs_NewService [] ''frpc.toml'' (Some []) (demo_agg 80 81) \<lparr>dk_file = Some [([local_conf ''a'' 81], [])], dk_tmp = None\<rparr> :: (_, unit) client_service"
  obtain setter where r: "runClient (demo_load [local_conf ''a'' 80]) (demo_start [local_conf ''a'' 81]) ''frpc.toml'' = ok (setter, ?s0)"
    using demo_started [of 81 80] by auto
  have q: "ne_quals (demo_start [local_conf ''a'' 81]) = (\<lambda>_. [])" by (simp add: demo_start_def)
  have "sources_valid (\<lambda>_. []) (Some []) (demo_agg 80 81)" by (simp add: sources_valid_def demo_agg_def store_tables_def local_conf_valid)
  then have v: "service_valid (ne_quals (demo_start [local_conf ''a'' 81])) ?s0"
    unfolding q by (simp add: service_valid_def cs_NewService_def Let_def case_prod_beta)
  from cs_runs.step [where ev = EvLoginFinish, OF cs_runs.step [where ev = "EvLoginAccepted ''r''", OF cs_runs.none]]
  have runs: "cs_runs (\<lambda>c. None) (ne_quals (demo_start [local_conf ''a'' 81])) demo_codec ?s0 (demo_running 80 81)"
    by (simp add: demo_running_def)
  obtain ctl pw where ctl: "cs_ctl (demo_running 80 81) = Some ctl" "\<not> cc_done ctl" "map_of (cpm_proxies (cc_pm ctl)) ''a'' = Some pw"
    using demo_running_ctl(2) [of 80 81] by auto
  from configs_in_use_valid [OF r v runs demo_running_ctl(1) ctl(1,2), of "''a''" pw] ctl show ?thesis unfolding q by blast
qed

text \<open>Without that assumption validation can be evaded. A proxy of the file is out of range, but an entry of the store has the
  same name, and so the client starts. Once the entry of the store is deleted, the client runs the proxy of the file,
  which nothing has validated.\<close>

theorem unvalidated_after_delete:
  "\<exists>setter s ctl. runClient (demo_load [local_conf ''a'' 70000]) (demo_start [local_conf ''a'' 80]) ''frpc.toml''
       = ok (setter, cs_NewService [] ''frpc.toml'' (Some []) (demo_agg 70000 80) \<lparr>dk_file = Some [([local_conf ''a'' 80], [])], dk_tmp = None\<rparr> :: (_, unit) client_service)
     \<and> DeleteStoreProxy (\<lambda>c. None) demo_codec good_save ''a'' (demo_running 70000 80) = (ok (), s) \<and> cs_ctl s = Some ctl
     \<and> (\<exists>pw. map_of (cpm_proxies (cc_pm ctl)) ''a'' = Some pw \<and> ValidateProxyConfigurerForClient (\<lambda>_. []) (pw_Cfg pw) \<noteq> None)"
proof -
  let ?s = "demo_running 70000 80"
  obtain ctl0 where c0: "cs_ctl ?s = Some ctl0" "\<not> cc_done ctl0" using demo_running_ctl(2) by blast
  have l: "cs_login ?s = None" "cs_reloadCommon ?s = Some []" "cs_aggregator ?s = Some (demo_agg 70000 80)"
    by (simp_all add: demo_running_def login_finish_def login_accepted_def close_ctl_def cs_NewService_def Let_def case_prod_beta)
  obtain s where d: "DeleteStoreProxy (\<lambda>c. None) demo_codec good_save ''a'' ?s = (ok (), s)"
      "cs_aggregator s = Some ((demo_agg 70000 80)\<lparr>ag_storeSource := Some \<lparr>bs_proxies = [], bs_visitors = []\<rparr>\<rparr>)"
      "cs_reloadCommon s = Some []" "cs_ctl s \<noteq> None" "\<not> cc_done (the (cs_ctl s))"
    using l c0 by (auto simp: DeleteStoreProxy_def withStoreMutationAndReload_def cs_store_def demo_agg_def RemoveProxy_def map_delete_def persist_def
      saveToFileUnlocked_def demo_codec_def good_save_def reloadConfigFromSourcesLocked_def UpdateAllConfigurer_def cc_UpdateAllConfigurer_def Let_def case_prod_beta)
  then obtain ctl where ctl: "cs_ctl s = Some ctl" "\<not> cc_done ctl" by auto
  have "cs_reach (\<lambda>c. None) (\<lambda>s. []) demo_codec
      (cs_NewService [] ''frpc.toml'' (Some []) (demo_agg 70000 80) \<lparr>dk_file = Some [([local_conf ''a'' 80], [])], dk_tmp = None\<rparr>)"
    by (rule cs_reach.start [OF demo_agg_wf])
  from cs_reach.step [OF cs_reach.step [OF this, of "EvLoginAccepted ''r''"], of EvLoginFinish]
  have "cs_reach (\<lambda>c. None) (\<lambda>s. []) demo_codec ?s" by (simp add: demo_running_def)
  from cs_reach.step [OF this, of "EvDeleteProxy good_save ''a''"] l(1) d(1) have "cs_reach (\<lambda>c. None) (\<lambda>s. []) demo_codec s" by simp
  then have "cs_inv s" by (rule cs_reach_inv)
  then have "map_option pw_Cfg (map_of (cpm_proxies (cc_pm ctl)) ''a'') = effective_proxy (Some []) ((demo_agg 70000 80)\<lparr>ag_storeSource := Some \<lparr>bs_proxies = [], bs_visitors = []\<rparr>\<rparr>) ''a''"
    using d(2,3) ctl by (simp add: cs_inv_def runs_config_def)
  also have "\<dots> = Some (Complete (local_conf ''a'' 70000))"
    by (simp add: effective_proxy_def effective_def override_def demo_agg_def store_tables_def is_started_def local_conf_base)
  finally obtain pw where "map_of (cpm_proxies (cc_pm ctl)) ''a'' = Some pw" "pw_Cfg pw = Complete (local_conf ''a'' 70000)" by auto
  moreover have "\<not> valid_proxy (\<lambda>_. []) (local_conf ''a'' 70000)" by (simp add: local_conf_valid)
  ultimately show ?thesis using demo_started [of 80 70000] d(1) ctl(1) by auto
qed

end
