(* ===== verification/Heartbeat.thy ===== *)
theory Heartbeat
  imports Server_Control Backoff
begin

text \<open>
  Heartbeats between client and server: \<open>heartbeatWorker\<close> and \<open>handlePong\<close> of \<^verbatim>\<open>client/control.go\<close>, with \<open>handlePing\<close> and the heartbeat
  check of \<^verbatim>\<open>server/control.go\<close> (theory \<open>Server_Control\<close>) and the waits of \<^verbatim>\<open>pkg/util/wait\<close> (theory \<open>Backoff\<close>). Times are
  nanoseconds, the settings are seconds.
\<close>

section \<open>The client side\<close>

record client_beat =
  cb_lastPong :: int
  cb_closed :: bool

definition heartbeat_options :: "int \<Rightarrow> FastBackoffOptions" where
  "heartbeat_options interval =
     \<lparr>fo_Duration = interval * second, fo_Factor = Some (\<lambda>d. 2 * d), fo_Jitter = True, fo_MaxDuration = interval * second,
      fo_InitDurationIfFail = second, fo_FastRetryCount = 0, fo_FastRetryDelay = 0, fo_FastRetryWindow = 0\<rparr>"

definition ping_msg :: "(string \<Rightarrow> string) \<Rightarrow> int \<Rightarrow> TokenAuth \<Rightarrow> signed" where
  "ping_msg md5hex unix auth = SetPing md5hex unix auth \<lparr>sg_Timestamp = 0, sg_PrivilegeKey = []\<rparr>"

definition handlePong :: "int \<Rightarrow> string \<Rightarrow> client_beat \<Rightarrow> client_beat" where
  "handlePong now respErr cb = (if respErr \<noteq> [] then cb\<lparr>cb_closed := True\<rparr> else cb\<lparr>cb_lastPong := now\<rparr>)"

text \<open>One round of the check for a timeout.\<close>

definition check_pong :: "int \<Rightarrow> int \<Rightarrow> int \<Rightarrow> client_beat \<Rightarrow> client_beat" where
  "check_pong interval timeout now cb =
     (if interval > 0 \<and> timeout > 0 \<and> now - cb_lastPong cb > timeout * second then cb\<lparr>cb_closed := True\<rparr> else cb)"

text \<open>The times of the calls of a loop that starts at \<open>t\<close> and waits for the given delays in between.\<close>

fun call_times :: "int \<Rightarrow> int list \<Rightarrow> int list" where
  "call_times t [] = [t]"
| "call_times t (d # ds) = t # call_times (t + d) ds"

section \<open>Both sides\<close>

text \<open>The server handles pings that arrive at the given times.\<close>

fun serve_pings ::
  "PluginManager \<Rightarrow> (control_error \<Rightarrow> string) \<Rightarrow> ServerConfig \<Rightarrow> (int \<times> signed) list \<Rightarrow> 'c Control \<Rightarrow> 'c Control \<times> ctl_msg list" where
  "serve_pings pm show_err sv [] ctl = (ctl, [])"
| "serve_pings pm show_err sv ((t, m) # ms) ctl =
     (case handlePing pm show_err sv t m ctl of (ctl', out) \<Rightarrow>
        (case serve_pings pm show_err sv ms ctl' of (ctl'', out') \<Rightarrow> (ctl'', out @ out')))"

fun take_pongs :: "(int \<times> ctl_msg) list \<Rightarrow> client_beat \<Rightarrow> client_beat" where
  "take_pongs [] cb = cb"
| "take_pongs ((t, Pong e) # ps) cb = take_pongs ps (handlePong t e cb)"
| "take_pongs (_ # ps) cb = take_pongs ps cb"

text \<open>While nothing fails, the pings are sent at the regular interval.\<close>

lemma backoff_regular: "BackoffUntil opt True env0 (replicate n (env, False, False)) = replicate n (fo_Duration opt)"
proof -
  have "fb_lastCalledTime f \<noteq> None \<Longrightarrow> backoff_loop opt True (replicate n (env, False, False)) d e f = replicate n (fo_Duration opt)" for d e f
    by (induction n arbitrary: d e f) (auto simp: fb_Backoff_def Let_def)
  then show ?thesis by (simp add: BackoffUntil_def fb_Backoff_def NewFastBackoffManager_def)
qed

lemma call_times_regular: "k \<le> n \<Longrightarrow> call_times t (replicate n d) ! k = t + int k * d"
proof (induction n arbitrary: k t)
  case (Suc n)
  then show ?case by (cases k) (auto simp: algebra_simps)
qed simp

lemma ping_times:
  assumes "k \<le> n"
  shows "call_times t (BackoffUntil (heartbeat_options interval) True env0 (replicate n (env, False, False))) ! k = t + int k * (interval * second)"
  using call_times_regular [OF assms] by (simp add: backoff_regular heartbeat_options_def)

lemma ping_verified:
  assumes "AuthScopeHeartBeats \<in> set ss \<longrightarrow> AuthScopeHeartBeats \<in> set cs"
  shows "VerifyPing md5hex (NewTokenAuth ss token) (ping_msg md5hex u (NewTokenAuth cs token)) = ok ()"
  using assms by (auto simp: VerifyPing_def ping_msg_def SetPing_def NewTokenAuth_def)

lemma handlePing_ok:
  "vf_Ping (ctl_verifier ctl) m = ok () \<Longrightarrow> handlePing NewPluginManager show_err sv t m ctl = (ctl\<lparr>ctl_lastPing := t\<rparr>, [Pong []])"
  by (simp add: handlePing_def pm_Ping_def NewPluginManager_def Let_def)

lemma serve_pings_ok:
  assumes "\<forall>(t, m) \<in> set ms. vf_Ping (ctl_verifier ctl) m = ok ()"
  shows "serve_pings NewPluginManager show_err sv ms ctl =
    (if ms = [] then ctl else ctl\<lparr>ctl_lastPing := fst (last ms)\<rparr>, replicate (length ms) (Pong []))"
  using assms
proof (induction ms arbitrary: ctl)
  case (Cons x ms)
  obtain t m where x: "x = (t, m)" by (cases x)
  have "vf_Ping (ctl_verifier ctl) m = ok ()" using Cons.prems x by simp
  then show ?case using Cons.IH [of "ctl\<lparr>ctl_lastPing := t\<rparr>"] Cons.prems x by (auto simp: handlePing_ok)
qed simp

lemma take_pongs_ok: "take_pongs (zip ts (replicate (length ts) (Pong []))) cb = (if ts = [] then cb else cb\<lparr>cb_lastPong := last ts\<rparr>)"
  by (induction ts arbitrary: cb) (auto simp: handlePong_def)

text \<open>C13. Heartbeats keep a session alive. The client pings at its interval, each ping reaches the server and each answer the
  client within \<open>D\<close>, both have the same token and the client signs its pings if the server asks for it. If the
  interval and the delays fit into the timeouts, then neither side closes the connection, at whatever
  times they check.\<close>

theorem heartbeats_alive:
  fixes arrive answer :: "nat \<Rightarrow> int"
  assumes pos: "interval > 0" "0 \<le> D"
    and net: "\<forall>k \<le> n. sent k \<le> arrive k \<and> arrive k \<le> sent k + D \<and> arrive k \<le> answer k \<and> answer k \<le> arrive k + D"
    and sent: "\<forall>k \<le> n. sent k = call_times t0 (BackoffUntil (heartbeat_options interval) True env0 (replicate n (env, False, False))) ! k"
    and auth: "ctl_verifier ctl = token_verifier md5hex (NewTokenAuth ss token)" "AuthScopeHeartBeats \<in> set ss \<longrightarrow> AuthScopeHeartBeats \<in> set cs"
    and start: "t0 - D \<le> ctl_lastPing ctl" "cb_lastPong cb = t0"
    and server: "interval * second + D \<le> sv_HeartbeatTimeout sv * 10 ^ 9" "2 * D \<le> sv_HeartbeatTimeout sv * 10 ^ 9"
    and client: "interval * second + 2 * D \<le> timeout * second"
    and K: "K \<le> n"
    and pings: "serve_pings NewPluginManager show_err sv (map (\<lambda>k. (arrive k, ping_msg md5hex (unix k) (NewTokenAuth cs token))) [0..<K]) ctl = (ctl', pongs)"
  shows "(now < arrive K \<longrightarrow> ctl_connClosed (heartbeat sv now ctl') = ctl_connClosed ctl)
    \<and> (now < answer K \<longrightarrow> cb_closed (check_pong interval timeout now (take_pongs (zip (map answer [0..<K]) pongs) cb)) = cb_closed cb)"
proof -
  let ?I = "interval * second"
  let ?ms = "map (\<lambda>k. (arrive k, ping_msg md5hex (unix k) (NewTokenAuth cs token))) [0..<K]"
  have s: "sent k = t0 + int k * ?I" if "k \<le> n" for k using sent ping_times [OF that] that by simp
  have "\<forall>(t, m) \<in> set ?ms. vf_Ping (ctl_verifier ctl) m = ok ()" using ping_verified [OF auth(2)] auth(1) by (auto simp: token_verifier_def)
  from serve_pings_ok [OF this] pings have r: "ctl' = (if K = 0 then ctl else ctl\<lparr>ctl_lastPing := arrive (K - 1)\<rparr>)" "pongs = replicate K (Pong [])"
    by (auto simp: last_map split: if_splits)
  have k1: "sent K = sent (K - 1) + ?I" if "K \<noteq> 0" using s [OF K] s [of "K - 1"] K that by (simp add: algebra_simps of_nat_diff)
  have nK: "arrive K \<le> sent K + D" "answer K \<le> sent K + 2 * D" using net K by (force)+
  have "sent (K - 1) \<le> arrive (K - 1) \<and> arrive (K - 1) \<le> answer (K - 1)" using net K by (meson diff_le_self le_trans)
  then have n1: "sent (K - 1) \<le> arrive (K - 1)" "sent (K - 1) \<le> answer (K - 1)" by auto
  have "now - ctl_lastPing ctl' \<le> sv_HeartbeatTimeout sv * 10 ^ 9" if "now < arrive K"
  proof (cases "K = 0")
    case True
    then show ?thesis using that r(1) nK(1) s [OF K] start(1) server(2) by simp
  next
    case False
    then show ?thesis using that r(1) nK(1) n1(1) k1 server(1) by simp
  qed
  then have "ctl_connClosed (heartbeat sv now ctl') = ctl_connClosed ctl" if "now < arrive K"
    using that r(1) by (simp add: heartbeat_def)
  moreover have "cb_closed (check_pong interval timeout now (take_pongs (zip (map answer [0..<K]) pongs) cb)) = cb_closed cb" if a: "now < answer K"
  proof -
    let ?cb = "take_pongs (zip (map answer [0..<K]) pongs) cb"
    have cb: "?cb = (if K = 0 then cb else cb\<lparr>cb_lastPong := answer (K - 1)\<rparr>)"
      using take_pongs_ok [of "map answer [0..<K]" cb] r(2) by (simp add: last_map)
    have "now - cb_lastPong ?cb \<le> timeout * second"
    proof (cases "K = 0")
      case True
      have "0 < ?I" using pos(1) by (simp add: second_def)
      then show ?thesis using True a cb nK(2) s [OF K] start(2) client by simp
    next
      case False
      then show ?thesis using a cb nK(2) n1(2) k1 client by simp
    qed
    then show ?thesis using cb by (simp add: check_pong_def)
  qed
  ultimately show ?thesis by blast
qed

theorem heartbeats_alive_witness:
  "let sv = demo_server_cfg\<lparr>sv_HeartbeatTimeout := 90\<rparr>; ctl = demo_ctl\<lparr>ctl_verifier := token_verifier id (NewTokenAuth [] ''t'')\<rparr>;
       beat = \<lparr>cb_lastPong = 0, cb_closed = False\<rparr>;
       (ctl', pongs) = serve_pings NewPluginManager (\<lambda>_. []) sv [(1, ping_msg id 0 (NewTokenAuth [] ''t''))] ctl
   in \<not> ctl_connClosed (heartbeat sv (30 * second) ctl') \<and> \<not> cb_closed (check_pong 30 90 (30 * second) (take_pongs (zip [2] pongs) beat))"
proof -
  define sv where "sv = demo_server_cfg\<lparr>sv_HeartbeatTimeout := 90\<rparr>"
  define ctl where "ctl = demo_ctl\<lparr>ctl_verifier := token_verifier id (NewTokenAuth [] ''t'')\<rparr>"
  define r where "r = serve_pings NewPluginManager (\<lambda>_. []) sv [(1, ping_msg id 0 (NewTokenAuth [] ''t''))] ctl"
  let ?sent = "\<lambda>k::nat. int k * (30 * second)"
  have sent: "\<forall>k \<le> 1. ?sent k = call_times 0 (BackoffUntil (heartbeat_options 30) True env0 (replicate 1 (env, False, False))) ! k" for env0 env
    using ping_times [of _ 1 0 30] by simp
  have "ctl_verifier ctl = token_verifier id (NewTokenAuth [] ''t'')" "0 - 1 \<le> ctl_lastPing ctl" "30 * second + 1 \<le> sv_HeartbeatTimeout sv * 10 ^ 9"
    by (simp_all add: ctl_def sv_def demo_ctl_def second_def)
  with heartbeats_alive [of 30 1 1 ?sent "\<lambda>k. ?sent k + 1" "\<lambda>k. ?sent k + 2" 0 undefined undefined ctl id "[]" "''t''" "[]"
      "\<lparr>cb_lastPong = 0, cb_closed = False\<rparr>" sv 90 1 "\<lambda>_. []" "\<lambda>_. 0" "fst r" "snd r" "30 * second", OF _ _ _ sent]
  have "\<not> ctl_connClosed (heartbeat sv (30 * second) (fst r))
    \<and> \<not> cb_closed (check_pong 30 90 (30 * second) (take_pongs (zip [2] (snd r)) \<lparr>cb_lastPong = 0, cb_closed = False\<rparr>))"
    by (simp add: sv_def second_def r_def ctl_def demo_ctl_def)
  then show ?thesis by (simp add: Let_def case_prod_beta r_def sv_def ctl_def)
qed

end
