(* ===== verification/Session_Start.thy ===== *)
theory Session_Start
  imports Client_Start Server_Service Heartbeat
begin

text \<open>
  Client and server together, from their configurations: a client logs in to a server (\<open>login\<close> of \<^verbatim>\<open>client/service.go\<close> and
  \<open>handleConnection\<close>, \<open>RegisterControl\<close> of \<^verbatim>\<open>server/service.go\<close>), reconnects with the run id it was given, and stays connected with the
  heartbeats that both are configured for by default. No definition is new here apart from those that put the
  parts together.
\<close>

section \<open>Logging in\<close>

text \<open>The message of a login of a client with the common configuration \<open>c\<close>.\<close>

definition client_login ::
  "(string \<Rightarrow> string) \<Rightarrow> int \<Rightarrow> TokenAuth \<Rightarrow> string \<Rightarrow> string \<Rightarrow> string \<Rightarrow> string \<Rightarrow> ClientCommonConfig \<Rightarrow> ('b, 'v) client_service \<Rightarrow> Login" where
  "client_login md5hex now auth version hostname os arch c s =
     login_msg md5hex now auth version hostname os arch (cl_ClientID c) (cl_Metadatas c) False (ct_PoolCount (cl_Transport c)) s"

text \<open>The environment of the service of a server with configuration \<open>c\<close>, without plugins.\<close>

definition service_env :: "string \<Rightarrow> (control_error \<Rightarrow> string) \<Rightarrow> Verifier \<Rightarrow> ServerFullConfig \<Rightarrow> svc_env" where
  "service_env version show_err verifier c =
     \<lparr>sx_cfg = server_part c, sx_verifier = verifier, sx_plugins = NewPluginManager, sx_show = show_err, sx_version = version\<rparr>"

lemma client_login_fields:
  "lg_RunID (client_login md5hex now auth version hostname os arch c s) = cs_runID s"
  "lg_PoolCount (client_login md5hex now auth version hostname os arch c s) = ct_PoolCount (cl_Transport c)"
  "signed.truncate (client_login md5hex now auth version hostname os arch c s) = SetLogin md5hex auth \<lparr>sg_Timestamp = now, sg_PrivilegeKey = []\<rparr>"
  "signed.truncate ((client_login md5hex now auth version hostname os arch c s)\<lparr>lg_RunID := r\<rparr>) = SetLogin md5hex auth \<lparr>sg_Timestamp = now, sg_PrivilegeKey = []\<rparr>"
  by (simp_all add: client_login_def login_msg_def signed.defs Login.defs)

text \<open>Whether the name that a login gives its client is in use: another session is online with it.\<close>

definition client_id_taken :: "string \<Rightarrow> string \<Rightarrow> string \<Rightarrow> ClientRegistry \<Rightarrow> bool" where
  "client_id_taken user clientID runID reg \<longleftrightarrow> clientID \<noteq> []
     \<and> (\<exists>info. clients reg (composeClientKey user clientID) = Some info \<and> ci_Online info \<and> ci_RunID info \<noteq> [] \<and> ci_RunID info \<noteq> runID)"

lemma Register_conflict:
  "runID \<noteq> [] \<Longrightarrow> snd (fst (Register user clientID runID hostname version addr now reg)) \<longleftrightarrow> client_id_taken user clientID runID reg"
  by (auto simp: Register_def client_id_taken_def Let_def split: option.splits if_splits)

lemma finish_result:
  assumes "lg_RunID (ctl_login (svc_ctl s i)) \<noteq> []"
  shows "\<exists>s'. RegisterControl_finish env addr now i s =
      (if client_id_taken (lg_User (ctl_login (svc_ctl s i))) (lg_ClientID (ctl_login (svc_ctl s i))) (lg_RunID (ctl_login (svc_ctl s i))) (ss_registry (srv_st (svc_srv s)))
       then err (ClientIDConflict (lg_ClientID (ctl_login (svc_ctl s i))) (lg_User (ctl_login (svc_ctl s i)))) else ok (Start (sx_version env) (svc_ctl s i)), s')
    \<and> svc_phase s' i = (if client_id_taken (lg_User (ctl_login (svc_ctl s i))) (lg_ClientID (ctl_login (svc_ctl s i))) (lg_RunID (ctl_login (svc_ctl s i))) (ss_registry (srv_st (svc_srv s)))
        then Rejected else Running)"
  using Register_conflict [OF assms] by (auto simp: RegisterControl_finish_def Let_def split: prod.splits) (metis fst_conv snd_conv)+


lemma zero_auths:
  "BuildClientAuth demo_files (\<lambda>_. None :: unit option) (Some (cl_Auth (ClientCommon_Complete [] zero_client))) = ok (TokenSetter (NewTokenAuth [] []), [])"
  "BuildServerAuth md5hex demo_files oidc (Some (sf_Auth (Server_Complete zero_server))) = ok (Some (token_verifier md5hex (NewTokenAuth [] [])), [])"
  "as_Method (sf_Auth (Server_Complete zero_server)) = ''token''"
proof -
  have ss: "scopes_of [] = []" by (simp add: scopes_of_def List.map_filter_def)
  show "BuildClientAuth demo_files (\<lambda>_. None :: unit option) (Some (cl_Auth (ClientCommon_Complete [] zero_client))) = ok (TokenSetter (NewTokenAuth [] []), [])"
    by (simp add: ClientCommon_Complete_def zero_client_def BuildClientAuth_def NewAuthSetter_def AuthClient_Complete_def zero_auth_def EmptyOr_def ss)
  show "BuildServerAuth md5hex demo_files oidc (Some (sf_Auth (Server_Complete zero_server))) = ok (Some (token_verifier md5hex (NewTokenAuth [] [])), [])"
    by (simp add: Server_Complete_flat zero_server_def BuildServerAuth_def NewAuthVerifier_def AuthServer_Complete_def zero_server_auth_def EmptyOr_def ss)
  show "as_Method (sf_Auth (Server_Complete zero_server)) = ''token''"
    by (simp add: Server_Complete_flat zero_server_def AuthServer_Complete_def zero_server_auth_def EmptyOr_def)
qed

definition zero_login :: "string \<Rightarrow> Login" where
  "zero_login runID = client_login id 5 (NewTokenAuth [] []) ''0.65'' ''h'' ''linux'' ''amd64'' (ClientCommon_Complete [] zero_client) (demo_service\<lparr>cs_runID := runID\<rparr>)"


text \<open>A client that reconnects replaces its own control and no other: it logs in with the run id that the server gave it,
  the new control waits for the one registered under that run id, and the connection of that one is closed.\<close>

theorem reconnect_replaces:
  assumes "svc_byRun svc (cs_runID s) = Some i" and "i < svc_next svc" and "cs_runID s \<noteq> []"
    and "handleConnection (service_env version show_err verifier sc) md5' enc_ok cn
      (FirstLogin (client_login md5hex now auth cversion hostname os arch cc s)) svc = Some (False, out, svc')"
  shows "svc_phase svc' (svc_next svc) = Awaits i \<and> ctl_connClosed (svc_ctl svc' i) \<and> svc_byRun svc' (cs_runID s) = Some (svc_next svc)
    \<and> (\<forall>run. run \<noteq> cs_runID s \<longrightarrow> svc_byRun svc' run = svc_byRun svc run) \<and> (\<forall>j. j < svc_next svc \<and> j \<noteq> i \<longrightarrow> svc_ctl svc' j = svc_ctl svc j)"
proof -
  let ?m = "client_login md5hex now auth cversion hostname os arch cc s" and ?env = "service_env version show_err verifier sc"
  obtain ctl where ctl: "RegisterControl_new ?env (cn_randID cn) (cn_crypto_ok cn) (cn_now cn) (cn_internal cn) ?m = Some (ok ctl)"
      "svc' = RegisterControl_add ctl svc"
    using assms(4) by (auto simp: handleConnection_def service_env_def pm_Login_def NewPluginManager_def Let_def split: option.splits sum.splits)
  then have "lg_RunID (ctl_login ctl) = cs_runID s"
    using assms(3) by (auto simp: RegisterControl_new_def client_login_fields NewControl_def Let_def split: option.splits sum.splits if_splits)
  then show ?thesis using ctl(2) assms(1,2) by (simp add: RegisterControl_add_def cm_Add_def Let_def Replaced_def)
qed

theorem reconnect_replaces_witness:
  "\<exists>svc'. handleConnection (service_env ''0.65'' (\<lambda>_. []) (token_verifier id (NewTokenAuth [] [])) (Server_Complete zero_server)) id True
       demo_conn (FirstLogin (zero_login ''r7'')) (demo_svc\<lparr>svc_byRun := [''r7'' \<mapsto> 0], svc_next := 1\<rparr>) = Some (False, [], svc')
     \<and> svc_phase svc' 1 = Awaits 0 \<and> ctl_connClosed (svc_ctl svc' 0)"
proof -
  let ?svc = "demo_svc\<lparr>svc_byRun := [''r7'' \<mapsto> 0], svc_next := 1\<rparr>"
  have p: "ct_PoolCount (cl_Transport (ClientCommon_Complete [] zero_client)) = 1" "sv_MaxPoolCount (server_part (Server_Complete zero_server)) = 5"
    by (simp_all add: ClientCommon_Complete_def zero_client_def zero_transport_def ClientTransport_Complete_flat Server_Complete_flat zero_server_def
        ServerTransport_Complete_flat ServerTransportConfig.defs EmptyOr_int_def server_part_def)
  have acc: "vf_Login (token_verifier id (NewTokenAuth [] [])) (SetLogin id (NewTokenAuth [] []) \<lparr>sg_Timestamp = 5, sg_PrivilegeKey = []\<rparr>) = ok ()"
    by (simp add: token_verifier_def VerifyLogin_def SetLogin_def)
  obtain svc' where h: "handleConnection (service_env ''0.65'' (\<lambda>_. []) (token_verifier id (NewTokenAuth [] [])) (Server_Complete zero_server)) id True
       demo_conn (FirstLogin (zero_login ''r7'')) ?svc = Some (False, [], svc')"
    using acc by (auto simp: handleConnection_def service_env_def pm_Login_def NewPluginManager_def RegisterControl_new_def zero_login_def client_login_fields
        NewControl_def demo_conn_def p Let_def)
  have r: "svc_byRun ?svc (cs_runID (demo_service\<lparr>cs_runID := ''r7''\<rparr>)) = Some 0" "0 < svc_next ?svc" "cs_runID (demo_service\<lparr>cs_runID := ''r7''\<rparr>) \<noteq> []"
    by simp_all
  from reconnect_replaces [OF r h [unfolded zero_login_def]] h show ?thesis by (intro exI [of _ svc']) simp
qed

section \<open>The default heartbeats\<close>

text \<open>Client and server that agree on multiplexing and leave their heartbeats at the defaults: with multiplexing neither side ever
  closes a connection for missing heartbeats; without it, connections stay open as long as messages take no more
  than \<open>30\<close> seconds.\<close>

lemma default_beats:
  assumes "ct_HeartbeatInterval (cl_Transport cc) = 0" "ct_HeartbeatTimeout (cl_Transport cc) = 0" "st_HeartbeatTimeout (sf_Transport sc) = 0"
    and "ct_TCPMux (cl_Transport cc) = mux" "st_TCPMux (sf_Transport sc) = mux"
  shows "ct_HeartbeatInterval (cl_Transport (ClientCommon_Complete p cc)) = (if mux = Some False then 30 else -1)"
    and "ct_HeartbeatTimeout (cl_Transport (ClientCommon_Complete p cc)) = (if mux = Some False then 90 else -1)"
    and "sv_HeartbeatTimeout (server_part (Server_Complete sc)) = (if mux = Some False then 90 else -1)"
  using assms by (simp_all add: ClientCommon_Complete_def ClientTransport_Complete_flat server_part_def Server_Complete_flat ServerTransport_Complete_flat EmptyOr_int_def)

lemma default_mux_no_timeout:
  fixes cc :: ClientCommonConfig and p :: string
  assumes "ct_HeartbeatInterval (cl_Transport cc) = 0" "ct_HeartbeatTimeout (cl_Transport cc) = 0" "st_HeartbeatTimeout (sf_Transport sc) = 0"
    and "ct_TCPMux (cl_Transport cc) \<noteq> Some False" "st_TCPMux (sf_Transport sc) = ct_TCPMux (cl_Transport cc)"
  defines "t \<equiv> cl_Transport (ClientCommon_Complete p cc)"
  shows "heartbeat (server_part (Server_Complete sc)) now ctl = ctl" "check_pong (ct_HeartbeatInterval t) (ct_HeartbeatTimeout t) now cb = cb"
  using default_beats [OF assms(1-3) refl assms(5)] assms(4) by (simp_all add: t_def heartbeat_def check_pong_def)

section \<open>A negative pool count\<close>

text \<open>The validation of the client does not look at the number of connections to keep in the pool. A client whose
  configuration asks for \<open>-11\<close> is valid, and its login makes a server with default settings panic.\<close>

theorem valid_client_panics_server:
  fixes svc :: "nat service" and s :: "('b, 'v) client_service"
  defines "cc \<equiv> ClientCommon_Complete [] (zero_client\<lparr>cl_Transport := zero_transport\<lparr>ct_PoolCount := -11\<rparr>\<rparr>)"
    and "sc \<equiv> Server_Complete zero_server" and "auth \<equiv> NewTokenAuth [] []"
  shows "snd (ValidateClientCommonConfig v cc) = [] \<and> ValidateServerConfig v sc = []
    \<and> BuildClientAuth demo_files (\<lambda>_. None :: unit option) (Some (cl_Auth cc)) = ok (TokenSetter auth, [])
    \<and> BuildServerAuth md5hex demo_files oidc (Some (sf_Auth sc)) = ok (Some (token_verifier md5hex auth), [])
    \<and> handleConnection (service_env version show_err (token_verifier md5hex auth) sc) md5' enc_ok (demo_conn\<lparr>cn_randID := Some r\<rparr>)
        (FirstLogin (client_login md5hex now auth cversion hostname os arch cc s)) svc = None"
proof (intro conjI)
  show "snd (ValidateClientCommonConfig v cc) = []"
    unfolding cc_def by (rule client_config_accepted_rule) (simp_all add: zero_client_def zero_transport_def)
  show "ValidateServerConfig v sc = []" unfolding sc_def by (rule zero_server_accepted)
  have a: "cl_Auth cc = AuthClient_Complete zero_auth" "ct_PoolCount (cl_Transport cc) = -11"
    by (simp_all add: cc_def ClientCommon_Complete_def zero_client_def ClientTransport_Complete_flat EmptyOr_int_def)
  have b: "sf_Auth sc = AuthServer_Complete zero_server_auth" "sv_MaxPoolCount (server_part sc) = 5"
    by (simp_all add: sc_def Server_Complete_flat zero_server_def server_part_def ServerTransport_Complete_flat ServerTransportConfig.defs EmptyOr_int_def)
  have ss: "scopes_of [] = []" by (simp add: scopes_of_def List.map_filter_def)
  show "BuildClientAuth demo_files (\<lambda>_. None :: unit option) (Some (cl_Auth cc)) = ok (TokenSetter auth, [])"
    by (simp add: a BuildClientAuth_def NewAuthSetter_def AuthClient_Complete_def zero_auth_def EmptyOr_def auth_def ss)
  show "BuildServerAuth md5hex demo_files oidc (Some (sf_Auth sc)) = ok (Some (token_verifier md5hex auth), [])"
    by (simp add: b BuildServerAuth_def NewAuthVerifier_def AuthServer_Complete_def zero_server_auth_def EmptyOr_def auth_def ss)
  have acc: "vf_Login (token_verifier md5hex auth) (SetLogin md5hex auth \<lparr>sg_Timestamp = now, sg_PrivilegeKey = []\<rparr>) = ok ()"
    by (simp add: token_verifier_def VerifyLogin_def SetLogin_def)
  show "handleConnection (service_env version show_err (token_verifier md5hex auth) sc) md5' enc_ok (demo_conn\<lparr>cn_randID := Some r\<rparr>)
        (FirstLogin (client_login md5hex now auth cversion hostname os arch cc s)) svc = None"
    using acc a(2) b(2)
    by (auto simp: handleConnection_def service_env_def pm_Login_def NewPluginManager_def RegisterControl_new_def client_login_fields NewControl_def
        demo_conn_def Let_def)
qed

end
