(* ===== verification/Vnet.thy ===== *)
theory Vnet
  imports Prelude "HOL-Library.Word"
begin

text \<open>
  The virtual network: frames of \<^verbatim>\<open>pkg/vnet/message.go\<close>, routing of \<^verbatim>\<open>pkg/vnet/controller.go\<close>, and the delay between reconnections
  of the visitor plugin, \<^verbatim>\<open>pkg/plugin/visitor/virtual_net.go\<close>. Bytes and lengths are words. Parsing of IP headers
  is third-party code and a parameter, and so are the TUN device and the contents of connections: the model says
  which connection gets a packet.
\<close>

unbundle bit_operations_syntax

type_synonym byte = "8 word"

section \<open>Frames\<close>

datatype frame_error = LengthMissing | LengthZero | TooLarge "32 word" | DataMissing

definition maxMessageSize :: "32 word" where
  "maxMessageSize = 1024 * 1024"

text \<open>\<^verbatim>\<open>binary.LittleEndian\<close> on 32 bits.\<close>

definition put_uint32 :: "32 word \<Rightarrow> byte list" where
  "put_uint32 n = map (\<lambda>i. ucast (drop_bit (8 * i) n)) [0, 1, 2, 3]"

definition get_uint32 :: "byte list \<Rightarrow> 32 word" where
  "get_uint32 bs = foldr (\<lambda>b acc. push_bit 8 acc OR ucast b) bs 0"

definition WriteMessage :: "byte list \<Rightarrow> (frame_error, byte list) result" where
  "WriteMessage data =
     (let len = word_of_nat (length data) :: 32 word in
      if len = 0 then err LengthZero
      else if len > maxMessageSize then err (TooLarge len)
      else ok (put_uint32 len @ data))"

text \<open>The result is the message and what is left of the stream.\<close>

definition ReadMessage :: "byte list \<Rightarrow> (frame_error, byte list \<times> byte list) result" where
  "ReadMessage r =
     (if length r < 4 then err LengthMissing
      else
        let len = get_uint32 (take 4 r); rest = drop 4 r in
        if len = 0 then err LengthZero
        else if len > maxMessageSize then err (TooLarge len)
        else if length rest < unat len then err DataMissing
        else ok (take (unat len) rest, drop (unat len) rest))"

lemma get_put_uint32: "get_uint32 (put_uint32 n) = n"
proof (rule bit_word_eqI)
  fix i
  assume "i < LENGTH(32)"
  then have "i < 8 \<or> (8 \<le> i \<and> i < 16) \<or> (16 \<le> i \<and> i < 24) \<or> (24 \<le> i \<and> i < 32)" by auto
  then show "bit (get_uint32 (put_uint32 n)) i = bit n i"
    by (auto simp: get_uint32_def put_uint32_def bit_simps)
qed

lemma length_put_uint32 [simp]: "length (put_uint32 n) = 4"
  by (simp add: put_uint32_def)

lemma WriteMessage_ok:
  "WriteMessage data = ok bs \<longleftrightarrow> (let len = word_of_nat (length data) :: 32 word in len \<noteq> 0 \<and> len \<le> maxMessageSize \<and> bs = put_uint32 len @ data)"
  by (auto simp: WriteMessage_def Let_def not_less)

text \<open>What is written is read back, message by message, whatever follows in the stream.\<close>

fun read_all :: "nat \<Rightarrow> byte list \<Rightarrow> (frame_error, byte list list) result" where
  "read_all 0 r = ok []"
| "read_all (Suc n) r = (case ReadMessage r of Inl e \<Rightarrow> err e | Inr (m, r') \<Rightarrow> map_sum id ((#) m) (read_all n r'))"

lemma frame_roundtrip:
  assumes "length data < 2 ^ 32" and "WriteMessage data = ok bs"
  shows "ReadMessage (bs @ rest) = ok (data, rest)"
proof -
  let ?len = "word_of_nat (length data) :: 32 word"
  have len: "?len \<noteq> 0" "\<not> ?len > maxMessageSize" "bs = put_uint32 ?len @ data" using assms(2) by (auto simp: WriteMessage_ok Let_def not_less)
  have u: "unat ?len = length data" using assms(1) by (simp add: unat_of_nat take_bit_nat_eq_self)
  have "take 4 (bs @ rest) = put_uint32 ?len" "drop 4 (bs @ rest) = data @ rest" using len(3) by simp_all
  then show ?thesis using len u by (simp add: ReadMessage_def Let_def get_put_uint32)
qed

theorem frames_roundtrip:
  assumes "map WriteMessage msgs = map ok frames" and "\<forall>m \<in> set msgs. length m < 2 ^ 32"
  shows "read_all (length msgs) (concat frames @ rest) = ok msgs"
  using assms
proof (induction msgs arbitrary: frames)
  case (Cons m msgs)
  then obtain f fs where f: "frames = f # fs" "WriteMessage m = ok f" "map WriteMessage msgs = map ok fs" by (cases frames) auto
  then show ?case using Cons.IH [OF f(3)] Cons.prems(2) frame_roundtrip [OF _ f(2), of "concat fs @ rest"] by simp
qed simp

theorem frames_roundtrip_witness:
  "read_all 2 ([2, 0, 0, 0, 7, 8] @ [1, 0, 0, 0, 9] @ [5]) = ok [[7, 8], [9]]"
proof -
  have m: "map WriteMessage [[7, 8], [9]] = map ok [[2, 0, 0, 0, 7, 8], [1, 0, 0, 0, 9]]" by code_simp
  have l: "\<forall>m \<in> set [[7, 8], [9 :: byte]]. length m < 2 ^ 32" by simp
  from frames_roundtrip [OF m l, of "[5]"] show ?thesis by (simp add: numeral_eq_Suc)
qed

text \<open>The length is cut to 32 bits before it is checked: a message of \<open>2 ^ 32 + 1\<close> bytes passes, and its frame
  announces one byte.\<close>

lemma frame_length_wraps:
  assumes "length data = 2 ^ 32 + 1" and "WriteMessage data = ok bs"
  shows "ReadMessage bs = ok (take 1 data, drop 1 data)"
proof -
  have w: "word_of_nat (length data) = (1 :: 32 word)" using assms(1) by (simp add: word_unat_eq_iff unat_of_nat)
  then have "bs = put_uint32 1 @ data" using assms(2) by (simp add: WriteMessage_ok)
  then have "take 4 bs = put_uint32 1" "drop 4 bs = data" "length bs = length data + 4" by simp_all
  then show ?thesis using assms(1) by (simp add: ReadMessage_def Let_def get_put_uint32 maxMessageSize_def)
qed

section \<open>Addresses and routes\<close>

definition To4 :: "byte list \<Rightarrow> byte list option" where
  "To4 ip =
     (if length ip = 4 then Some ip
      else if length ip = 16 \<and> take 10 ip = replicate 10 0 \<and> ip ! 10 = 0xff \<and> ip ! 11 = 0xff then Some (drop 12 ip)
      else None)"

record IPNet =
  in_IP :: "byte list"
  in_Mask :: "byte list"

text \<open>\<^verbatim>\<open>IPNet.Contains\<close>. A mask has the length of its address, or an IPv4 address has the last four bytes of a mask of sixteen.\<close>

definition networkNumberAndMask :: "IPNet \<Rightarrow> (byte list \<times> byte list) option" where
  "networkNumberAndMask n =
     (case (case To4 (in_IP n) of Some ip \<Rightarrow> Some ip | None \<Rightarrow> if length (in_IP n) = 16 then Some (in_IP n) else None) of
        None \<Rightarrow> None
      | Some ip \<Rightarrow>
          if length (in_Mask n) = length ip then Some (ip, in_Mask n)
          else if length (in_Mask n) = 16 \<and> length ip = 4 then Some (ip, drop 12 (in_Mask n))
          else None)"

definition Contains :: "IPNet \<Rightarrow> byte list \<Rightarrow> bool" where
  "Contains n ip0 \<longleftrightarrow>
     (let ip = (case To4 ip0 of Some x \<Rightarrow> x | None \<Rightarrow> ip0) in
      case networkNumberAndMask n of
        None \<Rightarrow> ip = []
      | Some (nn, m) \<Rightarrow> length ip = length nn \<and> map2 (AND) nn m = map2 (AND) ip m)"

section \<open>The routers\<close>

text \<open>A connection is identified by a value of type \<open>'c\<close>. The map of routes is an association list in the order of
  iteration.\<close>

record 'c routeElement =
  re_name :: string
  re_routes :: "IPNet list"
  re_conn :: 'c

type_synonym 'c clientRouter = "(string \<times> 'c routeElement) list"
type_synonym 'c serverRouter = "(string \<times> 'c) list"

definition addRoute :: "string \<Rightarrow> IPNet list \<Rightarrow> 'c \<Rightarrow> 'c clientRouter \<Rightarrow> 'c clientRouter" where
  "addRoute name routes conn r = map_put name \<lparr>re_name = name, re_routes = routes, re_conn = conn\<rparr> r"

fun findConn :: "byte list \<Rightarrow> 'c clientRouter \<Rightarrow> 'c option" where
  "findConn dst [] = None"
| "findConn dst ((n, re) # r) = (if \<exists>route \<in> set (re_routes re). Contains route dst then Some (re_conn re) else findConn dst r)"

definition delRoute :: "string \<Rightarrow> 'c clientRouter \<Rightarrow> 'c clientRouter" where
  "delRoute name r = map_delete name r"

fun removeConnRoute :: "'c \<Rightarrow> 'c clientRouter \<Rightarrow> 'c clientRouter" where
  "removeConnRoute conn [] = []"
| "removeConnRoute conn ((n, re) # r) = (if re_conn re = conn then r else (n, re) # removeConnRoute conn r)"

definition findConnBySrc :: "(byte list \<Rightarrow> string) \<Rightarrow> byte list \<Rightarrow> 'c serverRouter \<Rightarrow> 'c option" where
  "findConnBySrc ipString src r = map_of r (ipString src)"

definition registerSrcIP :: "(byte list \<Rightarrow> string) \<Rightarrow> byte list \<Rightarrow> 'c \<Rightarrow> 'c serverRouter \<Rightarrow> 'c serverRouter" where
  "registerSrcIP ipString src conn r = (if map_of r (ipString src) = Some conn then r else map_put (ipString src) conn r)"

definition cleanupConnIPs :: "'c \<Rightarrow> 'c serverRouter \<Rightarrow> 'c serverRouter" where
  "cleanupConnIPs conn r = filter (\<lambda>(ip, c). c \<noteq> conn) r"

text \<open>The controller. \<open>parse\<close> gives the source and the destination of an IPv4 or IPv6 packet, \<open>None\<close> for anything else and
  for a header that cannot be parsed.\<close>

record 'c VnetController =
  vn_clientRouter :: "'c clientRouter"
  vn_serverRouter :: "'c serverRouter"

text \<open>\<open>handlePacket\<close> in its three parts, between which other goroutines run: the search among the routes of clients and the one among the sources
  of servers, each under its own lock, and the write to the connection found, under none.\<close>

datatype 'c tun_phase = TunIdle | NoClientRoute "byte list" "byte list" | Target 'c "byte list"

definition handlePacket :: "(byte list \<Rightarrow> (byte list \<times> byte list) option) \<Rightarrow> byte list \<Rightarrow> 'c clientRouter \<Rightarrow> 'c tun_phase" where
  "handlePacket parse buf r =
     (case parse buf of
        None \<Rightarrow> TunIdle
      | Some (src, dst) \<Rightarrow> (case findConn dst r of Some conn \<Rightarrow> Target conn buf | None \<Rightarrow> NoClientRoute dst buf))"

definition handlePacket_source :: "(byte list \<Rightarrow> string) \<Rightarrow> byte list \<Rightarrow> byte list \<Rightarrow> 'c serverRouter \<Rightarrow> 'c tun_phase" where
  "handlePacket_source ipString dst buf r = (case findConnBySrc ipString dst r of Some conn \<Rightarrow> Target conn buf | None \<Rightarrow> TunIdle)"

text \<open>What the write puts on the connection: nothing if the connection is closed or the packet too large, which is logged.\<close>

definition handlePacket_write :: "'c set \<Rightarrow> 'c \<Rightarrow> byte list \<Rightarrow> ('c \<times> byte list) list" where
  "handlePacket_write closed conn buf = (if conn \<in> closed then [] else case WriteMessage buf of Inl _ \<Rightarrow> [] | Inr out \<Rightarrow> [(conn, out)])"

text \<open>One message read from a connection of a client, and of a server: what is written to the device.\<close>

definition client_message :: "(byte list \<Rightarrow> (byte list \<times> byte list) option) \<Rightarrow> byte list \<Rightarrow> byte list option" where
  "client_message parse data = (if data = [] then None else case parse data of None \<Rightarrow> None | Some _ \<Rightarrow> Some data)"

definition server_message ::
  "(byte list \<Rightarrow> string) \<Rightarrow> (byte list \<Rightarrow> (byte list \<times> byte list) option) \<Rightarrow> 'c \<Rightarrow> byte list \<Rightarrow> 'c serverRouter \<Rightarrow> byte list option \<times> 'c serverRouter" where
  "server_message ipString parse conn data r =
     (if data = [] then (None, r)
      else (Some data, case parse data of None \<Rightarrow> r | Some (src, dst) \<Rightarrow> registerSrcIP ipString src conn r))"

section \<open>The controller at work\<close>

text \<open>The connections whose read loops run, those of clients and those of servers, those that are closed and all that were ever used; a connection is registered or served once.
  The device is read by one goroutine, whose phase is \<open>vn_tun\<close>. The rest is history: the routes that were ever registered, the messages read from servers' connections, and the
  frames that were written.\<close>

record 'c vnet =
  vn_ctl :: "'c VnetController"
  vn_clients :: "'c set"
  vn_servers :: "'c set"
  vn_closed :: "'c set"
  vn_used :: "'c set"
  vn_tun :: "'c tun_phase"
  vn_registered :: "('c \<times> IPNet list) set"
  vn_sent :: "('c \<times> byte list) list"
  vn_out :: "('c \<times> byte list) list"

abbreviation on_clients :: "('c clientRouter \<Rightarrow> 'c clientRouter) \<Rightarrow> 'c VnetController \<Rightarrow> 'c VnetController" where
  "on_clients f c \<equiv> c\<lparr>vn_clientRouter := f (vn_clientRouter c)\<rparr>"

abbreviation on_servers :: "('c serverRouter \<Rightarrow> 'c serverRouter) \<Rightarrow> 'c VnetController \<Rightarrow> 'c VnetController" where
  "on_servers f c \<equiv> c\<lparr>vn_serverRouter := f (vn_serverRouter c)\<rparr>"

text \<open>A read loop that ends takes its connection out of the routers and closes it afterwards. The search for a route iterates over the map in any order.\<close>

inductive vn_step ::
  "(byte list \<Rightarrow> string) \<Rightarrow> (byte list \<Rightarrow> (byte list \<times> byte list) option) \<Rightarrow> 'c vnet \<Rightarrow> 'c vnet \<Rightarrow> bool"
  for ipString parse where
  RegisterClientRoute: "conn \<notin> vn_used s \<Longrightarrow> vn_step ipString parse s
    (s\<lparr>vn_ctl := on_clients (addRoute name routes conn) (vn_ctl s), vn_clients := insert conn (vn_clients s), vn_used := insert conn (vn_used s),
       vn_registered := insert (conn, routes) (vn_registered s)\<rparr>)"
| UnregisterClientRoute: "vn_step ipString parse s (s\<lparr>vn_ctl := on_clients (delRoute name) (vn_ctl s)\<rparr>)"
| client_ends: "conn \<in> vn_clients s \<Longrightarrow> vn_step ipString parse s
    (s\<lparr>vn_ctl := on_clients (removeConnRoute conn) (vn_ctl s), vn_clients := vn_clients s - {conn}\<rparr>)"
| StartServerConnReadLoop: "conn \<notin> vn_used s \<Longrightarrow> vn_step ipString parse s (s\<lparr>vn_servers := insert conn (vn_servers s), vn_used := insert conn (vn_used s)\<rparr>)"
| server_reads: "conn \<in> vn_servers s \<Longrightarrow> vn_step ipString parse s
    (s\<lparr>vn_ctl := on_servers (\<lambda>r. snd (server_message ipString parse conn data r)) (vn_ctl s), vn_sent := vn_sent s @ [(conn, data)]\<rparr>)"
| server_ends: "conn \<in> vn_servers s \<Longrightarrow> vn_step ipString parse s
    (s\<lparr>vn_ctl := on_servers (cleanupConnIPs conn) (vn_ctl s), vn_servers := vn_servers s - {conn}\<rparr>)"
| conn_closed: "conn \<in> vn_used s - vn_clients s - vn_servers s \<Longrightarrow> vn_step ipString parse s (s\<lparr>vn_closed := insert conn (vn_closed s)\<rparr>)"
| device_reads: "vn_tun s = TunIdle \<Longrightarrow> set r = set (vn_clientRouter (vn_ctl s)) \<Longrightarrow> vn_step ipString parse s (s\<lparr>vn_tun := handlePacket parse buf r\<rparr>)"
| device_sources: "vn_tun s = NoClientRoute dst buf \<Longrightarrow> vn_step ipString parse s
    (s\<lparr>vn_tun := handlePacket_source ipString dst buf (vn_serverRouter (vn_ctl s))\<rparr>)"
| device_writes: "vn_tun s = Target conn buf \<Longrightarrow> vn_step ipString parse s
    (s\<lparr>vn_tun := TunIdle, vn_out := vn_out s @ handlePacket_write (vn_closed s) conn buf\<rparr>)"

definition NewController_vnet :: "'c vnet" where
  "NewController_vnet = \<lparr>vn_ctl = \<lparr>vn_clientRouter = [], vn_serverRouter = []\<rparr>, vn_clients = {}, vn_servers = {}, vn_closed = {}, vn_used = {}, vn_tun = TunIdle,
     vn_registered = {}, vn_sent = [], vn_out = []\<rparr>"

inductive vn_reach ::
  "(byte list \<Rightarrow> string) \<Rightarrow> (byte list \<Rightarrow> (byte list \<times> byte list) option) \<Rightarrow> 'c vnet \<Rightarrow> bool"
  for ipString parse where
  new: "vn_reach ipString parse NewController_vnet"
| step: "vn_reach ipString parse s \<Longrightarrow> vn_step ipString parse s s' \<Longrightarrow> vn_reach ipString parse s'"

definition routes_of :: "'c vnet \<Rightarrow> 'c clientRouter" where
  "routes_of s = vn_clientRouter (vn_ctl s)"

definition sources_of :: "'c vnet \<Rightarrow> 'c serverRouter" where
  "sources_of s = vn_serverRouter (vn_ctl s)"

definition conns :: "'c clientRouter \<Rightarrow> 'c list" where
  "conns r = map (\<lambda>x. re_conn (snd x)) r"

lemma conns_simps [simp]: "conns [] = []" "conns (x # r) = re_conn (snd x) # conns r"
  by (simp_all add: conns_def)

lemma conns_mem: "c \<in> set (conns r) \<longleftrightarrow> (\<exists>n re. (n, re) \<in> set r \<and> re_conn re = c)"
  by (force simp: conns_def)

definition vn_inv :: "'c vnet \<Rightarrow> bool" where
  "vn_inv s \<longleftrightarrow> distinct (conns (routes_of s)) \<and> set (conns (routes_of s)) \<subseteq> vn_clients s
     \<and> snd ` set (sources_of s) \<subseteq> vn_servers s \<and> vn_clients s \<subseteq> vn_used s \<and> vn_servers s \<subseteq> vn_used s"

lemma conns_map_put: "set (conns (map_put k x r)) \<subseteq> insert (re_conn x) (set (conns r))"
  by (induction r) (auto split: if_splits)

lemma distinct_conns_map_put: "distinct (conns r) \<Longrightarrow> re_conn x \<notin> set (conns r) \<Longrightarrow> distinct (conns (map_put k x r))"
proof (induction r)
  case (Cons a r)
  then show ?case using conns_map_put [of k x r] by (cases a) auto
qed simp

lemma distinct_conns_filter: "distinct (conns r) \<Longrightarrow> distinct (conns (filter P r)) \<and> set (conns (filter P r)) \<subseteq> set (conns r)"
  by (induction r) auto

lemma conns_remove:
  "set (conns (removeConnRoute conn r)) \<subseteq> set (conns r)"
  "distinct (conns r) \<Longrightarrow> distinct (conns (removeConnRoute conn r)) \<and> conn \<notin> set (conns (removeConnRoute conn r))"
proof -
  show sub: "set (conns (removeConnRoute conn r)) \<subseteq> set (conns r)" for r
    by (induction conn r rule: removeConnRoute.induct) auto
  show "distinct (conns r) \<Longrightarrow> distinct (conns (removeConnRoute conn r)) \<and> conn \<notin> set (conns (removeConnRoute conn r))"
  proof (induction r)
    case (Cons a r)
    then show ?case using sub [of r] by (cases a) auto
  qed simp
qed

lemma sources_map_put: "snd ` set (map_put k c r) \<subseteq> insert c (snd ` set r)"
  using set_map_put [of k c r] by force

lemma vn_step_inv: "vn_step ipString parse s s' \<Longrightarrow> vn_inv s \<Longrightarrow> vn_inv s'"
proof (induction rule: vn_step.induct)
  case (RegisterClientRoute conn s routes name)
  let ?x = "\<lparr>re_name = name, re_routes = routes, re_conn = conn\<rparr>"
  have "conn \<notin> set (conns (routes_of s))" using RegisterClientRoute by (auto simp: vn_inv_def)
  then have "distinct (conns (map_put name ?x (routes_of s)))"
    using RegisterClientRoute by (intro distinct_conns_map_put) (simp_all add: vn_inv_def)
  then show ?case using RegisterClientRoute conns_map_put [of name ?x "routes_of s"]
    by (auto simp: vn_inv_def addRoute_def routes_of_def sources_of_def)
next
  case (UnregisterClientRoute s name)
  then show ?case using distinct_conns_filter [of "routes_of s" "\<lambda>kv. fst kv \<noteq> name"]
    by (auto simp: vn_inv_def routes_of_def sources_of_def delRoute_def map_delete_def)
next
  case (client_ends conn s)
  then show ?case using conns_remove [where conn = conn and r = "routes_of s"] by (auto simp: vn_inv_def routes_of_def sources_of_def)
next
  case (server_reads conn s data)
  have "snd ` set (snd (server_message ipString parse conn data (sources_of s))) \<subseteq> insert conn (snd ` set (sources_of s))"
  proof (cases "data = [] \<or> parse data = None")
    case False
    then obtain src dst where "parse data = Some (src, dst)" "data \<noteq> []" by auto
    then show ?thesis using sources_map_put [of "ipString src" conn "sources_of s"] by (simp add: server_message_def registerSrcIP_def subset_insertI)
  qed (auto simp: server_message_def)
  then show ?case using server_reads by (auto simp: vn_inv_def routes_of_def sources_of_def)
next
  case (server_ends conn s)
  then show ?case by (auto simp: vn_inv_def routes_of_def sources_of_def cleanupConnIPs_def)
qed (auto simp: vn_inv_def routes_of_def sources_of_def)

lemma vn_reach_inv: "vn_reach ipString parse s \<Longrightarrow> vn_inv s"
proof (induction rule: vn_reach.induct)
  case (step s s')
  then show ?case by (blast intro: vn_step_inv)
qed (simp add: vn_inv_def NewController_vnet_def routes_of_def sources_of_def)

lemma findConn_Some: "findConn dst r = Some conn \<Longrightarrow> \<exists>n re. (n, re) \<in> set r \<and> re_conn re = conn \<and> list_ex (\<lambda>route. Contains route dst) (re_routes re)"
  by (induction dst r rule: findConn.induct) (auto simp: list_ex_iff split: if_splits)

text \<open>The connections that have sent a packet from an address, in the order of their packets, and which of them is the present source.\<close>

definition senders :: "(byte list \<Rightarrow> string) \<Rightarrow> (byte list \<Rightarrow> (byte list \<times> byte list) option) \<Rightarrow> string \<Rightarrow> ('c \<times> byte list) list \<Rightarrow> 'c list" where
  "senders ipString parse ip sent =
     map fst (filter (\<lambda>(c, data). data \<noteq> [] \<and> (case parse data of None \<Rightarrow> False | Some (src, dst) \<Rightarrow> ipString src = ip)) sent)"

definition last_live :: "'c set \<Rightarrow> 'c list \<Rightarrow> 'c option" where
  "last_live live cs = (if cs \<noteq> [] \<and> last cs \<in> live then Some (last cs) else None)"

definition src_inv :: "(byte list \<Rightarrow> string) \<Rightarrow> (byte list \<Rightarrow> (byte list \<times> byte list) option) \<Rightarrow> 'c vnet \<Rightarrow> bool" where
  "src_inv ipString parse s \<longleftrightarrow> distinct (map fst (sources_of s)) \<and> fst ` set (vn_sent s) \<subseteq> vn_used s
     \<and> (\<forall>ip. map_of (sources_of s) ip = last_live (vn_servers s) (senders ipString parse ip (vn_sent s)))"

lemma senders_snoc:
  "senders ipString parse ip (sent @ [(c, data)])
     = senders ipString parse ip sent @ (if data \<noteq> [] \<and> (case parse data of None \<Rightarrow> False | Some (src, dst) \<Rightarrow> ipString src = ip) then [c] else [])"
  by (simp add: senders_def)

lemma set_senders: "set (senders ipString parse ip sent) \<subseteq> fst ` set sent"
  by (auto simp: senders_def)

lemma server_message_sources:
  assumes "c \<in> live" and "\<forall>ip. map_of r ip = last_live live (senders ipString parse ip sent)"
  shows "map_of (snd (server_message ipString parse c data r)) ip = last_live live (senders ipString parse ip (sent @ [(c, data)]))"
  using assms by (cases "parse data") (auto simp: server_message_def registerSrcIP_def senders_snoc last_live_def)

lemma cleanup_sources:
  assumes "distinct (map fst r)" and "\<forall>ip. map_of r ip = last_live live (senders ipString parse ip sent)"
  shows "map_of (cleanupConnIPs c r) ip = last_live (live - {c}) (senders ipString parse ip sent)"
  using assms(2) by (simp add: cleanupConnIPs_def map_of_filter_distinct [OF assms(1)] last_live_def)

lemma vn_step_src_inv: "vn_step ipString parse s s' \<Longrightarrow> src_inv ipString parse s \<Longrightarrow> vn_inv s \<Longrightarrow> src_inv ipString parse s'"
proof (induction rule: vn_step.induct)
  case (StartServerConnReadLoop conn s)
  have "last_live (insert conn (vn_servers s)) (senders ipString parse ip (vn_sent s)) = last_live (vn_servers s) (senders ipString parse ip (vn_sent s))" for ip
  proof (cases "senders ipString parse ip (vn_sent s) = []")
    case False
    then have "last (senders ipString parse ip (vn_sent s)) \<in> vn_used s"
      using subsetD [OF set_senders last_in_set [OF False]] StartServerConnReadLoop.prems(1) unfolding src_inv_def by blast
    then show ?thesis using StartServerConnReadLoop.hyps by (auto simp: last_live_def)
  qed (simp add: last_live_def)
  then show ?case using StartServerConnReadLoop by (auto simp: src_inv_def sources_of_def)
next
  case (server_reads conn s data)
  have "distinct (map fst (snd (server_message ipString parse conn data (sources_of s))))"
    using server_reads by (auto simp: src_inv_def server_message_def registerSrcIP_def distinct_map_put split: option.splits)
  moreover have "conn \<in> vn_used s" using server_reads by (auto simp: vn_inv_def)
  ultimately show ?case using server_reads server_message_sources [of conn "vn_servers s" "sources_of s" ipString parse "vn_sent s" data]
    by (auto simp: src_inv_def sources_of_def)
next
  case (server_ends conn s)
  then show ?case using cleanup_sources [of "sources_of s" "vn_servers s" ipString parse "vn_sent s" conn]
    by (simp add: src_inv_def sources_of_def cleanupConnIPs_def distinct_map_filter)
qed (auto simp: src_inv_def sources_of_def)

lemma vn_reach_src_inv: "vn_reach ipString parse s \<Longrightarrow> src_inv ipString parse s"
proof (induction rule: vn_reach.induct)
  case (step s s')
  then show ?case using vn_reach_inv by (blast intro: vn_step_src_inv)
qed (simp add: src_inv_def NewController_vnet_def sources_of_def senders_def last_live_def)

text \<open>Why a connection may get a packet: it was registered for a net that contains the destination, or has sent a packet from that address.\<close>

definition entitled :: "(byte list \<Rightarrow> string) \<Rightarrow> (byte list \<Rightarrow> (byte list \<times> byte list) option) \<Rightarrow> 'c vnet \<Rightarrow> 'c \<Rightarrow> byte list \<Rightarrow> bool" where
  "entitled ipString parse s conn dst \<longleftrightarrow>
     (\<exists>routes. (conn, routes) \<in> vn_registered s \<and> list_ex (\<lambda>route. Contains route dst) routes)
   \<or> (\<exists>data src to. (conn, data) \<in> set (vn_sent s) \<and> parse data = Some (src, to) \<and> ipString src = ipString dst)"

fun tun_ok :: "(byte list \<Rightarrow> string) \<Rightarrow> (byte list \<Rightarrow> (byte list \<times> byte list) option) \<Rightarrow> 'c vnet \<Rightarrow> 'c tun_phase \<Rightarrow> bool" where
  "tun_ok ipString parse s TunIdle = True"
| "tun_ok ipString parse s (NoClientRoute dst buf) = (\<exists>src. parse buf = Some (src, dst))"
| "tun_ok ipString parse s (Target conn buf) = (\<exists>src dst. parse buf = Some (src, dst) \<and> entitled ipString parse s conn dst)"

definition out_inv :: "(byte list \<Rightarrow> string) \<Rightarrow> (byte list \<Rightarrow> (byte list \<times> byte list) option) \<Rightarrow> 'c vnet \<Rightarrow> bool" where
  "out_inv ipString parse s \<longleftrightarrow>
     (\<forall>n re. (n, re) \<in> set (routes_of s) \<longrightarrow> (re_conn re, re_routes re) \<in> vn_registered s)
   \<and> tun_ok ipString parse s (vn_tun s)
   \<and> (\<forall>conn out. (conn, out) \<in> set (vn_out s) \<longrightarrow> (\<exists>buf src dst. parse buf = Some (src, dst) \<and> WriteMessage buf = ok out \<and> entitled ipString parse s conn dst))"

lemma entitled_mono:
  "entitled ipString parse s conn dst \<Longrightarrow> vn_registered s \<subseteq> vn_registered s' \<Longrightarrow> set (vn_sent s) \<subseteq> set (vn_sent s') \<Longrightarrow> entitled ipString parse s' conn dst"
  by (auto simp: entitled_def)

lemma out_inv_keep:
  assumes "out_inv ipString parse s" and "vn_registered s \<subseteq> vn_registered s'" and "set (vn_sent s) \<subseteq> set (vn_sent s')"
    and "vn_tun s' = vn_tun s" and "vn_out s' = vn_out s"
    and "\<And>n re. (n, re) \<in> set (routes_of s') \<Longrightarrow> (re_conn re, re_routes re) \<in> vn_registered s'"
  shows "out_inv ipString parse s'"
proof -
  have "tun_ok ipString parse s' t" if "tun_ok ipString parse s t" for t
    using that entitled_mono [OF _ assms(2,3)] by (cases t) auto
  moreover have "\<exists>buf src dst. parse buf = Some (src, dst) \<and> WriteMessage buf = ok out \<and> entitled ipString parse s' conn dst" if w: "(conn, out) \<in> set (vn_out s')" for conn out
  proof -
    obtain buf src dst where "parse buf = Some (src, dst)" "WriteMessage buf = ok out" "entitled ipString parse s conn dst"
      using assms(1) w unfolding out_inv_def assms(5) by blast
    then show ?thesis using entitled_mono [OF _ assms(2,3)] by blast
  qed
  ultimately show ?thesis using assms(1,4,6) by (simp add: out_inv_def)
qed

lemma out_inv_tun:
  assumes "out_inv ipString parse s" and "tun_ok ipString parse s t"
    and "\<And>conn out. (conn, out) \<in> set ws \<Longrightarrow> \<exists>buf src dst. parse buf = Some (src, dst) \<and> WriteMessage buf = ok out \<and> entitled ipString parse s conn dst"
  shows "out_inv ipString parse (s\<lparr>vn_tun := t, vn_out := vn_out s @ ws\<rparr>)"
proof -
  have e: "entitled ipString parse (s\<lparr>vn_tun := t, vn_out := x\<rparr>) conn dst = entitled ipString parse s conn dst" for x conn dst
    by (simp add: entitled_def)
  then have "tun_ok ipString parse (s\<lparr>vn_tun := t, vn_out := x\<rparr>) t = tun_ok ipString parse s t" for x by (cases t) simp_all
  then show ?thesis using assms by (auto simp: out_inv_def e routes_of_def)
qed

lemma out_inv_routes: "out_inv ipString parse s \<Longrightarrow> (n, re) \<in> set (routes_of s) \<Longrightarrow> (re_conn re, re_routes re) \<in> vn_registered s"
  by (simp add: out_inv_def)

lemma vn_step_out_inv: "vn_step ipString parse s s' \<Longrightarrow> out_inv ipString parse s \<Longrightarrow> src_inv ipString parse s \<Longrightarrow> out_inv ipString parse s'"
proof (induction rule: vn_step.induct)
  case (RegisterClientRoute conn s routes name)
  let ?x = "\<lparr>re_name = name, re_routes = routes, re_conn = conn\<rparr>"
  have "(re_conn re, re_routes re) \<in> insert (conn, routes) (vn_registered s)" if "(n, re) \<in> set (map_put name ?x (routes_of s))" for n re
    using subsetD [OF set_map_put that] out_inv_routes [OF RegisterClientRoute.prems(1)] by auto
  then show ?case by (intro out_inv_keep [OF RegisterClientRoute.prems(1)]) (auto simp: routes_of_def addRoute_def)
next
  case (UnregisterClientRoute s name)
  then show ?case using out_inv_routes [OF UnregisterClientRoute.prems(1)]
    by (intro out_inv_keep [OF UnregisterClientRoute.prems(1)]) (auto simp: routes_of_def delRoute_def map_delete_def)
next
  case (client_ends conn s)
  have "set (removeConnRoute conn r) \<subseteq> set r" for r by (induction conn r rule: removeConnRoute.induct) auto
  then show ?case using out_inv_routes [OF client_ends.prems(1)] by (intro out_inv_keep [OF client_ends.prems(1)]) (auto simp: routes_of_def)
next
  case (device_reads s r buf)
  have "entitled ipString parse s conn dst" if "findConn dst r = Some conn" for dst conn
    using findConn_Some [OF that] device_reads.hyps(2) out_inv_routes [OF device_reads.prems(1)] by (auto simp: entitled_def routes_of_def)
  then have "tun_ok ipString parse s (handlePacket parse buf r)"
    by (auto simp: handlePacket_def split: option.split)
  then show ?case using out_inv_tun [OF device_reads.prems(1), of "handlePacket parse buf r" "[]"] by simp
next
  case (device_sources s dst buf)
  have "entitled ipString parse s conn dst" if f: "findConnBySrc ipString dst (sources_of s) = Some conn" for conn
  proof -
    have "last_live (vn_servers s) (senders ipString parse (ipString dst) (vn_sent s)) = Some conn"
      using f device_sources.prems by (simp add: src_inv_def findConnBySrc_def)
    then have "conn \<in> set (senders ipString parse (ipString dst) (vn_sent s))" by (auto simp: last_live_def split: if_splits)
    then have "\<exists>data src to. (conn, data) \<in> set (vn_sent s) \<and> parse data = Some (src, to) \<and> ipString src = ipString dst"
      by (auto simp: senders_def split: option.splits)
    then show ?thesis by (simp add: entitled_def)
  qed
  moreover have "\<exists>src. parse buf = Some (src, dst)" using device_sources by (simp add: out_inv_def)
  ultimately have "tun_ok ipString parse s (handlePacket_source ipString dst buf (sources_of s))"
    by (auto simp: handlePacket_source_def split: option.split)
  then show ?case using out_inv_tun [OF device_sources.prems(1), of "handlePacket_source ipString dst buf (sources_of s)" "[]"] by (simp add: sources_of_def)
next
  case (device_writes s conn buf)
  then obtain src dst where "parse buf = Some (src, dst)" "entitled ipString parse s conn dst" by (auto simp: out_inv_def)
  then show ?case by (intro out_inv_tun [OF device_writes.prems(1)]) (auto simp: handlePacket_write_def split: if_splits sum.splits)
next
  case (StartServerConnReadLoop conn s)
  then show ?case using out_inv_routes [OF StartServerConnReadLoop.prems(1)] by (intro out_inv_keep [OF StartServerConnReadLoop.prems(1)]) (auto simp: routes_of_def)
next
  case (server_reads conn s data)
  then show ?case using out_inv_routes [OF server_reads.prems(1)] by (intro out_inv_keep [OF server_reads.prems(1)]) (auto simp: routes_of_def)
next
  case (server_ends conn s)
  then show ?case using out_inv_routes [OF server_ends.prems(1)] by (intro out_inv_keep [OF server_ends.prems(1)]) (auto simp: routes_of_def)
next
  case (conn_closed conn s)
  then show ?case using out_inv_routes [OF conn_closed.prems(1)] by (intro out_inv_keep [OF conn_closed.prems(1)]) (auto simp: routes_of_def)
qed

lemma vn_reach_out_inv: "vn_reach ipString parse s \<Longrightarrow> out_inv ipString parse s"
proof (induction rule: vn_reach.induct)
  case (step s s')
  then show ?case using vn_reach_src_inv by (blast intro: vn_step_out_inv)
qed (simp add: out_inv_def NewController_vnet_def routes_of_def)

text \<open>C24. In every state of the controller, a search among the routes finds a connection whose read loop runs and that is registered for a net with the destination, and the search
  among the sources finds the connection that was the last to send a packet from that address, if its read loop still runs, and nothing otherwise. What was written to a connection is a packet whose
  destination is in a net the connection was registered for, or is an address it has sent a packet from.\<close>

theorem packets_to_live_conns:
  assumes "vn_reach ipString parse s"
  shows "(\<forall>r dst conn. set r = set (routes_of s) \<longrightarrow> findConn dst r = Some conn \<longrightarrow>
        conn \<in> vn_clients s \<and> (\<exists>n re. (n, re) \<in> set (routes_of s) \<and> re_conn re = conn \<and> list_ex (\<lambda>route. Contains route dst) (re_routes re)))
    \<and> (\<forall>dst. findConnBySrc ipString dst (sources_of s) = last_live (vn_servers s) (senders ipString parse (ipString dst) (vn_sent s)))
    \<and> (\<forall>conn out. (conn, out) \<in> set (vn_out s) \<longrightarrow> (\<exists>buf src dst. parse buf = Some (src, dst) \<and> WriteMessage buf = ok out \<and> entitled ipString parse s conn dst))"
proof -
  have "conn \<in> vn_clients s \<and> (\<exists>n re. (n, re) \<in> set (routes_of s) \<and> re_conn re = conn \<and> list_ex (\<lambda>route. Contains route dst) (re_routes re))"
    if "set r = set (routes_of s)" "findConn dst r = Some conn" for r dst conn
    using findConn_Some [OF that(2)] that(1) vn_reach_inv [OF assms] by (fastforce simp: vn_inv_def conns_mem)
  then show ?thesis using vn_reach_src_inv [OF assms] vn_reach_out_inv [OF assms] by (simp add: src_inv_def out_inv_def findConnBySrc_def)
qed

text \<open>A connection that ends between the search and the write loses the packet.\<close>

lemma write_after_close: "conn \<in> closed \<Longrightarrow> handlePacket_write closed conn buf = []"
  by (simp add: handlePacket_write_def)

definition demo_net :: IPNet where
  "demo_net = \<lparr>in_IP = [10, 0, 0, 0], in_Mask = [255, 0, 0, 0]\<rparr>"

theorem packets_to_live_conns_witness:
  "\<exists>s. vn_reach (\<lambda>_. ''a'') (\<lambda>buf. Some ([10, 0, 0, 1], [10, 0, 0, 2])) s \<and> (7 :: nat, [1, 0, 0, 0, 69]) \<in> set (vn_out s)
     \<and> entitled (\<lambda>_. ''a'') (\<lambda>buf. Some ([10, 0, 0, 1], [10, 0, 0, 2])) s 7 [10, 0, 0, 2]"
proof -
  let ?ip = "\<lambda>_. ''a''" and ?parse = "\<lambda>buf. Some ([10, 0, 0, 1], [10, 0, 0, 2])" and ?s0 = "NewController_vnet :: nat vnet"
  let ?s1 = "?s0\<lparr>vn_ctl := on_clients (addRoute ''v'' [demo_net] 7) (vn_ctl ?s0), vn_clients := insert 7 (vn_clients ?s0), vn_used := insert 7 (vn_used ?s0),
    vn_registered := insert (7, [demo_net]) (vn_registered ?s0)\<rparr>"
  let ?s2 = "?s1\<lparr>vn_tun := handlePacket ?parse [69] (vn_clientRouter (vn_ctl ?s1))\<rparr>"
  let ?s3 = "?s2\<lparr>vn_tun := TunIdle, vn_out := vn_out ?s2 @ handlePacket_write (vn_closed ?s2) 7 [69]\<rparr>"
  have "vn_step ?ip ?parse ?s0 ?s1" by (rule vn_step.RegisterClientRoute) (simp add: NewController_vnet_def)
  then have r1: "vn_reach ?ip ?parse ?s1" using vn_reach.new by (rule vn_reach.step [rotated])
  have "vn_step ?ip ?parse ?s1 ?s2" by (rule vn_step.device_reads) (simp_all add: NewController_vnet_def)
  then have r2: "vn_reach ?ip ?parse ?s2" using r1 by (rule vn_reach.step [rotated])
  have "vn_tun ?s2 = Target 7 [69]"
    by (simp add: handlePacket_def NewController_vnet_def addRoute_def demo_net_def Contains_def networkNumberAndMask_def To4_def Let_def)
  then have "vn_step ?ip ?parse ?s2 ?s3" by (rule vn_step.device_writes)
  then have r3: "vn_reach ?ip ?parse ?s3" using r2 by (rule vn_reach.step [rotated])
  have o: "(7, [1, 0, 0, 0, 69]) \<in> set (vn_out ?s3)"
    by (simp add: handlePacket_write_def NewController_vnet_def) code_simp
  from packets_to_live_conns [OF r3] o have "entitled ?ip ?parse ?s3 7 [10, 0, 0, 2]" by auto
  then show ?thesis using r3 o by blast
qed

text \<open>The end of a connection does not take away the route of the connection that has replaced it.\<close>

lemma removeConnRoute_absent: "conn \<notin> set (conns r) \<Longrightarrow> removeConnRoute conn r = r"
  by (induction conn r rule: removeConnRoute.induct) auto

lemma map_put_replaces_conn:
  "distinct (conns r) \<Longrightarrow> map_of r name = Some re \<Longrightarrow> re_conn x \<noteq> re_conn re \<Longrightarrow> re_conn re \<notin> set (conns (map_put name x r))"
proof (induction r)
  case (Cons a r)
  obtain k e where a: "a = (k, e)" by (cases a)
  show ?case
  proof (cases "k = name")
    case False
    then have m: "map_of r name = Some re" using Cons.prems a by simp
    then have "re_conn re \<in> set (conns r)" by (auto simp: conns_mem dest!: map_of_SomeD)
    then show ?thesis using Cons m a False by auto
  qed (use Cons.prems a in auto)
qed simp

lemma reconnect_keeps_route:
  assumes "vn_reach ipString parse s" and "map_of (routes_of s) name = Some re" and "conn \<notin> vn_used s"
  shows "map_of (removeConnRoute (re_conn re) (addRoute name routes conn (routes_of s))) name
    = Some \<lparr>re_name = name, re_routes = routes, re_conn = conn\<rparr>"
proof -
  have I: "vn_inv s" using assms(1) by (rule vn_reach_inv)
  have "re_conn re \<in> set (conns (routes_of s))" using assms(2) by (auto simp: conns_mem dest!: map_of_SomeD)
  then have "conn \<noteq> re_conn re" using I assms(3) by (auto simp: vn_inv_def)
  then show ?thesis using map_put_replaces_conn [OF _ assms(2), of "\<lparr>re_name = name, re_routes = routes, re_conn = conn\<rparr>"] I
    by (simp add: addRoute_def removeConnRoute_absent vn_inv_def)
qed

text \<open>Routes that overlap: which connection gets a packet depends on the order in which the map is
  iterated, which Go leaves open; the longest match is not preferred.\<close>

theorem overlapping_routes:
  fixes wide narrow :: "nat routeElement"
  defines "wide \<equiv> \<lparr>re_name = ''wide'', re_routes = [\<lparr>in_IP = [10, 0, 0, 0], in_Mask = [255, 0, 0, 0]\<rparr>], re_conn = 1\<rparr>"
    and "narrow \<equiv> \<lparr>re_name = ''narrow'', re_routes = [\<lparr>in_IP = [10, 1, 0, 0], in_Mask = [255, 255, 0, 0]\<rparr>], re_conn = 2\<rparr>"
  shows "findConn [10, 1, 2, 3] [(''wide'', wide), (''narrow'', narrow)] = Some 1
    \<and> findConn [10, 1, 2, 3] [(''narrow'', narrow), (''wide'', wide)] = Some 2"
  by (simp add: wide_def narrow_def Contains_def networkNumberAndMask_def To4_def Let_def)

section \<open>Reconnecting\<close>

text \<open>The delay before the visitor plugin reconnects, in nanoseconds: \<^verbatim>\<open>time.Duration\<close> has 64 bits, and so have the shift and the
  product.\<close>

definition int64 :: "int \<Rightarrow> int" where
  "int64 x = sint (word_of_int x :: 64 word)"

definition second64 :: int where
  "second64 = 10 ^ 9"

definition error_delay :: "nat \<Rightarrow> int" where
  "error_delay consecutiveErrors =
     min (int64 (60 * second64 * int64 (push_bit (consecutiveErrors - 1) 1))) (300 * second64)"

text \<open>What the loop does when a connection has been closed: the new count of errors and the delay.\<close>

definition reconnect :: "bool \<Rightarrow> nat \<Rightarrow> nat \<times> int" where
  "reconnect closeErr consecutiveErrors =
     (if closeErr then (consecutiveErrors + 1, error_delay (consecutiveErrors + 1)) else (0, 10 * second64))"

lemma int64_id: "- (2 ^ 63) \<le> x \<Longrightarrow> x < 2 ^ 63 \<Longrightarrow> int64 x = x"
  by (simp add: int64_def sint_sbintrunc' signed_take_bit_int_eq_self)

lemma int64_dvd: "2 ^ 64 dvd x \<Longrightarrow> int64 x = 0"
proof -
  assume "2 ^ 64 dvd x"
  then have "(word_of_int x :: 64 word) = 0" by (simp add: word_of_int_eq_0_iff)
  then show ?thesis by (simp add: int64_def)
qed

lemma int64_cong: "2 ^ 64 dvd int64 x - x"
proof -
  have "word_of_int (int64 x) = (word_of_int x :: 64 word)" by (simp add: int64_def)
  then have "take_bit 64 (int64 x) = take_bit 64 x" by (simp add: word_of_int_eq_iff)
  then show ?thesis by (simp add: take_bit_eq_mod mod_eq_dvd_iff)
qed

text \<open>The delay doubles from one minute and is capped at five minutes, but only for the first \<open>28\<close> errors in a row. The
  next product is too large for 64 bits: the delay is negative, which means none, and from the \<open>54\<close>th error on the product is
  zero, so that the plugin reconnects without any delay.\<close>

theorem error_delay_overflows:
  "(if 1 \<le> n \<and> n \<le> 28 then error_delay n = min (60 * 2 ^ (n - 1)) 300 * second64
    else if n = 29 then error_delay n < 0
    else if 54 \<le> n then error_delay n = 0
    else error_delay n \<le> 300 * second64)"
proof -
  have small: "error_delay n = min (60 * 2 ^ (n - 1)) 300 * second64" if "1 \<le> n" "n \<le> 28"
  proof -
    have "(2::int) ^ (n - 1) \<le> 2 ^ 27" using that by (intro power_increasing) auto
    then have p: "(2::int) ^ (n - 1) \<le> 134217728" by simp
    define x where "x = (2::int) ^ (n - 1)"
    have "0 < x" "x \<le> 134217728" using p by (simp_all add: x_def)
    then have "int64 x = x" "int64 (60 * second64 * x) = 60 * second64 * x" by (simp_all add: int64_id second64_def)
    then have "int64 (2 ^ (n - 1)) = 2 ^ (n - 1)" "int64 (60 * second64 * 2 ^ (n - 1)) = 60 * second64 * 2 ^ (n - 1)" by (simp_all add: x_def)
    then show ?thesis by (simp add: error_delay_def push_bit_eq_mult second64_def min_def)
  qed
  have wrap: "error_delay 29 < 0"
    by (simp add: error_delay_def push_bit_eq_mult int64_def second64_def)
  have zero: "error_delay n = 0" if "54 \<le> n"
  proof -
    have "(2::int) ^ 53 dvd 2 ^ (n - 1)" using that by (intro le_imp_power_dvd) auto
    moreover have "(2::int) ^ 53 dvd int64 (2 ^ (n - 1)) - 2 ^ (n - 1)"
      using int64_cong [of "2 ^ (n - 1)"] by (rule dvd_trans [rotated]) (simp add: le_imp_power_dvd)
    ultimately have "2 ^ 53 dvd int64 (2 ^ (n - 1))" by (metis dvd_add diff_add_cancel)
    then have "2 ^ 11 * 2 ^ 53 dvd (60 * second64) * int64 (2 ^ (n - 1))" by (intro mult_dvd_mono) (simp_all add: second64_def)
    then have "int64 (60 * second64 * int64 (push_bit (n - 1) 1)) = 0" by (intro int64_dvd) (simp add: push_bit_eq_mult)
    then show ?thesis by (simp add: error_delay_def second64_def)
  qed
  have "error_delay n \<le> 300 * second64" by (simp add: error_delay_def)
  then show ?thesis using small wrap zero by auto
qed

end
