(* ===== verification/Rate_Limit.thy ===== *)
theory Rate_Limit
  imports Proxy_Config
begin

text \<open>
  Reading and writing at a limited rate: \<^verbatim>\<open>pkg/util/limit/reader.go\<close> and \<^verbatim>\<open>writer.go\<close>. The limiter is third-party code with a burst
  \<open>b\<close>; waiting for more than the burst is an error, waiting for less may fail for other reasons. The stream
  underneath is a parameter too. The loop of the writer is a partial function with value \<open>None\<close> if it does not return.
\<close>

section \<open>The limiter of a proxy\<close>

text \<open>\<open>NewProxy\<close> of \<^verbatim>\<open>client/proxy/proxy.go\<close> and of \<^verbatim>\<open>server/proxy/proxy.go\<close>: the burst of the limiter, if there is one.\<close>

definition client_limiter :: "'a ProxyBaseConfig_scheme \<Rightarrow> nat option" where
  "client_limiter c =
     (let limitBytes = bq_Bytes (pt_BandwidthLimit (pb_Transport c)) in
      if limitBytes > 0 \<and> pt_BandwidthLimitMode (pb_Transport c) = ''client'' then Some (nat limitBytes) else None)"

definition server_limiter :: "'a ProxyBaseConfig_scheme \<Rightarrow> nat option" where
  "server_limiter c =
     (let limitBytes = bq_Bytes (pt_BandwidthLimit (pb_Transport c)) in
      if limitBytes > 0 \<and> pt_BandwidthLimitMode (pb_Transport c) = ''server'' then Some (nat limitBytes) else None)"

lemma limiter_once: "client_limiter c = None \<or> server_limiter c = None"
  by (simp add: client_limiter_def server_limiter_def Let_def)

lemma limiter_positive: "client_limiter c = Some b \<or> server_limiter c = Some b \<Longrightarrow> 0 < b"
  by (auto simp: client_limiter_def server_limiter_def Let_def split: if_splits)

section \<open>The reader\<close>

text \<open>\<open>read k\<close> is what one read of at most \<open>k\<close> bytes returns, \<open>Inl\<close> for an error after some bytes. The result has the bytes, the
  number that was waited for, if any, and whether there was an error.\<close>

definition limit_Read :: "nat \<Rightarrow> (nat \<Rightarrow> bool) \<Rightarrow> (nat \<Rightarrow> ('a list + 'a list)) \<Rightarrow> nat \<Rightarrow> 'a list \<times> nat option \<times> bool" where
  "limit_Read b wait read len =
     (let k = (if b < len then b else len) in
      case read k of
        Inl bs \<Rightarrow> (bs, None, True)
      | Inr bs \<Rightarrow> (bs, Some (length bs), \<not> wait (length bs)))"

section \<open>The writer\<close>

text \<open>What happens in one round of the loop: whether the limiter lets pass, and whether the write fails, after so many
  bytes. A write without error has written everything, as \<^verbatim>\<open>io.Writer\<close> demands.\<close>

record write_round =
  wr_wait :: bool
  wr_fail :: "nat option"

text \<open>\<open>env i\<close> is round \<open>i\<close>. The result has what was written in each round, the numbers waited for, and whether there was
  an error.\<close>

partial_function (option) write_loop ::
  "nat \<Rightarrow> (nat \<Rightarrow> write_round) \<Rightarrow> nat \<Rightarrow> 'a list \<Rightarrow> ('a list list \<times> nat list \<times> bool) option" where
  "write_loop b env i p =
     (if p = [] then Some ([], [], False)
      else
        let e = (if b < length p then b else length p) in
        if \<not> wr_wait (env i) then Some ([], [e], True)
        else (case wr_fail (env i) of
                Some k \<Rightarrow> Some ([take k (take e p)], [e], True)
              | None \<Rightarrow> Option.bind (write_loop b env (i + 1) (drop e p)) (\<lambda>(ws, ns, failed). Some (take e p # ws, e # ns, failed))))"

definition limit_Write :: "nat \<Rightarrow> (nat \<Rightarrow> write_round) \<Rightarrow> 'a list \<Rightarrow> ('a list list \<times> nat list \<times> bool) option" where
  "limit_Write b env p = write_loop b env 0 p"

section \<open>Properties\<close>

lemma write_loop_returns:
  assumes "0 < b"
  shows "\<exists>ws ns failed. write_loop b env i p = Some (ws, ns, failed) \<and> prefix (concat ws) p \<and> (\<not> failed \<longrightarrow> concat ws = p)
    \<and> list_all (\<lambda>n. 0 < n \<and> n \<le> b) ns \<and> length ws \<le> length ns"
proof (induction "length p" arbitrary: i p rule: less_induct)
  case less
  show ?case
  proof (cases "p = []")
    case True
    then have "write_loop b env i p = Some ([], [], False)" by (subst write_loop.simps) simp
    then show ?thesis using True by (intro exI [of _ "[]"] exI [of _ False]) simp
  next
    case False
    let ?e = "if b < length p then b else length p"
    have e: "0 < ?e" "?e \<le> b" using assms False by auto
    show ?thesis
    proof (cases "wr_wait (env i) \<and> wr_fail (env i) = None")
      case True
      have "length (drop ?e p) < length p" using e False by auto
      from less [OF this, of "i + 1"] obtain ws ns failed where r: "write_loop b env (i + 1) (drop ?e p) = Some (ws, ns, failed)"
          "prefix (concat ws) (drop ?e p)" "\<not> failed \<longrightarrow> concat ws = drop ?e p" "list_all (\<lambda>n. 0 < n \<and> n \<le> b) ns" "length ws \<le> length ns"
        by blast
      have w: "write_loop b env i p = Some (take ?e p # ws, ?e # ns, failed)"
        using False True r(1) by (subst write_loop.simps) (simp add: Let_def)
      have "prefix (take ?e p @ concat ws) (take ?e p @ drop ?e p)" using r(2) by (simp only: same_prefix_prefix)
      then have "prefix (take ?e p @ concat ws) p" by (simp only: append_take_drop_id)
      moreover have "\<not> failed \<longrightarrow> take ?e p @ concat ws = p" using r(3) append_take_drop_id [of ?e p] by metis
      ultimately show ?thesis using w r(4,5) e by (intro exI [of _ "take ?e p # ws"] exI [of _ "?e # ns"] exI [of _ failed]) simp
    next
      case F: False
      then consider "\<not> wr_wait (env i)" | k where "wr_wait (env i)" "wr_fail (env i) = Some k" by auto
      then show ?thesis
      proof cases
        case 1
        then have "write_loop b env i p = Some ([], [?e], True)" using False by (subst write_loop.simps) (simp add: Let_def)
        then show ?thesis using e by (intro exI [of _ "[]"] exI [of _ "[?e]"] exI [of _ True]) simp
      next
        case 2
        have "prefix (take k (take ?e p)) p" using take_is_prefix prefix_order.trans by blast
        moreover have "write_loop b env i p = Some ([take k (take ?e p)], [?e], True)" using False 2 by (subst write_loop.simps) (simp add: Let_def)
        ultimately show ?thesis using e by (intro exI [of _ "[take k (take ?e p)]"] exI [of _ "[?e]"] exI [of _ True]) simp
      qed
    qed
  qed
qed

text \<open>C26. With the limiter of a proxy, of which there is at most one on the two sides, a write always returns. It has written the given bytes in their order, all of them unless there was
  an error, and neither it nor a read ever waits for more than the burst, which would fail.\<close>

theorem limited_io:
  assumes "client_limiter c = Some b \<or> server_limiter c = Some b"
  shows "(client_limiter c = None \<or> server_limiter c = None)
    \<and> (\<exists>ws ns failed. limit_Write b env p = Some (ws, ns, failed) \<and> prefix (concat ws) p \<and> (failed \<or> concat ws = p)
      \<and> list_all (\<lambda>n. 0 < n \<and> n \<le> b) ns)
    \<and> (\<forall>bs n failed. (\<forall>k x. read k = Inr x \<longrightarrow> length x \<le> k) \<and> limit_Read b wait read len = (bs, Some n, failed) \<longrightarrow> n \<le> b \<and> n \<le> len \<and> n = length bs)"
proof (intro conjI)
  show "client_limiter c = None \<or> server_limiter c = None" by (rule limiter_once)
  show "\<exists>ws ns failed. limit_Write b env p = Some (ws, ns, failed) \<and> prefix (concat ws) p \<and> (failed \<or> concat ws = p) \<and> list_all (\<lambda>n. 0 < n \<and> n \<le> b) ns"
    using write_loop_returns [OF limiter_positive [OF assms], of env 0 p] unfolding limit_Write_def by blast
  show "\<forall>bs n failed. (\<forall>k x. read k = Inr x \<longrightarrow> length x \<le> k) \<and> limit_Read b wait read len = (bs, Some n, failed) \<longrightarrow> n \<le> b \<and> n \<le> len \<and> n = length bs"
    by (fastforce simp: limit_Read_def Let_def split: sum.splits if_splits)
qed

lemma write_loop_endless:
  assumes "write_loop b env i p = Some y"
  shows "b = 0 \<longrightarrow> (\<forall>j. wr_wait (env j) \<and> wr_fail (env j) = None) \<longrightarrow> p = []"
proof (rule write_loop.raw_induct [OF _ assms, where P = "\<lambda>b env i p y. b = 0 \<longrightarrow> (\<forall>j. wr_wait (env j) \<and> wr_fail (env j) = None) \<longrightarrow> p = []"], intro impI)
  fix f :: "nat \<Rightarrow> (nat \<Rightarrow> write_round) \<Rightarrow> nat \<Rightarrow> 'a list \<Rightarrow> ('a list list \<times> nat list \<times> bool) option" and b env i p y
  assume IH: "\<And>b env i p y. f b env i p = Some y \<Longrightarrow> b = 0 \<longrightarrow> (\<forall>j. wr_wait (env j) \<and> wr_fail (env j) = None) \<longrightarrow> p = []"
    and run: "(if p = [] then Some ([], [], False)
      else let e = (if b < length p then b else length p) in
        if \<not> wr_wait (env i) then Some ([], [e], True)
        else (case wr_fail (env i) of Some k \<Rightarrow> Some ([take k (take e p)], [e], True)
              | None \<Rightarrow> Option.bind (f b env (i + 1) (drop e p)) (\<lambda>(ws, ns, failed). Some (take e p # ws, e # ns, failed)))) = Some y"
    and b: "b = 0" and env: "\<forall>j. wr_wait (env j) \<and> wr_fail (env j) = None"
  show "p = []"
  proof (rule ccontr)
    assume "p \<noteq> []"
    then obtain z where "f b env (i + 1) p = Some z" using run b env by (auto simp: Let_def Option.bind_eq_Some_conv)
    from IH [OF this] b env \<open>p \<noteq> []\<close> show False by simp
  qed
qed

text \<open>With a burst of zero the writer would never return as long as nothing fails: it writes nothing, again and again.\<close>

theorem write_zero_burst:
  assumes "\<And>i. wr_wait (env i) \<and> wr_fail (env i) = None" and "p \<noteq> []"
  shows "limit_Write 0 env p = None"
  using write_loop_endless [of 0 env 0 p] assms by (cases "limit_Write 0 env p") (auto simp: limit_Write_def)

theorem limited_io_witness:
  "\<exists>ws ns failed. limit_Write 4 (\<lambda>i. \<lparr>wr_wait = True, wr_fail = None\<rparr>) ''abcdefghij'' = Some (ws, ns, failed) \<and> prefix (concat ws) ''abcdefghij''
     \<and> list_all (\<lambda>n. 0 < n \<and> n \<le> 4) ns"
proof -
  let ?c = "zero_base\<lparr>pb_Transport := (pb_Transport zero_base)\<lparr>pt_BandwidthLimit := \<lparr>bq_s = [], bq_i = 4\<rparr>, pt_BandwidthLimitMode := ''server''\<rparr>\<rparr>"
  have "client_limiter ?c = Some 4 \<or> server_limiter ?c = Some 4" by (simp add: server_limiter_def zero_base_def bq_Bytes_def)
  from limited_io [OF this] show ?thesis by blast
qed

end
