(* ===== verification/Msg_Transport.thy ===== *)
theory Msg_Transport
  imports Nathole_Controller
begin

text \<open>
  Messages on a control connection: the dispatcher of \<^verbatim>\<open>pkg/msg/handler.go\<close>, the transporter of \<^verbatim>\<open>pkg/transport/message.go\<close>, which hands answers to
  the calls that wait for them, and the two requests of hole punching that use it, \<open>PreCheck\<close> and \<open>ExchangeInfo\<close> of
  \<^verbatim>\<open>pkg/nathole/nathole.go\<close>. Channels are buffers with a capacity; what goroutines do at the same time is a
  sequence of steps.
\<close>

section \<open>The dispatcher\<close>

text \<open>A handler that is registered as asynchronous is called in a new goroutine. \<open>mtype\<close> is the type of a message. The result of
  reading is the sequence of calls; \<open>None\<close> is a message that nothing handles.\<close>

record ('m, 't, 'h) handlers =
  dp_msgHandlers :: "'t \<rightharpoonup> 'h"
  dp_defaultHandler :: "'h option"

definition RegisterHandler :: "('m \<Rightarrow> 't) \<Rightarrow> 'm \<Rightarrow> 'h \<Rightarrow> ('m, 't, 'h) handlers \<Rightarrow> ('m, 't, 'h) handlers" where
  "RegisterHandler mtype m h d = d\<lparr>dp_msgHandlers := (dp_msgHandlers d)(mtype m \<mapsto> h)\<rparr>"

definition RegisterDefaultHandler :: "'h \<Rightarrow> ('m, 't, 'h) handlers \<Rightarrow> ('m, 't, 'h) handlers" where
  "RegisterDefaultHandler h d = d\<lparr>dp_defaultHandler := Some h\<rparr>"

fun readLoop :: "('m \<Rightarrow> 't) \<Rightarrow> ('m, 't, 'h) handlers \<Rightarrow> 'm list \<Rightarrow> ('h \<times> 'm) list" where
  "readLoop mtype d [] = []"
| "readLoop mtype d (m # ms) =
     (case dp_msgHandlers d (mtype m) of
        Some h \<Rightarrow> [(h, m)]
      | None \<Rightarrow> (case dp_defaultHandler d of Some h \<Rightarrow> [(h, m)] | None \<Rightarrow> [])) @ readLoop mtype d ms"

text \<open>The side that sends: the channel of \<open>100\<close> messages, whether reading has failed, whether the loop that sends has
  ended. The ghost components are the messages that \<open>Send\<close> has accepted and those that were written to the connection.\<close>

record 'm sending =
  dp_sendCh :: "'m list"
  dp_done :: bool
  dp_stopped :: bool
  dp_accepted :: "'m list"
  dp_written :: "'m list"

definition NewDispatcher :: "'m sending" where
  "NewDispatcher = \<lparr>dp_sendCh = [], dp_done = False, dp_stopped = False, dp_accepted = [], dp_written = []\<rparr>"

text \<open>Where both cases of a \<^verbatim>\<open>select\<close> are ready, Go takes any.\<close>

inductive dp_step :: "'m sending \<Rightarrow> 'm sending \<Rightarrow> bool" where
  Send_ok: "length (dp_sendCh d) < 100 \<Longrightarrow> dp_step d (d\<lparr>dp_sendCh := dp_sendCh d @ [m], dp_accepted := dp_accepted d @ [m]\<rparr>)"
| Send_EOF: "dp_done d \<Longrightarrow> dp_step d d"
| sendLoop_write: "\<not> dp_stopped d \<Longrightarrow> dp_sendCh d = m # ms \<Longrightarrow> dp_step d (d\<lparr>dp_sendCh := ms, dp_written := dp_written d @ [m]\<rparr>)"
| sendLoop_stop: "dp_done d \<Longrightarrow> dp_step d (d\<lparr>dp_stopped := True\<rparr>)"
| read_failed: "dp_step d (d\<lparr>dp_done := True\<rparr>)"

inductive dp_reach :: "'m sending \<Rightarrow> bool" where
  new: "dp_reach NewDispatcher"
| step: "dp_reach d \<Longrightarrow> dp_step d d' \<Longrightarrow> dp_reach d'"

text \<open>Messages are written in the order in which they were accepted, each once; what is accepted and not yet written is in the
  channel, which holds at most \<open>100\<close>, and if the loop has ended it stays there: \<open>Send\<close> may report success for a message that is
  never sent.\<close>

theorem dispatcher_fifo:
  assumes "dp_reach d"
  shows "dp_written d @ dp_sendCh d = dp_accepted d \<and> length (dp_sendCh d) \<le> 100 \<and> (dp_stopped d \<longrightarrow> dp_done d)"
  using assms
proof (induction rule: dp_reach.induct)
  case (step d d')
  from step(2,1,3) show ?case by (induction rule: dp_step.induct) auto
qed (simp add: NewDispatcher_def)

theorem dispatcher_fifo_witness:
  "\<exists>d. dp_reach d \<and> dp_written d = [1 :: nat] \<and> dp_accepted d = [1, 2] \<and> dp_written d @ dp_sendCh d = dp_accepted d"
proof -
  define d1 where "d1 = NewDispatcher\<lparr>dp_sendCh := dp_sendCh NewDispatcher @ [1 :: nat], dp_accepted := dp_accepted NewDispatcher @ [1]\<rparr>"
  define d2 where "d2 = d1\<lparr>dp_sendCh := [], dp_written := dp_written d1 @ [1]\<rparr>"
  define d3 where "d3 = d2\<lparr>dp_sendCh := dp_sendCh d2 @ [2], dp_accepted := dp_accepted d2 @ [2]\<rparr>"
  have "dp_reach d1" unfolding d1_def by (rule dp_reach.step [OF dp_reach.new dp_step.Send_ok]) (simp add: NewDispatcher_def)
  then have "dp_reach d2" unfolding d2_def by (rule dp_reach.step [OF _ dp_step.sendLoop_write]) (simp_all add: d1_def NewDispatcher_def)
  then have r: "dp_reach d3" unfolding d3_def by (rule dp_reach.step [OF _ dp_step.Send_ok]) (simp add: d1_def d2_def NewDispatcher_def)
  have "dp_written d3 = [1]" "dp_accepted d3 = [1, 2]" by (simp_all add: d1_def d2_def d3_def NewDispatcher_def)
  with dispatcher_fifo [OF r] r show ?thesis by blast
qed

section \<open>The transporter\<close>

text \<open>A call of \<open>Do\<close> registers a channel of capacity one under its message type and lane key, sends its request, and waits for a
  message or for the end of its context. When it leaves, it removes what is registered under its key and then closes the channel.\<close>

datatype 'm call_phase = WaitingCall | LeavingCall "'m option" | ReturnedCall "'m option"

type_synonym lane = "string \<times> string"

record ('k, 'm) transporter =
  tp_registry :: "'k \<rightharpoonup> nat"
  tp_key :: "nat \<Rightarrow> 'k"
  tp_buf :: "nat \<Rightarrow> 'm option"
  tp_phase :: "nat \<Rightarrow> 'm call_phase"
  tp_next :: nat
  tp_found :: "(nat \<times> 'k \<times> 'm) set"
  tp_dispatched :: "('k \<times> 'm \<times> nat) set"

definition NewMessageTransporter :: "(lane, 'm) transporter" where
  "NewMessageTransporter = \<lparr>tp_registry = Map.empty, tp_key = (\<lambda>_. ([], [])), tp_buf = (\<lambda>_. None), tp_phase = (\<lambda>_. WaitingCall), tp_next = 0,
     tp_found = {}, tp_dispatched = {}\<rparr>"

definition registerMsgChan :: "'k \<Rightarrow> ('k, 'm) transporter \<Rightarrow> ('k, 'm) transporter" where
  "registerMsgChan key t =
     t\<lparr>tp_registry := (tp_registry t)(key \<mapsto> tp_next t), tp_key := (tp_key t)(tp_next t := key), tp_buf := (tp_buf t)(tp_next t := None),
       tp_phase := (tp_phase t)(tp_next t := WaitingCall), tp_next := Suc (tp_next t)\<rparr>"

definition unregister :: "nat \<Rightarrow> 'm option \<Rightarrow> ('k, 'm) transporter \<Rightarrow> ('k, 'm) transporter" where
  "unregister i r t = t\<lparr>tp_registry := (tp_registry t)(tp_key t i := None), tp_phase := (tp_phase t)(i := LeavingCall r)\<rparr>"

text \<open>\<open>DispatchWithType\<close> looks up the channel under the lock and sends to it afterwards; \<open>tp_found\<close> has the sends under way (a message is a pointer, so two of them are different), the
  ghost component \<open>tp_dispatched\<close> all messages with the number of calls started before. A send
  to a closed channel panics, which is caught, and the message is dropped; a send to a full one blocks.\<close>

definition DispatchWithType :: "'m \<Rightarrow> 'k \<Rightarrow> ('k, 'm) transporter \<Rightarrow> ('k, 'm) transporter" where
  "DispatchWithType m key t =
     (let t' = t\<lparr>tp_dispatched := insert (key, m, tp_next t) (tp_dispatched t)\<rparr> in
      case tp_registry t key of None \<Rightarrow> t' | Some i \<Rightarrow> t'\<lparr>tp_found := insert (i, key, m) (tp_found t)\<rparr>)"

inductive tp_step :: "('k \<Rightarrow> ('k, 'm) transporter \<Rightarrow> bool) \<Rightarrow> ('k, 'm) transporter \<Rightarrow> ('k, 'm) transporter \<Rightarrow> bool" for may where
  Do_starts: "may key t \<Longrightarrow> tp_step may t (registerMsgChan key t)"
| Do_gives_up: "i < tp_next t \<Longrightarrow> tp_phase t i = WaitingCall \<Longrightarrow> tp_step may t (unregister i None t)"
| Do_receives: "i < tp_next t \<Longrightarrow> tp_phase t i = WaitingCall \<Longrightarrow> tp_buf t i = Some m
    \<Longrightarrow> tp_step may t (unregister i (Some m) (t\<lparr>tp_buf := (tp_buf t)(i := None)\<rparr>))"
| Do_closes: "i < tp_next t \<Longrightarrow> tp_phase t i = LeavingCall r \<Longrightarrow> tp_step may t (t\<lparr>tp_phase := (tp_phase t)(i := ReturnedCall r)\<rparr>)"
| dispatch: "tp_step may t (DispatchWithType m key t)"
| delivers: "(i, key, m) \<in> tp_found t \<Longrightarrow> tp_buf t i = None \<Longrightarrow> \<forall>r. tp_phase t i \<noteq> ReturnedCall r
    \<Longrightarrow> tp_step may t (t\<lparr>tp_buf := (tp_buf t)(i := Some m), tp_found := tp_found t - {(i, key, m)}\<rparr>)"
| drops: "(i, key, m) \<in> tp_found t \<Longrightarrow> tp_phase t i = ReturnedCall r \<Longrightarrow> tp_step may t (t\<lparr>tp_found := tp_found t - {(i, key, m)}\<rparr>)"

inductive tp_reach :: "(lane \<Rightarrow> (lane, 'm) transporter \<Rightarrow> bool) \<Rightarrow> (lane, 'm) transporter \<Rightarrow> bool" for may where
  new: "tp_reach may NewMessageTransporter"
| step: "tp_reach may t \<Longrightarrow> tp_step may t t' \<Longrightarrow> tp_reach may t'"

text \<open>A lane key that no waiting call uses, as those that are drawn at random for each transaction.\<close>

definition fresh_lane :: "'k \<Rightarrow> ('k, 'm) transporter \<Rightarrow> bool" where
  "fresh_lane key t \<longleftrightarrow> (\<forall>i < tp_next t. tp_phase t i = WaitingCall \<longrightarrow> tp_key t i \<noteq> key)"

section \<open>Answers reach the calls that wait for them\<close>

definition got :: "('k, 'm) transporter \<Rightarrow> nat \<Rightarrow> 'm \<Rightarrow> bool" where
  "got t i m \<longleftrightarrow> tp_buf t i = Some m \<or> tp_phase t i = LeavingCall (Some m) \<or> tp_phase t i = ReturnedCall (Some m)"

text \<open>The message was dispatched under the key of call \<open>i\<close>, after the call had started.\<close>

definition answered :: "('k, 'm) transporter \<Rightarrow> nat \<Rightarrow> 'm \<Rightarrow> bool" where
  "answered t i m \<longleftrightarrow> (\<exists>n > i. (tp_key t i, m, n) \<in> tp_dispatched t)"

definition tp_inv :: "('k, 'm) transporter \<Rightarrow> bool" where
  "tp_inv t \<longleftrightarrow> (\<forall>key i. tp_registry t key = Some i \<longrightarrow> i < tp_next t \<and> tp_key t i = key)
     \<and> (\<forall>i key m. (i, key, m) \<in> tp_found t \<longrightarrow> i < tp_next t \<and> tp_key t i = key \<and> answered t i m)
     \<and> (\<forall>i < tp_next t. \<forall>m. got t i m \<longrightarrow> answered t i m)"

lemma tp_inv_keep:
  assumes "tp_inv t" and "tp_next t' = tp_next t" "tp_key t' = tp_key t" "tp_dispatched t \<subseteq> tp_dispatched t'"
    and reg: "\<And>k i. tp_registry t' k = Some i \<Longrightarrow> tp_registry t k = Some i"
    and found: "\<And>i k m. (i, k, m) \<in> tp_found t' \<Longrightarrow> (i, k, m) \<in> tp_found t \<or> i < tp_next t \<and> tp_key t i = k \<and> answered t' i m"
    and got: "\<And>i m. i < tp_next t \<Longrightarrow> got t' i m \<Longrightarrow> got t i m \<or> answered t i m"
  shows "tp_inv t'"
proof -
  have mono: "answered t' i m" if "answered t i m" for i m using that assms(3,4) by (auto simp: answered_def)
  have old: "i < tp_next t \<and> tp_key t i = k \<and> answered t i m" if "(i, k, m) \<in> tp_found t" for i k m
    using assms(1) that by (simp add: tp_inv_def)
  have "i < tp_next t' \<and> tp_key t' i = k" if "tp_registry t' k = Some i" for k i
    using reg [OF that] assms(1-3) by (simp add: tp_inv_def)
  moreover have "i < tp_next t' \<and> tp_key t' i = k \<and> answered t' i m" if "(i, k, m) \<in> tp_found t'" for i k m
    using found [OF that] old [of i k m] mono assms(2,3) by auto
  moreover have "answered t' i m" if "i < tp_next t'" "got t' i m" for i m
    using got [of i m] that mono assms(1,2) by (auto simp: tp_inv_def)
  ultimately show ?thesis unfolding tp_inv_def by blast
qed

lemma tp_step_inv: "tp_step may t t' \<Longrightarrow> tp_inv t \<Longrightarrow> tp_inv t'"
proof (induction rule: tp_step.induct)
  case (Do_starts key t)
  let ?t = "registerMsgChan key t"
  have keeps: "answered ?t i m" if "i < tp_next t" "answered t i m" for i m
    using that by (auto simp: answered_def registerMsgChan_def)
  have found: "i < tp_next t \<and> tp_key t i = k \<and> answered t i m" if "(i, k, m) \<in> tp_found t" for i k m
    using Do_starts that by (simp add: tp_inv_def)
  have "i < tp_next ?t \<and> tp_key ?t i = k" if "tp_registry ?t k = Some i" for k i
    using Do_starts that by (force simp: tp_inv_def registerMsgChan_def split: if_splits)
  moreover have "i < tp_next ?t \<and> tp_key ?t i = k \<and> answered ?t i m" if "(i, k, m) \<in> tp_found ?t" for i k m
    using found [of i k m] that keeps [of i m] by (auto simp: registerMsgChan_def)
  moreover have "answered ?t i m" if "i < tp_next ?t" "got ?t i m" for i m
  proof -
    have "i < tp_next t" "got t i m" using that by (auto simp: registerMsgChan_def got_def less_Suc_eq split: if_splits)
    then show ?thesis using Do_starts keeps by (simp add: tp_inv_def)
  qed
  ultimately show ?case unfolding tp_inv_def by blast
next
  case (Do_gives_up i t)
  show ?case by (rule tp_inv_keep [OF Do_gives_up(3)]) (auto simp: unregister_def got_def split: if_splits)
next
  case (Do_receives i t m)
  show ?case using Do_receives(3) by (intro tp_inv_keep [OF Do_receives(4)]) (auto simp: unregister_def got_def split: if_splits)
next
  case (Do_closes i t r)
  show ?case using Do_closes(2) by (intro tp_inv_keep [OF Do_closes(3)]) (auto simp: got_def split: if_splits)
next
  case (dispatch t m key)
  have "i < tp_next t \<and> tp_key t i = key" if "tp_registry t key = Some i" for i using dispatch that by (simp add: tp_inv_def)
  then show ?case
    by (intro tp_inv_keep [OF dispatch]) (auto simp: DispatchWithType_def Let_def answered_def got_def split: option.splits)
next
  case (delivers i key m t)
  have "answered t i m" using delivers(1,4) by (simp add: tp_inv_def)
  then show ?case by (intro tp_inv_keep [OF delivers(4)]) (auto simp: got_def split: if_splits)
next
  case (drops i key m t r)
  show ?case by (rule tp_inv_keep [OF drops(3)]) (auto simp: got_def)
qed

definition waiting_registered :: "('k, 'm) transporter \<Rightarrow> bool" where
  "waiting_registered t \<longleftrightarrow> (\<forall>i < tp_next t. tp_phase t i = WaitingCall \<longrightarrow> tp_registry t (tp_key t i) = Some i)"

lemma tp_step_waiting: "tp_step fresh_lane t t' \<Longrightarrow> waiting_registered t \<Longrightarrow> waiting_registered t'"
proof (induction rule: tp_step.induct)
  case (Do_starts key t)
  then show ?case by (auto simp: waiting_registered_def fresh_lane_def registerMsgChan_def less_Suc_eq)
next
  case (Do_gives_up i t)
  then show ?case unfolding waiting_registered_def unregister_def by (auto, metis option.inject)
next
  case (Do_receives i t m)
  then show ?case unfolding waiting_registered_def unregister_def by (auto, metis option.inject)
next
  case (dispatch t m key)
  then show ?case by (auto simp: waiting_registered_def DispatchWithType_def Let_def split: option.split)
qed (auto simp: waiting_registered_def)

lemma tp_reach_inv: "tp_reach may t \<Longrightarrow> tp_inv t"
proof (induction rule: tp_reach.induct)
  case (step t t')
  then show ?case by (blast intro: tp_step_inv)
qed (simp add: tp_inv_def NewMessageTransporter_def)

text \<open>C25. A call that returns a message returns one that was dispatched under its own type and lane key after it had started. If
  the lane keys of the calls under way are distinct, a call that waits is always found under its key.\<close>

theorem transporter_answers:
  assumes "tp_reach fresh_lane t" and "i < tp_next t"
  shows "(tp_phase t i = ReturnedCall (Some m) \<longrightarrow> answered t i m) \<and> (tp_phase t i = WaitingCall \<longrightarrow> tp_registry t (tp_key t i) = Some i)"
proof -
  have "waiting_registered t" using assms(1)
  proof (induction rule: tp_reach.induct)
    case (step t t')
    then show ?case by (blast intro: tp_step_waiting)
  qed (simp add: waiting_registered_def NewMessageTransporter_def)
  then show ?thesis using tp_reach_inv [OF assms(1)] assms(2) by (simp add: tp_inv_def got_def waiting_registered_def)
qed

theorem transporter_answers_witness:
  "\<exists>t. tp_reach fresh_lane t \<and> 0 < tp_next t \<and> tp_phase t 0 = ReturnedCall (Some (7 :: nat)) \<and> answered t 0 7"
proof -
  let ?k = "(''NatHoleResp'', ''x'')"
  define a where "a = registerMsgChan ?k (NewMessageTransporter :: (lane, nat) transporter)"
  define b where "b = DispatchWithType 7 ?k a"
  define c where "c = b\<lparr>tp_buf := (tp_buf b)(0 := Some 7), tp_found := tp_found b - {(0, ?k, 7)}\<rparr>"
  define d where "d = unregister 0 (Some 7) (c\<lparr>tp_buf := (tp_buf c)(0 := None)\<rparr>)"
  define e where "e = d\<lparr>tp_phase := (tp_phase d)(0 := ReturnedCall (Some 7))\<rparr>"
  note defs = a_def b_def c_def d_def e_def registerMsgChan_def unregister_def DispatchWithType_def NewMessageTransporter_def
  have "tp_reach fresh_lane a" unfolding a_def
    by (rule tp_reach.step [OF tp_reach.new tp_step.Do_starts]) (simp add: fresh_lane_def NewMessageTransporter_def)
  then have "tp_reach fresh_lane b" unfolding b_def by (rule tp_reach.step [OF _ tp_step.dispatch])
  then have "tp_reach fresh_lane c" unfolding c_def by (rule tp_reach.step [OF _ tp_step.delivers]) (simp_all add: defs)
  then have "tp_reach fresh_lane d" unfolding d_def by (rule tp_reach.step [OF _ tp_step.Do_receives]) (simp_all add: defs)
  then have r: "tp_reach fresh_lane e" unfolding e_def by (rule tp_reach.step [OF _ tp_step.Do_closes]) (simp_all add: defs)
  have p: "0 < tp_next e" "tp_phase e 0 = ReturnedCall (Some 7)" by (simp_all add: defs)
  show ?thesis using transporter_answers [OF r p(1), of 7] r p by blast
qed

text \<open>A call with the lane key of another one that is under way can be cut off: the other call removes its
  registration, and no answer reaches it any more.\<close>

lemma same_lane_cut_off:
  "\<exists>t. tp_reach (\<lambda>_ _. True) (t :: (lane, nat) transporter) \<and> tp_phase t 1 = WaitingCall \<and> 1 < tp_next t \<and> tp_registry t (tp_key t 1) = None"
proof -
  let ?k = "(''NatHoleResp'', ''x'')" and ?may = "\<lambda>_ _. True"
  let ?a = "registerMsgChan ?k NewMessageTransporter :: (lane, nat) transporter"
  let ?b = "registerMsgChan ?k ?a"
  let ?c = "unregister 0 None ?b"
  have "tp_reach ?may ?a" by (rule tp_reach.step [OF tp_reach.new tp_step.Do_starts]) simp
  then have "tp_reach ?may ?b" by (rule tp_reach.step [OF _ tp_step.Do_starts]) simp
  then have "tp_reach ?may ?c"
    by (rule tp_reach.step [OF _ tp_step.Do_gives_up]) (simp_all add: registerMsgChan_def NewMessageTransporter_def)
  then show ?thesis by (rule exI [of _ ?c, OF conjI]) (simp add: unregister_def registerMsgChan_def NewMessageTransporter_def)
qed

section \<open>Requests of hole punching\<close>

datatype exchange_error = NoAnswer | WrongType | AnswerError string | NoCandidates

text \<open>What a request makes of the result of \<open>Do\<close>; \<open>None\<close> for an error, \<open>Inr\<close> for a message of another type.\<close>

definition PreCheck :: "(NatHoleResp + 'x) option \<Rightarrow> exchange_error option" where
  "PreCheck m =
     (case m of
        None \<Rightarrow> Some NoAnswer
      | Some (Inr _) \<Rightarrow> Some WrongType
      | Some (Inl resp) \<Rightarrow> if nr_Error resp \<noteq> [] then Some (AnswerError (nr_Error resp)) else None)"

definition ExchangeInfo :: "(NatHoleResp + 'x) option \<Rightarrow> (exchange_error, NatHoleResp) result" where
  "ExchangeInfo m =
     (case m of
        None \<Rightarrow> err NoAnswer
      | Some (Inr _) \<Rightarrow> err WrongType
      | Some (Inl resp) \<Rightarrow>
          if nr_Error resp \<noteq> [] then err (AnswerError (nr_Error resp))
          else if nr_CandidateAddrs resp = [] then err NoCandidates
          else ok resp)"

definition handleNatHoleResp :: "NatHoleResp \<Rightarrow> (lane, NatHoleResp) transporter \<Rightarrow> (lane, NatHoleResp) transporter" where
  "handleNatHoleResp m t = DispatchWithType m (''NatHoleResp'', nr_TransactionID m) t"

text \<open>The message a visitor asks with before it prepares a hole.\<close>

definition precheck_msg :: "string \<Rightarrow> string \<Rightarrow> NatHoleVisitor" where
  "precheck_msg transactionID proxyName =
     \<lparr>nv_TransactionID = transactionID, nv_ProxyName = proxyName, nv_PreCheck = True, nv_Protocol = [], nv_SignKey = [], nv_Timestamp = 0,
      nv_MappedAddrs = [], nv_AssistedAddrs = []\<rparr>"

end
