(* ===== verification/Make_Hole.thy ===== *)
theory Make_Hole
  imports Msg_Transport Client_Proxy
begin

text \<open>
  Hole punching on the side of the clients: \<^verbatim>\<open>pkg/nathole/discovery.go\<close>, \<open>Prepare\<close> and \<open>MakeHole\<close> of \<^verbatim>\<open>pkg/nathole/nathole.go\<close>,
  \<open>ListLocalIPsForNatHole\<close> of \<^verbatim>\<open>pkg/nathole/utils.go\<close>, and their two users, \<open>InWorkConn\<close> of \<^verbatim>\<open>client/proxy/xtcp.go\<close> and \<open>makeNatHole\<close> of
  \<^verbatim>\<open>client/visitor/xtcp.go\<close>. The answers of STUN servers, sockets and the clock are parameters; a message that cannot be
  decrypted with the shared key is \<open>None\<close>. Times are milliseconds.
\<close>

section \<open>Discovering the mapped addresses\<close>

record stunResponse =
  st_externalAddr :: string
  st_otherAddr :: string

datatype discover_error = StunFailed | NoExternalAddr

text \<open>\<open>stun\<close> is the answer of the server at an address, in the order of the requests.\<close>

definition discoverFromStunServer :: "(string \<Rightarrow> stunResponse option) \<Rightarrow> string \<Rightarrow> (discover_error, string list) result" where
  "discoverFromStunServer stun addr =
     (case stun addr of
        None \<Rightarrow> err StunFailed
      | Some resp \<Rightarrow>
          if st_externalAddr resp = [] then err NoExternalAddr
          else if st_otherAddr resp = [] then ok [st_externalAddr resp]
          else (case stun (st_otherAddr resp) of
                  None \<Rightarrow> err StunFailed
                | Some resp2 \<Rightarrow> ok (st_externalAddr resp # (if st_externalAddr resp2 \<noteq> [] then [st_externalAddr resp2] else []))))"

fun Discover :: "(string \<Rightarrow> stunResponse option) \<Rightarrow> string list \<Rightarrow> (discover_error, string list) result" where
  "Discover stun [] = ok []"
| "Discover stun (addr # addrs) =
     (case discoverFromStunServer stun addr of
        Inl e \<Rightarrow> err e
      | Inr xs \<Rightarrow> map_sum id (\<lambda>ys. xs @ ys) (Discover stun addrs))"

text \<open>The goroutine that reads answers and the one that closes the connection when it has seen enough. A packet
  that was read is sent to the channel, which may be closed by then, or be gone.\<close>

datatype chan_state = ChanOpen | ChanClosed | ChanNil

record reader =
  rd_chan :: chan_state
  rd_queue :: nat
  rd_connClosed :: bool
  rd_packet :: bool
  rd_panicked :: bool

definition NewReader :: reader where
  "NewReader = \<lparr>rd_chan = ChanOpen, rd_queue = 0, rd_connClosed = False, rd_packet = False, rd_panicked = False\<rparr>"

inductive rd_step :: "reader \<Rightarrow> reader \<Rightarrow> bool" where
  readLoop_reads: "\<not> rd_connClosed r \<Longrightarrow> \<not> rd_packet r \<Longrightarrow> rd_step r (r\<lparr>rd_packet := True\<rparr>)"
| readLoop_sends: "rd_packet r \<Longrightarrow> rd_chan r = ChanOpen \<Longrightarrow> rd_queue r < 10 \<Longrightarrow> rd_step r (r\<lparr>rd_packet := False, rd_queue := Suc (rd_queue r)\<rparr>)"
| readLoop_panics: "rd_packet r \<Longrightarrow> rd_chan r = ChanClosed \<Longrightarrow> rd_step r (r\<lparr>rd_panicked := True\<rparr>)"
| takes_answer: "rd_queue r = Suc n \<Longrightarrow> rd_chan r = ChanOpen \<Longrightarrow> rd_step r (r\<lparr>rd_queue := n\<rparr>)"
| Close_chan: "rd_chan r = ChanOpen \<Longrightarrow> rd_step r (r\<lparr>rd_chan := ChanClosed\<rparr>)"
| Close_nil: "rd_chan r = ChanClosed \<Longrightarrow> rd_step r (r\<lparr>rd_chan := ChanNil\<rparr>)"
| Close_conn: "rd_chan r = ChanNil \<Longrightarrow> rd_step r (r\<lparr>rd_connClosed := True\<rparr>)"

text \<open>An answer that arrives while the connection is being closed ends the client.\<close>

theorem late_answer_panics: "\<exists>r. rd_step\<^sup>*\<^sup>* NewReader r \<and> rd_panicked r"
proof -
  let ?a = "NewReader\<lparr>rd_packet := True\<rparr>"
  have 1: "rd_step NewReader ?a" by (rule readLoop_reads) (simp_all add: NewReader_def)
  have 2: "rd_step ?a (?a\<lparr>rd_chan := ChanClosed\<rparr>)" by (rule Close_chan) (simp add: NewReader_def)
  have 3: "rd_step (?a\<lparr>rd_chan := ChanClosed\<rparr>) (?a\<lparr>rd_chan := ChanClosed, rd_panicked := True\<rparr>)"
    using readLoop_panics [of "?a\<lparr>rd_chan := ChanClosed\<rparr>"] by simp
  show ?thesis
    by (rule exI [of _ "?a\<lparr>rd_chan := ChanClosed, rd_panicked := True\<rparr>"])
      (use 1 2 3 in \<open>auto intro: converse_rtranclp_into_rtranclp\<close>)
qed

section \<open>Preparing\<close>

text \<open>An IPv4 address that may be used: not of the loopback, and not local to a link.\<close>

definition usable_ip :: "nat list \<Rightarrow> bool" where
  "usable_ip ip \<longleftrightarrow> length ip = 4 \<and> ip ! 0 \<noteq> 127 \<and> \<not> (ip ! 0 = 169 \<and> ip ! 1 = 254) \<and> \<not> (ip ! 0 = 224 \<and> ip ! 1 = 0 \<and> ip ! 2 = 0)"

definition ip_string :: "nat list \<Rightarrow> string" where
  "ip_string ip = join_with ''.'' (map (\<lambda>b. itoa (int b)) ip)"

text \<open>\<open>ips\<close> are the addresses of the interfaces, four bytes for IPv4.\<close>

definition ListLocalIPsForNatHole :: "nat \<Rightarrow> nat list list \<Rightarrow> string list option" where
  "ListLocalIPsForNatHole maxItems ips = (if maxItems = 0 then None else Some (map ip_string (take maxItems (filter usable_ip ips))))"

datatype prepare_error = DiscoverError discover_error | NotEnough | ClassifyError classify_error | ResolveError | ListenError

record 'c PrepareResult =
  pr_Addrs :: "string list"
  pr_AssistedAddrs :: "string list"
  pr_ListenConn :: 'c
  pr_NatType :: nat_type
  pr_Behavior :: nat_behavior

text \<open>\<open>localPort\<close> is the port of the socket that was used for discovery, if its address can be resolved again, \<open>listen\<close> the socket on it.\<close>

definition Prepare ::
  "(string \<Rightarrow> stunResponse option) \<Rightarrow> nat list list option \<Rightarrow> int option \<Rightarrow> 'c option \<Rightarrow> string list \<Rightarrow> bool
   \<Rightarrow> (prepare_error, 'c PrepareResult) result" where
  "Prepare stun ips localPort listen stunServers disableAssistedAddrs =
     (case Discover stun stunServers of
        Inl e \<Rightarrow> err (DiscoverError e)
      | Inr addrs \<Rightarrow>
          if length addrs < 2 then err NotEnough
          else
            (let localIPs = (case ips of None \<Rightarrow> [] | Some is \<Rightarrow> (case ListLocalIPsForNatHole 10 is of None \<Rightarrow> [] | Some l \<Rightarrow> l)) in
             case ClassifyNATFeature addrs localIPs of
               Inl e \<Rightarrow> err (ClassifyError e)
             | Inr f \<Rightarrow>
                 (case localPort of
                    None \<Rightarrow> err ResolveError
                  | Some port \<Rightarrow>
                      (case listen of
                         None \<Rightarrow> err ListenError
                       | Some c \<Rightarrow>
                           ok \<lparr>pr_Addrs = addrs,
                               pr_AssistedAddrs = (if disableAssistedAddrs then [] else map (\<lambda>ip. JoinHostPort ip (itoa port)) localIPs),
                               pr_ListenConn = c, pr_NatType = nf_NatType f, pr_Behavior = nf_Behavior f\<rparr>))))"

text \<open>Whether addresses can be classified does not depend on the local addresses.\<close>

lemma classify_loop_any: "(\<exists>x. classify_loop ls addrs s = ok x) \<Longrightarrow> \<exists>x. classify_loop ls' addrs s' = ok x"
  by (induction addrs arbitrary: s s') (auto split: option.splits prod.splits)

lemma Classify_any:
  assumes "ClassifyNATFeature addrs ls = ok f"
  shows "\<exists>f'. ClassifyNATFeature addrs ls' = ok f'"
proof -
  have "\<exists>x. classify_loop ls addrs classify_init = ok x" "\<not> length addrs \<le> 1"
    using assms by (auto simp: ClassifyNATFeature_def split: if_splits sum.splits)
  from classify_loop_any [OF this(1), of ls' classify_init] this(2) show ?thesis by (auto simp: ClassifyNATFeature_def)
qed

lemma Prepare_addrs:
  assumes "Prepare stun ips port l servers d = ok p"
  shows "2 \<le> length (pr_Addrs p) \<and> (\<exists>ls f. ClassifyNATFeature (pr_Addrs p) ls = ok f)"
  using assms by (auto simp: Prepare_def Let_def not_less split: sum.splits if_splits option.splits) blast+

section \<open>Where detection messages are sent\<close>

definition detect_addrs :: "NatHoleResp \<Rightarrow> string list" where
  "detect_addrs m =
     remdups_adj
       (if db_Role (nr_DetectBehavior m) = DetectRoleSender then nr_AssistedAddrs m @ nr_CandidateAddrs m
        else if db_CandidatePorts (nr_DetectBehavior m) = [] then nr_CandidateAddrs m
        else [])"

definition range_targets :: "string list \<Rightarrow> (int \<times> int) list \<Rightarrow> string list" where
  "range_targets addrs ports =
     concat (map (\<lambda>ip. concat (map (\<lambda>(from, to). map (\<lambda>i. JoinHostPort ip (itoa i)) [from..to]) ports)) (remdups_adj (parseIPs addrs)))"

text \<open>A port is drawn up to ten times until it is a new one; \<open>draws\<close> are the results of \<^verbatim>\<open>rand.IntN\<close> for each round.\<close>

definition getUnusedPort :: "nat list \<Rightarrow> int set \<Rightarrow> int" where
  "getUnusedPort draws used = (case find (\<lambda>p. p \<notin> used) (map (\<lambda>r. int r + 1024) (take 10 draws)) of Some p \<Rightarrow> p | None \<Rightarrow> 0)"

fun random_ports :: "nat list list \<Rightarrow> int set \<Rightarrow> int list" where
  "random_ports [] used = []"
| "random_ports (ds # draws) used =
     (let port = getUnusedPort ds used in if port = 0 then random_ports draws used else port # random_ports draws (insert port used))"

definition random_targets :: "string list \<Rightarrow> int list \<Rightarrow> string list" where
  "random_targets addrs ports = concat (map (\<lambda>port. map (\<lambda>ip. JoinHostPort ip (itoa port)) (remdups_adj (parseIPs addrs))) ports)"

lemma getUnusedPort_cases:
  assumes "list_all (\<lambda>d. d < 65535 - 1024) draws" and "getUnusedPort draws used \<noteq> 0"
  shows "getUnusedPort draws used \<notin> used \<and> 1024 \<le> getUnusedPort draws used \<and> getUnusedPort draws used < 65535"
proof -
  obtain p where p: "find (\<lambda>p. p \<notin> used) (map (\<lambda>r. int r + 1024) (take 10 draws)) = Some p"
    using assms(2) by (auto simp: getUnusedPort_def split: option.splits)
  then have "p \<notin> used" "p \<in> set (map (\<lambda>r. int r + 1024) (take 10 draws))" by (metis find_Some_iff, metis find_Some_iff nth_mem)
  then show ?thesis using assms(1) p by (auto simp: getUnusedPort_def list_all_iff dest!: in_set_takeD)
qed

text \<open>The random ports are distinct and not privileged.\<close>

lemma random_ports_new:
  "list_all (list_all (\<lambda>d. d < 65535 - 1024)) draws \<Longrightarrow>
   distinct (random_ports draws used) \<and> set (random_ports draws used) \<subseteq> {1024..<65535} - used \<and> length (random_ports draws used) \<le> length draws"
proof (induction draws arbitrary: used)
  case (Cons ds draws)
  show ?case
  proof (cases "getUnusedPort ds used = 0")
    case True
    then show ?thesis using Cons.IH [of used] Cons.prems by (simp add: Let_def)
  next
    case False
    have d: "list_all (\<lambda>d. d < 65535 - 1024) ds" using Cons.prems by simp
    from getUnusedPort_cases [OF d False] Cons.IH [of "insert (getUnusedPort ds used) used"] Cons.prems False show ?thesis
      by (auto simp: Let_def)
  qed
qed simp

section \<open>Waiting for the other side\<close>

record NatHoleSid =
  sd_TransactionID :: string
  sd_Sid :: string
  sd_Response :: bool
  sd_Nonce :: string

definition sid_message :: "string \<Rightarrow> string \<Rightarrow> nat \<Rightarrow> NatHoleSid" where
  "sid_message transactionID sid n = \<lparr>sd_TransactionID = transactionID, sd_Sid = sid, sd_Response = False, sd_Nonce = replicate n CHR ''0''\<rparr>"

text \<open>What one packet means: it is ignored, or the wait is over, perhaps with an answer. \<open>enc\<close> tells whether the answer can be encoded.\<close>

datatype detect_result = Ignored | Detected "NatHoleSid option"

definition on_packet :: "(NatHoleSid \<Rightarrow> bool) \<Rightarrow> string \<Rightarrow> role \<Rightarrow> NatHoleSid option \<Rightarrow> detect_result" where
  "on_packet enc sid role pkt =
     (case pkt of
        None \<Rightarrow> Ignored
      | Some m \<Rightarrow>
          if sd_Sid m \<noteq> sid then Ignored
          else if sd_Response m then Detected None
          else if role = DetectRoleSender then Ignored
          else let m' = m\<lparr>sd_Response := True\<rparr> in if enc m' then Detected (Some m') else Ignored)"

text \<open>The packets with their times of arrival and their sources. Each read has its own deadline. The result is the time at which
  the wait ends, the address of the peer and the answer.\<close>

fun waitDetectMessage ::
  "(NatHoleSid \<Rightarrow> bool) \<Rightarrow> string \<Rightarrow> role \<Rightarrow> int \<Rightarrow> int \<Rightarrow> (int \<times> 'a \<times> NatHoleSid option) list \<Rightarrow> int \<times> ('a \<times> NatHoleSid option) option" where
  "waitDetectMessage enc sid role timeout now [] = (now + timeout, None)"
| "waitDetectMessage enc sid role timeout now ((t, raddr, pkt) # pkts) =
     (if now + timeout < t then (now + timeout, None)
      else (case on_packet enc sid role pkt of
              Ignored \<Rightarrow> waitDetectMessage enc sid role timeout (max now t) pkts
            | Detected reply \<Rightarrow> (max now t, Some (raddr, reply))))"

text \<open>Packets that do not belong to the session prolong the wait without a limit: the timeout is one of silence. While the
  single socket is waited on, the end of the context is not noticed either.\<close>

theorem junk_prolongs_wait:
  assumes "0 \<le> timeout"
  shows "fst (waitDetectMessage enc sid role timeout 0 (map (\<lambda>i. (int i * timeout, raddr, None)) [1..<Suc n])) = int n * timeout + timeout"
proof -
  have "fst (waitDetectMessage enc sid role timeout (int k * timeout) (map (\<lambda>i. (int i * timeout, raddr, None)) [Suc k..<Suc k + n])) =
      int (k + n) * timeout + timeout" for k
  proof (induction n arbitrary: k)
    case (Suc n)
    have e: "[Suc k..<Suc k + Suc n] = Suc k # [Suc (Suc k)..<Suc (Suc k) + n]" by (simp add: upt_rec)
    have t: "int (Suc k) * timeout = int k * timeout + timeout" "max (int k * timeout) (int k * timeout + timeout) = int k * timeout + timeout"
      using assms by (simp_all add: algebra_simps)
    show ?case using assms Suc.IH [of "Suc k"] unfolding e list.map waitDetectMessage.simps t by (simp add: on_packet_def algebra_simps)
  qed simp
  from this [of 0] show ?thesis by simp
qed

section \<open>Making a hole\<close>

text \<open>The sockets: the one that was prepared and, for a receiver, those on random ports that could be opened.\<close>

definition listen_conns :: "(nat \<Rightarrow> 'c option) \<Rightarrow> NatHoleResp \<Rightarrow> 'c \<Rightarrow> 'c list" where
  "listen_conns listen m c =
     c # (if db_Role (nr_DetectBehavior m) = DetectRoleSender then []
          else List.map_filter listen [0..<nat (db_ListenRandomPorts (nr_DetectBehavior m))])"

text \<open>The messages that are sent from these sockets before the wait, in this order, and those to random ports, which other
  goroutines send meanwhile.\<close>

definition detection_sends :: "NatHoleResp \<Rightarrow> 'c list \<Rightarrow> ('c \<times> string) list" where
  "detection_sends m conns =
     concat (map (\<lambda>a. map (\<lambda>c. (c, a)) conns) (detect_addrs m))
     @ (if db_CandidatePorts (nr_DetectBehavior m) \<noteq> []
        then List.product conns (range_targets (nr_CandidateAddrs m) (db_CandidatePorts (nr_DetectBehavior m))) else [])"

definition random_sends :: "('c \<Rightarrow> nat list list) \<Rightarrow> NatHoleResp \<Rightarrow> 'c list \<Rightarrow> ('c \<times> string) list" where
  "random_sends draws m conns =
     (let n = nat (db_SendRandomPorts (nr_DetectBehavior m)) in
      concat (map (\<lambda>c. map (\<lambda>t. (c, t)) (random_targets (nr_CandidateAddrs m) (random_ports (take n (draws c)) {}))) conns))"

definition read_timeout :: "NatHoleResp \<Rightarrow> int" where
  "read_timeout m = (if db_ReadTimeoutMs (nr_DetectBehavior m) > 0 then db_ReadTimeoutMs (nr_DetectBehavior m) else 5000)"

text \<open>With several sockets each is waited on by a goroutine of its own. \<open>order\<close> has them as they finish, with whether \<open>MakeHole\<close> is
  receiving at that moment: the channel has no buffer, and a result that nobody receives is thrown away with its socket. The
  sockets that are closed come second.\<close>

fun pick_result :: "(bool \<times> 'c \<times> 'a option) list \<Rightarrow> ('c \<times> 'a) option \<times> 'c list" where
  "pick_result [] = (None, [])"
| "pick_result ((ready, c, r) # es) =
     (case r of
        Some a \<Rightarrow> if ready then (Some (c, a), map (fst \<circ> snd) es) else (let (x, closed) = pick_result es in (x, c # closed))
      | None \<Rightarrow> (let (x, closed) = pick_result es in (x, c # closed)))"

definition MakeHole ::
  "(NatHoleSid \<Rightarrow> bool) \<Rightarrow> (nat \<Rightarrow> 'c option) \<Rightarrow> ('c \<Rightarrow> (int \<times> 'a \<times> NatHoleSid option) list) \<Rightarrow> (bool \<times> 'c) list \<Rightarrow> int \<Rightarrow> NatHoleResp \<Rightarrow> 'c
   \<Rightarrow> ('c \<times> 'a) option \<times> 'c list" where
  "MakeHole enc listen arrivals order now m c =
     (let wait = (\<lambda>c. map_option fst (snd (waitDetectMessage enc (nr_Sid m) (db_Role (nr_DetectBehavior m)) (read_timeout m) now (arrivals c)))) in
      if length (listen_conns listen m c) = 1 then (map_option (\<lambda>a. (c, a)) (wait c), [])
      else pick_result (map (\<lambda>(ready, c). (ready, c, wait c)) order))"

lemma pick_result_conns:
  "pick_result es = (r, closed) \<Longrightarrow>
     mset (map (fst \<circ> snd) es) = mset closed + (case r of None \<Rightarrow> {#} | Some (c, a) \<Rightarrow> {#c#})"
  by (induction es arbitrary: r closed rule: pick_result.induct) (auto split: option.splits if_splits prod.splits)

lemma pick_result_Some: "pick_result es = (Some (c, a), closed) \<Longrightarrow> (True, c, Some a) \<in> set es"
  by (induction es arbitrary: closed rule: pick_result.induct) (auto split: option.splits if_splits prod.splits)

text \<open>A result that comes before \<open>MakeHole\<close> receives is lost.\<close>

lemma early_result_lost: "pick_result [(False, c, Some a), (True, d, None)] = (None, [c, d])"
  by simp

lemma MakeHole_conns:
  assumes "MakeHole enc listen arrivals order now m c = (r, closed)" and "1 < length (listen_conns listen m c)"
    and "mset (map snd order) = mset (listen_conns listen m c)"
  shows "mset (listen_conns listen m c) = mset closed + (case r of None \<Rightarrow> {#} | Some (c', a) \<Rightarrow> {#c'#})"
  using pick_result_conns assms by (fastforce simp: MakeHole_def Let_def comp_def case_prod_beta)

text \<open>Whatever the result, of the sockets that were opened only the one that is returned stays open once the goroutines have ended; the
  caller closes the prepared one if there is no result.\<close>

lemma MakeHole_left:
  assumes "MakeHole enc listen arrivals order now m l = (r, closed)" and "conns = listen_conns listen m l"
    and "distinct conns" "set conns \<inter> R = {}" "mset (map snd order) = mset conns"
  shows "case r of None \<Rightarrow> R \<union> set conns - set closed - {l} = R | Some (c, a) \<Rightarrow> R \<union> set conns - set closed = insert c R \<and> c \<in> set conns"
proof (cases "length conns = 1")
  case True
  then have "conns = [l]" using assms(2) by (auto simp: listen_conns_def)
  then show ?thesis using assms(1,2,4) True by (auto simp: MakeHole_def Let_def split: option.splits)
next
  case False
  then have "1 < length conns" using assms(2) by (auto simp: listen_conns_def)
  then have c: "mset conns = mset closed + (case r of None \<Rightarrow> {#} | Some (c', a) \<Rightarrow> {#c'#})"
    using MakeHole_conns [OF assms(1)] assms(2,5) by simp
  have l: "l \<in> set conns" using assms(2) by (simp add: listen_conns_def)
  show ?thesis
  proof (cases r)
    case None
    then have "set conns = set closed" using c by (metis add.right_neutral option.simps(4) set_mset_mset)
    then show ?thesis using None assms(4) l by auto
  next
    case (Some x)
    obtain d a where x: "x = (d, a)" by (cases x)
    have m: "mset conns = mset (d # closed)" using c Some x by simp
    then have "set conns = set (d # closed)" "distinct (d # closed)" using assms(3) mset_eq_setD [OF m] mset_eq_imp_distinct_iff [OF m] by simp_all
    then show ?thesis using Some x assms(4) by auto
  qed
qed

section \<open>The two sides together\<close>

text \<open>The sender has one socket, which the socket \<open>r\<close> of the receiver sees as \<open>sa r\<close>; \<open>Rs\<close> are the sockets of the receiver. Packets may be
  lost, delayed and repeated. \<open>ho_done\<close> has the receiver's sockets whose wait is over, with the address of the peer.\<close>

record 'a hole =
  ho_net :: "('a \<times> 'a \<times> NatHoleSid) set"
  ho_sender :: "'a option"
  ho_done :: "('a \<times> 'a) list"

definition NewHole :: "'a hole" where
  "NewHole = \<lparr>ho_net = {}, ho_sender = None, ho_done = []\<rparr>"

text \<open>Only packets of this session are in the network, and a socket of the receiver is seen under one address whatever the destination.\<close>

inductive hole_step :: "(NatHoleSid \<Rightarrow> bool) \<Rightarrow> string \<Rightarrow> ('a \<Rightarrow> 'a) \<Rightarrow> 'a set \<Rightarrow> 'a hole \<Rightarrow> 'a hole \<Rightarrow> bool" for enc sid sa Rs where
  sender_sends: "hole_step enc sid sa Rs h (h\<lparr>ho_net := insert (sa dst, dst, sid_message tid sid n) (ho_net h)\<rparr>)"
| receiver_sends: "r \<in> Rs \<Longrightarrow> hole_step enc sid sa Rs h (h\<lparr>ho_net := insert (r, dst, sid_message tid sid n) (ho_net h)\<rparr>)"
| sender_gets: "ho_sender h = None \<Longrightarrow> (from, to, m) \<in> ho_net h \<Longrightarrow> to \<in> range sa \<Longrightarrow> on_packet enc sid DetectRoleSender (Some m) = Detected reply
    \<Longrightarrow> hole_step enc sid sa Rs h (h\<lparr>ho_sender := Some from\<rparr>)"
| receiver_gets: "r \<in> Rs \<Longrightarrow> r \<notin> fst ` set (ho_done h) \<Longrightarrow> (from, r, m) \<in> ho_net h \<Longrightarrow> on_packet enc sid DetectRoleReceiver (Some m) = Detected reply
    \<Longrightarrow> hole_step enc sid sa Rs h (h\<lparr>ho_done := ho_done h @ [(r, from)],
          ho_net := (case reply of None \<Rightarrow> ho_net h | Some m' \<Rightarrow> insert (r, from, m') (ho_net h))\<rparr>)"

inductive hole_reach :: "(NatHoleSid \<Rightarrow> bool) \<Rightarrow> string \<Rightarrow> ('a \<Rightarrow> 'a) \<Rightarrow> 'a set \<Rightarrow> 'a hole \<Rightarrow> bool" for enc sid sa Rs where
  new: "hole_reach enc sid sa Rs NewHole"
| step: "hole_reach enc sid sa Rs h \<Longrightarrow> hole_step enc sid sa Rs h h' \<Longrightarrow> hole_reach enc sid sa Rs h'"

definition hole_inv :: "('a \<Rightarrow> 'a) \<Rightarrow> 'a set \<Rightarrow> 'a hole \<Rightarrow> bool" where
  "hole_inv sa Rs h \<longleftrightarrow>
     (\<forall>f t m. (f, t, m) \<in> ho_net h \<longrightarrow> (if sd_Response m then (f, t) \<in> set (ho_done h) else f \<in> Rs \<or> f = sa t))
   \<and> (\<forall>r a. (r, a) \<in> set (ho_done h) \<longrightarrow> r \<in> Rs \<and> (a \<in> Rs \<or> a = sa r))
   \<and> (\<forall>r. ho_sender h = Some r \<longrightarrow> (\<exists>x. (r, sa x) \<in> set (ho_done h)))"

lemma on_packet_cases:
  "on_packet enc sid role (Some m) = Detected reply \<Longrightarrow>
     (sd_Response m \<and> reply = None) \<or> (\<not> sd_Response m \<and> role \<noteq> DetectRoleSender \<and> reply = Some (m\<lparr>sd_Response := True\<rparr>))"
  by (auto simp: on_packet_def Let_def split: if_splits)

lemma hole_step_inv: "hole_step enc sid sa Rs h h' \<Longrightarrow> hole_inv sa Rs h \<Longrightarrow> hole_inv sa Rs h'"
proof (induction rule: hole_step.induct)
  case (sender_sends h dst tid n)
  then show ?case by (auto simp: hole_inv_def sid_message_def)
next
  case (receiver_sends r h dst tid n)
  then show ?case by (auto simp: hole_inv_def sid_message_def)
next
  case (sender_gets h "from" to m reply)
  from on_packet_cases [OF sender_gets(4)] have "sd_Response m" by simp
  then have "(from, to) \<in> set (ho_done h)" using sender_gets(2,5) by (auto simp: hole_inv_def)
  then show ?case using sender_gets(3,5) by (auto simp: hole_inv_def)
next
  case (receiver_gets r h "from" m reply)
  have net: "if sd_Response m then (from, r) \<in> set (ho_done h) else from \<in> Rs \<or> from = sa r"
    using receiver_gets(3,5) by (simp add: hole_inv_def)
  have f: "from \<in> Rs \<or> from = sa r" using net receiver_gets(5) by (auto simp: hole_inv_def split: if_splits)
  from on_packet_cases [OF receiver_gets(4)] have reply: "\<forall>m'. reply = Some m' \<longrightarrow> sd_Response m'" by auto
  from receiver_gets(1,5) f reply show ?case unfolding hole_inv_def by (cases reply) auto
qed

lemma hole_reach_inv: "hole_reach enc sid sa Rs h \<Longrightarrow> hole_inv sa Rs h"
proof (induction rule: hole_reach.induct)
  case (step h h')
  then show ?case by (blast intro: hole_step_inv)
qed (simp add: hole_inv_def NewHole_def)

text \<open>C36. Agreement. If the sender has found its peer, then that is a socket of the receiver, whose wait is over as well, and which has
  found the sender at the address under which it sees the sender. With a single socket the two sides use the same
  pair of addresses.\<close>

theorem hole_agreement:
  assumes "hole_reach enc sid sa Rs h" and "range sa \<inter> Rs = {}" and "ho_sender h = Some r"
  shows "(r, sa r) \<in> set (ho_done h) \<and> r \<in> Rs \<and> (Rs = {r0} \<longrightarrow> r = r0 \<and> fst (hd (ho_done h)) = r0)"
proof -
  have I: "hole_inv sa Rs h" using assms(1) by (rule hole_reach_inv)
  then obtain x where a: "(r, sa x) \<in> set (ho_done h)" using assms(3) by (auto simp: hole_inv_def)
  then have "r \<in> Rs \<and> (sa x \<in> Rs \<or> sa x = sa r)" using I unfolding hole_inv_def by blast
  then have r: "r \<in> Rs" "sa x = sa r" using assms(2) by blast+
  have "(fst (hd (ho_done h)), snd (hd (ho_done h))) \<in> set (ho_done h)" using a by (metis empty_iff empty_set hd_in_set prod.collapse)
  then have "fst (hd (ho_done h)) \<in> Rs" using I unfolding hole_inv_def by blast
  with a r show ?thesis by auto
qed

text \<open>A run in which both sides find each other, with one socket or two.\<close>

lemma hole_example:
  fixes sa :: "nat \<Rightarrow> nat"
  assumes "\<And>r. sa r = 0" and "r1 \<in> Rs"
  shows "hole_reach (\<lambda>_. True) sid sa Rs
    \<lparr>ho_net = {(r1, 0, (sid_message t sid 0)\<lparr>sd_Response := True\<rparr>), (0, r1, sid_message t sid 0)}, ho_sender = None, ho_done = [(r1, 0)]\<rparr>"
proof -
  let ?m = "sid_message t sid 0"
  let ?a = "NewHole\<lparr>ho_net := insert (sa r1, r1, ?m) (ho_net NewHole)\<rparr> :: nat hole"
  have a: "hole_reach (\<lambda>_. True) sid sa Rs ?a" by (rule hole_reach.step [OF hole_reach.new sender_sends])
  have d: "on_packet (\<lambda>_. True) sid DetectRoleReceiver (Some ?m) = Detected (Some (?m\<lparr>sd_Response := True\<rparr>))"
    by (simp add: on_packet_def sid_message_def)
  have "hole_step (\<lambda>_. True) sid sa Rs ?a (?a\<lparr>ho_done := ho_done ?a @ [(r1, 0)],
      ho_net := (case Some (?m\<lparr>sd_Response := True\<rparr>) of None \<Rightarrow> ho_net ?a | Some m' \<Rightarrow> insert (r1, 0, m') (ho_net ?a))\<rparr>)"
    by (rule receiver_gets [OF assms(2) _ _ d]) (simp_all add: NewHole_def assms(1))
  from hole_reach.step [OF a this] show ?thesis by (simp add: NewHole_def assms(1))
qed

theorem hole_agreement_witness:
  "\<exists>h :: nat hole. hole_reach (\<lambda>_. True) ''s'' (\<lambda>_. 0) {1} h \<and> ho_sender h = Some 1 \<and> (1, 0) \<in> set (ho_done h) \<and> fst (hd (ho_done h)) = 1"
proof -
  let ?m = "sid_message ''t'' ''s'' 0" and ?r = "(\<lambda>_. 0) :: nat \<Rightarrow> nat"
  let ?b = "\<lparr>ho_net = {(1, 0, ?m\<lparr>sd_Response := True\<rparr>), (0, 1, ?m)}, ho_sender = None, ho_done = [(1, 0)]\<rparr> :: nat hole"
  have b: "hole_reach (\<lambda>_. True) ''s'' ?r {1} ?b" by (rule hole_example) simp_all
  have "hole_step (\<lambda>_. True) ''s'' ?r {1} ?b (?b\<lparr>ho_sender := Some 1\<rparr>)"
    by (rule sender_gets [where to = 0 and m = "?m\<lparr>sd_Response := True\<rparr>" and reply = None]) (simp_all add: on_packet_def sid_message_def)
  from hole_reach.step [OF b this] have h: "hole_reach (\<lambda>_. True) ''s'' ?r {1} (?b\<lparr>ho_sender := Some 1\<rparr>)" .
  from hole_agreement [OF h, of 1 1] show ?thesis using h by auto
qed

text \<open>With two sockets the receiver may take another one than the sender: both have answered before the receiver
  throws one of them away.\<close>

theorem hole_mismatch:
  "\<exists>h :: nat hole. hole_reach (\<lambda>_. True) sid (\<lambda>_. 0) {1, 2} h \<and> ho_sender h = Some 2
     \<and> fst (pick_result (map (\<lambda>(c, a). (True, c, Some a)) (ho_done h))) = Some (1, 0)"
proof -
  let ?m = "sid_message [] sid 0" and ?r = "(\<lambda>_. 0) :: nat \<Rightarrow> nat" and ?Rs = "{1, 2} :: nat set"
  let ?m' = "?m\<lparr>sd_Response := True\<rparr>"
  let ?b = "\<lparr>ho_net = {(1, 0, ?m'), (0, 1, ?m)}, ho_sender = None, ho_done = [(1, 0)]\<rparr> :: nat hole"
  let ?c = "?b\<lparr>ho_net := insert (0, 2, ?m) (ho_net ?b)\<rparr>"
  let ?d = "?c\<lparr>ho_done := ho_done ?c @ [(2, 0)], ho_net := (case Some ?m' of None \<Rightarrow> ho_net ?c | Some m' \<Rightarrow> insert (2, 0, m') (ho_net ?c))\<rparr>"
  have b: "hole_reach (\<lambda>_. True) sid ?r ?Rs ?b" by (rule hole_example) simp_all
  have "hole_step (\<lambda>_. True) sid ?r ?Rs ?b ?c" by (rule sender_sends)
  from hole_reach.step [OF b this] have c: "hole_reach (\<lambda>_. True) sid ?r ?Rs ?c" .
  have "hole_step (\<lambda>_. True) sid ?r ?Rs ?c ?d"
    by (rule receiver_gets [where m = ?m]) (simp_all add: on_packet_def sid_message_def)
  from hole_reach.step [OF c this] have d: "hole_reach (\<lambda>_. True) sid ?r ?Rs ?d" .
  have "hole_step (\<lambda>_. True) sid ?r ?Rs ?d (?d\<lparr>ho_sender := Some 2\<rparr>)"
    by (rule sender_gets [where to = 0 and m = ?m' and reply = None]) (simp_all add: on_packet_def sid_message_def)
  from hole_reach.step [OF d this] show ?thesis by (intro exI [of _ "?d\<lparr>ho_sender := Some 2\<rparr>"]) simp
qed

end
