(* ===== verification/Client_Visitors.thy ===== *)
theory Client_Visitors
  imports Make_Hole Client_Managers Server_Service
begin

text \<open>
  The visitors of a client: \<^verbatim>\<open>client/visitor/visitor.go\<close>, \<^verbatim>\<open>stcp.go\<close> and \<^verbatim>\<open>xtcp.go\<close>. A visitor accepts local users and joins them with a proxy of
  another client, by way of the server or by a tunnel through a hole. Sockets and sessions are resources of type \<open>'r\<close>; the set of
  those that are open is part of the state. What the network answers is a parameter.
\<close>

section \<open>By way of the server\<close>

definition visitor_conn_msg :: "(string \<Rightarrow> string) \<Rightarrow> string \<Rightarrow> string \<Rightarrow> int \<Rightarrow> VisitorBaseConfig \<Rightarrow> NewVisitorConn" where
  "visitor_conn_msg md5hex user runID now cfg =
     \<lparr>nvc_RunID = runID, nvc_ProxyName = BuildTargetServerProxyName user (vb_ServerUser cfg) (vb_ServerName cfg),
      nvc_SignKey = GetAuthKey md5hex (vb_SecretKey cfg) now, nvc_Timestamp = now,
      nvc_UseEncryption = vt_UseEncryption (vb_Transport cfg), nvc_UseCompression = vt_UseCompression (vb_Transport cfg)\<rparr>"

datatype dial_error = ConnectError | SendError | ReadError | StartError string

text \<open>The connection to the server, whether the message could be written, and the error text of the answer. The connection is closed
  on every failure; \<open>snd\<close> tells which.\<close>

definition dialRawVisitorConn :: "'r option \<Rightarrow> bool \<Rightarrow> string option \<Rightarrow> (dial_error, 'r) result \<times> 'r option" where
  "dialRawVisitorConn connect write_ok resp =
     (case connect of
        None \<Rightarrow> (err ConnectError, None)
      | Some c \<Rightarrow>
          if \<not> write_ok then (err SendError, Some c)
          else (case resp of
                  None \<Rightarrow> (err ReadError, Some c)
                | Some e \<Rightarrow> if e \<noteq> [] then (err (StartError e), Some c) else (ok c, None)))"

definition wrapVisitorConn :: "bool \<Rightarrow> VisitorBaseConfig \<Rightarrow> bool" where
  "wrapVisitorConn enc_ok cfg \<longleftrightarrow> (vt_UseEncryption (vb_Transport cfg) \<longrightarrow> enc_ok)"

datatype 'r visitor_outcome = UserJoined 'r | UserFailed | UserTransferred string

text \<open>What becomes of a user's connection, and which connections to the server are closed in the end.\<close>

definition stcp_handleConn :: "'r option \<Rightarrow> bool \<Rightarrow> string option \<Rightarrow> bool \<Rightarrow> VisitorBaseConfig \<Rightarrow> 'r visitor_outcome \<times> 'r option" where
  "stcp_handleConn connect write_ok resp enc_ok cfg =
     (case dialRawVisitorConn connect write_ok resp of
        (Inl _, closed) \<Rightarrow> (UserFailed, closed)
      | (Inr c, _) \<Rightarrow> (if wrapVisitorConn enc_ok cfg then UserJoined c else UserFailed, Some c))"

lemma stcp_no_leak: "snd (stcp_handleConn connect w resp e cfg) = connect"
  by (auto simp: stcp_handleConn_def dialRawVisitorConn_def split: option.splits)

text \<open>The error text that the server sends.\<close>

definition visitor_resp :: "(service_error \<Rightarrow> string) \<Rightarrow> bool \<Rightarrow> reply list \<Rightarrow> string option" where
  "visitor_resp text_of detailed out =
     (case out of
        [VisitorResp name e] \<Rightarrow> Some (case e of None \<Rightarrow> [] | Some e \<Rightarrow> GenerateResponseErrorString ''register visitor conn error'' (text_of e) detailed)
      | _ \<Rightarrow> None)"


section \<open>Tunnel sessions\<close>

record 'r tunnel =
  tn_session :: "'r option"
  tn_conn :: "'r option"

definition NewTunnelSession :: "'r tunnel" where
  "NewTunnelSession = \<lparr>tn_session = None, tn_conn = None\<rparr>"

definition held :: "'r tunnel \<Rightarrow> 'r set" where
  "held t = set_option (tn_session t) \<union> set_option (tn_conn t)"

datatype open_error = NoTunnelSession | OpenFailed | OpenTimeout

definition OpenConn :: "('r \<Rightarrow> 'c option) \<Rightarrow> 'r tunnel \<Rightarrow> (open_error, 'c) result" where
  "OpenConn opens t =
     (case tn_session t of
        None \<Rightarrow> err NoTunnelSession
      | Some s \<Rightarrow> (case opens s of None \<Rightarrow> err OpenFailed | Some c \<Rightarrow> ok c))"

text \<open>Closing a session, with the resources that are open.\<close>

definition tunnel_Close :: "'r tunnel \<Rightarrow> 'r set \<Rightarrow> 'r tunnel \<times> 'r set" where
  "tunnel_Close t R = (NewTunnelSession, R - held t)"

text \<open>What \<open>Init\<close> gets: for KCP a new UDP connection, the KCP connection on it and the multiplexed session, which is one resource with the KCP
  connection; whether closing the KCP connection closes the UDP connection too; for QUIC the TLS configuration and the
  session.\<close>

record 'r init_env =
  ie_dial :: "'r option"
  ie_kcp :: bool
  ie_fmux :: "'r option"
  ie_owns :: bool
  ie_tls :: bool
  ie_quic :: "'r option"

definition kcp_Init :: "'r init_env \<Rightarrow> 'r \<Rightarrow> 'r tunnel \<Rightarrow> 'r set \<Rightarrow> bool \<times> 'r tunnel \<times> 'r set" where
  "kcp_Init e listenConn t R =
     (let R = R - {listenConn} in
      case ie_dial e of
        None \<Rightarrow> (False, t, R)
      | Some lConn \<Rightarrow>
          if \<not> ie_kcp e then (False, t, R)
          else (case ie_fmux e of
                  None \<Rightarrow> (False, t, if ie_owns e then R else insert lConn R)
                | Some session \<Rightarrow> (True, \<lparr>tn_session = Some session, tn_conn = Some lConn\<rparr>, R \<union> {session, lConn})))"

definition quic_Init :: "'r init_env \<Rightarrow> 'r \<Rightarrow> 'r tunnel \<Rightarrow> 'r set \<Rightarrow> bool \<times> 'r tunnel \<times> 'r set" where
  "quic_Init e listenConn t R =
     (if \<not> ie_tls e then (False, t, R)
      else (case ie_quic e of
              None \<Rightarrow> (False, t, R)
            | Some session \<Rightarrow> (True, \<lparr>tn_session = Some session, tn_conn = Some listenConn\<rparr>, insert session R)))"

definition session_Init :: "string \<Rightarrow> 'r init_env \<Rightarrow> 'r \<Rightarrow> 'r tunnel \<Rightarrow> 'r set \<Rightarrow> bool \<times> 'r tunnel \<times> 'r set" where
  "session_Init protocol = (if protocol = ''kcp'' then kcp_Init else quic_Init)"

definition new_resources :: "'r init_env \<Rightarrow> 'r set" where
  "new_resources e = set_option (ie_dial e) \<union> set_option (ie_fmux e) \<union> set_option (ie_quic e)"

text \<open>Making a hole and a session in it.\<close>

record ('r, 'a, 'x) hole_env =
  he_precheck :: "(NatHoleResp + 'x) option"
  he_stun :: "string \<Rightarrow> stunResponse option"
  he_ips :: "nat list list option"
  he_port :: "int option"
  he_listen :: "'r option"
  he_answer :: "(NatHoleResp + 'x) option"
  he_enc :: "NatHoleSid \<Rightarrow> bool"
  he_random :: "nat \<Rightarrow> 'r option"
  he_arrivals :: "'r \<Rightarrow> (int \<times> 'a \<times> NatHoleSid option) list"
  he_order :: "(bool \<times> 'r) list"
  he_now :: int
  he_init :: "'r init_env"

definition makeNatHole ::
  "('r init_env \<Rightarrow> 'r \<Rightarrow> 'r tunnel \<Rightarrow> 'r set \<Rightarrow> bool \<times> 'r tunnel \<times> 'r set) \<Rightarrow> ('r, 'a, 'x) hole_env \<Rightarrow> string \<Rightarrow> bool
   \<Rightarrow> 'r tunnel \<Rightarrow> 'r set \<Rightarrow> 'r tunnel \<times> 'r set" where
  "makeNatHole init he stunServer disableAssistedAddrs t R =
     (if PreCheck (he_precheck he) \<noteq> None then (t, R)
      else (case Prepare (he_stun he) (he_ips he) (he_port he) (he_listen he) [stunServer] disableAssistedAddrs of
              Inl _ \<Rightarrow> (t, R)
            | Inr p \<Rightarrow>
                (let l = pr_ListenConn p; R1 = insert l R in
                 case ExchangeInfo (he_answer he) of
                   Inl _ \<Rightarrow> (t, R1 - {l})
                 | Inr m \<Rightarrow>
                     (let R2 = R1 \<union> set (listen_conns (he_random he) m l) in
                      case MakeHole (he_enc he) (he_random he) (he_arrivals he) (he_order he) (he_now he) m l of
                        (None, closed) \<Rightarrow> (t, R2 - set closed - {l})
                      | (Some (c, raddr), closed) \<Rightarrow>
                          (case init (he_init he) c t (R2 - set closed) of
                             (True, t', R') \<Rightarrow> (t', R')
                           | (False, t', R') \<Rightarrow> (t', R' - {c}))))))"

text \<open>The message by which the visitor asks for the exchange.\<close>

definition nat_hole_visitor_msg ::
  "(string \<Rightarrow> string) \<Rightarrow> string \<Rightarrow> int \<Rightarrow> string \<Rightarrow> XTCPVisitorConfig \<Rightarrow> 'r PrepareResult \<Rightarrow> NatHoleVisitor" where
  "nat_hole_visitor_msg md5hex user now transactionID cfg p =
     \<lparr>nv_TransactionID = transactionID, nv_ProxyName = BuildTargetServerProxyName user (vb_ServerUser cfg) (vb_ServerName cfg),
      nv_PreCheck = False, nv_Protocol = xv_Protocol cfg, nv_SignKey = GetAuthKey md5hex (vb_SecretKey cfg) now, nv_Timestamp = now,
      nv_MappedAddrs = pr_Addrs p, nv_AssistedAddrs = pr_AssistedAddrs p\<rparr>"

section \<open>What a tunnel session promises\<close>

text \<open>\<open>good\<close> excludes that the multiplexer refuses its configuration, which is a constant.\<close>

locale tunnel_session =
  fixes init :: "'r init_env \<Rightarrow> 'r \<Rightarrow> 'r tunnel \<Rightarrow> 'r set \<Rightarrow> bool \<times> 'r tunnel \<times> 'r set" and good :: "'r init_env \<Rightarrow> bool"
  assumes init_fails: "init e l t R = (False, t', R') \<Longrightarrow> good e \<Longrightarrow> t' = t \<and> R' - {l} = R - {l}"
    and init_opens: "init e l t R = (True, t', R') \<Longrightarrow> l \<in> R \<Longrightarrow> tn_session t' \<noteq> None \<and> held t' \<subseteq> insert l (new_resources e) \<and> R' = (R - {l}) \<union> held t'"
begin

text \<open>No socket is lost: making a hole changes nothing, or opens exactly what the new session holds.\<close>

lemma hole_no_leak:
  assumes made: "makeNatHole init he server d t R = (t', R')" and good: "good (he_init he)"
    and fresh: "\<And>m l. ExchangeInfo (he_answer he) = ok m \<Longrightarrow> he_listen he = Some l \<Longrightarrow>
      distinct (listen_conns (he_random he) m l) \<and> set (listen_conns (he_random he) m l) \<inter> R = {}
      \<and> mset (map snd (he_order he)) = mset (listen_conns (he_random he) m l)"
    and listen: "\<And>l. he_listen he = Some l \<Longrightarrow> l \<notin> R"
  shows "(t' = t \<and> R' = R) \<or> (tn_session t' \<noteq> None \<and> R' = R \<union> held t')"
proof (cases "PreCheck (he_precheck he) \<noteq> None")
  case True
  then show ?thesis using made by (simp add: makeNatHole_def)
next
  case pre: False
  show ?thesis
  proof (cases "Prepare (he_stun he) (he_ips he) (he_port he) (he_listen he) [server] d")
    case (Inl e)
    then show ?thesis using made pre by (simp add: makeNatHole_def)
  next
    case p: (Inr p)
    define l where "l = pr_ListenConn p"
    have hl: "he_listen he = Some l" using p by (auto simp: l_def Prepare_def Let_def split: sum.splits option.splits if_splits)
    have lR: "l \<notin> R" using listen [OF hl] .
    show ?thesis
    proof (cases "ExchangeInfo (he_answer he)")
      case (Inl e)
      then show ?thesis using made pre p lR by (auto simp: makeNatHole_def l_def [symmetric] Let_def)
    next
      case m: (Inr m)
      define conns where "conns = listen_conns (he_random he) m l"
      have f: "distinct conns" "set conns \<inter> R = {}" "mset (map snd (he_order he)) = mset conns" "l \<in> set conns"
        using fresh [OF m hl] by (auto simp: conns_def listen_conns_def)
      obtain r closed where h: "MakeHole (he_enc he) (he_random he) (he_arrivals he) (he_order he) (he_now he) m l = (r, closed)" by fastforce
      have u: "insert l R \<union> set conns = R \<union> set conns" using f(4) by blast
      note left = MakeHole_left [OF h conns_def f(1-3)]
      have "(case r of
          None \<Rightarrow> (t, insert l R \<union> set conns - set closed - {l})
        | Some (c, raddr) \<Rightarrow> (case init (he_init he) c t (insert l R \<union> set conns - set closed) of (True, t', R') \<Rightarrow> (t', R') | (False, t', R') \<Rightarrow> (t', R' - {c})))
        = (t', R')"
        unfolding conns_def using made pre p m h by (simp add: makeNatHole_def Let_def l_def [symmetric])
      note run = this [unfolded u]
      show ?thesis
      proof (cases r)
        case None
        then show ?thesis using run left by simp
      next
        case (Some x)
        obtain c a where x: "x = (c, a)" by (cases x)
        have R3: "R \<union> set conns - set closed = insert c R" "c \<notin> R" using left f(2) by (auto simp: Some x)
        obtain b t1 R1 where i: "init (he_init he) c t (insert c R) = (b, t1, R1)" by (metis prod_cases3)
        have res: "t' = t1" "R' = (if b then R1 else R1 - {c})" using run by (simp_all add: Some x R3(1) i split: bool.splits if_splits)
        show ?thesis
        proof (cases b)
          case True
          then show ?thesis using init_opens [of "he_init he" c t "insert c R" t1 R1] i res R3(2) by auto
        next
          case False
          then have "t1 = t \<and> R1 - {c} = insert c R - {c}" using init_fails [of "he_init he" c t "insert c R" t1 R1] i good by simp
          then show ?thesis using False res R3(2) by simp
        qed
      qed
    qed
  qed
qed

end

definition good_init :: "'r init_env \<Rightarrow> bool" where
  "good_init e \<longleftrightarrow> ie_fmux e \<noteq> None \<or> ie_owns e"

interpretation kcp: tunnel_session kcp_Init good_init
  by unfold_locales
    (auto simp: kcp_Init_def good_init_def held_def new_resources_def Let_def split: option.splits if_splits)

interpretation quic: tunnel_session quic_Init good_init
  by unfold_locales
    (auto simp: quic_Init_def held_def new_resources_def split: option.splits if_splits)

interpretation chosen: tunnel_session "session_Init protocol" good_init
  by (simp add: session_Init_def kcp.tunnel_session_axioms quic.tunnel_session_axioms)

section \<open>The peer-to-peer visitor at work\<close>

text \<open>Its session and the open resources; whether it was closed; whether a hole is being made; the callers of \<open>getTunnelConn\<close> that have
  failed to open a connection and have not yet closed the session, and those that have closed it and have not yet asked for a
  hole; whether the worker that keeps the tunnel open still waits to send its first event.\<close>

record 'r xtcp =
  xt_t :: "'r tunnel"
  xt_R :: "'r set"
  xt_cancelled :: bool
  xt_busy :: bool
  xt_failed :: nat
  xt_signals :: nat
  xt_keep :: bool

definition NewXTCP :: "bool \<Rightarrow> 'r xtcp" where
  "NewXTCP keepTunnelOpen =
     \<lparr>xt_t = NewTunnelSession, xt_R = {}, xt_cancelled = False, xt_busy = False, xt_failed = 0, xt_signals = 0, xt_keep = keepTunnelOpen\<rparr>"

definition fresh_hole :: "('r, 'a, 'x) hole_env \<Rightarrow> 'r set \<Rightarrow> bool" where
  "fresh_hole he R \<longleftrightarrow> good_init (he_init he)
     \<and> (case he_listen he of None \<Rightarrow> True | Some l \<Rightarrow> l \<notin> R \<and>
         (case ExchangeInfo (he_answer he) of
            Inl _ \<Rightarrow> True
          | Inr m \<Rightarrow> distinct (listen_conns (he_random he) m l) \<and> set (listen_conns (he_random he) m l) \<inter> R = {}
              \<and> mset (map snd (he_order he)) = mset (listen_conns (he_random he) m l)))"

text \<open>The event channel has no buffer: an event is taken only by a worker that waits for it (not while it makes a hole or pauses after one), else it is dropped, apart
  from the first one of the worker that keeps the tunnel open, which blocks. \<open>may\<close> restricts when holes are made.\<close>

inductive xt_step :: "string \<Rightarrow> ('r xtcp \<Rightarrow> bool) \<Rightarrow> 'r xtcp \<Rightarrow> 'r xtcp \<Rightarrow> bool" for protocol may where
  getTunnelConn_fails: "OpenConn (opens :: 'r \<Rightarrow> unit option) (xt_t x) = err e \<Longrightarrow> xt_step protocol may x (x\<lparr>xt_failed := Suc (xt_failed x)\<rparr>)"
| getTunnelConn_closes: "xt_failed x = Suc n \<Longrightarrow> tunnel_Close (xt_t x) (xt_R x) = (t', R')
    \<Longrightarrow> xt_step protocol may x (x\<lparr>xt_t := t', xt_R := R', xt_failed := n, xt_signals := Suc (xt_signals x)\<rparr>)"
| getTunnelConn_signals: "xt_signals x = Suc n \<Longrightarrow> xt_step protocol may x (x\<lparr>xt_signals := n, xt_busy := xt_busy x \<or> \<not> xt_cancelled x\<rparr>)"
| getTunnelConn_dropped: "xt_signals x = Suc n \<Longrightarrow> xt_step protocol may x (x\<lparr>xt_signals := n\<rparr>)"
| keep_signals: "xt_keep x \<Longrightarrow> \<not> xt_busy x \<Longrightarrow> \<not> xt_cancelled x \<Longrightarrow> xt_step protocol may x (x\<lparr>xt_keep := False, xt_busy := True\<rparr>)"
| makes: "xt_busy x \<Longrightarrow> may x \<Longrightarrow> fresh_hole he (xt_R x) \<Longrightarrow> makeNatHole (session_Init protocol) (he :: ('r, string, unit) hole_env) server d (xt_t x) (xt_R x) = (t', R')
    \<Longrightarrow> xt_step protocol may x (x\<lparr>xt_t := t', xt_R := R', xt_busy := False\<rparr>)"
| visitor_Close: "tunnel_Close (xt_t x) (xt_R x) = (t', R') \<Longrightarrow> xt_step protocol may x (x\<lparr>xt_t := t', xt_R := R', xt_cancelled := True\<rparr>)"

inductive xt_reach :: "string \<Rightarrow> ('r xtcp \<Rightarrow> bool) \<Rightarrow> 'r xtcp \<Rightarrow> bool" for protocol may where
  new: "xt_reach protocol may (NewXTCP keep)"
| step: "xt_reach protocol may x \<Longrightarrow> xt_step protocol may x x' \<Longrightarrow> xt_reach protocol may x'"

definition no_session :: "'r xtcp \<Rightarrow> bool" where
  "no_session x \<longleftrightarrow> tn_session (xt_t x) = None \<and> \<not> xt_cancelled x"

definition xt_inv :: "'r xtcp \<Rightarrow> bool" where
  "xt_inv x \<longleftrightarrow> xt_R x = held (xt_t x) \<and> (tn_session (xt_t x) = None \<longrightarrow> xt_t x = NewTunnelSession) \<and> (xt_cancelled x \<longrightarrow> xt_t x = NewTunnelSession)"

lemma held_New [simp]: "held NewTunnelSession = {}"
  by (simp add: held_def NewTunnelSession_def)

lemma fresh_holeD:
  assumes "fresh_hole he R"
  shows "good_init (he_init he)"
    and "he_listen he = Some l \<Longrightarrow> l \<notin> R"
    and "ExchangeInfo (he_answer he) = ok m \<Longrightarrow> he_listen he = Some l \<Longrightarrow>
      distinct (listen_conns (he_random he) m l) \<and> set (listen_conns (he_random he) m l) \<inter> R = {}
      \<and> mset (map snd (he_order he)) = mset (listen_conns (he_random he) m l)"
  using assms by (simp_all add: fresh_hole_def)

lemma xt_step_inv: "xt_step protocol no_session x x' \<Longrightarrow> xt_inv x \<Longrightarrow> xt_inv x'"
proof (induction rule: xt_step.induct)
  case (makes x he server d t' R')
  have x: "xt_t x = NewTunnelSession" "xt_R x = {}" "\<not> xt_cancelled x" using makes(2,5) by (simp_all add: xt_inv_def no_session_def)
  have "t' = xt_t x \<and> R' = xt_R x \<or> tn_session t' \<noteq> None \<and> R' = xt_R x \<union> held t'"
    by (rule chosen.hole_no_leak [OF makes(4) fresh_holeD(1) [OF makes(3)] fresh_holeD(3) [OF makes(3)] fresh_holeD(2) [OF makes(3)]])
  then show ?case using x by (elim disjE conjE exE) (auto simp: xt_inv_def)
qed (auto simp: xt_inv_def tunnel_Close_def)

text \<open>C37. No socket is lost. As long as holes are only made while there is no session and the visitor is open, the sockets and sessions that
  are open are exactly those of the current session, and a visitor that was closed has none.\<close>

theorem xtcp_sockets_owned:
  assumes "xt_reach protocol no_session x"
  shows "xt_R x = held (xt_t x) \<and> (xt_cancelled x \<longrightarrow> xt_R x = {})"
proof -
  have "xt_inv x" using assms
  proof (induction rule: xt_reach.induct)
    case (step x x')
    then show ?case by (blast intro: xt_step_inv)
  qed (simp add: xt_inv_def NewXTCP_def)
  then show ?thesis by (auto simp: xt_inv_def)
qed

text \<open>A hole that succeeds: the socket \<open>n\<close>, on which a QUIC session \<open>Suc n\<close> is opened.\<close>

definition demo_resp :: NatHoleResp where
  "demo_resp = \<lparr>nr_TransactionID = [], nr_Sid = ''s'', nr_Protocol = ''quic'', nr_CandidateAddrs = [''1.2.3.4:5''], nr_AssistedAddrs = [],
     nr_DetectBehavior = zero_detect\<lparr>db_Role := DetectRoleSender\<rparr>, nr_Error = []\<rparr>"

definition demo_hole :: "nat \<Rightarrow> (nat, string, unit) hole_env" where
  "demo_hole n = \<lparr>he_precheck = Some (Inl demo_resp), he_stun = (\<lambda>_. Some \<lparr>st_externalAddr = ''9.9.9.9:9'', st_otherAddr = ''o''\<rparr>), he_ips = None,
     he_port = Some 7, he_listen = Some n, he_answer = Some (Inl demo_resp), he_enc = (\<lambda>_. True), he_random = (\<lambda>_. None),
     he_arrivals = (\<lambda>_. [(1, ''1.2.3.4:5'', Some ((sid_message [] ''s'' 0)\<lparr>sd_Response := True\<rparr>))]), he_order = [(True, n)], he_now = 0,
     he_init = \<lparr>ie_dial = None, ie_kcp = False, ie_fmux = None, ie_owns = True, ie_tls = True, ie_quic = Some (Suc n)\<rparr>\<rparr>"

lemma demo_classify: "\<exists>f. ClassifyNATFeature [''9.9.9.9:9'', ''9.9.9.9:9''] [] = ok f"
proof -
  have "isl (ClassifyNATFeature [''9.9.9.9:9'', ''9.9.9.9:9''] []) = False" by code_simp
  then show ?thesis by (cases "ClassifyNATFeature [''9.9.9.9:9'', ''9.9.9.9:9''] []") auto
qed

lemma demo_hole_made:
  "makeNatHole (session_Init ''quic'') (demo_hole n) server d t R = (\<lparr>tn_session = Some (Suc n), tn_conn = Some n\<rparr>, R \<union> {n, Suc n})"
proof -
  obtain f where f: "ClassifyNATFeature [''9.9.9.9:9'', ''9.9.9.9:9''] [] = ok f" using demo_classify by blast
  show ?thesis
    by (simp add: makeNatHole_def demo_hole_def demo_resp_def PreCheck_def ExchangeInfo_def Prepare_def discoverFromStunServer_def f Let_def
        listen_conns_def MakeHole_def read_timeout_def zero_detect_def on_packet_def sid_message_def session_Init_def quic_Init_def insert_commute)
qed

lemma demo_hole_fresh: "n \<notin> R \<Longrightarrow> fresh_hole (demo_hole n) R"
  by (simp add: fresh_hole_def demo_hole_def demo_resp_def ExchangeInfo_def good_init_def listen_conns_def zero_detect_def)

lemma demo_makes:
  assumes "xt_reach ''quic'' may x" and "xt_busy x" and "may x" and "n \<notin> xt_R x"
  shows "xt_reach ''quic'' may (x\<lparr>xt_t := \<lparr>tn_session = Some (Suc n), tn_conn = Some n\<rparr>, xt_R := xt_R x \<union> {n, Suc n}, xt_busy := False\<rparr>)"
  by (rule xt_reach.step [OF assms(1)], rule makes [OF assms(2) _ demo_hole_fresh [OF assms(4)] demo_hole_made], rule assms(3))

lemma demo_asks: "xt_reach ''quic'' may ((NewXTCP keep :: nat xtcp)\<lparr>xt_busy := True\<rparr>)"
proof -
  let ?x = "NewXTCP keep :: nat xtcp"
  have "xt_step ''quic'' may ?x (?x\<lparr>xt_failed := Suc (xt_failed ?x)\<rparr>)"
    by (rule getTunnelConn_fails [where opens = "\<lambda>_. None" and e = NoTunnelSession]) (simp add: NewXTCP_def NewTunnelSession_def OpenConn_def)
  from xt_reach.step [OF xt_reach.new this] have a: "xt_reach ''quic'' may (?x\<lparr>xt_failed := 1\<rparr>)" by (simp add: NewXTCP_def)
  have "xt_step ''quic'' may (?x\<lparr>xt_failed := 1\<rparr>) (?x\<lparr>xt_failed := 1, xt_t := NewTunnelSession, xt_R := {}, xt_failed := 0, xt_signals := Suc (xt_signals (?x\<lparr>xt_failed := 1\<rparr>))\<rparr>)"
    by (rule getTunnelConn_closes) (simp_all add: NewXTCP_def tunnel_Close_def)
  from xt_reach.step [OF a this] have b: "xt_reach ''quic'' may (?x\<lparr>xt_signals := 1\<rparr>)" by (simp add: NewXTCP_def)
  have "xt_step ''quic'' may (?x\<lparr>xt_signals := 1\<rparr>) (?x\<lparr>xt_signals := 1, xt_signals := 0, xt_busy := xt_busy (?x\<lparr>xt_signals := 1\<rparr>) \<or> \<not> xt_cancelled (?x\<lparr>xt_signals := 1\<rparr>)\<rparr>)"
    by (rule getTunnelConn_signals) simp
  from xt_reach.step [OF b this] show ?thesis by (simp add: NewXTCP_def)
qed

theorem xtcp_sockets_owned_witness:
  "\<exists>x. xt_reach ''quic'' no_session x \<and> xt_R x = {3 :: nat, 4} \<and> xt_R x = held (xt_t x)"
proof -
  have "no_session ((NewXTCP False :: nat xtcp)\<lparr>xt_busy := True\<rparr>)" by (simp add: no_session_def NewXTCP_def NewTunnelSession_def)
  then have "xt_reach ''quic'' no_session ((NewXTCP False :: nat xtcp)\<lparr>xt_busy := True, xt_t := \<lparr>tn_session = Some (Suc 3), tn_conn = Some 3\<rparr>,
      xt_R := xt_R ((NewXTCP False)\<lparr>xt_busy := True\<rparr>) \<union> {3, Suc 3}, xt_busy := False\<rparr>)" (is "xt_reach _ _ ?x")
    by (intro demo_makes demo_asks) (simp_all add: NewXTCP_def)
  moreover have "xt_R ?x = {3, 4}" by (simp add: NewXTCP_def)
  ultimately show ?thesis using xtcp_sockets_owned [of "''quic''" ?x] by blast
qed

text \<open>Both restrictions are needed. A hole that is being made when the visitor is closed leaves a session that nobody closes; and
  with a tunnel that is kept open, the first event of the worker is sent even if a user has opened a session meanwhile, which
  is then overwritten and never closed.\<close>

lemma demo_keeps:
  assumes "xt_reach ''quic'' may x" and "xt_keep x" "\<not> xt_busy x" "\<not> xt_cancelled x"
  shows "xt_reach ''quic'' may (x\<lparr>xt_keep := False, xt_busy := True\<rparr>)"
  by (rule xt_reach.step [OF assms(1)], rule keep_signals [OF assms(2-4)])

theorem hole_after_close_leaks:
  "\<exists>x. xt_reach ''quic'' (\<lambda>_. True) (x :: nat xtcp) \<and> xt_cancelled x \<and> \<not> xt_busy x \<and> xt_R x \<noteq> {}"
proof -
  let ?x = "(NewXTCP False)\<lparr>xt_busy := True\<rparr> :: nat xtcp" and ?may = "\<lambda>_ :: nat xtcp. True"
  have "xt_step ''quic'' ?may ?x (?x\<lparr>xt_t := NewTunnelSession, xt_R := {}, xt_cancelled := True\<rparr>)"
    by (rule visitor_Close) (simp add: NewXTCP_def tunnel_Close_def)
  from demo_makes [OF xt_reach.step [OF demo_asks this], of 3]
  have "xt_reach ''quic'' ?may ((NewXTCP False)\<lparr>xt_cancelled := True, xt_t := \<lparr>tn_session = Some 4, tn_conn = Some 3\<rparr>, xt_R := {3, 4}\<rparr>)" (is "xt_reach _ _ ?y")
    by (simp add: NewXTCP_def)
  then show ?thesis by (intro exI [of _ ?y]) (simp add: NewXTCP_def)
qed

theorem second_hole_leaks:
  "\<exists>x. xt_reach ''quic'' (\<lambda>x. \<not> xt_cancelled x) (x :: nat xtcp) \<and> xt_R x = {3, 4, 5, 6} \<and> held (xt_t x) = {5, 6}"
proof -
  let ?may = "\<lambda>x :: nat xtcp. \<not> xt_cancelled x"
  have "xt_reach ''quic'' ?may ((NewXTCP True)\<lparr>xt_t := \<lparr>tn_session = Some 4, tn_conn = Some 3\<rparr>, xt_R := {3, 4}\<rparr>)" (is "xt_reach _ _ ?x")
    using demo_makes [OF demo_asks [of ?may True], of 3] by (simp add: NewXTCP_def)
  then have "xt_reach ''quic'' ?may (?x\<lparr>xt_keep := False, xt_busy := True\<rparr>)" by (rule demo_keeps) (simp_all add: NewXTCP_def)
  from demo_makes [OF this, of 5]
  have "xt_reach ''quic'' ?may ((NewXTCP False)\<lparr>xt_t := \<lparr>tn_session = Some 6, tn_conn = Some 5\<rparr>, xt_R := {3, 4, 5, 6}\<rparr>)" (is "xt_reach _ _ ?y")
    by (simp add: NewXTCP_def insert_commute)
  then show ?thesis by (intro exI [of _ ?y]) (auto simp: NewXTCP_def held_def)
qed

section \<open>Serving users through the tunnel\<close>

text \<open>\<open>openTunnel\<close> in milliseconds: \<open>att i\<close> is how long the attempt \<open>i\<close> takes and what it returns. It runs at \<open>now\<close> and its timer fires
  at \<open>fire\<close>; at the deadline it ends with \<open>stop\<close>, and if both happen at once, \<open>coin\<close> decides. The result comes with the number of
  attempts and the time.\<close>

function openTunnel ::
  "(nat \<Rightarrow> nat \<times> (open_error, 'c) result) \<Rightarrow> (nat \<Rightarrow> bool) \<Rightarrow> open_error \<Rightarrow> nat \<Rightarrow> nat \<Rightarrow> nat \<Rightarrow> nat \<Rightarrow> (open_error, 'c) result \<times> nat \<times> nat" where
  "openTunnel att coin stop deadline i now fire =
     (if deadline < fire \<or> (deadline = fire \<and> coin i) then (err stop, i, max now deadline)
      else (case att i of
              (d, Inr c) \<Rightarrow> (ok c, Suc i, fire + d)
            | (d, Inl _) \<Rightarrow> openTunnel att coin stop deadline (Suc i) (fire + d) (fire + d + 500)))"
  by pat_completeness auto
termination by (relation "measure (\<lambda>(att, coin, stop, deadline, i, now, fire). Suc deadline - fire)") auto

declare openTunnel.simps [simp del]

lemma openTunnel_result:
  "openTunnel att coin stop deadline i now fire = (r, n, time) \<Longrightarrow>
     i \<le> n \<and> 500 * (n - i) \<le> deadline + 500 - fire \<and> (\<forall>j. i \<le> j \<and> j < n - (if isl r then 0 else 1) \<longrightarrow> isl (snd (att j)))
     \<and> (case r of Inl e \<Rightarrow> e = stop \<and> deadline \<le> time | Inr c \<Rightarrow> i < n \<and> snd (att (n - 1)) = ok c)"
proof (induction att coin stop deadline i now fire rule: openTunnel.induct)
  case (1 att coin stop deadline i now fire)
  show ?case
  proof (cases "deadline < fire \<or> (deadline = fire \<and> coin i)")
    case True
    then show ?thesis using 1(2) by (auto simp: openTunnel.simps [of att coin stop deadline i now fire])
  next
    case go: False
    obtain d x where a: "att i = (d, x)" by (cases "att i")
    show ?thesis
    proof (cases x)
      case (Inr c)
      then show ?thesis using 1(2) go a by (auto simp: openTunnel.simps [of att coin stop deadline i now fire])
    next
      case (Inl e)
      then have rec: "openTunnel att coin stop deadline (Suc i) (fire + d) (fire + d + 500) = (r, n, time)"
        using 1(2) go a by (simp add: openTunnel.simps [of att coin stop deadline i now fire])
      note IH = 1(1) [OF go a [symmetric] Inl rec]
      have first: "isl (snd (att i))" using a Inl by simp
      have all: "isl (snd (att j))" if "i \<le> j" "j < n - (if isl r then 0 else 1)" for j
        using IH first that by (cases "j = i") auto
      have "500 * (n - i) \<le> deadline + 500 - fire" using IH go by (auto split: if_splits)
      then show ?thesis using IH all by (auto split: sum.splits)
    qed
  qed
qed

lemma openTunnel_finds:
  assumes "snd (att (i + k)) = ok c" and "\<forall>j < k. isl (snd (att (i + j)))" and "fire + (\<Sum>j < k. fst (att (i + j)) + 500) < deadline"
  shows "fst (openTunnel att coin stop deadline i now fire) = ok c"
  using assms
proof (induction k arbitrary: i now fire)
  case 0
  then show ?case by (auto simp: openTunnel.simps [of att coin stop deadline i now fire] split: prod.splits)
next
  case (Suc k)
  obtain d e where a: "att i = (d, Inl e)" using Suc.prems(2) by (cases "att i") (auto simp: isl_def)
  have "(\<Sum>j < Suc k. fst (att (i + j)) + 500) = d + 500 + (\<Sum>j < k. fst (att (Suc i + j)) + 500)"
    unfolding sum.lessThan_Suc_shift using a by simp
  then have "fire + d + 500 + (\<Sum>j < k. fst (att (Suc i + j)) + 500) < deadline" and f: "fire < deadline" using Suc.prems(3) by simp_all
  moreover have "\<forall>j < k. isl (snd (att (Suc i + j)))" using Suc.prems(2) by (metis Suc_less_eq add_Suc_shift)
  ultimately have "fst (openTunnel att coin stop deadline (Suc i) (fire + d) (fire + d + 500)) = ok c"
    using Suc.IH [of "Suc i" "fire + d + 500" "fire + d"] Suc.prems(1) by simp
  then show ?case using a f by (simp add: openTunnel.simps [of att coin stop deadline i now fire])
qed

definition tunnel_deadline :: "XTCPVisitorConfig \<Rightarrow> nat" where
  "tunnel_deadline cfg = (if xv_FallbackTo cfg \<noteq> [] then min (nat (xv_FallbackTimeoutMs cfg)) 20000 else 20000)"

text \<open>A user of the peer-to-peer visitor. Without a tunnel in time the connection is handed to the visitor to fall back to, if there is
  one and it takes it (\<open>accept\<close>).\<close>

definition xtcp_handleConn ::
  "(nat \<Rightarrow> nat \<times> (open_error, 'c) result) \<Rightarrow> (nat \<Rightarrow> bool) \<Rightarrow> bool \<Rightarrow> ('v \<Rightarrow> bool) \<Rightarrow> 'v visitor_table \<Rightarrow> XTCPVisitorConfig \<Rightarrow> 'c visitor_outcome" where
  "xtcp_handleConn att coin enc_ok accept vm cfg =
     (case openTunnel att coin OpenTimeout (tunnel_deadline cfg) 0 0 0 of
        (Inl e, _) \<Rightarrow>
          (if xv_FallbackTo cfg = [] then UserFailed
           else (case TransferConn (xv_FallbackTo cfg) vm of
                   Inl _ \<Rightarrow> UserFailed
                 | Inr v \<Rightarrow> if accept v then UserTransferred (xv_FallbackTo cfg) else UserFailed))
      | (Inr c, _) \<Rightarrow> if wrapVisitorConn enc_ok (VisitorBaseConfig.truncate cfg) then UserJoined c else UserFailed)"

text \<open>Serving a user through a tunnel. If an attempt succeeds that starts before the deadline, the user is joined with what the
  first such attempt returns; a user is only joined with that, and after at most \<open>41\<close> attempts; a user for whom no attempt
  succeeds is handed to the visitor to fall back to, if there is one.\<close>

theorem xtcp_user_served:
  fixes att :: "nat \<Rightarrow> nat \<times> (open_error, 'c) result" and cfg :: XTCPVisitorConfig and vm :: "'v visitor_table"
    and coin :: "nat \<Rightarrow> bool" and accept :: "'v \<Rightarrow> bool"
  assumes enc: "wrapVisitorConn enc_ok (VisitorBaseConfig.truncate cfg)"
  defines "out \<equiv> xtcp_handleConn att coin enc_ok accept vm cfg"
  shows "(snd (att k) = ok c \<and> (\<forall>j < k. isl (snd (att j))) \<and> (\<Sum>j < k. fst (att j) + 500) < tunnel_deadline cfg \<longrightarrow> out = UserJoined c)
    \<and> (out = UserJoined c \<longrightarrow> (\<exists>k \<le> 40. snd (att k) = ok c \<and> (\<forall>j < k. isl (snd (att j)))))
    \<and> ((\<forall>j. isl (snd (att j))) \<longrightarrow> out = (case TransferConn (xv_FallbackTo cfg) vm of
         Inr v \<Rightarrow> if xv_FallbackTo cfg \<noteq> [] \<and> accept v then UserTransferred (xv_FallbackTo cfg) else UserFailed | Inl _ \<Rightarrow> UserFailed))"
proof -
  obtain r n time where o: "openTunnel att coin OpenTimeout (tunnel_deadline cfg) 0 0 0 = (r, n, time)" by (metis prod_cases3)
  note R = openTunnel_result [OF o]
  have d: "tunnel_deadline cfg \<le> 20000" by (simp add: tunnel_deadline_def)
  have "out = UserJoined c" if "snd (att k) = ok c \<and> (\<forall>j < k. isl (snd (att j))) \<and> (\<Sum>j < k. fst (att j) + 500) < tunnel_deadline cfg"
  proof -
    have "r = ok c" using openTunnel_finds [of att 0 k c 0 "tunnel_deadline cfg" coin OpenTimeout 0] that o by simp
    then show ?thesis using o enc by (simp add: out_def xtcp_handleConn_def)
  qed
  moreover have "\<exists>k \<le> 40. snd (att k) = ok c \<and> (\<forall>j < k. isl (snd (att j)))" if "out = UserJoined c"
  proof -
    have r: "r = ok c" using that o by (auto simp: out_def xtcp_handleConn_def split: sum.splits if_splits)
    have "n - 1 \<le> 40" "snd (att (n - 1)) = ok c" "\<forall>j < n - 1. isl (snd (att j))" using R d r by auto
    then show ?thesis by blast
  qed
  moreover have "out = (case TransferConn (xv_FallbackTo cfg) vm of
      Inr v \<Rightarrow> if xv_FallbackTo cfg \<noteq> [] \<and> accept v then UserTransferred (xv_FallbackTo cfg) else UserFailed | Inl _ \<Rightarrow> UserFailed)"
    if "\<forall>j. isl (snd (att j))"
  proof -
    have "\<exists>e. r = err e" using R that by (cases r) (auto, metis isl_def sum.simps(4))
    then show ?thesis using o by (auto simp: out_def xtcp_handleConn_def split: sum.splits)
  qed
  ultimately show ?thesis by blast
qed

definition demo_xtcp :: XTCPVisitorConfig where
  "demo_xtcp = VisitorBaseConfig.extend (zero_visitor\<lparr>vb_Name := ''v'', vb_Type := ''xtcp'', vb_ServerName := ''p'', vb_BindPort := 80\<rparr>)
     (XTCPVisitorConfig.fields ''quic'' False 8 90 ''other'' 1000 None)"

theorem xtcp_user_served_witness:
  "xtcp_handleConn (\<lambda>i. (10, if i = 1 then ok (7 :: nat) else err NoTunnelSession)) (\<lambda>_. False) True (\<lambda>_ :: unit. True) NewVisitorTable demo_xtcp = UserJoined 7"
proof -
  let ?att = "\<lambda>i :: nat. (10, if i = 1 then ok 7 else err NoTunnelSession) :: nat \<times> (open_error, nat) result"
  have e: "wrapVisitorConn True (VisitorBaseConfig.truncate demo_xtcp)" by (simp add: wrapVisitorConn_def)
  have "tunnel_deadline demo_xtcp = 1000" by (simp add: tunnel_deadline_def demo_xtcp_def VisitorBaseConfig.defs XTCPVisitorConfig.defs)
  then have "snd (?att 1) = ok 7 \<and> (\<forall>j < 1. isl (snd (?att j))) \<and> (\<Sum>j < 1. fst (?att j) + 500) < tunnel_deadline demo_xtcp"
    by (simp add: lessThan_Suc)
  with xtcp_user_served [OF e, of ?att 1 7 "\<lambda>_. False" "\<lambda>_ :: unit. True" NewVisitorTable] show ?thesis by blast
qed

text \<open>The worker that keeps a tunnel open makes a ticker, which panics unless its interval is positive; a negative interval passes the
  validation.\<close>

definition keep_worker_panics :: "XTCPVisitorConfig \<Rightarrow> bool" where
  "keep_worker_panics cfg \<longleftrightarrow> xv_KeepTunnelOpen cfg \<and> wrap64 (xv_MinRetryInterval cfg * 10 ^ 9) \<le> 0"

theorem valid_visitor_panics:
  "\<exists>cfg. ValidateVisitorConfigurer (vc_Complete (XTCPVisitorConf cfg)) = None
     \<and> (\<exists>cfg'. vc_Complete (XTCPVisitorConf cfg) = XTCPVisitorConf cfg' \<and> keep_worker_panics cfg')"
proof (intro exI conjI)
  let ?c = "demo_xtcp\<lparr>xv_KeepTunnelOpen := True, xv_MinRetryInterval := -1\<rparr>"
  let ?d = "?c\<lparr>vb_BindAddr := ''127.0.0.1''\<rparr>"
  show c: "vc_Complete (XTCPVisitorConf ?c) = XTCPVisitorConf ?d"
    by (simp add: demo_xtcp_def zero_visitor_def vb_Complete_def EmptyOr_def EmptyOr_int_def VisitorBaseConfig.defs XTCPVisitorConfig.defs Let_def)
  show "ValidateVisitorConfigurer (vc_Complete (XTCPVisitorConf ?c)) = None"
    unfolding c by (simp add: ValidateVisitorConfigurer_def validateVisitorBaseConfig_def validateXTCPVisitorConfig_def demo_xtcp_def zero_visitor_def
        VisitorBaseConfig.defs XTCPVisitorConfig.defs)
  show "keep_worker_panics ?d" by (simp add: keep_worker_panics_def wrap64_def)
qed

section \<open>The side of the proxy\<close>

text \<open>\<open>InWorkConn\<close> of a peer-to-peer proxy: the session id that the server sends on the work connection, the preparation, the exchange, the hole, the
  reports. The result is the messages that are sent, the hole, and the sockets that are closed when it returns.\<close>

datatype hole_msg = SendNatHoleClient NatHoleClient | SendNatHoleReport NatHoleReport

record ('r, 'a, 'x) proxy_env =
  pe_sid :: "string option"
  pe_prepare :: "(prepare_error, 'r PrepareResult) result"
  pe_transaction :: string
  pe_answer :: "(NatHoleResp + 'x) option"
  pe_hole :: "NatHoleResp \<Rightarrow> 'r \<Rightarrow> ('r \<times> 'a) option \<times> 'r list"

definition nat_hole_client_msg :: "string \<Rightarrow> string \<Rightarrow> string \<Rightarrow> string \<Rightarrow> 'r PrepareResult \<Rightarrow> NatHoleClient" where
  "nat_hole_client_msg user name transactionID sid p =
     \<lparr>nc_TransactionID = transactionID, nc_ProxyName = AddUserPrefix user name, nc_Sid = sid, nc_MappedAddrs = pr_Addrs p,
      nc_AssistedAddrs = pr_AssistedAddrs p\<rparr>"

definition xtcp_InWorkConn :: "string \<Rightarrow> string \<Rightarrow> ('r, 'a, 'x) proxy_env \<Rightarrow> hole_msg list \<times> ('r \<times> 'a \<times> bool) option \<times> 'r list" where
  "xtcp_InWorkConn user name e =
     (case pe_sid e of
        None \<Rightarrow> ([], None, [])
      | Some sid \<Rightarrow>
          (case pe_prepare e of
             Inl _ \<Rightarrow> ([], None, [])
           | Inr p \<Rightarrow>
               (let l = pr_ListenConn p; sent = [SendNatHoleClient (nat_hole_client_msg user name (pe_transaction e) sid p)] in
                case ExchangeInfo (pe_answer e) of
                  Inl _ \<Rightarrow> (sent, None, [l])
                | Inr m \<Rightarrow>
                    (case pe_hole e m l of
                       (None, closed) \<Rightarrow> (sent @ [SendNatHoleReport \<lparr>nrep_Sid = nr_Sid m, nrep_Success = False\<rparr>], None, closed @ [l])
                     | (Some (c, a), closed) \<Rightarrow>
                         (sent @ [SendNatHoleReport \<lparr>nrep_Sid = nr_Sid m, nrep_Success = True\<rparr>],
                          Some (c, a, nr_Protocol m = ''kcp''), closed @ [c, l])))))"

section \<open>Visitor, proxy and controller together\<close>

lemma recommended_complementary:
  assumes "analyzer_ok a" and "GetRecommandBehaviors now key c v a = ((mode, index, cB, vB), a')"
  shows "complementary cB vB"
proof -
  obtain p where p: "p \<in> set (getBehaviorByMode mode)" "(cB, vB) = (fst p, snd p) \<or> (cB, vB) = (snd p, fst p)"
    using GetRecommandBehaviors_ok(2) [OF assms] by (auto split: if_splits)
  show ?thesis using tables_complementary [OF p(1)] p(2) by (auto simp: complementary_def)
qed

lemma precheck_answer:
  assumes "clientCfgs c target = Some cc"
  shows "\<exists>r. HandleVisitor md5hex (precheck_msg t target) visitorUser sid c = (Reply r, c)
    \<and> (PreCheck (Some (Inl r :: NatHoleResp + 'x)) = None \<longleftrightarrow> visitorUser \<in> set (cc_allowUsers cc) \<or> ''*'' \<in> set (cc_allowUsers cc))"
  using assms by (auto simp: HandleVisitor_def precheck_msg_def PreCheck_def GenNatHoleResponse_def)

lemma exchange_answers:
  assumes cfg: "clientCfgs c (BuildTargetServerProxyName user (vb_ServerUser x) (vb_ServerName x)) = Some cc" "cc_sk cc = vb_SecretKey x"
    and pv: "Prepare st1 ips1 port1 l1 servers1 d1 = ok pv" and pc: "Prepare st2 ips2 port2 l2 servers2 d2 = ok pc"
    and an: "analyzer_ok (analyzer c)"
  shows "\<exists>c1 vr cr c2. HandleVisitor md5hex (nat_hole_visitor_msg md5hex user now t1 x pv) visitorUser sid c = (Waiting sid, c1)
    \<and> visitor_analyse md5hex now' sid (HandleClient (nat_hole_client_msg user2 name t2 sid pc) c1) = (Some (vr, cr), c2)
    \<and> ExchangeInfo (Some (Inl vr :: NatHoleResp + 'x)) = ok vr \<and> ExchangeInfo (Some (Inl cr :: NatHoleResp + 'x)) = ok cr
    \<and> nr_TransactionID vr = t1 \<and> nr_TransactionID cr = t2 \<and> nr_Sid vr = sid \<and> nr_Sid cr = sid
    \<and> nr_CandidateAddrs vr = remdups_adj (pr_Addrs pc) \<and> nr_CandidateAddrs cr = remdups_adj (pr_Addrs pv)
    \<and> {db_Role (nr_DetectBehavior vr), db_Role (nr_DetectBehavior cr)} = {DetectRoleSender, DetectRoleReceiver}"
proof -
  let ?vm = "nat_hole_visitor_msg md5hex user now t1 x pv" and ?cm = "nat_hole_client_msg user2 name t2 sid pc"
  let ?s = "\<lparr>ss_sid = sid, ss_analysisKey = [], ss_recommandMode = 0, ss_recommandIndex = 0, ss_visitorMsg = ?vm, ss_clientMsg = None, ss_notified = False\<rparr>"
  let ?c1 = "c\<lparr>sessions := (sessions c)(sid \<mapsto> ?s)\<rparr>"
  let ?s' = "?s\<lparr>ss_clientMsg := Some ?cm, ss_notified := True\<rparr>"
  have v: "HandleVisitor md5hex ?vm visitorUser sid c = (Waiting sid, ?c1)"
    using cfg by (simp add: HandleVisitor_def nat_hole_visitor_msg_def Let_def)
  have h: "HandleClient ?cm ?c1 = ?c1\<lparr>sessions := (sessions ?c1)(sid \<mapsto> ?s')\<rparr>"
    by (simp add: HandleClient_def nat_hole_client_msg_def)
  obtain vf where vf: "ClassifyNATFeature (pr_Addrs pv) (parseIPs (pr_AssistedAddrs pv)) = ok vf"
    using Prepare_addrs [OF pv] Classify_any by blast
  obtain cf where cf: "ClassifyNATFeature (pr_Addrs pc) (parseIPs (pr_AssistedAddrs pc)) = ok cf"
    using Prepare_addrs [OF pc] Classify_any by blast
  have ne: "pr_Addrs pv \<noteq> []" "pr_Addrs pc \<noteq> []" using Prepare_addrs [OF pv] Prepare_addrs [OF pc] by auto
  have f: "nv_MappedAddrs ?vm = pr_Addrs pv" "nv_AssistedAddrs ?vm = pr_AssistedAddrs pv" "nv_TransactionID ?vm = t1"
    "nc_MappedAddrs ?cm = pr_Addrs pc" "nc_AssistedAddrs ?cm = pr_AssistedAddrs pc" "nc_TransactionID ?cm = t2"
    by (simp_all add: nat_hole_visitor_msg_def nat_hole_client_msg_def)
  obtain mode index cB vB a1 where R: "GetRecommandBehaviors now' (genAnalysisKey md5hex ?vm vf ?cm cf) cf vf (analyzer c) = ((mode, index, cB, vB), a1)"
    by (metis prod.exhaust)
  have comp: "{rb_Role vB, rb_Role cB} = {DetectRoleSender, DetectRoleReceiver}"
    using recommended_complementary [OF an R] by (auto simp: complementary_def)
  obtain vr cr s2 a2 where an: "analysis md5hex now' ?s' ?cm (analyzer c) = (ok (vr, cr, s2), a2)"
      "nr_Error vr = []" "nr_Error cr = []" "nr_CandidateAddrs vr = remdups_adj (pr_Addrs pc)" "nr_CandidateAddrs cr = remdups_adj (pr_Addrs pv)"
      "nr_TransactionID vr = t1" "nr_TransactionID cr = t2" "nr_Sid vr = sid" "nr_Sid cr = sid"
      "db_Role (nr_DetectBehavior vr) = rb_Role vB" "db_Role (nr_DetectBehavior cr) = rb_Role cB"
    using vf cf R by (simp add: analysis_def f Let_def detect_behavior_def)
  have "visitor_analyse md5hex now' sid (HandleClient ?cm ?c1) =
      (Some (vr, cr), (?c1\<lparr>sessions := (sessions ?c1)(sid \<mapsto> ?s')\<rparr>)\<lparr>analyzer := a2, sessions := ((sessions ?c1)(sid \<mapsto> ?s'))(sid \<mapsto> s2)\<rparr>)"
    using an(1) by (simp add: visitor_analyse_def h)
  then show ?thesis using v an ne comp by (auto simp: ExchangeInfo_def)
qed

text \<open>C35. Hole punching as the two clients do it, visitor first with the pre-check. The pre-check lets the visitor go on exactly if the proxy allows its user. A visitor that is allowed, has the secret of the proxy and
  has prepared itself, as the client of the proxy has, is then accepted by the controller, which classifies both; its answers pass the checks of both sides, with complementary roles and the addresses of
  the other side.\<close>

theorem hole_exchange_succeeds:
  assumes cfg: "clientCfgs c (BuildTargetServerProxyName user (vb_ServerUser x) (vb_ServerName x)) = Some cc" "cc_sk cc = vb_SecretKey x"
    and pv: "Prepare st1 ips1 port1 l1 servers1 d1 = ok pv" and pc: "Prepare st2 ips2 port2 l2 servers2 d2 = ok pc"
    and an: "analyzer_ok (analyzer c)"
  shows "\<exists>r. HandleVisitor md5hex (precheck_msg t0 (BuildTargetServerProxyName user (vb_ServerUser x) (vb_ServerName x))) visitorUser sid0 c = (Reply r, c)
    \<and> (PreCheck (Some (Inl r :: NatHoleResp + 'x)) = None \<longleftrightarrow> visitorUser \<in> set (cc_allowUsers cc) \<or> ''*'' \<in> set (cc_allowUsers cc))
    \<and> (PreCheck (Some (Inl r :: NatHoleResp + 'x)) = None \<longrightarrow>
        (\<exists>c1 vr cr c2. HandleVisitor md5hex (nat_hole_visitor_msg md5hex user now t1 x pv) visitorUser sid c = (Waiting sid, c1)
          \<and> visitor_analyse md5hex now' sid (HandleClient (nat_hole_client_msg user2 name t2 sid pc) c1) = (Some (vr, cr), c2)
          \<and> ExchangeInfo (Some (Inl vr :: NatHoleResp + 'x)) = ok vr \<and> ExchangeInfo (Some (Inl cr :: NatHoleResp + 'x)) = ok cr
          \<and> nr_TransactionID vr = t1 \<and> nr_TransactionID cr = t2 \<and> nr_Sid vr = sid \<and> nr_Sid cr = sid
          \<and> nr_CandidateAddrs vr = remdups_adj (pr_Addrs pc) \<and> nr_CandidateAddrs cr = remdups_adj (pr_Addrs pv)
          \<and> {db_Role (nr_DetectBehavior vr), db_Role (nr_DetectBehavior cr)} = {DetectRoleSender, DetectRoleReceiver}))"
proof -
  obtain r where r: "HandleVisitor md5hex (precheck_msg t0 (BuildTargetServerProxyName user (vb_ServerUser x) (vb_ServerName x))) visitorUser sid0 c = (Reply r, c)"
    "PreCheck (Some (Inl r :: NatHoleResp + 'x)) = None \<longleftrightarrow> visitorUser \<in> set (cc_allowUsers cc) \<or> ''*'' \<in> set (cc_allowUsers cc)"
    using precheck_answer [OF cfg(1), of md5hex t0 visitorUser sid0, where ?'x = 'x] by (elim exE conjE) (rule that)
  show ?thesis by (intro exI [of _ r] conjI impI r exchange_answers [OF assms])
qed

lemma demo_prepared:
  "\<exists>p. Prepare (\<lambda>_. Some \<lparr>st_externalAddr = ''9.9.9.9:9'', st_otherAddr = ''o''\<rparr>) None (Some 7) (Some (1 :: nat)) [''s''] False = ok p"
  using demo_classify by (auto simp: Prepare_def discoverFromStunServer_def Let_def)

theorem hole_exchange_succeeds_witness:
  "\<exists>c1 vr cr c2 p. HandleVisitor id (nat_hole_visitor_msg id [] 5 ''t'' (demo_xtcp\<lparr>vb_SecretKey := ''sk''\<rparr>) (p :: nat PrepareResult)) [] ''s1''
       ((NewController 1)\<lparr>clientCfgs := [''p'' \<mapsto> \<lparr>cc_name = ''p'', cc_sk = ''sk'', cc_allowUsers = [''*'']\<rparr>]\<rparr>) = (Waiting ''s1'', c1)
     \<and> visitor_analyse id 9 ''s1'' (HandleClient (nat_hole_client_msg [] ''p'' ''u'' ''s1'' p) c1) = (Some (vr, cr), c2)
     \<and> ExchangeInfo (Some (Inl vr :: NatHoleResp + unit)) = ok vr"
proof -
  obtain p where p: "Prepare (\<lambda>_. Some \<lparr>st_externalAddr = ''9.9.9.9:9'', st_otherAddr = ''o''\<rparr>) None (Some 7) (Some (1 :: nat)) [''s''] False = ok p"
    using demo_prepared by blast
  let ?c = "(NewController 1)\<lparr>clientCfgs := [''p'' \<mapsto> \<lparr>cc_name = ''p'', cc_sk = ''sk'', cc_allowUsers = [''*'']\<rparr>]\<rparr>"
  have c: "clientCfgs ?c (BuildTargetServerProxyName [] (vb_ServerUser (demo_xtcp\<lparr>vb_SecretKey := ''sk''\<rparr>)) (vb_ServerName (demo_xtcp\<lparr>vb_SecretKey := ''sk''\<rparr>)))
      = Some \<lparr>cc_name = ''p'', cc_sk = ''sk'', cc_allowUsers = [''*'']\<rparr>"
    by (simp add: BuildTargetServerProxyName_def AddUserPrefix_def demo_xtcp_def zero_visitor_def VisitorBaseConfig.defs)
  have a: "analyzer_ok (analyzer ?c)" by (simp add: NewController_def analyzer_ok_def NewAnalyzer_def)
  from hole_exchange_succeeds [OF c _ p p a, of id "''t0''" "[]" "''s0''" 5 "''t''" "''s1''" 9 "[]" "''p''" "''u''"] show ?thesis by (simp, blast)
qed

definition demo_visitor_svc :: "nat service" where
  "demo_visitor_svc = demo_svc\<lparr>svc_byRun := [''r'' \<mapsto> 0],
     svc_srv := demo_srv\<lparr>srv_st := demo_st\<lparr>ss_rc := (ss_rc demo_st)\<lparr>rc_visitors := snd (vm_Listen ''p'' ''sk'' [''*''] NewVisitorManager)\<rparr>\<rparr>\<rparr>\<rparr>"


end
