(* ===== verification/Udp_Forward.thy ===== *)
theory Udp_Forward
  imports Prelude
begin

text \<open>
  Forwarding of UDP packets: \<^verbatim>\<open>pkg/proto/udp/udp.go\<close>. \<open>ForwardUserConn\<close> stands between the users and a work connection, on the server and in the
  visitor of a secret UDP proxy; \<open>Forwarder\<close> stands between the work connection and the local service, where each user gets a socket of
  its own. Both are given as the steps of their goroutines. Addresses have type \<open>'a\<close>, their text is \<open>show_addr\<close>; contents have
  type \<open>'b\<close>.
\<close>

record ('a, 'b) UDPPacket =
  ud_Content :: "'b list"
  ud_RemoteAddr :: 'a

definition NewUDPPacket :: "'b list \<Rightarrow> 'a \<Rightarrow> ('a, 'b) UDPPacket" where
  "NewUDPPacket buf raddr = \<lparr>ud_Content = buf, ud_RemoteAddr = raddr\<rparr>"

section \<open>Between the users and the work connection\<close>

text \<open>The packets of users wait in a channel of \<open>1024\<close>, those beyond are dropped; the packets for users come from another
  channel and are written to their addresses, in vain once the socket is closed. \<open>Close\<close> of the proxy or visitor closes the socket and then the channels. A send to a closed channel panics.\<close>

record ('a, 'b) user_side =
  us_sendCh :: "('a, 'b) UDPPacket list"
  us_hand :: "('a, 'b) UDPPacket option"
  us_connClosed :: bool
  us_chClosed :: bool
  us_panicked :: bool
  us_received :: "('a, 'b) UDPPacket list"
  us_taken :: "('a, 'b) UDPPacket list"
  us_readCh :: "('a, 'b) UDPPacket list"
  us_answers :: "('a, 'b) UDPPacket list"
  us_delivered :: "('a \<times> 'b list) list"

definition NewUserSide :: "('a, 'b) user_side" where
  "NewUserSide = \<lparr>us_sendCh = [], us_hand = None, us_connClosed = False, us_chClosed = False, us_panicked = False, us_received = [], us_taken = [],
     us_readCh = [], us_answers = [], us_delivered = []\<rparr>"

inductive us_step :: "('a, 'b) user_side \<Rightarrow> ('a, 'b) user_side \<Rightarrow> bool" where
  us_reads: "\<not> us_connClosed u \<Longrightarrow> us_hand u = None \<Longrightarrow> p = NewUDPPacket buf raddr
    \<Longrightarrow> us_step u (u\<lparr>us_hand := Some p, us_received := us_received u @ [p]\<rparr>)"
| us_sends: "us_hand u = Some p \<Longrightarrow> \<not> us_chClosed u \<Longrightarrow> length (us_sendCh u) < 1024
    \<Longrightarrow> us_step u (u\<lparr>us_hand := None, us_sendCh := us_sendCh u @ [p]\<rparr>)"
| us_drops: "us_hand u = Some p \<Longrightarrow> \<not> us_chClosed u \<Longrightarrow> length (us_sendCh u) = 1024 \<Longrightarrow> us_step u (u\<lparr>us_hand := None\<rparr>)"
| us_panics: "us_hand u = Some p \<Longrightarrow> us_chClosed u \<Longrightarrow> us_step u (u\<lparr>us_panicked := True\<rparr>)"
| us_takes: "us_sendCh u = p # ps \<Longrightarrow> us_step u (u\<lparr>us_sendCh := ps, us_taken := us_taken u @ [p]\<rparr>)"
| us_answered: "us_step u (u\<lparr>us_readCh := us_readCh u @ [p], us_answers := us_answers u @ [p]\<rparr>)"
| us_delivers: "us_readCh u = p # ps \<Longrightarrow> us_step u (u\<lparr>us_readCh := ps,
      us_delivered := (if us_connClosed u then us_delivered u else us_delivered u @ [(ud_RemoteAddr p, ud_Content p)])\<rparr>)"
| us_Close_conn: "us_step u (u\<lparr>us_connClosed := True\<rparr>)"
| us_Close_ch: "us_connClosed u \<Longrightarrow> us_step u (u\<lparr>us_chClosed := True\<rparr>)"

inductive us_reach :: "('a, 'b) user_side \<Rightarrow> bool" where
  new: "us_reach NewUserSide"
| step: "us_reach u \<Longrightarrow> us_step u u' \<Longrightarrow> us_reach u'"

text \<open>Packets reach the work connection in the order of arrival, each at most once.\<close>

lemma us_in_order: "us_reach u \<Longrightarrow> subseq (us_taken u @ us_sendCh u @ (case us_hand u of None \<Rightarrow> [] | Some p \<Rightarrow> [p])) (us_received u)
    \<and> length (us_sendCh u) \<le> 1024"
proof (induction rule: us_reach.induct)
  case (step u u')
  from step(2,3) show ?case
  proof (induction rule: us_step.induct)
    case (us_reads u p buf raddr)
    then show ?case by (auto simp: append_assoc [symmetric] intro: list_emb_append_mono simp del: append_assoc)
  next
    case (us_drops u p)
    then show ?case by (auto simp: append_assoc [symmetric] dest: subseq_order.trans [OF subseq_rev_drop_many] intro: subseq_order.trans [rotated] simp del: append_assoc)
  qed (auto split: option.splits)
qed (simp add: NewUserSide_def)

text \<open>What a user gets was sent back for it; the order is kept here, too.\<close>

lemma us_delivered_in_order:
  "us_reach u \<Longrightarrow> subseq (us_delivered u @ map (\<lambda>p. (ud_RemoteAddr p, ud_Content p)) (us_readCh u)) (map (\<lambda>p. (ud_RemoteAddr p, ud_Content p)) (us_answers u))"
proof (induction rule: us_reach.induct)
  case (step u u')
  from step(2,3) show ?case
  proof (induction rule: us_step.induct)
    case (us_answered u p)
    then show ?case by (auto simp: append_assoc [symmetric] intro: list_emb_append_mono simp del: append_assoc)
  next
    case (us_delivers u p ps)
    have "subseq (us_delivered u @ xs) (us_delivered u @ x # xs)" for x xs by (rule list_emb_append_mono) auto
    from subseq_order.trans [OF this] us_delivers show ?case by auto
  qed auto
qed (simp add: NewUserSide_def)

text \<open>A packet that is read just before the proxy is closed is sent to the closed channel, which ends the process.\<close>

theorem late_packet_panics: "\<exists>u :: (nat, nat) user_side. us_reach u \<and> us_panicked u"
proof -
  define p :: "(nat, nat) UDPPacket" where "p = NewUDPPacket [] 0"
  define a where "a = NewUserSide\<lparr>us_hand := Some p, us_received := us_received NewUserSide @ [p]\<rparr>"
  have "us_step NewUserSide a" unfolding a_def by (rule us_reads [OF _ _ p_def]) (simp_all add: NewUserSide_def)
  with us_reach.new have "us_reach a" by (rule us_reach.step)
  then have "us_reach (a\<lparr>us_connClosed := True\<rparr>)" using us_Close_conn by (rule us_reach.step)
  then have "us_reach (a\<lparr>us_connClosed := True, us_chClosed := True\<rparr>)" by (rule us_reach.step) (rule us_Close_ch, simp)
  then have "us_reach (a\<lparr>us_connClosed := True, us_chClosed := True, us_panicked := True\<rparr>)"
    by (rule us_reach.step) (rule us_panics [where p = p], simp_all add: a_def)
  then show ?thesis by (rule exI [where x = "a\<lparr>us_connClosed := True, us_chClosed := True, us_panicked := True\<rparr>", OF conjI]) simp
qed

section \<open>Between the work connection and the local service\<close>

text \<open>The sockets to the local service are numbers. \<open>fw_owner c\<close> is the address of the user whose packet opened the socket, which the goroutine that
  reads the answers was started with. That goroutine is in \<open>fw_writers\<close> until it has removed its entry from the map, and in
  \<open>fw_closing\<close> until it has closed the socket. \<open>fw_hand\<close> is the packet that is being forwarded, its socket and whether the socket is new.
  The ghost components are what was written to sockets and what was sent back.\<close>

record ('a, 'b) forwarder =
  fw_map :: "string \<rightharpoonup> nat"
  fw_open :: "nat set"
  fw_owner :: "nat \<Rightarrow> 'a"
  fw_next :: nat
  fw_writers :: "nat set"
  fw_closing :: "nat set"
  fw_hand :: "(('a, 'b) UDPPacket \<times> nat \<times> bool) option"
  fw_written :: "(nat \<times> 'a \<times> 'b list) list"
  fw_answers :: "(nat \<times> ('a, 'b) UDPPacket) list"

definition NewForwarder :: "('a, 'b) forwarder \<Rightarrow> bool" where
  "NewForwarder f \<longleftrightarrow> fw_map f = Map.empty \<and> fw_open f = {} \<and> fw_next f = 0 \<and> fw_writers f = {} \<and> fw_closing f = {} \<and> fw_hand f = None
     \<and> fw_written f = [] \<and> fw_answers f = []"

text \<open>The critical section of the goroutine that reads from the work connection.\<close>

definition forward_lookup :: "('a \<Rightarrow> string) \<Rightarrow> bool \<Rightarrow> ('a, 'b) UDPPacket \<Rightarrow> ('a, 'b) forwarder \<Rightarrow> ('a, 'b) forwarder" where
  "forward_lookup show_addr dial p f =
     (case fw_map f (show_addr (ud_RemoteAddr p)) of
        Some c \<Rightarrow> f\<lparr>fw_hand := Some (p, c, False)\<rparr>
      | None \<Rightarrow>
          if \<not> dial then f
          else let c = fw_next f in
            f\<lparr>fw_next := Suc c, fw_open := insert c (fw_open f), fw_owner := (fw_owner f)(c := ud_RemoteAddr p),
              fw_map := (fw_map f)(show_addr (ud_RemoteAddr p) \<mapsto> c), fw_hand := Some (p, c, True)\<rparr>)"

text \<open>What it does after that: the first packet of a new socket may get a header \<open>pp\<close>; a failed write closes the socket; the
  goroutine for the answers of a new socket is started.\<close>

definition forward_write :: "('a \<Rightarrow> 'b list option) \<Rightarrow> bool \<Rightarrow> ('a, 'b) forwarder \<Rightarrow> ('a, 'b) forwarder" where
  "forward_write pp write_ok f =
     (case fw_hand f of
        None \<Rightarrow> f
      | Some (p, c, fresh) \<Rightarrow>
          (let content = (if fresh then (case pp (ud_RemoteAddr p) of Some h \<Rightarrow> h @ ud_Content p | None \<Rightarrow> ud_Content p) else ud_Content p);
               good = (write_ok \<and> c \<in> fw_open f)
           in f\<lparr>fw_hand := None,
                fw_written := (if good then fw_written f @ [(c, ud_RemoteAddr p, content)] else fw_written f),
                fw_open := (if good then fw_open f else fw_open f - {c}),
                fw_writers := (if fresh then insert c (fw_writers f) else fw_writers f)\<rparr>))"

inductive fw_step :: "('a \<Rightarrow> string) \<Rightarrow> ('a \<Rightarrow> 'b list option) \<Rightarrow> ('a, 'b) forwarder \<Rightarrow> ('a, 'b) forwarder \<Rightarrow> bool" for show_addr pp where
  fw_looks_up: "fw_hand f = None \<Longrightarrow> fw_step show_addr pp f (forward_lookup show_addr dial p f)"
| fw_writes: "fw_hand f \<noteq> None \<Longrightarrow> fw_step show_addr pp f (forward_write pp write_ok f)"
| fw_answer: "c \<in> fw_writers f \<Longrightarrow> c \<in> fw_open f
    \<Longrightarrow> fw_step show_addr pp f (f\<lparr>fw_answers := fw_answers f @ [(c, NewUDPPacket buf (fw_owner f c))]\<rparr>)"
| writer_removes: "c \<in> fw_writers f
    \<Longrightarrow> fw_step show_addr pp f (f\<lparr>fw_map := (fw_map f)(show_addr (fw_owner f c) := None), fw_writers := fw_writers f - {c}, fw_closing := insert c (fw_closing f)\<rparr>)"
| writer_closes: "c \<in> fw_closing f \<Longrightarrow> fw_step show_addr pp f (f\<lparr>fw_open := fw_open f - {c}, fw_closing := fw_closing f - {c}\<rparr>)"

inductive fw_reach :: "('a \<Rightarrow> string) \<Rightarrow> ('a \<Rightarrow> 'b list option) \<Rightarrow> ('a, 'b) forwarder \<Rightarrow> bool" for show_addr pp where
  new: "NewForwarder f \<Longrightarrow> fw_reach show_addr pp f"
| step: "fw_reach show_addr pp f \<Longrightarrow> fw_step show_addr pp f f' \<Longrightarrow> fw_reach show_addr pp f'"

text \<open>The sockets that have or are about to have a goroutine for their answers.\<close>

definition fw_live :: "('a, 'b) forwarder \<Rightarrow> nat set" where
  "fw_live f = fw_writers f \<union> (case fw_hand f of Some (p, c, True) \<Rightarrow> {c} | _ \<Rightarrow> {})"

definition fw_inv :: "('a \<Rightarrow> string) \<Rightarrow> ('a, 'b) forwarder \<Rightarrow> bool" where
  "fw_inv show_addr f \<longleftrightarrow>
     (\<forall>a c. fw_map f a = Some c \<longleftrightarrow> c \<in> fw_live f \<and> show_addr (fw_owner f c) = a)
   \<and> fw_open f \<subseteq> fw_live f \<union> fw_closing f \<and> fw_live f \<union> fw_closing f \<subseteq> {..<fw_next f}
   \<and> (\<forall>p c b. fw_hand f = Some (p, c, b) \<longrightarrow> c < fw_next f \<and> show_addr (ud_RemoteAddr p) = show_addr (fw_owner f c) \<and> (b \<longrightarrow> c \<notin> fw_writers f))
   \<and> (\<forall>(c, r, x) \<in> set (fw_written f). c < fw_next f \<and> show_addr r = show_addr (fw_owner f c))
   \<and> (\<forall>(c, p) \<in> set (fw_answers f). c < fw_next f \<and> ud_RemoteAddr p = fw_owner f c)"

lemma fw_invD:
  assumes "fw_inv show_addr f"
  shows "fw_map f a = Some c \<longleftrightarrow> c \<in> fw_live f \<and> show_addr (fw_owner f c) = a"
    and "c \<in> fw_live f \<Longrightarrow> c < fw_next f"
    and "fw_hand f = Some (p, c, b) \<Longrightarrow> c < fw_next f \<and> show_addr (ud_RemoteAddr p) = show_addr (fw_owner f c) \<and> (b \<longrightarrow> c \<notin> fw_writers f)"
  using assms by (auto simp: fw_inv_def)

lemma lookup_inv:
  assumes I: "fw_inv show_addr f" and h: "fw_hand f = None"
  shows "fw_inv show_addr (forward_lookup show_addr dial p f)"
proof (cases "fw_map f (show_addr (ud_RemoteAddr p))")
  case (Some c)
  have e: "forward_lookup show_addr dial p f = f\<lparr>fw_hand := Some (p, c, False)\<rparr>" using Some by (simp add: forward_lookup_def)
  have live: "fw_live (f\<lparr>fw_hand := Some (p, c, False)\<rparr>) = fw_live f" using h by (simp add: fw_live_def)
  have "c < fw_next f" "show_addr (ud_RemoteAddr p) = show_addr (fw_owner f c)"
    using fw_invD(1) [OF I, of "show_addr (ud_RemoteAddr p)" c] fw_invD(2) [OF I, of c] Some by auto
  then show ?thesis using I unfolding e fw_inv_def live by simp
next
  case None
  let ?a = "show_addr (ud_RemoteAddr p)" and ?c = "fw_next f"
  show ?thesis
  proof (cases dial)
    case True
    let ?f = "forward_lookup show_addr dial p f"
    have live: "fw_live f = fw_writers f" "fw_live ?f = insert ?c (fw_writers f)" using h True None by (simp_all add: fw_live_def forward_lookup_def Let_def)
    have old: "c < ?c" if "c \<in> fw_writers f" for c using fw_invD(2) [OF I, of c] that live by simp
    have none: "show_addr (fw_owner f c) \<noteq> ?a" if "c \<in> fw_writers f" for c using fw_invD(1) [OF I, of ?a c] that live None by auto
    have m: "fw_map ?f a = Some c \<longleftrightarrow> c \<in> fw_live ?f \<and> show_addr (fw_owner ?f c) = a" for a c
      using fw_invD(1) [OF I, of a c] old [of c] none [of c] live True None by (auto simp: forward_lookup_def Let_def)
    have "fw_open ?f \<subseteq> fw_live ?f \<union> fw_closing ?f \<and> fw_live ?f \<union> fw_closing ?f \<subseteq> {..<fw_next ?f}"
      using I live True None by (auto simp: fw_inv_def forward_lookup_def Let_def)
    with m I True None old show ?thesis unfolding fw_inv_def by (auto simp: forward_lookup_def Let_def less_Suc_eq)
  next
    case False
    then show ?thesis using I None by (simp add: forward_lookup_def)
  qed
qed

lemma write_inv:
  assumes I: "fw_inv show_addr f"
  shows "fw_inv show_addr (forward_write pp w f)"
proof (cases "fw_hand f")
  case None
  then show ?thesis using I by (simp add: forward_write_def)
next
  case (Some x)
  obtain p c b where x: "x = (p, c, b)" by (cases x)
  let ?f = "forward_write pp w f"
  have live: "fw_live ?f = fw_live f" using Some x by (auto simp: fw_live_def forward_write_def Let_def split: bool.splits)
  have h: "c < fw_next f" "show_addr (ud_RemoteAddr p) = show_addr (fw_owner f c)" using fw_invD(3) [OF I] Some x by auto
  show ?thesis using I h Some x unfolding fw_inv_def live by (auto simp: forward_write_def Let_def)
qed

lemma fw_step_inv: "fw_step show_addr pp f f' \<Longrightarrow> fw_inv show_addr f \<Longrightarrow> fw_inv show_addr f'"
proof (induction rule: fw_step.induct)
  case (fw_looks_up f dial p)
  then show ?case by (blast intro: lookup_inv)
next
  case (fw_writes f w)
  then show ?case by (blast intro: write_inv)
next
  case (fw_answer c f buf)
  then have "c < fw_next f" using fw_invD(2) by (fastforce simp: fw_live_def)
  then show ?case using fw_answer(3) by (auto simp: fw_inv_def fw_live_def NewUDPPacket_def)
next
  case (writer_removes c f)
  let ?f = "f\<lparr>fw_map := (fw_map f)(show_addr (fw_owner f c) := None), fw_writers := fw_writers f - {c}, fw_closing := insert c (fw_closing f)\<rparr>"
  have I: "fw_inv show_addr f" and c: "c \<in> fw_live f" using writer_removes by (auto simp: fw_live_def)
  have live: "fw_live ?f = fw_live f - {c}"
  proof (cases "fw_hand f")
    case (Some x)
    obtain p d b where x: "x = (p, d, b)" by (cases x)
    have "b \<longrightarrow> d \<noteq> c" using fw_invD(3) [OF I, of p d b] Some x writer_removes(1) by auto
    then show ?thesis using Some x by (auto simp: fw_live_def split: bool.splits)
  qed (auto simp: fw_live_def)
  have m: "fw_map ?f a = Some d \<longleftrightarrow> d \<in> fw_live ?f \<and> show_addr (fw_owner ?f d) = a" for a d
  proof (cases "a = show_addr (fw_owner f c)")
    case True
    then have "fw_map f a = Some c" using fw_invD(1) [OF I, of a c] c by simp
    then have "d = c" if "d \<in> fw_live f" "show_addr (fw_owner f d) = a" using fw_invD(1) [OF I, of a d] that by simp
    then show ?thesis unfolding live using True by auto
  next
    case False
    then show ?thesis unfolding live using fw_invD(1) [OF I, of a d] by auto
  qed
  have "fw_open ?f \<subseteq> fw_live ?f \<union> fw_closing ?f \<and> fw_live ?f \<union> fw_closing ?f \<subseteq> {..<fw_next ?f}"
    using I c unfolding fw_inv_def live by auto
  moreover have "\<forall>p d b. fw_hand ?f = Some (p, d, b) \<longrightarrow> d < fw_next ?f \<and> show_addr (ud_RemoteAddr p) = show_addr (fw_owner ?f d) \<and> (b \<longrightarrow> d \<notin> fw_writers ?f)"
    using fw_invD(3) [OF I] by simp
  ultimately show ?case using m I unfolding fw_inv_def by simp
next
  case (writer_closes c f)
  then show ?case by (auto simp: fw_inv_def fw_live_def)
qed

lemma fw_reach_inv: "fw_reach show_addr pp f \<Longrightarrow> fw_inv show_addr f"
proof (induction rule: fw_reach.induct)
  case (new f)
  then show ?case by (simp add: NewForwarder_def fw_inv_def fw_live_def)
next
  case (step f f')
  then show ?case by (blast intro: fw_step_inv)
qed

text \<open>C27. Users are kept apart. In every interleaving, an answer of the local service goes to the user with whose packets its socket was used, and
  to no other; two users never share a socket; and each open socket has a goroutine that will close it.\<close>

theorem udp_answers_routed:
  assumes "fw_reach show_addr pp f"
  shows "((c, p) \<in> set (fw_answers f) \<and> (c, r, x) \<in> set (fw_written f) \<longrightarrow> show_addr r = show_addr (ud_RemoteAddr p))
    \<and> (fw_map f a = Some c \<and> fw_map f b = Some c \<longrightarrow> a = b)
    \<and> fw_open f \<subseteq> fw_live f \<union> fw_closing f"
proof -
  have I: "fw_inv show_addr f" using assms by (rule fw_reach_inv)
  have "show_addr r = show_addr (ud_RemoteAddr p)" if "(c, p) \<in> set (fw_answers f)" "(c, r, x) \<in> set (fw_written f)"
  proof -
    have "\<forall>(c, r, x) \<in> set (fw_written f). show_addr r = show_addr (fw_owner f c)" "\<forall>(c, p) \<in> set (fw_answers f). ud_RemoteAddr p = fw_owner f c"
      using I by (auto simp: fw_inv_def)
    then have "show_addr r = show_addr (fw_owner f c)" "ud_RemoteAddr p = fw_owner f c" using that by blast+
    then show ?thesis by simp
  qed
  moreover have "a = b" if "fw_map f a = Some c" "fw_map f b = Some c" using fw_invD(1) [OF I] that by metis
  moreover have "fw_open f \<subseteq> fw_live f \<union> fw_closing f" using I by (simp add: fw_inv_def)
  ultimately show ?thesis by blast
qed

definition demo_forwarder :: "(nat, nat) forwarder" where
  "demo_forwarder = \<lparr>fw_map = Map.empty, fw_open = {}, fw_owner = (\<lambda>_. 0), fw_next = 0, fw_writers = {}, fw_closing = {}, fw_hand = None,
     fw_written = [], fw_answers = []\<rparr>"

theorem udp_answers_routed_witness:
  "\<exists>f. fw_reach (\<lambda>n. replicate n CHR ''x'') (\<lambda>_. None) f \<and> fw_answers f = [(0, NewUDPPacket [2] (5 :: nat))] \<and> fw_written f = [(0, 5, [1 :: nat])]
     \<and> replicate 5 CHR ''x'' = replicate (ud_RemoteAddr (NewUDPPacket [2 :: nat] 5)) CHR ''x''"
proof -
  let ?show = "\<lambda>n. replicate n CHR ''x''" and ?pp = "(\<lambda>_. None) :: nat \<Rightarrow> nat list option"
  let ?a = "forward_lookup ?show True (NewUDPPacket [1] 5) demo_forwarder"
  let ?b = "forward_write ?pp True ?a"
  let ?c = "?b\<lparr>fw_answers := fw_answers ?b @ [(0, NewUDPPacket [2] (fw_owner ?b 0))]\<rparr>"
  have "fw_reach ?show ?pp demo_forwarder" by (rule fw_reach.new) (simp add: NewForwarder_def demo_forwarder_def)
  then have "fw_reach ?show ?pp ?a" by (rule fw_reach.step) (rule fw_looks_up, simp add: demo_forwarder_def)
  then have "fw_reach ?show ?pp ?b" by (rule fw_reach.step) (rule fw_writes, simp add: forward_lookup_def demo_forwarder_def Let_def)
  then have r: "fw_reach ?show ?pp ?c"
    by (rule fw_reach.step) (rule fw_answer, simp_all add: forward_lookup_def forward_write_def demo_forwarder_def NewUDPPacket_def Let_def)
  have e: "fw_answers ?c = [(0, NewUDPPacket [2] 5)]" "fw_written ?c = [(0, 5, [1])]"
    by (simp_all add: forward_lookup_def forward_write_def demo_forwarder_def NewUDPPacket_def Let_def)
  from udp_answers_routed [OF r, of 0 "NewUDPPacket [2] 5" 5 "[1]"] r e show ?thesis by (intro exI [of _ ?c]) simp
qed

end
