(* ===== verification/Dashboard.thy ===== *)
theory Dashboard
  imports Server_Metrics Client_Registry Common_Config Port_Ranges "HOL-Library.Product_Lexorder"
begin

text \<open>
  The dashboard of the server: \<^verbatim>\<open>server/http/controller.go\<close>. Its handlers answer from the statistics, the client registry and the
  proxy manager. An error is the status code that is sent. \<open>pxys\<close> has the configurations of the proxies of the manager by their names;
  \<open>layout\<close> formats a time and \<open>unix\<close> turns it into seconds.
\<close>

section \<open>Configurations as they are shown\<close>

datatype OutConf =
    TCPOutConf ProxyBaseConfig int
  | UDPOutConf ProxyBaseConfig int
  | HTTPOutConf ProxyBaseConfig DomainConfig "string list" string
  | HTTPSOutConf ProxyBaseConfig DomainConfig
  | TCPMuxOutConf ProxyBaseConfig DomainConfig string string
  | STCPOutConf ProxyBaseConfig
  | XTCPOutConf ProxyBaseConfig
  | BaseOutConf ProxyBaseConfig

definition getConfFromConfigurer :: "ProxyConfigurer \<Rightarrow> OutConf" where
  "getConfFromConfigurer cfg =
     (let outBase = GetBaseConfig cfg in
      case cfg of
        TCPConf c \<Rightarrow> TCPOutConf outBase (tc_RemotePort c)
      | UDPConf c \<Rightarrow> UDPOutConf outBase (uc_RemotePort c)
      | HTTPConf c \<Rightarrow> HTTPOutConf outBase (ht_Domains c) (ht_Locations c) (ht_HostHeaderRewrite c)
      | HTTPSConf c \<Rightarrow> HTTPSOutConf outBase (hs_Domains c)
      | TCPMuxConf c \<Rightarrow> TCPMuxOutConf outBase (tm_Domains c) (tm_Multiplexer c) (tm_RouteByHTTPUser c)
      | STCPConf c \<Rightarrow> STCPOutConf outBase
      | XTCPConf c \<Rightarrow> XTCPOutConf outBase
      | _ \<Rightarrow> BaseOutConf outBase)"

section \<open>Clients\<close>

record ClientInfoResp =
  cr_Key :: string
  cr_User :: string
  cr_ClientID :: string
  cr_RunID :: string
  cr_Version :: string
  cr_Hostname :: string
  cr_ClientIP :: string
  cr_FirstConnectedAt :: int
  cr_LastConnectedAt :: int
  cr_DisconnectedAt :: int
  cr_Online :: bool

text \<open>The zero time is \<open>0\<close> in the registry.\<close>

definition toUnix :: "(int \<Rightarrow> int) \<Rightarrow> int \<Rightarrow> int" where
  "toUnix unix t = (if t = 0 then 0 else unix t)"

definition buildClientInfoResp :: "(int \<Rightarrow> int) \<Rightarrow> ClientInfo \<Rightarrow> ClientInfoResp" where
  "buildClientInfoResp unix info =
     \<lparr>cr_Key = ci_Key info, cr_User = ci_User info, cr_ClientID = ClientID info, cr_RunID = ci_RunID info, cr_Version = ci_Version info,
      cr_Hostname = ci_Hostname info, cr_ClientIP = ci_IP info, cr_FirstConnectedAt = toUnix unix (ci_FirstConnectedAt info),
      cr_LastConnectedAt = toUnix unix (ci_LastConnectedAt info),
      cr_DisconnectedAt = (if ci_DisconnectedAt info \<noteq> 0 then unix (ci_DisconnectedAt info) else 0), cr_Online = ci_Online info\<rparr>"

definition matchStatusFilter :: "bool \<Rightarrow> string \<Rightarrow> bool" where
  "matchStatusFilter online f =
     (let f = to_lower f in if f = ''online'' then online else if f = ''offline'' then \<not> online else True)"

text \<open>\<open>keys\<close> is the order in which the map of clients is traversed.\<close>

definition reg_List :: "string list \<Rightarrow> ClientRegistry \<Rightarrow> ClientInfo list" where
  "reg_List keys r = List.map_filter (clients r) keys"

definition APIClientList ::
  "(int \<Rightarrow> int) \<Rightarrow> string list \<Rightarrow> string \<Rightarrow> string \<Rightarrow> string \<Rightarrow> string \<Rightarrow> ClientRegistry \<Rightarrow> ClientInfoResp list" where
  "APIClientList unix keys userFilter clientIDFilter runIDFilter status r =
     (let statusFilter = to_lower status;
          records = filter (\<lambda>info. (userFilter \<noteq> [] \<longrightarrow> ci_User info = userFilter) \<and> (clientIDFilter \<noteq> [] \<longrightarrow> ClientID info = clientIDFilter)
            \<and> (runIDFilter \<noteq> [] \<longrightarrow> ci_RunID info = runIDFilter) \<and> matchStatusFilter (ci_Online info) statusFilter) (reg_List keys r)
      in sort_key (\<lambda>x. (cr_User x, cr_ClientID x, cr_Key x)) (map (buildClientInfoResp unix) records))"

definition APIClientDetail :: "(int \<Rightarrow> int) \<Rightarrow> string \<Rightarrow> ClientRegistry \<Rightarrow> (nat, ClientInfoResp) result" where
  "APIClientDetail unix key r =
     (if key = [] then err 500
      else (case GetByKey key r of None \<Rightarrow> err 404 | Some info \<Rightarrow> ok (buildClientInfoResp unix info)))"

section \<open>Proxies\<close>

record GetProxyStatsResp =
  pr_Name :: string
  pr_Conf :: "OutConf option"
  pr_User :: string
  pr_ClientID :: string
  pr_TodayTrafficIn :: "64 word"
  pr_TodayTrafficOut :: "64 word"
  pr_CurConns :: int
  pr_LastStartTime :: string
  pr_LastCloseTime :: string
  pr_Status :: string

definition proxy_resp :: "(string \<rightharpoonup> ProxyConfigurer) \<Rightarrow> ProxyStats \<Rightarrow> GetProxyStatsResp" where
  "proxy_resp pxys ps =
     (let (conf, status) = (case pxys (px_Name ps) of Some cfg \<Rightarrow> (Some (getConfFromConfigurer cfg), ''online'') | None \<Rightarrow> (None, ''offline'')) in
      \<lparr>pr_Name = px_Name ps, pr_Conf = conf, pr_User = px_User ps, pr_ClientID = px_ClientID ps, pr_TodayTrafficIn = px_TodayTrafficIn ps,
       pr_TodayTrafficOut = px_TodayTrafficOut ps, pr_CurConns = px_CurConns ps, pr_LastStartTime = px_LastStartTime ps,
       pr_LastCloseTime = px_LastCloseTime ps, pr_Status = status\<rparr>)"

record dash_env =
  de_layout :: "int \<Rightarrow> string"
  de_midnight :: "int \<Rightarrow> int"
  de_now :: int

definition APIProxyByName :: "dash_env \<Rightarrow> string \<Rightarrow> (string \<rightharpoonup> ProxyConfigurer) \<Rightarrow> ServerStatistics \<Rightarrow> (nat, GetProxyStatsResp) result" where
  "APIProxyByName env name pxys m =
     (case GetProxyByName (de_layout env) (de_midnight env) (de_now env) name m of
        None \<Rightarrow> err 404
      | Some ps \<Rightarrow> ok (proxy_resp pxys ps))"

definition getProxyStatsByTypeAndName ::
  "dash_env \<Rightarrow> string \<Rightarrow> string \<Rightarrow> (string \<rightharpoonup> ProxyConfigurer) \<Rightarrow> ServerStatistics \<Rightarrow> GetProxyStatsResp option \<times> nat" where
  "getProxyStatsByTypeAndName env proxyType proxyName pxys m =
     (case GetProxiesByTypeAndName (de_layout env) (de_midnight env) (de_now env) proxyType proxyName m of
        None \<Rightarrow> (None, 404)
      | Some ps \<Rightarrow> (Some ((proxy_resp pxys ps)\<lparr>pr_Name := proxyName\<rparr>), 200))"

definition APIProxyByTypeAndName ::
  "dash_env \<Rightarrow> string \<Rightarrow> string \<Rightarrow> (string \<rightharpoonup> ProxyConfigurer) \<Rightarrow> ServerStatistics \<Rightarrow> (nat, GetProxyStatsResp) result" where
  "APIProxyByTypeAndName env proxyType name pxys m =
     (case getProxyStatsByTypeAndName env proxyType name pxys m of (Some r, _) \<Rightarrow> ok r | (None, code) \<Rightarrow> err code)"

definition getProxyStatsByType :: "dash_env \<Rightarrow> string \<Rightarrow> (string \<rightharpoonup> ProxyConfigurer) \<Rightarrow> ServerStatistics \<Rightarrow> GetProxyStatsResp list" where
  "getProxyStatsByType env proxyType pxys m =
     map (proxy_resp pxys) (GetProxiesByType (de_layout env) (de_midnight env) (de_now env) proxyType m)"

definition APIProxyByType :: "dash_env \<Rightarrow> string \<Rightarrow> (string \<rightharpoonup> ProxyConfigurer) \<Rightarrow> ServerStatistics \<Rightarrow> GetProxyStatsResp list" where
  "APIProxyByType env proxyType pxys m = sort_key pr_Name (getProxyStatsByType env proxyType pxys m)"

definition APIProxyTraffic :: "dash_env \<Rightarrow> string \<Rightarrow> ServerStatistics \<Rightarrow> (nat, string \<times> 64 word list \<times> 64 word list) result" where
  "APIProxyTraffic env name m =
     (case GetProxyTraffic (de_midnight env) (de_now env) name m of None \<Rightarrow> err 404 | Some (i, out) \<Rightarrow> ok (name, i, out))"

definition DeleteProxies :: "dash_env \<Rightarrow> string \<Rightarrow> ServerStatistics \<Rightarrow> (nat, unit) result \<times> ServerStatistics" where
  "DeleteProxies env status m =
     (if status \<noteq> ''offline'' then (err 400, m) else (ok (), snd (ClearOfflineProxies (de_now env) m)))"

section \<open>The server\<close>

record ServerInfoResp =
  si_Version :: string
  si_BindPort :: int
  si_VhostHTTPPort :: int
  si_VhostHTTPSPort :: int
  si_TCPMuxHTTPConnectPort :: int
  si_KCPBindPort :: int
  si_QUICBindPort :: int
  si_SubdomainHost :: string
  si_MaxPoolCount :: int
  si_MaxPortsPerClient :: int
  si_HeartBeatTimeout :: int
  si_AllowPortsStr :: string
  si_TLSForce :: bool
  si_Stats :: ServerStats

definition APIServerInfo :: "string \<Rightarrow> dash_env \<Rightarrow> ServerFullConfig \<Rightarrow> ServerStatistics \<Rightarrow> ServerInfoResp \<times> ServerStatistics" where
  "APIServerInfo version env cfg m =
     (let (stats, m') = GetServer (de_midnight env) (de_now env) m in
      (\<lparr>si_Version = version, si_BindPort = sf_BindPort cfg, si_VhostHTTPPort = sf_VhostHTTPPort cfg, si_VhostHTTPSPort = sf_VhostHTTPSPort cfg,
        si_TCPMuxHTTPConnectPort = sf_TCPMuxHTTPConnectPort cfg, si_KCPBindPort = sf_KCPBindPort cfg, si_QUICBindPort = sf_QUICBindPort cfg,
        si_SubdomainHost = sf_SubDomainHost cfg, si_MaxPoolCount = st_MaxPoolCount (sf_Transport cfg),
        si_MaxPortsPerClient = sf_MaxPortsPerClient cfg, si_HeartBeatTimeout = st_HeartbeatTimeout (sf_Transport cfg),
        si_AllowPortsStr = prs_String (sf_AllowPorts cfg), si_TLSForce = ts_Force (st_TLS (sf_Transport cfg)), si_Stats = stats\<rparr>, m'))"

section \<open>Secrets\<close>

text \<open>A configuration without the secrets of its users.\<close>

fun strip_secrets :: "ProxyConfigurer \<Rightarrow> ProxyConfigurer" where
  "strip_secrets (HTTPConf c) = HTTPConf (c\<lparr>ht_HTTPUser := [], ht_HTTPPassword := []\<rparr>)"
| "strip_secrets (TCPMuxConf c) = TCPMuxConf (c\<lparr>tm_HTTPUser := [], tm_HTTPPassword := []\<rparr>)"
| "strip_secrets (STCPConf c) = STCPConf (c\<lparr>sc_Secretkey := [], sc_AllowUsers := []\<rparr>)"
| "strip_secrets (XTCPConf c) = XTCPConf (c\<lparr>xc_Secretkey := [], xc_AllowUsers := []\<rparr>)"
| "strip_secrets (SUDPConf c) = SUDPConf (c\<lparr>su_Secretkey := [], su_AllowUsers := []\<rparr>)"
| "strip_secrets c = c"

lemma getConf_strip: "getConfFromConfigurer (strip_secrets c) = getConfFromConfigurer c"
  by (cases c) (simp_all add: getConfFromConfigurer_def GetBaseConfig_def ProxyBaseConfig.defs)

lemma proxy_resp_strip: "proxy_resp (\<lambda>n. map_option strip_secrets (pxys n)) = proxy_resp pxys"
proof (rule ext)
  fix ps
  show "proxy_resp (\<lambda>n. map_option strip_secrets (pxys n)) ps = proxy_resp pxys ps"
    by (cases "pxys (px_Name ps)") (simp_all add: proxy_resp_def getConf_strip)
qed

text \<open>No answer about proxies depends on the secret keys, on the users that may visit them, or on the users and passwords of HTTP
  proxies.\<close>

theorem dashboard_hides_secrets:
  assumes "\<forall>n. map_option strip_secrets (pxys n) = map_option strip_secrets (pxys' n)"
  shows "APIProxyByName env name pxys m = APIProxyByName env name pxys' m
    \<and> APIProxyByTypeAndName env t name pxys m = APIProxyByTypeAndName env t name pxys' m
    \<and> APIProxyByType env t pxys m = APIProxyByType env t pxys' m"
proof -
  have same: "proxy_resp pxys = proxy_resp pxys'"
    using assms proxy_resp_strip [of pxys] proxy_resp_strip [of pxys'] by simp
  show ?thesis unfolding APIProxyByName_def APIProxyByTypeAndName_def getProxyStatsByTypeAndName_def APIProxyByType_def getProxyStatsByType_def same by simp
qed

definition demo_stcp :: "string \<Rightarrow> ProxyConfigurer" where
  "demo_stcp key = STCPConf (ProxyBaseConfig.extend zero_base (STCPProxyConfig.fields key []))"

theorem dashboard_hides_secrets_witness:
  "\<forall>env m. APIProxyByName env ''p'' [''p'' \<mapsto> demo_stcp ''key''] m = APIProxyByName env ''p'' [''p'' \<mapsto> demo_stcp ''other''] m"
proof (intro allI)
  fix env m
  have "\<forall>n. map_option strip_secrets ([''p'' \<mapsto> demo_stcp ''key''] n) = map_option strip_secrets ([''p'' \<mapsto> demo_stcp ''other''] n)"
    by (simp add: demo_stcp_def zero_base_def ProxyBaseConfig.defs STCPProxyConfig.defs)
  from dashboard_hides_secrets [OF this] show "APIProxyByName env ''p'' [''p'' \<mapsto> demo_stcp ''key''] m = APIProxyByName env ''p'' [''p'' \<mapsto> demo_stcp ''other''] m" by blast
qed

section \<open>Running proxies are shown\<close>

text \<open>The type under which a proxy of this name was opened last, unless it was closed since.\<close>

fun open_type :: "string \<Rightarrow> metric_event \<Rightarrow> string option \<Rightarrow> string option" where
  "open_type n (EvNewProxy name t u c) cur = (if name = n then Some t else cur)"
| "open_type n (EvCloseProxy name t) cur = (if name = n then None else cur)"
| "open_type n e cur = cur"

fun clears_sanely :: "metric_event \<Rightarrow> bool" where
  "clears_sanely (EvClear offline) \<longleftrightarrow> 0 \<le> offline"
| "clears_sanely e \<longleftrightarrow> True"

text \<open>What holds of the statistics of one proxy: its last closing is not in the future, and if it is open, it was opened after that.\<close>

definition entry_ok :: "int \<Rightarrow> string option \<Rightarrow> ProxyStatistics option \<Rightarrow> bool" where
  "entry_ok now cur x \<longleftrightarrow>
     (case x of
        None \<Rightarrow> cur = None
      | Some d \<Rightarrow> (\<forall>c. ps_LastCloseTime d = Some c \<longrightarrow> c \<le> now)
          \<and> (\<forall>t. cur = Some t \<longrightarrow> ps_ProxyType d = t \<and> (\<exists>a. ps_LastStartTime d = Some a \<and> (\<forall>c. ps_LastCloseTime d = Some c \<longrightarrow> c \<le> a))))"

definition stats_inv :: "string \<Rightarrow> int \<Rightarrow> string option \<Rightarrow> ServerStatistics \<Rightarrow> bool" where
  "stats_inv n now cur m \<longleftrightarrow> distinct (map fst (sm_ProxyStatistics m)) \<and> entry_ok now cur (map_of (sm_ProxyStatistics m) n)"

lemma on_stats_lookup: "map_of (sm_ProxyStatistics (on_stats name f m)) n =
    (if name = n then map_option f (map_of (sm_ProxyStatistics m) n) else map_of (sm_ProxyStatistics m) n)"
  by (auto simp: on_stats_def split: option.splits)

lemma map_of_filter_keep: "(\<And>d. map_of xs n = Some d \<Longrightarrow> P d) \<Longrightarrow> distinct (map fst xs) \<Longrightarrow> map_of (filter (\<lambda>(k, d). P d) xs) n = map_of xs n"
  by (induction xs) (auto simp: map_of_eq_None_iff split: if_splits)

lemma on_stats_distinct: "distinct (map fst (sm_ProxyStatistics m)) \<Longrightarrow> distinct (map fst (sm_ProxyStatistics (on_stats name f m)))"
  by (auto simp: on_stats_def distinct_map_put split: option.splits)

lemma on_stats_inv:
  assumes "stats_inv n now cur m" and "\<And>d. ps_ProxyType (f d) = ps_ProxyType d \<and> ps_LastStartTime (f d) = ps_LastStartTime d \<and> ps_LastCloseTime (f d) = ps_LastCloseTime d"
  shows "stats_inv n now cur (on_stats name f m)"
proof -
  have "entry_ok now cur (map_option f x) = entry_ok now cur x" for x using assms(2) by (cases x) (simp_all add: entry_ok_def)
  then show ?thesis using assms(1) on_stats_distinct [of m name f] by (simp add: stats_inv_def on_stats_lookup)
qed

lemma stats_inv_later:
  assumes "stats_inv n now cur m" and "now \<le> now'"
  shows "stats_inv n now' cur m"
proof -
  have "entry_ok now' cur x" if "entry_ok now cur x" for x using that assms(2) by (cases x) (auto simp: entry_ok_def)
  then show ?thesis using assms(1) by (simp add: stats_inv_def)
qed

lemma stats_inv_frame [simp]:
  "stats_inv n now cur (m\<lparr>sm_CurConns := x\<rparr>) = stats_inv n now cur m" "stats_inv n now cur (m\<lparr>sm_ClientCounts := x\<rparr>) = stats_inv n now cur m"
  "stats_inv n now cur (m\<lparr>sm_TotalTrafficIn := y\<rparr>) = stats_inv n now cur m" "stats_inv n now cur (m\<lparr>sm_TotalTrafficOut := y\<rparr>) = stats_inv n now cur m"
  by (simp_all add: stats_inv_def)

lemma NewProxy_entry:
  "sm_ProxyStatistics (sm_NewProxy midnight now name t u c m) = map_put name (d\<lparr>ps_User := u, ps_ClientID := c, ps_LastStartTime := Some now\<rparr>) (sm_ProxyStatistics m)
     \<and> ps_ProxyType d = t \<and> (ps_LastCloseTime d = Some x \<longrightarrow> (\<exists>d'. map_of (sm_ProxyStatistics m) name = Some d' \<and> ps_LastCloseTime d' = Some x))"
  if "d = (case map_of (sm_ProxyStatistics m) name of
       Some d' \<Rightarrow> if ps_ProxyType d' \<noteq> t then \<lparr>ps_Name = name, ps_ProxyType = t, ps_User = [], ps_ClientID = [],
                   ps_TrafficIn = NewDateCounter midnight now ReserveDays, ps_TrafficOut = NewDateCounter midnight now ReserveDays,
                   ps_CurConns = NewCounter, ps_LastStartTime = None, ps_LastCloseTime = None\<rparr> else d'
     | None \<Rightarrow> \<lparr>ps_Name = name, ps_ProxyType = t, ps_User = [], ps_ClientID = [],
                   ps_TrafficIn = NewDateCounter midnight now ReserveDays, ps_TrafficOut = NewDateCounter midnight now ReserveDays,
                   ps_CurConns = NewCounter, ps_LastStartTime = None, ps_LastCloseTime = None\<rparr>)" for d
  using that by (auto simp: sm_NewProxy_def Let_def split: option.splits)

lemma metric_step_stats:
  assumes inv: "stats_inv n now cur m" and sane: "clears_sanely e"
  shows "stats_inv n now (open_type n e cur) (metric_step midnight (now, e) m)"
proof (cases e)
  case (EvNewProxy name t u c)
  let ?m = "sm_NewProxy midnight now name t u c m"
  obtain d where d: "sm_ProxyStatistics ?m = map_put name (d\<lparr>ps_User := u, ps_ClientID := c, ps_LastStartTime := Some now\<rparr>) (sm_ProxyStatistics m)"
      "ps_ProxyType d = t" "\<And>x. ps_LastCloseTime d = Some x \<Longrightarrow> \<exists>d'. map_of (sm_ProxyStatistics m) name = Some d' \<and> ps_LastCloseTime d' = Some x"
    using NewProxy_entry [OF refl] by blast
  have "x \<le> now" if "name = n" "ps_LastCloseTime d = Some x" for x
    using d(3) [OF that(2)] inv that(1) by (auto simp: stats_inv_def entry_ok_def simp del: map_of_eq_Some_iff)
  then show ?thesis using inv d EvNewProxy by (simp add: stats_inv_def distinct_map_put entry_ok_def)
next
  case (EvCloseProxy name t)
  obtain m' where m': "sm_CloseProxy now name t m = on_stats name (\<lambda>d. d\<lparr>ps_LastCloseTime := Some now\<rparr>) m'" "sm_ProxyStatistics m' = sm_ProxyStatistics m"
    by (cases "map_of (sm_ProxyTypeCounts m) t") (auto simp: sm_CloseProxy_def)
  have "entry_ok now None (map_option (\<lambda>d. d\<lparr>ps_LastCloseTime := Some now\<rparr>) x)" for x by (cases x) (simp_all add: entry_ok_def)
  then show ?thesis using EvCloseProxy m' inv on_stats_distinct [of m' name "\<lambda>d. d\<lparr>ps_LastCloseTime := Some now\<rparr>"]
    by (simp add: stats_inv_def on_stats_lookup)
next
  case (EvClear offline)
  let ?kept = "filter (\<lambda>(k, d). \<not> useless now offline d) (sm_ProxyStatistics m)"
  have dist: "distinct (map fst (sm_ProxyStatistics m))" using inv by (simp add: stats_inv_def)
  have "entry_ok now cur (map_of ?kept n)"
  proof (cases "map_of ?kept n = map_of (sm_ProxyStatistics m) n")
    case True
    then show ?thesis using inv by (simp add: stats_inv_def)
  next
    case False
    then obtain d where d: "map_of (sm_ProxyStatistics m) n = Some d" "useless now offline d" using map_of_filter_keep [OF _ dist] by metis
    then have "cur = None" using inv sane EvClear by (cases cur) (auto simp: stats_inv_def entry_ok_def useless_def simp del: map_of_eq_Some_iff split: option.splits)
    moreover have "map_of ?kept n = None"
    proof (rule ccontr)
      assume "map_of ?kept n \<noteq> None"
      then obtain d' where "map_of ?kept n = Some d'" by blast
      from map_of_SomeD [OF this] have "(n, d') \<in> set (sm_ProxyStatistics m)" "\<not> useless now offline d'" by auto
      then show False using d dist by (metis map_of_is_SomeI option.inject)
    qed
    ultimately show ?thesis by (simp add: entry_ok_def)
  qed
  then show ?thesis using dist EvClear by (simp add: stats_inv_def clearUselessInfo_def Let_def distinct_map_filter)
qed (use inv in \<open>simp_all add: sm_NewClient_def sm_CloseClient_def sm_OpenConnection_def sm_CloseConnection_def sm_AddTrafficIn_def sm_AddTrafficOut_def on_stats_inv\<close>)

definition open_now :: "string \<Rightarrow> (int \<times> metric_event) list \<Rightarrow> string option" where
  "open_now n xs = fold (\<lambda>(now, e). open_type n e) xs None"

lemma metric_run_stats:
  assumes "sorted (map fst xs)" and "\<forall>x \<in> set xs. clears_sanely (snd x)" and "\<forall>x \<in> set xs. fst x \<le> now"
  shows "stats_inv n now (open_now n xs) (fold (metric_step midnight) xs (newServerMetrics midnight t0))"
  using assms
proof (induction xs arbitrary: now rule: rev_induct)
  case Nil
  show ?case by (simp add: open_now_def stats_inv_def entry_ok_def newServerMetrics_def)
next
  case (snoc x xs)
  obtain t e where x: "x = (t, e)" by (cases x)
  have "stats_inv n t (open_now n xs) (fold (metric_step midnight) xs (newServerMetrics midnight t0))"
    using snoc.prems(1,2) x by (intro snoc.IH) (auto simp: sorted_append)
  from metric_step_stats [OF this, of e midnight] have "stats_inv n t (open_now n (xs @ [x])) (fold (metric_step midnight) (xs @ [x]) (newServerMetrics midnight t0))"
    using snoc.prems(2) x by (simp add: open_now_def)
  then show ?case by (rule stats_inv_later) (use snoc.prems(3) x in simp)
qed

text \<open>A proxy that is open is never lost from the dashboard. After any history in which time does not run backwards, with whatever clean-ups of the statistics, and
  after the offline proxies are deleted, a proxy that was opened and not closed since is shown under its name and its type.\<close>

theorem open_proxy_shown:
  fixes midnight :: "int \<Rightarrow> int" and t0 :: int and xs :: "(int \<times> metric_event) list" and env :: dash_env and status :: string
  assumes "sorted (map fst xs)" and "\<forall>x \<in> set xs. clears_sanely (snd x) \<and> fst x \<le> de_now env" and "open_now name xs = Some t"
  defines "m \<equiv> snd (DeleteProxies env status (fold (metric_step midnight) xs (newServerMetrics midnight t0)))"
  shows "\<exists>r. APIProxyByName env name pxys m = ok r \<and> APIProxyByTypeAndName env t name pxys m = ok r \<and> pr_Name r = name
    \<and> (pr_Status r = ''online'' \<longleftrightarrow> pxys name \<noteq> None)"
proof -
  let ?m0 = "fold (metric_step midnight) xs (newServerMetrics midnight t0)"
  have i0: "stats_inv name (de_now env) (Some t) ?m0" using metric_run_stats [of xs "de_now env" name midnight t0] assms(1-3) by simp
  have "m = ?m0 \<or> m = metric_step midnight (de_now env, EvClear 0) ?m0" by (auto simp: m_def DeleteProxies_def ClearOfflineProxies_def)
  then have "stats_inv name (de_now env) (Some t) m" using i0 metric_step_stats [OF i0, of "EvClear 0" midnight] by auto
  then obtain d where d: "map_of (sm_ProxyStatistics m) name = Some d" "ps_ProxyType d = t"
    by (cases "map_of (sm_ProxyStatistics m) name") (auto simp: stats_inv_def entry_ok_def simp del: map_of_eq_Some_iff)
  let ?ps = "toProxyStats (de_layout env) (de_midnight env) (de_now env) name d"
  have r: "APIProxyByName env name pxys m = ok (proxy_resp pxys ?ps)" "APIProxyByTypeAndName env t name pxys m = ok ((proxy_resp pxys ?ps)\<lparr>pr_Name := name\<rparr>)"
    using d by (simp_all add: APIProxyByName_def GetProxyByName_def APIProxyByTypeAndName_def getProxyStatsByTypeAndName_def GetProxiesByTypeAndName_def)
  have n: "px_Name ?ps = name" by (simp add: toProxyStats_def)
  then have "pr_Name (proxy_resp pxys ?ps) = name" "pr_Status (proxy_resp pxys ?ps) = ''online'' \<longleftrightarrow> pxys name \<noteq> None"
    by (cases "pxys name"; simp add: proxy_resp_def)+
  then show ?thesis using r by simp
qed

theorem open_proxy_shown_witness:
  "\<exists>r. APIProxyByName \<lparr>de_layout = (\<lambda>t. []), de_midnight = (\<lambda>t. 0), de_now = 5\<rparr> ''a'' Map.empty
     (snd (DeleteProxies \<lparr>de_layout = (\<lambda>t. []), de_midnight = (\<lambda>t. 0), de_now = 5\<rparr> ''offline''
        (fold (metric_step (\<lambda>t. 0)) [(1, EvNewProxy ''a'' ''tcp'' [] []), (2, EvCloseProxy ''a'' ''tcp''), (2, EvNewProxy ''a'' ''tcp'' [] []), (4, EvClear 0)]
          (newServerMetrics (\<lambda>t. 0) 0)))) = ok r \<and> pr_Name r = ''a''"
  using open_proxy_shown [of "[(1, EvNewProxy ''a'' ''tcp'' [] []), (2, EvCloseProxy ''a'' ''tcp''), (2, EvNewProxy ''a'' ''tcp'' [] []), (4, EvClear 0)]"
      "\<lparr>de_layout = (\<lambda>t. []), de_midnight = (\<lambda>t. 0), de_now = 5\<rparr>" "''a''" "''tcp''" Map.empty "''offline''" "\<lambda>t. 0" 0]
  by (simp add: open_now_def) blast

section \<open>The list of clients\<close>

text \<open>The list has exactly the clients of the registry that pass the filters, each once, in the order of user, client and key.\<close>

lemma client_list_exact:
  assumes "distinct keys" and "set keys = dom (clients r)"
  shows "mset (APIClientList unix keys u c i st r) =
      image_mset (\<lambda>k. buildClientInfoResp unix (the (clients r k)))
        (filter_mset (\<lambda>k. let info = the (clients r k) in (u \<noteq> [] \<longrightarrow> ci_User info = u) \<and> (c \<noteq> [] \<longrightarrow> ClientID info = c)
           \<and> (i \<noteq> [] \<longrightarrow> ci_RunID info = i) \<and> matchStatusFilter (ci_Online info) (to_lower st)) (mset_set (dom (clients r))))"
    and "sorted (map (\<lambda>x. (cr_User x, cr_ClientID x, cr_Key x)) (APIClientList unix keys u c i st r))"
proof -
  have "filter (\<lambda>k. clients r k \<noteq> None) keys = keys" using assms(2) by (auto simp: filter_id_conv)
  then have l: "reg_List keys r = map (\<lambda>k. the (clients r k)) keys" by (simp add: reg_List_def List.map_filter_def comp_def)
  have m: "mset_set (dom (clients r)) = mset keys" using mset_set_set [OF assms(1)] assms(2) by simp
  show "mset (APIClientList unix keys u c i st r) =
      image_mset (\<lambda>k. buildClientInfoResp unix (the (clients r k)))
        (filter_mset (\<lambda>k. let info = the (clients r k) in (u \<noteq> [] \<longrightarrow> ci_User info = u) \<and> (c \<noteq> [] \<longrightarrow> ClientID info = c)
           \<and> (i \<noteq> [] \<longrightarrow> ci_RunID info = i) \<and> matchStatusFilter (ci_Online info) (to_lower st)) (mset_set (dom (clients r))))"
    by (simp add: APIClientList_def l m filter_map comp_def Let_def flip: mset_filter mset_map)
  show "sorted (map (\<lambda>x. (cr_User x, cr_ClientID x, cr_Key x)) (APIClientList unix keys u c i st r))" by (simp add: APIClientList_def Let_def)
qed

end
