(* ===== verification/Oidc_Auth.thy ===== *)
theory Oidc_Auth
  imports Common_Config
begin

text \<open>
  Authentication with OIDC: \<^verbatim>\<open>pkg/auth/oidc.go\<close>. The verifier of tokens and the sources of tokens are third-party packages: \<open>verify\<close> returns the subject of
  a token that is valid, \<open>fetch\<close> and \<open>cached\<close> answer a request for a token.
\<close>

section \<open>The client\<close>

record access_token =
  at_value :: string
  at_expiry :: "int option"

datatype token_source = CachingSource | NonCachingSource

record oidcTokenSource =
  ts_initialized :: bool
  ts_source :: token_source

definition newOidcTokenSource :: oidcTokenSource where
  "newOidcTokenSource = \<lparr>ts_initialized = False, ts_source = CachingSource\<rparr>"

text \<open>\<open>ask\<close> is the answer of each source at the moment of the call.\<close>

definition oidc_Token :: "(token_source \<Rightarrow> access_token option) \<Rightarrow> oidcTokenSource \<Rightarrow> access_token option \<times> oidcTokenSource" where
  "oidc_Token ask s =
     (if \<not> ts_initialized s
      then (case ask (ts_source s) of
              None \<Rightarrow> (None, s)
            | Some token \<Rightarrow> (Some token, \<lparr>ts_initialized = True, ts_source = (if at_expiry token = None then NonCachingSource else ts_source s)\<rparr>))
      else (ask (ts_source s), s))"

record OidcAuthProvider =
  op_additionalAuthScopes :: "AuthScope list"
  op_tokenSource :: oidcTokenSource

definition generateAccessToken :: "(token_source \<Rightarrow> access_token option) \<Rightarrow> OidcAuthProvider \<Rightarrow> string option \<times> OidcAuthProvider" where
  "generateAccessToken ask auth =
     (let (t, s) = oidc_Token ask (op_tokenSource auth) in (map_option at_value t, auth\<lparr>op_tokenSource := s\<rparr>))"

text \<open>The message with its key, or \<open>None\<close> for an error. On an error the code also clears the key, but the message is not sent.\<close>

definition oidc_SetLogin :: "(token_source \<Rightarrow> access_token option) \<Rightarrow> OidcAuthProvider \<Rightarrow> signed \<Rightarrow> signed option \<times> OidcAuthProvider" where
  "oidc_SetLogin ask auth m = (let (t, auth') = generateAccessToken ask auth in (map_option (\<lambda>k. m\<lparr>sg_PrivilegeKey := k\<rparr>) t, auth'))"

definition oidc_SetPing :: "(token_source \<Rightarrow> access_token option) \<Rightarrow> OidcAuthProvider \<Rightarrow> signed \<Rightarrow> signed option \<times> OidcAuthProvider" where
  "oidc_SetPing ask auth m =
     (if AuthScopeHeartBeats \<notin> set (op_additionalAuthScopes auth) then (Some m, auth)
      else (let (t, auth') = generateAccessToken ask auth in (map_option (\<lambda>k. m\<lparr>sg_PrivilegeKey := k\<rparr>) t, auth')))"

definition oidc_SetNewWorkConn :: "(token_source \<Rightarrow> access_token option) \<Rightarrow> OidcAuthProvider \<Rightarrow> signed \<Rightarrow> signed option \<times> OidcAuthProvider" where
  "oidc_SetNewWorkConn ask auth m =
     (if AuthScopeNewWorkConns \<notin> set (op_additionalAuthScopes auth) then (Some m, auth)
      else (let (t, auth') = generateAccessToken ask auth in (map_option (\<lambda>k. m\<lparr>sg_PrivilegeKey := k\<rparr>) t, auth')))"

text \<open>The variant that takes the token from a file or a command.\<close>

definition source_SetLogin :: "source_env \<Rightarrow> ValueSource \<Rightarrow> signed \<Rightarrow> signed option" where
  "source_SetLogin w vs m = (case vs_Resolve w vs of Inl _ \<Rightarrow> None | Inr t \<Rightarrow> Some (m\<lparr>sg_PrivilegeKey := t\<rparr>))"

definition source_SetPing :: "source_env \<Rightarrow> AuthScope list \<Rightarrow> ValueSource \<Rightarrow> signed \<Rightarrow> signed option" where
  "source_SetPing w scopes vs m = (if AuthScopeHeartBeats \<notin> set scopes then Some m else source_SetLogin w vs m)"

definition source_SetNewWorkConn :: "source_env \<Rightarrow> AuthScope list \<Rightarrow> ValueSource \<Rightarrow> signed \<Rightarrow> signed option" where
  "source_SetNewWorkConn w scopes vs m = (if AuthScopeNewWorkConns \<notin> set scopes then Some m else source_SetLogin w vs m)"

section \<open>The server\<close>

text \<open>One consumer serves all sessions. A set of subjects is never emptied.\<close>

record OidcAuthConsumer =
  oc_additionalAuthScopes :: "AuthScope list"
  oc_subjectsFromLogin :: "string set"

definition NewOidcAuthVerifier :: "AuthScope list \<Rightarrow> OidcAuthConsumer" where
  "NewOidcAuthVerifier scopes = \<lparr>oc_additionalAuthScopes = scopes, oc_subjectsFromLogin = {}\<rparr>"

datatype oidc_error = InvalidToken | DifferentSubject

definition oidc_VerifyLogin :: "(string \<Rightarrow> string option) \<Rightarrow> signed \<Rightarrow> OidcAuthConsumer \<Rightarrow> (oidc_error, unit) result \<times> OidcAuthConsumer" where
  "oidc_VerifyLogin verify m auth =
     (case verify (sg_PrivilegeKey m) of
        None \<Rightarrow> (err InvalidToken, auth)
      | Some subject \<Rightarrow> (ok (), auth\<lparr>oc_subjectsFromLogin := insert subject (oc_subjectsFromLogin auth)\<rparr>))"

definition verifyPostLoginToken :: "(string \<Rightarrow> string option) \<Rightarrow> string \<Rightarrow> OidcAuthConsumer \<Rightarrow> (oidc_error, unit) result" where
  "verifyPostLoginToken verify key auth =
     (case verify key of
        None \<Rightarrow> err InvalidToken
      | Some subject \<Rightarrow> if subject \<in> oc_subjectsFromLogin auth then ok () else err DifferentSubject)"

definition oidc_VerifyPing :: "(string \<Rightarrow> string option) \<Rightarrow> signed \<Rightarrow> OidcAuthConsumer \<Rightarrow> (oidc_error, unit) result" where
  "oidc_VerifyPing verify m auth =
     (if AuthScopeHeartBeats \<notin> set (oc_additionalAuthScopes auth) then ok () else verifyPostLoginToken verify (sg_PrivilegeKey m) auth)"

definition oidc_VerifyNewWorkConn :: "(string \<Rightarrow> string option) \<Rightarrow> signed \<Rightarrow> OidcAuthConsumer \<Rightarrow> (oidc_error, unit) result" where
  "oidc_VerifyNewWorkConn verify m auth =
     (if AuthScopeNewWorkConns \<notin> set (oc_additionalAuthScopes auth) then ok () else verifyPostLoginToken verify (sg_PrivilegeKey m) auth)"

section \<open>What is accepted\<close>

text \<open>The consumer after logins of whatever sessions; what a token means may change with time, so that each login has its own verifier.\<close>

definition after_logins :: "((string \<Rightarrow> string option) \<times> signed) list \<Rightarrow> OidcAuthConsumer \<Rightarrow> OidcAuthConsumer" where
  "after_logins ls auth = fold (\<lambda>(verify, m) a. snd (oidc_VerifyLogin verify m a)) ls auth"

lemma after_logins_subjects:
  "oc_subjectsFromLogin (after_logins ls auth) = oc_subjectsFromLogin auth \<union> {subject. \<exists>(verify, m) \<in> set ls. verify (sg_PrivilegeKey m) = Some subject}
   \<and> oc_additionalAuthScopes (after_logins ls auth) = oc_additionalAuthScopes auth"
proof (induction ls arbitrary: auth)
  case (Cons l ls)
  obtain v m where l: "l = (v, m)" by (cases l)
  let ?a = "snd (oidc_VerifyLogin v m auth)"
  have a: "oc_subjectsFromLogin ?a = oc_subjectsFromLogin auth \<union> set_option (v (sg_PrivilegeKey m))" "oc_additionalAuthScopes ?a = oc_additionalAuthScopes auth"
    by (auto simp: oidc_VerifyLogin_def split: option.splits)
  have "after_logins (l # ls) auth = after_logins ls ?a" by (simp add: after_logins_def l)
  then show ?case using Cons.IH [of ?a] a l by auto
qed (simp add: after_logins_def)

text \<open>A ping or a work connection in a scope that is checked is accepted exactly if its token is valid and its subject is that of a login which was accepted before, of
  this session or any other; outside the scopes everything is accepted.\<close>

theorem oidc_post_login_iff:
  fixes auth :: OidcAuthConsumer and scopes :: "AuthScope list" and ls :: "((string \<Rightarrow> string option) \<times> signed) list"
  defines "auth \<equiv> after_logins ls (NewOidcAuthVerifier scopes)"
  shows "(oidc_VerifyPing verify m auth = ok () \<longleftrightarrow>
      (AuthScopeHeartBeats \<in> set scopes \<longrightarrow> (\<exists>(v, l) \<in> set ls. verify (sg_PrivilegeKey m) \<noteq> None \<and> v (sg_PrivilegeKey l) = verify (sg_PrivilegeKey m))))
    \<and> (oidc_VerifyNewWorkConn verify m auth = ok () \<longleftrightarrow>
      (AuthScopeNewWorkConns \<in> set scopes \<longrightarrow> (\<exists>(v, l) \<in> set ls. verify (sg_PrivilegeKey m) \<noteq> None \<and> v (sg_PrivilegeKey l) = verify (sg_PrivilegeKey m))))"
proof -
  have a: "oc_subjectsFromLogin auth = {subject. \<exists>(v, l) \<in> set ls. v (sg_PrivilegeKey l) = Some subject}" "oc_additionalAuthScopes auth = scopes"
    using after_logins_subjects [of ls "NewOidcAuthVerifier scopes"] by (simp_all add: auth_def NewOidcAuthVerifier_def)
  have "verifyPostLoginToken verify k auth = ok () \<longleftrightarrow> (\<exists>(v, l) \<in> set ls. verify k \<noteq> None \<and> v (sg_PrivilegeKey l) = verify k)" for k
    by (auto simp: verifyPostLoginToken_def a(1) split: option.splits)
  then show ?thesis by (simp add: oidc_VerifyPing_def oidc_VerifyNewWorkConn_def a(2))
qed

text \<open>The subject of a ping is not compared with that of its own session: the token of one client passes in the session of another.\<close>

theorem foreign_subject_passes:
  "\<exists>verify alice bob. verify (sg_PrivilegeKey alice) \<noteq> verify (sg_PrivilegeKey bob) \<and> verify (sg_PrivilegeKey bob) \<noteq> None
     \<and> oidc_VerifyNewWorkConn verify bob (after_logins [(verify, alice), (verify, bob)] (NewOidcAuthVerifier [AuthScopeNewWorkConns])) = ok ()"
proof (intro exI conjI)
  let ?v = "\<lambda>k. Some k" and ?a = "\<lparr>sg_Timestamp = 0, sg_PrivilegeKey = ''a''\<rparr>" and ?b = "\<lparr>sg_Timestamp = 0, sg_PrivilegeKey = ''b''\<rparr>"
  show "?v (sg_PrivilegeKey ?a) \<noteq> ?v (sg_PrivilegeKey ?b)" by simp
  show "oidc_VerifyNewWorkConn ?v ?b (after_logins [(?v, ?a), (?v, ?b)] (NewOidcAuthVerifier [AuthScopeNewWorkConns])) = ok ()"
    by (simp add: oidc_VerifyNewWorkConn_def verifyPostLoginToken_def after_logins_def oidc_VerifyLogin_def NewOidcAuthVerifier_def)
qed simp

section \<open>Tokens that expire\<close>

text \<open>After the first token, the source is fixed: a token without an expiry is never cached.\<close>

fun token_calls :: "(token_source \<Rightarrow> access_token option) list \<Rightarrow> oidcTokenSource \<Rightarrow> access_token option list \<times> oidcTokenSource" where
  "token_calls [] s = ([], s)"
| "token_calls (ask # asks) s = (let (t, s1) = oidc_Token ask s; (ts, s2) = token_calls asks s1 in (t # ts, s2))"

lemma token_calls_initialized: "ts_initialized s \<Longrightarrow> token_calls asks s = (map (\<lambda>ask. ask (ts_source s)) asks, s)"
  by (induction asks) (simp_all add: oidc_Token_def)

theorem token_not_stale:
  assumes "ask CachingSource = Some t"
  shows "fst (token_calls (ask # asks) newOidcTokenSource) = Some t # map (\<lambda>a. a (if at_expiry t = None then NonCachingSource else CachingSource)) asks"
  using assms by (auto simp: oidc_Token_def newOidcTokenSource_def token_calls_initialized split: prod.splits)

theorem token_not_stale_witness:
  "fst (token_calls [\<lambda>_. Some \<lparr>at_value = ''t'', at_expiry = None\<rparr>, \<lambda>s. if s = CachingSource then Some \<lparr>at_value = ''t'', at_expiry = None\<rparr> else Some \<lparr>at_value = ''u'', at_expiry = None\<rparr>]
     newOidcTokenSource) = [Some \<lparr>at_value = ''t'', at_expiry = None\<rparr>, Some \<lparr>at_value = ''u'', at_expiry = None\<rparr>]"
  using token_not_stale [of "\<lambda>_. Some \<lparr>at_value = ''t'', at_expiry = None\<rparr>" "\<lparr>at_value = ''t'', at_expiry = None\<rparr>"
      "[\<lambda>s. if s = CachingSource then Some \<lparr>at_value = ''t'', at_expiry = None\<rparr> else Some \<lparr>at_value = ''u'', at_expiry = None\<rparr>]"] by simp

end
