(* ===== verification/Admin_Api.thy ===== *)
theory Admin_Api
  imports Client_Service
begin

text \<open>
  The administration interface of the client: \<^verbatim>\<open>client/http/controller.go\<close>, \<^verbatim>\<open>client/http/model\<close>, \<^verbatim>\<open>client/api_router.go\<close>,
  \<^verbatim>\<open>pkg/util/http\<close> and the authentication of \<^verbatim>\<open>pkg/util/net/http.go\<close>. A handler returns the status code of an error or what is sent
  with status \<open>200\<close>. Decoding of JSON, the loader of the configuration file and the operating system are parameters.
\<close>

section \<open>Definitions of proxies and visitors\<close>

record ProxyDefinition =
  pd_Name :: string
  pd_Type :: string
  pd_TCP :: "TCPProxyConfig option"
  pd_UDP :: "UDPProxyConfig option"
  pd_HTTP :: "HTTPProxyConfig option"
  pd_HTTPS :: "HTTPSProxyConfig option"
  pd_TCPMux :: "TCPMuxProxyConfig option"
  pd_STCP :: "STCPProxyConfig option"
  pd_SUDP :: "SUDPProxyConfig option"
  pd_XTCP :: "XTCPProxyConfig option"

definition zero_definition :: ProxyDefinition where
  "zero_definition = \<lparr>pd_Name = [], pd_Type = [], pd_TCP = None, pd_UDP = None, pd_HTTP = None, pd_HTTPS = None, pd_TCPMux = None,
     pd_STCP = None, pd_SUDP = None, pd_XTCP = None\<rparr>"

text \<open>The blocks that are present, in the order in which they are looked at; the last one counts.\<close>

definition last_block :: "('c \<times> string) option list \<Rightarrow> 'c option \<times> string \<times> nat" where
  "last_block bs =
     (let present = List.map_filter id bs in
      if present = [] then (None, [], 0) else (Some (fst (last present)), snd (last present), length present))"

definition pd_activeBlock :: "ProxyDefinition \<Rightarrow> ProxyConfigurer option \<times> string \<times> nat" where
  "pd_activeBlock p = last_block
     [map_option (\<lambda>c. (TCPConf c, ''tcp'')) (pd_TCP p), map_option (\<lambda>c. (UDPConf c, ''udp'')) (pd_UDP p),
      map_option (\<lambda>c. (HTTPConf c, ''http'')) (pd_HTTP p), map_option (\<lambda>c. (HTTPSConf c, ''https'')) (pd_HTTPS p),
      map_option (\<lambda>c. (TCPMuxConf c, ''tcpmux'')) (pd_TCPMux p), map_option (\<lambda>c. (STCPConf c, ''stcp'')) (pd_STCP p),
      map_option (\<lambda>c. (SUDPConf c, ''sudp'')) (pd_SUDP p), map_option (\<lambda>c. (XTCPConf c, ''xtcp'')) (pd_XTCP p)]"

definition IsProxyType :: "string \<Rightarrow> bool" where
  "IsProxyType t \<longleftrightarrow> t \<in> {''tcp'', ''udp'', ''http'', ''https'', ''tcpmux'', ''stcp'', ''sudp'', ''xtcp''}"

datatype definition_error = NameRequired | InvalidType | NameMismatch | NotOneBlock | BlockMismatch

definition pd_Validate :: "string \<Rightarrow> bool \<Rightarrow> ProxyDefinition \<Rightarrow> definition_error option" where
  "pd_Validate pathName isUpdate p =
     (if trim_space (pd_Name p) = [] then Some NameRequired
      else if \<not> IsProxyType (pd_Type p) then Some InvalidType
      else if isUpdate \<and> pathName \<noteq> [] \<and> pathName \<noteq> pd_Name p then Some NameMismatch
      else (case pd_activeBlock p of (_, blockType, blockCount) \<Rightarrow>
              if blockCount \<noteq> 1 then Some NotOneBlock
              else if blockType \<noteq> pd_Type p then Some BlockMismatch
              else None))"

fun pc_put :: "string \<Rightarrow> string \<Rightarrow> ProxyConfigurer \<Rightarrow> ProxyConfigurer" where
  "pc_put n t (TCPConf c) = TCPConf (c\<lparr>pb_Name := n, pb_Type := t\<rparr>)"
| "pc_put n t (UDPConf c) = UDPConf (c\<lparr>pb_Name := n, pb_Type := t\<rparr>)"
| "pc_put n t (HTTPConf c) = HTTPConf (c\<lparr>pb_Name := n, pb_Type := t\<rparr>)"
| "pc_put n t (HTTPSConf c) = HTTPSConf (c\<lparr>pb_Name := n, pb_Type := t\<rparr>)"
| "pc_put n t (TCPMuxConf c) = TCPMuxConf (c\<lparr>pb_Name := n, pb_Type := t\<rparr>)"
| "pc_put n t (STCPConf c) = STCPConf (c\<lparr>pb_Name := n, pb_Type := t\<rparr>)"
| "pc_put n t (XTCPConf c) = XTCPConf (c\<lparr>pb_Name := n, pb_Type := t\<rparr>)"
| "pc_put n t (SUDPConf c) = SUDPConf (c\<lparr>pb_Name := n, pb_Type := t\<rparr>)"

definition pd_ToConfigurer :: "ProxyDefinition \<Rightarrow> ProxyConfigurer option" where
  "pd_ToConfigurer p = map_option (pc_put (pd_Name p) (pd_Type p)) (fst (pd_activeBlock p))"

definition ProxyDefinitionFromConfigurer :: "ProxyConfigurer \<Rightarrow> ProxyDefinition" where
  "ProxyDefinitionFromConfigurer cfg =
     (let payload = zero_definition\<lparr>pd_Name := pc_name cfg, pd_Type := pb_Type (GetBaseConfig cfg)\<rparr> in
      case cfg of
        TCPConf c \<Rightarrow> payload\<lparr>pd_TCP := Some c\<rparr> | UDPConf c \<Rightarrow> payload\<lparr>pd_UDP := Some c\<rparr>
      | HTTPConf c \<Rightarrow> payload\<lparr>pd_HTTP := Some c\<rparr> | HTTPSConf c \<Rightarrow> payload\<lparr>pd_HTTPS := Some c\<rparr>
      | TCPMuxConf c \<Rightarrow> payload\<lparr>pd_TCPMux := Some c\<rparr> | STCPConf c \<Rightarrow> payload\<lparr>pd_STCP := Some c\<rparr>
      | SUDPConf c \<Rightarrow> payload\<lparr>pd_SUDP := Some c\<rparr> | XTCPConf c \<Rightarrow> payload\<lparr>pd_XTCP := Some c\<rparr>)"

record VisitorDefinition =
  vd_Name :: string
  vd_Type :: string
  vd_STCP :: "VisitorBaseConfig option"
  vd_SUDP :: "VisitorBaseConfig option"
  vd_XTCP :: "XTCPVisitorConfig option"

definition vd_activeBlock :: "VisitorDefinition \<Rightarrow> VisitorConfigurer option \<times> string \<times> nat" where
  "vd_activeBlock p = last_block
     [map_option (\<lambda>c. (STCPVisitorConf c, ''stcp'')) (vd_STCP p), map_option (\<lambda>c. (SUDPVisitorConf c, ''sudp'')) (vd_SUDP p),
      map_option (\<lambda>c. (XTCPVisitorConf c, ''xtcp'')) (vd_XTCP p)]"

definition IsVisitorType :: "string \<Rightarrow> bool" where
  "IsVisitorType t \<longleftrightarrow> t \<in> {''stcp'', ''sudp'', ''xtcp''}"

definition vd_Validate :: "string \<Rightarrow> bool \<Rightarrow> VisitorDefinition \<Rightarrow> definition_error option" where
  "vd_Validate pathName isUpdate p =
     (if trim_space (vd_Name p) = [] then Some NameRequired
      else if \<not> IsVisitorType (vd_Type p) then Some InvalidType
      else if isUpdate \<and> pathName \<noteq> [] \<and> pathName \<noteq> vd_Name p then Some NameMismatch
      else (case vd_activeBlock p of (_, blockType, blockCount) \<Rightarrow>
              if blockCount \<noteq> 1 then Some NotOneBlock
              else if blockType \<noteq> vd_Type p then Some BlockMismatch
              else None))"

fun vc_put :: "string \<Rightarrow> string \<Rightarrow> VisitorConfigurer \<Rightarrow> VisitorConfigurer" where
  "vc_put n t (STCPVisitorConf c) = STCPVisitorConf (c\<lparr>vb_Name := n, vb_Type := t\<rparr>)"
| "vc_put n t (SUDPVisitorConf c) = SUDPVisitorConf (c\<lparr>vb_Name := n, vb_Type := t\<rparr>)"
| "vc_put n t (XTCPVisitorConf c) = XTCPVisitorConf (c\<lparr>vb_Name := n, vb_Type := t\<rparr>)"

definition vd_ToConfigurer :: "VisitorDefinition \<Rightarrow> VisitorConfigurer option" where
  "vd_ToConfigurer p = map_option (vc_put (vd_Name p) (vd_Type p)) (fst (vd_activeBlock p))"

definition VisitorDefinitionFromConfigurer :: "VisitorConfigurer \<Rightarrow> VisitorDefinition" where
  "VisitorDefinitionFromConfigurer cfg =
     (let payload = \<lparr>vd_Name = vc_name cfg, vd_Type = vb_Type (vc_GetBaseConfig cfg), vd_STCP = None, vd_SUDP = None, vd_XTCP = None\<rparr> in
      case cfg of
        STCPVisitorConf c \<Rightarrow> payload\<lparr>vd_STCP := Some c\<rparr>
      | SUDPVisitorConf c \<Rightarrow> payload\<lparr>vd_SUDP := Some c\<rparr>
      | XTCPVisitorConf c \<Rightarrow> payload\<lparr>vd_XTCP := Some c\<rparr>)"

definition vc_type :: "VisitorConfigurer \<Rightarrow> string" where
  "vc_type c = (case c of STCPVisitorConf _ \<Rightarrow> ''stcp'' | SUDPVisitorConf _ \<Rightarrow> ''sudp'' | XTCPVisitorConf _ \<Rightarrow> ''xtcp'')"

subsection \<open>What a definition promises\<close>

text \<open>The contract that definitions of proxies and of visitors share: \<open>from\<close> of a configuration whose type fits passes validation and
  denotes the configuration; what a valid definition denotes has its name and its type.\<close>

locale definition_model =
  fixes validate :: "string \<Rightarrow> bool \<Rightarrow> 'd \<Rightarrow> definition_error option" and to :: "'d \<Rightarrow> 'c option" and from_cfg :: "'c \<Rightarrow> 'd"
    and dname :: "'d \<Rightarrow> string" and cname ctype kind :: "'c \<Rightarrow> string"
  assumes name_from: "dname (from_cfg c) = cname c"
    and to_from: "ctype c = kind c \<Longrightarrow> to (from_cfg c) = Some c"
    and validate_from: "ctype c = kind c \<Longrightarrow> trim_space (cname c) \<noteq> [] \<Longrightarrow> validate n u (from_cfg c) = None \<longleftrightarrow> (u \<and> n \<noteq> [] \<longrightarrow> n = cname c)"
    and to_valid: "validate n u d = None \<Longrightarrow> \<exists>c. to d = Some c \<and> cname c = dname d \<and> ctype c = kind c"
    and valid_name: "validate n u d = None \<Longrightarrow> trim_space (dname d) \<noteq> [] \<and> (u \<and> n \<noteq> [] \<longrightarrow> n = dname d)"
begin

lemma round_trip:
  assumes "ctype c = kind c" and "trim_space (cname c) \<noteq> []"
  shows "validate (cname c) u (from_cfg c) = None \<and> to (from_cfg c) = Some c"
  using assms validate_from to_from by auto

lemma stable:
  assumes "validate n u d = None" and "to d = Some c"
  shows "validate n u (from_cfg c) = None \<and> to (from_cfg c) = Some c"
proof -
  have c: "cname c = dname d" "ctype c = kind c" using to_valid [OF assms(1)] assms(2) by auto
  then show ?thesis using valid_name [OF assms(1)] to_from validate_from [OF c(2), of n u] by simp
qed

end

lemma Some_eq_map_option: "Some y = map_option f x \<longleftrightarrow> (\<exists>z. x = Some z \<and> y = f z)"
  by (cases x) auto

lemma last_block_one:
  assumes "last_block bs = (b, t, 1)"
  shows "\<exists>c. b = Some c \<and> Some (c, t) \<in> set bs"
proof -
  let ?p = "List.map_filter id bs"
  have l: "length ?p = 1" "b = Some (fst (last ?p))" "t = snd (last ?p)" using assms by (auto simp: last_block_def Let_def split: if_splits)
  then have "last ?p \<in> set ?p" by (intro last_in_set) auto
  then show ?thesis using l by (auto simp: List.map_filter_def)
qed

lemma pd_active_one:
  assumes "pd_activeBlock p = (b, t, 1)"
  shows "\<exists>c. b = Some c \<and> conf_type c = t"
  using last_block_one [OF assms [unfolded pd_activeBlock_def]] by (auto simp: conf_type_def Some_eq_map_option)

lemma vd_active_one:
  assumes "vd_activeBlock p = (b, t, 1)"
  shows "\<exists>c. b = Some c \<and> vc_type c = t"
  using last_block_one [OF assms [unfolded vd_activeBlock_def]] by (auto simp: vc_type_def Some_eq_map_option)

lemma pc_put_simps:
  "pc_name (pc_put n t c) = n" "pb_Type (GetBaseConfig (pc_put n t c)) = t" "conf_type (pc_put n t c) = conf_type c"
  "pc_name c = n \<Longrightarrow> pb_Type (GetBaseConfig c) = t \<Longrightarrow> pc_put n t c = c"
  by (cases c; simp add: GetBaseConfig_def conf_type_def ProxyBaseConfig.defs)+

lemma vc_put_simps:
  "vc_name (vc_put n t c) = n" "vb_Type (vc_GetBaseConfig (vc_put n t c)) = t" "vc_type (vc_put n t c) = vc_type c"
  "vc_name c = n \<Longrightarrow> vb_Type (vc_GetBaseConfig c) = t \<Longrightarrow> vc_put n t c = c"
  by (cases c; simp add: vc_type_def VisitorBaseConfig.defs)+

lemma pd_from_active:
  "pd_activeBlock (ProxyDefinitionFromConfigurer c) = (Some c, conf_type c, 1)"
  by (cases c) (simp_all add: pd_activeBlock_def ProxyDefinitionFromConfigurer_def last_block_def conf_type_def zero_definition_def List.map_filter_simps Let_def)

lemma pd_from_fields:
  "pd_Name (ProxyDefinitionFromConfigurer c) = pc_name c" "pd_Type (ProxyDefinitionFromConfigurer c) = pb_Type (GetBaseConfig c)"
  by (cases c; simp add: ProxyDefinitionFromConfigurer_def)+

lemma vd_from_active:
  "vd_activeBlock (VisitorDefinitionFromConfigurer c) = (Some c, vc_type c, 1)"
  by (cases c) (simp_all add: vd_activeBlock_def VisitorDefinitionFromConfigurer_def last_block_def vc_type_def List.map_filter_simps Let_def)

lemma vd_from_fields:
  "vd_Name (VisitorDefinitionFromConfigurer c) = vc_name c" "vd_Type (VisitorDefinitionFromConfigurer c) = vb_Type (vc_GetBaseConfig c)"
  by (cases c; simp add: VisitorDefinitionFromConfigurer_def)+

lemma IsProxyType_conf: "IsProxyType (conf_type c)"
  by (cases c) (simp_all add: IsProxyType_def conf_type_def)

lemma IsVisitorType_vc: "IsVisitorType (vc_type c)"
  by (cases c) (simp_all add: IsVisitorType_def vc_type_def)

interpretation proxy_def: definition_model pd_Validate pd_ToConfigurer ProxyDefinitionFromConfigurer pd_Name
  "\<lambda>c. pc_name c" "\<lambda>c. pb_Type (GetBaseConfig c)" conf_type
proof unfold_locales
  fix n u d
  assume v: "pd_Validate n u d = None"
  obtain b t k where a: "pd_activeBlock d = (b, t, k)" by (cases "pd_activeBlock d") auto
  then have "k = 1" "t = pd_Type d" using v by (auto simp: pd_Validate_def split: if_splits)
  then obtain c where "b = Some c" "conf_type c = pd_Type d" using pd_active_one a by blast
  then show "\<exists>c. pd_ToConfigurer d = Some c \<and> pc_name c = pd_Name d \<and> pb_Type (GetBaseConfig c) = conf_type c"
    using a by (auto simp: pd_ToConfigurer_def pc_put_simps)
qed (auto simp: pd_from_fields pd_ToConfigurer_def pd_from_active pc_put_simps pd_Validate_def IsProxyType_conf split: if_splits)

interpretation visitor_def: definition_model vd_Validate vd_ToConfigurer VisitorDefinitionFromConfigurer vd_Name
  "\<lambda>c. vc_name c" "\<lambda>c. vb_Type (vc_GetBaseConfig c)" vc_type
proof unfold_locales
  fix n u d
  assume v: "vd_Validate n u d = None"
  obtain b t k where a: "vd_activeBlock d = (b, t, k)" by (cases "vd_activeBlock d") auto
  then have "k = 1" "t = vd_Type d" using v by (auto simp: vd_Validate_def split: if_splits)
  then obtain c where "b = Some c" "vc_type c = vd_Type d" using vd_active_one a by blast
  then show "\<exists>c. vd_ToConfigurer d = Some c \<and> vc_name c = vd_Name d \<and> vb_Type (vc_GetBaseConfig c) = vc_type c"
    using a by (auto simp: vd_ToConfigurer_def vc_put_simps)
qed (auto simp: vd_from_fields vd_ToConfigurer_def vd_from_active vc_put_simps vd_Validate_def IsVisitorType_vc split: if_splits)

text \<open>What the interface shows of a proxy or visitor can be sent back: it is accepted and denotes the same configuration. A definition
  that passes validation denotes a configuration with its name, and is shown as one that denotes the same.\<close>

theorem definition_roundtrip:
  "(pb_Type (GetBaseConfig c) = conf_type c \<and> trim_space (pc_name c) \<noteq> [] \<longrightarrow>
      pd_Validate (pc_name c) u (ProxyDefinitionFromConfigurer c) = None \<and> pd_ToConfigurer (ProxyDefinitionFromConfigurer c) = Some c)
   \<and> (pd_Validate n u d = None \<longrightarrow> (\<exists>c'. pd_ToConfigurer d = Some c' \<and> pc_name c' = pd_Name d \<and> pd_ToConfigurer (ProxyDefinitionFromConfigurer c') = Some c'))
   \<and> (vb_Type (vc_GetBaseConfig v) = vc_type v \<and> trim_space (vc_name v) \<noteq> [] \<longrightarrow>
      vd_Validate (vc_name v) u (VisitorDefinitionFromConfigurer v) = None \<and> vd_ToConfigurer (VisitorDefinitionFromConfigurer v) = Some v)
   \<and> (vd_Validate n u e = None \<longrightarrow> (\<exists>v'. vd_ToConfigurer e = Some v' \<and> vc_name v' = vd_Name e \<and> vd_ToConfigurer (VisitorDefinitionFromConfigurer v') = Some v'))"
proof (intro conjI impI)
  show "\<exists>c'. pd_ToConfigurer d = Some c' \<and> pc_name c' = pd_Name d \<and> pd_ToConfigurer (ProxyDefinitionFromConfigurer c') = Some c'" if "pd_Validate n u d = None"
    using proxy_def.to_valid [OF that] proxy_def.stable [OF that] by blast
  show "\<exists>v'. vd_ToConfigurer e = Some v' \<and> vc_name v' = vd_Name e \<and> vd_ToConfigurer (VisitorDefinitionFromConfigurer v') = Some v'" if "vd_Validate n u e = None"
    using visitor_def.to_valid [OF that] visitor_def.stable [OF that] by blast
qed (use proxy_def.round_trip visitor_def.round_trip in auto)

section \<open>Handlers\<close>

definition toHTTPError :: "manager_error \<Rightarrow> nat" where
  "toHTTPError e =
     (case e of InvalidArgument \<Rightarrow> 400 | MgrNotFound \<Rightarrow> 404 | StoreDisabled \<Rightarrow> 404 | Conflict \<Rightarrow> 409 | _ \<Rightarrow> 500)"

text \<open>The body of a request is \<open>None\<close> if it cannot be read.\<close>

definition decode_definition :: "('b list \<Rightarrow> 'd option) \<Rightarrow> ('d \<Rightarrow> bool) \<Rightarrow> ('d \<Rightarrow> 'c option) \<Rightarrow> 'b list option \<Rightarrow> 'c option" where
  "decode_definition unmarshal valid to body =
     (case body of
        None \<Rightarrow> None
      | Some b \<Rightarrow>
          (case unmarshal b of
             None \<Rightarrow> None
           | Some payload \<Rightarrow> if \<not> valid payload then None else to payload))"

record ('b, 'v, 'r) admin_env =
  ae_run :: "VisitorConfigurer \<Rightarrow> 'v option"
  ae_quals :: "string \<Rightarrow> string list"
  ae_codec :: "('b, 'r) codec"
  ae_proxy :: "'b list \<Rightarrow> ProxyDefinition option"
  ae_visitor :: "'b list \<Rightarrow> VisitorDefinition option"
  ae_load :: "bool \<Rightarrow> (string list \<times> bool \<times> ProxyConfigurer list \<times> VisitorConfigurer list) option"
  ae_serverAddr :: string
  ae_user :: string
  ae_passwd :: string
  ae_pprof :: bool
  ae_storeRoutes :: bool

definition api_CreateStoreProxy ::
  "('b, 'v, 'r) admin_env \<Rightarrow> save_env \<Rightarrow> 'b list option \<Rightarrow> ('b, 'v) client_service \<Rightarrow> (nat, ProxyDefinition) result \<times> ('b, 'v) client_service" where
  "api_CreateStoreProxy env se body s =
     (case decode_definition (ae_proxy env) (\<lambda>p. pd_Validate [] False p = None) pd_ToConfigurer body of
        None \<Rightarrow> (err 400, s)
      | Some cfg \<Rightarrow>
          (case CreateStoreProxy (ae_run env) (ae_quals env) (ae_codec env) se (Some cfg) s of
             (Inl e, s') \<Rightarrow> (err (toHTTPError e), s')
           | (Inr created, s') \<Rightarrow> (ok (ProxyDefinitionFromConfigurer created), s')))"

definition api_UpdateStoreProxy ::
  "('b, 'v, 'r) admin_env \<Rightarrow> save_env \<Rightarrow> string \<Rightarrow> 'b list option \<Rightarrow> ('b, 'v) client_service \<Rightarrow> (nat, ProxyDefinition) result \<times> ('b, 'v) client_service" where
  "api_UpdateStoreProxy env se name body s =
     (if name = [] then (err 400, s)
      else (case decode_definition (ae_proxy env) (\<lambda>p. pd_Validate name True p = None) pd_ToConfigurer body of
              None \<Rightarrow> (err 400, s)
            | Some cfg \<Rightarrow>
                (case UpdateStoreProxy (ae_run env) (ae_quals env) (ae_codec env) se name (Some cfg) s of
                   (Inl e, s') \<Rightarrow> (err (toHTTPError e), s')
                 | (Inr updated, s') \<Rightarrow> (ok (ProxyDefinitionFromConfigurer updated), s'))))"

definition api_DeleteStoreProxy ::
  "('b, 'v, 'r) admin_env \<Rightarrow> save_env \<Rightarrow> string \<Rightarrow> ('b, 'v) client_service \<Rightarrow> (nat, unit) result \<times> ('b, 'v) client_service" where
  "api_DeleteStoreProxy env se name s =
     (if name = [] then (err 400, s)
      else (case DeleteStoreProxy (ae_run env) (ae_codec env) se name s of
              (Inl e, s') \<Rightarrow> (err (toHTTPError e), s')
            | (Inr _, s') \<Rightarrow> (ok (), s')))"

definition GetStoreProxy :: "string \<Rightarrow> ('b, 'v) client_service \<Rightarrow> (manager_error, ProxyConfigurer) result" where
  "GetStoreProxy name s =
     (if name = [] then err InvalidArgument
      else (case cs_store s of
              None \<Rightarrow> err StoreDisabled
            | Some storeSource \<Rightarrow> (case GetProxy name storeSource of None \<Rightarrow> err MgrNotFound | Some cfg \<Rightarrow> ok cfg)))"

definition api_GetStoreProxy :: "string \<Rightarrow> ('b, 'v) client_service \<Rightarrow> (nat, ProxyDefinition) result" where
  "api_GetStoreProxy name s =
     (if name = [] then err 400
      else (case GetStoreProxy name s of Inl e \<Rightarrow> err (toHTTPError e) | Inr p \<Rightarrow> ok (ProxyDefinitionFromConfigurer p)))"

definition ListStoreProxies :: "('b, 'v) client_service \<Rightarrow> (manager_error, ProxyConfigurer list) result" where
  "ListStoreProxies s = (case cs_store s of None \<Rightarrow> err StoreDisabled | Some storeSource \<Rightarrow> ok (GetAllProxies storeSource))"

definition api_ListStoreProxies :: "('b, 'v) client_service \<Rightarrow> (nat, ProxyDefinition list) result" where
  "api_ListStoreProxies s =
     (case ListStoreProxies s of
        Inl e \<Rightarrow> err (toHTTPError e)
      | Inr proxies \<Rightarrow> ok (sort_key pd_Name (map ProxyDefinitionFromConfigurer proxies)))"

definition api_GetProxyConfig :: "string \<Rightarrow> ('b, 'v) client_service \<Rightarrow> (nat, ProxyDefinition) result" where
  "api_GetProxyConfig name s =
     (if name = [] then err 400
      else (case GetProxyConfig name s of None \<Rightarrow> err 404 | Some cfg \<Rightarrow> ok (ProxyDefinitionFromConfigurer cfg)))"

definition api_CreateStoreVisitor ::
  "('b, 'v, 'r) admin_env \<Rightarrow> save_env \<Rightarrow> 'b list option \<Rightarrow> ('b, 'v) client_service \<Rightarrow> (nat, VisitorDefinition) result \<times> ('b, 'v) client_service" where
  "api_CreateStoreVisitor env se body s =
     (case decode_definition (ae_visitor env) (\<lambda>p. vd_Validate [] False p = None) vd_ToConfigurer body of
        None \<Rightarrow> (err 400, s)
      | Some cfg \<Rightarrow>
          (case CreateStoreVisitor (ae_run env) (ae_codec env) se (Some cfg) s of
             (Inl e, s') \<Rightarrow> (err (toHTTPError e), s')
           | (Inr created, s') \<Rightarrow> (ok (VisitorDefinitionFromConfigurer created), s')))"

definition api_UpdateStoreVisitor ::
  "('b, 'v, 'r) admin_env \<Rightarrow> save_env \<Rightarrow> string \<Rightarrow> 'b list option \<Rightarrow> ('b, 'v) client_service \<Rightarrow> (nat, VisitorDefinition) result \<times> ('b, 'v) client_service" where
  "api_UpdateStoreVisitor env se name body s =
     (if name = [] then (err 400, s)
      else (case decode_definition (ae_visitor env) (\<lambda>p. vd_Validate name True p = None) vd_ToConfigurer body of
              None \<Rightarrow> (err 400, s)
            | Some cfg \<Rightarrow>
                (case UpdateStoreVisitor (ae_run env) (ae_codec env) se name (Some cfg) s of
                   (Inl e, s') \<Rightarrow> (err (toHTTPError e), s')
                 | (Inr updated, s') \<Rightarrow> (ok (VisitorDefinitionFromConfigurer updated), s'))))"

definition api_DeleteStoreVisitor ::
  "('b, 'v, 'r) admin_env \<Rightarrow> save_env \<Rightarrow> string \<Rightarrow> ('b, 'v) client_service \<Rightarrow> (nat, unit) result \<times> ('b, 'v) client_service" where
  "api_DeleteStoreVisitor env se name s =
     (if name = [] then (err 400, s)
      else (case DeleteStoreVisitor (ae_run env) (ae_codec env) se name s of
              (Inl e, s') \<Rightarrow> (err (toHTTPError e), s')
            | (Inr _, s') \<Rightarrow> (ok (), s')))"

definition GetStoreVisitor :: "string \<Rightarrow> ('b, 'v) client_service \<Rightarrow> (manager_error, VisitorConfigurer) result" where
  "GetStoreVisitor name s =
     (if name = [] then err InvalidArgument
      else (case cs_store s of
              None \<Rightarrow> err StoreDisabled
            | Some storeSource \<Rightarrow> (case GetVisitor name storeSource of None \<Rightarrow> err MgrNotFound | Some cfg \<Rightarrow> ok cfg)))"

definition api_GetStoreVisitor :: "string \<Rightarrow> ('b, 'v) client_service \<Rightarrow> (nat, VisitorDefinition) result" where
  "api_GetStoreVisitor name s =
     (if name = [] then err 400
      else (case GetStoreVisitor name s of Inl e \<Rightarrow> err (toHTTPError e) | Inr v \<Rightarrow> ok (VisitorDefinitionFromConfigurer v)))"

definition ListStoreVisitors :: "('b, 'v) client_service \<Rightarrow> (manager_error, VisitorConfigurer list) result" where
  "ListStoreVisitors s = (case cs_store s of None \<Rightarrow> err StoreDisabled | Some storeSource \<Rightarrow> ok (GetAllVisitors storeSource))"

definition api_ListStoreVisitors :: "('b, 'v) client_service \<Rightarrow> (nat, VisitorDefinition list) result" where
  "api_ListStoreVisitors s =
     (case ListStoreVisitors s of
        Inl e \<Rightarrow> err (toHTTPError e)
      | Inr visitors \<Rightarrow> ok (sort_key vd_Name (map VisitorDefinitionFromConfigurer visitors)))"

definition api_GetVisitorConfig :: "string \<Rightarrow> ('b, 'v) client_service \<Rightarrow> (nat, VisitorDefinition) result" where
  "api_GetVisitorConfig name s =
     (if name = [] then err 400
      else (case GetVisitorConfig name s of None \<Rightarrow> err 404 | Some cfg \<Rightarrow> ok (VisitorDefinitionFromConfigurer cfg)))"

text \<open>\<^verbatim>\<open>strconv.ParseBool\<close>, of which an error counts as false.\<close>

definition strict_mode :: "string \<Rightarrow> bool" where
  "strict_mode q \<longleftrightarrow> q \<in> {''1'', ''t'', ''T'', ''TRUE'', ''true'', ''True''}"

definition api_Reload :: "('b, 'v, 'r) admin_env \<Rightarrow> string \<Rightarrow> ('b, 'v) client_service \<Rightarrow> (nat, unit) result \<times> ('b, 'v) client_service" where
  "api_Reload env strictConfig s =
     (case ReloadFromFile (ae_run env) (ae_quals env) (ae_load env (strict_mode strictConfig)) s of
        (Inl e, s') \<Rightarrow> (err (toHTTPError e), s')
      | (Inr _, s') \<Rightarrow> (ok (), s'))"

text \<open>The configuration file. \<open>fs\<close> has the contents of files; \<open>can_write\<close> tells whether a path can be written.\<close>

definition ReadConfigFile :: "(string \<Rightarrow> 'b list option) \<Rightarrow> ('b, 'v) client_service \<Rightarrow> (manager_error, 'b list) result" where
  "ReadConfigFile fs s =
     (if cs_configFilePath s = [] then err InvalidArgument
      else (case fs (cs_configFilePath s) of None \<Rightarrow> err InvalidArgument | Some content \<Rightarrow> ok content))"

definition api_GetConfig :: "(string \<Rightarrow> 'b list option) \<Rightarrow> ('b, 'v) client_service \<Rightarrow> (nat, 'b list) result" where
  "api_GetConfig fs s = (case ReadConfigFile fs s of Inl e \<Rightarrow> err (toHTTPError e) | Inr content \<Rightarrow> ok content)"

text \<open>Writing fails with an error of the operating system, which is none of the errors of the manager: the code is \<open>500\<close>.\<close>

definition api_PutConfig ::
  "(string \<Rightarrow> bool) \<Rightarrow> 'b list option \<Rightarrow> ('b, 'v) client_service \<Rightarrow> (string \<Rightarrow> 'b list option) \<Rightarrow> (nat, unit) result \<times> (string \<Rightarrow> 'b list option)" where
  "api_PutConfig can_write body s fs =
     (case body of
        None \<Rightarrow> (err 400, fs)
      | Some content \<Rightarrow>
          if content = [] then (err 400, fs)
          else if can_write (cs_configFilePath s) then (ok (), fs(cs_configFilePath s \<mapsto> content))
          else (err 500, fs))"

record ProxyStatusResp =
  psr_Name :: string
  psr_Type :: string
  psr_Status :: proxy_phase
  psr_Err :: string
  psr_LocalAddr :: string
  psr_Plugin :: string
  psr_RemoteAddr :: string
  psr_Source :: string

definition buildProxyStatusResp :: "string \<Rightarrow> ('b, 'v) client_service \<Rightarrow> Wrapper \<Rightarrow> ProxyStatusResp" where
  "buildProxyStatusResp serverAddr s pw =
     (let baseCfg = GetBaseConfig (pw_Cfg pw) in
      \<lparr>psr_Name = pw_Name pw, psr_Type = pw_Type pw, psr_Status = pw_Phase pw, psr_Err = pw_Err pw,
       psr_LocalAddr = (if pb_LocalPort baseCfg \<noteq> 0 then JoinHostPort (pb_LocalIP baseCfg) (itoa (pb_LocalPort baseCfg)) else []),
       psr_Plugin = pb_PluginType baseCfg,
       psr_RemoteAddr = (if pw_Err pw \<noteq> [] then []
                         else if pw_Type pw \<in> {''tcp'', ''udp''} then serverAddr @ pw_RemoteAddr pw else pw_RemoteAddr pw),
       psr_Source = (if IsStoreProxyEnabled (pw_Name pw) s then ''store'' else [])\<rparr>)"

text \<open>The state of the proxies, by type and in the order of their names.\<close>

definition api_Status :: "string \<Rightarrow> ('b, 'v) client_service \<Rightarrow> string \<Rightarrow> ProxyStatusResp list option" where
  "api_Status serverAddr s t =
     (let ps = (case cs_ctl s of None \<Rightarrow> [] | Some ctl \<Rightarrow> map snd (cpm_proxies (cc_pm ctl)));
          arrs = filter (\<lambda>r. psr_Type r = t) (map (buildProxyStatusResp serverAddr s) ps)
      in if arrs = [] then None else Some (sort_key psr_Name arrs))"

section \<open>The routes\<close>

datatype 'b admin_request =
    RqHealthz | RqPprof
  | RqReload string | RqStop | RqStatus | RqGetConfig | RqPutConfig "'b list option" | RqProxyConfig string | RqVisitorConfig string
  | RqListProxies | RqCreateProxy "'b list option" | RqGetProxy string | RqUpdateProxy string "'b list option" | RqDeleteProxy string
  | RqListVisitors | RqCreateVisitor "'b list option" | RqGetVisitor string | RqUpdateVisitor string "'b list option" | RqDeleteVisitor string

datatype 'b admin_payload =
    NoPayload | Profile | Content "'b list" | Statuses "string \<Rightarrow> ProxyStatusResp list option"
  | OneProxy ProxyDefinition | Proxies "ProxyDefinition list" | OneVisitor VisitorDefinition | Visitors "VisitorDefinition list"

text \<open>\<open>MakeHTTPHandlerFunc\<close>: the status code and what is sent. The texts of errors are not modelled, nor what a profile shows.\<close>

definition respond :: "('a \<Rightarrow> 'b admin_payload) \<Rightarrow> (nat, 'a) result \<Rightarrow> nat \<times> 'b admin_payload" where
  "respond f r = (case r of Inl code \<Rightarrow> (code, NoPayload) | Inr x \<Rightarrow> (200, f x))"

definition respond_to :: "('a \<Rightarrow> 'b admin_payload) \<Rightarrow> (nat, 'a) result \<times> 's \<Rightarrow> (nat \<times> 'b admin_payload) \<times> 's" where
  "respond_to f r = (respond f (fst r), snd r)"

definition authorized :: "('b, 'v, 'r) admin_env \<Rightarrow> (string \<times> string) option \<Rightarrow> bool" where
  "authorized env cred \<longleftrightarrow> (ae_user env = [] \<and> ae_passwd env = []) \<or> cred = Some (ae_user env, ae_passwd env)"

fun is_store_route :: "'b admin_request \<Rightarrow> bool" where
  "is_store_route RqListProxies = True" | "is_store_route (RqCreateProxy b) = True" | "is_store_route (RqGetProxy n) = True"
| "is_store_route (RqUpdateProxy n b) = True" | "is_store_route (RqDeleteProxy n) = True"
| "is_store_route RqListVisitors = True" | "is_store_route (RqCreateVisitor b) = True" | "is_store_route (RqGetVisitor n) = True"
| "is_store_route (RqUpdateVisitor n b) = True" | "is_store_route (RqDeleteVisitor n) = True"
| "is_store_route r = False"

type_synonym ('b, 'v) admin_state = "('b, 'v) client_service \<times> (string \<Rightarrow> 'b list option)"

text \<open>The handler of a route. \<open>RqStop\<close> starts a goroutine that closes the service later; that is no part of this step.\<close>

fun admin_handle ::
  "('b, 'v, 'r) admin_env \<Rightarrow> save_env \<Rightarrow> (string \<Rightarrow> bool) \<Rightarrow> 'b admin_request \<Rightarrow> ('b, 'v) admin_state \<Rightarrow> (nat \<times> 'b admin_payload) \<times> ('b, 'v) admin_state" where
  "admin_handle env se cw RqHealthz st = ((200, NoPayload), st)"
| "admin_handle env se cw RqPprof st = ((200, Profile), st)"
| "admin_handle env se cw (RqReload q) (s, fs) = apsnd (\<lambda>s. (s, fs)) (respond_to (\<lambda>_. NoPayload) (api_Reload env q s))"
| "admin_handle env se cw RqStop st = ((200, NoPayload), st)"
| "admin_handle env se cw RqStatus (s, fs) = ((200, Statuses (api_Status (ae_serverAddr env) s)), (s, fs))"
| "admin_handle env se cw RqGetConfig (s, fs) = (respond Content (api_GetConfig fs s), (s, fs))"
| "admin_handle env se cw (RqPutConfig body) (s, fs) = apsnd (\<lambda>fs. (s, fs)) (respond_to (\<lambda>_. NoPayload) (api_PutConfig cw body s fs))"
| "admin_handle env se cw (RqProxyConfig n) (s, fs) = (respond OneProxy (api_GetProxyConfig n s), (s, fs))"
| "admin_handle env se cw (RqVisitorConfig n) (s, fs) = (respond OneVisitor (api_GetVisitorConfig n s), (s, fs))"
| "admin_handle env se cw RqListProxies (s, fs) = (respond Proxies (api_ListStoreProxies s), (s, fs))"
| "admin_handle env se cw (RqCreateProxy b) (s, fs) = apsnd (\<lambda>s. (s, fs)) (respond_to OneProxy (api_CreateStoreProxy env se b s))"
| "admin_handle env se cw (RqGetProxy n) (s, fs) = (respond OneProxy (api_GetStoreProxy n s), (s, fs))"
| "admin_handle env se cw (RqUpdateProxy n b) (s, fs) = apsnd (\<lambda>s. (s, fs)) (respond_to OneProxy (api_UpdateStoreProxy env se n b s))"
| "admin_handle env se cw (RqDeleteProxy n) (s, fs) = apsnd (\<lambda>s. (s, fs)) (respond_to (\<lambda>_. NoPayload) (api_DeleteStoreProxy env se n s))"
| "admin_handle env se cw RqListVisitors (s, fs) = (respond Visitors (api_ListStoreVisitors s), (s, fs))"
| "admin_handle env se cw (RqCreateVisitor b) (s, fs) = apsnd (\<lambda>s. (s, fs)) (respond_to OneVisitor (api_CreateStoreVisitor env se b s))"
| "admin_handle env se cw (RqGetVisitor n) (s, fs) = (respond OneVisitor (api_GetStoreVisitor n s), (s, fs))"
| "admin_handle env se cw (RqUpdateVisitor n b) (s, fs) = apsnd (\<lambda>s. (s, fs)) (respond_to OneVisitor (api_UpdateStoreVisitor env se n b s))"
| "admin_handle env se cw (RqDeleteVisitor n) (s, fs) = apsnd (\<lambda>s. (s, fs)) (respond_to (\<lambda>_. NoPayload) (api_DeleteStoreVisitor env se n s))"

text \<open>The router: the health check and, if they are enabled, the profiling routes are registered outside of the sub-router that has the
  authentication; the routes of the store only exist if there was a store when they were registered.\<close>

definition admin_serve ::
  "('b, 'v, 'r) admin_env \<Rightarrow> save_env \<Rightarrow> (string \<Rightarrow> bool) \<Rightarrow> (string \<times> string) option \<Rightarrow> 'b admin_request \<Rightarrow> ('b, 'v) admin_state
   \<Rightarrow> (nat \<times> 'b admin_payload) \<times> ('b, 'v) admin_state" where
  "admin_serve env se cw cred rq st =
     (if rq = RqHealthz then admin_handle env se cw rq st
      else if rq = RqPprof then (if ae_pprof env then admin_handle env se cw rq st else ((404, NoPayload), st))
      else if is_store_route rq \<and> \<not> ae_storeRoutes env then ((404, NoPayload), st)
      else if authorized env cred then admin_handle env se cw rq st
      else ((401, NoPayload), st))"

section \<open>Who may use the interface\<close>

text \<open>C39. With a user or a password configured, a request without these credentials changes nothing and, apart from the health check and the profiling
  routes, learns nothing: it gets \<open>401\<close>, or \<open>404\<close> for a route that does not exist.\<close>

theorem admin_needs_credentials:
  assumes "ae_user env \<noteq> [] \<or> ae_passwd env \<noteq> []" and "cred \<noteq> Some (ae_user env, ae_passwd env)" and "admin_serve env se cw cred rq st = ((code, payload), st')"
  shows "st' = st \<and> (rq \<noteq> RqHealthz \<and> rq \<noteq> RqPprof \<longrightarrow> payload = NoPayload \<and> (code = 401 \<or> code = 404))"
  using assms by (auto simp: admin_serve_def authorized_def split: if_splits)

text \<open>The profiling routes, which show the command line and the stacks of all goroutines, are served without credentials.\<close>

theorem pprof_unprotected: "ae_pprof env \<Longrightarrow> admin_serve env se cw None RqPprof st = ((200, Profile), st)"
  by (simp add: admin_serve_def)

section \<open>The store as a resource\<close>

text \<open>The operation on tables that a request stands for: \<open>None\<close> if it is not a change of the store, \<open>Some None\<close> if it is malformed.\<close>

fun change_of :: "('b, 'v, 'r) admin_env \<Rightarrow> 'b admin_request \<Rightarrow> store_op option option" where
  "change_of env (RqCreateProxy b) = Some
     (case decode_definition (ae_proxy env) (\<lambda>p. pd_Validate [] False p = None) pd_ToConfigurer b of
        None \<Rightarrow> None | Some c \<Rightarrow> if validateStoreProxyConfigurer (ae_quals env) (Some c) then Some (AddP (Some c)) else None)"
| "change_of env (RqUpdateProxy n b) = Some
     (if n = [] then None
      else (case decode_definition (ae_proxy env) (\<lambda>p. pd_Validate n True p = None) pd_ToConfigurer b of
              None \<Rightarrow> None | Some c \<Rightarrow> if validateStoreProxyConfigurer (ae_quals env) (Some c) then Some (UpdP (Some c)) else None))"
| "change_of env (RqDeleteProxy n) = Some (if n = [] then None else Some (RemP n))"
| "change_of env (RqCreateVisitor b) = Some
     (case decode_definition (ae_visitor env) (\<lambda>p. vd_Validate [] False p = None) vd_ToConfigurer b of
        None \<Rightarrow> None | Some c \<Rightarrow> if validateStoreVisitorConfigurer (Some c) then Some (AddV (Some c)) else None)"
| "change_of env (RqUpdateVisitor n b) = Some
     (if n = [] then None
      else (case decode_definition (ae_visitor env) (\<lambda>p. vd_Validate n True p = None) vd_ToConfigurer b of
              None \<Rightarrow> None | Some c \<Rightarrow> if validateStoreVisitorConfigurer (Some c) then Some (UpdV (Some c)) else None))"
| "change_of env (RqDeleteVisitor n) = Some (if n = [] then None else Some (RemV n))"
| "change_of env rq = None"

fun op_named :: "store_op \<Rightarrow> bool" where
  "op_named (AddP p) = (\<exists>c. p = Some c \<and> pc_name c \<noteq> [])"
| "op_named (UpdP p) = (\<exists>c. p = Some c \<and> pc_name c \<noteq> [])"
| "op_named (RemP n) = (n \<noteq> [])"
| "op_named (AddV p) = (\<exists>c. p = Some c \<and> vc_name c \<noteq> [])"
| "op_named (UpdV p) = (\<exists>c. p = Some c \<and> vc_name c \<noteq> [])"
| "op_named (RemV n) = (n \<noteq> [])"

definition unchanged :: "('b, 'v) client_service \<Rightarrow> ('b, 'v) client_service \<Rightarrow> bool" where
  "unchanged s s' \<longleftrightarrow> cs_ctl s' = cs_ctl s \<and> cs_proxyCfgs s' = cs_proxyCfgs s \<and> cs_visitorCfgs s' = cs_visitorCfgs s
     \<and> map_option bs_abs (cs_store s') = map_option bs_abs (cs_store s)"

lemma refused_error:
  "op_named op \<Longrightarrow> spec_op op t = err x \<Longrightarrow> mutation_error op (BadEntry x) = (if x = AlreadyExists then Conflict else MgrNotFound)"
  by (cases op; cases t) (auto simp: spec_put_def spec_rem_def split: if_splits)

lemma mutation_refines:
  assumes b: "cs_store s = Some b" and wf: "bs_wf b" and m: "withStoreMutationAndReload run cd se op s = (r, s')" and n: "op_named op"
  shows "case spec_op op (bs_abs b) of
      Inl x \<Rightarrow> r = err (if x = AlreadyExists then Conflict else MgrNotFound) \<and> unchanged s s'
    | Inr t \<Rightarrow> r = ok () \<and> map_option bs_abs (cs_store s') = Some t \<or> (\<exists>y. r = err (StoreFailed y)) \<and> unchanged s s'"
proof -
  obtain a where a: "cs_aggregator s = Some a" "ag_storeSource a = Some b" using b by (auto simp: cs_store_def split: option.splits)
  obtain e b' ds where x: "store_exec cd se op b (cs_disk s) = (e, b', ds)" by (cases "store_exec cd se op b (cs_disk s)") auto
  note sp = store_exec_spec [OF wf x]
  let ?s = "s\<lparr>cs_aggregator := Some (a\<lparr>ag_storeSource := Some b'\<rparr>), cs_disk := last ds\<rparr>"
  have r: "(r, s') = (case e of Some x \<Rightarrow> (err (mutation_error op x), ?s)
      | None \<Rightarrow> (case reloadConfigFromSourcesLocked run ?s of (Inl _, s'') \<Rightarrow> (err ApplyConfig, s'') | (Inr _, s'') \<Rightarrow> (ok (), s'')))"
    using m a b x by (simp add: withStoreMutationAndReload_def Let_def)
  show ?thesis
  proof (cases e)
    case None
    have "cs_store (UpdateAllConfigurer run ps vs ?s) = Some b'" for ps vs by (simp add: cs_store_def UpdateAllConfigurer_def)
    then show ?thesis using r None sp(1) by (auto simp: reloadConfigFromSourcesLocked_def split: prod.splits)
  next
    case (Some f)
    have u: "unchanged s ?s" using sp(3) Some b a by (simp add: unchanged_def cs_store_def)
    show ?thesis
    proof (cases "spec_op op (bs_abs b)")
      case (Inl y)
      then show ?thesis using sp(4) [OF Inl] Some r refused_error [OF n Inl] u by simp
    next
      case (Inr t)
      then obtain y where "f = PersistFailed y" using sp(5) Some by auto
      then show ?thesis using Inr Some r u by (cases op) auto
    qed
  qed
qed

text \<open>What a handler answers, in terms of the tables.\<close>

definition outcome :: "tables \<Rightarrow> store_op \<Rightarrow> nat \<Rightarrow> ('b, 'v) client_service \<Rightarrow> ('b, 'v) client_service \<Rightarrow> bool" where
  "outcome t op code s s' \<longleftrightarrow>
     (case spec_op op t of
        Inl x \<Rightarrow> code = (if x = AlreadyExists then 409 else 404) \<and> unchanged s s'
      | Inr t' \<Rightarrow> code = 200 \<and> map_option bs_abs (cs_store s') = Some t' \<or> code = 500 \<and> unchanged s s')"

lemma toHTTPError_simps [simp]:
  "toHTTPError InvalidArgument = 400" "toHTTPError MgrNotFound = 404" "toHTTPError Conflict = 409" "toHTTPError (StoreFailed x) = 500"
  by (simp_all add: toHTTPError_def)

lemma proxy_put_result:
  assumes "cs_store s = Some b" and "bs_wf b" and op: "op = AddP (Some c) \<or> op = UpdP (Some c)" and n: "pc_name c \<noteq> []"
    and w: "withStoreProxyMutationAndReload run cd se (pc_name c) op s = (r, s')"
  shows "outcome (bs_abs b) op (case r of Inl e \<Rightarrow> toHTTPError e | Inr _ \<Rightarrow> 200) s s'"
    and "r = ok c' \<Longrightarrow> c' = c \<and> Option.bind (cs_store s') (GetProxy (pc_name c)) = Some c"
proof -
  obtain m s1 where m: "withStoreMutationAndReload run cd se op s = (m, s1)" by fastforce
  have on: "op_named op" using op n by auto
  have s1: "s1 = s'" using w m by (auto simp: withStoreProxyMutationAndReload_def split: sum.splits option.splits)
  note R = mutation_refines [OF assms(1,2) m on, unfolded s1]
  have found: "Option.bind (cs_store s') (GetProxy (pc_name c)) = Some c"
    if "spec_op op (bs_abs b) = Inr t" "map_option bs_abs (cs_store s') = Some t" for t
  proof -
    have "fst t (pc_name c) = Some c" using that(1) op n by (cases "bs_abs b") (auto simp: spec_put_def split: if_splits)
    then show ?thesis using that(2) by (cases "cs_store s'") (auto simp: bs_abs_def GetProxy_def)
  qed
  have r: "r = (case m of Inl e \<Rightarrow> err e | Inr _ \<Rightarrow> (case Option.bind (cs_store s') (GetProxy (pc_name c)) of None \<Rightarrow> err ApplyConfig | Some p \<Rightarrow> ok p))"
    using w m s1 by (auto simp: withStoreProxyMutationAndReload_def split: sum.splits option.splits)
  show "outcome (bs_abs b) op (case r of Inl e \<Rightarrow> toHTTPError e | Inr _ \<Rightarrow> 200) s s'"
    using R r found by (cases "spec_op op (bs_abs b)") (auto simp: outcome_def)
  show "c' = c \<and> Option.bind (cs_store s') (GetProxy (pc_name c)) = Some c" if "r = ok c'"
    using R r found that by (cases "spec_op op (bs_abs b)") (auto split: sum.splits option.splits)
qed

lemma visitor_put_result:
  assumes "cs_store s = Some b" and "bs_wf b" and op: "op = AddV (Some c) \<or> op = UpdV (Some c)" and n: "vc_name c \<noteq> []"
    and w: "withStoreVisitorMutationAndReload run cd se (vc_name c) op s = (r, s')"
  shows "outcome (bs_abs b) op (case r of Inl e \<Rightarrow> toHTTPError e | Inr _ \<Rightarrow> 200) s s'"
    and "r = ok c' \<Longrightarrow> c' = c \<and> Option.bind (cs_store s') (GetVisitor (vc_name c)) = Some c"
proof -
  obtain m s1 where m: "withStoreMutationAndReload run cd se op s = (m, s1)" by fastforce
  have on: "op_named op" using op n by auto
  have s1: "s1 = s'" using w m by (auto simp: withStoreVisitorMutationAndReload_def split: sum.splits option.splits)
  note R = mutation_refines [OF assms(1,2) m on, unfolded s1]
  have found: "Option.bind (cs_store s') (GetVisitor (vc_name c)) = Some c"
    if "spec_op op (bs_abs b) = Inr t" "map_option bs_abs (cs_store s') = Some t" for t
  proof -
    have "snd t (vc_name c) = Some c" using that(1) op n by (cases "bs_abs b") (auto simp: spec_put_def split: if_splits)
    then show ?thesis using that(2) by (cases "cs_store s'") (auto simp: bs_abs_def GetVisitor_def)
  qed
  have r: "r = (case m of Inl e \<Rightarrow> err e | Inr _ \<Rightarrow> (case Option.bind (cs_store s') (GetVisitor (vc_name c)) of None \<Rightarrow> err ApplyConfig | Some p \<Rightarrow> ok p))"
    using w m s1 by (auto simp: withStoreVisitorMutationAndReload_def split: sum.splits option.splits)
  show "outcome (bs_abs b) op (case r of Inl e \<Rightarrow> toHTTPError e | Inr _ \<Rightarrow> 200) s s'"
    using R r found by (cases "spec_op op (bs_abs b)") (auto simp: outcome_def)
  show "c' = c \<and> Option.bind (cs_store s') (GetVisitor (vc_name c)) = Some c" if "r = ok c'"
    using R r found that by (cases "spec_op op (bs_abs b)") (auto split: sum.splits option.splits)
qed

lemma remove_result:
  assumes "cs_store s = Some b" and "bs_wf b" and "op_named op" and w: "withStoreMutationAndReload run cd se op s = (r, s')"
  shows "outcome (bs_abs b) op (case r of Inl e \<Rightarrow> toHTTPError e | Inr _ \<Rightarrow> 200) s s'"
  using mutation_refines [OF assms(1,2) w assms(3)] by (cases "spec_op op (bs_abs b)") (auto simp: outcome_def)

text \<open>A definition that is decoded has a name, and in an update it is that of the path.\<close>

lemma decoded_proxy:
  assumes "decode_definition um (\<lambda>p. pd_Validate n u p = None) pd_ToConfigurer b = Some c"
  shows "pc_name c \<noteq> []" and "u \<Longrightarrow> n \<noteq> [] \<Longrightarrow> pc_name c = n"
proof -
  obtain d where d: "pd_Validate n u d = None" "pd_ToConfigurer d = Some c" using assms by (auto simp: decode_definition_def split: option.splits if_splits)
  have "pc_name c = pd_Name d" using proxy_def.to_valid [OF d(1)] d(2) by auto
  then show "pc_name c \<noteq> []" "u \<Longrightarrow> n \<noteq> [] \<Longrightarrow> pc_name c = n" using proxy_def.valid_name [OF d(1)] by (auto simp: trim_space_def)
qed

lemma decoded_visitor:
  assumes "decode_definition um (\<lambda>p. vd_Validate n u p = None) vd_ToConfigurer b = Some c"
  shows "vc_name c \<noteq> []" and "u \<Longrightarrow> n \<noteq> [] \<Longrightarrow> vc_name c = n"
proof -
  obtain d where d: "vd_Validate n u d = None" "vd_ToConfigurer d = Some c" using assms by (auto simp: decode_definition_def split: option.splits if_splits)
  have "vc_name c = vd_Name d" using visitor_def.to_valid [OF d(1)] d(2) by auto
  then show "vc_name c \<noteq> []" "u \<Longrightarrow> n \<noteq> [] \<Longrightarrow> vc_name c = n" using visitor_def.valid_name [OF d(1)] by (auto simp: trim_space_def)
qed

lemma admin_handle_refines:
  assumes b: "cs_store s = Some b" and wf: "bs_wf b" and ch: "change_of env rq = Some ch" and h: "admin_handle env se cw rq (s, fs) = ((code, payload), st')"
  shows "snd st' = fs \<and> (case ch of None \<Rightarrow> code = 400 \<and> fst st' = s | Some op \<Rightarrow> outcome (bs_abs b) op code s (fst st'))"
proof (cases rq)
  case (RqCreateProxy body)
  show ?thesis
  proof (cases "decode_definition (ae_proxy env) (\<lambda>p. pd_Validate [] False p = None) pd_ToConfigurer body")
    case None
    then show ?thesis using RqCreateProxy ch h by (auto simp: api_CreateStoreProxy_def respond_to_def respond_def)
  next
    case (Some c)
    obtain r s' where w: "withStoreProxyMutationAndReload (ae_run env) (ae_codec env) se (pc_name c) (AddP (Some c)) s = (r, s')" by fastforce
    show ?thesis using RqCreateProxy ch h Some w proxy_put_result(1) [OF b wf disjI1 [OF refl] decoded_proxy(1) [OF Some] w]
      by (cases r) (auto simp: api_CreateStoreProxy_def CreateStoreProxy_def respond_to_def respond_def split: if_splits)
  qed
next
  case (RqUpdateProxy n body)
  show ?thesis
  proof (cases "n = [] \<or> decode_definition (ae_proxy env) (\<lambda>p. pd_Validate n True p = None) pd_ToConfigurer body = None")
    case True
    then show ?thesis using RqUpdateProxy ch h by (cases "n = []") (auto simp: api_UpdateStoreProxy_def respond_to_def respond_def)
  next
    case False
    then obtain c where c: "n \<noteq> []" "decode_definition (ae_proxy env) (\<lambda>p. pd_Validate n True p = None) pd_ToConfigurer body = Some c" by auto
    have n: "pc_name c = n" using decoded_proxy(2) [OF c(2)] c(1) by simp
    obtain r s' where w: "withStoreProxyMutationAndReload (ae_run env) (ae_codec env) se (pc_name c) (UpdP (Some c)) s = (r, s')" by fastforce
    show ?thesis using RqUpdateProxy ch h c w n proxy_put_result(1) [OF b wf disjI2 [OF refl] decoded_proxy(1) [OF c(2)] w]
      by (cases r) (auto simp: api_UpdateStoreProxy_def UpdateStoreProxy_def respond_to_def respond_def split: if_splits)
  qed
next
  case (RqDeleteProxy n)
  obtain r s' where w: "withStoreMutationAndReload (ae_run env) (ae_codec env) se (RemP n) s = (r, s')" by fastforce
  show ?thesis using RqDeleteProxy ch h w remove_result [OF b wf _ w]
    by (cases r) (auto simp: api_DeleteStoreProxy_def DeleteStoreProxy_def respond_to_def respond_def split: if_splits)
next
  case (RqCreateVisitor body)
  show ?thesis
  proof (cases "decode_definition (ae_visitor env) (\<lambda>p. vd_Validate [] False p = None) vd_ToConfigurer body")
    case None
    then show ?thesis using RqCreateVisitor ch h by (auto simp: api_CreateStoreVisitor_def respond_to_def respond_def)
  next
    case (Some c)
    obtain r s' where w: "withStoreVisitorMutationAndReload (ae_run env) (ae_codec env) se (vc_name c) (AddV (Some c)) s = (r, s')" by fastforce
    show ?thesis using RqCreateVisitor ch h Some w visitor_put_result(1) [OF b wf disjI1 [OF refl] decoded_visitor(1) [OF Some] w]
      by (cases r) (auto simp: api_CreateStoreVisitor_def CreateStoreVisitor_def respond_to_def respond_def split: if_splits)
  qed
next
  case (RqUpdateVisitor n body)
  show ?thesis
  proof (cases "n = [] \<or> decode_definition (ae_visitor env) (\<lambda>p. vd_Validate n True p = None) vd_ToConfigurer body = None")
    case True
    then show ?thesis using RqUpdateVisitor ch h by (cases "n = []") (auto simp: api_UpdateStoreVisitor_def respond_to_def respond_def)
  next
    case False
    then obtain c where c: "n \<noteq> []" "decode_definition (ae_visitor env) (\<lambda>p. vd_Validate n True p = None) vd_ToConfigurer body = Some c" by auto
    have n: "vc_name c = n" using decoded_visitor(2) [OF c(2)] c(1) by simp
    obtain r s' where w: "withStoreVisitorMutationAndReload (ae_run env) (ae_codec env) se (vc_name c) (UpdV (Some c)) s = (r, s')" by fastforce
    show ?thesis using RqUpdateVisitor ch h c w n visitor_put_result(1) [OF b wf disjI2 [OF refl] decoded_visitor(1) [OF c(2)] w]
      by (cases r) (auto simp: api_UpdateStoreVisitor_def UpdateStoreVisitor_def respond_to_def respond_def split: if_splits)
  qed
next
  case (RqDeleteVisitor n)
  obtain r s' where w: "withStoreMutationAndReload (ae_run env) (ae_codec env) se (RemV n) s = (r, s')" by fastforce
  show ?thesis using RqDeleteVisitor ch h w remove_result [OF b wf _ w]
    by (cases r) (auto simp: api_DeleteStoreVisitor_def DeleteStoreVisitor_def respond_to_def respond_def split: if_splits)
qed (use ch in auto)

lemma reach_store_wf: "cs_reach run quals cd s \<Longrightarrow> cs_store s = Some b \<Longrightarrow> bs_wf b"
  using cs_reach_inv [of run quals cd s] by (auto simp: cs_inv_def cs_store_def ag_wf_def store_tables_def split: option.splits)


text \<open>What was created or changed can be read back as it was answered, and is what the body of the request denotes.\<close>

lemma proxy_put_readable:
  assumes "cs_store s = Some b" and "bs_wf b" and "op = AddP (Some c) \<or> op = UpdP (Some c)" and n: "pc_name c \<noteq> []"
    and "withStoreProxyMutationAndReload run cd se (pc_name c) op s = (ok r, s')"
  shows "r = c \<and> api_GetStoreProxy (pc_name c) s' = ok (ProxyDefinitionFromConfigurer c)"
  using proxy_put_result(2) [OF assms refl] n by (cases "cs_store s'") (auto simp: api_GetStoreProxy_def GetStoreProxy_def)

lemma created_proxy_readable:
  assumes b: "cs_store s = Some b" "bs_wf b" and h: "admin_handle env se cw rq (s, fs) = ((200, payload), (s', fs'))"
    and rq: "rq = RqCreateProxy (Some body) \<or> rq = RqUpdateProxy n (Some body)"
  shows "\<exists>d c. ae_proxy env body = Some d \<and> pd_ToConfigurer d = Some c \<and> payload = OneProxy (ProxyDefinitionFromConfigurer c)
    \<and> admin_handle env se' cw' (RqGetProxy (pc_name c)) (s', fs') = ((200, payload), (s', fs'))"
proof -
  have no: "toHTTPError e \<noteq> 200" for e by (cases e) (simp_all add: toHTTPError_def)
  obtain n' u c r where c: "decode_definition (ae_proxy env) (\<lambda>p. pd_Validate n' u p = None) pd_ToConfigurer (Some body) = Some c"
    and r: "withStoreProxyMutationAndReload (ae_run env) (ae_codec env) se (pc_name c) (if u then UpdP (Some c) else AddP (Some c)) s = (ok r, s')"
      "payload = OneProxy (ProxyDefinitionFromConfigurer r)"
    using rq
  proof
    assume q: "rq = RqCreateProxy (Some body)"
    obtain c where c: "decode_definition (ae_proxy env) (\<lambda>p. pd_Validate [] False p = None) pd_ToConfigurer (Some body) = Some c"
      using q h by (cases "decode_definition (ae_proxy env) (\<lambda>p. pd_Validate [] False p = None) pd_ToConfigurer (Some body)")
        (simp_all add: api_CreateStoreProxy_def respond_to_def respond_def)
    obtain x s1 where x: "CreateStoreProxy (ae_run env) (ae_quals env) (ae_codec env) se (Some c) s = (x, s1)" by fastforce
    then obtain r where "x = ok r" "s1 = s'" "payload = OneProxy (ProxyDefinitionFromConfigurer r)"
      using q h c no by (cases x) (auto simp: api_CreateStoreProxy_def respond_to_def respond_def)
    then show thesis using that [OF c] x by (simp add: CreateStoreProxy_def split: if_splits)
  next
    assume q: "rq = RqUpdateProxy n (Some body)"
    have n: "n \<noteq> []" using q h by (auto simp: api_UpdateStoreProxy_def respond_to_def respond_def)
    obtain c where c: "decode_definition (ae_proxy env) (\<lambda>p. pd_Validate n True p = None) pd_ToConfigurer (Some body) = Some c"
      using q h n by (cases "decode_definition (ae_proxy env) (\<lambda>p. pd_Validate n True p = None) pd_ToConfigurer (Some body)")
        (simp_all add: api_UpdateStoreProxy_def respond_to_def respond_def)
    obtain x s1 where x: "UpdateStoreProxy (ae_run env) (ae_quals env) (ae_codec env) se n (Some c) s = (x, s1)" by fastforce
    then obtain r where "x = ok r" "s1 = s'" "payload = OneProxy (ProxyDefinitionFromConfigurer r)"
      using q h c n no by (cases x) (auto simp: api_UpdateStoreProxy_def respond_to_def respond_def)
    then show thesis using that [OF c] x by (auto simp: UpdateStoreProxy_def split: if_splits)
  qed
  let ?op = "if u then UpdP (Some c) else AddP (Some c)"
  have "?op = AddP (Some c) \<or> ?op = UpdP (Some c)" by simp
  from proxy_put_readable [OF b this decoded_proxy(1) [OF c] r(1)] have "r = c \<and> api_GetStoreProxy (pc_name c) s' = ok (ProxyDefinitionFromConfigurer c)" .
  moreover obtain d where "ae_proxy env body = Some d" "pd_ToConfigurer d = Some c" using c by (auto simp: decode_definition_def split: option.splits if_splits)
  ultimately show ?thesis using r(2) by (auto simp: respond_def)
qed

text \<open>The answer to a request for the state of the proxies has every proxy of the current control under its type.\<close>

lemma status_lists:
  assumes "cs_ctl s = Some ctl"
  shows "mset (case api_Status a s t of None \<Rightarrow> [] | Some rs \<Rightarrow> rs) =
      image_mset (buildProxyStatusResp a s) (filter_mset (\<lambda>pw. pw_Type pw = t) (image_mset snd (mset (cpm_proxies (cc_pm ctl)))))"
    and "api_Status a s t = Some rs \<Longrightarrow> sorted (map psr_Name rs) \<and> rs \<noteq> []"
proof -
  have ty: "psr_Type (buildProxyStatusResp a s pw) = pw_Type pw" for pw unfolding buildProxyStatusResp_def Let_def by simp
  have e: "filter (\<lambda>r. psr_Type r = t) (map (buildProxyStatusResp a s) ps) = map (buildProxyStatusResp a s) (filter (\<lambda>pw. pw_Type pw = t) ps)" for ps
    by (simp add: filter_map comp_def ty)
  show "mset (case api_Status a s t of None \<Rightarrow> [] | Some rs \<Rightarrow> rs) =
      image_mset (buildProxyStatusResp a s) (filter_mset (\<lambda>pw. pw_Type pw = t) (image_mset snd (mset (cpm_proxies (cc_pm ctl)))))"
    using assms by (auto simp: api_Status_def e Let_def simp flip: mset_filter mset_map)
  show "sorted (map psr_Name rs) \<and> rs \<noteq> []" if st: "api_Status a s t = Some rs"
  proof -
    obtain xs where xs: "xs \<noteq> []" "rs = sort_key psr_Name xs" using st unfolding api_Status_def Let_def by (auto split: if_split_asm)
    have "length rs = length xs" by (simp add: xs(2))
    with xs(1) have "rs \<noteq> []" by auto
    then show ?thesis by (simp add: xs(2))
  qed
qed

section \<open>Examples\<close>

definition demo_admin :: "(ProxyConfigurer list \<times> VisitorConfigurer list, unit, ProxyConfigurer + VisitorConfigurer) admin_env" where
  "demo_admin = \<lparr>ae_run = (\<lambda>c. None), ae_quals = (\<lambda>s. []), ae_codec = demo_codec,
     ae_proxy = (\<lambda>b. Some (ProxyDefinitionFromConfigurer (demo_tcp_conf ''b'' 6001))), ae_visitor = (\<lambda>b. None), ae_load = (\<lambda>b. None),
     ae_serverAddr = ''h'', ae_user = ''admin'', ae_passwd = ''pw'', ae_pprof = True, ae_storeRoutes = True\<rparr>"

theorem admin_needs_credentials_witness:
  "\<exists>code. admin_serve demo_admin good_save (\<lambda>_. True) (Some (''admin'', ''no'')) (RqDeleteProxy ''a'') (demo_service, Map.empty) = ((code, NoPayload), (demo_service, Map.empty))
     \<and> (code = 401 \<or> code = 404)"
proof -
  obtain code payload st where s: "admin_serve demo_admin good_save (\<lambda>_. True) (Some (''admin'', ''no'')) (RqDeleteProxy ''a'') (demo_service, Map.empty) = ((code, payload), st)"
    by (metis prod.exhaust)
  have "ae_user demo_admin \<noteq> [] \<or> ae_passwd demo_admin \<noteq> []" "Some (''admin'', ''no'') \<noteq> Some (ae_user demo_admin, ae_passwd demo_admin)"
    by (simp_all add: demo_admin_def)
  from admin_needs_credentials [OF this s] show ?thesis using s by simp
qed

lemma demo_tcp_type: "pb_Type (GetBaseConfig (demo_tcp_conf n p)) = ''tcp''" "conf_type (demo_tcp_conf n p) = ''tcp''"
  by (simp_all add: demo_tcp_conf_def GetBaseConfig_def zero_base_def conf_type_def ProxyBaseConfig.defs)

theorem definition_roundtrip_witness:
  "pd_Validate ''b'' True (ProxyDefinitionFromConfigurer (demo_tcp_conf ''b'' 6001)) = None
   \<and> pd_ToConfigurer (ProxyDefinitionFromConfigurer (demo_tcp_conf ''b'' 6001)) = Some (demo_tcp_conf ''b'' 6001)"
proof -
  have n: "trim_space (pc_name (demo_tcp_conf ''b'' 6001)) \<noteq> []" "pc_name (demo_tcp_conf ''b'' 6001) = ''b''" by (simp add: demo_tcp_conf_base, code_simp) (simp add: demo_tcp_conf_base)
  show ?thesis using definition_roundtrip [of "demo_tcp_conf ''b'' 6001" True "[]" zero_definition "STCPVisitorConf zero_visitor"
      "VisitorDefinitionFromConfigurer (STCPVisitorConf zero_visitor)"] n demo_tcp_type by simp
qed


end
