(* ===== verification/Ssh_Gateway.thy ===== *)
theory Ssh_Gateway
  imports Admin_Api Session_Start Vnet
begin

text \<open>
  The SSH gateway of the server: \<^verbatim>\<open>pkg/ssh/gateway.go\<close>, \<^verbatim>\<open>server.go\<close> and \<^verbatim>\<open>terminal.go\<close>. A user without a client connects with SSH; the gateway runs a client for
  the connection inside the server. The SSH protocol and the parser of command lines are third-party packages: the handshake
  \<open>hs\<close>, the parser \<open>parse\<close> of authorized keys and the parser \<open>flags\<close> of flags are parameters.
\<close>

section \<open>Authorized keys\<close>

text \<open>The loop is given as it is; it ends if the parser makes progress. The inner option is the error of the parser.\<close>

partial_function (option) load_loop ::
  "('b list \<Rightarrow> ('k \<times> string \<times> 'b list) option) \<Rightarrow> 'b list \<Rightarrow> ('k \<times> string) list \<Rightarrow> ('k \<times> string) list option option" where
  "load_loop parse bs m =
     (if bs = [] then Some (Some m)
      else (case parse bs of
              None \<Rightarrow> Some None
            | Some (pubKey, comment, rest) \<Rightarrow> load_loop parse rest (map_put pubKey (trim_space comment) m)))"

definition loadAuthorizedKeysFromFile ::
  "(string \<Rightarrow> 'b list option) \<Rightarrow> ('b list \<Rightarrow> ('k \<times> string \<times> 'b list) option) \<Rightarrow> string \<Rightarrow> ('k \<times> string) list option option" where
  "loadAuthorizedKeysFromFile fs parse path = (case fs path of None \<Rightarrow> Some None | Some bs \<Rightarrow> load_loop parse bs [])"

datatype key_error = KeysUnreadable | UnknownKey

definition PublicKeyCallback ::
  "(string \<Rightarrow> 'b list option) \<Rightarrow> ('b list \<Rightarrow> ('k \<times> string \<times> 'b list) option) \<Rightarrow> string \<Rightarrow> 'k \<Rightarrow> (key_error, string) result option" where
  "PublicKeyCallback fs parse path key =
     map_option (\<lambda>r. case r of
         None \<Rightarrow> err KeysUnreadable
       | Some m \<Rightarrow> (case map_of m key of None \<Rightarrow> err UnknownKey | Some user \<Rightarrow> ok user))
       (loadAuthorizedKeysFromFile fs parse path)"

lemma load_loop_returns:
  assumes "\<And>bs k c rest. parse bs = Some (k, c, rest) \<Longrightarrow> length rest < length bs"
  shows "\<exists>r. load_loop parse bs m = Some r"
proof (induction "length bs" arbitrary: bs m rule: less_induct)
  case less
  show ?case
  proof (cases "bs = [] \<or> parse bs = None")
    case True
    then show ?thesis by (auto simp: load_loop.simps [of parse bs])
  next
    case False
    then obtain k c rest where p: "parse bs = Some (k, c, rest)" by auto
    then show ?thesis using less [OF assms [OF p]] False by (simp add: load_loop.simps [of parse bs])
  qed
qed

text \<open>One line that the parser does not take for a key, for instance a comment after the last key, makes the whole file unreadable:
  then no key is accepted.\<close>

lemma trailing_line_locks_out:
  assumes "fs path = Some bs" and "parse bs = Some (k, c, rest)" and "bs \<noteq> []" and "rest \<noteq> []" and "parse rest = None"
  shows "PublicKeyCallback fs parse path key = Some (err KeysUnreadable)"
  using assms by (simp add: PublicKeyCallback_def loadAuthorizedKeysFromFile_def load_loop.simps [of parse bs] load_loop.simps [of parse rest])

section \<open>Requests of a channel\<close>

datatype exec_result = NoPayloadYet | ExtraPayload "byte list" | SliceOutOfRange

text \<open>The body of the loop of \<open>handleNewChannel\<close>. The sum is computed on 32 bits; slicing from \<open>4\<close> to a smaller end panics.
  \<^verbatim>\<open>int(end)\<close> keeps the value of the sum, as on targets of 64 bits.\<close>

definition exec_request :: "string \<Rightarrow> byte list \<Rightarrow> exec_result" where
  "exec_request type payload =
     (if type \<noteq> ''exec'' \<or> length payload \<le> 4 then NoPayloadYet
      else
        let end' = 4 + get_uint32 (rev (take 4 payload)) in
        if length payload < unat end' then NoPayloadYet
        else if unat end' < 4 then SliceOutOfRange
        else ExtraPayload (take (unat end' - 4) (drop 4 payload)))"

lemma unat_4_plus: "unat (4 + n :: 32 word) = (if unat n < 2 ^ 32 - 4 then 4 + unat n else unat n + 4 - 2 ^ 32)"
proof -
  have "unat n < 2 ^ 32" using unsigned_less [of n, where ?'a = nat] by simp
  then show ?thesis by (auto simp: unat_word_ariths mod_if)
qed

lemma exec_request_exact:
  assumes "4 < length payload" and n: "n = unat (get_uint32 (rev (take 4 payload)))"
  shows "exec_request ''exec'' payload = SliceOutOfRange \<longleftrightarrow> 2 ^ 32 - 4 \<le> n"
    and "n < 2 ^ 32 - 4 \<Longrightarrow> exec_request ''exec'' payload = (if length payload < 4 + n then NoPayloadYet else ExtraPayload (take n (drop 4 payload)))"
proof -
  have "n < 2 ^ 32" using unsigned_less [of "get_uint32 (rev (take 4 payload))", where ?'a = nat] by (simp add: n)
  then show "exec_request ''exec'' payload = SliceOutOfRange \<longleftrightarrow> 2 ^ 32 - 4 \<le> n"
    and "n < 2 ^ 32 - 4 \<Longrightarrow> exec_request ''exec'' payload = (if length payload < 4 + n then NoPayloadYet else ExtraPayload (take n (drop 4 payload)))"
    using assms(1) unat_4_plus [of "get_uint32 (rev (take 4 payload))"] unfolding exec_request_def Let_def n [symmetric] by auto
qed

text \<open>C33. What a command request does, exactly: with a length field below \<open>2 ^ 32 - 4\<close> the bytes that it announces are taken, if they are there; from \<open>2 ^ 32 - 4\<close> on
  the request panics, whatever follows, and ends the server.\<close>

theorem exec_request_bounds:
  fixes payload :: "byte list"
  assumes "4 < length payload"
  defines "n \<equiv> unat (get_uint32 (rev (take 4 payload)))"
  shows "(exec_request ''exec'' payload = SliceOutOfRange \<longleftrightarrow> 2 ^ 32 - 4 \<le> n)
    \<and> (n < 2 ^ 32 - 4 \<longrightarrow> exec_request ''exec'' payload = (if length payload < 4 + n then NoPayloadYet else ExtraPayload (take n (drop 4 payload))))"
  using exec_request_exact [OF assms(1) n_def [THEN meta_eq_to_obj_eq]] by blast

theorem exec_request_bounds_witness: "exec_request ''exec'' [255, 255, 255, 255, 0] = SliceOutOfRange"
proof -
  have p: "put_uint32 (- 1) = [255, 255, 255, 255]" by code_simp
  have "2 ^ 32 - 4 \<le> unat (get_uint32 (rev (take 4 [255, 255, 255, 255, 0])))"
    using get_put_uint32 [of "- 1", unfolded p] by (simp add: unsigned_minus_1_eq_mask mask_eq_exp_minus_1)
  then show ?thesis using exec_request_bounds [of "[255, 255, 255, 255, 0]"] by simp
qed

text \<open>The string of a command as SSH writes it is read back.\<close>

lemma exec_round_trip:
  assumes "c \<noteq> []" and "length c < 2 ^ 32 - 4"
  shows "exec_request ''exec'' (rev (put_uint32 (of_nat (length c))) @ c) = ExtraPayload c"
proof -
  let ?p = "rev (put_uint32 (of_nat (length c))) @ c"
  have t: "take 4 ?p = rev (put_uint32 (of_nat (length c)))" "drop 4 ?p = c" by simp_all
  have n: "unat (of_nat (length c) :: 32 word) = length c" using assms(2) by (simp add: unat_of_nat)
  show ?thesis using assms exec_request_exact(2) [of ?p "length c"] unfolding t rev_rev_ident get_put_uint32 n by simp
qed

text \<open>Waiting for the address to forward and the command, in whatever order they arrive; \<open>None\<close> is a wait that is not over. A command that is empty does not count.\<close>

datatype 'a wait_event = GotAddr 'a | GotExtra string | WaitTimeout

fun waitForwardAddrAndExtraPayload :: "'a option \<Rightarrow> string \<Rightarrow> 'a wait_event list \<Rightarrow> ('a \<times> string) option option" where
  "waitForwardAddrAndExtraPayload addr extra [] = None"
| "waitForwardAddrAndExtraPayload addr extra (WaitTimeout # es) = Some None"
| "waitForwardAddrAndExtraPayload addr extra (GotAddr a # es) =
     (if extra \<noteq> [] then Some (Some (a, extra)) else waitForwardAddrAndExtraPayload (Some a) extra es)"
| "waitForwardAddrAndExtraPayload addr extra (GotExtra e # es) =
     (case addr of
        Some a \<Rightarrow> if e \<noteq> [] then Some (Some (a, e)) else waitForwardAddrAndExtraPayload addr e es
      | None \<Rightarrow> waitForwardAddrAndExtraPayload addr e es)"

section \<open>The client of a connection\<close>

datatype command_error = BadProxyType | FlagError | RandIDError

text \<open>\<open>flags\<close> registers the flags of the kind of proxy and of a client and parses the arguments.\<close>

definition parseClientAndProxyConfigurer ::
  "(string \<Rightarrow> string list \<Rightarrow> (ClientCommonConfig \<times> ProxyConfigurer) option) \<Rightarrow> string option \<Rightarrow> string
   \<Rightarrow> (command_error, ClientCommonConfig \<times> ProxyConfigurer) result" where
  "parseClientAndProxyConfigurer flags randID extraPayload =
     (let args = split_on (CHR '' '') extraPayload; proxyType = trim_space (hd args) in
      if proxyType \<notin> {''tcp'', ''http'', ''https'', ''tcpmux'', ''stcp''} then err BadProxyType
      else (case flags proxyType args of
              None \<Rightarrow> err FlagError
            | Some (clientCfg, pc) \<Rightarrow>
                if pc_name pc \<noteq> [] then ok (clientCfg, pc)
                else (case randID of
                        None \<Rightarrow> err RandIDError
                      | Some r \<Rightarrow> ok (clientCfg, pc_put (''sshtunnel-'' @ proxyType @ ''-'' @ r) (pb_Type (GetBaseConfig pc)) pc))))"

record ('b, 'k) gateway_env =
  ge_AuthorizedKeysFile :: string
  ge_fs :: "string \<Rightarrow> 'b list option"
  ge_parse :: "'b list \<Rightarrow> ('k \<times> string \<times> 'b list) option"
  ge_flags :: "string \<Rightarrow> string list \<Rightarrow> (ClientCommonConfig \<times> ProxyConfigurer) option"
  ge_http_proxy :: string

definition NoClientAuth :: "('b, 'k) gateway_env \<Rightarrow> bool" where
  "NoClientAuth ge \<longleftrightarrow> ge_AuthorizedKeysFile ge = []"

datatype tunnel_error = HandshakeFailed | WaitFailed | CommandError command_error

record tunnel_client =
  tl_cfg :: ClientCommonConfig
  tl_proxy :: ProxyConfigurer
  tl_AlwaysAuthPass :: bool

text \<open>\<open>Run\<close> up to the client it creates. \<open>hs\<close> is the handshake: given whether a user may stay anonymous and what becomes of a key, it
  fails or returns the permissions, which have the user of the key that was accepted.\<close>

definition TunnelServer_Run ::
  "(bool \<Rightarrow> ('k \<Rightarrow> (key_error, string) result option) \<Rightarrow> string option option) \<Rightarrow> 'a wait_event list \<Rightarrow> string option \<Rightarrow> ('b, 'k) gateway_env
   \<Rightarrow> (tunnel_error, tunnel_client) result option" where
  "TunnelServer_Run hs events randID ge =
     (case hs (NoClientAuth ge) (PublicKeyCallback (ge_fs ge) (ge_parse ge) (ge_AuthorizedKeysFile ge)) of
        None \<Rightarrow> Some (err HandshakeFailed)
      | Some permissions \<Rightarrow>
          (case waitForwardAddrAndExtraPayload None [] events of
             None \<Rightarrow> None
           | Some None \<Rightarrow> Some (err WaitFailed)
           | Some (Some (addr, extraPayload)) \<Rightarrow>
               (case parseClientAndProxyConfigurer (ge_flags ge) randID extraPayload of
                  Inl e \<Rightarrow> Some (err (CommandError e))
                | Inr (clientCfg, pc) \<Rightarrow>
                    (let clientCfg = ClientCommon_Complete (ge_http_proxy ge) clientCfg;
                         clientCfg = (case permissions of None \<Rightarrow> clientCfg | Some user \<Rightarrow> clientCfg\<lparr>cl_User := EmptyOr user (cl_User clientCfg)\<rparr>)
                     in Some (ok \<lparr>tl_cfg = clientCfg, tl_proxy = Complete pc, tl_AlwaysAuthPass = \<not> NoClientAuth ge\<rparr>)))))"

text \<open>Waiting for the proxy to run. \<open>StatusTick\<close> has the status of the proxy, if the client has it.\<close>

datatype ready_event = StatusTick "(proxy_phase \<times> string) option" | ReadyTimeout | TunnelDone

fun waitProxyStatusReady :: "ready_event list \<Rightarrow> (string, unit) result option" where
  "waitProxyStatusReady [] = None"
| "waitProxyStatusReady (ReadyTimeout # es) = Some (err ''wait proxy status ready timeout'')"
| "waitProxyStatusReady (TunnelDone # es) = Some (err ''ssh tunnel server closed'')"
| "waitProxyStatusReady (StatusTick s # es) =
     (case s of
        None \<Rightarrow> waitProxyStatusReady es
      | Some (phase, e) \<Rightarrow>
          if phase = PhaseRunning then Some (ok ())
          else if phase = PhaseStartErr \<or> phase = PhaseClosed then Some (err e)
          else waitProxyStatusReady es)"

definition createSuccessInfo :: "string \<Rightarrow> ProxyConfigurer \<Rightarrow> string \<Rightarrow> string" where
  "createSuccessInfo user pc remoteAddr =
     (let nl = [CHR 0x0A]; base = GetBaseConfig pc in
      nl @ ''frp (via SSH) (Ctrl+C to quit)'' @ nl @ nl @ ''User: '' @ user @ nl @ ''ProxyName: '' @ pb_Name base @ nl
      @ ''Type: '' @ pb_Type base @ nl @ ''RemoteAddress: '' @ remoteAddr @ nl)"

section \<open>Who gets a session\<close>

lemma parse_named:
  assumes "parseClientAndProxyConfigurer flags randID extra = ok (cfg, pc)"
  shows "pc_name pc \<noteq> []"
  using assms by (auto simp: parseClientAndProxyConfigurer_def Let_def pc_put_simps split: if_splits option.splits)

text \<open>A documented property of the handshake: without anonymous users it only succeeds with a key whose possession the user proves and that the callback
  accepts, and returns the permissions of that key. \<open>proves\<close> holds for the keys of the user.\<close>

definition handshake_ok :: "('k \<Rightarrow> bool) \<Rightarrow> (bool \<Rightarrow> ('k \<Rightarrow> (key_error, string) result option) \<Rightarrow> string option option) \<Rightarrow> bool" where
  "handshake_ok proves hs \<longleftrightarrow> (\<forall>cb p. hs False cb = Some p \<longrightarrow> (\<exists>k user. proves k \<and> cb k = Some (ok user) \<and> p = Some user))"

text \<open>C22. A session by way of SSH. The client of a connection has a command of the user, which chose a name for its user. If the gateway has a file of authorized keys, the login that it sends over the internal
  listener is accepted only if the user's public key is in that file; the client then has the name that the comment of this key gives, and the name the command chose if the key has no comment. Without such a file the login
  is accepted only if the verifier of the server accepts it.\<close>

theorem ssh_login_authorized:
  fixes ge :: "('b, 'k) gateway_env" and ctl :: "'c Control"
  assumes hs: "handshake_ok proves hs" and run: "TunnelServer_Run hs events randID ge = Some (ok tc)"
    and m: "lg_AlwaysAuthPass m = tl_AlwaysAuthPass tc" and reg: "RegisterControl_new env rid crypto_ok now True m = Some (ok ctl)"
  shows "\<exists>addr command chosen pc. waitForwardAddrAndExtraPayload None [] events = Some (Some (addr, command))
    \<and> parseClientAndProxyConfigurer (ge_flags ge) randID command = ok (chosen, pc)
    \<and> (ge_AuthorizedKeysFile ge = [] \<longrightarrow> (\<exists>r. vf_Login (sx_verifier env) (signed.truncate (m\<lparr>lg_RunID := r\<rparr>)) = ok ()))
    \<and> (ge_AuthorizedKeysFile ge \<noteq> [] \<longrightarrow> (\<exists>keys key user. loadAuthorizedKeysFromFile (ge_fs ge) (ge_parse ge) (ge_AuthorizedKeysFile ge) = Some (Some keys)
         \<and> proves key \<and> map_of keys key = Some user \<and> cl_User (tl_cfg tc) = (if user = [] then cl_User chosen else user)))"
proof -
  let ?cb = "PublicKeyCallback (ge_fs ge) (ge_parse ge) (ge_AuthorizedKeysFile ge)" and ?C = "ClientCommon_Complete (ge_http_proxy ge)"
  obtain perms where p1: "hs (NoClientAuth ge) ?cb = Some perms" using run by (cases "hs (NoClientAuth ge) ?cb") (auto simp: TunnelServer_Run_def)
  obtain a e c0 pc where w: "waitForwardAddrAndExtraPayload None [] events = Some (Some (a, e))" "parseClientAndProxyConfigurer (ge_flags ge) randID e = ok (c0, pc)"
    using run p1 by (auto simp: TunnelServer_Run_def split: option.split_asm sum.split_asm prod.split_asm)
  have tc: "tc = \<lparr>tl_cfg = (case perms of None \<Rightarrow> ?C c0 | Some user \<Rightarrow> (?C c0)\<lparr>cl_User := EmptyOr user (cl_User (?C c0))\<rparr>), tl_proxy = Complete pc, tl_AlwaysAuthPass = \<not> NoClientAuth ge\<rparr>"
    using run p1 w by (simp add: TunnelServer_Run_def Let_def)
  have "\<exists>r. vf_Login (sx_verifier env) (signed.truncate (m\<lparr>lg_RunID := r\<rparr>)) = ok ()" if "ge_AuthorizedKeysFile ge = []"
    using reg m that unfolding tc by (auto simp: RegisterControl_new_def NoClientAuth_def Let_def split: option.splits sum.splits if_splits)
  moreover have "\<exists>keys key user. loadAuthorizedKeysFromFile (ge_fs ge) (ge_parse ge) (ge_AuthorizedKeysFile ge) = Some (Some keys)
      \<and> proves key \<and> map_of keys key = Some user \<and> cl_User (tl_cfg tc) = (if user = [] then cl_User c0 else user)" if "ge_AuthorizedKeysFile ge \<noteq> []"
  proof -
    have "hs False ?cb = Some perms" using p1 that by (simp add: NoClientAuth_def)
    then obtain key user where k: "proves key" "?cb key = Some (ok user)" "perms = Some user" using hs unfolding handshake_ok_def by blast
    then obtain keys where "loadAuthorizedKeysFromFile (ge_fs ge) (ge_parse ge) (ge_AuthorizedKeysFile ge) = Some (Some keys)" "map_of keys key = Some user"
      by (auto simp: PublicKeyCallback_def split: option.splits)
    moreover have "cl_User (tl_cfg tc) = (if user = [] then cl_User c0 else user)" unfolding tc k(3) by (simp add: EmptyOr_def ClientCommon_Complete_def Let_def)
    ultimately show ?thesis using k(1) by blast
  qed
  ultimately show ?thesis using w by blast
qed

text \<open>With a file of authorized keys the verifier of the server is never asked: whatever it is, the login of a client of the gateway has the same result.\<close>

theorem key_bypasses_token:
  assumes "ge_AuthorizedKeysFile ge \<noteq> []" and "TunnelServer_Run hs events randID ge = Some (ok tc)" and "lg_AlwaysAuthPass m = tl_AlwaysAuthPass tc"
  shows "RegisterControl_new (env\<lparr>sx_verifier := v\<rparr>) rid crypto_ok now True m = RegisterControl_new env rid crypto_ok now True m"
proof -
  have "tl_AlwaysAuthPass tc" using assms(1,2) by (auto simp: TunnelServer_Run_def NoClientAuth_def Let_def split: option.splits sum.splits prod.splits)
  then show ?thesis using assms(3) by (simp add: RegisterControl_new_def Let_def split: option.splits)
qed

definition demo_gateway :: "(nat, nat) gateway_env" where
  "demo_gateway = \<lparr>ge_AuthorizedKeysFile = ''keys'', ge_fs = (\<lambda>_. Some [0]), ge_parse = (\<lambda>bs. Some (7, ''bob'', [])),
     ge_flags = (\<lambda>t args. Some (zero_client, demo_tcp_conf ''p'' 1)), ge_http_proxy = []\<rparr>"

definition demo_handshake :: "bool \<Rightarrow> (nat \<Rightarrow> (key_error, string) result option) \<Rightarrow> string option option" where
  "demo_handshake anonymous cb = (if anonymous then Some None else (case cb 7 of Some (Inr user) \<Rightarrow> Some (Some user) | _ \<Rightarrow> None))"

lemma demo_keys: "loadAuthorizedKeysFromFile (ge_fs demo_gateway) (ge_parse demo_gateway) (ge_AuthorizedKeysFile demo_gateway) = Some (Some [(7, trim_space ''bob'')])"
  by (simp add: loadAuthorizedKeysFromFile_def demo_gateway_def load_loop.simps)

theorem ssh_login_authorized_witness:
  "\<exists>tc. TunnelServer_Run demo_handshake [GotAddr (), GotExtra ''tcp''] None demo_gateway = Some (ok tc) \<and> cl_User (tl_cfg tc) = ''bob''"
proof -
  have t: "trim_space ''tcp'' = ''tcp''" "split_on CHR '' '' ''tcp'' = [''tcp'']" by code_simp+
  have hs: "handshake_ok (\<lambda>k. k = 7) demo_handshake" by (auto simp: handshake_ok_def demo_handshake_def split: option.splits sum.splits)
  have n: "\<not> NoClientAuth demo_gateway" by (simp add: NoClientAuth_def demo_gateway_def)
  have h: "demo_handshake False (PublicKeyCallback (ge_fs demo_gateway) (ge_parse demo_gateway) (ge_AuthorizedKeysFile demo_gateway)) = Some (Some (trim_space ''bob''))"
    by (simp add: demo_handshake_def PublicKeyCallback_def demo_keys)
  have pr: "parseClientAndProxyConfigurer (ge_flags demo_gateway) None ''tcp'' = ok (zero_client, demo_tcp_conf ''p'' 1)"
    by (simp add: parseClientAndProxyConfigurer_def demo_gateway_def demo_tcp_conf_base t)
  obtain tc where r: "TunnelServer_Run demo_handshake [GotAddr (), GotExtra ''tcp''] None demo_gateway = Some (ok tc)" "tl_AlwaysAuthPass tc"
    using n h pr by (simp add: TunnelServer_Run_def Let_def)
  have m: "lg_AlwaysAuthPass (demo_login\<lparr>lg_AlwaysAuthPass := True\<rparr>) = tl_AlwaysAuthPass tc" using r(2) by simp
  have reg: "\<exists>ctl :: nat Control. RegisterControl_new Server_Service.demo_env None True 0 True (demo_login\<lparr>lg_AlwaysAuthPass := True\<rparr>) = Some (ok ctl)"
    by (simp add: RegisterControl_new_def NewControl_def demo_login_def Server_Service.demo_env_def demo_server_cfg_def AlwaysPassVerifier_def Let_def)
  have ne: "ge_AuthorizedKeysFile demo_gateway \<noteq> []" by (simp add: demo_gateway_def)
  from reg obtain ctl :: "nat Control" where ctl: "RegisterControl_new Server_Service.demo_env None True 0 True (demo_login\<lparr>lg_AlwaysAuthPass := True\<rparr>) = Some (ok ctl)" ..
  have bob: "trim_space ''bob'' = ''bob''" by code_simp
  obtain key :: nat and user chosen where "key = 7" "map_of [(7, trim_space ''bob'')] key = Some user" "cl_User (tl_cfg tc) = (if user = [] then chosen else user)"
    using ssh_login_authorized [OF hs r(1) m ctl] ne demo_keys by auto
  then have "cl_User (tl_cfg tc) = ''bob''" by (auto simp: bob split: if_splits)
  then show ?thesis using r(1) by blast
qed

end
