(* ===== verification/Transport.thy ===== *)
theory Transport
  imports Common_Config
begin

text \<open>
  The connection between client and server: the connector of the client (\<^verbatim>\<open>client/connector.go\<close>, \<^verbatim>\<open>pkg/util/net/dial.go\<close>), the configurations of TLS (\<^verbatim>\<open>pkg/transport/tls.go\<close>), the
  listeners of the server and what it makes of a connection (\<^verbatim>\<open>server/service.go\<close>, \<^verbatim>\<open>pkg/util/net/tls.go\<close>). TLS, the multiplexers, QUIC, KCP and websockets are third-party packages; what matters here
  is how a connection opens.
\<close>

section \<open>TLS\<close>

text \<open>\<open>pair\<close> and \<open>pool\<close> are whether the files of a key pair and of a pool of certificates can be used.\<close>

record tls_env =
  te_pair :: "string \<Rightarrow> string \<Rightarrow> bool"
  te_pool :: "string \<Rightarrow> bool"
  te_random :: bool

datatype tls_error = BadKeyPair | BadPool | NoRandomKeyPair

record client_tls =
  kt_Certificate :: "(string \<times> string) option"
  kt_ServerName :: string
  kt_RootCAs :: "string option"
  kt_InsecureSkipVerify :: bool

definition NewClientTLSConfig :: "tls_env \<Rightarrow> string \<Rightarrow> string \<Rightarrow> string \<Rightarrow> string \<Rightarrow> (tls_error, client_tls) result" where
  "NewClientTLSConfig te certPath keyPath caPath serverName =
     (if certPath \<noteq> [] \<and> keyPath \<noteq> [] \<and> \<not> te_pair te certPath keyPath then err BadKeyPair
      else let cert = (if certPath \<noteq> [] \<and> keyPath \<noteq> [] then Some (certPath, keyPath) else None) in
        if caPath \<noteq> [] \<and> \<not> te_pool te caPath then err BadPool
        else ok \<lparr>kt_Certificate = cert, kt_ServerName = serverName, kt_RootCAs = (if caPath \<noteq> [] then Some caPath else None), kt_InsecureSkipVerify = (caPath = [])\<rparr>)"

text \<open>Without a key pair the server makes one of its own; with a pool it asks clients for certificates.\<close>

record server_tls =
  kv_Certificate :: "(string \<times> string) option"
  kv_ClientCAs :: "string option"

definition NewServerTLSConfig :: "tls_env \<Rightarrow> string \<Rightarrow> string \<Rightarrow> string \<Rightarrow> (tls_error, server_tls) result" where
  "NewServerTLSConfig te certPath keyPath caPath =
     (let own = (certPath = [] \<or> keyPath = []) in
      if own \<and> \<not> te_random te then err NoRandomKeyPair
      else if \<not> own \<and> \<not> te_pair te certPath keyPath then err BadKeyPair
      else if caPath \<noteq> [] \<and> \<not> te_pool te caPath then err BadPool
      else ok \<lparr>kv_Certificate = (if own then None else Some (certPath, keyPath)), kv_ClientCAs = (if caPath \<noteq> [] then Some caPath else None)\<rparr>)"

text \<open>The handshake of TLS. The contents of the files decide whether a certificate is signed by one of a pool, and whether it has a name; a certificate that the server has just made
  is signed by nobody and has no name. The server asks for a certificate of the client if it has a pool.\<close>

record cert_facts =
  cf_client :: "string \<Rightarrow> string \<times> string \<Rightarrow> bool"
  cf_server :: "string \<Rightarrow> string \<times> string \<Rightarrow> string \<Rightarrow> bool"

definition server_verified :: "cert_facts \<Rightarrow> client_tls \<Rightarrow> server_tls \<Rightarrow> bool" where
  "server_verified cf kt kv \<longleftrightarrow>
     (case kt_RootCAs kt of
        None \<Rightarrow> kt_InsecureSkipVerify kt
      | Some pool \<Rightarrow> kt_InsecureSkipVerify kt \<or> (case kv_Certificate kv of None \<Rightarrow> False | Some c \<Rightarrow> cf_server cf pool c (kt_ServerName kt)))"

definition client_verified :: "cert_facts \<Rightarrow> client_tls \<Rightarrow> server_tls \<Rightarrow> bool" where
  "client_verified cf kt kv \<longleftrightarrow>
     (case kv_ClientCAs kv of
        None \<Rightarrow> True
      | Some pool \<Rightarrow> (case kt_Certificate kt of None \<Rightarrow> False | Some c \<Rightarrow> cf_client cf pool c))"

definition tls_handshake_ok :: "cert_facts \<Rightarrow> client_tls \<Rightarrow> server_tls \<Rightarrow> bool" where
  "tls_handshake_ok cf kt kv \<longleftrightarrow> server_verified cf kt kv \<and> client_verified cf kt kv"

section \<open>How the client opens a connection\<close>

text \<open>What is sent before the first message: the request of a websocket, the byte that announces TLS, the handshake of TLS with the client's configuration.\<close>

datatype preamble = Upgrade | HeadByte | Hello client_tls

text \<open>\<open>realConnect\<close>: the hooks with their priorities in the order in which they are added. \<open>d\<close> is the priority of TLS if none is given, \<open>kt\<close> the configuration of TLS.\<close>

definition tls_enabled :: "ClientTransportConfig \<Rightarrow> bool" where
  "tls_enabled c \<longleftrightarrow> FromPtr (tc_Enable (ct_TLS c)) \<or> ct_Protocol c = ''wss''"

definition custom_head :: "ClientTransportConfig \<Rightarrow> bool" where
  "custom_head c \<longleftrightarrow> tls_enabled c \<and> \<not> FromPtr (tc_DisableCustomTLSFirstByte (ct_TLS c))"

definition dial_hooks :: "nat \<Rightarrow> client_tls \<Rightarrow> ClientTransportConfig \<Rightarrow> (nat \<times> preamble) list" where
  "dial_hooks d kt c =
     (let head = (if custom_head c then [(0, HeadByte)] else []); tls = (\<lambda>p. if tls_enabled c then [(p, Hello kt)] else []) in
      if ct_Protocol c = ''websocket'' then (0, Upgrade) # head @ tls d
      else if ct_Protocol c = ''wss'' then tls 100 @ [(110, Upgrade)]
      else head @ tls d)"

definition dial_protocol :: "string \<Rightarrow> string" where
  "dial_protocol p = (if p = ''websocket'' \<or> p = ''wss'' then ''tcp'' else p)"

text \<open>The package that dials runs the hooks in the order of their priorities, those without one in the order in which they were added, and TLS last unless told otherwise.\<close>

definition hooks_ordered :: "nat \<Rightarrow> ((nat \<times> preamble) list \<Rightarrow> preamble list) \<Rightarrow> bool" where
  "hooks_ordered d run \<longleftrightarrow> 0 < d \<and> (\<forall>hs. run hs = map snd (sort_key fst hs))"

datatype connect_error = TlsConfig tls_error | ProxyUrl | Dial | MuxError | StreamError

text \<open>What the outside answers: whether the URL of an HTTP or SOCKS proxy can be parsed, the connections that are dialled, and whether a session of the multiplexer and a stream can be had.\<close>

record 'c connect_env =
  ce_tls :: tls_env
  ce_proxy :: "string \<Rightarrow> bool"
  ce_dial :: "'c option"
  ce_mux :: bool
  ce_stream :: "'c option"

definition server_name :: "ClientCommonConfig \<Rightarrow> string" where
  "server_name cfg = EmptyOr (tl_ServerName (ct_TLS (cl_Transport cfg))) (cl_ServerAddr cfg)"

definition client_tls_config :: "tls_env \<Rightarrow> ClientCommonConfig \<Rightarrow> (tls_error, client_tls) result" where
  "client_tls_config te cfg =
     (let t = ct_TLS (cl_Transport cfg) in NewClientTLSConfig te (tl_CertFile t) (tl_KeyFile t) (tl_TrustedCaFile t) (server_name cfg))"

definition realConnect :: "'c connect_env \<Rightarrow> ClientCommonConfig \<Rightarrow> (connect_error, 'c) result" where
  "realConnect ce cfg =
     (case (if tls_enabled (cl_Transport cfg) then map_option TlsConfig (case client_tls_config (ce_tls ce) cfg of Inl e \<Rightarrow> Some e | Inr _ \<Rightarrow> None) else None) of
        Some e \<Rightarrow> err e
      | None \<Rightarrow>
          if \<not> ce_proxy ce (ct_ProxyURL (cl_Transport cfg)) then err ProxyUrl
          else (case ce_dial ce of None \<Rightarrow> err Dial | Some c \<Rightarrow> ok c))"

record 'c connector =
  co_mux :: "'c option"
  co_quic :: "'c option"
  co_closeOnce :: bool

definition NewConnector :: "'c connector" where
  "NewConnector = \<lparr>co_mux = None, co_quic = None, co_closeOnce = False\<rparr>"

definition is_quic :: "ClientCommonConfig \<Rightarrow> bool" where
  "is_quic cfg \<longleftrightarrow> to_lower (ct_Protocol (cl_Transport cfg)) = ''quic''"

definition quic_tls_config :: "tls_env \<Rightarrow> ClientCommonConfig \<Rightarrow> (tls_error, client_tls) result" where
  "quic_tls_config te cfg =
     (if FromPtr (tc_Enable (ct_TLS (cl_Transport cfg))) then client_tls_config te cfg else NewClientTLSConfig te [] [] [] (server_name cfg))"

text \<open>\<open>Open\<close>, with the connections it has closed.\<close>

definition co_Open :: "'c connect_env \<Rightarrow> ClientCommonConfig \<Rightarrow> 'c connector \<Rightarrow> connect_error option \<times> 'c connector \<times> 'c list" where
  "co_Open ce cfg c =
     (if is_quic cfg
      then (case quic_tls_config (ce_tls ce) cfg of
              Inl e \<Rightarrow> (Some (TlsConfig e), c, [])
            | Inr _ \<Rightarrow> (case ce_dial ce of None \<Rightarrow> (Some Dial, c, []) | Some q \<Rightarrow> (None, c\<lparr>co_quic := Some q\<rparr>, [])))
      else if \<not> FromPtr (ct_TCPMux (cl_Transport cfg)) then (None, c, [])
      else (case realConnect ce cfg of
              Inl e \<Rightarrow> (Some e, c, [])
            | Inr conn \<Rightarrow> if ce_mux ce then (None, c\<lparr>co_mux := Some conn\<rparr>, []) else (Some MuxError, c, [conn])))"

definition co_Connect :: "'c connect_env \<Rightarrow> ClientCommonConfig \<Rightarrow> 'c connector \<Rightarrow> (connect_error, 'c) result" where
  "co_Connect ce cfg c =
     (if co_quic c \<noteq> None \<or> co_mux c \<noteq> None then (case ce_stream ce of None \<Rightarrow> err StreamError | Some s \<Rightarrow> ok s) else realConnect ce cfg)"

definition co_Close :: "'c connector \<Rightarrow> 'c connector \<times> 'c list" where
  "co_Close c = (if co_closeOnce c then (c, []) else (c\<lparr>co_closeOnce := True\<rparr>, (case co_quic c of None \<Rightarrow> [] | Some q \<Rightarrow> [q]) @ (case co_mux c of None \<Rightarrow> [] | Some m \<Rightarrow> [m])))"

text \<open>No connection is lost: what \<open>Open\<close> has dialled is closed by it or by \<open>Close\<close>.\<close>

lemma connector_no_leak:
  assumes "co_Open ce cfg NewConnector = (e, c, closed)" and "ce_dial ce = Some conn"
  shows "closed @ snd (co_Close c) = [] \<or> closed @ snd (co_Close c) = [conn]" and "co_mux c \<noteq> None \<or> co_quic c \<noteq> None \<Longrightarrow> closed @ snd (co_Close c) = [conn]"
  using assms by (auto simp: co_Open_def co_Close_def NewConnector_def realConnect_def split: if_splits option.splits sum.splits)

text \<open>The certificate of the server is checked exactly if the client has a pool of certificates and uses TLS.\<close>

lemma server_verified_iff:
  "client_tls_config te cfg = ok t \<Longrightarrow> kt_InsecureSkipVerify t \<longleftrightarrow> tl_TrustedCaFile (ct_TLS (cl_Transport cfg)) = []"
  "quic_tls_config te cfg = ok t \<Longrightarrow> kt_InsecureSkipVerify t \<longleftrightarrow> tl_TrustedCaFile (ct_TLS (cl_Transport cfg)) = [] \<or> \<not> FromPtr (tc_Enable (ct_TLS (cl_Transport cfg)))"
  by (auto simp: client_tls_config_def quic_tls_config_def NewClientTLSConfig_def Let_def split: if_splits)

section \<open>The listeners of the server\<close>

datatype listen_at = ListenTCPMux | ListenBind | ListenKCP | ListenQUIC | ListenSSH | ListenHTTP | ListenHTTPS

datatype service_start_error = StartTls tls_error | StartWeb | StartAuth | StartListen listen_at

text \<open>What the outside answers when the service is made: whether the web server and the authentication can be made, and which addresses can be listened on.\<close>

record service_start_env =
  sn_tls :: tls_env
  sn_web :: bool
  sn_auth :: bool
  sn_listen :: "listen_at \<Rightarrow> bool"

record listeners =
  ls_at :: "listen_at list"
  ls_httpMux :: bool
  ls_httpsMux :: bool
  ls_tls :: server_tls

definition httpMuxOn :: "ServerFullConfig \<Rightarrow> bool" where
  "httpMuxOn cfg \<longleftrightarrow> sf_BindAddr cfg = sf_ProxyBindAddr cfg \<and> sf_BindPort cfg = sf_VhostHTTPPort cfg"

definition httpsMuxOn :: "ServerFullConfig \<Rightarrow> bool" where
  "httpsMuxOn cfg \<longleftrightarrow> sf_BindAddr cfg = sf_ProxyBindAddr cfg \<and> sf_BindPort cfg = sf_VhostHTTPSPort cfg"

definition listen_plan :: "ServerFullConfig \<Rightarrow> listen_at list" where
  "listen_plan cfg =
     (if sf_TCPMuxHTTPConnectPort cfg > 0 then [ListenTCPMux] else []) @ [ListenBind]
     @ (if sf_KCPBindPort cfg > 0 then [ListenKCP] else []) @ (if sf_QUICBindPort cfg > 0 then [ListenQUIC] else [])
     @ (if sh_BindPort (sf_SSHTunnelGateway cfg) > 0 then [ListenSSH] else [])
     @ (if sf_VhostHTTPPort cfg > 0 \<and> \<not> httpMuxOn cfg then [ListenHTTP] else [])
     @ (if sf_VhostHTTPSPort cfg > 0 \<and> \<not> httpsMuxOn cfg then [ListenHTTPS] else [])"

definition NewService :: "service_start_env \<Rightarrow> ServerFullConfig \<Rightarrow> (service_start_error, listeners) result" where
  "NewService se cfg =
     (let t = st_TLS (sf_Transport cfg) in
      case NewServerTLSConfig (sn_tls se) (tl_CertFile t) (tl_KeyFile t) (tl_TrustedCaFile t) of
        Inl e \<Rightarrow> err (StartTls e)
      | Inr tls \<Rightarrow>
          if ws_Port (sf_WebServer cfg) > 0 \<and> \<not> sn_web se then err StartWeb
          else if \<not> sn_auth se then err StartAuth
          else (case filter (\<lambda>l. \<not> sn_listen se l) (listen_plan cfg) of
                  l # _ \<Rightarrow> err (StartListen l)
                | [] \<Rightarrow> ok \<lparr>ls_at = listen_plan cfg, ls_httpMux = (sf_VhostHTTPPort cfg > 0 \<and> httpMuxOn cfg), ls_httpsMux = (sf_VhostHTTPSPort cfg > 0 \<and> httpsMuxOn cfg), ls_tls = tls\<rparr>))"

section \<open>What the server makes of a connection\<close>

text \<open>The kinds of first bytes that the listeners on the bind port tell apart, and these listeners with their priorities, in this order.\<close>

datatype first_bytes = FUpgrade | FHttp | FHead | FHello | FOther

datatype bind_listener = BWebsocket | BVhostHTTP | BVhostHTTPS | BTls | BDefault

definition bind_matchers :: "listeners \<Rightarrow> (nat \<times> first_bytes set \<times> bind_listener) list" where
  "bind_matchers ls =
     [(0, {FUpgrade}, BWebsocket)] @ (if ls_httpMux ls then [(1, {FUpgrade, FHttp}, BVhostHTTP)] else [])
     @ (if ls_httpsMux ls then [(1, {FHello}, BVhostHTTPS)] else []) @ [(2, {FHead, FHello}, BTls)]"

definition dispatch :: "listeners \<Rightarrow> first_bytes \<Rightarrow> bind_listener" where
  "dispatch ls f = (case filter (\<lambda>(p, fs, l). f \<in> fs) (bind_matchers ls) of [] \<Rightarrow> BDefault | (p, fs, l) # _ \<Rightarrow> l)"

definition FRPTLSHeadByte :: nat where
  "FRPTLSHeadByte = 0x17"

definition CheckAndEnableTLSServerConnWithTimeout :: "nat option \<Rightarrow> bool \<Rightarrow> (bool \<times> bool) option" where
  "CheckAndEnableTLSServerConnWithTimeout first tlsOnly =
     (case first of
        None \<Rightarrow> None
      | Some b \<Rightarrow>
          if b = FRPTLSHeadByte then Some (True, True)
          else if b = 0x16 then Some (True, False)
          else if tlsOnly then None
          else Some (False, False))"

text \<open>The first byte of a connection that opens with \<open>ps\<close> and then has messages that begin with \<open>m\<close>.\<close>

fun first_byte :: "nat \<Rightarrow> preamble list \<Rightarrow> nat" where
  "first_byte m [] = m" | "first_byte m (Upgrade # ps) = 0x47" | "first_byte m (HeadByte # ps) = FRPTLSHeadByte" | "first_byte m (Hello kt # ps) = 0x16"

fun first_kind :: "preamble list \<Rightarrow> first_bytes" where
  "first_kind [] = FOther" | "first_kind (Upgrade # ps) = FUpgrade" | "first_kind (HeadByte # ps) = FHead" | "first_kind (Hello kt # ps) = FHello"

datatype reception = Understood bool | Refused | ToVhost | Misread

text \<open>\<open>HandleListener\<close>, for a connection that is not internal. With the custom byte the server expects the handshake after it. What remains after that must be messages, multiplexed as the
  server is configured to expect (\<open>muxed\<close> is what the client does).\<close>

fun after_handshake :: "cert_facts \<Rightarrow> server_tls \<Rightarrow> preamble list \<Rightarrow> preamble list option" where
  "after_handshake cf kv (Hello kt # ps) = (if tls_handshake_ok cf kt kv then Some ps else None)"
| "after_handshake cf kv ps = None"

definition HandleListener :: "cert_facts \<Rightarrow> server_tls \<Rightarrow> ServerFullConfig \<Rightarrow> nat \<Rightarrow> bool \<Rightarrow> preamble list \<Rightarrow> reception" where
  "HandleListener cf tlsConfig cfg m muxed ps =
     (case CheckAndEnableTLSServerConnWithTimeout (Some (first_byte m ps)) (ts_Force (st_TLS (sf_Transport cfg))) of
        None \<Rightarrow> Refused
      | Some (isTLS, custom) \<Rightarrow>
          (case (if isTLS then after_handshake cf tlsConfig (if custom then tl ps else ps) else Some ps) of
             None \<Rightarrow> Refused
           | Some rest \<Rightarrow> if rest = [] \<and> muxed = FromPtr (st_TCPMux (sf_Transport cfg)) then Understood isTLS else Misread))"

definition receive_conn :: "cert_facts \<Rightarrow> listeners \<Rightarrow> ServerFullConfig \<Rightarrow> string \<Rightarrow> nat \<Rightarrow> bool \<Rightarrow> preamble list \<Rightarrow> reception" where
  "receive_conn cf ls cfg proto m muxed ps =
     (if proto = ''kcp'' then (if ListenKCP \<in> set (ls_at ls) then HandleListener cf (ls_tls ls) cfg m muxed ps else Refused)
      else case dispatch ls (first_kind ps) of
          BWebsocket \<Rightarrow> HandleListener cf (ls_tls ls) cfg m muxed (tl ps)
        | BVhostHTTP \<Rightarrow> ToVhost
        | BVhostHTTPS \<Rightarrow> ToVhost
        | _ \<Rightarrow> HandleListener cf (ls_tls ls) cfg m muxed ps)"

lemma dispatch_simps:
  "dispatch ls FUpgrade = BWebsocket" "dispatch ls FHead = BTls" "dispatch ls FOther = BDefault"
  "dispatch ls FHello = (if ls_httpsMux ls then BVhostHTTPS else BTls)"
  by (simp_all add: dispatch_def bind_matchers_def)

lemma NewService_result:
  assumes "NewService se cfg = ok ls"
  shows "ls_at ls = listen_plan cfg \<and> ls_httpMux ls = (sf_VhostHTTPPort cfg > 0 \<and> httpMuxOn cfg) \<and> ls_httpsMux ls = (sf_VhostHTTPSPort cfg > 0 \<and> httpsMuxOn cfg)
    \<and> (\<forall>l \<in> set (listen_plan cfg). sn_listen se l)"
proof -
  have f: "filter (\<lambda>l. \<not> sn_listen se l) (listen_plan cfg) = []" using assms by (auto simp: NewService_def Let_def split: sum.splits if_splits list.splits)
  then show ?thesis using assms by (auto simp: NewService_def Let_def filter_empty_conv split: sum.splits if_splits)
qed

lemma NewService_listeners:
  assumes "NewService se cfg = ok ls"
  shows "ListenKCP \<in> set (ls_at ls) \<longleftrightarrow> sf_KCPBindPort cfg > 0" and "ls_httpsMux ls \<longleftrightarrow> sf_VhostHTTPSPort cfg > 0 \<and> httpsMuxOn cfg"
    and "ListenQUIC \<in> set (ls_at ls) \<longleftrightarrow> sf_QUICBindPort cfg > 0"
  using NewService_result [OF assms] by (simp_all add: listen_plan_def)

text \<open>What a connection of the client opens with.\<close>

lemma client_preamble:
  assumes "hooks_ordered d run"
  shows "run (dial_hooks d kt c) =
    (if ct_Protocol c = ''wss'' then [Hello kt, Upgrade]
     else (if ct_Protocol c = ''websocket'' then [Upgrade] else []) @ (if custom_head c then [HeadByte] else []) @ (if tls_enabled c then [Hello kt] else []))"
proof -
  have d: "0 < d" and run: "run hs = map snd (sort_key fst hs)" for hs using assms by (auto simp: hooks_ordered_def)
  have "tls_enabled c" if "ct_Protocol c = ''wss''" using that by (simp add: tls_enabled_def)
  then show ?thesis using d by (auto simp: run dial_hooks_def custom_head_def Let_def)
qed

text \<open>Which certificates fit: a server with a pool wants a certificate of the client that the pool has signed, and a client with a pool one of the server, for the name that it expects.\<close>

definition certs_fit :: "cert_facts \<Rightarrow> ClientCommonConfig \<Rightarrow> ServerFullConfig \<Rightarrow> bool" where
  "certs_fit cf cc cfg \<longleftrightarrow>
     (let c = ct_TLS (cl_Transport cc); v = st_TLS (sf_Transport cfg) in
      (tl_TrustedCaFile v \<noteq> [] \<longrightarrow> tl_CertFile c \<noteq> [] \<and> tl_KeyFile c \<noteq> [] \<and> cf_client cf (tl_TrustedCaFile v) (tl_CertFile c, tl_KeyFile c))
    \<and> (tl_TrustedCaFile c \<noteq> [] \<longrightarrow> tl_CertFile v \<noteq> [] \<and> tl_KeyFile v \<noteq> [] \<and> cf_server cf (tl_TrustedCaFile c) (tl_CertFile v, tl_KeyFile v) (server_name cc)))"

lemma NewService_tls:
  assumes "NewService se cfg = ok ls"
  shows "NewServerTLSConfig (sn_tls se) (tl_CertFile (st_TLS (sf_Transport cfg))) (tl_KeyFile (st_TLS (sf_Transport cfg))) (tl_TrustedCaFile (st_TLS (sf_Transport cfg))) = ok (ls_tls ls)"
  using assms by (auto simp: NewService_def Let_def split: sum.splits if_splits list.splits)

lemma handshake_iff:
  assumes "NewService se cfg = ok ls" and "client_tls_config te cc = ok kt"
  shows "tls_handshake_ok cf kt (ls_tls ls) \<longleftrightarrow> certs_fit cf cc cfg"
proof -
  let ?c = "ct_TLS (cl_Transport cc)" and ?v = "st_TLS (sf_Transport cfg)"
  have kt: "kt = \<lparr>kt_Certificate = (if tl_CertFile ?c \<noteq> [] \<and> tl_KeyFile ?c \<noteq> [] then Some (tl_CertFile ?c, tl_KeyFile ?c) else None), kt_ServerName = server_name cc,
      kt_RootCAs = (if tl_TrustedCaFile ?c \<noteq> [] then Some (tl_TrustedCaFile ?c) else None), kt_InsecureSkipVerify = (tl_TrustedCaFile ?c = [])\<rparr>"
    using assms(2) by (auto simp: client_tls_config_def NewClientTLSConfig_def Let_def split: if_splits)
  have kv: "ls_tls ls = \<lparr>kv_Certificate = (if tl_CertFile ?v = [] \<or> tl_KeyFile ?v = [] then None else Some (tl_CertFile ?v, tl_KeyFile ?v)),
      kv_ClientCAs = (if tl_TrustedCaFile ?v \<noteq> [] then Some (tl_TrustedCaFile ?v) else None)\<rparr>"
    using NewService_tls [OF assms(1)] by (auto simp: NewServerTLSConfig_def Let_def split: if_splits)
  show ?thesis unfolding kt kv by (auto simp: tls_handshake_ok_def server_verified_def client_verified_def certs_fit_def Let_def)
qed

text \<open>C38. Which configurations fit. A connection of a client over TCP, KCP or a websocket is understood by the server exactly if TLS is on or not forced, with TLS each side's certificate satisfies the other's
  pool if that has one, the server's for the name the client expects, both sides agree on multiplexing, and, over TCP with TLS, the custom byte is sent or the server does not share its port with the virtual hosts of HTTPS, and over KCP the server
  listens for it; the server then takes it for TLS exactly if the client does. A connection of a client with \<^verbatim>\<open>wss\<close> is never understood directly: it needs a proxy in front of the server.\<close>

theorem connection_understood:
  fixes cc :: ClientCommonConfig and cfg :: ServerFullConfig
  assumes hooks: "hooks_ordered d run" and ls: "NewService se cfg = ok ls" and kt: "tls_enabled (cl_Transport cc) \<Longrightarrow> client_tls_config te cc = ok kt"
    and p: "proto = ct_Protocol (cl_Transport cc)" "proto \<in> {''tcp'', ''kcp'', ''websocket'', ''wss''}"
    and m: "m \<noteq> FRPTLSHeadByte" "m \<noteq> 0x16"
  defines "tls \<equiv> tls_enabled (cl_Transport cc)" and "muxed \<equiv> FromPtr (ct_TCPMux (cl_Transport cc))"
  shows "receive_conn cf ls cfg (dial_protocol proto) m muxed (run (dial_hooks d kt (cl_Transport cc))) = Understood isTLS \<longleftrightarrow>
    proto \<noteq> ''wss'' \<and> isTLS = tls \<and> (ts_Force (st_TLS (sf_Transport cfg)) \<longrightarrow> tls) \<and> (tls \<longrightarrow> certs_fit cf cc cfg) \<and> muxed = FromPtr (st_TCPMux (sf_Transport cfg))
    \<and> (proto = ''tcp'' \<and> tls \<and> \<not> custom_head (cl_Transport cc) \<longrightarrow> \<not> (sf_VhostHTTPSPort cfg > 0 \<and> httpsMuxOn cfg))
    \<and> (proto = ''kcp'' \<longrightarrow> sf_KCPBindPort cfg > 0)"
proof -
  have c: "custom_head (cl_Transport cc) \<Longrightarrow> tls" by (simp add: custom_head_def tls_def)
  note l = NewService_listeners [OF ls]
  have h: "tls \<Longrightarrow> tls_handshake_ok cf kt (ls_tls ls) \<longleftrightarrow> certs_fit cf cc cfg" using handshake_iff [OF ls kt] by (simp add: tls_def)
  from p(2) consider "proto = ''tcp''" | "proto = ''kcp''" | "proto = ''websocket''" | "proto = ''wss''" by auto
  then show ?thesis
  proof cases
    case 4
    then show ?thesis using p(1) by (simp add: client_preamble [OF hooks] receive_conn_def dial_protocol_def dispatch_simps HandleListener_def CheckAndEnableTLSServerConnWithTimeout_def FRPTLSHeadByte_def Let_def)
  qed (use p(1) m c l in \<open>auto simp: client_preamble [OF hooks] receive_conn_def dial_protocol_def dispatch_simps HandleListener_def CheckAndEnableTLSServerConnWithTimeout_def
      FRPTLSHeadByte_def Let_def tls_def [symmetric] h split: if_splits\<close>)
qed

definition demo_service_start :: service_start_env where
  "demo_service_start = \<lparr>sn_tls = \<lparr>te_pair = (\<lambda>_ _. True), te_pool = (\<lambda>_. True), te_random = True\<rparr>, sn_web = True, sn_auth = True, sn_listen = (\<lambda>_. True)\<rparr>"

definition shared_https :: ServerFullConfig where
  "shared_https = (Server_Complete zero_server)\<lparr>sf_VhostHTTPSPort := 7000\<rparr>"

lemma demo_NewService: "NewService demo_service_start (Server_Complete zero_server) = ok \<lparr>ls_at = [ListenBind], ls_httpMux = False, ls_httpsMux = False, ls_tls = \<lparr>kv_Certificate = None, kv_ClientCAs = None\<rparr>\<rparr>"
  "NewService demo_service_start shared_https = ok \<lparr>ls_at = [ListenBind], ls_httpMux = False, ls_httpsMux = True, ls_tls = \<lparr>kv_Certificate = None, kv_ClientCAs = None\<rparr>\<rparr>"
  by code_simp+

lemma demo_hooks: "hooks_ordered 1000 (\<lambda>hs. map snd (sort_key fst hs))"
  by (simp add: hooks_ordered_def)

definition demo_certs :: cert_facts where
  "demo_certs = \<lparr>cf_client = (\<lambda>_ _. False), cf_server = (\<lambda>pool c name. name = ''example.com'')\<rparr>"

definition demo_kt :: client_tls where
  "demo_kt = \<lparr>kt_Certificate = None, kt_ServerName = ''0.0.0.0'', kt_RootCAs = None, kt_InsecureSkipVerify = True\<rparr>"

lemma demo_client_tls: "client_tls_config (sn_tls demo_service_start) (ClientCommon_Complete [] zero_client) = ok demo_kt"
  by code_simp

theorem connection_understood_witness:
  "receive_conn demo_certs \<lparr>ls_at = [ListenBind], ls_httpMux = False, ls_httpsMux = False, ls_tls = \<lparr>kv_Certificate = None, kv_ClientCAs = None\<rparr>\<rparr> (Server_Complete zero_server) (dial_protocol ''tcp'') 0
     (FromPtr (ct_TCPMux (cl_Transport (ClientCommon_Complete [] zero_client)))) (map snd (sort_key fst (dial_hooks 1000 demo_kt (cl_Transport (ClientCommon_Complete [] zero_client))))) = Understood True"
proof -
  have p: "''tcp'' = ct_Protocol (cl_Transport (ClientCommon_Complete [] zero_client))" by code_simp
  have f: "tls_enabled (cl_Transport (ClientCommon_Complete [] zero_client))" "FromPtr (ct_TCPMux (cl_Transport (ClientCommon_Complete [] zero_client)))"
      "FromPtr (st_TCPMux (sf_Transport (Server_Complete zero_server)))" "sf_VhostHTTPSPort (Server_Complete zero_server) = 0"
      "certs_fit demo_certs (ClientCommon_Complete [] zero_client) (Server_Complete zero_server)"
    by code_simp+
  show ?thesis using connection_understood [OF demo_hooks demo_NewService(1) demo_client_tls p, of 0 demo_certs True] f by (simp add: FRPTLSHeadByte_def)
qed

text \<open>A client that expects another name than the certificate of the server has is refused, and so is one without a certificate by a server that wants one.\<close>

lemma wrong_name_refused:
  assumes "kt_RootCAs kt = Some pool" and "\<not> kt_InsecureSkipVerify kt" and "kv_Certificate kv = Some c" and "\<not> cf_server cf pool c (kt_ServerName kt)"
  shows "HandleListener cf kv cfg m muxed [Hello kt] = Refused"
  using assms by (simp add: HandleListener_def CheckAndEnableTLSServerConnWithTimeout_def FRPTLSHeadByte_def tls_handshake_ok_def server_verified_def)

lemma no_certificate_refused:
  assumes "kv_ClientCAs kv = Some pool" and "kt_Certificate kt = None"
  shows "HandleListener cf kv cfg m muxed [Hello kt] = Refused"
  using assms by (simp add: HandleListener_def CheckAndEnableTLSServerConnWithTimeout_def FRPTLSHeadByte_def tls_handshake_ok_def client_verified_def)

text \<open>A client with default settings, to a server whose port for the virtual hosts of HTTPS is its bind port.\<close>

theorem default_client_to_vhost:
  "receive_conn demo_certs \<lparr>ls_at = [ListenBind], ls_httpMux = False, ls_httpsMux = True, ls_tls = \<lparr>kv_Certificate = None, kv_ClientCAs = None\<rparr>\<rparr> shared_https (dial_protocol ''tcp'') 0 True
     (map snd (sort_key fst (dial_hooks 1000 demo_kt (cl_Transport (ClientCommon_Complete [] zero_client))))) = ToVhost"
  by code_simp

end
