(* ===== verification/Conn_Layers.thy ===== *)
theory Conn_Layers
  imports User_Conn Rate_Limit Client_Visitors
begin

text \<open>
  What lies between the bytes of a user and those on a connection between client and server: limiter, encryption and compression, as
  \<^verbatim>\<open>client/proxy/proxy.go\<close>, \<^verbatim>\<open>server/proxy/proxy.go\<close>, \<^verbatim>\<open>server/proxy/http.go\<close>, \<^verbatim>\<open>client/visitor/visitor.go\<close> and \<^verbatim>\<open>server/visitor/visitor.go\<close>
  put them, and what a client does with a work connection. Encryption and compression are third-party packages: a \<open>byte_codec\<close> has
  what becomes of a whole stream of bytes.
\<close>

section \<open>Streams\<close>

text \<open>\<open>Bare\<close> is the connection itself. \<open>Wrapped\<close> reads and writes through a limiter and has a function to close it, which either closes a
  stream that is known when it is made or what a variable of the enclosing function holds when it is called.\<close>

datatype stream =
    Bare
  | Encrypted string stream
  | Compressed stream
  | Wrapped nat stream "stream option"

definition with_encryption :: "bool \<Rightarrow> string \<Rightarrow> bool \<Rightarrow> stream \<Rightarrow> stream option" where
  "with_encryption use key enc_ok s = (if use then (if enc_ok then Some (Encrypted key s) else None) else Some s)"

definition with_compression :: "bool \<Rightarrow> stream \<Rightarrow> stream" where
  "with_compression use s = (if use then Compressed s else s)"

text \<open>The client puts the limiter next to the connection and closes the connection itself.\<close>

definition wrapWorkConn :: "string \<Rightarrow> bool \<Rightarrow> 'a ProxyBaseConfig_scheme \<Rightarrow> stream option" where
  "wrapWorkConn encKey enc_ok cfg =
     (let rwc = (case client_limiter cfg of None \<Rightarrow> Bare | Some b \<Rightarrow> Wrapped b Bare (Some Bare)) in
      map_option (with_compression (pt_UseCompression (pb_Transport cfg))) (with_encryption (pt_UseEncryption (pb_Transport cfg)) encKey enc_ok rwc))"

text \<open>The server puts it outermost, and its function closes what the variable \<^verbatim>\<open>local\<close> or \<^verbatim>\<open>rwc\<close> holds, the wrapped stream by then. \<open>handleUserTCPConnection\<close>,
  \<open>GetRealConn\<close> of HTTP proxies and the loop of UDP proxies have the same code.\<close>

definition wrapLocal :: "string \<Rightarrow> bool \<Rightarrow> 'a ProxyBaseConfig_scheme \<Rightarrow> stream option" where
  "wrapLocal encKey enc_ok cfg =
     map_option (\<lambda>s. let s = with_compression (pt_UseCompression (pb_Transport cfg)) s in
         case server_limiter cfg of None \<Rightarrow> s | Some b \<Rightarrow> Wrapped b s None)
       (with_encryption (pt_UseEncryption (pb_Transport cfg)) encKey enc_ok Bare)"

definition wrapVisitor :: "bool \<Rightarrow> 'a VisitorBaseConfig_scheme \<Rightarrow> stream option" where
  "wrapVisitor enc_ok cfg =
     map_option (with_compression (vt_UseCompression (vb_Transport cfg))) (with_encryption (vt_UseEncryption (vb_Transport cfg)) (vb_SecretKey cfg) enc_ok Bare)"

text \<open>\<open>NewConn\<close> of the visitor manager, with the flags of the visitor's message and the secret key of the proxy.\<close>

definition wrapVisitorOnServer :: "string \<Rightarrow> bool \<Rightarrow> bool \<Rightarrow> bool \<Rightarrow> stream option" where
  "wrapVisitorOnServer sk enc_ok useEncryption useCompression = map_option (with_compression useCompression) (with_encryption useEncryption sk enc_ok Bare)"

section \<open>Bytes\<close>

record 'b byte_codec =
  co_encrypt :: "string \<Rightarrow> 'b list \<Rightarrow> 'b list"
  co_decrypt :: "string \<Rightarrow> 'b list \<Rightarrow> 'b list"
  co_compress :: "'b list \<Rightarrow> 'b list"
  co_decompress :: "'b list \<Rightarrow> 'b list"

text \<open>What the packages promise.\<close>

definition byte_codec_ok :: "'b byte_codec \<Rightarrow> bool" where
  "byte_codec_ok cd \<longleftrightarrow> (\<forall>k x. co_decrypt cd k (co_encrypt cd k x) = x) \<and> (\<forall>x. co_decompress cd (co_compress cd x) = x)"

text \<open>What is on the connection when \<open>x\<close> is written to a stream, and what is read from a stream when \<open>y\<close> is on the connection. A limiter
  changes neither (\<open>Rate_Limit\<close>).\<close>

fun on_wire :: "'b byte_codec \<Rightarrow> stream \<Rightarrow> 'b list \<Rightarrow> 'b list" where
  "on_wire cd Bare x = x"
| "on_wire cd (Encrypted k s) x = on_wire cd s (co_encrypt cd k x)"
| "on_wire cd (Compressed s) x = on_wire cd s (co_compress cd x)"
| "on_wire cd (Wrapped b s c) x = on_wire cd s x"

fun from_wire :: "'b byte_codec \<Rightarrow> stream \<Rightarrow> 'b list \<Rightarrow> 'b list" where
  "from_wire cd Bare y = y"
| "from_wire cd (Encrypted k s) y = co_decrypt cd k (from_wire cd s y)"
| "from_wire cd (Compressed s) y = co_decompress cd (from_wire cd s y)"
| "from_wire cd (Wrapped b s c) y = from_wire cd s y"

text \<open>The layers without limiters.\<close>

fun layers :: "stream \<Rightarrow> stream" where
  "layers Bare = Bare" | "layers (Encrypted k s) = Encrypted k (layers s)" | "layers (Compressed s) = Compressed (layers s)" | "layers (Wrapped b s c) = layers s"

lemma wire_layers: "on_wire cd (layers s) x = on_wire cd s x" "from_wire cd (layers s) y = from_wire cd s y"
  by (induction s arbitrary: x) simp_all

lemma layers_idem [simp]: "layers (layers s) = layers s"
  by (induction s) simp_all

lemma wire_inverse: "byte_codec_ok cd \<Longrightarrow> from_wire cd s (on_wire cd s x) = x"
  by (induction s arbitrary: x) (simp_all add: byte_codec_ok_def)

lemma same_layers:
  assumes "byte_codec_ok cd" and "layers s = layers t"
  shows "from_wire cd s (on_wire cd t x) = x"
  using wire_inverse [OF assms(1), of "layers s" x] assms(2) by (simp add: wire_layers) (metis wire_layers)

fun limiters :: "stream \<Rightarrow> nat list" where
  "limiters Bare = []" | "limiters (Encrypted k s) = limiters s" | "limiters (Compressed s) = limiters s" | "limiters (Wrapped b s c) = b # limiters s"

section \<open>Closing\<close>

text \<open>\<open>calls_close thru v s t\<close>: \<open>Close\<close> of \<open>s\<close> calls \<open>Close\<close> of \<open>t\<close>, when the variable holds \<open>v\<close>. Whether an encrypted or compressed stream passes
  \<open>Close\<close> on is a property of the third-party packages.\<close>

inductive calls_close :: "bool \<Rightarrow> stream \<Rightarrow> stream \<Rightarrow> stream \<Rightarrow> bool" for thru v where
  encrypted: "thru \<Longrightarrow> calls_close thru v (Encrypted k s) s"
| compressed: "thru \<Longrightarrow> calls_close thru v (Compressed s) s"
| known: "calls_close thru v (Wrapped b s (Some t)) t"
| held: "calls_close thru v (Wrapped b s None) v"

inductive_cases calls_closeE: "calls_close thru v s t"

definition close_reaches :: "bool \<Rightarrow> stream \<Rightarrow> bool" where
  "close_reaches thru s \<longleftrightarrow> (calls_close thru s)\<^sup>*\<^sup>* s Bare"

lemma closes_step: "calls_close p v s t \<Longrightarrow> (calls_close p v)\<^sup>*\<^sup>* t Bare \<Longrightarrow> (calls_close p v)\<^sup>*\<^sup>* s Bare"
  by (rule converse_rtranclp_into_rtranclp)

text \<open>On the client closing the stream closes the connection.\<close>

lemma client_close: "wrapWorkConn key e cfg = Some s \<Longrightarrow> close_reaches True s"
  by (auto simp: wrapWorkConn_def with_encryption_def with_compression_def close_reaches_def Let_def split: if_splits option.splits
      intro!: closes_step [OF calls_close.encrypted] closes_step [OF calls_close.compressed] closes_step [OF calls_close.known])

text \<open>On the server it does so exactly without a limiter there. With one the function that should close the wrapped stream calls itself, whatever
  the packages do.\<close>

lemma server_close_never: "wrapLocal key e cfg = Some s \<Longrightarrow> server_limiter cfg = Some b \<Longrightarrow> \<not> close_reaches p s"
proof -
  assume "wrapLocal key e cfg = Some s" "server_limiter cfg = Some b"
  then obtain s0 where s: "s = Wrapped b s0 None" by (auto simp: wrapLocal_def Let_def)
  have "t = s" if "(calls_close p s)\<^sup>*\<^sup>* s t" for t
    using that by (induction rule: rtranclp_induct) (auto simp: s elim: calls_closeE)
  with s show ?thesis by (auto simp: close_reaches_def)
qed

theorem server_close_iff:
  assumes "wrapLocal key e cfg = Some s"
  shows "close_reaches True s \<longleftrightarrow> server_limiter cfg = None"
proof (cases "server_limiter cfg")
  case None
  then have "close_reaches True s"
    using assms by (auto simp: wrapLocal_def with_encryption_def with_compression_def close_reaches_def Let_def split: if_splits
        intro!: closes_step [OF calls_close.encrypted] closes_step [OF calls_close.compressed])
  with None show ?thesis by simp
qed (use server_close_never [OF assms] in simp)

section \<open>Transparency\<close>

text \<open>The settings of a proxy that decide about layers survive the way to the server.\<close>

lemma server_view_transport:
  "pt_UseEncryption (pb_Transport (GetBaseConfig (server_view c))) = pt_UseEncryption (pb_Transport (GetBaseConfig c))"
  "pt_UseCompression (pb_Transport (GetBaseConfig (server_view c))) = pt_UseCompression (pb_Transport (GetBaseConfig c))"
  "pt_BandwidthLimit (pb_Transport (GetBaseConfig (server_view c))) = pt_BandwidthLimit (pb_Transport (GetBaseConfig c))"
  "pt_BandwidthLimitMode (pb_Transport (GetBaseConfig (server_view c))) = pt_BandwidthLimitMode (pb_Transport (GetBaseConfig c))"
  by (cases c; simp add: GetBaseConfig_def base_view_def ProxyBaseConfig.defs)+

lemma client_layers: "wrapWorkConn key e cfg = Some s \<Longrightarrow>
    layers s = with_compression (pt_UseCompression (pb_Transport cfg)) (if pt_UseEncryption (pb_Transport cfg) then Encrypted key Bare else Bare)
    \<and> limiters s = (case client_limiter cfg of None \<Rightarrow> [] | Some b \<Rightarrow> [b])"
  by (auto simp: wrapWorkConn_def with_encryption_def with_compression_def Let_def split: if_splits option.splits)

lemma server_layers: "wrapLocal key e cfg = Some s \<Longrightarrow>
    layers s = with_compression (pt_UseCompression (pb_Transport cfg)) (if pt_UseEncryption (pb_Transport cfg) then Encrypted key Bare else Bare)
    \<and> limiters s = (case server_limiter cfg of None \<Rightarrow> [] | Some b \<Rightarrow> [b])"
  by (auto simp: wrapLocal_def with_encryption_def with_compression_def Let_def split: if_splits option.splits)

lemma server_gets_view:
  assumes "conf_ok scale c0" and "NewProxyConfigurerFromMsg scale qualified (MarshalToMsg (Complete c0) zero_msg) sv = ok sc"
  shows "sc = server_view (Complete c0)"
proof -
  let ?c = "Complete c0" and ?m = "MarshalToMsg (Complete c0) zero_msg"
  obtain q where q: "pt_BandwidthLimit (pb_Transport (GetBaseConfig ?c)) = fst (NewBandwidthQuantity scale q)"
    using assms(1) by (auto simp: conf_ok_def)
  have t: "pb_Type (GetBaseConfig ?c) = conf_type ?c" using assms(1) by (simp add: conf_ok_def)
  obtain z where z: "NewProxyConfigurerByType (np_ProxyType ?m) = Some z" "Complete (UnmarshalFromMsg scale ?m z) = server_view ?c"
    using unmarshal_marshal [OF t _ q] by auto
  have "np_ProxyType ?m \<noteq> []" using z(1) by (auto simp: NewProxyConfigurerByType_def)
  then have "?m\<lparr>np_ProxyType := EmptyOr (np_ProxyType ?m) ''tcp''\<rparr> = ?m" by (simp add: EmptyOr_def)
  then show ?thesis using assms(2) z by (simp add: NewProxyConfigurerFromMsg_def Let_def split: option.splits)
qed

lemma work_conn_layers:
  assumes "conf_ok scale c0" and "NewProxyConfigurerFromMsg scale qualified (MarshalToMsg (Complete c0) zero_msg) sv = ok sc"
    and s: "wrapWorkConn key e (GetBaseConfig (Complete c0)) = Some s" and t: "wrapLocal key e' (GetBaseConfig sc) = Some t"
  shows "layers s = layers t" and "limiters s @ limiters t =
      (let tr = pb_Transport (GetBaseConfig (Complete c0)); n = bq_Bytes (pt_BandwidthLimit tr) in
       if 0 < n \<and> pt_BandwidthLimitMode tr \<in> {''client'', ''server''} then [nat n] else [])"
  using client_layers [OF s] server_layers [OF t] server_gets_view [OF assms(1,2)]
  by (auto simp: server_view_transport client_limiter_def server_limiter_def Let_def)

lemma visitor_layers:
  assumes "wrapVisitor e vcfg = Some v" and "wrapVisitorOnServer (vb_SecretKey vcfg) e' (vt_UseEncryption (vb_Transport vcfg)) (vt_UseCompression (vb_Transport vcfg)) = Some u"
  shows "layers v = layers u"
  using assms by (auto simp: wrapVisitor_def wrapVisitorOnServer_def with_encryption_def with_compression_def split: if_splits)

text \<open>C30. Traffic passes unchanged. The client and the server put layers on a work connection, the server from the configuration that it has got in a message; the visitor
  of a secret proxy and the server put layers on the visitor's connection, the server from the flags of the visitor's message and, the visitor having passed
  its check, with the same secret key. What a user writes is what the local service
  reads, and the other way round, and the limit of the proxy's bandwidth is applied exactly once.\<close>

theorem traffic_transparent:
  fixes vcfg :: VisitorBaseConfig
  assumes cd: "byte_codec_ok cd" and c0: "conf_ok scale c0" and sc: "NewProxyConfigurerFromMsg scale qualified (MarshalToMsg (Complete c0) zero_msg) sv = ok sc"
    and s: "wrapWorkConn key e1 (GetBaseConfig (Complete c0)) = Some s" and t: "wrapLocal key e2 (GetBaseConfig sc) = Some t"
    and v: "wrapVisitor e3 vcfg = Some v" and m: "m = visitor_conn_msg md5hex user runID now vcfg"
    and u: "wrapVisitorOnServer (vb_SecretKey vcfg) e4 (nvc_UseEncryption m) (nvc_UseCompression m) = Some u"
  shows "from_wire cd s (on_wire cd t x) = x \<and> from_wire cd t (on_wire cd s x) = x
    \<and> from_wire cd s (on_wire cd t (from_wire cd u (on_wire cd v x))) = x
    \<and> from_wire cd v (on_wire cd u (from_wire cd t (on_wire cd s x))) = x
    \<and> limiters s @ limiters t =
        (let tr = pb_Transport (GetBaseConfig (Complete c0)); n = bq_Bytes (pt_BandwidthLimit tr) in
         if 0 < n \<and> pt_BandwidthLimitMode tr \<in> {''client'', ''server''} then [nat n] else [])"
proof -
  have "layers v = layers u" using visitor_layers [OF v] u by (simp add: m visitor_conn_msg_def)
  then show ?thesis using work_conn_layers [OF c0 sc s t] same_layers [OF cd] by simp
qed

definition demo_layered :: ProxyConfigurer where
  "demo_layered = STCPConf (ProxyBaseConfig.extend (zero_base\<lparr>pb_Name := ''p'', pb_Type := ''stcp'',
     pb_Transport := \<lparr>pt_UseEncryption = True, pt_UseCompression = True, pt_BandwidthLimit = bq_zero, pt_BandwidthLimitMode = [], pt_ProxyProtocolVersion = []\<rparr>\<rparr>)
     (STCPProxyConfig.fields ''key'' []))"

definition demo_byte_codec :: "nat byte_codec" where
  "demo_byte_codec = \<lparr>co_encrypt = (\<lambda>k x. length k # x), co_decrypt = (\<lambda>k x. tl x), co_compress = rev, co_decompress = rev\<rparr>"

theorem traffic_transparent_witness:
  "\<exists>s t. wrapWorkConn ''token'' True (GetBaseConfig (Complete demo_layered)) = Some s \<and> wrapLocal ''token'' True (GetBaseConfig (server_view (Complete demo_layered))) = Some t
     \<and> from_wire demo_byte_codec s (on_wire demo_byte_codec t [1, 2]) = [1, 2] \<and> on_wire demo_byte_codec t [1, 2] = [5, 2, 1]"
proof -
  have cd: "byte_codec_ok demo_byte_codec" by (simp add: byte_codec_ok_def demo_byte_codec_def)
  have "bq_zero = fst (NewBandwidthQuantity (\<lambda>_ _. None) [])" by (simp add: NewBandwidthQuantity_def UnmarshalString_def trim_space_def)
  then have c0: "conf_ok (\<lambda>_ _. None) demo_layered"
    by (simp add: conf_ok_def demo_layered_def GetBaseConfig_def conf_type_def zero_base_def ProxyBaseConfig.defs STCPProxyConfig.defs)
  have sc: "NewProxyConfigurerFromMsg (\<lambda>_ _. None) (\<lambda>_. []) (MarshalToMsg (Complete demo_layered) zero_msg) demo_server_cfg = ok (server_view (Complete demo_layered))"
    by code_simp
  have s: "wrapWorkConn ''token'' True (GetBaseConfig (Complete demo_layered)) = Some (Compressed (Encrypted ''token'' Bare))" by code_simp
  have t: "wrapLocal ''token'' True (GetBaseConfig (server_view (Complete demo_layered))) = Some (Compressed (Encrypted ''token'' Bare))" by code_simp
  have v: "wrapVisitor True zero_visitor = Some Bare" by (simp add: wrapVisitor_def with_encryption_def with_compression_def zero_visitor_def)
  have u: "wrapVisitorOnServer (vb_SecretKey zero_visitor) True (nvc_UseEncryption (visitor_conn_msg (\<lambda>x. x) [] [] 0 zero_visitor))
      (nvc_UseCompression (visitor_conn_msg (\<lambda>x. x) [] [] 0 zero_visitor)) = Some Bare"
    by (simp add: wrapVisitorOnServer_def with_encryption_def with_compression_def zero_visitor_def visitor_conn_msg_def)
  show ?thesis using traffic_transparent [OF cd c0 sc s t v refl u, of "[1, 2]"] s t by (simp add: demo_byte_codec_def)
qed

text \<open>A peer-to-peer proxy has no such message: the visitor's layers come from its own configuration and those of the proxy from the proxy's. Traffic passes if the
  flags and the keys agree; with compression on one side only it does not.\<close>

lemma xtcp_transparent:
  assumes "byte_codec_ok cd" and "wrapVisitor e vcfg = Some v" and "wrapWorkConn (vb_SecretKey vcfg) e' cfg = Some s"
    and "pt_UseEncryption (pb_Transport cfg) = vt_UseEncryption (vb_Transport vcfg)" "pt_UseCompression (pb_Transport cfg) = vt_UseCompression (vb_Transport vcfg)"
  shows "from_wire cd s (on_wire cd v x) = x" and "from_wire cd v (on_wire cd s x) = x"
proof -
  have "layers s = layers v" using client_layers [OF assms(3)] assms(2,4,5) by (auto simp: wrapVisitor_def with_encryption_def with_compression_def split: if_splits)
  then show "from_wire cd s (on_wire cd v x) = x" "from_wire cd v (on_wire cd s x) = x" using same_layers [OF assms(1)] by simp_all
qed

lemma xtcp_flags_differ:
  assumes "wrapVisitor e vcfg = Some v" and "wrapWorkConn key e' cfg = Some s" and "\<not> vt_UseEncryption (vb_Transport vcfg)" "vt_UseCompression (vb_Transport vcfg)"
    and "\<not> pt_UseEncryption (pb_Transport cfg)" "\<not> pt_UseCompression (pb_Transport cfg)"
  shows "from_wire cd s (on_wire cd v x) = co_compress cd x"
proof -
  have "layers v = Compressed Bare" using assms(1,3,4) by (auto simp: wrapVisitor_def with_encryption_def with_compression_def)
  moreover have "layers s = Bare" using client_layers [OF assms(2)] assms(5,6) by (simp add: with_compression_def)
  ultimately show ?thesis using wire_layers(1) [of cd v x] wire_layers(2) [of cd s] by (metis from_wire.simps(1) on_wire.simps(1,3))
qed

section \<open>Work connections of HTTP proxies\<close>

datatype 'c real_conn = NoRealConn pool_error | NilConn | RealEncryptFailed 'c | RealConn 'c stream

text \<open>\<open>GetRealConn\<close>: the connection for a request, the control, what was sent and which connections are closed. \<open>NilConn\<close> wraps a \<^verbatim>\<open>nil\<close> connection.\<close>

definition GetRealConn ::
  "(nat \<Rightarrow> 'c attempt) \<Rightarrow> bool \<Rightarrow> string \<Rightarrow> 'a ProxyBaseConfig_scheme \<Rightarrow> 'c Control \<Rightarrow> 'c real_conn \<times> 'c Control \<times> ctl_msg list \<times> 'c list" where
  "GetRealConn att encrypt_ok key cfg ctl =
     (case GetWorkConnFromPool att ctl of
        (Inl e, ctl', out, closed) \<Rightarrow> (NoRealConn e, ctl', out, closed)
      | (Inr None, ctl', out, closed) \<Rightarrow> (NilConn, ctl', out, closed)
      | (Inr (Some c), ctl', out, closed) \<Rightarrow>
          (case wrapLocal key encrypt_ok cfg of
             None \<Rightarrow> (RealEncryptFailed c, ctl', out, closed @ [c])
           | Some s \<Rightarrow> (RealConn c s, ctl', out, closed)))"

definition updateStatsAfterClosedConn :: "(int \<Rightarrow> int) \<Rightarrow> int \<Rightarrow> string \<Rightarrow> 64 word \<Rightarrow> 64 word \<Rightarrow> ServerStatistics \<Rightarrow> ServerStatistics" where
  "updateStatsAfterClosedConn day now name totalRead totalWrite m =
     sm_AddTrafficOut day now name totalRead (sm_AddTrafficIn day now name totalWrite (sm_CloseConnection name m))"

text \<open>A connection for a request that is closed, or becomes idle for too long, closes its work connection unless the proxy is limited on the server.\<close>

lemma http_conn_leaks:
  assumes "GetRealConn att encrypt_ok key cfg ctl = (RealConn c s, ctl', out, closed)"
  shows "close_reaches True s \<longleftrightarrow> server_limiter cfg = None"
proof -
  have "wrapLocal key encrypt_ok cfg = Some s" using assms by (auto simp: GetRealConn_def split: prod.splits sum.splits option.splits)
  then show ?thesis by (rule server_close_iff)
qed

section \<open>Work connections on the client\<close>

type_synonym 'a pp_header = "nat \<times> 'a option \<times> 'a option"

definition BuildProxyProtocolHeaderStruct :: "'a option \<Rightarrow> 'a option \<Rightarrow> string \<Rightarrow> 'a pp_header" where
  "BuildProxyProtocolHeaderStruct srcAddr dstAddr version = (if version = ''v1'' then 1 else 2, srcAddr, dstAddr)"

record 'a ConnectionInfo =
  ci_SrcAddr :: "'a option"
  ci_DstAddr :: "'a option"
  ci_ProxyProtocolHeader :: "'a pp_header option"

text \<open>\<open>resolve\<close> is the resolution of host and port; its errors are ignored.\<close>

definition connection_info :: "(string \<Rightarrow> int \<Rightarrow> 'a option) \<Rightarrow> string \<Rightarrow> start_work_conn \<Rightarrow> 'a ConnectionInfo" where
  "connection_info resolve version m =
     (let has_src = (sw_SrcAddr m \<noteq> [] \<and> sw_SrcPort m \<noteq> 0);
          dstAddr = (if sw_DstAddr m = [] then ''127.0.0.1'' else sw_DstAddr m);
          src = (if has_src then resolve (sw_SrcAddr m) (sw_SrcPort m) else None);
          dst = (if has_src then resolve dstAddr (sw_DstPort m) else None)
      in \<lparr>ci_SrcAddr = src, ci_DstAddr = dst,
          ci_ProxyProtocolHeader = (if version \<noteq> [] \<and> has_src then Some (BuildProxyProtocolHeaderStruct src dst version) else None)\<rparr>)"

datatype 'a local_outcome =
    WrapError
  | ByPlugin stream "'a ConnectionInfo"
  | LocalDialError
  | HeaderError
  | LocalJoined stream "'a pp_header option"

text \<open>What becomes of a work connection: \<open>plugin\<close> if the proxy has one, \<open>dial\<close> and \<open>header_ok\<close> whether the local service is reached and takes the header.\<close>

definition HandleTCPWorkConnection ::
  "(string \<Rightarrow> int \<Rightarrow> 'a option) \<Rightarrow> bool \<Rightarrow> bool \<Rightarrow> bool \<Rightarrow> bool \<Rightarrow> string \<Rightarrow> 'x ProxyBaseConfig_scheme \<Rightarrow> start_work_conn \<Rightarrow> 'a local_outcome" where
  "HandleTCPWorkConnection resolve plugin enc_ok dial header_ok encKey cfg m =
     (case wrapWorkConn encKey enc_ok cfg of
        None \<Rightarrow> WrapError
      | Some remote \<Rightarrow>
          (let info = connection_info resolve (pt_ProxyProtocolVersion (pb_Transport cfg)) m in
           if plugin then ByPlugin remote info
           else if \<not> dial then LocalDialError
           else if ci_ProxyProtocolHeader info \<noteq> None \<and> \<not> header_ok then HeaderError
           else LocalJoined remote (ci_ProxyProtocolHeader info)))"

text \<open>\<open>InWorkConn\<close>: the callback, if there is one, may take the connection.\<close>

definition base_InWorkConn :: "bool option \<Rightarrow> 'a local_outcome \<Rightarrow> 'a local_outcome option" where
  "base_InWorkConn callback otherwise = (if callback = Some False then None else Some otherwise)"

text \<open>Whether the work connection is closed in the end. Joining closes the stream when one side ends; a plugin has to do it itself.\<close>

fun work_conn_closed :: "'a local_outcome \<Rightarrow> bool" where
  "work_conn_closed WrapError = True" | "work_conn_closed LocalDialError = True" | "work_conn_closed HeaderError = True"
| "work_conn_closed (LocalJoined s h) = close_reaches True s" | "work_conn_closed (ByPlugin s i) = False"

text \<open>A user's address reaches the local service. The server tells the client the address of the user; without a plugin, a client that reaches the local service writes a header of the
  configured version with this address before the user's bytes, and none without a version. In every case the work connection is closed in the end.\<close>

theorem user_address_reaches_service:
  fixes resolve :: "string \<Rightarrow> int \<Rightarrow> 'a option" and enc_ok dial header_ok :: bool and key name :: string and cfg :: ProxyBaseConfig
  assumes "host \<noteq> []" and "port \<noteq> 0" and dst: "dst = Some (dhost, dport)" "dhost \<noteq> []"
  defines "out \<equiv> HandleTCPWorkConnection resolve False enc_ok dial header_ok key cfg (start_work_conn_msg name (Some (host, port)) dst)"
    and "version \<equiv> pt_ProxyProtocolVersion (pb_Transport cfg)"
  shows "work_conn_closed out \<and> (\<forall>s h. out = LocalJoined s h \<longrightarrow>
      h = (if version = [] then None else Some (if version = ''v1'' then 1 else 2, resolve host port, resolve dhost dport)))
    \<and> (enc_ok \<and> dial \<and> header_ok \<longrightarrow> (\<exists>s h. out = LocalJoined s h))"
proof -
  have info: "ci_ProxyProtocolHeader (connection_info resolve version (start_work_conn_msg name (Some (host, port)) dst)) =
      (if version = [] then None else Some (if version = ''v1'' then 1 else 2, resolve host port, resolve dhost dport))"
    using assms(1-4) by (simp add: connection_info_def start_work_conn_msg_def BuildProxyProtocolHeaderStruct_def Let_def)
  have total: "enc_ok \<Longrightarrow> wrapWorkConn key enc_ok cfg \<noteq> None" by (simp add: wrapWorkConn_def with_encryption_def Let_def)
  show ?thesis
  proof (cases "wrapWorkConn key enc_ok cfg")
    case None
    then show ?thesis using total by (auto simp: out_def HandleTCPWorkConnection_def)
  next
    case (Some s)
    have c: "close_reaches True s" by (rule client_close [OF Some])
    show ?thesis unfolding out_def HandleTCPWorkConnection_def Some option.case Let_def version_def [symmetric] info using c by simp
  qed
qed

theorem user_address_reaches_service_witness:
  "HandleTCPWorkConnection (\<lambda>h p. Some (h, p)) False True True True ''token'' (zero_base\<lparr>pb_Transport := (pb_Transport zero_base)\<lparr>pt_ProxyProtocolVersion := ''v2''\<rparr>\<rparr>)
     (start_work_conn_msg ''p'' (Some (''9.9.9.9'', 4000)) (Some (''1.1.1.1'', 80))) = LocalJoined Bare (Some (2, Some (''9.9.9.9'', 4000), Some (''1.1.1.1'', 80)))"
proof -
  let ?cfg = "zero_base\<lparr>pb_Transport := (pb_Transport zero_base)\<lparr>pt_ProxyProtocolVersion := ''v2''\<rparr>\<rparr>"
  have w: "wrapWorkConn ''token'' True ?cfg = Some Bare" by code_simp
  define out where "out = HandleTCPWorkConnection (\<lambda>h p. Some (h, p)) False True True True ''token'' ?cfg
      (start_work_conn_msg ''p'' (Some (''9.9.9.9'', 4000)) (Some (''1.1.1.1'', 80)))"
  have v: "pt_ProxyProtocolVersion (pb_Transport ?cfg) = ''v2''" by simp
  note f = user_address_reaches_service [of "''9.9.9.9''" 4000 "Some (''1.1.1.1'', 80)" "''1.1.1.1''" 80 "\<lambda>h p. Some (h, p)" True True True "''token''" ?cfg "''p''",
      folded out_def, unfolded v]
  then obtain s h where o: "out = LocalJoined s h" by simp blast
  then have "h = Some (2, Some (''9.9.9.9'', 4000), Some (''1.1.1.1'', 80))" using f by simp
  moreover have "s = Bare" using o w unfolding out_def HandleTCPWorkConnection_def w option.case Let_def by (simp split: if_splits)
  ultimately show ?thesis using o unfolding out_def by simp
qed

end
