(* ===== verification/Udp_Proxies.thy ===== *)
theory Udp_Proxies
  imports Udp_Forward Conn_Layers
begin

text \<open>
  The work connections of UDP proxies: the visitor and the proxy of secret UDP (\<^verbatim>\<open>client/visitor/sudp.go\<close>, \<^verbatim>\<open>client/proxy/sudp.go\<close>) and the two sides of plain UDP
  (\<^verbatim>\<open>client/proxy/udp.go\<close>, \<^verbatim>\<open>server/proxy/udp.go\<close>), as the steps of their goroutines. The forwarding of packets to users and to the local service is in \<open>Udp_Forward\<close>.
  Packets have type \<open>'p\<close>.
\<close>

section \<open>Shutting down\<close>

text \<open>Steps that the goroutines take by themselves after a component is closed: each brings the end nearer, and until the end there is one.\<close>

locale shutdown =
  fixes own :: "'s \<Rightarrow> 's \<Rightarrow> bool" and closing :: "'s \<Rightarrow> bool" and rest :: "'s \<Rightarrow> nat" and finished :: "'s \<Rightarrow> bool"
  assumes keeps: "closing s \<Longrightarrow> own s t \<Longrightarrow> closing t"
    and nearer: "closing s \<Longrightarrow> own s t \<Longrightarrow> rest t < rest s"
    and progress: "closing s \<Longrightarrow> \<not> finished s \<Longrightarrow> \<exists>t. own s t"
begin

lemma run_bounded:
  assumes "closing s" and "f 0 = s" and "\<forall>i < n. own (f i) (f (Suc i))"
  shows "n \<le> rest s"
proof -
  have "closing (f i) \<and> rest (f i) + i \<le> rest s" if "i \<le> n" for i
    using that
  proof (induction i)
    case (Suc i)
    then have "closing (f i)" "rest (f i) + i \<le> rest s" "own (f i) (f (Suc i))" using assms(3) by auto
    then show ?case using keeps [of "f i"] nearer [of "f i"] by fastforce
  qed (use assms(1,2) in simp)
  from this [of n] show ?thesis by simp
qed

lemma stuck_finished: "own\<^sup>*\<^sup>* s t \<Longrightarrow> closing s \<Longrightarrow> \<nexists>u. own t u \<Longrightarrow> finished t"
proof (induction rule: converse_rtranclp_induct)
  case base
  then show ?case using progress by blast
next
  case (step y z)
  then show ?case using keeps by blast
qed

lemma finishes: "closing s \<Longrightarrow> \<exists>t. own\<^sup>*\<^sup>* s t \<and> finished t"
proof (induction "rest s" arbitrary: s rule: less_induct)
  case less
  show ?case
  proof (cases "finished s")
    case False
    then obtain t where t: "own s t" using progress [OF less.prems] by blast
    then obtain u where "own\<^sup>*\<^sup>* t u" "finished u" using less.hyps [OF nearer [OF less.prems t] keeps [OF less.prems t]] by blast
    then show ?thesis using converse_rtranclp_into_rtranclp [of own, OF t] by blast
  qed blast
qed

end

section \<open>The visitor of a secret UDP proxy\<close>

datatype 'p dispatcher = DIdle | DDial 'p | DWork | DDone

text \<open>\<open>sx_hand\<close> is the packet that the sender is about to write, at first the one for which the connection was opened. The connection of the current worker is \<open>sx_conn\<close>.
  The ghost components are all packets that came, those written with their connection, those lost, and those for the users.\<close>

record 'p sudp_visitor =
  sx_sendCh :: "'p list"
  sx_checkClosed :: bool
  sx_chClosed :: bool
  sx_disp :: "'p dispatcher"
  sx_conn :: nat
  sx_connOpen :: bool
  sx_hand :: "'p option"
  sx_reader :: bool
  sx_sender :: bool
  sx_closeCh :: bool
  sx_arrived :: "'p list"
  sx_written :: "(nat \<times> 'p) list"
  sx_lost :: "'p list"
  sx_readCh :: "'p list"

definition NewSUDPVisitor :: "'p sudp_visitor" where
  "NewSUDPVisitor = \<lparr>sx_sendCh = [], sx_checkClosed = False, sx_chClosed = False, sx_disp = DIdle, sx_conn = 0, sx_connOpen = False, sx_hand = None,
     sx_reader = False, sx_sender = False, sx_closeCh = False, sx_arrived = [], sx_written = [], sx_lost = [], sx_readCh = []\<rparr>"

text \<open>The steps of the dispatcher, of the sender and of the reader that need nothing from outside but the answer to a call.\<close>

inductive sx_own :: "'p sudp_visitor \<Rightarrow> 'p sudp_visitor \<Rightarrow> bool" where
  take_first: "sx_disp s = DIdle \<Longrightarrow> sx_sendCh s = p # ps \<Longrightarrow> sx_own s (s\<lparr>sx_sendCh := ps, sx_disp := DDial p\<rparr>)"
| idle_closed: "sx_disp s = DIdle \<Longrightarrow> sx_checkClosed s \<or> sx_chClosed s \<and> sx_sendCh s = [] \<Longrightarrow> sx_own s (s\<lparr>sx_disp := DDone\<rparr>)"
| dial_fails: "sx_disp s = DDial p \<Longrightarrow> sx_own s (s\<lparr>sx_disp := DIdle, sx_lost := sx_lost s @ [p]\<rparr>)"
| dial_ok: "sx_disp s = DDial p
    \<Longrightarrow> sx_own s (s\<lparr>sx_disp := DWork, sx_conn := Suc (sx_conn s), sx_connOpen := True, sx_hand := Some p, sx_reader := True, sx_sender := True, sx_closeCh := False\<rparr>)"
| write_ok: "sx_sender s \<Longrightarrow> sx_hand s = Some p \<Longrightarrow> sx_connOpen s \<Longrightarrow> sx_own s (s\<lparr>sx_hand := None, sx_written := sx_written s @ [(sx_conn s, p)]\<rparr>)"
| write_fails: "sx_sender s \<Longrightarrow> sx_hand s = Some p
    \<Longrightarrow> sx_own s (s\<lparr>sx_hand := None, sx_lost := sx_lost s @ [p], sx_sender := False, sx_connOpen := False\<rparr>)"
| take_next: "sx_sender s \<Longrightarrow> sx_hand s = None \<Longrightarrow> sx_sendCh s = p # ps \<Longrightarrow> sx_own s (s\<lparr>sx_sendCh := ps, sx_hand := Some p\<rparr>)"
| sender_ends: "sx_sender s \<Longrightarrow> sx_hand s = None \<Longrightarrow> sx_closeCh s \<or> sx_chClosed s \<and> sx_sendCh s = []
    \<Longrightarrow> sx_own s (s\<lparr>sx_sender := False, sx_connOpen := False\<rparr>)"
| reader_ends: "sx_reader s \<Longrightarrow> \<not> sx_connOpen s \<Longrightarrow> sx_own s (s\<lparr>sx_reader := False, sx_closeCh := True\<rparr>)"
| worker_ends: "sx_disp s = DWork \<Longrightarrow> \<not> sx_reader s \<Longrightarrow> \<not> sx_sender s \<Longrightarrow> sx_own s (s\<lparr>sx_disp := (if sx_checkClosed s then DDone else DIdle)\<rparr>)"

text \<open>All steps: packets of users come, packets from the connection come or reading fails, and the visitor is closed. A packet from the connection that finds the channel
  closed ends the reader.\<close>

inductive sx_step :: "'p sudp_visitor \<Rightarrow> 'p sudp_visitor \<Rightarrow> bool" where
  own: "sx_own s s' \<Longrightarrow> sx_step s s'"
| arrives: "\<not> sx_chClosed s \<Longrightarrow> length (sx_sendCh s) < 1024 \<Longrightarrow> sx_step s (s\<lparr>sx_sendCh := sx_sendCh s @ [p], sx_arrived := sx_arrived s @ [p]\<rparr>)"
| reads: "sx_reader s \<Longrightarrow> sx_connOpen s \<Longrightarrow> \<not> sx_chClosed s \<Longrightarrow> sx_step s (s\<lparr>sx_readCh := sx_readCh s @ [p]\<rparr>)"
| read_fails: "sx_reader s \<Longrightarrow> sx_step s (s\<lparr>sx_reader := False, sx_closeCh := True, sx_connOpen := False\<rparr>)"
| Close_check: "sx_step s (s\<lparr>sx_checkClosed := True\<rparr>)"
| Close_ch: "sx_checkClosed s \<Longrightarrow> sx_step s (s\<lparr>sx_chClosed := True\<rparr>)"

inductive sx_reach :: "'p sudp_visitor \<Rightarrow> bool" where
  new: "sx_reach NewSUDPVisitor"
| step: "sx_reach s \<Longrightarrow> sx_step s s' \<Longrightarrow> sx_reach s'"

text \<open>The packets that were taken and are neither written nor lost.\<close>

definition sx_pending :: "'p sudp_visitor \<Rightarrow> 'p list" where
  "sx_pending s = (case sx_disp s of DDial p \<Rightarrow> [p] | _ \<Rightarrow> []) @ (case sx_hand s of None \<Rightarrow> [] | Some p \<Rightarrow> [p])"

definition sx_inv :: "'p sudp_visitor \<Rightarrow> bool" where
  "sx_inv s \<longleftrightarrow> (sx_disp s \<noteq> DWork \<longrightarrow> \<not> sx_reader s \<and> \<not> sx_sender s \<and> sx_hand s = None)
     \<and> (sx_connOpen s \<longrightarrow> sx_reader s \<and> sx_sender s) \<and> (sx_hand s \<noteq> None \<longrightarrow> sx_sender s)
     \<and> (sx_disp s = DWork \<and> \<not> sx_reader s \<longrightarrow> sx_closeCh s)
     \<and> (sx_chClosed s \<longrightarrow> sx_checkClosed s)
     \<and> subseq (map snd (sx_written s) @ sx_pending s @ sx_sendCh s) (sx_arrived s)
     \<and> mset (sx_arrived s) = mset (map snd (sx_written s)) + mset (sx_lost s) + mset (sx_pending s) + mset (sx_sendCh s)
     \<and> sorted (map fst (sx_written s)) \<and> (\<forall>x \<in> set (sx_written s). fst x \<le> sx_conn s)"

lemma subseq_drop_mid: "subseq (xs @ p # ys) zs \<Longrightarrow> subseq (xs @ ys) zs"
  by (rule subseq_order.trans [of _ "xs @ p # ys"]) (auto intro: list_emb_append_mono)

lemma sx_own_inv: "sx_own s s' \<Longrightarrow> sx_inv s \<Longrightarrow> sx_inv s'"
proof (induction rule: sx_own.induct)
  case (dial_fails s p)
  then show ?case using subseq_drop_mid [of "map snd (sx_written s)" p "sx_sendCh s"] by (auto simp: sx_inv_def sx_pending_def)
next
  case (write_ok s p)
  then show ?case by (cases "sx_disp s") (auto simp: sx_inv_def sx_pending_def sorted_append)
next
  case (write_fails s p)
  then show ?case using subseq_drop_mid [of "map snd (sx_written s)" p "sx_sendCh s"] by (cases "sx_disp s") (auto simp: sx_inv_def sx_pending_def)
next
  case (take_next s p ps)
  then show ?case by (cases "sx_disp s") (auto simp: sx_inv_def sx_pending_def)
qed (auto simp: sx_inv_def sx_pending_def split: option.splits)

lemma sx_reach_inv: "sx_reach s \<Longrightarrow> sx_inv s"
proof (induction rule: sx_reach.induct)
  case new
  show ?case by (simp add: sx_inv_def NewSUDPVisitor_def sx_pending_def)
next
  case (step s s')
  from step(2,3) show ?case
  proof (induction rule: sx_step.induct)
    case (own s s')
    then show ?case by (rule sx_own_inv)
  next
    case (arrives s p)
    then have "subseq ((map snd (sx_written s) @ sx_pending s @ sx_sendCh s) @ [p]) (sx_arrived s @ [p])" by (intro list_emb_append_mono) (auto simp: sx_inv_def)
    with arrives show ?case by (auto simp: sx_inv_def sx_pending_def split: dispatcher.splits)
  qed (auto simp: sx_inv_def sx_pending_def)
qed

definition sx_closing :: "'p sudp_visitor \<Rightarrow> bool" where
  "sx_closing s \<longleftrightarrow> sx_inv s \<and> sx_checkClosed s \<and> sx_chClosed s"

definition sx_finished :: "'p sudp_visitor \<Rightarrow> bool" where
  "sx_finished s \<longleftrightarrow> sx_disp s = DDone \<and> \<not> sx_reader s \<and> \<not> sx_sender s \<and> \<not> sx_connOpen s"

definition sx_rest :: "'p sudp_visitor \<Rightarrow> nat" where
  "sx_rest s = 10 * length (sx_sendCh s) + (case sx_disp s of DIdle \<Rightarrow> 1 | DDial p \<Rightarrow> 9 | DWork \<Rightarrow> 2 | DDone \<Rightarrow> 0)
     + (if sx_sender s then 2 else 0) + (if sx_reader s then 2 else 0) + (case sx_hand s of None \<Rightarrow> 0 | Some p \<Rightarrow> 1)"

lemma sx_progress:
  assumes "sx_closing s" and "\<not> sx_finished s"
  shows "\<exists>t. sx_own s t"
proof (cases "sx_disp s")
  case DIdle
  then show ?thesis using assms(1) by (auto simp: sx_closing_def intro: sx_own.idle_closed)
next
  case (DDial p)
  then show ?thesis by (auto intro: sx_own.dial_fails)
next
  case DWork
  show ?thesis
  proof (cases "sx_sender s")
    case True
    then show ?thesis using assms(1)
      by (cases "sx_hand s"; cases "sx_sendCh s") (auto simp: sx_closing_def intro: sx_own.write_fails sx_own.take_next sx_own.sender_ends)
  next
    case False
    then show ?thesis using assms(1) DWork by (cases "sx_reader s") (auto simp: sx_closing_def sx_inv_def intro: sx_own.reader_ends sx_own.worker_ends)
  qed
next
  case DDone
  then show ?thesis using assms by (auto simp: sx_closing_def sx_finished_def sx_inv_def)
qed

interpretation sudp_visitor: shutdown sx_own sx_closing sx_rest sx_finished
proof
  fix s t :: "'a sudp_visitor"
  assume c: "sx_closing s" and o: "sx_own s t"
  have "sx_checkClosed t = sx_checkClosed s \<and> sx_chClosed t = sx_chClosed s" using o by (induction rule: sx_own.induct) auto
  then show "sx_closing t" using c sx_own_inv [OF o] by (simp add: sx_closing_def)
  show "sx_rest t < sx_rest s" using o c by (induction rule: sx_own.induct) (auto simp: sx_rest_def sx_closing_def sx_inv_def split: dispatcher.splits option.splits)
qed (rule sx_progress)

section \<open>The visitor: packets and shutdown\<close>

text \<open>C40. The packets of users on the way to the server. Every packet that came to the visitor waits in the channel, is about to be written, was written to a connection or was lost because no connection could be had or
  the write failed; each in at most one place. Packets are written in the order of arrival, on one connection after the other. Once the visitor is closed, its goroutines
  take at most so many more steps, and can only stop when all have ended and the connection is closed.\<close>

theorem sudp_visitor_packets:
  assumes "sx_reach s"
  shows "subseq (map snd (sx_written s) @ sx_pending s @ sx_sendCh s) (sx_arrived s) \<and> sorted (map fst (sx_written s))
    \<and> mset (sx_arrived s) = mset (map snd (sx_written s)) + mset (sx_lost s) + mset (sx_pending s) + mset (sx_sendCh s)
    \<and> (sx_checkClosed s \<and> sx_chClosed s \<longrightarrow>
         (\<exists>t. sx_own\<^sup>*\<^sup>* s t \<and> sx_finished t) \<and> (\<forall>t. sx_own\<^sup>*\<^sup>* s t \<and> (\<nexists>u. sx_own t u) \<longrightarrow> sx_finished t)
         \<and> (\<forall>f n. f 0 = s \<and> (\<forall>i < n. sx_own (f i) (f (Suc i))) \<longrightarrow> n \<le> sx_rest s))"
proof -
  have "sx_inv s" by (rule sx_reach_inv [OF assms])
  moreover from this have "sx_closing s" if "sx_checkClosed s \<and> sx_chClosed s" using that by (simp add: sx_closing_def)
  ultimately show ?thesis using sudp_visitor.finishes sudp_visitor.stuck_finished sudp_visitor.run_bounded unfolding sx_inv_def by blast
qed

definition demo_closing :: "nat sudp_visitor" where
  "demo_closing = NewSUDPVisitor\<lparr>sx_sendCh := [7], sx_arrived := [7], sx_checkClosed := True, sx_chClosed := True\<rparr>"

theorem sudp_visitor_packets_witness: "\<exists>t. sx_own\<^sup>*\<^sup>* demo_closing t \<and> sx_finished t"
proof -
  have "sx_reach (NewSUDPVisitor\<lparr>sx_sendCh := [7 :: nat], sx_arrived := [7]\<rparr>)"
    using sx_reach.step [OF sx_reach.new sx_step.arrives [of NewSUDPVisitor "7 :: nat"]] by (simp add: NewSUDPVisitor_def)
  then have "sx_reach (NewSUDPVisitor\<lparr>sx_sendCh := [7 :: nat], sx_arrived := [7], sx_checkClosed := True\<rparr>)"
    using sx_reach.step [OF _ sx_step.Close_check] by fastforce
  then have "sx_reach demo_closing" using sx_reach.step [OF _ sx_step.Close_ch] unfolding demo_closing_def by fastforce
  from sudp_visitor_packets [OF this] show ?thesis by (simp add: demo_closing_def)
qed

section \<open>The proxy of secret UDP on the client\<close>

text \<open>One work connection has four goroutines. \<open>closeFn\<close> closes the connection and both channels.\<close>

datatype 'p work_msg = WPing | WPacket 'p

datatype 'p sk_reader = RTop | RReading | RHave 'p | RDone

datatype 'p sk_sender = SIdle | SHave "'p work_msg" | SDone

datatype sk_heart = HWait | HHave | HDone

record 'p sudp_worker =
  sk_proxyClosed :: bool
  sk_isClose :: bool
  sk_readers :: "'p sk_reader"
  sk_senders :: "'p sk_sender"
  sk_hearts :: sk_heart
  sk_forwarding :: bool
  sk_readCh :: "'p list"
  sk_sendCh :: "'p work_msg list"
  sk_forwarded :: "'p list"
  sk_sent :: "'p work_msg list"

definition NewSUDPWorker :: "bool \<Rightarrow> 'p sudp_worker" where
  "NewSUDPWorker closed = \<lparr>sk_proxyClosed = closed, sk_isClose = False, sk_readers = RTop, sk_senders = SIdle, sk_hearts = HWait, sk_forwarding = True,
     sk_readCh = [], sk_sendCh = [], sk_forwarded = [], sk_sent = []\<rparr>"

definition sk_closeFn :: "'p sudp_worker \<Rightarrow> 'p sudp_worker" where
  "sk_closeFn s = s\<lparr>sk_isClose := True\<rparr>"

inductive sk_own :: "'p sudp_worker \<Rightarrow> 'p sudp_worker \<Rightarrow> bool" where
  top_closed: "sk_readers s = RTop \<Longrightarrow> sk_proxyClosed s \<Longrightarrow> sk_own s (sk_closeFn (s\<lparr>sk_readers := RDone\<rparr>))"
| top_open: "sk_readers s = RTop \<Longrightarrow> \<not> sk_proxyClosed s \<Longrightarrow> sk_own s (s\<lparr>sk_readers := RReading\<rparr>)"
| read_closed: "sk_readers s = RReading \<Longrightarrow> sk_isClose s \<Longrightarrow> sk_own s (sk_closeFn (s\<lparr>sk_readers := RDone\<rparr>))"
| put_closed: "sk_readers s = RHave p \<Longrightarrow> sk_isClose s \<Longrightarrow> sk_own s (sk_closeFn (s\<lparr>sk_readers := RDone\<rparr>))"
| put_packet: "sk_readers s = RHave p \<Longrightarrow> \<not> sk_isClose s \<Longrightarrow> length (sk_readCh s) < 1024 \<Longrightarrow> sk_own s (s\<lparr>sk_readers := RTop, sk_readCh := sk_readCh s @ [p]\<rparr>)"
| send_take: "sk_senders s = SIdle \<Longrightarrow> sk_sendCh s = m # ms \<Longrightarrow> sk_own s (s\<lparr>sk_senders := SHave m, sk_sendCh := ms\<rparr>)"
| send_ok: "sk_senders s = SHave m \<Longrightarrow> \<not> sk_isClose s \<Longrightarrow> sk_own s (s\<lparr>sk_senders := SIdle, sk_sent := sk_sent s @ [m]\<rparr>)"
| send_fails: "sk_senders s = SHave m \<Longrightarrow> sk_own s (sk_closeFn (s\<lparr>sk_senders := SDone\<rparr>))"
| send_ends: "sk_senders s = SIdle \<Longrightarrow> sk_sendCh s = [] \<Longrightarrow> sk_isClose s \<Longrightarrow> sk_own s (sk_closeFn (s\<lparr>sk_senders := SDone\<rparr>))"
| heart_closed: "sk_hearts s = HWait \<Longrightarrow> sk_proxyClosed s \<Longrightarrow> sk_own s (sk_closeFn (s\<lparr>sk_hearts := HDone\<rparr>))"
| heart_fails: "sk_hearts s = HHave \<Longrightarrow> sk_isClose s \<Longrightarrow> sk_own s (sk_closeFn (s\<lparr>sk_hearts := HDone\<rparr>))"
| heart_put: "sk_hearts s = HHave \<Longrightarrow> \<not> sk_isClose s \<Longrightarrow> length (sk_sendCh s) < 1024 \<Longrightarrow> sk_own s (s\<lparr>sk_hearts := HWait, sk_sendCh := sk_sendCh s @ [WPing]\<rparr>)"
| forwards: "sk_forwarding s \<Longrightarrow> sk_readCh s = p # ps \<Longrightarrow> sk_own s (s\<lparr>sk_readCh := ps, sk_forwarded := sk_forwarded s @ [p]\<rparr>)"
| forward_ends: "sk_forwarding s \<Longrightarrow> sk_readCh s = [] \<Longrightarrow> sk_isClose s \<Longrightarrow> sk_own s (s\<lparr>sk_forwarding := False\<rparr>)"

inductive sk_step :: "'p sudp_worker \<Rightarrow> 'p sudp_worker \<Rightarrow> bool" where
  own: "sk_own s s' \<Longrightarrow> sk_step s s'"
| ticks: "sk_hearts s = HWait \<Longrightarrow> sk_step s (s\<lparr>sk_hearts := HHave\<rparr>)"
| reads: "sk_readers s = RReading \<Longrightarrow> \<not> sk_isClose s \<Longrightarrow> sk_step s (s\<lparr>sk_readers := RHave p\<rparr>)"
| read_fails: "sk_readers s = RReading \<Longrightarrow> sk_step s (sk_closeFn (s\<lparr>sk_readers := RDone\<rparr>))"
| answers: "\<not> sk_isClose s \<Longrightarrow> length (sk_sendCh s) < 1024 \<Longrightarrow> sk_step s (s\<lparr>sk_sendCh := sk_sendCh s @ [WPacket p]\<rparr>)"
| proxy_Close: "sk_step s (s\<lparr>sk_proxyClosed := True\<rparr>)"

inductive sk_reach :: "'p sudp_worker \<Rightarrow> bool" where
  new: "sk_reach (NewSUDPWorker closed)"
| step: "sk_reach s \<Longrightarrow> sk_step s s' \<Longrightarrow> sk_reach s'"

definition sk_inv :: "'p sudp_worker \<Rightarrow> bool" where
  "sk_inv s \<longleftrightarrow> (sk_readers s = RDone \<or> sk_senders s = SDone \<or> sk_hearts s = HDone \<or> \<not> sk_forwarding s \<longrightarrow> sk_isClose s) \<and> length (sk_readCh s) \<le> 1024 \<and> length (sk_sendCh s) \<le> 1024"

lemma sk_own_inv: "sk_own s s' \<Longrightarrow> sk_inv s \<Longrightarrow> sk_inv s'"
  by (induction rule: sk_own.induct) (auto simp: sk_inv_def sk_closeFn_def)

lemma sk_reach_inv: "sk_reach s \<Longrightarrow> sk_inv s"
proof (induction rule: sk_reach.induct)
  case (step s s')
  from step(2,3) show ?case by (induction rule: sk_step.induct) (auto simp: sk_inv_def sk_closeFn_def dest: sk_own_inv [unfolded sk_inv_def])
qed (simp add: sk_inv_def NewSUDPWorker_def)

definition sk_closing :: "'p sudp_worker \<Rightarrow> bool" where
  "sk_closing s \<longleftrightarrow> sk_inv s \<and> sk_proxyClosed s"

definition sk_finished :: "'p sudp_worker \<Rightarrow> bool" where
  "sk_finished s \<longleftrightarrow> sk_readers s = RDone \<and> sk_senders s = SDone \<and> sk_hearts s = HDone \<and> \<not> sk_forwarding s \<and> sk_isClose s"

definition sk_rest :: "'p sudp_worker \<Rightarrow> nat" where
  "sk_rest s = 2 * length (sk_sendCh s) + length (sk_readCh s) + (case sk_readers s of RTop \<Rightarrow> 3 | RReading \<Rightarrow> 1 | RHave p \<Rightarrow> 6 | RDone \<Rightarrow> 0)
     + (case sk_senders s of SIdle \<Rightarrow> 1 | SHave m \<Rightarrow> 2 | SDone \<Rightarrow> 0) + (case sk_hearts s of HWait \<Rightarrow> 2 | HHave \<Rightarrow> 5 | HDone \<Rightarrow> 0) + (if sk_forwarding s then 1 else 0)"

lemma sk_progress:
  assumes c: "sk_closing s" and "\<not> sk_finished s"
  shows "\<exists>t. sk_own s t"
proof (cases "sk_isClose s")
  case True
  then consider "sk_readers s \<noteq> RDone" | "sk_senders s \<noteq> SDone" | "sk_hearts s \<noteq> HDone" | "sk_forwarding s" using assms(2) by (auto simp: sk_finished_def)
  then show ?thesis
  proof cases
    case 1
    then show ?thesis using True c by (cases "sk_readers s") (auto simp: sk_closing_def intro: sk_own.top_closed sk_own.read_closed sk_own.put_closed)
  next
    case 2
    then show ?thesis using True by (cases "sk_senders s"; cases "sk_sendCh s") (auto intro: sk_own.send_take sk_own.send_fails sk_own.send_ends)
  next
    case 3
    then show ?thesis using True c by (cases "sk_hearts s") (auto simp: sk_closing_def intro: sk_own.heart_closed sk_own.heart_fails)
  next
    case 4
    then show ?thesis using True by (cases "sk_readCh s") (auto intro: sk_own.forwards sk_own.forward_ends)
  qed
next
  case False
  show ?thesis
  proof (cases "sk_hearts s")
    case HWait
    then show ?thesis using c by (auto simp: sk_closing_def intro: sk_own.heart_closed)
  next
    case HHave
    show ?thesis
    proof (cases "sk_sendCh s")
      case Nil
      then show ?thesis using sk_own.heart_put [of s] HHave False by auto
    next
      case (Cons m ms)
      then show ?thesis using False c by (cases "sk_senders s") (auto simp: sk_closing_def sk_inv_def intro: sk_own.send_take sk_own.send_fails)
    qed
  next
    case HDone
    then show ?thesis using False c by (simp add: sk_closing_def sk_inv_def)
  qed
qed

interpretation sudp_worker: shutdown sk_own sk_closing sk_rest sk_finished
proof
  fix s t :: "'a sudp_worker"
  assume c: "sk_closing s" and o: "sk_own s t"
  have "sk_proxyClosed t = sk_proxyClosed s" using o by (induction rule: sk_own.induct) (auto simp: sk_closeFn_def)
  then show "sk_closing t" using c sk_own_inv [OF o] by (simp add: sk_closing_def)
  show "sk_rest t < sk_rest s" using o c by (induction rule: sk_own.induct) (auto simp: sk_rest_def sk_closing_def sk_closeFn_def)
qed (rule sk_progress)

text \<open>Once a proxy is closed, the goroutines of each of its work connections end and the connection is closed, also if the connection came after that.\<close>

lemma sudp_worker_ends:
  assumes "sk_reach s" and "sk_proxyClosed s"
  shows "(\<exists>t. sk_own\<^sup>*\<^sup>* s t \<and> sk_finished t) \<and> (\<forall>t. sk_own\<^sup>*\<^sup>* s t \<and> (\<nexists>u. sk_own t u) \<longrightarrow> sk_finished t)
    \<and> (\<forall>f n. f 0 = s \<and> (\<forall>i < n. sk_own (f i) (f (Suc i))) \<longrightarrow> n \<le> sk_rest s)"
proof -
  have "sk_closing s" using assms sk_reach_inv by (simp add: sk_closing_def)
  then show ?thesis using sudp_worker.finishes sudp_worker.stuck_finished sudp_worker.run_bounded by blast
qed

section \<open>A UDP proxy on the client\<close>

text \<open>The proxy has one work connection with its channels at a time, a generation. A new work connection first closes the old generation and then, when its layers are in place, becomes
  the current one; both are critical sections, and calls may overlap. \<open>uc_calls\<close> counts the calls between the two.\<close>

record udp_client =
  uc_closed :: bool
  uc_current :: "nat option"
  uc_open :: "nat set"
  uc_calls :: nat
  uc_next :: nat

definition NewUDPClient :: udp_client where
  "NewUDPClient = \<lparr>uc_closed = False, uc_current = None, uc_open = {}, uc_calls = 0, uc_next = 0\<rparr>"

definition udp_client_Close :: "udp_client \<Rightarrow> udp_client" where
  "udp_client_Close s = (if uc_closed s then s else s\<lparr>uc_closed := True, uc_open := uc_open s - set_option (uc_current s)\<rparr>)"

definition udp_InWorkConn_begin :: "udp_client \<Rightarrow> udp_client" where
  "udp_InWorkConn_begin s = (udp_client_Close s)\<lparr>uc_calls := Suc (uc_calls s)\<rparr>"

definition udp_InWorkConn_commit :: "bool \<Rightarrow> udp_client \<Rightarrow> udp_client" where
  "udp_InWorkConn_commit wrap_ok s =
     (let s = s\<lparr>uc_calls := uc_calls s - 1\<rparr> in
      if \<not> wrap_ok then s
      else s\<lparr>uc_closed := False, uc_current := Some (uc_next s), uc_open := insert (uc_next s) (uc_open s), uc_next := Suc (uc_next s)\<rparr>)"

text \<open>With \<open>overlap\<close> the steps of several calls and of \<open>Close\<close> may be interleaved.\<close>

inductive uc_step :: "bool \<Rightarrow> udp_client \<Rightarrow> udp_client \<Rightarrow> bool" for overlap where
  uc_begin: "overlap \<or> uc_calls s = 0 \<Longrightarrow> uc_step overlap s (udp_InWorkConn_begin s)"
| uc_commit: "0 < uc_calls s \<Longrightarrow> uc_step overlap s (udp_InWorkConn_commit wrap_ok s)"
| uc_close: "overlap \<or> uc_calls s = 0 \<Longrightarrow> uc_step overlap s (udp_client_Close s)"

inductive uc_reach :: "bool \<Rightarrow> udp_client \<Rightarrow> bool" for overlap where
  new: "uc_reach overlap NewUDPClient"
| step: "uc_reach overlap s \<Longrightarrow> uc_step overlap s s' \<Longrightarrow> uc_reach overlap s'"

lemmas uc_defs = udp_InWorkConn_begin_def udp_InWorkConn_commit_def udp_client_Close_def

lemma udp_client_alone: "uc_reach False s \<Longrightarrow> uc_open s = (if uc_closed s then {} else set_option (uc_current s)) \<and> (0 < uc_calls s \<longrightarrow> uc_closed s) \<and> (uc_calls s \<le> 1)"
proof (induction rule: uc_reach.induct)
  case (step s s')
  from step(2,3) show ?case by (induction rule: uc_step.induct) (auto simp: uc_defs Let_def split: if_splits)
qed (simp add: NewUDPClient_def)

text \<open>A generation that is open and not the current one is never closed; with overlapping calls there can be one.\<close>

lemma orphan_forever:
  assumes "uc_step overlap s s'" and "n \<in> uc_open s" "n < uc_next s" and "uc_current s \<noteq> Some n"
  shows "n \<in> uc_open s' \<and> n < uc_next s' \<and> uc_current s' \<noteq> Some n"
  using assms by (induction rule: uc_step.induct) (auto simp: uc_defs Let_def)

theorem udp_generation_leaks: "\<exists>s. uc_reach True s \<and> 0 \<in> uc_open s \<and> 0 < uc_next s \<and> uc_current s = Some 1 \<and> uc_calls s = 0"
proof -
  let ?a = "udp_InWorkConn_begin (udp_InWorkConn_begin NewUDPClient)"
  have "uc_reach True (udp_InWorkConn_begin s)" if "uc_reach True s" for s using uc_reach.step [OF that] uc_begin [of True s] by simp
  then have "uc_reach True ?a" using uc_reach.new by blast
  moreover have c: "uc_calls ?a = 2" by (simp add: uc_defs NewUDPClient_def)
  ultimately have "uc_reach True (udp_InWorkConn_commit True ?a)" using uc_reach.step uc_commit [of ?a True True] by simp
  moreover have "uc_calls (udp_InWorkConn_commit True ?a) = 1" by (simp add: uc_defs NewUDPClient_def Let_def)
  ultimately have "uc_reach True (udp_InWorkConn_commit True (udp_InWorkConn_commit True ?a))"
    using uc_reach.step uc_commit [of "udp_InWorkConn_commit True ?a" True True] by simp
  then show ?thesis by (rule exI [where x = "udp_InWorkConn_commit True (udp_InWorkConn_commit True ?a)", OF conjI]) (simp add: uc_defs NewUDPClient_def Let_def)
qed

text \<open>A call that began before \<open>Close\<close> opens a generation after it, which no one closes if the proxy is not used again.\<close>

theorem udp_open_after_close:
  "\<exists>s s'. uc_reach True s \<and> s' = udp_InWorkConn_commit True (udp_client_Close s) \<and> uc_calls s = 1 \<and> uc_open s' \<noteq> {} \<and> uc_calls s' = 0"
proof -
  have "uc_reach True (udp_InWorkConn_begin NewUDPClient)" by (intro uc_reach.step [OF uc_reach.new] uc_begin) simp
  then show ?thesis by (intro exI conjI) (auto simp: uc_defs NewUDPClient_def Let_def)
qed

section \<open>A UDP proxy on the server\<close>

text \<open>The loop of the proxy gets a work connection, starts a reader and a sender for it and waits until the reader has failed. Connections are numbers. \<open>uv_hand n\<close> is defined while the sender of a connection runs and has the packet
  that it is about to write. \<open>st\<close> is the stream that is put on a work connection: closing it closes the connection only if it passes \<open>Close\<close> on.\<close>

datatype udp_loop = LGet | LWork | LEnd

record 'p udp_server =
  uv_closed :: bool
  uv_loop :: udp_loop
  uv_workConn :: "nat option"
  uv_open :: "nat set"
  uv_readers :: "nat set"
  uv_hand :: "nat \<Rightarrow> 'p option option"
  uv_cancelled :: "nat set"
  uv_next :: nat
  uv_sendCh :: "'p list"
  uv_arrived :: "'p list"
  uv_written :: "(nat \<times> 'p) list"
  uv_lost :: "'p list"
  uv_readCh :: "'p list"

definition NewUDPServer :: "'p udp_server" where
  "NewUDPServer = \<lparr>uv_closed = False, uv_loop = LGet, uv_workConn = None, uv_open = {}, uv_readers = {}, uv_hand = (\<lambda>_. None), uv_cancelled = {}, uv_next = 0,
     uv_sendCh = [], uv_arrived = [], uv_written = [], uv_lost = [], uv_readCh = []\<rparr>"

definition uv_close :: "stream \<Rightarrow> nat set \<Rightarrow> 'p udp_server \<Rightarrow> 'p udp_server" where
  "uv_close st ns s = (if close_reaches True st then s\<lparr>uv_open := uv_open s - ns\<rparr> else s)"

definition udp_server_Close :: "stream \<Rightarrow> 'p udp_server \<Rightarrow> 'p udp_server" where
  "udp_server_Close st s = (if uv_closed s then s else (uv_close st (set_option (uv_workConn s)) s)\<lparr>uv_closed := True\<rparr>)"

inductive uv_step :: "stream \<Rightarrow> 'p udp_server \<Rightarrow> 'p udp_server \<Rightarrow> bool" for st where
  get_fails: "uv_loop s = LGet \<Longrightarrow> uv_step st s (s\<lparr>uv_loop := (if uv_closed s then LEnd else LGet)\<rparr>)"
| encrypt_fails: "uv_loop s = LGet \<Longrightarrow> uv_step st s (uv_close st (set_option (uv_workConn s)) s)"
| get_ok: "uv_loop s = LGet \<Longrightarrow> n = uv_next s \<Longrightarrow> s' = uv_close st (set_option (uv_workConn s)) s
    \<Longrightarrow> uv_step st s (s'\<lparr>uv_loop := LWork, uv_workConn := Some n, uv_open := insert n (uv_open s'), uv_readers := insert n (uv_readers s'), uv_hand := (uv_hand s)(n := Some None), uv_next := Suc n\<rparr>)"
| loop_ends: "uv_loop s = LWork \<Longrightarrow> uv_closed s \<Longrightarrow> uv_step st s (s\<lparr>uv_loop := LEnd, uv_cancelled := uv_cancelled s \<union> set_option (uv_workConn s)\<rparr>)"
| read_fails: "n \<in> uv_readers s \<Longrightarrow> uv_loop s = LWork \<Longrightarrow> \<not> uv_closed s
    \<Longrightarrow> uv_step st s ((uv_close st {n} s)\<lparr>uv_readers := uv_readers s - {n}, uv_loop := LGet, uv_cancelled := uv_cancelled s \<union> set_option (uv_workConn s)\<rparr>)"
| read_fails_closed: "n \<in> uv_readers s \<Longrightarrow> uv_closed s \<Longrightarrow> uv_step st s ((uv_close st {n} s)\<lparr>uv_readers := uv_readers s - {n}\<rparr>)"
| reads: "n \<in> uv_readers s \<Longrightarrow> n \<in> uv_open s \<Longrightarrow> \<not> uv_closed s \<Longrightarrow> uv_step st s (s\<lparr>uv_readCh := uv_readCh s @ [p]\<rparr>)"
| takes: "uv_hand s n = Some None \<Longrightarrow> uv_sendCh s = p # ps \<Longrightarrow> uv_step st s (s\<lparr>uv_sendCh := ps, uv_hand := (uv_hand s)(n := Some (Some p))\<rparr>)"
| writes: "uv_hand s n = Some (Some p) \<Longrightarrow> n \<in> uv_open s \<Longrightarrow> uv_step st s (s\<lparr>uv_hand := (uv_hand s)(n := Some None), uv_written := uv_written s @ [(n, p)]\<rparr>)"
| write_fails: "uv_hand s n = Some (Some p) \<Longrightarrow> uv_step st s ((uv_close st {n} s)\<lparr>uv_hand := (uv_hand s)(n := None), uv_lost := uv_lost s @ [p]\<rparr>)"
| sender_ends: "uv_hand s n = Some None \<Longrightarrow> n \<in> uv_cancelled s \<or> uv_closed s \<and> uv_sendCh s = [] \<Longrightarrow> uv_step st s (s\<lparr>uv_hand := (uv_hand s)(n := None)\<rparr>)"
| arrives: "\<not> uv_closed s \<Longrightarrow> length (uv_sendCh s) < 1024 \<Longrightarrow> uv_step st s (s\<lparr>uv_sendCh := uv_sendCh s @ [p], uv_arrived := uv_arrived s @ [p]\<rparr>)"
| closes: "uv_step st s (udp_server_Close st s)"

inductive uv_reach :: "stream \<Rightarrow> 'p udp_server \<Rightarrow> bool" for st where
  new: "uv_reach st NewUDPServer"
| step: "uv_reach st s \<Longrightarrow> uv_step st s s' \<Longrightarrow> uv_reach st s'"

text \<open>The packet that can still be written.\<close>

definition writable :: "nat set \<Rightarrow> nat option \<Rightarrow> (nat \<Rightarrow> 'p option option) \<Rightarrow> 'p list" where
  "writable ns c hand = (case c of None \<Rightarrow> [] | Some n \<Rightarrow> if n \<in> ns then (case hand n of Some (Some p) \<Rightarrow> [p] | _ \<Rightarrow> []) else [])"

definition uv_pending :: "'p udp_server \<Rightarrow> 'p list" where
  "uv_pending s = writable (uv_open s) (uv_workConn s) (uv_hand s)"

lemma writable_simps [simp]:
  "writable ns None hand = []" "n \<notin> ns \<Longrightarrow> writable ns (Some n) hand = []" "writable {} c hand = []" "writable (ns - set_option c) c hand = []"
  "hand n = Some None \<Longrightarrow> writable ns (Some n) hand = []" "hand n = None \<Longrightarrow> writable ns (Some n) hand = []"
  "n \<in> ns \<Longrightarrow> hand n = Some (Some p) \<Longrightarrow> writable ns (Some n) hand = [p]"
  by (auto simp: writable_def split: option.splits)

lemma writable_other: "c \<noteq> Some n \<Longrightarrow> writable ns c (hand(n := x)) = writable ns c hand" "c \<noteq> Some n \<Longrightarrow> writable (ns - {n}) c hand = writable ns c hand"
  by (auto simp: writable_def split: option.splits)

definition uv_inv :: "'p udp_server \<Rightarrow> bool" where
  "uv_inv s \<longleftrightarrow> uv_open s \<subseteq> set_option (uv_workConn s) \<and> uv_open s \<subseteq> uv_readers s \<and> uv_readers s \<subseteq> set_option (uv_workConn s)
     \<and> set_option (uv_workConn s) \<subseteq> {..<uv_next s} \<and> (uv_loop s = LGet \<longrightarrow> uv_readers s = {}) \<and> (uv_loop s = LEnd \<longrightarrow> uv_closed s)
     \<and> (\<forall>n. uv_next s \<le> n \<longrightarrow> uv_hand s n = None)
     \<and> subseq (map snd (uv_written s) @ uv_pending s @ uv_sendCh s) (uv_arrived s)"

lemma uv_pending_cases: "uv_pending s = [] \<or> (\<exists>n p. uv_workConn s = Some n \<and> n \<in> uv_open s \<and> uv_hand s n = Some (Some p) \<and> uv_pending s = [p])"
  by (auto simp: uv_pending_def writable_def split: option.splits)

lemma uv_drop: "subseq (ws @ uv_pending s @ ps) xs \<Longrightarrow> subseq (ws @ ps) xs"
  using uv_pending_cases [of s] subseq_drop_mid by force

lemma uv_reader: "uv_inv s \<Longrightarrow> n \<in> uv_readers s \<Longrightarrow> uv_workConn s = Some n \<and> uv_open s - {n} = {} \<and> uv_readers s - {n} = {}"
proof -
  assume i: "uv_inv s" "n \<in> uv_readers s"
  then have "n \<in> set_option (uv_workConn s)" by (auto simp: uv_inv_def)
  then have "uv_workConn s = Some n" by (cases "uv_workConn s") simp_all
  then show ?thesis using i(1) by (simp add: uv_inv_def)
qed

lemma uv_step_inv:
  assumes "uv_step st s s'" and st: "close_reaches True st" and "uv_inv s"
  shows "uv_inv s'"
  using assms(1,3)
proof (induction rule: uv_step.induct)
  case (encrypt_fails s)
  then show ?case using uv_drop [of "map snd (uv_written s)" s "uv_sendCh s"] st by (auto simp: uv_inv_def uv_close_def uv_pending_def)
next
  case (get_ok s n s')
  then show ?case using uv_drop [of "map snd (uv_written s)" s "uv_sendCh s"] st by (auto simp: uv_inv_def uv_close_def uv_pending_def)
next
  case (read_fails n s)
  then have w: "uv_workConn s = Some n" "uv_open s - {n} = {}" "uv_readers s - {n} = {}" using uv_reader [of s n] by auto
  then show ?case using read_fails uv_drop [of "map snd (uv_written s)" s "uv_sendCh s"] st by (auto simp: uv_inv_def uv_close_def uv_pending_def)
next
  case (read_fails_closed n s)
  then have w: "uv_workConn s = Some n" "uv_open s - {n} = {}" "uv_readers s - {n} = {}" using uv_reader [of s n] by auto
  then show ?case using read_fails_closed uv_drop [of "map snd (uv_written s)" s "uv_sendCh s"] st by (auto simp: uv_inv_def uv_close_def uv_pending_def)
next
  case (takes s n p ps)
  have d: "subseq (map snd (uv_written s) @ uv_pending s @ ps) (uv_arrived s)"
    using takes(2,3) subseq_drop_mid [of "map snd (uv_written s) @ uv_pending s" p ps] by (simp add: uv_inv_def)
  show ?case
  proof (cases "uv_workConn s = Some n")
    case True
    then have "uv_pending s = []" using takes(1) by (simp add: uv_pending_def)
    then show ?thesis using takes True d by (cases "n \<in> uv_open s") (auto simp: uv_inv_def uv_pending_def)
  next
    case False
    then show ?thesis using takes(1,3) d by (auto simp: uv_inv_def uv_pending_def writable_other)
  qed
next
  case (writes s n p)
  then have w: "uv_workConn s = Some n" by (auto simp: uv_inv_def)
  then have "uv_pending s = [p]" using writes(1,2) by (simp add: uv_pending_def)
  then show ?case using writes w by (auto simp: uv_inv_def uv_pending_def)
next
  case (write_fails s n p)
  then show ?case using uv_drop [of "map snd (uv_written s)" s "uv_sendCh s"] st
    by (cases "uv_workConn s = Some n") (auto simp: uv_inv_def uv_close_def uv_pending_def writable_other)
next
  case (sender_ends s n)
  then show ?case by (cases "uv_workConn s = Some n") (auto simp: uv_inv_def uv_pending_def writable_other)
next
  case (arrives s p)
  have "subseq ((map snd (uv_written s) @ uv_pending s @ uv_sendCh s) @ [p]) (uv_arrived s @ [p])" using arrives(3) by (intro list_emb_append_mono) (auto simp: uv_inv_def)
  then show ?case using arrives(3) by (auto simp: uv_inv_def uv_pending_def)
next
  case (closes s)
  then show ?case using uv_drop [of "map snd (uv_written s)" s "uv_sendCh s"] st
    by (auto simp: uv_inv_def uv_close_def udp_server_Close_def uv_pending_def)
qed (auto simp: uv_inv_def uv_pending_def)

lemma uv_reach_inv: "uv_reach st s \<Longrightarrow> close_reaches True st \<Longrightarrow> uv_inv s"
proof (induction rule: uv_reach.induct)
  case (step s s')
  then show ?case using uv_step_inv by blast
qed (simp add: uv_inv_def NewUDPServer_def uv_pending_def)

text \<open>C32. There is always only one work connection at the same time. Without a limiter on the server, at most one work connection of a UDP proxy is open, the current one, and it has a reader that closes it when it fails; packets of users are written
  in the order of arrival, each at most once; and closing the proxy closes the connection.\<close>

theorem udp_one_work_conn:
  assumes "wrapLocal key e cfg = Some st" and "server_limiter cfg = None" and "uv_reach st s"
  shows "uv_open s \<subseteq> set_option (uv_workConn s) \<inter> uv_readers s \<and> subseq (map snd (uv_written s) @ uv_pending s @ uv_sendCh s) (uv_arrived s)
    \<and> (\<not> uv_closed s \<longrightarrow> uv_open (udp_server_Close st s) = {})"
proof -
  have st: "close_reaches True st" using server_close_iff [OF assms(1)] assms(2) by simp
  then have "uv_inv s" by (rule uv_reach_inv [OF assms(3)])
  then show ?thesis using st by (auto simp: uv_inv_def udp_server_Close_def uv_close_def)
qed

lemma bare_close: "close_reaches True Bare"
  by (simp add: close_reaches_def)

theorem udp_one_work_conn_witness:
  "uv_open (udp_server_Close Bare (NewUDPServer\<lparr>uv_loop := LWork, uv_workConn := Some 0, uv_open := {0}, uv_readers := {0}, uv_hand := [0 \<mapsto> None :: nat option], uv_next := 1\<rparr>)) = {}"
proof -
  have w: "wrapLocal [] True zero_base = Some Bare" "server_limiter zero_base = None" by code_simp+
  let ?s = "NewUDPServer\<lparr>uv_loop := LWork, uv_workConn := Some 0, uv_open := {0}, uv_readers := {0}, uv_hand := [0 \<mapsto> None :: nat option], uv_next := 1\<rparr>"
  have "uv_step Bare NewUDPServer ?s"
    using uv_step.get_ok [of "NewUDPServer :: nat udp_server" 0 NewUDPServer Bare] by (simp add: NewUDPServer_def uv_close_def bare_close fun_upd_def)
  with uv_reach.new have "uv_reach Bare ?s" by (rule uv_reach.step)
  from udp_one_work_conn [OF w this] show ?thesis by (simp add: NewUDPServer_def)
qed

text \<open>With a limiter on the server a work connection that has failed stays open when the next one is there.\<close>

theorem limited_udp_leaks:
  assumes "\<not> close_reaches True st"
  shows "\<exists>s :: nat udp_server. uv_reach st s \<and> uv_open s = {0, 1} \<and> uv_workConn s = Some 1 \<and> uv_readers s = {1}"
proof -
  let ?a = "NewUDPServer\<lparr>uv_loop := LWork, uv_workConn := Some 0, uv_open := {0}, uv_readers := {0}, uv_hand := [0 \<mapsto> None :: nat option], uv_next := 1\<rparr>"
  have "uv_step st NewUDPServer ?a"
    using uv_step.get_ok [of "NewUDPServer :: nat udp_server" 0 NewUDPServer st] by (simp add: NewUDPServer_def uv_close_def assms fun_upd_def)
  with uv_reach.new have a: "uv_reach st ?a" by (rule uv_reach.step)
  let ?b = "?a\<lparr>uv_readers := {}, uv_loop := LGet, uv_cancelled := {0}\<rparr>"
  have "uv_step st ?a ?b" using uv_step.read_fails [of 0 ?a st] by (simp add: NewUDPServer_def uv_close_def assms)
  with a have b: "uv_reach st ?b" by (rule uv_reach.step)
  let ?c = "?b\<lparr>uv_loop := LWork, uv_workConn := Some 1, uv_open := insert 1 (uv_open ?b), uv_readers := insert 1 (uv_readers ?b), uv_hand := (uv_hand ?b)(1 := Some None), uv_next := Suc 1\<rparr>"
  have "uv_step st ?b ?c" by (rule uv_step.get_ok [where n = 1]) (simp_all add: uv_close_def assms)
  with b have "uv_reach st ?c" by (rule uv_reach.step)
  then show ?thesis by (rule exI [where x = ?c, OF conjI]) (auto simp: NewUDPServer_def)
qed

text \<open>A work connection that the loop gets after the proxy was closed stays open as long as its client sends anything but packets, such as pings.\<close>

theorem udp_conn_after_close: "\<exists>s :: nat udp_server. uv_reach Bare s \<and> uv_closed s \<and> uv_loop s = LEnd \<and> uv_open s = {0}"
proof -
  let ?a = "NewUDPServer\<lparr>uv_closed := True\<rparr> :: nat udp_server"
  have "uv_step Bare NewUDPServer ?a" using uv_step.closes [of Bare "NewUDPServer :: nat udp_server"] by (simp add: udp_server_Close_def NewUDPServer_def uv_close_def bare_close)
  with uv_reach.new have a: "uv_reach Bare ?a" by (rule uv_reach.step)
  let ?b = "?a\<lparr>uv_loop := LWork, uv_workConn := Some 0, uv_open := {0}, uv_readers := {0}, uv_hand := [0 \<mapsto> None], uv_next := 1\<rparr>"
  have "uv_step Bare ?a ?b" using uv_step.get_ok [of ?a 0 ?a Bare] by (simp add: NewUDPServer_def uv_close_def bare_close fun_upd_def)
  with a have b: "uv_reach Bare ?b" by (rule uv_reach.step)
  let ?c = "?b\<lparr>uv_loop := LEnd, uv_cancelled := {0}\<rparr>"
  have "uv_step Bare ?b ?c" using uv_step.loop_ends [of ?b Bare] by (simp add: NewUDPServer_def)
  with b have "uv_reach Bare ?c" by (rule uv_reach.step)
  then show ?thesis by (rule exI [where x = ?c, OF conjI]) simp
qed

end
