(* ===== verification/Legacy_Config.thy ===== *)
theory Legacy_Config
  imports Common_Config Port_Ranges Visitor_Config Client_Proxy
begin

text \<open>
  The legacy format of configuration files: \<^verbatim>\<open>pkg/config/legacy\<close> and \<^verbatim>\<open>pkg/auth/legacy\<close>. Sections of an INI file become legacy configurations, which are converted to those of the current format.
  The INI package is third-party code: a file is given by its sections with their keys, and \<open>MapTo\<close>, which sets the fields of a structure from the keys of a section, is a parameter.
\<close>

section \<open>Common settings of the client\<close>

text \<open>The settings of authentication that client and server share, with the token.\<close>

record legacy_BaseConfig =
  la_AuthenticationMethod :: string
  la_AuthenticateHeartBeats :: bool
  la_AuthenticateNewWorkConns :: bool
  la_Token :: string

definition getDefaultBaseConf :: legacy_BaseConfig where
  "getDefaultBaseConf = \<lparr>la_AuthenticationMethod = ''token'', la_AuthenticateHeartBeats = False, la_AuthenticateNewWorkConns = False, la_Token = []\<rparr>"

record ClientCommonConf = legacy_BaseConfig +
  lc_OidcClientID :: string
  lc_OidcClientSecret :: string
  lc_OidcAudience :: string
  lc_OidcScope :: string
  lc_OidcTokenEndpointURL :: string
  lc_OidcAdditionalEndpointParams :: string_map
  lc_ServerAddr :: string
  lc_ServerPort :: int
  lc_NatHoleSTUNServer :: string
  lc_DialServerTimeout :: int
  lc_DialServerKeepAlive :: int
  lc_ConnectServerLocalIP :: string
  lc_HTTPProxy :: string
  lc_LogFile :: string
  lc_LogLevel :: string
  lc_LogMaxDays :: int
  lc_DisableLogColor :: bool
  lc_AdminAddr :: string
  lc_AdminPort :: int
  lc_AdminUser :: string
  lc_AdminPwd :: string
  lc_AssetsDir :: string
  lc_PoolCount :: int
  lc_TCPMux :: bool
  lc_TCPMuxKeepaliveInterval :: int
  lc_User :: string
  lc_DNSServer :: string
  lc_LoginFailExit :: bool
  lc_Start :: "string list"
  lc_Protocol :: string
  lc_QUICKeepalivePeriod :: int
  lc_QUICMaxIdleTimeout :: int
  lc_QUICMaxIncomingStreams :: int
  lc_TLSEnable :: bool
  lc_TLSCertFile :: string
  lc_TLSKeyFile :: string
  lc_TLSTrustedCaFile :: string
  lc_TLSServerName :: string
  lc_DisableCustomTLSFirstByte :: bool
  lc_HeartbeatInterval :: int
  lc_HeartbeatTimeout :: int
  lc_Metas :: string_map
  lc_UDPPacketSize :: int
  lc_IncludeConfigFiles :: "string list"
  lc_PprofEnable :: bool

definition GetDefaultClientConf :: ClientCommonConf where
  "GetDefaultClientConf = legacy_BaseConfig.extend getDefaultBaseConf
     (ClientCommonConf.fields [] [] [] [] [] [] [] 0 [] 0 0 [] [] [] [] 0 False [] 0 [] [] [] 0 True 0 [] [] True [] ''tcp'' 0 0 0 True [] [] [] [] True 0 0 [] 0 [] False)"

datatype legacy_error = HeartbeatOrder | LegacyProtocol | LegacyIncludeDir string

definition legacy_Validate :: "(string \<Rightarrow> bool) \<Rightarrow> ClientCommonConf \<Rightarrow> legacy_error option" where
  "legacy_Validate dir_ok cfg =
     (if lc_HeartbeatTimeout cfg > 0 \<and> lc_HeartbeatInterval cfg > 0 \<and> lc_HeartbeatTimeout cfg < lc_HeartbeatInterval cfg then Some HeartbeatOrder
      else if lc_Protocol cfg \<notin> {''tcp'', ''kcp'', ''quic'', ''websocket'', ''wss''} then Some LegacyProtocol
      else map_option LegacyIncludeDir (find (\<lambda>f. \<not> dir_ok f) (lc_IncludeConfigFiles cfg)))"

definition legacy_scopes :: "'a legacy_BaseConfig_scheme \<Rightarrow> string list" where
  "legacy_scopes conf = (if la_AuthenticateHeartBeats conf then [''HeartBeats''] else []) @ (if la_AuthenticateNewWorkConns conf then [''NewWorkConns''] else [])"

definition Convert_ClientCommonConf_To_v1 :: "ClientCommonConf \<Rightarrow> ClientCommonConfig" where
  "Convert_ClientCommonConf_To_v1 conf =
     \<lparr>cl_Auth = \<lparr>ac_Method = la_AuthenticationMethod conf, ac_AdditionalScopes = legacy_scopes conf, ac_Token = la_Token conf, ac_TokenSource = None,
        ac_OIDC = \<lparr>oi_ClientID = lc_OidcClientID conf, oi_ClientSecret = lc_OidcClientSecret conf, oi_Audience = lc_OidcAudience conf, oi_Scope = lc_OidcScope conf,
          oi_TokenEndpointURL = lc_OidcTokenEndpointURL conf, oi_AdditionalEndpointParams = lc_OidcAdditionalEndpointParams conf, oi_TrustedCaFile = [], oi_InsecureSkipVerify = False,
          oi_ProxyURL = [], oi_TokenSource = None\<rparr>\<rparr>,
      cl_User = lc_User conf, cl_ClientID = [], cl_ServerAddr = lc_ServerAddr conf, cl_ServerPort = lc_ServerPort conf, cl_NatHoleSTUNServer = lc_NatHoleSTUNServer conf,
      cl_DNSServer = lc_DNSServer conf, cl_LoginFailExit = Some (lc_LoginFailExit conf), cl_Start = lc_Start conf,
      cl_Log = \<lparr>lo_To = lc_LogFile conf, lo_Level = lc_LogLevel conf, lo_MaxDays = lc_LogMaxDays conf, lo_DisablePrintColor = lc_DisableLogColor conf\<rparr>,
      cl_WebServer = \<lparr>ws_Addr = lc_AdminAddr conf, ws_Port = lc_AdminPort conf, ws_User = lc_AdminUser conf, ws_Password = lc_AdminPwd conf, ws_AssetsDir = lc_AssetsDir conf,
        ws_PprofEnable = lc_PprofEnable conf, ws_TLS = None\<rparr>,
      cl_Transport = \<lparr>ct_Protocol = lc_Protocol conf, ct_DialServerTimeout = lc_DialServerTimeout conf, ct_DialServerKeepAlive = lc_DialServerKeepAlive conf,
        ct_ConnectServerLocalIP = lc_ConnectServerLocalIP conf, ct_ProxyURL = lc_HTTPProxy conf, ct_PoolCount = lc_PoolCount conf, ct_TCPMux = Some (lc_TCPMux conf),
        ct_TCPMuxKeepaliveInterval = lc_TCPMuxKeepaliveInterval conf,
        ct_QUIC = \<lparr>qu_KeepalivePeriod = lc_QUICKeepalivePeriod conf, qu_MaxIdleTimeout = lc_QUICMaxIdleTimeout conf, qu_MaxIncomingStreams = lc_QUICMaxIncomingStreams conf\<rparr>,
        ct_HeartbeatInterval = lc_HeartbeatInterval conf, ct_HeartbeatTimeout = lc_HeartbeatTimeout conf,
        ct_TLS = \<lparr>tl_CertFile = lc_TLSCertFile conf, tl_KeyFile = lc_TLSKeyFile conf, tl_TrustedCaFile = lc_TLSTrustedCaFile conf, tl_ServerName = lc_TLSServerName conf,
          tc_Enable = Some (lc_TLSEnable conf), tc_DisableCustomTLSFirstByte = Some (lc_DisableCustomTLSFirstByte conf)\<rparr>\<rparr>,
      cl_VirtualNetAddress = [], cl_FeatureGates = [], cl_UDPPacketSize = lc_UDPPacketSize conf, cl_Metadatas = lc_Metas conf, cl_IncludeConfigFiles = lc_IncludeConfigFiles conf, cl_StorePath = []\<rparr>"

section \<open>Common settings of the server\<close>

record ServerCommonConf = legacy_BaseConfig +
  ld_OidcIssuer :: string
  ld_OidcAudience :: string
  ld_OidcSkipExpiryCheck :: bool
  ld_OidcSkipIssuerCheck :: bool
  ld_BindAddr :: string
  ld_BindPort :: int
  ld_KCPBindPort :: int
  ld_QUICBindPort :: int
  ld_QUICKeepalivePeriod :: int
  ld_QUICMaxIdleTimeout :: int
  ld_QUICMaxIncomingStreams :: int
  ld_ProxyBindAddr :: string
  ld_VhostHTTPPort :: int
  ld_VhostHTTPSPort :: int
  ld_TCPMuxHTTPConnectPort :: int
  ld_TCPMuxPassthrough :: bool
  ld_VhostHTTPTimeout :: int
  ld_DashboardAddr :: string
  ld_DashboardPort :: int
  ld_DashboardTLSCertFile :: string
  ld_DashboardTLSKeyFile :: string
  ld_DashboardTLSMode :: bool
  ld_DashboardUser :: string
  ld_DashboardPwd :: string
  ld_EnablePrometheus :: bool
  ld_AssetsDir :: string
  ld_LogFile :: string
  ld_LogLevel :: string
  ld_LogMaxDays :: int
  ld_DisableLogColor :: bool
  ld_DetailedErrorsToClient :: bool
  ld_SubDomainHost :: string
  ld_TCPMux :: bool
  ld_TCPMuxKeepaliveInterval :: int
  ld_TCPKeepAlive :: int
  ld_Custom404Page :: string
  ld_AllowPortsStr :: string
  ld_MaxPoolCount :: int
  ld_MaxPortsPerClient :: int
  ld_TLSOnly :: bool
  ld_TLSCertFile :: string
  ld_TLSKeyFile :: string
  ld_TLSTrustedCaFile :: string
  ld_HeartbeatTimeout :: int
  ld_UserConnTimeout :: int
  ld_HTTPPlugins :: "HTTPPluginOptions list"
  ld_UDPPacketSize :: int
  ld_PprofEnable :: bool
  ld_NatHoleAnalysisDataReserveHours :: int

definition GetDefaultServerConf :: ServerCommonConf where
  "GetDefaultServerConf = legacy_BaseConfig.extend getDefaultBaseConf
     (ServerCommonConf.fields [] [] False False [] 0 0 0 0 0 0 [] 0 0 0 False 0 ''0.0.0.0'' 0 [] [] False [] [] False [] ''console'' [] 0 False True [] True 0 0 [] [] 0 0 False [] [] [] 0 0 [] 0 False 0)"

definition Convert_ServerCommonConf_To_v1 :: "ServerCommonConf \<Rightarrow> ServerFullConfig" where
  "Convert_ServerCommonConf_To_v1 conf =
     \<lparr>sf_Auth = \<lparr>as_Method = la_AuthenticationMethod conf, as_AdditionalScopes = legacy_scopes conf, as_Token = la_Token conf, as_TokenSource = None,
        as_OIDC = \<lparr>os_Issuer = ld_OidcIssuer conf, os_Audience = ld_OidcAudience conf, os_SkipExpiryCheck = ld_OidcSkipExpiryCheck conf, os_SkipIssuerCheck = ld_OidcSkipIssuerCheck conf\<rparr>\<rparr>,
      sf_BindAddr = ld_BindAddr conf, sf_BindPort = ld_BindPort conf, sf_KCPBindPort = ld_KCPBindPort conf, sf_QUICBindPort = ld_QUICBindPort conf, sf_ProxyBindAddr = ld_ProxyBindAddr conf,
      sf_VhostHTTPPort = ld_VhostHTTPPort conf, sf_VhostHTTPTimeout = ld_VhostHTTPTimeout conf, sf_VhostHTTPSPort = ld_VhostHTTPSPort conf,
      sf_TCPMuxHTTPConnectPort = ld_TCPMuxHTTPConnectPort conf, sf_TCPMuxPassthrough = ld_TCPMuxPassthrough conf,
      sf_SubDomainHost = ld_SubDomainHost conf, sf_Custom404Page = ld_Custom404Page conf, sf_SSHTunnelGateway = SSHTunnelGateway.make 0 [] [] [],
      sf_WebServer = \<lparr>ws_Addr = ld_DashboardAddr conf, ws_Port = ld_DashboardPort conf, ws_User = ld_DashboardUser conf, ws_Password = ld_DashboardPwd conf, ws_AssetsDir = ld_AssetsDir conf,
        ws_PprofEnable = (ld_DashboardTLSMode conf \<and> ld_PprofEnable conf),
        ws_TLS = (if ld_DashboardTLSMode conf then Some (TLSConfig.make (ld_DashboardTLSCertFile conf) (ld_DashboardTLSKeyFile conf) [] []) else None)\<rparr>,
      sf_EnablePrometheus = ld_EnablePrometheus conf,
      sf_Log = \<lparr>lo_To = ld_LogFile conf, lo_Level = ld_LogLevel conf, lo_MaxDays = ld_LogMaxDays conf, lo_DisablePrintColor = ld_DisableLogColor conf\<rparr>,
      sf_Transport = \<lparr>st_TCPMux = Some (ld_TCPMux conf), st_TCPMuxKeepaliveInterval = ld_TCPMuxKeepaliveInterval conf, st_TCPKeepAlive = ld_TCPKeepAlive conf, st_MaxPoolCount = ld_MaxPoolCount conf,
        st_HeartbeatTimeout = ld_HeartbeatTimeout conf,
        st_QUIC = \<lparr>qu_KeepalivePeriod = ld_QUICKeepalivePeriod conf, qu_MaxIdleTimeout = ld_QUICMaxIdleTimeout conf, qu_MaxIncomingStreams = ld_QUICMaxIncomingStreams conf\<rparr>,
        st_TLS = \<lparr>tl_CertFile = ld_TLSCertFile conf, tl_KeyFile = ld_TLSKeyFile conf, tl_TrustedCaFile = ld_TLSTrustedCaFile conf, tl_ServerName = [], ts_Force = ld_TLSOnly conf\<rparr>\<rparr>,
      sf_DetailedErrorsToClient = Some (ld_DetailedErrorsToClient conf), sf_MaxPortsPerClient = ld_MaxPortsPerClient conf, sf_UserConnTimeout = ld_UserConnTimeout conf,
      sf_UDPPacketSize = ld_UDPPacketSize conf, sf_NatHoleAnalysisDataReserveHours = ld_NatHoleAnalysisDataReserveHours conf,
      sf_AllowPorts = (case NewPortsRangeSliceFromString (ld_AllowPortsStr conf) of Inl _ \<Rightarrow> [] | Inr ps \<Rightarrow> ps),
      sf_HTTPPlugins = ld_HTTPPlugins conf\<rparr>"

section \<open>Proxies and visitors of a legacy file\<close>

text \<open>A section of the file is its name with its keys. \<open>key_String\<close> is \<^verbatim>\<open>section.Key(k).String()\<close>, empty for a key that is absent.\<close>

type_synonym ini_section = "string \<times> string_map"

definition key_String :: "string_map \<Rightarrow> string \<Rightarrow> string" where
  "key_String ks k = (case map_of ks k of None \<Rightarrow> [] | Some v \<Rightarrow> v)"

definition GetMapWithoutPrefix :: "string_map \<Rightarrow> string \<Rightarrow> string_map" where
  "GetMapWithoutPrefix ks p = map (\<lambda>(k, v). (drop (length p) k, v)) (filter (\<lambda>(k, v). has_prefix k p) ks)"

definition GetMapByPrefix :: "string_map \<Rightarrow> string \<Rightarrow> string_map" where
  "GetMapByPrefix ks p = filter (\<lambda>(k, v). has_prefix k p) ks"

record BaseProxyConf =
  lp_ProxyName :: string
  lp_ProxyType :: string
  lp_UseEncryption :: bool
  lp_UseCompression :: bool
  lp_Group :: string
  lp_GroupKey :: string
  lp_ProxyProtocolVersion :: string
  lp_BandwidthLimit :: BandwidthQuantity
  lp_BandwidthLimitMode :: string
  lp_Metas :: string_map
  lp_LocalIP :: string
  lp_LocalPort :: int
  lp_Plugin :: string
  lp_PluginParams :: string_map
  lp_HealthCheckType :: string
  lp_HealthCheckTimeoutS :: int
  lp_HealthCheckMaxFailed :: int
  lp_HealthCheckIntervalS :: int
  lp_HealthCheckURL :: string

definition zero_legacy_base :: BaseProxyConf where
  "zero_legacy_base = BaseProxyConf.make [] [] False False [] [] [] bq_zero [] [] [] 0 [] [] [] 0 0 0 []"

text \<open>The eight kinds of proxies with their own settings; the role, the key and the users of the secret ones.\<close>

datatype ProxyConf =
    L_TCPProxyConf (legacy_GetBaseConfig: BaseProxyConf) (l_RemotePort: int)
  | L_UDPProxyConf (legacy_GetBaseConfig: BaseProxyConf) (l_RemotePort: int)
  | L_TCPMuxProxyConf (legacy_GetBaseConfig: BaseProxyConf) (l_Domains: DomainConfig) (l_HTTPUser: string) (l_HTTPPwd: string) (l_RouteByHTTPUser: string) (l_Multiplexer: string)
  | L_HTTPProxyConf (legacy_GetBaseConfig: BaseProxyConf) (l_Domains: DomainConfig) (l_Locations: "string list") (l_HTTPUser: string) (l_HTTPPwd: string)
      (l_HostHeaderRewrite: string) (l_Headers: string_map) (l_RouteByHTTPUser: string)
  | L_HTTPSProxyConf (legacy_GetBaseConfig: BaseProxyConf) (l_Domains: DomainConfig)
  | L_STCPProxyConf (legacy_GetBaseConfig: BaseProxyConf) (l_Role: string) (l_Sk: string) (l_AllowUsers: "string list")
  | L_XTCPProxyConf (legacy_GetBaseConfig: BaseProxyConf) (l_Role: string) (l_Sk: string) (l_AllowUsers: "string list")
  | L_SUDPProxyConf (legacy_GetBaseConfig: BaseProxyConf) (l_Role: string) (l_Sk: string) (l_AllowUsers: "string list")

fun with_base :: "BaseProxyConf \<Rightarrow> ProxyConf \<Rightarrow> ProxyConf" where
  "with_base b (L_TCPProxyConf _ p) = L_TCPProxyConf b p"
| "with_base b (L_UDPProxyConf _ p) = L_UDPProxyConf b p"
| "with_base b (L_TCPMuxProxyConf _ d u w r m) = L_TCPMuxProxyConf b d u w r m"
| "with_base b (L_HTTPProxyConf _ d l u w h hs r) = L_HTTPProxyConf b d l u w h hs r"
| "with_base b (L_HTTPSProxyConf _ d) = L_HTTPSProxyConf b d"
| "with_base b (L_STCPProxyConf _ r k us) = L_STCPProxyConf b r k us"
| "with_base b (L_XTCPProxyConf _ r k us) = L_XTCPProxyConf b r k us"
| "with_base b (L_SUDPProxyConf _ r k us) = L_SUDPProxyConf b r k us"

definition no_domains :: DomainConfig where
  "no_domains = DomainConfig.make [] []"

definition NewConfByType :: "string \<Rightarrow> ProxyConf option" where
  "NewConfByType t =
     (let b = zero_legacy_base
      in if t = ''tcp'' then Some (L_TCPProxyConf b 0) else if t = ''udp'' then Some (L_UDPProxyConf b 0)
         else if t = ''tcpmux'' then Some (L_TCPMuxProxyConf b no_domains [] [] [] []) else if t = ''http'' then Some (L_HTTPProxyConf b no_domains [] [] [] [] [] [])
         else if t = ''https'' then Some (L_HTTPSProxyConf b no_domains) else if t = ''stcp'' then Some (L_STCPProxyConf b [] [] [])
         else if t = ''xtcp'' then Some (L_XTCPProxyConf b [] [] []) else if t = ''sudp'' then Some (L_SUDPProxyConf b [] [] []) else None)"

datatype legacy_load_error = BadType string | BadSection | BadBandwidth bandwidth_error | BadRole string string | BadProxy string legacy_load_error | BadVisitor string legacy_load_error
  | PortsEmpty | PortsSyntax range_error | PortsDiffer | PortsNone | IniFailed | BadTemplate string legacy_load_error

definition decorate :: "(string \<Rightarrow> int \<Rightarrow> int option) \<Rightarrow> string \<Rightarrow> string_map \<Rightarrow> BaseProxyConf \<Rightarrow> (legacy_load_error, BaseProxyConf) result" where
  "decorate scale name ks cfg =
     (let cfg = cfg\<lparr>lp_ProxyName := name, lp_Metas := GetMapWithoutPrefix ks ''meta_''\<rparr>;
          finish = (\<lambda>c. c\<lparr>lp_PluginParams := GetMapByPrefix ks ''plugin_''\<rparr>)
      in case map_of ks ''bandwidth_limit'' of
           None \<Rightarrow> ok (finish cfg)
         | Some bandwidth \<Rightarrow>
             (case NewBandwidthQuantity scale bandwidth of
                (_, Some e) \<Rightarrow> err (BadBandwidth e)
              | (q, None) \<Rightarrow> ok (finish (cfg\<lparr>lp_BandwidthLimit := q\<rparr>))))"

text \<open>What the kinds of proxies add to the common part when they are read.\<close>

fun unmarshal_more :: "string_map \<Rightarrow> ProxyConf \<Rightarrow> ProxyConf" where
  "unmarshal_more ks (L_HTTPProxyConf b d l u w h hs r) = L_HTTPProxyConf b d l u w h (GetMapWithoutPrefix ks ''header_'') r"
| "unmarshal_more ks (L_STCPProxyConf b r k us) = L_STCPProxyConf b (EmptyOr r ''server'') k us"
| "unmarshal_more ks (L_XTCPProxyConf b r k us) = L_XTCPProxyConf b (EmptyOr r ''server'') k us"
| "unmarshal_more ks c = c"

definition UnmarshalFromIni ::
  "(string_map \<Rightarrow> ProxyConf \<Rightarrow> ProxyConf option) \<Rightarrow> (string \<Rightarrow> int \<Rightarrow> int option) \<Rightarrow> string \<Rightarrow> string_map \<Rightarrow> ProxyConf \<Rightarrow> (legacy_load_error, ProxyConf) result" where
  "UnmarshalFromIni mapTo scale name ks conf =
     (case mapTo ks conf of
        None \<Rightarrow> err BadSection
      | Some conf \<Rightarrow>
          (case decorate scale name ks (legacy_GetBaseConfig conf) of
             Inl e \<Rightarrow> err e
           | Inr b \<Rightarrow> ok (unmarshal_more ks (with_base b conf))))"

definition NewProxyConfFromIni ::
  "(string_map \<Rightarrow> ProxyConf \<Rightarrow> ProxyConf option) \<Rightarrow> (string \<Rightarrow> int \<Rightarrow> int option) \<Rightarrow> string \<Rightarrow> string_map \<Rightarrow> (legacy_load_error, ProxyConf) result" where
  "NewProxyConfFromIni mapTo scale name ks =
     (let proxyType = EmptyOr (key_String ks ''type'') ''tcp''
      in case NewConfByType proxyType of
           None \<Rightarrow> err (BadType proxyType)
         | Some conf \<Rightarrow> UnmarshalFromIni mapTo scale name ks conf)"

record BaseVisitorConf =
  lv_ProxyName :: string
  lv_ProxyType :: string
  lv_UseEncryption :: bool
  lv_UseCompression :: bool
  lv_Role :: string
  lv_Sk :: string
  lv_ServerUser :: string
  lv_ServerName :: string
  lv_BindAddr :: string
  lv_BindPort :: int

datatype VisitorConf =
    L_STCPVisitorConf (legacy_visitor_base: BaseVisitorConf)
  | L_SUDPVisitorConf (legacy_visitor_base: BaseVisitorConf)
  | L_XTCPVisitorConf (legacy_visitor_base: BaseVisitorConf) (l_Protocol: string) (l_KeepTunnelOpen: bool) (l_MaxRetriesAnHour: int) (l_MinRetryInterval: int)
      (l_FallbackTo: string) (l_FallbackTimeoutMs: int)

definition zero_legacy_visitor :: BaseVisitorConf where
  "zero_legacy_visitor = BaseVisitorConf.make [] [] False False [] [] [] [] [] 0"

definition DefaultVisitorConf :: "string \<Rightarrow> VisitorConf option" where
  "DefaultVisitorConf t =
     (let b = zero_legacy_visitor
      in if t = ''stcp'' then Some (L_STCPVisitorConf b) else if t = ''xtcp'' then Some (L_XTCPVisitorConf b [] False 0 0 [] 0)
         else if t = ''sudp'' then Some (L_SUDPVisitorConf b) else None)"

definition visitor_unmarshalFromIni :: "string \<Rightarrow> BaseVisitorConf \<Rightarrow> BaseVisitorConf" where
  "visitor_unmarshalFromIni name b = b\<lparr>lv_ProxyName := name, lv_BindAddr := EmptyOr (lv_BindAddr b) ''127.0.0.1''\<rparr>"

definition positive_or :: "int \<Rightarrow> int \<Rightarrow> int" where
  "positive_or i d = (if i \<le> 0 then d else i)"

fun visitor_UnmarshalFromIni :: "string \<Rightarrow> VisitorConf \<Rightarrow> VisitorConf" where
  "visitor_UnmarshalFromIni name (L_STCPVisitorConf b) = L_STCPVisitorConf (visitor_unmarshalFromIni name b)"
| "visitor_UnmarshalFromIni name (L_SUDPVisitorConf b) = L_SUDPVisitorConf (visitor_unmarshalFromIni name b)"
| "visitor_UnmarshalFromIni name (L_XTCPVisitorConf b p keep n i f ms) =
     L_XTCPVisitorConf (visitor_unmarshalFromIni name b) (EmptyOr p ''quic'') keep (positive_or n 8) (positive_or i 90) f (positive_or ms 1000)"

definition NewVisitorConfFromIni :: "(string_map \<Rightarrow> VisitorConf \<Rightarrow> VisitorConf option) \<Rightarrow> string \<Rightarrow> string_map \<Rightarrow> (legacy_load_error, VisitorConf) result" where
  "NewVisitorConfFromIni mapTo name ks =
     (let visitorType = key_String ks ''type''
      in case DefaultVisitorConf visitorType of
           None \<Rightarrow> err (BadType visitorType)
         | Some conf \<Rightarrow> (case mapTo ks conf of None \<Rightarrow> err (BadType visitorType) | Some conf \<Rightarrow> ok (visitor_UnmarshalFromIni name conf)))"

text \<open>The fields of the plugin options that the current configuration has beside those of \<^typ>\<open>ClientPluginOptions\<close> (rewritten headers, certificates) are left out, as there.\<close>

definition convert_plugin :: "string \<Rightarrow> string_map \<Rightarrow> ClientPluginOptions option" where
  "convert_plugin plugin params =
     (if plugin = ''http2https'' then Some (HTTP2HTTPSPluginOptions (key_String params ''plugin_local_addr''))
      else if plugin = ''http_proxy'' then Some (HTTPProxyPluginOptions (key_String params ''plugin_http_user'') (key_String params ''plugin_http_passwd''))
      else if plugin = ''https2http'' then Some (HTTPS2HTTPPluginOptions (key_String params ''plugin_local_addr'') None)
      else if plugin = ''https2https'' then Some (HTTPS2HTTPSPluginOptions (key_String params ''plugin_local_addr'') None)
      else if plugin = ''socks5'' then Some (Socks5PluginOptions (key_String params ''plugin_user'') (key_String params ''plugin_passwd''))
      else if plugin = ''static_file'' then Some (StaticFilePluginOptions (key_String params ''plugin_local_path''))
      else if plugin = ''unix_domain_socket'' then Some (UnixDomainSocketPluginOptions (key_String params ''plugin_unix_path''))
      else None)"

definition Convert_ProxyConf_To_v1_Base :: "BaseProxyConf \<Rightarrow> ProxyBaseConfig" where
  "Convert_ProxyConf_To_v1_Base base =
     \<lparr>pb_Name = lp_ProxyName base, pb_Type = lp_ProxyType base, pb_Enabled = None, pb_Annotations = [],
      pb_Transport = \<lparr>pt_UseEncryption = lp_UseEncryption base, pt_UseCompression = lp_UseCompression base, pt_BandwidthLimit = lp_BandwidthLimit base,
        pt_BandwidthLimitMode = lp_BandwidthLimitMode base, pt_ProxyProtocolVersion = lp_ProxyProtocolVersion base\<rparr>,
      pb_Metadatas = lp_Metas base, pb_LoadBalancer = \<lparr>lb_Group = lp_Group base, lb_GroupKey = lp_GroupKey base\<rparr>,
      pb_HealthCheck = \<lparr>hc_Type = lp_HealthCheckType base, hc_TimeoutSeconds = lp_HealthCheckTimeoutS base, hc_MaxFailed = lp_HealthCheckMaxFailed base,
        hc_IntervalSeconds = lp_HealthCheckIntervalS base, hc_Path = lp_HealthCheckURL base, hc_HTTPHeaders = []\<rparr>,
      pb_LocalIP = lp_LocalIP base, pb_LocalPort = lp_LocalPort base, pb_PluginType = lp_Plugin base,
      pb_Plugin = convert_plugin (lp_Plugin base) (lp_PluginParams base)\<rparr>"

fun Convert_ProxyConf_To_v1 :: "ProxyConf \<Rightarrow> ProxyConfigurer" where
  "Convert_ProxyConf_To_v1 (L_TCPProxyConf b p) = TCPConf (ProxyBaseConfig.extend (Convert_ProxyConf_To_v1_Base b) (TCPProxyConfig.fields p))"
| "Convert_ProxyConf_To_v1 (L_UDPProxyConf b p) = UDPConf (ProxyBaseConfig.extend (Convert_ProxyConf_To_v1_Base b) (UDPProxyConfig.fields p))"
| "Convert_ProxyConf_To_v1 (L_HTTPProxyConf b d locs u w rewrite hs route) =
     HTTPConf (ProxyBaseConfig.extend (Convert_ProxyConf_To_v1_Base b) (HTTPProxyConfig.fields d locs u w rewrite hs [] route))"
| "Convert_ProxyConf_To_v1 (L_HTTPSProxyConf b d) = HTTPSConf (ProxyBaseConfig.extend (Convert_ProxyConf_To_v1_Base b) (HTTPSProxyConfig.fields d))"
| "Convert_ProxyConf_To_v1 (L_TCPMuxProxyConf b d u w route mux) =
     TCPMuxConf (ProxyBaseConfig.extend (Convert_ProxyConf_To_v1_Base b) (TCPMuxProxyConfig.fields d u w route mux))"
| "Convert_ProxyConf_To_v1 (L_STCPProxyConf b _ sk us) = STCPConf (ProxyBaseConfig.extend (Convert_ProxyConf_To_v1_Base b) (STCPProxyConfig.fields sk us))"
| "Convert_ProxyConf_To_v1 (L_SUDPProxyConf b _ sk us) = SUDPConf (ProxyBaseConfig.extend (Convert_ProxyConf_To_v1_Base b) (SUDPProxyConfig.fields sk us))"
| "Convert_ProxyConf_To_v1 (L_XTCPProxyConf b _ sk us) = XTCPConf (ProxyBaseConfig.extend (Convert_ProxyConf_To_v1_Base b) (XTCPProxyConfig.fields sk us None))"

definition Convert_VisitorConf_To_v1_Base :: "BaseVisitorConf \<Rightarrow> VisitorBaseConfig" where
  "Convert_VisitorConf_To_v1_Base base =
     \<lparr>vb_Name = lv_ProxyName base, vb_Type = lv_ProxyType base, vb_Enabled = None,
      vb_Transport = \<lparr>vt_UseEncryption = lv_UseEncryption base, vt_UseCompression = lv_UseCompression base\<rparr>,
      vb_SecretKey = lv_Sk base, vb_ServerUser = lv_ServerUser base, vb_ServerName = lv_ServerName base, vb_BindAddr = lv_BindAddr base, vb_BindPort = lv_BindPort base,
      vb_PluginType = [], vb_PluginDestinationIP = None\<rparr>"

fun Convert_VisitorConf_To_v1 :: "VisitorConf \<Rightarrow> VisitorConfigurer" where
  "Convert_VisitorConf_To_v1 (L_STCPVisitorConf b) = STCPVisitorConf (Convert_VisitorConf_To_v1_Base b)"
| "Convert_VisitorConf_To_v1 (L_SUDPVisitorConf b) = SUDPVisitorConf (Convert_VisitorConf_To_v1_Base b)"
| "Convert_VisitorConf_To_v1 (L_XTCPVisitorConf b p keep n i f ms) =
     XTCPVisitorConf (VisitorBaseConfig.extend (Convert_VisitorConf_To_v1_Base b) (XTCPVisitorConfig.fields p keep n i f ms None))"

section \<open>Sections with ranges of ports\<close>

text \<open>A section \<^verbatim>\<open>[range:x]\<close> stands for as many sections as its ranges have ports. The file is a parameter with the two operations on it that the code calls:
  \<open>newSection\<close> and \<open>newKey\<close>, which fail with \<open>None\<close>.\<close>

record 'f ini_ops =
  io_NewSection :: "'f \<Rightarrow> string \<Rightarrow> 'f option"
  io_NewKey :: "'f \<Rightarrow> string \<Rightarrow> string \<Rightarrow> string \<Rightarrow> 'f option"

fun copySection :: "'f ini_ops \<Rightarrow> string \<Rightarrow> string_map \<Rightarrow> 'f \<Rightarrow> 'f" where
  "copySection ops target [] f = f"
| "copySection ops target ((k, v) # ks) f = copySection ops target ks (case io_NewKey ops f target k v of None \<Rightarrow> f | Some f' \<Rightarrow> f')"

definition template_name :: "string \<Rightarrow> nat \<Rightarrow> string" where
  "template_name p i = p @ ''_'' @ itoa (int i)"

definition render_one :: "'f ini_ops \<Rightarrow> string_map \<Rightarrow> string \<Rightarrow> int \<Rightarrow> int \<Rightarrow> 'f \<Rightarrow> (legacy_load_error, 'f) result" where
  "render_one ops ks tmpname l r f =
     (case io_NewSection ops f tmpname of
        None \<Rightarrow> err IniFailed
      | Some f \<Rightarrow>
          (case io_NewKey ops (copySection ops tmpname ks f) tmpname ''local_port'' (itoa l) of
             None \<Rightarrow> err IniFailed
           | Some f \<Rightarrow> (case io_NewKey ops f tmpname ''remote_port'' (itoa r) of None \<Rightarrow> err IniFailed | Some f \<Rightarrow> ok f)))"

fun render_loop :: "'f ini_ops \<Rightarrow> string_map \<Rightarrow> string \<Rightarrow> nat \<Rightarrow> (int \<times> int) list \<Rightarrow> 'f \<Rightarrow> (legacy_load_error, 'f) result" where
  "render_loop ops ks p i [] f = ok f"
| "render_loop ops ks p i ((l, r) # ports) f =
     (case render_one ops ks (template_name p i) l r f of Inl e \<Rightarrow> err e | Inr f' \<Rightarrow> render_loop ops ks p (Suc i) ports f')"

definition range_prefix :: "string \<Rightarrow> string" where
  "range_prefix name = trim_space (if has_prefix name ''range:'' then drop 6 name else name)"

definition renderRangeProxyTemplates :: "'f ini_ops \<Rightarrow> ini_section \<Rightarrow> 'f \<Rightarrow> (legacy_load_error, 'f) result option" where
  "renderRangeProxyTemplates ops sec f =
     (let localPortStr = key_String (snd sec) ''local_port''; remotePortStr = key_String (snd sec) ''remote_port''
      in if localPortStr = [] \<or> remotePortStr = [] then Some (err PortsEmpty)
         else case ParseRangeNumbers localPortStr of
           None \<Rightarrow> None
         | Some (Inl e) \<Rightarrow> Some (err (PortsSyntax e))
         | Some (Inr localPorts) \<Rightarrow>
             (case ParseRangeNumbers remotePortStr of
                None \<Rightarrow> None
              | Some (Inl e) \<Rightarrow> Some (err (PortsSyntax e))
              | Some (Inr remotePorts) \<Rightarrow>
                  if length localPorts \<noteq> length remotePorts then Some (err PortsDiffer)
                  else if localPorts = [] then Some (err PortsNone)
                  else Some (render_loop ops (snd sec) (range_prefix (fst sec)) 0 (zip localPorts remotePorts) f)))"

section \<open>Loading all proxies and visitors\<close>

definition skipped_section :: "string \<Rightarrow> bool" where
  "skipped_section name \<longleftrightarrow> name = ''DEFAULT'' \<or> name = ''common'' \<or> has_prefix name ''range:''"

record ini_env =
  ie_proxy :: "string_map \<Rightarrow> ProxyConf \<Rightarrow> ProxyConf option"
  ie_visitor :: "string_map \<Rightarrow> VisitorConf \<Rightarrow> VisitorConf option"
  ie_scale :: "string \<Rightarrow> int \<Rightarrow> int option"

fun load_sections ::
  "ini_env \<Rightarrow> string \<Rightarrow> string list \<Rightarrow> ini_section list \<Rightarrow> (string \<times> ProxyConf) list \<times> (string \<times> VisitorConf) list
     \<Rightarrow> (legacy_load_error, (string \<times> ProxyConf) list \<times> (string \<times> VisitorConf) list) result" where
  "load_sections env p start [] confs = ok confs"
| "load_sections env p start ((name, ks) # secs) (proxyConfs, visitorConfs) =
     (if skipped_section name \<or> (start \<noteq> [] \<and> name \<notin> set start) then load_sections env p start secs (proxyConfs, visitorConfs)
      else if EmptyOr (key_String ks ''role'') ''server'' = ''server'' then
        (case NewProxyConfFromIni (ie_proxy env) (ie_scale env) name ks of
           Inl e \<Rightarrow> err (BadProxy name e)
         | Inr c \<Rightarrow> load_sections env p start secs (map_put (p @ name) c proxyConfs, visitorConfs))
      else if key_String ks ''role'' = ''visitor'' then
        (case NewVisitorConfFromIni (ie_visitor env) name ks of
           Inl e \<Rightarrow> err (BadVisitor name e)
         | Inr c \<Rightarrow> load_sections env p start secs (proxyConfs, map_put (p @ name) c visitorConfs))
      else err (BadRole name (key_String ks ''role'')))"

text \<open>\<open>sections\<close> is \<^verbatim>\<open>f.Sections()\<close>; those of ranges are rendered first.\<close>

fun render_sections :: "'f ini_ops \<Rightarrow> ini_section list \<Rightarrow> 'f \<Rightarrow> (legacy_load_error, 'f) result option" where
  "render_sections ops [] f = Some (ok f)"
| "render_sections ops (sec # secs) f =
     (if \<not> has_prefix (fst sec) ''range:'' then render_sections ops secs f
      else case renderRangeProxyTemplates ops sec f of
        None \<Rightarrow> None
      | Some (Inl e) \<Rightarrow> Some (err (BadTemplate (fst sec) e))
      | Some (Inr f') \<Rightarrow> render_sections ops secs f')"

definition LoadAllProxyConfsFromIni ::
  "'f ini_ops \<Rightarrow> ('f \<Rightarrow> ini_section list) \<Rightarrow> ini_env \<Rightarrow> string \<Rightarrow> 'f \<Rightarrow> string list
     \<Rightarrow> (legacy_load_error, (string \<times> ProxyConf) list \<times> (string \<times> VisitorConf) list) result option" where
  "LoadAllProxyConfsFromIni ops sections env user f start =
     (case render_sections ops (sections f) f of
        None \<Rightarrow> None
      | Some (Inl e) \<Rightarrow> Some (err e)
      | Some (Inr f') \<Rightarrow> Some (load_sections env (if user = [] then [] else user @ ''.'') start (sections f') ([], [])))"

section \<open>Old and new defaults\<close>

text \<open>A legacy file without settings is the same as a new file without settings, on the client in everything and on the server in everything but the address of the web server.\<close>

lemma legacy_client_default:
  "ClientCommon_Complete http_proxy (Convert_ClientCommonConf_To_v1 GetDefaultClientConf) = ClientCommon_Complete http_proxy zero_client"
  by (simp add: Convert_ClientCommonConf_To_v1_def GetDefaultClientConf_def getDefaultBaseConf_def legacy_BaseConfig.defs ClientCommonConf.defs zero_client_def zero_auth_def zero_oidc_def zero_transport_def zero_web_def zero_log_def legacy_scopes_def
      ClientCommon_Complete_def AuthClient_Complete_def ClientTransport_Complete_def TLSClient_Complete_def EmptyOr_def EmptyOr_ptr_def FromPtr_def Let_def QUICOptions.defs TLSClientConfig.defs TLSConfig.defs AuthOIDCClientConfig.defs)

lemma no_ranges_error: "NewPortsRangeSliceFromString [] = err NotANumber"
  by (simp add: NewPortsRangeSliceFromString_def trim_space_def parse_item_def atoi_def)

lemma legacy_server_default:
  "Server_Complete (Convert_ServerCommonConf_To_v1 GetDefaultServerConf)
     = (Server_Complete zero_server)\<lparr>sf_WebServer := (sf_WebServer (Server_Complete zero_server))\<lparr>ws_Addr := ''0.0.0.0''\<rparr>\<rparr>"
  by (simp add: Convert_ServerCommonConf_To_v1_def GetDefaultServerConf_def getDefaultBaseConf_def legacy_BaseConfig.defs ServerCommonConf.defs zero_server_def zero_server_auth_def zero_web_def zero_log_def legacy_scopes_def
      Server_Complete_def AuthServer_Complete_def ServerTransport_Complete_def WebServer_Complete_def Log_Complete_def EmptyOr_def EmptyOr_int_def EmptyOr_ptr_def FromPtr_def Let_def no_ranges_error
      QUICOptions.defs TLSServerConfig.defs TLSConfig.defs AuthOIDCServerConfig.defs ServerTransportConfig.defs)

theorem legacy_defaults_agree:
  "ClientCommon_Complete http_proxy (Convert_ClientCommonConf_To_v1 GetDefaultClientConf) = ClientCommon_Complete http_proxy zero_client
   \<and> Server_Complete (Convert_ServerCommonConf_To_v1 GetDefaultServerConf)
       = (Server_Complete zero_server)\<lparr>sf_WebServer := (sf_WebServer (Server_Complete zero_server))\<lparr>ws_Addr := ''0.0.0.0''\<rparr>\<rparr>"
  by (simp only: legacy_client_default legacy_server_default simp_thms)

text \<open>An error in \<open>allow_ports\<close> is dropped by the conversion, and a server without a list of ports allows all of them.\<close>

theorem bad_allow_ports_opens_all:
  assumes "NewPortsRangeSliceFromString (ld_AllowPortsStr conf) = err e"
  shows "freePorts (NewPortManager nt addr (sf_AllowPorts (Server_Complete (Convert_ServerCommonConf_To_v1 conf)))) = {MinPort..MaxPort}"
  using assms by (simp add: Convert_ServerCommonConf_To_v1_def Server_Complete_flat NewPortManager_def)

theorem bad_allow_ports_opens_all_witness:
  "freePorts (NewPortManager ''tcp'' ''0.0.0.0'' (sf_AllowPorts (Server_Complete (Convert_ServerCommonConf_To_v1 (GetDefaultServerConf\<lparr>ld_AllowPortsStr := ''2000-3000,4000x''\<rparr>))))) = {MinPort..MaxPort}"
proof -
  have "NewPortsRangeSliceFromString ''2000-3000,4000x'' = err NotANumber" by code_simp
  then show ?thesis by (intro bad_allow_ports_opens_all) simp
qed

text \<open>The profiling handlers that a legacy file asks for are lost when the dashboard is without TLS.\<close>

theorem legacy_pprof_needs_tls:
  "ws_PprofEnable (sf_WebServer (Server_Complete (Convert_ServerCommonConf_To_v1 conf))) \<longleftrightarrow> ld_DashboardTLSMode conf \<and> ld_PprofEnable conf"
  by (simp add: Convert_ServerCommonConf_To_v1_def Server_Complete_flat WebServer_Complete_def)

section \<open>Rendering of ranges\<close>

text \<open>What the INI package documents of its files: a new section is empty and one that exists already is kept; a new key has the value given and replaces that of an existing key.
  Both fail on an empty name only.\<close>

definition ini_laws :: "'f ini_ops \<Rightarrow> ('f \<Rightarrow> string \<Rightarrow> string \<Rightarrow> string option) \<Rightarrow> bool" where
  "ini_laws ops get \<longleftrightarrow>
     (\<forall>f s. s \<noteq> [] \<longrightarrow> (\<exists>f'. io_NewSection ops f s = Some f' \<and> get f' = get f))
   \<and> (\<forall>f s k v. k \<noteq> [] \<longrightarrow> (\<exists>f'. io_NewKey ops f s k v = Some f' \<and> get f' = (get f)(s := (get f s)(k \<mapsto> v))))"

lemma ini_NewSection: "ini_laws ops get \<Longrightarrow> s \<noteq> [] \<Longrightarrow> \<exists>f'. io_NewSection ops f s = Some f' \<and> get f' = get f"
  by (simp add: ini_laws_def)

lemma ini_NewKey: "ini_laws ops get \<Longrightarrow> k \<noteq> [] \<Longrightarrow> \<exists>f'. io_NewKey ops f s k v = Some f' \<and> get f' = (get f)(s := (get f s)(k \<mapsto> v))"
  by (simp add: ini_laws_def)

lemma copySection_get:
  assumes "ini_laws ops get" and "\<forall>(k, v) \<in> set ks. k \<noteq> []" and "distinct (map fst ks)"
  shows "get (copySection ops t ks f) = (get f)(t := get f t ++ map_of ks)"
  using assms(2,3)
proof (induction ks arbitrary: f)
  case (Cons kv ks)
  obtain k v where kv: "kv = (k, v)" by fastforce
  obtain f' where f': "io_NewKey ops f t k v = Some f'" "get f' = (get f)(t := (get f t)(k \<mapsto> v))"
    using ini_NewKey [OF assms(1), of k f t v] Cons.prems(1) kv by auto
  have "map_of ks k = None" using Cons.prems(2) kv by (simp add: map_of_eq_None_iff)
  then have "(m(k \<mapsto> v)) ++ map_of ks = m ++ (map_of ks)(k \<mapsto> v)" for m :: "string \<Rightarrow> string option"
    by (auto simp: map_add_def fun_eq_iff split: option.split)
  then have "get f' t ++ map_of ks = get f t ++ map_of (kv # ks)" using f'(2) kv by (simp only: fun_upd_same map_of.simps fst_conv snd_conv)
  moreover have "(get f')(t := m) = (get f)(t := m)" for m using f'(2) by (simp only: fun_upd_upd)
  moreover have "copySection ops t (kv # ks) f = copySection ops t ks f'" using kv f'(1) by simp
  moreover have "get (copySection ops t ks f') = (get f')(t := get f' t ++ map_of ks)" by (rule Cons.IH) (use Cons.prems in simp_all)
  ultimately show ?case by (simp only:)
qed simp

definition rendered :: "string_map \<Rightarrow> int \<Rightarrow> int \<Rightarrow> (string \<Rightarrow> string option) \<Rightarrow> string \<Rightarrow> string option" where
  "rendered ks l r m = (m ++ map_of ks)(''local_port'' \<mapsto> itoa l, ''remote_port'' \<mapsto> itoa r)"

lemma render_one_get:
  assumes "ini_laws ops get" and "\<forall>(k, v) \<in> set ks. k \<noteq> []" and "distinct (map fst ks)" and "t \<noteq> []"
  shows "\<exists>f'. render_one ops ks t l r f = ok f' \<and> get f' = (get f)(t := rendered ks l r (get f t))"
proof -
  obtain f1 where f1: "io_NewSection ops f t = Some f1" "get f1 = get f" using ini_NewSection [OF assms(1,4)] by blast
  obtain f2 where f2: "io_NewKey ops (copySection ops t ks f1) t ''local_port'' (itoa l) = Some f2"
    "get f2 = (get (copySection ops t ks f1))(t := (get (copySection ops t ks f1) t)(''local_port'' \<mapsto> itoa l))"
    using ini_NewKey [OF assms(1), of "''local_port''"] by blast
  obtain f3 where f3: "io_NewKey ops f2 t ''remote_port'' (itoa r) = Some f3" "get f3 = (get f2)(t := (get f2 t)(''remote_port'' \<mapsto> itoa r))"
    using ini_NewKey [OF assms(1), of "''remote_port''"] by blast
  show ?thesis using f1 f2 f3 copySection_get [OF assms(1,2,3), of t f1] by (simp add: render_one_def rendered_def)
qed

lemma template_name_inj: "template_name p i = template_name p j \<longleftrightarrow> i = j"
proof -
  have "i = j" if "nat_string i = nat_string j" using arg_cong [OF that, of digits_val] by (simp add: digits_val_nat_string)
  then show ?thesis by (simp add: template_name_def itoa_def) blast
qed

lemma template_name_not_Nil [simp]: "template_name p i \<noteq> []"
  by (simp add: template_name_def)

lemma render_loop_get:
  assumes "ini_laws ops get" and "\<forall>(k, v) \<in> set ks. k \<noteq> []" and "distinct (map fst ks)"
  shows "\<exists>f'. render_loop ops ks p i ports f = ok f'
    \<and> (\<forall>j < length ports. get f' (template_name p (i + j)) = rendered ks (fst (ports ! j)) (snd (ports ! j)) (get f (template_name p (i + j))))
    \<and> (\<forall>t. (\<forall>j < length ports. t \<noteq> template_name p (i + j)) \<longrightarrow> get f' t = get f t)"
proof (induction ports arbitrary: i f)
  case (Cons lr ports)
  obtain l r where lr: "lr = (l, r)" by fastforce
  obtain f1 where f1: "render_one ops ks (template_name p i) l r f = ok f1"
    "get f1 = (get f)(template_name p i := rendered ks l r (get f (template_name p i)))"
    using render_one_get [OF assms, of "template_name p i"] by fastforce
  obtain f2 where f2: "render_loop ops ks p (Suc i) ports f1 = ok f2"
    and new: "\<forall>j < length ports. get f2 (template_name p (Suc i + j)) = rendered ks (fst (ports ! j)) (snd (ports ! j)) (get f1 (template_name p (Suc i + j)))"
    and old: "\<forall>t. (\<forall>j < length ports. t \<noteq> template_name p (Suc i + j)) \<longrightarrow> get f2 t = get f1 t"
    using Cons.IH [of "Suc i" f1] by blast
  have "get f2 (template_name p (i + j)) = rendered ks (fst ((lr # ports) ! j)) (snd ((lr # ports) ! j)) (get f (template_name p (i + j)))"
    if "j < length (lr # ports)" for j
    using that new old f1 lr by (cases j) (auto simp: template_name_inj)
  moreover have "get f2 t = get f t" if t: "\<forall>j < length (lr # ports). t \<noteq> template_name p (i + j)" for t
  proof -
    have "t \<noteq> template_name p (Suc i + j)" if "j < length ports" for j using t [rule_format, of "Suc j"] that by simp
    then show ?thesis using old f1 t [rule_format, of 0] by simp
  qed
  ultimately show ?case using f1 f2 lr by simp
qed simp

text \<open>A range section whose two lists name the same number of ports, at least one, is rendered into that many sections. The \<open>i\<close>-th has the \<open>i\<close>-th pair of ports
  and the other keys of the range section, over those it had; no other section changes.\<close>

theorem range_section_rendered:
  assumes laws: "ini_laws ops get" and keys: "\<forall>(k, v) \<in> set ks. k \<noteq> []" "distinct (map fst ks)"
    and local: "map_of ks ''local_port'' = Some ls" "ls \<noteq> []" "ParseRangeNumbers ls = Some (ok localPorts)"
    and remote: "map_of ks ''remote_port'' = Some rs" "rs \<noteq> []" "ParseRangeNumbers rs = Some (ok remotePorts)"
    and same: "length localPorts = length remotePorts" "localPorts \<noteq> []"
  shows "\<exists>f'. renderRangeProxyTemplates ops (name, ks) f = Some (ok f')
    \<and> (\<forall>i < length localPorts. get f' (template_name (range_prefix name) i) ''local_port'' = Some (itoa (localPorts ! i))
        \<and> get f' (template_name (range_prefix name) i) ''remote_port'' = Some (itoa (remotePorts ! i))
        \<and> (\<forall>k. k \<noteq> ''local_port'' \<and> k \<noteq> ''remote_port'' \<longrightarrow>
             get f' (template_name (range_prefix name) i) k = (get f (template_name (range_prefix name) i) ++ map_of ks) k))
    \<and> (\<forall>t. (\<forall>i < length localPorts. t \<noteq> template_name (range_prefix name) i) \<longrightarrow> get f' t = get f t)"
proof -
  obtain f' where f': "render_loop ops ks (range_prefix name) 0 (zip localPorts remotePorts) f = ok f'"
    and new: "\<forall>j < length (zip localPorts remotePorts). get f' (template_name (range_prefix name) (0 + j))
      = rendered ks (fst (zip localPorts remotePorts ! j)) (snd (zip localPorts remotePorts ! j)) (get f (template_name (range_prefix name) (0 + j)))"
    and old: "\<forall>t. (\<forall>j < length (zip localPorts remotePorts). t \<noteq> template_name (range_prefix name) (0 + j)) \<longrightarrow> get f' t = get f t"
    using render_loop_get [OF laws keys, of "range_prefix name" 0 "zip localPorts remotePorts" f] by blast
  have "renderRangeProxyTemplates ops (name, ks) f = Some (ok f')"
    using local remote same f' by (simp add: renderRangeProxyTemplates_def key_String_def)
  then show ?thesis using new old same by (simp add: rendered_def)
qed

section \<open>Which sections are loaded\<close>

definition started :: "string list \<Rightarrow> string \<Rightarrow> bool" where
  "started start name \<longleftrightarrow> \<not> skipped_section name \<and> (start = [] \<or> name \<in> set start)"

definition role_server :: "string_map \<Rightarrow> bool" where
  "role_server ks \<longleftrightarrow> EmptyOr (key_String ks ''role'') ''server'' = ''server''"

lemma legacy_base_more [simp]: "legacy_GetBaseConfig (unmarshal_more ks c) = legacy_GetBaseConfig c"
  by (cases c) simp_all

lemma legacy_base_with [simp]: "legacy_GetBaseConfig (with_base b c) = b"
  by (cases c) simp_all

lemma decorate_name: "decorate scale name ks b = ok b' \<Longrightarrow> lp_ProxyName b' = name"
  by (auto simp: decorate_def Let_def split: option.splits prod.splits)

lemma NewProxyConfFromIni_name: "NewProxyConfFromIni mapTo scale name ks = ok c \<Longrightarrow> lp_ProxyName (legacy_GetBaseConfig c) = name"
  by (auto simp: NewProxyConfFromIni_def UnmarshalFromIni_def Let_def decorate_name split: option.splits sum.splits)

lemma converted_base [simp]: "GetBaseConfig (Convert_ProxyConf_To_v1 c) = Convert_ProxyConf_To_v1_Base (legacy_GetBaseConfig c)"
  by (cases c) (simp_all add: GetBaseConfig_def ProxyBaseConfig.defs)

lemma converted_name [simp]: "pc_name (Convert_ProxyConf_To_v1 c) = lp_ProxyName (legacy_GetBaseConfig c)"
  by (simp add: Convert_ProxyConf_To_v1_Base_def)

lemma visitor_name [simp]: "vc_name (Convert_VisitorConf_To_v1 (visitor_UnmarshalFromIni name c)) = name"
  by (cases c) (simp_all add: Convert_VisitorConf_To_v1_Base_def visitor_unmarshalFromIni_def VisitorBaseConfig.defs)

lemma NewVisitorConfFromIni_name: "NewVisitorConfFromIni mapTo name ks = ok c \<Longrightarrow> vc_name (Convert_VisitorConf_To_v1 c) = name"
  by (auto simp: NewVisitorConfFromIni_def Let_def split: option.splits)

definition keyed :: "string \<Rightarrow> (string \<times> ProxyConf) list \<times> (string \<times> VisitorConf) list \<Rightarrow> bool" where
  "keyed p confs \<longleftrightarrow>
     (\<forall>k c. (k, c) \<in> set (fst confs) \<longrightarrow> k = p @ pc_name (Convert_ProxyConf_To_v1 c))
   \<and> (\<forall>k c. (k, c) \<in> set (snd confs) \<longrightarrow> k = p @ vc_name (Convert_VisitorConf_To_v1 c))"

lemma keyed_proxy: "keyed p (ps, vs) \<Longrightarrow> NewProxyConfFromIni mapTo scale n ks = ok c \<Longrightarrow> keyed p (map_put (p @ n) c ps, vs)"
  using set_map_put [of "p @ n" c ps] by (auto simp: keyed_def NewProxyConfFromIni_name simp del: converted_base)

lemma keyed_visitor: "keyed p (ps, vs) \<Longrightarrow> NewVisitorConfFromIni mapTo n ks = ok c \<Longrightarrow> keyed p (ps, map_put (p @ n) c vs)"
  using set_map_put [of "p @ n" c vs] by (auto simp: keyed_def NewVisitorConfFromIni_name simp del: converted_base)

definition proxy_sections :: "string \<Rightarrow> string list \<Rightarrow> ini_section list \<Rightarrow> string set" where
  "proxy_sections p start secs = {p @ n |n ks. (n, ks) \<in> set secs \<and> started start n \<and> role_server ks}"

definition visitor_sections :: "string \<Rightarrow> string list \<Rightarrow> ini_section list \<Rightarrow> string set" where
  "visitor_sections p start secs = {p @ n |n ks. (n, ks) \<in> set secs \<and> started start n \<and> \<not> role_server ks}"

lemma proxy_sections_Cons: "proxy_sections p start ((n, ks) # secs) = (if started start n \<and> role_server ks then insert (p @ n) else id) (proxy_sections p start secs)"
  by (auto simp: proxy_sections_def)

lemma visitor_sections_Cons: "visitor_sections p start ((n, ks) # secs) = (if started start n \<and> \<not> role_server ks then insert (p @ n) else id) (visitor_sections p start secs)"
  by (auto simp: visitor_sections_def)

lemma load_sections_ok:
  "load_sections env p start secs (ps, vs) = ok (ps', vs') \<Longrightarrow> keyed p (ps, vs) \<Longrightarrow>
     keyed p (ps', vs') \<and> fst ` set ps' = fst ` set ps \<union> proxy_sections p start secs \<and> fst ` set vs' = fst ` set vs \<union> visitor_sections p start secs"
proof (induction secs arbitrary: ps vs)
  case Nil
  then show ?case by (simp add: proxy_sections_def visitor_sections_def)
next
  case (Cons sec secs)
  obtain n ks where sec: "sec = (n, ks)" by fastforce
  consider (skip) "\<not> started start n" | (proxy) "started start n" "role_server ks" | (visitor) "started start n" "\<not> role_server ks" by blast
  then show ?case
  proof cases
    case skip
    then show ?thesis using Cons.IH [of ps vs] Cons.prems sec by (auto simp: started_def proxy_sections_Cons visitor_sections_Cons)
  next
    case proxy
    then obtain c where c: "NewProxyConfFromIni (ie_proxy env) (ie_scale env) n ks = ok c" "load_sections env p start secs (map_put (p @ n) c ps, vs) = ok (ps', vs')"
      using Cons.prems sec by (auto simp: started_def role_server_def split: sum.splits)
    then show ?thesis using Cons.IH [OF c(2) keyed_proxy [OF Cons.prems(2) c(1)]] proxy sec by (simp add: keys_map_put proxy_sections_Cons visitor_sections_Cons)
  next
    case visitor
    then obtain c where c: "NewVisitorConfFromIni (ie_visitor env) n ks = ok c" "load_sections env p start secs (ps, map_put (p @ n) c vs) = ok (ps', vs')"
      using Cons.prems sec by (auto simp: started_def role_server_def split: sum.splits if_splits)
    then show ?thesis using Cons.IH [OF c(2) keyed_visitor [OF Cons.prems(2) c(1)]] visitor sec by (simp add: keys_map_put proxy_sections_Cons visitor_sections_Cons)
  qed
qed

text \<open>Loading a legacy file yields exactly the sections that are to be started, those without the role of a visitor as proxies and the others as visitors. Their keys are the names that
  the client sends to the server for the converted configurations, with the user's name before them.\<close>

theorem legacy_sections_loaded:
  assumes load: "LoadAllProxyConfsFromIni ops sections env user f start = Some (ok (proxyConfs, visitorConfs))"
    and render: "render_sections ops (sections f) f = Some (ok f')"
  shows "set (map fst proxyConfs) = {AddUserPrefix user n |n ks. (n, ks) \<in> set (sections f') \<and> started start n \<and> role_server ks}
    \<and> set (map fst visitorConfs) = {AddUserPrefix user n |n ks. (n, ks) \<in> set (sections f') \<and> started start n \<and> \<not> role_server ks}
    \<and> (\<forall>k c. (k, c) \<in> set proxyConfs \<longrightarrow> k = AddUserPrefix user (pc_name (Convert_ProxyConf_To_v1 c)))
    \<and> (\<forall>k c. (k, c) \<in> set visitorConfs \<longrightarrow> k = AddUserPrefix user (vc_name (Convert_VisitorConf_To_v1 c)))"
proof -
  let ?p = "if user = [] then [] else user @ ''.''"
  have p: "AddUserPrefix user n = ?p @ n" for n by (simp add: AddUserPrefix_def)
  from load render have "load_sections env ?p start (sections f') ([], []) = ok (proxyConfs, visitorConfs)"
    by (simp add: LoadAllProxyConfsFromIni_def)
  from load_sections_ok [OF this] show ?thesis
    by (simp add: keyed_def p proxy_sections_def visitor_sections_def del: converted_name)
qed

section \<open>Witnesses\<close>

text \<open>A file as a list of sections.\<close>

definition demo_get :: "ini_section list \<Rightarrow> string \<Rightarrow> string \<Rightarrow> string option" where
  "demo_get f s k = (case map_of f s of None \<Rightarrow> None | Some ks \<Rightarrow> map_of ks k)"

definition demo_ini :: "ini_section list ini_ops" where
  "demo_ini =
     \<lparr>io_NewSection = (\<lambda>f s. if s = [] then None else Some (case map_of f s of None \<Rightarrow> f @ [(s, [])] | Some _ \<Rightarrow> f)),
      io_NewKey = (\<lambda>f s k v. if k = [] then None else Some (map_put s (map_put k v (case map_of f s of None \<Rightarrow> [] | Some ks \<Rightarrow> ks)) f))\<rparr>"

lemma demo_ini_laws: "ini_laws demo_ini demo_get"
  by (auto simp: ini_laws_def demo_ini_def demo_get_def fun_eq_iff map_add_def split: option.splits if_splits)

definition demo_range :: string_map where
  "demo_range = [(''type'', ''tcp''), (''local_port'', ''22,80-81''), (''remote_port'', ''6000-6002'')]"

lemma demo_range_ports: "ParseRangeNumbers ''22,80-81'' = Some (ok [22, 80, 81])" "ParseRangeNumbers ''6000-6002'' = Some (ok [6000, 6001, 6002])"
proof -
  have sp: "split_on (CHR '','') (trim_space ''22,80-81'') = [''22'', ''80-81'']" "split_on (CHR '','') (trim_space ''6000-6002'') = [''6000-6002'']" by code_simp+
  have pi: "parse_item ''22'' = ok (One 22)" "parse_item ''80-81'' = ok (Span 80 81)" "parse_item ''6000-6002'' = ok (Span 6000 6002)" by code_simp+
  show "ParseRangeNumbers ''22,80-81'' = Some (ok [22, 80, 81])" "ParseRangeNumbers ''6000-6002'' = Some (ok [6000, 6001, 6002])"
    by (simp_all add: ParseRangeNumbers_def sp pi range_loop.simps int64_ok_def)
qed

theorem range_section_rendered_witness:
  "\<exists>f'. renderRangeProxyTemplates demo_ini (''range:web'', demo_range) [(''range:web'', demo_range)] = Some (ok f')
     \<and> demo_get f' ''web_1'' ''local_port'' = Some ''80'' \<and> demo_get f' ''web_1'' ''remote_port'' = Some ''6001'' \<and> demo_get f' ''web_1'' ''type'' = Some ''tcp''"
proof -
  have keys: "\<forall>(k, v) \<in> set demo_range. k \<noteq> []" "distinct (map fst demo_range)" by (simp_all add: demo_range_def)
  have n: "template_name (range_prefix ''range:web'') (Suc 0) = ''web_1''" "itoa 80 = ''80''" "itoa 6001 = ''6001''"
    by (simp_all add: template_name_def range_prefix_def has_prefix_def trim_space_def is_space_def itoa_def nat_string.simps digit_char_def char_of_def bit_0)
  obtain f' where f': "renderRangeProxyTemplates demo_ini (''range:web'', demo_range) [(''range:web'', demo_range)] = Some (ok f')"
    and g: "\<forall>i < length [22, 80, 81 :: int]. demo_get f' (template_name (range_prefix ''range:web'') i) ''local_port'' = Some (itoa ([22, 80, 81] ! i))
        \<and> demo_get f' (template_name (range_prefix ''range:web'') i) ''remote_port'' = Some (itoa ([6000, 6001, 6002] ! i))
        \<and> (\<forall>k. k \<noteq> ''local_port'' \<and> k \<noteq> ''remote_port'' \<longrightarrow>
             demo_get f' (template_name (range_prefix ''range:web'') i) k = (demo_get [(''range:web'', demo_range)] (template_name (range_prefix ''range:web'') i) ++ map_of demo_range) k)"
    using range_section_rendered [OF demo_ini_laws keys, of "''22,80-81''" "[22, 80, 81]" "''6000-6002''" "[6000, 6001, 6002]" "''range:web''" "[(''range:web'', demo_range)]"]
    by (auto simp: demo_range_ports demo_range_def)
  have "map_of demo_range ''type'' = Some ''tcp''" by (simp add: demo_range_def)
  then show ?thesis using f' g [rule_format, of "Suc 0"] by (auto simp: n intro: map_add_find_right)
qed

definition demo_ini_env :: ini_env where
  "demo_ini_env = \<lparr>ie_proxy = (\<lambda>_. Some), ie_visitor = (\<lambda>_. Some), ie_scale = (\<lambda>_ _. None)\<rparr>"

definition demo_file :: "ini_section list" where
  "demo_file = [(''common'', []), (''ssh'', [(''type'', ''tcp'')]), (''peer'', [(''role'', ''visitor''), (''type'', ''stcp'')])]"

theorem legacy_sections_loaded_witness:
  "\<exists>proxyConfs visitorConfs. LoadAllProxyConfsFromIni demo_ini id demo_ini_env ''ann'' demo_file [] = Some (ok (proxyConfs, visitorConfs))
     \<and> ''ann.ssh'' \<in> set (map fst proxyConfs) \<and> ''ann.peer'' \<in> set (map fst visitorConfs)"
proof -
  have r: "render_sections demo_ini (id demo_file) demo_file = Some (ok demo_file)"
    by (simp add: demo_file_def has_prefix_def)
  obtain ps vs where l: "LoadAllProxyConfsFromIni demo_ini id demo_ini_env ''ann'' demo_file [] = Some (ok (ps, vs))"
    using r by (simp add: LoadAllProxyConfsFromIni_def)
      (simp add: demo_file_def demo_ini_env_def skipped_section_def has_prefix_def EmptyOr_def key_String_def NewProxyConfFromIni_def NewConfByType_def UnmarshalFromIni_def decorate_def
        NewVisitorConfFromIni_def DefaultVisitorConf_def Let_def)
  have "(''ssh'', [(''type'', ''tcp'')]) \<in> set (id demo_file)" "started [] ''ssh''" "role_server [(''type'', ''tcp'')]"
    "(''peer'', [(''role'', ''visitor''), (''type'', ''stcp'')]) \<in> set (id demo_file)" "started [] ''peer''" "\<not> role_server [(''role'', ''visitor''), (''type'', ''stcp'')]"
    "''ann.ssh'' = AddUserPrefix ''ann'' ''ssh''" "''ann.peer'' = AddUserPrefix ''ann'' ''peer''"
    by (simp_all add: demo_file_def started_def skipped_section_def has_prefix_def role_server_def EmptyOr_def key_String_def AddUserPrefix_def)
  then show ?thesis using l legacy_sections_loaded [OF l r] by blast
qed

end
