(* ===== verification/Spec2Isabelle.thy ===== *)
theory Spec2Isabelle
  imports Ports Port_Ranges Client_Registry Vhost_Mux Listener_Groups Http_Group Nathole_Controller Auth_Token
    Visitor_Manager Server_Proxies Server_Service Server_Metrics Backoff Client_Service End_To_End
    User_Conn Session_Start Vnet Rate_Limit Client_Visitors Udp_Forward
    Dashboard Oidc_Auth Ssh_Gateway Transport Udp_Proxies Legacy_Config
begin

text \<open>
  A verification of frp, the reverse proxy: the server frps (\<^verbatim>\<open>src/server\<close>), the client frpc
  (\<^verbatim>\<open>src/client\<close>) and what they share (\<^verbatim>\<open>src/pkg\<close>).

  \<^bold>\<open>The program.\<close> A client logs in over a control connection. The server creates a control for the session,
  registers the proxies the client asks for, and takes resources for them: ports, routes of
  virtual hosts, names of visitors, NAT hole punching clients. Users' connections are joined with work
  connections, which the client opens on demand and the server keeps in a pool. The client runs the
  proxies and visitors of its configuration, which comes from a file and from a store that the
  administration interface changes while the client runs.

  \<^bold>\<open>Conventions.\<close> \<open>Prelude\<close> says how Go values are represented. State is passed explicitly; an error is the left
  side of a sum or an \<open>option\<close>; a step of an interleaving is a critical section of the code, or a
  few that follow each other (below); what the operating system, the clock, the random
  generator and third-party packages answer is an argument. Names are those of the code, with a prefix where
  several types have a method of that name. Interfaces between components are locales, each interpreted
  on the model of the component that provides it.

  \<^bold>\<open>The server's resources.\<close>
  \<^item> \<open>Ports\<close> (\<^verbatim>\<open>server/ports/ports.go\<close>): every port is free or used, never both; a port is granted only if it
    is allowed and free. \<open>Port_Ranges\<close> (\<^verbatim>\<open>pkg/config/types/types.go\<close>, \<^verbatim>\<open>pkg/util/util/util.go\<close>): the ranges of
    allowed ports as text, and the loop that counts them, in 64 bits and possibly without end.
  \<^item> \<open>Vhost_Router\<close>, \<open>Http_Util\<close>, \<open>Vhost_Mux\<close> (\<^verbatim>\<open>pkg/util/vhost\<close>, \<^verbatim>\<open>pkg/util/tcpmux\<close>, \<^verbatim>\<open>pkg/util/http\<close>): the route table, which
    refines a longest match, the order in which host names and wildcards are tried, and the checks of
    user and password.
  \<^item> \<open>Group_Base\<close>, \<open>Listener_Groups\<close>, \<open>Http_Group\<close> (\<^verbatim>\<open>server/group\<close>): load balancing groups; a group with members holds its port
    or route, the retry loop ends, a request always finds a member.
  \<^item> \<open>Name_Table\<close>, \<open>Visitor_Manager\<close> (\<^verbatim>\<open>server/visitor\<close>, \<^verbatim>\<open>pkg/util/net/listener.go\<close>), \<open>Nathole_Analysis\<close>, \<open>Nathole_Controller\<close>
    (\<^verbatim>\<open>pkg/nathole\<close>): names taken by one owner at a time, connections of visitors, the classification of NATs and
    the choice of behaviours, the sessions of the hole punching controller.
  \<^item> \<open>Client_Registry\<close> (\<^verbatim>\<open>server/registry\<close>), \<open>Date_Counter\<close>, \<open>Server_Metrics\<close> (\<^verbatim>\<open>pkg/util/metric\<close>, \<^verbatim>\<open>pkg/metrics/mem\<close>): who is connected, and
    what is counted.

  \<^bold>\<open>Sessions on the server.\<close>
  \<^item> \<open>Auth_Token\<close> (\<^verbatim>\<open>pkg/auth/token.go\<close>), \<open>Oidc_Auth\<close> (\<^verbatim>\<open>pkg/auth/oidc.go\<close>), \<open>Server_Plugin\<close> (\<^verbatim>\<open>pkg/plugin/server/manager.go\<close>): who may log in.
  \<^item> \<open>Proxy_Config\<close> (\<^verbatim>\<open>pkg/config/v1/proxy.go\<close>, \<^verbatim>\<open>validation\<close>): configurations survive the way to the server.
  \<^item> \<open>Server_Proxy\<close>, \<open>Server_Proxies\<close> (\<^verbatim>\<open>server/proxy\<close>): running a proxy takes its resources or nothing, closing it gives them back.
  \<^item> \<open>Server_Control\<close>, \<open>Server_Sessions\<close> (\<^verbatim>\<open>server/control.go\<close>): the handlers of one control, and all controls interleaved in
    the steps of their critical sections: ownership of proxies, isolation, quota of ports, order of work connections.
  \<^item> \<open>User_Conn\<close> (\<^verbatim>\<open>server/proxy/proxy.go\<close>): a user's connection is joined with a work connection that is alive.
  \<^item> \<open>Rate_Limit\<close> (\<^verbatim>\<open>pkg/util/limit\<close>): limited reads and writes end and keep within the burst.
  \<^item> \<open>Session_Protocol\<close>, \<open>Server_Service\<close> (\<^verbatim>\<open>server/service.go\<close>): the protocol by which a session replaces the previous one
    of its run, and the service, which refines it.
  \<^item> \<open>Ssh_Gateway\<close> (\<^verbatim>\<open>pkg/ssh\<close>): clients that the server creates for users of SSH; whom it lets in, and what their commands may be.
  \<^item> \<open>Dashboard\<close> (\<^verbatim>\<open>server/http\<close>): what the web interface of the server shows and hides.

  \<^bold>\<open>The client.\<close>
  \<^item> \<open>Client_Proxy\<close> (\<^verbatim>\<open>client/proxy/proxy_wrapper.go\<close>, \<^verbatim>\<open>client/health\<close>, \<^verbatim>\<open>pkg/naming\<close>): the phases of a proxy, what it sends,
    its timeouts and health checks.
  \<^item> \<open>Visitor_Config\<close>, \<open>Reconcile\<close>, \<open>Client_Managers\<close> (\<^verbatim>\<open>client/proxy/proxy_manager.go\<close>, \<^verbatim>\<open>client/visitor/visitor_manager.go\<close>): reloading
    leaves unchanged proxies and visitors alone and replaces the others.
  \<^item> \<open>Config_Source\<close> (\<^verbatim>\<open>pkg/config/source\<close>): file and store; the store refines a table, and a crash at any system call
    leaves it with the state before or after the change.
  \<^item> \<open>Client_Service\<close> (\<^verbatim>\<open>client/service.go\<close>, \<^verbatim>\<open>client/control.go\<close>, \<^verbatim>\<open>client/config_manager.go\<close>): a connected client runs exactly the effective
    configuration, unless a reload falls into a login.
  \<^item> \<open>Admin_Api\<close> (\<^verbatim>\<open>client/http\<close>, \<^verbatim>\<open>client/api_router.go\<close>): the administration interface, which implements tables of proxies and visitors for those
    who have its credentials.
  \<^item> \<open>Backoff\<close> (\<^verbatim>\<open>pkg/util/wait\<close>): bounds and growth of the waits between attempts.
  \<^item> \<open>Feature_Gate\<close>, \<open>Common_Config\<close> (\<^verbatim>\<open>pkg/policy\<close>, \<^verbatim>\<open>pkg/config/v1\<close>, \<^verbatim>\<open>pkg/auth/auth.go\<close>): the settings of client and server, their completion,
    exactly when validation accepts them, and the choice of the authentication method, which a validated configuration defines.
  \<^item> \<open>Client_Start\<close> (\<^verbatim>\<open>cmd/frpc/sub/root.go\<close>, \<^verbatim>\<open>pkg/config/load.go\<close>): from a configuration file to a running service; what runs has
    passed validation.
  \<^item> \<open>Legacy_Config\<close> (\<^verbatim>\<open>pkg/config/legacy\<close>): files of the old format; their defaults, the sections that ranges of ports stand for, which proxies
    and visitors are loaded, and their conversion.
  \<^item> \<open>Msg_Transport\<close> (\<^verbatim>\<open>pkg/msg/handler.go\<close>, \<^verbatim>\<open>pkg/transport/message.go\<close>): messages leave in order, answers reach the calls that wait.
  \<^item> \<open>Make_Hole\<close> (\<^verbatim>\<open>pkg/nathole/nathole.go\<close>, \<^verbatim>\<open>discovery.go\<close>, \<^verbatim>\<open>utils.go\<close>): discovery of the mapped addresses, the sockets, targets and
    packets of hole punching; two sides that find a hole have found the same one.
  \<^item> \<open>Client_Visitors\<close> (\<^verbatim>\<open>client/visitor\<close>, \<^verbatim>\<open>client/proxy/xtcp.go\<close>): visitors of secret proxies, by way of the server and peer to peer; who
    owns the sockets of a tunnel, and when a user is served.
  \<^item> \<open>Udp_Forward\<close> (\<^verbatim>\<open>pkg/proto/udp/udp.go\<close>): packets of UDP users in a work connection and their answers. \<open>Udp_Proxies\<close> (\<^verbatim>\<open>client/visitor/sudp.go\<close>, \<^verbatim>\<open>client/proxy/udp.go\<close>,
    \<^verbatim>\<open>client/proxy/sudp.go\<close>, \<^verbatim>\<open>server/proxy/udp.go\<close>): the goroutines around these work connections; order and loss of packets, and how they end.
  \<^item> \<open>Vnet\<close> (\<^verbatim>\<open>pkg/vnet\<close>, \<^verbatim>\<open>pkg/plugin/visitor/virtual_net.go\<close>): framing and routing of the packets of the virtual network; the search for the
    connection and the write to it are steps of their own, between which connections may end.

  \<^bold>\<open>Client and server together.\<close>
  \<^item> \<open>End_To_End\<close>: the messages of a client handled by its control on the server.
  \<^item> \<open>Heartbeat\<close> (\<^verbatim>\<open>client/control.go\<close>): pings and answers keep a session alive.
  \<^item> \<open>Transport\<close> (\<^verbatim>\<open>client/connector.go\<close>, \<^verbatim>\<open>server/service.go\<close>, \<^verbatim>\<open>pkg/transport/tls.go\<close>): how a connection opens, and which settings and
    certificates of client and server fit.
  \<^item> \<open>Conn_Layers\<close> (\<^verbatim>\<open>client/proxy/proxy.go\<close>, \<^verbatim>\<open>server/proxy/proxy.go\<close>, \<^verbatim>\<open>server/proxy/http.go\<close>): limiter, encryption and compression on both ends of a connection;
    bytes and the address of the user arrive as they were sent.
  \<^item> \<open>Session_Start\<close>: a client logs in to a server, both from their configurations, and replaces its former session.

  \<^bold>\<open>Loops and fuel.\<close> Loops over data are structural recursions. The retry loop of the group controllers recurses over the list of
  what other goroutines do between its rounds; the loops of \<open>ParseRangeNumbers\<close>, of limited writes and over the file of
  authorized keys are partial functions with value \<open>None\<close> if they do not return. Loops that serve for ever are given by one round.

  \<^bold>\<open>Granularity and idealisations.\<close> The proxy manager and a control have a mutex each; \<open>register_commit\<close> and \<open>CloseProxy\<close> change both in one step, so that
  the moment at which a name is free in the manager and still in the control is not a state of the model. \<open>makeNatHole\<close>, some seconds of exchange in the code, is one step of a visitor.
  In \<open>hole_step\<close> the receiver's address does not depend on the destination, and only packets of the session are in the network. The
  routes of the administration interface are given with their methods; a request with another method and static files are left out, and the goroutine that closes the service after a stop
  is not followed. \<^verbatim>\<open>int\<close> has 64 bits. That store files are decoded as they were written (\<open>codec_ok\<close>) is an assumption,
  and a verifier of OIDC tokens is a function that always answers.

  \<^bold>\<open>Not modelled.\<close> Sockets, and the inside of TLS, KCP, QUIC, multiplexing, encryption and compression, which are third-party
  packages or I/O; decoding of configuration files; client plugins; static files of the web
  interfaces and the exporter of metrics; the copying of bytes between two connections.
\<close>

end
